(* ===== verification/Prelude.thy ===== *)
theory Prelude
  imports Main "HOL-Library.Word"
begin

text \<open>
  The vocabulary shared by every component: the machine types of the Rust
  source, the two map containers the daemon uses (an ordered map, iterated in
  key order, and a hash map, iterated in an arbitrary but fixed order), the
  interface both provide, and the generic facts on lists and words that the
  component theories use.

  A Rust string is its UTF-8 byte sequence, so that the length of the list is
  what \<open>String::len\<close> returns. A byte vector is a list of 8-bit words.
\<close>

named_theorems size_defs \<open>definitional equations of the wire-size estimator\<close>
named_theorems store_simps \<open>how an operation on the channel store reads back\<close>
named_theorems state_simps \<open>how a session-state operation reads back field by field\<close>

type_synonym u8 = "8 word"
type_synonym u16 = "16 word"
type_synonym u32 = "32 word"
type_synonym u64 = "64 word"
type_synonym usize = "64 word"
type_synonym i64 = int
type_synonym bytes = "8 word list"

section \<open>Finite maps\<close>

text \<open>
  What a client of \<open>BTreeMap\<close> or \<open>HashMap\<close> relies on: looking up after an
  insertion, a removal, and that both keep the representation invariant.
\<close>

locale kv_map =
  fixes kempty :: "'m"
    and kget :: "'m \<Rightarrow> 'k \<Rightarrow> 'v option"
    and kput :: "'k \<Rightarrow> 'v \<Rightarrow> 'm \<Rightarrow> 'm"
    and kdel :: "'k \<Rightarrow> 'm \<Rightarrow> 'm"
    and kinv :: "'m \<Rightarrow> bool"
  assumes get_empty: "kget kempty k = None"
    and get_put: "kinv m \<Longrightarrow> kget (kput k v m) k' = (if k' = k then Some v else kget m k')"
    and get_del: "kinv m \<Longrightarrow> kget (kdel k m) k' = (if k' = k then None else kget m k')"
    and inv_empty: "kinv kempty"
    and inv_put: "kinv m \<Longrightarrow> kinv (kput k v m)"
    and inv_del: "kinv m \<Longrightarrow> kinv (kdel k m)"
begin

lemma inv_fold_put: "kinv m \<Longrightarrow> kinv (fold (\<lambda>(k, v). kput k v) kvs m)"
  by (induction kvs arbitrary: m) (auto simp: inv_put)

lemma inv_fold_del: "kinv m \<Longrightarrow> kinv (fold kdel ks m)"
  by (induction ks arbitrary: m) (auto simp: inv_del)

lemma get_fold_put:
  "kinv m \<Longrightarrow> kget (fold (\<lambda>(k, v). kput k v) kvs m) k =
     (case map_of (rev kvs) k of Some v \<Rightarrow> Some v | None \<Rightarrow> kget m k)"
  by (induction kvs arbitrary: m)
     (auto simp: inv_put get_put map_add_def split: option.splits)

lemma get_fold_del:
  "kinv m \<Longrightarrow> kget (fold kdel ks m) k = (if k \<in> set ks then None else kget m k)"
  by (induction ks arbitrary: m) (auto simp: inv_del get_del)

lemma get_put_del: "kinv m \<Longrightarrow> kget (kput k v (kdel k m)) = kget (kput k v m)"
  by (rule ext) (simp add: get_put get_del inv_del)

end

subsection \<open>BTreeMap: an association list in strictly ascending key order\<close>

fun btm_insert :: "'k::linorder \<Rightarrow> 'v \<Rightarrow> ('k \<times> 'v) list \<Rightarrow> ('k \<times> 'v) list" where
  "btm_insert k v [] = [(k, v)]"
| "btm_insert k v ((k', v') # m) =
     (if k < k' then (k, v) # (k', v') # m
      else if k = k' then (k, v) # m
      else (k', v') # btm_insert k v m)"

definition btm_remove :: "'k \<Rightarrow> ('k \<times> 'v) list \<Rightarrow> ('k \<times> 'v) list" where
  "btm_remove k m = filter (\<lambda>(k', _). k' \<noteq> k) m"

text \<open>\<open>get_mut\<close> followed by an assignment: absent keys leave the map as it is.\<close>

fun btm_update :: "'k \<Rightarrow> ('v \<Rightarrow> 'v) \<Rightarrow> ('k \<times> 'v) list \<Rightarrow> ('k \<times> 'v) list" where
  "btm_update k f [] = []"
| "btm_update k f ((k', v) # m) =
     (if k = k' then (k', f v) # m else (k', v) # btm_update k f m)"

definition btm_ok :: "('k::linorder \<times> 'v) list \<Rightarrow> bool" where
  "btm_ok m \<longleftrightarrow> sorted_wrt (<) (map fst m)"

lemma btm_ok_Nil [simp]: "btm_ok []"
  by (simp add: btm_ok_def)

lemma btm_ok_Cons: "btm_ok ((k, v) # m) \<longleftrightarrow> (\<forall>k' \<in> fst ` set m. k < k') \<and> btm_ok m"
  by (auto simp: btm_ok_def)

lemma btm_insert_keys: "fst ` set (btm_insert k v m) = insert k (fst ` set m)"
  by (induction k v m rule: btm_insert.induct) (simp_all add: insert_commute)

lemma btm_ok_insert [intro]: "btm_ok m \<Longrightarrow> btm_ok (btm_insert k v m)"
proof (induction m)
  case (Cons kv m)
  obtain k' v' where kv: "kv = (k', v')" by (cases kv)
  have rest: "\<forall>j \<in> fst ` set m. k' < j" and okm: "btm_ok m"
    using Cons.prems by (auto simp: kv btm_ok_Cons)
  consider "k < k'" | "k = k'" | "k' < k" by (rule linorder_cases)
  then show ?case
  proof cases
    case 3
    then have "btm_ok (btm_insert k v m)" using Cons.IH okm by simp
    then show ?thesis using 3 rest by (auto simp: kv btm_ok_Cons btm_insert_keys)
  qed (use rest okm in \<open>auto simp: kv btm_ok_Cons\<close>)
qed (simp add: btm_ok_def)

lemma map_of_btm_insert: "map_of (btm_insert k v m) k' = (if k' = k then Some v else map_of m k')"
  by (induction m) auto

lemma btm_ok_filter [intro]: "btm_ok m \<Longrightarrow> btm_ok (filter P m)"
  by (induction m) (auto simp: btm_ok_Cons)

lemma btm_ok_remove: "btm_ok m \<Longrightarrow> btm_ok (btm_remove k m)"
  by (auto simp: btm_remove_def)

lemma map_of_btm_remove: "map_of (btm_remove k m) k' = (if k' = k then None else map_of m k')"
  by (induction m) (auto simp: btm_remove_def)

interpretation btm: kv_map "[]" map_of btm_insert btm_remove btm_ok
  by unfold_locales (auto simp: map_of_btm_insert map_of_btm_remove btm_ok_remove)

lemma btm_update_keys [simp]: "map fst (btm_update k f m) = map fst m"
  by (induction m) auto

lemma btm_ok_update [simp]: "btm_ok (btm_update k f m) = btm_ok m"
  by (simp add: btm_ok_def)

lemma map_of_btm_update:
  "map_of (btm_update k f m) k' = (if k' = k then map_option f (map_of m k) else map_of m k')"
  by (induction m) auto

lemma length_btm_update [simp]: "length (btm_update k f m) = length m"
  by (induction m) auto

lemma btm_update_absent: "k \<notin> fst ` set m \<Longrightarrow> btm_update k f m = m"
  by (induction m) auto

lemma btm_insert_beyond: "\<forall>k' \<in> fst ` set m. k' < k \<Longrightarrow> btm_insert k v m = m @ [(k, v)]"
  by (induction m) auto

lemma btm_ok_distinct: "btm_ok m \<Longrightarrow> distinct (map fst m)"
  by (simp add: btm_ok_def strict_sorted_iff)

lemma btm_ok_map_of: "btm_ok m \<Longrightarrow> map_of m k = Some v \<longleftrightarrow> (k, v) \<in> set m"
  by (simp add: btm_ok_distinct)

subsection \<open>HashMap: an association list with distinct keys in an arbitrary order\<close>

text \<open>
  Rust's hash map promises no iteration order. The order of the list stands for
  whatever order the run has; no property below depends on it.
\<close>

fun hm_insert :: "'k \<Rightarrow> 'v \<Rightarrow> ('k \<times> 'v) list \<Rightarrow> ('k \<times> 'v) list" where
  "hm_insert k v [] = [(k, v)]"
| "hm_insert k v ((k', v') # m) =
     (if k = k' then (k, v) # m else (k', v') # hm_insert k v m)"

definition hm_remove :: "'k \<Rightarrow> ('k \<times> 'v) list \<Rightarrow> ('k \<times> 'v) list" where
  "hm_remove k m = filter (\<lambda>(k', _). k' \<noteq> k) m"

definition hm_ok :: "('k \<times> 'v) list \<Rightarrow> bool" where
  "hm_ok m \<longleftrightarrow> distinct (map fst m)"

lemma hm_ok_Nil [simp]: "hm_ok []"
  by (simp add: hm_ok_def)

lemma hm_insert_keys: "fst ` set (hm_insert k v m) = insert k (fst ` set m)"
  by (induction k v m rule: hm_insert.induct) (simp_all add: insert_commute)

lemma hm_ok_insert [intro]: "hm_ok m \<Longrightarrow> hm_ok (hm_insert k v m)"
  by (induction k v m rule: hm_insert.induct) (auto simp: hm_ok_def hm_insert_keys)

lemma hm_ok_filter [intro]: "hm_ok m \<Longrightarrow> hm_ok (filter P m)"
  by (induction m) (auto simp: hm_ok_def)

lemma map_of_hm_insert: "map_of (hm_insert k v m) k' = (if k' = k then Some v else map_of m k')"
  by (induction m) auto

lemma hm_ok_remove: "hm_ok m \<Longrightarrow> hm_ok (hm_remove k m)"
  by (auto simp: hm_remove_def)

lemma map_of_hm_remove: "map_of (hm_remove k m) k' = (if k' = k then None else map_of m k')"
  by (induction m) (auto simp: hm_remove_def)

lemma hm_remove_keys: "fst ` set (hm_remove k m) = fst ` set m - {k}"
  by (auto simp: hm_remove_def image_iff)

interpretation hm: kv_map "[]" map_of hm_insert hm_remove hm_ok
  by unfold_locales (auto simp: map_of_hm_insert map_of_hm_remove hm_ok_remove)

section \<open>Machine integers\<close>

text \<open>Rust's saturating operations on unsigned integers.\<close>

definition saturating_sub :: "'a::len word \<Rightarrow> 'a word \<Rightarrow> 'a word" where
  "saturating_sub a b = (if a \<le> b then 0 else a - b)"

definition saturating_add :: "'a::len word \<Rightarrow> 'a word \<Rightarrow> 'a word" where
  "saturating_add a b = (if unat a + unat b < 2 ^ LENGTH('a) then a + b else - 1)"

definition saturating_mul :: "'a::len word \<Rightarrow> 'a word \<Rightarrow> 'a word" where
  "saturating_mul a b = (if unat a * unat b < 2 ^ LENGTH('a) then a * b else - 1)"

lemma unat_saturating_sub: "unat (saturating_sub a b) = unat a - unat b"
  by (auto simp: saturating_sub_def word_le_nat_alt unat_sub)

lemma unat_max_word: "unat (- 1 :: 'a::len word) = 2 ^ LENGTH('a) - 1"
  by transfer (simp add: take_bit_minus_one_eq_mask mask_eq_exp_minus_1 nat_diff_distrib nat_power_eq)

lemma unat_saturating_add:
  "unat (saturating_add a (b :: 'a::len word)) = min (unat a + unat b) (2 ^ LENGTH('a) - 1)"
  by (auto simp: saturating_add_def unat_word_ariths unat_max_word)

lemma unat_saturating_mul:
  "unat (saturating_mul a (b :: 'a::len word)) = min (unat a * unat b) (2 ^ LENGTH('a) - 1)"
  by (auto simp: saturating_mul_def unat_word_ariths unat_max_word)

section \<open>Decimal rendering\<close>

text \<open>How Rust's formatter prints an unsigned integer.\<close>

fun show_nat :: "nat \<Rightarrow> string" where
  "show_nat n =
     (if n < 10 then [char_of (48 + n)] else show_nat (n div 10) @ [char_of (48 + n mod 10)])"

declare show_nat.simps [simp del]

text \<open>Reading back what the decimal rendering prints.\<close>

definition digits_value :: "string \<Rightarrow> nat" where
  "digits_value s = fold (\<lambda>c acc. 10 * acc + (of_char c - 48)) s 0"

lemma digits_value_show_nat [simp]: "digits_value (show_nat n) = n"
proof (induction n rule: less_induct)
  case (less n)
  show ?case
  proof (cases "n < 10")
    case True
    then show ?thesis by (simp add: show_nat.simps [of n] digits_value_def of_char_of)
  next
    case False
    then have "digits_value (show_nat (n div 10)) = n div 10" using less by simp
    then show ?thesis
      using False by (simp add: show_nat.simps [of n] digits_value_def of_char_of)
  qed
qed

lemma show_nat_inject: "show_nat m = show_nat n \<longleftrightarrow> m = n"
  by (metis digits_value_show_nat)

section \<open>Lists\<close>

lemma sum_list_map_append: "(\<Sum>x\<leftarrow>xs @ ys. f x) = (\<Sum>x\<leftarrow>xs. f x) + (\<Sum>x\<leftarrow>ys. f x)"
  for f :: "'a \<Rightarrow> 'b::monoid_add"
  by simp

lemma filter_partition_length:
  "length (filter P xs) + length (filter (\<lambda>x. \<not> P x) xs) = length xs"
  by (induction xs) auto

end
