(* ===== verification/Proto_Types.thy ===== *)
theory Proto_Types
  imports Prelude
begin

text \<open>
  The wire vocabulary of choreo-proto (\<open>src/choreo-proto/src/types/\<close>) and the
  stored credential of choreo-shared (\<open>credential.rs\<close>): the persisted turn, the
  session summary and status, the session events a run fans out, the daemon's
  replies and broadcasts, the client's requests with their payload-free
  discriminant, and the pure operations the types carry.

  Structs are records and enums are datatypes with the source's variants, whose
  arguments are in the order of the source's fields. Timestamps are integers;
  every other number has its machine width.
\<close>

section \<open>Leaf types (types/common.rs)\<close>

record ReasoningCapability =
  available_effort_levels :: "string list"

record ContextConfig =
  context_file_names :: "string list"
  context_file_max_bytes :: usize
  disable_claude_code_prompt :: bool

definition default_context_file_names :: "string list" where
  "default_context_file_names = [''AGENTS.md'', ''CLAUDE.md'']"

definition default_context_file_max_bytes :: usize where
  "default_context_file_max_bytes = 32 * 1024"

definition ContextConfig_default :: ContextConfig where
  "ContextConfig_default =
     \<lparr>context_file_names = default_context_file_names,
      context_file_max_bytes = default_context_file_max_bytes,
      disable_claude_code_prompt = False\<rparr>"

datatype OAuthKind = OK_Provider | OK_Mcp

datatype OAuthGrantEncoding = GE_Form | GE_Json

datatype OAuthClientIdentity = CI_Registered | CI_Borrowed | CI_Delegate

record OAuthProviderDescriptor =
  opd_provider :: string
  opd_issuer :: string
  opd_authorize_path :: string
  opd_token_path :: string
  opd_client_id :: "string option"
  opd_scopes :: "string list"
  opd_redirect_ports :: "u16 list"
  opd_code_exchange_encoding :: OAuthGrantEncoding
  opd_refresh_encoding :: OAuthGrantEncoding
  opd_client_identity :: OAuthClientIdentity
  opd_device_code :: bool
  opd_device_authorization_path :: "string option"
  opd_device_token_path :: "string option"

record TokenUsage =
  input_tokens :: u32
  output_tokens :: u32
  total_tokens :: u32
  cached_tokens :: u32
  cache_write_tokens :: u32

definition TokenUsage_default :: TokenUsage where
  "TokenUsage_default =
     \<lparr>input_tokens = 0, output_tokens = 0, total_tokens = 0,
      cached_tokens = 0, cache_write_tokens = 0\<rparr>"

definition merge_max :: "TokenUsage \<Rightarrow> TokenUsage \<Rightarrow> TokenUsage" where
  "merge_max self other =
     \<lparr>input_tokens = max (input_tokens self) (input_tokens other),
      output_tokens = max (output_tokens self) (output_tokens other),
      total_tokens = max (total_tokens self) (total_tokens other),
      cached_tokens = max (cached_tokens self) (cached_tokens other),
      cache_write_tokens = max (cache_write_tokens self) (cache_write_tokens other)\<rparr>"

text \<open>
  Rust's \<open>+=\<close> on \<open>u32\<close> wraps in a release build; the sum of the words does the
  same.
\<close>

definition accumulate :: "TokenUsage \<Rightarrow> TokenUsage \<Rightarrow> TokenUsage" where
  "accumulate self other =
     \<lparr>input_tokens = input_tokens self + input_tokens other,
      output_tokens = output_tokens self + output_tokens other,
      total_tokens = total_tokens self + total_tokens other,
      cached_tokens = cached_tokens self + cached_tokens other,
      cache_write_tokens = cache_write_tokens self + cache_write_tokens other\<rparr>"

text \<open>\<open>Iterator::position\<close> on equality.\<close>

fun position_of :: "'a \<Rightarrow> 'a list \<Rightarrow> nat option" where
  "position_of x [] = None"
| "position_of x (y # ys) = (if y = x then Some 0 else map_option Suc (position_of x ys))"

definition cycle_from :: "ReasoningCapability \<Rightarrow> string \<Rightarrow> string option" where
  "cycle_from self current =
     (let levels = available_effort_levels self in
      if levels = [] then None
      else let pos = (case position_of current levels of Some p \<Rightarrow> p | None \<Rightarrow> 0);
               next = (pos + 1) mod length levels
           in if next < length levels then Some (levels ! next) else None)"

record DiscardedToolCall =
  dtc_name :: string
  dtc_arguments_json :: string

text \<open>
  The kind of an operating-system error and its text. Only the kinds the source
  tells apart have a constructor of their own.
\<close>

datatype io_error_kind =
    IO_NotFound
  | IO_ConnectionRefused
  | IO_ConnectionReset
  | IO_ConnectionAborted
  | IO_WriteZero
  | IO_BrokenPipe
  | IO_AlreadyExists
  | IO_InvalidData
  | IO_UnexpectedEof
  | IO_TimedOut
  | IO_WouldBlock
  | IO_Interrupted
  | IO_Unsupported
  | IO_Other

datatype io_error = IoError (io_kind: io_error_kind) (io_text: string)

datatype InferenceError =
    IE_Unauthorized u16 string
  | IE_RateLimited u16 "u64 option" string
  | IE_ServerError u16 string
  | IE_ClientError u16 string
  | IE_EmptyResponse
  | IE_NotReady string
  | IE_ContentFiltered string
  | IE_ContextWindowExceeded string
  | IE_Unsupported string
  | IE_Cancelled
  | IE_DeadlineExceeded
  | IE_TruncatedToolCall "DiscardedToolCall list"
  | IE_UnidentifiedToolCalls usize
  | IE_OAuthReloginRequired string
  | IE_Io io_error

fun metric_label :: "InferenceError \<Rightarrow> string" where
  "metric_label (IE_Unauthorized _ _) = ''unauthorized''"
| "metric_label (IE_RateLimited _ _ _) = ''rate_limited''"
| "metric_label (IE_ServerError _ _) = ''server_error''"
| "metric_label (IE_ClientError _ _) = ''client_error''"
| "metric_label IE_EmptyResponse = ''empty_response''"
| "metric_label (IE_NotReady _) = ''not_ready''"
| "metric_label (IE_ContentFiltered _) = ''content_filtered''"
| "metric_label (IE_ContextWindowExceeded _) = ''context_window_exceeded''"
| "metric_label (IE_Unsupported _) = ''unsupported''"
| "metric_label IE_Cancelled = ''cancelled''"
| "metric_label IE_DeadlineExceeded = ''deadline_exceeded''"
| "metric_label (IE_TruncatedToolCall _) = ''truncated_tool_call''"
| "metric_label (IE_UnidentifiedToolCalls _) = ''unidentified_tool_calls''"
| "metric_label (IE_OAuthReloginRequired _) = ''oauth_relogin_required''"
| "metric_label (IE_Io _) = ''other''"

record AccountInfo =
  ai_name :: string
  ai_provider :: string
  ai_has_credential :: bool

section \<open>Stored credentials (choreo-shared/src/credential.rs)\<close>

datatype ServiceCredential =
    SC_ApiKey string
  | SC_X string string string string "string option"
  | SC_Substrate string string bytes bytes
  | SC_OAuth OAuthKind "string option" "string option" "string option" "string option"
      "OAuthGrantEncoding option" "string option" "string option" "string option"
      "string option" "string list" "string option" "string option"

fun OAuthKind_debug :: "OAuthKind \<Rightarrow> string" where
  "OAuthKind_debug OK_Provider = ''Provider''"
| "OAuthKind_debug OK_Mcp = ''Mcp''"

text \<open>The one formatter behind both \<open>Display\<close> and \<open>Debug\<close>.\<close>

fun fmt_redacted :: "ServiceCredential \<Rightarrow> string" where
  "fmt_redacted (SC_ApiKey _) = ''ApiKey { key: *** }''"
| "fmt_redacted (SC_X _ _ _ _ _) =
     ''X { api_key: ***, api_key_secret: ***, access_token: ***, access_token_secret: ***, bearer_token: *** }''"
| "fmt_redacted (SC_Substrate _ _ _ _) = ''Substrate { name: ***, account_id: ***, seed: *** }''"
| "fmt_redacted (SC_OAuth kind _ _ _ _ _ _ _ _ _ _ _ _) =
     ''OAuth { kind: '' @ OAuthKind_debug kind @
     '', issuer: ***, resource: ***, authorization_server: ***, token_endpoint: ***, refresh_encoding: ***, refresh_token: ***, access_token: ***, account_id: ***, client_id: ***, client_secret: ***, granted_scopes: ***, token_type: *** }''"

record XCredentialView =
  xcv_api_key :: string
  xcv_api_key_secret :: string
  xcv_access_token :: string
  xcv_access_token_secret :: string
  xcv_bearer_token :: "string option"

record SubstrateCredentialView =
  scv_name :: string
  scv_account_id :: string
  scv_secret :: bytes
  scv_public :: bytes

record OAuthCredentialView =
  ocv_kind :: OAuthKind
  ocv_issuer :: "string option"
  ocv_resource :: "string option"
  ocv_authorization_server :: "string option"
  ocv_token_endpoint :: "string option"
  ocv_refresh_encoding :: "OAuthGrantEncoding option"
  ocv_refresh_token :: "string option"
  ocv_access_token :: "string option"
  ocv_account_id :: "string option"
  ocv_client_id :: "string option"
  ocv_client_secret :: "string option"
  ocv_granted_scopes :: "string list"
  ocv_token_type :: "string option"

fun as_x :: "ServiceCredential \<Rightarrow> XCredentialView option" where
  "as_x (SC_X api_key api_key_secret access_token access_token_secret bearer_token) =
     Some \<lparr>xcv_api_key = api_key, xcv_api_key_secret = api_key_secret,
           xcv_access_token = access_token, xcv_access_token_secret = access_token_secret,
           xcv_bearer_token = bearer_token\<rparr>"
| "as_x _ = None"

fun as_substrate :: "ServiceCredential \<Rightarrow> SubstrateCredentialView option" where
  "as_substrate (SC_Substrate name account_id secret public) =
     Some \<lparr>scv_name = name, scv_account_id = account_id, scv_secret = secret,
           scv_public = public\<rparr>"
| "as_substrate _ = None"

fun as_oauth :: "ServiceCredential \<Rightarrow> OAuthCredentialView option" where
  "as_oauth (SC_OAuth kind issuer resource authorization_server token_endpoint refresh_encoding
               refresh_token account_id client_id client_secret granted_scopes token_type
               access_token) =
     Some \<lparr>ocv_kind = kind, ocv_issuer = issuer, ocv_resource = resource,
           ocv_authorization_server = authorization_server,
           ocv_token_endpoint = token_endpoint, ocv_refresh_encoding = refresh_encoding,
           ocv_refresh_token = refresh_token, ocv_access_token = access_token,
           ocv_account_id = account_id, ocv_client_id = client_id,
           ocv_client_secret = client_secret, ocv_granted_scopes = granted_scopes,
           ocv_token_type = token_type\<rparr>"
| "as_oauth _ = None"

section \<open>Token accounting\<close>

text \<open>
  What every counter policy promises: the default is neutral, the order in which
  reports arrive does not matter, and reports may be grouped. The daemon folds
  reports with both policies, so what holds of a fold is proved once.
\<close>

locale usage_policy =
  fixes combine :: "TokenUsage \<Rightarrow> TokenUsage \<Rightarrow> TokenUsage"
  assumes combine_default: "combine u TokenUsage_default = u"
    and combine_commute: "combine u v = combine v u"
    and combine_assoc: "combine (combine u v) w = combine u (combine v w)"
begin

lemma fold_shift: "fold (\<lambda>v u. combine u v) us (combine a b) = combine a (fold (\<lambda>v u. combine u v) us b)"
  by (induction us arbitrary: b) (simp_all add: combine_assoc)

lemma fold_append:
  "fold (\<lambda>v u. combine u v) (us @ vs) TokenUsage_default =
     combine (fold (\<lambda>v u. combine u v) us TokenUsage_default)
             (fold (\<lambda>v u. combine u v) vs TokenUsage_default)"
  using fold_shift [of vs "fold (\<lambda>v u. combine u v) us TokenUsage_default" TokenUsage_default]
  by (simp add: combine_default)

lemma fold_rev:
  "fold (\<lambda>v u. combine u v) (rev us) TokenUsage_default =
     fold (\<lambda>v u. combine u v) us TokenUsage_default"
proof (induction us)
  case (Cons u us)
  have "fold (\<lambda>v u. combine u v) (rev (u # us)) TokenUsage_default =
      combine (fold (\<lambda>v u. combine u v) (rev us) TokenUsage_default)
              (fold (\<lambda>v u. combine u v) [u] TokenUsage_default)"
    by (simp add: combine_commute [of TokenUsage_default] combine_default)
  also have "\<dots> = combine (fold (\<lambda>v u. combine u v) [u] TokenUsage_default)
      (fold (\<lambda>v u. combine u v) us TokenUsage_default)"
    by (subst Cons.IH) (rule combine_commute)
  also have "\<dots> = fold (\<lambda>v u. combine u v) (u # us) TokenUsage_default"
    using fold_append [of "[u]" us] by simp
  finally show ?case .
qed simp

end

interpretation accumulating: usage_policy accumulate
  by unfold_locales (simp_all add: accumulate_def TokenUsage_default_def algebra_simps)

interpretation maximal: usage_policy merge_max
  by unfold_locales (simp_all add: merge_max_def TokenUsage_default_def max_absorb1 ac_simps)

definition usage_le :: "TokenUsage \<Rightarrow> TokenUsage \<Rightarrow> bool" where
  "usage_le u v \<longleftrightarrow> input_tokens u \<le> input_tokens v \<and> output_tokens u \<le> output_tokens v \<and>
     total_tokens u \<le> total_tokens v \<and> cached_tokens u \<le> cached_tokens v \<and>
     cache_write_tokens u \<le> cache_write_tokens v"

lemma usage_le_merge: "usage_le u (merge_max u v)"
  by (simp add: usage_le_def merge_max_def)

lemma merge_max_idem: "merge_max (merge_max u v) v = merge_max u v"
  by (simp add: merge_max_def)

section \<open>Cycling the reasoning effort\<close>

lemma position_of_Some: "position_of x xs = Some i \<Longrightarrow> i < length xs \<and> xs ! i = x"
  by (induction xs arbitrary: i) (auto split: if_splits)

lemma position_of_nth: "distinct xs \<Longrightarrow> i < length xs \<Longrightarrow> position_of (xs ! i) xs = Some i"
proof (induction xs arbitrary: i)
  case (Cons x xs)
  show ?case using Cons by (cases i) (auto simp: nth_Cons')
qed simp

lemma position_of_None: "position_of x xs = None \<longleftrightarrow> x \<notin> set xs"
  by (induction xs) auto

lemma cycle_from_nth:
  assumes "distinct (available_effort_levels cap)" and "i < length (available_effort_levels cap)"
  shows "cycle_from cap (available_effort_levels cap ! i) =
    Some (available_effort_levels cap ! ((i + 1) mod length (available_effort_levels cap)))"
  using assms by (auto simp: cycle_from_def Let_def position_of_nth)

text \<open>Pressing the key \<open>n\<close> times.\<close>

fun cycle_times :: "nat \<Rightarrow> ReasoningCapability \<Rightarrow> string \<Rightarrow> string option" where
  "cycle_times 0 cap current = Some current"
| "cycle_times (Suc n) cap current = (case cycle_from cap current of
     None \<Rightarrow> None | Some next \<Rightarrow> cycle_times n cap next)"

lemma cycle_times_nth:
  assumes "distinct (available_effort_levels cap)" and "i < length (available_effort_levels cap)"
  shows "cycle_times n cap (available_effort_levels cap ! i) =
    Some (available_effort_levels cap ! ((i + n) mod length (available_effort_levels cap)))"
  using assms
proof (induction n arbitrary: i)
  case (Suc n)
  let ?k = "length (available_effort_levels cap)"
  have "(i + 1) mod ?k < ?k" using Suc.prems(2) by (cases ?k) auto
  then show ?case
    using Suc.IH [of "(i + 1) mod ?k"] Suc.prems
    by (simp add: cycle_from_nth mod_simps)
qed simp

end
