(* ===== verification/Proto_Session.thy ===== *)
theory Proto_Session
  imports Proto_Types
begin

text \<open>
  Session-scoped wire types (\<open>src/choreo-proto/src/types/session.rs\<close> and the
  leaf types of \<open>daemon.rs\<close> it uses): the persisted turn with its tool calls,
  results, images and reasoning payload; the session status; the summary row
  with its list order; and the 31 session events.
\<close>

datatype OutputStream = OS_Answer | OS_Reasoning

datatype ImageKey =
    IK_Displayed u32
  | IK_ToolResult string

record ImageMetadata =
  im_mime_type :: string
  im_width :: u32
  im_height :: u32
  im_byte_len :: u64
  im_alt :: "string option"

record DisplayedImageRecord =
  di_metadata :: ImageMetadata
  di_data :: bytes
  di_tool_call_id :: "string option"

record ToolCallCaller =
  tcc_kind :: string
  tcc_caller_id :: string

record AssistantToolCallRecord =
  tc_call_id :: string
  tc_name :: string
  tc_arguments_json :: string
  tc_caller :: "ToolCallCaller option"

record ImageReference =
  ir_path :: string
  ir_mime_type :: string
  ir_width :: u32
  ir_height :: u32
  ir_data :: bytes

record ToolResultRecord =
  tr_call_id :: string
  tr_name :: string
  tr_content :: string
  tr_is_error :: bool
  tr_invocation_description :: string
  tr_image :: "ImageReference option"

datatype ChatReasoningField =
    CRF_ReasoningContent
  | CRF_Reasoning
  | CRF_ReasoningText
  | CRF_ReasoningDetails

definition CHAT_REASONING_WIRE_KEYS :: "string list" where
  "CHAT_REASONING_WIRE_KEYS =
     [''reasoning_content'', ''reasoning'', ''reasoning_text'', ''reasoning_details'']"

definition ChatReasoningField_ALL :: "ChatReasoningField list" where
  "ChatReasoningField_ALL =
     [CRF_ReasoningContent, CRF_Reasoning, CRF_ReasoningText, CRF_ReasoningDetails]"

fun wire_name :: "ChatReasoningField \<Rightarrow> string" where
  "wire_name CRF_ReasoningContent = ''reasoning_content''"
| "wire_name CRF_Reasoning = ''reasoning''"
| "wire_name CRF_ReasoningText = ''reasoning_text''"
| "wire_name CRF_ReasoningDetails = ''reasoning_details''"

definition from_wire_name :: "string \<Rightarrow> ChatReasoningField option" where
  "from_wire_name name = List.find (\<lambda>field. wire_name field = name) ChatReasoningField_ALL"

datatype ReasoningArtifact =
    RA_ChatReasoning ChatReasoningField bytes
  | RA_AnthropicThinking bytes
  | RA_GoogleSignatures bytes
  | RA_ResponsesItems bytes

record ReasoningProducer =
  rp_provider_slug :: string
  rp_model :: string

record Turn =
  t_created_at :: i64
  t_undone :: bool
  t_error :: "string option"
  t_user_text :: "string option"
  t_assistant_text :: "string option"
  t_assistant_reasoning :: "string option"
  t_tool_calls :: "AssistantToolCallRecord list"
  t_token_usage :: "TokenUsage option"
  t_tool_results :: "ToolResultRecord list"
  t_displayed_images :: "DisplayedImageRecord list"
  t_reasoning_artifact :: "ReasoningArtifact option"
  t_reasoning_producer :: "ReasoningProducer option"

type_synonym turn_map = "(u32 \<times> Turn) list"

datatype SessionStatus =
    SS_Sleeping
  | SS_Inactive
  | SS_Sending
  | SS_Waiting
  | SS_Reasoning
  | SS_Responding
  | SS_ToolCall string
  | SS_Retrying u32 u32 u64

fun is_active :: "SessionStatus \<Rightarrow> bool" where
  "is_active SS_Sending = True"
| "is_active SS_Waiting = True"
| "is_active SS_Reasoning = True"
| "is_active SS_Responding = True"
| "is_active (SS_ToolCall _) = True"
| "is_active (SS_Retrying _ _ _) = True"
| "is_active _ = False"

fun is_idle :: "SessionStatus \<Rightarrow> bool" where
  "is_idle SS_Inactive = True"
| "is_idle _ = False"

record SessionSummary =
  sum_session_id :: u64
  sum_title :: "string option"
  sum_selected_model :: "string option"
  sum_reasoning_effort :: "string option"
  sum_parent_session_id :: "u64 option"
  sum_working_dir :: "string option"
  sum_created_at :: i64
  sum_last_modified :: i64
  sum_turn_count :: u32
  sum_status :: SessionStatus
  sum_active_tool_groups :: "string list"
  sum_account_name :: "string option"
  sum_token_usage :: "TokenUsage option"
  sum_context_window :: "u32 option"
  sum_last_prompt_tokens :: "u32 option"
  sum_pinned :: bool
  sum_archived_at :: "i64 option"

datatype ordering = Less | Equal | Greater

definition cmp :: "'a::linorder \<Rightarrow> 'a \<Rightarrow> ordering" where
  "cmp a b = (if a < b then Less else if a = b then Equal else Greater)"

fun then_with :: "ordering \<Rightarrow> ordering \<Rightarrow> ordering" where
  "then_with Equal o2 = o2"
| "then_with o1 _ = o1"

definition cmp_for_list :: "SessionSummary \<Rightarrow> SessionSummary \<Rightarrow> ordering" where
  "cmp_for_list self other =
     then_with (then_with (cmp (sum_pinned other) (sum_pinned self))
                          (cmp (sum_last_modified other) (sum_last_modified self)))
               (cmp (sum_session_id other) (sum_session_id self))"

datatype (plugins del: "quickcheck") SessionEvent =
    SE_SessionCreated "string option" "u64 option" "string option" "string option"
      "string option" "string option"
  | SE_SessionCreatedForRequester "string option" "u64 option" "string option" "string option"
      "string option" "string option"
  | SE_SessionAttached
  | SE_SessionState "string option" "string option" "u64 option" "string option" turn_map
      "string list" "TokenUsage option" "u32 option" "u32 option" SessionStatus
      "string option" "ReasoningCapability option"
  | SE_TurnAppended u32 Turn
  | SE_SessionStatusChanged SessionStatus i64
  | SE_SessionFailed string string
  | SE_Started u64 u32 u32
  | SE_ToolCallStarted u64 string string string string
  | SE_ToolCallFinished u64 string string
  | SE_ToolResultChunk u64 string bytes
  | SE_ToolCallFailed u64 string string string
  | SE_TokenUsageUpdate TokenUsage "u32 option"
  | SE_LiveOutputTokenCount u64 u32
  | SE_OutputChunk u64 OutputStream bytes
  | SE_Done u64 "TokenUsage option" "u32 option"
  | SE_Failed u64 string
  | SE_Cancelled u64
  | SE_ModelSelected string "ReasoningCapability option"
  | SE_ModelSelectionFailed string string
  | SE_SessionDeleted
  | SE_SessionDeleteFailed string
  | SE_SessionFlagsChanged bool "i64 option"
  | SE_TurnsUndone "u32 list"
  | SE_TurnsRedone turn_map
  | SE_SessionAccountSet string
  | SE_ContextWindowResolved u32
  | SE_SessionWorkingDirSet "string option"
  | SE_SessionTitleSet string
  | SE_ReasoningEffortSet string
  | SE_ReasoningEffortSetFailed string string

definition SessionEvent_started :: "u64 \<Rightarrow> u32 \<Rightarrow> u32 \<Rightarrow> SessionEvent" where
  "SessionEvent_started stream_id turn_id estimated_prompt_tokens =
     SE_Started stream_id turn_id estimated_prompt_tokens"

definition SessionEvent_kind :: "SessionEvent \<Rightarrow> string" where
  "SessionEvent_kind e = (case e of
     SE_SessionCreated _ _ _ _ _ _ \<Rightarrow> ''SessionCreated''
   | SE_SessionCreatedForRequester _ _ _ _ _ _ \<Rightarrow> ''SessionCreatedForRequester''
   | SE_SessionAttached \<Rightarrow> ''SessionAttached''
   | SE_SessionState _ _ _ _ _ _ _ _ _ _ _ _ \<Rightarrow> ''SessionState''
   | SE_TurnAppended _ _ \<Rightarrow> ''TurnAppended''
   | SE_SessionStatusChanged _ _ \<Rightarrow> ''SessionStatusChanged''
   | SE_SessionFailed _ _ \<Rightarrow> ''SessionFailed''
   | SE_Started _ _ _ \<Rightarrow> ''Started''
   | SE_ToolCallStarted _ _ _ _ _ \<Rightarrow> ''ToolCallStarted''
   | SE_ToolCallFinished _ _ _ \<Rightarrow> ''ToolCallFinished''
   | SE_ToolResultChunk _ _ _ \<Rightarrow> ''ToolResultChunk''
   | SE_ToolCallFailed _ _ _ _ \<Rightarrow> ''ToolCallFailed''
   | SE_TokenUsageUpdate _ _ \<Rightarrow> ''TokenUsageUpdate''
   | SE_LiveOutputTokenCount _ _ \<Rightarrow> ''LiveOutputTokenCount''
   | SE_OutputChunk _ _ _ \<Rightarrow> ''OutputChunk''
   | SE_Done _ _ _ \<Rightarrow> ''Done''
   | SE_Failed _ _ \<Rightarrow> ''Failed''
   | SE_Cancelled _ \<Rightarrow> ''Cancelled''
   | SE_ModelSelected _ _ \<Rightarrow> ''ModelSelected''
   | SE_ModelSelectionFailed _ _ \<Rightarrow> ''ModelSelectionFailed''
   | SE_SessionDeleted \<Rightarrow> ''SessionDeleted''
   | SE_SessionDeleteFailed _ \<Rightarrow> ''SessionDeleteFailed''
   | SE_SessionFlagsChanged _ _ \<Rightarrow> ''SessionFlagsChanged''
   | SE_TurnsUndone _ \<Rightarrow> ''TurnsUndone''
   | SE_TurnsRedone _ \<Rightarrow> ''TurnsRedone''
   | SE_SessionAccountSet _ \<Rightarrow> ''SessionAccountSet''
   | SE_ContextWindowResolved _ \<Rightarrow> ''ContextWindowResolved''
   | SE_SessionWorkingDirSet _ \<Rightarrow> ''SessionWorkingDirSet''
   | SE_SessionTitleSet _ \<Rightarrow> ''SessionTitleSet''
   | SE_ReasoningEffortSet _ \<Rightarrow> ''ReasoningEffortSet''
   | SE_ReasoningEffortSetFailed _ _ \<Rightarrow> ''ReasoningEffortSetFailed'')"

section \<open>Wire names\<close>

lemma wire_keys_are_names: "CHAT_REASONING_WIRE_KEYS = map wire_name ChatReasoningField_ALL"
  by (simp add: CHAT_REASONING_WIRE_KEYS_def ChatReasoningField_ALL_def)

lemma from_wire_name_iff: "from_wire_name name = Some field \<longleftrightarrow> wire_name field = name"
  by (cases field) (auto simp: from_wire_name_def ChatReasoningField_ALL_def split: if_splits)

lemma status_partition:
  "is_active st \<longleftrightarrow> \<not> is_idle st \<and> st \<noteq> SS_Sleeping"
  by (cases st) simp_all

section \<open>The list order\<close>

text \<open>
  A three-way comparator as the sort routines of the standard library require
  it: it agrees with itself when the arguments are swapped, and it is
  transitive. Chaining two comparators by \<open>then_with\<close> keeps both.
\<close>

fun reverse_ordering :: "ordering \<Rightarrow> ordering" where
  "reverse_ordering Less = Greater"
| "reverse_ordering Equal = Equal"
| "reverse_ordering Greater = Less"

locale comparator =
  fixes c :: "'a \<Rightarrow> 'a \<Rightarrow> ordering"
  assumes swap: "c y x = reverse_ordering (c x y)"
    and trans_less: "c x y = Less \<Longrightarrow> c y z = Less \<Longrightarrow> c x z = Less"
    and trans_equal: "c x y = Equal \<Longrightarrow> c x z = c y z"
begin

lemma refl_equal: "c x x = Equal"
  using swap [of x x] by (cases "c x x") auto

lemma antisym_equal: "c x y \<noteq> Greater \<Longrightarrow> c y x \<noteq> Greater \<Longrightarrow> c x y = Equal"
  using swap [of y x] by (cases "c x y") auto

lemma equal_right: "c y z = Equal \<Longrightarrow> c x z = c x y"
proof -
  assume "c y z = Equal"
  then have "c z y = Equal" using swap [of z y] by simp
  then have "c z x = c y x" by (rule trans_equal)
  then show "c x z = c x y" using swap by metis
qed

lemma trans_le: "c x y \<noteq> Greater \<Longrightarrow> c y z \<noteq> Greater \<Longrightarrow> c x z \<noteq> Greater"
  using trans_equal [of x y z] equal_right [of y z x] trans_less [of x y z]
  by (cases "c x y"; cases "c y z") auto

lemma total: "c x y \<noteq> Greater \<or> c y x \<noteq> Greater"
  using swap [of y x] by (cases "c x y") auto

end

interpretation descending: comparator "\<lambda>x y :: 'a :: linorder. cmp y x"
  by unfold_locales (auto simp: cmp_def split: if_splits)

lemma comparator_on: "comparator c \<Longrightarrow> comparator (\<lambda>x y. c (f x) (f y))"
  unfolding comparator_def by blast

lemma comparator_then:
  assumes a: "comparator a" and b: "comparator b"
  shows "comparator (\<lambda>x y. then_with (a x y) (b x y))"
proof
  fix x y z
  show "then_with (a y x) (b y x) = reverse_ordering (then_with (a x y) (b x y))"
    using comparator.swap [OF a, of y x] comparator.swap [OF b, of y x]
    by (cases "a x y") auto
  show "then_with (a x z) (b x z) = Less"
    if "then_with (a x y) (b x y) = Less" and "then_with (a y z) (b y z) = Less"
    using that comparator.trans_equal [OF a, of x y z] comparator.equal_right [OF a, of y z x]
      comparator.trans_less [OF a, of x y z] comparator.trans_less [OF b, of x y z]
    by (cases "a x y"; cases "a y z") auto
  show "then_with (a x z) (b x z) = then_with (a y z) (b y z)"
    if "then_with (a x y) (b x y) = Equal"
    using that comparator.trans_equal [OF a, of x y z] comparator.trans_equal [OF b, of x y z]
    by (cases "a x y") auto
qed

lemma comparator_field: "comparator (\<lambda>x y. cmp (f y) (f x))"
  by (rule comparator_on [OF descending.comparator_axioms, of f])

lemma comparator_cmp_for_list: "comparator cmp_for_list"
proof -
  have "comparator (\<lambda>x y. then_with (then_with (cmp (sum_pinned y) (sum_pinned x))
      (cmp (sum_last_modified y) (sum_last_modified x))) (cmp (sum_session_id y) (sum_session_id x)))"
    by (rule comparator_then [OF comparator_then [OF comparator_field [of sum_pinned]
          comparator_field [of sum_last_modified]] comparator_field [of sum_session_id]])
  then show ?thesis by (simp add: cmp_for_list_def [abs_def])
qed

interpretation list_order: comparator cmp_for_list
  by (rule comparator_cmp_for_list)

lemma cmp_for_list_Equal:
  "cmp_for_list a b = Equal \<longleftrightarrow>
     sum_pinned a = sum_pinned b \<and> sum_last_modified a = sum_last_modified b \<and>
     sum_session_id a = sum_session_id b"
  by (auto simp: cmp_for_list_def cmp_def split: if_splits)

definition listed :: "SessionSummary list \<Rightarrow> bool" where
  "listed rows \<longleftrightarrow> sorted_wrt (\<lambda>a b. cmp_for_list a b \<noteq> Greater) rows"

text \<open>
  Two lists that hold the same rows, with distinct session ids, and are both
  in list order are the same list: the daemon and a client that sort the same
  rows with the shared comparator always show the same order.
\<close>

theorem list_order_unique:
  assumes "listed xs" and "listed ys" and "set xs = set ys"
    and "distinct (map sum_session_id xs)" and "distinct (map sum_session_id ys)"
  shows "xs = ys"
  using assms
proof (induction xs arbitrary: ys)
  case (Cons x xs)
  obtain y ys' where ys: "ys = y # ys'" using Cons.prems(3) by (cases ys) auto
  have "x \<in> set (y # ys')" "y \<in> set (x # xs)" using Cons.prems(3) by (auto simp: ys)
  then have "cmp_for_list x y \<noteq> Greater" "cmp_for_list y x \<noteq> Greater"
    using Cons.prems(1,2) list_order.refl_equal by (auto simp: ys listed_def)
  then have "cmp_for_list x y = Equal" by (rule list_order.antisym_equal)
  then have same: "sum_session_id x = sum_session_id y" by (simp add: cmp_for_list_Equal)
  have xy: "x = y"
    using \<open>x \<in> set (y # ys')\<close> Cons.prems(5) same
    by (intro inj_onD [of sum_session_id "set ys"]) (auto simp: ys distinct_map)
  have "xs = ys'"
  proof (rule Cons.IH)
    have "x \<notin> set xs" "y \<notin> set ys'" using Cons.prems(4,5) by (auto simp: ys)
    then show "set xs = set ys'" using Cons.prems(3) xy by (auto simp: ys)
  qed (use Cons.prems in \<open>auto simp: ys listed_def\<close>)
  then show ?case by (simp add: ys xy)
qed simp

definition sample_row :: "u64 \<Rightarrow> i64 \<Rightarrow> bool \<Rightarrow> SessionSummary" where
  "sample_row sid modified pinned =
     \<lparr>sum_session_id = sid, sum_title = None, sum_selected_model = None,
      sum_reasoning_effort = None, sum_parent_session_id = None, sum_working_dir = None,
      sum_created_at = 0, sum_last_modified = modified, sum_turn_count = 0,
      sum_status = SS_Inactive, sum_active_tool_groups = [], sum_account_name = None,
      sum_token_usage = None, sum_context_window = None, sum_last_prompt_tokens = None,
      sum_pinned = pinned, sum_archived_at = None\<rparr>"

theorem list_order_unique_witness:
  "listed [sample_row 1 5 True, sample_row 3 9 False, sample_row 2 9 False] \<and>
   \<not> listed [sample_row 3 9 False, sample_row 1 5 True, sample_row 2 9 False]"
proof -
  let ?a = "sample_row 1 5 True" and ?b = "sample_row 3 9 False" and ?c = "sample_row 2 9 False"
  have l: "listed [?a, ?b, ?c]"
    by (simp add: listed_def cmp_for_list_def cmp_def sample_row_def)
  moreover have "[?a, ?b, ?c] \<noteq> [?b, ?a, ?c]" by (simp add: sample_row_def)
  ultimately show ?thesis
    using list_order_unique [OF l, of "[?b, ?a, ?c]"] by (auto simp: sample_row_def)
qed

end
