(* ===== verification/Proto_Messages.thy ===== *)
theory Proto_Messages
  imports Proto_Session
begin

text \<open>
  Connection-level wire types: the daemon's message envelope and variants
  (\<open>src/choreo-proto/src/types/daemon.rs\<close>), and the client's request envelope,
  its variants and their payload-free discriminant (\<open>client.rs\<close>).
\<close>

datatype RefreshStatus = RS_UpToDate | RS_Updated | RS_Forced

record CatalogProvider =
  cp_slug :: string
  cp_display_name :: string

datatype McpAuthState =
    MA_NotApplicable
  | MA_BearerToken
  | MA_NotLoggedIn
  | MA_OAuth
  | MA_Reauthentication

fun McpAuthState_label :: "McpAuthState \<Rightarrow> string" where
  "McpAuthState_label MA_NotApplicable = ''''"
| "McpAuthState_label MA_BearerToken = ''''"
| "McpAuthState_label MA_NotLoggedIn = ''not signed in''"
| "McpAuthState_label MA_OAuth = ''signed in''"
| "McpAuthState_label MA_Reauthentication = ''re-authentication required''"

record McpOAuthConfig =
  moc_client_id :: "string option"
  moc_callback_port :: "u16 option"
  moc_scopes :: "string list"
  moc_authorization_server :: "string option"
  moc_client_secret_env :: "string option"

record McpServerStatus =
  ms_slug :: string
  ms_tier :: string
  ms_transport :: string
  ms_target :: string
  ms_connected :: bool
  ms_tool_count :: usize
  ms_server_name :: "string option"
  ms_server_version :: "string option"
  ms_last_error :: "string option"
  ms_credential_key :: "string option"
  ms_auth :: McpAuthState
  ms_oauth :: "McpOAuthConfig option"

datatype KeystoreState = KS_Unbound | KS_Locked | KS_Unlocked

datatype (plugins del: "quickcheck") MessageKind =
    MK_CreateSession | MK_ListSessions | MK_SubscribeSessionsSummary
  | MK_UnsubscribeSessionsSummary | MK_AttachSession | MK_GetSessionState | MK_RunInput
  | MK_Cancel | MK_Ping | MK_GetCredential | MK_ListModels | MK_RefreshModels | MK_SetModel
  | MK_Unlock | MK_Lock | MK_BindKeystore | MK_AddCredential | MK_RemoveCredential | MK_AclAdd
  | MK_DeleteSession | MK_SetSessionPinned | MK_SetSessionArchived | MK_AddAccount
  | MK_RemoveAccount | MK_ListAccounts | MK_ListOAuthProviders | MK_SetSessionAccount
  | MK_SetReasoningEffort | MK_GetReasoningEffort | MK_Undo | MK_Redo | MK_ContinueGeneration
  | MK_GetImage | MK_McpStatusRequest | MK_McpReconnect | MK_McpReload | MK_McpTrust
  | MK_McpUntrust | MK_McpTrustList | MK_SubscribeAllActivity | MK_UnsubscribeAllActivity

datatype (plugins del: "quickcheck") ClientMessageType =
    CM_CreateSession "string option" "u64 option" "string option" "ContextConfig option"
      "string option" "string option" "string option"
  | CM_ListSessions
  | CM_SubscribeSessionsSummary
  | CM_UnsubscribeSessionsSummary
  | CM_AttachSession u64
  | CM_GetSessionState u64
  | CM_RunInput bytes
  | CM_Cancel u64
  | CM_Ping
  | CM_GetCredential string
  | CM_ListModels
  | CM_RefreshModels bool
  | CM_SetModel string
  | CM_Unlock bytes
  | CM_Lock
  | CM_BindKeystore bytes
  | CM_AddCredential string ServiceCredential
  | CM_RemoveCredential string
  | CM_AclAdd string
  | CM_DeleteSession u64
  | CM_SetSessionPinned u64 bool
  | CM_SetSessionArchived u64 bool
  | CM_AddAccount string string "string option" "bool option" "u32 option" "u64 option"
      "u64 option" "u64 option"
  | CM_RemoveAccount string
  | CM_ListAccounts
  | CM_ListOAuthProviders
  | CM_SetSessionAccount string
  | CM_SetReasoningEffort string
  | CM_GetReasoningEffort
  | CM_Undo
  | CM_Redo
  | CM_ContinueGeneration
  | CM_GetImage u64 u32 ImageKey
  | CM_McpStatusRequest
  | CM_McpReconnect string
  | CM_McpReload
  | CM_McpTrust
  | CM_McpUntrust
  | CM_McpTrustList
  | CM_SubscribeAllActivity
  | CM_UnsubscribeAllActivity

record ClientMessage =
  cmsg_id :: u64
  cmsg_inner :: ClientMessageType

definition ClientMessage_request :: "u64 \<Rightarrow> ClientMessageType \<Rightarrow> ClientMessage" where
  "ClientMessage_request rid inner = \<lparr>cmsg_id = rid, cmsg_inner = inner\<rparr>"

definition MessageKind_from :: "ClientMessageType \<Rightarrow> MessageKind" where
  "MessageKind_from message = (case message of
     CM_CreateSession _ _ _ _ _ _ _ \<Rightarrow> MK_CreateSession
   | CM_ListSessions \<Rightarrow> MK_ListSessions
   | CM_SubscribeSessionsSummary \<Rightarrow> MK_SubscribeSessionsSummary
   | CM_UnsubscribeSessionsSummary \<Rightarrow> MK_UnsubscribeSessionsSummary
   | CM_AttachSession _ \<Rightarrow> MK_AttachSession
   | CM_GetSessionState _ \<Rightarrow> MK_GetSessionState
   | CM_RunInput _ \<Rightarrow> MK_RunInput
   | CM_Cancel _ \<Rightarrow> MK_Cancel
   | CM_Ping \<Rightarrow> MK_Ping
   | CM_GetCredential _ \<Rightarrow> MK_GetCredential
   | CM_ListModels \<Rightarrow> MK_ListModels
   | CM_RefreshModels _ \<Rightarrow> MK_RefreshModels
   | CM_SetModel _ \<Rightarrow> MK_SetModel
   | CM_Unlock _ \<Rightarrow> MK_Unlock
   | CM_Lock \<Rightarrow> MK_Lock
   | CM_BindKeystore _ \<Rightarrow> MK_BindKeystore
   | CM_AddCredential _ _ \<Rightarrow> MK_AddCredential
   | CM_RemoveCredential _ \<Rightarrow> MK_RemoveCredential
   | CM_AclAdd _ \<Rightarrow> MK_AclAdd
   | CM_DeleteSession _ \<Rightarrow> MK_DeleteSession
   | CM_SetSessionPinned _ _ \<Rightarrow> MK_SetSessionPinned
   | CM_SetSessionArchived _ _ \<Rightarrow> MK_SetSessionArchived
   | CM_AddAccount _ _ _ _ _ _ _ _ \<Rightarrow> MK_AddAccount
   | CM_RemoveAccount _ \<Rightarrow> MK_RemoveAccount
   | CM_ListAccounts \<Rightarrow> MK_ListAccounts
   | CM_ListOAuthProviders \<Rightarrow> MK_ListOAuthProviders
   | CM_SetSessionAccount _ \<Rightarrow> MK_SetSessionAccount
   | CM_SetReasoningEffort _ \<Rightarrow> MK_SetReasoningEffort
   | CM_GetReasoningEffort \<Rightarrow> MK_GetReasoningEffort
   | CM_Undo \<Rightarrow> MK_Undo
   | CM_Redo \<Rightarrow> MK_Redo
   | CM_ContinueGeneration \<Rightarrow> MK_ContinueGeneration
   | CM_GetImage _ _ _ \<Rightarrow> MK_GetImage
   | CM_McpStatusRequest \<Rightarrow> MK_McpStatusRequest
   | CM_McpReconnect _ \<Rightarrow> MK_McpReconnect
   | CM_McpReload \<Rightarrow> MK_McpReload
   | CM_McpTrust \<Rightarrow> MK_McpTrust
   | CM_McpUntrust \<Rightarrow> MK_McpUntrust
   | CM_McpTrustList \<Rightarrow> MK_McpTrustList
   | CM_SubscribeAllActivity \<Rightarrow> MK_SubscribeAllActivity
   | CM_UnsubscribeAllActivity \<Rightarrow> MK_UnsubscribeAllActivity)"

definition ClientMessageType_kind :: "ClientMessageType \<Rightarrow> MessageKind" where
  "ClientMessageType_kind self = MessageKind_from self"

datatype (plugins del: "quickcheck") DaemonMessageType =
    DM_Session "u64 option" SessionEvent
  | DM_Sessions "SessionSummary list"
  | DM_Pong
  | DM_Models "string list" "string option" bool
  | DM_ModelsFailed string
  | DM_ModelsUpdated string "string list"
  | DM_Unlocked
  | DM_Locked
  | DM_Keystore KeystoreState
  | DM_LockedError string
  | DM_Bound
  | DM_KeystoreUnbound string
  | DM_CredentialAdded string
  | DM_CredentialAddFailed string string
  | DM_CredentialRemoved string
  | DM_CredentialRemoveFailed string string
  | DM_AclAddResult bool string
  | DM_AclUpdated u64
  | DM_Credential string "string option"
  | DM_AccountAdded string
  | DM_AccountAddFailed string string
  | DM_AccountRemoved string
  | DM_AccountRemoveFailed string string
  | DM_Accounts "AccountInfo list"
  | DM_OAuthProviders "OAuthProviderDescriptor list"
  | DM_AccountListFailed string
  | DM_ModelsRefreshed usize usize RefreshStatus
  | DM_ModelsRefreshFailed string
  | DM_CatalogUpdated "CatalogProvider list"
  | DM_Image u64 u32 ImageKey "bytes option"
  | DM_McpStatus "McpServerStatus list" "string option" bool "string list"
  | DM_McpReconnectFailed string string
  | DM_McpReloaded string "McpServerStatus list"
  | DM_McpReloadFailed string
  | DM_McpTrustUpdated "string option" bool string
  | DM_McpTrustList "string list"
  | DM_OAuthReloginRequired string
  | DM_ShuttingDown
  | DM_Evicted
  | DM_Accepted MessageKind
  | DM_Failed MessageKind string

record DaemonMessage =
  dmsg_id :: "u64 option"
  dmsg_inner :: DaemonMessageType

definition DaemonMessage_reply :: "u64 \<Rightarrow> DaemonMessageType \<Rightarrow> DaemonMessage" where
  "DaemonMessage_reply rid inner = \<lparr>dmsg_id = Some rid, dmsg_inner = inner\<rparr>"

definition DaemonMessage_broadcast :: "DaemonMessageType \<Rightarrow> DaemonMessage" where
  "DaemonMessage_broadcast inner = \<lparr>dmsg_id = None, dmsg_inner = inner\<rparr>"

definition DaemonMessageType_kind :: "DaemonMessageType \<Rightarrow> string" where
  "DaemonMessageType_kind m = (case m of
     DM_Session _ _ \<Rightarrow> ''Session''
   | DM_Sessions _ \<Rightarrow> ''Sessions''
   | DM_Pong \<Rightarrow> ''Pong''
   | DM_Models _ _ _ \<Rightarrow> ''Models''
   | DM_ModelsFailed _ \<Rightarrow> ''ModelsFailed''
   | DM_ModelsUpdated _ _ \<Rightarrow> ''ModelsUpdated''
   | DM_Unlocked \<Rightarrow> ''Unlocked''
   | DM_Locked \<Rightarrow> ''Locked''
   | DM_Keystore _ \<Rightarrow> ''Keystore''
   | DM_LockedError _ \<Rightarrow> ''LockedError''
   | DM_Bound \<Rightarrow> ''Bound''
   | DM_KeystoreUnbound _ \<Rightarrow> ''KeystoreUnbound''
   | DM_CredentialAdded _ \<Rightarrow> ''CredentialAdded''
   | DM_CredentialAddFailed _ _ \<Rightarrow> ''CredentialAddFailed''
   | DM_CredentialRemoved _ \<Rightarrow> ''CredentialRemoved''
   | DM_CredentialRemoveFailed _ _ \<Rightarrow> ''CredentialRemoveFailed''
   | DM_AclAddResult _ _ \<Rightarrow> ''AclAddResult''
   | DM_AclUpdated _ \<Rightarrow> ''AclUpdated''
   | DM_Credential _ _ \<Rightarrow> ''Credential''
   | DM_AccountAdded _ \<Rightarrow> ''AccountAdded''
   | DM_AccountAddFailed _ _ \<Rightarrow> ''AccountAddFailed''
   | DM_AccountRemoved _ \<Rightarrow> ''AccountRemoved''
   | DM_AccountRemoveFailed _ _ \<Rightarrow> ''AccountRemoveFailed''
   | DM_Accounts _ \<Rightarrow> ''Accounts''
   | DM_OAuthProviders _ \<Rightarrow> ''OAuthProviders''
   | DM_AccountListFailed _ \<Rightarrow> ''AccountListFailed''
   | DM_ModelsRefreshed _ _ _ \<Rightarrow> ''ModelsRefreshed''
   | DM_ModelsRefreshFailed _ \<Rightarrow> ''ModelsRefreshFailed''
   | DM_CatalogUpdated _ \<Rightarrow> ''CatalogUpdated''
   | DM_Image _ _ _ _ \<Rightarrow> ''Image''
   | DM_McpStatus _ _ _ _ \<Rightarrow> ''McpStatus''
   | DM_McpReconnectFailed _ _ \<Rightarrow> ''McpReconnectFailed''
   | DM_McpReloaded _ _ \<Rightarrow> ''McpReloaded''
   | DM_McpReloadFailed _ \<Rightarrow> ''McpReloadFailed''
   | DM_McpTrustUpdated _ _ _ \<Rightarrow> ''McpTrustUpdated''
   | DM_McpTrustList _ \<Rightarrow> ''McpTrustList''
   | DM_OAuthReloginRequired _ \<Rightarrow> ''OAuthReloginRequired''
   | DM_ShuttingDown \<Rightarrow> ''ShuttingDown''
   | DM_Evicted \<Rightarrow> ''Evicted''
   | DM_Accepted _ \<Rightarrow> ''Accepted''
   | DM_Failed _ _ \<Rightarrow> ''Failed'')"

definition MODELS_WARMING_SUFFIX :: string where
  "MODELS_WARMING_SUFFIX = ''is warming in the background; retry in a moment''"

definition models_warming_error :: "string \<Rightarrow> string" where
  "models_warming_error account =
     ''model list for account '' @ [CHR 0x27] @ account @ [CHR 0x27] @ '' '' @ MODELS_WARMING_SUFFIX"

text \<open>\<open>str::ends_with\<close>.\<close>

definition ends_with :: "string \<Rightarrow> string \<Rightarrow> bool" where
  "ends_with s suffix \<longleftrightarrow>
     length suffix \<le> length s \<and> drop (length s - length suffix) s = suffix"

definition is_models_warming_error :: "string \<Rightarrow> bool" where
  "is_models_warming_error error = ends_with error MODELS_WARMING_SUFFIX"

end
