(* ===== verification/Proto_Size.thy ===== *)
theory Proto_Size
  imports Proto_Messages
begin

text \<open>
  The lag gauge of \<open>src/choreo-proto/src/size.rs\<close>: an estimate of the encoded
  size of a turn and of a daemon message, summed from the payload lengths and a
  per-variant allowance. The daemon charges this estimate to a client's backlog
  when a message is queued and credits it when the writer takes the message.

  The estimates are natural numbers here: the sum of the lengths of in-memory
  buffers stays below \<open>2 ^ 64\<close>, and the accounting of the broadcast component
  works modulo \<open>2 ^ 64\<close> in any case.
\<close>

section \<open>The estimator\<close>

definition named_field_overhead :: "nat \<Rightarrow> nat" where
  "named_field_overhead n = 40 + n * 24"

definition option_str_len :: "string option \<Rightarrow> nat" where
  "option_str_len s = (case s of None \<Rightarrow> 0 | Some x \<Rightarrow> length x)"

definition strs_len :: "string list \<Rightarrow> nat" where
  "strs_len xs = (\<Sum>x\<leftarrow>xs. length x)"

definition tool_call_size :: "AssistantToolCallRecord \<Rightarrow> nat" where
  "tool_call_size call =
     64 + length (tc_call_id call) + length (tc_name call) + length (tc_arguments_json call)"

definition tool_result_size :: "ToolResultRecord \<Rightarrow> nat" where
  "tool_result_size result =
     96 + length (tr_call_id result) + length (tr_name result) + length (tr_content result)
        + length (tr_invocation_description result)"

definition displayed_image_size :: "DisplayedImageRecord \<Rightarrow> nat" where
  "displayed_image_size img =
     160 + length (di_data img) + length (im_mime_type (di_metadata img))
         + option_str_len (im_alt (di_metadata img))"

fun artifact_payload :: "ReasoningArtifact \<Rightarrow> nat" where
  "artifact_payload (RA_ChatReasoning _ bs) = length bs"
| "artifact_payload (RA_AnthropicThinking bs) = length bs"
| "artifact_payload (RA_GoogleSignatures bs) = length bs"
| "artifact_payload (RA_ResponsesItems bs) = length bs"

definition approx_size :: "Turn \<Rightarrow> nat" where
  "approx_size self =
     named_field_overhead 13
     + option_str_len (t_error self)
     + option_str_len (t_user_text self)
     + option_str_len (t_assistant_text self)
     + option_str_len (t_assistant_reasoning self)
     + (\<Sum>call\<leftarrow>t_tool_calls self. tool_call_size call)
     + (\<Sum>result\<leftarrow>t_tool_results self. tool_result_size result)
     + (\<Sum>img\<leftarrow>t_displayed_images self. displayed_image_size img)
     + (case t_reasoning_artifact self of None \<Rightarrow> 0 | Some a \<Rightarrow> 96 + artifact_payload a)
     + (case t_reasoning_producer self of None \<Rightarrow> 0
        | Some p \<Rightarrow> 64 + length (rp_provider_slug p) + length (rp_model p))"

definition mcp_server_status_len :: "McpServerStatus \<Rightarrow> nat" where
  "mcp_server_status_len s =
     (let oauth = (case ms_oauth s of None \<Rightarrow> 0
                   | Some cfg \<Rightarrow> named_field_overhead 3 + option_str_len (moc_client_id cfg)
                       + strs_len (moc_scopes cfg))
      in 272 + length (ms_slug s) + length (ms_tier s) + length (ms_transport s)
         + length (ms_target s) + option_str_len (ms_server_name s)
         + option_str_len (ms_server_version s) + option_str_len (ms_last_error s)
         + option_str_len (ms_credential_key s) + oauth)"

fun session_status_size :: "SessionStatus \<Rightarrow> nat" where
  "session_status_size (SS_ToolCall name) = 12 + length name"
| "session_status_size (SS_Retrying _ _ _) = 64"
| "session_status_size SS_Sleeping = 16"
| "session_status_size SS_Inactive = 16"
| "session_status_size SS_Sending = 16"
| "session_status_size SS_Waiting = 16"
| "session_status_size SS_Reasoning = 16"
| "session_status_size SS_Responding = 16"

definition reasoning_capability_size :: "ReasoningCapability \<Rightarrow> nat" where
  "reasoning_capability_size cap =
     64 + length (available_effort_levels cap) + strs_len (available_effort_levels cap)"

definition option_capability_size :: "ReasoningCapability option \<Rightarrow> nat" where
  "option_capability_size c = (case c of None \<Rightarrow> 0 | Some cap \<Rightarrow> reasoning_capability_size cap)"

text \<open>A turn map's entries: the turn id itself is added as a number.\<close>

definition turns_size :: "turn_map \<Rightarrow> nat" where
  "turns_size turns = (\<Sum>(tid, turn)\<leftarrow>turns. 8 + unat tid + approx_size turn)"

definition EVENT_OVERHEAD :: nat where
  "EVENT_OVERHEAD = 96"

definition session_event_size :: "SessionEvent \<Rightarrow> nat" where
  "session_event_size event = (case event of
     SE_SessionCreated title _ working_dir account_name selected_model reasoning_effort \<Rightarrow>
       named_field_overhead 6 + option_str_len title + option_str_len working_dir
       + option_str_len account_name + option_str_len selected_model
       + option_str_len reasoning_effort
   | SE_SessionCreatedForRequester title _ working_dir account_name selected_model
       reasoning_effort \<Rightarrow>
       named_field_overhead 6 + option_str_len title + option_str_len working_dir
       + option_str_len account_name + option_str_len selected_model
       + option_str_len reasoning_effort
   | SE_SessionAttached \<Rightarrow> EVENT_OVERHEAD
   | SE_SessionDeleted \<Rightarrow> EVENT_OVERHEAD
   | SE_SessionFlagsChanged _ _ \<Rightarrow> EVENT_OVERHEAD
   | SE_SessionState title selected_model _ working_dir turns active_tool_groups _ _ _ status
       reasoning_effort reasoning_capability \<Rightarrow>
       named_field_overhead 12 + option_str_len title + option_str_len selected_model
       + option_str_len working_dir + option_str_len reasoning_effort
       + strs_len active_tool_groups + turns_size turns + session_status_size status
       + option_capability_size reasoning_capability
   | SE_TurnAppended _ turn \<Rightarrow> named_field_overhead 2 + approx_size turn
   | SE_SessionStatusChanged status _ \<Rightarrow> named_field_overhead 2 + session_status_size status
   | SE_SessionFailed operation error \<Rightarrow>
       named_field_overhead 2 + length operation + length error
   | SE_Started _ _ _ \<Rightarrow> named_field_overhead 3
   | SE_ToolCallStarted _ call_id tool_name arguments_json invocation_description \<Rightarrow>
       named_field_overhead 5 + length call_id + length tool_name + length arguments_json
       + length invocation_description
   | SE_ToolCallFinished _ call_id tool_name \<Rightarrow>
       named_field_overhead 3 + length call_id + length tool_name
   | SE_ToolResultChunk _ call_id data \<Rightarrow>
       named_field_overhead 3 + length call_id + length data
   | SE_ToolCallFailed _ call_id tool_name error \<Rightarrow>
       named_field_overhead 4 + length call_id + length tool_name + length error
   | SE_TokenUsageUpdate _ _ \<Rightarrow> named_field_overhead 2
   | SE_LiveOutputTokenCount _ _ \<Rightarrow> named_field_overhead 2
   | SE_OutputChunk _ stream data \<Rightarrow>
       named_field_overhead 3 + (case stream of OS_Answer \<Rightarrow> 4 | OS_Reasoning \<Rightarrow> 4) + length data
   | SE_Done _ _ _ \<Rightarrow> named_field_overhead 3
   | SE_Failed _ error \<Rightarrow> named_field_overhead 2 + length error
   | SE_Cancelled _ \<Rightarrow> named_field_overhead 1
   | SE_ModelSelected model reasoning_capability \<Rightarrow>
       named_field_overhead 2 + length model + option_capability_size reasoning_capability
   | SE_ModelSelectionFailed model error \<Rightarrow>
       named_field_overhead 2 + length model + length error
   | SE_SessionDeleteFailed error \<Rightarrow> named_field_overhead 1 + length error
   | SE_TurnsUndone turn_ids \<Rightarrow> named_field_overhead 1 + length turn_ids * 4
   | SE_TurnsRedone turns \<Rightarrow> named_field_overhead 1 + turns_size turns
   | SE_SessionAccountSet account \<Rightarrow> named_field_overhead 1 + length account
   | SE_ContextWindowResolved _ \<Rightarrow> named_field_overhead 1
   | SE_SessionWorkingDirSet path \<Rightarrow> named_field_overhead 1 + option_str_len path
   | SE_SessionTitleSet title \<Rightarrow> named_field_overhead 1 + length title
   | SE_ReasoningEffortSet effort \<Rightarrow> named_field_overhead 1 + length effort
   | SE_ReasoningEffortSetFailed effort error \<Rightarrow>
       named_field_overhead 2 + length effort + length error)"

definition session_summary_size :: "SessionSummary \<Rightarrow> nat" where
  "session_summary_size s =
     named_field_overhead 17 + option_str_len (sum_title s)
     + option_str_len (sum_selected_model s) + option_str_len (sum_reasoning_effort s)
     + option_str_len (sum_working_dir s) + option_str_len (sum_account_name s)
     + strs_len (sum_active_tool_groups s) + session_status_size (sum_status s)"

definition oauth_descriptor_size :: "OAuthProviderDescriptor \<Rightarrow> nat" where
  "oauth_descriptor_size p =
     256 + length (opd_provider p) + length (opd_issuer p) + length (opd_authorize_path p)
     + length (opd_token_path p) + option_str_len (opd_client_id p) + strs_len (opd_scopes p)"

definition ID_ENVELOPE :: nat where
  "ID_ENVELOPE = 48"

definition MESSAGE_OVERHEAD :: nat where
  "MESSAGE_OVERHEAD = 96"

definition image_key_size :: "ImageKey \<Rightarrow> nat" where
  "image_key_size key =
     (case key of IK_Displayed _ \<Rightarrow> 0 | IK_ToolResult call_id \<Rightarrow> length call_id)"

definition approx_inner_size :: "DaemonMessageType \<Rightarrow> nat" where
  "approx_inner_size inner = (case inner of
     DM_Session _ event \<Rightarrow> named_field_overhead 2 + session_event_size event
   | DM_Sessions sessions \<Rightarrow>
       named_field_overhead 1 + (\<Sum>s\<leftarrow>sessions. session_summary_size s)
   | DM_Pong \<Rightarrow> MESSAGE_OVERHEAD
   | DM_Models models selected_model _ \<Rightarrow>
       named_field_overhead 3 + strs_len models + option_str_len selected_model
   | DM_ModelsFailed error \<Rightarrow> named_field_overhead 1 + length error
   | DM_ModelsUpdated account models \<Rightarrow>
       named_field_overhead 2 + length account + strs_len models
   | DM_Unlocked \<Rightarrow> MESSAGE_OVERHEAD
   | DM_Locked \<Rightarrow> MESSAGE_OVERHEAD
   | DM_Bound \<Rightarrow> MESSAGE_OVERHEAD
   | DM_ShuttingDown \<Rightarrow> MESSAGE_OVERHEAD
   | DM_Evicted \<Rightarrow> MESSAGE_OVERHEAD
   | DM_Keystore _ \<Rightarrow> named_field_overhead 1
   | DM_LockedError error \<Rightarrow> named_field_overhead 1 + length error
   | DM_KeystoreUnbound error \<Rightarrow> named_field_overhead 1 + length error
   | DM_CredentialAdded service \<Rightarrow> named_field_overhead 1 + length service
   | DM_CredentialAddFailed service error \<Rightarrow>
       named_field_overhead 2 + length service + length error
   | DM_CredentialRemoved service \<Rightarrow> named_field_overhead 1 + length service
   | DM_CredentialRemoveFailed service error \<Rightarrow>
       named_field_overhead 2 + length service + length error
   | DM_AclAddResult _ message \<Rightarrow> named_field_overhead 2 + length message
   | DM_AclUpdated _ \<Rightarrow> named_field_overhead 1
   | DM_Credential service key \<Rightarrow> named_field_overhead 2 + length service + option_str_len key
   | DM_AccountAdded name \<Rightarrow> named_field_overhead 1 + length name
   | DM_AccountAddFailed name error \<Rightarrow> named_field_overhead 2 + length name + length error
   | DM_AccountRemoved name \<Rightarrow> named_field_overhead 1 + length name
   | DM_AccountRemoveFailed name error \<Rightarrow> named_field_overhead 2 + length name + length error
   | DM_Accounts accounts \<Rightarrow>
       named_field_overhead 1
       + (\<Sum>a\<leftarrow>accounts. 48 + length (ai_name a) + length (ai_provider a))
   | DM_OAuthProviders providers \<Rightarrow>
       named_field_overhead 1 + (\<Sum>p\<leftarrow>providers. oauth_descriptor_size p)
   | DM_AccountListFailed error \<Rightarrow> named_field_overhead 1 + length error
   | DM_ModelsRefreshed _ _ _ \<Rightarrow> named_field_overhead 3
   | DM_ModelsRefreshFailed error \<Rightarrow> named_field_overhead 1 + length error
   | DM_CatalogUpdated providers \<Rightarrow>
       named_field_overhead 1
       + (\<Sum>p\<leftarrow>providers. 32 + length (cp_slug p) + length (cp_display_name p))
   | DM_Image _ _ key data \<Rightarrow>
       named_field_overhead 4 + (case data of None \<Rightarrow> 0 | Some d \<Rightarrow> length d)
       + image_key_size key
   | DM_McpStatus servers project_root _ ignored_project_servers \<Rightarrow>
       named_field_overhead 4 + option_str_len project_root + strs_len ignored_project_servers
       + (\<Sum>s\<leftarrow>servers. mcp_server_status_len s)
   | DM_McpReconnectFailed slug error \<Rightarrow> named_field_overhead 2 + length slug + length error
   | DM_McpReloaded summary servers \<Rightarrow>
       named_field_overhead 2 + length summary + (\<Sum>s\<leftarrow>servers. mcp_server_status_len s)
   | DM_McpReloadFailed error \<Rightarrow> named_field_overhead 1 + length error
   | DM_McpTrustUpdated root _ message \<Rightarrow>
       named_field_overhead 3 + option_str_len root + length message
   | DM_McpTrustList roots \<Rightarrow> named_field_overhead 1 + strs_len roots
   | DM_Accepted _ \<Rightarrow> named_field_overhead 1
   | DM_Failed _ error \<Rightarrow> named_field_overhead 2 + length error
   | DM_OAuthReloginRequired account \<Rightarrow> named_field_overhead 1 + length account)"

definition approx_wire_size :: "DaemonMessage \<Rightarrow> nat" where
  "approx_wire_size self = ID_ENVELOPE + approx_inner_size (dmsg_inner self)"

declare named_field_overhead_def [size_defs] option_str_len_def [size_defs]
  strs_len_def [size_defs] tool_call_size_def [size_defs] tool_result_size_def [size_defs]
  displayed_image_size_def [size_defs] EVENT_OVERHEAD_def [size_defs]
  MESSAGE_OVERHEAD_def [size_defs] ID_ENVELOPE_def [size_defs] image_key_size_def [size_defs]
  approx_inner_size_def [size_defs] approx_wire_size_def [size_defs]

section \<open>What the gauge covers\<close>

text \<open>
  The bytes any encoding of a turn has to carry verbatim: every string and byte
  buffer reachable from it.
\<close>

definition caller_payload :: "AssistantToolCallRecord \<Rightarrow> nat" where
  "caller_payload call = (case tc_caller call of None \<Rightarrow> 0
     | Some c \<Rightarrow> length (tcc_kind c) + length (tcc_caller_id c))"

definition reference_payload :: "ToolResultRecord \<Rightarrow> nat" where
  "reference_payload result = (case tr_image result of None \<Rightarrow> 0
     | Some r \<Rightarrow> length (ir_path r) + length (ir_mime_type r) + length (ir_data r))"

definition turn_payload :: "Turn \<Rightarrow> nat" where
  "turn_payload t =
     option_str_len (t_error t) + option_str_len (t_user_text t)
     + option_str_len (t_assistant_text t) + option_str_len (t_assistant_reasoning t)
     + (\<Sum>c\<leftarrow>t_tool_calls t. length (tc_call_id c) + length (tc_name c)
          + length (tc_arguments_json c) + caller_payload c)
     + (\<Sum>r\<leftarrow>t_tool_results t. length (tr_call_id r) + length (tr_name r) + length (tr_content r)
          + length (tr_invocation_description r) + reference_payload r)
     + (\<Sum>i\<leftarrow>t_displayed_images t. length (di_data i) + length (im_mime_type (di_metadata i))
          + option_str_len (im_alt (di_metadata i)) + option_str_len (di_tool_call_id i))
     + (case t_reasoning_artifact t of None \<Rightarrow> 0 | Some a \<Rightarrow> artifact_payload a)
     + (case t_reasoning_producer t of None \<Rightarrow> 0
        | Some p \<Rightarrow> length (rp_provider_slug p) + length (rp_model p))"

text \<open>The part of that payload the gauge never looks at.\<close>

definition turn_uncounted :: "Turn \<Rightarrow> nat" where
  "turn_uncounted t =
     (\<Sum>c\<leftarrow>t_tool_calls t. caller_payload c)
     + (\<Sum>r\<leftarrow>t_tool_results t. reference_payload r)
     + (\<Sum>i\<leftarrow>t_displayed_images t. option_str_len (di_tool_call_id i))"

lemma approx_size_split:
  "approx_size t + turn_uncounted t =
     turn_payload t + named_field_overhead 13 + 64 * length (t_tool_calls t)
     + 96 * length (t_tool_results t) + 160 * length (t_displayed_images t)
     + (if t_reasoning_artifact t = None then 0 else 96)
     + (if t_reasoning_producer t = None then 0 else 64)"
proof -
  have calls: "(\<Sum>c\<leftarrow>cs. tool_call_size c) + (\<Sum>c\<leftarrow>cs. caller_payload c) =
      (\<Sum>c\<leftarrow>cs. length (tc_call_id c) + length (tc_name c) + length (tc_arguments_json c)
          + caller_payload c) + 64 * length cs" for cs
    by (induction cs) (auto simp: tool_call_size_def)
  have results: "(\<Sum>r\<leftarrow>rs. tool_result_size r) + (\<Sum>r\<leftarrow>rs. reference_payload r) =
      (\<Sum>r\<leftarrow>rs. length (tr_call_id r) + length (tr_name r) + length (tr_content r)
          + length (tr_invocation_description r) + reference_payload r) + 96 * length rs" for rs
    by (induction rs) (auto simp: tool_result_size_def)
  have images: "(\<Sum>i\<leftarrow>is. displayed_image_size i) + (\<Sum>i\<leftarrow>is. option_str_len (di_tool_call_id i)) =
      (\<Sum>i\<leftarrow>is. length (di_data i) + length (im_mime_type (di_metadata i))
          + option_str_len (im_alt (di_metadata i)) + option_str_len (di_tool_call_id i))
      + 160 * length is" for "is"
    by (induction "is") (auto simp: displayed_image_size_def)
  show ?thesis
    using calls [of "t_tool_calls t"] results [of "t_tool_results t"]
      images [of "t_displayed_images t"]
    by (simp add: approx_size_def turn_payload_def turn_uncounted_def split: option.splits)
qed

lemma approx_wire_size_pos: "88 \<le> approx_wire_size m"
  by (simp add: approx_wire_size_def approx_inner_size_def ID_ENVELOPE_def
      named_field_overhead_def MESSAGE_OVERHEAD_def split: DaemonMessageType.split)

section \<open>Properties\<close>

text \<open>
  The gauge of a turn covers all of the turn's text and binary payload, with
  the 352 bytes of fixed allowance to spare, except for exactly three fields it
  never reads: a tool call's caller attribution, a tool result's image
  reference, and the tool call id of a displayed image.
\<close>

theorem approx_size_covers:
  "turn_payload t + 352 \<le> approx_size t + turn_uncounted t"
  using approx_size_split [of t] by (simp add: named_field_overhead_def)

text \<open>
  Because those three fields are not counted, no constant makes up for them:
  for every margin there is a turn whose payload exceeds its gauge by more than
  that margin, so the estimate does under-count, which the module rules out.
\<close>

theorem approx_size_underestimates:
  "\<exists>t. approx_size t + k < turn_payload t"
proof -
  let ?caller = "\<lparr>tcc_kind = ''program'', tcc_caller_id = replicate (k + 500) CHR ''x''\<rparr>"
  let ?call = "\<lparr>tc_call_id = [], tc_name = [], tc_arguments_json = [],
    tc_caller = Some ?caller\<rparr>"
  let ?t = "\<lparr>t_created_at = 0, t_undone = False, t_error = None, t_user_text = None,
    t_assistant_text = None, t_assistant_reasoning = None, t_tool_calls = [?call],
    t_token_usage = None, t_tool_results = [], t_displayed_images = [],
    t_reasoning_artifact = None, t_reasoning_producer = None\<rparr>"
  have "approx_size ?t + k < turn_payload ?t"
    by (simp add: approx_size_def turn_payload_def caller_payload_def size_defs)
  then show ?thesis ..
qed

text \<open>
  C31. A turn map is charged the numeric value of every turn id on top of its
  turns, so a session of \<open>n\<close> turns numbered from one is over-charged by
  \<open>n (n + 1) / 2\<close> bytes: the attach snapshot of a long session counts as far
  more than it weighs.
\<close>

theorem turns_size_quadratic:
  assumes "n < 2 ^ 32"
  shows "turns_size (map (\<lambda>i. (of_nat (Suc i), t)) [0..<n]) =
    n * (8 + approx_size t) + n * (n + 1) div 2"
  using assms
proof (induction n)
  case (Suc n)
  have "unat (of_nat (Suc n) :: u32) = Suc n"
    using Suc.prems by (simp add: unat_of_nat del: of_nat_Suc)
  then show ?case using Suc by (simp add: turns_size_def del: of_nat_Suc)
qed (simp add: turns_size_def)

theorem turns_size_quadratic_witness:
  "\<exists>t. turns_size (map (\<lambda>i. (of_nat (Suc i), t)) [0..<20000]) =
    20000 * (8 + approx_size t) + 20000 * (20000 + 1) div 2"
  by (rule exI, rule turns_size_quadratic) simp

text \<open>
  C28. A list of strings is charged for the bytes of its strings alone. MessagePack
  writes at least one header byte per string, so \<open>n\<close> empty model names need at
  least \<open>n\<close> bytes on the wire and are still charged a constant.
\<close>

theorem string_list_charge_constant:
  "approx_wire_size (DaemonMessage_broadcast (DM_Models (replicate n []) None b)) = 160"
  by (simp add: DaemonMessage_broadcast_def size_defs sum_list_replicate)

end
