(* ===== verification/Broadcast.thy ===== *)
theory Broadcast
  imports Proto_Size
begin

text \<open>
  The fan-out primitives of the daemon (\<open>src/choreo-daemon/src/broadcast.rs\<close>) and
  the per-connection writer that drains them
  (\<open>src/choreo-daemon/src/server/connection.rs\<close>).

  A \<open>SubscriberSink\<close> is a clonable handle on an unbounded channel and a shared
  atomic counter. Because clones alias, a sink is an address into an explicit
  store of channels; the store also holds the daemon-wide counter. Both counters
  have the width of \<open>AtomicUsize\<close> and wrap. The definitions here run each
  operation without interference; the interleaving of producers and writers
  is the subject of the theory on lag accounting.
\<close>

section \<open>The store\<close>

type_synonym ClientId = u32
type_synonym SubscriberSink = nat

record chan =
  ch_queue :: "DaemonMessage list"
  ch_rx_alive :: bool
  ch_bytes_in_flight :: usize

record hub =
  hub_chan :: "SubscriberSink \<Rightarrow> chan"
  hub_next :: nat
  hub_global :: usize

definition ClientId_next :: "u32 \<Rightarrow> ClientId \<times> u32" where
  "ClientId_next counter = (counter, counter + 1)"

definition fresh_chan :: chan where
  "fresh_chan = \<lparr>ch_queue = [], ch_rx_alive = True, ch_bytes_in_flight = 0\<rparr>"

text \<open>A new channel with its sender wrapped in a sink; the counter starts at zero.\<close>

definition SubscriberSink_new :: "hub \<Rightarrow> SubscriberSink \<times> hub" where
  "SubscriberSink_new h =
     (hub_next h,
      h\<lparr>hub_chan := (hub_chan h)(hub_next h := fresh_chan), hub_next := Suc (hub_next h)\<rparr>)"

definition msg_size :: "DaemonMessage \<Rightarrow> usize" where
  "msg_size msg = of_nat (approx_wire_size msg)"

definition counts_toward_client_lag :: "DaemonMessage \<Rightarrow> bool" where
  "counts_toward_client_lag msg =
     (case dmsg_inner msg of DM_Image _ _ _ _ \<Rightarrow> False | _ \<Rightarrow> True)"

text \<open>What a message costs the client's own counter.\<close>

definition client_size :: "DaemonMessage \<Rightarrow> usize" where
  "client_size msg = (if counts_toward_client_lag msg then msg_size msg else 0)"

definition add_global :: "usize \<Rightarrow> hub \<Rightarrow> hub" where
  "add_global n h = h\<lparr>hub_global := hub_global h + n\<rparr>"

definition sub_global :: "usize \<Rightarrow> hub \<Rightarrow> hub" where
  "sub_global n h = h\<lparr>hub_global := hub_global h - n\<rparr>"

definition upd_chan :: "SubscriberSink \<Rightarrow> (chan \<Rightarrow> chan) \<Rightarrow> hub \<Rightarrow> hub" where
  "upd_chan s f h = h\<lparr>hub_chan := (hub_chan h)(s := f (hub_chan h s))\<rparr>"

definition add_bytes :: "SubscriberSink \<Rightarrow> usize \<Rightarrow> hub \<Rightarrow> hub" where
  "add_bytes s n = upd_chan s (\<lambda>c. c\<lparr>ch_bytes_in_flight := ch_bytes_in_flight c + n\<rparr>)"

definition sub_bytes :: "SubscriberSink \<Rightarrow> usize \<Rightarrow> hub \<Rightarrow> hub" where
  "sub_bytes s n = upd_chan s (\<lambda>c. c\<lparr>ch_bytes_in_flight := ch_bytes_in_flight c - n\<rparr>)"

text \<open>\<open>Sender::send\<close> on an unbounded channel: it fails exactly when the receiver is gone.\<close>

definition chan_send :: "SubscriberSink \<Rightarrow> DaemonMessage \<Rightarrow> hub \<Rightarrow> hub option" where
  "chan_send s msg h =
     (if ch_rx_alive (hub_chan h s)
      then Some (upd_chan s (\<lambda>c. c\<lparr>ch_queue := ch_queue c @ [msg]\<rparr>) h)
      else None)"

section \<open>Sending (SubscriberSink)\<close>

definition send_accounted ::
  "SubscriberSink \<Rightarrow> DaemonMessage \<Rightarrow> hub \<Rightarrow> hub \<times> (usize \<times> usize) option" where
  "send_accounted self msg h =
     (let size = msg_size msg;
          counts_client = counts_toward_client_lag msg;
          new_total = hub_global h + size;
          h1 = add_global size h;
          new_client = (if counts_client then ch_bytes_in_flight (hub_chan h1 self) + size
                        else ch_bytes_in_flight (hub_chan h1 self));
          h2 = (if counts_client then add_bytes self size h1 else h1)
      in case chan_send self msg h2 of
           Some h3 \<Rightarrow> (h3, Some (new_client, new_total))
         | None \<Rightarrow>
             (let h3 = (if counts_client then sub_bytes self size h2 else h2)
              in (sub_global size h3, None)))"

datatype EnqueueOutcome = EO_Delivered | EO_Disconnected | EO_ClientOverLag | EO_GlobalOverBudget

record LagLimits =
  per_client_cap :: usize
  global_budget :: usize

definition LagLimits_default :: LagLimits where
  "LagLimits_default =
     \<lparr>per_client_cap = 64 * 1024 * 1024, global_budget = 512 * 1024 * 1024\<rparr>"

definition enqueue ::
  "SubscriberSink \<Rightarrow> DaemonMessage \<Rightarrow> LagLimits \<Rightarrow> hub \<Rightarrow> hub \<times> EnqueueOutcome" where
  "enqueue self msg limits h = (case send_accounted self msg h of
     (h', None) \<Rightarrow> (h', EO_Disconnected)
   | (h', Some (new_client, new_total)) \<Rightarrow>
       (h', if new_client > per_client_cap limits then EO_ClientOverLag
            else if new_total > global_budget limits then EO_GlobalOverBudget
            else EO_Delivered))"

definition send_unchecked :: "SubscriberSink \<Rightarrow> DaemonMessage \<Rightarrow> hub \<Rightarrow> hub \<times> bool" where
  "send_unchecked self msg h = (case send_accounted self msg h of (h', r) \<Rightarrow> (h', r \<noteq> None))"

section \<open>Fan-out\<close>

text \<open>
  \<open>HashMap::retain\<close> visits the entries in the map's order; the closure's verdict
  keeps or drops each entry.
\<close>

fun fan_out_evicting ::
  "('v \<Rightarrow> SubscriberSink) \<Rightarrow> DaemonMessage \<Rightarrow> LagLimits \<Rightarrow> (ClientId \<Rightarrow> 'v \<Rightarrow> bool) \<Rightarrow>
   (ClientId \<times> 'v) list \<Rightarrow> hub \<Rightarrow> (ClientId \<times> 'v) list \<times> hub \<times> ClientId list \<times> bool" where
  "fan_out_evicting sink msg lag_limits should_skip [] h = ([], h, [], False)"
| "fan_out_evicting sink msg lag_limits should_skip ((client_id, entry) # subs) h =
     (if should_skip client_id entry then
        (let (kept, h', evict, largest) = fan_out_evicting sink msg lag_limits should_skip subs h
         in ((client_id, entry) # kept, h', evict, largest))
      else (case enqueue (sink entry) msg lag_limits h of (h1, outcome) \<Rightarrow>
        (let (kept, h', evict, largest) = fan_out_evicting sink msg lag_limits should_skip subs h1
         in case outcome of
              EO_Delivered \<Rightarrow> ((client_id, entry) # kept, h', evict, largest)
            | EO_Disconnected \<Rightarrow> (kept, h', evict, largest)
            | EO_ClientOverLag \<Rightarrow> ((client_id, entry) # kept, h', client_id # evict, largest)
            | EO_GlobalOverBudget \<Rightarrow> ((client_id, entry) # kept, h', evict, True))))"

section \<open>Replies (ReplySink, ReplyTarget)\<close>

record ReplySink =
  rs_id :: u64
  rs_sink :: SubscriberSink

definition ReplySink_send :: "ReplySink \<Rightarrow> DaemonMessageType \<Rightarrow> hub \<Rightarrow> hub" where
  "ReplySink_send self inner h =
     fst (send_unchecked (rs_sink self) (DaemonMessage_reply (rs_id self) inner) h)"

record ReplyTarget =
  rt_sink :: ReplySink
  rt_kind :: MessageKind
  rt_answered :: bool

definition ReplyTarget_new :: "u64 \<Rightarrow> MessageKind \<Rightarrow> SubscriberSink \<Rightarrow> ReplyTarget" where
  "ReplyTarget_new rid kind sink =
     \<lparr>rt_sink = \<lparr>rs_id = rid, rs_sink = sink\<rparr>, rt_kind = kind, rt_answered = False\<rparr>"

definition ReplyTarget_drop :: "ReplyTarget \<Rightarrow> hub \<Rightarrow> hub" where
  "ReplyTarget_drop self h =
     (if \<not> rt_answered self
      then ReplySink_send (rt_sink self)
             (DM_Failed (rt_kind self) ''request was not answered by the daemon'') h
      else h)"

text \<open>Answering consumes the target, so its destructor runs at the end of the call.\<close>

definition ReplyTarget_send :: "ReplyTarget \<Rightarrow> DaemonMessageType \<Rightarrow> hub \<Rightarrow> hub" where
  "ReplyTarget_send self inner h =
     (let self = self\<lparr>rt_answered := True\<rparr>;
          h = ReplySink_send (rt_sink self) inner h
      in ReplyTarget_drop self h)"

definition ReplyTarget_accept :: "ReplyTarget \<Rightarrow> hub \<Rightarrow> hub" where
  "ReplyTarget_accept self h = ReplyTarget_send self (DM_Accepted (rt_kind self)) h"

definition ReplyTarget_fail :: "ReplyTarget \<Rightarrow> string \<Rightarrow> hub \<Rightarrow> hub" where
  "ReplyTarget_fail self error h = ReplyTarget_send self (DM_Failed (rt_kind self) error) h"

section \<open>The connection writer (server/connection.rs)\<close>

definition stops_writer :: "DaemonMessage \<Rightarrow> bool" where
  "stops_writer msg =
     (case dmsg_inner msg of DM_ShuttingDown \<Rightarrow> True | DM_Evicted \<Rightarrow> True | _ \<Rightarrow> False)"

text \<open>Credit a message that left the queue to both counters.\<close>

definition writer_credit :: "SubscriberSink \<Rightarrow> DaemonMessage \<Rightarrow> hub \<Rightarrow> hub" where
  "writer_credit s msg h =
     sub_global (msg_size msg)
       (if counts_toward_client_lag msg then sub_bytes s (msg_size msg) h else h)"

text \<open>
  The writer thread run on the messages queued for it, once every sender is gone.
  The socket is the parameter \<open>send_message\<close>, which fails or moves to its next
  state. The result lists the messages handed to the socket with their outcome
  and whether the socket was shut down; then the queue is drained and the
  receiver dropped.
\<close>

fun writer_loop ::
  "('w \<Rightarrow> DaemonMessage \<Rightarrow> io_error + 'w) \<Rightarrow> SubscriberSink \<Rightarrow> 'w \<Rightarrow> DaemonMessage list \<Rightarrow> hub \<Rightarrow>
   hub \<times> 'w \<times> DaemonMessage list \<times> bool" where
  "writer_loop send_message s w [] h = (h, w, [], False)"
| "writer_loop send_message s w (msg # queue) h = (case send_message w msg of
     Inl e \<Rightarrow> (writer_credit s msg h, w, queue, True)
   | Inr w' \<Rightarrow>
       (let h' = writer_credit s msg h in
        if stops_writer msg then (h', w', queue, True)
        else writer_loop send_message s w' queue h'))"

fun writer_drain :: "SubscriberSink \<Rightarrow> DaemonMessage list \<Rightarrow> hub \<Rightarrow> hub" where
  "writer_drain s [] h = h"
| "writer_drain s (msg # queue) h = writer_drain s queue (writer_credit s msg h)"

definition writer_thread ::
  "('w \<Rightarrow> DaemonMessage \<Rightarrow> io_error + 'w) \<Rightarrow> SubscriberSink \<Rightarrow> 'w \<Rightarrow> hub \<Rightarrow> hub \<times> 'w \<times> bool" where
  "writer_thread send_message s w h =
     (case writer_loop send_message s w (ch_queue (hub_chan h s)) h of
       (h1, w', queue, shut) \<Rightarrow>
         (upd_chan s (\<lambda>c. c\<lparr>ch_queue := [], ch_rx_alive := False\<rparr>) (writer_drain s queue h1),
          w', shut))"

section \<open>How the store reads back\<close>

lemma hub_chan_upd [store_simps]:
  "hub_chan (upd_chan s f h) s' = (if s' = s then f (hub_chan h s) else hub_chan h s')"
  "hub_global (upd_chan s f h) = hub_global h"
  "hub_next (upd_chan s f h) = hub_next h"
  by (simp_all add: upd_chan_def)

lemma hub_global_simps [store_simps]:
  "hub_chan (add_global n h) = hub_chan h"
  "hub_chan (sub_global n h) = hub_chan h"
  "hub_global (add_global n h) = hub_global h + n"
  "hub_global (sub_global n h) = hub_global h - n"
  "hub_next (add_global n h) = hub_next h"
  "hub_next (sub_global n h) = hub_next h"
  by (simp_all add: add_global_def sub_global_def)

lemma upd_chan_id: "f (hub_chan h s) = hub_chan h s \<Longrightarrow> upd_chan s f h = h"
  by (simp add: upd_chan_def)

lemma upd_chan_upd_chan: "upd_chan s f (upd_chan s g h) = upd_chan s (\<lambda>c. f (g c)) h"
  by (simp add: upd_chan_def)

lemma upd_chan_global [store_simps]:
  "upd_chan s f (add_global n h) = add_global n (upd_chan s f h)"
  "upd_chan s f (sub_global n h) = sub_global n (upd_chan s f h)"
  by (simp_all add: upd_chan_def add_global_def sub_global_def)

lemma sub_add_global [simp]: "sub_global n (add_global n h) = h" "add_global n (sub_global n h) = h"
  by (simp_all add: add_global_def sub_global_def)

text \<open>One accounted send, on both branches.\<close>

definition deliver :: "SubscriberSink \<Rightarrow> DaemonMessage \<Rightarrow> hub \<Rightarrow> hub" where
  "deliver s msg h =
     add_global (msg_size msg)
       (upd_chan s (\<lambda>c. c\<lparr>ch_bytes_in_flight := ch_bytes_in_flight c + client_size msg,
          ch_queue := ch_queue c @ [msg]\<rparr>) h)"

lemma send_accounted_alive:
  "ch_rx_alive (hub_chan h s) \<Longrightarrow>
     send_accounted s msg h =
       (deliver s msg h,
        Some (ch_bytes_in_flight (hub_chan h s) + client_size msg, hub_global h + msg_size msg))"
  by (simp add: send_accounted_def Let_def chan_send_def add_bytes_def store_simps
      deliver_def client_size_def upd_chan_upd_chan)

lemma send_accounted_dead:
  "\<not> ch_rx_alive (hub_chan h s) \<Longrightarrow> send_accounted s msg h = (h, None)"
  by (simp add: send_accounted_def Let_def chan_send_def add_bytes_def sub_bytes_def store_simps
      upd_chan_upd_chan upd_chan_id)

lemma send_unchecked_eq:
  "send_unchecked s msg h =
     (if ch_rx_alive (hub_chan h s) then (deliver s msg h, True) else (h, False))"
  by (simp add: send_unchecked_def send_accounted_alive send_accounted_dead)

lemma deliver_simps [store_simps]:
  "ch_queue (hub_chan (deliver s msg h) s') =
     (if s' = s then ch_queue (hub_chan h s) @ [msg] else ch_queue (hub_chan h s'))"
  "ch_rx_alive (hub_chan (deliver s msg h) s') = ch_rx_alive (hub_chan h s')"
  "ch_bytes_in_flight (hub_chan (deliver s msg h) s') =
     (if s' = s then ch_bytes_in_flight (hub_chan h s) + client_size msg
      else ch_bytes_in_flight (hub_chan h s'))"
  "hub_global (deliver s msg h) = hub_global h + msg_size msg"
  "hub_next (deliver s msg h) = hub_next h"
  by (simp_all add: deliver_def store_simps)

section \<open>Fan-out, specified\<close>

text \<open>The entries a fan-out reaches: not skipped, and with a live receiver.\<close>

definition reached ::
  "('v \<Rightarrow> SubscriberSink) \<Rightarrow> (ClientId \<Rightarrow> 'v \<Rightarrow> bool) \<Rightarrow> hub \<Rightarrow> ClientId \<times> 'v \<Rightarrow> bool" where
  "reached sink skip h = (\<lambda>(c, e). \<not> skip c e \<and> ch_rx_alive (hub_chan h (sink e)))"

definition fan_out_spec ::
  "('v \<Rightarrow> SubscriberSink) \<Rightarrow> DaemonMessage \<Rightarrow> (ClientId \<times> 'v) list \<Rightarrow> hub \<Rightarrow> hub" where
  "fan_out_spec sink msg es h = fold (\<lambda>(c, e). deliver (sink e) msg) es h"

lemma enqueue_alive:
  "ch_rx_alive (hub_chan h s) \<Longrightarrow>
     enqueue s msg lim h =
       (deliver s msg h,
        if ch_bytes_in_flight (hub_chan h s) + client_size msg > per_client_cap lim
        then EO_ClientOverLag
        else if hub_global h + msg_size msg > global_budget lim then EO_GlobalOverBudget
        else EO_Delivered)"
  by (simp add: enqueue_def send_accounted_alive)

lemma enqueue_dead: "\<not> ch_rx_alive (hub_chan h s) \<Longrightarrow> enqueue s msg lim h = (h, EO_Disconnected)"
  by (simp add: enqueue_def send_accounted_dead)

lemma reached_deliver [simp]: "reached sink skip (deliver s msg h) = reached sink skip h"
  by (simp add: reached_def store_simps)

lemma fan_out_kept:
  "fst (fan_out_evicting sink msg lim skip subs h) =
     filter (\<lambda>(c, e). skip c e \<or> ch_rx_alive (hub_chan h (sink e))) subs"
proof (induction subs arbitrary: h)
  case (Cons ce subs)
  show ?case
    using Cons.IH [of h] Cons.IH [of "deliver (sink (snd ce)) msg h"]
    by (cases ce; cases "ch_rx_alive (hub_chan h (sink (snd ce)))")
       (auto simp: enqueue_alive enqueue_dead Let_def store_simps split: prod.splits EnqueueOutcome.splits)
qed simp

lemma fan_out_hub:
  "fst (snd (fan_out_evicting sink msg lim skip subs h)) =
     fan_out_spec sink msg (filter (reached sink skip h) subs) h"
proof (induction subs arbitrary: h)
  case (Cons ce subs)
  obtain c e where ce: "ce = (c, e)" by (cases ce)
  show ?case
  proof (cases "reached sink skip h ce")
    case True
    then have r: "\<not> skip c e" "ch_rx_alive (hub_chan h (sink e))" by (auto simp: reached_def ce)
    then show ?thesis
      using Cons.IH [of "deliver (sink e) msg h"] True
      by (auto simp: enqueue_alive ce Let_def fan_out_spec_def split: prod.splits EnqueueOutcome.splits)
  next
    case False
    then show ?thesis
      using Cons.IH [of h]
      by (auto simp: enqueue_dead ce reached_def Let_def fan_out_spec_def
          split: prod.splits EnqueueOutcome.splits)
  qed
qed (simp add: fan_out_spec_def)

lemma fan_out_spec_simps [store_simps]:
  "ch_queue (hub_chan (fan_out_spec sink msg es h) s) =
     ch_queue (hub_chan h s) @ replicate (length (filter (\<lambda>(c, e). sink e = s) es)) msg"
  "ch_rx_alive (hub_chan (fan_out_spec sink msg es h) s) = ch_rx_alive (hub_chan h s)"
  "hub_global (fan_out_spec sink msg es h) = hub_global h + of_nat (length es) * msg_size msg"
  "ch_bytes_in_flight (hub_chan (fan_out_spec sink msg es h) s) =
     ch_bytes_in_flight (hub_chan h s)
     + of_nat (length (filter (\<lambda>(c, e). sink e = s) es)) * client_size msg"
  "hub_next (fan_out_spec sink msg es h) = hub_next h"
  unfolding fan_out_spec_def
  by (induction es arbitrary: h)
     (auto simp: store_simps algebra_simps replicate_append_same [symmetric])

text \<open>With one sink per entry, an entry is charged once, against what it had before.\<close>

lemma fan_out_evict_iff:
  assumes "distinct (map (\<lambda>(c, e). sink e) subs)"
  shows "c \<in> set (fst (snd (snd (fan_out_evicting sink msg lim skip subs h)))) \<longleftrightarrow>
    (\<exists>e. (c, e) \<in> set subs \<and> reached sink skip h (c, e) \<and>
       ch_bytes_in_flight (hub_chan h (sink e)) + client_size msg > per_client_cap lim)"
  using assms
proof (induction subs arbitrary: h)
  case (Cons ce subs)
  obtain c' e' where ce: "ce = (c', e')" by (cases ce)
  have fresh: "sink e \<noteq> sink e'" if "(k, e) \<in> set subs" for k e
    using Cons.prems that by (force simp: ce)
  have same: "hub_chan (deliver (sink e') msg h) (sink e) = hub_chan h (sink e)"
    if "(k, e) \<in> set subs" for k e
    using fresh [OF that] by (simp add: deliver_def store_simps)
  show ?case
  proof (cases "reached sink skip h ce")
    case True
    then have r: "\<not> skip c' e'" "ch_rx_alive (hub_chan h (sink e'))" by (auto simp: reached_def ce)
    show ?thesis
      using Cons.IH [of "deliver (sink e') msg h"] Cons.prems True r same
      by (auto simp: enqueue_alive ce Let_def split: prod.splits EnqueueOutcome.splits)
  next
    case False
    then show ?thesis
      using Cons.IH [of h] Cons.prems
      by (auto simp: enqueue_dead ce reached_def Let_def split: prod.splits EnqueueOutcome.splits)
  qed
qed simp

section \<open>The writer, specified\<close>

definition total_size :: "DaemonMessage list \<Rightarrow> usize" where
  "total_size ms = (\<Sum>m\<leftarrow>ms. msg_size m)"

definition total_client_size :: "DaemonMessage list \<Rightarrow> usize" where
  "total_client_size ms = (\<Sum>m\<leftarrow>ms. client_size m)"

lemma total_size_simps [simp]:
  "total_size [] = 0" "total_size (m # ms) = msg_size m + total_size ms"
  "total_size (ms @ ms') = total_size ms + total_size ms'"
  "total_client_size [] = 0" "total_client_size (m # ms) = client_size m + total_client_size ms"
  "total_client_size (ms @ ms') = total_client_size ms + total_client_size ms'"
  by (simp_all add: total_size_def total_client_size_def)

text \<open>The counters after a batch of messages was credited.\<close>

definition credited :: "SubscriberSink \<Rightarrow> DaemonMessage list \<Rightarrow> hub \<Rightarrow> hub" where
  "credited s ms h =
     sub_global (total_size ms)
       (upd_chan s (\<lambda>c. c\<lparr>ch_bytes_in_flight := ch_bytes_in_flight c - total_client_size ms\<rparr>) h)"

lemma credited_Nil [simp]: "credited s [] h = h"
  by (simp add: credited_def sub_global_def upd_chan_def)

lemma writer_credit_credited: "writer_credit s m h = credited s [m] h"
  by (simp add: writer_credit_def credited_def client_size_def sub_bytes_def upd_chan_id)

lemma credited_credited: "credited s ms (credited s ms' h) = credited s (ms' @ ms) h"
  by (simp add: credited_def sub_global_def upd_chan_def algebra_simps)

lemma writer_drain_credited: "writer_drain s ms h = credited s ms h"
  by (induction ms arbitrary: h)
     (simp_all add: writer_credit_credited credited_credited)

lemma writer_loop_credited:
  "writer_loop send s w ms h = (h', w', rest, shut) \<Longrightarrow>
     \<exists>sent. ms = sent @ rest \<and> h' = credited s sent h \<and> (\<not> shut \<longrightarrow> rest = [])"
proof (induction ms arbitrary: w h)
  case (Cons m ms)
  show ?case
  proof (cases "send w m")
    case (Inl e)
    then show ?thesis using Cons.prems by (auto simp: writer_credit_credited)
  next
    case (Inr w1)
    show ?thesis
    proof (cases "stops_writer m")
      case True
      then show ?thesis using Cons.prems Inr by (auto simp: writer_credit_credited Let_def)
    next
      case False
      then have "writer_loop send s w1 ms (credited s [m] h) = (h', w', rest, shut)"
        using Cons.prems Inr by (simp add: writer_credit_credited Let_def)
      from Cons.IH [OF this] obtain sent where
        "ms = sent @ rest" "h' = credited s sent (credited s [m] h)" "\<not> shut \<longrightarrow> rest = []" by blast
      then show ?thesis by (intro exI [of _ "m # sent"]) (simp add: credited_credited)
    qed
  qed
qed simp

lemma writer_thread_hub:
  "fst (writer_thread send s w h) =
     upd_chan s (\<lambda>c. c\<lparr>ch_queue := [], ch_rx_alive := False\<rparr>)
       (credited s (ch_queue (hub_chan h s)) h)"
proof -
  obtain h1 w' rest shut where
    l: "writer_loop send s w (ch_queue (hub_chan h s)) h = (h1, w', rest, shut)"
    by (cases "writer_loop send s w (ch_queue (hub_chan h s)) h") auto
  from writer_loop_credited [OF l] obtain sent where
    "ch_queue (hub_chan h s) = sent @ rest" "h1 = credited s sent h" by blast
  then show ?thesis
    using l by (simp add: writer_thread_def writer_drain_credited credited_credited)
qed

lemma fan_out_overrun:
  assumes "\<exists>ce \<in> set subs. reached sink skip h ce"
    and "hub_global (fst (snd (fan_out_evicting sink msg lim skip subs h))) > global_budget lim"
  shows "fst (snd (snd (fan_out_evicting sink msg lim skip subs h))) \<noteq> [] \<or>
         snd (snd (snd (fan_out_evicting sink msg lim skip subs h)))"
  using assms
proof (induction subs arbitrary: h)
  case (Cons ce subs)
  obtain c e where ce: "ce = (c, e)" by (cases ce)
  show ?case
  proof (cases "reached sink skip h ce")
    case True
    then have r: "\<not> skip c e" "ch_rx_alive (hub_chan h (sink e))" by (auto simp: reached_def ce)
    let ?h = "deliver (sink e) msg h"
    show ?thesis
    proof (cases "\<exists>ce \<in> set subs. reached sink skip ?h ce")
      case tail: True
      then show ?thesis
        using Cons.IH [of ?h] Cons.prems(2) r
        by (auto simp: ce enqueue_alive Let_def split: prod.splits EnqueueOutcome.splits if_splits)
    next
      case False
      then have "filter (reached sink skip ?h) subs = []" by (auto simp: filter_empty_conv)
      then have "fst (snd (fan_out_evicting sink msg lim skip subs ?h)) = ?h"
        by (simp add: fan_out_hub fan_out_spec_def)
      then show ?thesis
        using Cons.prems(2) r
        by (auto simp: ce enqueue_alive Let_def store_simps
            split: prod.splits EnqueueOutcome.splits if_splits)
    qed
  next
    case False
    then have tail: "\<exists>ce \<in> set subs. reached sink skip h ce" using Cons.prems(1) by auto
    show ?thesis
      using Cons.IH [OF tail] Cons.prems(2) False
      by (cases "skip c e")
         (auto simp: enqueue_dead ce reached_def Let_def split: prod.splits)
  qed
qed simp

section \<open>Ways to answer a request\<close>

text \<open>Everything a handler can do with a reply target, including forgetting it.\<close>

datatype answer = A_Send DaemonMessageType | A_Accept | A_Fail string | A_Forget

fun run_answer :: "answer \<Rightarrow> ReplyTarget \<Rightarrow> hub \<Rightarrow> hub" where
  "run_answer (A_Send inner) target h = ReplyTarget_send target inner h"
| "run_answer A_Accept target h = ReplyTarget_accept target h"
| "run_answer (A_Fail error) target h = ReplyTarget_fail target error h"
| "run_answer A_Forget target h = ReplyTarget_drop target h"

fun answer_text :: "MessageKind \<Rightarrow> answer \<Rightarrow> DaemonMessageType" where
  "answer_text kind (A_Send inner) = inner"
| "answer_text kind A_Accept = DM_Accepted kind"
| "answer_text kind (A_Fail error) = DM_Failed kind error"
| "answer_text kind A_Forget = DM_Failed kind ''request was not answered by the daemon''"

lemma ReplySink_send_eq:
  "ReplySink_send rs inner h =
     (if ch_rx_alive (hub_chan h (rs_sink rs))
      then deliver (rs_sink rs) (DaemonMessage_reply (rs_id rs) inner) h else h)"
  by (simp add: ReplySink_send_def send_unchecked_eq)

lemma ReplyTarget_send_eq: "ReplyTarget_send t inner h = ReplySink_send (rt_sink t) inner h"
  by (simp add: ReplyTarget_send_def ReplyTarget_drop_def Let_def)

section \<open>Properties\<close>

text \<open>
  A fan-out over subscribers that each own a sink puts exactly one copy of the
  message at the end of the queue of every subscriber that is not skipped and
  still connected, touches no other queue, forgets exactly the disconnected
  subscribers it tried, and asks to evict exactly those whose own backlog now
  exceeds the per-client cap.
\<close>

theorem fan_out_delivers_once:
  assumes one_sink_each: "distinct (map (\<lambda>(c, e). sink e) subs)"
    and run: "fan_out_evicting sink msg lim skip subs h = (kept, h', evict, largest)"
  shows "(\<forall>s. ch_queue (hub_chan h' s) = ch_queue (hub_chan h s) @
            (if \<exists>c e. (c, e) \<in> set subs \<and> sink e = s \<and> reached sink skip h (c, e)
             then [msg] else [])) \<and>
         kept = filter (\<lambda>(c, e). skip c e \<or> ch_rx_alive (hub_chan h (sink e))) subs \<and>
         (\<forall>c. c \<in> set evict \<longleftrightarrow> (\<exists>e. (c, e) \<in> set subs \<and> reached sink skip h (c, e) \<and>
            ch_bytes_in_flight (hub_chan h (sink e)) + client_size msg > per_client_cap lim))"
proof (intro conjI allI)
  fix s
  have h': "h' = fan_out_spec sink msg (filter (reached sink skip h) subs) h"
    using fan_out_hub [of sink msg lim skip subs h] run by simp
  have one: "length (filter (\<lambda>(c, e). sink e = s) (filter (reached sink skip h) subs)) =
      (if \<exists>c e. (c, e) \<in> set subs \<and> sink e = s \<and> reached sink skip h (c, e) then 1 else 0)"
    using one_sink_each
  proof (induction subs)
    case (Cons ce subs)
    obtain c e where ce: "ce = (c, e)" by (cases ce)
    have "sink e \<notin> (\<lambda>(c, e). sink e) ` set subs" using Cons.prems by (simp add: ce)
    then have off: "sink e' \<noteq> sink e" if "(k, e') \<in> set subs" for k e'
      using that by (force simp: image_iff)
    show ?case using Cons off by (cases "sink e = s") (auto simp: ce filter_empty_conv)
  qed simp
  show "ch_queue (hub_chan h' s) = ch_queue (hub_chan h s) @
      (if \<exists>c e. (c, e) \<in> set subs \<and> sink e = s \<and> reached sink skip h (c, e) then [msg] else [])"
    using one by (auto simp: h' store_simps split: if_splits)
next
  show "kept = filter (\<lambda>(c, e). skip c e \<or> ch_rx_alive (hub_chan h (sink e))) subs"
    using fan_out_kept [of sink msg lim skip subs h] run by simp
next
  fix c
  show "c \<in> set evict \<longleftrightarrow> (\<exists>e. (c, e) \<in> set subs \<and> reached sink skip h (c, e) \<and>
      ch_bytes_in_flight (hub_chan h (sink e)) + client_size msg > per_client_cap lim)"
    using fan_out_evict_iff [OF one_sink_each, of c msg lim skip h] run by simp
qed

definition sample_hub :: hub where
  "sample_hub = \<lparr>hub_chan = (\<lambda>s. if s < 2 then fresh_chan else fresh_chan\<lparr>ch_rx_alive := False\<rparr>),
     hub_next = 3, hub_global = 0\<rparr>"

definition sample_pong :: DaemonMessage where
  "sample_pong = DaemonMessage_broadcast DM_Pong"

theorem fan_out_delivers_once_witness:
  "\<exists>kept h' evict largest.
     fan_out_evicting (\<lambda>s. s) sample_pong LagLimits_default (\<lambda>c s. c = 7)
       [(5, 0), (7, 1), (9, 2)] sample_hub = (kept, h', evict, largest) \<and>
     ch_queue (hub_chan h' 0) = [sample_pong] \<and> ch_queue (hub_chan h' 1) = [] \<and>
     kept = [(5, 0), (7, 1)]"
proof -
  obtain kept h' evict largest where
    run: "fan_out_evicting (\<lambda>s. s) sample_pong LagLimits_default (\<lambda>c s. c = 7)
       [(5, 0), (7, 1), (9, 2)] sample_hub = (kept, h', evict, largest)"
    by (metis prod_cases4)
  have th: "(\<forall>s. ch_queue (hub_chan h' s) = ch_queue (hub_chan sample_hub s) @
        (if \<exists>c e. (c, e) \<in> set [(5, 0), (7, 1), (9, 2)] \<and> e = s \<and>
              reached (\<lambda>s. s) (\<lambda>c s. c = 7) sample_hub (c, e) then [sample_pong] else [])) \<and>
      kept = filter (\<lambda>(c, e). c = 7 \<or> ch_rx_alive (hub_chan sample_hub e)) [(5, 0), (7, 1), (9, 2)]"
    using fan_out_delivers_once [OF _ run] by simp
  have "ch_queue (hub_chan h' 0) = [sample_pong]" "ch_queue (hub_chan h' 1) = []"
      "kept = [(5, 0), (7, 1)]"
    using th by (auto simp: sample_hub_def fresh_chan_def reached_def)
  with run show ?thesis by (intro exI conjI)
qed

text \<open>
  A fan-out that reaches somebody and leaves the daemon-wide backlog above the
  global budget always asks for an eviction: of a client above its own cap, or
  of the largest one.
\<close>

theorem fan_out_never_overruns_silently:
  assumes "fan_out_evicting sink msg lim skip subs h = (kept, h', evict, largest)"
    and "ce \<in> set subs" and "reached sink skip h ce"
    and "hub_global h' > global_budget lim"
  shows "evict \<noteq> [] \<or> largest"
  using fan_out_overrun [of subs sink skip h lim msg] assms by auto

theorem fan_out_never_overruns_silently_witness:
  "\<exists>kept h' evict largest.
     fan_out_evicting (\<lambda>s. s) sample_pong \<lparr>per_client_cap = 1000, global_budget = 10\<rparr>
       (\<lambda>c s. False) [(5, 0)] sample_hub = (kept, h', evict, largest) \<and>
     (evict \<noteq> [] \<or> largest)"
proof -
  let ?lim = "\<lparr>per_client_cap = 1000, global_budget = 10\<rparr>"
  obtain kept h' evict largest where
    run: "fan_out_evicting (\<lambda>s. s) sample_pong ?lim (\<lambda>c s. False) [(5, 0)] sample_hub =
      (kept, h', evict, largest)"
    by (metis prod_cases4)
  have reach: "reached (\<lambda>s. s) (\<lambda>c s. False) sample_hub (5, 0)"
    by (simp add: reached_def sample_hub_def fresh_chan_def)
  then have "hub_global h' = msg_size sample_pong"
    using fan_out_hub [of "\<lambda>s. s" sample_pong ?lim "\<lambda>c s. False" "[(5, 0)]" sample_hub] run
    by (simp add: store_simps sample_hub_def)
  also have "\<dots> > 10"
    by (simp add: sample_pong_def msg_size_def DaemonMessage_broadcast_def size_defs)
  finally have "hub_global h' > global_budget ?lim" by simp
  then show ?thesis
    using fan_out_never_overruns_silently [OF run, of "(5, 0)"] reach run by auto
qed

text \<open>
  Whatever a handler does with its reply target (send, accept, fail, or forget
  it), the requester's queue gets exactly one terminal reply, under the id of
  the request; no other queue changes. A requester that is gone gets nothing
  and the counters stay as they were.
\<close>

theorem reply_target_answers_once:
  "run_answer a (ReplyTarget_new rid kind sink) h =
     (if ch_rx_alive (hub_chan h sink)
      then deliver sink (DaemonMessage_reply rid (answer_text kind a)) h else h)"
  by (cases a)
     (simp_all add: ReplyTarget_new_def ReplyTarget_accept_def ReplyTarget_fail_def
        ReplyTarget_send_eq ReplySink_send_eq ReplyTarget_drop_def)

text \<open>
  However far the socket gets (it may fail at any message, or be stopped by an
  eviction or shutdown notice), the writer thread leaves with its queue empty
  and its receiver gone, and has returned to both counters exactly the bytes
  that were charged for the messages that were queued.
\<close>

theorem writer_thread_returns_all_bytes:
  "fst (writer_thread send s w h) =
     h\<lparr>hub_global := hub_global h - (\<Sum>m\<leftarrow>ch_queue (hub_chan h s). msg_size m),
       hub_chan := (hub_chan h)(s := (hub_chan h s)
         \<lparr>ch_bytes_in_flight :=
            ch_bytes_in_flight (hub_chan h s) - (\<Sum>m\<leftarrow>ch_queue (hub_chan h s). client_size m),
          ch_queue := [], ch_rx_alive := False\<rparr>)\<rparr>"
  by (simp add: writer_thread_hub credited_def upd_chan_def sub_global_def total_size_def
      total_client_size_def)

end
