(* ===== verification/Lag_Accounting.thy ===== *)
theory Lag_Accounting
  imports Broadcast "HOL-Library.Multiset"
begin

text \<open>
  Producers and writers, interleaved. \<open>SubscriberSink::send_accounted\<close>
  (\<open>broadcast.rs\<close>) charges the daemon-wide counter, then the client's counter, then
  sends, and takes both charges back when the receiver is gone;
  \<open>writer_thread\<close> (\<open>server/connection.rs\<close>) dequeues, writes and credits, and
  drains what is left before its receiver is dropped. Every one of these is an
  atomic operation of its own that any other thread may come between.

  The state is the channel store, the multiset of sends in progress, the position
  of each connection's writer, and, as a ghost, the messages that were still in a
  queue when its receiver was dropped.
\<close>

section \<open>The machine\<close>

text \<open>How far a send in progress has got.\<close>

datatype producer =
    P_Charged_Global SubscriberSink DaemonMessage
  | P_Charged_Both SubscriberSink DaemonMessage
  | P_Refund_Client SubscriberSink DaemonMessage
  | P_Refund_Global SubscriberSink DaemonMessage

text \<open>Where a writer is: waiting, holding a message it took, draining, or gone.\<close>

datatype writer =
    W_Loop
  | W_Credit_Client DaemonMessage bool
  | W_Credit_Global DaemonMessage bool
  | W_Drain
  | W_Drain_Client DaemonMessage
  | W_Drain_Global DaemonMessage
  | W_Exiting
  | W_Gone

record lag_state =
  lag_hub :: hub
  lag_producers :: "producer multiset"
  lag_writer :: "SubscriberSink \<Rightarrow> writer"
  lag_leaked :: "SubscriberSink \<Rightarrow> DaemonMessage list"

definition charge_client :: "SubscriberSink \<Rightarrow> DaemonMessage \<Rightarrow> hub \<Rightarrow> hub" where
  "charge_client s msg h =
     (if counts_toward_client_lag msg then add_bytes s (msg_size msg) h else h)"

definition refund_client :: "SubscriberSink \<Rightarrow> DaemonMessage \<Rightarrow> hub \<Rightarrow> hub" where
  "refund_client s msg h =
     (if counts_toward_client_lag msg then sub_bytes s (msg_size msg) h else h)"

definition pop_queue :: "SubscriberSink \<Rightarrow> hub \<Rightarrow> hub" where
  "pop_queue s h = upd_chan s (\<lambda>c. c\<lparr>ch_queue := tl (ch_queue c)\<rparr>) h"

inductive lag_step :: "lag_state \<Rightarrow> lag_state \<Rightarrow> bool" where
  connect:
    "lag_step S (S\<lparr>lag_hub := snd (SubscriberSink_new (lag_hub S)),
        lag_writer := (lag_writer S)(hub_next (lag_hub S) := W_Loop),
        lag_leaked := (lag_leaked S)(hub_next (lag_hub S) := [])\<rparr>)"
| p_charge_global:
    "s < hub_next (lag_hub S) \<Longrightarrow>
     lag_step S (S\<lparr>lag_hub := add_global (msg_size msg) (lag_hub S),
        lag_producers := add_mset (P_Charged_Global s msg) (lag_producers S)\<rparr>)"
| p_charge_client:
    "lag_producers S = add_mset (P_Charged_Global s msg) ps \<Longrightarrow>
     lag_step S (S\<lparr>lag_hub := charge_client s msg (lag_hub S),
        lag_producers := add_mset (P_Charged_Both s msg) ps\<rparr>)"
| p_sent:
    "lag_producers S = add_mset (P_Charged_Both s msg) ps \<Longrightarrow>
     chan_send s msg (lag_hub S) = Some h' \<Longrightarrow>
     lag_step S (S\<lparr>lag_hub := h', lag_producers := ps\<rparr>)"
| p_send_failed:
    "lag_producers S = add_mset (P_Charged_Both s msg) ps \<Longrightarrow>
     chan_send s msg (lag_hub S) = None \<Longrightarrow>
     lag_step S (S\<lparr>lag_producers := add_mset (P_Refund_Client s msg) ps\<rparr>)"
| p_refund_client:
    "lag_producers S = add_mset (P_Refund_Client s msg) ps \<Longrightarrow>
     lag_step S (S\<lparr>lag_hub := refund_client s msg (lag_hub S),
        lag_producers := add_mset (P_Refund_Global s msg) ps\<rparr>)"
| p_refund_global:
    "lag_producers S = add_mset (P_Refund_Global s msg) ps \<Longrightarrow>
     lag_step S (S\<lparr>lag_hub := sub_global (msg_size msg) (lag_hub S), lag_producers := ps\<rparr>)"
| w_take:
    "s < hub_next (lag_hub S) \<Longrightarrow> lag_writer S s = W_Loop \<Longrightarrow>
     ch_queue (hub_chan (lag_hub S) s) = msg # q \<Longrightarrow>
     lag_step S (S\<lparr>lag_hub := pop_queue s (lag_hub S),
        lag_writer := (lag_writer S)(s := W_Credit_Client msg ok)\<rparr>)"
| w_credit_client:
    "s < hub_next (lag_hub S) \<Longrightarrow> lag_writer S s = W_Credit_Client msg ok \<Longrightarrow>
     lag_step S (S\<lparr>lag_hub := refund_client s msg (lag_hub S),
        lag_writer := (lag_writer S)(s := W_Credit_Global msg ok)\<rparr>)"
| w_credit_global:
    "s < hub_next (lag_hub S) \<Longrightarrow> lag_writer S s = W_Credit_Global msg ok \<Longrightarrow>
     lag_step S (S\<lparr>lag_hub := sub_global (msg_size msg) (lag_hub S),
        lag_writer := (lag_writer S)
          (s := if ok \<and> \<not> stops_writer msg then W_Loop else W_Drain)\<rparr>)"
| w_senders_gone:
    "s < hub_next (lag_hub S) \<Longrightarrow> lag_writer S s = W_Loop \<Longrightarrow>
     ch_queue (hub_chan (lag_hub S) s) = [] \<Longrightarrow>
     lag_step S (S\<lparr>lag_writer := (lag_writer S)(s := W_Drain)\<rparr>)"
| w_drain_take:
    "s < hub_next (lag_hub S) \<Longrightarrow> lag_writer S s = W_Drain \<Longrightarrow>
     ch_queue (hub_chan (lag_hub S) s) = msg # q \<Longrightarrow>
     lag_step S (S\<lparr>lag_hub := pop_queue s (lag_hub S),
        lag_writer := (lag_writer S)(s := W_Drain_Client msg)\<rparr>)"
| w_drain_client:
    "s < hub_next (lag_hub S) \<Longrightarrow> lag_writer S s = W_Drain_Client msg \<Longrightarrow>
     lag_step S (S\<lparr>lag_hub := refund_client s msg (lag_hub S),
        lag_writer := (lag_writer S)(s := W_Drain_Global msg)\<rparr>)"
| w_drain_global:
    "s < hub_next (lag_hub S) \<Longrightarrow> lag_writer S s = W_Drain_Global msg \<Longrightarrow>
     lag_step S (S\<lparr>lag_hub := sub_global (msg_size msg) (lag_hub S),
        lag_writer := (lag_writer S)(s := W_Drain)\<rparr>)"
| w_drain_done:
    "s < hub_next (lag_hub S) \<Longrightarrow> lag_writer S s = W_Drain \<Longrightarrow>
     ch_queue (hub_chan (lag_hub S) s) = [] \<Longrightarrow>
     lag_step S (S\<lparr>lag_writer := (lag_writer S)(s := W_Exiting)\<rparr>)"
| w_drop_receiver:
    "s < hub_next (lag_hub S) \<Longrightarrow> lag_writer S s = W_Exiting \<Longrightarrow>
     lag_step S (S\<lparr>lag_hub := upd_chan s (\<lambda>c. c\<lparr>ch_queue := [], ch_rx_alive := False\<rparr>) (lag_hub S),
        lag_writer := (lag_writer S)(s := W_Gone),
        lag_leaked := (lag_leaked S)(s := ch_queue (hub_chan (lag_hub S) s))\<rparr>)"

definition empty_hub :: hub where
  "empty_hub = \<lparr>hub_chan = (\<lambda>_. fresh_chan), hub_next = 0, hub_global = 0\<rparr>"

definition lag_init :: lag_state where
  "lag_init = \<lparr>lag_hub = empty_hub, lag_producers = {#}, lag_writer = (\<lambda>_. W_Loop),
     lag_leaked = (\<lambda>_. [])\<rparr>"

inductive lag_reachable :: "lag_state \<Rightarrow> bool" where
  init: "lag_reachable lag_init"
| step: "lag_reachable S \<Longrightarrow> lag_step S S' \<Longrightarrow> lag_reachable S'"

section \<open>What each party still holds\<close>

fun producer_sink :: "producer \<Rightarrow> SubscriberSink" where
  "producer_sink (P_Charged_Global s _) = s"
| "producer_sink (P_Charged_Both s _) = s"
| "producer_sink (P_Refund_Client s _) = s"
| "producer_sink (P_Refund_Global s _) = s"

fun producer_global :: "producer \<Rightarrow> usize" where
  "producer_global (P_Charged_Global _ m) = msg_size m"
| "producer_global (P_Charged_Both _ m) = msg_size m"
| "producer_global (P_Refund_Client _ m) = msg_size m"
| "producer_global (P_Refund_Global _ m) = msg_size m"

fun producer_client :: "SubscriberSink \<Rightarrow> producer \<Rightarrow> usize" where
  "producer_client s (P_Charged_Both s' m) = (if s' = s then client_size m else 0)"
| "producer_client s (P_Refund_Client s' m) = (if s' = s then client_size m else 0)"
| "producer_client s _ = 0"

fun writer_global :: "writer \<Rightarrow> usize" where
  "writer_global (W_Credit_Client m _) = msg_size m"
| "writer_global (W_Credit_Global m _) = msg_size m"
| "writer_global (W_Drain_Client m) = msg_size m"
| "writer_global (W_Drain_Global m) = msg_size m"
| "writer_global _ = 0"

fun writer_client :: "writer \<Rightarrow> usize" where
  "writer_client (W_Credit_Client m _) = client_size m"
| "writer_client (W_Drain_Client m) = client_size m"
| "writer_client _ = 0"

text \<open>The bytes of one connection: queued, in its writer's hand, or leaked.\<close>

definition sink_global :: "lag_state \<Rightarrow> SubscriberSink \<Rightarrow> usize" where
  "sink_global S s =
     total_size (ch_queue (hub_chan (lag_hub S) s)) + writer_global (lag_writer S s)
     + total_size (lag_leaked S s)"

definition sink_client :: "lag_state \<Rightarrow> SubscriberSink \<Rightarrow> usize" where
  "sink_client S s =
     total_client_size (ch_queue (hub_chan (lag_hub S) s)) + writer_client (lag_writer S s)
     + total_client_size (lag_leaked S s)"

definition balanced_global :: "lag_state \<Rightarrow> bool" where
  "balanced_global S \<longleftrightarrow>
     hub_global (lag_hub S) =
       (\<Sum>s<hub_next (lag_hub S). sink_global S s) + (\<Sum>p\<in>#lag_producers S. producer_global p)"

definition balanced_client :: "lag_state \<Rightarrow> SubscriberSink \<Rightarrow> bool" where
  "balanced_client S s \<longleftrightarrow>
     ch_bytes_in_flight (hub_chan (lag_hub S) s) =
       sink_client S s + (\<Sum>p\<in>#lag_producers S. producer_client s p)"

text \<open>
  A sink in use was handed out; a receiver is gone exactly when its writer has
  left; and only a writer that has left can have leaked.
\<close>

definition lag_wf :: "lag_state \<Rightarrow> bool" where
  "lag_wf S \<longleftrightarrow>
     (\<forall>p \<in># lag_producers S. producer_sink p < hub_next (lag_hub S)) \<and>
     (\<forall>s < hub_next (lag_hub S).
        (ch_rx_alive (hub_chan (lag_hub S) s) \<longleftrightarrow> lag_writer S s \<noteq> W_Gone) \<and>
        (lag_writer S s \<noteq> W_Gone \<longrightarrow> lag_leaked S s = []) \<and>
        (lag_writer S s = W_Gone \<longrightarrow> ch_queue (hub_chan (lag_hub S) s) = []))"

section \<open>Preservation\<close>

lemma sum_change_one:
  fixes f f' :: "nat \<Rightarrow> 'a::ab_group_add"
  assumes "s < n" and "\<And>i. i \<noteq> s \<Longrightarrow> f' i = f i"
  shows "(\<Sum>i<n. f' i) = (\<Sum>i<n. f i) + (f' s - f s)"
proof -
  have "(\<Sum>i<n. f' i) = f' s + (\<Sum>i\<in>{..<n} - {s}. f' i)"
    and "(\<Sum>i<n. f i) = f s + (\<Sum>i\<in>{..<n} - {s}. f i)"
    using assms(1) by (simp_all add: sum.remove)
  moreover have "(\<Sum>i\<in>{..<n} - {s}. f' i) = (\<Sum>i\<in>{..<n} - {s}. f i)"
    using assms(2) by (intro sum.cong) auto
  ultimately show ?thesis by simp
qed

definition pending_global :: "lag_state \<Rightarrow> usize" where
  "pending_global S = (\<Sum>p\<in>#lag_producers S. producer_global p)"

definition pending_client :: "lag_state \<Rightarrow> SubscriberSink \<Rightarrow> usize" where
  "pending_client S s = (\<Sum>p\<in>#lag_producers S. producer_client s p)"

text \<open>A step that touches one sink keeps the balance if the differences agree there.\<close>

lemma balanced_global_frame:
  assumes "balanced_global S" and "s < hub_next (lag_hub S)"
    and "hub_next (lag_hub S') = hub_next (lag_hub S)"
    and "\<And>i. i \<noteq> s \<Longrightarrow> sink_global S' i = sink_global S i"
    and "hub_global (lag_hub S') + sink_global S s + pending_global S =
         hub_global (lag_hub S) + sink_global S' s + pending_global S'"
  shows "balanced_global S'"
proof -
  let ?T = "\<Sum>i<hub_next (lag_hub S). sink_global S i"
  let ?T' = "\<Sum>i<hub_next (lag_hub S). sink_global S' i"
  have T: "?T' = ?T + (sink_global S' s - sink_global S s)"
    by (rule sum_change_one [OF assms(2,4)])
  have "hub_global (lag_hub S) = ?T + pending_global S"
    using assms(1) by (simp add: balanced_global_def pending_global_def)
  then have "hub_global (lag_hub S') + sink_global S s + pending_global S =
      ?T + pending_global S + sink_global S' s + pending_global S'"
    using assms(5) by simp
  then have "hub_global (lag_hub S') = ?T + (sink_global S' s - sink_global S s) + pending_global S'"
    by (simp add: eq_diff_eq algebra_simps)
  then show ?thesis
    using T assms(3) by (simp add: balanced_global_def pending_global_def)
qed

lemma lag_hub_simps [store_simps]:
  "hub_next (charge_client s m h) = hub_next h" "hub_next (refund_client s m h) = hub_next h"
  "hub_global (charge_client s m h) = hub_global h" "hub_global (refund_client s m h) = hub_global h"
  "ch_queue (hub_chan (charge_client s m h) s') = ch_queue (hub_chan h s')"
  "ch_queue (hub_chan (refund_client s m h) s') = ch_queue (hub_chan h s')"
  "ch_rx_alive (hub_chan (charge_client s m h) s') = ch_rx_alive (hub_chan h s')"
  "ch_rx_alive (hub_chan (refund_client s m h) s') = ch_rx_alive (hub_chan h s')"
  "ch_bytes_in_flight (hub_chan (charge_client s m h) s') =
     ch_bytes_in_flight (hub_chan h s') + (if s' = s then client_size m else 0)"
  "ch_bytes_in_flight (hub_chan (refund_client s m h) s') =
     ch_bytes_in_flight (hub_chan h s') - (if s' = s then client_size m else 0)"
  "hub_next (pop_queue s h) = hub_next h" "hub_global (pop_queue s h) = hub_global h"
  "ch_queue (hub_chan (pop_queue s h) s') =
     (if s' = s then tl (ch_queue (hub_chan h s)) else ch_queue (hub_chan h s'))"
  "ch_rx_alive (hub_chan (pop_queue s h) s') = ch_rx_alive (hub_chan h s')"
  "ch_bytes_in_flight (hub_chan (pop_queue s h) s') = ch_bytes_in_flight (hub_chan h s')"
  by (simp_all add: charge_client_def refund_client_def add_bytes_def sub_bytes_def pop_queue_def
      store_simps client_size_def)

lemma chan_send_simps:
  assumes "chan_send s m h = Some h'"
  shows "hub_next h' = hub_next h" "hub_global h' = hub_global h"
    "ch_queue (hub_chan h' s') =
       (if s' = s then ch_queue (hub_chan h s) @ [m] else ch_queue (hub_chan h s'))"
    "ch_rx_alive (hub_chan h' s') = ch_rx_alive (hub_chan h s')"
    "ch_bytes_in_flight (hub_chan h' s') = ch_bytes_in_flight (hub_chan h s')"
    "ch_rx_alive (hub_chan h s)"
  using assms by (auto simp: chan_send_def store_simps split: if_splits)

lemma new_sink_simps [store_simps]:
  "hub_next (snd (SubscriberSink_new h)) = Suc (hub_next h)"
  "hub_global (snd (SubscriberSink_new h)) = hub_global h"
  "hub_chan (snd (SubscriberSink_new h)) s = (if s = hub_next h then fresh_chan else hub_chan h s)"
  by (simp_all add: SubscriberSink_new_def)

lemma lag_wf_step: "lag_step S S' \<Longrightarrow> lag_wf S \<Longrightarrow> lag_wf S'"
proof (induction rule: lag_step.induct)
  case (connect S)
  then show ?case by (auto simp: lag_wf_def store_simps fresh_chan_def less_Suc_eq)
next
  case (p_sent S s msg ps h')
  then show ?case by (auto simp: lag_wf_def chan_send_simps)
qed (auto simp: lag_wf_def store_simps)

lemma balanced_global_connect:
  "balanced_global S \<Longrightarrow>
     balanced_global (S\<lparr>lag_hub := snd (SubscriberSink_new (lag_hub S)),
        lag_writer := (lag_writer S)(hub_next (lag_hub S) := W_Loop),
        lag_leaked := (lag_leaked S)(hub_next (lag_hub S) := [])\<rparr>)"
  by (simp add: balanced_global_def sink_global_def store_simps fresh_chan_def)

lemma balanced_global_writer:
  assumes "balanced_global S" and "s < hub_next (lag_hub S)"
    and "hub_next h' = hub_next (lag_hub S)"
    and "\<And>i. i \<noteq> s \<Longrightarrow> ch_queue (hub_chan h' i) = ch_queue (hub_chan (lag_hub S) i)"
    and "hub_global h' + total_size (ch_queue (hub_chan (lag_hub S) s)) + writer_global (lag_writer S s) =
         hub_global (lag_hub S) + total_size (ch_queue (hub_chan h' s)) + writer_global w'"
  shows "balanced_global (S\<lparr>lag_hub := h', lag_writer := (lag_writer S)(s := w')\<rparr>)"
  using assms
  by - (rule balanced_global_frame [of S s]; simp add: sink_global_def pending_global_def algebra_simps)

lemma balanced_global_producer:
  assumes "balanced_global S" and "s < hub_next (lag_hub S)"
    and "hub_next h' = hub_next (lag_hub S)"
    and "\<And>i. i \<noteq> s \<Longrightarrow> ch_queue (hub_chan h' i) = ch_queue (hub_chan (lag_hub S) i)"
    and "hub_global h' + total_size (ch_queue (hub_chan (lag_hub S) s)) + pending_global S =
         hub_global (lag_hub S) + total_size (ch_queue (hub_chan h' s))
         + (\<Sum>p\<in>#ps'. producer_global p)"
  shows "balanced_global (S\<lparr>lag_hub := h', lag_producers := ps'\<rparr>)"
  using assms
  by - (rule balanced_global_frame [of S s]; simp add: sink_global_def pending_global_def algebra_simps)

lemmas balance_simps = sink_global_def pending_global_def store_simps lag_wf_def

lemma balanced_global_step:
  "lag_step S S' \<Longrightarrow> lag_wf S \<Longrightarrow> balanced_global S \<Longrightarrow> balanced_global S'"
proof (induction rule: lag_step.induct)
  case (connect S)
  then show ?case by - (rule balanced_global_connect)
next
  case (p_sent S s msg ps h')
  then show ?case
    by - (rule balanced_global_producer [of S s]; auto simp: pending_global_def chan_send_simps lag_wf_def)
next
  case (p_send_failed S s msg ps)
  then show ?case by - (rule balanced_global_frame [of S s]; auto simp: balance_simps)
next
  case (w_senders_gone s S)
  then show ?case by - (rule balanced_global_frame [of S s]; auto simp: balance_simps)
next
  case (w_drain_done s S)
  then show ?case by - (rule balanced_global_frame [of S s]; auto simp: balance_simps)
next
  case (w_drop_receiver s S)
  then show ?case by - (rule balanced_global_frame [of S s]; auto simp: balance_simps)
next
  case (p_charge_global s S msg)
  then show ?case by - (rule balanced_global_producer [of S s]; auto simp: balance_simps)
next
  case (p_charge_client S s msg ps)
  then show ?case by - (rule balanced_global_producer [of S s]; auto simp: balance_simps)
next
  case (p_refund_client S s msg ps)
  then show ?case by - (rule balanced_global_producer [of S s]; auto simp: balance_simps)
next
  case (p_refund_global S s msg ps)
  then show ?case by - (rule balanced_global_producer [of S s]; auto simp: balance_simps)
qed (rule balanced_global_writer; simp add: store_simps)+

lemma balanced_client_step:
  "lag_step S S' \<Longrightarrow> lag_wf S \<Longrightarrow> t < hub_next (lag_hub S) \<Longrightarrow> balanced_client S t \<Longrightarrow>
   balanced_client S' t"
proof (induction rule: lag_step.induct)
  case (p_sent S s msg ps h')
  then show ?case
    by (auto simp: balanced_client_def sink_client_def chan_send_simps)
next
  case (w_drop_receiver s S)
  then show ?case
    by (auto simp: balanced_client_def sink_client_def store_simps lag_wf_def)
qed (auto simp: balanced_client_def sink_client_def store_simps)

lemma lag_init_ok:
  "lag_wf lag_init" "balanced_global lag_init"
  by (simp_all add: lag_wf_def lag_init_def empty_hub_def balanced_global_def)

lemma balanced_client_connect:
  assumes "lag_wf S" and "t = hub_next (lag_hub S)"
  shows "balanced_client (S\<lparr>lag_hub := snd (SubscriberSink_new (lag_hub S)),
        lag_writer := (lag_writer S)(hub_next (lag_hub S) := W_Loop),
        lag_leaked := (lag_leaked S)(hub_next (lag_hub S) := [])\<rparr>) t"
proof -
  have "producer_client t p = 0" if "p \<in># lag_producers S" for p
    using that assms by (cases p) (auto simp: lag_wf_def)
  then have "(\<Sum>p\<in>#lag_producers S. producer_client t p) = 0"
    by (simp add: sum_mset.neutral)
  then show ?thesis
    using assms(2) by (simp add: balanced_client_def sink_client_def store_simps fresh_chan_def)
qed

lemma lag_step_next:
  "lag_step S S' \<Longrightarrow> t < hub_next (lag_hub S') \<Longrightarrow>
     t < hub_next (lag_hub S) \<or>
     (t = hub_next (lag_hub S) \<and>
      S' = S\<lparr>lag_hub := snd (SubscriberSink_new (lag_hub S)),
        lag_writer := (lag_writer S)(hub_next (lag_hub S) := W_Loop),
        lag_leaked := (lag_leaked S)(hub_next (lag_hub S) := [])\<rparr>)"
proof (induction rule: lag_step.induct)
  case (p_sent S s msg ps h')
  then show ?case by (auto simp: chan_send_simps)
qed (auto simp: store_simps)

lemma lag_reachable_ok:
  "lag_reachable S \<Longrightarrow>
     lag_wf S \<and> balanced_global S \<and> (\<forall>t < hub_next (lag_hub S). balanced_client S t)"
proof (induction rule: lag_reachable.induct)
  case init
  then show ?case using lag_init_ok by (simp add: lag_init_def empty_hub_def)
next
  case (step S S')
  have "balanced_client S' t" if "t < hub_next (lag_hub S')" for t
    using lag_step_next [OF step.hyps(2) that] step balanced_client_step [of S S' t]
      balanced_client_connect [of S t] by auto
  then show ?case using step lag_wf_step balanced_global_step by blast
qed

section \<open>The accounting without a late send\<close>

text \<open>
  A late send lands in a queue after its writer has seen it empty for the last
  time and before the receiver is dropped.
\<close>

definition late_send :: "lag_state \<Rightarrow> lag_state \<Rightarrow> bool" where
  "late_send S S' \<longleftrightarrow> (\<exists>s < hub_next (lag_hub S). lag_writer S s = W_Exiting \<and>
     ch_queue (hub_chan (lag_hub S') s) \<noteq> ch_queue (hub_chan (lag_hub S) s) \<and>
     lag_writer S' s = W_Exiting)"

inductive quiet_reachable :: "lag_state \<Rightarrow> bool" where
  quiet_init: "quiet_reachable lag_init"
| quiet_step: "quiet_reachable S \<Longrightarrow> lag_step S S' \<Longrightarrow> \<not> late_send S S' \<Longrightarrow> quiet_reachable S'"

definition no_leak :: "lag_state \<Rightarrow> bool" where
  "no_leak S \<longleftrightarrow> (\<forall>s < hub_next (lag_hub S). lag_leaked S s = [] \<and>
     (lag_writer S s = W_Exiting \<longrightarrow> ch_queue (hub_chan (lag_hub S) s) = []))"

lemma no_leak_step: "lag_step S S' \<Longrightarrow> \<not> late_send S S' \<Longrightarrow> no_leak S \<Longrightarrow> no_leak S'"
proof (induction rule: lag_step.induct)
  case (connect S)
  then show ?case by (auto simp: no_leak_def store_simps fresh_chan_def less_Suc_eq)
next
  case (p_sent S s msg ps h')
  then show ?case by (auto simp: no_leak_def late_send_def chan_send_simps)
qed (auto simp: no_leak_def store_simps)

lemma quiet_no_leak: "quiet_reachable S \<Longrightarrow> no_leak S \<and> lag_reachable S"
proof (induction rule: quiet_reachable.induct)
  case quiet_init
  then show ?case by (auto simp: no_leak_def lag_init_def empty_hub_def intro: lag_reachable.init [unfolded lag_init_def empty_hub_def])
next
  case (quiet_step S S')
  then show ?case using no_leak_step lag_reachable.step by blast
qed

text \<open>Nothing is in flight: no send in progress, every queue empty, no message in a writer's hand.\<close>

definition quiescent :: "lag_state \<Rightarrow> bool" where
  "quiescent S \<longleftrightarrow> lag_producers S = {#} \<and>
     (\<forall>s < hub_next (lag_hub S). ch_queue (hub_chan (lag_hub S) s) = [] \<and>
        lag_writer S s \<in> {W_Loop, W_Drain, W_Exiting, W_Gone})"

section \<open>The sequential operations are runs of the machine\<close>

lemma lag_steps_front: "lag_step S T \<Longrightarrow> (lag_step ^^ n) T U \<Longrightarrow> (lag_step ^^ Suc n) S U"
  by (rule relpowp_Suc_I2)

lemma lag_run_front: "lag_step S T \<Longrightarrow> lag_step\<^sup>*\<^sup>* T U \<Longrightarrow> lag_step\<^sup>*\<^sup>* S U"
  by (rule converse_rtranclp_into_rtranclp)

lemma lag_run_one: "lag_step S T \<Longrightarrow> lag_step\<^sup>*\<^sup>* S T"
  by (rule r_into_rtranclp)

lemma run_send_alive:
  assumes s: "s < hub_next (lag_hub S)" and alive: "ch_rx_alive (hub_chan (lag_hub S) s)"
  shows "(lag_step ^^ 3) S (S\<lparr>lag_hub := deliver s msg (lag_hub S)\<rparr>)"
proof -
  let ?h1 = "add_global (msg_size msg) (lag_hub S)" and ?P = "lag_producers S"
  let ?S1 = "S\<lparr>lag_hub := ?h1, lag_producers := add_mset (P_Charged_Global s msg) ?P\<rparr>"
  let ?h2 = "charge_client s msg ?h1"
  let ?S2 = "S\<lparr>lag_hub := ?h2, lag_producers := add_mset (P_Charged_Both s msg) ?P\<rparr>"
  have step1: "lag_step S ?S1" by (rule p_charge_global [OF s])
  have step2: "lag_step ?S1 ?S2" using p_charge_client [of ?S1 s msg ?P] by simp
  have "chan_send s msg ?h2 = Some (deliver s msg (lag_hub S))"
    using alive by (simp add: chan_send_def store_simps deliver_def charge_client_def client_size_def
        add_bytes_def upd_chan_upd_chan)
  then have step3: "lag_step ?S2 (S\<lparr>lag_hub := deliver s msg (lag_hub S)\<rparr>)"
    using p_sent [of ?S2 s msg ?P "deliver s msg (lag_hub S)"] by simp
  show ?thesis
    unfolding numeral_3_eq_3
    by (rule lag_steps_front [OF step1], rule lag_steps_front [OF step2],
        rule lag_steps_front [OF step3], rule relpowp_0_I)
qed

lemma run_send_dead:
  assumes s: "s < hub_next (lag_hub S)" and dead: "\<not> ch_rx_alive (hub_chan (lag_hub S) s)"
  shows "(lag_step ^^ 5) S S"
proof -
  let ?h1 = "add_global (msg_size msg) (lag_hub S)" and ?P = "lag_producers S"
  let ?S1 = "S\<lparr>lag_hub := ?h1, lag_producers := add_mset (P_Charged_Global s msg) ?P\<rparr>"
  let ?h2 = "charge_client s msg ?h1"
  let ?S2 = "S\<lparr>lag_hub := ?h2, lag_producers := add_mset (P_Charged_Both s msg) ?P\<rparr>"
  let ?S3 = "S\<lparr>lag_hub := ?h2, lag_producers := add_mset (P_Refund_Client s msg) ?P\<rparr>"
  let ?S4 = "S\<lparr>lag_hub := ?h1, lag_producers := add_mset (P_Refund_Global s msg) ?P\<rparr>"
  have step1: "lag_step S ?S1" by (rule p_charge_global [OF s])
  have step2: "lag_step ?S1 ?S2" using p_charge_client [of ?S1 s msg ?P] by simp
  have step3: "lag_step ?S2 ?S3"
    using p_send_failed [of ?S2 s msg ?P] dead by (simp add: chan_send_def store_simps)
  have undone: "refund_client s msg ?h2 = ?h1"
    by (simp add: charge_client_def refund_client_def add_bytes_def sub_bytes_def upd_chan_upd_chan
        upd_chan_id)
  have step4: "lag_step ?S3 ?S4" using p_refund_client [of ?S3 s msg ?P] by (simp add: undone)
  have step5: "lag_step ?S4 S" using p_refund_global [of ?S4 s msg ?P] by simp
  have five: "5 = Suc (Suc (Suc (Suc (Suc 0))))" by simp
  show ?thesis
    unfolding five
    by (rule lag_steps_front [OF step1], rule lag_steps_front [OF step2],
        rule lag_steps_front [OF step3], rule lag_steps_front [OF step4],
        rule lag_steps_front [OF step5], rule relpowp_0_I)
qed

text \<open>The writer: the queue shrinks as the credits go out.\<close>

definition taken :: "SubscriberSink \<Rightarrow> DaemonMessage list \<Rightarrow> DaemonMessage list \<Rightarrow> hub \<Rightarrow> hub" where
  "taken s ms rest h = upd_chan s (\<lambda>c. c\<lparr>ch_queue := rest\<rparr>) (credited s ms h)"

lemma refund_pop_taken:
  assumes "ch_queue (hub_chan h s) = m # q"
  shows "sub_global (msg_size m) (refund_client s m (pop_queue s h)) = taken s [m] q h"
  using assms
  by (cases "hub_chan h s")
     (simp add: refund_client_def pop_queue_def taken_def credited_def client_size_def sub_bytes_def
        sub_global_def upd_chan_def)

lemma taken_simps [store_simps]:
  "ch_queue (hub_chan (taken s ms rest h) s') = (if s' = s then rest else ch_queue (hub_chan h s'))"
  "hub_next (taken s ms rest h) = hub_next h"
  by (simp_all add: taken_def credited_def store_simps)

lemma taken_taken: "taken s ms rest (taken s ms' rest' h) = taken s (ms' @ ms) rest h"
  by (simp add: taken_def credited_def sub_global_def upd_chan_def algebra_simps)

lemma run_loop_one:
  assumes "s < hub_next (lag_hub S)" and "lag_writer S s = W_Loop"
    and q: "ch_queue (hub_chan (lag_hub S) s) = m # q"
  shows "lag_step\<^sup>*\<^sup>* S (S\<lparr>lag_hub := taken s [m] q (lag_hub S),
     lag_writer := (lag_writer S)(s := if ok \<and> \<not> stops_writer m then W_Loop else W_Drain)\<rparr>)"
proof -
  let ?S1 = "S\<lparr>lag_hub := pop_queue s (lag_hub S), lag_writer := (lag_writer S)(s := W_Credit_Client m ok)\<rparr>"
  let ?h2 = "refund_client s m (pop_queue s (lag_hub S))"
  let ?S2 = "S\<lparr>lag_hub := ?h2, lag_writer := (lag_writer S)(s := W_Credit_Global m ok)\<rparr>"
  have a: "lag_step S ?S1" using w_take [OF assms] .
  have b: "lag_step ?S1 ?S2"
    using w_credit_client [of s ?S1 m ok] assms(1) by (simp add: store_simps)
  have c: "lag_step ?S2 (S\<lparr>lag_hub := taken s [m] q (lag_hub S),
     lag_writer := (lag_writer S)(s := if ok \<and> \<not> stops_writer m then W_Loop else W_Drain)\<rparr>)"
    using w_credit_global [of s ?S2 m ok] assms(1) refund_pop_taken [OF q]
    by (simp add: store_simps)
  show ?thesis
    by (rule lag_run_front [OF a lag_run_front [OF b lag_run_one [OF c]]])
qed

lemma run_drain:
  assumes "s < hub_next (lag_hub S)" and "lag_writer S s = W_Drain"
    and "ch_queue (hub_chan (lag_hub S) s) = q"
  shows "lag_step\<^sup>*\<^sup>* S (S\<lparr>lag_hub := taken s q [] (lag_hub S)\<rparr>)"
  using assms
proof (induction q arbitrary: S)
  case Nil
  then have "taken s [] [] (lag_hub S) = lag_hub S" by (simp add: taken_def upd_chan_id)
  then show ?case by simp
next
  case (Cons m q)
  let ?S1 = "S\<lparr>lag_hub := pop_queue s (lag_hub S), lag_writer := (lag_writer S)(s := W_Drain_Client m)\<rparr>"
  let ?h2 = "refund_client s m (pop_queue s (lag_hub S))"
  let ?S2 = "S\<lparr>lag_hub := ?h2, lag_writer := (lag_writer S)(s := W_Drain_Global m)\<rparr>"
  let ?S3 = "S\<lparr>lag_hub := taken s [m] q (lag_hub S)\<rparr>"
  have a: "lag_step S ?S1" using w_drain_take [OF Cons.prems] .
  have b: "lag_step ?S1 ?S2"
    using w_drain_client [of s ?S1 m] Cons.prems(1) by (simp add: store_simps)
  have c: "lag_step ?S2 ?S3"
    using w_drain_global [of s ?S2 m] Cons.prems refund_pop_taken [OF Cons.prems(3)]
    by (simp add: store_simps fun_upd_idem)
  have d: "lag_step\<^sup>*\<^sup>* ?S3 (?S3\<lparr>lag_hub := taken s q [] (lag_hub ?S3)\<rparr>)"
    using Cons.IH [of ?S3] Cons.prems by (simp add: store_simps)
  have "lag_step\<^sup>*\<^sup>* S (?S3\<lparr>lag_hub := taken s q [] (lag_hub ?S3)\<rparr>)"
    by (rule lag_run_front [OF a lag_run_front [OF b lag_run_front [OF c d]]])
  then show ?case by (simp add: taken_taken)
qed

lemma run_loop:
  assumes "s < hub_next (lag_hub S)" and "lag_writer S s = W_Loop"
    and "writer_loop send s w (ch_queue (hub_chan (lag_hub S) s)) h = (h', w', rest, shut)"
  shows "\<exists>sent. ch_queue (hub_chan (lag_hub S) s) = sent @ rest \<and>
    lag_step\<^sup>*\<^sup>* S (S\<lparr>lag_hub := taken s sent rest (lag_hub S),
       lag_writer := (lag_writer S)(s := W_Drain)\<rparr>)"
  using assms
proof (induction "ch_queue (hub_chan (lag_hub S) s)" arbitrary: S w h)
  case Nil
  then have rest: "rest = []" by (metis writer_loop.simps(1) prod.inject)
  have same: "S\<lparr>lag_hub := taken s [] [] (lag_hub S), lag_writer := X\<rparr> = S\<lparr>lag_writer := X\<rparr>" for X
    using Nil.hyps by (simp add: taken_def upd_chan_id)
  have "lag_step S (S\<lparr>lag_writer := (lag_writer S)(s := W_Drain)\<rparr>)"
    using w_senders_gone [OF Nil.prems(1,2)] Nil.hyps by simp
  then show ?case
    using Nil.hyps rest same [of "(lag_writer S)(s := W_Drain)"]
    by (intro exI [of _ "[]"] conjI) (simp_all only: append_Nil lag_run_one)
next
  case (Cons m q)
  note one = run_loop_one [OF Cons.prems(1,2) Cons.hyps(2) [symmetric]]
  show ?case
  proof (cases "\<exists>w1. send w m = Inr w1 \<and> \<not> stops_writer m")
    case True
    then obtain w1 where w1: "send w m = Inr w1" "\<not> stops_writer m" by blast
    let ?S1 = "S\<lparr>lag_hub := taken s [m] q (lag_hub S)\<rparr>"
    have upd: "(lag_writer S)(s := W_Loop) = lag_writer S" using Cons.prems(2) by (simp add: fun_upd_idem)
    have to1: "lag_step\<^sup>*\<^sup>* S ?S1" using one [of True] w1 by (simp add: upd)
    have "writer_loop send s w1 q (writer_credit s m h) = (h', w', rest, shut)"
      using Cons.prems(3) w1 by (simp flip: Cons.hyps(2) add: Let_def)
    then obtain sent where "q = sent @ rest"
        "lag_step\<^sup>*\<^sup>* ?S1 (?S1\<lparr>lag_hub := taken s sent rest (lag_hub ?S1),
           lag_writer := (lag_writer ?S1)(s := W_Drain)\<rparr>)"
      using Cons.hyps(1) [of ?S1 w1 "writer_credit s m h"] Cons.prems(1,2) by (auto simp: store_simps)
    then show ?thesis
      using to1 Cons.hyps(2) [symmetric]
      by (intro exI [of _ "m # sent"]) (auto simp: taken_taken intro: rtranclp_trans)
  next
    case False
    then have "rest = q"
      using Cons.prems(3) by (auto simp flip: Cons.hyps(2) simp: Let_def split: sum.splits if_splits)
    moreover have "\<exists>ok. (if ok \<and> \<not> stops_writer m then W_Loop else W_Drain) = W_Drain"
      by (intro exI [of _ False]) simp
    ultimately show ?thesis
      using one [of False] Cons.hyps(2) [symmetric] by (intro exI [of _ "[m]"]) auto
  qed
qed

lemma run_writer_thread:
  assumes "s < hub_next (lag_hub S)" and "lag_writer S s = W_Loop" and "lag_leaked S s = []"
  shows "lag_step\<^sup>*\<^sup>* S (S\<lparr>lag_hub := fst (writer_thread send s w (lag_hub S)),
    lag_writer := (lag_writer S)(s := W_Gone)\<rparr>)"
proof -
  let ?q = "ch_queue (hub_chan (lag_hub S) s)"
  obtain h' w' rest shut where l: "writer_loop send s w ?q (lag_hub S) = (h', w', rest, shut)"
    by (metis prod_cases4)
  obtain sent where q: "?q = sent @ rest" and
    loop: "lag_step\<^sup>*\<^sup>* S (S\<lparr>lag_hub := taken s sent rest (lag_hub S),
       lag_writer := (lag_writer S)(s := W_Drain)\<rparr>)"
    using run_loop [OF assms(1,2) l] by blast
  let ?S1 = "S\<lparr>lag_hub := taken s sent rest (lag_hub S), lag_writer := (lag_writer S)(s := W_Drain)\<rparr>"
  let ?S2 = "?S1\<lparr>lag_hub := taken s rest [] (lag_hub ?S1)\<rparr>"
  have drain: "lag_step\<^sup>*\<^sup>* ?S1 ?S2"
    using run_drain [of s ?S1 rest] assms(1) by (simp add: store_simps)
  let ?h = "taken s ?q [] (lag_hub S)"
  let ?T = "\<lambda>w. S\<lparr>lag_hub := ?h, lag_writer := (lag_writer S)(s := w)\<rparr>"
  have "?S2 = ?T W_Drain" by (simp add: taken_taken q)
  with drain have drained: "lag_step\<^sup>*\<^sup>* ?S1 (?T W_Drain)" by (simp only:)
  have fin: "lag_step (?T W_Drain) (?T W_Exiting)"
    using w_drain_done [of s "?T W_Drain"] assms(1) by (simp add: store_simps)
  have leaked: "(lag_leaked S)(s := []) = lag_leaked S" using assms(3) by (simp add: fun_upd_idem)
  have drop: "lag_step (?T W_Exiting) (S\<lparr>lag_hub := fst (writer_thread send s w (lag_hub S)),
      lag_writer := (lag_writer S)(s := W_Gone)\<rparr>)"
    using w_drop_receiver [of s "?T W_Exiting"] assms(1) leaked
    by (simp add: store_simps writer_thread_hub) (simp add: taken_def upd_chan_upd_chan)
  show ?thesis
    by (rule rtranclp_trans [OF loop rtranclp_trans [OF drained lag_run_front [OF fin lag_run_one [OF drop]]]])
qed

section \<open>Properties\<close>


definition one_client :: lag_state where
  "one_client = lag_init\<lparr>lag_hub := snd (SubscriberSink_new (lag_hub lag_init)),
      lag_writer := (lag_writer lag_init)(hub_next (lag_hub lag_init) := W_Loop),
      lag_leaked := (lag_leaked lag_init)(hub_next (lag_hub lag_init) := [])\<rparr>"

lemma one_client_simps:
  "hub_next (lag_hub one_client) = 1" "lag_producers one_client = {#}"
  "lag_writer one_client 0 = W_Loop" "lag_leaked one_client 0 = []"
  "hub_chan (lag_hub one_client) 0 = fresh_chan"
  by (simp_all add: one_client_def lag_init_def empty_hub_def store_simps)

lemma one_client_step: "lag_step lag_init one_client"
  unfolding one_client_def by (rule lag_step.connect)


text \<open>
  Unless a send lands in the window between a writer's last look at its queue
  and the drop of its receiver, no message is ever left behind; and once nothing
  is in flight the daemon-wide counter is back to zero.
\<close>

theorem lag_counter_returns_to_zero:
  assumes "quiet_reachable S" and "quiescent S"
  shows "(\<forall>s < hub_next (lag_hub S). lag_leaked S s = []) \<and> hub_global (lag_hub S) = 0"
proof -
  have leak: "no_leak S" and "lag_reachable S" using quiet_no_leak [OF assms(1)] by auto
  then have bal: "balanced_global S" using lag_reachable_ok by blast
  have "sink_global S s = 0" if "s < hub_next (lag_hub S)" for s
    using leak assms(2) that by (fastforce simp: sink_global_def no_leak_def quiescent_def)
  then have "(\<Sum>s<hub_next (lag_hub S). sink_global S s) = 0" by simp
  then show ?thesis
    using bal leak assms(2) by (simp add: balanced_global_def quiescent_def no_leak_def)
qed

theorem lag_counter_returns_to_zero_witness:
  "quiet_reachable one_client \<and> quiescent one_client \<and> hub_global (lag_hub one_client) = 0"
proof -
  have "\<not> late_send lag_init one_client"
    by (simp add: late_send_def lag_init_def empty_hub_def)
  then have "quiet_reachable one_client"
    by (rule quiet_step [OF quiet_init one_client_step])
  moreover have "quiescent one_client"
    by (simp add: quiescent_def one_client_simps fresh_chan_def)
  ultimately show ?thesis using lag_counter_returns_to_zero by blast
qed

text \<open>
  The uninterrupted operations are runs of this machine: an accounted send is
  three atomic operations when the receiver lives and five when it is gone, and
  a writer thread that meets no interference is a run that ends with its
  receiver dropped.
\<close>

theorem sequential_operations_are_runs:
  assumes "s < hub_next (lag_hub S)"
  shows "(lag_step ^^ (if ch_rx_alive (hub_chan (lag_hub S) s) then 3 else 5)) S
      (S\<lparr>lag_hub := fst (send_accounted s msg (lag_hub S))\<rparr>) \<and>
    (lag_writer S s = W_Loop \<and> lag_leaked S s = [] \<longrightarrow>
      lag_step\<^sup>*\<^sup>* S (S\<lparr>lag_hub := fst (writer_thread send s w (lag_hub S)),
        lag_writer := (lag_writer S)(s := W_Gone)\<rparr>))"
proof (intro conjI impI)
  show "(lag_step ^^ (if ch_rx_alive (hub_chan (lag_hub S) s) then 3 else 5)) S
      (S\<lparr>lag_hub := fst (send_accounted s msg (lag_hub S))\<rparr>)"
    using run_send_alive [OF assms, of msg] run_send_dead [OF assms]
    by (cases "ch_rx_alive (hub_chan (lag_hub S) s)")
       (simp_all add: send_accounted_alive send_accounted_dead)
next
  assume "lag_writer S s = W_Loop \<and> lag_leaked S s = []"
  then show "lag_step\<^sup>*\<^sup>* S (S\<lparr>lag_hub := fst (writer_thread send s w (lag_hub S)),
      lag_writer := (lag_writer S)(s := W_Gone)\<rparr>)"
    by (intro run_writer_thread [OF assms]) simp_all
qed

theorem sequential_operations_are_runs_witness:
  "(lag_step ^^ 3) one_client
     (one_client\<lparr>lag_hub := fst (send_accounted 0 sample_pong (lag_hub one_client))\<rparr>) \<and>
   lag_step\<^sup>*\<^sup>* one_client
     (one_client\<lparr>lag_hub := fst (writer_thread (\<lambda>w m. Inr w) 0 () (lag_hub one_client)),
        lag_writer := (lag_writer one_client)(0 := W_Gone)\<rparr>)"
  using sequential_operations_are_runs
    [of 0 one_client sample_pong "\<lambda>w m. Inr w" "()"]
  by (simp add: one_client_simps fresh_chan_def)

end
