(* ===== verification/Proto_Frame.thy ===== *)
theory Proto_Frame
  imports Proto_Types
begin

unbundle bit_operations_syntax

text \<open>
  Framing (\<open>src/choreo-proto/src/frame.rs\<close>, \<open>io.rs\<close>, \<open>error.rs\<close>): a frame is a
  big-endian 32-bit length followed by a MessagePack payload whose first element
  is the protocol version.

  The MessagePack codec is code outside the repository: every definition takes
  the encoder and the decoder as arguments, and the interface \<open>codec\<close> states
  what the framing relies on. The byte stream is a parameter too, as it is in
  the source (\<open>R: Read\<close>, \<open>W: Write\<close>); the in-memory streams of the standard
  library are modelled at the end.
\<close>

section \<open>Errors (error.rs)\<close>

datatype ProtoError =
    PE_Codec string
  | PE_FrameTooLarge
  | PE_TrailingBytes
  | PE_UnsupportedVersion u8
  | PE_Io io_error

fun ProtoError_text :: "ProtoError \<Rightarrow> string" where
  "ProtoError_text (PE_Codec e) = ''codec error: '' @ e"
| "ProtoError_text PE_FrameTooLarge = ''frame too large''"
| "ProtoError_text PE_TrailingBytes = ''trailing bytes in frame''"
| "ProtoError_text (PE_UnsupportedVersion version) = ''unsupported protocol version: '' @ show_nat (unat version)"
| "ProtoError_text (PE_Io e) = io_text e"

fun ProtoError_into_io :: "ProtoError \<Rightarrow> io_error" where
  "ProtoError_into_io (PE_Io io) = io"
| "ProtoError_into_io error = IoError IO_InvalidData (ProtoError_text error)"

section \<open>Encoding and decoding a frame (frame.rs)\<close>

definition PROTOCOL_VERSION :: u8 where
  "PROTOCOL_VERSION = 9"

definition MAX_FRAME_SIZE :: nat where
  "MAX_FRAME_SIZE = 64 * 1024 * 1024"

type_synonym 'm encoder = "u8 \<times> 'm \<Rightarrow> string + bytes"
type_synonym 'm decoder = "bytes \<Rightarrow> string + ((u8 \<times> 'm) \<times> nat)"

definition encode_inner :: "'m encoder \<Rightarrow> 'm \<Rightarrow> ProtoError + bytes" where
  "encode_inner enc message = (case enc (PROTOCOL_VERSION, message) of
     Inl e \<Rightarrow> Inl (PE_Codec e)
   | Inr payload \<Rightarrow>
       if length payload > MAX_FRAME_SIZE then Inl PE_FrameTooLarge else Inr payload)"

definition encode_payload :: "'m encoder \<Rightarrow> 'm \<Rightarrow> ProtoError + bytes" where
  "encode_payload enc message = encode_inner enc message"

text \<open>\<open>u32::to_be_bytes\<close> and \<open>u32::from_be_bytes\<close>.\<close>

definition to_be_bytes :: "u32 \<Rightarrow> bytes" where
  "to_be_bytes w = [ucast (drop_bit 24 w), ucast (drop_bit 16 w), ucast (drop_bit 8 w), ucast w]"

fun from_be_bytes :: "bytes \<Rightarrow> u32" where
  "from_be_bytes [a, b, c, d] =
     push_bit 24 (ucast a) OR push_bit 16 (ucast b) OR push_bit 8 (ucast c) OR ucast d"
| "from_be_bytes _ = 0"

definition u32_try_from :: "nat \<Rightarrow> u32 option" where
  "u32_try_from n = (if n < 2 ^ 32 then Some (of_nat n) else None)"

definition encode_frame :: "'m encoder \<Rightarrow> 'm \<Rightarrow> ProtoError + bytes" where
  "encode_frame enc message = (case encode_inner enc message of
     Inl e \<Rightarrow> Inl e
   | Inr payload \<Rightarrow> (case u32_try_from (length payload) of
       None \<Rightarrow> Inl PE_FrameTooLarge
     | Some len \<Rightarrow> Inr (to_be_bytes len @ payload)))"

definition stale_version :: "bytes \<Rightarrow> u8 option" where
  "stale_version payload = (case payload of
     tag # version # _ \<Rightarrow>
       if tag = 0x92 \<and> version \<noteq> PROTOCOL_VERSION then Some version else None
   | _ \<Rightarrow> None)"

definition decode_frame :: "'m decoder \<Rightarrow> bytes \<Rightarrow> ProtoError + 'm" where
  "decode_frame dec payload = (case stale_version payload of
     Some version \<Rightarrow> Inl (PE_UnsupportedVersion version)
   | None \<Rightarrow> (case dec payload of
       Inl e \<Rightarrow> Inl (PE_Codec e)
     | Inr ((version, message), used) \<Rightarrow>
         if used \<noteq> length payload then Inl PE_TrailingBytes
         else if version \<noteq> PROTOCOL_VERSION then Inl (PE_UnsupportedVersion version)
         else Inr message))"

section \<open>Blocking I/O (io.rs)\<close>

type_synonym 'r read_exact = "'r \<Rightarrow> nat \<Rightarrow> io_error + (bytes \<times> 'r)"
type_synonym 'w write_all = "'w \<Rightarrow> bytes \<Rightarrow> io_error + 'w"

definition read_payload :: "'r read_exact \<Rightarrow> 'r \<Rightarrow> ProtoError + (bytes \<times> 'r)" where
  "read_payload read_exact reader = (case read_exact reader 4 of
     Inl e \<Rightarrow> Inl (PE_Io e)
   | Inr (len_buf, reader) \<Rightarrow>
       (let len = unat (from_be_bytes len_buf) in
        if len > MAX_FRAME_SIZE then Inl PE_FrameTooLarge
        else (case read_exact reader len of
          Inl e \<Rightarrow> Inl (PE_Io e)
        | Inr (payload, reader) \<Rightarrow> Inr (payload, reader))))"

definition read_message ::
  "'m decoder \<Rightarrow> 'r read_exact \<Rightarrow> 'r \<Rightarrow> ProtoError + ('m \<times> 'r)" where
  "read_message dec read_exact reader = (case read_payload read_exact reader of
     Inl e \<Rightarrow> Inl e
   | Inr (payload, reader) \<Rightarrow> (case decode_frame dec payload of
       Inl e \<Rightarrow> Inl e
     | Inr message \<Rightarrow> Inr (message, reader)))"

definition write_message ::
  "'m encoder \<Rightarrow> 'w write_all \<Rightarrow> 'w \<Rightarrow> 'm \<Rightarrow> ProtoError + 'w" where
  "write_message enc write_all writer message = (case encode_frame enc message of
     Inl e \<Rightarrow> Inl e
   | Inr frame \<Rightarrow> (case write_all writer frame of
       Inl e \<Rightarrow> Inl (PE_Io e)
     | Inr writer \<Rightarrow> Inr writer))"

definition socket_path_impl :: "string option \<Rightarrow> string \<Rightarrow> string" where
  "socket_path_impl env default_socket_path =
     (case env of Some p \<Rightarrow> p | None \<Rightarrow> default_socket_path)"

definition dial_error_means_no_listener :: "io_error \<Rightarrow> bool" where
  "dial_error_means_no_listener error \<longleftrightarrow>
     io_kind error = IO_NotFound \<or> io_kind error = IO_ConnectionRefused"

text \<open>The standard library's \<open>Read for &[u8]\<close> and \<open>Write for Vec<u8>\<close>.\<close>

definition slice_read_exact :: "bytes read_exact" where
  "slice_read_exact s n =
     (if n \<le> length s then Inr (take n s, drop n s)
      else Inl (IoError IO_UnexpectedEof ''failed to fill whole buffer''))"

definition vec_write_all :: "bytes write_all" where
  "vec_write_all w bs = Inr (w @ bs)"

section \<open>Byte order\<close>

lemma length_to_be_bytes [simp]: "length (to_be_bytes w) = 4"
  by (simp add: to_be_bytes_def)

lemma from_to_be_bytes [simp]: "from_be_bytes (to_be_bytes w) = w"
proof (rule bit_word_eqI)
  fix n assume n: "n < LENGTH(32)"
  then have "n \<in> {..<32}" by simp
  then consider "n < 8" | "8 \<le> n" "n < 16" | "16 \<le> n" "n < 24" | "24 \<le> n" "n < 32"
    by fastforce
  then show "bit (from_be_bytes (to_be_bytes w)) n = bit w n"
    by cases
       (auto simp: to_be_bytes_def bit_or_iff bit_push_bit_iff bit_ucast_iff bit_drop_bit_eq
          possible_bit_def)
qed

section \<open>The codec interface\<close>

text \<open>
  What the framing relies on of the MessagePack codec, as its documentation
  gives it: a pair is written as the two-element array tag followed by its
  elements, a number below 128 is written as that byte, and decoding consumes
  exactly the bytes the encoder wrote, whatever follows them.
\<close>

locale codec =
  fixes enc :: "'m encoder"
    and dec :: "'m decoder"
  assumes pair_head: "enc (v, m) = Inr bs \<Longrightarrow> v < 128 \<Longrightarrow> take 2 bs = [0x92, v]"
    and decodes: "enc (v, m) = Inr bs \<Longrightarrow> dec (bs @ rest) = Inr ((v, m), length bs)"
begin

lemma encode_innerD:
  "encode_inner enc m = Inr p \<Longrightarrow>
     enc (PROTOCOL_VERSION, m) = Inr p \<and> length p \<le> MAX_FRAME_SIZE"
  by (auto simp: encode_inner_def split: sum.splits if_splits)

lemma fresh_version:
  assumes "encode_inner enc m = Inr p"
  shows "stale_version (p @ rest) = None"
proof -
  have "take 2 p = [0x92, PROTOCOL_VERSION]"
    using encode_innerD [OF assms] by (intro pair_head) (auto simp: PROTOCOL_VERSION_def)
  then obtain t where "p = 0x92 # PROTOCOL_VERSION # t"
    by (cases p; cases "tl p") auto
  then show ?thesis by (simp add: stale_version_def)
qed

lemma decode_encode: "encode_inner enc m = Inr p \<Longrightarrow> decode_frame dec p = Inr m"
  using fresh_version [of m p "[]"] decodes [of PROTOCOL_VERSION m p "[]"] encode_innerD [of m p]
  by (simp add: decode_frame_def)

lemma decode_trailing:
  "encode_inner enc m = Inr p \<Longrightarrow> rest \<noteq> [] \<Longrightarrow> decode_frame dec (p @ rest) = Inl PE_TrailingBytes"
  using fresh_version [of m p rest] decodes [of PROTOCOL_VERSION m p rest] encode_innerD [of m p]
  by (simp add: decode_frame_def)

lemma encode_frameD:
  assumes "encode_frame enc m = Inr f"
  obtains p where "encode_inner enc m = Inr p" "length p \<le> MAX_FRAME_SIZE"
    "f = to_be_bytes (of_nat (length p)) @ p" "unat (of_nat (length p) :: u32) = length p"
proof -
  obtain p where p: "encode_inner enc m = Inr p" "length p < 2 ^ 32"
      "f = to_be_bytes (of_nat (length p)) @ p"
    using assms
    by (auto simp: encode_frame_def u32_try_from_def split: sum.splits option.splits if_splits)
  moreover have "length p \<le> MAX_FRAME_SIZE" using encode_innerD [OF p(1)] by simp
  moreover have "unat (of_nat (length p) :: u32) = length p"
    using p(2) by (simp add: unat_of_nat)
  ultimately show ?thesis by (intro that)
qed

lemma read_frame:
  assumes "encode_frame enc m = Inr f"
  shows "read_message dec slice_read_exact (f @ rest) = Inr (m, rest)"
proof -
  obtain p where p: "encode_inner enc m = Inr p" "length p \<le> MAX_FRAME_SIZE"
      "f = to_be_bytes (of_nat (length p)) @ p" "unat (of_nat (length p) :: u32) = length p"
    using encode_frameD [OF assms] .
  then show ?thesis
    using decode_encode [OF p(1)]
    by (simp add: read_message_def read_payload_def slice_read_exact_def)
qed

lemma encode_frame_iff_inner: "(\<exists>f. encode_frame enc m = Inr f) \<longleftrightarrow> (\<exists>p. encode_inner enc m = Inr p)"
proof
  assume "\<exists>p. encode_inner enc m = Inr p"
  then obtain p where p: "encode_inner enc m = Inr p" ..
  then have "length p < 2 ^ 32" using encode_innerD [OF p] by (simp add: MAX_FRAME_SIZE_def)
  then show "\<exists>f. encode_frame enc m = Inr f" using p by (simp add: encode_frame_def u32_try_from_def)
qed (auto simp: encode_frame_def split: sum.splits)

end

section \<open>A MessagePack codec for byte strings\<close>

text \<open>
  The pair of a version and a short byte string as MessagePack writes it (array
  tag, positive fixint, \<open>bin 8\<close> header, bytes): an instance of the interface.
\<close>

definition bin8_enc :: "bytes encoder" where
  "bin8_enc = (\<lambda>(v, m).
     if v < 128 \<and> length m < 256 then Inr (0x92 # v # 0xC4 # of_nat (length m) # m)
     else Inl ''unsupported'')"

definition bin8_dec :: "bytes decoder" where
  "bin8_dec bs = (case bs of
     a # v # t # n # r \<Rightarrow>
       if a = 0x92 \<and> v < 128 \<and> t = 0xC4 \<and> unat n \<le> length r
       then Inr ((v, take (unat n) r), 4 + unat n) else Inl ''invalid''
   | _ \<Rightarrow> Inl ''invalid'')"

interpretation bin8: codec bin8_enc bin8_dec
  by unfold_locales
     (auto simp: bin8_enc_def bin8_dec_def unat_of_nat split: if_splits)

section \<open>Streams of messages\<close>

text \<open>A peer that writes several messages in a row, and one that reads as many.\<close>

fun write_messages :: "'m encoder \<Rightarrow> 'w write_all \<Rightarrow> 'w \<Rightarrow> 'm list \<Rightarrow> ProtoError + 'w" where
  "write_messages enc write_all w [] = Inr w"
| "write_messages enc write_all w (m # ms) = (case write_message enc write_all w m of
     Inl e \<Rightarrow> Inl e
   | Inr w' \<Rightarrow> write_messages enc write_all w' ms)"

fun read_messages ::
  "'m decoder \<Rightarrow> 'r read_exact \<Rightarrow> nat \<Rightarrow> 'r \<Rightarrow> ProtoError + ('m list \<times> 'r)" where
  "read_messages dec read_exact 0 r = Inr ([], r)"
| "read_messages dec read_exact (Suc n) r = (case read_message dec read_exact r of
     Inl e \<Rightarrow> Inl e
   | Inr (m, r') \<Rightarrow> (case read_messages dec read_exact n r' of
       Inl e \<Rightarrow> Inl e
     | Inr (ms, r'') \<Rightarrow> Inr (m # ms, r'')))"

lemma write_message_vec:
  "write_message enc vec_write_all w m = Inr w' \<longleftrightarrow> (\<exists>f. encode_frame enc m = Inr f \<and> w' = w @ f)"
  by (auto simp: write_message_def vec_write_all_def split: sum.splits)

context codec
begin

lemma read_written:
  "write_messages enc vec_write_all w ms = Inr w' \<Longrightarrow>
     \<exists>s. w' = w @ s \<and> read_messages dec slice_read_exact (length ms) (s @ rest) = Inr (ms, rest)"
proof (induction ms arbitrary: w)
  case (Cons m ms)
  then obtain f where f: "encode_frame enc m = Inr f"
      and rec: "write_messages enc vec_write_all (w @ f) ms = Inr w'"
    by (auto simp: write_message_vec split: sum.splits)
  obtain s where "w' = (w @ f) @ s"
      and "read_messages dec slice_read_exact (length ms) (s @ rest) = Inr (ms, rest)"
    using Cons.IH [OF rec] by blast
  then show ?case
    using read_frame [OF f, of "s @ rest"] by (intro exI [of _ "f @ s"]) simp
qed simp

end

section \<open>Properties\<close>

text \<open>
  Messages written one after the other to a byte stream are read back by the
  peer in the same order, each exactly once, and the bytes that follow the last
  frame are left untouched. Holds for every codec that satisfies the interface.
\<close>

theorem stream_roundtrip:
  assumes "codec enc dec"
    and "write_messages enc vec_write_all [] ms = Inr s"
  shows "read_messages dec slice_read_exact (length ms) (s @ rest) = Inr (ms, rest)"
  using codec.read_written [OF assms, of rest] by simp

theorem stream_roundtrip_witness:
  "\<exists>s. write_messages bin8_enc vec_write_all [] [[1, 2], [3]] = Inr s \<and>
       read_messages bin8_dec slice_read_exact 2 (s @ [7]) = Inr ([[1, 2], [3]], [7])"
proof -
  have w: "\<exists>s. write_messages bin8_enc vec_write_all [] [[1, 2], [3]] = Inr s"
    by (simp add: write_message_def encode_frame_def encode_inner_def bin8_enc_def
        PROTOCOL_VERSION_def MAX_FRAME_SIZE_def u32_try_from_def vec_write_all_def)
  then obtain s where s: "write_messages bin8_enc vec_write_all [] [[1, 2], [3]] = Inr s" ..
  show ?thesis
    using s stream_roundtrip [OF bin8.codec_axioms s, of "[7]"]
    by (intro exI [of _ s]) (simp only: list.size numeral_2_eq_2 add_0 add_Suc One_nat_def)
qed

text \<open>
  A payload the daemon accepts starts no stale version, is consumed to its
  last byte and carries exactly the current protocol version; anything else is
  rejected with the error of the first check that fails, and a stale version is
  reported before the decoder is asked at all.
\<close>

theorem decode_frame_accepts_iff:
  "decode_frame dec payload = Inr m \<longleftrightarrow>
     stale_version payload = None \<and>
     dec payload = Inr ((PROTOCOL_VERSION, m), length payload)"
  by (auto simp: decode_frame_def split: option.splits sum.splits if_splits)

text \<open>
  C29. Reading a frame from any stream never asks the stream for more than
  \<open>MAX_FRAME_SIZE\<close> bytes of payload: two readers that agree on requests up to
  that bound give the same result, and a larger announced length is refused
  after the four length bytes.
\<close>

theorem read_payload_bounded:
  assumes agree: "\<And>r n. n \<le> MAX_FRAME_SIZE \<Longrightarrow> read_a r n = read_b r n"
  shows "read_payload read_a r = read_payload read_b r \<and>
    (\<forall>len_buf r'. read_a r 4 = Inr (len_buf, r') \<and> unat (from_be_bytes len_buf) > MAX_FRAME_SIZE \<longrightarrow>
       read_payload read_a r = Inl PE_FrameTooLarge)"
  using agree
  by (auto simp: read_payload_def MAX_FRAME_SIZE_def Let_def split: sum.splits prod.splits)

theorem read_payload_bounded_witness:
  "read_payload slice_read_exact [0xFF, 0xFF, 0xFF, 0xFF, 1] = Inl PE_FrameTooLarge"
proof -
  have "slice_read_exact [0xFF, 0xFF, 0xFF, 0xFF, 1] 4 = Inr ([0xFF, 0xFF, 0xFF, 0xFF], [1])"
    by (simp add: slice_read_exact_def)
  moreover have "unat (from_be_bytes [0xFF, 0xFF, 0xFF, 0xFF]) > MAX_FRAME_SIZE"
    by (simp add: MAX_FRAME_SIZE_def)
  ultimately show ?thesis
    using read_payload_bounded [of slice_read_exact slice_read_exact] by blast
qed

end
