(* ===== verification/Cache_Warm.thy ===== *)
theory Cache_Warm
  imports Prelude Complex_Main
begin

text \<open>
  Prompt-cache warming (\<open>src/choreo-daemon/src/cache_warm/\<close>): the policy that decides
  whether and when a cheap request is sent to keep a provider's prompt cache
  alive while a tool runs (\<open>policy.rs\<close>), the facts it is armed with
  (\<open>arming.rs\<close>), and the thread that carries it out (\<open>driver.rs\<close>).

  A \<open>Duration\<close> is a natural number of nanoseconds on the monotonic clock; the
  seconds of a time-to-live are 32-bit words, as in the source; prices are reals.
\<close>

section \<open>Configuration and facts (policy.rs)\<close>

definition DEFAULT_MIN_PREFIX_TOKENS :: u32 where
  "DEFAULT_MIN_PREFIX_TOKENS = 32000"

definition DEFAULT_MIN_EXPECTED_SAVINGS :: real where
  "DEFAULT_MIN_EXPECTED_SAVINGS = 5 / 100"

definition MIN_TTL_SECS :: u32 where
  "MIN_TTL_SECS = 10"

datatype MeterKind = MK_Payg | MK_Tokens | MK_Requests | MK_Flat | MK_Unknown

definition MeterKind_deserialize :: "string \<Rightarrow> MeterKind" where
  "MeterKind_deserialize raw =
     (if raw = ''payg'' then MK_Payg
      else if raw = ''tokens'' then MK_Tokens
      else if raw = ''requests'' then MK_Requests
      else if raw = ''flat'' then MK_Flat
      else MK_Unknown)"

datatype CacheWarmingMode = WM_Off | WM_Streaming

definition CacheWarmingMode_deserialize :: "string \<Rightarrow> CacheWarmingMode" where
  "CacheWarmingMode_deserialize raw = (if raw = ''streaming'' then WM_Streaming else WM_Off)"

record CacheWarmingConfig =
  cwc_mode :: CacheWarmingMode
  cwc_min_prefix_tokens :: u32
  cwc_min_expected_savings :: real

definition CacheWarmingConfig_default :: CacheWarmingConfig where
  "CacheWarmingConfig_default =
     \<lparr>cwc_mode = WM_Off, cwc_min_prefix_tokens = DEFAULT_MIN_PREFIX_TOKENS,
      cwc_min_expected_savings = DEFAULT_MIN_EXPECTED_SAVINGS\<rparr>"

datatype RetentionTier = RT_Short | RT_Long

definition for_extended_retention :: "bool \<Rightarrow> RetentionTier" where
  "for_extended_retention extended = (if extended then RT_Long else RT_Short)"

record WarmPolicy =
  wp_mode :: CacheWarmingMode
  wp_meter :: MeterKind
  wp_prompt_cache_enabled :: bool
  wp_min_prefix_tokens :: u32
  wp_min_expected_savings :: real

definition WarmPolicy_resolve ::
  "CacheWarmingConfig \<Rightarrow> MeterKind option \<Rightarrow> CacheWarmingMode option \<Rightarrow> bool \<Rightarrow> WarmPolicy" where
  "WarmPolicy_resolve config account_meter account_mode prompt_cache_enabled =
     \<lparr>wp_mode = (case account_mode of Some m \<Rightarrow> m | None \<Rightarrow> cwc_mode config),
      wp_meter = (case account_meter of Some m \<Rightarrow> m | None \<Rightarrow> MK_Unknown),
      wp_prompt_cache_enabled = prompt_cache_enabled,
      wp_min_prefix_tokens = cwc_min_prefix_tokens config,
      wp_min_expected_savings = cwc_min_expected_savings config\<rparr>"

definition WarmPolicy_default :: WarmPolicy where
  "WarmPolicy_default = WarmPolicy_resolve CacheWarmingConfig_default None None True"

record ModelCost =
  mc_input :: real
  mc_output :: real
  mc_cache_read :: "real option"
  mc_cache_write :: "real option"

record PromptCacheTtl =
  pct_short_secs :: "u32 option"
  pct_long_secs :: "u32 option"

record WarmFacts =
  wf_cache_ttl :: "PromptCacheTtl option"
  wf_retention :: RetentionTier
  wf_prefix_tokens :: u32
  wf_cost :: "ModelCost option"
  wf_replayable :: bool
  wf_affinity_downgraded :: bool

datatype SkipReason =
    SR_ModeOff | SR_CachingDisabled | SR_NoTtl | SR_TtlTooShort | SR_NotReplayable
  | SR_MeterIncompatible | SR_BelowThreshold | SR_EconomicsUnavailable | SR_DeadlineMissed
  | SR_AffinityUnavailable | SR_ContextChanged

fun SkipReason_label :: "SkipReason \<Rightarrow> string" where
  "SkipReason_label SR_ModeOff = ''mode_off''"
| "SkipReason_label SR_CachingDisabled = ''caching_disabled''"
| "SkipReason_label SR_NoTtl = ''no_ttl''"
| "SkipReason_label SR_TtlTooShort = ''ttl_too_short''"
| "SkipReason_label SR_NotReplayable = ''not_replayable''"
| "SkipReason_label SR_MeterIncompatible = ''meter_incompatible''"
| "SkipReason_label SR_BelowThreshold = ''below_threshold''"
| "SkipReason_label SR_EconomicsUnavailable = ''economics_unavailable''"
| "SkipReason_label SR_DeadlineMissed = ''deadline_missed''"
| "SkipReason_label SR_AffinityUnavailable = ''affinity_unavailable''"
| "SkipReason_label SR_ContextChanged = ''context_changed''"

type_synonym duration = nat

definition from_secs :: "u32 \<Rightarrow> duration" where
  "from_secs s = unat s * 1000000000"

datatype PlanState = PS_Inactive SkipReason | PS_Armed duration duration

record WarmPlan =
  wpl_policy :: WarmPolicy
  wpl_facts :: WarmFacts
  wpl_state :: PlanState

datatype Action = AC_Wait duration | AC_Ping | AC_Stop SkipReason

record Economics =
  ec_warm_cost :: real
  ec_miss_cost :: real
  ec_expected_savings :: real

record Decision =
  de_prefix_tokens :: u32
  de_meter :: MeterKind
  de_warm_cost :: "real option"
  de_miss_cost :: "real option"
  de_expected_savings :: "real option"
  de_action :: Action

section \<open>The decision (policy.rs)\<close>

definition is_replayable :: "bool \<Rightarrow> bool \<Rightarrow> bool" where
  "is_replayable protocol_is_anthropic_messages thinking_enabled =
     (\<not> (protocol_is_anthropic_messages \<and> thinking_enabled))"

definition ttl_secs :: "PromptCacheTtl option \<Rightarrow> RetentionTier \<Rightarrow> u32 option" where
  "ttl_secs ttl retention = (case ttl of
     None \<Rightarrow> None
   | Some ttl \<Rightarrow> (case retention of
       RT_Long \<Rightarrow> (case pct_long_secs ttl of Some s \<Rightarrow> Some s | None \<Rightarrow> pct_short_secs ttl)
     | RT_Short \<Rightarrow> pct_short_secs ttl))"

definition ineligibility :: "WarmPolicy \<Rightarrow> WarmFacts \<Rightarrow> SkipReason option" where
  "ineligibility policy facts =
     (if wp_mode policy = WM_Off then Some SR_ModeOff
      else if \<not> wp_prompt_cache_enabled policy then Some SR_CachingDisabled
      else if wf_affinity_downgraded facts then Some SR_AffinityUnavailable
      else if \<not> wf_replayable facts then Some SR_NotReplayable
      else (case ttl_secs (wf_cache_ttl facts) (wf_retention facts) of
        None \<Rightarrow> Some SR_NoTtl
      | Some secs \<Rightarrow> if secs \<le> MIN_TTL_SECS then Some SR_TtlTooShort else None))"

definition warm_delay_secs :: "u32 \<Rightarrow> u32" where
  "warm_delay_secs ttl =
     (let ninety_percent = ttl - ttl div 10;
          ten_before = ttl - MIN_TTL_SECS
      in min ninety_percent ten_before)"

definition arm :: "WarmPolicy \<Rightarrow> WarmFacts \<Rightarrow> duration \<Rightarrow> WarmPlan" where
  "arm policy facts now = (case ineligibility policy facts of
     Some reason \<Rightarrow> \<lparr>wpl_policy = policy, wpl_facts = facts, wpl_state = PS_Inactive reason\<rparr>
   | None \<Rightarrow> (case ttl_secs (wf_cache_ttl facts) (wf_retention facts) of
       None \<Rightarrow> \<lparr>wpl_policy = policy, wpl_facts = facts, wpl_state = PS_Inactive SR_NoTtl\<rparr>
     | Some ttl \<Rightarrow>
         (let delay_secs = warm_delay_secs ttl;
              next_warm_at = now + from_secs delay_secs;
              remaining_secs = ttl - delay_secs;
              refresh_deadline = next_warm_at + from_secs (remaining_secs div 2)
          in \<lparr>wpl_policy = policy, wpl_facts = facts,
              wpl_state = PS_Armed next_warm_at refresh_deadline\<rparr>)))"

definition economics :: "ModelCost option \<Rightarrow> u32 \<Rightarrow> Economics option" where
  "economics cost prefix_tokens = (case cost of
     None \<Rightarrow> None
   | Some cost \<Rightarrow>
       (let per_million = real (unat prefix_tokens) / 1000000;
            cache_read = (case mc_cache_read cost of Some r \<Rightarrow> r | None \<Rightarrow> 0);
            warm_cost = cache_read * per_million + mc_output cost / 1000000;
            write_price = (case mc_cache_write cost of
              Some w \<Rightarrow> if w > 0 then w else mc_input cost
            | None \<Rightarrow> mc_input cost);
            miss_cost = (write_price - cache_read) * per_million
        in Some \<lparr>ec_warm_cost = warm_cost, ec_miss_cost = miss_cost,
                 ec_expected_savings = miss_cost - warm_cost\<rparr>))"

definition gate :: "WarmPolicy \<Rightarrow> WarmFacts \<Rightarrow> Economics option \<Rightarrow> SkipReason + unit" where
  "gate policy facts econ = (case wp_meter policy of
     MK_Payg \<Rightarrow> (case econ of
       None \<Rightarrow> Inl SR_EconomicsUnavailable
     | Some e \<Rightarrow> if ec_expected_savings e \<ge> wp_min_expected_savings policy then Inr ()
                else Inl SR_BelowThreshold)
   | MK_Tokens \<Rightarrow>
       if wf_prefix_tokens facts \<ge> wp_min_prefix_tokens policy then Inr ()
       else Inl SR_BelowThreshold
   | MK_Requests \<Rightarrow> Inl SR_MeterIncompatible
   | MK_Flat \<Rightarrow> Inl SR_MeterIncompatible
   | MK_Unknown \<Rightarrow> Inl SR_MeterIncompatible)"

definition decide :: "WarmPlan \<Rightarrow> duration \<Rightarrow> Decision" where
  "decide self now =
     (let econ = economics (wf_cost (wpl_facts self)) (wf_prefix_tokens (wpl_facts self));
          action = (case wpl_state self of
            PS_Inactive reason \<Rightarrow> AC_Stop reason
          | PS_Armed next_warm_at refresh_deadline \<Rightarrow>
              if now > refresh_deadline then AC_Stop SR_DeadlineMissed
              else if now < next_warm_at then AC_Wait (next_warm_at - now)
              else (case gate (wpl_policy self) (wpl_facts self) econ of
                Inr _ \<Rightarrow> AC_Ping
              | Inl reason \<Rightarrow> AC_Stop reason))
      in \<lparr>de_prefix_tokens = wf_prefix_tokens (wpl_facts self), de_meter = wp_meter (wpl_policy self),
          de_warm_cost = map_option ec_warm_cost econ, de_miss_cost = map_option ec_miss_cost econ,
          de_expected_savings = map_option ec_expected_savings econ, de_action = action\<rparr>)"

definition poll :: "WarmPlan \<Rightarrow> duration \<Rightarrow> Action" where
  "poll self now = de_action (decide self now)"

section \<open>Arming for a tool window (arming.rs)\<close>

text \<open>
  The catalog and the affinity registry are parameters; the messages and tools
  that the ping replays are carried along unread.
\<close>

record ToolWindowWarm =
  tw_provider_slug :: string
  tw_model :: string
  tw_affinity :: nat
  tw_extended_retention :: bool
  tw_estimated_prompt_tokens :: u32
  tw_session_id :: u64
  tw_stream_id :: u64
  tw_is_anthropic :: bool
  tw_thinking_enabled :: bool

record WarmRequest =
  wr_model :: string
  wr_facts :: WarmFacts
  wr_session_id :: u64
  wr_stream_id :: u64
  wr_max_output_tokens :: u32

definition arm_for_tool_window ::
  "(string \<Rightarrow> string \<Rightarrow> PromptCacheTtl option) \<Rightarrow> (string \<Rightarrow> string \<Rightarrow> ModelCost option) \<Rightarrow>
   (string \<Rightarrow> string \<Rightarrow> nat \<Rightarrow> bool) \<Rightarrow> ToolWindowWarm \<Rightarrow> WarmRequest" where
  "arm_for_tool_window prompt_cache_ttl model_cost cache_affinity_downgraded spec =
     (let facts =
        \<lparr>wf_cache_ttl = prompt_cache_ttl (tw_provider_slug spec) (tw_model spec),
         wf_retention = for_extended_retention (tw_extended_retention spec),
         wf_prefix_tokens = tw_estimated_prompt_tokens spec,
         wf_cost = model_cost (tw_provider_slug spec) (tw_model spec),
         wf_replayable = is_replayable (tw_is_anthropic spec) (tw_thinking_enabled spec),
         wf_affinity_downgraded =
           cache_affinity_downgraded (tw_provider_slug spec) (tw_model spec) (tw_affinity spec)\<rparr>
      in \<lparr>wr_model = tw_model spec, wr_facts = facts, wr_session_id = tw_session_id spec,
          wr_stream_id = tw_stream_id spec,
          wr_max_output_tokens = (if \<not> tw_is_anthropic spec then 1 else 0)\<rparr>)"

section \<open>The warmer thread (driver.rs)\<close>

text \<open>
  The loop of \<open>warmer_loop\<close> as a machine. Its state is the monotonic clock, what is
  armed (with, as a ghost, when it was armed), whether the thread has returned,
  and the log of pings: when each was sent, for which request, and when that
  request had been armed.
\<close>

record ping_log =
  pl_at :: duration
  pl_armed_at :: duration
  pl_request :: WarmRequest

record warmer =
  wm_now :: duration
  wm_armed :: "(WarmPlan \<times> WarmRequest) option"
  wm_armed_at :: duration
  wm_returned :: bool
  wm_pings :: "ping_log list"

inductive warmer_step :: "WarmPolicy \<Rightarrow> warmer \<Rightarrow> warmer \<Rightarrow> bool" for policy where
  tick: "\<not> wm_returned W \<Longrightarrow> warmer_step policy W (W\<lparr>wm_now := wm_now W + d\<rparr>)"
| ping:
    "\<not> wm_returned W \<Longrightarrow> wm_armed W = Some (plan, request) \<Longrightarrow>
     de_action (decide plan (wm_now W)) = AC_Ping \<Longrightarrow>
     warmer_step policy W
       (W\<lparr>wm_now := wm_now W + d,
          wm_armed := Some (arm policy (wr_facts request) (wm_now W + d), request),
          wm_armed_at := wm_now W + d,
          wm_pings := wm_pings W @ [\<lparr>pl_at = wm_now W, pl_armed_at = wm_armed_at W,
                                     pl_request = request\<rparr>]\<rparr>)"
| give_up:
    "\<not> wm_returned W \<Longrightarrow> wm_armed W = Some (plan, request) \<Longrightarrow>
     de_action (decide plan (wm_now W)) = AC_Stop reason \<Longrightarrow>
     warmer_step policy W (W\<lparr>wm_armed := None\<rparr>)"
| recv_arm:
    "\<not> wm_returned W \<Longrightarrow>
     warmer_step policy W
       (W\<lparr>wm_armed := Some (arm policy (wr_facts request) (wm_now W), request),
          wm_armed_at := wm_now W\<rparr>)"
| recv_stop_or_cancel: "\<not> wm_returned W \<Longrightarrow> warmer_step policy W (W\<lparr>wm_returned := True\<rparr>)"

definition warmer_init :: "duration \<Rightarrow> warmer" where
  "warmer_init now = \<lparr>wm_now = now, wm_armed = None, wm_armed_at = now, wm_returned = False,
     wm_pings = []\<rparr>"

inductive warmer_reachable :: "WarmPolicy \<Rightarrow> warmer \<Rightarrow> bool" for policy where
  warm_init: "warmer_reachable policy (warmer_init now)"
| warm_step: "warmer_reachable policy W \<Longrightarrow> warmer_step policy W W' \<Longrightarrow> warmer_reachable policy W'"

section \<open>Timing\<close>

lemma warm_delay_nat:
  assumes "MIN_TTL_SECS < ttl"
  shows "unat (warm_delay_secs ttl) = min (unat ttl - unat ttl div 10) (unat ttl - 10)"
proof -
  have ten: "10 < unat ttl" using assms by (simp add: MIN_TTL_SECS_def word_less_nat_alt)
  have "unat (ttl div 10) = unat ttl div 10" by (simp add: unat_div)
  moreover have "ttl div 10 \<le> ttl" by (simp add: word_le_nat_alt unat_div)
  moreover have "MIN_TTL_SECS \<le> ttl" using assms by (simp add: order_less_imp_le)
  moreover have "unat (MIN_TTL_SECS) = 10" by (simp add: MIN_TTL_SECS_def)
  ultimately have n: "unat (ttl - ttl div 10) = unat ttl - unat ttl div 10"
    and t: "unat (ttl - MIN_TTL_SECS) = unat ttl - 10"
    by (simp_all add: unat_sub)
  show ?thesis by (simp add: warm_delay_secs_def Let_def min_def word_le_nat_alt n t)
qed

lemma remaining_nat:
  assumes "MIN_TTL_SECS < ttl"
  shows "unat ((ttl - warm_delay_secs ttl) div 2) = (unat ttl - unat (warm_delay_secs ttl)) div 2"
proof -
  have "warm_delay_secs ttl \<le> ttl"
    using warm_delay_nat [OF assms] by (simp add: word_le_nat_alt)
  then show ?thesis by (simp add: unat_div unat_sub)
qed

text \<open>The armed window lies strictly inside the life of the cache entry.\<close>

lemma arm_window:
  assumes "wpl_state (arm policy facts now) = PS_Armed next deadline"
  shows "\<exists>ttl. ttl_secs (wf_cache_ttl facts) (wf_retention facts) = Some ttl \<and>
    MIN_TTL_SECS < ttl \<and> now < next \<and> next \<le> deadline \<and> deadline < now + from_secs ttl"
proof -
  obtain ttl where ttl: "ttl_secs (wf_cache_ttl facts) (wf_retention facts) = Some ttl"
      and long: "\<not> ttl \<le> MIN_TTL_SECS"
      and nd: "next = now + from_secs (warm_delay_secs ttl)"
        "deadline = next + from_secs ((ttl - warm_delay_secs ttl) div 2)"
    using assms
    by (auto simp: arm_def ineligibility_def Let_def split: option.splits if_splits)
  have gt: "MIN_TTL_SECS < ttl" using long by simp
  have ten: "10 < unat ttl" using gt by (simp add: MIN_TTL_SECS_def word_less_nat_alt)
  let ?t = "unat ttl" and ?d = "unat (warm_delay_secs ttl)"
  have d: "0 < ?d" "?d + (?t - ?d) div 2 < ?t"
    using warm_delay_nat [OF gt] ten by (auto simp: min_def)
  have "deadline = now + (?d + (?t - ?d) div 2) * 1000000000"
    by (simp add: nd from_secs_def remaining_nat [OF gt] algebra_simps)
  also have "\<dots> < now + ?t * 1000000000" using d(2) by simp
  finally have "deadline < now + from_secs ttl" by (simp add: from_secs_def)
  then show ?thesis using ttl gt d(1) by (auto simp: nd from_secs_def)
qed

lemma decide_ping:
  "de_action (decide plan now) = AC_Ping \<longleftrightarrow>
     (\<exists>next deadline. wpl_state plan = PS_Armed next deadline \<and> next \<le> now \<and> now \<le> deadline \<and>
        gate (wpl_policy plan) (wpl_facts plan)
          (economics (wf_cost (wpl_facts plan)) (wf_prefix_tokens (wpl_facts plan))) = Inr ())"
  by (auto simp: decide_def Let_def split: PlanState.splits sum.splits if_splits)

lemma arm_fields [simp]: "wpl_policy (arm policy facts now) = policy" "wpl_facts (arm policy facts now) = facts"
  by (simp_all add: arm_def Let_def split: option.splits)

lemma gate_ok:
  "gate policy facts econ = Inr () \<longleftrightarrow>
     (wp_meter policy = MK_Payg \<and>
        (\<exists>e. econ = Some e \<and> ec_expected_savings e \<ge> wp_min_expected_savings policy)) \<or>
     (wp_meter policy = MK_Tokens \<and> wf_prefix_tokens facts \<ge> wp_min_prefix_tokens policy)"
  by (auto simp: gate_def split: MeterKind.splits option.splits)

section \<open>The loop invariant\<close>

definition ping_ok :: "WarmPolicy \<Rightarrow> ping_log \<Rightarrow> bool" where
  "ping_ok policy p \<longleftrightarrow>
     (\<exists>ttl. ttl_secs (wf_cache_ttl (wr_facts (pl_request p))) (wf_retention (wr_facts (pl_request p)))
         = Some ttl \<and>
       pl_armed_at p < pl_at p \<and> pl_at p < pl_armed_at p + from_secs ttl) \<and>
     wp_mode policy = WM_Streaming \<and> wp_prompt_cache_enabled policy \<and>
     wf_replayable (wr_facts (pl_request p)) \<and> \<not> wf_affinity_downgraded (wr_facts (pl_request p)) \<and>
     gate policy (wr_facts (pl_request p))
       (economics (wf_cost (wr_facts (pl_request p))) (wf_prefix_tokens (wr_facts (pl_request p)))) = Inr ()"

definition warmer_inv :: "WarmPolicy \<Rightarrow> warmer \<Rightarrow> bool" where
  "warmer_inv policy W \<longleftrightarrow>
     (\<forall>plan request. wm_armed W = Some (plan, request) \<longrightarrow>
        plan = arm policy (wr_facts request) (wm_armed_at W)) \<and>
     (\<forall>p \<in> set (wm_pings W). ping_ok policy p \<and> pl_at p \<le> wm_armed_at W) \<and>
     sorted_wrt (\<lambda>p q. pl_at p \<le> pl_armed_at q) (wm_pings W) \<and>
     wm_armed_at W \<le> wm_now W"

lemma arm_armed_eligible:
  "wpl_state (arm policy facts now) = PS_Armed next deadline \<Longrightarrow>
     wp_mode policy = WM_Streaming \<and> wp_prompt_cache_enabled policy \<and>
     wf_replayable facts \<and> \<not> wf_affinity_downgraded facts"
  by (cases "wp_mode policy")
     (auto simp: arm_def ineligibility_def Let_def split: option.splits if_splits)

lemma armed_ping_ok:
  assumes "de_action (decide (arm policy (wr_facts request) t0) now) = AC_Ping"
  shows "ping_ok policy \<lparr>pl_at = now, pl_armed_at = t0, pl_request = request\<rparr>"
proof -
  obtain nx deadline where armed: "wpl_state (arm policy (wr_facts request) t0) = PS_Armed nx deadline"
      and t: "nx \<le> now" "now \<le> deadline"
      and g: "gate policy (wr_facts request) (economics (wf_cost (wr_facts request))
          (wf_prefix_tokens (wr_facts request))) = Inr ()"
    using assms by (auto simp: decide_ping)
  show ?thesis
    using arm_window [OF armed] arm_armed_eligible [OF armed] t g by (auto simp: ping_ok_def)
qed

lemma warmer_inv_step: "warmer_step policy W W' \<Longrightarrow> warmer_inv policy W \<Longrightarrow> warmer_inv policy W'"
proof (induction rule: warmer_step.induct)
  case (ping W plan request d)
  have plan: "plan = arm policy (wr_facts request) (wm_armed_at W)"
    using ping by (auto simp: warmer_inv_def)
  have "ping_ok policy \<lparr>pl_at = wm_now W, pl_armed_at = wm_armed_at W, pl_request = request\<rparr>"
    using ping(3) plan by (intro armed_ping_ok) simp
  then show ?case using ping by (fastforce simp: warmer_inv_def sorted_wrt_append)
next
  case (recv_arm W request)
  then show ?case by (fastforce simp: warmer_inv_def)
qed (auto simp: warmer_inv_def)

lemma warmer_reachable_inv: "warmer_reachable policy W \<Longrightarrow> warmer_inv policy W"
proof (induction rule: warmer_reachable.induct)
  case (warm_init now)
  then show ?case by (simp add: warmer_inv_def warmer_init_def)
qed (rule warmer_inv_step)

section \<open>Properties\<close>

text \<open>
  Every ping the warmer ever sends goes out strictly after it was armed and
  strictly before the cache entry it keeps alive expires, only when warming is
  on, prompt caching is enabled, the request can be replayed and the provider
  honours the affinity hint, and only when the billing gate approves; and two
  pings never belong to the same armed window.
\<close>

theorem pings_within_cache_life:
  assumes "warmer_reachable policy W" and "p \<in> set (wm_pings W)"
  shows "ping_ok policy p \<and> sorted_wrt (\<lambda>p q. pl_at p \<le> pl_armed_at q) (wm_pings W)"
  using warmer_reachable_inv [OF assms(1)] assms(2) by (auto simp: warmer_inv_def)

definition sample_warm_policy :: WarmPolicy where
  "sample_warm_policy = \<lparr>wp_mode = WM_Streaming, wp_meter = MK_Tokens, wp_prompt_cache_enabled = True,
     wp_min_prefix_tokens = 10, wp_min_expected_savings = 0\<rparr>"

definition sample_warm_request :: WarmRequest where
  "sample_warm_request = \<lparr>wr_model = ''m'', wr_facts =
     \<lparr>wf_cache_ttl = Some \<lparr>pct_short_secs = Some 300, pct_long_secs = None\<rparr>, wf_retention = RT_Short,
      wf_prefix_tokens = 50, wf_cost = None, wf_replayable = True, wf_affinity_downgraded = False\<rparr>,
     wr_session_id = 1, wr_stream_id = 1, wr_max_output_tokens = 1\<rparr>"

theorem pings_within_cache_life_witness:
  "\<exists>W. warmer_reachable sample_warm_policy W \<and> wm_pings W \<noteq> [] \<and>
     ping_ok sample_warm_policy (hd (wm_pings W))"
proof -
  let ?P = sample_warm_policy and ?R = sample_warm_request
  let ?W0 = "warmer_init 0"
  let ?W1 = "?W0\<lparr>wm_armed := Some (arm ?P (wr_facts ?R) 0, ?R), wm_armed_at := 0\<rparr>"
  let ?W2 = "?W1\<lparr>wm_now := 270000000000\<rparr>"
  let ?W3 = "?W2\<lparr>wm_now := 270000000000, wm_armed := Some (arm ?P (wr_facts ?R) 270000000000, ?R),
      wm_armed_at := 270000000000,
      wm_pings := [\<lparr>pl_at = 270000000000, pl_armed_at = 0, pl_request = ?R\<rparr>]\<rparr>"
  have s1: "warmer_step ?P ?W0 ?W1" using recv_arm [of ?W0 ?P ?R] by (simp add: warmer_init_def)
  have s2: "warmer_step ?P ?W1 ?W2" using tick [of ?W1 ?P 270000000000] by (simp add: warmer_init_def)
  have act: "de_action (decide (arm ?P (wr_facts ?R) 0) 270000000000) = AC_Ping"
    by (simp add: decide_def arm_def ineligibility_def ttl_secs_def sample_warm_policy_def
        sample_warm_request_def MIN_TTL_SECS_def warm_delay_secs_def from_secs_def gate_def Let_def)
  have s3: "warmer_step ?P ?W2 ?W3"
    using ping [of ?W2 "arm ?P (wr_facts ?R) 0" ?R ?P 0] act by (simp add: warmer_init_def)
  have r: "warmer_reachable ?P ?W3" using s1 s2 s3 by (meson warmer_reachable.intros)
  have "ping_ok ?P \<lparr>pl_at = 270000000000, pl_armed_at = 0, pl_request = ?R\<rparr>"
    using pings_within_cache_life [OF r] by simp
  then show ?thesis using r by (intro exI [of _ ?W3]) simp
qed

text \<open>
  The warming economics never recommends a ping that loses money under a
  pay-as-you-go meter with a non-negative threshold, and never recommends one
  at all under a request, flat or unknown meter.
\<close>

theorem gate_never_loses_money:
  "(gate policy facts (economics cost prefix) = Inr () \<and> wp_meter policy = MK_Payg \<and>
      0 \<le> wp_min_expected_savings policy \<longrightarrow>
      (\<exists>e. economics cost prefix = Some e \<and> ec_warm_cost e \<le> ec_miss_cost e)) \<and>
   (wp_meter policy \<in> {MK_Requests, MK_Flat, MK_Unknown} \<longrightarrow>
      gate policy facts (economics cost prefix) = Inl SR_MeterIncompatible)"
proof -
  have "ec_expected_savings e = ec_miss_cost e - ec_warm_cost e"
    if "economics cost prefix = Some e" for e
    using that by (auto simp: economics_def Let_def split: option.splits)
  then show ?thesis by (fastforce simp: gate_def split: option.splits if_splits)
qed

theorem gate_never_loses_money_witness:
  "gate sample_warm_policy (wr_facts sample_warm_request) None = Inr () \<and>
   gate (sample_warm_policy\<lparr>wp_meter := MK_Flat\<rparr>) (wr_facts sample_warm_request) (economics None 5)
     = Inl SR_MeterIncompatible"
  using gate_never_loses_money [of "sample_warm_policy\<lparr>wp_meter := MK_Flat\<rparr>"
      "wr_facts sample_warm_request" None 5]
  by (simp add: gate_def sample_warm_policy_def sample_warm_request_def)

end
