(* ===== verification/Session_State.thy ===== *)
theory Session_State
  imports Broadcast Cache_Warm
begin

text \<open>
  The state a session thread owns (\<open>src/choreo-daemon/src/sessions/types.rs\<close>,
  \<open>state.rs\<close>, \<open>tokens.rs\<close>, and the stored record of \<open>db/sessions.rs\<close>): its
  configuration, its turns keyed by turn id, the redo stack, the requests in
  flight, and the conversions between the live state, the daemon's metadata
  index, the stored record and the worker's snapshot.

  A path is the string it displays as. A hash set is a list without repetition.
  Objects behind trait pointers and handles (a provider's client, the socket
  registry, a project's tools) are named by an identity.
\<close>

section \<open>Hash sets\<close>

definition hs_insert :: "'a \<Rightarrow> 'a list \<Rightarrow> 'a list" where
  "hs_insert x xs = (if x \<in> set xs then xs else xs @ [x])"

definition hs_remove :: "'a \<Rightarrow> 'a list \<Rightarrow> 'a list" where
  "hs_remove x xs = filter (\<lambda>y. y \<noteq> x) xs"

definition hs_collect :: "'a list \<Rightarrow> 'a list" where
  "hs_collect xs = fold hs_insert xs []"

lemma hs_insert_set [simp]: "set (hs_insert x xs) = insert x (set xs)"
  by (auto simp: hs_insert_def)

lemma hs_remove_set [simp]: "set (hs_remove x xs) = set xs - {x}"
  by (auto simp: hs_remove_def)

lemma hs_insert_distinct [simp]: "distinct (hs_insert x xs) = distinct xs"
  by (auto simp: hs_insert_def)

lemma hs_fold_set: "set (fold hs_insert xs ys) = set xs \<union> set ys"
  by (induction xs arbitrary: ys) auto

lemma hs_collect_set [simp]: "set (hs_collect xs) = set xs"
  by (simp add: hs_collect_def hs_fold_set)

section \<open>Records (sessions/types.rs, db/sessions.rs)\<close>

record SessionConfig =
  cfg_title :: "string option"
  cfg_selected_model :: "string option"
  cfg_reasoning_effort :: "string option"
  cfg_parent_session_id :: "u64 option"
  cfg_working_dir :: "string option"
  cfg_created_at :: i64
  cfg_last_modified :: i64
  cfg_status :: SessionStatus
  cfg_active_tool_groups :: "string list"
  cfg_context_config :: ContextConfig
  cfg_account_name :: "string option"
  cfg_accumulated_usage :: TokenUsage
  cfg_context_window :: "u32 option"
  cfg_last_prompt_tokens :: "u32 option"
  cfg_last_response_id :: "string option"
  cfg_last_response_id_producer :: "ReasoningProducer option"

definition SessionConfig_default :: SessionConfig where
  "SessionConfig_default =
     \<lparr>cfg_title = None, cfg_selected_model = None, cfg_reasoning_effort = None,
      cfg_parent_session_id = None, cfg_working_dir = None, cfg_created_at = 0,
      cfg_last_modified = 0, cfg_status = SS_Inactive, cfg_active_tool_groups = [],
      cfg_context_config = ContextConfig_default, cfg_account_name = None,
      cfg_accumulated_usage = TokenUsage_default, cfg_context_window = None,
      cfg_last_prompt_tokens = None, cfg_last_response_id = None,
      cfg_last_response_id_producer = None\<rparr>"

definition apply_worker_snapshot :: "SessionConfig \<Rightarrow> SessionConfig \<Rightarrow> SessionConfig" where
  "apply_worker_snapshot self snap =
     self\<lparr>cfg_accumulated_usage := cfg_accumulated_usage snap,
          cfg_context_window := cfg_context_window snap,
          cfg_last_prompt_tokens := cfg_last_prompt_tokens snap,
          cfg_last_response_id := cfg_last_response_id snap,
          cfg_last_response_id_producer := cfg_last_response_id_producer snap\<rparr>"

record SessionMetadata =
  meta_title :: "string option"
  meta_selected_model :: "string option"
  meta_reasoning_effort :: "string option"
  meta_parent_session_id :: "u64 option"
  meta_working_dir :: "string option"
  meta_created_at :: i64
  meta_last_modified :: i64
  meta_turn_count :: u32
  meta_status :: SessionStatus
  meta_active_tool_groups :: "string list"
  meta_account_name :: "string option"
  meta_accumulated_usage :: TokenUsage
  meta_context_window :: "u32 option"
  meta_last_prompt_tokens :: "u32 option"
  meta_pinned :: bool
  meta_archived_at :: "i64 option"

definition SessionMetadata_from_config :: "SessionConfig \<Rightarrow> SessionMetadata" where
  "SessionMetadata_from_config config =
     \<lparr>meta_title = cfg_title config, meta_selected_model = cfg_selected_model config,
      meta_reasoning_effort = cfg_reasoning_effort config,
      meta_parent_session_id = cfg_parent_session_id config,
      meta_working_dir = cfg_working_dir config, meta_created_at = cfg_created_at config,
      meta_last_modified = cfg_last_modified config, meta_turn_count = 0,
      meta_status = cfg_status config,
      meta_active_tool_groups = cfg_active_tool_groups config,
      meta_account_name = cfg_account_name config,
      meta_accumulated_usage = cfg_accumulated_usage config,
      meta_context_window = cfg_context_window config,
      meta_last_prompt_tokens = cfg_last_prompt_tokens config,
      meta_pinned = False, meta_archived_at = None\<rparr>"

definition to_summary :: "SessionMetadata \<Rightarrow> u64 \<Rightarrow> SessionSummary" where
  "to_summary self session_id =
     \<lparr>sum_session_id = session_id, sum_title = meta_title self,
      sum_selected_model = meta_selected_model self,
      sum_reasoning_effort = meta_reasoning_effort self,
      sum_parent_session_id = meta_parent_session_id self,
      sum_working_dir = meta_working_dir self, sum_created_at = meta_created_at self,
      sum_last_modified = meta_last_modified self, sum_turn_count = meta_turn_count self,
      sum_status = meta_status self, sum_active_tool_groups = meta_active_tool_groups self,
      sum_account_name = meta_account_name self,
      sum_token_usage = Some (meta_accumulated_usage self),
      sum_context_window = meta_context_window self,
      sum_last_prompt_tokens = meta_last_prompt_tokens self,
      sum_pinned = meta_pinned self, sum_archived_at = meta_archived_at self\<rparr>"

record SessionRecord =
  rec_title :: "string option"
  rec_selected_model :: "string option"
  rec_parent_session_id :: "u64 option"
  rec_working_dir :: "string option"
  rec_turn_count :: u32
  rec_created_at :: i64
  rec_last_modified :: i64
  rec_active_tool_groups :: "string list"
  rec_context_config :: ContextConfig
  rec_account_name :: "string option"
  rec_reasoning_effort :: "string option"
  rec_last_response_id :: "string option"
  rec_last_response_id_producer :: "ReasoningProducer option"
  rec_pinned :: bool
  rec_archived_at :: "i64 option"

definition SessionMetadata_from_record :: "SessionRecord \<Rightarrow> SessionMetadata" where
  "SessionMetadata_from_record record =
     (let config =
        \<lparr>cfg_title = rec_title record, cfg_selected_model = rec_selected_model record,
         cfg_reasoning_effort = rec_reasoning_effort record,
         cfg_parent_session_id = rec_parent_session_id record,
         cfg_working_dir = rec_working_dir record, cfg_created_at = rec_created_at record,
         cfg_last_modified = rec_last_modified record, cfg_status = SS_Sleeping,
         cfg_active_tool_groups = hs_collect (rec_active_tool_groups record),
         cfg_context_config = rec_context_config record,
         cfg_account_name = rec_account_name record,
         cfg_accumulated_usage = TokenUsage_default, cfg_context_window = None,
         cfg_last_prompt_tokens = None, cfg_last_response_id = rec_last_response_id record,
         cfg_last_response_id_producer = rec_last_response_id_producer record\<rparr>;
          meta = SessionMetadata_from_config config
      in meta\<lparr>meta_turn_count := rec_turn_count record, meta_pinned := rec_pinned record,
              meta_archived_at := rec_archived_at record\<rparr>)"

definition SessionRecord_from_metadata :: "SessionMetadata \<Rightarrow> SessionRecord" where
  "SessionRecord_from_metadata meta =
     \<lparr>rec_title = meta_title meta, rec_selected_model = meta_selected_model meta,
      rec_parent_session_id = meta_parent_session_id meta,
      rec_working_dir = meta_working_dir meta, rec_turn_count = meta_turn_count meta,
      rec_created_at = meta_created_at meta, rec_last_modified = meta_last_modified meta,
      rec_active_tool_groups = meta_active_tool_groups meta,
      rec_context_config = ContextConfig_default, rec_account_name = meta_account_name meta,
      rec_reasoning_effort = meta_reasoning_effort meta, rec_last_response_id = None,
      rec_last_response_id_producer = None, rec_pinned = meta_pinned meta,
      rec_archived_at = meta_archived_at meta\<rparr>"

section \<open>The live state (sessions/state.rs)\<close>

record LoadedSkill =
  ls_name :: string
  ls_body :: string

record SkillMeta =
  sk_name :: string
  sk_description :: string
  sk_path :: string

record ProjectToolSet =
  pts_tools :: "string list"
  pts_groups :: "string list"

record InferenceProvider =
  ip_client :: nat
  ip_slug :: string

record ActiveRequest =
  ar_cancel :: nat
  ar_turn_id :: u32
  ar_estimated_prompt_tokens :: u32

definition started_event :: "ActiveRequest \<Rightarrow> u64 \<Rightarrow> u64 \<Rightarrow> DaemonMessageType" where
  "started_event self session_id stream_id =
     DM_Session (Some session_id)
       (SessionEvent_started stream_id (ar_turn_id self) (ar_estimated_prompt_tokens self))"

record SessionState =
  st_config :: SessionConfig
  st_next_turn_id :: u32
  st_next_stream_id :: u64
  st_redo_stack :: "u32 list list"
  st_turns :: turn_map
  st_subscribers :: "(ClientId \<times> SubscriberSink) list"
  st_active_requests :: "(u64 \<times> ActiveRequest) list"
  st_provider :: "InferenceProvider option"
  st_provider_slug :: "string option"
  st_warm_policy :: WarmPolicy
  st_registry :: nat
  st_loaded_skill_bodies :: "LoadedSkill list"
  st_context_cache :: "(u64 \<times> string) option"
  st_discovered_skills :: "SkillMeta list option"
  st_project_tools :: ProjectToolSet
  st_project_shadowed_groups :: "string list"
  st_persisted_turns :: "u32 list"

record SessionSnapshot =
  sn_config :: SessionConfig
  sn_turns :: turn_map
  sn_loaded_skill_bodies :: "LoadedSkill list"
  sn_context_cache :: "(u64 \<times> string) option"
  sn_discovered_skills :: "SkillMeta list option"
  sn_project_tools :: ProjectToolSet
  sn_project_shadowed_groups :: "string list"
  sn_provider_slug :: "string option"
  sn_warm_policy :: WarmPolicy
  sn_persisted_turns :: "u32 list"

record AssistantResponse =
  resp_text :: "string option"
  resp_reasoning :: "string option"
  resp_tool_calls :: "AssistantToolCallRecord list"
  resp_token_usage :: "TokenUsage option"
  resp_reasoning_artifact :: "ReasoningArtifact option"
  resp_reasoning_producer :: "ReasoningProducer option"

text \<open>The structured return value of a tool is kept as its JSON text.\<close>

record ToolOutput =
  out_content :: string
  out_is_error :: bool
  out_invocation_description :: string
  out_image_ref :: "ImageReference option"
  out_result_json :: "string option"

definition SessionState_empty :: SessionState where
  "SessionState_empty =
     \<lparr>st_config = SessionConfig_default, st_next_turn_id = 0, st_next_stream_id = 1,
      st_redo_stack = [], st_turns = [], st_subscribers = [], st_active_requests = [],
      st_provider = None, st_provider_slug = None, st_warm_policy = WarmPolicy_default,
      st_registry = 0, st_loaded_skill_bodies = [], st_context_cache = None,
      st_discovered_skills = None, st_project_tools = \<lparr>pts_tools = [], pts_groups = []\<rparr>,
      st_project_shadowed_groups = [], st_persisted_turns = []\<rparr>"

definition effective_provider_slug :: "SessionState \<Rightarrow> string option" where
  "effective_provider_slug self = (case st_provider self of
     None \<Rightarrow> st_provider_slug self | Some p \<Rightarrow> Some (ip_slug p))"

definition snapshot :: "SessionState \<Rightarrow> SessionSnapshot" where
  "snapshot self =
     \<lparr>sn_config = st_config self, sn_turns = st_turns self,
      sn_loaded_skill_bodies = st_loaded_skill_bodies self,
      sn_context_cache = st_context_cache self,
      sn_discovered_skills = st_discovered_skills self,
      sn_project_tools = st_project_tools self,
      sn_project_shadowed_groups = st_project_shadowed_groups self,
      sn_provider_slug = st_provider_slug self, sn_warm_policy = st_warm_policy self,
      sn_persisted_turns = st_persisted_turns self\<rparr>"

text \<open>The greatest key, as \<open>keys().next_back()\<close> of an ordered map returns it.\<close>

definition last_key :: "('k \<times> 'v) list \<Rightarrow> 'k option" where
  "last_key m = (if m = [] then None else Some (fst (last m)))"

definition from_snapshot :: "SessionSnapshot \<Rightarrow> (ClientId \<times> SubscriberSink) list \<Rightarrow> SessionState" where
  "from_snapshot snap subscribers =
     (let next_turn_id = (case last_key (sn_turns snap) of None \<Rightarrow> 0 | Some m \<Rightarrow> m + 1) in
      \<lparr>st_config = sn_config snap, st_next_turn_id = next_turn_id, st_next_stream_id = 1,
       st_redo_stack = [], st_turns = sn_turns snap, st_subscribers = subscribers,
       st_active_requests = [], st_provider = None, st_provider_slug = sn_provider_slug snap,
       st_warm_policy = sn_warm_policy snap, st_registry = 0,
       st_loaded_skill_bodies = sn_loaded_skill_bodies snap,
       st_context_cache = sn_context_cache snap,
       st_discovered_skills = sn_discovered_skills snap,
       st_project_tools = sn_project_tools snap,
       st_project_shadowed_groups = sn_project_shadowed_groups snap,
       st_persisted_turns = sn_persisted_turns snap\<rparr>)"

text \<open>What a client is shown of a turn: everything but image bytes and reasoning payloads.\<close>

definition result_for_client :: "ToolResultRecord \<Rightarrow> ToolResultRecord" where
  "result_for_client r =
     \<lparr>tr_call_id = tr_call_id r, tr_name = tr_name r, tr_content = tr_content r,
      tr_is_error = tr_is_error r, tr_invocation_description = tr_invocation_description r,
      tr_image = map_option (\<lambda>img. \<lparr>ir_path = ir_path img, ir_mime_type = ir_mime_type img,
        ir_width = ir_width img, ir_height = ir_height img, ir_data = []\<rparr>) (tr_image r)\<rparr>"

definition image_for_client :: "DisplayedImageRecord \<Rightarrow> DisplayedImageRecord" where
  "image_for_client img =
     \<lparr>di_metadata = di_metadata img, di_data = [], di_tool_call_id = di_tool_call_id img\<rparr>"

definition turn_for_client :: "Turn \<Rightarrow> Turn" where
  "turn_for_client turn =
     \<lparr>t_created_at = t_created_at turn, t_undone = t_undone turn, t_error = t_error turn,
      t_user_text = t_user_text turn, t_assistant_text = t_assistant_text turn,
      t_assistant_reasoning = t_assistant_reasoning turn, t_tool_calls = t_tool_calls turn,
      t_token_usage = t_token_usage turn,
      t_tool_results = map result_for_client (t_tool_results turn),
      t_displayed_images = map image_for_client (t_displayed_images turn),
      t_reasoning_artifact = None, t_reasoning_producer = None\<rparr>"

definition turns_for_client :: "turn_map \<Rightarrow> turn_map" where
  "turns_for_client turns = map (\<lambda>(tid, turn). (tid, turn_for_client turn)) turns"

definition session_state_message ::
  "(string \<Rightarrow> string \<Rightarrow> ReasoningCapability) \<Rightarrow> SessionState \<Rightarrow> u64 \<Rightarrow> DaemonMessageType" where
  "session_state_message model_reasoning_capability self session_id =
     (let config = st_config self;
          reasoning_capability = (case cfg_selected_model config of
            None \<Rightarrow> None
          | Some model \<Rightarrow> (case effective_provider_slug self of
              None \<Rightarrow> None | Some slug \<Rightarrow> Some (model_reasoning_capability slug model)))
      in DM_Session (Some session_id)
           (SE_SessionState (cfg_title config) (cfg_selected_model config)
              (cfg_parent_session_id config) (cfg_working_dir config)
              (turns_for_client (st_turns self)) (cfg_active_tool_groups config)
              (Some (cfg_accumulated_usage config)) (cfg_context_window config)
              (cfg_last_prompt_tokens config) (cfg_status config)
              (cfg_reasoning_effort config) reasoning_capability))"

definition fresh_turn :: "i64 \<Rightarrow> string option \<Rightarrow> Turn" where
  "fresh_turn now user_text =
     \<lparr>t_created_at = now, t_undone = False, t_error = None, t_user_text = user_text,
      t_assistant_text = None, t_assistant_reasoning = None, t_tool_calls = [],
      t_token_usage = None, t_tool_results = [], t_displayed_images = [],
      t_reasoning_artifact = None, t_reasoning_producer = None\<rparr>"

definition start_turn :: "i64 \<Rightarrow> string option \<Rightarrow> SessionState \<Rightarrow> (u32 \<times> Turn) \<times> SessionState" where
  "start_turn now user_text self =
     (let self = (if user_text \<noteq> None then self\<lparr>st_redo_stack := []\<rparr> else self);
          turn_id = st_next_turn_id self;
          turn = fresh_turn now user_text
      in ((turn_id, turn),
          self\<lparr>st_next_turn_id := turn_id + 1,
               st_turns := btm_insert turn_id turn (st_turns self)\<rparr>))"

definition update_turn :: "u32 \<Rightarrow> (Turn \<Rightarrow> Turn) \<Rightarrow> SessionState \<Rightarrow> SessionState" where
  "update_turn turn_id f self = self\<lparr>st_turns := btm_update turn_id f (st_turns self)\<rparr>"

definition set_assistant_response ::
  "u32 \<Rightarrow> AssistantResponse \<Rightarrow> SessionState \<Rightarrow> SessionState" where
  "set_assistant_response turn_id response =
     update_turn turn_id (\<lambda>turn. turn
       \<lparr>t_assistant_text := resp_text response, t_assistant_reasoning := resp_reasoning response,
        t_tool_calls := resp_tool_calls response, t_token_usage := resp_token_usage response,
        t_reasoning_artifact := resp_reasoning_artifact response,
        t_reasoning_producer := resp_reasoning_producer response\<rparr>)"

definition seed_result :: "AssistantToolCallRecord \<Rightarrow> string \<Rightarrow> ToolResultRecord" where
  "seed_result tc desc =
     \<lparr>tr_call_id = tc_call_id tc, tr_name = tc_name tc, tr_content = [], tr_is_error = False,
      tr_invocation_description = desc, tr_image = None\<rparr>"

definition seed_tool_results ::
  "u32 \<Rightarrow> AssistantToolCallRecord list \<Rightarrow> string list \<Rightarrow> SessionState \<Rightarrow> SessionState" where
  "seed_tool_results turn_id tool_calls invocation_descriptions =
     update_turn turn_id (\<lambda>turn. turn\<lparr>t_tool_results :=
       map (\<lambda>(tc, desc). seed_result tc desc) (zip tool_calls invocation_descriptions)\<rparr>)"

text \<open>\<open>iter_mut().find\<close> followed by assignments: only the first match changes.\<close>

fun update_first :: "('a \<Rightarrow> bool) \<Rightarrow> ('a \<Rightarrow> 'a) \<Rightarrow> 'a list \<Rightarrow> 'a list" where
  "update_first P f [] = []"
| "update_first P f (x # xs) = (if P x then f x # xs else x # update_first P f xs)"

definition fill_result :: "string \<Rightarrow> ToolOutput \<Rightarrow> ToolResultRecord \<Rightarrow> ToolResultRecord" where
  "fill_result name output record = record
     \<lparr>tr_name := name, tr_content := out_content output, tr_is_error := out_is_error output,
      tr_invocation_description := out_invocation_description output,
      tr_image := out_image_ref output\<rparr>"

definition update_tool_result ::
  "u32 \<Rightarrow> string \<Rightarrow> string \<Rightarrow> ToolOutput \<Rightarrow> SessionState \<Rightarrow> SessionState" where
  "update_tool_result turn_id call_id name output =
     update_turn turn_id (\<lambda>turn. turn\<lparr>t_tool_results :=
       update_first (\<lambda>r. tr_call_id r = call_id) (fill_result name output) (t_tool_results turn)\<rparr>)"

text \<open>The text holds an em dash, three bytes in UTF-8.\<close>

definition CANCELLED_TEXT :: string where
  "CANCELLED_TEXT =
     ''[cancelled '' @ [CHR 0xE2, CHR 0x80, CHR 0x94] @ '' result not recorded]''"

definition mark_cancelled :: "string list \<Rightarrow> ToolResultRecord \<Rightarrow> ToolResultRecord" where
  "mark_cancelled executed record =
     (if tr_call_id record \<notin> set executed
      then record\<lparr>tr_content := CANCELLED_TEXT, tr_is_error := True\<rparr> else record)"

definition mark_unexecuted_tool_results ::
  "u32 \<Rightarrow> string list \<Rightarrow> SessionState \<Rightarrow> SessionState" where
  "mark_unexecuted_tool_results turn_id executed =
     update_turn turn_id (\<lambda>turn. turn\<lparr>t_tool_results :=
       map (mark_cancelled executed) (t_tool_results turn)\<rparr>)"

definition add_displayed_image :: "u32 \<Rightarrow> DisplayedImageRecord \<Rightarrow> SessionState \<Rightarrow> SessionState" where
  "add_displayed_image turn_id record =
     update_turn turn_id (\<lambda>turn. turn\<lparr>t_displayed_images := t_displayed_images turn @ [record]\<rparr>)"

definition set_turn_error :: "u32 \<Rightarrow> string \<Rightarrow> SessionState \<Rightarrow> SessionState" where
  "set_turn_error turn_id error = update_turn turn_id (\<lambda>turn. turn\<lparr>t_error := Some error\<rparr>)"

section \<open>Token figures (sessions/tokens.rs)\<close>

definition last_prompt_of :: "turn_map \<Rightarrow> u32 option" where
  "last_prompt_of turns =
     (case List.find (\<lambda>turn. \<not> t_undone turn \<and> t_token_usage turn \<noteq> None) (rev (map snd turns)) of
        None \<Rightarrow> None
      | Some turn \<Rightarrow> map_option input_tokens (t_token_usage turn))"

definition live_last_prompt_tokens :: "SessionState \<Rightarrow> u32 option" where
  "live_last_prompt_tokens self = last_prompt_of (st_turns self)"

definition reconstruct_accumulated_usage :: "turn_map \<Rightarrow> TokenUsage" where
  "reconstruct_accumulated_usage turns =
     fold (\<lambda>turn acc. case t_token_usage turn of Some u \<Rightarrow> accumulate acc u | None \<Rightarrow> acc)
       (map snd turns) TokenUsage_default"

section \<open>Undo and redo (sessions/state.rs)\<close>

text \<open>The last live turn the user wrote, and the id it has.\<close>

definition undo_target :: "turn_map \<Rightarrow> u32 option" where
  "undo_target turns =
     map_option fst
       (List.find (\<lambda>(_, t). \<not> t_undone t \<and> t_user_text t \<noteq> None) (rev turns))"

definition mark_undone :: "bool \<Rightarrow> Turn \<Rightarrow> Turn" where
  "mark_undone b turn = turn\<lparr>t_undone := b\<rparr>"

definition undo_turns :: "SessionState \<Rightarrow> u32 list option \<times> SessionState" where
  "undo_turns self = (case undo_target (st_turns self) of
     None \<Rightarrow> (None, self)
   | Some target \<Rightarrow>
       (let newly_undone = map fst (filter (\<lambda>(tid, t). target \<le> tid \<and> \<not> t_undone t) (st_turns self));
            turns = map (\<lambda>(tid, t). (tid, if target \<le> tid \<and> \<not> t_undone t then mark_undone True t else t))
              (st_turns self);
            self = self\<lparr>st_turns := turns, st_redo_stack := st_redo_stack self @ [newly_undone]\<rparr>;
            self = self\<lparr>st_config := (st_config self)
              \<lparr>cfg_last_prompt_tokens := live_last_prompt_tokens self\<rparr>\<rparr>
        in (Some newly_undone, self)))"

text \<open>Restoring the ids of one undo, in order; ids that are gone are skipped.\<close>

fun restore_turns :: "u32 list \<Rightarrow> turn_map \<Rightarrow> turn_map \<Rightarrow> turn_map \<times> turn_map" where
  "restore_turns [] turns restored = (turns, restored)"
| "restore_turns (tid # ids) turns restored = (case map_of turns tid of
     None \<Rightarrow> restore_turns ids turns restored
   | Some turn \<Rightarrow>
       restore_turns ids (btm_update tid (mark_undone False) turns)
         (btm_insert tid (mark_undone False turn) restored))"

definition redo_turns :: "SessionState \<Rightarrow> turn_map option \<times> SessionState" where
  "redo_turns self =
     (if st_redo_stack self = [] then (None, self)
      else (let ids = last (st_redo_stack self);
                self = self\<lparr>st_redo_stack := butlast (st_redo_stack self)\<rparr>;
                (turns, restored) = restore_turns ids (st_turns self) [];
                self = self\<lparr>st_turns := turns\<rparr>;
                self = self\<lparr>st_config := (st_config self)
                  \<lparr>cfg_last_prompt_tokens := live_last_prompt_tokens self\<rparr>\<rparr>
            in (Some restored, self)))"

section \<open>Conversions of the live state (sessions/types.rs)\<close>

definition SessionMetadata_from_state :: "SessionState \<Rightarrow> SessionMetadata" where
  "SessionMetadata_from_state state =
     (SessionMetadata_from_config (st_config state))
       \<lparr>meta_turn_count := of_nat (length (st_turns state))\<rparr>"

definition SessionRecord_from_state :: "SessionState \<Rightarrow> SessionRecord" where
  "SessionRecord_from_state state =
     (SessionRecord_from_metadata (SessionMetadata_from_state state))
       \<lparr>rec_context_config := cfg_context_config (st_config state),
        rec_last_response_id := cfg_last_response_id (st_config state),
        rec_last_response_id_producer := cfg_last_response_id_producer (st_config state)\<rparr>"

text \<open>
  Storing a record (\<open>db/sessions.rs\<close>). A row of the table is a decodable record or
  bytes that do not decode (\<open>None\<close>); a transaction fails as a whole, with the
  error \<open>fault\<close>, or commits. The pinned and archived flags belong to the daemon,
  so a record already stored keeps its own.
\<close>

type_synonym session_table = "(u64 \<times> SessionRecord option) list"

definition write_session ::
  "io_error option \<Rightarrow> u64 \<Rightarrow> SessionRecord \<Rightarrow> session_table \<Rightarrow> io_error + session_table" where
  "write_session fault session_id record table = (case fault of
     Some e \<Rightarrow> Inl e
   | None \<Rightarrow>
       (let record = (case map_of table session_id of
          Some (Some existing) \<Rightarrow> record\<lparr>rec_pinned := rec_pinned existing,
            rec_archived_at := rec_archived_at existing\<rparr>
        | Some None \<Rightarrow> record
        | None \<Rightarrow> record)
        in Inr (btm_insert session_id (Some record) table)))"

definition update_session_flags ::
  "io_error option \<Rightarrow> u64 \<Rightarrow> bool \<Rightarrow> i64 option \<Rightarrow> session_table \<Rightarrow> io_error + session_table" where
  "update_session_flags fault session_id pinned archived_at table = (case fault of
     Some e \<Rightarrow> Inl e
   | None \<Rightarrow> (case map_of table session_id of
       None \<Rightarrow> Inr table
     | Some None \<Rightarrow> Inr table
     | Some (Some record) \<Rightarrow>
         Inr (btm_insert session_id
           (Some (record\<lparr>rec_pinned := pinned, rec_archived_at := archived_at\<rparr>)) table)))"

section \<open>The invariant of the turn map\<close>

text \<open>
  Turn ids ascend, and the counter is beyond all of them. Every id on the redo
  stack names a turn that is undone, and no id is there twice.
\<close>

definition turns_wf :: "SessionState \<Rightarrow> bool" where
  "turns_wf s \<longleftrightarrow> btm_ok (st_turns s) \<and> (\<forall>tid \<in> fst ` set (st_turns s). tid < st_next_turn_id s)"

definition redo_wf :: "SessionState \<Rightarrow> bool" where
  "redo_wf s \<longleftrightarrow> distinct (concat (st_redo_stack s)) \<and>
     (\<forall>tid \<in> set (concat (st_redo_stack s)). \<exists>t. (tid, t) \<in> set (st_turns s) \<and> t_undone t)"

lemma turns_wf_empty: "turns_wf SessionState_empty" "redo_wf SessionState_empty"
  by (simp_all add: turns_wf_def redo_wf_def SessionState_empty_def)

lemma turns_wf_cong:
  assumes "map fst (st_turns s') = map fst (st_turns s)" and "st_next_turn_id s' = st_next_turn_id s"
  shows "turns_wf s' = turns_wf s"
  using assms(2) unfolding turns_wf_def btm_ok_def list.set_map [symmetric] assms(1) by simp

lemma turns_wf_update [simp]: "turns_wf (update_turn tid f s) = turns_wf s"
  by (rule turns_wf_cong) (simp_all add: update_turn_def)

lemma start_turn_wf:
  assumes "turns_wf s" and "st_next_turn_id s < st_next_turn_id s + 1"
  shows "turns_wf (snd (start_turn now txt s))"
    and "st_turns (snd (start_turn now txt s)) = st_turns s @ [(st_next_turn_id s, fresh_turn now txt)]"
proof -
  show app: "st_turns (snd (start_turn now txt s)) = st_turns s @ [(st_next_turn_id s, fresh_turn now txt)]"
    using assms(1) by (auto simp: start_turn_def Let_def turns_wf_def intro!: btm_insert_beyond)
  have "btm_ok (st_turns s @ [(st_next_turn_id s, fresh_turn now txt)])"
    using assms(1) by (auto simp: turns_wf_def btm_ok_def sorted_wrt_append)
  then show "turns_wf (snd (start_turn now txt s))"
    using assms app by (auto simp: turns_wf_def start_turn_def Let_def intro: order_less_trans)
qed

section \<open>Undo and redo\<close>

definition is_live_user :: "u32 \<times> Turn \<Rightarrow> bool" where
  "is_live_user = (\<lambda>(_, t). \<not> t_undone t \<and> t_user_text t \<noteq> None)"

lemma undo_target_Some:
  assumes "undo_target turns = Some target"
  obtains xs t ys where "turns = xs @ (target, t) # ys" "is_live_user (target, t)"
    "\<forall>kt \<in> set ys. \<not> is_live_user kt"
proof -
  obtain kt where f: "List.find is_live_user (rev turns) = Some kt" and k: "fst kt = target"
    using assms by (auto simp: undo_target_def is_live_user_def)
  obtain i where i: "i < length (rev turns)" "is_live_user (rev turns ! i)" "kt = rev turns ! i"
      and first: "\<forall>j<i. \<not> is_live_user (rev turns ! j)"
    using f by (auto simp: find_Some_iff)
  let ?xs = "take i (rev turns)" and ?ys = "drop (Suc i) (rev turns)"
  have "rev turns = ?xs @ kt # ?ys" using i by (simp add: id_take_nth_drop)
  then have "turns = rev ?ys @ kt # rev ?xs"
    by (metis append.assoc append_Cons append_Nil rev.simps(2) rev_append rev_rev_ident)
  moreover have "\<forall>x \<in> set ?xs. \<not> is_live_user x" using first i by (fastforce simp: in_set_conv_nth)
  ultimately show ?thesis
    using that [of "rev ?ys" "snd kt" "rev ?xs"] i k by (cases kt) auto
qed

lemma undo_target_None: "undo_target turns = None \<longleftrightarrow> (\<forall>kt \<in> set turns. \<not> is_live_user kt)"
  by (fastforce simp: undo_target_def find_None_iff is_live_user_def)

definition undone_ids :: "u32 \<Rightarrow> turn_map \<Rightarrow> u32 list" where
  "undone_ids target turns = map fst (filter (\<lambda>(tid, t). target \<le> tid \<and> \<not> t_undone t) turns)"

definition undo_map :: "u32 \<Rightarrow> turn_map \<Rightarrow> turn_map" where
  "undo_map target turns =
     map (\<lambda>(tid, t). (tid, if target \<le> tid \<and> \<not> t_undone t then mark_undone True t else t)) turns"

lemma undo_turns_eq:
  "undo_turns s = (case undo_target (st_turns s) of
     None \<Rightarrow> (None, s)
   | Some target \<Rightarrow> (Some (undone_ids target (st_turns s)),
       s\<lparr>st_turns := undo_map target (st_turns s),
         st_redo_stack := st_redo_stack s @ [undone_ids target (st_turns s)],
         st_config := (st_config s)
           \<lparr>cfg_last_prompt_tokens := last_prompt_of (undo_map target (st_turns s))\<rparr>\<rparr>))"
  by (simp add: undo_turns_def Let_def undone_ids_def undo_map_def live_last_prompt_tokens_def
      split: option.split)

lemma undo_map_keys [simp]: "map fst (undo_map target turns) = map fst turns"
  by (simp add: undo_map_def case_prod_beta comp_def)

lemma mark_undone_simps [simp]:
  "mark_undone b (mark_undone c t) = mark_undone b t"
  "t_undone (mark_undone b t) = b"
  "t_undone t = b \<Longrightarrow> mark_undone b t = t"
  by (simp_all add: mark_undone_def)

text \<open>Restoring a list of ids is one pass over the map.\<close>

definition revive :: "u32 set \<Rightarrow> turn_map \<Rightarrow> turn_map" where
  "revive ids turns = map (\<lambda>(tid, t). (tid, if tid \<in> ids then mark_undone False t else t)) turns"

lemma revive_keys [simp]: "map fst (revive ids turns) = map fst turns"
  by (simp add: revive_def case_prod_beta comp_def)

lemma btm_update_revive:
  "distinct (map fst turns) \<Longrightarrow> btm_update tid (mark_undone False) turns = revive {tid} turns"
  by (induction turns) (force simp: revive_def intro!: map_idI [symmetric])+

lemma revive_revive: "revive A (revive B turns) = revive (A \<union> B) turns"
  by (simp add: revive_def case_prod_beta comp_def cong: map_cong)

lemma revive_empty [simp]: "revive {} turns = turns"
  by (simp add: revive_def)

lemma restore_turns_map:
  "distinct (map fst turns) \<Longrightarrow> fst (restore_turns ids turns restored) = revive (set ids \<inter> fst ` set turns) turns"
proof (induction ids arbitrary: turns restored)
  case (Cons tid ids)
  show ?case
  proof (cases "map_of turns tid")
    case None
    then have "set (tid # ids) \<inter> fst ` set turns = set ids \<inter> fst ` set turns"
      by (auto simp: map_of_eq_None_iff)
    then show ?thesis using Cons None by simp
  next
    case (Some t)
    then have mem: "tid \<in> fst ` set turns" by (metis domI dom_map_of_conv_image_fst)
    have keys: "fst ` set (revive {tid} turns) = fst ` set turns"
      by (metis list.set_map revive_keys)
    have "distinct (map fst (revive {tid} turns))" using Cons.prems by simp
    then show ?thesis
      using Cons.IH [of "revive {tid} turns"] Some Cons.prems keys mem
      by (simp add: btm_update_revive revive_revive Int_insert_left insert_commute)
  qed
qed simp

lemma undone_ids_iff:
  assumes "distinct (map fst turns)" and "(tid, t) \<in> set turns"
  shows "tid \<in> set (undone_ids target turns) \<longleftrightarrow> target \<le> tid \<and> \<not> t_undone t"
proof -
  have once: "t' = t" if "(tid, t') \<in> set turns" for t'
    using assms that by (metis map_of_eq_Some_iff option.inject)
  show ?thesis
  proof
    assume "tid \<in> set (undone_ids target turns)"
    then obtain t' where "(tid, t') \<in> set turns" "target \<le> tid" "\<not> t_undone t'"
      by (auto simp: undone_ids_def)
    then show "target \<le> tid \<and> \<not> t_undone t" using once by blast
  next
    assume "target \<le> tid \<and> \<not> t_undone t"
    then have "(tid, t) \<in> set (filter (\<lambda>(tid, t). target \<le> tid \<and> \<not> t_undone t) turns)"
      using assms(2) by simp
    then have "fst (tid, t) \<in> fst ` set (filter (\<lambda>(tid, t). target \<le> tid \<and> \<not> t_undone t) turns)"
      by (rule imageI)
    then show "tid \<in> set (undone_ids target turns)"
      by (simp only: undone_ids_def list.set_map fst_conv)
  qed
qed

lemma undo_map_revive:
  assumes "distinct (map fst turns)"
  shows "revive (set (undone_ids target turns)) (undo_map target turns) = turns"
  unfolding revive_def undo_map_def map_map
  by (rule map_idI) (auto simp: undone_ids_iff [OF assms])

lemma undone_ids_keys: "set (undone_ids target turns) \<subseteq> fst ` set turns"
  by (auto simp: undone_ids_def image_iff)

lemma redo_undo:
  assumes wf: "btm_ok (st_turns s)" and undo: "undo_turns s = (Some ids, s1)"
  shows "\<exists>restored. redo_turns s1 = (Some restored, s\<lparr>st_config := (st_config s)
    \<lparr>cfg_last_prompt_tokens := live_last_prompt_tokens s\<rparr>\<rparr>)"
proof -
  obtain target where t: "undo_target (st_turns s) = Some target"
    using undo by (auto simp: undo_turns_eq split: option.splits)
  let ?T = "st_turns s" and ?U = "undo_map target (st_turns s)"
  have ids: "ids = undone_ids target ?T" and s1: "s1 = s\<lparr>st_turns := ?U,
      st_redo_stack := st_redo_stack s @ [ids],
      st_config := (st_config s)\<lparr>cfg_last_prompt_tokens := last_prompt_of ?U\<rparr>\<rparr>"
    using undo t by (auto simp: undo_turns_eq)
  have d: "distinct (map fst ?T)" using wf by (rule btm_ok_distinct)
  have keys: "fst ` set ?U = fst ` set ?T" by (metis list.set_map undo_map_keys)
  have "fst (restore_turns ids ?U []) = revive (set ids \<inter> fst ` set ?T) ?U"
    using d keys by (simp add: restore_turns_map)
  also have "set ids \<inter> fst ` set ?T = set ids" using undone_ids_keys [of target ?T] ids by auto
  finally have home: "fst (restore_turns ids ?U []) = ?T"
    using undo_map_revive [OF d] ids by simp
  obtain restored where r: "restore_turns ids ?U [] = (?T, restored)"
    using home by (metis prod.collapse)
  show ?thesis
    by (intro exI [of _ restored]) (simp add: redo_turns_def s1 r Let_def live_last_prompt_tokens_def)
qed

lemma undo_keeps_wf: "turns_wf s \<Longrightarrow> turns_wf (snd (undo_turns s))"
  by (subst turns_wf_cong [of _ s]) (simp_all add: undo_turns_eq split: option.split)

definition live_count :: "SessionState \<Rightarrow> nat" where
  "live_count s = length (filter (\<lambda>(_, t). \<not> t_undone t) (st_turns s))"

lemma filter_live_undo_map:
  "filter (\<lambda>(_, t). \<not> t_undone t) (undo_map target turns) =
     filter (\<lambda>(tid, t). \<not> t_undone t \<and> tid < target) turns"
  by (induction turns) (auto simp: undo_map_def not_le split: if_splits)

text \<open>Several undos in a row, and as many redos.\<close>

fun undo_times :: "nat \<Rightarrow> SessionState \<Rightarrow> SessionState option" where
  "undo_times 0 s = Some s"
| "undo_times (Suc n) s = (case undo_turns s of
     (None, _) \<Rightarrow> None | (Some _, s') \<Rightarrow> undo_times n s')"

fun redo_times :: "nat \<Rightarrow> SessionState \<Rightarrow> SessionState option" where
  "redo_times 0 s = Some s"
| "redo_times (Suc n) s = (case redo_turns s of
     (None, _) \<Rightarrow> None | (Some _, s') \<Rightarrow> redo_times n s')"

definition with_prompt :: "u32 option \<Rightarrow> SessionState \<Rightarrow> SessionState" where
  "with_prompt p s = s\<lparr>st_config := (st_config s)\<lparr>cfg_last_prompt_tokens := p\<rparr>\<rparr>"

lemma redo_times_snoc:
  "redo_times n s = Some s' \<Longrightarrow> redo_turns s' = (Some r, s'') \<Longrightarrow> redo_times (Suc n) s = Some s''"
proof (induction n arbitrary: s)
  case (Suc n)
  obtain r1 s1 where s1: "redo_turns s = (Some r1, s1)" "redo_times n s1 = Some s'"
    using Suc.prems(1) by (auto split: prod.splits option.splits)
  have "redo_times (Suc n) s1 = Some s''" using Suc.IH [OF s1(2) Suc.prems(2)] .
  then show ?case by (subst redo_times.simps(2)) (simp only: s1 prod.case option.case)
qed simp

lemma live_last_with_prompt [simp]:
  "live_last_prompt_tokens (with_prompt p s) = live_last_prompt_tokens s"
  "st_turns (with_prompt p s) = st_turns s"
  "with_prompt p (with_prompt q s) = with_prompt p s"
  by (simp_all add: with_prompt_def live_last_prompt_tokens_def)

lemma redo_with_prompt: "redo_turns s = (Some r, s') \<Longrightarrow> redo_turns (with_prompt p s) = (Some r, s')"
  by (auto simp: redo_turns_def with_prompt_def Let_def live_last_prompt_tokens_def
      split: if_splits prod.splits)

lemma undo_redo_times:
  "turns_wf s \<Longrightarrow> undo_times n s = Some s' \<Longrightarrow> 0 < n \<Longrightarrow>
     redo_times n s' = Some (with_prompt (live_last_prompt_tokens s) s)"
proof (induction n arbitrary: s)
  case (Suc n)
  obtain ids s1 where u: "undo_turns s = (Some ids, s1)" and rest: "undo_times n s1 = Some s'"
    using Suc.prems(2) by (auto split: prod.splits option.splits)
  have wf1: "turns_wf s1" using undo_keeps_wf [OF Suc.prems(1)] u by simp
  obtain r where redo: "redo_turns s1 = (Some r, with_prompt (live_last_prompt_tokens s) s)"
    using redo_undo [OF _ u] Suc.prems(1) by (auto simp: turns_wf_def with_prompt_def)
  show ?case
  proof (cases "n = 0")
    case True
    then show ?thesis using rest redo by simp
  next
    case False
    then have "redo_times n s' = Some (with_prompt (live_last_prompt_tokens s1) s1)"
      using Suc.IH [OF wf1 rest] by simp
    then show ?thesis by (rule redo_times_snoc) (rule redo_with_prompt [OF redo])
  qed
qed simp

section \<open>Tool results\<close>

lemma update_first_map_id:
  "(\<And>x. g (f x) = g x) \<Longrightarrow> map g (update_first P f xs) = map g xs"
  by (induction xs) auto

lemma update_first_set: "x \<in> set (update_first P f xs) \<Longrightarrow> x \<in> set xs \<or> (\<exists>y \<in> set xs. P y \<and> x = f y)"
  by (induction xs) (auto split: if_splits)

text \<open>Running the tools of a turn: results come back one by one, in any order.\<close>

definition apply_results :: "u32 \<Rightarrow> (string \<times> string \<times> ToolOutput) list \<Rightarrow> SessionState \<Rightarrow> SessionState" where
  "apply_results turn_id outs s =
     fold (\<lambda>(call_id, name, output). update_tool_result turn_id call_id name output) outs s"

fun apply_to_results :: "(string \<times> string \<times> ToolOutput) list \<Rightarrow> ToolResultRecord list \<Rightarrow> ToolResultRecord list" where
  "apply_to_results [] rs = rs"
| "apply_to_results ((call_id, name, output) # outs) rs =
     apply_to_results outs (update_first (\<lambda>r. tr_call_id r = call_id) (fill_result name output) rs)"

lemma map_of_update_turn:
  "map_of (st_turns (update_turn tid f s)) tid' =
     (if tid' = tid then map_option f (map_of (st_turns s) tid) else map_of (st_turns s) tid')"
  by (simp add: update_turn_def map_of_btm_update)

lemma apply_results_turn:
  "map_of (st_turns s) tid = Some t \<Longrightarrow>
     map_of (st_turns (apply_results tid outs s)) tid =
       Some (t\<lparr>t_tool_results := apply_to_results outs (t_tool_results t)\<rparr>)"
proof (induction outs arbitrary: s t)
  case (Cons out outs)
  obtain c n out' where o: "out = (c, n, out')" by (cases out)
  let ?s = "update_tool_result tid c n out' s"
  let ?t = "t\<lparr>t_tool_results := update_first (\<lambda>r. tr_call_id r = c) (fill_result n out') (t_tool_results t)\<rparr>"
  have "map_of (st_turns ?s) tid = Some ?t"
    using Cons.prems by (simp add: update_tool_result_def map_of_update_turn)
  from Cons.IH [OF this] show ?case by (simp add: apply_results_def o)
qed (simp add: apply_results_def)

lemma apply_to_results_ids: "map tr_call_id (apply_to_results outs rs) = map tr_call_id rs"
  by (induction outs rs rule: apply_to_results.induct)
     (simp_all add: update_first_map_id fill_result_def)

lemma mark_cancelled_id [simp]: "tr_call_id (mark_cancelled executed r) = tr_call_id r"
  by (simp add: mark_cancelled_def)

lemma seed_ids:
  "length calls = length descs \<Longrightarrow>
     map tr_call_id (map (\<lambda>(tc, desc). seed_result tc desc) (zip calls descs)) = map tc_call_id calls"
  by (induction calls descs rule: list_induct2) (simp_all add: seed_result_def)

section \<open>Properties\<close>

text \<open>
  C33. Redo is the exact inverse of undo, however many are stacked: after any
  number of successful undos, as many redos all succeed and give back the whole
  session state, with the current context size recomputed from the live turns.
\<close>

theorem redo_inverts_undo:
  assumes "turns_wf s" and "undo_times (Suc n) s = Some s'"
    and "cfg_last_prompt_tokens (st_config s) = live_last_prompt_tokens s"
  shows "redo_times (Suc n) s' = Some s"
proof -
  have "with_prompt (live_last_prompt_tokens s) s = s"
    using assms(3) by (simp add: with_prompt_def flip: assms(3))
  then show ?thesis using undo_redo_times [OF assms(1,2)] by simp
qed

definition two_turns :: SessionState where
  "two_turns = snd (start_turn 7 None (snd (start_turn 5 (Some ''hi'') SessionState_empty)))"

lemma two_turns_turns: "st_turns two_turns = [(0, fresh_turn 5 (Some ''hi'')), (1, fresh_turn 7 None)]"
  by (simp add: two_turns_def start_turn_def SessionState_empty_def Let_def)

theorem redo_inverts_undo_witness:
  "\<exists>s'. undo_times 1 two_turns = Some s' \<and> map (t_undone \<circ> snd) (st_turns s') = [True, True] \<and>
     redo_times 1 s' = Some two_turns"
proof -
  have tgt: "undo_target (st_turns two_turns) = Some 0"
    by (simp add: two_turns_turns undo_target_def fresh_turn_def)
  obtain s' where s': "undo_times (Suc 0) two_turns = Some s'"
    by (simp add: undo_turns_eq tgt)
  then have t: "st_turns s' = undo_map 0 (st_turns two_turns)" by (auto simp: undo_turns_eq tgt)
  have wf: "turns_wf two_turns"
    by (simp add: turns_wf_def two_turns_turns btm_ok_def)
       (simp add: two_turns_def start_turn_def SessionState_empty_def Let_def)
  have "cfg_last_prompt_tokens (st_config two_turns) = live_last_prompt_tokens two_turns"
    by (simp add: live_last_prompt_tokens_def last_prompt_of_def two_turns_turns fresh_turn_def)
       (simp add: two_turns_def start_turn_def SessionState_empty_def SessionConfig_default_def Let_def)
  from redo_inverts_undo [OF wf s' this] have "redo_times (Suc 0) s' = Some two_turns" .
  moreover have "map (t_undone \<circ> snd) (st_turns s') = [True, True]"
    by (simp add: t two_turns_turns undo_map_def mark_undone_def fresh_turn_def)
  ultimately show ?thesis using s' by (intro exI [of _ s']) simp
qed

text \<open>
  An undo takes back exactly the last exchange: it succeeds if and only if a
  live turn holds user text, it marks exactly the live turns from that user turn
  on, leaves every earlier turn as it was, and strictly reduces the number of
  live turns.
\<close>

theorem undo_takes_back_last_exchange:
  assumes "turns_wf s"
  shows "(case undo_turns s of
      (None, s') \<Rightarrow> s' = s \<and> (\<forall>kt \<in> set (st_turns s). \<not> is_live_user kt)
    | (Some ids, s') \<Rightarrow> (\<exists>target t. (target, t) \<in> set (st_turns s) \<and> is_live_user (target, t) \<and>
        (\<forall>kt \<in> set (st_turns s). target < fst kt \<longrightarrow> \<not> is_live_user kt) \<and>
        ids = map fst (filter (\<lambda>(tid, t). target \<le> tid \<and> \<not> t_undone t) (st_turns s)) \<and>
        filter (\<lambda>(_, t). \<not> t_undone t) (st_turns s') =
          filter (\<lambda>(tid, t). \<not> t_undone t \<and> tid < target) (st_turns s) \<and>
        live_count s' < live_count s))"
proof (cases "undo_target (st_turns s)")
  case None
  then show ?thesis using undo_target_None [THEN iffD1, OF None] by (simp add: undo_turns_eq None)
next
  case (Some target)
  obtain xs t ys where T: "st_turns s = xs @ (target, t) # ys" "is_live_user (target, t)"
      "\<forall>kt \<in> set ys. \<not> is_live_user kt"
    using undo_target_Some [OF Some] .
  have ord: "\<forall>k \<in> fst ` set xs. k < target" "\<forall>k \<in> fst ` set ys. target < k"
    using assms by (auto simp: turns_wf_def btm_ok_def T(1) sorted_wrt_append)
  have beyond: "\<forall>kt \<in> set (st_turns s). target < fst kt \<longrightarrow> \<not> is_live_user kt"
    using T(3) ord by (auto simp: T(1) dest: order_less_asym)
  let ?live = "\<lambda>(_ :: u32, t). \<not> t_undone t"
  have "length (filter (\<lambda>(tid, t). \<not> t_undone t \<and> tid < target) (st_turns s)) <
      length (filter ?live (st_turns s))"
  proof -
    have "filter (\<lambda>(tid, t). \<not> t_undone t \<and> tid < target) ys = []"
      using ord(2) by (fastforce simp: filter_empty_conv dest: order_less_asym)
    moreover have "length (filter (\<lambda>(tid, t). \<not> t_undone t \<and> tid < target) xs) \<le> length (filter ?live xs)"
      by (induction xs) auto
    ultimately show ?thesis using T(2) by (simp add: T(1) is_live_user_def)
  qed
  then show ?thesis
    using T beyond Some
    by (auto simp: undo_turns_eq undone_ids_def filter_live_undo_map live_count_def
        intro!: exI [of _ target] exI [of _ t])
qed

theorem undo_takes_back_last_exchange_witness:
  "fst (undo_turns two_turns) = Some [0, 1] \<and> live_count (snd (undo_turns two_turns)) < live_count two_turns"
proof -
  have wf: "turns_wf two_turns"
    by (simp add: turns_wf_def two_turns_turns btm_ok_def)
       (simp add: two_turns_def start_turn_def SessionState_empty_def Let_def)
  have "undo_target (st_turns two_turns) = Some 0"
    by (simp add: two_turns_turns undo_target_def fresh_turn_def)
  then have "fst (undo_turns two_turns) = Some [0, 1]"
    by (simp add: undo_turns_eq undone_ids_def two_turns_turns fresh_turn_def)
  then show ?thesis
    using undo_takes_back_last_exchange [OF wf] by (auto split: prod.splits option.splits)
qed

text \<open>
  A new turn gets an id no turn of the session has or had: the ids stay in
  ascending order with the new turn last, all earlier turns are untouched, and
  fresh user text makes the undone branch unreachable for redo.
\<close>

theorem start_turn_fresh:
  assumes "turns_wf s" and "st_next_turn_id s < st_next_turn_id s + 1"
    and "start_turn now utxt s = ((tid, turn), s')"
  shows "tid \<notin> fst ` set (st_turns s) \<and> st_turns s' = st_turns s @ [(tid, turn)] \<and> turns_wf s' \<and>
    tid < st_next_turn_id s' \<and>
    st_redo_stack s' = (if utxt = None then st_redo_stack s else [])"
proof -
  have tid: "tid = st_next_turn_id s" "turn = fresh_turn now utxt" "s' = snd (start_turn now utxt s)"
    using assms(3) by (auto simp: start_turn_def Let_def)
  have "st_next_turn_id s' = st_next_turn_id s + 1"
      "st_redo_stack s' = (if utxt = None then st_redo_stack s else [])"
    by (auto simp: tid(3) start_turn_def Let_def)
  moreover have "tid \<notin> fst ` set (st_turns s)" using assms(1) tid(1) by (auto simp: turns_wf_def)
  ultimately show ?thesis
    using start_turn_wf [OF assms(1,2), of now utxt] assms(2) by (auto simp: tid)
qed

theorem start_turn_fresh_witness:
  "turns_wf (snd (start_turn 9 (Some ''x'') SessionState_empty)) \<and>
   fst ` set (st_turns (snd (start_turn 9 (Some ''x'') SessionState_empty))) = {0}"
proof -
  let ?r = "start_turn 9 (Some ''x'') SessionState_empty"
  have r: "?r = ((fst (fst ?r), snd (fst ?r)), snd ?r)" by simp
  have "st_next_turn_id SessionState_empty < st_next_turn_id SessionState_empty + 1"
    by (simp add: SessionState_empty_def)
  from start_turn_fresh [OF turns_wf_empty(1) this r] show ?thesis
    by (simp add: start_turn_def SessionState_empty_def Let_def)
qed

text \<open>
  The turn a client is shown carries no image bytes and no reasoning payload;
  everything a client displays (texts, tool calls, results, image metadata,
  token usage) is unchanged, and showing it twice changes nothing more. Undo
  state and the current context size can be computed from it alike.
\<close>

theorem turn_for_client_strips_payload:
  "(\<forall>r \<in> set (t_tool_results (turn_for_client t)). \<forall>img. tr_image r = Some img \<longrightarrow> ir_data img = []) \<and>
   (\<forall>i \<in> set (t_displayed_images (turn_for_client t)). di_data i = []) \<and>
   t_reasoning_artifact (turn_for_client t) = None \<and>
   map tr_content (t_tool_results (turn_for_client t)) = map tr_content (t_tool_results t) \<and>
   map di_metadata (t_displayed_images (turn_for_client t)) = map di_metadata (t_displayed_images t) \<and>
   turn_for_client (turn_for_client t) = turn_for_client t \<and>
   last_prompt_of (turns_for_client turns) = last_prompt_of turns"
proof -
  have "turn_for_client (turn_for_client t) = turn_for_client t"
    by (simp add: turn_for_client_def result_for_client_def image_for_client_def comp_def
        option.map_comp option.map_ident)
  moreover have "last_prompt_of (turns_for_client turns) = last_prompt_of turns"
  proof -
    have find: "List.find (\<lambda>t. \<not> t_undone t \<and> t_token_usage t \<noteq> None) (map turn_for_client ts) =
        map_option turn_for_client (List.find (\<lambda>t. \<not> t_undone t \<and> t_token_usage t \<noteq> None) ts)" for ts
      by (induction ts) (simp_all add: turn_for_client_def)
    have "rev (map snd (turns_for_client turns)) = map turn_for_client (rev (map snd turns))"
      by (simp add: turns_for_client_def case_prod_beta comp_def rev_map)
    then have "last_prompt_of (turns_for_client turns) =
        (case map_option turn_for_client (List.find (\<lambda>t. \<not> t_undone t \<and> t_token_usage t \<noteq> None)
            (rev (map snd turns))) of
           None \<Rightarrow> None | Some turn \<Rightarrow> map_option input_tokens (t_token_usage turn))"
      by (simp only: last_prompt_of_def find)
    then show ?thesis by (simp add: last_prompt_of_def turn_for_client_def split: option.split)
  qed
  ultimately show ?thesis
    by (auto simp: turn_for_client_def result_for_client_def image_for_client_def comp_def)
qed

theorem turn_for_client_strips_payload_witness:
  "map di_data (t_displayed_images (turn_for_client (fresh_turn 0 None\<lparr>t_displayed_images :=
     [\<lparr>di_metadata = \<lparr>im_mime_type = ''image/png'', im_width = 1, im_height = 1, im_byte_len = 2,
        im_alt = None\<rparr>, di_data = [1, 2], di_tool_call_id = None\<rparr>]\<rparr>))) = [[]]"
  using turn_for_client_strips_payload [of "fresh_turn 0 None\<lparr>t_displayed_images :=
     [\<lparr>di_metadata = \<lparr>im_mime_type = ''image/png'', im_width = 1, im_height = 1, im_byte_len = 2,
        im_alt = None\<rparr>, di_data = [1, 2], di_tool_call_id = None\<rparr>]\<rparr>" "[]"]
  by (simp add: turn_for_client_def)

text \<open>
  Tool results keep the order of the calls however the tools finish: after
  seeding a turn from its calls, filling in results in any order and marking the
  ones that never ran, the results answer exactly the calls, one each and in the
  model's order, and a result that was not executed is an error.
\<close>

theorem tool_results_in_call_order:
  assumes turn: "map_of (st_turns s) tid = Some t"
    and len: "length calls = length descs"
    and s': "s' = mark_unexecuted_tool_results tid executed
               (apply_results tid outs (seed_tool_results tid calls descs s))"
  shows "\<exists>t'. map_of (st_turns s') tid = Some t' \<and>
    map tr_call_id (t_tool_results t') = map tc_call_id calls \<and>
    (\<forall>r \<in> set (t_tool_results t'). tr_call_id r \<notin> set executed \<longrightarrow> tr_is_error r)"
proof -
  let ?seed = "map (\<lambda>(tc, desc). seed_result tc desc) (zip calls descs)"
  have "map_of (st_turns (seed_tool_results tid calls descs s)) tid = Some (t\<lparr>t_tool_results := ?seed\<rparr>)"
    using turn by (simp add: seed_tool_results_def map_of_update_turn)
  from apply_results_turn [OF this, of outs]
  have "map_of (st_turns s') tid = Some (t\<lparr>t_tool_results :=
      map (mark_cancelled executed) (apply_to_results outs ?seed)\<rparr>)"
    by (simp add: s' mark_unexecuted_tool_results_def map_of_update_turn)
  moreover have "map tr_call_id (map (mark_cancelled executed) (apply_to_results outs ?seed)) =
      map tc_call_id calls"
    using apply_to_results_ids [of outs ?seed] seed_ids [OF len] by (simp add: comp_def)
  moreover have "tr_is_error (mark_cancelled executed r)" if "tr_call_id r \<notin> set executed" for r
    using that by (simp add: mark_cancelled_def)
  ultimately show ?thesis by auto
qed

theorem tool_results_in_call_order_witness:
  "\<exists>t'. map_of (st_turns (mark_unexecuted_tool_results 0 [''b'']
      (apply_results 0 [(''b'', ''shell'', \<lparr>out_content = ''ok'', out_is_error = False,
          out_invocation_description = [], out_image_ref = None, out_result_json = None\<rparr>)]
        (seed_tool_results 0
          [\<lparr>tc_call_id = ''a'', tc_name = ''read'', tc_arguments_json = [], tc_caller = None\<rparr>,
           \<lparr>tc_call_id = ''b'', tc_name = ''shell'', tc_arguments_json = [], tc_caller = None\<rparr>]
          [''d1'', ''d2''] two_turns)))) 0 = Some t' \<and>
    map tr_call_id (t_tool_results t') = [''a'', ''b'']"
  using tool_results_in_call_order [of two_turns 0 "fresh_turn 5 (Some ''hi'')"
      "[\<lparr>tc_call_id = ''a'', tc_name = ''read'', tc_arguments_json = [], tc_caller = None\<rparr>,
        \<lparr>tc_call_id = ''b'', tc_name = ''shell'', tc_arguments_json = [], tc_caller = None\<rparr>]"
      "[''d1'', ''d2'']", OF _ _ refl, of "[''b'']"
      "[(''b'', ''shell'', \<lparr>out_content = ''ok'', out_is_error = False,
          out_invocation_description = [], out_image_ref = None, out_result_json = None\<rparr>)]"]
  by (auto simp: two_turns_turns)

text \<open>
  The flags the daemon owns survive every write of a session record: storing
  whatever record a session thread produces leaves the pinned and archived flags
  of the stored row as they were, only the flag update changes them, and neither
  touches another session's row.
\<close>

theorem write_session_keeps_flags:
  assumes "map_of table sid = Some (Some old)"
  shows "(\<exists>table'. write_session None sid record table = Inr table' \<and>
      map_of table' sid = Some (Some (record\<lparr>rec_pinned := rec_pinned old, rec_archived_at := rec_archived_at old\<rparr>)) \<and>
      (\<forall>other. other \<noteq> sid \<longrightarrow> map_of table' other = map_of table other)) \<and>
    (\<exists>table'. update_session_flags None sid pinned archived table = Inr table' \<and>
      map_of table' sid = Some (Some (old\<lparr>rec_pinned := pinned, rec_archived_at := archived\<rparr>)) \<and>
      (\<forall>other. other \<noteq> sid \<longrightarrow> map_of table' other = map_of table other))"
  using assms by (auto simp: write_session_def update_session_flags_def map_of_btm_insert Let_def)

theorem write_session_keeps_flags_witness:
  "\<exists>table'. write_session None 4 (SessionRecord_from_state two_turns)
     [(4, Some ((SessionRecord_from_state SessionState_empty)\<lparr>rec_pinned := True\<rparr>))] = Inr table' \<and>
     map_option (map_option rec_pinned) (map_of table' 4) = Some (Some True)"
proof -
  let ?old = "(SessionRecord_from_state SessionState_empty)\<lparr>rec_pinned := True\<rparr>"
  have m: "map_of [(4, Some ?old)] (4 :: u64) = Some (Some ?old)" by simp
  obtain table' where w: "write_session None 4 (SessionRecord_from_state two_turns) [(4, Some ?old)] = Inr table'"
    by (simp add: write_session_def)
  from write_session_keeps_flags [OF m, of "SessionRecord_from_state two_turns"] w
  have "map_option (map_option rec_pinned) (map_of table' 4) = Some (Some True)" by simp
  then show ?thesis using w by blast
qed

end
