(* ===== verification/Session_Command.thy ===== *)
theory Session_Command
  imports Session_State
begin

text \<open>
  What the threads of the daemon say to each other: the commands a session's
  control thread receives (\<open>src/choreo-daemon/src/sessions/command.rs\<close>), the
  daemon commands a session sends (\<open>src/choreo-daemon/src/daemon.rs\<close>), and the
  daemon's handle to a session thread.

  A one-shot reply channel is named by its identity; what is sent on it is
  recorded by the thread that answers.
\<close>

type_synonym reply_chan = nat

record ChildResult =
  cr_output :: string
  cr_is_error :: bool

record SessionMcpOverlay =
  ov_tools :: ProjectToolSet
  ov_shadowed_groups :: "string list"
  ov_project_root :: "string option"
  ov_project_trusted :: bool
  ov_ignored_project_servers :: "string list"
  ov_statuses :: "McpServerStatus list"

datatype SessionCommand =
    SC_RunInput bytes "ReplyTarget option"
  | SC_RunChildInput "string option" reply_chan
  | SC_Cancel u64
  | SC_SetModel string "ReplyTarget option"
  | SC_StatusChanged SessionStatus
  | SC_Attach ClientId SubscriberSink
  | SC_Detach ClientId
  | SC_RemoveSubscriber ClientId
  | SC_GetSummary reply_chan
  | SC_RequestFinished u64 SessionSnapshot
  | SC_Broadcast DaemonMessageType
  | SC_SyncAccumulatedUsage TokenUsage "u32 option"
  | SC_SetTitle string "ReplyTarget option"
  | SC_SetWorkingDir string reply_chan "ReplyTarget option"
  | SC_SetMcpOverlay SessionMcpOverlay
  | SC_LoadTools "string list" reply_chan
  | SC_UnloadTools "string list" reply_chan
  | SC_SetAccount string "ReplyTarget option"
  | SC_DropProvider
  | SC_SetProviderSlug "string option"
  | SC_SetReasoningEffort string "ReplyTarget option"
  | SC_GetReasoningEffort reply_chan
  | SC_GetState reply_chan
  | SC_Undo "ReplyTarget option"
  | SC_Redo "ReplyTarget option"
  | SC_Shutdown

text \<open>The commands of the daemon's queue that a session thread or a background delete posts.\<close>

datatype DaemonCommand =
    DC_BroadcastActivity "u64 option" DaemonMessage
  | DC_EvictClient ClientId
  | DC_EvictLargestLagging
  | DC_UpdateMetadata u64 SessionMetadata
  | DC_BroadcastSessionStatus u64 SessionStatus
  | DC_TrackSessionSubscription ClientId u64
  | DC_UntrackSessionSubscription ClientId u64
  | DC_McpEnsureSession u64 bool
  | DC_SessionExited u64
  | DC_SessionDeleteFinalized u64

text \<open>
  The daemon's end of a session's command channel: a send appends to the mailbox
  while the session thread holds the receiver, and is lost after that.
\<close>

record ActiveSessionEntry =
  ase_mailbox :: "SessionCommand list"
  ase_rx_alive :: bool

definition cmd_send :: "SessionCommand \<Rightarrow> ActiveSessionEntry \<Rightarrow> ActiveSessionEntry" where
  "cmd_send cmd entry =
     (if ase_rx_alive entry then entry\<lparr>ase_mailbox := ase_mailbox entry @ [cmd]\<rparr> else entry)"

lemma cmd_send_simps [simp]:
  "ase_rx_alive (cmd_send cmd entry) = ase_rx_alive entry"
  "ase_mailbox (cmd_send cmd entry) = ase_mailbox entry @ (if ase_rx_alive entry then [cmd] else [])"
  by (simp_all add: cmd_send_def)

end
