(* ===== verification/Subscribers.thy ===== *)
theory Subscribers
  imports Session_Command
begin

text \<open>
  The daemon's client registry and its buses
  (\<open>src/choreo-daemon/src/daemon/subscriber_handlers.rs\<close>, \<open>ClientState\<close> and the
  fields of \<open>DaemonState\<close> they use in \<open>daemon.rs\<close>): registration, the activity
  and summary buses, session status events, eviction of lagging clients, the
  shutdown notice, and the bookkeeping of session subscriptions.

  The daemon runs its command loop on one thread, so a handler is a function of
  the state; the channels are in the shared store \<open>ds_hub\<close>.
\<close>

section \<open>State (daemon.rs)\<close>

record ClientState =
  cl_writer :: SubscriberSink
  cl_wants_summary :: bool
  cl_wants_activity :: bool
  cl_sessions :: "u64 list"

definition ClientState_new :: "SubscriberSink \<Rightarrow> ClientState" where
  "ClientState_new writer =
     \<lparr>cl_writer = writer, cl_wants_summary = False, cl_wants_activity = False, cl_sessions = []\<rparr>"

record DaemonState =
  ds_clients :: "(ClientId \<times> ClientState) list"
  ds_active_sessions :: "(u64 \<times> ActiveSessionEntry) list"
  ds_session_metadata :: "(u64 \<times> SessionMetadata) list"
  ds_lag_limits :: LagLimits
  ds_locked :: bool
  ds_keystore_bound :: bool
  ds_hub :: hub

section \<open>The origin contract\<close>

definition violates_broadcast_origin_contract :: "u64 option \<Rightarrow> DaemonMessage \<Rightarrow> bool" where
  "violates_broadcast_origin_contract session_id msg = (case dmsg_inner msg of
     DM_Session envelope_id _ \<Rightarrow> (case (session_id, envelope_id) of
         (Some origin, Some inner) \<Rightarrow> origin \<noteq> inner
       | (Some _, None) \<Rightarrow> True
       | (None, Some _) \<Rightarrow> True
       | (None, None) \<Rightarrow> False)
   | _ \<Rightarrow> session_id \<noteq> None)"

section \<open>Removing and evicting clients\<close>

definition remove_client :: "ClientId \<Rightarrow> DaemonState \<Rightarrow> DaemonState" where
  "remove_client client_id self = (case map_of (ds_clients self) client_id of
     None \<Rightarrow> self
   | Some client \<Rightarrow>
       self\<lparr>ds_clients := hm_remove client_id (ds_clients self),
            ds_active_sessions :=
              fold (\<lambda>session_id. btm_update session_id (cmd_send (SC_RemoveSubscriber client_id)))
                (cl_sessions client) (ds_active_sessions self)\<rparr>)"

definition handle_client_disconnected :: "ClientId \<Rightarrow> DaemonState \<Rightarrow> DaemonState" where
  "handle_client_disconnected client_id self = remove_client client_id self"

definition handle_evict_client :: "ClientId \<Rightarrow> DaemonState \<Rightarrow> DaemonState" where
  "handle_evict_client client_id self = (case map_of (ds_clients self) client_id of
     None \<Rightarrow> self
   | Some client \<Rightarrow>
       (let (h, _) = send_unchecked (cl_writer client) (DaemonMessage_broadcast DM_Evicted) (ds_hub self)
        in remove_client client_id (self\<lparr>ds_hub := h\<rparr>)))"

text \<open>\<open>Iterator::max_by_key\<close>: of several greatest elements, the last.\<close>

fun max_by_key :: "('a \<Rightarrow> 'b::linorder) \<Rightarrow> 'a list \<Rightarrow> 'a option" where
  "max_by_key key [] = None"
| "max_by_key key (x # xs) =
     Some (fold (\<lambda>y best. if key best > key y then best else y) xs x)"

definition backlog :: "DaemonState \<Rightarrow> ClientState \<Rightarrow> usize" where
  "backlog self client = ch_bytes_in_flight (hub_chan (ds_hub self) (cl_writer client))"

definition handle_evict_largest_lagging :: "DaemonState \<Rightarrow> DaemonState" where
  "handle_evict_largest_lagging self =
     (case max_by_key (\<lambda>(_, client). backlog self client)
             (filter (\<lambda>(_, client). backlog self client > 0) (ds_clients self)) of
        None \<Rightarrow> self
      | Some (client_id, _) \<Rightarrow> handle_evict_client client_id self)"

definition finish_evictions :: "ClientId list \<Rightarrow> bool \<Rightarrow> DaemonState \<Rightarrow> DaemonState" where
  "finish_evictions evict_clients evict_largest self =
     (let self = fold handle_evict_client evict_clients self
      in if evict_largest then handle_evict_largest_lagging self else self)"

section \<open>The buses\<close>

text \<open>One pass over the registry, with the evictions it asks for.\<close>

definition fan_out_clients ::
  "DaemonMessage \<Rightarrow> (ClientId \<Rightarrow> ClientState \<Rightarrow> bool) \<Rightarrow> DaemonState \<Rightarrow> DaemonState" where
  "fan_out_clients msg should_skip self =
     (let (clients, h, evict_clients, evict_largest) =
        fan_out_evicting cl_writer msg (ds_lag_limits self) should_skip (ds_clients self) (ds_hub self)
      in finish_evictions evict_clients evict_largest (self\<lparr>ds_clients := clients, ds_hub := h\<rparr>))"

definition broadcast :: "DaemonMessageType \<Rightarrow> DaemonState \<Rightarrow> DaemonState" where
  "broadcast inner self =
     (let msg = DaemonMessage_broadcast inner;
          self = fan_out_clients msg (\<lambda>_ client. \<not> cl_wants_activity client) self
      in fan_out_clients msg (\<lambda>_ client. \<not> cl_wants_summary client \<or> cl_wants_activity client) self)"

definition handle_broadcast_activity ::
  "u64 option \<Rightarrow> DaemonMessage \<Rightarrow> DaemonState \<Rightarrow> DaemonState" where
  "handle_broadcast_activity session_id msg self =
     fan_out_clients msg (\<lambda>_ client. \<not> cl_wants_activity client \<or>
       (case session_id of None \<Rightarrow> False | Some sid \<Rightarrow> sid \<in> set (cl_sessions client))) self"

definition handle_broadcast_session_status ::
  "u64 \<Rightarrow> SessionStatus \<Rightarrow> DaemonState \<Rightarrow> DaemonState" where
  "handle_broadcast_session_status session_id status self =
     (let self = self\<lparr>ds_session_metadata :=
            btm_update session_id (\<lambda>meta. meta\<lparr>meta_status := status\<rparr>) (ds_session_metadata self)\<rparr>;
          last_modified = (case map_of (ds_session_metadata self) session_id of
             Some meta \<Rightarrow> meta_last_modified meta | None \<Rightarrow> 0);
          msg = DaemonMessage_broadcast
            (DM_Session (Some session_id) (SE_SessionStatusChanged status last_modified))
      in if map_of (ds_session_metadata self) session_id \<noteq> None
         then fan_out_clients msg (\<lambda>_ client. \<not> cl_wants_summary client \<or>
                session_id \<in> set (cl_sessions client) \<or> cl_wants_activity client) self
         else self)"

section \<open>Registration\<close>

definition or_insert_client :: "ClientId \<Rightarrow> SubscriberSink \<Rightarrow> DaemonState \<Rightarrow> ClientState" where
  "or_insert_client client_id writer self = (case map_of (ds_clients self) client_id of
     Some client \<Rightarrow> client | None \<Rightarrow> ClientState_new writer)"

definition put_client :: "ClientId \<Rightarrow> ClientState \<Rightarrow> DaemonState \<Rightarrow> DaemonState" where
  "put_client client_id client self =
     self\<lparr>ds_clients := hm_insert client_id client (ds_clients self)\<rparr>"

definition modify_client ::
  "ClientId \<Rightarrow> (ClientState \<Rightarrow> ClientState) \<Rightarrow> DaemonState \<Rightarrow> DaemonState" where
  "modify_client client_id f self = (case map_of (ds_clients self) client_id of
     Some client \<Rightarrow> put_client client_id (f client) self | None \<Rightarrow> self)"

definition handle_register_summary_subscriber ::
  "ClientId \<Rightarrow> SubscriberSink \<Rightarrow> DaemonState \<Rightarrow> DaemonState" where
  "handle_register_summary_subscriber client_id writer self =
     put_client client_id ((or_insert_client client_id writer self)\<lparr>cl_wants_summary := True\<rparr>) self"

definition handle_unregister_summary_subscriber :: "ClientId \<Rightarrow> DaemonState \<Rightarrow> DaemonState" where
  "handle_unregister_summary_subscriber client_id =
     modify_client client_id (\<lambda>client. client\<lparr>cl_wants_summary := False\<rparr>)"

definition current_keystore_message :: "DaemonState \<Rightarrow> DaemonMessage" where
  "current_keystore_message self =
     DaemonMessage_broadcast (DM_Keystore
       (if \<not> ds_keystore_bound self then KS_Unbound
        else if ds_locked self then KS_Locked else KS_Unlocked))"

text \<open>
  The provider catalog is process-wide state outside the daemon; its current
  content is the argument \<open>providers\<close>.
\<close>

definition handle_register_activity_subscriber ::
  "CatalogProvider list \<Rightarrow> ClientId \<Rightarrow> SubscriberSink \<Rightarrow> DaemonState \<Rightarrow> DaemonState" where
  "handle_register_activity_subscriber providers client_id writer self =
     (let self = put_client client_id
            ((or_insert_client client_id writer self)\<lparr>cl_wants_activity := True\<rparr>) self;
          (h, _) = enqueue writer (DaemonMessage_broadcast (DM_CatalogUpdated providers))
            (ds_lag_limits self) (ds_hub self);
          keystore_msg = current_keystore_message self;
          (h, _) = enqueue writer keystore_msg (ds_lag_limits self) h
      in self\<lparr>ds_hub := h\<rparr>)"

definition handle_unregister_activity_subscriber :: "ClientId \<Rightarrow> DaemonState \<Rightarrow> DaemonState" where
  "handle_unregister_activity_subscriber client_id =
     modify_client client_id (\<lambda>client. client\<lparr>cl_wants_activity := False\<rparr>)"

definition broadcast_keystore_state :: "DaemonState \<Rightarrow> DaemonState" where
  "broadcast_keystore_state self =
     handle_broadcast_activity None (current_keystore_message self) self"

definition broadcast_oauth_relogin_required :: "string \<Rightarrow> DaemonState \<Rightarrow> DaemonState" where
  "broadcast_oauth_relogin_required account self =
     handle_broadcast_activity None (DaemonMessage_broadcast (DM_OAuthReloginRequired account)) self"

definition handle_register_client_writer ::
  "ClientId \<Rightarrow> SubscriberSink \<Rightarrow> DaemonState \<Rightarrow> DaemonState" where
  "handle_register_client_writer client_id writer self =
     (case map_of (ds_clients self) client_id of
        Some entry \<Rightarrow> put_client client_id (entry\<lparr>cl_writer := writer\<rparr>) self
      | None \<Rightarrow> put_client client_id (ClientState_new writer) self)"

section \<open>Shutdown and session bookkeeping\<close>

fun retain_notified ::
  "DaemonMessage \<Rightarrow> (ClientId \<times> ClientState) list \<Rightarrow> hub \<Rightarrow> (ClientId \<times> ClientState) list \<times> hub" where
  "retain_notified msg [] h = ([], h)"
| "retain_notified msg ((client_id, client) # clients) h =
     (case send_unchecked (cl_writer client) msg h of (h1, sent) \<Rightarrow>
        (let (kept, h') = retain_notified msg clients h1
         in (if sent then (client_id, client) # kept else kept, h')))"

definition handle_broadcast_shutting_down :: "DaemonState \<Rightarrow> DaemonState" where
  "handle_broadcast_shutting_down self =
     (let (clients, h) = retain_notified (DaemonMessage_broadcast DM_ShuttingDown)
            (ds_clients self) (ds_hub self)
      in self\<lparr>ds_clients := clients, ds_hub := h\<rparr>)"

definition handle_track_session_subscription :: "ClientId \<Rightarrow> u64 \<Rightarrow> DaemonState \<Rightarrow> DaemonState" where
  "handle_track_session_subscription client_id session_id =
     modify_client client_id (\<lambda>client. client\<lparr>cl_sessions := hs_insert session_id (cl_sessions client)\<rparr>)"

definition handle_untrack_session_subscription :: "ClientId \<Rightarrow> u64 \<Rightarrow> DaemonState \<Rightarrow> DaemonState" where
  "handle_untrack_session_subscription client_id session_id =
     modify_client client_id (\<lambda>client. client\<lparr>cl_sessions := hs_remove session_id (cl_sessions client)\<rparr>)"

section \<open>The registry invariant\<close>

text \<open>A client is registered once, no two clients share a connection, and sets have no repetition.\<close>

definition ds_wf :: "DaemonState \<Rightarrow> bool" where
  "ds_wf self \<longleftrightarrow> hm_ok (ds_clients self) \<and>
     distinct (map (\<lambda>(_, e). cl_writer e) (ds_clients self)) \<and>
     (\<forall>(c, e) \<in> set (ds_clients self). distinct (cl_sessions e))"

abbreviation queue_of :: "DaemonState \<Rightarrow> SubscriberSink \<Rightarrow> DaemonMessage list" where
  "queue_of self s \<equiv> ch_queue (hub_chan (ds_hub self) s)"

abbreviation connected :: "DaemonState \<Rightarrow> SubscriberSink \<Rightarrow> bool" where
  "connected self s \<equiv> ch_rx_alive (hub_chan (ds_hub self) s)"

abbreviation evicted_msg :: DaemonMessage where
  "evicted_msg \<equiv> DaemonMessage_broadcast DM_Evicted"

lemma ds_wf_filter:
  assumes "ds_wf self" and "ds_clients self' = filter P (ds_clients self)"
  shows "ds_wf self'"
proof -
  have "distinct (map (\<lambda>(_, e). cl_writer e) (ds_clients self))"
    using assms(1) by (simp add: ds_wf_def)
  then show ?thesis
    using assms by (auto simp: ds_wf_def distinct_map_filter)
qed

lemma ds_wf_same_client:
  assumes "ds_wf self" "(c, e) \<in> set (ds_clients self)" "(c, e') \<in> set (ds_clients self)"
  shows "e = e'"
  using assms by (auto simp: ds_wf_def hm_ok_def dest: eq_key_imp_eq_value)

lemma ds_wf_same_sink:
  assumes "ds_wf self" "(c, e) \<in> set (ds_clients self)" "(c', e') \<in> set (ds_clients self)"
    and "cl_writer e = cl_writer e'"
  shows "c = c' \<and> e = e'"
proof -
  have "inj_on (\<lambda>(_, e). cl_writer e) (set (ds_clients self))"
    using assms(1) by (simp add: ds_wf_def distinct_map)
  from inj_onD [OF this, of "(c, e)" "(c', e')"] show ?thesis using assms(2-) by simp
qed

lemma ds_wf_lookup:
  "ds_wf self \<Longrightarrow> map_of (ds_clients self) c = Some e \<longleftrightarrow> (c, e) \<in> set (ds_clients self)"
  by (simp add: ds_wf_def hm_ok_def)

section \<open>Eviction, specified\<close>

text \<open>
  The clients \<open>G\<close> were evicted: they left the registry, each connected one got one
  final message, each running session they were attached to was told once, and
  nothing else changed.
\<close>

definition owns_sink :: "ClientId set \<Rightarrow> DaemonState \<Rightarrow> SubscriberSink \<Rightarrow> bool" where
  "owns_sink G s k \<longleftrightarrow> (\<exists>c e. (c, e) \<in> set (ds_clients s) \<and> c \<in> G \<and> cl_writer e = k)"

definition evicted :: "ClientId set \<Rightarrow> DaemonState \<Rightarrow> DaemonState \<Rightarrow> bool" where
  "evicted G s s' \<longleftrightarrow>
     ds_clients s' = filter (\<lambda>(c, _). c \<notin> G) (ds_clients s) \<and>
     ds_session_metadata s' = ds_session_metadata s \<and> ds_lag_limits s' = ds_lag_limits s \<and>
     (\<forall>k. connected s' k = connected s k) \<and>
     (\<forall>k. queue_of s' k = queue_of s k @
        (if connected s k \<and> owns_sink G s k then [evicted_msg] else [])) \<and>
     (\<forall>sid. (map_of (ds_active_sessions s') sid = None) = (map_of (ds_active_sessions s) sid = None)) \<and>
     (\<forall>sid entry. map_of (ds_active_sessions s) sid = Some entry \<longrightarrow>
        (\<exists>entry' cmds. map_of (ds_active_sessions s') sid = Some entry' \<and>
           ase_rx_alive entry' = ase_rx_alive entry \<and>
           ase_mailbox entry' = ase_mailbox entry @ cmds \<and> distinct cmds \<and>
           set cmds = {SC_RemoveSubscriber c | c e. ase_rx_alive entry \<and> c \<in> G \<and>
             (c, e) \<in> set (ds_clients s) \<and> sid \<in> set (cl_sessions e)}))"

lemma map_of_fold_update:
  "distinct sids \<Longrightarrow>
     map_of (fold (\<lambda>sid. btm_update sid f) sids m) k =
       (if k \<in> set sids then map_option f (map_of m k) else map_of m k)"
  by (induction sids arbitrary: m) (auto simp: map_of_btm_update)

lemma evicted_none: "evicted {} s s"
  by (auto simp: evicted_def owns_sink_def)

lemma evicted_absent: "map_of (ds_clients s) c = None \<Longrightarrow> evicted {c} s s"
  by (force simp: evicted_def owns_sink_def map_of_eq_None_iff intro!: filter_True [symmetric])

lemma evict_client_evicted:
  assumes "ds_wf s"
  shows "evicted {c} s (handle_evict_client c s)"
proof (cases "map_of (ds_clients s) c")
  case None
  then show ?thesis using evicted_absent by (simp add: handle_evict_client_def)
next
  case (Some e)
  then have mem: "(c, e) \<in> set (ds_clients s)" using assms by (simp add: ds_wf_lookup)
  then have dist: "distinct (cl_sessions e)" using assms by (auto simp: ds_wf_def)
  have only: "(c, e') \<in> set (ds_clients s) \<longleftrightarrow> e' = e" for e'
    using ds_wf_same_client [OF assms _ mem] mem by blast
  let ?h = "if connected s (cl_writer e) then deliver (cl_writer e) evicted_msg (ds_hub s) else ds_hub s"
  let ?active = "fold (\<lambda>sid. btm_update sid (cmd_send (SC_RemoveSubscriber c))) (cl_sessions e)
      (ds_active_sessions s)"
  have s': "handle_evict_client c s =
      s\<lparr>ds_hub := ?h, ds_clients := hm_remove c (ds_clients s), ds_active_sessions := ?active\<rparr>"
    by (simp add: handle_evict_client_def Some remove_client_def send_unchecked_eq)
  have ex: "owns_sink {c} s k \<longleftrightarrow> cl_writer e = k" for k
    by (auto simp: owns_sink_def only)
  have cmds: "{SC_RemoveSubscriber c' | c' e'. ase_rx_alive entry \<and> c' \<in> {c} \<and>
      (c', e') \<in> set (ds_clients s) \<and> sid \<in> set (cl_sessions e')} =
      (if ase_rx_alive entry \<and> sid \<in> set (cl_sessions e) then {SC_RemoveSubscriber c} else {})" for entry sid
    by (auto simp: only)
  have active: "map_of ?active sid =
      (if sid \<in> set (cl_sessions e) then map_option (cmd_send (SC_RemoveSubscriber c)) (map_of (ds_active_sessions s) sid)
       else map_of (ds_active_sessions s) sid)" for sid
    by (rule map_of_fold_update [OF dist])
  have mb: "\<exists>entry' cmds. map_of ?active sid = Some entry' \<and> ase_rx_alive entry' = ase_rx_alive entry \<and>
      ase_mailbox entry' = ase_mailbox entry @ cmds \<and> distinct cmds \<and>
      set cmds = (if ase_rx_alive entry \<and> sid \<in> set (cl_sessions e) then {SC_RemoveSubscriber c} else {})"
    if "map_of (ds_active_sessions s) sid = Some entry" for sid entry
    using that by (auto simp: active)
  show ?thesis
    unfolding evicted_def s' ex cmds
    using mb by (simp add: hm_remove_def store_simps active) auto
qed

lemma evicted_trans:
  assumes wf: "ds_wf s" and one: "evicted G s s'" and two: "evicted H s' s''"
  shows "evicted (G \<union> H) s s''"
proof -
  have cl: "ds_clients s' = filter (\<lambda>(c, _). c \<notin> G) (ds_clients s)" using one by (simp add: evicted_def)
  have cl_iff: "(c, e) \<in> set (ds_clients s') \<longleftrightarrow> (c, e) \<in> set (ds_clients s) \<and> c \<notin> G" for c e
    by (simp add: cl)
  have own: "owns_sink (G \<union> H) s k \<longleftrightarrow> owns_sink G s k \<or> owns_sink H s' k" for k
    unfolding owns_sink_def cl_iff by blast
  have excl: "\<not> (owns_sink G s k \<and> owns_sink H s' k)" for k
    unfolding owns_sink_def cl_iff by (metis wf ds_wf_same_sink)
  have q: "queue_of s'' k = queue_of s k @
      (if connected s k \<and> owns_sink (G \<union> H) s k then [evicted_msg] else [])" for k
    using one two own [of k] excl [of k] by (cases "owns_sink G s k"; cases "owns_sink H s' k") (simp_all add: evicted_def)
  have mb: "\<exists>entry' cmds. map_of (ds_active_sessions s'') sid = Some entry' \<and>
      ase_rx_alive entry' = ase_rx_alive entry \<and>
      ase_mailbox entry' = ase_mailbox entry @ cmds \<and> distinct cmds \<and>
      set cmds = {SC_RemoveSubscriber c | c e. ase_rx_alive entry \<and> c \<in> G \<union> H \<and>
        (c, e) \<in> set (ds_clients s) \<and> sid \<in> set (cl_sessions e)}"
    if entry: "map_of (ds_active_sessions s) sid = Some entry" for sid entry
  proof -
    obtain e1 c1 where 1: "map_of (ds_active_sessions s') sid = Some e1"
        "ase_rx_alive e1 = ase_rx_alive entry" "ase_mailbox e1 = ase_mailbox entry @ c1" "distinct c1"
        "set c1 = {SC_RemoveSubscriber c | c e. ase_rx_alive entry \<and> c \<in> G \<and>
           (c, e) \<in> set (ds_clients s) \<and> sid \<in> set (cl_sessions e)}"
      using one entry unfolding evicted_def by blast
    obtain e2 c2 where 2: "map_of (ds_active_sessions s'') sid = Some e2"
        "ase_rx_alive e2 = ase_rx_alive e1" "ase_mailbox e2 = ase_mailbox e1 @ c2" "distinct c2"
        "set c2 = {SC_RemoveSubscriber c | c e. ase_rx_alive e1 \<and> c \<in> H \<and>
           (c, e) \<in> set (ds_clients s') \<and> sid \<in> set (cl_sessions e)}"
      using two 1(1) unfolding evicted_def by blast
    have "set (c1 @ c2) = {SC_RemoveSubscriber c | c e. ase_rx_alive entry \<and> c \<in> G \<union> H \<and>
        (c, e) \<in> set (ds_clients s) \<and> sid \<in> set (cl_sessions e)}"
      by (auto simp: 1(2,5) 2(5) cl)
    moreover have "distinct (c1 @ c2)" using 1(4,5) 2(4,5) by (auto simp: cl)
    ultimately show ?thesis using 1 2 by (intro exI [of _ e2] exI [of _ "c1 @ c2"]) simp
  qed
  show ?thesis
    using one two q mb unfolding evicted_def by (auto simp: cl intro!: filter_cong)
qed

lemma evicted_wf: "ds_wf s \<Longrightarrow> evicted G s s' \<Longrightarrow> ds_wf s'"
  by (rule ds_wf_filter) (auto simp: evicted_def)

lemma fold_evict_evicted: "ds_wf s \<Longrightarrow> evicted (set cs) s (fold handle_evict_client cs s)"
proof (induction cs arbitrary: s)
  case (Cons c cs)
  have "ds_wf (handle_evict_client c s)"
    using evicted_wf [OF Cons.prems evict_client_evicted [OF Cons.prems]] .
  from evicted_trans [OF Cons.prems evict_client_evicted [OF Cons.prems] Cons.IH [OF this]]
  show ?case by simp
qed (simp add: evicted_none)

lemma largest_evicted: "ds_wf s \<Longrightarrow> \<exists>G. evicted G s (handle_evict_largest_lagging s)"
  using evict_client_evicted evicted_none
  by (auto simp: handle_evict_largest_lagging_def split: option.split prod.split)

lemma finish_evictions_evicted:
  assumes "ds_wf s"
  shows "\<exists>G. set cs \<subseteq> G \<and> (\<not> largest \<longrightarrow> G = set cs) \<and> evicted G s (finish_evictions cs largest s)"
proof -
  let ?s = "fold handle_evict_client cs s"
  have 1: "evicted (set cs) s ?s" using fold_evict_evicted [OF assms] .
  show ?thesis
  proof (cases largest)
    case True
    obtain H where "evicted H ?s (handle_evict_largest_lagging ?s)"
      using largest_evicted [OF evicted_wf [OF assms 1]] by blast
    from evicted_trans [OF assms 1 this] True show ?thesis
      by (intro exI [of _ "set cs \<union> H"]) (simp add: finish_evictions_def Let_def)
  next
    case False
    then show ?thesis using 1 by (intro exI [of _ "set cs"]) (simp add: finish_evictions_def Let_def)
  qed
qed

section \<open>One pass over the registry, specified\<close>

definition addressed ::
  "(ClientId \<Rightarrow> ClientState \<Rightarrow> bool) \<Rightarrow> DaemonState \<Rightarrow> SubscriberSink \<Rightarrow> bool" where
  "addressed skip s k \<longleftrightarrow>
     (\<exists>c e. (c, e) \<in> set (ds_clients s) \<and> cl_writer e = k \<and> \<not> skip c e \<and> connected s k)"

lemma sink_filter_count:
  assumes "distinct (map (\<lambda>(_, e). sink e) es)"
  shows "length (filter (\<lambda>(_, e). sink e = k) es) = (if \<exists>c e. (c, e) \<in> set es \<and> sink e = k then 1 else 0)"
  using assms
proof (induction es)
  case (Cons ce es)
  obtain c e where ce: "ce = (c, e)" by (cases ce)
  have "filter (\<lambda>(_, e'). sink e' = sink e) es = []"
    using Cons.prems by (force simp: ce filter_empty_conv)
  then show ?case using Cons by (auto simp: ce filter_empty_conv)
qed simp

lemma fan_out_clients_spec:
  assumes wf: "ds_wf s"
  shows "\<exists>G. ds_clients (fan_out_clients msg skip s) =
        filter (\<lambda>(c, e). (skip c e \<or> connected s (cl_writer e)) \<and> c \<notin> G) (ds_clients s) \<and>
      (\<forall>k. connected (fan_out_clients msg skip s) k = connected s k) \<and>
      (\<forall>k. queue_of (fan_out_clients msg skip s) k = queue_of s k @
         (if addressed skip s k then [msg] else []) @
         (if connected s k \<and> owns_sink G s k then [evicted_msg] else [])) \<and>
      (\<forall>c e. (c, e) \<in> set (ds_clients s) \<and> \<not> skip c e \<and> connected s (cl_writer e) \<and>
         backlog s e + client_size msg > per_client_cap (ds_lag_limits s) \<longrightarrow> c \<in> G) \<and>
      ds_session_metadata (fan_out_clients msg skip s) = ds_session_metadata s"
proof -
  let ?r = "fan_out_evicting cl_writer msg (ds_lag_limits s) skip (ds_clients s) (ds_hub s)"
  let ?s1 = "s\<lparr>ds_clients := fst ?r, ds_hub := fst (snd ?r)\<rparr>"
  let ?cs = "fst (snd (snd ?r))"
  have run: "fan_out_clients msg skip s = finish_evictions ?cs (snd (snd (snd ?r))) ?s1"
    by (simp add: fan_out_clients_def Let_def split: prod.split)
  have cl: "ds_clients ?s1 = filter (\<lambda>(c, e). skip c e \<or> connected s (cl_writer e)) (ds_clients s)"
    by (simp add: fan_out_kept)
  obtain G where G: "set ?cs \<subseteq> G" "evicted G ?s1 (fan_out_clients msg skip s)"
    using finish_evictions_evicted [OF ds_wf_filter [OF wf cl], of ?cs "snd (snd (snd ?r))"] run by auto
  have dist: "distinct (map (\<lambda>(_, e). cl_writer e) (ds_clients s))" using wf by (simp add: ds_wf_def)
  have alive: "connected ?s1 k = connected s k" for k
    by (simp add: fan_out_hub store_simps)
  have q1: "queue_of ?s1 k = queue_of s k @ (if addressed skip s k then [msg] else [])" for k
  proof -
    have "distinct (map (\<lambda>(_, e). cl_writer e) (filter (reached cl_writer skip (ds_hub s)) (ds_clients s)))"
      using dist by (simp add: distinct_map_filter)
    from sink_filter_count [OF this, of k] show ?thesis
      by (simp add: fan_out_hub store_simps addressed_def reached_def)
         (auto simp: replicate_Suc)
  qed
  have own: "connected s k \<and> owns_sink G ?s1 k \<longleftrightarrow> connected s k \<and> owns_sink G s k" for k
    using cl by (auto simp: owns_sink_def)
  have "ds_clients (fan_out_clients msg skip s) =
      filter (\<lambda>(c, e). (skip c e \<or> connected s (cl_writer e)) \<and> c \<notin> G) (ds_clients s)"
    using G(2) cl by (auto simp: evicted_def intro!: filter_cong)
  moreover have "connected (fan_out_clients msg skip s) k = connected s k" for k
    using G(2) alive by (simp add: evicted_def)
  moreover have "queue_of (fan_out_clients msg skip s) k = queue_of s k @
      (if addressed skip s k then [msg] else []) @
      (if connected s k \<and> owns_sink G s k then [evicted_msg] else [])" for k
    using G(2) q1 [of k] alive [of k] own [of k] by (simp only: evicted_def) (simp only: append_assoc)
  moreover have "c \<in> G" if "(c, e) \<in> set (ds_clients s)" "\<not> skip c e" "connected s (cl_writer e)"
      "backlog s e + client_size msg > per_client_cap (ds_lag_limits s)" for c e
  proof -
    have "c \<in> set ?cs"
      using that unfolding fan_out_evict_iff [OF dist] by (auto simp: reached_def backlog_def)
    then show ?thesis using G(1) by blast
  qed
  moreover have "ds_session_metadata (fan_out_clients msg skip s) = ds_session_metadata s"
    using G(2) by (simp add: evicted_def)
  ultimately show ?thesis by blast
qed

lemma fan_out_clients_wf: "ds_wf s \<Longrightarrow> ds_wf (fan_out_clients msg skip s)"
  using fan_out_clients_spec [of s msg skip] ds_wf_filter by blast

text \<open>What a pass does to one connected client.\<close>

lemma fan_out_clients_client:
  fixes msg :: DaemonMessage and skip :: "ClientId \<Rightarrow> ClientState \<Rightarrow> bool"
  assumes wf: "ds_wf s" and mem: "(c, e) \<in> set (ds_clients s)" and up: "connected s (cl_writer e)"
  defines "s' \<equiv> fan_out_clients msg skip s"
  shows "connected s' (cl_writer e)"
    and "(\<exists>e'. (c, e') \<in> set (ds_clients s')) \<longleftrightarrow> (c, e) \<in> set (ds_clients s')"
    and "queue_of s' (cl_writer e) = queue_of s (cl_writer e) @ (if skip c e then [] else [msg]) @
      (if (c, e) \<in> set (ds_clients s') then [] else [evicted_msg])"
proof -
  obtain G where G: "ds_clients s' =
        filter (\<lambda>(c, e). (skip c e \<or> connected s (cl_writer e)) \<and> c \<notin> G) (ds_clients s)"
      "connected s' (cl_writer e) = connected s (cl_writer e)"
      "queue_of s' (cl_writer e) = queue_of s (cl_writer e) @
         (if addressed skip s (cl_writer e) then [msg] else []) @
         (if connected s (cl_writer e) \<and> owns_sink G s (cl_writer e) then [evicted_msg] else [])"
    using fan_out_clients_spec [OF wf, of msg skip] unfolding s'_def by blast
  have only: "(c', e') \<in> set (ds_clients s) \<and> cl_writer e' = cl_writer e \<longleftrightarrow> c' = c \<and> e' = e" for c' e'
    using ds_wf_same_sink [OF wf _ mem] mem by blast
  have "addressed skip s (cl_writer e) \<longleftrightarrow> \<not> skip c e"
    unfolding addressed_def using up only by metis
  moreover have "owns_sink G s (cl_writer e) \<longleftrightarrow> c \<in> G"
    unfolding owns_sink_def using only by metis
  moreover have "(c, e) \<in> set (ds_clients s') \<longleftrightarrow> c \<notin> G" using mem up by (simp add: G(1))
  ultimately show "queue_of s' (cl_writer e) = queue_of s (cl_writer e) @ (if skip c e then [] else [msg]) @
      (if (c, e) \<in> set (ds_clients s') then [] else [evicted_msg])"
    using up by (simp add: G(3))
  show "connected s' (cl_writer e)" using up by (simp add: G(2))
  show "(\<exists>e'. (c, e') \<in> set (ds_clients s')) \<longleftrightarrow> (c, e) \<in> set (ds_clients s')"
    using ds_wf_same_client [OF wf _ mem] by (simp add: G(1)) blast
qed

text \<open>A sink no registered client owns is left alone.\<close>

lemma fan_out_clients_other:
  assumes "ds_wf s" "\<forall>(c, e) \<in> set (ds_clients s). cl_writer e \<noteq> k"
  shows "queue_of (fan_out_clients msg skip s) k = queue_of s k"
    "connected (fan_out_clients msg skip s) k = connected s k"
  using fan_out_clients_spec [OF assms(1), of msg skip] assms(2)
  by (auto simp: addressed_def owns_sink_def)

lemma fan_out_clients_subset:
  "ds_wf s \<Longrightarrow> set (ds_clients (fan_out_clients msg skip s)) \<subseteq> set (ds_clients s)"
  using fan_out_clients_spec [of s msg skip] by auto

section \<open>The largest backlog\<close>

lemma max_by_key_fold:
  fixes key :: "'a \<Rightarrow> 'b::linorder"
  defines "step \<equiv> \<lambda>y best. if key best > key y then best else y"
  shows "fold step xs x \<in> insert x (set xs)" and "\<forall>y \<in> insert x (set xs). key y \<le> key (fold step xs x)"
proof (induction xs arbitrary: x)
  case (Cons y xs)
  {
    case 1
    show ?case using Cons.IH(1) [of "step y x"] by (auto simp: step_def split: if_splits)
  next
    case 2
    have "key x \<le> key (step y x)" "key y \<le> key (step y x)" by (auto simp: step_def)
    moreover have "key (step y x) \<le> key (fold step xs (step y x))"
      "\<forall>z \<in> set xs. key z \<le> key (fold step xs (step y x))"
      using Cons.IH(2) [of "step y x"] by auto
    ultimately show ?case by auto
  }
qed auto

lemma max_by_key_Some:
  assumes "max_by_key key xs = Some m"
  shows "m \<in> set xs" and "\<forall>x \<in> set xs. key x \<le> key m"
proof -
  obtain y ys where xs: "xs = y # ys" using assms by (cases xs) auto
  then have m: "m = fold (\<lambda>y best. if key best > key y then best else y) ys y" using assms by simp
  show "m \<in> set xs" unfolding xs m using max_by_key_fold(1) [where key = key and xs = ys and x = y] by simp
  show "\<forall>x \<in> set xs. key x \<le> key m" unfolding xs m using max_by_key_fold(2) [where key = key and xs = ys and x = y] by simp
qed

lemma max_by_key_None: "max_by_key key xs = None \<longleftrightarrow> xs = []"
  by (cases xs) auto

section \<open>Sequences of operations\<close>

datatype bus_op =
    Op_RegisterWriter ClientId SubscriberSink
  | Op_RegisterSummary ClientId SubscriberSink
  | Op_UnregisterSummary ClientId
  | Op_RegisterActivity ClientId SubscriberSink
  | Op_UnregisterActivity ClientId
  | Op_Track ClientId u64
  | Op_Untrack ClientId u64
  | Op_Disconnected ClientId
  | Op_Evict ClientId
  | Op_EvictLargest
  | Op_Broadcast DaemonMessageType
  | Op_Activity "u64 option" DaemonMessage
  | Op_Status u64 SessionStatus
  | Op_ShuttingDown

fun run_bus_op :: "CatalogProvider list \<Rightarrow> bus_op \<Rightarrow> DaemonState \<Rightarrow> DaemonState" where
  "run_bus_op catalog (Op_RegisterWriter c w) = handle_register_client_writer c w"
| "run_bus_op catalog (Op_RegisterSummary c w) = handle_register_summary_subscriber c w"
| "run_bus_op catalog (Op_UnregisterSummary c) = handle_unregister_summary_subscriber c"
| "run_bus_op catalog (Op_RegisterActivity c w) = handle_register_activity_subscriber catalog c w"
| "run_bus_op catalog (Op_UnregisterActivity c) = handle_unregister_activity_subscriber c"
| "run_bus_op catalog (Op_Track c sid) = handle_track_session_subscription c sid"
| "run_bus_op catalog (Op_Untrack c sid) = handle_untrack_session_subscription c sid"
| "run_bus_op catalog (Op_Disconnected c) = handle_client_disconnected c"
| "run_bus_op catalog (Op_Evict c) = handle_evict_client c"
| "run_bus_op catalog Op_EvictLargest = handle_evict_largest_lagging"
| "run_bus_op catalog (Op_Broadcast inner) = broadcast inner"
| "run_bus_op catalog (Op_Activity sid msg) = handle_broadcast_activity sid msg"
| "run_bus_op catalog (Op_Status sid status) = handle_broadcast_session_status sid status"
| "run_bus_op catalog Op_ShuttingDown = handle_broadcast_shutting_down"

fun registration :: "bus_op \<Rightarrow> (ClientId \<times> SubscriberSink) option" where
  "registration (Op_RegisterWriter c w) = Some (c, w)"
| "registration (Op_RegisterSummary c w) = Some (c, w)"
| "registration (Op_RegisterActivity c w) = Some (c, w)"
| "registration _ = None"

text \<open>Every client is registered with the sink of its own connection.\<close>

definition conn_wf :: "(ClientId \<Rightarrow> SubscriberSink) \<Rightarrow> DaemonState \<Rightarrow> bool" where
  "conn_wf conn s \<longleftrightarrow> hm_ok (ds_clients s) \<and>
     (\<forall>(c, e) \<in> set (ds_clients s). cl_writer e = conn c \<and> distinct (cl_sessions e))"

lemma conn_wf_ds_wf:
  assumes "inj conn" "conn_wf conn s"
  shows "ds_wf s"
proof -
  have "map (\<lambda>(_, e). cl_writer e) (ds_clients s) = map conn (map fst (ds_clients s))"
    using assms(2) by (auto simp: conn_wf_def)
  moreover have "distinct (map conn (map fst (ds_clients s)))"
    using assms by (subst distinct_map) (auto simp: conn_wf_def hm_ok_def intro: inj_on_subset)
  ultimately have "distinct (map (\<lambda>(_, e). cl_writer e) (ds_clients s))" by (simp only:)
  then show ?thesis using assms(2) by (auto simp: ds_wf_def conn_wf_def)
qed

lemma conn_wf_filter:
  "conn_wf conn s \<Longrightarrow> ds_clients s' = filter P (ds_clients s) \<Longrightarrow> conn_wf conn s'"
  by (auto simp: conn_wf_def)

lemma hm_insert_mem:
  "x \<in> set (hm_insert k v m) \<Longrightarrow> x = (k, v) \<or> x \<in> set m"
  by (induction k v m rule: hm_insert.induct) (auto split: if_splits)

lemma conn_wf_put:
  "conn_wf conn s \<Longrightarrow> cl_writer e = conn c \<Longrightarrow> distinct (cl_sessions e) \<Longrightarrow> conn_wf conn (put_client c e s)"
  by (auto simp: conn_wf_def put_client_def dest!: hm_insert_mem)

lemma conn_wf_lookup:
  "conn_wf conn s \<Longrightarrow> map_of (ds_clients s) c = Some e \<Longrightarrow> cl_writer e = conn c \<and> distinct (cl_sessions e)"
  by (auto simp: conn_wf_def dest!: map_of_SomeD)

lemma retain_notified_eq:
  "fst (retain_notified msg clients h) = filter (\<lambda>ce. ch_rx_alive (hub_chan h (cl_writer (snd ce)))) clients"
  "snd (retain_notified msg clients h) =
     fan_out_spec cl_writer msg (filter (\<lambda>ce. ch_rx_alive (hub_chan h (cl_writer (snd ce)))) clients) h"
proof (induction clients arbitrary: h)
  case (Cons ce clients)
  obtain c e where ce: "ce = (c, e)" by (cases ce)
  have alive: "ch_rx_alive (hub_chan (deliver (cl_writer e) msg h) k) = ch_rx_alive (hub_chan h k)" for h k
    by (simp add: store_simps)
  {
    case 1
    show ?case
      using Cons.IH(1) [of h] Cons.IH(1) [of "deliver (cl_writer e) msg h"]
      by (cases "ch_rx_alive (hub_chan h (cl_writer e))")
         (simp_all add: ce send_unchecked_eq alive Let_def case_prod_beta)
  next
    case 2
    show ?case
      using Cons.IH(2) [of h] Cons.IH(2) [of "deliver (cl_writer e) msg h"]
      by (cases "ch_rx_alive (hub_chan h (cl_writer e))")
         (simp_all add: ce send_unchecked_eq alive Let_def fan_out_spec_def case_prod_beta)
  }
qed (simp_all add: fan_out_spec_def)

text \<open>Everything but a registration keeps or forgets clients; none is added.\<close>

lemma remove_client_clients: "ds_clients (remove_client c s) = hm_remove c (ds_clients s)"
  by (force simp: remove_client_def hm_remove_def map_of_eq_None_iff split: option.split
      intro!: filter_True [symmetric])

definition keeps_some :: "DaemonState \<Rightarrow> DaemonState \<Rightarrow> bool" where
  "keeps_some s s' \<longleftrightarrow> (\<exists>P. ds_clients s' = filter P (ds_clients s))"

lemma keeps_some_refl: "ds_clients s' = ds_clients s \<Longrightarrow> keeps_some s s'"
  unfolding keeps_some_def by (rule exI [of _ "\<lambda>_. True"]) simp

lemma keeps_some_trans: "keeps_some s s' \<Longrightarrow> keeps_some s' s'' \<Longrightarrow> keeps_some s s''"
  unfolding keeps_some_def by (metis filter_filter)

lemma keeps_some_evicted: "evicted G s s' \<Longrightarrow> keeps_some s s'"
  by (auto simp: keeps_some_def evicted_def)

lemma keeps_some_fan_out: "ds_wf s \<Longrightarrow> keeps_some s (fan_out_clients msg skip s)"
  using fan_out_clients_spec [of s msg skip] unfolding keeps_some_def by blast

lemma keeps_some_broadcast: "ds_wf s \<Longrightarrow> keeps_some s (broadcast inner s)"
  unfolding broadcast_def Let_def
  by (rule keeps_some_trans [OF keeps_some_fan_out keeps_some_fan_out]) (auto intro: fan_out_clients_wf)

lemma keeps_some_status:
  assumes "ds_wf s"
  shows "keeps_some s (handle_broadcast_session_status n status s)"
proof -
  let ?s = "s\<lparr>ds_session_metadata := btm_update n (\<lambda>m. m\<lparr>meta_status := status\<rparr>) (ds_session_metadata s)\<rparr>"
  have wf: "ds_wf ?s" using assms by (simp add: ds_wf_def)
  have same: "keeps_some s ?s" by (rule keeps_some_refl) simp
  show ?thesis
    using keeps_some_trans [OF same keeps_some_fan_out [OF wf]] same
    by (simp add: handle_broadcast_session_status_def Let_def)
qed

lemma keeps_some_shutting_down: "keeps_some s (handle_broadcast_shutting_down s)"
  unfolding keeps_some_def
  by (auto simp: handle_broadcast_shutting_down_def retain_notified_eq case_prod_beta)

lemma keeps_some_remove: "keeps_some s (remove_client c s)"
  unfolding keeps_some_def by (auto simp: remove_client_clients hm_remove_def)

lemma keeps_some_op:
  assumes "ds_wf s" and "registration op = None"
    and "\<nexists>c sid. op \<in> {Op_UnregisterSummary c, Op_UnregisterActivity c, Op_Track c sid, Op_Untrack c sid}"
  shows "keeps_some s (run_bus_op catalog op s)"
  using assms
proof (cases op)
  case (Op_Evict c)
  then show ?thesis using evict_client_evicted [OF assms(1)] keeps_some_evicted by simp blast
next
  case Op_EvictLargest
  then show ?thesis using largest_evicted [OF assms(1)] keeps_some_evicted by simp blast
qed (auto simp: keeps_some_broadcast keeps_some_status keeps_some_shutting_down keeps_some_remove
      handle_client_disconnected_def handle_broadcast_activity_def keeps_some_fan_out)

lemma conn_wf_modify:
  assumes "conn_wf conn s" and "\<And>e. cl_writer (f e) = cl_writer e"
    and "\<And>e. distinct (cl_sessions e) \<Longrightarrow> distinct (cl_sessions (f e))"
  shows "conn_wf conn (modify_client c f s)"
  using assms conn_wf_lookup [OF assms(1), of c]
  by (auto simp: modify_client_def conn_wf_put split: option.split)

lemma modify_client_keys: "fst ` set (ds_clients (modify_client c f s)) = fst ` set (ds_clients s)"
  by (force simp: modify_client_def put_client_def hm_insert_keys split: option.split dest: map_of_SomeD)

lemma hub_conn_wf [simp]: "conn_wf conn (s\<lparr>ds_hub := h\<rparr>) = conn_wf conn s"
  by (simp add: conn_wf_def)

lemma conn_wf_register:
  assumes "conn_wf conn s" "registration op = Some (c, conn c)"
  shows "conn_wf conn (run_bus_op catalog op s)"
    and "fst ` set (ds_clients (run_bus_op catalog op s)) = insert c (fst ` set (ds_clients s))"
proof -
  have ins: "cl_writer (or_insert_client c (conn c) s) = conn c \<and>
      distinct (cl_sessions (or_insert_client c (conn c) s))"
    using conn_wf_lookup [OF assms(1), of c]
    by (auto simp: or_insert_client_def ClientState_new_def split: option.split)
  show "conn_wf conn (run_bus_op catalog op s)"
    using assms ins conn_wf_lookup [OF assms(1), of c]
    by (cases op) (auto simp: handle_register_summary_subscriber_def handle_register_activity_subscriber_def
        handle_register_client_writer_def ClientState_new_def conn_wf_put case_prod_beta Let_def
        split: option.split)
  show "fst ` set (ds_clients (run_bus_op catalog op s)) = insert c (fst ` set (ds_clients s))"
    using assms
    by (cases op) (auto simp: handle_register_summary_subscriber_def handle_register_activity_subscriber_def
        handle_register_client_writer_def put_client_def hm_insert_keys case_prod_beta Let_def
        split: option.split)
qed

lemma hs_remove_distinct [simp]: "distinct xs \<Longrightarrow> distinct (hs_remove x xs)"
  by (simp add: hs_remove_def)

lemma run_bus_op_conn_wf:
  assumes "inj conn" "conn_wf conn s" "\<forall>c w. registration op = Some (c, w) \<longrightarrow> w = conn c"
  shows "conn_wf conn (run_bus_op catalog op s)"
    and "c \<in> fst ` set (ds_clients (run_bus_op catalog op s)) \<Longrightarrow>
      c \<in> fst ` set (ds_clients s) \<or> registration op = Some (c, conn c)"
proof -
  have "conn_wf conn (run_bus_op catalog op s) \<and> (c \<in> fst ` set (ds_clients (run_bus_op catalog op s)) \<longrightarrow>
      c \<in> fst ` set (ds_clients s) \<or> registration op = Some (c, conn c))"
  proof (cases "registration op")
    case (Some cw)
    then obtain c' where "registration op = Some (c', conn c')" using assms(3) by (cases cw) auto
    then show ?thesis using conn_wf_register [OF assms(2), of op c'] by auto
  next
    case None
    show ?thesis
    proof (cases "\<exists>c sid. op \<in> {Op_UnregisterSummary c, Op_UnregisterActivity c, Op_Track c sid, Op_Untrack c sid}")
      case True
      then obtain c' sid where
        "op = Op_UnregisterSummary c' \<or> op = Op_UnregisterActivity c' \<or> op = Op_Track c' sid \<or> op = Op_Untrack c' sid"
        by blast
      then show ?thesis
        using assms(2)
        by (elim disjE) (simp_all add: handle_unregister_summary_subscriber_def
            handle_unregister_activity_subscriber_def handle_track_session_subscription_def
            handle_untrack_session_subscription_def modify_client_keys conn_wf_modify)
    next
      case False
      from keeps_some_op [OF conn_wf_ds_wf [OF assms(1,2)] None False] obtain P where
        P: "ds_clients (run_bus_op catalog op s) = filter P (ds_clients s)"
        unfolding keeps_some_def by blast
      then show ?thesis using conn_wf_filter [OF assms(2) P] by auto
    qed
  qed
  then show "conn_wf conn (run_bus_op catalog op s)"
    and "c \<in> fst ` set (ds_clients (run_bus_op catalog op s)) \<Longrightarrow>
      c \<in> fst ` set (ds_clients s) \<or> registration op = Some (c, conn c)" by blast+
qed

section \<open>Properties\<close>

definition sample_client :: "SubscriberSink \<Rightarrow> bool \<Rightarrow> bool \<Rightarrow> u64 list \<Rightarrow> ClientState" where
  "sample_client w summary activity sids =
     \<lparr>cl_writer = w, cl_wants_summary = summary, cl_wants_activity = activity, cl_sessions = sids\<rparr>"

definition sample_daemon :: DaemonState where
  "sample_daemon =
     \<lparr>ds_clients = [(5, sample_client 0 True True []), (7, sample_client 1 True False [3])],
      ds_active_sessions = [(3, \<lparr>ase_mailbox = [], ase_rx_alive = True\<rparr>)],
      ds_session_metadata = [(3, SessionMetadata_from_config SessionConfig_default)],
      ds_lag_limits = LagLimits_default, ds_locked = False, ds_keystore_bound = True,
      ds_hub = sample_hub\<rparr>"

lemma sample_daemon_wf: "ds_wf sample_daemon"
  by (simp add: ds_wf_def hm_ok_def sample_daemon_def sample_client_def)

lemma sample_daemon_connected [simp]: "connected sample_daemon k \<longleftrightarrow> k < 2"
  by (simp add: sample_daemon_def sample_hub_def fresh_chan_def)

text \<open>
  A daemon-wide broadcast reaches every interested client exactly once, even
  one subscribed to both buses: a connected client that is still registered
  afterwards has received the message once if it wants activity or summaries and
  nothing otherwise; a client evicted on the way has received it at most once,
  followed by the eviction notice as its last message, and no copy if it never
  asked. A client keeps its registration unchanged or loses it.
\<close>

theorem broadcast_reaches_each_once:
  assumes wf: "ds_wf s" and mem: "(c, e) \<in> set (ds_clients s)" and up: "connected s (cl_writer e)"
  shows "\<exists>ms. queue_of (broadcast inner s) (cl_writer e) = queue_of s (cl_writer e) @ ms \<and>
    map_of (ds_clients (broadcast inner s)) c \<in> {None, Some e} \<and>
    (map_of (ds_clients (broadcast inner s)) c = Some e \<longrightarrow>
       ms = (if cl_wants_activity e \<or> cl_wants_summary e then [DaemonMessage_broadcast inner] else [])) \<and>
    (map_of (ds_clients (broadcast inner s)) c = None \<longrightarrow>
       ms = [evicted_msg] \<or>
       (cl_wants_activity e \<or> cl_wants_summary e) \<and> ms = [DaemonMessage_broadcast inner, evicted_msg])"
proof -
  let ?msg = "DaemonMessage_broadcast inner"
  let ?skip1 = "\<lambda>_ client. \<not> cl_wants_activity client"
  let ?skip2 = "\<lambda>_ client. \<not> cl_wants_summary client \<or> cl_wants_activity client"
  let ?s1 = "fan_out_clients ?msg ?skip1 s"
  let ?s2 = "fan_out_clients ?msg ?skip2 ?s1"
  have b: "broadcast inner s = ?s2" by (simp add: broadcast_def Let_def)
  have wf1: "ds_wf ?s1" and wf2: "ds_wf ?s2" using wf fan_out_clients_wf by blast+
  note first = fan_out_clients_client [OF wf mem up, of ?msg ?skip1]
  show ?thesis
  proof (cases "(c, e) \<in> set (ds_clients ?s1)")
    case True
    note second = fan_out_clients_client [OF wf1 True first(1), of ?msg ?skip2]
    have reg: "map_of (ds_clients ?s2) c = (if (c, e) \<in> set (ds_clients ?s2) then Some e else None)"
      using second(2) wf2 by (auto simp: ds_wf_lookup map_of_eq_None_iff image_iff)
    have "queue_of ?s2 (cl_writer e) = queue_of s (cl_writer e) @
        (if cl_wants_activity e \<or> cl_wants_summary e then [?msg] else []) @
        (if (c, e) \<in> set (ds_clients ?s2) then [] else [evicted_msg])"
      using second(3) first(3) True by simp
    then show ?thesis unfolding b reg by simp
  next
    case False
    then have gone: "c \<notin> fst ` set (ds_clients ?s1)" using first(2) by (auto simp: image_iff)
    have "cl_writer e' \<noteq> cl_writer e" if "(c', e') \<in> set (ds_clients ?s1)" for c' e'
    proof
      assume w: "cl_writer e' = cl_writer e"
      have "(c', e') \<in> set (ds_clients s)" using that fan_out_clients_subset [OF wf] by blast
      from ds_wf_same_sink [OF wf this mem w] have "c' = c" by blast
      then show False using that gone by force
    qed
    then have "queue_of ?s2 (cl_writer e) = queue_of ?s1 (cl_writer e)"
      using fan_out_clients_other(1) [OF wf1] by blast
    moreover have "map_of (ds_clients ?s2) c = None"
      using gone fan_out_clients_subset [OF wf1, of ?msg ?skip2] by (auto simp: map_of_eq_None_iff)
    ultimately show ?thesis unfolding b using first(3) False by simp
  qed
qed

theorem broadcast_reaches_each_once_witness:
  "\<exists>ms. queue_of (broadcast DM_Pong sample_daemon) 0 = queue_of sample_daemon 0 @ ms \<and>
     ms \<in> {[sample_pong], [evicted_msg], [sample_pong, evicted_msg]}"
  using broadcast_reaches_each_once [OF sample_daemon_wf, of 5 "sample_client 0 True True []" DM_Pong]
  by (auto simp: sample_daemon_def [THEN arg_cong [of _ _ ds_clients]] sample_client_def sample_pong_def)

text \<open>
  Evicting a client is complete and happens once: the client leaves the
  registry, a connected one gets the eviction notice as its last message, every
  running session it was attached to is told exactly once to drop it and no other
  session hears of it, no other client, queue or connection changes, and a second
  eviction of the same client does nothing.
\<close>

theorem eviction_complete:
  assumes wf: "ds_wf s" and reg: "map_of (ds_clients s) c = Some e"
  defines "s' \<equiv> handle_evict_client c s"
  shows "map_of (ds_clients s') c = None \<and>
    (\<forall>c'. c' \<noteq> c \<longrightarrow> map_of (ds_clients s') c' = map_of (ds_clients s) c') \<and>
    (\<forall>k. queue_of s' k = queue_of s k @ (if k = cl_writer e \<and> connected s k then [evicted_msg] else [])) \<and>
    (\<forall>sid entry. map_of (ds_active_sessions s) sid = Some entry \<longrightarrow>
       (\<exists>entry'. map_of (ds_active_sessions s') sid = Some entry' \<and>
          ase_mailbox entry' = ase_mailbox entry @
            (if ase_rx_alive entry \<and> sid \<in> set (cl_sessions e) then [SC_RemoveSubscriber c] else []))) \<and>
    handle_evict_client c s' = s'"
proof -
  have mem: "(c, e) \<in> set (ds_clients s)" using wf reg by (simp add: ds_wf_lookup)
  have only: "(c, e') \<in> set (ds_clients s) \<longleftrightarrow> e' = e" for e'
    using ds_wf_same_client [OF wf _ mem] mem by blast
  have dist: "distinct (cl_sessions e)" using wf mem by (auto simp: ds_wf_def)
  let ?active = "fold (\<lambda>sid. btm_update sid (cmd_send (SC_RemoveSubscriber c))) (cl_sessions e)
      (ds_active_sessions s)"
  have active: "ds_active_sessions s' = ?active"
    by (simp add: s'_def handle_evict_client_def reg remove_client_def case_prod_beta Let_def)
  have ev: "evicted {c} s s'" unfolding s'_def by (rule evict_client_evicted [OF wf])
  have own: "owns_sink {c} s k \<longleftrightarrow> k = cl_writer e" for k by (auto simp: owns_sink_def only)
  have cl: "ds_clients s' = hm_remove c (ds_clients s)"
    by (simp add: s'_def handle_evict_client_def reg remove_client_clients case_prod_beta Let_def)
  have gone: "map_of (ds_clients s') c = None" by (simp add: cl map_of_hm_remove)
  have "map_of ?active sid =
      (if sid \<in> set (cl_sessions e) then map_option (cmd_send (SC_RemoveSubscriber c)) (map_of (ds_active_sessions s) sid)
       else map_of (ds_active_sessions s) sid)" for sid
    by (rule map_of_fold_update [OF dist])
  then have "\<exists>entry'. map_of (ds_active_sessions s') sid = Some entry' \<and>
      ase_mailbox entry' = ase_mailbox entry @
        (if ase_rx_alive entry \<and> sid \<in> set (cl_sessions e) then [SC_RemoveSubscriber c] else [])"
    if "map_of (ds_active_sessions s) sid = Some entry" for sid entry
    using that by (auto simp: active)
  moreover have "queue_of s' k = queue_of s k @ (if k = cl_writer e \<and> connected s k then [evicted_msg] else [])" for k
    using ev by (auto simp: evicted_def own)
  moreover have "handle_evict_client c s' = s'" using gone by (simp add: handle_evict_client_def)
  ultimately show ?thesis using gone by (simp add: cl map_of_hm_remove)
qed

theorem eviction_complete_witness:
  "map_of (ds_clients (handle_evict_client 7 sample_daemon)) 7 = None \<and>
   queue_of (handle_evict_client 7 sample_daemon) 1 = [evicted_msg] \<and>
   map_option ase_mailbox (map_of (ds_active_sessions (handle_evict_client 7 sample_daemon)) 3) =
     Some [SC_RemoveSubscriber 7]"
proof -
  have reg: "map_of (ds_clients sample_daemon) 7 = Some (sample_client 1 True False [3])"
    by (simp add: sample_daemon_def)
  have session: "map_of (ds_active_sessions sample_daemon) 3 = Some \<lparr>ase_mailbox = [], ase_rx_alive = True\<rparr>"
    by (simp add: sample_daemon_def)
  have empty: "queue_of sample_daemon 1 = []" by (simp add: sample_daemon_def sample_hub_def fresh_chan_def)
  note all = eviction_complete [OF sample_daemon_wf reg]
  have "\<exists>entry'. map_of (ds_active_sessions (handle_evict_client 7 sample_daemon)) 3 = Some entry' \<and>
      ase_mailbox entry' = [SC_RemoveSubscriber 7]"
    using all session by (fastforce simp: sample_client_def)
  then show ?thesis using all empty by (auto simp: sample_client_def)
qed

text \<open>
  When the daemon-wide budget is exceeded, the client evicted is one with the
  largest backlog: if any registered client has bytes in flight, exactly one
  client is evicted and no registered client had more in flight than it; if none
  has, nothing is evicted.
\<close>

theorem largest_backlog_evicted:
  "(\<forall>(c, e) \<in> set (ds_clients s). backlog s e = 0) \<and> handle_evict_largest_lagging s = s \<or>
   (\<exists>c e. (c, e) \<in> set (ds_clients s) \<and> 0 < backlog s e \<and>
      (\<forall>(c', e') \<in> set (ds_clients s). backlog s e' \<le> backlog s e) \<and>
      handle_evict_largest_lagging s = handle_evict_client c s)"
proof (cases "max_by_key (\<lambda>(_, client). backlog s client)
    (filter (\<lambda>(_, client). backlog s client > 0) (ds_clients s))")
  case None
  then have "\<forall>ce \<in> set (ds_clients s). backlog s (snd ce) = 0"
    by (auto simp: max_by_key_None filter_empty_conv word_gt_0)
  then show ?thesis using None by (auto simp: handle_evict_largest_lagging_def)
next
  case (Some ce)
  obtain c e where ce: "ce = (c, e)" by (cases ce)
  have "(c, e) \<in> set (ds_clients s)" "0 < backlog s e"
    using max_by_key_Some(1) [OF Some] by (auto simp: ce)
  moreover have "backlog s e' \<le> backlog s e" if "(c', e') \<in> set (ds_clients s)" for c' e'
    using max_by_key_Some(2) [OF Some] that by (cases "backlog s e' = 0") (auto simp: ce word_gt_0)
  moreover have "handle_evict_largest_lagging s = handle_evict_client c s"
    using Some by (simp add: ce handle_evict_largest_lagging_def)
  ultimately show ?thesis by (intro disjI2 exI [of _ c] exI [of _ e]) auto
qed

theorem largest_backlog_evicted_witness:
  "handle_evict_largest_lagging sample_daemon = sample_daemon"
proof -
  have "backlog sample_daemon e = 0" for e
    by (simp add: backlog_def sample_daemon_def sample_hub_def fresh_chan_def)
  then show ?thesis using largest_backlog_evicted [of sample_daemon] by simp
qed

text \<open>
  The client registry is sound after any sequence of operations: as long as
  connections register with their own sink, every client is registered at most
  once and with the sink of its own connection, and a client is in the registry
  only if it was there before or one of the operations registered it. In
  particular, tracking a subscription never brings back a client that left.
\<close>

theorem registry_sound:
  assumes "inj conn" and "conn_wf conn s"
    and "\<forall>op \<in> set ops. \<forall>c w. registration op = Some (c, w) \<longrightarrow> w = conn c"
  shows "conn_wf conn (fold (run_bus_op catalog) ops s) \<and> ds_wf (fold (run_bus_op catalog) ops s) \<and>
    (\<forall>c \<in> fst ` set (ds_clients (fold (run_bus_op catalog) ops s)).
       c \<in> fst ` set (ds_clients s) \<or> (\<exists>op \<in> set ops. registration op = Some (c, conn c)))"
  using assms(2,3)
proof (induction ops arbitrary: s)
  case Nil
  then show ?case using conn_wf_ds_wf [OF assms(1)] by auto
next
  case (Cons op ops)
  have ok: "\<forall>c w. registration op = Some (c, w) \<longrightarrow> w = conn c" using Cons.prems(2) by simp
  note step = run_bus_op_conn_wf [OF assms(1) Cons.prems(1) ok, where catalog = catalog]
  let ?s = "fold (run_bus_op catalog) ops (run_bus_op catalog op s)"
  have ih: "conn_wf conn ?s \<and> ds_wf ?s \<and> (\<forall>c \<in> fst ` set (ds_clients ?s).
      c \<in> fst ` set (ds_clients (run_bus_op catalog op s)) \<or> (\<exists>op \<in> set ops. registration op = Some (c, conn c)))"
    using Cons.IH [OF step(1)] Cons.prems(2) by simp
  then have "c \<in> fst ` set (ds_clients s) \<or> (\<exists>op' \<in> set (op # ops). registration op' = Some (c, conn c))"
    if "c \<in> fst ` set (ds_clients ?s)" for c
    using that step(2) [of c] by (meson list.set_intros)
  then show ?case using ih by simp
qed

theorem registry_sound_witness:
  "ds_wf (fold (run_bus_op [])
     [Op_RegisterWriter 5 5, Op_RegisterActivity 5 5, Op_Track 9 1, Op_Disconnected 5, Op_Track 5 1]
     (sample_daemon\<lparr>ds_clients := []\<rparr>)) \<and>
   9 \<notin> fst ` set (ds_clients (fold (run_bus_op [])
     [Op_RegisterWriter 5 5, Op_RegisterActivity 5 5, Op_Track 9 1, Op_Disconnected 5, Op_Track 5 1]
     (sample_daemon\<lparr>ds_clients := []\<rparr>)))"
proof -
  have inj: "inj (\<lambda>c :: ClientId. unat c)" by (simp add: inj_def word_unat_eq_iff)
  have ok: "conn_wf (\<lambda>c. unat c) (sample_daemon\<lparr>ds_clients := []\<rparr>)" by (simp add: conn_wf_def)
  show ?thesis
    using registry_sound [OF inj ok, of "[Op_RegisterWriter 5 5, Op_RegisterActivity 5 5, Op_Track 9 1,
      Op_Disconnected 5, Op_Track 5 1]" "[]"] by force
qed

end
