(* ===== verification/Db_Store.thy ===== *)
theory Db_Store
  imports Session_State "HOL-Library.Product_Lexorder" "HOL-Library.List_Lexorder" "HOL-Library.Char_ord"
begin

text \<open>
  The daemon's session store (\<open>src/choreo-daemon/src/db/sessions.rs\<close> and
  \<open>attachments.rs\<close>): session records, turns, the image bytes split out of the
  turns into a table of their own, tombstones of deleted sessions, and the
  retrying writers.

  The embedded database keeps each table sorted by key and applies a transaction
  as a whole or not at all: an operation either fails with the error \<open>fault\<close> and
  changes nothing, or commits. A stored value is what its encoding decodes to,
  or \<open>None\<close> for bytes that do not decode; the codecs themselves are outside this
  theory.
\<close>

section \<open>Tables\<close>

record Database =
  tb_sessions :: session_table
  tb_turns :: "((u64 \<times> u32) \<times> Turn option) list"
  tb_kv :: "((u64 \<times> string) \<times> bytes) list"
  tb_attachments :: "((u64 \<times> u32 \<times> string) \<times> bytes) list"
  tb_deleted :: "(u64 \<times> unit) list"

definition db_ok :: "Database \<Rightarrow> bool" where
  "db_ok db \<longleftrightarrow> btm_ok (tb_sessions db) \<and> btm_ok (tb_turns db) \<and> btm_ok (tb_kv db) \<and>
     btm_ok (tb_attachments db) \<and> btm_ok (tb_deleted db)"

text \<open>The keys of a half-open range, and the table without them.\<close>

definition remove_range :: "'k::linorder \<Rightarrow> 'k \<Rightarrow> ('k \<times> 'v) list \<Rightarrow> ('k \<times> 'v) list" where
  "remove_range lo hi table = filter (\<lambda>(k, _). \<not> (lo \<le> k \<and> k < hi)) table"

definition session_range_end :: "u64 \<Rightarrow> u64" where
  "session_range_end session_id = saturating_add session_id 1"

section \<open>Attachments (attachments.rs)\<close>

definition display_slot :: "u32 \<Rightarrow> string" where
  "display_slot index = ''d'' @ show_nat (unat index)"

definition result_slot :: "string \<Rightarrow> string" where
  "result_slot call_id = ''r'' @ call_id"

definition slot_for :: "ImageKey \<Rightarrow> string" where
  "slot_for key = (case key of IK_Displayed index \<Rightarrow> display_slot index
                   | IK_ToolResult call_id \<Rightarrow> result_slot call_id)"

text \<open>\<open>u32::try_from(i).unwrap_or(u32::MAX)\<close>\<close>

definition slot_index :: "nat \<Rightarrow> u32" where
  "slot_index i = (if i < 2 ^ 32 then of_nat i else - 1)"

definition delete_session_attachments ::
  "u64 \<Rightarrow> ((u64 \<times> u32 \<times> string) \<times> bytes) list \<Rightarrow> ((u64 \<times> u32 \<times> string) \<times> bytes) list" where
  "delete_session_attachments session_id table =
     remove_range (session_id, 0, '''') (session_range_end session_id, 0, '''') table"

definition delete_turn_attachments ::
  "u64 \<Rightarrow> u32 \<Rightarrow> ((u64 \<times> u32 \<times> string) \<times> bytes) list \<Rightarrow> ((u64 \<times> u32 \<times> string) \<times> bytes) list" where
  "delete_turn_attachments session_id turn_id table =
     remove_range (session_id, turn_id, '''') (session_id, saturating_add turn_id 1, '''') table"

definition put_displayed ::
  "u64 \<Rightarrow> u32 \<Rightarrow> nat \<times> DisplayedImageRecord \<Rightarrow>
   ((u64 \<times> u32 \<times> string) \<times> bytes) list \<Rightarrow> ((u64 \<times> u32 \<times> string) \<times> bytes) list" where
  "put_displayed session_id turn_id = (\<lambda>(i, img) table.
     if di_data img = [] then table
     else btm_insert (session_id, turn_id, display_slot (slot_index i)) (di_data img) table)"

definition put_result ::
  "u64 \<Rightarrow> u32 \<Rightarrow> ToolResultRecord \<Rightarrow>
   ((u64 \<times> u32 \<times> string) \<times> bytes) list \<Rightarrow> ((u64 \<times> u32 \<times> string) \<times> bytes) list" where
  "put_result session_id turn_id tr table = (case tr_image tr of
     None \<Rightarrow> table
   | Some img \<Rightarrow> if ir_data img = [] then table
       else btm_insert (session_id, turn_id, result_slot (tr_call_id tr)) (ir_data img) table)"

definition write_turn_attachments ::
  "u64 \<Rightarrow> u32 \<Rightarrow> Turn \<Rightarrow>
   ((u64 \<times> u32 \<times> string) \<times> bytes) list \<Rightarrow> ((u64 \<times> u32 \<times> string) \<times> bytes) list" where
  "write_turn_attachments session_id turn_id turn table =
     fold (put_result session_id turn_id) (t_tool_results turn)
       (fold (put_displayed session_id turn_id) (enumerate 0 (t_displayed_images turn))
         (delete_turn_attachments session_id turn_id table))"

definition reattach_displayed ::
  "(string \<Rightarrow> bytes option) \<Rightarrow> nat \<times> DisplayedImageRecord \<Rightarrow> DisplayedImageRecord" where
  "reattach_displayed lookup = (\<lambda>(i, img).
     if di_data img = []
     then (case lookup (display_slot (slot_index i)) of
             Some data \<Rightarrow> img\<lparr>di_data := data\<rparr> | None \<Rightarrow> img)
     else img)"

definition reattach_result :: "(string \<Rightarrow> bytes option) \<Rightarrow> ToolResultRecord \<Rightarrow> ToolResultRecord" where
  "reattach_result lookup tr = (case tr_image tr of
     None \<Rightarrow> tr
   | Some img \<Rightarrow>
       if ir_data img = []
       then (case lookup (result_slot (tr_call_id tr)) of
               Some data \<Rightarrow> tr\<lparr>tr_image := Some (img\<lparr>ir_data := data\<rparr>)\<rparr> | None \<Rightarrow> tr)
       else tr)"

definition reattach_turn_attachments ::
  "((u64 \<times> u32 \<times> string) \<times> bytes) list \<Rightarrow> u64 \<Rightarrow> u32 \<Rightarrow> Turn \<Rightarrow> Turn" where
  "reattach_turn_attachments attachments session_id turn_id turn =
     (let lookup = (\<lambda>slot. map_of attachments (session_id, turn_id, slot)) in
      turn\<lparr>t_displayed_images := map (reattach_displayed lookup) (enumerate 0 (t_displayed_images turn)),
           t_tool_results := map (reattach_result lookup) (t_tool_results turn)\<rparr>)"

definition read_attachment ::
  "io_error option \<Rightarrow> u64 \<Rightarrow> u32 \<Rightarrow> ImageKey \<Rightarrow> Database \<Rightarrow> io_error + bytes option" where
  "read_attachment fault session_id turn_id key db = (case fault of
     Some e \<Rightarrow> Inl e
   | None \<Rightarrow> Inr (map_of (tb_attachments db) (session_id, turn_id, slot_for key)))"

definition write_attachment ::
  "io_error option \<Rightarrow> u64 \<Rightarrow> u32 \<Rightarrow> ImageKey \<Rightarrow> bytes \<Rightarrow> Database \<Rightarrow> io_error + Database" where
  "write_attachment fault session_id turn_id key data db =
     (if data = [] then Inr db
      else (case fault of
        Some e \<Rightarrow> Inl e
      | None \<Rightarrow> Inr (db\<lparr>tb_attachments :=
          btm_insert (session_id, turn_id, slot_for key) data (tb_attachments db)\<rparr>)))"

section \<open>Sessions (sessions.rs)\<close>

definition db_write_session ::
  "io_error option \<Rightarrow> u64 \<Rightarrow> SessionRecord \<Rightarrow> Database \<Rightarrow> io_error + Database" where
  "db_write_session fault session_id record db =
     map_sum id (\<lambda>t. db\<lparr>tb_sessions := t\<rparr>) (write_session fault session_id record (tb_sessions db))"

definition read_session :: "io_error option \<Rightarrow> u64 \<Rightarrow> Database \<Rightarrow> io_error + SessionRecord option" where
  "read_session fault session_id db = (case fault of
     Some e \<Rightarrow> Inl e
   | None \<Rightarrow> (case map_of (tb_sessions db) session_id of
       Some (Some record) \<Rightarrow> Inr (Some record)
     | Some None \<Rightarrow> Inr None
     | None \<Rightarrow> Inr None))"

fun decodable :: "('k \<times> 'v option) list \<Rightarrow> ('k \<times> 'v) list" where
  "decodable [] = []"
| "decodable ((k, Some v) # rows) = (k, v) # decodable rows"
| "decodable ((k, None) # rows) = decodable rows"

definition read_all_sessions :: "io_error option \<Rightarrow> Database \<Rightarrow> io_error + (u64 \<times> SessionRecord) list" where
  "read_all_sessions fault db = (case fault of
     Some e \<Rightarrow> Inl e
   | None \<Rightarrow> Inr (sort_key fst (decodable (tb_sessions db))))"

definition delete_session :: "io_error option \<Rightarrow> u64 \<Rightarrow> Database \<Rightarrow> io_error + Database" where
  "delete_session fault session_id db = (case fault of
     Some e \<Rightarrow> Inl e
   | None \<Rightarrow> Inr (db
       \<lparr>tb_sessions := btm_remove session_id (tb_sessions db),
        tb_turns := remove_range (session_id, 0) (session_range_end session_id, 0) (tb_turns db),
        tb_kv := remove_range (session_id, '''') (session_range_end session_id, '''') (tb_kv db),
        tb_attachments := delete_session_attachments session_id (tb_attachments db)\<rparr>))"

definition mark_session_deleted :: "io_error option \<Rightarrow> u64 \<Rightarrow> Database \<Rightarrow> io_error + Database" where
  "mark_session_deleted fault session_id db = (case fault of
     Some e \<Rightarrow> Inl e
   | None \<Rightarrow> Inr (db\<lparr>tb_deleted := btm_insert session_id () (tb_deleted db)\<rparr>))"

definition clear_session_tombstone :: "io_error option \<Rightarrow> u64 \<Rightarrow> Database \<Rightarrow> io_error + Database" where
  "clear_session_tombstone fault session_id db = (case fault of
     Some e \<Rightarrow> Inl e
   | None \<Rightarrow> Inr (db\<lparr>tb_deleted := btm_remove session_id (tb_deleted db)\<rparr>))"

text \<open>The \<open>n\<close>-th transaction of a run fails if \<open>faults n\<close> is an error.\<close>

fun purge_loop ::
  "(nat \<Rightarrow> io_error option) \<Rightarrow> nat \<Rightarrow> u64 list \<Rightarrow> usize \<Rightarrow> Database \<Rightarrow> usize \<times> Database" where
  "purge_loop faults n [] purged db = (purged, db)"
| "purge_loop faults n (sid # ids) purged db = (case delete_session (faults n) sid db of
     Inl e \<Rightarrow> purge_loop faults (Suc n) ids purged db
   | Inr db \<Rightarrow> (case clear_session_tombstone (faults (Suc n)) sid db of
       Inl e \<Rightarrow> purge_loop faults (Suc (Suc n)) ids (purged + 1) db
     | Inr db \<Rightarrow> purge_loop faults (Suc (Suc n)) ids (purged + 1) db))"

definition purge_tombstoned_sessions ::
  "(nat \<Rightarrow> io_error option) \<Rightarrow> Database \<Rightarrow> io_error + usize \<times> Database" where
  "purge_tombstoned_sessions faults db = (case faults 0 of
     Some e \<Rightarrow> Inl e
   | None \<Rightarrow> Inr (purge_loop faults 1 (map fst (tb_deleted db)) 0 db))"

section \<open>Turns (sessions.rs)\<close>

definition strip_turn :: "Turn \<Rightarrow> Turn" where
  "strip_turn turn = turn
     \<lparr>t_displayed_images := map (\<lambda>img. img\<lparr>di_data := []\<rparr>) (t_displayed_images turn),
      t_tool_results := map (\<lambda>tr. tr\<lparr>tr_image := map_option (\<lambda>img. img\<lparr>ir_data := []\<rparr>) (tr_image tr)\<rparr>)
        (t_tool_results turn)\<rparr>"

definition write_turn :: "io_error option \<Rightarrow> u64 \<Rightarrow> u32 \<Rightarrow> Turn \<Rightarrow> Database \<Rightarrow> io_error + Database" where
  "write_turn fault session_id turn_id turn db =
     (let storage = strip_turn turn in
      case fault of
        Some e \<Rightarrow> Inl e
      | None \<Rightarrow> Inr (db
          \<lparr>tb_attachments := write_turn_attachments session_id turn_id turn (tb_attachments db),
           tb_turns := btm_insert (session_id, turn_id) (Some storage) (tb_turns db)\<rparr>))"

definition session_rows :: "u64 \<Rightarrow> Database \<Rightarrow> ((u64 \<times> u32) \<times> Turn option) list" where
  "session_rows session_id db =
     filter (\<lambda>(k, _). (session_id, 0) \<le> k \<and> k < (session_range_end session_id, 0)) (tb_turns db)"

definition read_turns :: "io_error option \<Rightarrow> u64 \<Rightarrow> Database \<Rightarrow> io_error + (u32 \<times> Turn) list" where
  "read_turns fault session_id db = (case fault of
     Some e \<Rightarrow> Inl e
   | None \<Rightarrow> Inr (map (\<lambda>((_, idx), turn).
         (idx, reattach_turn_attachments (tb_attachments db) session_id idx turn))
       (decodable (session_rows session_id db))))"

definition delete_session_turns :: "io_error option \<Rightarrow> u64 \<Rightarrow> Database \<Rightarrow> io_error + Database" where
  "delete_session_turns fault session_id db = (case fault of
     Some e \<Rightarrow> Inl e
   | None \<Rightarrow> Inr (db
       \<lparr>tb_turns := filter (\<lambda>(k, _). fst k \<noteq> session_id) (tb_turns db),
        tb_attachments := delete_session_attachments session_id (tb_attachments db)\<rparr>))"

section \<open>Retrying writers (sessions.rs)\<close>

text \<open>Up to three retries; \<open>run k\<close> is the attempt number \<open>k\<close>.\<close>

function retry_loop :: "nat \<Rightarrow> (nat \<Rightarrow> 'e + 'a) \<Rightarrow> 'e + 'a" where
  "retry_loop attempts run = (case run attempts of
     Inr x \<Rightarrow> Inr x
   | Inl e \<Rightarrow> if attempts < 3 then retry_loop (Suc attempts) run else Inl e)"
  by pat_completeness auto
termination by (relation "measure (\<lambda>(attempts, _). 3 - attempts)") auto

declare retry_loop.simps [simp del]

definition write_turn_retry ::
  "(nat \<Rightarrow> io_error option) \<Rightarrow> u64 \<Rightarrow> u32 \<Rightarrow> Turn \<Rightarrow> Database \<Rightarrow> io_error + Database" where
  "write_turn_retry faults session_id turn_id turn db =
     retry_loop 0 (\<lambda>k. write_turn (faults k) session_id turn_id turn db)"

definition write_session_retry ::
  "(nat \<Rightarrow> io_error option) \<Rightarrow> u64 \<Rightarrow> SessionRecord \<Rightarrow> Database \<Rightarrow> io_error + Database" where
  "write_session_retry faults session_id record db =
     retry_loop 0 (\<lambda>k. db_write_session (faults k) session_id record db)"

definition delete_session_turns_retry ::
  "(nat \<Rightarrow> io_error option) \<Rightarrow> u64 \<Rightarrow> Database \<Rightarrow> io_error + Database" where
  "delete_session_turns_retry faults session_id db =
     retry_loop 0 (\<lambda>k. delete_session_turns (faults k) session_id db)"

section \<open>Keys and ranges\<close>

lemma slot_index_inject: "i < 2 ^ 32 \<Longrightarrow> j < 2 ^ 32 \<Longrightarrow> slot_index i = slot_index j \<longleftrightarrow> i = j"
  by (simp add: slot_index_def word_of_nat_eq_iff take_bit_nat_eq_self)

lemma slot_inject [simp]:
  "display_slot i = display_slot j \<longleftrightarrow> i = j"
  "result_slot c = result_slot d \<longleftrightarrow> c = d"
  "display_slot i \<noteq> result_slot c" "result_slot c \<noteq> display_slot i"
  by (auto simp: display_slot_def result_slot_def show_nat_inject word_unat_eq_iff)

lemma slot_for_inject: "slot_for k = slot_for k' \<longleftrightarrow> k = k'"
  by (cases k; cases k') (simp_all add: slot_for_def)

lemma range_end_less:
  fixes a b :: "'a::len word"
  assumes "b \<noteq> - 1"
  shows "a < saturating_add b 1 \<longleftrightarrow> a \<le> b"
proof -
  have "unat b \<noteq> 2 ^ LENGTH('a) - 1" using assms by (metis unat_max_word word_unat_eq_iff)
  moreover have "unat b < 2 ^ LENGTH('a)" by (rule unsigned_less)
  ultimately have "unat b + 1 \<le> 2 ^ LENGTH('a) - 1" by linarith
  then have "unat (saturating_add b 1) = unat b + 1" by (simp add: unat_saturating_add)
  then show ?thesis by (simp add: word_less_nat_alt word_le_nat_alt less_Suc_eq_le)
qed

lemma pair_range_iff:
  fixes sid :: u64 and least :: "'b::linorder"
  assumes "sid \<noteq> - 1" and "\<And>x. least \<le> x"
  shows "(sid, least) \<le> k \<and> k < (session_range_end sid, least) \<longleftrightarrow> fst k = sid"
proof -
  have "a < session_range_end sid \<longleftrightarrow> a \<le> sid" for a
    using range_end_less [OF assms(1)] by (simp add: session_range_end_def)
  moreover have "\<not> x < least" for x using assms(2) [of x] by simp
  ultimately show ?thesis using assms(2) by (cases k) (auto simp: less_eq_prod_def less_prod_def)
qed

lemma triple_least: "(0 :: u32, '''') \<le> x"
  by (cases x) (simp add: less_eq_prod_def word_gt_0)

lemma turn_range_iff:
  fixes sid :: u64 and tid :: u32 and k :: "u64 \<times> u32 \<times> string"
  assumes "tid \<noteq> - 1"
  shows "(sid, tid, '''') \<le> k \<and> k < (sid, saturating_add tid 1, '''') \<longleftrightarrow>
    fst k = sid \<and> fst (snd k) = tid"
proof -
  have "a < saturating_add tid 1 \<longleftrightarrow> a \<le> tid" for a using range_end_less [OF assms] .
  then have hi: "(a, t, s) < (sid, saturating_add tid 1, '''') \<longleftrightarrow> a < sid \<or> a = sid \<and> t \<le> tid"
    for a t and s :: string by (auto simp: le_less)
  have lo: "(sid, tid, '''') \<le> (a, t, s) \<longleftrightarrow> sid < a \<or> sid = a \<and> tid \<le> t" for a t and s :: string
    by (cases s) (auto simp: le_less)
  show ?thesis
    by (cases k) (simp only: lo hi fst_conv snd_conv, metis order.antisym order.refl order_less_asym)
qed

lemma map_of_remove_range:
  "map_of (remove_range lo hi table) k = (if lo \<le> k \<and> k < hi then None else map_of table k)"
  by (induction table) (auto simp: remove_range_def)

lemma map_of_filter_key: "map_of (filter (\<lambda>(k, _). P k) m) k = (if P k then map_of m k else None)"
  by (induction m) auto

section \<open>Attachments, read back\<close>

lemma put_displayed_other:
  "(\<And>i. i \<in> {n..<n + length imgs} \<Longrightarrow> k \<noteq> (sid, tid, display_slot (slot_index i))) \<Longrightarrow>
     map_of (fold (put_displayed sid tid) (enumerate n imgs) table) k = map_of table k"
proof (induction imgs arbitrary: n table)
  case (Cons img imgs)
  have "map_of (fold (put_displayed sid tid) (enumerate (Suc n) imgs) t) k = map_of t k" for t
    using Cons.prems by (intro Cons.IH) simp
  moreover have "k \<noteq> (sid, tid, display_slot (slot_index n))" using Cons.prems by simp
  ultimately show ?case by (simp add: put_displayed_def map_of_btm_insert)
qed simp

lemma put_displayed_hit:
  assumes "i < length imgs" "n + length imgs \<le> 2 ^ 32"
  shows "map_of (fold (put_displayed sid tid) (enumerate n imgs) table) (sid, tid, display_slot (slot_index (n + i))) =
    (if di_data (imgs ! i) = [] then map_of table (sid, tid, display_slot (slot_index (n + i)))
     else Some (di_data (imgs ! i)))"
  using assms
proof (induction imgs arbitrary: n i table)
  case (Cons img imgs)
  show ?case
  proof (cases i)
    case 0
    have "map_of (fold (put_displayed sid tid) (enumerate (Suc n) imgs) t) (sid, tid, display_slot (slot_index n)) =
        map_of t (sid, tid, display_slot (slot_index n))" for t
      using Cons.prems(2) by (intro put_displayed_other) (auto simp: slot_index_inject)
    then show ?thesis by (simp add: 0 put_displayed_def map_of_btm_insert)
  next
    case (Suc j)
    have "slot_index (Suc (n + j)) \<noteq> slot_index n"
      using Cons.prems Suc by (simp add: slot_index_inject)
    then show ?thesis
      using Cons.IH [of j "Suc n"] Cons.prems Suc by (simp add: put_displayed_def map_of_btm_insert)
  qed
qed simp

definition image_bytes :: "ToolResultRecord \<Rightarrow> bytes" where
  "image_bytes tr = (case tr_image tr of None \<Rightarrow> [] | Some img \<Rightarrow> ir_data img)"

lemma put_result_step:
  "map_of (put_result sid tid tr table) k =
     (if k = (sid, tid, result_slot (tr_call_id tr)) \<and> image_bytes tr \<noteq> [] then Some (image_bytes tr)
      else map_of table k)"
  by (auto simp: put_result_def image_bytes_def map_of_btm_insert split: option.split)

lemma put_result_other:
  "(\<And>tr. tr \<in> set trs \<Longrightarrow> k \<noteq> (sid, tid, result_slot (tr_call_id tr))) \<Longrightarrow>
     map_of (fold (put_result sid tid) trs table) k = map_of table k"
proof (induction trs arbitrary: table)
  case (Cons tr trs)
  have "map_of (fold (put_result sid tid) trs t) k = map_of t k" for t
    using Cons.prems by (intro Cons.IH) simp
  moreover have "k \<noteq> (sid, tid, result_slot (tr_call_id tr))" using Cons.prems by simp
  ultimately show ?case by (simp add: put_result_step)
qed simp

lemma put_result_hit:
  assumes "tr \<in> set trs" "distinct (map tr_call_id trs)"
  shows "map_of (fold (put_result sid tid) trs table) (sid, tid, result_slot (tr_call_id tr)) =
    (if image_bytes tr = [] then map_of table (sid, tid, result_slot (tr_call_id tr))
     else Some (image_bytes tr))"
  using assms
proof (induction trs arbitrary: table)
  case (Cons x trs)
  show ?case
  proof (cases "tr = x")
    case True
    have "map_of (fold (put_result sid tid) trs t) (sid, tid, result_slot (tr_call_id tr)) =
        map_of t (sid, tid, result_slot (tr_call_id tr))" for t
      using Cons.prems(2) True by (intro put_result_other) (auto simp: image_iff)
    then show ?thesis
      by (simp add: True put_result_step)
  next
    case False
    then have mem: "tr \<in> set trs" using Cons.prems(1) by simp
    then have "tr_call_id x \<noteq> tr_call_id tr" using Cons.prems(2) by (auto simp: image_iff)
    then show ?thesis
      using Cons.IH [OF mem] Cons.prems(2)
      by (simp add: put_result_step)
  qed
qed simp

lemma delete_turn_attachments_lookup:
  assumes "tid \<noteq> - 1"
  shows "map_of (delete_turn_attachments sid tid table) (s, t, slot) =
    (if s = sid \<and> t = tid then None else map_of table (s, t, slot))"
  using turn_range_iff [OF assms, of sid "(s, t, slot)"]
  by (simp only: delete_turn_attachments_def map_of_remove_range fst_conv snd_conv)

lemma write_turn_attachments_other:
  assumes "tid \<noteq> - 1" "(s, t) \<noteq> (sid, tid)"
  shows "map_of (write_turn_attachments sid tid turn table) (s, t, slot) = map_of table (s, t, slot)"
  using assms
  by (auto simp: write_turn_attachments_def put_result_other put_displayed_other
      delete_turn_attachments_lookup)

lemma write_turn_attachments_displayed:
  assumes "tid \<noteq> - 1" "i < length (t_displayed_images turn)" "length (t_displayed_images turn) \<le> 2 ^ 32"
  shows "map_of (write_turn_attachments sid tid turn table) (sid, tid, display_slot (slot_index i)) =
    (if di_data (t_displayed_images turn ! i) = [] then None else Some (di_data (t_displayed_images turn ! i)))"
  using put_displayed_hit [of i "t_displayed_images turn" 0 sid tid] assms
  by (simp add: write_turn_attachments_def put_result_other delete_turn_attachments_lookup)

lemma write_turn_attachments_result:
  assumes "tid \<noteq> - 1" "tr \<in> set (t_tool_results turn)" "distinct (map tr_call_id (t_tool_results turn))"
  shows "map_of (write_turn_attachments sid tid turn table) (sid, tid, result_slot (tr_call_id tr)) =
    (if image_bytes tr = [] then None else Some (image_bytes tr))"
  using assms
  by (simp add: write_turn_attachments_def put_result_hit put_displayed_other delete_turn_attachments_lookup)

lemma reattach_stripped:
  assumes "tid \<noteq> - 1" "length (t_displayed_images turn) \<le> 2 ^ 32"
    and "distinct (map tr_call_id (t_tool_results turn))"
  shows "reattach_turn_attachments (write_turn_attachments sid tid turn table) sid tid (strip_turn turn) = turn"
proof -
  let ?lookup = "\<lambda>slot. map_of (write_turn_attachments sid tid turn table) (sid, tid, slot)"
  have "map (reattach_displayed ?lookup)
      (enumerate 0 (map (\<lambda>img. img\<lparr>di_data := []\<rparr>) (t_displayed_images turn))) = t_displayed_images turn"
    using assms(1,2)
    by (intro nth_equalityI)
       (auto simp: nth_enumerate_eq reattach_displayed_def write_turn_attachments_displayed)
  moreover have "reattach_result ?lookup (tr\<lparr>tr_image := map_option (\<lambda>img. img\<lparr>ir_data := []\<rparr>) (tr_image tr)\<rparr>) = tr"
    if "tr \<in> set (t_tool_results turn)" for tr
    using write_turn_attachments_result [OF assms(1) that assms(3), of sid table]
    by (cases "tr_image tr") (auto simp: reattach_result_def image_bytes_def)
  then have "map (reattach_result ?lookup) (map (\<lambda>tr. tr\<lparr>tr_image :=
      map_option (\<lambda>img. img\<lparr>ir_data := []\<rparr>) (tr_image tr)\<rparr>) (t_tool_results turn)) = t_tool_results turn"
    by (simp add: map_idI)
  ultimately show ?thesis by (simp add: reattach_turn_attachments_def strip_turn_def)
qed

section \<open>Reading turns\<close>

lemma pair_range_only:
  fixes sid :: u64 and least :: "'b::linorder"
  assumes "\<And>x. least \<le> x" "(sid, least) \<le> k" "k < (session_range_end sid, least)"
  shows "fst k = sid \<and> sid \<noteq> - 1"
proof (cases "sid = - 1")
  case True
  then have "session_range_end sid = sid"
    by (simp add: session_range_end_def saturating_add_def unat_max_word)
  then show ?thesis using assms(2,3) by simp
next
  case False
  then show ?thesis using pair_range_iff [OF False assms(1)] assms(2,3) by blast
qed

lemma decodable_keys: "set (map fst (decodable rows)) \<subseteq> set (map fst rows)"
  by (induction rows rule: decodable.induct) auto

lemma map_of_read:
  assumes "distinct (map fst rows)"
  shows "map_of (map (\<lambda>((_, idx), turn). (idx, f idx turn))
      (decodable (filter (\<lambda>(k, _). fst k = sid) rows))) idx =
    (case map_of rows (sid, idx) of Some (Some turn) \<Rightarrow> Some (f idx turn) | _ \<Rightarrow> None)"
  using assms
proof (induction rows rule: decodable.induct)
  case (2 k v rows)
  then show ?case by (cases k) auto
next
  case (3 k rows)
  have "map_of rows k = None" using 3 by (simp add: map_of_eq_None_iff)
  then show ?case using 3 by (cases k) auto
qed simp

lemma read_turns_lookup:
  assumes "btm_ok (tb_turns db)" "sid \<noteq> - 1"
  shows "\<exists>ts. read_turns None sid db = Inr ts \<and>
    (\<forall>idx. map_of ts idx = (case map_of (tb_turns db) (sid, idx) of
       Some (Some turn) \<Rightarrow> Some (reattach_turn_attachments (tb_attachments db) sid idx turn) | _ \<Rightarrow> None))"
proof -
  have "(sid, 0) \<le> k \<and> k < (session_range_end sid, 0) \<longleftrightarrow> fst k = sid" for k :: "u64 \<times> u32"
    by (rule pair_range_iff [OF assms(2)]) simp
  then have rows: "session_rows sid db = filter (\<lambda>(k, _). fst k = sid) (tb_turns db)"
    by (simp add: session_rows_def)
  show ?thesis
    using map_of_read [OF btm_ok_distinct [OF assms(1)], of "reattach_turn_attachments (tb_attachments db) sid" sid]
    by (simp add: read_turns_def rows)
qed

lemma filter_btm_insert_out:
  "\<not> P k \<Longrightarrow> filter (\<lambda>(k, _). P k) (btm_insert k v m) = filter (\<lambda>(k, _). P k) m"
  by (induction k v m rule: btm_insert.induct) auto

lemma read_turns_other:
  assumes "write_turn None sid tid turn db = Inr db'" "other \<noteq> sid" "tid \<noteq> - 1"
  shows "read_turns None other db' = read_turns None other db"
proof -
  have db': "tb_turns db' = btm_insert (sid, tid) (Some (strip_turn turn)) (tb_turns db)"
      "tb_attachments db' = write_turn_attachments sid tid turn (tb_attachments db)"
    using assms(1) by (auto simp: write_turn_def Let_def)
  have "\<not> ((other, 0) \<le> (sid, tid) \<and> (sid, tid) < (session_range_end other, 0))"
    using pair_range_only [of "0 :: u32" other "(sid, tid)"] assms(2) by auto
  then have "session_rows other db' = session_rows other db"
    by (simp only: session_rows_def db' filter_btm_insert_out not_False_eq_True)
  moreover have "reattach_turn_attachments (tb_attachments db') other idx =
      reattach_turn_attachments (tb_attachments db) other idx" for idx
    using assms by (intro ext) (simp add: reattach_turn_attachments_def db' write_turn_attachments_other)
  ultimately show ?thesis by (simp add: read_turns_def)
qed

section \<open>Deleting a session\<close>

definition session_gone :: "u64 \<Rightarrow> Database \<Rightarrow> bool" where
  "session_gone sid db \<longleftrightarrow> map_of (tb_sessions db) sid = None \<and>
     (\<forall>tid. map_of (tb_turns db) (sid, tid) = None) \<and> (\<forall>key. map_of (tb_kv db) (sid, key) = None) \<and>
     (\<forall>tid slot. map_of (tb_attachments db) (sid, tid, slot) = None)"

definition same_session :: "u64 \<Rightarrow> Database \<Rightarrow> Database \<Rightarrow> bool" where
  "same_session sid db db' \<longleftrightarrow> map_of (tb_sessions db') sid = map_of (tb_sessions db) sid \<and>
     (\<forall>tid. map_of (tb_turns db') (sid, tid) = map_of (tb_turns db) (sid, tid)) \<and>
     (\<forall>key. map_of (tb_kv db') (sid, key) = map_of (tb_kv db) (sid, key)) \<and>
     (\<forall>tid slot. map_of (tb_attachments db') (sid, tid, slot) = map_of (tb_attachments db) (sid, tid, slot))"

lemma same_session_refl [simp]: "same_session sid db db"
  by (simp add: same_session_def)

lemma same_session_trans: "same_session sid a b \<Longrightarrow> same_session sid b c \<Longrightarrow> same_session sid a c"
  by (simp add: same_session_def)

lemma session_gone_same: "session_gone sid a \<Longrightarrow> same_session sid a b \<Longrightarrow> session_gone sid b"
  by (simp add: session_gone_def same_session_def)

lemma delete_session_effect:
  assumes "delete_session None sid db = Inr db'" "sid \<noteq> - 1"
  shows "session_gone sid db'" "other \<noteq> sid \<Longrightarrow> same_session other db db'" "tb_deleted db' = tb_deleted db"
proof -
  have 1: "(sid, 0) \<le> k \<and> k < (session_range_end sid, 0) \<longleftrightarrow> fst k = sid" for k :: "u64 \<times> u32"
    by (rule pair_range_iff [OF assms(2)]) simp
  have 2: "(sid, '''') \<le> k \<and> k < (session_range_end sid, '''') \<longleftrightarrow> fst k = sid" for k :: "u64 \<times> string"
    by (rule pair_range_iff [OF assms(2)]) simp
  have 3: "(sid, 0, '''') \<le> k \<and> k < (session_range_end sid, 0, '''') \<longleftrightarrow> fst k = sid"
    for k :: "u64 \<times> u32 \<times> string"
    by (rule pair_range_iff [OF assms(2)]) (rule triple_least)
  have tb: "tb_sessions db' = btm_remove sid (tb_sessions db)"
      "tb_turns db' = remove_range (sid, 0) (session_range_end sid, 0) (tb_turns db)"
      "tb_kv db' = remove_range (sid, '''') (session_range_end sid, '''') (tb_kv db)"
      "tb_attachments db' = remove_range (sid, 0, '''') (session_range_end sid, 0, '''') (tb_attachments db)"
      "tb_deleted db' = tb_deleted db"
    using assms(1) by (auto simp: delete_session_def delete_session_attachments_def)
  have db': "tb_sessions db' = btm_remove sid (tb_sessions db)"
      "map_of (tb_turns db') k1 = (if fst k1 = sid then None else map_of (tb_turns db) k1)"
      "map_of (tb_kv db') k2 = (if fst k2 = sid then None else map_of (tb_kv db) k2)"
      "map_of (tb_attachments db') k3 = (if fst k3 = sid then None else map_of (tb_attachments db) k3)"
      "tb_deleted db' = tb_deleted db" for k1 k2 k3
    unfolding tb map_of_remove_range 1 2 3 by simp_all
  show "session_gone sid db'" by (simp add: session_gone_def db' map_of_btm_remove)
  show "other \<noteq> sid \<Longrightarrow> same_session other db db'" by (simp add: same_session_def db' map_of_btm_remove)
  show "tb_deleted db' = tb_deleted db" by (rule db')
qed

lemma purge_loop_effect:
  assumes "distinct ids" "- 1 \<notin> set ids" "purge_loop faults n ids purged db = (purged', db')"
  shows "sid \<notin> set ids \<Longrightarrow>
      same_session sid db db' \<and> map_of (tb_deleted db') sid = map_of (tb_deleted db) sid"
    and "sid \<in> set ids \<Longrightarrow>
      session_gone sid db' \<or> same_session sid db db' \<and> map_of (tb_deleted db') sid = map_of (tb_deleted db) sid"
    and "faults = (\<lambda>_. None) \<Longrightarrow> sid \<in> set ids \<Longrightarrow> session_gone sid db' \<and> map_of (tb_deleted db') sid = None"
proof -
  have "(sid \<notin> set ids \<longrightarrow> same_session sid db db' \<and> map_of (tb_deleted db') sid = map_of (tb_deleted db) sid) \<and>
    (sid \<in> set ids \<longrightarrow>
      session_gone sid db' \<or> same_session sid db db' \<and> map_of (tb_deleted db') sid = map_of (tb_deleted db) sid) \<and>
    (faults = (\<lambda>_. None) \<and> sid \<in> set ids \<longrightarrow> session_gone sid db' \<and> map_of (tb_deleted db') sid = None)"
    using assms
  proof (induction ids arbitrary: n purged db)
    case (Cons x ids)
    have prems: "distinct ids" "- 1 \<notin> set ids" "x \<noteq> - 1" "x \<notin> set ids" using Cons.prems by auto
    show ?case
    proof (cases "faults n")
      case (Some e)
      then have "purge_loop faults (Suc n) ids purged db = (purged', db')"
        using Cons.prems(3) by (simp add: delete_session_def)
      from Cons.IH [OF prems(1,2) this] prems(4) Some show ?thesis by auto
    next
      case None
      then obtain db1 where d: "delete_session None x db = Inr db1" by (simp add: delete_session_def)
      define db2 where "db2 = (case faults (Suc n) of
        Some _ \<Rightarrow> db1 | None \<Rightarrow> db1\<lparr>tb_deleted := btm_remove x (tb_deleted db1)\<rparr>)"
      have loop: "purge_loop faults (Suc (Suc n)) ids (purged + 1) db2 = (purged', db')"
        using Cons.prems(3) None d
        by (auto simp: db2_def clear_session_tombstone_def split: option.splits)
      note eff = delete_session_effect [OF d prems(3)]
      have tables: "same_session s db1 db2" "session_gone x db2" for s
        using eff(1) by (auto simp: db2_def same_session_def session_gone_def split: option.split)
      have tomb: "s \<noteq> x \<Longrightarrow> map_of (tb_deleted db2) s = map_of (tb_deleted db) s"
          "faults (Suc n) = None \<Longrightarrow> map_of (tb_deleted db2) x = None" for s
        using eff(3) by (auto simp: db2_def map_of_btm_remove split: option.split)
      note ih = Cons.IH [OF prems(1,2) loop]
      show ?thesis
      proof (cases "sid = x")
        case True
        then have "same_session x db2 db'" "map_of (tb_deleted db') x = map_of (tb_deleted db2) x"
          using ih prems(4) by auto
        then show ?thesis using True session_gone_same [OF tables(2)] tomb(2) by auto
      next
        case False
        then have "same_session sid db db2"
          using same_session_trans [OF eff(2) tables(1)] by blast
        then show ?thesis using ih False tomb(1) [OF False] same_session_trans [of sid db db2 db'] by auto
      qed
    qed
  qed simp
  then show "sid \<notin> set ids \<Longrightarrow>
      same_session sid db db' \<and> map_of (tb_deleted db') sid = map_of (tb_deleted db) sid"
    and "sid \<in> set ids \<Longrightarrow>
      session_gone sid db' \<or> same_session sid db db' \<and> map_of (tb_deleted db') sid = map_of (tb_deleted db) sid"
    and "faults = (\<lambda>_. None) \<Longrightarrow> sid \<in> set ids \<Longrightarrow> session_gone sid db' \<and> map_of (tb_deleted db') sid = None"
    by blast+
qed

text \<open>A turn reads back as it was written, however many attempts that took.\<close>

lemma write_turn_reads_back:
  assumes "btm_ok (tb_turns db)" and "sid \<noteq> - 1" and "tid \<noteq> - 1"
    and "length (t_displayed_images turn) \<le> 2 ^ 32"
    and "distinct (map tr_call_id (t_tool_results turn))"
    and "write_turn None sid tid turn db = Inr db'"
  shows "\<exists>ts'. read_turns None sid db' = Inr ts' \<and> map_of ts' tid = Some turn"
proof -
  have db': "db' = db\<lparr>tb_attachments := write_turn_attachments sid tid turn (tb_attachments db),
       tb_turns := btm_insert (sid, tid) (Some (strip_turn turn)) (tb_turns db)\<rparr>"
    using assms(6) by (simp add: write_turn_def)
  have "btm_ok (tb_turns db')" using assms(1) by (simp add: db' btm_ok_insert)
  from read_turns_lookup [OF this assms(2)] obtain ts' where ts': "read_turns None sid db' = Inr ts'"
      "map_of ts' tid = (case map_of (tb_turns db') (sid, tid) of
         Some (Some turn) \<Rightarrow> Some (reattach_turn_attachments (tb_attachments db') sid tid turn) | _ \<Rightarrow> None)"
    by blast
  have "map_of ts' tid = Some turn"
    using reattach_stripped [OF assms(3-5)] by (simp add: ts'(2)) (simp add: db' map_of_btm_insert)
  then show ?thesis using ts'(1) by blast
qed

lemma retry_loop_Inr: "retry_loop n run = Inr x \<Longrightarrow> \<exists>k. run k = Inr x"
  by (induction n run rule: retry_loop.induct) (subst (asm) (2) retry_loop.simps, auto split: sum.splits if_splits)

lemma write_turn_retry_Inr:
  assumes "write_turn_retry faults sid tid turn db = Inr db'"
  shows "write_turn None sid tid turn db = Inr db'"
proof -
  obtain k where "write_turn (faults k) sid tid turn db = Inr db'"
    using assms retry_loop_Inr by (fastforce simp: write_turn_retry_def)
  then show ?thesis by (auto simp: write_turn_def split: option.splits)
qed

section \<open>Properties\<close>

definition empty_db :: Database where
  "empty_db = \<lparr>tb_sessions = [], tb_turns = [], tb_kv = [], tb_attachments = [], tb_deleted = []\<rparr>"

definition picture_turn :: Turn where
  "picture_turn = (fresh_turn 0 None)\<lparr>
     t_displayed_images := [\<lparr>di_metadata = \<lparr>im_mime_type = ''image/png'', im_width = 1, im_height = 1,
        im_byte_len = 2, im_alt = None\<rparr>, di_data = [1, 2], di_tool_call_id = None\<rparr>]\<rparr>"

text \<open>
  Storing a turn and reading the session back gives the turn, image bytes
  included, although the bytes are stored apart from it: the turn read under its
  id is the turn written, every other turn of the session reads as before, and so
  does every other session. It holds whatever the same id held before, so no
  bytes of an earlier version of the turn survive.
\<close>

theorem turn_store_roundtrip:
  assumes "btm_ok (tb_turns db)" and "sid \<noteq> - 1" and "tid \<noteq> - 1"
    and "length (t_displayed_images turn) \<le> 2 ^ 32"
    and "distinct (map tr_call_id (t_tool_results turn))"
  shows "\<exists>db' ts ts'. write_turn None sid tid turn db = Inr db' \<and>
    read_turns None sid db = Inr ts \<and> read_turns None sid db' = Inr ts' \<and>
    map_of ts' tid = Some turn \<and> (\<forall>t. t \<noteq> tid \<longrightarrow> map_of ts' t = map_of ts t) \<and>
    (\<forall>other. other \<noteq> sid \<longrightarrow> read_turns None other db' = read_turns None other db)"
proof -
  define db' where "db' = db
      \<lparr>tb_attachments := write_turn_attachments sid tid turn (tb_attachments db),
       tb_turns := btm_insert (sid, tid) (Some (strip_turn turn)) (tb_turns db)\<rparr>"
  have w: "write_turn None sid tid turn db = Inr db'" by (simp add: write_turn_def db'_def)
  have ok': "btm_ok (tb_turns db')" using assms(1) by (simp add: db'_def btm_ok_insert)
  obtain ts where ts: "read_turns None sid db = Inr ts" "\<And>idx. map_of ts idx =
      (case map_of (tb_turns db) (sid, idx) of
         Some (Some turn) \<Rightarrow> Some (reattach_turn_attachments (tb_attachments db) sid idx turn) | _ \<Rightarrow> None)"
    using read_turns_lookup [OF assms(1,2)] by blast
  obtain ts' where ts': "read_turns None sid db' = Inr ts'" "\<And>idx. map_of ts' idx =
      (case map_of (tb_turns db') (sid, idx) of
         Some (Some turn) \<Rightarrow> Some (reattach_turn_attachments (tb_attachments db') sid idx turn) | _ \<Rightarrow> None)"
    using read_turns_lookup [OF ok' assms(2)] by blast
  have "map_of ts' tid = Some turn" using write_turn_reads_back [OF assms w] ts'(1) by simp
  moreover have "map_of ts' t = map_of ts t" if "t \<noteq> tid" for t
  proof -
    have "reattach_turn_attachments (tb_attachments db') sid t = reattach_turn_attachments (tb_attachments db) sid t"
      using that assms(3)
      by (intro ext) (simp add: reattach_turn_attachments_def db'_def write_turn_attachments_other)
    moreover have "map_of (tb_turns db') (sid, t) = map_of (tb_turns db) (sid, t)"
      using that by (simp add: db'_def map_of_btm_insert)
    ultimately show ?thesis by (simp only: ts(2) ts'(2))
  qed
  ultimately show ?thesis using w ts(1) ts'(1) read_turns_other [OF w _ assms(3)] by blast
qed

theorem turn_store_roundtrip_witness:
  "\<exists>db' ts'. write_turn None 4 0 picture_turn empty_db = Inr db' \<and> read_turns None 4 db' = Inr ts' \<and>
     map_of ts' 0 = Some picture_turn"
  using turn_store_roundtrip [of empty_db 4 0 picture_turn]
  by (auto simp: empty_db_def picture_turn_def fresh_turn_def)

text \<open>
  C34. Purging tombstoned sessions at start-up never leaves a session half deleted
  and never touches a live one: whichever of its transactions fail, a session
  without a tombstone keeps every record, turn, key and attachment; a session
  with one is either gone from every table or wholly there with its tombstone, so
  that the next start tries again; and when no transaction fails, all of them are
  gone and no tombstone is left.
\<close>

theorem purge_all_or_nothing:
  assumes "btm_ok (tb_deleted db)" and "map_of (tb_deleted db) (- 1) = None" and "faults 0 = None"
  shows "\<exists>purged db'. purge_tombstoned_sessions faults db = Inr (purged, db') \<and>
    (\<forall>sid. map_of (tb_deleted db) sid = None \<longrightarrow>
       same_session sid db db' \<and> map_of (tb_deleted db') sid = None) \<and>
    (\<forall>sid. map_of (tb_deleted db) sid \<noteq> None \<longrightarrow>
       session_gone sid db' \<or> same_session sid db db' \<and> map_of (tb_deleted db') sid \<noteq> None) \<and>
    (faults = (\<lambda>_. None) \<longrightarrow>
       (\<forall>sid. map_of (tb_deleted db') sid = None \<and>
          (map_of (tb_deleted db) sid \<noteq> None \<longrightarrow> session_gone sid db')))"
proof -
  let ?ids = "map fst (tb_deleted db)"
  obtain purged db' where run: "purge_loop faults 1 ?ids 0 db = (purged, db')" by fastforce
  have mem: "sid \<in> set ?ids \<longleftrightarrow> map_of (tb_deleted db) sid \<noteq> None" for sid
    by (simp add: map_of_eq_None_iff)
  have "- 1 \<notin> set ?ids" using assms(2) mem by blast
  note eff = purge_loop_effect [OF btm_ok_distinct [OF assms(1)] this run, unfolded mem]
  have "purge_tombstoned_sessions faults db = Inr (purged, db')"
    using run assms(3) by (simp add: purge_tombstoned_sessions_def)
  then show ?thesis using eff by (intro exI [of _ purged] exI [of _ db']) metis
qed

theorem purge_all_or_nothing_witness:
  "\<exists>purged db'. purge_tombstoned_sessions (\<lambda>_. None)
     (empty_db\<lparr>tb_deleted := [(4, ())], tb_kv := [((4, ''a''), [1]), ((5, ''a''), [2])]\<rparr>) = Inr (purged, db') \<and>
     session_gone 4 db' \<and> map_of (tb_kv db') (5, ''a'') = Some [2]"
proof -
  let ?db = "empty_db\<lparr>tb_deleted := [(4, ())], tb_kv := [((4, ''a''), [1]), ((5, ''a''), [2])]\<rparr>"
  have "btm_ok (tb_deleted ?db)" "map_of (tb_deleted ?db) (- 1) = None" by (simp_all add: btm_ok_def)
  from purge_all_or_nothing [OF this, of "\<lambda>_. None"] obtain purged db' where
    p: "purge_tombstoned_sessions (\<lambda>_. None) ?db = Inr (purged, db')"
      "\<forall>sid. map_of (tb_deleted ?db) sid = None \<longrightarrow> same_session sid ?db db'"
      "\<forall>sid. map_of (tb_deleted ?db) sid \<noteq> None \<longrightarrow> session_gone sid db'"
    by blast
  have "session_gone 4 db'" "same_session 5 ?db db'" using p(2,3) by (auto simp: empty_db_def)
  then show ?thesis using p(1) by (auto simp: same_session_def)
qed

text \<open>
  A turn write is retried until it commits, four attempts in all: the write
  takes effect if any of them goes through and exactly once, and if all four fail
  the store is as it was and the last error is reported.
\<close>

theorem write_turn_retry_persists:
  "write_turn_retry faults sid tid turn db =
     (if faults 0 = None \<or> faults 1 = None \<or> faults 2 = None \<or> faults 3 = None
      then write_turn None sid tid turn db else Inl (the (faults 3)))"
proof -
  have w: "write_turn f sid tid turn db =
      (case f of None \<Rightarrow> write_turn None sid tid turn db | Some e \<Rightarrow> Inl e)" for f
    by (simp add: write_turn_def split: option.split)
  obtain db' where db': "write_turn None sid tid turn db = Inr db'" by (simp add: write_turn_def)
  have four: "retry_loop 0 run = (case run 0 of Inr x \<Rightarrow> Inr x | Inl _ \<Rightarrow>
      (case run 1 of Inr x \<Rightarrow> Inr x | Inl _ \<Rightarrow> (case run 2 of Inr x \<Rightarrow> Inr x | Inl _ \<Rightarrow> run 3)))"
    for run :: "nat \<Rightarrow> io_error + Database"
    by (simp add: retry_loop.simps [of 0] retry_loop.simps [of "Suc 0"] retry_loop.simps [of "Suc (Suc 0)"]
        retry_loop.simps [of "Suc (Suc (Suc 0))"] numeral_2_eq_2 numeral_3_eq_3 split: sum.split)
  show ?thesis
    unfolding write_turn_retry_def four w [of "faults _"] db' by (auto split: option.split)
qed

end
