(* ===== verification/Rust_Str.thy ===== *)
theory Rust_Str
  imports Prelude
begin

text \<open>
  The part of Rust's string library the sources use. A \<open>String\<close> is its UTF-8 byte
  sequence; \<open>chars\<close> gives its Unicode scalar values, \<open>from_utf8_lossy\<close> decodes
  arbitrary bytes and replaces every maximal ill-formed prefix by U+FFFD, and
  \<open>trim\<close> removes white space at both ends.
\<close>

type_synonym scalar = nat

definition is_scalar :: "scalar \<Rightarrow> bool" where
  "is_scalar c \<longleftrightarrow> c < 0xD800 \<or> 0xE000 \<le> c \<and> c < 0x110000"

text \<open>Encoding one scalar value, as a list of byte values.\<close>

definition encode_scalar :: "scalar \<Rightarrow> nat list" where
  "encode_scalar c =
     (if c < 0x80 then [c]
      else if c < 0x800 then [0xC0 + c div 64, 0x80 + c mod 64]
      else if c < 0x10000 then [0xE0 + c div 4096, 0x80 + c div 64 mod 64, 0x80 + c mod 64]
      else [0xF0 + c div 262144, 0x80 + c div 4096 mod 64, 0x80 + c div 64 mod 64, 0x80 + c mod 64])"

definition is_cont :: "nat \<Rightarrow> bool" where
  "is_cont b \<longleftrightarrow> 0x80 \<le> b \<and> b < 0xC0"

text \<open>The second byte each three- and four-byte lead admits.\<close>

definition second_ok :: "nat \<Rightarrow> nat \<Rightarrow> bool" where
  "second_ok a b \<longleftrightarrow> is_cont b \<and>
     (a = 0xE0 \<longrightarrow> 0xA0 \<le> b) \<and> (a = 0xED \<longrightarrow> b < 0xA0) \<and>
     (a = 0xF0 \<longrightarrow> 0x90 \<le> b) \<and> (a = 0xF4 \<longrightarrow> b < 0x90)"

definition REPLACEMENT :: scalar where
  "REPLACEMENT = 0xFFFD"

text \<open>
  One decoding step on a non-empty sequence: the scalar value (the replacement
  character for an ill-formed prefix) and how many bytes it took. Reading past
  the end gives a zero byte, which continues nothing.
\<close>

definition safe_get :: "nat list \<Rightarrow> nat \<Rightarrow> nat" where
  "safe_get bs i = (if i < length bs then bs ! i else 0)"

definition utf8_step :: "nat list \<Rightarrow> scalar \<times> nat" where
  "utf8_step bs =
     (let a = safe_get bs 0; b = safe_get bs 1; c = safe_get bs 2; d = safe_get bs 3 in
      if a < 0x80 then (a, 1)
      else if 0xC2 \<le> a \<and> a < 0xE0 then
        (if is_cont b then ((a - 0xC0) * 64 + (b - 0x80), 2) else (REPLACEMENT, 1))
      else if 0xE0 \<le> a \<and> a < 0xF0 then
        (if \<not> second_ok a b then (REPLACEMENT, 1)
         else if \<not> is_cont c then (REPLACEMENT, 2)
         else ((a - 0xE0) * 4096 + (b - 0x80) * 64 + (c - 0x80), 3))
      else if 0xF0 \<le> a \<and> a < 0xF5 then
        (if \<not> second_ok a b then (REPLACEMENT, 1)
         else if \<not> is_cont c then (REPLACEMENT, 2)
         else if \<not> is_cont d then (REPLACEMENT, 3)
         else ((a - 0xF0) * 262144 + (b - 0x80) * 4096 + (c - 0x80) * 64 + (d - 0x80), 4))
      else (REPLACEMENT, 1))"

lemma utf8_step_pos: "0 < snd (utf8_step bs)"
  by (simp add: utf8_step_def Let_def)

function utf8_scalars :: "nat list \<Rightarrow> scalar list" where
  "utf8_scalars [] = []"
| "utf8_scalars (b # bs) =
     fst (utf8_step (b # bs)) # utf8_scalars (drop (snd (utf8_step (b # bs))) (b # bs))"
  by pat_completeness auto

termination
  by (relation "measure length") (use utf8_step_pos in \<open>auto simp: length_drop\<close>)

declare utf8_scalars.simps(2) [simp del]

definition utf8_encode :: "scalar list \<Rightarrow> nat list" where
  "utf8_encode cs = concat (map encode_scalar cs)"

lemma utf8_encode_simps [simp]:
  "utf8_encode [] = []" "utf8_encode (c # cs) = encode_scalar c @ utf8_encode cs"
  by (simp_all add: utf8_encode_def)

text \<open>Byte sequences as the two other types the sources use.\<close>

definition byte_vals :: "bytes \<Rightarrow> nat list" where
  "byte_vals bs = map unat bs"

definition str_vals :: "string \<Rightarrow> nat list" where
  "str_vals s = map of_char s"

definition str_of_vals :: "nat list \<Rightarrow> string" where
  "str_of_vals ns = map char_of ns"

definition chars :: "string \<Rightarrow> scalar list" where
  "chars s = utf8_scalars (str_vals s)"

definition str_of_chars :: "scalar list \<Rightarrow> string" where
  "str_of_chars cs = str_of_vals (utf8_encode cs)"

definition from_utf8_lossy :: "bytes \<Rightarrow> string" where
  "from_utf8_lossy bs = str_of_chars (utf8_scalars (byte_vals bs))"

text \<open>\<open>char::is_whitespace\<close> and \<open>char::is_control\<close>.\<close>

definition is_whitespace :: "scalar \<Rightarrow> bool" where
  "is_whitespace c \<longleftrightarrow> 9 \<le> c \<and> c \<le> 13 \<or> c = 0x20 \<or> c = 0x85 \<or> c = 0xA0 \<or> c = 0x1680 \<or>
     0x2000 \<le> c \<and> c \<le> 0x200A \<or> c = 0x2028 \<or> c = 0x2029 \<or> c = 0x202F \<or> c = 0x205F \<or> c = 0x3000"

definition is_control :: "scalar \<Rightarrow> bool" where
  "is_control c \<longleftrightarrow> c < 0x20 \<or> 0x7F \<le> c \<and> c < 0xA0"

definition trim_scalars :: "scalar list \<Rightarrow> scalar list" where
  "trim_scalars cs = rev (dropWhile is_whitespace (rev (dropWhile is_whitespace cs)))"

definition trim :: "string \<Rightarrow> string" where
  "trim s = str_of_chars (trim_scalars (chars s))"

text \<open>\<open>[&str]::join\<close>.\<close>

fun join :: "string \<Rightarrow> string list \<Rightarrow> string" where
  "join sep [] = []"
| "join sep [s] = s"
| "join sep (s # ss) = s @ sep @ join sep ss"

section \<open>Round trip\<close>

lemma encode_scalar_bytes: "is_scalar c \<Longrightarrow> set (encode_scalar c) \<subseteq> {..<256}"
  by (auto simp: encode_scalar_def is_scalar_def)

lemma utf8_step_encode_1: "c < 0x80 \<Longrightarrow> utf8_step (encode_scalar c @ r) = (c, 1)"
  by (simp add: encode_scalar_def utf8_step_def safe_get_def)

lemma utf8_step_encode_2:
  assumes "0x80 \<le> c" "c < 0x800"
  shows "utf8_step (encode_scalar c @ r) = (c, 2)"
proof -
  have "2 \<le> c div 64" "c div 64 < 32" using assms by (auto simp: div_le_mono less_mult_imp_div_less) 
  moreover have "c div 64 * 64 + c mod 64 = c" by simp
  ultimately show ?thesis
    using assms by (simp add: encode_scalar_def utf8_step_def safe_get_def is_cont_def Let_def)
qed

lemma utf8_step_encode_3:
  assumes "is_scalar c" "0x800 \<le> c" "c < 0x10000"
  shows "utf8_step (encode_scalar c @ r) = (c, 3)"
proof -
  let ?a = "c div 4096" and ?b = "c div 64 mod 64" and ?d = "c mod 64"
  have a: "?a < 16" using assms(3) by simp
  have b: "?b < 64" and d: "?d < 64" by simp_all
  have split: "?a * 4096 + ?b * 64 + ?d = c"
  proof -
    have "c div 64 = ?a * 64 + ?b" using div_mult_mod_eq [of "c div 64" 64] by (simp add: div_mult2_eq [symmetric])
    then show ?thesis using div_mult_mod_eq [of c 64] by linarith
  qed
  have low: "?a = 0 \<Longrightarrow> 32 \<le> ?b" using split assms(2) d by linarith
  have surr: "?a = 13 \<Longrightarrow> ?b < 32"
    using split assms(1) b d by (auto simp: is_scalar_def)
  have ok: "second_ok (0xE0 + ?a) (0x80 + ?b)"
    using a b low surr by (auto simp: second_ok_def is_cont_def)
  have enc: "encode_scalar c = [0xE0 + ?a, 0x80 + ?b, 0x80 + ?d]"
    using assms(2,3) by (simp add: encode_scalar_def)
  show ?thesis
    unfolding enc using a b d ok split
    by (simp add: utf8_step_def safe_get_def is_cont_def Let_def numeral_2_eq_2)
qed

lemma utf8_step_encode_4:
  assumes "is_scalar c" "0x10000 \<le> c"
  shows "utf8_step (encode_scalar c @ r) = (c, 4)"
proof -
  let ?a = "c div 262144" and ?b = "c div 4096 mod 64" and ?d = "c div 64 mod 64" and ?e = "c mod 64"
  have c: "c < 0x110000" using assms by (auto simp: is_scalar_def)
  have a: "?a < 5" using c by simp
  have bde: "?b < 64" "?d < 64" "?e < 64" by simp_all
  have split: "?a * 262144 + ?b * 4096 + ?d * 64 + ?e = c"
  proof -
    have "c div 64 = c div 4096 * 64 + ?d"
      using div_mult_mod_eq [of "c div 64" 64] by (simp add: div_mult2_eq [symmetric])
    moreover have "c div 4096 = ?a * 64 + ?b"
      using div_mult_mod_eq [of "c div 4096" 64] by (simp add: div_mult2_eq [symmetric])
    ultimately show ?thesis using div_mult_mod_eq [of c 64] by linarith
  qed
  have low: "?a = 0 \<Longrightarrow> 16 \<le> ?b" using split assms(2) bde by linarith
  have high: "?a = 4 \<Longrightarrow> ?b < 16" using split c bde by linarith
  have ok: "second_ok (0xF0 + ?a) (0x80 + ?b)"
    using a bde low high by (auto simp: second_ok_def is_cont_def)
  have enc: "encode_scalar c = [0xF0 + ?a, 0x80 + ?b, 0x80 + ?d, 0x80 + ?e]"
    using assms(2) by (simp add: encode_scalar_def)
  show ?thesis
    unfolding enc using a bde ok split
    by (simp add: utf8_step_def safe_get_def is_cont_def Let_def numeral_2_eq_2 numeral_3_eq_3)
qed

lemma encode_scalar_length:
  "length (encode_scalar c) = (if c < 0x80 then 1 else if c < 0x800 then 2 else if c < 0x10000 then 3 else 4)"
  by (simp add: encode_scalar_def)

lemma utf8_step_encode:
  assumes "is_scalar c"
  shows "utf8_step (encode_scalar c @ r) = (c, length (encode_scalar c))"
proof -
  consider "c < 0x80" | "0x80 \<le> c" "c < 0x800" | "0x800 \<le> c" "c < 0x10000" | "0x10000 \<le> c"
    by linarith
  then show ?thesis
    using assms
    by cases (simp_all add: utf8_step_encode_1 utf8_step_encode_2 utf8_step_encode_3
        utf8_step_encode_4 encode_scalar_length)
qed

lemma encode_scalar_nonempty: "encode_scalar c \<noteq> []"
  by (simp add: encode_scalar_def)

lemma utf8_scalars_encode_Cons:
  assumes "is_scalar c"
  shows "utf8_scalars (encode_scalar c @ r) = c # utf8_scalars r"
proof -
  obtain b bs where "encode_scalar c @ r = b # bs"
    using encode_scalar_nonempty [of c] by (cases "encode_scalar c @ r") auto
  then have "utf8_scalars (encode_scalar c @ r) =
      fst (utf8_step (encode_scalar c @ r)) #
      utf8_scalars (drop (snd (utf8_step (encode_scalar c @ r))) (encode_scalar c @ r))"
    by (simp add: utf8_scalars.simps(2))
  then show ?thesis by (simp add: utf8_step_encode [OF assms])
qed

lemma utf8_scalars_encode: "list_all is_scalar cs \<Longrightarrow> utf8_scalars (utf8_encode cs) = cs"
  by (induction cs) (simp_all add: utf8_scalars_encode_Cons)

lemma utf8_encode_bytes: "list_all is_scalar cs \<Longrightarrow> set (utf8_encode cs) \<subseteq> {..<256}"
  by (induction cs) (use encode_scalar_bytes in auto)

lemma str_vals_of_vals: "set ns \<subseteq> {..<256} \<Longrightarrow> str_vals (str_of_vals ns) = ns"
  by (induction ns) (auto simp: str_vals_def str_of_vals_def of_char_of)

lemma chars_of_chars: "list_all is_scalar cs \<Longrightarrow> chars (str_of_chars cs) = cs"
  by (simp add: chars_def str_of_chars_def str_vals_of_vals utf8_encode_bytes utf8_scalars_encode)

lemma second_ok_bounds: "second_ok a b \<Longrightarrow> 0x80 \<le> b \<and> b < 0xC0"
  by (simp add: second_ok_def is_cont_def)

lemma utf8_step_scalar: "is_scalar (fst (utf8_step bs))"
proof -
  have three: "is_scalar ((a - 0xE0) * 4096 + (b - 0x80) * 64 + (c - 0x80))"
    if "0xE0 \<le> a" "a < 0xF0" "second_ok a b" "is_cont c" for a b c
  proof (cases "a = 0xED")
    case True
    then show ?thesis using that by (auto simp: second_ok_def is_cont_def is_scalar_def)
  next
    case False
    then consider "a < 0xED" | "0xED < a" by linarith
    then show ?thesis using that by cases (auto simp: second_ok_def is_cont_def is_scalar_def)
  qed
  have four: "is_scalar ((a - 0xF0) * 262144 + (b - 0x80) * 4096 + (c - 0x80) * 64 + (d - 0x80))"
    if "0xF0 \<le> a" "a < 0xF5" "second_ok a b" "is_cont c" "is_cont d" for a b c d
  proof (cases "a = 0xF4")
    case True
    then show ?thesis using that by (auto simp: second_ok_def is_cont_def is_scalar_def)
  next
    case False
    then show ?thesis using that by (auto simp: second_ok_def is_cont_def is_scalar_def)
  qed
  have two: "is_scalar ((a - 0xC0) * 64 + (b - 0x80))" if "0xC2 \<le> a" "a < 0xE0" "is_cont b" for a b
    using that by (auto simp: is_cont_def is_scalar_def)
  show ?thesis
    using two three four by (auto simp: utf8_step_def Let_def REPLACEMENT_def is_scalar_def [of "0xFFFD"] is_scalar_def [of "safe_get bs 0"])
qed

lemma utf8_scalars_scalar: "list_all is_scalar (utf8_scalars bs)"
  by (induction bs rule: utf8_scalars.induct) (simp_all add: utf8_scalars.simps(2) utf8_step_scalar)

text \<open>A trimmed text has no white space at either end.\<close>

lemma trim_scalars_ends:
  "trim_scalars cs = [] \<or>
     \<not> is_whitespace (hd (trim_scalars cs)) \<and> \<not> is_whitespace (last (trim_scalars cs))"
proof -
  let ?l = "dropWhile is_whitespace cs"
  let ?r = "dropWhile is_whitespace (rev ?l)"
  show ?thesis
  proof (cases "?r = []")
    case False
    then have last: "\<not> is_whitespace (last (rev ?r))" using hd_dropWhile [of is_whitespace "rev ?l"] by (simp add: last_rev)
    obtain p where p: "rev ?l = p @ ?r" by (metis takeWhile_dropWhile_id)
    then have l: "?l = rev ?r @ rev p" by (metis rev_append rev_rev_ident)
    have ne: "rev ?r \<noteq> []" using False by simp
    have "hd ?l = hd (rev ?r)" by (subst l) (rule hd_append2 [OF ne])
    moreover have "?l \<noteq> []" by (subst l) (use ne in blast)
    ultimately have "\<not> is_whitespace (hd (rev ?r))" using hd_dropWhile [of is_whitespace cs] by metis
    then show ?thesis using last by (simp add: trim_scalars_def)
  qed (simp add: trim_scalars_def)
qed

end
