(* ===== verification/Session_Handlers.thy ===== *)
theory Session_Handlers
  imports Session_Command Db_Store Rust_Str
begin

text \<open>
  The control thread of a session (\<open>src/choreo-daemon/src/sessions.rs\<close>,
  \<open>sessions/handlers.rs\<close> with its modules, \<open>sessions/worker.rs\<close> and the provider
  resolution of \<open>sessions/state.rs\<close>): the dispatch of every command, what each
  handler does to the session state, what it tells subscribers, the daemon and
  the requester, what it stores, and when the thread exits.

  A handler maps the session state and the world to a flag (exit), the new state
  and the new world. The world holds the channels, the commands sent to the
  daemon, the store, the answers sent on one-shot channels, the cancellation
  signals and the worker threads started. Everything that comes from outside in
  the middle of a handler (the clock, a store fault, the daemon's answer to a
  synchronous question, the model catalog, a provider client) is a function of
  the environment record; what may differ from one question to the next also
  takes the number of questions asked before.
\<close>

section \<open>Environment and world\<close>

datatype RequestFormat = RF_Responses | RF_ChatCompletions
datatype MaxTokensField = MTF_MaxTokens | MTF_MaxCompletionTokens

record AccountConfig =
  ac_name :: string
  ac_provider :: string
  ac_base_url :: "string option"
  ac_streaming :: "bool option"
  ac_stream_options :: "bool option"
  ac_retry_max_attempts :: "u32 option"
  ac_connect_timeout_secs :: "u64 option"
  ac_request_timeout_secs :: "u64 option"
  ac_total_timeout_secs :: "u64 option"
  ac_model_list_path :: "string option"
  ac_responses_path :: "string option"
  ac_chat_completions_path :: "string option"
  ac_default_request_format :: "RequestFormat option"
  ac_chat_completions_max_tokens :: "u32 option"
  ac_model_max_tokens :: "(string \<times> u32) list option"
  ac_chat_completions_max_tokens_field :: "MaxTokensField option"
  ac_responses_max_output_tokens :: "u32 option"
  ac_model_responses_max_output_tokens :: "(string \<times> u32) list option"
  ac_programmatic_tool_calling :: "bool option"
  ac_model_max_tokens_fields :: "(string \<times> MaxTokensField) list option"
  ac_context_window :: "u32 option"
  ac_model_context_windows :: "(string \<times> u32) list option"
  ac_prompt_cache :: "bool option"
  ac_prompt_cache_affinity :: "bool option"
  ac_meter :: "MeterKind option"
  ac_cache_warming :: "CacheWarmingMode option"
  ac_retry_initial_backoff_ms :: "u64 option"
  ac_retry_max_backoff_ms :: "u64 option"

datatype ProviderAuth =
    PA_ApiKey string
  | PA_OAuth ServiceCredential "string option"

record ResolvedAccount =
  ra_config :: AccountConfig
  ra_auth :: "ProviderAuth option"
  ra_warm_policy :: WarmPolicy

datatype RefreshTokenOutcome = RO_Refreshed | RO_NotNeeded | RO_NotApplicable
datatype RefreshFailure = RF_Terminal | RF_Transient string

record RequestContext =
  ctx_session_id :: u64
  ctx_lag_limits :: LagLimits
  ctx_warm_policy :: WarmPolicy
  ctx_now :: "nat \<Rightarrow> i64"
  ctx_db_fault :: "nat \<Rightarrow> nat \<Rightarrow> io_error option"
  ctx_resolve_account :: "nat \<Rightarrow> string \<Rightarrow> ResolvedAccount option"
  ctx_refresh_single_flight :: "nat \<Rightarrow> string \<Rightarrow> bool \<Rightarrow> RefreshFailure + RefreshTokenOutcome"
  ctx_validate_model :: "nat \<Rightarrow> string \<Rightarrow> (string + unit) option"
  ctx_from_account_config :: "AccountConfig \<Rightarrow> ProviderAuth \<Rightarrow> nat \<Rightarrow> string + InferenceProvider"
  ctx_resolve_context_window :: "InferenceProvider \<Rightarrow> string \<Rightarrow> u32 option"
  ctx_lookup_context_window :: "string \<Rightarrow> string \<Rightarrow> u32 option"
  ctx_model_reasoning_capability :: "string \<Rightarrow> string \<Rightarrow> ReasoningCapability"
  ctx_known_group_names :: "string list"
  ctx_protected_groups :: "string list"
  ctx_graphemes :: "string \<Rightarrow> nat"
  ctx_humfmt_list :: "string list \<Rightarrow> string"

datatype reply_value =
    RV_Child "io_error + ChildResult"
  | RV_Summary SessionSummary
  | RV_Result "string + string"
  | RV_Effort string
  | RV_State DaemonMessageType

text \<open>What a request worker is started with.\<close>

record RequestWorkerArgs =
  wk_stream_id :: u64
  wk_client :: InferenceProvider
  wk_session :: SessionState
  wk_model :: string
  wk_cancel :: nat
  wk_child_reply :: "reply_chan option"
  wk_user_text :: "string option"

record world =
  w_hub :: hub
  w_daemon_tx :: "DaemonCommand list"
  w_db :: Database
  w_replies :: "(reply_chan \<times> reply_value) list"
  w_cancelled :: "nat list"
  w_next_cancel :: nat
  w_workers :: "RequestWorkerArgs list"
  w_tick :: nat

definition tick :: "world \<Rightarrow> world" where
  "tick w = w\<lparr>w_tick := Suc (w_tick w)\<rparr>"

definition send_daemon :: "DaemonCommand \<Rightarrow> world \<Rightarrow> world" where
  "send_daemon cmd w = w\<lparr>w_daemon_tx := w_daemon_tx w @ [cmd]\<rparr>"

definition reply_send :: "reply_chan \<Rightarrow> reply_value \<Rightarrow> world \<Rightarrow> world" where
  "reply_send ch v w = w\<lparr>w_replies := w_replies w @ [(ch, v)]\<rparr>"

definition target_fail :: "ReplyTarget option \<Rightarrow> string \<Rightarrow> world \<Rightarrow> world" where
  "target_fail reply error w = (case reply of
     None \<Rightarrow> w | Some target \<Rightarrow> w\<lparr>w_hub := ReplyTarget_fail target error (w_hub w)\<rparr>)"

definition target_accept :: "ReplyTarget option \<Rightarrow> world \<Rightarrow> world" where
  "target_accept reply w = (case reply of
     None \<Rightarrow> w | Some target \<Rightarrow> w\<lparr>w_hub := ReplyTarget_accept target (w_hub w)\<rparr>)"

definition target_send :: "ReplyTarget option \<Rightarrow> DaemonMessageType \<Rightarrow> world \<Rightarrow> world" where
  "target_send reply inner w = (case reply of
     None \<Rightarrow> w | Some target \<Rightarrow> w\<lparr>w_hub := ReplyTarget_send target inner (w_hub w)\<rparr>)"

definition write_session_w :: "RequestContext \<Rightarrow> SessionRecord \<Rightarrow> world \<Rightarrow> world" where
  "write_session_w ctx record w =
     (case write_session_retry (ctx_db_fault ctx (w_tick w)) (ctx_session_id ctx) record (w_db w) of
        Inl e \<Rightarrow> tick w | Inr db \<Rightarrow> tick (w\<lparr>w_db := db\<rparr>))"

definition write_turn_w :: "RequestContext \<Rightarrow> u32 \<Rightarrow> Turn \<Rightarrow> world \<Rightarrow> world" where
  "write_turn_w ctx turn_id turn w =
     (case write_turn_retry (ctx_db_fault ctx (w_tick w)) (ctx_session_id ctx) turn_id turn (w_db w) of
        Inl e \<Rightarrow> tick w | Inr db \<Rightarrow> tick (w\<lparr>w_db := db\<rparr>))"

definition other_error :: "string \<Rightarrow> io_error" where
  "other_error msg = IoError IO_Other msg"

definition finalize_turn ::
  "(nat \<Rightarrow> io_error option) \<Rightarrow> u64 \<Rightarrow> u32 \<Rightarrow> SessionState \<Rightarrow> Database \<Rightarrow> io_error + Database" where
  "finalize_turn faults session_id turn_id self db = (case map_of (st_turns self) turn_id of
     None \<Rightarrow> Inr db
   | Some turn \<Rightarrow> (case write_turn_retry faults session_id turn_id turn db of
       Inl e \<Rightarrow> Inl (other_error (''failed to persist turn '' @ show_nat (unat turn_id) @ '': '' @ io_text e))
     | Inr db \<Rightarrow> Inr db))"

section \<open>Telling subscribers (sessions.rs)\<close>

definition session_broadcast ::
  "RequestContext \<Rightarrow> DaemonMessageType \<Rightarrow> SessionState \<Rightarrow> world \<Rightarrow> SessionState \<times> world" where
  "session_broadcast ctx message st w =
     (let framed = DaemonMessage_broadcast message;
          w = send_daemon (DC_BroadcastActivity (Some (ctx_session_id ctx)) framed) w;
          (subscribers, h, evict_clients, evict_largest) =
            fan_out_evicting (\<lambda>sink. sink) framed (ctx_lag_limits ctx) (\<lambda>_ _. False)
              (st_subscribers st) (w_hub w);
          w = w\<lparr>w_hub := h\<rparr>;
          w = fold (\<lambda>client_id. send_daemon (DC_EvictClient client_id)) evict_clients w;
          w = (if evict_largest then send_daemon DC_EvictLargestLagging w else w)
      in (st\<lparr>st_subscribers := subscribers\<rparr>, w))"

definition session_event ::
  "RequestContext \<Rightarrow> SessionEvent \<Rightarrow> SessionState \<Rightarrow> world \<Rightarrow> SessionState \<times> world" where
  "session_event ctx event = session_broadcast ctx (DM_Session (Some (ctx_session_id ctx)) event)"

definition fail_request ::
  "RequestContext \<Rightarrow> u64 \<Rightarrow> ReplyTarget option \<Rightarrow> string \<Rightarrow> SessionState \<Rightarrow> world \<Rightarrow>
   bool \<times> SessionState \<times> world" where
  "fail_request ctx stream_id reply error st w =
     (let w = target_fail reply error w;
          (st, w) = session_event ctx (SE_Failed stream_id error) st w
      in (False, st, w))"

definition update_metadata :: "RequestContext \<Rightarrow> SessionState \<Rightarrow> world \<Rightarrow> world" where
  "update_metadata ctx st =
     send_daemon (DC_UpdateMetadata (ctx_session_id ctx) (SessionMetadata_from_state st))"

definition persist_session_metadata ::
  "RequestContext \<Rightarrow> SessionState \<Rightarrow> world \<Rightarrow> SessionState \<times> world" where
  "persist_session_metadata ctx st w =
     (let now = ctx_now ctx (w_tick w);
          w = tick w;
          st = st\<lparr>st_config := (st_config st)
            \<lparr>cfg_last_modified := max (cfg_last_modified (st_config st)) now\<rparr>\<rparr>;
          w = update_metadata ctx st w;
          w = write_session_w ctx (SessionRecord_from_state st) w
      in (st, w))"

section \<open>Context window and provider (state.rs)\<close>

definition resolve_context_window_for_model ::
  "RequestContext \<Rightarrow> SessionState \<Rightarrow> string \<Rightarrow> u32 option" where
  "resolve_context_window_for_model ctx self model = (case st_provider self of
     Some provider \<Rightarrow> ctx_resolve_context_window ctx provider model
   | None \<Rightarrow> (case st_provider_slug self of
       None \<Rightarrow> None | Some slug \<Rightarrow> ctx_lookup_context_window ctx slug model))"

definition set_context_window :: "u32 option \<Rightarrow> SessionState \<Rightarrow> SessionState" where
  "set_context_window cw self = self\<lparr>st_config := (st_config self)\<lparr>cfg_context_window := cw\<rparr>\<rparr>"

definition refresh_context_window ::
  "RequestContext \<Rightarrow> SessionState \<Rightarrow> world \<Rightarrow> SessionState \<times> world" where
  "refresh_context_window ctx self w = (case cfg_selected_model (st_config self) of
     None \<Rightarrow> (self, w)
   | Some model \<Rightarrow> (case resolve_context_window_for_model ctx self model of
       None \<Rightarrow> (self, w)
     | Some resolved \<Rightarrow>
         if cfg_context_window (st_config self) = Some resolved then (self, w)
         else session_event ctx (SE_ContextWindowResolved resolved)
                (set_context_window (Some resolved) self) w))"

definition send_resolve_account ::
  "RequestContext \<Rightarrow> string \<Rightarrow> world \<Rightarrow> ResolvedAccount option \<times> world" where
  "send_resolve_account ctx name w = (ctx_resolve_account ctx (w_tick w) name, tick w)"

definition refresh_oauth_token ::
  "RequestContext \<Rightarrow> bool \<Rightarrow> SessionState \<Rightarrow> world \<Rightarrow>
   (RefreshFailure + RefreshTokenOutcome) \<times> SessionState \<times> world" where
  "refresh_oauth_token ctx force self w = (case cfg_account_name (st_config self) of
     None \<Rightarrow> (Inr RO_NotApplicable, self, w)
   | Some account \<Rightarrow> (case ctx_refresh_single_flight ctx (w_tick w) account force of
       Inl failure \<Rightarrow> (Inl failure, self, tick w)
     | Inr outcome \<Rightarrow>
         (Inr outcome, if outcome = RO_Refreshed then self\<lparr>st_provider := None\<rparr> else self, tick w)))"

definition em_dash :: string where
  "em_dash = [CHR 0xE2, CHR 0x80, CHR 0x94]"

definition NO_ACCOUNT :: string where
  "NO_ACCOUNT = ''no account configured on this session '' @ em_dash @ '' use /account <name> to set one''"

definition no_credential :: "string \<Rightarrow> string" where
  "no_credential name = ''no credential stored for account '' @ [CHR 0x27] @ name @ [CHR 0x27] @ '' '' @ em_dash @
     '' add one via the AI Providers page or /add-key''"

definition grant_rejected :: "string \<Rightarrow> string" where
  "grant_rejected name = ''OAuth grant for account '' @ [CHR 0x27] @ name @ [CHR 0x27] @
     '' was rejected; sign in again''"

definition refresh_failed :: "string \<Rightarrow> string \<Rightarrow> string" where
  "refresh_failed name detail = ''OAuth refresh for account '' @ [CHR 0x27] @ name @ [CHR 0x27] @
     '' failed: '' @ detail"

definition adopt_account :: "ResolvedAccount \<Rightarrow> SessionState \<Rightarrow> SessionState" where
  "adopt_account account self =
     self\<lparr>st_warm_policy := ra_warm_policy account,
          st_provider_slug := Some (ac_provider (ra_config account))\<rparr>"

text \<open>The account as it stands once an OAuth access token was refreshed, where there is one.\<close>

definition refreshed_account ::
  "RequestContext \<Rightarrow> string \<Rightarrow> ResolvedAccount \<Rightarrow> SessionState \<Rightarrow> world \<Rightarrow>
   (string + AccountConfig \<times> ProviderAuth option) \<times> SessionState \<times> world" where
  "refreshed_account ctx name account self w = (case ra_auth account of
     Some (PA_OAuth _ access_token) \<Rightarrow> (case refresh_oauth_token ctx False self w of
         (Inr outcome, self, w) \<Rightarrow>
           if outcome = RO_Refreshed then (case send_resolve_account ctx name w of
               (Some account', w) \<Rightarrow>
                 (Inr (ra_config account', ra_auth account'), adopt_account account' self, w)
             | (None, w) \<Rightarrow> (Inr (ra_config account, ra_auth account), self, w))
           else (Inr (ra_config account, ra_auth account), self, w)
       | (Inl RF_Terminal, self, w) \<Rightarrow> (Inl (grant_rejected name), self, w)
       | (Inl (RF_Transient detail), self, w) \<Rightarrow>
           if access_token \<noteq> None then (Inr (ra_config account, ra_auth account), self, w)
           else (Inl (refresh_failed name detail), self, w))
   | _ \<Rightarrow> (Inr (ra_config account, ra_auth account), self, w))"

definition resolve_provider ::
  "RequestContext \<Rightarrow> SessionState \<Rightarrow> world \<Rightarrow> (string + InferenceProvider) \<times> SessionState \<times> world" where
  "resolve_provider ctx self w = (case st_provider self of
     Some p \<Rightarrow> (Inr p, self, w)
   | None \<Rightarrow> (case cfg_account_name (st_config self) of
       None \<Rightarrow> (Inl NO_ACCOUNT, self, w)
     | Some name \<Rightarrow> (case send_resolve_account ctx name w of
         (None, w) \<Rightarrow> (Inl (no_credential name), self\<lparr>st_warm_policy := WarmPolicy_default\<rparr>, w)
       | (Some account, w) \<Rightarrow>
           (case refreshed_account ctx name account (adopt_account account self) w of
              (Inl e, self, w) \<Rightarrow> (Inl e, self, w)
            | (Inr (config, None), self, w) \<Rightarrow> (Inl (no_credential name), self, w)
            | (Inr (config, Some auth), self, w) \<Rightarrow>
                (case ctx_from_account_config ctx config auth (st_registry self) of
                   Inl e \<Rightarrow> (Inl e, self, w)
                 | Inr provider \<Rightarrow> (Inr provider, self\<lparr>st_provider := Some provider\<rparr>, w))))))"

section \<open>Running a request (handlers/inference.rs)\<close>

definition take_stream_id :: "SessionState \<Rightarrow> u64 \<times> SessionState" where
  "take_stream_id st = (st_next_stream_id st, st\<lparr>st_next_stream_id := st_next_stream_id st + 1\<rparr>)"

definition spawn_worker ::
  "u64 \<Rightarrow> InferenceProvider \<Rightarrow> string \<Rightarrow> nat \<Rightarrow> reply_chan option \<Rightarrow> string option \<Rightarrow>
   SessionState \<Rightarrow> world \<Rightarrow> world" where
  "spawn_worker stream_id provider model cancel child_reply user_text st w =
     (let worker_session = (from_snapshot (snapshot st) [])\<lparr>st_registry := st_registry st\<rparr>
      in w\<lparr>w_workers := w_workers w @
           [\<lparr>wk_stream_id = stream_id, wk_client = provider, wk_session = worker_session, wk_model = model,
             wk_cancel = cancel, wk_child_reply = child_reply, wk_user_text = user_text\<rparr>]\<rparr>)"

definition new_request :: "SessionState \<Rightarrow> world \<Rightarrow> ActiveRequest \<times> world" where
  "new_request st w =
     (\<lparr>ar_cancel = w_next_cancel w, ar_turn_id = st_next_turn_id st, ar_estimated_prompt_tokens = 0\<rparr>,
      w\<lparr>w_next_cancel := Suc (w_next_cancel w)\<rparr>)"

definition insert_request :: "u64 \<Rightarrow> ActiveRequest \<Rightarrow> SessionState \<Rightarrow> SessionState" where
  "insert_request stream_id active st =
     st\<lparr>st_active_requests := btm_insert stream_id active (st_active_requests st)\<rparr>"

text \<open>The last part of the handler: the request is accepted, announced and started.\<close>

definition launch_input ::
  "RequestContext \<Rightarrow> u64 \<Rightarrow> ReplyTarget option \<Rightarrow> InferenceProvider \<Rightarrow> string \<Rightarrow> string \<Rightarrow>
   SessionState \<Rightarrow> world \<Rightarrow> bool \<times> SessionState \<times> world" where
  "launch_input ctx stream_id reply provider model user_text st w =
     (let (active, w) = new_request st w;
          started = started_event active (ctx_session_id ctx) stream_id;
          w = target_send reply started w;
          (st, w) = session_broadcast ctx started st w;
          st = insert_request stream_id active st;
          w = spawn_worker stream_id provider model (ar_cancel active) None (Some user_text) st w
      in (False, st, w))"

definition handle_run_input ::
  "RequestContext \<Rightarrow> bytes \<Rightarrow> ReplyTarget option \<Rightarrow> bool \<Rightarrow> SessionState \<Rightarrow> world \<Rightarrow>
   bool \<times> SessionState \<times> world" where
  "handle_run_input ctx input reply shutdown_requested st w =
     (let (stream_id, st) = take_stream_id st;
          user_text = trim (from_utf8_lossy input)
      in if user_text = [] then fail_request ctx stream_id reply ''empty input'' st w
      else (case resolve_provider ctx st w of
        (Inl msg, st, w) \<Rightarrow> fail_request ctx stream_id reply msg st w
      | (Inr provider, st, w) \<Rightarrow>
          (case refresh_context_window ctx st w of (st, w) \<Rightarrow>
            (case cfg_selected_model (st_config st) of
               None \<Rightarrow> fail_request ctx stream_id reply ''no model selected'' st w
             | Some model \<Rightarrow>
                 if shutdown_requested
                 then fail_request ctx stream_id reply ''session is shutting down'' st w
                 else if st_active_requests st \<noteq> []
                 then fail_request ctx stream_id reply ''session already has an active request'' st w
                 else launch_input ctx stream_id reply provider model user_text st w))))"

definition launch_child ::
  "RequestContext \<Rightarrow> u64 \<Rightarrow> reply_chan \<Rightarrow> InferenceProvider \<Rightarrow> string \<Rightarrow> string option \<Rightarrow>
   SessionState \<Rightarrow> world \<Rightarrow> bool \<times> SessionState \<times> world" where
  "launch_child ctx stream_id reply provider model user_text st w =
     (let (active, w) = new_request st w;
          (st, w) = session_broadcast ctx (started_event active (ctx_session_id ctx) stream_id) st w;
          st = insert_request stream_id active st;
          w = spawn_worker stream_id provider model (ar_cancel active) (Some reply) user_text st w
      in (False, st, w))"

definition refuse_child :: "reply_chan \<Rightarrow> string \<Rightarrow> SessionState \<Rightarrow> world \<Rightarrow> bool \<times> SessionState \<times> world" where
  "refuse_child reply msg st w = (False, st, reply_send reply (RV_Child (Inl (other_error msg))) w)"

definition handle_run_child_input ::
  "RequestContext \<Rightarrow> string option \<Rightarrow> reply_chan \<Rightarrow> bool \<Rightarrow> SessionState \<Rightarrow> world \<Rightarrow>
   bool \<times> SessionState \<times> world" where
  "handle_run_child_input ctx user_text reply shutdown_requested st w =
     (let (stream_id, st) = take_stream_id st in
      case resolve_provider ctx st w of
        (Inl _, st, w) \<Rightarrow> refuse_child reply ''daemon locked'' st w
      | (Inr provider, st, w) \<Rightarrow>
          (let model = (case cfg_selected_model (st_config st) of Some m \<Rightarrow> m | None \<Rightarrow> '''') in
           if shutdown_requested then refuse_child reply ''session is shutting down'' st w
           else if st_active_requests st \<noteq> []
           then refuse_child reply ''session already has an active request'' st w
           else launch_child ctx stream_id reply provider model user_text st w))"

definition cancel_request ::
  "RequestContext \<Rightarrow> u64 \<Rightarrow> SessionState \<times> world \<Rightarrow> SessionState \<times> world" where
  "cancel_request ctx rid = (\<lambda>(st, w). case map_of (st_active_requests st) rid of
     None \<Rightarrow> (st, w)
   | Some active \<Rightarrow>
       session_event ctx (SE_Cancelled rid) st (w\<lparr>w_cancelled := w_cancelled w @ [ar_cancel active]\<rparr>))"

definition CANCEL_ALL :: u64 where
  "CANCEL_ALL = 0"

definition handle_cancel ::
  "RequestContext \<Rightarrow> u64 \<Rightarrow> SessionState \<Rightarrow> world \<Rightarrow> bool \<times> SessionState \<times> world" where
  "handle_cancel ctx stream_id st w =
     (let targets = (if stream_id = 0 then map fst (st_active_requests st) else [stream_id]);
          (st, w) = fold (cancel_request ctx) targets (st, w)
      in (False, st, w))"

text \<open>Whether the thread may end: nothing runs, and nobody listens or a shutdown was asked for.\<close>

definition may_exit :: "SessionState \<Rightarrow> bool \<Rightarrow> bool" where
  "may_exit st shutdown_requested \<longleftrightarrow>
     st_active_requests st = [] \<and> (st_subscribers st = [] \<or> shutdown_requested)"

text \<open>One turn of a finished worker's snapshot, merged and stored unless the worker stored it.\<close>

definition merge_turn ::
  "RequestContext \<Rightarrow> u32 list \<Rightarrow> u32 \<times> Turn \<Rightarrow> SessionState \<times> world \<Rightarrow> SessionState \<times> world" where
  "merge_turn ctx persisted_turns = (\<lambda>(turn_id, turn) (st, w).
     (let already_present = (map_of (st_turns st) turn_id \<noteq> None);
          changed = (case map_of (st_turns st) turn_id of Some old \<Rightarrow> old \<noteq> turn | None \<Rightarrow> False);
          st = st\<lparr>st_turns := btm_insert turn_id turn (st_turns st)\<rparr>;
          needs_write = (\<not> already_present \<or> changed)
      in if \<not> needs_write \<or> turn_id \<in> set persisted_turns then (st, w)
         else (st, write_turn_w ctx turn_id turn w)))"

definition handle_request_finished ::
  "RequestContext \<Rightarrow> u64 \<Rightarrow> SessionSnapshot \<Rightarrow> bool \<Rightarrow> SessionState \<Rightarrow> world \<Rightarrow>
   bool \<times> SessionState \<times> world" where
  "handle_request_finished ctx stream_id snap shutdown_requested st w =
     (let st = st\<lparr>st_config := apply_worker_snapshot (st_config st) (sn_config snap)\<rparr>;
          last_modified = ctx_now ctx (w_tick w);
          w = tick w;
          st = st\<lparr>st_config := (st_config st)
            \<lparr>cfg_last_modified := max (cfg_last_modified (st_config st)) last_modified\<rparr>\<rparr>;
          w = write_session_w ctx (SessionRecord_from_state st) w;
          st = st\<lparr>st_loaded_skill_bodies := sn_loaded_skill_bodies snap,
                  st_context_cache := sn_context_cache snap,
                  st_discovered_skills := sn_discovered_skills snap\<rparr>;
          (st, w) = fold (merge_turn ctx (sn_persisted_turns snap)) (sn_turns snap) (st, w);
          st = (case last_key (sn_turns snap) of
                  None \<Rightarrow> st
                | Some max_id \<Rightarrow> st\<lparr>st_next_turn_id := max (st_next_turn_id st) (max_id + 1)\<rparr>);
          st = st\<lparr>st_active_requests := btm_remove stream_id (st_active_requests st)\<rparr>;
          st = st\<lparr>st_config := (st_config st)\<lparr>cfg_status := SS_Inactive\<rparr>\<rparr>;
          w = update_metadata ctx st w;
          (st, w) = session_event ctx (SE_SessionStatusChanged SS_Inactive last_modified) st w;
          w = send_daemon (DC_BroadcastSessionStatus (ctx_session_id ctx) SS_Inactive) w
      in (may_exit st shutdown_requested, st, w))"

section \<open>Subscribers (handlers/subscriptions.rs)\<close>

definition handle_status_changed ::
  "RequestContext \<Rightarrow> SessionStatus \<Rightarrow> SessionState \<Rightarrow> world \<Rightarrow> bool \<times> SessionState \<times> world" where
  "handle_status_changed ctx new_status st w =
     (let st = st\<lparr>st_config := (st_config st)\<lparr>cfg_status := new_status\<rparr>\<rparr>;
          last_modified = cfg_last_modified (st_config st);
          (st, w) = session_event ctx (SE_SessionStatusChanged new_status last_modified) st w;
          w = send_daemon (DC_BroadcastSessionStatus (ctx_session_id ctx) new_status) w
      in (False, st, w))"

definition send_to :: "SubscriberSink \<Rightarrow> DaemonMessageType \<Rightarrow> world \<Rightarrow> world" where
  "send_to tx inner w =
     w\<lparr>w_hub := fst (send_unchecked tx (DaemonMessage_broadcast inner) (w_hub w))\<rparr>"

definition handle_attach ::
  "RequestContext \<Rightarrow> ClientId \<Rightarrow> SubscriberSink \<Rightarrow> SessionState \<Rightarrow> world \<Rightarrow> bool \<times> SessionState \<times> world" where
  "handle_attach ctx client_id tx st w =
     (let st = st\<lparr>st_subscribers := hm_insert client_id tx (st_subscribers st)\<rparr>;
          w = send_daemon (DC_TrackSessionSubscription client_id (ctx_session_id ctx)) w;
          w = (case map_of (st_subscribers st) client_id of
                 Some tx \<Rightarrow> fold (\<lambda>(stream_id, active).
                   send_to tx (started_event active (ctx_session_id ctx) stream_id)) (st_active_requests st) w
               | None \<Rightarrow> w);
          snapshot = session_state_message (ctx_model_reasoning_capability ctx) st (ctx_session_id ctx);
          w = (case map_of (st_subscribers st) client_id of
                 Some tx \<Rightarrow> send_to tx snapshot w | None \<Rightarrow> w)
      in (False, st, w))"

definition handle_detach ::
  "RequestContext \<Rightarrow> ClientId \<Rightarrow> bool \<Rightarrow> SessionState \<Rightarrow> world \<Rightarrow> bool \<times> SessionState \<times> world" where
  "handle_detach ctx client_id shutdown_requested st w =
     (let st = st\<lparr>st_subscribers := hm_remove client_id (st_subscribers st)\<rparr>;
          w = send_daemon (DC_UntrackSessionSubscription client_id (ctx_session_id ctx)) w
      in (may_exit st shutdown_requested, st, w))"

definition handle_remove_subscriber ::
  "ClientId \<Rightarrow> bool \<Rightarrow> SessionState \<Rightarrow> world \<Rightarrow> bool \<times> SessionState \<times> world" where
  "handle_remove_subscriber client_id shutdown_requested st w =
     (let st = st\<lparr>st_subscribers := hm_remove client_id (st_subscribers st)\<rparr>
      in (may_exit st shutdown_requested, st, w))"

definition session_summary :: "u64 \<Rightarrow> SessionState \<Rightarrow> SessionSummary" where
  "session_summary session_id st =
     (let config = st_config st in
      \<lparr>sum_session_id = session_id, sum_title = cfg_title config,
       sum_selected_model = cfg_selected_model config,
       sum_reasoning_effort = cfg_reasoning_effort config,
       sum_parent_session_id = cfg_parent_session_id config,
       sum_working_dir = cfg_working_dir config, sum_created_at = cfg_created_at config,
       sum_last_modified = cfg_last_modified config,
       sum_turn_count = of_nat (length (st_turns st)),
       sum_status = cfg_status config, sum_active_tool_groups = cfg_active_tool_groups config,
       sum_account_name = cfg_account_name config,
       sum_token_usage = Some (cfg_accumulated_usage config),
       sum_context_window = cfg_context_window config,
       sum_last_prompt_tokens = cfg_last_prompt_tokens config,
       sum_pinned = False, sum_archived_at = None\<rparr>)"

definition handle_get_summary ::
  "RequestContext \<Rightarrow> reply_chan \<Rightarrow> SessionState \<Rightarrow> world \<Rightarrow> bool \<times> SessionState \<times> world" where
  "handle_get_summary ctx reply st w =
     (False, st, reply_send reply (RV_Summary (session_summary (ctx_session_id ctx) st)) w)"

definition track_live_started :: "DaemonMessageType \<Rightarrow> SessionState \<Rightarrow> SessionState" where
  "track_live_started message st = (case message of
     DM_Session _ (SE_Started stream_id turn_id estimated_prompt_tokens) \<Rightarrow>
       st\<lparr>st_active_requests := btm_update stream_id
            (\<lambda>active. active\<lparr>ar_turn_id := turn_id, ar_estimated_prompt_tokens := estimated_prompt_tokens\<rparr>)
            (st_active_requests st)\<rparr>
   | _ \<Rightarrow> st)"

definition handle_broadcast ::
  "RequestContext \<Rightarrow> DaemonMessageType \<Rightarrow> SessionState \<Rightarrow> world \<Rightarrow> bool \<times> SessionState \<times> world" where
  "handle_broadcast ctx message st w =
     (let st = track_live_started message st;
          (st, w) = session_broadcast ctx message st w
      in (False, st, w))"

section \<open>Token figures (handlers.rs)\<close>

definition broadcast_token_state ::
  "RequestContext \<Rightarrow> SessionState \<Rightarrow> world \<Rightarrow> SessionState \<times> world" where
  "broadcast_token_state ctx st w =
     (let (st, w) = session_event ctx
            (SE_TokenUsageUpdate (cfg_accumulated_usage (st_config st))
               (cfg_last_prompt_tokens (st_config st))) st w
      in (st, update_metadata ctx st w))"

definition handle_sync_accumulated_usage ::
  "RequestContext \<Rightarrow> TokenUsage \<Rightarrow> u32 option \<Rightarrow> SessionState \<Rightarrow> world \<Rightarrow> bool \<times> SessionState \<times> world" where
  "handle_sync_accumulated_usage ctx token_usage last_prompt_tokens st w =
     (let config = st_config st;
          config = config\<lparr>cfg_accumulated_usage := merge_max (cfg_accumulated_usage config) token_usage\<rparr>;
          config = (case last_prompt_tokens of
                      Some tokens \<Rightarrow> config\<lparr>cfg_last_prompt_tokens := Some tokens\<rparr> | None \<Rightarrow> config);
          (st, w) = broadcast_token_state ctx (st\<lparr>st_config := config\<rparr>) w
      in (False, st, w))"

definition handle_shutdown ::
  "RequestContext \<Rightarrow> SessionState \<Rightarrow> world \<Rightarrow> bool \<times> SessionState \<times> world" where
  "handle_shutdown ctx st w =
     (let (st, w) = fold (\<lambda>(stream_id, active) (st, w).
            session_event ctx (SE_Cancelled stream_id) st
              (w\<lparr>w_cancelled := w_cancelled w @ [ar_cancel active]\<rparr>)) (st_active_requests st) (st, w)
      in (st_active_requests st = [], st, w))"

section \<open>Undo and redo (handlers/undo_redo.rs)\<close>

text \<open>Whether the session is busy; a request refused for that takes the reply target with it.\<close>

definition refuse_unless_idle ::
  "ReplyTarget option \<Rightarrow> SessionState \<Rightarrow> world \<Rightarrow> bool \<times> ReplyTarget option \<times> world" where
  "refuse_unless_idle reply st w =
     (if st_active_requests st = [] then (False, reply, w)
      else (True, None, target_fail reply ''session is not idle'' w))"

definition handle_undo ::
  "RequestContext \<Rightarrow> ReplyTarget option \<Rightarrow> SessionState \<Rightarrow> world \<Rightarrow> bool \<times> SessionState \<times> world" where
  "handle_undo ctx reply st w =
     (let (busy, reply, w) = refuse_unless_idle reply st w in
      if busy then (False, st, w)
      else (case undo_turns st of
        (None, st) \<Rightarrow> (False, st, target_fail reply ''nothing to undo'' w)
      | (Some turn_ids, st) \<Rightarrow>
          (let (st, w) =
             (if cfg_last_response_id (st_config st) \<noteq> None
              then (let st = st\<lparr>st_config := (st_config st)
                      \<lparr>cfg_last_response_id := None, cfg_last_response_id_producer := None\<rparr>\<rparr>
                    in (st, write_session_w ctx (SessionRecord_from_state st) w))
              else (st, w));
               w = fold (\<lambda>tid w. case map_of (st_turns st) tid of
                      Some turn \<Rightarrow> write_turn_w ctx tid turn w | None \<Rightarrow> w) turn_ids w;
               (st, w) = session_event ctx (SE_TurnsUndone turn_ids) st w;
               (st, w) = broadcast_token_state ctx st w
           in (False, st, target_accept reply w))))"

definition handle_redo ::
  "RequestContext \<Rightarrow> ReplyTarget option \<Rightarrow> SessionState \<Rightarrow> world \<Rightarrow> bool \<times> SessionState \<times> world" where
  "handle_redo ctx reply st w =
     (let (busy, reply, w) = refuse_unless_idle reply st w in
      if busy then (False, st, w)
      else (case redo_turns st of
        (None, st) \<Rightarrow> (False, st, target_fail reply ''nothing to redo'' w)
      | (Some turns, st) \<Rightarrow>
          (let w = fold (\<lambda>(tid, turn). write_turn_w ctx tid turn) turns w;
               (st, w) = session_event ctx (SE_TurnsRedone (turns_for_client turns)) st w;
               (st, w) = broadcast_token_state ctx st w
           in (False, st, target_accept reply w))))"

section \<open>Settings (handlers/config.rs)\<close>

text \<open>A daemon that is gone, or goes while the answer is awaited, lets the model through.\<close>

definition validate_model_via_daemon ::
  "RequestContext \<Rightarrow> string \<Rightarrow> world \<Rightarrow> (string + unit) \<times> world" where
  "validate_model_via_daemon ctx model w = (case ctx_validate_model ctx (w_tick w) model of
     None \<Rightarrow> (Inr (), tick w)
   | Some (Inr _) \<Rightarrow> (Inr (), tick w)
   | Some (Inl msg) \<Rightarrow> (Inl msg, tick w))"

definition announce_context_window ::
  "RequestContext \<Rightarrow> u32 option \<Rightarrow> SessionState \<Rightarrow> world \<Rightarrow> SessionState \<times> world" where
  "announce_context_window ctx cw st w =
     (let st = set_context_window cw st in
      case cw of Some cw \<Rightarrow> session_event ctx (SE_ContextWindowResolved cw) st w | None \<Rightarrow> (st, w))"

definition set_reasoning_effort :: "string option \<Rightarrow> SessionState \<Rightarrow> SessionState" where
  "set_reasoning_effort effort st = st\<lparr>st_config := (st_config st)\<lparr>cfg_reasoning_effort := effort\<rparr>\<rparr>"

definition handle_set_model ::
  "RequestContext \<Rightarrow> string \<Rightarrow> ReplyTarget option \<Rightarrow> SessionState \<Rightarrow> world \<Rightarrow> bool \<times> SessionState \<times> world" where
  "handle_set_model ctx model reply st w = (case validate_model_via_daemon ctx model w of
     (Inl msg, w) \<Rightarrow>
       (let w = target_fail reply msg w;
            (st, w) = session_event ctx (SE_ModelSelectionFailed model msg) st w
        in (False, st, w))
   | (Inr _, w) \<Rightarrow>
       (let st = st\<lparr>st_config := (st_config st)\<lparr>cfg_selected_model := Some model\<rparr>\<rparr>;
            cw = resolve_context_window_for_model ctx st model;
            (st, w) = announce_context_window ctx cw st w;
            capability = map_option (\<lambda>slug. ctx_model_reasoning_capability ctx slug model)
              (effective_provider_slug st);
            (st, w) = (case (capability, cfg_reasoning_effort (st_config st)) of
               (Some cap, Some effort) \<Rightarrow>
                 if effort \<noteq> ''off'' \<and> effort \<notin> set (available_effort_levels cap)
                 then session_event ctx (SE_ReasoningEffortSet ''off'')
                        (set_reasoning_effort (Some ''off'') st) w
                 else (st, w)
             | _ \<Rightarrow> (st, w));
            (st, w) = session_event ctx (SE_ModelSelected model capability) st w;
            (st, w) = persist_session_metadata ctx st w
        in (False, st, target_accept reply w)))"

definition MAX_TITLE_CHARS :: nat where
  "MAX_TITLE_CHARS = 200"

definition handle_set_title ::
  "RequestContext \<Rightarrow> string \<Rightarrow> ReplyTarget option \<Rightarrow> SessionState \<Rightarrow> world \<Rightarrow> bool \<times> SessionState \<times> world" where
  "handle_set_title ctx title reply st w =
     (if ctx_graphemes ctx title > MAX_TITLE_CHARS
      then (False, st, target_fail reply ''title too long'' w)
      else
        (let st = st\<lparr>st_config := (st_config st)\<lparr>cfg_title := Some title\<rparr>\<rparr>;
             (st, w) = session_event ctx (SE_SessionTitleSet title) st w;
             (st, w) = persist_session_metadata ctx st w
         in (False, st, target_accept reply w)))"

definition handle_set_mcp_overlay ::
  "SessionMcpOverlay \<Rightarrow> SessionState \<Rightarrow> world \<Rightarrow> bool \<times> SessionState \<times> world" where
  "handle_set_mcp_overlay overlay st w =
     (False, st\<lparr>st_project_tools := ov_tools overlay,
                st_project_shadowed_groups := ov_shadowed_groups overlay\<rparr>, w)"

definition handle_set_working_dir ::
  "RequestContext \<Rightarrow> string \<Rightarrow> reply_chan \<Rightarrow> ReplyTarget option \<Rightarrow> SessionState \<Rightarrow> world \<Rightarrow>
   bool \<times> SessionState \<times> world" where
  "handle_set_working_dir ctx path tool_reply reply st w =
     (let st = st\<lparr>st_config := (st_config st)\<lparr>cfg_working_dir := Some path\<rparr>,
                  st_discovered_skills := None\<rparr>;
          (st, w) = session_event ctx (SE_SessionWorkingDirSet (Some path)) st w;
          (st, w) = persist_session_metadata ctx st w;
          w = send_daemon (DC_McpEnsureSession (ctx_session_id ctx) False) w;
          w = reply_send tool_reply (RV_Result (Inr path)) w
      in (False, st, target_accept reply w))"

section \<open>Tool groups (tools/load_tools.rs, tools/unload_tools.rs, handlers/config.rs)\<close>

definition unknown_group_names :: "string list \<Rightarrow> string list \<Rightarrow> string list option" where
  "unknown_group_names groups known =
     (let unknown = filter (\<lambda>g. g \<notin> set known) groups in if unknown = [] then None else Some unknown)"

fun load_loop :: "string list \<Rightarrow> string list \<Rightarrow> string list \<Rightarrow> string list \<times> string list" where
  "load_loop [] active loaded = (active, loaded)"
| "load_loop (g # groups) active loaded =
     (if g \<in> set active then load_loop groups active loaded
      else load_loop groups (hs_insert g active) (loaded @ [g]))"

definition apply_load_tools :: "(string list \<Rightarrow> string) \<Rightarrow> string list \<Rightarrow> string list \<Rightarrow> string \<times> string list" where
  "apply_load_tools humfmt_list active groups =
     (let (active, loaded) = load_loop groups active []
      in (if loaded = [] then ''All specified groups were already active.''
          else ''Activated tool groups: '' @ humfmt_list loaded, active))"

fun unload_loop ::
  "string list \<Rightarrow> string list \<Rightarrow> string list \<Rightarrow> string list \<Rightarrow> string list \<Rightarrow>
   string list \<times> string list \<times> string list" where
  "unload_loop protected [] active unloaded hits = (active, unloaded, hits)"
| "unload_loop protected (g # groups) active unloaded hits =
     (if g \<in> set protected then unload_loop protected groups active unloaded (hits @ [g])
      else if g \<in> set active then unload_loop protected groups (hs_remove g active) (unloaded @ [g]) hits
      else unload_loop protected groups active unloaded hits)"

definition apply_unload_tools ::
  "(string list \<Rightarrow> string) \<Rightarrow> string list \<Rightarrow> string list \<Rightarrow> string list \<Rightarrow> string \<times> string list" where
  "apply_unload_tools humfmt_list active groups protected =
     (let (active, unloaded, hits) = unload_loop protected groups active [] [];
          parts = (if unloaded \<noteq> [] then [''Deactivated tool groups: '' @ humfmt_list unloaded] else []) @
            (if hits \<noteq> []
             then [''The '' @ humfmt_list hits @ '' group'' @ (if length hits = 1 then '''' else ''s'') @
                   '' cannot be unloaded.''] else []);
          parts = (if parts = [] then [''None of the specified groups were active.''] else parts)
      in (join '' '' parts, active))"

definition set_tool_groups ::
  "RequestContext \<Rightarrow> reply_chan \<Rightarrow> string \<times> string list \<Rightarrow> SessionState \<Rightarrow> world \<Rightarrow>
   bool \<times> SessionState \<times> world" where
  "set_tool_groups ctx reply = (\<lambda>(result, groups) st w.
     (let st = st\<lparr>st_config := (st_config st)\<lparr>cfg_active_tool_groups := groups\<rparr>\<rparr>;
          message = session_state_message (ctx_model_reasoning_capability ctx) st (ctx_session_id ctx);
          (st, w) = session_broadcast ctx message st w;
          (st, w) = persist_session_metadata ctx st w
      in (False, st, reply_send reply (RV_Result (Inr result)) w)))"

definition unknown_groups_error :: "string list \<Rightarrow> string" where
  "unknown_groups_error unknown = ''Unknown tool group(s): '' @ join '', '' unknown"

definition handle_load_tools ::
  "RequestContext \<Rightarrow> string list \<Rightarrow> reply_chan \<Rightarrow> SessionState \<Rightarrow> world \<Rightarrow> bool \<times> SessionState \<times> world" where
  "handle_load_tools ctx groups reply st w =
     (case unknown_group_names groups (ctx_known_group_names ctx) of
        Some unknown \<Rightarrow> (False, st, reply_send reply (RV_Result (Inl (unknown_groups_error unknown))) w)
      | None \<Rightarrow> set_tool_groups ctx reply
          (apply_load_tools (ctx_humfmt_list ctx) (cfg_active_tool_groups (st_config st)) groups) st w)"

definition handle_unload_tools ::
  "RequestContext \<Rightarrow> string list \<Rightarrow> reply_chan \<Rightarrow> SessionState \<Rightarrow> world \<Rightarrow> bool \<times> SessionState \<times> world" where
  "handle_unload_tools ctx groups reply st w =
     (case unknown_group_names groups (ctx_known_group_names ctx) of
        Some unknown \<Rightarrow> (False, st, reply_send reply (RV_Result (Inl (unknown_groups_error unknown))) w)
      | None \<Rightarrow> set_tool_groups ctx reply
          (apply_unload_tools (ctx_humfmt_list ctx) (cfg_active_tool_groups (st_config st)) groups
             (ctx_protected_groups ctx)) st w)"

section \<open>Account and reasoning effort (handlers/config.rs)\<close>

definition handle_set_provider_slug ::
  "string option \<Rightarrow> SessionState \<Rightarrow> world \<Rightarrow> bool \<times> SessionState \<times> world" where
  "handle_set_provider_slug slug st w = (False, st\<lparr>st_provider_slug := slug\<rparr>, w)"

definition handle_set_account ::
  "RequestContext \<Rightarrow> string \<Rightarrow> ReplyTarget option \<Rightarrow> SessionState \<Rightarrow> world \<Rightarrow> bool \<times> SessionState \<times> world" where
  "handle_set_account ctx name reply st w =
     (let switching = (cfg_account_name (st_config st) \<noteq> Some name);
          st = (if switching
                then st\<lparr>st_provider := None,
                  st_config := (st_config st)\<lparr>cfg_selected_model := None,
                    cfg_reasoning_effort := None, cfg_context_window := None\<rparr>\<rparr>
                else st);
          (resolved, w) = send_resolve_account ctx name w;
          st = st\<lparr>st_provider_slug := map_option (\<lambda>a. ac_provider (ra_config a)) resolved,
                  st_warm_policy := (case resolved of None \<Rightarrow> WarmPolicy_default | Some a \<Rightarrow> ra_warm_policy a)\<rparr>;
          new_provider = (case resolved of
             None \<Rightarrow> None
           | Some a \<Rightarrow> (case ra_auth a of
               None \<Rightarrow> None
             | Some auth \<Rightarrow> (case ctx_from_account_config ctx (ra_config a) auth (st_registry st) of
                 Inl _ \<Rightarrow> None | Inr p \<Rightarrow> Some p)));
          st = (case new_provider of Some provider \<Rightarrow> st\<lparr>st_provider := Some provider\<rparr> | None \<Rightarrow> st);
          (st, w) = (case cfg_selected_model (st_config st) of
             Some model \<Rightarrow>
               if \<not> switching
               then announce_context_window ctx (resolve_context_window_for_model ctx st model) st w
               else (st, w)
           | None \<Rightarrow> (st, w));
          st = st\<lparr>st_config := (st_config st)\<lparr>cfg_account_name := Some name\<rparr>\<rparr>;
          (st, w) = session_event ctx (SE_SessionAccountSet name) st w;
          (st, w) = persist_session_metadata ctx st w
      in (False, st, target_accept reply w))"

definition reject_effort ::
  "RequestContext \<Rightarrow> string \<Rightarrow> ReplyTarget option \<Rightarrow> string \<Rightarrow> SessionState \<Rightarrow> world \<Rightarrow>
   bool \<times> SessionState \<times> world" where
  "reject_effort ctx effort reply msg st w =
     (let w = target_fail reply msg w;
          (st, w) = session_event ctx (SE_ReasoningEffortSetFailed effort msg) st w
      in (False, st, w))"

definition handle_set_reasoning_effort ::
  "RequestContext \<Rightarrow> string \<Rightarrow> ReplyTarget option \<Rightarrow> SessionState \<Rightarrow> world \<Rightarrow> bool \<times> SessionState \<times> world" where
  "handle_set_reasoning_effort ctx effort reply st w =
     (if length effort > 64
      then reject_effort ctx effort reply
             (''reasoning effort slug too long ('' @ show_nat (length effort) @ '' bytes)'') st w
      else
        (let capability = (case cfg_selected_model (st_config st) of
               None \<Rightarrow> None
             | Some model \<Rightarrow> (case effective_provider_slug st of
                 None \<Rightarrow> None | Some slug \<Rightarrow> Some (ctx_model_reasoning_capability ctx slug model)));
             valid = (effort = ''off'' \<or>
               (case capability of Some c \<Rightarrow> effort \<in> set (available_effort_levels c) | None \<Rightarrow> False) \<or>
               capability = None)
         in if valid
            then (let st = set_reasoning_effort (Some effort) st;
                      (st, w) = session_event ctx (SE_ReasoningEffortSet effort) st w
                  in (False, st, target_accept reply w))
            else (let model = (case cfg_selected_model (st_config st) of Some m \<Rightarrow> m | None \<Rightarrow> ''(none)'')
                  in reject_effort ctx effort reply
                       (''model '' @ [CHR 0x27] @ model @ [CHR 0x27] @ '' does not support reasoning effort '' @
                        [CHR 0x27] @ effort @ [CHR 0x27]) st w)))"

definition handle_get_reasoning_effort ::
  "reply_chan \<Rightarrow> SessionState \<Rightarrow> world \<Rightarrow> bool \<times> SessionState \<times> world" where
  "handle_get_reasoning_effort reply st w =
     (False, st, reply_send reply
        (RV_Effort (case cfg_reasoning_effort (st_config st) of Some e \<Rightarrow> e | None \<Rightarrow> ''off'')) w)"

definition handle_get_state ::
  "RequestContext \<Rightarrow> reply_chan \<Rightarrow> SessionState \<Rightarrow> world \<Rightarrow> bool \<times> SessionState \<times> world" where
  "handle_get_state ctx reply st w =
     (False, st, reply_send reply (RV_State
        (session_state_message (ctx_model_reasoning_capability ctx) st (ctx_session_id ctx))) w)"

section \<open>Dispatch (handlers.rs)\<close>

fun process_command ::
  "RequestContext \<Rightarrow> SessionCommand \<Rightarrow> SessionState \<Rightarrow> bool \<Rightarrow> world \<Rightarrow>
   bool \<times> SessionState \<times> bool \<times> world" where
  "process_command ctx cmd st shutdown w =
     (let keep = (\<lambda>(exit, st, w). (exit, st, shutdown, w)) in case cmd of
        SC_RunInput input reply \<Rightarrow> keep (handle_run_input ctx input reply shutdown st w)
      | SC_RunChildInput user_text reply \<Rightarrow> keep (handle_run_child_input ctx user_text reply shutdown st w)
      | SC_Cancel stream_id \<Rightarrow> keep (handle_cancel ctx stream_id st w)
      | SC_SetModel model reply \<Rightarrow> keep (handle_set_model ctx model reply st w)
      | SC_StatusChanged status \<Rightarrow> keep (handle_status_changed ctx status st w)
      | SC_Attach client_id tx \<Rightarrow> keep (handle_attach ctx client_id tx st w)
      | SC_Detach client_id \<Rightarrow> keep (handle_detach ctx client_id shutdown st w)
      | SC_RemoveSubscriber client_id \<Rightarrow> keep (handle_remove_subscriber client_id shutdown st w)
      | SC_GetSummary reply \<Rightarrow> keep (handle_get_summary ctx reply st w)
      | SC_RequestFinished stream_id snap \<Rightarrow> keep (handle_request_finished ctx stream_id snap shutdown st w)
      | SC_Broadcast message \<Rightarrow> keep (handle_broadcast ctx message st w)
      | SC_SyncAccumulatedUsage usage tokens \<Rightarrow> keep (handle_sync_accumulated_usage ctx usage tokens st w)
      | SC_SetTitle title reply \<Rightarrow> keep (handle_set_title ctx title reply st w)
      | SC_SetWorkingDir path tool_reply reply \<Rightarrow> keep (handle_set_working_dir ctx path tool_reply reply st w)
      | SC_LoadTools groups reply \<Rightarrow> keep (handle_load_tools ctx groups reply st w)
      | SC_UnloadTools groups reply \<Rightarrow> keep (handle_unload_tools ctx groups reply st w)
      | SC_SetMcpOverlay overlay \<Rightarrow> keep (handle_set_mcp_overlay overlay st w)
      | SC_SetAccount name reply \<Rightarrow> keep (handle_set_account ctx name reply st w)
      | SC_DropProvider \<Rightarrow> (False, st\<lparr>st_provider := None\<rparr>, shutdown, w)
      | SC_SetProviderSlug slug \<Rightarrow> keep (handle_set_provider_slug slug st w)
      | SC_SetReasoningEffort effort reply \<Rightarrow> keep (handle_set_reasoning_effort ctx effort reply st w)
      | SC_GetReasoningEffort reply \<Rightarrow> keep (handle_get_reasoning_effort reply st w)
      | SC_GetState reply \<Rightarrow> keep (handle_get_state ctx reply st w)
      | SC_Undo reply \<Rightarrow> keep (handle_undo ctx reply st w)
      | SC_Redo reply \<Rightarrow> keep (handle_redo ctx reply st w)
      | SC_Shutdown \<Rightarrow> (case handle_shutdown ctx st w of (exit, st, w) \<Rightarrow> (exit, st, True, w)))"

declare process_command.simps [simp del]

section \<open>The thread (sessions.rs, worker.rs)\<close>

definition persist_and_exit :: "RequestContext \<Rightarrow> SessionState \<Rightarrow> world \<Rightarrow> world" where
  "persist_and_exit ctx st w =
     send_daemon (DC_SessionExited (ctx_session_id ctx))
       (write_session_w ctx (SessionRecord_from_state st) w)"

text \<open>
  The command loop on the commands that arrive, in order; it also ends when every
  sender is gone. The result tells which commands were left unread.
\<close>

fun session_loop ::
  "RequestContext \<Rightarrow> SessionCommand list \<Rightarrow> SessionState \<Rightarrow> bool \<Rightarrow> world \<Rightarrow>
   SessionState \<times> bool \<times> SessionCommand list \<times> world" where
  "session_loop ctx [] st shutdown w = (st, shutdown, [], w)"
| "session_loop ctx (cmd # cmds) st shutdown w = (case process_command ctx cmd st shutdown w of
     (exit, st, shutdown, w) \<Rightarrow>
       if exit then (st, shutdown, cmds, w) else session_loop ctx cmds st shutdown w)"

definition default_active_tool_groups :: "bool \<Rightarrow> bool \<Rightarrow> string list" where
  "default_active_tool_groups content ios =
     [''core'', ''git'', ''shell''] @ (if content then [''content''] else []) @ (if ios then [''ios''] else [])"

definition initial_config ::
  "bool \<Rightarrow> bool \<Rightarrow> i64 \<Rightarrow> i64 \<Rightarrow> string option \<Rightarrow> SessionRecord option \<Rightarrow> SessionConfig" where
  "initial_config content ios now1 now2 account_name init_record =
     \<lparr>cfg_title = Option.bind init_record rec_title,
      cfg_selected_model = Option.bind init_record rec_selected_model,
      cfg_reasoning_effort = Option.bind init_record rec_reasoning_effort,
      cfg_parent_session_id = Option.bind init_record rec_parent_session_id,
      cfg_working_dir = Option.bind init_record rec_working_dir,
      cfg_created_at = (case init_record of None \<Rightarrow> now1 | Some r \<Rightarrow> rec_created_at r),
      cfg_last_modified = (case init_record of None \<Rightarrow> now2 | Some r \<Rightarrow> rec_last_modified r),
      cfg_status = SS_Inactive,
      cfg_active_tool_groups = (case init_record of
          None \<Rightarrow> default_active_tool_groups content ios
        | Some r \<Rightarrow> (let cats = hs_collect (rec_active_tool_groups r)
                    in if cats = [] then default_active_tool_groups content ios else cats)),
      cfg_context_config = (case init_record of None \<Rightarrow> ContextConfig_default | Some r \<Rightarrow> rec_context_config r),
      cfg_account_name = account_name, cfg_accumulated_usage = TokenUsage_default,
      cfg_context_window = None, cfg_last_prompt_tokens = None,
      cfg_last_response_id = Option.bind init_record rec_last_response_id,
      cfg_last_response_id_producer = Option.bind init_record rec_last_response_id_producer\<rparr>"

definition load_turn :: "u32 \<times> Turn \<Rightarrow> SessionState \<Rightarrow> SessionState" where
  "load_turn = (\<lambda>(turn_id, turn) st.
     st\<lparr>st_turns := btm_insert turn_id turn (st_turns st),
        st_next_turn_id := max (st_next_turn_id st) (turn_id + 1)\<rparr>)"

definition load_turns :: "RequestContext \<Rightarrow> SessionState \<Rightarrow> world \<Rightarrow> SessionState \<times> world" where
  "load_turns ctx st w =
     (case read_turns (ctx_db_fault ctx (w_tick w) 0) (ctx_session_id ctx) (w_db w) of
        Inl e \<Rightarrow> (st, tick w)
      | Inr turns \<Rightarrow>
          (let st = fold load_turn turns st;
               st = st\<lparr>st_config := (st_config st)
                 \<lparr>cfg_accumulated_usage := reconstruct_accumulated_usage (st_turns st)\<rparr>\<rparr>;
               st = st\<lparr>st_config := (st_config st)\<lparr>cfg_last_prompt_tokens := live_last_prompt_tokens st\<rparr>\<rparr>
           in (st, tick w)))"

definition session_start ::
  "RequestContext \<Rightarrow> bool \<Rightarrow> bool \<Rightarrow> InferenceProvider option \<Rightarrow> nat \<Rightarrow> string option \<Rightarrow> string option \<Rightarrow>
   SessionRecord option \<Rightarrow> world \<Rightarrow> SessionState \<times> world" where
  "session_start ctx content ios initial_provider registry account_name provider_slug init_record w =
     (let config = initial_config content ios (ctx_now ctx (w_tick w)) (ctx_now ctx (Suc (w_tick w)))
            account_name init_record;
          w = tick (tick w);
          st = SessionState_empty\<lparr>st_config := config, st_provider := initial_provider,
            st_provider_slug := provider_slug, st_registry := registry,
            st_warm_policy := ctx_warm_policy ctx\<rparr>;
          (st, w) = refresh_context_window ctx st w;
          (st, w) = load_turns ctx st w
      in (st, update_metadata ctx st w))"

definition session_main ::
  "RequestContext \<Rightarrow> bool \<Rightarrow> bool \<Rightarrow> InferenceProvider option \<Rightarrow> nat \<Rightarrow> string option \<Rightarrow> string option \<Rightarrow>
   SessionRecord option \<Rightarrow> SessionCommand list \<Rightarrow> world \<Rightarrow> SessionCommand list \<times> world" where
  "session_main ctx content ios initial_provider registry account_name provider_slug init_record cmds w =
     (case session_start ctx content ios initial_provider registry account_name provider_slug init_record w of
        (st, w) \<Rightarrow> (case session_loop ctx cmds st False w of
          (st, _, rest, w) \<Rightarrow> (rest, persist_and_exit ctx st w)))"

section \<open>The request worker (worker.rs)\<close>

datatype RequestOutcome = RQ_Done | RQ_Failed io_error | RQ_Cancelled

text \<open>
  How the agent loop ended: returned whether it was cancelled, failed, or panicked,
  and the state it left the worker's session in.
\<close>

datatype loop_result = LR_Cancelled | LR_Finished | LR_Error io_error | LR_Panicked

definition request_outcome :: "loop_result \<Rightarrow> RequestOutcome" where
  "request_outcome r = (case r of
     LR_Cancelled \<Rightarrow> RQ_Cancelled
   | LR_Finished \<Rightarrow> RQ_Done
   | LR_Error e \<Rightarrow> RQ_Failed e
   | LR_Panicked \<Rightarrow> RQ_Failed (other_error ''request worker panicked''))"

definition worker_snapshot :: "RequestWorkerArgs \<Rightarrow> loop_result \<Rightarrow> SessionState \<Rightarrow> SessionSnapshot" where
  "worker_snapshot args r session =
     (case r of LR_Panicked \<Rightarrow> snapshot (wk_session args) | _ \<Rightarrow> snapshot session)"

definition child_result :: "RequestOutcome \<Rightarrow> SessionState \<Rightarrow> ChildResult" where
  "child_result outcome session = (case outcome of
     RQ_Done \<Rightarrow> \<lparr>cr_output = join [CHR 0x0A] (List.map_filter (\<lambda>(_, t). t_assistant_text t) (st_turns session)),
                 cr_is_error = False\<rparr>
   | RQ_Failed error \<Rightarrow> \<lparr>cr_output = io_text error, cr_is_error = True\<rparr>
   | RQ_Cancelled \<Rightarrow> \<lparr>cr_output = ''request cancelled'', cr_is_error = True\<rparr>)"

text \<open>
  What the worker does when the agent loop \<open>run_agent_loop\<close> ended with \<open>r\<close> and the
  state \<open>session\<close>: the commands it posts to its session, and the answer to a parent.
\<close>

definition run_request_worker ::
  "u64 \<Rightarrow> RequestWorkerArgs \<Rightarrow> loop_result \<Rightarrow> SessionState \<Rightarrow>
   SessionCommand list \<times> (reply_chan \<times> reply_value) list" where
  "run_request_worker session_id args r session =
     (let outcome = request_outcome r;
          terminal = (case outcome of
             RQ_Done \<Rightarrow> [SC_Broadcast (DM_Session (Some session_id)
               (SE_Done (wk_stream_id args) (Some (cfg_accumulated_usage (st_config session)))
                 (cfg_last_prompt_tokens (st_config session))))]
           | RQ_Failed error \<Rightarrow> [SC_Broadcast (DM_Session (Some session_id)
               (SE_Failed (wk_stream_id args) (io_text error)))]
           | RQ_Cancelled \<Rightarrow> []);
          replies = (case wk_child_reply args of
             Some ch \<Rightarrow> [(ch, RV_Child (Inr (child_result outcome session)))] | None \<Rightarrow> [])
      in (terminal @ [SC_RequestFinished (wk_stream_id args) (worker_snapshot args r session)], replies))"

section \<open>Bounding the join at shutdown (sessions.rs)\<close>

text \<open>
  Times are milliseconds. \<open>finished k\<close> tells whether the thread has ended when it is
  polled for the \<open>k\<close>-th time, \<open>clock\<close> is the time now; a sleep advances it by what
  was asked for plus whatever the scheduler adds, \<open>late k\<close>. The result is
  whether the thread was joined, after how many polls, and at what time.
\<close>

function join_poll ::
  "nat \<Rightarrow> (nat \<Rightarrow> bool) \<Rightarrow> (nat \<Rightarrow> nat) \<Rightarrow> nat \<Rightarrow> nat \<Rightarrow> bool \<times> nat \<times> nat" where
  "join_poll deadline finished late k clock =
     (if finished k then (True, k, clock)
      else (let remaining = deadline - clock in
        if remaining = 0 then (False, k, clock)
        else join_poll deadline finished late (Suc k) (clock + min remaining 50 + late k)))"
  by pat_completeness auto
termination
  by (relation "measure (\<lambda>(deadline, _, _, _, clock). deadline - clock)") auto

declare join_poll.simps [simp del]

definition SESSION_SHUTDOWN_GRACE :: nat where
  "SESSION_SHUTDOWN_GRACE = 5000"

definition shutdown_join_poll ::
  "nat \<Rightarrow> (nat \<Rightarrow> bool) \<Rightarrow> (nat \<Rightarrow> nat) \<Rightarrow> nat \<Rightarrow> bool \<times> nat \<times> nat" where
  "shutdown_join_poll grace finished late start = join_poll (start + grace) finished late 0 start"

section \<open>What telling subscribers changes\<close>

definition alive_subs :: "hub \<Rightarrow> (ClientId \<times> SubscriberSink) list \<Rightarrow> (ClientId \<times> SubscriberSink) list" where
  "alive_subs h subs = filter (\<lambda>(_, s). ch_rx_alive (hub_chan h s)) subs"

definition with_subs :: "(ClientId \<times> SubscriberSink) list \<Rightarrow> SessionState \<Rightarrow> SessionState" where
  "with_subs subs st = st\<lparr>st_subscribers := subs\<rparr>"

lemma session_broadcast_state:
  "fst (session_broadcast ctx m st w) = with_subs (alive_subs (w_hub w) (st_subscribers st)) st"
proof -
  let ?r = "fan_out_evicting (\<lambda>sink. sink) (DaemonMessage_broadcast m) (ctx_lag_limits ctx) (\<lambda>_ _. False)
      (st_subscribers st) (w_hub w)"
  have "fst ?r = alive_subs (w_hub w) (st_subscribers st)"
    by (simp add: fan_out_kept alive_subs_def)
  then show ?thesis
    by (simp add: session_broadcast_def with_subs_def Let_def send_daemon_def case_prod_beta)
qed

lemma session_event_state:
  "fst (session_event ctx e st w) = with_subs (alive_subs (w_hub w) (st_subscribers st)) st"
  by (simp add: session_event_def session_broadcast_state)

lemma send_daemon_simps [simp]:
  "w_hub (send_daemon c w) = w_hub w" "w_db (send_daemon c w) = w_db w"
  "w_replies (send_daemon c w) = w_replies w" "w_workers (send_daemon c w) = w_workers w"
  "w_cancelled (send_daemon c w) = w_cancelled w" "w_tick (send_daemon c w) = w_tick w"
  "w_daemon_tx (send_daemon c w) = w_daemon_tx w @ [c]" "w_next_cancel (send_daemon c w) = w_next_cancel w"
  by (simp_all add: send_daemon_def)

lemma fold_send_daemon [simp]:
  "w_hub (fold (\<lambda>x. send_daemon (f x)) xs w) = w_hub w"
  "w_db (fold (\<lambda>x. send_daemon (f x)) xs w) = w_db w"
  "w_replies (fold (\<lambda>x. send_daemon (f x)) xs w) = w_replies w"
  "w_workers (fold (\<lambda>x. send_daemon (f x)) xs w) = w_workers w"
  "w_cancelled (fold (\<lambda>x. send_daemon (f x)) xs w) = w_cancelled w"
  "w_tick (fold (\<lambda>x. send_daemon (f x)) xs w) = w_tick w"
  "w_next_cancel (fold (\<lambda>x. send_daemon (f x)) xs w) = w_next_cancel w"
  "w_daemon_tx (fold (\<lambda>x. send_daemon (f x)) xs w) = w_daemon_tx w @ map f xs"
  by (induction xs arbitrary: w) simp_all

lemma session_broadcast_world [simp]:
  "w_db (snd (session_broadcast ctx m st w)) = w_db w"
  "w_replies (snd (session_broadcast ctx m st w)) = w_replies w"
  "w_workers (snd (session_broadcast ctx m st w)) = w_workers w"
  "w_cancelled (snd (session_broadcast ctx m st w)) = w_cancelled w"
  "w_tick (snd (session_broadcast ctx m st w)) = w_tick w"
  "w_next_cancel (snd (session_broadcast ctx m st w)) = w_next_cancel w"
  by (simp_all add: session_broadcast_def Let_def case_prod_beta)

lemma session_broadcast_hub:
  "w_hub (snd (session_broadcast ctx m st w)) =
     fan_out_spec (\<lambda>sink. sink) (DaemonMessage_broadcast m) (alive_subs (w_hub w) (st_subscribers st)) (w_hub w)"
  by (simp add: session_broadcast_def Let_def case_prod_beta fan_out_hub reached_def alive_subs_def)

lemma session_event_world [simp]:
  "w_db (snd (session_event ctx e st w)) = w_db w"
  "w_replies (snd (session_event ctx e st w)) = w_replies w"
  "w_workers (snd (session_event ctx e st w)) = w_workers w"
  "w_cancelled (snd (session_event ctx e st w)) = w_cancelled w"
  "w_tick (snd (session_event ctx e st w)) = w_tick w"
  "w_next_cancel (snd (session_event ctx e st w)) = w_next_cancel w"
  by (simp_all add: session_event_def)

lemma with_subs_simps [simp]:
  "st_config (with_subs subs st) = st_config st"
  "st_next_turn_id (with_subs subs st) = st_next_turn_id st"
  "st_next_stream_id (with_subs subs st) = st_next_stream_id st"
  "st_redo_stack (with_subs subs st) = st_redo_stack st"
  "st_turns (with_subs subs st) = st_turns st"
  "st_subscribers (with_subs subs st) = subs"
  "st_active_requests (with_subs subs st) = st_active_requests st"
  "st_provider (with_subs subs st) = st_provider st"
  "st_provider_slug (with_subs subs st) = st_provider_slug st"
  "st_registry (with_subs subs st) = st_registry st"
  "with_subs subs (with_subs subs' st) = with_subs subs st"
  by (simp_all add: with_subs_def)

section \<open>Replies\<close>

text \<open>The correlated replies in a queue: broadcasts carry no request id.\<close>

definition replies :: "hub \<Rightarrow> SubscriberSink \<Rightarrow> DaemonMessage list" where
  "replies h s = filter (\<lambda>m. dmsg_id m \<noteq> None) (ch_queue (hub_chan h s))"

definition hub_up :: "hub \<Rightarrow> SubscriberSink \<Rightarrow> bool" where
  "hub_up h s = ch_rx_alive (hub_chan h s)"

lemma fan_out_spec_replies [simp]:
  "replies (fan_out_spec sink (DaemonMessage_broadcast m) es h) s = replies h s"
  "hub_up (fan_out_spec sink msg es h) s = hub_up h s"
  by (simp_all add: replies_def hub_up_def store_simps DaemonMessage_broadcast_def)

lemma broadcast_replies [simp]:
  "replies (w_hub (snd (session_broadcast ctx m st w))) s = replies (w_hub w) s"
  "hub_up (w_hub (snd (session_broadcast ctx m st w))) s = hub_up (w_hub w) s"
  "replies (w_hub (snd (session_event ctx e st w))) s = replies (w_hub w) s"
  "hub_up (w_hub (snd (session_event ctx e st w))) s = hub_up (w_hub w) s"
  by (simp_all add: session_broadcast_hub session_event_def)

lemma tick_simps [simp]:
  "w_hub (tick w) = w_hub w" "w_db (tick w) = w_db w" "w_replies (tick w) = w_replies w"
  "w_workers (tick w) = w_workers w" "w_cancelled (tick w) = w_cancelled w"
  "w_daemon_tx (tick w) = w_daemon_tx w" "w_tick (tick w) = Suc (w_tick w)"
  "w_next_cancel (tick w) = w_next_cancel w"
  by (simp_all add: tick_def)

lemma write_world [simp]:
  "w_hub (write_session_w ctx r w) = w_hub w" "w_hub (write_turn_w ctx tid t w) = w_hub w"
  "w_workers (write_session_w ctx r w) = w_workers w" "w_workers (write_turn_w ctx tid t w) = w_workers w"
  "w_cancelled (write_session_w ctx r w) = w_cancelled w" "w_cancelled (write_turn_w ctx tid t w) = w_cancelled w"
  "w_daemon_tx (write_session_w ctx r w) = w_daemon_tx w" "w_daemon_tx (write_turn_w ctx tid t w) = w_daemon_tx w"
  "w_replies (write_session_w ctx r w) = w_replies w" "w_replies (write_turn_w ctx tid t w) = w_replies w"
  by (simp_all add: write_session_w_def write_turn_w_def split: sum.split)

lemma update_metadata_world [simp]:
  "w_hub (update_metadata ctx st w) = w_hub w" "w_db (update_metadata ctx st w) = w_db w"
  "w_workers (update_metadata ctx st w) = w_workers w" "w_cancelled (update_metadata ctx st w) = w_cancelled w"
  by (simp_all add: update_metadata_def)

lemma reply_send_world [simp]: "w_hub (reply_send ch v w) = w_hub w" "w_workers (reply_send ch v w) = w_workers w"
  by (simp_all add: reply_send_def)

end
