(* ===== verification/Session_Protocol.thy ===== *)
theory Session_Protocol
  imports Session_Handlers
begin

text \<open>
  The request and reply protocol of a session's control thread, over the handlers
  of the preceding theory: one answer per request, in order, and none for anybody
  else. It is proved for each handler first, then carried to the dispatch and to
  any sequence of commands.
\<close>

section \<open>Answers\<close>

definition reply_msgs ::
  "ReplyTarget option \<Rightarrow> (ReplyTarget \<Rightarrow> DaemonMessageType) \<Rightarrow> bool \<Rightarrow> SubscriberSink \<Rightarrow> DaemonMessage list" where
  "reply_msgs reply f up s = (case reply of
     None \<Rightarrow> []
   | Some t \<Rightarrow> if s = rs_sink (rt_sink t) \<and> up then [DaemonMessage_reply (rs_id (rt_sink t)) (f t)] else [])"

text \<open>
  The request behind \<open>reply\<close> got exactly one answer, nobody else got one, and no
  connection went up or down.
\<close>

definition answers :: "ReplyTarget option \<Rightarrow> hub \<Rightarrow> hub \<Rightarrow> bool" where
  "answers reply h h' \<longleftrightarrow> (\<exists>f. \<forall>s. replies h' s = replies h s @ reply_msgs reply f (hub_up h s) s \<and>
     hub_up h' s = hub_up h s)"

lemma answersI:
  "(\<And>s. replies h' s = replies h s @ reply_msgs reply f (hub_up h s) s) \<Longrightarrow>
   (\<And>s. hub_up h' s = hub_up h s) \<Longrightarrow> answers reply h h'"
  by (auto simp: answers_def)

lemma reply_msgs_None [simp]: "reply_msgs None f up s = []"
  by (simp add: reply_msgs_def)

lemma deliver_reply [simp]:
  "replies (deliver k (DaemonMessage_reply rid inner) h) s =
     replies h s @ (if s = k then [DaemonMessage_reply rid inner] else [])"
  "replies (deliver k (DaemonMessage_broadcast inner) h) s = replies h s"
  "hub_up (deliver k msg h) s = hub_up h s"
  by (simp_all add: replies_def hub_up_def store_simps DaemonMessage_reply_def DaemonMessage_broadcast_def)

lemma target_replies [simp]:
  "replies (w_hub (target_send reply inner w)) s =
     replies (w_hub w) s @ reply_msgs reply (\<lambda>_. inner) (hub_up (w_hub w) s) s"
  "replies (w_hub (target_fail reply msg w)) s =
     replies (w_hub w) s @ reply_msgs reply (\<lambda>t. DM_Failed (rt_kind t) msg) (hub_up (w_hub w) s) s"
  "replies (w_hub (target_accept reply w)) s =
     replies (w_hub w) s @ reply_msgs reply (\<lambda>t. DM_Accepted (rt_kind t)) (hub_up (w_hub w) s) s"
  by (auto simp: target_send_def target_fail_def target_accept_def ReplyTarget_fail_def
      ReplyTarget_accept_def ReplyTarget_send_eq ReplySink_send_eq reply_msgs_def hub_up_def
      split: option.split)

lemma target_up [simp]:
  "hub_up (w_hub (target_send reply inner w)) s = hub_up (w_hub w) s"
  "hub_up (w_hub (target_fail reply msg w)) s = hub_up (w_hub w) s"
  "hub_up (w_hub (target_accept reply w)) s = hub_up (w_hub w) s"
  by (auto simp: target_send_def target_fail_def target_accept_def ReplyTarget_fail_def
      ReplyTarget_accept_def ReplyTarget_send_eq ReplySink_send_eq hub_up_def store_simps
      split: option.split)

lemma send_to_replies [simp]:
  "replies (w_hub (send_to tx inner w)) s = replies (w_hub w) s"
  "hub_up (w_hub (send_to tx inner w)) s = hub_up (w_hub w) s"
  by (simp_all add: send_to_def send_unchecked_eq)

lemma fold_send_to_replies [simp]:
  "replies (w_hub (fold (\<lambda>(x, a). send_to tx (f x a)) xs w)) s = replies (w_hub w) s"
  "hub_up (w_hub (fold (\<lambda>(x, a). send_to tx (f x a)) xs w)) s = hub_up (w_hub w) s"
  by (induction xs arbitrary: w) auto

lemma answers_None: "answers None h h' \<longleftrightarrow> (\<forall>s. replies h' s = replies h s \<and> hub_up h' s = hub_up h s)"
  by (simp add: answers_def)

section \<open>Helpers keep the hub\<close>

lemma resolve_provider_world:
  "w_hub (snd (snd (resolve_provider ctx st w))) = w_hub w"
  "w_workers (snd (snd (resolve_provider ctx st w))) = w_workers w"
  "w_db (snd (snd (resolve_provider ctx st w))) = w_db w"
  by (auto simp: resolve_provider_def refreshed_account_def refresh_oauth_token_def send_resolve_account_def
      split: option.splits sum.splits prod.splits ProviderAuth.splits RefreshFailure.splits if_splits)

text \<open>The part of the state that requests and the transcript live in.\<close>

definition core :: "SessionState \<Rightarrow> turn_map \<times> u32 \<times> u32 list list \<times> (u64 \<times> ActiveRequest) list \<times> u64" where
  "core st = (st_turns st, st_next_turn_id st, st_redo_stack st, st_active_requests st, st_next_stream_id st)"

lemma core_update [simp]:
  "core (st\<lparr>st_config := c\<rparr>) = core st" "core (st\<lparr>st_provider := p\<rparr>) = core st"
  "core (st\<lparr>st_provider_slug := ps\<rparr>) = core st" "core (st\<lparr>st_warm_policy := wp\<rparr>) = core st"
  "core (st\<lparr>st_subscribers := s\<rparr>) = core st" "core (st\<lparr>st_discovered_skills := d\<rparr>) = core st"
  "core (st\<lparr>st_project_tools := pt\<rparr>) = core st" "core (st\<lparr>st_project_shadowed_groups := psg\<rparr>) = core st"
  "core (st\<lparr>st_loaded_skill_bodies := l\<rparr>) = core st" "core (st\<lparr>st_context_cache := cc\<rparr>) = core st"
  "core (with_subs s st) = core st" "core (set_context_window cw st) = core st"
  "core (set_reasoning_effort ef st) = core st" "core (adopt_account a st) = core st"
  by (simp_all add: core_def with_subs_def set_context_window_def set_reasoning_effort_def adopt_account_def)

lemma core_tell [simp]:
  "core (fst (session_broadcast ctx m st w)) = core st" "core (fst (session_event ctx e st w)) = core st"
  "core (fst (persist_session_metadata ctx st w)) = core st"
  "core (fst (broadcast_token_state ctx st w)) = core st"
  "core (fst (refresh_context_window ctx st w)) = core st"
  "core (fst (announce_context_window ctx cw st w)) = core st"
  by (simp_all add: session_broadcast_state session_event_state persist_session_metadata_def
      broadcast_token_state_def refresh_context_window_def announce_context_window_def Let_def case_prod_beta
      split: option.split)

lemma core_refreshed: "core (fst (snd (refreshed_account ctx name account st w))) = core st"
  by (auto simp: refreshed_account_def refresh_oauth_token_def send_resolve_account_def
      split: option.split sum.split ProviderAuth.split RefreshFailure.split)

lemma core_resolve [simp]: "core (fst (snd (resolve_provider ctx st w))) = core st"
  using core_refreshed [of ctx _ _ "adopt_account _ st"]
  by (auto simp: resolve_provider_def send_resolve_account_def split: option.split prod.split sum.split)
     (metis core_refreshed core_update(14) fst_conv snd_conv)+

lemma tell_replies [simp]:
  "replies (w_hub (snd (persist_session_metadata ctx st w))) s = replies (w_hub w) s"
  "hub_up (w_hub (snd (persist_session_metadata ctx st w))) s = hub_up (w_hub w) s"
  "replies (w_hub (snd (broadcast_token_state ctx st w))) s = replies (w_hub w) s"
  "hub_up (w_hub (snd (broadcast_token_state ctx st w))) s = hub_up (w_hub w) s"
  "replies (w_hub (snd (refresh_context_window ctx st w))) s = replies (w_hub w) s"
  "hub_up (w_hub (snd (refresh_context_window ctx st w))) s = hub_up (w_hub w) s"
  "replies (w_hub (snd (announce_context_window ctx cw st w))) s = replies (w_hub w) s"
  "hub_up (w_hub (snd (announce_context_window ctx cw st w))) s = hub_up (w_hub w) s"
  by (simp_all add: persist_session_metadata_def broadcast_token_state_def refresh_context_window_def
      announce_context_window_def Let_def case_prod_beta split: option.split)

section \<open>Each handler answers once\<close>

lemma fail_request_answers: "answers reply (w_hub w) (w_hub (snd (snd (fail_request ctx sid reply e st w))))"
  by (rule answersI) (simp_all add: fail_request_def Let_def case_prod_beta)

lemma answers_eq: "h1 = h2 \<Longrightarrow> answers reply h1 h' \<Longrightarrow> answers reply h2 h'"
  by simp

lemma answers_quiet:
  "answers reply h1 h' \<Longrightarrow> (\<And>s. replies h1 s = replies h s) \<Longrightarrow> (\<And>s. hub_up h1 s = hub_up h s) \<Longrightarrow>
     answers reply h h'"
  by (simp add: answers_def)

text \<open>A world that differs from another in no reply, no started worker and no connection.\<close>

definition quiet :: "world \<Rightarrow> world \<Rightarrow> bool" where
  "quiet w w' \<longleftrightarrow> (\<forall>s. replies (w_hub w') s = replies (w_hub w) s) \<and>
     (\<forall>s. hub_up (w_hub w') s = hub_up (w_hub w) s) \<and> w_workers w' = w_workers w"

lemma refresh_workers [simp]: "w_workers (snd (refresh_context_window ctx st w)) = w_workers w"
  by (simp add: refresh_context_window_def split: option.split)

text \<open>How an input ends: refused with an error, or started when nothing ran and no shutdown was asked for.\<close>

lemma run_input_cases:
  obtains (refused) e st' w' where
      "handle_run_input ctx input reply sh st w = fail_request ctx (st_next_stream_id st) reply e st' w'"
      "core st' = core (snd (take_stream_id st))" "quiet w w'"
  | (started) provider model st' w' where
      "handle_run_input ctx input reply sh st w =
         launch_input ctx (st_next_stream_id st) reply provider model (trim (from_utf8_lossy input)) st' w'"
      "core st' = core (snd (take_stream_id st))" "quiet w w'" "\<not> sh" "st_active_requests st = []"
proof -
  let ?st0 = "st\<lparr>st_next_stream_id := st_next_stream_id st + 1\<rparr>"
  obtain r st1 w1 where r: "resolve_provider ctx ?st0 w = (r, st1, w1)"
    by (cases "resolve_provider ctx ?st0 w") auto
  obtain st2 w2 where c: "refresh_context_window ctx st1 w1 = (st2, w2)"
    by (cases "refresh_context_window ctx st1 w1") auto
  have core: "core st1 = core ?st0" "core st2 = core ?st0"
    using core_resolve [of ctx ?st0 w] core_tell(5) [of ctx st1 w1] by (simp_all add: r c)
  have q1: "quiet w w1"
    using resolve_provider_world [of ctx ?st0 w] by (simp add: quiet_def r)
  have q2: "quiet w w2"
    using tell_replies(5,6) [of ctx st1 w1] refresh_workers [of ctx st1 w1] q1 by (simp add: quiet_def c)
  have act: "st_active_requests st2 = st_active_requests st" using core(2) by (simp add: core_def)
  let ?text = "trim (from_utf8_lossy input)" and ?sid = "st_next_stream_id st"
  have run: "handle_run_input ctx input reply sh st w =
      (if ?text = [] then fail_request ctx ?sid reply ''empty input'' ?st0 w
       else case r of
         Inl msg \<Rightarrow> fail_request ctx ?sid reply msg st1 w1
       | Inr provider \<Rightarrow> (case cfg_selected_model (st_config st2) of
           None \<Rightarrow> fail_request ctx ?sid reply ''no model selected'' st2 w2
         | Some model \<Rightarrow>
             if sh then fail_request ctx ?sid reply ''session is shutting down'' st2 w2
             else if st_active_requests st2 \<noteq> []
             then fail_request ctx ?sid reply ''session already has an active request'' st2 w2
             else launch_input ctx ?sid reply provider model ?text st2 w2))"
    by (simp add: handle_run_input_def take_stream_id_def r c split: sum.split)
  have st0: "core ?st0 = core (snd (take_stream_id st))" by (simp add: take_stream_id_def)
  consider "\<exists>e. handle_run_input ctx input reply sh st w = fail_request ctx ?sid reply e ?st0 w"
    | "\<exists>e. handle_run_input ctx input reply sh st w = fail_request ctx ?sid reply e st1 w1"
    | "\<exists>e. handle_run_input ctx input reply sh st w = fail_request ctx ?sid reply e st2 w2"
    | "\<exists>p m. handle_run_input ctx input reply sh st w = launch_input ctx ?sid reply p m ?text st2 w2 \<and>
         \<not> sh \<and> st_active_requests st2 = []"
  proof -
    have "(\<exists>e. handle_run_input ctx input reply sh st w = fail_request ctx ?sid reply e ?st0 w) \<or>
      (\<exists>e. handle_run_input ctx input reply sh st w = fail_request ctx ?sid reply e st1 w1) \<or>
      (\<exists>e. handle_run_input ctx input reply sh st w = fail_request ctx ?sid reply e st2 w2) \<or>
      (\<exists>p m. handle_run_input ctx input reply sh st w = launch_input ctx ?sid reply p m ?text st2 w2 \<and>
         \<not> sh \<and> st_active_requests st2 = [])"
      unfolding run
      by (cases "?text = []"; cases r; cases "cfg_selected_model (st_config st2)"; cases sh;
          cases "st_active_requests st2 = []"; simp only: if_True if_False sum.case option.case not_True_eq_False
            not_False_eq_True simp_thms; blast)
    then show thesis using that by blast
  qed
  then show thesis
  proof cases
    case 1
    then show thesis using refused st0 by (auto simp: quiet_def)
  next
    case 2
    then show thesis using refused core(1) q1 st0 by auto
  next
    case 3
    then show thesis using refused core(2) q2 st0 by auto
  next
    case 4
    then show thesis using started core(2) q2 st0 act by auto
  qed
qed

lemma handle_run_input_answers:
  "answers reply (w_hub w) (w_hub (snd (snd (handle_run_input ctx input reply sh st w))))"
proof (cases rule: run_input_cases [of ctx input reply sh st w])
  case (refused e st' w')
  then show ?thesis using answers_quiet [OF fail_request_answers] by (simp add: quiet_def)
next
  case (started provider model st' w')
  show ?thesis
    unfolding started(1) using started(3)
    by (intro answersI)
       (simp_all add: launch_input_def spawn_worker_def new_request_def quiet_def Let_def case_prod_beta)
qed

lemma handle_undo_answers:
  "answers reply (w_hub w) (w_hub (snd (snd (handle_undo ctx reply st w))))"
proof -
  have hub: "w_hub (fold (\<lambda>tid w. case map_of m tid of Some turn \<Rightarrow> write_turn_w ctx tid turn w | None \<Rightarrow> w) ids w') =
      w_hub w'" for m ids w'
    by (induction ids arbitrary: w') (simp_all split: option.split)
  show ?thesis
    by (auto simp: handle_undo_def refuse_unless_idle_def Let_def case_prod_beta hub split: option.split intro!: answersI)
qed

lemma handle_redo_answers:
  "answers reply (w_hub w) (w_hub (snd (snd (handle_redo ctx reply st w))))"
proof -
  have hub: "w_hub (fold (\<lambda>(tid, turn). write_turn_w ctx tid turn) turns w') = w_hub w'" for turns w'
    by (induction turns arbitrary: w') auto
  show ?thesis
    by (auto simp: handle_redo_def refuse_unless_idle_def Let_def case_prod_beta hub split: option.split intro!: answersI)
qed

lemma handle_set_answers:
  "answers reply (w_hub w) (w_hub (snd (snd (handle_set_title ctx title reply st w))))"
  "answers reply (w_hub w) (w_hub (snd (snd (handle_set_working_dir ctx path ch reply st w))))"
  "answers reply (w_hub w) (w_hub (snd (snd (handle_set_reasoning_effort ctx effort reply st w))))"
  by (auto simp: handle_set_title_def handle_set_working_dir_def
      handle_set_reasoning_effort_def reject_effort_def Let_def case_prod_beta intro!: answersI)

lemma handle_set_model_answers:
  "answers reply (w_hub w) (w_hub (snd (snd (handle_set_model ctx model reply st w))))"
proof -
  have v: "w_hub (snd (validate_model_via_daemon ctx model w)) = w_hub w"
    by (auto simp: validate_model_via_daemon_def split: option.split sum.split)
  have quiet_opt: "replies (w_hub (snd (if c then session_event ctx e st1 w1 else (st1', w1)))) s = replies (w_hub w1) s"
    "hub_up (w_hub (snd (if c then session_event ctx e st1 w1 else (st1', w1)))) s = hub_up (w_hub w1) s"
    for c e st1 st1' w1 s by auto
  obtain r w1 where r: "validate_model_via_daemon ctx model w = (r, w1)"
    by (cases "validate_model_via_daemon ctx model w") auto
  then have w1: "w_hub w1 = w_hub w" using v by simp
  show ?thesis
  proof (cases r)
    case (Inl msg)
    then show ?thesis
      by (intro answersI) (simp_all add: handle_set_model_def r w1 Let_def case_prod_beta)
  next
    case (Inr u)
    then show ?thesis
      by (intro answersI [where f = "\<lambda>t. DM_Accepted (rt_kind t)"])
         (simp_all add: handle_set_model_def r w1 Let_def case_prod_beta quiet_opt split: option.split)
  qed
qed

lemma handle_set_account_answers:
  "answers reply (w_hub w) (w_hub (snd (snd (handle_set_account ctx name reply st w))))"
proof -
  have quiet_opt: "replies (w_hub (snd (if c then announce_context_window ctx cw st1 w1 else (st1, w1)))) s =
      replies (w_hub w1) s"
    "hub_up (w_hub (snd (if c then announce_context_window ctx cw st1 w1 else (st1, w1)))) s = hub_up (w_hub w1) s"
    for c cw st1 w1 s by auto
  have quiet_case: "replies (w_hub (snd (case m of None \<Rightarrow> (st1, w1)
      | Some model \<Rightarrow> if c then announce_context_window ctx (cw model) st1 w1 else (st1, w1)))) s = replies (w_hub w1) s"
    "hub_up (w_hub (snd (case m of None \<Rightarrow> (st1, w1)
      | Some model \<Rightarrow> if c then announce_context_window ctx (cw model) st1 w1 else (st1, w1)))) s = hub_up (w_hub w1) s"
    for m c cw st1 w1 s by (auto split: option.split)
  show ?thesis
    by (intro answersI [where f = "\<lambda>t. DM_Accepted (rt_kind t)"])
       (simp_all add: handle_set_account_def send_resolve_account_def Let_def case_prod_beta quiet_case quiet_opt)
qed

section \<open>Handlers with no reply target stay silent\<close>

lemma quiet_handlers:
  "answers None (w_hub w) (w_hub (snd (snd (handle_status_changed ctx status st w))))"
  "answers None (w_hub w) (w_hub (snd (snd (handle_detach ctx c sh st w))))"
  "answers None (w_hub w) (w_hub (snd (snd (handle_remove_subscriber c sh st w))))"
  "answers None (w_hub w) (w_hub (snd (snd (handle_get_summary ctx ch st w))))"
  "answers None (w_hub w) (w_hub (snd (snd (handle_broadcast ctx m st w))))"
  "answers None (w_hub w) (w_hub (snd (snd (handle_sync_accumulated_usage ctx u t st w))))"
  "answers None (w_hub w) (w_hub (snd (snd (handle_set_mcp_overlay ov st w))))"
  "answers None (w_hub w) (w_hub (snd (snd (handle_set_provider_slug slug st w))))"
  "answers None (w_hub w) (w_hub (snd (snd (handle_get_reasoning_effort ch st w))))"
  "answers None (w_hub w) (w_hub (snd (snd (handle_get_state ctx ch st w))))"
  by (simp_all add: handle_status_changed_def handle_detach_def handle_remove_subscriber_def
      handle_get_summary_def handle_broadcast_def handle_sync_accumulated_usage_def
      handle_set_mcp_overlay_def handle_set_provider_slug_def handle_get_reasoning_effort_def
      handle_get_state_def answers_None Let_def case_prod_beta)

lemma quiet_tools:
  "answers None (w_hub w) (w_hub (snd (snd (set_tool_groups ctx ch r st w))))"
  "answers None (w_hub w) (w_hub (snd (snd (handle_load_tools ctx groups ch st w))))"
  "answers None (w_hub w) (w_hub (snd (snd (handle_unload_tools ctx groups ch st w))))"
  by (simp_all add: set_tool_groups_def handle_load_tools_def handle_unload_tools_def answers_None Let_def case_prod_beta
      split: option.split)

lemma quiet_attach: "answers None (w_hub w) (w_hub (snd (snd (handle_attach ctx c tx st w))))"
  by (simp add: handle_attach_def answers_None Let_def map_of_hm_insert)

lemma cancel_request_world [simp]:
  "replies (w_hub (snd (cancel_request ctx rid sw))) s = replies (w_hub (snd sw)) s"
  "hub_up (w_hub (snd (cancel_request ctx rid sw))) s = hub_up (w_hub (snd sw)) s"
  "core (fst (cancel_request ctx rid sw)) = core (fst sw)"
  "w_workers (snd (cancel_request ctx rid sw)) = w_workers (snd sw)"
  by (simp_all add: cancel_request_def case_prod_beta split: option.split)

lemma fold_cancel [simp]:
  "replies (w_hub (snd (fold (cancel_request ctx) rids sw))) s = replies (w_hub (snd sw)) s"
  "hub_up (w_hub (snd (fold (cancel_request ctx) rids sw))) s = hub_up (w_hub (snd sw)) s"
  "core (fst (fold (cancel_request ctx) rids sw)) = core (fst sw)"
  "w_workers (snd (fold (cancel_request ctx) rids sw)) = w_workers (snd sw)"
  by (induction rids arbitrary: sw) simp_all

lemma handle_cancel_frame:
  "answers None (w_hub w) (w_hub (snd (snd (handle_cancel ctx sid st w))))"
  "core (fst (snd (handle_cancel ctx sid st w))) = core st"
  by (simp_all add: handle_cancel_def answers_None Let_def case_prod_beta)

definition shutdown_one :: "RequestContext \<Rightarrow> u64 \<times> ActiveRequest \<Rightarrow> SessionState \<times> world \<Rightarrow> SessionState \<times> world" where
  "shutdown_one ctx = (\<lambda>(stream_id, active) (st, w).
     session_event ctx (SE_Cancelled stream_id) st (w\<lparr>w_cancelled := w_cancelled w @ [ar_cancel active]\<rparr>))"

lemma shutdown_fold:
  "replies (w_hub (snd (fold (shutdown_one ctx) xs sw))) s = replies (w_hub (snd sw)) s"
  "core (fst (fold (shutdown_one ctx) xs sw)) = core (fst sw)"
  "hub_up (w_hub (snd (fold (shutdown_one ctx) xs sw))) s = hub_up (w_hub (snd sw)) s"
  "w_workers (snd (fold (shutdown_one ctx) xs sw)) = w_workers (snd sw)"
  "w_cancelled (snd (fold (shutdown_one ctx) xs sw)) = w_cancelled (snd sw) @ map (ar_cancel \<circ> snd) xs"
  by (induction xs arbitrary: sw) (simp_all add: shutdown_one_def case_prod_beta)

lemma handle_shutdown_eq:
  "handle_shutdown ctx st w =
     (let sw = fold (shutdown_one ctx) (st_active_requests st) (st, w)
      in (st_active_requests st = [], fst sw, snd sw))"
  using shutdown_fold(2) [of ctx "st_active_requests st" "(st, w)"]
  by (simp add: handle_shutdown_def shutdown_one_def [symmetric] Let_def case_prod_beta core_def)

lemma run_child_hub:
  "answers None (w_hub w) (w_hub (snd (snd (handle_run_child_input ctx ut ch sh st w))))"
proof -
  obtain r st1 w1 where r: "resolve_provider ctx (st\<lparr>st_next_stream_id := st_next_stream_id st + 1\<rparr>) w = (r, st1, w1)"
    by (cases "resolve_provider ctx (st\<lparr>st_next_stream_id := st_next_stream_id st + 1\<rparr>) w") auto
  have "w_hub w1 = w_hub w"
    using resolve_provider_world(1) [of ctx "st\<lparr>st_next_stream_id := st_next_stream_id st + 1\<rparr>" w] by (simp add: r)
  then show ?thesis
    by (simp add: handle_run_child_input_def take_stream_id_def r refuse_child_def launch_child_def
        new_request_def spawn_worker_def answers_None Let_def case_prod_beta split: sum.split)
qed

lemma merge_turn_world [simp]: "w_hub (snd (merge_turn ctx p t sw)) = w_hub (snd sw)"
  by (simp add: merge_turn_def case_prod_beta Let_def)

lemma fold_merge_turn_world [simp]: "w_hub (snd (fold (merge_turn ctx p) ts sw)) = w_hub (snd sw)"
  by (induction ts arbitrary: sw) simp_all

lemma request_finished_hub:
  "answers None (w_hub w) (w_hub (snd (snd (handle_request_finished ctx sid snap sh st w))))"
  by (simp add: handle_request_finished_def answers_None Let_def case_prod_beta)

lemma handle_shutdown_quiet: "answers None (w_hub w) (w_hub (snd (snd (handle_shutdown ctx st w))))"
  by (simp add: handle_shutdown_eq answers_None shutdown_fold Let_def)

section \<open>Every command\<close>

text \<open>The correlated request a command carries, if any.\<close>

fun command_reply :: "SessionCommand \<Rightarrow> ReplyTarget option" where
  "command_reply (SC_RunInput _ reply) = reply"
| "command_reply (SC_SetModel _ reply) = reply"
| "command_reply (SC_SetTitle _ reply) = reply"
| "command_reply (SC_SetWorkingDir _ _ reply) = reply"
| "command_reply (SC_SetAccount _ reply) = reply"
| "command_reply (SC_SetReasoningEffort _ reply) = reply"
| "command_reply (SC_Undo reply) = reply"
| "command_reply (SC_Redo reply) = reply"
| "command_reply _ = None"

lemmas handler_answers = handle_run_input_answers handle_undo_answers handle_redo_answers handle_set_answers
  handle_set_model_answers handle_set_account_answers quiet_handlers quiet_tools quiet_attach
  handle_cancel_frame(1) run_child_hub request_finished_hub handle_shutdown_quiet

lemma answers_refl: "answers None h h"
  by (simp add: answers_None)

lemma process_command_answers:
  "answers (command_reply cmd) (w_hub w) (w_hub (snd (snd (snd (process_command ctx cmd st sh w)))))"
  by (cases cmd) (simp_all add: process_command.simps case_prod_beta handler_answers answers_refl)

text \<open>The requests of a list of commands that are to be answered on one connection, in order.\<close>

fun requests_on :: "SubscriberSink \<Rightarrow> SessionCommand list \<Rightarrow> u64 list" where
  "requests_on s [] = []"
| "requests_on s (cmd # cmds) = (case command_reply cmd of
     Some t \<Rightarrow> if rs_sink (rt_sink t) = s then rs_id (rt_sink t) # requests_on s cmds else requests_on s cmds
   | None \<Rightarrow> requests_on s cmds)"

lemma requests_on_append: "requests_on s (xs @ ys) = requests_on s xs @ requests_on s ys"
  by (induction xs) (auto split: option.split)

lemma answers_ids:
  assumes "answers (command_reply cmd) h h'"
  shows "map dmsg_id (replies h' s) = map dmsg_id (replies h s) @
      (if hub_up h s then map Some (requests_on s [cmd]) else [])"
    and "hub_up h' s = hub_up h s"
  using assms by (auto simp: answers_def reply_msgs_def DaemonMessage_reply_def split: option.splits)


end
