(* ===== verification/Session_Requests.thy ===== *)
theory Session_Requests
  imports Session_Protocol
begin

text \<open>
  What the control thread of a session guarantees about requests: one runs at a
  time, under a stream id of its own; the thread ends only when nothing runs;
  the turn id it announces is the one the request's worker uses; and what a
  shutdown, an undo and a new input do.
\<close>

section \<open>Requests and workers\<close>

text \<open>The requests that run, the next stream id and the workers started, as one value.\<close>

definition requests :: "SessionState \<Rightarrow> world \<Rightarrow> u64 list \<times> u64 \<times> RequestWorkerArgs list" where
  "requests st w = (map fst (st_active_requests st), st_next_stream_id st, w_workers w)"

lemma core_fields:
  "core st' = core st \<Longrightarrow> st_active_requests st' = st_active_requests st"
  "core st' = core st \<Longrightarrow> st_next_stream_id st' = st_next_stream_id st"
  "core st' = core st \<Longrightarrow> st_turns st' = st_turns st"
  "core st' = core st \<Longrightarrow> st_next_turn_id st' = st_next_turn_id st"
  "core st' = core st \<Longrightarrow> st_redo_stack st' = st_redo_stack st"
  by (simp_all add: core_def)

lemma tell_workers [simp]:
  "w_workers (snd (persist_session_metadata ctx st w)) = w_workers w"
  "w_workers (snd (broadcast_token_state ctx st w)) = w_workers w"
  "w_workers (snd (announce_context_window ctx cw st w)) = w_workers w"
  by (simp_all add: persist_session_metadata_def broadcast_token_state_def announce_context_window_def
      Let_def case_prod_beta split: option.split)

lemma target_workers [simp]:
  "w_workers (target_send reply inner w) = w_workers w" "w_workers (target_fail reply msg w) = w_workers w"
  "w_workers (target_accept reply w) = w_workers w" "w_workers (send_to tx inner w) = w_workers w"
  by (simp_all add: target_send_def target_fail_def target_accept_def send_to_def split: option.split)

lemma fold_send_workers [simp]:
  "w_workers (fold (\<lambda>(x, a). send_to tx (f x a)) xs w) = w_workers w"
  by (induction xs arbitrary: w) auto

lemma fold_write_workers [simp]:
  "w_workers (fold (\<lambda>(tid, turn). write_turn_w ctx tid turn) turns w) = w_workers w"
  by (induction turns arbitrary: w) auto

lemma fold_rewrite_workers [simp]:
  "w_workers (fold (\<lambda>tid w. case map_of m tid of Some turn \<Rightarrow> write_turn_w ctx tid turn w | None \<Rightarrow> w) ids w) =
     w_workers w"
  by (induction ids arbitrary: w) (simp_all split: option.split)

text \<open>The settings handlers leave the transcript, the requests and the workers alone.\<close>

definition calm :: "SessionState \<Rightarrow> world \<Rightarrow> SessionState \<times> world \<Rightarrow> bool" where
  "calm st w r \<longleftrightarrow> core (fst r) = core st \<and> w_workers (snd r) = w_workers w"

lemma calm_settings:
  "calm st w (snd (handle_status_changed ctx status st w))"
  "calm st w (snd (handle_detach ctx c sh st w))"
  "calm st w (snd (handle_remove_subscriber c sh st w))"
  "calm st w (snd (handle_get_summary ctx ch st w))"
  "calm st w (snd (handle_sync_accumulated_usage ctx u t st w))"
  "calm st w (snd (handle_set_mcp_overlay ov st w))"
  "calm st w (snd (handle_set_provider_slug slug st w))"
  "calm st w (snd (handle_get_reasoning_effort ch st w))"
  "calm st w (snd (handle_get_state ctx ch st w))"
  "calm st w (snd (handle_set_title ctx title reply st w))"
  "calm st w (snd (handle_set_working_dir ctx path ch reply st w))"
  "calm st w (snd (handle_set_reasoning_effort ctx effort reply st w))"
  by (simp_all add: calm_def handle_status_changed_def handle_detach_def handle_remove_subscriber_def
      handle_get_summary_def handle_sync_accumulated_usage_def handle_set_mcp_overlay_def
      handle_set_provider_slug_def handle_get_reasoning_effort_def handle_get_state_def
      handle_set_title_def handle_set_working_dir_def handle_set_reasoning_effort_def reject_effort_def
      Let_def case_prod_beta)

lemma calm_tools:
  "calm st w (snd (set_tool_groups ctx ch r st w))"
  "calm st w (snd (handle_load_tools ctx groups ch st w))"
  "calm st w (snd (handle_unload_tools ctx groups ch st w))"
  by (simp_all add: calm_def set_tool_groups_def handle_load_tools_def handle_unload_tools_def Let_def
      case_prod_beta split: option.split)

lemma calm_attach: "calm st w (snd (handle_attach ctx c tx st w))"
  by (simp add: calm_def handle_attach_def Let_def map_of_hm_insert)

lemma calm_cancel: "calm st w (snd (handle_cancel ctx sid st w))"
  by (simp add: calm_def handle_cancel_def Let_def case_prod_beta)

lemma calm_shutdown: "calm st w (snd (handle_shutdown ctx st w))"
  by (simp add: calm_def handle_shutdown_eq shutdown_fold Let_def)

lemma calm_set_model: "calm st w (snd (handle_set_model ctx model reply st w))"
proof -
  have v: "w_workers (snd (validate_model_via_daemon ctx model w)) = w_workers w"
    by (auto simp: validate_model_via_daemon_def split: option.split sum.split)
  have opt: "core (fst (if c then session_event ctx e st1 w1 else (st2, w1))) = core (if c then st1 else st2)"
    "w_workers (snd (if c then session_event ctx e st1 w1 else (st2, w1))) = w_workers w1" for c e st1 st2 w1
    by auto
  obtain r w1 where r: "validate_model_via_daemon ctx model w = (r, w1)"
    by (cases "validate_model_via_daemon ctx model w") auto
  then have w1: "w_workers w1 = w_workers w" using v by simp
  show ?thesis
    by (cases r) (simp_all add: calm_def handle_set_model_def r w1 Let_def case_prod_beta opt split: option.split)
qed

lemma calm_set_account: "calm st w (snd (handle_set_account ctx name reply st w))"
proof -
  have opt: "core (fst (case m of None \<Rightarrow> (st1, w1)
      | Some model \<Rightarrow> if c then announce_context_window ctx (cw model) st1 w1 else (st1, w1))) = core st1"
    "w_workers (snd (case m of None \<Rightarrow> (st1, w1)
      | Some model \<Rightarrow> if c then announce_context_window ctx (cw model) st1 w1 else (st1, w1))) = w_workers w1"
    for m c cw st1 w1 by (auto split: option.split)
  show ?thesis
    by (simp add: calm_def handle_set_account_def send_resolve_account_def Let_def case_prod_beta opt
        split: option.split)
qed

section \<open>What one command does to the requests\<close>

inductive request_step :: "SessionState \<Rightarrow> world \<Rightarrow> SessionState \<Rightarrow> world \<Rightarrow> bool" where
  keeps: "map fst (st_active_requests st') = map fst (st_active_requests st) \<Longrightarrow>
     st_next_stream_id st' \<in> {st_next_stream_id st, st_next_stream_id st + 1} \<Longrightarrow>
     w_workers w' = w_workers w \<Longrightarrow> request_step st w st' w'"
| starts: "st_active_requests st = [] \<Longrightarrow> st_active_requests st' = [(st_next_stream_id st, active)] \<Longrightarrow>
     st_next_stream_id st' = st_next_stream_id st + 1 \<Longrightarrow>
     w_workers w' = w_workers w @ [args] \<Longrightarrow> wk_stream_id args = st_next_stream_id st \<Longrightarrow>
     wk_cancel args = ar_cancel active \<Longrightarrow> ar_turn_id active = st_next_turn_id st \<Longrightarrow>
     wk_session args = (from_snapshot (snapshot st') [])\<lparr>st_registry := st_registry st'\<rparr> \<Longrightarrow>
     st_turns st' = st_turns st \<Longrightarrow> request_step st w st' w'"
| ends: "st_active_requests st' = btm_remove stream_id (st_active_requests st) \<Longrightarrow>
     st_next_stream_id st' = st_next_stream_id st \<Longrightarrow> w_workers w' = w_workers w \<Longrightarrow>
     request_step st w st' w'"

lemma request_step_calm: "calm st w r \<Longrightarrow> request_step st w (fst r) (snd r)"
  by (rule keeps) (auto simp: calm_def dest: core_fields)

lemma insert_request_fields [simp]:
  "st_active_requests (insert_request sid a st) = btm_insert sid a (st_active_requests st)"
  "st_next_stream_id (insert_request sid a st) = st_next_stream_id st"
  "st_redo_stack (insert_request sid a st) = st_redo_stack st"
  "st_turns (insert_request sid a st) = st_turns st"
  "st_next_turn_id (insert_request sid a st) = st_next_turn_id st"
  by (simp_all add: insert_request_def)

lemma take_stream_id_fields [simp]:
  "st_active_requests (snd (take_stream_id st)) = st_active_requests st"
  "st_next_stream_id (snd (take_stream_id st)) = st_next_stream_id st + 1"
  "st_redo_stack (snd (take_stream_id st)) = st_redo_stack st"
  "st_turns (snd (take_stream_id st)) = st_turns st"
  "st_next_turn_id (snd (take_stream_id st)) = st_next_turn_id st"
  by (simp_all add: take_stream_id_def)

lemma tell_core_fields [simp]:
  "st_active_requests (fst (session_broadcast ctx m st w)) = st_active_requests st"
  "st_next_stream_id (fst (session_broadcast ctx m st w)) = st_next_stream_id st"
  "st_redo_stack (fst (session_broadcast ctx m st w)) = st_redo_stack st"
  "st_turns (fst (session_broadcast ctx m st w)) = st_turns st"
  "st_next_turn_id (fst (session_broadcast ctx m st w)) = st_next_turn_id st"
  by (simp_all add: session_broadcast_state)

lemma event_core_fields [simp]:
  "st_active_requests (fst (session_event ctx e st w)) = st_active_requests st"
  "st_next_stream_id (fst (session_event ctx e st w)) = st_next_stream_id st"
  "st_redo_stack (fst (session_event ctx e st w)) = st_redo_stack st"
  "st_turns (fst (session_event ctx e st w)) = st_turns st"
  "st_next_turn_id (fst (session_event ctx e st w)) = st_next_turn_id st"
  by (simp_all add: session_event_state)

text \<open>A launched request: what the state and the world look like after it.\<close>

lemma launch_input_fields:
  assumes "launch_input ctx sid reply provider model utext st w = (exit, st', w')" and "st_active_requests st = []"
  shows "\<not> exit" and "st_active_requests st' = [(sid, fst (new_request st w))]"
    and "st_next_stream_id st' = st_next_stream_id st" and "st_redo_stack st' = st_redo_stack st"
    and "st_turns st' = st_turns st" and "st_next_turn_id st' = st_next_turn_id st"
    and "\<exists>args. w_workers w' = w_workers w @ [args] \<and> wk_stream_id args = sid \<and> wk_user_text args = Some utext \<and>
      wk_cancel args = ar_cancel (fst (new_request st w)) \<and>
      wk_session args = (from_snapshot (snapshot st') [])\<lparr>st_registry := st_registry st'\<rparr>"
  using assms
  by (auto simp: launch_input_def spawn_worker_def new_request_def Let_def case_prod_beta insert_request_def)

lemma launch_child_fields:
  assumes "launch_child ctx sid ch provider model utext st w = (exit, st', w')" and "st_active_requests st = []"
  shows "\<not> exit" and "st_active_requests st' = [(sid, fst (new_request st w))]"
    and "st_next_stream_id st' = st_next_stream_id st" and "st_redo_stack st' = st_redo_stack st"
    and "st_turns st' = st_turns st" and "st_next_turn_id st' = st_next_turn_id st"
    and "\<exists>args. w_workers w' = w_workers w @ [args] \<and> wk_stream_id args = sid \<and> wk_user_text args = utext \<and>
      wk_cancel args = ar_cancel (fst (new_request st w)) \<and>
      wk_session args = (from_snapshot (snapshot st') [])\<lparr>st_registry := st_registry st'\<rparr>"
  using assms
  by (auto simp: launch_child_def spawn_worker_def new_request_def Let_def case_prod_beta insert_request_def)

lemma request_step_run_input:
  "request_step st w (fst (snd (handle_run_input ctx input reply sh st w))) (snd (snd (handle_run_input ctx input reply sh st w)))"
proof (cases rule: run_input_cases [of ctx input reply sh st w])
  case (refused e st' w')
  then show ?thesis
    using core_fields [OF refused(2)]
    by (auto simp: fail_request_def quiet_def Let_def case_prod_beta intro!: keeps)
next
  case (started provider model st' w')
  obtain exit st1 w1 where l: "launch_input ctx (st_next_stream_id st) reply provider model
      (trim (from_utf8_lossy input)) st' w' = (exit, st1, w1)"
    by (metis prod_cases3)
  have "st_active_requests st' = []" using core_fields(1) [OF started(2)] started(5) by simp
  note fields = launch_input_fields [OF l this]
  show ?thesis
    unfolding started(1) l using started(3,5) fields core_fields(2-4) [OF started(2)]
    by (auto simp: quiet_def new_request_def intro!: starts)
qed

lemma resolve_provider_cancelled: "w_cancelled (snd (snd (resolve_provider ctx st w))) = w_cancelled w"
  by (auto simp: resolve_provider_def refreshed_account_def refresh_oauth_token_def send_resolve_account_def
      split: option.splits sum.splits prod.splits ProviderAuth.splits RefreshFailure.splits if_splits)

text \<open>How the input of a sub-session ends.\<close>

lemma run_child_cases:
  obtains (refused) e st' w' where "handle_run_child_input ctx utext ch sh st w = refuse_child ch e st' w'"
      "core st' = core (snd (take_stream_id st))" "w_workers w' = w_workers w" "w_cancelled w' = w_cancelled w"
  | (started) provider model st' w' where
      "handle_run_child_input ctx utext ch sh st w =
         launch_child ctx (st_next_stream_id st) ch provider model utext st' w'"
      "core st' = core (snd (take_stream_id st))" "w_workers w' = w_workers w" "w_cancelled w' = w_cancelled w"
      "\<not> sh" "st_active_requests st = []"
proof -
  let ?st0 = "st\<lparr>st_next_stream_id := st_next_stream_id st + 1\<rparr>"
  obtain r st1 w1 where r: "resolve_provider ctx ?st0 w = (r, st1, w1)"
    by (cases "resolve_provider ctx ?st0 w") auto
  have core: "core st1 = core (snd (take_stream_id st))"
    using core_resolve [of ctx ?st0 w] by (simp add: r take_stream_id_def)
  have w1: "w_workers w1 = w_workers w"
    using resolve_provider_world(2) [of ctx ?st0 w] by (simp add: r)
  have w1c: "w_cancelled w1 = w_cancelled w"
    using resolve_provider_cancelled [of ctx ?st0 w] by (simp add: r)
  have "st_active_requests st1 = st_active_requests st" using core_fields(1) [OF core] by simp
  then show thesis
    using refused [of _ st1 w1] started [of _ _ st1 w1] core w1 w1c
    by (cases r; cases sh; cases "st_active_requests st = []")
       (simp_all add: handle_run_child_input_def take_stream_id_def r)
qed

lemma request_step_run_child:
  "request_step st w (fst (snd (handle_run_child_input ctx utext ch sh st w)))
     (snd (snd (handle_run_child_input ctx utext ch sh st w)))"
proof (cases rule: run_child_cases [of ctx utext ch sh st w])
  case (refused e st' w')
  then show ?thesis
    using core_fields [OF refused(2)] by (auto simp: refuse_child_def intro!: keeps)
next
  case (started provider model st' w')
  obtain exit st1 w1 where l: "launch_child ctx (st_next_stream_id st) ch provider model utext st' w' =
      (exit, st1, w1)"
    by (metis prod_cases3)
  have "st_active_requests st' = []" using core_fields(1) [OF started(2)] started(6) by simp
  note fields = launch_child_fields [OF l this]
  show ?thesis
    unfolding started(1) l using started(3,6) fields core_fields(2-4) [OF started(2)]
    by (auto simp: new_request_def intro!: starts)
qed

lemma undo_redo_requests [simp]:
  "st_active_requests (snd (undo_turns st)) = st_active_requests st"
  "st_next_stream_id (snd (undo_turns st)) = st_next_stream_id st"
  "st_next_turn_id (snd (undo_turns st)) = st_next_turn_id st"
  "st_active_requests (snd (redo_turns st)) = st_active_requests st"
  "st_next_stream_id (snd (redo_turns st)) = st_next_stream_id st"
  "st_next_turn_id (snd (redo_turns st)) = st_next_turn_id st"
  by (simp_all add: undo_turns_def redo_turns_def Let_def case_prod_beta split: option.split)

lemma token_state_fields [simp]:
  "st_active_requests (fst (broadcast_token_state ctx st w)) = st_active_requests st"
  "st_next_stream_id (fst (broadcast_token_state ctx st w)) = st_next_stream_id st"
  "st_redo_stack (fst (broadcast_token_state ctx st w)) = st_redo_stack st"
  "st_turns (fst (broadcast_token_state ctx st w)) = st_turns st"
  "st_next_turn_id (fst (broadcast_token_state ctx st w)) = st_next_turn_id st"
  by (simp_all add: broadcast_token_state_def Let_def case_prod_beta)

lemma request_step_undo:
  "request_step st w (fst (snd (handle_undo ctx reply st w))) (snd (snd (handle_undo ctx reply st w)))"
proof -
  obtain r st1 where u: "undo_turns st = (r, st1)" by (cases "undo_turns st")
  then have "st_active_requests st1 = st_active_requests st" "st_next_stream_id st1 = st_next_stream_id st"
    using undo_redo_requests(1,2) [of st] by simp_all
  then show ?thesis
    by (intro keeps) (simp_all add: handle_undo_def refuse_unless_idle_def u Let_def case_prod_beta split: option.split)
qed

lemma request_step_redo:
  "request_step st w (fst (snd (handle_redo ctx reply st w))) (snd (snd (handle_redo ctx reply st w)))"
proof -
  obtain r st1 where u: "redo_turns st = (r, st1)" by (cases "redo_turns st")
  then have "st_active_requests st1 = st_active_requests st" "st_next_stream_id st1 = st_next_stream_id st"
    using undo_redo_requests(4,5) [of st] by simp_all
  then show ?thesis
    by (intro keeps) (simp_all add: handle_redo_def refuse_unless_idle_def u Let_def case_prod_beta split: option.split)
qed

lemma track_live_started_fields [simp]:
  "map fst (st_active_requests (track_live_started m st)) = map fst (st_active_requests st)"
  "st_next_stream_id (track_live_started m st) = st_next_stream_id st"
  "st_redo_stack (track_live_started m st) = st_redo_stack st"
  "st_turns (track_live_started m st) = st_turns st"
  "st_next_turn_id (track_live_started m st) = st_next_turn_id st"
  by (simp_all add: track_live_started_def split: DaemonMessageType.split SessionEvent.split)

lemma request_step_broadcast:
  "request_step st w (fst (snd (handle_broadcast ctx m st w))) (snd (snd (handle_broadcast ctx m st w)))"
  by (intro keeps) (simp_all add: handle_broadcast_def Let_def case_prod_beta)

section \<open>The end of a request\<close>

lemma merge_turn_fields [simp]:
  "st_active_requests (fst (merge_turn ctx p t sw)) = st_active_requests (fst sw)"
  "st_next_stream_id (fst (merge_turn ctx p t sw)) = st_next_stream_id (fst sw)"
  "st_redo_stack (fst (merge_turn ctx p t sw)) = st_redo_stack (fst sw)"
  "st_next_turn_id (fst (merge_turn ctx p t sw)) = st_next_turn_id (fst sw)"
  "st_subscribers (fst (merge_turn ctx p t sw)) = st_subscribers (fst sw)"
  "st_turns (fst (merge_turn ctx p t sw)) = btm_insert (fst t) (snd t) (st_turns (fst sw))"
  "w_workers (snd (merge_turn ctx p t sw)) = w_workers (snd sw)"
  "w_cancelled (snd (merge_turn ctx p t sw)) = w_cancelled (snd sw)"
  by (simp_all add: merge_turn_def case_prod_beta Let_def)

lemma fold_merge_turn_fields [simp]:
  "st_active_requests (fst (fold (merge_turn ctx p) ts sw)) = st_active_requests (fst sw)"
  "st_next_stream_id (fst (fold (merge_turn ctx p) ts sw)) = st_next_stream_id (fst sw)"
  "st_redo_stack (fst (fold (merge_turn ctx p) ts sw)) = st_redo_stack (fst sw)"
  "st_next_turn_id (fst (fold (merge_turn ctx p) ts sw)) = st_next_turn_id (fst sw)"
  "st_subscribers (fst (fold (merge_turn ctx p) ts sw)) = st_subscribers (fst sw)"
  "st_turns (fst (fold (merge_turn ctx p) ts sw)) = fold (\<lambda>t. btm_insert (fst t) (snd t)) ts (st_turns (fst sw))"
  "w_workers (snd (fold (merge_turn ctx p) ts sw)) = w_workers (snd sw)"
  "w_cancelled (snd (fold (merge_turn ctx p) ts sw)) = w_cancelled (snd sw)"
  by (induction ts arbitrary: sw) simp_all

lemma request_finished_state:
  fixes ctx sid snap sh st w
  defines "r \<equiv> handle_request_finished ctx sid snap sh st w"
  shows "st_active_requests (fst (snd r)) = btm_remove sid (st_active_requests st)"
    and "st_next_stream_id (fst (snd r)) = st_next_stream_id st"
    and "st_redo_stack (fst (snd r)) = st_redo_stack st"
    and "st_turns (fst (snd r)) = fold (\<lambda>t. btm_insert (fst t) (snd t)) (sn_turns snap) (st_turns st)"
    and "st_next_turn_id (fst (snd r)) = (case last_key (sn_turns snap) of
       None \<Rightarrow> st_next_turn_id st | Some k \<Rightarrow> max (st_next_turn_id st) (k + 1))"
    and "w_workers (snd (snd r)) = w_workers w"
    and "fst r = may_exit (fst (snd r)) sh"
  unfolding r_def handle_request_finished_def Let_def case_prod_beta
  by (cases "last_key (sn_turns snap)"; simp)+

lemma request_finished_fields:
  assumes "handle_request_finished ctx sid snap sh st w = (exit, st', w')"
  shows "st_active_requests st' = btm_remove sid (st_active_requests st)"
    and "st_next_stream_id st' = st_next_stream_id st"
    and "st_redo_stack st' = st_redo_stack st"
    and "st_turns st' = fold (\<lambda>t. btm_insert (fst t) (snd t)) (sn_turns snap) (st_turns st)"
    and "st_next_turn_id st' = (case last_key (sn_turns snap) of
       None \<Rightarrow> st_next_turn_id st | Some k \<Rightarrow> max (st_next_turn_id st) (k + 1))"
    and "w_workers w' = w_workers w"
    and "exit = may_exit st' sh"
  using request_finished_state [of ctx sid snap sh st w] by (simp_all only: assms fst_conv snd_conv)

lemma request_step_finished:
  "request_step st w (fst (snd (handle_request_finished ctx sid snap sh st w)))
     (snd (snd (handle_request_finished ctx sid snap sh st w)))"
proof -
  obtain exit st' w' where h: "handle_request_finished ctx sid snap sh st w = (exit, st', w')"
    by (metis prod_cases3)
  show ?thesis
    using request_finished_fields [OF h] by (auto simp: h intro!: ends)
qed

section \<open>Every command\<close>

lemmas handler_request_steps = request_step_run_input request_step_run_child request_step_undo
  request_step_redo request_step_broadcast request_step_finished
  calm_settings [THEN request_step_calm] calm_tools [THEN request_step_calm]
  calm_attach [THEN request_step_calm] calm_cancel [THEN request_step_calm]
  calm_shutdown [THEN request_step_calm] calm_set_model [THEN request_step_calm]
  calm_set_account [THEN request_step_calm]

lemma process_command_request_step:
  assumes "process_command ctx cmd st sh w = (exit, st', sh', w')"
  shows "request_step st w st' w'"
proof -
  have "request_step st w (fst (snd (process_command ctx cmd st sh w)))
      (snd (snd (snd (process_command ctx cmd st sh w))))"
    by (cases cmd) (simp_all add: process_command.simps case_prod_beta handler_request_steps keeps)
  then show ?thesis by (simp add: assms)
qed

lemma fail_request_exit [simp]: "fst (fail_request ctx sid reply e st w) = False"
  by (simp add: fail_request_def Let_def case_prod_beta)

lemma run_input_exit [simp]: "fst (handle_run_input ctx input reply sh st w) = False"
proof (cases rule: run_input_cases [of ctx input reply sh st w])
  case (refused e st' w')
  then show ?thesis by simp
next
  case (started provider model st' w')
  then show ?thesis by (simp add: launch_input_def Let_def case_prod_beta)
qed

lemma run_child_exit [simp]: "fst (handle_run_child_input ctx utext ch sh st w) = False"
proof (cases rule: run_child_cases [of ctx utext ch sh st w])
  case (refused e st' w')
  then show ?thesis by (simp add: refuse_child_def)
next
  case (started provider model st' w')
  then show ?thesis by (simp add: launch_child_def Let_def case_prod_beta)
qed

lemma settings_exit [simp]:
  "fst (handle_status_changed ctx status st w) = False"
  "fst (handle_get_summary ctx ch st w) = False"
  "fst (handle_sync_accumulated_usage ctx u t st w) = False"
  "fst (handle_set_mcp_overlay ov st w) = False"
  "fst (handle_set_provider_slug slug st w) = False"
  "fst (handle_get_reasoning_effort ch st w) = False"
  "fst (handle_get_state ctx ch st w) = False"
  "fst (handle_set_title ctx title reply st w) = False"
  "fst (handle_set_working_dir ctx path ch reply st w) = False"
  "fst (handle_set_reasoning_effort ctx effort reply st w) = False"
  "fst (handle_attach ctx c tx st w) = False"
  "fst (handle_cancel ctx sid st w) = False"
  "fst (handle_broadcast ctx m st w) = False"
  "fst (handle_load_tools ctx groups ch st w) = False"
  "fst (handle_unload_tools ctx groups ch st w) = False"
  "fst (handle_undo ctx reply st w) = False"
  "fst (handle_redo ctx reply st w) = False"
  "fst (handle_set_model ctx model reply st w) = False"
  "fst (handle_set_account ctx name reply st w) = False"
  by (simp_all add: handle_status_changed_def handle_get_summary_def handle_sync_accumulated_usage_def
      handle_set_mcp_overlay_def handle_set_provider_slug_def handle_get_reasoning_effort_def
      handle_get_state_def handle_set_title_def handle_set_working_dir_def handle_set_reasoning_effort_def
      reject_effort_def handle_attach_def handle_cancel_def handle_broadcast_def handle_load_tools_def
      handle_unload_tools_def set_tool_groups_def handle_undo_def refuse_unless_idle_def handle_redo_def handle_set_model_def
      handle_set_account_def send_resolve_account_def Let_def case_prod_beta
      split: option.split sum.split)

text \<open>The thread ends only when nothing runs, and nobody listens or a shutdown was asked for.\<close>

lemma quitting_exits:
  "fst (handle_detach ctx c sh st w) = may_exit (fst (snd (handle_detach ctx c sh st w))) sh"
  "fst (handle_remove_subscriber c sh st w) = may_exit (fst (snd (handle_remove_subscriber c sh st w))) sh"
  "fst (handle_shutdown ctx st w) = may_exit (fst (snd (handle_shutdown ctx st w))) True"
proof -
  have "st_active_requests (fst (snd (handle_shutdown ctx st w))) = st_active_requests st"
    using calm_shutdown [of st w ctx] unfolding calm_def by (elim conjE core_fields(1))
  then show "fst (handle_shutdown ctx st w) = may_exit (fst (snd (handle_shutdown ctx st w))) True"
    by (simp add: may_exit_def) (simp add: handle_shutdown_eq Let_def)
qed (simp_all add: handle_detach_def handle_remove_subscriber_def Let_def)

lemma process_command_exit:
  assumes "process_command ctx cmd st sh w = (True, st', sh', w')"
  shows "may_exit st' sh'"
proof -
  let ?r = "process_command ctx cmd st sh w"
  have "fst ?r \<longrightarrow> may_exit (fst (snd ?r)) (fst (snd (snd ?r)))"
    by (cases cmd)
       (simp_all add: process_command.simps case_prod_beta quitting_exits request_finished_state(7))
  then show ?thesis by (simp add: assms)
qed

section \<open>One request at a time\<close>

text \<open>
  The workers started so far have increasing stream ids below the next one, and
  whatever request is running is the last one started.
\<close>

definition one_at_a_time :: "SessionState \<Rightarrow> world \<Rightarrow> bool" where
  "one_at_a_time st w \<longleftrightarrow>
     sorted_wrt (<) (map wk_stream_id (w_workers w)) \<and>
     (\<forall>args \<in> set (w_workers w). wk_stream_id args < st_next_stream_id st) \<and>
     (st_active_requests st = [] \<or>
      w_workers w \<noteq> [] \<and> map fst (st_active_requests st) = [wk_stream_id (last (w_workers w))])"

lemma btm_remove_Nil: "btm_remove k [] = []"
  by (simp add: btm_remove_def)

lemma btm_remove_singleton: "map fst m = [k] \<Longrightarrow> btm_remove k' m = [] \<or> map fst (btm_remove k' m) = [k]"
  by (cases m) (auto simp: btm_remove_def)

lemma request_step_one:
  assumes "request_step st w st' w'" and "one_at_a_time st w" and fresh: "st_next_stream_id st < st_next_stream_id st + 1"
  shows "one_at_a_time st' w' \<and> st_next_stream_id st' \<in> {st_next_stream_id st, st_next_stream_id st + 1}"
  using assms(1,2)
proof cases
  case keeps
  have "st_active_requests st' = [] \<longleftrightarrow> st_active_requests st = []"
    using keeps(1) by (metis map_is_Nil_conv)
  moreover have "x < st_next_stream_id st'" if "x < st_next_stream_id st" for x
    using keeps(2) fresh that by (auto dest: order.strict_trans)
  ultimately show ?thesis using assms(2) keeps by (simp add: one_at_a_time_def)
next
  case (starts active args)
  have "x < st_next_stream_id st'" if "x < st_next_stream_id st" for x
    using starts(3) fresh that by (auto dest: order.strict_trans)
  then show ?thesis using assms(2) starts fresh by (auto simp: one_at_a_time_def sorted_wrt_append)
next
  case (ends stream_id)
  have "st_active_requests st' = [] \<or> map fst (st_active_requests st') = map fst (st_active_requests st)"
    using assms(2) unfolding one_at_a_time_def ends(1) by (metis btm_remove_singleton btm_remove_Nil)
  then show ?thesis using assms(2) ends by (auto simp: one_at_a_time_def)
qed

lemma word_room: "unat (n :: u64) + Suc k < 2 ^ 64 \<Longrightarrow> n < n + 1 \<and> unat (n + 1) = unat n + 1"
proof -
  assume "unat n + Suc k < 2 ^ 64"
  then have "unat n + 1 < 2 ^ LENGTH(64)" by simp
  then have "unat (n + 1) = unat n + 1" by (simp add: unat_word_ariths)
  then show ?thesis by (simp add: word_less_nat_alt)
qed

text \<open>
  C13. A session runs one request at a time: whatever commands its thread reads, in
  whatever order inputs, cancels, finishes and shutdowns arrive, at most one
  request is active, it is the one whose worker was started last, and the workers
  have strictly increasing, hence distinct, stream ids (as long as the ids do not
  run out). If the thread stopped before reading everything, nothing was running
  any more and either nobody was subscribed or a shutdown had been asked for.
\<close>

theorem one_request_at_a_time:
  assumes "one_at_a_time st w" and "unat (st_next_stream_id st) + length cmds < 2 ^ 64"
    and "session_loop ctx cmds st sh w = (st', sh', unread, w')"
  shows "one_at_a_time st' w' \<and> length (st_active_requests st') \<le> 1 \<and>
    (unread \<noteq> [] \<longrightarrow> st_active_requests st' = [] \<and> (st_subscribers st' = [] \<or> sh'))"
  using assms
proof (induction cmds arbitrary: st sh w)
  case Nil
  then show ?case by (auto simp: one_at_a_time_def dest: arg_cong [where f = length])
next
  case (Cons cmd cmds)
  obtain exit st1 sh1 w1 where p: "process_command ctx cmd st sh w = (exit, st1, sh1, w1)"
    by (metis prod_cases4)
  have room: "st_next_stream_id st < st_next_stream_id st + 1"
    "unat (st_next_stream_id st + 1) = unat (st_next_stream_id st) + 1"
    using word_room [of "st_next_stream_id st" "length cmds"] Cons.prems(2) by simp_all
  note one = request_step_one [OF process_command_request_step [OF p] Cons.prems(1) room(1)]
  show ?case
  proof (cases exit)
    case True
    then have "st' = st1" "sh' = sh1" "w' = w1" "may_exit st1 sh1"
      using Cons.prems(3) process_command_exit [of ctx cmd st sh w st1 sh1 w1] by (simp_all add: p)
    then show ?thesis using one by (simp add: may_exit_def)
  next
    case False
    have "unat (st_next_stream_id st1) + length cmds < 2 ^ 64"
      using one room(2) Cons.prems(2) by auto
    moreover have "session_loop ctx cmds st1 sh1 w1 = (st', sh', unread, w')"
      using Cons.prems(3) False by (simp add: p)
    ultimately show ?thesis using Cons.IH one by blast
  qed
qed

text \<open>A daemon that answers nothing, a store that never fails and a world with one idle connection.\<close>

definition sample_ctx :: RequestContext where
  "sample_ctx = \<lparr>ctx_session_id = 9, ctx_lag_limits = LagLimits_default, ctx_warm_policy = WarmPolicy_default,
     ctx_now = (\<lambda>_. 100), ctx_db_fault = (\<lambda>_ _. None), ctx_resolve_account = (\<lambda>_ _. None),
     ctx_refresh_single_flight = (\<lambda>_ _ _. Inr RO_NotNeeded), ctx_validate_model = (\<lambda>_ _. None),
     ctx_from_account_config = (\<lambda>_ _ _. Inl []), ctx_resolve_context_window = (\<lambda>_ _. None),
     ctx_lookup_context_window = (\<lambda>_ _. None), ctx_model_reasoning_capability = (\<lambda>_ _. \<lparr>available_effort_levels = []\<rparr>),
     ctx_known_group_names = [], ctx_protected_groups = [], ctx_graphemes = length,
     ctx_humfmt_list = concat\<rparr>"

definition idle_world :: world where
  "idle_world = \<lparr>w_hub = sample_hub, w_daemon_tx = [], w_db = empty_db, w_replies = [], w_cancelled = [],
     w_next_cancel = 0, w_workers = [], w_tick = 0\<rparr>"

text \<open>A session with a provider and a model, ready to run an input.\<close>

definition ready_session :: SessionState where
  "ready_session = SessionState_empty\<lparr>st_provider := Some \<lparr>ip_client = 0, ip_slug = ''p''\<rparr>,
     st_config := SessionConfig_default\<lparr>cfg_selected_model := Some ''m''\<rparr>\<rparr>"

theorem one_request_at_a_time_witness:
  "\<exists>st' sh' unread w'. session_loop sample_ctx
       [SC_RunInput [104, 105] None, SC_RunInput [104, 105] None, SC_Cancel 1, SC_Shutdown]
       ready_session False idle_world = (st', sh', unread, w') \<and>
     one_at_a_time st' w' \<and> length (st_active_requests st') \<le> 1"
proof -
  obtain st' sh' unread w' where run: "session_loop sample_ctx
       [SC_RunInput [104, 105] None, SC_RunInput [104, 105] None, SC_Cancel 1, SC_Shutdown]
       ready_session False idle_world = (st', sh', unread, w')"
    by (metis prod_cases4)
  have "one_at_a_time ready_session idle_world"
    by (simp add: one_at_a_time_def ready_session_def SessionState_empty_def idle_world_def)
  moreover have "unat (st_next_stream_id ready_session) + 4 < 2 ^ 64"
    by (simp add: ready_session_def SessionState_empty_def)
  ultimately show ?thesis using one_request_at_a_time [OF _ _ run] run by auto
qed

section \<open>Turn ids\<close>

text \<open>The next turn id is right after the greatest one, and the turns are in order.\<close>

definition turn_ids_tight :: "SessionState \<Rightarrow> bool" where
  "turn_ids_tight st \<longleftrightarrow> btm_ok (st_turns st) \<and>
     st_next_turn_id st = (case last_key (st_turns st) of None \<Rightarrow> 0 | Some k \<Rightarrow> k + 1)"

text \<open>Every command but the end of a request leaves the turn ids, and all but undo and redo the redo stack.\<close>

lemma restore_turns_keys: "map fst (fst (restore_turns ids turns restored)) = map fst turns"
  by (induction ids turns restored rule: restore_turns.induct) (simp_all split: option.split)

lemma undo_redo_keys [simp]:
  "map fst (st_turns (snd (undo_turns st))) = map fst (st_turns st)"
  "map fst (st_turns (snd (redo_turns st))) = map fst (st_turns st)"
  by (simp_all add: undo_turns_def redo_turns_def restore_turns_keys Let_def case_prod_beta comp_def
      split: option.split)

definition same_turns :: "SessionState \<Rightarrow> SessionState \<Rightarrow> bool" where
  "same_turns st st' \<longleftrightarrow> map fst (st_turns st') = map fst (st_turns st) \<and> st_next_turn_id st' = st_next_turn_id st"

lemma same_turns_undo: "same_turns st (fst (snd (handle_undo ctx reply st w)))"
proof -
  obtain r st1 where u: "undo_turns st = (r, st1)" by (cases "undo_turns st")
  then have "map fst (st_turns st1) = map fst (st_turns st)" "st_next_turn_id st1 = st_next_turn_id st"
    using undo_redo_keys(1) [of st] undo_redo_requests(3) [of st] by simp_all
  then show ?thesis
    by (simp add: same_turns_def handle_undo_def refuse_unless_idle_def u Let_def case_prod_beta split: option.split)
qed

lemma same_turns_redo: "same_turns st (fst (snd (handle_redo ctx reply st w)))"
proof -
  obtain r st1 where u: "redo_turns st = (r, st1)" by (cases "redo_turns st")
  then have "map fst (st_turns st1) = map fst (st_turns st)" "st_next_turn_id st1 = st_next_turn_id st"
    using undo_redo_keys(2) [of st] undo_redo_requests(6) [of st] by simp_all
  then show ?thesis
    by (simp add: same_turns_def handle_redo_def refuse_unless_idle_def u Let_def case_prod_beta split: option.split)
qed

text \<open>Everything of the transcript is kept.\<close>

definition same_transcript :: "SessionState \<Rightarrow> SessionState \<Rightarrow> bool" where
  "same_transcript st st' \<longleftrightarrow> st_turns st' = st_turns st \<and> st_next_turn_id st' = st_next_turn_id st \<and>
     st_redo_stack st' = st_redo_stack st"

lemma same_transcript_calm: "calm st w r \<Longrightarrow> same_transcript st (fst r)"
  by (auto simp: calm_def core_def same_transcript_def)

lemma same_transcript_run_input: "same_transcript st (fst (snd (handle_run_input ctx input reply sh st w)))"
proof (cases rule: run_input_cases [of ctx input reply sh st w])
  case (refused e st' w')
  then show ?thesis
    using core_fields [OF refused(2)] by (simp add: same_transcript_def fail_request_def Let_def case_prod_beta)
next
  case (started provider model st' w')
  then show ?thesis
    using core_fields [OF started(2)]
    by (simp add: same_transcript_def launch_input_def new_request_def Let_def case_prod_beta)
qed

lemma same_transcript_run_child: "same_transcript st (fst (snd (handle_run_child_input ctx utext ch sh st w)))"
proof (cases rule: run_child_cases [of ctx utext ch sh st w])
  case (refused e st' w')
  then show ?thesis using core_fields [OF refused(2)] by (simp add: same_transcript_def refuse_child_def)
next
  case (started provider model st' w')
  then show ?thesis
    using core_fields [OF started(2)]
    by (simp add: same_transcript_def launch_child_def new_request_def Let_def case_prod_beta)
qed

lemma same_transcript_broadcast: "same_transcript st (fst (snd (handle_broadcast ctx m st w)))"
  by (simp add: same_transcript_def handle_broadcast_def Let_def case_prod_beta)

lemmas handler_transcripts = same_transcript_run_input same_transcript_run_child same_transcript_broadcast
  calm_settings [THEN same_transcript_calm] calm_tools [THEN same_transcript_calm]
  calm_attach [THEN same_transcript_calm] calm_cancel [THEN same_transcript_calm]
  calm_shutdown [THEN same_transcript_calm] calm_set_model [THEN same_transcript_calm]
  calm_set_account [THEN same_transcript_calm]

fun changes_transcript :: "SessionCommand \<Rightarrow> bool" where
  "changes_transcript (SC_Undo _) = True"
| "changes_transcript (SC_Redo _) = True"
| "changes_transcript (SC_RequestFinished _ _) = True"
| "changes_transcript _ = False"

lemma process_command_transcript:
  assumes "process_command ctx cmd st sh w = (exit, st', sh', w')" and "\<not> changes_transcript cmd"
  shows "same_transcript st st'"
proof -
  have "same_transcript st (st\<lparr>st_provider := None\<rparr>)" by (simp add: same_transcript_def)
  then have "same_transcript st (fst (snd (process_command ctx cmd st sh w)))"
    using assms(2)
    by (cases cmd) (simp_all add: process_command.simps case_prod_beta handler_transcripts)
  then show ?thesis by (simp add: assms(1))
qed

lemma last_key_Max: "btm_ok m \<Longrightarrow> last_key m = (if m = [] then None else Some (Max (fst ` set m)))"
proof (induction m rule: rev_induct)
  case (snoc kv m)
  have "\<forall>k \<in> fst ` set m. k < fst kv" using snoc.prems by (auto simp: btm_ok_def sorted_wrt_append)
  then have "Max (fst ` set (m @ [kv])) = fst kv" by (intro Max_eqI) auto
  then show ?case by (simp add: last_key_def)
qed (simp add: last_key_def)

lemma fold_insert_keys:
  "fst ` set (fold (\<lambda>t. btm_insert (fst t) (snd t)) ts m) = fst ` set ts \<union> fst ` set m"
  by (induction ts arbitrary: m) (auto simp: btm_insert_keys)

lemma fold_insert_ok: "btm_ok m \<Longrightarrow> btm_ok (fold (\<lambda>t. btm_insert (fst t) (snd t)) ts m)"
  by (induction ts arbitrary: m) auto

lemma last_key_merge:
  assumes "btm_ok m" and "btm_ok ts" and "last_key ts = Some k"
  shows "last_key (fold (\<lambda>t. btm_insert (fst t) (snd t)) ts m) =
    Some (case last_key m of None \<Rightarrow> k | Some k' \<Rightarrow> max k' k)"
proof -
  let ?m = "fold (\<lambda>t. btm_insert (fst t) (snd t)) ts m"
  have k: "ts \<noteq> []" "k = Max (fst ` set ts)"
    using assms(2,3) by (auto simp: last_key_Max split: if_splits)
  have "set ?m \<noteq> {}" using fold_insert_keys [of ts m] k(1) by auto
  then have "last_key ?m = Some (Max (fst ` set ts \<union> fst ` set m))"
    using last_key_Max [OF fold_insert_ok [OF assms(1)], of ts] by (simp add: fold_insert_keys)
  then show ?thesis
    using k assms(1) by (cases "m = []") (auto simp: last_key_Max Max_Un max.commute)
qed

lemma word_Suc_unat: "(a :: 'a :: len word) < a + 1 \<Longrightarrow> unat (a + 1) = Suc (unat a)"
  using unatSuc [of a] word_not_simps(1) [of a] by (cases "1 + a = 0") (simp_all add: add.commute)

lemma word_max_Suc:
  assumes "(a :: 'a :: len word) < a + 1" and "b < b + 1"
  shows "max (a + 1) (b + 1) = max a b + 1"
  using word_Suc_unat [OF assms(1)] word_Suc_unat [OF assms(2)]
  by (simp add: max_def word_le_nat_alt)

text \<open>A command whose snapshot, if it brings one, is an ordered turn map whose ids have not run out.\<close>

fun snapshot_wf :: "SessionCommand \<Rightarrow> bool" where
  "snapshot_wf (SC_RequestFinished _ snap) = (btm_ok (sn_turns snap) \<and>
     (case last_key (sn_turns snap) of None \<Rightarrow> True | Some k \<Rightarrow> k < k + 1))"
| "snapshot_wf _ = True"

lemma turn_ids_tight_keys: "same_turns st st' \<Longrightarrow> turn_ids_tight st \<Longrightarrow> turn_ids_tight st'"
proof -
  assume same: "same_turns st st'" and tight: "turn_ids_tight st"
  have "last_key (st_turns st') = last_key (st_turns st)"
    using same by (auto simp: same_turns_def last_key_def) (metis last_map map_is_Nil_conv)+
  then show ?thesis using same tight by (simp add: turn_ids_tight_def same_turns_def btm_ok_def)
qed

lemma turn_ids_tight_finished:
  assumes "handle_request_finished ctx sid snap sh st w = (exit, st', w')"
    and "turn_ids_tight st" and "snapshot_wf (SC_RequestFinished sid snap)"
    and room: "case last_key (st_turns st) of None \<Rightarrow> True | Some k \<Rightarrow> k < k + 1"
  shows "turn_ids_tight st'"
proof (cases "last_key (sn_turns snap)")
  case None
  then have "sn_turns snap = []" by (simp add: last_key_def split: if_splits)
  then show ?thesis
    using request_finished_fields(4,5) [OF assms(1)] assms(2) None by (simp add: turn_ids_tight_def)
next
  case (Some k)
  have "btm_ok (st_turns st)" "btm_ok (sn_turns snap)" "k < k + 1"
    using assms(2,3) Some by (auto simp: turn_ids_tight_def)
  note merged = last_key_merge [OF this(1,2) Some] fold_insert_ok [OF this(1), of "sn_turns snap"]
  show ?thesis
  proof (cases "last_key (st_turns st)")
    case None
    then show ?thesis
      using request_finished_fields(4,5) [OF assms(1)] assms(2) Some merged by (simp add: turn_ids_tight_def)
  next
    case last: (Some j)
    then have "max (j + 1) (k + 1) = max j k + 1" using room \<open>k < k + 1\<close> word_max_Suc by auto
    then show ?thesis
      using request_finished_fields(4,5) [OF assms(1)] assms(2) Some merged last by (simp add: turn_ids_tight_def)
  qed
qed

text \<open>
  The turn a client is told about is the turn the request writes: whenever a
  command starts a worker, the turn id announced for the new request is the id
  that the worker's copy of the session gives to its first turn. The invariant
  behind it, that the next turn id is right after the greatest turn of an ordered
  transcript, survives every command, the merge of a finished request included.
\<close>

theorem announced_turn_id_is_used:
  assumes "turn_ids_tight st" and "snapshot_wf cmd"
    and "case last_key (st_turns st) of None \<Rightarrow> True | Some k \<Rightarrow> k < k + 1"
    and run: "process_command ctx cmd st sh w = (exit, st', sh', w')"
  shows "turn_ids_tight st' \<and>
    (w_workers w' \<noteq> w_workers w \<longrightarrow>
      (\<exists>args active. w_workers w' = w_workers w @ [args] \<and>
         st_active_requests st' = [(wk_stream_id args, active)] \<and>
         fst (fst (start_turn now utext (wk_session args))) = ar_turn_id active))"
proof
  show "turn_ids_tight st'"
  proof (cases "changes_transcript cmd")
    case False
    then have "same_turns st st'"
      using process_command_transcript [OF run] by (simp add: same_transcript_def same_turns_def)
    then show ?thesis using turn_ids_tight_keys assms(1) by blast
  next
    case True
    then show ?thesis
    proof (cases cmd)
      case (SC_RequestFinished sid snap)
      then have "handle_request_finished ctx sid snap sh st w = (exit, st', w')"
        using run by (simp add: process_command.simps split: prod.splits)
      then show ?thesis using turn_ids_tight_finished assms(1-3) SC_RequestFinished by blast
    next
      case (SC_Undo reply)
      then have "st' = fst (snd (handle_undo ctx reply st w))"
        using run by (simp add: process_command.simps split: prod.splits)
      then show ?thesis using turn_ids_tight_keys [OF same_turns_undo] assms(1) by blast
    next
      case (SC_Redo reply)
      then have "st' = fst (snd (handle_redo ctx reply st w))"
        using run by (simp add: process_command.simps split: prod.splits)
      then show ?thesis using turn_ids_tight_keys [OF same_turns_redo] assms(1) by blast
    qed simp_all
  qed
next
  show "w_workers w' \<noteq> w_workers w \<longrightarrow>
      (\<exists>args active. w_workers w' = w_workers w @ [args] \<and>
         st_active_requests st' = [(wk_stream_id args, active)] \<and>
         fst (fst (start_turn now utext (wk_session args))) = ar_turn_id active)"
    using process_command_request_step [OF run]
  proof cases
    case (starts active args)
    then have "fst (fst (start_turn now utext (wk_session args))) = ar_turn_id active"
      using assms(1)
      by (simp add: start_turn_def turn_ids_tight_def from_snapshot_def snapshot_def Let_def)
    then show ?thesis
      using starts(2,4,5) by (intro impI exI [of _ args] exI [of _ active]) simp
  qed simp_all
qed

theorem announced_turn_id_is_used_witness:
  "\<exists>exit st' sh' w'. process_command sample_ctx (SC_RunInput [104, 105] None) ready_session False idle_world =
       (exit, st', sh', w') \<and> turn_ids_tight st'"
proof -
  obtain exit st' sh' w' where run: "process_command sample_ctx (SC_RunInput [104, 105] None)
      ready_session False idle_world = (exit, st', sh', w')"
    by (metis prod_cases4)
  have "turn_ids_tight ready_session" "last_key (st_turns ready_session) = None"
    by (simp_all add: turn_ids_tight_def ready_session_def SessionState_empty_def last_key_def)
  then show ?thesis using announced_turn_id_is_used [OF _ _ _ run] run by auto
qed

section \<open>Redo and new input\<close>

text \<open>
  A redo survives new input: no command but undo and redo themselves changes
  the stack of undone batches the session thread keeps, neither the input that
  starts a new request nor the end of that request. Only the worker's copy of the
  session, which starts with an empty stack, is cleared when the new turn starts,
  so an exchange undone before the conversation moved on can still be brought back.
\<close>

theorem redo_survives_new_input:
  assumes "\<forall>cmd \<in> set cmds. \<forall>reply. cmd \<noteq> SC_Undo reply \<and> cmd \<noteq> SC_Redo reply"
    and "session_loop ctx cmds st sh w = (st', sh', unread, w')"
  shows "st_redo_stack st' = st_redo_stack st"
  using assms
proof (induction cmds arbitrary: st sh w)
  case (Cons cmd cmds)
  obtain exit st1 sh1 w1 where p: "process_command ctx cmd st sh w = (exit, st1, sh1, w1)"
    by (metis prod_cases4)
  have "st_redo_stack st1 = st_redo_stack st"
  proof (cases "changes_transcript cmd")
    case False
    then show ?thesis using process_command_transcript [OF p] by (simp add: same_transcript_def)
  next
    case True
    then obtain sid snap where cmd: "cmd = SC_RequestFinished sid snap"
      using Cons.prems(1) by (cases cmd) auto
    then have "handle_request_finished ctx sid snap sh st w = (exit, st1, w1)"
      using p by (simp add: process_command.simps split: prod.splits)
    then show ?thesis using request_finished_fields(3) by blast
  qed
  then show ?case
    using Cons.IH [where st = st1 and sh = sh1 and w = w1] Cons.prems
    by (cases exit) (simp_all add: p)
qed simp

text \<open>An exchange undone, then a new input that runs to its end: the undone exchange can be redone.\<close>

definition undone_session :: SessionState where
  "undone_session = snd (undo_turns (snd (start_turn 5 (Some ''old'') ready_session)))"

theorem redo_survives_new_input_witness:
  "\<exists>st' sh' unread w'. session_loop sample_ctx
      [SC_RunInput [104, 105] None,
       SC_RequestFinished 1 (snapshot (snd (start_turn 9 (Some ''hi'') (from_snapshot (snapshot undone_session) []))))]
      undone_session False idle_world = (st', sh', unread, w') \<and>
    st_redo_stack st' = [[0]]"
proof -
  let ?cmds = "[SC_RunInput [104, 105] None,
       SC_RequestFinished 1 (snapshot (snd (start_turn 9 (Some ''hi'') (from_snapshot (snapshot undone_session) []))))]"
  obtain st' sh' unread w' where run:
    "session_loop sample_ctx ?cmds undone_session False idle_world = (st', sh', unread, w')"
    by (metis prod_cases4)
  have "st_redo_stack undone_session = [[0]]"
    by (simp add: undone_session_def undo_turns_def undo_target_def start_turn_def ready_session_def
        SessionState_empty_def fresh_turn_def Let_def)
  then show ?thesis using redo_survives_new_input [OF _ run] run by auto
qed

section \<open>Shutdown\<close>

text \<open>
  A shutdown reaches every running request and ends the thread once: the
  cancellation signal of each active request is sent, no reply or worker is
  produced, the thread ends at once if nothing runs and otherwise stays; the
  request it waits for ends it when it finishes, whoever is still subscribed, and
  from then on every new input is refused.
\<close>

theorem shutdown_reaches_requests:
  "case handle_shutdown ctx st w of (exit, st', w') \<Rightarrow>
     w_cancelled w' = w_cancelled w @ map (ar_cancel \<circ> snd) (st_active_requests st) \<and>
     exit = (st_active_requests st = []) \<and> st_active_requests st' = st_active_requests st \<and>
     w_workers w' = w_workers w \<and>
     (\<forall>input reply. w_workers (snd (snd (handle_run_input ctx input reply True st' w'))) = w_workers w') \<and>
     (\<forall>sid snap. map fst (st_active_requests st') = [sid] \<longrightarrow> fst (handle_request_finished ctx sid snap True st' w'))"
proof -
  obtain exit st' w' where h: "handle_shutdown ctx st w = (exit, st', w')" by (metis prod_cases3)
  let ?sw = "fold (shutdown_one ctx) (st_active_requests st) (st, w)"
  have eqs: "exit = (st_active_requests st = [])" "st' = fst ?sw" "w' = snd ?sw"
    using h by (simp_all add: handle_shutdown_eq Let_def)
  have fields: "w_cancelled w' = w_cancelled w @ map (ar_cancel \<circ> snd) (st_active_requests st)"
    "w_workers w' = w_workers w" "core st' = core st"
    by (simp_all add: eqs shutdown_fold)
  have refused: "w_workers (snd (snd (handle_run_input ctx input reply True st' w'))) = w_workers w'" for input reply
  proof (cases rule: run_input_cases [of ctx input reply True st' w'])
    case (refused e st1 w1)
    then show ?thesis by (simp add: fail_request_def quiet_def Let_def case_prod_beta)
  qed simp
  have "fst (handle_request_finished ctx sid snap True st' w')"
    if "map fst (st_active_requests st') = [sid]" for sid snap
  proof -
    have "btm_remove sid (st_active_requests st') = []" using that by (auto simp: btm_remove_def)
    then show ?thesis by (simp add: request_finished_state(7) may_exit_def request_finished_state(1))
  qed
  then show ?thesis using fields refused eqs(1) core_fields(1) [OF fields(3)] by (simp add: h)
qed

theorem shutdown_reaches_requests_witness:
  "w_cancelled (snd (snd (handle_shutdown sample_ctx
      (ready_session\<lparr>st_active_requests := [(3, \<lparr>ar_cancel = 7, ar_turn_id = 0, ar_estimated_prompt_tokens = 0\<rparr>)]\<rparr>)
      idle_world))) = [7]"
  using shutdown_reaches_requests [where ctx = sample_ctx and w = idle_world and st =
      "ready_session\<lparr>st_active_requests := [(3, \<lparr>ar_cancel = 7, ar_turn_id = 0, ar_estimated_prompt_tokens = 0\<rparr>)]\<rparr>"]
  by (simp add: case_prod_beta) (simp add: idle_world_def)

text \<open>
  Waiting for a session thread at shutdown is bounded and not too short: a
  thread that ends within the grace period is joined at the first poll that sees
  it ended, the wait gives up no earlier than the deadline, and it polls at most
  once per started 50 milliseconds of the grace period, plus the final one, so it
  terminates even if the thread never ends.
\<close>

theorem shutdown_join_bounded:
  "case shutdown_join_poll grace finished late start of (joined, polls, stop) \<Rightarrow>
     (joined \<longleftrightarrow> finished polls) \<and> (\<forall>j < polls. \<not> finished j) \<and>
     (\<not> joined \<longrightarrow> start + grace \<le> stop) \<and> polls \<le> (grace + 49) div 50"
proof -
  have "case join_poll deadline finished late k clock of (joined, polls, stop) \<Rightarrow>
      k \<le> polls \<and> (joined \<longleftrightarrow> finished polls) \<and> (\<forall>j. k \<le> j \<and> j < polls \<longrightarrow> \<not> finished j) \<and>
      (\<not> joined \<longrightarrow> deadline \<le> stop) \<and> polls \<le> k + (deadline - clock + 49) div 50" for deadline k clock
  proof (induction deadline finished late k clock rule: join_poll.induct)
    case (1 deadline finished late k clock)
    show ?case
    proof (cases "finished k \<or> deadline - clock = 0")
      case True
      then show ?thesis by (subst join_poll.simps) (auto simp: Let_def)
    next
      case False
      let ?c = "clock + min (deadline - clock) 50 + late k"
      obtain joined polls stop where r: "join_poll deadline finished late (Suc k) ?c = (joined, polls, stop)"
        by (metis prod_cases3)
      have "join_poll deadline finished late k clock = (joined, polls, stop)"
        using False r by (subst join_poll.simps) (simp add: Let_def)
      moreover have "Suc ((deadline - ?c + 49) div 50) \<le> (deadline - clock + 49) div 50"
        using False by (auto simp: min_def)
      moreover have ih: "Suc k \<le> polls" "joined \<longleftrightarrow> finished polls"
        "\<forall>j. Suc k \<le> j \<and> j < polls \<longrightarrow> \<not> finished j" "\<not> joined \<longrightarrow> deadline \<le> stop"
        "polls \<le> Suc k + (deadline - ?c + 49) div 50"
        using 1 [OF _ refl] False by (simp_all add: r)
      moreover have "\<not> finished j" if "k \<le> j" "j < polls" for j
        using ih(3) False that by (cases "j = k") simp_all
      ultimately show ?thesis by simp
    qed
  qed
  from this [where deadline = "start + grace" and k = 0 and clock = start] show ?thesis
    by (auto simp: shutdown_join_poll_def)
qed

theorem shutdown_join_bounded_witness:
  "\<exists>joined polls stop. shutdown_join_poll SESSION_SHUTDOWN_GRACE (\<lambda>k. False) (\<lambda>_. 3) 1000 = (joined, polls, stop) \<and>
     \<not> joined \<and> 6000 \<le> stop \<and> polls \<le> 100"
proof -
  obtain joined polls stop where
    "shutdown_join_poll SESSION_SHUTDOWN_GRACE (\<lambda>k. False) (\<lambda>_. 3) 1000 = (joined, polls, stop)"
    by (metis prod_cases3)
  then show ?thesis
    using shutdown_join_bounded [where grace = SESSION_SHUTDOWN_GRACE and finished = "\<lambda>k. False"
        and late = "\<lambda>_. 3" and start = 1000]
    by (auto simp: SESSION_SHUTDOWN_GRACE_def)
qed

end
