(* ===== verification/Daemon_Models.thy ===== *)
theory Daemon_Models
  imports Session_Handlers Subscribers
begin

text \<open>
  The state of the daemon's command loop beyond its client registry
  (\<open>DaemonState\<close> of \<open>src/choreo-daemon/src/daemon.rs\<close>) and the model lists it
  keeps per account (\<open>daemon/models.rs\<close>): the cache with its lifetime, the
  background fetches with their in-flight guard, and what a client that asks for
  models or selects one is told.

  The handlers run on one thread, so each is a function of the state. What comes
  from outside (the clocks, store faults, the provider catalog, whether a client
  can be built and a thread started) is a function of the environment record and,
  where it may change between two uses, of the number of uses before. A fetch
  thread that was started stands in \<open>dm_fetches\<close> until its result arrives.
\<close>

section \<open>State (daemon.rs)\<close>

record DaemonEnv =
  de_now_ms :: "nat \<Rightarrow> i64"
  de_instant :: "nat \<Rightarrow> nat"
  de_db_fault :: "nat \<Rightarrow> io_error option"
  de_lookup_context_window :: "string \<Rightarrow> string \<Rightarrow> u32 option"
  de_catalog_models :: "string \<Rightarrow> string list option"
  de_from_account_config :: "nat \<Rightarrow> AccountConfig \<Rightarrow> ServiceCredential \<Rightarrow> string + InferenceProvider"
  de_spawn_ok :: "nat \<Rightarrow> bool"
  de_to_lowercase :: "string \<Rightarrow> string"
  de_humfmt_list :: "string list \<Rightarrow> string"
  de_content :: bool
  de_ios :: bool
  de_plan_overlay :: "u64 \<Rightarrow> SessionMcpOverlay"

datatype daemon_reply =
    DR_Created "io_error + u64"
  | DR_Attached "io_error + u64"
  | DR_List "SessionSummary list"
  | DR_Summary "SessionSummary option"
  | DR_State "io_error + DaemonMessageType"
  | DR_Unit "io_error + unit"
  | DR_Text "string + string"
  | DR_Validate "string + unit"

record Daemon =
  dm_state :: DaemonState
  dm_next_session_id :: u64
  dm_deleted_sessions :: "u64 list"
  dm_children :: "(u64 \<times> u64 list) list"
  dm_accounts :: "(string \<times> AccountConfig) list"
  dm_credentials :: "(string \<times> ServiceCredential) list"
  dm_session_registries :: "u64 list"
  dm_db :: Database
  dm_model_cache :: "(string \<times> string list \<times> nat) list"
  dm_model_prefetch_in_flight :: "string list"
  dm_fetches :: "string list"
  dm_finalizers :: "u64 list"
  dm_closed_sockets :: "u64 list"
  dm_detached :: "(u64 \<times> ActiveSessionEntry) list"
  dm_replies :: "(reply_chan \<times> daemon_reply) list"
  dm_tick :: nat

definition dm_advance :: "Daemon \<Rightarrow> Daemon" where
  "dm_advance d = d\<lparr>dm_tick := Suc (dm_tick d)\<rparr>"

definition dm_reply :: "reply_chan \<Rightarrow> daemon_reply \<Rightarrow> Daemon \<Rightarrow> Daemon" where
  "dm_reply ch v d = d\<lparr>dm_replies := dm_replies d @ [(ch, v)]\<rparr>"

definition dm_broadcast :: "DaemonMessageType \<Rightarrow> Daemon \<Rightarrow> Daemon" where
  "dm_broadcast inner d = d\<lparr>dm_state := broadcast inner (dm_state d)\<rparr>"

abbreviation dm_metadata :: "Daemon \<Rightarrow> (u64 \<times> SessionMetadata) list" where
  "dm_metadata d \<equiv> ds_session_metadata (dm_state d)"

abbreviation dm_active :: "Daemon \<Rightarrow> (u64 \<times> ActiveSessionEntry) list" where
  "dm_active d \<equiv> ds_active_sessions (dm_state d)"

definition set_metadata :: "(u64 \<times> SessionMetadata) list \<Rightarrow> Daemon \<Rightarrow> Daemon" where
  "set_metadata m d = d\<lparr>dm_state := (dm_state d)\<lparr>ds_session_metadata := m\<rparr>\<rparr>"

definition set_active :: "(u64 \<times> ActiveSessionEntry) list \<Rightarrow> Daemon \<Rightarrow> Daemon" where
  "set_active m d = d\<lparr>dm_state := (dm_state d)\<lparr>ds_active_sessions := m\<rparr>\<rparr>"

section \<open>Accounts and credentials (daemon.rs)\<close>

definition has_credential :: "string \<Rightarrow> Daemon \<Rightarrow> bool" where
  "has_credential name d \<longleftrightarrow> map_of (dm_credentials d) name \<noteq> None"

definition account_provider_slug :: "string \<Rightarrow> Daemon \<Rightarrow> string option" where
  "account_provider_slug name d = map_option ac_provider (map_of (dm_accounts d) name)"

definition build_daemon_provider :: "DaemonEnv \<Rightarrow> string \<Rightarrow> Daemon \<Rightarrow> InferenceProvider option" where
  "build_daemon_provider env name d = (case map_of (dm_accounts d) name of
     None \<Rightarrow> None
   | Some config \<Rightarrow> (case map_of (dm_credentials d) name of
       None \<Rightarrow> None
     | Some credential \<Rightarrow> (case de_from_account_config env (dm_tick d) config credential of
         Inl _ \<Rightarrow> None | Inr provider \<Rightarrow> Some provider)))"

section \<open>Model lists (daemon/models.rs)\<close>

text \<open>Instants and durations are nanoseconds.\<close>

definition MODEL_CACHE_TTL :: nat where
  "MODEL_CACHE_TTL = 300 * 10 ^ 9"

definition sort_model_ids :: "DaemonEnv \<Rightarrow> string list \<Rightarrow> string list" where
  "sort_model_ids env models = sort_key (de_to_lowercase env) models"

definition fresh_model_list :: "string \<Rightarrow> nat \<Rightarrow> Daemon \<Rightarrow> string list option" where
  "fresh_model_list account now d = (case map_of (dm_model_cache d) account of
     Some (models, cached_at) \<Rightarrow>
       if models \<noteq> [] \<and> now - cached_at < MODEL_CACHE_TTL then Some models else None
   | None \<Rightarrow> None)"

definition should_prefetch_models :: "DaemonEnv \<Rightarrow> string \<Rightarrow> Daemon \<Rightarrow> bool" where
  "should_prefetch_models env account d =
     (if map_of (dm_accounts d) account = None \<or> \<not> has_credential account d \<or>
         account \<in> set (dm_model_prefetch_in_flight d)
      then False
      else fresh_model_list account (de_instant env (dm_tick d)) d = None)"

text \<open>The guard is set before the client is built and the thread started, and taken back if either fails.\<close>

definition maybe_spawn_model_prefetch :: "DaemonEnv \<Rightarrow> string \<Rightarrow> Daemon \<Rightarrow> Daemon" where
  "maybe_spawn_model_prefetch env account d =
     (if \<not> should_prefetch_models env account d then d
      else
        (let d = d\<lparr>dm_model_prefetch_in_flight := hs_insert account (dm_model_prefetch_in_flight d)\<rparr> in
         case build_daemon_provider env account d of
           None \<Rightarrow> d\<lparr>dm_model_prefetch_in_flight := hs_remove account (dm_model_prefetch_in_flight d)\<rparr>
         | Some provider \<Rightarrow>
             if de_spawn_ok env (dm_tick d)
             then dm_advance (d\<lparr>dm_fetches := dm_fetches d @ [account]\<rparr>)
             else dm_advance (d\<lparr>dm_model_prefetch_in_flight :=
               hs_remove account (dm_model_prefetch_in_flight d)\<rparr>)))"

definition handle_model_prefetch_result ::
  "DaemonEnv \<Rightarrow> string \<Rightarrow> string + string list \<Rightarrow> Daemon \<Rightarrow> Daemon" where
  "handle_model_prefetch_result env account result d =
     (let d = d\<lparr>dm_model_prefetch_in_flight := hs_remove account (dm_model_prefetch_in_flight d)\<rparr> in
      case result of
        Inl _ \<Rightarrow> d
      | Inr models \<Rightarrow>
          if map_of (dm_accounts d) account = None \<or> \<not> has_credential account d then d
          else
            (let models = sort_model_ids env models;
                 now = de_instant env (dm_tick d);
                 already_verified = (fresh_model_list account now d = Some models);
                 d = dm_advance (d\<lparr>dm_model_cache := hm_insert account (models, now) (dm_model_cache d)\<rparr>)
             in if already_verified then d
                else d\<lparr>dm_state := handle_broadcast_activity None
                  (DaemonMessage_broadcast (DM_ModelsUpdated account models)) (dm_state d)\<rparr>))"

definition quoted :: "string \<Rightarrow> string" where
  "quoted s = [CHR 0x27] @ s @ [CHR 0x27]"

definition handle_validate_model :: "DaemonEnv \<Rightarrow> u64 \<Rightarrow> string \<Rightarrow> reply_chan \<Rightarrow> Daemon \<Rightarrow> Daemon" where
  "handle_validate_model env session_id model reply d =
     (case Option.bind (map_of (dm_metadata d) session_id) meta_account_name of
        None \<Rightarrow> dm_reply reply (DR_Validate (Inr ())) d
      | Some account_name \<Rightarrow>
          if map_of (dm_accounts d) account_name = None \<or> \<not> has_credential account_name d
          then dm_reply reply (DR_Validate (Inl
            (''daemon is locked or no credential configured for account '' @ quoted account_name))) d
          else (case map_of (dm_model_cache d) account_name of
              Some (cached_models, _) \<Rightarrow>
                if cached_models \<noteq> [] then
                  if model \<in> set cached_models then dm_reply reply (DR_Validate (Inr ())) d
                  else dm_reply reply (DR_Validate (Inl (''model '' @ quoted model @
                    '' not found. Available: '' @ de_humfmt_list env cached_models))) d
                else dm_reply reply (DR_Validate (Inr ())) d
            | None \<Rightarrow> dm_reply reply (DR_Validate (Inr ())) d))"

definition catalog_models_for_account :: "DaemonEnv \<Rightarrow> string \<Rightarrow> Daemon \<Rightarrow> string list option" where
  "catalog_models_for_account env account d = (case account_provider_slug account d of
     None \<Rightarrow> None
   | Some slug \<Rightarrow> (case de_catalog_models env slug of
       None \<Rightarrow> None
     | Some models \<Rightarrow> if models = [] then None else Some (sort_model_ids env models)))"

record ListModelsResult =
  lm_models :: "string list"
  lm_selected_model :: "string option"
  lm_provisional :: bool

definition handle_list_models ::
  "DaemonEnv \<Rightarrow> u64 option \<Rightarrow> Daemon \<Rightarrow> (string + ListModelsResult) \<times> Daemon" where
  "handle_list_models env session_id d =
     (let meta = Option.bind session_id (map_of (dm_metadata d));
          account_name = (case Option.bind meta meta_account_name of Some n \<Rightarrow> n | None \<Rightarrow> '''');
          selected_model = Option.bind meta meta_selected_model
      in if map_of (dm_accounts d) account_name = None \<or> \<not> has_credential account_name d
         then (Inl (if dm_accounts d = [] then ''no accounts configured''
                    else ''no credential stored for account '' @ quoted account_name), d)
         else (let now = de_instant env (dm_tick d); d = dm_advance d in
           case fresh_model_list account_name now d of
             Some models \<Rightarrow> (Inr \<lparr>lm_models = models, lm_selected_model = selected_model, lm_provisional = False\<rparr>, d)
           | None \<Rightarrow>
               (let stale = (case map_of (dm_model_cache d) account_name of
                      Some (models, _) \<Rightarrow> if models \<noteq> [] then Some models else None | None \<Rightarrow> None);
                    seed = (if stale = None then catalog_models_for_account env account_name d else None);
                    d = maybe_spawn_model_prefetch env account_name d
                in case (case stale of Some m \<Rightarrow> Some m | None \<Rightarrow> seed) of
                     None \<Rightarrow> (Inl (models_warming_error account_name), d)
                   | Some models \<Rightarrow>
                       (Inr \<lparr>lm_models = models, lm_selected_model = selected_model, lm_provisional = True\<rparr>, d))))"

section \<open>The in-flight guard\<close>

text \<open>
  A fetch thread reports once and ends; a trigger is a session join, an account
  switch or a request for the list.
\<close>

datatype model_op =
    MO_Trigger string
  | MO_List "u64 option"
  | MO_Reported string "string + string list"

fun run_model_op :: "DaemonEnv \<Rightarrow> model_op \<Rightarrow> Daemon \<Rightarrow> Daemon" where
  "run_model_op env (MO_Trigger account) d = maybe_spawn_model_prefetch env account d"
| "run_model_op env (MO_List session_id) d = snd (handle_list_models env session_id d)"
| "run_model_op env (MO_Reported account result) d =
     (if account \<in> set (dm_fetches d)
      then handle_model_prefetch_result env account result (d\<lparr>dm_fetches := remove1 account (dm_fetches d)\<rparr>)
      else d)"

definition guard_ok :: "Daemon \<Rightarrow> bool" where
  "guard_ok d \<longleftrightarrow> distinct (dm_fetches d) \<and> set (dm_model_prefetch_in_flight d) = set (dm_fetches d)"

lemma dm_advance_simps [simp]:
  "dm_state (dm_advance d) = dm_state d" "dm_accounts (dm_advance d) = dm_accounts d"
  "dm_credentials (dm_advance d) = dm_credentials d" "dm_model_cache (dm_advance d) = dm_model_cache d"
  "dm_model_prefetch_in_flight (dm_advance d) = dm_model_prefetch_in_flight d"
  "dm_fetches (dm_advance d) = dm_fetches d" "dm_tick (dm_advance d) = Suc (dm_tick d)"
  "dm_db (dm_advance d) = dm_db d" "dm_deleted_sessions (dm_advance d) = dm_deleted_sessions d"
  "dm_next_session_id (dm_advance d) = dm_next_session_id d" "dm_children (dm_advance d) = dm_children d"
  "dm_finalizers (dm_advance d) = dm_finalizers d" "dm_replies (dm_advance d) = dm_replies d"
  "dm_session_registries (dm_advance d) = dm_session_registries d"
  "dm_closed_sockets (dm_advance d) = dm_closed_sockets d" "dm_detached (dm_advance d) = dm_detached d"
  by (simp_all add: dm_advance_def)

lemma prefetch_guard: "guard_ok d \<Longrightarrow> guard_ok (maybe_spawn_model_prefetch env account d)"
  by (auto simp: guard_ok_def maybe_spawn_model_prefetch_def should_prefetch_models_def Let_def
      split: option.split)

lemma prefetch_result_fields [simp]:
  "dm_fetches (handle_model_prefetch_result env account result d) = dm_fetches d"
  "dm_model_prefetch_in_flight (handle_model_prefetch_result env account result d) =
     hs_remove account (dm_model_prefetch_in_flight d)"
  by (simp_all add: handle_model_prefetch_result_def Let_def split: sum.split)

lemma list_models_guard: "guard_ok d \<Longrightarrow> guard_ok (snd (handle_list_models env session_id d))"
  using prefetch_guard [of "dm_advance d" env]
  by (auto simp: handle_list_models_def guard_ok_def Let_def split: option.split)

text \<open>
  The guard against duplicate model fetches neither leaks nor doubles: after
  any sequence of joins, switches, requests and reports, with fetches that
  succeed, fail, cannot be built or cannot be started, at most one fetch runs per
  account, and an account counts as in flight exactly while its fetch runs, so a
  failed attempt never locks the account out of a later one.
\<close>

theorem prefetch_guard_exact:
  assumes "guard_ok d"
  shows "guard_ok (fold (run_model_op env) ops d)"
  using assms
proof (induction ops arbitrary: d)
  case (Cons op ops)
  have "guard_ok (run_model_op env op d)"
  proof (cases op)
    case (MO_Trigger account)
    then show ?thesis using Cons.prems prefetch_guard by simp
  next
    case (MO_List session_id)
    then show ?thesis using Cons.prems list_models_guard by simp
  next
    case (MO_Reported account result)
    then show ?thesis using Cons.prems by (auto simp: guard_ok_def)
  qed
  then show ?case using Cons.IH by simp
qed simp

definition sample_env :: DaemonEnv where
  "sample_env = \<lparr>de_now_ms = (\<lambda>_. 100), de_instant = (\<lambda>k. k), de_db_fault = (\<lambda>_. None),
     de_lookup_context_window = (\<lambda>_ _. None), de_catalog_models = (\<lambda>_. None),
     de_from_account_config = (\<lambda>_ _ _. Inr \<lparr>ip_client = 0, ip_slug = ''p''\<rparr>), de_spawn_ok = (\<lambda>_. True),
     de_to_lowercase = (\<lambda>s. s), de_humfmt_list = concat, de_content = False, de_ios = False,
     de_plan_overlay = (\<lambda>_. \<lparr>ov_tools = \<lparr>pts_tools = [], pts_groups = []\<rparr>, ov_shadowed_groups = [],
       ov_project_root = None, ov_project_trusted = False, ov_ignored_project_servers = [], ov_statuses = []\<rparr>)\<rparr>"

definition plain_account :: "string \<Rightarrow> AccountConfig" where
  "plain_account name = \<lparr>ac_name = name, ac_provider = ''p'', ac_base_url = None, ac_streaming = None,
     ac_stream_options = None, ac_retry_max_attempts = None, ac_connect_timeout_secs = None,
     ac_request_timeout_secs = None, ac_total_timeout_secs = None, ac_model_list_path = None,
     ac_responses_path = None, ac_chat_completions_path = None, ac_default_request_format = None,
     ac_chat_completions_max_tokens = None, ac_model_max_tokens = None,
     ac_chat_completions_max_tokens_field = None, ac_responses_max_output_tokens = None,
     ac_model_responses_max_output_tokens = None, ac_programmatic_tool_calling = None,
     ac_model_max_tokens_fields = None, ac_context_window = None, ac_model_context_windows = None,
     ac_prompt_cache = None, ac_prompt_cache_affinity = None,
     ac_meter = None, ac_cache_warming = None, ac_retry_initial_backoff_ms = None, ac_retry_max_backoff_ms = None\<rparr>"

text \<open>A daemon with one account, one session bound to it and no model list yet.\<close>

definition sample_loop :: Daemon where
  "sample_loop = \<lparr>dm_state = sample_daemon\<lparr>ds_session_metadata :=
       [(3, (SessionMetadata_from_config SessionConfig_default)\<lparr>meta_account_name := Some ''a''\<rparr>)]\<rparr>,
     dm_next_session_id = 4, dm_deleted_sessions = [], dm_children = [],
     dm_accounts = [(''a'', plain_account ''a'')], dm_credentials = [(''a'', SC_ApiKey ''k'')],
     dm_session_registries = [3], dm_db = empty_db, dm_model_cache = [], dm_model_prefetch_in_flight = [],
     dm_fetches = [], dm_finalizers = [], dm_closed_sockets = [], dm_detached = [], dm_replies = [], dm_tick = 0\<rparr>"

theorem prefetch_guard_exact_witness:
  "guard_ok sample_loop \<and> guard_ok (fold (run_model_op sample_env)
     [MO_Trigger ''a'', MO_List (Some 3), MO_Reported ''a'' (Inl ''timeout''), MO_Trigger ''a''] sample_loop)"
  using prefetch_guard_exact [of sample_loop sample_env
      "[MO_Trigger ''a'', MO_List (Some 3), MO_Reported ''a'' (Inl ''timeout''), MO_Trigger ''a'']"]
  by (simp add: guard_ok_def sample_loop_def)

text \<open>
  A fetched model list is what clients get: after a successful fetch for an
  account that still exists with a credential, a session of that account is given
  exactly the fetched models, in case-insensitive order; the list counts as
  verified until its lifetime is over and is still given, marked provisional,
  after that. A list fetched for an account that is gone changes nothing.
\<close>

theorem fetched_models_served:
  fixes env :: DaemonEnv
  assumes wf: "ds_wf (dm_state d)"
    and meta: "map_of (dm_metadata d) sid = Some m" "meta_account_name m = Some account"
    and models: "models \<noteq> []"
  defines "d' \<equiv> handle_model_prefetch_result env account (Inr models) d"
  shows "if map_of (dm_accounts d) account \<noteq> None \<and> has_credential account d
    then fst (handle_list_models env (Some sid) d') = Inr
      \<lparr>lm_models = sort_model_ids env models, lm_selected_model = meta_selected_model m,
       lm_provisional = (MODEL_CACHE_TTL \<le> de_instant env (Suc (dm_tick d)) - de_instant env (dm_tick d))\<rparr>
    else dm_model_cache d' = dm_model_cache d \<and> dm_state d' = dm_state d"
proof (cases "map_of (dm_accounts d) account \<noteq> None \<and> has_credential account d")
  case True
  then obtain cfg cred where known: "map_of (dm_accounts d) account = Some cfg"
      "map_of (dm_credentials d) account = Some cred"
    by (auto simp: has_credential_def)
  let ?models = "sort_model_ids env models" and ?now = "de_instant env (dm_tick d)"
  have ne: "?models \<noteq> []" using models by (simp add: sort_model_ids_def flip: set_empty)
  have "ds_session_metadata (handle_broadcast_activity o' msg (dm_state d)) = ds_session_metadata (dm_state d)"
    for o' msg using fan_out_clients_spec [OF wf] unfolding handle_broadcast_activity_def by blast
  then have d': "dm_metadata d' = dm_metadata d" "dm_accounts d' = dm_accounts d"
      "dm_credentials d' = dm_credentials d" "dm_tick d' = Suc (dm_tick d)"
      "map_of (dm_model_cache d') account = Some (?models, ?now)"
    using known
    by (simp_all add: d'_def handle_model_prefetch_result_def has_credential_def Let_def map_of_hm_insert)
  show ?thesis
    using known meta ne
    by (simp add: handle_list_models_def d' has_credential_def fresh_model_list_def Let_def not_le)
next
  case False
  then show ?thesis by (auto simp: d'_def handle_model_prefetch_result_def has_credential_def Let_def)
qed

theorem fetched_models_served_witness:
  "\<exists>r. fst (handle_list_models sample_env (Some 3)
      (handle_model_prefetch_result sample_env ''a'' (Inr [''z'', ''b'']) sample_loop)) = Inr r \<and>
     lm_models r = [''b'', ''z''] \<and> \<not> lm_provisional r"
proof -
  have wf: "ds_wf (dm_state sample_loop)"
    using sample_daemon_wf by (simp add: sample_loop_def ds_wf_def)
  show ?thesis
    using fetched_models_served [OF wf, of 3 _ "''a''" "[''z'', ''b'']" sample_env]
    by (simp add: sample_loop_def has_credential_def sample_env_def sort_model_ids_def MODEL_CACHE_TTL_def)
qed

end
