(* ===== verification/Session_Lifecycle.thy ===== *)
theory Session_Lifecycle
  imports Daemon_Models
begin

text \<open>
  The life of a session as the daemon's command loop manages it
  (\<open>src/choreo-daemon/src/daemon.rs\<close>): creating, attaching and reviving, listing,
  flags, the metadata a session thread reports, the end of a session thread,
  cancelling with propagation to sub-sessions, and deleting, whose last part runs
  on a background thread. The second half says what each operation does to the
  sessions the daemon knows, the view on which the interleaving is reasoned about.

  Not in this model: the MCP side of a session (the overlay a new session thread is
  sent is what the environment says) and the socket registries' contents (closing
  them is recorded).
\<close>

section \<open>Session threads seen from the loop\<close>

text \<open>A command for a session whose thread the loop holds a handle of; without one it is dropped.\<close>

definition forward :: "u64 \<Rightarrow> SessionCommand \<Rightarrow> Daemon \<Rightarrow> Daemon" where
  "forward session_id cmd d = set_active (btm_update session_id (cmd_send cmd) (dm_active d)) d"

definition spawn_session ::
  "DaemonEnv \<Rightarrow> u64 \<Rightarrow> SessionRecord \<Rightarrow> SessionMetadata \<Rightarrow> Daemon \<Rightarrow> Daemon" where
  "spawn_session env session_id record metadata d =
     (let d = d\<lparr>dm_session_registries := hs_insert session_id (dm_session_registries d)\<rparr>;
          d = set_active (hm_insert session_id \<lparr>ase_mailbox = [], ase_rx_alive = True\<rparr> (dm_active d)) d;
          d = set_metadata (hm_insert session_id metadata (dm_metadata d)) d
      in forward session_id (SC_SetMcpOverlay (de_plan_overlay env session_id)) d)"

section \<open>Creating and reviving\<close>

record CreateSessionParams =
  cp_title :: "string option"
  cp_parent_session_id :: "u64 option"
  cp_working_dir :: "string option"
  cp_reasoning_effort :: "string option"
  cp_selected_model :: "string option"
  cp_context_config :: "ContextConfig option"
  cp_account_name :: "string option"
  cp_active_tool_groups :: "string list"

definition new_record :: "DaemonEnv \<Rightarrow> i64 \<Rightarrow> CreateSessionParams \<Rightarrow> SessionRecord" where
  "new_record env created_at p =
     \<lparr>rec_title = cp_title p, rec_selected_model = cp_selected_model p,
      rec_parent_session_id = cp_parent_session_id p, rec_working_dir = cp_working_dir p,
      rec_turn_count = 0, rec_created_at = created_at, rec_last_modified = created_at,
      rec_active_tool_groups =
        (if cp_active_tool_groups p = [] then default_active_tool_groups (de_content env) (de_ios env)
         else cp_active_tool_groups p),
      rec_context_config = (case cp_context_config p of Some c \<Rightarrow> c | None \<Rightarrow> ContextConfig_default),
      rec_account_name = cp_account_name p, rec_reasoning_effort = cp_reasoning_effort p,
      rec_last_response_id = None, rec_last_response_id_producer = None,
      rec_pinned = False, rec_archived_at = None\<rparr>"

definition new_metadata :: "u32 option \<Rightarrow> SessionRecord \<Rightarrow> SessionMetadata" where
  "new_metadata context_window record =
     \<lparr>meta_title = rec_title record, meta_selected_model = rec_selected_model record,
      meta_reasoning_effort = rec_reasoning_effort record,
      meta_parent_session_id = rec_parent_session_id record,
      meta_working_dir = rec_working_dir record, meta_created_at = rec_created_at record,
      meta_last_modified = rec_last_modified record, meta_turn_count = 0, meta_status = SS_Inactive,
      meta_active_tool_groups = rec_active_tool_groups record,
      meta_account_name = rec_account_name record, meta_accumulated_usage = TokenUsage_default,
      meta_context_window = context_window, meta_last_prompt_tokens = None,
      meta_pinned = False, meta_archived_at = None\<rparr>"

definition store_new_record :: "DaemonEnv \<Rightarrow> u64 \<Rightarrow> SessionRecord \<Rightarrow> Daemon \<Rightarrow> Daemon" where
  "store_new_record env sid record d =
     (case db_write_session (de_db_fault env (dm_tick d)) sid record (dm_db d) of
        Inl e \<Rightarrow> dm_advance d | Inr db \<Rightarrow> dm_advance (d\<lparr>dm_db := db\<rparr>))"

definition prefetch_for :: "DaemonEnv \<Rightarrow> string option \<Rightarrow> Daemon \<Rightarrow> Daemon" where
  "prefetch_for env account d = (case account of
     Some name \<Rightarrow> maybe_spawn_model_prefetch env name d | None \<Rightarrow> d)"

text \<open>\<open>entry(parent).or_default().push(child)\<close>.\<close>

definition add_child :: "u64 option \<Rightarrow> u64 \<Rightarrow> Daemon \<Rightarrow> Daemon" where
  "add_child parent sid d = (case parent of
     None \<Rightarrow> d
   | Some p \<Rightarrow> d\<lparr>dm_children := hm_insert p
       ((case map_of (dm_children d) p of Some v \<Rightarrow> v | None \<Rightarrow> []) @ [sid]) (dm_children d)\<rparr>)"

definition handle_create_session ::
  "DaemonEnv \<Rightarrow> CreateSessionParams \<Rightarrow> reply_chan \<Rightarrow> Daemon \<Rightarrow> Daemon" where
  "handle_create_session env p reply d =
     (let sid = dm_next_session_id d;
          d = d\<lparr>dm_next_session_id := sid + 1\<rparr>;
          context_window = Option.bind (cp_account_name p) (\<lambda>name.
            Option.bind (cp_selected_model p) (\<lambda>model.
              Option.bind (account_provider_slug name d) (\<lambda>slug. de_lookup_context_window env slug model)));
          created_at = de_now_ms env (dm_tick d);
          record = new_record env created_at p;
          d = store_new_record env sid record d;
          d = spawn_session env sid record (new_metadata context_window record) d;
          d = prefetch_for env (cp_account_name p) d;
          d = add_child (cp_parent_session_id p) sid d;
          d = dm_reply reply (DR_Created (Inr sid)) d;
          d = dm_broadcast (DM_Session (Some sid) (SE_SessionCreated (cp_title p) (cp_parent_session_id p)
                (cp_working_dir p) (cp_account_name p) (cp_selected_model p) (cp_reasoning_effort p))) d
      in dm_broadcast (DM_Session (Some sid) (SE_SessionStatusChanged SS_Inactive created_at)) d)"

definition not_found :: io_error where
  "not_found = IoError IO_NotFound ''session not found''"

definition ensure_active_session :: "DaemonEnv \<Rightarrow> u64 \<Rightarrow> Daemon \<Rightarrow> (io_error + u64) \<times> Daemon" where
  "ensure_active_session env session_id d =
     (if session_id \<in> set (dm_deleted_sessions d) then (Inl not_found, d)
      else case map_of (dm_active d) session_id of
        Some entry \<Rightarrow> (Inr session_id, d)
      | None \<Rightarrow>
          (case read_session (de_db_fault env (dm_tick d)) session_id (dm_db d) of
             Inl e \<Rightarrow> (Inl e, dm_advance d)
           | Inr None \<Rightarrow> (Inl not_found, dm_advance d)
           | Inr (Some record) \<Rightarrow>
               (Inr session_id, spawn_session env session_id record
                  ((SessionMetadata_from_record record)\<lparr>meta_status := SS_Inactive\<rparr>) (dm_advance d))))"

definition handle_attach_session :: "DaemonEnv \<Rightarrow> u64 \<Rightarrow> reply_chan \<Rightarrow> Daemon \<Rightarrow> Daemon" where
  "handle_attach_session env session_id reply d = (case ensure_active_session env session_id d of
     (Inl e, d) \<Rightarrow> dm_reply reply (DR_Attached (Inl e)) d
   | (Inr tx, d) \<Rightarrow>
       (let d = prefetch_for env (Option.bind (map_of (dm_metadata d) session_id) meta_account_name) d
        in dm_reply reply (DR_Attached (Inr tx)) d))"

text \<open>A stable sort by a three-way comparator, as \<open>sort_by\<close> does it.\<close>

fun insort_by :: "('a \<Rightarrow> 'a \<Rightarrow> ordering) \<Rightarrow> 'a \<Rightarrow> 'a list \<Rightarrow> 'a list" where
  "insort_by c x [] = [x]"
| "insort_by c x (y # ys) = (if c x y = Greater then y # insort_by c x ys else x # y # ys)"

definition sort_by :: "('a \<Rightarrow> 'a \<Rightarrow> ordering) \<Rightarrow> 'a list \<Rightarrow> 'a list" where
  "sort_by c xs = foldr (insort_by c) xs []"

definition handle_list_sessions :: "reply_chan \<Rightarrow> Daemon \<Rightarrow> Daemon" where
  "handle_list_sessions reply d =
     dm_reply reply (DR_List (sort_by cmp_for_list
       (map (\<lambda>(sid, meta). to_summary meta sid) (dm_metadata d)))) d"

definition handle_get_session :: "u64 \<Rightarrow> reply_chan \<Rightarrow> Daemon \<Rightarrow> Daemon" where
  "handle_get_session session_id reply d =
     dm_reply reply (DR_Summary (map_option (\<lambda>meta. to_summary meta session_id)
       (map_of (dm_metadata d) session_id))) d"

definition handle_get_session_state :: "DaemonEnv \<Rightarrow> u64 \<Rightarrow> reply_chan \<Rightarrow> Daemon \<Rightarrow> Daemon" where
  "handle_get_session_state env session_id reply d = (case ensure_active_session env session_id d of
     (Inl e, d) \<Rightarrow> dm_reply reply (DR_State (Inl e)) d
   | (Inr tx, d) \<Rightarrow> forward tx (SC_GetState reply) d)"

section \<open>Flags and reported metadata\<close>

definition handle_set_session_flags ::
  "DaemonEnv \<Rightarrow> u64 \<Rightarrow> bool option \<Rightarrow> bool option \<Rightarrow> reply_chan \<Rightarrow> Daemon \<Rightarrow> Daemon" where
  "handle_set_session_flags env session_id pinned archived reply d =
     (if session_id \<in> set (dm_deleted_sessions d) then dm_reply reply (DR_Unit (Inl not_found)) d
      else case map_of (dm_metadata d) session_id of
        None \<Rightarrow> dm_reply reply (DR_Unit (Inl not_found)) d
      | Some existing \<Rightarrow>
          (let pinned = (case pinned of Some p \<Rightarrow> p | None \<Rightarrow> meta_pinned existing);
               archived_at = (case archived of
                  Some True \<Rightarrow> Some (de_now_ms env (dm_tick d))
                | Some False \<Rightarrow> None
                | None \<Rightarrow> meta_archived_at existing)
           in case update_session_flags (de_db_fault env (dm_tick d)) session_id pinned archived_at
                     (tb_sessions (dm_db d)) of
                Inl e \<Rightarrow> dm_reply reply (DR_Unit (Inl e)) (dm_advance d)
              | Inr table \<Rightarrow>
                  (let d = dm_advance (d\<lparr>dm_db := (dm_db d)\<lparr>tb_sessions := table\<rparr>\<rparr>);
                       d = set_metadata (btm_update session_id (\<lambda>meta.
                         meta\<lparr>meta_pinned := pinned, meta_archived_at := archived_at\<rparr>) (dm_metadata d)) d;
                       d = dm_broadcast (DM_Session (Some session_id)
                             (SE_SessionFlagsChanged pinned archived_at)) d
                   in dm_reply reply (DR_Unit (Inr ())) d)))"

text \<open>What the loop keeps of its own row when a session thread reports one.\<close>

definition merge_metadata :: "SessionMetadata option \<Rightarrow> SessionMetadata \<Rightarrow> SessionMetadata" where
  "merge_metadata existing metadata = (case existing of
     None \<Rightarrow> metadata
   | Some old \<Rightarrow>
       (let metadata = metadata\<lparr>meta_last_modified := max (meta_last_modified metadata) (meta_last_modified old)\<rparr>;
            metadata = (if meta_status old = SS_Sleeping
                        then metadata\<lparr>meta_status := SS_Sleeping\<rparr> else metadata)
        in metadata\<lparr>meta_pinned := meta_pinned old, meta_archived_at := meta_archived_at old\<rparr>))"

definition handle_update_metadata :: "DaemonEnv \<Rightarrow> u64 \<Rightarrow> SessionMetadata \<Rightarrow> Daemon \<Rightarrow> Daemon" where
  "handle_update_metadata env session_id metadata d =
     (if session_id \<in> set (dm_deleted_sessions d) then d
      else
        (let existing = map_of (dm_metadata d) session_id;
             metadata = merge_metadata existing metadata;
             old_account = Option.bind existing meta_account_name;
             new_account = meta_account_name metadata;
             d = set_metadata (hm_insert session_id metadata (dm_metadata d)) d
         in if new_account \<noteq> None \<and> new_account \<noteq> old_account then prefetch_for env new_account d else d))"

section \<open>Children, cancelling and the end of a thread\<close>

definition remove_child_from_all_parents :: "u64 \<Rightarrow> Daemon \<Rightarrow> Daemon" where
  "remove_child_from_all_parents child_id d =
     d\<lparr>dm_children := filter (\<lambda>(_, v). v \<noteq> [])
          (map (\<lambda>(p, v). (p, filter (\<lambda>c. c \<noteq> child_id) v)) (dm_children d))\<rparr>"

definition force_close_session_sockets :: "u64 \<Rightarrow> Daemon \<Rightarrow> Daemon" where
  "force_close_session_sockets session_id d =
     (if session_id \<in> set (dm_session_registries d)
      then d\<lparr>dm_closed_sockets := dm_closed_sockets d @ [session_id]\<rparr> else d)"

definition cancel_children_of :: "u64 \<Rightarrow> Daemon \<Rightarrow> Daemon" where
  "cancel_children_of parent_id d =
     (if map_of (dm_active d) parent_id = None \<and> map_of (dm_metadata d) parent_id = None then d
      else case map_of (dm_children d) parent_id of
        None \<Rightarrow> d
      | Some children \<Rightarrow> fold (\<lambda>child_id d.
          if map_of (dm_active d) child_id \<noteq> None
          then force_close_session_sockets child_id (forward child_id (SC_Cancel CANCEL_ALL) d)
          else d) children d)"

definition handle_cancel_request :: "u64 \<Rightarrow> u64 \<Rightarrow> Daemon \<Rightarrow> Daemon" where
  "handle_cancel_request session_id stream_id d =
     (let d = forward session_id (SC_Cancel stream_id) d;
          d = cancel_children_of session_id d
      in force_close_session_sockets session_id d)"

definition cancel_and_shutdown_child :: "u64 \<Rightarrow> Daemon \<Rightarrow> Daemon" where
  "cancel_and_shutdown_child child_id d =
     forward child_id SC_Shutdown (forward child_id (SC_Cancel CANCEL_ALL) d)"

definition handle_session_exited :: "u64 \<Rightarrow> Daemon \<Rightarrow> Daemon" where
  "handle_session_exited session_id d =
     (let d = d\<lparr>dm_session_registries := hs_remove session_id (dm_session_registries d)\<rparr>;
          d = set_active (hm_remove session_id (dm_active d)) d;
          d = (case map_of (dm_children d) session_id of
                 None \<Rightarrow> d
               | Some children \<Rightarrow>
                   fold (\<lambda>child_id d. cancel_and_shutdown_child child_id (remove_child_from_all_parents child_id d))
                     children (d\<lparr>dm_children := hm_remove session_id (dm_children d)\<rparr>));
          d = set_metadata (btm_update session_id (\<lambda>meta. meta\<lparr>meta_status := SS_Sleeping\<rparr>) (dm_metadata d)) d;
          last_modified = (case map_of (dm_metadata d) session_id of
             Some meta \<Rightarrow> meta_last_modified meta | None \<Rightarrow> 0);
          d = (if map_of (dm_metadata d) session_id \<noteq> None
               then dm_broadcast (DM_Session (Some session_id) (SE_SessionStatusChanged SS_Sleeping last_modified)) d
               else d)
      in if session_id \<in> set (dm_deleted_sessions d)
         then d\<lparr>dm_finalizers := dm_finalizers d @ [session_id]\<rparr> else d)"

definition handle_session_delete_finalized :: "u64 \<Rightarrow> Daemon \<Rightarrow> Daemon" where
  "handle_session_delete_finalized session_id d =
     d\<lparr>dm_deleted_sessions := hs_remove session_id (dm_deleted_sessions d)\<rparr>"

section \<open>Commands passed on to a session thread\<close>

definition handle_set_session_title :: "u64 \<Rightarrow> string \<Rightarrow> Daemon \<Rightarrow> Daemon" where
  "handle_set_session_title session_id title d = forward session_id (SC_SetTitle title None) d"

definition not_active :: "reply_chan \<Rightarrow> Daemon \<Rightarrow> Daemon" where
  "not_active reply d = dm_reply reply (DR_Text (Inl ''session is not active'')) d"

definition daemon_set_working_dir :: "u64 \<Rightarrow> string \<Rightarrow> reply_chan \<Rightarrow> Daemon \<Rightarrow> Daemon" where
  "daemon_set_working_dir session_id path reply d = (case map_of (dm_active d) session_id of
     Some _ \<Rightarrow> forward session_id (SC_SetWorkingDir path reply None) d
   | None \<Rightarrow> not_active reply d)"

definition daemon_load_tools :: "u64 \<Rightarrow> string list \<Rightarrow> reply_chan \<Rightarrow> Daemon \<Rightarrow> Daemon" where
  "daemon_load_tools session_id groups reply d = (case map_of (dm_active d) session_id of
     Some _ \<Rightarrow> forward session_id (SC_LoadTools groups reply) d
   | None \<Rightarrow> not_active reply d)"

definition daemon_unload_tools :: "u64 \<Rightarrow> string list \<Rightarrow> reply_chan \<Rightarrow> Daemon \<Rightarrow> Daemon" where
  "daemon_unload_tools session_id groups reply d = (case map_of (dm_active d) session_id of
     Some _ \<Rightarrow> forward session_id (SC_UnloadTools groups reply) d
   | None \<Rightarrow> not_active reply d)"

section \<open>Deleting\<close>

definition clear_stale_session_tombstone :: "DaemonEnv \<Rightarrow> u64 \<Rightarrow> Daemon \<Rightarrow> Daemon" where
  "clear_stale_session_tombstone env session_id d =
     (case clear_session_tombstone (de_db_fault env (dm_tick d)) session_id (dm_db d) of
        Inl e \<Rightarrow> dm_advance d | Inr db \<Rightarrow> dm_advance (d\<lparr>dm_db := db\<rparr>))"

text \<open>The last lines shared by both ways of deleting: the index row goes, and everybody is told.\<close>

definition forget_session :: "u64 \<Rightarrow> Daemon \<Rightarrow> Daemon" where
  "forget_session session_id d =
     dm_broadcast (DM_Session (Some session_id) SE_SessionDeleted)
       (set_metadata (hm_remove session_id (dm_metadata d)) d)"

definition delete_finished_session :: "DaemonEnv \<Rightarrow> u64 \<Rightarrow> Daemon \<Rightarrow> (io_error + unit) \<times> Daemon" where
  "delete_finished_session env session_id d =
     (let d = d\<lparr>dm_deleted_sessions := hs_insert session_id (dm_deleted_sessions d)\<rparr> in
      case delete_session (de_db_fault env (dm_tick d)) session_id (dm_db d) of
        Inl e \<Rightarrow> (Inl e, dm_advance d)
      | Inr db \<Rightarrow>
          (let d = clear_stale_session_tombstone env session_id (dm_advance (d\<lparr>dm_db := db\<rparr>))
           in (Inr (), forget_session session_id d)))"

text \<open>
  \<open>finished\<close> tells which join handles report that their thread has ended. The entry of a
  thread that still runs leaves the map; its channel, with the two last commands in
  it, is kept in \<open>dm_detached\<close>.
\<close>

definition delete_session_inner ::
  "DaemonEnv \<Rightarrow> (u64 \<Rightarrow> bool) \<Rightarrow> u64 \<Rightarrow> Daemon \<Rightarrow> (io_error + unit) \<times> Daemon" where
  "delete_session_inner env finished session_id d = (case map_of (dm_active d) session_id of
     Some entry \<Rightarrow>
       (let d = set_active (hm_remove session_id (dm_active d)) d in
        if finished session_id then delete_finished_session env session_id d
        else
          (let d = d\<lparr>dm_deleted_sessions := hs_insert session_id (dm_deleted_sessions d)\<rparr>;
               d = (case mark_session_deleted (de_db_fault env (dm_tick d)) session_id (dm_db d) of
                      Inl e \<Rightarrow> dm_advance d | Inr db \<Rightarrow> dm_advance (d\<lparr>dm_db := db\<rparr>));
               d = d\<lparr>dm_detached := dm_detached d @
                 [(session_id, cmd_send SC_Shutdown (cmd_send (SC_Cancel CANCEL_ALL) entry))]\<rparr>
           in (Inr (), forget_session session_id d)))
   | None \<Rightarrow>
       (case delete_session (de_db_fault env (dm_tick d)) session_id (dm_db d) of
          Inl e \<Rightarrow> (Inl e, dm_advance d)
        | Inr db \<Rightarrow>
            (let d = dm_advance (d\<lparr>dm_db := db\<rparr>);
                 d = (if session_id \<notin> set (dm_deleted_sessions d)
                      then clear_stale_session_tombstone env session_id d else d)
             in (Inr (), forget_session session_id d))))"

definition handle_delete_session ::
  "DaemonEnv \<Rightarrow> (u64 \<Rightarrow> bool) \<Rightarrow> u64 \<Rightarrow> reply_chan \<Rightarrow> Daemon \<Rightarrow> Daemon" where
  "handle_delete_session env finished session_id reply d =
     (let d = (case map_of (dm_children d) session_id of
            None \<Rightarrow> d
          | Some children \<Rightarrow>
              fold (\<lambda>child_id d. snd (delete_session_inner env finished child_id
                      (remove_child_from_all_parents child_id d)))
                children (d\<lparr>dm_children := hm_remove session_id (dm_children d)\<rparr>));
          d = remove_child_from_all_parents session_id d;
          (result, d) = delete_session_inner env finished session_id d
      in dm_reply reply (DR_Unit result) d)"

text \<open>
  The background delete of a session whose thread has exited: the record goes, then
  the tombstone, then the loop is told. When the delete fails, nothing is told.
\<close>

definition finalize_session_delete ::
  "io_error option \<Rightarrow> io_error option \<Rightarrow> u64 \<Rightarrow> Database \<Rightarrow> Database \<times> DaemonCommand list" where
  "finalize_session_delete delete_fault clear_fault session_id db =
     (case delete_session delete_fault session_id db of
        Inl e \<Rightarrow> (db, [])
      | Inr db \<Rightarrow>
          (case clear_session_tombstone clear_fault session_id db of
             Inl e \<Rightarrow> (db, [DC_SessionDeleteFinalized session_id])
           | Inr db \<Rightarrow> (db, [DC_SessionDeleteFinalized session_id])))"

section \<open>What an operation does to the sessions the daemon knows\<close>

text \<open>
  The sessions with a thread handle, with an index row, marked as deleted, with a
  stored record, with a tombstone; the background deletes under way; and the next id.
\<close>

record view =
  vw_live :: "u64 set"
  vw_listed :: "u64 set"
  vw_marked :: "u64 set"
  vw_stored :: "u64 set"
  vw_tombs :: "u64 set"
  vw_final :: "u64 list"
  vw_next :: u64

definition stored_ids :: "Database \<Rightarrow> u64 set" where
  "stored_ids db = dom (map_of (tb_sessions db))"

definition tomb_ids :: "Database \<Rightarrow> u64 set" where
  "tomb_ids db = dom (map_of (tb_deleted db))"

definition view :: "Daemon \<Rightarrow> view" where
  "view d = \<lparr>vw_live = dom (map_of (dm_active d)), vw_listed = dom (map_of (dm_metadata d)),
     vw_marked = set (dm_deleted_sessions d), vw_stored = stored_ids (dm_db d),
     vw_tombs = tomb_ids (dm_db d), vw_final = dm_finalizers d, vw_next = dm_next_session_id d\<rparr>"

lemma dom_btm_update [simp]: "dom (map_of (btm_update k f m)) = dom (map_of m)"
  by (auto simp: map_of_btm_update dom_def)

lemma dom_map_of_cong: "map fst m = map fst m' \<Longrightarrow> dom (map_of m) = dom (map_of m')"
  by (metis dom_map_of_conv_image_fst list.set_map)

subsection \<open>Telling clients changes neither the index nor the handles\<close>

lemma fold_mailboxes:
  "map fst (fold (\<lambda>sid. btm_update sid (cmd_send cmd)) sids m) = map fst m"
  by (induction sids arbitrary: m) simp_all

lemma remove_client_sessions:
  "map fst (ds_active_sessions (remove_client c s)) = map fst (ds_active_sessions s)"
  "ds_session_metadata (remove_client c s) = ds_session_metadata s"
  by (simp_all add: remove_client_def fold_mailboxes split: option.split)

lemma evict_client_sessions:
  "map fst (ds_active_sessions (handle_evict_client c s)) = map fst (ds_active_sessions s)"
  "ds_session_metadata (handle_evict_client c s) = ds_session_metadata s"
  by (simp_all add: handle_evict_client_def remove_client_sessions Let_def case_prod_beta split: option.split)

lemma fold_evict_sessions:
  "map fst (ds_active_sessions (fold handle_evict_client cs s)) = map fst (ds_active_sessions s)"
  "ds_session_metadata (fold handle_evict_client cs s) = ds_session_metadata s"
  by (induction cs arbitrary: s) (simp_all add: evict_client_sessions)

lemma largest_sessions:
  "map fst (ds_active_sessions (handle_evict_largest_lagging s)) = map fst (ds_active_sessions s)"
  "ds_session_metadata (handle_evict_largest_lagging s) = ds_session_metadata s"
  by (simp_all add: handle_evict_largest_lagging_def evict_client_sessions split: option.split prod.split)

lemma fan_out_clients_sessions [simp]:
  "map fst (ds_active_sessions (fan_out_clients msg skip s)) = map fst (ds_active_sessions s)"
  "ds_session_metadata (fan_out_clients msg skip s) = ds_session_metadata s"
  by (simp_all add: fan_out_clients_def finish_evictions_def fold_evict_sessions largest_sessions Let_def
      case_prod_beta)

lemma broadcast_sessions [simp]:
  "map fst (ds_active_sessions (broadcast inner s)) = map fst (ds_active_sessions s)"
  "ds_session_metadata (broadcast inner s) = ds_session_metadata s"
  by (simp_all add: broadcast_def Let_def)

subsection \<open>Operations that keep the view\<close>

lemma view_quiet [simp]:
  "view (dm_advance d) = view d" "view (dm_reply ch v d) = view d" "view (forward sid cmd d) = view d"
  "view (force_close_session_sockets sid d) = view d" "view (add_child parent sid d) = view d"
  "view (remove_child_from_all_parents sid d) = view d" "view (d\<lparr>dm_children := c\<rparr>) = view d"
  "view (d\<lparr>dm_session_registries := r\<rparr>) = view d" "view (d\<lparr>dm_detached := x\<rparr>) = view d"
  by (simp_all add: view_def dm_reply_def forward_def set_active_def force_close_session_sockets_def
      add_child_def remove_child_from_all_parents_def split: option.split)

lemma view_state:
  assumes "map fst (ds_active_sessions s) = map fst (dm_active d)"
    and "map fst (ds_session_metadata s) = map fst (dm_metadata d)"
  shows "view (d\<lparr>dm_state := s\<rparr>) = view d"
  using dom_map_of_cong [OF assms(1)] dom_map_of_cong [OF assms(2)] by (simp add: view_def)

lemma view_broadcast [simp]: "view (dm_broadcast inner d) = view d"
  unfolding dm_broadcast_def by (rule view_state) simp_all

lemma view_prefetch [simp]: "view (maybe_spawn_model_prefetch env account d) = view d"
  by (simp add: view_def maybe_spawn_model_prefetch_def Let_def split: option.split)

lemma view_prefetch_for [simp]: "view (prefetch_for env account d) = view d"
  by (simp add: prefetch_for_def split: option.split)

subsection \<open>Operations that change it\<close>

lemma view_set_active: "view (set_active m d) = (view d)\<lparr>vw_live := dom (map_of m)\<rparr>"
  by (simp add: view_def set_active_def)

lemma view_set_metadata: "view (set_metadata m d) = (view d)\<lparr>vw_listed := dom (map_of m)\<rparr>"
  by (simp add: view_def set_metadata_def)

lemma dom_hm_insert [simp]: "dom (map_of (hm_insert k v m)) = insert k (dom (map_of m))"
  by (auto simp: map_of_hm_insert dom_def)

lemma dom_hm_remove [simp]: "dom (map_of (hm_remove k m)) = dom (map_of m) - {k}"
  by (auto simp: map_of_hm_remove dom_def)

lemma dom_btm_insert [simp]: "dom (map_of (btm_insert k v m)) = insert k (dom (map_of m))"
  by (auto simp: map_of_btm_insert dom_def)

lemma dom_btm_remove [simp]: "dom (map_of (btm_remove k m)) = dom (map_of m) - {k}"
  by (auto simp: map_of_btm_remove dom_def)

lemma view_spawn:
  "view (spawn_session env sid r m d) =
     (view d)\<lparr>vw_live := insert sid (vw_live (view d)), vw_listed := insert sid (vw_listed (view d))\<rparr>"
  by (simp add: spawn_session_def Let_def view_set_active view_set_metadata) (simp add: view_def set_active_def)

lemma db_ids:
  "delete_session f sid db = Inr db' \<Longrightarrow>
     stored_ids db' = stored_ids db - {sid} \<and> tomb_ids db' = tomb_ids db"
  "mark_session_deleted f sid db = Inr db' \<Longrightarrow>
     stored_ids db' = stored_ids db \<and> tomb_ids db' = insert sid (tomb_ids db)"
  "clear_session_tombstone f sid db = Inr db' \<Longrightarrow>
     stored_ids db' = stored_ids db \<and> tomb_ids db' = tomb_ids db - {sid}"
  by (clarsimp simp: delete_session_def mark_session_deleted_def clear_session_tombstone_def stored_ids_def
      tomb_ids_def split: option.splits)+

lemma write_session_ids:
  "write_session f sid r table = Inr table' \<Longrightarrow> dom (map_of table') = insert sid (dom (map_of table))"
  by (clarsimp simp: write_session_def Let_def split: option.splits)

lemma db_write_session_ids:
  "db_write_session f sid r db = Inr db' \<Longrightarrow>
     stored_ids db' = insert sid (stored_ids db) \<and> tomb_ids db' = tomb_ids db"
  by (cases "write_session f sid r (tb_sessions db)")
     (clarsimp simp: db_write_session_def stored_ids_def tomb_ids_def write_session_ids)+

lemma update_session_flags_ids:
  "update_session_flags f sid p a table = Inr table' \<Longrightarrow> dom (map_of table') = dom (map_of table)"
  by (clarsimp simp: update_session_flags_def insert_absorb [OF domI] split: option.splits)

lemma view_store_new: "\<exists>stored \<in> {vw_stored (view d), insert sid (vw_stored (view d))}.
    view (store_new_record env sid r d) = (view d)\<lparr>vw_stored := stored\<rparr>"
proof (cases "db_write_session (de_db_fault env (dm_tick d)) sid r (dm_db d)")
  case (Inr db)
  then have "view (store_new_record env sid r d) = (view d)\<lparr>vw_stored := insert sid (vw_stored (view d))\<rparr>"
    using db_write_session_ids [OF Inr] by (simp add: store_new_record_def) (simp add: view_def)
  then show ?thesis by blast
qed (simp add: store_new_record_def)

lemma view_create:
  "\<exists>stored \<in> {vw_stored (view d), insert (vw_next (view d)) (vw_stored (view d))}.
     view (handle_create_session env p ch d) =
       (view d)\<lparr>vw_live := insert (vw_next (view d)) (vw_live (view d)),
         vw_listed := insert (vw_next (view d)) (vw_listed (view d)),
         vw_stored := stored, vw_next := vw_next (view d) + 1\<rparr>"
proof -
  let ?n = "dm_next_session_id d" and ?d = "d\<lparr>dm_next_session_id := dm_next_session_id d + 1\<rparr>"
  have n: "vw_next (view d) = ?n" "view ?d = (view d)\<lparr>vw_next := ?n + 1\<rparr>" by (simp_all add: view_def)
  let ?r = "new_record env (de_now_ms env (dm_tick ?d)) p"
  obtain stored where stored: "stored \<in> {vw_stored (view ?d), insert ?n (vw_stored (view ?d))}"
    "view (store_new_record env ?n ?r ?d) = (view ?d)\<lparr>vw_stored := stored\<rparr>"
    by (rule bexE [OF view_store_new [of ?d ?n env ?r]])
  have "view (handle_create_session env p ch d) =
      (view ?d)\<lparr>vw_stored := stored, vw_live := insert ?n (vw_live (view ?d)),
        vw_listed := insert ?n (vw_listed (view ?d))\<rparr>"
    unfolding handle_create_session_def Let_def
    by (simp only: view_broadcast view_quiet view_prefetch_for view_spawn stored(2)) simp
  then show ?thesis using stored(1) unfolding n by (intro bexI [of _ stored]) simp_all
qed

lemma view_ensure:
  "view (snd (ensure_active_session env sid d)) = view d \<or>
   sid \<notin> vw_marked (view d) \<and> sid \<notin> vw_live (view d) \<and> sid \<in> vw_stored (view d) \<and>
   view (snd (ensure_active_session env sid d)) =
     (view d)\<lparr>vw_live := insert sid (vw_live (view d)), vw_listed := insert sid (vw_listed (view d))\<rparr>"
proof (cases "sid \<in> set (dm_deleted_sessions d)")
  case False
  show ?thesis
  proof (cases "map_of (dm_active d) sid")
    case None
    show ?thesis
    proof (cases "read_session (de_db_fault env (dm_tick d)) sid (dm_db d)")
      case (Inr r)
      show ?thesis
      proof (cases r)
        case (Some row)
        then have "sid \<in> stored_ids (dm_db d)"
          using Inr by (auto simp: read_session_def stored_ids_def split: option.splits)
        moreover have "snd (ensure_active_session env sid d) = spawn_session env sid row
            ((SessionMetadata_from_record row)\<lparr>meta_status := SS_Inactive\<rparr>) (dm_advance d)"
          by (simp add: ensure_active_session_def False None Inr Some)
        moreover have "vw_marked (view d) = set (dm_deleted_sessions d)"
          "vw_live (view d) = dom (map_of (dm_active d))" "vw_stored (view d) = stored_ids (dm_db d)"
          by (simp_all add: view_def)
        ultimately show ?thesis using False None by (intro disjI2) (simp add: view_spawn domIff)
      qed (simp add: ensure_active_session_def False None Inr)
    qed (simp add: ensure_active_session_def False None)
  qed (simp add: ensure_active_session_def False)
qed (simp add: ensure_active_session_def)

lemma view_attach: "view (handle_attach_session env sid ch d) = view (snd (ensure_active_session env sid d))"
  by (simp add: handle_attach_session_def Let_def split: prod.split sum.split)

lemma view_get_state: "view (handle_get_session_state env sid ch d) = view (snd (ensure_active_session env sid d))"
  by (simp add: handle_get_session_state_def split: prod.split sum.split)

lemma view_flags [simp]: "view (handle_set_session_flags env sid p a ch d) = view d"
proof -
  have "view (dm_advance (d\<lparr>dm_db := (dm_db d)\<lparr>tb_sessions := table\<rparr>\<rparr>)) = view d"
    if "update_session_flags f sid p' a' (tb_sessions (dm_db d)) = Inr table" for f p' a' table
    using update_session_flags_ids [OF that] by (simp add: view_def stored_ids_def tomb_ids_def)
  moreover have "(view d')\<lparr>vw_listed := dom (map_of (dm_metadata d'))\<rparr> = view d'" for d'
    by (simp add: view_def)
  ultimately show ?thesis
    by (simp add: handle_set_session_flags_def Let_def view_set_metadata split: option.split sum.split)
qed

lemma view_update_metadata:
  "view (handle_update_metadata env sid m d) =
     (if sid \<in> vw_marked (view d) then view d else (view d)\<lparr>vw_listed := insert sid (vw_listed (view d))\<rparr>)"
  by (simp add: handle_update_metadata_def Let_def view_set_metadata) (simp add: view_def)

lemma view_cancel_children [simp]: "view (cancel_children_of sid d) = view d"
proof -
  have "view (fold (\<lambda>c d. if map_of (dm_active d) c \<noteq> None
      then force_close_session_sockets c (forward c (SC_Cancel CANCEL_ALL) d) else d) cs d) = view d" for cs d
    by (induction cs arbitrary: d) simp_all
  then show ?thesis by (simp add: cancel_children_of_def split: option.split)
qed

lemma view_cancel_request [simp]: "view (handle_cancel_request sid stream d) = view d"
  by (simp add: handle_cancel_request_def Let_def)

lemma view_exited:
  "view (handle_session_exited sid d) =
     (view d)\<lparr>vw_live := vw_live (view d) - {sid},
       vw_final := vw_final (view d) @ (if sid \<in> vw_marked (view d) then [sid] else [])\<rparr>"
proof -
  have fold_view: "view (fold (\<lambda>c d. cancel_and_shutdown_child c (remove_child_from_all_parents c d)) cs d) = view d" for cs d
    by (induction cs arbitrary: d) (simp_all add: cancel_and_shutdown_child_def)
  let ?d0 = "d\<lparr>dm_session_registries := hs_remove sid (dm_session_registries d)\<rparr>"
  let ?d1 = "set_active (hm_remove sid (dm_active ?d0)) ?d0"
  define d2 where "d2 = (case map_of (dm_children ?d1) sid of
                 None \<Rightarrow> ?d1
               | Some children \<Rightarrow>
                   fold (\<lambda>child_id d. cancel_and_shutdown_child child_id (remove_child_from_all_parents child_id d))
                     children (?d1\<lparr>dm_children := hm_remove sid (dm_children ?d1)\<rparr>))"
  have v2: "view d2 = (view d)\<lparr>vw_live := vw_live (view d) - {sid}\<rparr>"
    by (simp add: d2_def fold_view view_set_active split: option.split) (simp add: view_def)
  define d3 where "d3 = set_metadata (btm_update sid (\<lambda>meta. meta\<lparr>meta_status := SS_Sleeping\<rparr>) (dm_metadata d2)) d2"
  have v3: "view d3 = view d2" by (simp add: d3_def view_set_metadata) (simp add: view_def)
  define d4 where "d4 = (if map_of (dm_metadata d3) sid \<noteq> None
               then dm_broadcast (DM_Session (Some sid) (SE_SessionStatusChanged SS_Sleeping
                 (case map_of (dm_metadata d3) sid of Some meta \<Rightarrow> meta_last_modified meta | None \<Rightarrow> 0))) d3
               else d3)"
  have v4: "view d4 = view d2" by (simp add: d4_def v3)
  have "handle_session_exited sid d = (if sid \<in> set (dm_deleted_sessions d4)
      then d4\<lparr>dm_finalizers := dm_finalizers d4 @ [sid]\<rparr> else d4)"
    unfolding handle_session_exited_def d4_def d3_def d2_def Let_def by (rule refl)
  moreover have "set (dm_deleted_sessions d4) = vw_marked (view d4)" "dm_finalizers d4 = vw_final (view d4)"
    by (simp_all add: view_def)
  moreover have "view (d4\<lparr>dm_finalizers := f\<rparr>) = (view d4)\<lparr>vw_final := f\<rparr>" for f by (simp add: view_def)
  ultimately show ?thesis by (simp add: v4 v2)
qed

lemma view_finalized:
  "view (handle_session_delete_finalized sid d) = (view d)\<lparr>vw_marked := vw_marked (view d) - {sid}\<rparr>"
  by (simp add: handle_session_delete_finalized_def view_def)

lemma view_forget [simp]:
  "view (forget_session sid d) = (view d)\<lparr>vw_listed := vw_listed (view d) - {sid}\<rparr>"
  by (simp add: forget_session_def view_set_metadata) (simp add: view_def)

subsection \<open>Deleting\<close>

text \<open>
  What deleting one session does to the view, by the state of its thread; \<open>ok\<close> says
  that no transaction of the command loop fails.
\<close>

inductive deletes :: "bool \<Rightarrow> bool \<Rightarrow> u64 \<Rightarrow> view \<Rightarrow> io_error + unit \<Rightarrow> view \<Rightarrow> bool"
  for ok fin sid v where
  finished_failed: "sid \<in> vw_live v \<Longrightarrow> fin \<Longrightarrow> \<not> ok \<Longrightarrow>
    deletes ok fin sid v (Inl e)
      (v\<lparr>vw_live := vw_live v - {sid}, vw_marked := insert sid (vw_marked v)\<rparr>)"
| finished_deleted: "sid \<in> vw_live v \<Longrightarrow> fin \<Longrightarrow> tombs \<in> {vw_tombs v, vw_tombs v - {sid}} \<Longrightarrow>
    deletes ok fin sid v (Inr ())
      (v\<lparr>vw_live := vw_live v - {sid}, vw_marked := insert sid (vw_marked v),
         vw_stored := vw_stored v - {sid}, vw_tombs := tombs, vw_listed := vw_listed v - {sid}\<rparr>)"
| running: "sid \<in> vw_live v \<Longrightarrow> \<not> fin \<Longrightarrow> tombs \<in> {vw_tombs v, insert sid (vw_tombs v)} \<Longrightarrow>
    (ok \<Longrightarrow> sid \<in> tombs) \<Longrightarrow>
    deletes ok fin sid v (Inr ())
      (v\<lparr>vw_live := vw_live v - {sid}, vw_marked := insert sid (vw_marked v),
         vw_tombs := tombs, vw_listed := vw_listed v - {sid}\<rparr>)"
| asleep_failed: "sid \<notin> vw_live v \<Longrightarrow> \<not> ok \<Longrightarrow> deletes ok fin sid v (Inl e) v"
| asleep: "sid \<notin> vw_live v \<Longrightarrow> tombs \<in> {vw_tombs v, vw_tombs v - {sid}} \<Longrightarrow>
    (sid \<in> vw_marked v \<Longrightarrow> tombs = vw_tombs v) \<Longrightarrow>
    deletes ok fin sid v (Inr ())
      (v\<lparr>vw_stored := vw_stored v - {sid}, vw_tombs := tombs, vw_listed := vw_listed v - {sid}\<rparr>)"

lemma view_clear_stale:
  "\<exists>tombs \<in> {vw_tombs (view d), vw_tombs (view d) - {sid}}.
     view (clear_stale_session_tombstone env sid d) = (view d)\<lparr>vw_tombs := tombs\<rparr>"
proof (cases "clear_session_tombstone (de_db_fault env (dm_tick d)) sid (dm_db d)")
  case (Inr db)
  then have "view (clear_stale_session_tombstone env sid d) = (view d)\<lparr>vw_tombs := vw_tombs (view d) - {sid}\<rparr>"
    using db_ids(3) [OF Inr] by (simp add: clear_stale_session_tombstone_def) (simp add: view_def)
  then show ?thesis by blast
qed (simp add: clear_stale_session_tombstone_def)

lemma view_db: "view (d\<lparr>dm_db := db\<rparr>) = (view d)\<lparr>vw_stored := stored_ids db, vw_tombs := tomb_ids db\<rparr>"
  by (simp add: view_def)

lemma view_mark: "view (d\<lparr>dm_deleted_sessions := hs_insert sid (dm_deleted_sessions d)\<rparr>) =
    (view d)\<lparr>vw_marked := insert sid (vw_marked (view d))\<rparr>"
  by (simp add: view_def)

lemma view_fields:
  "vw_live (view d) = dom (map_of (dm_active d))" "vw_marked (view d) = set (dm_deleted_sessions d)"
  "vw_stored (view d) = stored_ids (dm_db d)" "vw_tombs (view d) = tomb_ids (dm_db d)"
  by (simp_all add: view_def)

lemma dm_marked_simps [simp]:
  "dm_db (set_active m d) = dm_db d" "dm_tick (set_active m d) = dm_tick d"
  "dm_deleted_sessions (set_active m d) = dm_deleted_sessions d"
  by (simp_all add: set_active_def)

lemma delete_session_ok: "delete_session f sid db = Inl e \<Longrightarrow> f = Some e"
  by (cases f) (simp_all add: delete_session_def)

lemma mark_session_ok: "mark_session_deleted f sid db = Inl e \<Longrightarrow> f = Some e"
  by (cases f) (simp_all add: mark_session_deleted_def)

abbreviation no_fault :: "DaemonEnv \<Rightarrow> bool" where
  "no_fault env \<equiv> \<forall>k. de_db_fault env k = None"

lemma delete_inner_finished:
  assumes "sid \<in> vw_live (view d)" and "finished sid"
  shows "deletes (no_fault env) (finished sid) sid (view d)
    (fst (delete_session_inner env finished sid d)) (view (snd (delete_session_inner env finished sid d)))"
proof -
  obtain entry where entry: "map_of (dm_active d) sid = Some entry" using assms(1) by (auto simp: view_fields)
  let ?d2 = "(set_active (hm_remove sid (dm_active d)) d)\<lparr>dm_deleted_sessions := hs_insert sid (dm_deleted_sessions d)\<rparr>"
  have v2: "view ?d2 = (view d)\<lparr>vw_live := vw_live (view d) - {sid}, vw_marked := insert sid (vw_marked (view d))\<rparr>"
    by (simp add: view_def set_active_def)
  show ?thesis
  proof (cases "delete_session (de_db_fault env (dm_tick d)) sid (dm_db d)")
    case (Inl e)
    then have run: "delete_session_inner env finished sid d = (Inl e, dm_advance ?d2)"
      using entry assms(2) by (simp add: delete_session_inner_def delete_finished_session_def Let_def)
    have "\<not> no_fault env" using delete_session_ok [OF Inl] by auto
    then show ?thesis using finished_failed [OF assms] by (simp only: run fst_conv snd_conv view_quiet v2)
  next
    case (Inr db)
    let ?d3 = "dm_advance (?d2\<lparr>dm_db := db\<rparr>)"
    have v3: "view ?d3 = (view ?d2)\<lparr>vw_stored := vw_stored (view d) - {sid}\<rparr>"
      using db_ids(1) [OF Inr] by (simp add: view_db view_fields)
    have t3: "vw_tombs (view ?d3) = vw_tombs (view d)" by (simp only: v3 v2) simp
    obtain tombs where tombs: "tombs \<in> {vw_tombs (view d), vw_tombs (view d) - {sid}}"
        "view (clear_stale_session_tombstone env sid ?d3) = (view ?d3)\<lparr>vw_tombs := tombs\<rparr>"
      using view_clear_stale [of ?d3 sid env] unfolding t3 by (elim bexE)
    have run: "delete_session_inner env finished sid d =
        (Inr (), forget_session sid (clear_stale_session_tombstone env sid ?d3))"
      using entry assms(2) Inr by (simp add: delete_session_inner_def delete_finished_session_def Let_def)
    have "view (forget_session sid (clear_stale_session_tombstone env sid ?d3)) =
        (view d)\<lparr>vw_live := vw_live (view d) - {sid}, vw_marked := insert sid (vw_marked (view d)),
         vw_stored := vw_stored (view d) - {sid}, vw_tombs := tombs, vw_listed := vw_listed (view d) - {sid}\<rparr>"
      unfolding view_forget tombs(2) v3 v2 by simp
    then show ?thesis using finished_deleted [OF assms tombs(1)] by (simp only: run fst_conv snd_conv)
  qed
qed

lemma delete_inner_running:
  assumes "sid \<in> vw_live (view d)" and "\<not> finished sid"
  shows "deletes (no_fault env) (finished sid) sid (view d)
    (fst (delete_session_inner env finished sid d)) (view (snd (delete_session_inner env finished sid d)))"
proof -
  obtain entry where entry: "map_of (dm_active d) sid = Some entry" using assms(1) by (auto simp: view_fields)
  let ?d2 = "(set_active (hm_remove sid (dm_active d)) d)\<lparr>dm_deleted_sessions := hs_insert sid (dm_deleted_sessions d)\<rparr>"
  let ?sent = "[(sid, cmd_send SC_Shutdown (cmd_send (SC_Cancel CANCEL_ALL) entry))]"
  have v2: "view ?d2 = (view d)\<lparr>vw_live := vw_live (view d) - {sid}, vw_marked := insert sid (vw_marked (view d))\<rparr>"
    by (simp add: view_def set_active_def)
  show ?thesis
  proof (cases "mark_session_deleted (de_db_fault env (dm_tick d)) sid (dm_db d)")
    case (Inl e)
    let ?d3 = "dm_advance ?d2"
    have "delete_session_inner env finished sid d =
        (Inr (), forget_session sid (?d3\<lparr>dm_detached := dm_detached ?d3 @ ?sent\<rparr>))"
      using entry assms(2) Inl by (simp add: delete_session_inner_def Let_def)
    moreover have "view (forget_session sid (?d3\<lparr>dm_detached := dm_detached ?d3 @ ?sent\<rparr>)) =
        (view d)\<lparr>vw_live := vw_live (view d) - {sid}, vw_marked := insert sid (vw_marked (view d)),
          vw_tombs := vw_tombs (view d), vw_listed := vw_listed (view d) - {sid}\<rparr>"
      unfolding view_forget view_quiet v2 by simp
    moreover have "\<not> no_fault env" using mark_session_ok [OF Inl] by auto
    then have "deletes (no_fault env) (finished sid) sid (view d) (Inr ())
        ((view d)\<lparr>vw_live := vw_live (view d) - {sid}, vw_marked := insert sid (vw_marked (view d)),
          vw_tombs := vw_tombs (view d), vw_listed := vw_listed (view d) - {sid}\<rparr>)"
      by (intro running [OF assms]) blast+
    ultimately show ?thesis by (simp only: fst_conv snd_conv)
  next
    case (Inr db)
    let ?d3 = "dm_advance (?d2\<lparr>dm_db := db\<rparr>)"
    have "delete_session_inner env finished sid d =
        (Inr (), forget_session sid (?d3\<lparr>dm_detached := dm_detached ?d3 @ ?sent\<rparr>))"
      using entry assms(2) Inr by (simp add: delete_session_inner_def Let_def)
    moreover have "view (forget_session sid (?d3\<lparr>dm_detached := dm_detached ?d3 @ ?sent\<rparr>)) =
        (view d)\<lparr>vw_live := vw_live (view d) - {sid}, vw_marked := insert sid (vw_marked (view d)),
          vw_tombs := insert sid (vw_tombs (view d)), vw_listed := vw_listed (view d) - {sid}\<rparr>"
      using db_ids(2) [OF Inr] unfolding view_forget view_quiet view_db v2 by (simp add: view_fields)
    ultimately show ?thesis using running [OF assms, of "insert sid (vw_tombs (view d))"] by simp
  qed
qed

lemma delete_inner_asleep:
  assumes "sid \<notin> vw_live (view d)"
  shows "deletes (no_fault env) (finished sid) sid (view d)
    (fst (delete_session_inner env finished sid d)) (view (snd (delete_session_inner env finished sid d)))"
proof -
  have none: "map_of (dm_active d) sid = None" using assms by (auto simp: view_fields)
  show ?thesis
  proof (cases "delete_session (de_db_fault env (dm_tick d)) sid (dm_db d)")
    case (Inl e)
    then have run: "delete_session_inner env finished sid d = (Inl e, dm_advance d)"
      by (simp add: delete_session_inner_def none)
    have "\<not> no_fault env" using delete_session_ok [OF Inl] by auto
    then show ?thesis using asleep_failed [OF assms] by (simp only: run fst_conv snd_conv view_quiet)
  next
    case (Inr db)
    let ?d1 = "dm_advance (d\<lparr>dm_db := db\<rparr>)"
    have v1: "view ?d1 = (view d)\<lparr>vw_stored := vw_stored (view d) - {sid}\<rparr>"
      using db_ids(1) [OF Inr] by (simp add: view_db view_fields)
    have t1: "vw_tombs (view ?d1) = vw_tombs (view d)" by (simp only: v1) simp
    have m1: "set (dm_deleted_sessions d) = vw_marked (view d)" by (simp add: view_fields)
    show ?thesis
    proof (cases "sid \<in> vw_marked (view d)")
      case True
      then have run: "delete_session_inner env finished sid d = (Inr (), forget_session sid ?d1)"
        using Inr m1 by (simp add: delete_session_inner_def none Let_def)
      have "view (forget_session sid ?d1) = (view d)\<lparr>vw_stored := vw_stored (view d) - {sid},
          vw_tombs := vw_tombs (view d), vw_listed := vw_listed (view d) - {sid}\<rparr>"
        unfolding view_forget v1 by simp
      then show ?thesis using asleep [OF assms, of "vw_tombs (view d)"] by (simp add: run)
    next
      case False
      then have run: "delete_session_inner env finished sid d =
          (Inr (), forget_session sid (clear_stale_session_tombstone env sid ?d1))"
        using Inr m1 by (simp add: delete_session_inner_def none Let_def)
      obtain tombs where tombs: "tombs \<in> {vw_tombs (view d), vw_tombs (view d) - {sid}}"
          "view (clear_stale_session_tombstone env sid ?d1) = (view ?d1)\<lparr>vw_tombs := tombs\<rparr>"
        using view_clear_stale [of ?d1 sid env] unfolding t1 by (elim bexE)
      have "view (forget_session sid (clear_stale_session_tombstone env sid ?d1)) =
          (view d)\<lparr>vw_stored := vw_stored (view d) - {sid}, vw_tombs := tombs,
            vw_listed := vw_listed (view d) - {sid}\<rparr>"
        unfolding view_forget tombs(2) v1 by simp
      then show ?thesis using asleep [OF assms tombs(1)] False by (simp only: run fst_conv snd_conv simp_thms)
    qed
  qed
qed

lemma delete_inner_view:
  "deletes (no_fault env) (finished sid) sid (view d)
     (fst (delete_session_inner env finished sid d)) (view (snd (delete_session_inner env finished sid d)))"
proof (cases "sid \<in> vw_live (view d)")
  case True
  show ?thesis
  proof (cases "finished sid")
    case fin: True
    show ?thesis using delete_inner_finished [of sid d finished env] True fin by blast
  next
    case fin: False
    show ?thesis using delete_inner_running [of sid d finished env] True fin by blast
  qed
next
  case False
  show ?thesis by (rule delete_inner_asleep [OF False])
qed

end
