(* ===== verification/Daemon_Open.thy ===== *)
theory Daemon_Open
  imports Session_Lifecycle Lag_Accounting
begin

text \<open>
  Starting the daemon on a database (\<open>src/choreo-daemon/src/daemon/open.rs\<close>): the
  purge of what interrupted deletions left, the load of the session index and the
  state the command loop starts with. The database is the one after migration; the
  accounts and whether a keystore is bound are arguments. Faults of the purge's
  transactions are counted from 0, the read of the index has its own.
\<close>

section \<open>Start-up\<close>

definition purged_database :: "(nat \<Rightarrow> io_error option) \<Rightarrow> Database \<Rightarrow> Database" where
  "purged_database faults db = (case purge_tombstoned_sessions faults db of
     Inr (n, db) \<Rightarrow> db | Inl e \<Rightarrow> db)"

definition load_session_metadata :: "io_error option \<Rightarrow> Database \<Rightarrow> (u64 \<times> SessionMetadata) list" where
  "load_session_metadata fault db = (case read_all_sessions fault db of
     Inr sessions \<Rightarrow> fold (\<lambda>(sid, record). hm_insert sid (SessionMetadata_from_record record)) sessions []
   | Inl e \<Rightarrow> [])"

definition first_session_id :: "(u64 \<times> SessionMetadata) list \<Rightarrow> u64" where
  "first_session_id metadata = (if metadata = [] then 1 else Max (set (map fst metadata)) + 1)"

definition DaemonState_open ::
  "(nat \<Rightarrow> io_error option) \<Rightarrow> io_error option \<Rightarrow> (string \<times> AccountConfig) list \<Rightarrow> bool \<Rightarrow> Database \<Rightarrow> Daemon" where
  "DaemonState_open faults read_fault accounts keystore_bound db =
     (let db = purged_database faults db;
          session_metadata = load_session_metadata read_fault db
      in \<lparr>dm_state = \<lparr>ds_clients = [], ds_active_sessions = [], ds_session_metadata = session_metadata,
            ds_lag_limits = LagLimits_default, ds_locked = True, ds_keystore_bound = keystore_bound,
            ds_hub = empty_hub\<rparr>,
          dm_next_session_id = first_session_id session_metadata, dm_deleted_sessions = [], dm_children = [],
          dm_accounts = accounts, dm_credentials = [], dm_session_registries = [], dm_db = db,
          dm_model_cache = [], dm_model_prefetch_in_flight = [], dm_fetches = [], dm_finalizers = [],
          dm_closed_sockets = [], dm_detached = [], dm_replies = [], dm_tick = 0\<rparr>)"

section \<open>What is there after the start\<close>

lemma delete_session_rows:
  "delete_session f sid db = Inr db' \<Longrightarrow> tb_sessions db' = btm_remove sid (tb_sessions db)"
  by (cases f) (auto simp: delete_session_def)

lemma clear_tombstone_rows:
  "clear_session_tombstone f sid db = Inr db' \<Longrightarrow> tb_sessions db' = tb_sessions db"
  by (cases f) (auto simp: clear_session_tombstone_def)

lemma purge_loop_rows:
  "set (tb_sessions (snd (purge_loop faults n ids k db))) \<subseteq> set (tb_sessions db)"
proof (induction faults n ids k db rule: purge_loop.induct)
  case (2 faults n sid ids k db)
  show ?case
  proof (cases "delete_session (faults n) sid db")
    case (Inl e)
    then show ?thesis using 2(1) by simp
  next
    case (Inr db1)
    have sub: "set (tb_sessions db1) \<subseteq> set (tb_sessions db)"
      unfolding delete_session_rows [OF Inr] btm_remove_def by auto
    show ?thesis
    proof (cases "clear_session_tombstone (faults (Suc n)) sid db1")
      case (Inl e)
      then show ?thesis using 2(2) [OF Inr] Inr sub by auto
    next
      case (Inr db2)
      then show ?thesis
        using 2(3) [OF \<open>delete_session (faults n) sid db = Inr db1\<close> Inr]
          \<open>delete_session (faults n) sid db = Inr db1\<close> sub clear_tombstone_rows [OF Inr] by auto
    qed
  qed
qed simp

lemma purge_loop_ids:
  assumes "\<And>k. faults k = None"
  shows "stored_ids (snd (purge_loop faults n ids k db)) = stored_ids db - set ids"
  using assms
proof (induction ids arbitrary: n k db)
  case (Cons sid ids)
  obtain db1 where d: "delete_session None sid db = Inr db1" by (simp add: delete_session_def)
  obtain db2 where c: "clear_session_tombstone None sid db1 = Inr db2" by (simp add: clear_session_tombstone_def)
  show ?case
    using Cons db_ids(1) [OF d] db_ids(3) [OF c] by (auto simp: d c)
qed simp

lemma purged_rows: "set (tb_sessions (purged_database faults db)) \<subseteq> set (tb_sessions db)"
  using purge_loop_rows [of faults 1 "map fst (tb_deleted db)" 0 db]
  by (auto simp: purged_database_def purge_tombstoned_sessions_def split: option.split prod.split)

lemma purged_ids:
  "(\<And>k. faults k = None) \<Longrightarrow> stored_ids (purged_database faults db) = stored_ids db - tomb_ids db"
  using purge_loop_ids [of faults 1 "map fst (tb_deleted db)" 0 db]
  by (auto simp: purged_database_def purge_tombstoned_sessions_def tomb_ids_def dom_map_of_conv_image_fst
      split: option.split prod.split)

lemma fold_hm_insert_keys: "fst ` set (fold (\<lambda>(k, r). hm_insert k (f r)) rows m) = fst ` set rows \<union> fst ` set m"
  by (induction rows arbitrary: m) (simp_all add: hm_insert_keys case_prod_beta)

lemma loaded_keys:
  "fst ` set (load_session_metadata None db) = fst ` set (decodable (tb_sessions db))"
  by (simp add: load_session_metadata_def read_all_sessions_def fold_hm_insert_keys)

text \<open>All session rows decode, and none has the last id there is.\<close>

definition readable :: "Database \<Rightarrow> bool" where
  "readable db \<longleftrightarrow> list_all (\<lambda>(sid, row). row \<noteq> None \<and> sid < - 1) (tb_sessions db)"

lemma decodable_all: "list_all (\<lambda>(k, row). row \<noteq> None) rows \<Longrightarrow> fst ` set (decodable rows) = fst ` set rows"
  by (induction rows rule: decodable.induct) auto

lemma decodable_subset: "fst ` set (decodable rows) \<subseteq> fst ` set rows"
  by (induction rows rule: decodable.induct) auto

lemma readable_subset: "readable db \<Longrightarrow> set (tb_sessions db') \<subseteq> set (tb_sessions db) \<Longrightarrow> readable db'"
  by (auto simp: readable_def list_all_iff)

lemma succ_above:
  assumes "x \<le> m" and "m < - (1 :: u64)"
  shows "x < m + 1"
proof -
  have "1 + m \<noteq> 0" using assms(2) by (metis add_eq_0_iff order_less_irrefl)
  then have "unat (1 + m) = Suc (unat m)" by (rule unatSuc)
  then have "unat (m + 1) = Suc (unat m)" by (simp only: add.commute)
  then show ?thesis using assms(1) by (simp add: word_less_nat_alt word_le_nat_alt)
qed

lemma first_session_id_above:
  assumes "sid \<in> fst ` set metadata" and "\<And>k. k \<in> fst ` set metadata \<Longrightarrow> k < - 1"
  shows "sid < first_session_id metadata"
proof -
  have "Max (fst ` set metadata) \<in> fst ` set metadata" using assms(1) by (intro Max_in) auto
  then have "Max (fst ` set metadata) < - 1" using assms(2) by blast
  moreover have "sid \<le> Max (fst ` set metadata)" using assms(1) by simp
  ultimately have "sid < Max (fst ` set metadata) + 1" using succ_above by blast
  then show ?thesis using assms(1) by (auto simp: first_session_id_def)
qed

lemma open_view:
  fixes faults :: "nat \<Rightarrow> io_error option" and accounts :: "(string \<times> AccountConfig) list" and bound :: bool
  assumes "readable db"
  defines "d \<equiv> DaemonState_open faults None accounts bound db"
  shows "vw_live (view d) = {}" "vw_marked (view d) = {}" "vw_final (view d) = []"
    "vw_listed (view d) = vw_stored (view d)" "sid \<in> vw_stored (view d) \<Longrightarrow> sid < vw_next (view d)"
    "(\<And>k. faults k = None) \<Longrightarrow> vw_stored (view d) = stored_ids db - tomb_ids db"
proof -
  let ?db = "purged_database faults db"
  have ok: "readable ?db" by (rule readable_subset [OF assms(1) purged_rows])
  have keys: "fst ` set (load_session_metadata None ?db) = fst ` set (tb_sessions ?db)"
    unfolding loaded_keys using ok by (intro decodable_all) (auto simp: readable_def list_all_iff)
  have small: "k < - 1" if "k \<in> fst ` set (tb_sessions ?db)" for k
    using ok that by (auto simp: readable_def list_all_iff)
  show "vw_live (view d) = {}" "vw_marked (view d) = {}" "vw_final (view d) = []"
    by (simp_all add: d_def DaemonState_open_def Let_def view_def)
  show "vw_listed (view d) = vw_stored (view d)"
    by (simp add: d_def DaemonState_open_def Let_def view_def stored_ids_def dom_map_of_conv_image_fst keys)
  show "sid < vw_next (view d)" if "sid \<in> vw_stored (view d)"
    using that first_session_id_above [of sid "load_session_metadata None ?db"] small
    by (simp add: d_def DaemonState_open_def Let_def view_def stored_ids_def dom_map_of_conv_image_fst keys)
  show "vw_stored (view d) = stored_ids db - tomb_ids db" if "\<And>k. faults k = None"
    using purged_ids [OF that] by (simp add: d_def DaemonState_open_def Let_def view_def)
qed

text \<open>What the later steps of a creation leave alone.\<close>

lemma create_keeps:
  "dm_db (spawn_session env sid r m d) = dm_db d" "dm_replies (spawn_session env sid r m d) = dm_replies d"
  "dm_db (prefetch_for env account d) = dm_db d" "dm_replies (prefetch_for env account d) = dm_replies d"
  "dm_db (add_child parent sid d) = dm_db d" "dm_replies (add_child parent sid d) = dm_replies d"
  "dm_db (dm_broadcast inner d) = dm_db d" "dm_replies (dm_broadcast inner d) = dm_replies d"
  by (simp_all add: spawn_session_def forward_def set_active_def set_metadata_def prefetch_for_def Let_def
      maybe_spawn_model_prefetch_def add_child_def dm_broadcast_def dm_advance_def split: option.split)

section \<open>Properties\<close>

text \<open>
  C36. When the session index cannot be read at start-up the daemon goes on with an
  empty index and gives out ids from 1 again: the first session a client creates
  takes the place of the stored session 1, whose record is overwritten by that of
  the new session (its flags apart) and whose turns stay under the new record.
\<close>

theorem failed_index_load_reuses_ids:
  assumes old: "map_of (tb_sessions db) 1 = Some (Some old)" and tombs: "tb_deleted db = []"
    and commits: "de_db_fault env 0 = None"
  shows "let d = DaemonState_open (\<lambda>_. None) (Some e) accounts bound db;
      d' = handle_create_session env p ch d
    in dm_replies d' = [(ch, DR_Created (Inr 1))] \<and>
      map_of (tb_sessions (dm_db d')) 1 = Some (Some ((new_record env (de_now_ms env 0) p)
        \<lparr>rec_pinned := rec_pinned old, rec_archived_at := rec_archived_at old\<rparr>)) \<and>
      tb_turns (dm_db d') = tb_turns db"
proof -
  let ?d = "DaemonState_open (\<lambda>_. None) (Some e) accounts bound db"
  have d: "dm_next_session_id ?d = 1" "dm_tick ?d = 0" "dm_db ?d = db" "dm_replies ?d = []"
    using tombs by (simp_all add: DaemonState_open_def Let_def load_session_metadata_def read_all_sessions_def
        first_session_id_def purged_database_def purge_tombstoned_sessions_def)
  have "dm_replies (store_new_record env sid r d) = dm_replies d" for sid r d
    by (simp add: store_new_record_def dm_advance_def split: sum.split)
  then show ?thesis
    using old commits by (simp add: Let_def handle_create_session_def create_keeps dm_reply_def d store_new_record_def
        dm_advance_def db_write_session_def write_session_def map_of_btm_insert)
qed

theorem failed_index_load_reuses_ids_witness:
  "dm_replies (handle_create_session sample_env
     \<lparr>cp_title = Some ''new'', cp_parent_session_id = None, cp_working_dir = None, cp_reasoning_effort = None,
      cp_selected_model = None, cp_context_config = None, cp_account_name = None, cp_active_tool_groups = []\<rparr> 0
     (DaemonState_open (\<lambda>_. None) (Some (other_error ''io'')) [] False
        (empty_db\<lparr>tb_sessions := [(1, Some (new_record sample_env 5
           \<lparr>cp_title = Some ''old'', cp_parent_session_id = None, cp_working_dir = None, cp_reasoning_effort = None,
            cp_selected_model = None, cp_context_config = None, cp_account_name = None, cp_active_tool_groups = []\<rparr>))]\<rparr>)))
   = [(0, DR_Created (Inr 1))]"
  using failed_index_load_reuses_ids [where db = "empty_db\<lparr>tb_sessions := [(1, Some (new_record sample_env 5
           \<lparr>cp_title = Some ''old'', cp_parent_session_id = None, cp_working_dir = None, cp_reasoning_effort = None,
            cp_selected_model = None, cp_context_config = None, cp_account_name = None, cp_active_tool_groups = []\<rparr>))]\<rparr>"
      and env = sample_env and ch = 0 and e = "other_error ''io''"]
  by (simp add: Let_def sample_env_def empty_db_def)

end
