(* ===== verification/Session_Deletion.thy ===== *)
theory Session_Deletion
  imports Daemon_Open
begin

text \<open>
  The command loop, the session threads and the background deletes as one system.
  A client's command is handled at any moment; a session thread posts to the
  loop's queue, writes its own records and turns, and ends by writing its record a
  last time and posting that it has exited; a background delete runs once the exit
  of a deleted session was handled. The queue is first in, first out.

  The theory shows that a session whose deletion was reported to the client stays
  deleted however these interleave, and that a crash at any moment leaves either
  no record or a tombstone for the purge at the next start.
\<close>

section \<open>The system\<close>

datatype client_op =
    CO_Create CreateSessionParams reply_chan
  | CO_Attach u64 reply_chan
  | CO_GetState u64 reply_chan
  | CO_List reply_chan
  | CO_Get u64 reply_chan
  | CO_Flags u64 "bool option" "bool option" reply_chan
  | CO_Cancel u64 u64
  | CO_Title u64 string
  | CO_WorkingDir u64 string reply_chan
  | CO_Load u64 "string list" reply_chan
  | CO_Unload u64 "string list" reply_chan
  | CO_Delete u64 reply_chan

fun run_client_op :: "DaemonEnv \<Rightarrow> (u64 \<Rightarrow> bool) \<Rightarrow> client_op \<Rightarrow> Daemon \<Rightarrow> Daemon" where
  "run_client_op env fin (CO_Create p ch) = handle_create_session env p ch"
| "run_client_op env fin (CO_Attach sid ch) = handle_attach_session env sid ch"
| "run_client_op env fin (CO_GetState sid ch) = handle_get_session_state env sid ch"
| "run_client_op env fin (CO_List ch) = handle_list_sessions ch"
| "run_client_op env fin (CO_Get sid ch) = handle_get_session sid ch"
| "run_client_op env fin (CO_Flags sid p a ch) = handle_set_session_flags env sid p a ch"
| "run_client_op env fin (CO_Cancel sid stream) = handle_cancel_request sid stream"
| "run_client_op env fin (CO_Title sid title) = handle_set_session_title sid title"
| "run_client_op env fin (CO_WorkingDir sid path ch) = daemon_set_working_dir sid path ch"
| "run_client_op env fin (CO_Load sid groups ch) = daemon_load_tools sid groups ch"
| "run_client_op env fin (CO_Unload sid groups ch) = daemon_unload_tools sid groups ch"
| "run_client_op env fin (CO_Delete sid ch) = handle_delete_session env fin sid ch"

text \<open>What the loop does with a command from its queue.\<close>

fun run_queued :: "DaemonEnv \<Rightarrow> DaemonCommand \<Rightarrow> Daemon \<Rightarrow> Daemon" where
  "run_queued env (DC_UpdateMetadata sid m) d = handle_update_metadata env sid m d"
| "run_queued env (DC_SessionExited sid) d = handle_session_exited sid d"
| "run_queued env (DC_SessionDeleteFinalized sid) d = handle_session_delete_finalized sid d"
| "run_queued env (DC_BroadcastActivity origin msg) d =
     d\<lparr>dm_state := handle_broadcast_activity origin msg (dm_state d)\<rparr>"
| "run_queued env (DC_BroadcastSessionStatus sid status) d =
     d\<lparr>dm_state := handle_broadcast_session_status sid status (dm_state d)\<rparr>"
| "run_queued env (DC_EvictClient c) d = d\<lparr>dm_state := handle_evict_client c (dm_state d)\<rparr>"
| "run_queued env DC_EvictLargestLagging d = d\<lparr>dm_state := handle_evict_largest_lagging (dm_state d)\<rparr>"
| "run_queued env (DC_TrackSessionSubscription c sid) d =
     d\<lparr>dm_state := handle_track_session_subscription c sid (dm_state d)\<rparr>"
| "run_queued env (DC_UntrackSessionSubscription c sid) d =
     d\<lparr>dm_state := handle_untrack_session_subscription c sid (dm_state d)\<rparr>"
| "run_queued env (DC_McpEnsureSession sid force) d =
     forward sid (SC_SetMcpOverlay (de_plan_overlay env sid)) d"

record system =
  sy_daemon :: Daemon
  sy_queue :: "DaemonCommand list"
  sy_threads :: "u64 list"
  sy_reported :: "u64 list"

text \<open>
  The sessions an operation started a thread for, and the one whose deletion it
  reported. Deleting an id that was not given out yet succeeds too and is no deletion.
\<close>

definition spawned :: "Daemon \<Rightarrow> Daemon \<Rightarrow> u64 list" where
  "spawned d d' = filter (\<lambda>sid. map_of (dm_active d) sid = None) (map fst (dm_active d'))"

fun reported :: "client_op \<Rightarrow> Daemon \<Rightarrow> u64 list" where
  "reported (CO_Delete sid ch) d' = (if last (dm_replies d') = (ch, DR_Unit (Inr ())) \<and>
     sid < dm_next_session_id d' then [sid] else [])"
| "reported _ d' = []"

text \<open>The last thing a session thread stores, where the store lets it.\<close>

definition last_write :: "io_error option \<Rightarrow> u64 \<Rightarrow> SessionRecord \<Rightarrow> Database \<Rightarrow> Database" where
  "last_write f sid r db = (case db_write_session f sid r db of Inl _ \<Rightarrow> db | Inr db' \<Rightarrow> db')"

text \<open>What a session thread may post while it runs.\<close>

fun may_post :: "u64 \<Rightarrow> DaemonCommand \<Rightarrow> bool" where
  "may_post sid (DC_UpdateMetadata sid' _) = (sid' = sid)"
| "may_post sid (DC_SessionExited _) = False"
| "may_post sid (DC_SessionDeleteFinalized _) = False"
| "may_post sid _ = True"

inductive sys_step :: "DaemonEnv \<Rightarrow> system \<Rightarrow> system \<Rightarrow> bool" for env where
  client: "d' = run_client_op env fin op (sy_daemon S) \<Longrightarrow>
    (\<And>sid. fin sid \<Longrightarrow> sid \<notin> set (sy_threads S)) \<Longrightarrow>
    dm_next_session_id (sy_daemon S) < dm_next_session_id (sy_daemon S) + 1 \<Longrightarrow>
    sys_step env S (S\<lparr>sy_daemon := d', sy_threads := sy_threads S @ spawned (sy_daemon S) d',
      sy_reported := sy_reported S @ reported op d'\<rparr>)"
| queued: "sy_queue S = cmd # rest \<Longrightarrow>
    sys_step env S (S\<lparr>sy_daemon := run_queued env cmd (sy_daemon S), sy_queue := rest\<rparr>)"
| post: "sid \<in> set (sy_threads S) \<Longrightarrow> may_post sid cmd \<Longrightarrow>
    sys_step env S (S\<lparr>sy_queue := sy_queue S @ [cmd]\<rparr>)"
| store: "sid \<in> set (sy_threads S) \<Longrightarrow> db_write_session None sid r (dm_db (sy_daemon S)) = Inr db \<Longrightarrow>
    sys_step env S (S\<lparr>sy_daemon := (sy_daemon S)\<lparr>dm_db := db\<rparr>\<rparr>)"
| store_turn: "sid \<in> set (sy_threads S) \<Longrightarrow> write_turn None sid tid turn (dm_db (sy_daemon S)) = Inr db \<Longrightarrow>
    sys_step env S (S\<lparr>sy_daemon := (sy_daemon S)\<lparr>dm_db := db\<rparr>\<rparr>)"
| ended: "sid \<in> set (sy_threads S) \<Longrightarrow>
    sys_step env S (S\<lparr>sy_daemon := (sy_daemon S)\<lparr>dm_db := last_write f sid r (dm_db (sy_daemon S))\<rparr>,
      sy_queue := sy_queue S @ [DC_SessionExited sid],
      sy_threads := filter (\<lambda>t. t \<noteq> sid) (sy_threads S)\<rparr>)"
| finalize: "sid \<in> set (dm_finalizers (sy_daemon S)) \<Longrightarrow>
    finalize_session_delete f1 f2 sid (dm_db (sy_daemon S)) = (db, posts) \<Longrightarrow>
    sys_step env S (S\<lparr>sy_daemon := (sy_daemon S)\<lparr>dm_db := db,
        dm_finalizers := remove1 sid (dm_finalizers (sy_daemon S))\<rparr>,
      sy_queue := sy_queue S @ posts\<rparr>)"

section \<open>The invariant\<close>

text \<open>A session thread has neither a life nor an exit still to be handled.\<close>

definition silent :: "system \<Rightarrow> u64 \<Rightarrow> bool" where
  "silent S sid \<longleftrightarrow> sid \<notin> set (sy_threads S) \<and> DC_SessionExited sid \<notin> set (sy_queue S)"

text \<open>Nothing of a session stands behind the exit of its thread in the queue.\<close>

fun exits_last :: "DaemonCommand list \<Rightarrow> bool" where
  "exits_last [] = True"
| "exits_last (cmd # q) = ((case cmd of
     DC_SessionExited sid \<Rightarrow> DC_SessionExited sid \<notin> set q \<and> (\<forall>m. DC_UpdateMetadata sid m \<notin> set q)
   | _ \<Rightarrow> True) \<and> exits_last q)"

abbreviation sv :: "system \<Rightarrow> view" where
  "sv S \<equiv> view (sy_daemon S)"

definition threads_ok :: "system \<Rightarrow> bool" where
  "threads_ok S \<longleftrightarrow> (\<forall>sid \<in> set (sy_threads S). sid \<in> vw_live (sv S) \<union> vw_marked (sv S)) \<and>
     vw_live (sv S) \<inter> vw_marked (sv S) = {}"

definition queue_ok :: "system \<Rightarrow> bool" where
  "queue_ok S \<longleftrightarrow> exits_last (sy_queue S) \<and>
     (\<forall>sid. DC_SessionExited sid \<in> set (sy_queue S) \<longrightarrow>
        sid \<notin> set (sy_threads S) \<and> sid \<in> vw_live (sv S) \<union> vw_marked (sv S)) \<and>
     (\<forall>sid m. DC_UpdateMetadata sid m \<in> set (sy_queue S) \<longrightarrow> \<not> silent S sid)"

definition finals_ok :: "system \<Rightarrow> bool" where
  "finals_ok S \<longleftrightarrow> distinct (vw_final (sv S)) \<and>
     (\<forall>sid \<in> set (vw_final (sv S)). sid \<in> vw_marked (sv S) \<and> silent S sid) \<and>
     (\<forall>sid. DC_SessionDeleteFinalized sid \<in> set (sy_queue S) \<longrightarrow>
        silent S sid \<and> sid \<notin> vw_live (sv S) \<and> sid \<notin> vw_stored (sv S) \<and> sid \<notin> set (vw_final (sv S)))"

definition ids_ok :: "system \<Rightarrow> bool" where
  "ids_ok S \<longleftrightarrow> (\<forall>sid \<in> vw_live (sv S) \<union> vw_marked (sv S) \<union> vw_stored (sv S) \<union> set (sy_reported S) \<union>
     {sid. DC_SessionDeleteFinalized sid \<in> set (sy_queue S)}. sid < vw_next (sv S))"

definition reported_ok :: "system \<Rightarrow> bool" where
  "reported_ok S \<longleftrightarrow> (\<forall>sid \<in> set (sy_reported S). sid \<notin> vw_listed (sv S) \<and> sid \<notin> vw_live (sv S) \<and>
     (sid \<in> vw_marked (sv S) \<or> silent S sid \<and> sid \<notin> vw_stored (sv S)))"

definition sys_ok :: "system \<Rightarrow> bool" where
  "sys_ok S \<longleftrightarrow> threads_ok S \<and> queue_ok S \<and> finals_ok S \<and> ids_ok S \<and> reported_ok S"

lemmas sys_defs = threads_ok_def queue_ok_def finals_ok_def ids_ok_def reported_ok_def silent_def

text \<open>The tombstone invariant, for a command loop whose transactions do not fail.\<close>

definition tombs_ok :: "system \<Rightarrow> bool" where
  "tombs_ok S \<longleftrightarrow> (\<forall>sid \<in> vw_marked (sv S) \<union> set (sy_reported S).
     sid \<in> vw_tombs (sv S) \<or> sid \<notin> vw_stored (sv S) \<and> sid \<notin> set (sy_threads S))"

section \<open>Steps of session threads and background deletes\<close>

lemma exits_last_post:
  assumes "exits_last q" and "may_post sid cmd" and "DC_SessionExited sid \<notin> set q"
  shows "exits_last (q @ [cmd])"
  using assms
proof (induction q)
  case Nil
  then show ?case by (cases cmd) simp_all
next
  case (Cons c q)
  then show ?case by (cases c; cases cmd) auto
qed

lemma exits_last_exit:
  assumes "exits_last q" and "DC_SessionExited sid \<notin> set q"
  shows "exits_last (q @ [DC_SessionExited sid])"
  using assms
proof (induction q)
  case (Cons c q)
  then show ?case by (cases c) auto
qed simp

lemma exits_last_finalized: "exits_last q \<Longrightarrow> exits_last (q @ [DC_SessionDeleteFinalized sid])"
proof (induction q)
  case (Cons c q)
  then show ?case by (cases c) auto
qed simp

lemma post_ok:
  assumes ok: "sys_ok S" and sid: "sid \<in> set (sy_threads S)" and "may_post sid cmd"
  shows "sys_ok (S\<lparr>sy_queue := sy_queue S @ [cmd]\<rparr>)"
proof -
  have "DC_SessionExited sid \<notin> set (sy_queue S)"
    using ok sid by (auto simp: sys_ok_def queue_ok_def)
  then have "exits_last (sy_queue S @ [cmd])"
    using exits_last_post ok assms(3) by (auto simp: sys_ok_def queue_ok_def)
  then show ?thesis
    using ok sid assms(3) by (cases cmd) (auto simp: sys_ok_def sys_defs)
qed

lemma store_ok:
  assumes ok: "sys_ok S" and sid: "sid \<in> set (sy_threads S)"
    and ids: "stored_ids db \<subseteq> insert sid (stored_ids (dm_db (sy_daemon S)))" "tomb_ids db = tomb_ids (dm_db (sy_daemon S))"
  shows "sys_ok (S\<lparr>sy_daemon := (sy_daemon S)\<lparr>dm_db := db\<rparr>\<rparr>)"
    and "tombs_ok S \<Longrightarrow> tombs_ok (S\<lparr>sy_daemon := (sy_daemon S)\<lparr>dm_db := db\<rparr>\<rparr>)"
proof -
  have v: "view ((sy_daemon S)\<lparr>dm_db := db\<rparr>) = (sv S)\<lparr>vw_stored := stored_ids db\<rparr>"
    using ids(2) by (simp add: view_def)
  have stored: "stored_ids db \<subseteq> insert sid (vw_stored (sv S))" using ids(1) by (simp add: view_def)
  have known: "sid \<in> vw_live (sv S) \<union> vw_marked (sv S)" using ok sid by (simp add: sys_ok_def threads_ok_def)
  let ?S = "S\<lparr>sy_daemon := (sy_daemon S)\<lparr>dm_db := db\<rparr>\<rparr>"
  have "threads_ok ?S" "queue_ok ?S" using ok by (simp_all add: sys_ok_def threads_ok_def queue_ok_def silent_def v)
  moreover have "finals_ok ?S" using ok sid stored by (auto simp: sys_ok_def finals_ok_def silent_def v)
  moreover have "ids_ok ?S" using ok known stored by (auto simp: sys_ok_def ids_ok_def v)
  moreover have "reported_ok ?S" using ok sid stored by (auto simp: sys_ok_def reported_ok_def silent_def v)
  ultimately show "sys_ok ?S" by (simp add: sys_ok_def)
  assume "tombs_ok S"
  then show "tombs_ok (S\<lparr>sy_daemon := (sy_daemon S)\<lparr>dm_db := db\<rparr>\<rparr>)"
    using sid stored by (auto simp: tombs_ok_def v)
qed

lemma last_write_ids:
  "stored_ids (last_write f sid r db) \<subseteq> insert sid (stored_ids db)" "tomb_ids (last_write f sid r db) = tomb_ids db"
  by (auto simp: last_write_def dest!: db_write_session_ids split: sum.split)

lemma write_turn_ids:
  "write_turn f sid tid turn db = Inr db' \<Longrightarrow> stored_ids db' = stored_ids db \<and> tomb_ids db' = tomb_ids db"
  by (auto simp: write_turn_def stored_ids_def tomb_ids_def Let_def split: option.splits)

lemma ended_ok:
  assumes ok: "sys_ok S" and sid: "sid \<in> set (sy_threads S)"
  shows "sys_ok (S\<lparr>sy_queue := sy_queue S @ [DC_SessionExited sid],
      sy_threads := filter (\<lambda>t. t \<noteq> sid) (sy_threads S)\<rparr>)"
proof -
  have "DC_SessionExited sid \<notin> set (sy_queue S)"
    using ok sid by (auto simp: sys_ok_def queue_ok_def)
  then have "exits_last (sy_queue S @ [DC_SessionExited sid])"
    using exits_last_exit ok by (auto simp: sys_ok_def queue_ok_def)
  then show ?thesis using ok sid by (auto simp: sys_ok_def sys_defs)
qed

lemma finalize_ids:
  assumes "finalize_session_delete f1 f2 sid db = (db', posts)"
  shows "posts = [] \<and> db' = db \<or>
    posts = [DC_SessionDeleteFinalized sid] \<and> stored_ids db' = stored_ids db - {sid} \<and>
    tomb_ids db' \<in> {tomb_ids db, tomb_ids db - {sid}}"
proof (cases "delete_session f1 sid db")
  case (Inl e)
  then show ?thesis using assms by (simp add: finalize_session_delete_def)
next
  case (Inr db1)
  show ?thesis
  proof (cases "clear_session_tombstone f2 sid db1")
    case (Inl e)
    then show ?thesis using assms Inr db_ids(1) [OF Inr] by (auto simp: finalize_session_delete_def)
  next
    case clear: (Inr db2)
    then show ?thesis
      using assms Inr db_ids(1) [OF Inr] db_ids(3) [OF clear] by (auto simp: finalize_session_delete_def)
  qed
qed

lemma finalize_ok:
  assumes ok: "sys_ok S" and sid: "sid \<in> set (dm_finalizers (sy_daemon S))"
    and run: "finalize_session_delete f1 f2 sid (dm_db (sy_daemon S)) = (db, posts)"
  defines "S' \<equiv> S\<lparr>sy_daemon := (sy_daemon S)\<lparr>dm_db := db,
        dm_finalizers := remove1 sid (dm_finalizers (sy_daemon S))\<rparr>,
      sy_queue := sy_queue S @ posts\<rparr>"
  shows "sys_ok S'" and "tombs_ok S \<Longrightarrow> tombs_ok S'"
proof -
  have fin: "sid \<in> set (vw_final (sv S))" using sid by (simp add: view_def)
  have facts: "distinct (vw_final (sv S))" "sid \<in> vw_marked (sv S)" "silent S sid" "sid \<notin> vw_live (sv S)"
    using ok fin by (auto simp: sys_ok_def finals_ok_def threads_ok_def)
  have simps [simp]: "sy_queue S' = sy_queue S @ posts" "sy_threads S' = sy_threads S" "sy_reported S' = sy_reported S"
    by (simp_all add: S'_def)
  have dist: "set (remove1 sid (vw_final (sv S))) = set (vw_final (sv S)) - {sid}" using facts(1) by simp
  consider (failed) "posts = []" "sv S' = (sv S)\<lparr>vw_final := remove1 sid (vw_final (sv S))\<rparr>"
    | (deleted) tombs where "posts = [DC_SessionDeleteFinalized sid]" "tombs \<in> {vw_tombs (sv S), vw_tombs (sv S) - {sid}}"
      "sv S' = (sv S)\<lparr>vw_final := remove1 sid (vw_final (sv S)), vw_stored := vw_stored (sv S) - {sid}, vw_tombs := tombs\<rparr>"
    using finalize_ids [OF run] by (auto simp: S'_def view_def)
  then have "sys_ok S' \<and> (tombs_ok S \<longrightarrow> tombs_ok S')"
  proof cases
    case failed
    have "sys_ok S'"
      using ok dist facts(1) by (auto simp: sys_ok_def sys_defs failed)
    then show ?thesis by (simp add: tombs_ok_def failed)
  next
    case (deleted tombs)
    have "threads_ok S'" "queue_ok S'"
      using ok exits_last_finalized by (auto simp: sys_ok_def threads_ok_def queue_ok_def silent_def deleted)
    moreover have "finals_ok S'"
      using ok dist facts by (auto simp: sys_ok_def finals_ok_def silent_def deleted)
    moreover have "ids_ok S'"
      using ok facts(2) by (auto simp: sys_ok_def ids_ok_def deleted)
    moreover have "reported_ok S'"
      using ok by (auto simp: sys_ok_def reported_ok_def silent_def deleted)
    moreover have "tombs_ok S \<longrightarrow> tombs_ok S'"
      using facts(3) deleted(2) by (auto simp: tombs_ok_def silent_def deleted(1,3))
    ultimately show ?thesis by (simp add: sys_ok_def)
  qed
  then show "sys_ok S'" "tombs_ok S \<Longrightarrow> tombs_ok S'" by simp_all
qed

section \<open>Steps of the command loop on its queue\<close>

lemma view_bus [simp]:
  "view (d\<lparr>dm_state := handle_broadcast_activity origin msg (dm_state d)\<rparr>) = view d"
  "view (d\<lparr>dm_state := handle_broadcast_session_status sid status (dm_state d)\<rparr>) = view d"
  "view (d\<lparr>dm_state := handle_evict_client c (dm_state d)\<rparr>) = view d"
  "view (d\<lparr>dm_state := handle_evict_largest_lagging (dm_state d)\<rparr>) = view d"
  "view (d\<lparr>dm_state := handle_track_session_subscription c sid (dm_state d)\<rparr>) = view d"
  "view (d\<lparr>dm_state := handle_untrack_session_subscription c sid (dm_state d)\<rparr>) = view d"
  by (rule view_state; simp add: handle_broadcast_activity_def handle_broadcast_session_status_def
      handle_track_session_subscription_def handle_untrack_session_subscription_def evict_client_sessions
      largest_sessions modify_client_def put_client_def Let_def split: option.split)+

lemma queued_ok:
  fixes env :: DaemonEnv
  assumes ok: "sys_ok S" and q: "sy_queue S = cmd # rest"
  defines "S' \<equiv> S\<lparr>sy_daemon := run_queued env cmd (sy_daemon S), sy_queue := rest\<rparr>"
  shows "sys_ok S'" and "tombs_ok S \<Longrightarrow> tombs_ok S'"
proof -
  have simps [simp]: "sy_queue S' = rest" "sy_threads S' = sy_threads S" "sy_reported S' = sy_reported S"
    by (simp_all add: S'_def)
  have rest: "exits_last rest" using ok q by (simp add: sys_ok_def queue_ok_def)
  have "sys_ok S' \<and> (tombs_ok S \<longrightarrow> tombs_ok S')"
  proof (cases cmd)
    case (DC_UpdateMetadata sid m)
    have v: "sv S' = (if sid \<in> vw_marked (sv S) then sv S else (sv S)\<lparr>vw_listed := insert sid (vw_listed (sv S))\<rparr>)"
      by (simp add: S'_def DC_UpdateMetadata view_update_metadata)
    have "reported_ok S'"
      using ok by (auto simp: sys_ok_def reported_ok_def queue_ok_def silent_def v q DC_UpdateMetadata)
    then show ?thesis
      using ok rest by (auto simp: sys_ok_def threads_ok_def queue_ok_def finals_ok_def ids_ok_def silent_def
          tombs_ok_def v q DC_UpdateMetadata)
  next
    case (DC_SessionExited sid)
    have v: "sv S' = (sv S)\<lparr>vw_live := vw_live (sv S) - {sid},
        vw_final := vw_final (sv S) @ (if sid \<in> vw_marked (sv S) then [sid] else [])\<rparr>"
      by (simp add: S'_def DC_SessionExited view_exited)
    have alone: "DC_SessionExited sid \<notin> set rest" "\<And>m. DC_UpdateMetadata sid m \<notin> set rest"
      using ok by (simp_all add: sys_ok_def queue_ok_def q DC_SessionExited)
    have gone: "sid \<notin> set (sy_threads S)" "sid \<notin> set (vw_final (sv S))"
        "DC_SessionDeleteFinalized sid \<notin> set (sy_queue S)"
      using ok by (auto simp: sys_ok_def queue_ok_def finals_ok_def silent_def q DC_SessionExited)
    have "threads_ok S'" using ok gone(1) by (auto simp: sys_ok_def threads_ok_def v)
    moreover have "queue_ok S'"
      using ok rest alone by (auto simp: sys_ok_def queue_ok_def silent_def v q DC_SessionExited)
    moreover have "finals_ok S'"
      using ok gone alone by (auto simp: sys_ok_def finals_ok_def silent_def v q DC_SessionExited)
    moreover have "ids_ok S'" using ok by (auto simp: sys_ok_def ids_ok_def v q)
    moreover have "reported_ok S'" using ok by (auto simp: sys_ok_def reported_ok_def silent_def v q)
    moreover have "tombs_ok S \<longrightarrow> tombs_ok S'" by (simp add: tombs_ok_def v)
    ultimately show ?thesis by (simp add: sys_ok_def)
  next
    case (DC_SessionDeleteFinalized sid)
    have v: "sv S' = (sv S)\<lparr>vw_marked := vw_marked (sv S) - {sid}\<rparr>"
      by (simp add: S'_def DC_SessionDeleteFinalized view_finalized)
    have gone: "silent S sid" "sid \<notin> vw_live (sv S)" "sid \<notin> vw_stored (sv S)" "sid \<notin> set (vw_final (sv S))"
      using ok by (auto simp: sys_ok_def finals_ok_def q DC_SessionDeleteFinalized)
    have "threads_ok S'" using ok gone(1) by (auto simp: sys_ok_def threads_ok_def silent_def v)
    moreover have "queue_ok S'"
      using ok rest gone(1) by (auto simp: sys_ok_def queue_ok_def silent_def v q DC_SessionDeleteFinalized)
    moreover have "finals_ok S'"
      using ok gone(4) by (auto simp: sys_ok_def finals_ok_def silent_def v q DC_SessionDeleteFinalized)
    moreover have "ids_ok S'" using ok by (auto simp: sys_ok_def ids_ok_def v q)
    moreover have "reported_ok S'"
      using ok gone by (auto simp: sys_ok_def reported_ok_def silent_def v q DC_SessionDeleteFinalized)
    moreover have "tombs_ok S \<longrightarrow> tombs_ok S'" by (auto simp: tombs_ok_def v)
    ultimately show ?thesis by (simp add: sys_ok_def)
  qed (use ok rest in \<open>auto simp: sys_ok_def sys_defs tombs_ok_def q S'_def\<close>)
  then show "sys_ok S'" "tombs_ok S \<Longrightarrow> tombs_ok S'" by simp_all
qed

section \<open>Client commands\<close>

lemma set_spawned: "set (spawned d d') = vw_live (view d') - vw_live (view d)"
  by (auto simp: spawned_def view_def dom_map_of_conv_image_fst map_of_eq_None_iff)

text \<open>An operation that changes nothing but what the view does not show.\<close>

lemma same_view_ok:
  assumes "sys_ok S" and "view d' = sv S"
  shows "sys_ok (S\<lparr>sy_daemon := d'\<rparr>)" and "tombs_ok S \<Longrightarrow> tombs_ok (S\<lparr>sy_daemon := d'\<rparr>)"
  using assms by (simp_all add: sys_ok_def sys_defs tombs_ok_def)

text \<open>A session is brought back to life: it was neither running nor marked, and its record is there.\<close>

lemma revive_ok:
  assumes ok: "sys_ok S" and sid: "sid \<notin> vw_marked (sv S)" "sid \<notin> vw_live (sv S)" "sid \<in> vw_stored (sv S)"
    and v: "view d' = (sv S)\<lparr>vw_live := insert sid (vw_live (sv S)), vw_listed := insert sid (vw_listed (sv S))\<rparr>"
    and T: "set T = insert sid (set (sy_threads S))"
  shows "sys_ok (S\<lparr>sy_daemon := d', sy_threads := T\<rparr>)"
    and "tombs_ok S \<Longrightarrow> tombs_ok (S\<lparr>sy_daemon := d', sy_threads := T\<rparr>)"
proof -
  let ?S = "S\<lparr>sy_daemon := d', sy_threads := T\<rparr>"
  have fresh: "DC_SessionExited sid \<notin> set (sy_queue S)" "DC_SessionDeleteFinalized sid \<notin> set (sy_queue S)"
      "sid \<notin> set (vw_final (sv S))" "sid \<notin> set (sy_reported S)"
    using ok sid by (auto simp: sys_ok_def queue_ok_def finals_ok_def reported_ok_def)
  have "threads_ok ?S" using ok sid by (auto simp: sys_ok_def threads_ok_def v T)
  moreover have "queue_ok ?S" using ok fresh by (auto simp: sys_ok_def queue_ok_def silent_def v T)
  moreover have "finals_ok ?S" using ok fresh by (auto simp: sys_ok_def finals_ok_def silent_def v T)
  moreover have "ids_ok ?S" using ok sid(3) by (auto simp: sys_ok_def ids_ok_def v)
  moreover have "reported_ok ?S" using ok fresh by (auto simp: sys_ok_def reported_ok_def silent_def v T)
  ultimately show "sys_ok ?S" by (simp add: sys_ok_def)
  assume "tombs_ok S"
  then show "tombs_ok ?S" using sid fresh by (auto simp: tombs_ok_def v T)
qed

lemma create_ok:
  assumes ok: "sys_ok S" and room: "vw_next (sv S) < vw_next (sv S) + 1"
    and stored: "stored \<in> {vw_stored (sv S), insert (vw_next (sv S)) (vw_stored (sv S))}"
    and v: "view d' = (sv S)\<lparr>vw_live := insert (vw_next (sv S)) (vw_live (sv S)),
         vw_listed := insert (vw_next (sv S)) (vw_listed (sv S)),
         vw_stored := stored, vw_next := vw_next (sv S) + 1\<rparr>"
    and T: "set T = insert (vw_next (sv S)) (set (sy_threads S))"
  shows "sys_ok (S\<lparr>sy_daemon := d', sy_threads := T\<rparr>)"
    and "tombs_ok S \<Longrightarrow> tombs_ok (S\<lparr>sy_daemon := d', sy_threads := T\<rparr>)"
proof -
  let ?S = "S\<lparr>sy_daemon := d', sy_threads := T\<rparr>" and ?n = "vw_next (sv S)"
  have new: "?n \<notin> vw_live (sv S) \<union> vw_marked (sv S) \<union> vw_stored (sv S) \<union> set (sy_reported S)"
      "DC_SessionDeleteFinalized ?n \<notin> set (sy_queue S)"
    using ok by (auto simp: sys_ok_def ids_ok_def)
  have fresh: "DC_SessionExited ?n \<notin> set (sy_queue S)" "?n \<notin> set (vw_final (sv S))"
    using ok new by (auto simp: sys_ok_def queue_ok_def finals_ok_def)
  have grow: "x < ?n + 1" if "x < ?n" for x using that room by (rule order.strict_trans)
  have "threads_ok ?S" using ok new by (auto simp: sys_ok_def threads_ok_def v T)
  moreover have "queue_ok ?S" using ok fresh by (auto simp: sys_ok_def queue_ok_def silent_def v T)
  moreover have "finals_ok ?S" using ok new fresh stored by (auto simp: sys_ok_def finals_ok_def silent_def v T)
  moreover have "ids_ok ?S" using ok stored room grow by (auto simp: sys_ok_def ids_ok_def v)
  moreover have "reported_ok ?S" using ok new stored by (auto simp: sys_ok_def reported_ok_def silent_def v T)
  ultimately show "sys_ok ?S" by (simp add: sys_ok_def)
  assume "tombs_ok S"
  then show "tombs_ok ?S" using new stored by (auto simp: tombs_ok_def v T)
qed

text \<open>Deleting moves running sessions to the marked ones and takes records and rows away.\<close>

lemma retire_ok:
  assumes ok: "sys_ok S"
    and v: "view d' = (sv S)\<lparr>vw_live := L, vw_marked := M, vw_stored := R, vw_tombs := T, vw_listed := N\<rparr>"
    and L: "L \<subseteq> vw_live (sv S)" and M: "L \<inter> M = {}" "L \<union> M = vw_live (sv S) \<union> vw_marked (sv S)"
    and R: "R \<subseteq> vw_stored (sv S)" and N: "N \<subseteq> vw_listed (sv S)"
  shows "sys_ok (S\<lparr>sy_daemon := d'\<rparr>)"
proof -
  have keep: "vw_marked (sv S) \<subseteq> M" using M(2) L ok by (auto simp: sys_ok_def threads_ok_def)
  have "threads_ok (S\<lparr>sy_daemon := d'\<rparr>)" using ok M by (simp add: sys_ok_def threads_ok_def v)
  moreover have "queue_ok (S\<lparr>sy_daemon := d'\<rparr>)" using ok M(2) by (simp add: sys_ok_def queue_ok_def silent_def v)
  moreover have "finals_ok (S\<lparr>sy_daemon := d'\<rparr>)"
    using ok keep L R by (simp add: sys_ok_def finals_ok_def silent_def v) blast
  moreover have "ids_ok (S\<lparr>sy_daemon := d'\<rparr>)"
    using ok M(2) R by (simp add: sys_ok_def ids_ok_def v) blast
  moreover have "reported_ok (S\<lparr>sy_daemon := d'\<rparr>)"
    using ok keep L R N by (simp add: sys_ok_def reported_ok_def silent_def v) blast
  ultimately show ?thesis by (simp add: sys_ok_def)
qed

lemma deletes_view:
  assumes "deletes nf fin sid v r v'" and "vw_live v \<inter> vw_marked v = {}"
  obtains L M R T N where "v' = v\<lparr>vw_live := L, vw_marked := M, vw_stored := R, vw_tombs := T, vw_listed := N\<rparr>"
    "L \<subseteq> vw_live v" "L \<inter> M = {}" "L \<union> M = vw_live v \<union> vw_marked v" "R \<subseteq> vw_stored v" "N \<subseteq> vw_listed v"
  using assms(1)
proof cases
  case finished_failed
  show thesis by (rule that [where L = "vw_live v - {sid}" and M = "insert sid (vw_marked v)" and R = "vw_stored v" and T = "vw_tombs v" and N = "vw_listed v"])
    (use finished_failed assms(2) in auto)
next
  case (finished_deleted tombs)
  show thesis by (rule that [where L = "vw_live v - {sid}" and M = "insert sid (vw_marked v)" and R = "vw_stored v - {sid}" and T = tombs and N = "vw_listed v - {sid}"])
    (use finished_deleted assms(2) in auto)
next
  case (running tombs)
  show thesis by (rule that [where L = "vw_live v - {sid}" and M = "insert sid (vw_marked v)" and R = "vw_stored v" and T = tombs and N = "vw_listed v - {sid}"])
    (use running assms(2) in auto)
next
  case asleep_failed
  show thesis by (rule that [where T = "vw_tombs v", OF _ subset_refl assms(2) refl subset_refl subset_refl]) (simp add: asleep_failed)
next
  case (asleep tombs)
  show thesis by (rule that [where R = "vw_stored v - {sid}" and T = tombs and N = "vw_listed v - {sid}", OF _ subset_refl assms(2) refl])
    (use asleep in auto)
qed

lemma deletes_ok:
  assumes ok: "sys_ok S" and del: "deletes nf fin sid (sv S) r (view d')"
    and fin: "fin \<Longrightarrow> sid \<notin> set (sy_threads S)"
  shows "sys_ok (S\<lparr>sy_daemon := d'\<rparr>)" and "nf \<Longrightarrow> tombs_ok S \<Longrightarrow> tombs_ok (S\<lparr>sy_daemon := d'\<rparr>)"
    and "vw_live (view d') \<subseteq> vw_live (sv S)" and "vw_next (view d') = vw_next (sv S)"
proof -
  have dis: "vw_live (sv S) \<inter> vw_marked (sv S) = {}" using ok by (simp add: sys_ok_def threads_ok_def)
  obtain L M R T N where v: "view d' = (sv S)\<lparr>vw_live := L, vw_marked := M, vw_stored := R, vw_tombs := T, vw_listed := N\<rparr>"
    and sets: "L \<subseteq> vw_live (sv S)" "L \<inter> M = {}" "L \<union> M = vw_live (sv S) \<union> vw_marked (sv S)"
    "R \<subseteq> vw_stored (sv S)" "N \<subseteq> vw_listed (sv S)"
    using deletes_view [OF del dis] .
  show "sys_ok (S\<lparr>sy_daemon := d'\<rparr>)" by (rule retire_ok [OF ok v sets])
  show "vw_live (view d') \<subseteq> vw_live (sv S)" "vw_next (view d') = vw_next (sv S)" using sets by (simp_all add: v)
  have quiet: "sid \<notin> vw_live (sv S) \<Longrightarrow> sid \<notin> vw_marked (sv S) \<Longrightarrow> sid \<notin> set (sy_threads S)"
    using ok by (auto simp: sys_ok_def threads_ok_def)
  show "nf \<Longrightarrow> tombs_ok S \<Longrightarrow> tombs_ok (S\<lparr>sy_daemon := d'\<rparr>)"
    using del by cases (use fin quiet in \<open>auto simp: tombs_ok_def\<close>)
qed

text \<open>Where the deletion succeeded, the session may be reported as deleted.\<close>

lemma deletes_report_ok:
  assumes ok: "sys_ok S" and del: "deletes nf fin sid (sv S) (Inr ()) (view d')"
    and fin: "fin \<Longrightarrow> sid \<notin> set (sy_threads S)" and sid: "sid < vw_next (sv S)"
  shows "sys_ok (S\<lparr>sy_daemon := d', sy_reported := sy_reported S @ [sid]\<rparr>)"
    and "nf \<Longrightarrow> tombs_ok S \<Longrightarrow> tombs_ok (S\<lparr>sy_daemon := d', sy_reported := sy_reported S @ [sid]\<rparr>)"
proof -
  have new: "sid \<notin> vw_listed (view d')" "sid \<notin> vw_live (view d')"
      "sid \<in> vw_marked (view d') \<or> silent S sid \<and> sid \<notin> vw_stored (view d')"
    using del ok by (cases; auto simp: sys_ok_def threads_ok_def queue_ok_def silent_def)+
  show "sys_ok (S\<lparr>sy_daemon := d', sy_reported := sy_reported S @ [sid]\<rparr>)"
    using deletes_ok(1,4) [OF ok del fin] new sid by (auto simp: sys_ok_def sys_defs)
  assume "nf" "tombs_ok S"
  then have "tombs_ok (S\<lparr>sy_daemon := d'\<rparr>)" by (intro deletes_ok(2) [OF ok del fin])
  then show "tombs_ok (S\<lparr>sy_daemon := d', sy_reported := sy_reported S @ [sid]\<rparr>)"
    using new by (auto simp: tombs_ok_def silent_def)
qed

lemma delete_children_ok:
  fixes env :: DaemonEnv
  assumes "sys_ok S" and "\<And>sid. fin sid \<Longrightarrow> sid \<notin> set (sy_threads S)"
  defines "step \<equiv> \<lambda>c d. snd (delete_session_inner env fin c (remove_child_from_all_parents c d))"
  shows "sys_ok (S\<lparr>sy_daemon := fold step cs (sy_daemon S)\<rparr>) \<and>
    (no_fault env \<longrightarrow> tombs_ok S \<longrightarrow> tombs_ok (S\<lparr>sy_daemon := fold step cs (sy_daemon S)\<rparr>)) \<and>
    vw_live (view (fold step cs (sy_daemon S))) \<subseteq> vw_live (sv S) \<and>
    vw_next (view (fold step cs (sy_daemon S))) = vw_next (sv S)"
  using assms(1,2)
proof (induction cs arbitrary: S)
  case (Cons c cs)
  let ?d = "remove_child_from_all_parents c (sy_daemon S)"
  let ?S = "S\<lparr>sy_daemon := step c (sy_daemon S)\<rparr>"
  have "deletes (no_fault env) (fin c) c (sv S) (fst (delete_session_inner env fin c ?d)) (sv ?S)"
    using delete_inner_view [of env fin c ?d] by (simp add: step_def)
  note step = deletes_ok [OF Cons.prems(1) this Cons.prems(2)]
  have "sys_ok ?S" using step(1) by simp
  from Cons.IH [OF this] Cons.prems(2)
  have IH: "sys_ok (S\<lparr>sy_daemon := fold step cs (step c (sy_daemon S))\<rparr>)"
    "no_fault env \<longrightarrow> tombs_ok ?S \<longrightarrow> tombs_ok (S\<lparr>sy_daemon := fold step cs (step c (sy_daemon S))\<rparr>)"
    "vw_live (view (fold step cs (step c (sy_daemon S)))) \<subseteq> vw_live (sv ?S)"
    "vw_next (view (fold step cs (step c (sy_daemon S)))) = vw_next (sv ?S)" by auto
  have "no_fault env \<longrightarrow> tombs_ok S \<longrightarrow> tombs_ok ?S" using step(2) by simp
  then show ?case using IH step(3,4) by auto
qed simp

lemma last_reply: "last (dm_replies (dm_reply ch v d)) = (ch, v)"
  by (simp add: dm_reply_def)

lemma delete_ok:
  fixes env :: DaemonEnv and sid :: u64 and ch :: reply_chan
  assumes ok: "sys_ok S" and fin: "\<And>sid. fin sid \<Longrightarrow> sid \<notin> set (sy_threads S)"
  defines "d' \<equiv> handle_delete_session env fin sid ch (sy_daemon S)"
  defines "S' \<equiv> S\<lparr>sy_daemon := d', sy_reported := sy_reported S @ reported (CO_Delete sid ch) d'\<rparr>"
  shows "sys_ok S'" and "no_fault env \<Longrightarrow> tombs_ok S \<Longrightarrow> tombs_ok S'"
    and "vw_live (view d') \<subseteq> vw_live (sv S)"
proof -
  define step where "step = (\<lambda>c d. snd (delete_session_inner env fin c (remove_child_from_all_parents c d)))"
  define d1 where "d1 = (case map_of (dm_children (sy_daemon S)) sid of None \<Rightarrow> sy_daemon S
      | Some cs \<Rightarrow> fold step cs ((sy_daemon S)\<lparr>dm_children := hm_remove sid (dm_children (sy_daemon S))\<rparr>))"
  define d2 where "d2 = remove_child_from_all_parents sid d1"
  let ?r = "delete_session_inner env fin sid d2"
  have d': "d' = dm_reply ch (DR_Unit (fst ?r)) (snd ?r)"
    unfolding d'_def handle_delete_session_def Let_def d2_def d1_def step_def case_prod_beta by (rule refl)
  define S1 where "S1 = S\<lparr>sy_daemon := d2\<rparr>"
  have S1: "sys_ok S1 \<and> (no_fault env \<longrightarrow> tombs_ok S \<longrightarrow> tombs_ok S1) \<and> vw_live (sv S1) \<subseteq> vw_live (sv S) \<and>
      vw_next (sv S1) = vw_next (sv S)"
  proof (cases "map_of (dm_children (sy_daemon S)) sid")
    case None
    then show ?thesis
      using same_view_ok [OF ok, of d2] by (simp add: S1_def d2_def d1_def)
  next
    case (Some cs)
    let ?S0 = "S\<lparr>sy_daemon := (sy_daemon S)\<lparr>dm_children := hm_remove sid (dm_children (sy_daemon S))\<rparr>\<rparr>"
    have "sys_ok ?S0" "tombs_ok S \<Longrightarrow> tombs_ok ?S0" using same_view_ok [OF ok] by simp_all
    note kids = delete_children_ok [OF this(1), of fin env cs, folded step_def] this(2)
    have "sys_ok (S\<lparr>sy_daemon := d1\<rparr>)" "no_fault env \<longrightarrow> tombs_ok S \<longrightarrow> tombs_ok (S\<lparr>sy_daemon := d1\<rparr>)"
      "vw_live (view d1) \<subseteq> vw_live (sv S)" "vw_next (view d1) = vw_next (sv S)"
      using kids fin by (simp_all add: d1_def Some)
    then show ?thesis
      using same_view_ok [of "S\<lparr>sy_daemon := d1\<rparr>" d2] by (simp add: S1_def d2_def)
  qed
  have del: "deletes (no_fault env) (fin sid) sid (sv S1) (fst ?r) (view d')"
    using delete_inner_view [of env fin sid d2] by (simp add: S1_def d')
  have fin1: "fin sid \<Longrightarrow> sid \<notin> set (sy_threads S1)" using fin by (simp add: S1_def)
  note one = deletes_ok [OF conjunct1 [OF S1] del fin1]
  show live: "vw_live (view d') \<subseteq> vw_live (sv S)" using one(3) S1 by auto
  have nxt: "dm_next_session_id d' = vw_next (sv S1)" using one(4) by (simp add: view_def)
  have rep: "reported (CO_Delete sid ch) d' = (if fst ?r = Inr () \<and> sid < vw_next (sv S1) then [sid] else [])"
    using nxt by (simp add: d' last_reply)
  show "sys_ok S'"
  proof (cases "fst ?r = Inr () \<and> sid < vw_next (sv S1)")
    case True
    then show ?thesis
      using deletes_report_ok(1) [OF conjunct1 [OF S1] _ fin1] del unfolding S'_def rep by (simp add: S1_def)
  next
    case False
    then show ?thesis using one(1) unfolding S'_def rep if_not_P [OF False] by (simp add: S1_def)
  qed
  assume nf: "no_fault env" and "tombs_ok S"
  then have t1: "tombs_ok S1" using S1 by blast
  show "tombs_ok S'"
  proof (cases "fst ?r = Inr () \<and> sid < vw_next (sv S1)")
    case True
    then show ?thesis
      using deletes_report_ok(2) [OF conjunct1 [OF S1] _ fin1 _ nf t1] del unfolding S'_def rep by (simp add: S1_def)
  next
    case False
    then show ?thesis using one(2) [OF _ nf t1] unfolding S'_def rep if_not_P [OF False] by (simp add: S1_def)
  qed
qed

lemma ensure_ok:
  assumes ok: "sys_ok S" and d': "view d' = view (snd (ensure_active_session env sid (sy_daemon S)))"
  shows "sys_ok (S\<lparr>sy_daemon := d', sy_threads := sy_threads S @ spawned (sy_daemon S) d'\<rparr>)"
    and "tombs_ok S \<Longrightarrow> tombs_ok (S\<lparr>sy_daemon := d', sy_threads := sy_threads S @ spawned (sy_daemon S) d'\<rparr>)"
proof -
  consider (same) "view d' = sv S"
    | (new) "sid \<notin> vw_marked (sv S)" "sid \<notin> vw_live (sv S)" "sid \<in> vw_stored (sv S)"
        "view d' = (sv S)\<lparr>vw_live := insert sid (vw_live (sv S)), vw_listed := insert sid (vw_listed (sv S))\<rparr>"
    using view_ensure [of env sid "sy_daemon S"] unfolding d' by blast
  then have "sys_ok (S\<lparr>sy_daemon := d', sy_threads := sy_threads S @ spawned (sy_daemon S) d'\<rparr>) \<and>
    (tombs_ok S \<longrightarrow> tombs_ok (S\<lparr>sy_daemon := d', sy_threads := sy_threads S @ spawned (sy_daemon S) d'\<rparr>))"
  proof cases
    case same
    then have "spawned (sy_daemon S) d' = []" using set_spawned [of "sy_daemon S" d'] by simp
    then show ?thesis using same_view_ok [OF ok same] by simp
  next
    case new
    have "set (sy_threads S @ spawned (sy_daemon S) d') = insert sid (set (sy_threads S))"
      using new(2) by (auto simp: set_spawned new(4))
    then show ?thesis using revive_ok [OF ok new] by blast
  qed
  then show "sys_ok (S\<lparr>sy_daemon := d', sy_threads := sy_threads S @ spawned (sy_daemon S) d'\<rparr>)"
    "tombs_ok S \<Longrightarrow> tombs_ok (S\<lparr>sy_daemon := d', sy_threads := sy_threads S @ spawned (sy_daemon S) d'\<rparr>)" by blast+
qed

lemma spawned_same: "vw_live (view d') \<subseteq> vw_live (view d) \<Longrightarrow> spawned d d' = []"
  by (metis Diff_eq_empty_iff set_empty set_spawned)

lemma view_queries [simp]:
  "view (handle_list_sessions ch d) = view d" "view (handle_get_session sid ch d) = view d"
  "view (handle_set_session_title sid title d) = view d"
  "view (daemon_set_working_dir sid path ch d) = view d"
  "view (daemon_load_tools sid groups ch d) = view d" "view (daemon_unload_tools sid groups ch d) = view d"
  by (simp_all add: handle_list_sessions_def handle_get_session_def handle_set_session_title_def
      daemon_set_working_dir_def daemon_load_tools_def daemon_unload_tools_def not_active_def Let_def
      split: option.split)

lemma client_ok:
  fixes env :: DaemonEnv and op :: client_op
  assumes ok: "sys_ok S" and fin: "\<And>sid. fin sid \<Longrightarrow> sid \<notin> set (sy_threads S)"
    and room: "dm_next_session_id (sy_daemon S) < dm_next_session_id (sy_daemon S) + 1"
  defines "d' \<equiv> run_client_op env fin op (sy_daemon S)"
  defines "S' \<equiv> S\<lparr>sy_daemon := d', sy_threads := sy_threads S @ spawned (sy_daemon S) d',
      sy_reported := sy_reported S @ reported op d'\<rparr>"
  shows "sys_ok S'" and "no_fault env \<Longrightarrow> tombs_ok S \<Longrightarrow> tombs_ok S'"
proof -
  have same: "sys_ok S' \<and> (no_fault env \<longrightarrow> tombs_ok S \<longrightarrow> tombs_ok S')" if "view d' = sv S" "reported op d' = []"
    using same_view_ok [OF ok that(1)] spawned_same [of d' "sy_daemon S"] that by (simp_all add: S'_def)
  have "sys_ok S' \<and> (no_fault env \<longrightarrow> tombs_ok S \<longrightarrow> tombs_ok S')"
  proof (cases op)
    case (CO_Create p ch)
    have room': "vw_next (sv S) < vw_next (sv S) + 1" using room by (simp add: view_def)
    obtain stored where stored: "stored \<in> {vw_stored (sv S), insert (vw_next (sv S)) (vw_stored (sv S))}"
      "view d' = (sv S)\<lparr>vw_live := insert (vw_next (sv S)) (vw_live (sv S)),
         vw_listed := insert (vw_next (sv S)) (vw_listed (sv S)), vw_stored := stored, vw_next := vw_next (sv S) + 1\<rparr>"
      using view_create [of "sy_daemon S" env p ch] unfolding d'_def CO_Create run_client_op.simps by (elim bexE)
    have "vw_next (sv S) \<notin> vw_live (sv S)" using ok by (auto simp: sys_ok_def ids_ok_def)
    then have "set (sy_threads S @ spawned (sy_daemon S) d') = insert (vw_next (sv S)) (set (sy_threads S))"
      by (auto simp: set_spawned stored(2))
    from create_ok [OF ok room' stored this] show ?thesis by (simp add: S'_def CO_Create)
  next
    case (CO_Attach sid ch)
    show ?thesis using ensure_ok [OF ok, of d' env sid] by (simp add: S'_def d'_def CO_Attach view_attach)
  next
    case (CO_GetState sid ch)
    show ?thesis using ensure_ok [OF ok, of d' env sid] by (simp add: S'_def d'_def CO_GetState view_get_state)
  next
    case (CO_Delete sid ch)
    note del = delete_ok [OF ok fin, where env = env and sid = sid and ch = ch]
    have "spawned (sy_daemon S) d' = []" by (rule spawned_same) (use del(3) in \<open>simp add: d'_def CO_Delete\<close>)
    then show ?thesis using del(1,2) by (simp add: S'_def d'_def CO_Delete)
  qed (use same in \<open>simp_all add: d'_def\<close>)
  then show "sys_ok S'" "no_fault env \<Longrightarrow> tombs_ok S \<Longrightarrow> tombs_ok S'" by blast+
qed

section \<open>Every run\<close>

definition started :: "Daemon \<Rightarrow> system" where
  "started d = \<lparr>sy_daemon = d, sy_queue = [], sy_threads = [], sy_reported = []\<rparr>"

inductive sys_reachable :: "DaemonEnv \<Rightarrow> Database \<Rightarrow> system \<Rightarrow> bool" for env db where
  start: "sys_reachable env db (started (DaemonState_open faults None accounts bound db))"
| step: "sys_reachable env db S \<Longrightarrow> sys_step env S S' \<Longrightarrow> sys_reachable env db S'"

lemma started_ok:
  assumes "readable db"
  shows "sys_ok (started (DaemonState_open faults None accounts bound db))"
    and "tombs_ok (started (DaemonState_open faults None accounts bound db))"
  using open_view [OF assms, where faults = faults and accounts = accounts and bound = bound] by (auto simp: sys_ok_def sys_defs tombs_ok_def started_def)

lemma ended_tombs:
  assumes "tombs_ok S"
  shows "tombs_ok (S\<lparr>sy_queue := q, sy_threads := filter P (sy_threads S)\<rparr>)"
  using assms by (auto simp: tombs_ok_def)

lemma step_ok:
  assumes "sys_step env S S'" and ok: "sys_ok S"
  shows "sys_ok S' \<and> (no_fault env \<longrightarrow> tombs_ok S \<longrightarrow> tombs_ok S')"
  using assms(1)
proof cases
  case (client d' fin op)
  then show ?thesis using client_ok [OF ok client(3,4), where env = env and op = op] by simp
next
  case (queued cmd rest)
  then show ?thesis using queued_ok [OF ok queued(2), of env] by simp
next
  case (post sid cmd)
  then show ?thesis using post_ok [OF ok post(2,3)] by (simp add: tombs_ok_def)
next
  case (store sid r db)
  then show ?thesis using store_ok [OF ok store(2), of db] db_write_session_ids [OF store(3)] by simp
next
  case (store_turn sid tid turn db)
  then show ?thesis using store_ok [OF ok store_turn(2), of db] write_turn_ids [OF store_turn(3)] by auto
next
  case (ended sid f r)
  let ?S = "S\<lparr>sy_daemon := (sy_daemon S)\<lparr>dm_db := last_write f sid r (dm_db (sy_daemon S))\<rparr>\<rparr>"
  have "sys_ok ?S" "tombs_ok S \<Longrightarrow> tombs_ok ?S" using store_ok [OF ok ended(2) last_write_ids] by auto
  then show ?thesis using ended_ok [of ?S sid] ended_tombs [of ?S] ended by simp
next
  case (finalize sid f1 f2 db posts)
  then show ?thesis using finalize_ok [OF ok finalize(2,3)] by simp
qed

lemma reachable_ok:
  assumes "sys_reachable env db S" and "readable db"
  shows "sys_ok S \<and> (no_fault env \<longrightarrow> tombs_ok S)"
  using assms(1)
proof induction
  case (start faults accounts bound)
  then show ?case using started_ok [OF assms(2)] by simp
next
  case (step S S')
  then show ?case using step_ok by blast
qed

section \<open>Properties\<close>

text \<open>
  C1. A session whose deletion was reported to a client stays deleted, however
  the command loop, the session threads with their own writes and the background
  deletes interleave and whichever transactions fail: from then on it is in no
  session list, no attach or state request brings it back, and its thread, if one
  still runs, has lost its place in the loop. Late metadata reports, a last write
  of the dying thread and the exit of its thread change nothing about that.
\<close>

theorem deleted_session_stays_deleted:
  assumes "sys_reachable env db S" and "readable db" and "sid \<in> set (sy_reported S)"
  shows "map_of (dm_metadata (sy_daemon S)) sid = None \<and> map_of (dm_active (sy_daemon S)) sid = None \<and>
    (\<exists>e. ensure_active_session env sid (sy_daemon S) = (Inl e, sy_daemon S) \<or>
       ensure_active_session env sid (sy_daemon S) = (Inl e, dm_advance (sy_daemon S)))"
proof -
  have "reported_ok S" using reachable_ok [OF assms(1,2)] by (simp add: sys_ok_def)
  then have *: "sid \<notin> vw_listed (sv S)" "sid \<notin> vw_live (sv S)"
      "sid \<in> vw_marked (sv S) \<or> sid \<notin> vw_stored (sv S)"
    using assms(3) by (auto simp: reported_ok_def)
  then have "map_of (dm_metadata (sy_daemon S)) sid = None" "map_of (dm_active (sy_daemon S)) sid = None"
      "sid \<in> set (dm_deleted_sessions (sy_daemon S)) \<or> map_of (tb_sessions (dm_db (sy_daemon S))) sid = None"
    by (auto simp: view_def stored_ids_def)
  then show ?thesis by (auto simp: ensure_active_session_def read_session_def split: option.splits)
qed

text \<open>A session is attached, deleted while its thread runs, and the thread stores its record once more.\<close>

definition one_record :: SessionRecord where
  "one_record = new_record sample_env 5
     \<lparr>cp_title = Some ''t'', cp_parent_session_id = None, cp_working_dir = None, cp_reasoning_effort = None,
      cp_selected_model = None, cp_context_config = None, cp_account_name = None, cp_active_tool_groups = []\<rparr>"

definition one_session_db :: Database where
  "one_session_db = empty_db\<lparr>tb_sessions := [(1, Some one_record)]\<rparr>"

definition by_client :: "client_op \<Rightarrow> system \<Rightarrow> system" where
  "by_client op S = (let d' = run_client_op sample_env (\<lambda>_. False) op (sy_daemon S) in
     S\<lparr>sy_daemon := d', sy_threads := sy_threads S @ spawned (sy_daemon S) d',
       sy_reported := sy_reported S @ reported op d'\<rparr>)"

definition deleted_run :: system where
  "deleted_run = by_client (CO_Delete 1 0) (by_client (CO_Attach 1 0)
     (started (DaemonState_open (\<lambda>_. None) None [] False one_session_db)))"

definition rewritten_run :: system where
  "rewritten_run = deleted_run\<lparr>sy_daemon := (sy_daemon deleted_run)
     \<lparr>dm_db := last_write None 1 one_record (dm_db (sy_daemon deleted_run))\<rparr>\<rparr>"

lemma deleted_run_state:
  "sy_reported deleted_run = [1]" "sy_threads deleted_run = [1]"
  "dm_next_session_id (sy_daemon (started (DaemonState_open (\<lambda>_. None) None [] False one_session_db))) = 2"
  "dm_next_session_id (sy_daemon (by_client (CO_Attach 1 0)
     (started (DaemonState_open (\<lambda>_. None) None [] False one_session_db)))) = 2"
  by code_simp+

lemma by_client_step:
  assumes "dm_next_session_id (sy_daemon S) < dm_next_session_id (sy_daemon S) + 1"
  shows "sys_step sample_env S (by_client op S)"
  unfolding by_client_def Let_def by (rule sys_step.client [OF refl _ assms]) simp

lemma rewritten_run_reachable:
  "sys_reachable sample_env one_session_db rewritten_run" "readable one_session_db"
  "sy_reported rewritten_run = [1]" "map_of (tb_sessions (dm_db (sy_daemon rewritten_run))) 1 \<noteq> None"
proof -
  let ?S0 = "started (DaemonState_open (\<lambda>_. None) None [] False one_session_db)"
  have "sys_reachable sample_env one_session_db (by_client (CO_Attach 1 0) ?S0)"
    by (rule sys_reachable.step [OF sys_reachable.start]) (rule by_client_step, simp add: deleted_run_state)
  then have "sys_reachable sample_env one_session_db deleted_run"
    unfolding deleted_run_def by (rule sys_reachable.step) (rule by_client_step, simp add: deleted_run_state)
  moreover obtain db where db: "db_write_session None 1 one_record (dm_db (sy_daemon deleted_run)) = Inr db"
    by (simp add: db_write_session_def write_session_def Let_def)
  then have "sys_step sample_env deleted_run rewritten_run"
    using sys_step.store [of 1 deleted_run one_record db sample_env]
    by (simp add: rewritten_run_def last_write_def deleted_run_state)
  ultimately show "sys_reachable sample_env one_session_db rewritten_run" by (rule sys_reachable.step)
  show "readable one_session_db" by code_simp
  show "sy_reported rewritten_run = [1]" by (simp add: rewritten_run_def deleted_run_state)
  have "1 \<in> stored_ids db" using db_write_session_ids [OF db] by simp
  then show "map_of (tb_sessions (dm_db (sy_daemon rewritten_run))) 1 \<noteq> None"
    by (auto simp: rewritten_run_def last_write_def db stored_ids_def)
qed

theorem deleted_session_stays_deleted_witness:
  "sys_reachable sample_env one_session_db rewritten_run \<and>
   map_of (tb_sessions (dm_db (sy_daemon rewritten_run))) 1 \<noteq> None \<and>
   map_of (dm_metadata (sy_daemon rewritten_run)) 1 = None"
  using deleted_session_stays_deleted [OF rewritten_run_reachable(1,2), of 1] rewritten_run_reachable by simp



text \<open>
  A delete that fails leaves a ghost behind: when the thread of the session has
  ended but its exit is still to be handled and the delete's transaction fails, the
  client is told of the error, yet the marker stays. Handling the exit then deletes
  the record in the background and drops the marker, while the row of the index is
  never removed: the session is listed for good and can be neither opened nor found.
\<close>

theorem failed_delete_leaves_ghost:
  assumes "map_of (dm_active d) sid \<noteq> None" and "map_of (dm_metadata d) sid \<noteq> None"
    and "finished sid" and "de_db_fault env (dm_tick d) = Some e"
  shows "let d1 = snd (delete_session_inner env finished sid d);
      d2 = handle_session_exited sid d1;
      (db, posts) = finalize_session_delete None None sid (dm_db d2);
      d3 = fold (run_queued env) posts (d2\<lparr>dm_db := db\<rparr>)
    in fst (delete_session_inner env finished sid d) = Inl e \<and>
      sid \<in> fst ` set (dm_metadata d3) \<and> (\<exists>e'. fst (ensure_active_session env sid d3) = Inl e')"
proof -
  obtain d1 where run: "delete_session_inner env finished sid d = (Inl e, d1)"
    using assms by (auto simp: delete_session_inner_def delete_finished_session_def delete_session_def Let_def)
  let ?d2 = "handle_session_exited sid d1"
  have v1: "vw_listed (view d1) = vw_listed (view d)" "vw_live (view d1) = vw_live (view d) - {sid}"
    using delete_inner_view [of env finished sid d] assms(1) unfolding run by (cases; auto simp: view_def)+
  have v2: "vw_listed (view ?d2) = vw_listed (view d)" "sid \<notin> vw_live (view ?d2)" by (simp_all add: view_exited v1)
  obtain db1 where del: "delete_session None sid (dm_db ?d2) = Inr db1" by (simp add: delete_session_def)
  obtain db where clr: "clear_session_tombstone None sid db1 = Inr db" by (simp add: clear_session_tombstone_def)
  have fin: "finalize_session_delete None None sid (dm_db ?d2) = (db, [DC_SessionDeleteFinalized sid])"
    by (simp add: finalize_session_delete_def del clr)
  have db: "sid \<notin> stored_ids db" using db_ids(1) [OF del] db_ids(3) [OF clr] by simp
  define d3 where "d3 = handle_session_delete_finalized sid (?d2\<lparr>dm_db := db\<rparr>)"
  have here: "sid \<in> vw_listed (view d)" using assms(2) by (auto simp: view_def)
  have v3: "sid \<in> vw_listed (view d3)" "sid \<notin> vw_live (view d3)" "sid \<notin> vw_marked (view d3)" "sid \<notin> vw_stored (view d3)"
    using v2 db by (simp_all add: d3_def view_finalized view_db here)
  then have listed: "sid \<in> fst ` set (dm_metadata d3)" by (simp add: view_def dom_map_of_conv_image_fst)
  have "map_of (tb_sessions (dm_db d3)) sid = None" "map_of (dm_active d3) sid = None" "sid \<notin> set (dm_deleted_sessions d3)"
    using v3 by (auto simp: view_def stored_ids_def)
  then have "\<exists>e'. fst (ensure_active_session env sid d3) = Inl e'"
    by (auto simp: ensure_active_session_def read_session_def split: option.split)
  moreover have "fst (delete_session_inner env finished sid d) = Inl e" using run by simp
  ultimately show ?thesis using listed by (simp add: Let_def run fin d3_def)
qed

theorem failed_delete_leaves_ghost_witness:
  "fst (delete_session_inner (sample_env\<lparr>de_db_fault := (\<lambda>_. Some (other_error ''io''))\<rparr>) (\<lambda>_. True) 3 sample_loop) =
     Inl (other_error ''io'')"
  using failed_delete_leaves_ghost [of sample_loop 3 "\<lambda>_. True"
      "sample_env\<lparr>de_db_fault := (\<lambda>_. Some (other_error ''io''))\<rparr>" "other_error ''io''"]
  by (simp add: Let_def sample_loop_def sample_daemon_def case_prod_beta)

end
