(* ===== verification/Request_Messages.thy ===== *)
theory Request_Messages
  imports Session_Handlers
begin

text \<open>
  What a provider is asked (\<open>src/choreo-daemon/src/reasoning.rs\<close>, the message types
  of \<open>src/choreo-ai-protocols\<close>): the transcript of a session as request messages,
  which reasoning is sent back, when the pixels of an image are attached, and when a
  request continues a stored response. The catalog's facts about a model are a
  parameter, read as \<open>cat provider model\<close>.

  The theory shows that every tool call in a request is answered on the wire right
  after the message that made it, which is what providers require, and that image
  bytes go out with the request they belong to only.
\<close>

section \<open>Messages (choreo-ai-protocols)\<close>

record CallerInfo =
  ci_kind :: string
  ci_caller_id :: string

definition caller_to_record :: "CallerInfo \<Rightarrow> ToolCallCaller" where
  "caller_to_record caller = \<lparr>tcc_kind = ci_kind caller, tcc_caller_id = ci_caller_id caller\<rparr>"

definition caller_from_record :: "ToolCallCaller \<Rightarrow> CallerInfo" where
  "caller_from_record caller = \<lparr>ci_kind = tcc_kind caller, ci_caller_id = tcc_caller_id caller\<rparr>"

record AssistantToolFunction =
  atf_name :: string
  atf_arguments :: string

record AssistantToolCall =
  atc_id :: string
  atc_kind :: string
  atc_function :: AssistantToolFunction
  atc_caller :: "CallerInfo option"

record ChatImagePart =
  cip_data :: bytes
  cip_mime_type :: string

record ChatRequestMessage =
  crm_role :: string
  crm_content :: "string option"
  crm_images :: "ChatImagePart list"
  crm_tool_call_id :: "string option"
  crm_tool_calls :: "AssistantToolCall list option"
  crm_reasoning_artifact :: "ReasoningArtifact option"

definition with_images :: "string \<Rightarrow> string \<Rightarrow> ChatImagePart list \<Rightarrow> ChatRequestMessage" where
  "with_images role content images =
     \<lparr>crm_role = role, crm_content = Some content, crm_images = images, crm_tool_call_id = None,
      crm_tool_calls = None, crm_reasoning_artifact = None\<rparr>"

definition simple :: "string \<Rightarrow> string \<Rightarrow> ChatRequestMessage" where
  "simple role content = with_images role content []"

datatype ReasoningPassback = RPB_None | RPB_ToolLoop | RPB_AllTurns | RPB_Signature | RPB_ResponseId

record model_facts =
  mf_passback :: ReasoningPassback
  mf_require_present :: bool
  mf_vision :: bool

type_synonym catalog = "string \<Rightarrow> string \<Rightarrow> model_facts"

section \<open>Reasoning that is sent back (reasoning.rs)\<close>

definition turn_has_tool_involvement :: "Turn \<Rightarrow> bool" where
  "turn_has_tool_involvement turn \<longleftrightarrow> t_tool_calls turn \<noteq> [] \<or> t_tool_results turn \<noteq> []"

definition turn_is_wire_empty :: "Turn \<Rightarrow> bool" where
  "turn_is_wire_empty turn \<longleftrightarrow> t_tool_calls turn = [] \<and>
     (case t_assistant_text turn of None \<Rightarrow> True | Some text \<Rightarrow> trim text = [])"

definition include_reasoning_artifact ::
  "Turn \<Rightarrow> string \<Rightarrow> string \<Rightarrow> ReasoningPassback \<Rightarrow> bool \<Rightarrow> bool" where
  "include_reasoning_artifact turn provider_slug model passback route_requires_field =
     (let same_model = (t_reasoning_producer turn = Some \<lparr>rp_provider_slug = provider_slug, rp_model = model\<rparr>) in
      if \<not> same_model \<or> t_reasoning_artifact turn = None then False
      else
        (let policy_echo = (case passback of
               RPB_None \<Rightarrow> False
             | RPB_ResponseId \<Rightarrow> False
             | RPB_ToolLoop \<Rightarrow> turn_has_tool_involvement turn \<or> route_requires_field
             | RPB_AllTurns \<Rightarrow> True
             | RPB_Signature \<Rightarrow> True);
             can_echo = (passback \<noteq> RPB_None \<and> passback \<noteq> RPB_ResponseId)
         in policy_echo \<or> can_echo \<and> turn_is_wire_empty turn))"

definition chains_via_response_id :: "catalog \<Rightarrow> string \<Rightarrow> string \<Rightarrow> bool" where
  "chains_via_response_id cat provider_slug model = (mf_passback (cat provider_slug model) = RPB_ResponseId)"

definition initial_prev_resp_id :: "catalog \<Rightarrow> SessionState \<Rightarrow> string \<Rightarrow> string \<Rightarrow> string option" where
  "initial_prev_resp_id cat session provider_slug model =
     (let same_producer = (cfg_last_response_id_producer (st_config session) =
            Some \<lparr>rp_provider_slug = provider_slug, rp_model = model\<rparr>)
      in if same_producer \<and> chains_via_response_id cat provider_slug model
         then cfg_last_response_id (st_config session) else None)"

text \<open>The turns whose content or reasoning the model will not see; the code warns of each.\<close>

definition warn_on_uncaptured_reasoning :: "catalog \<Rightarrow> SessionState \<Rightarrow> string \<Rightarrow> string \<Rightarrow> nat" where
  "warn_on_uncaptured_reasoning cat session provider_slug model =
     (let facts = cat provider_slug model in
      length (filter (\<lambda>(_, turn).
        \<not> t_undone turn \<and> (t_assistant_text turn \<noteq> None \<or> t_tool_calls turn \<noteq> []) \<and>
        ((\<not> include_reasoning_artifact turn provider_slug model (mf_passback facts) (mf_require_present facts) \<and>
          turn_is_wire_empty turn) \<or>
         t_reasoning_artifact turn = None \<and> t_assistant_reasoning turn \<noteq> None)) (st_turns session)))"

section \<open>Images of tool results (reasoning.rs)\<close>

definition image_lead :: "ToolResultRecord \<Rightarrow> ImageReference \<Rightarrow> string" where
  "image_lead tr img = ''[image from `'' @ tr_name tr @ ''` tool result: '' @ ir_path img @ '']''"

definition image_decayed :: string where
  "image_decayed = '' '' @ em_dash @ '' the image was shown in an earlier request and is no longer attached as pixels; re-read it with a file tool if you need it again.''"

definition image_unsupported :: string where
  "image_unsupported = '' '' @ em_dash @ '' the active model does not support image input, so the image could not be attached; its metadata is in the tool result above.''"

definition image_unavailable :: string where
  "image_unavailable = '' '' @ em_dash @ '' the image bytes are unavailable (e.g. an old persisted turn); only its text metadata is available.''"

definition tool_result_image_message ::
  "bool \<Rightarrow> bool \<Rightarrow> ToolResultRecord \<Rightarrow> ImageReference \<Rightarrow> ChatRequestMessage" where
  "tool_result_image_message vision attach_images tr img =
     (let lead = image_lead tr img in
      if \<not> attach_images then with_images ''user'' (lead @ image_decayed) []
      else if \<not> vision then with_images ''user'' (lead @ image_unsupported) []
      else if ir_data img = [] then with_images ''user'' (lead @ image_unavailable) []
      else with_images ''user'' lead [\<lparr>cip_data = ir_data img, cip_mime_type = ir_mime_type img\<rparr>])"

definition tool_result_image_messages :: "Turn \<Rightarrow> bool \<Rightarrow> bool \<Rightarrow> ChatRequestMessage list" where
  "tool_result_image_messages turn vision attach_images =
     List.map_filter (\<lambda>tr. map_option (tool_result_image_message vision attach_images tr) (tr_image tr))
       (t_tool_results turn)"

section \<open>The request messages (reasoning.rs)\<close>

definition wire_call :: "AssistantToolCallRecord \<Rightarrow> AssistantToolCall" where
  "wire_call tc = \<lparr>atc_id = tc_call_id tc, atc_kind = ''function'',
     atc_function = \<lparr>atf_name = tc_name tc, atf_arguments = tc_arguments_json tc\<rparr>,
     atc_caller = map_option caller_from_record (tc_caller tc)\<rparr>"

definition assistant_message :: "bool \<Rightarrow> Turn \<Rightarrow> ChatRequestMessage" where
  "assistant_message include_artifact turn =
     \<lparr>crm_role = ''assistant'', crm_content = t_assistant_text turn, crm_images = [], crm_tool_call_id = None,
      crm_tool_calls = (if t_tool_calls turn \<noteq> [] then Some (map wire_call (t_tool_calls turn)) else None),
      crm_reasoning_artifact = (if include_artifact then t_reasoning_artifact turn else None)\<rparr>"

definition tool_message :: "ToolResultRecord \<Rightarrow> ChatRequestMessage" where
  "tool_message tr = \<lparr>crm_role = ''tool'', crm_content = Some (tr_content tr), crm_images = [],
     crm_tool_call_id = Some (tr_call_id tr), crm_tool_calls = None, crm_reasoning_artifact = None\<rparr>"

definition turn_messages ::
  "model_facts \<Rightarrow> string \<Rightarrow> string \<Rightarrow> u32 option \<Rightarrow> u32 \<Rightarrow> Turn \<Rightarrow> ChatRequestMessage list" where
  "turn_messages facts provider_slug model in_flight_from_turn turn_id turn =
     (if t_undone turn then []
      else
        (case t_user_text turn of Some text \<Rightarrow> [simple ''user'' text] | None \<Rightarrow> []) @
        (if t_assistant_text turn \<noteq> None \<or> t_tool_calls turn \<noteq> []
         then [assistant_message (include_reasoning_artifact turn provider_slug model (mf_passback facts)
                 (mf_require_present facts)) turn] else []) @
        map tool_message (t_tool_results turn) @
        tool_result_image_messages turn (mf_vision facts)
          (case in_flight_from_turn of Some first \<Rightarrow> first \<le> turn_id | None \<Rightarrow> False))"

definition build_chat_request_messages ::
  "catalog \<Rightarrow> SessionState \<Rightarrow> string option \<Rightarrow> string \<Rightarrow> string \<Rightarrow> u32 option \<Rightarrow> ChatRequestMessage list" where
  "build_chat_request_messages cat session system_prompt provider_slug model in_flight_from_turn =
     (case system_prompt of Some prompt \<Rightarrow> [simple ''system'' prompt] | None \<Rightarrow> []) @
     concat (map (\<lambda>(turn_id, turn).
       turn_messages (cat provider_slug model) provider_slug model in_flight_from_turn turn_id turn) (st_turns session))"

section \<open>What providers require of a request\<close>

text \<open>
  A message with tool calls is followed at once by one tool message per call, with
  the ids of the calls in their order, and there are no other tool messages.
\<close>

function wire_ok :: "ChatRequestMessage list \<Rightarrow> bool" where
  "wire_ok [] = True"
| "wire_ok (m # ms) = (crm_role m \<noteq> ''tool'' \<and>
     (case crm_tool_calls m of
        None \<Rightarrow> wire_ok ms
      | Some calls \<Rightarrow>
          map (\<lambda>r. (crm_role r, crm_tool_call_id r)) (take (length calls) ms) =
            map (\<lambda>c. (''tool'', Some (atc_id c))) calls \<and>
          wire_ok (drop (length calls) ms)))"
  by pat_completeness auto
termination by (relation "measure length") auto

text \<open>The results of a turn answer its calls.\<close>

definition answered :: "Turn \<Rightarrow> bool" where
  "answered turn \<longleftrightarrow> map tr_call_id (t_tool_results turn) = map tc_call_id (t_tool_calls turn)"

abbreviation all_answered :: "SessionState \<Rightarrow> bool" where
  "all_answered session \<equiv> list_all (\<lambda>(_, turn). t_undone turn \<or> answered turn) (st_turns session)"

lemma wire_ok_plain:
  assumes "list_all (\<lambda>m. crm_role m \<noteq> ''tool'' \<and> crm_tool_calls m = None) ms"
  shows "wire_ok (ms @ rest) = wire_ok rest"
  using assms by (induction ms) simp_all

lemma image_messages_plain:
  "list_all (\<lambda>m. crm_role m \<noteq> ''tool'' \<and> crm_tool_calls m = None) (tool_result_image_messages turn vision attach)"
proof -
  have "crm_role (tool_result_image_message vision attach tr img) = ''user''"
      "crm_tool_calls (tool_result_image_message vision attach tr img) = None" for tr img
    by (simp_all add: tool_result_image_message_def with_images_def Let_def)
  then show ?thesis by (auto simp: tool_result_image_messages_def List.map_filter_def list_all_iff)
qed

lemma wire_ok_turn:
  assumes "t_undone turn \<or> answered turn"
  shows "wire_ok (turn_messages facts slug model in_flight tid turn @ rest) = wire_ok rest"
proof (cases "t_undone turn")
  case False
  let ?images = "tool_result_image_messages turn (mf_vision facts) (case in_flight of Some first \<Rightarrow> first \<le> tid | None \<Rightarrow> False)"
  let ?tools = "map tool_message (t_tool_results turn)"
  let ?asst = "if t_assistant_text turn \<noteq> None \<or> t_tool_calls turn \<noteq> []
         then [assistant_message (include_reasoning_artifact turn slug model (mf_passback facts) (mf_require_present facts)) turn] else []"
  have ans: "map tr_call_id (t_tool_results turn) = map tc_call_id (t_tool_calls turn)"
    using assms False by (simp add: answered_def)
  then have len: "length (t_tool_results turn) = length (t_tool_calls turn)" by (metis length_map)
  have wire: "map (\<lambda>r. (crm_role r, crm_tool_call_id r)) ?tools = map (\<lambda>c. (''tool'', Some (atc_id c))) (map wire_call (t_tool_calls turn))"
    using arg_cong [OF ans, of "map (\<lambda>i. (''tool'', Some i))"] by (simp add: tool_message_def wire_call_def comp_def)
  have "wire_ok (?asst @ ?tools @ ?images @ rest) = wire_ok (?images @ rest)"
  proof (cases "t_tool_calls turn = []")
    case True
    then show ?thesis using len by (simp add: assistant_message_def)
  next
    case calls: False
    then show ?thesis using wire len by (simp add: assistant_message_def)
  qed
  also have "\<dots> = wire_ok rest" by (rule wire_ok_plain [OF image_messages_plain])
  finally have tail: "wire_ok (?asst @ ?tools @ ?images @ rest) = wire_ok rest" .
  have eq: "turn_messages facts slug model in_flight tid turn @ rest =
      (case t_user_text turn of Some text \<Rightarrow> [simple ''user'' text] | None \<Rightarrow> []) @ ?asst @ ?tools @ ?images @ rest"
    using False by (simp only: turn_messages_def if_False append_assoc)
  have user: "list_all (\<lambda>m. crm_role m \<noteq> ''tool'' \<and> crm_tool_calls m = None)
      (case t_user_text turn of Some text \<Rightarrow> [simple ''user'' text] | None \<Rightarrow> [])"
    by (simp add: simple_def with_images_def split: option.split)
  show ?thesis unfolding eq wire_ok_plain [OF user] by (rule tail)
qed (simp add: turn_messages_def)

lemma wire_ok_turns:
  assumes "list_all (\<lambda>(_, turn). t_undone turn \<or> answered turn) turns"
  shows "wire_ok (concat (map (\<lambda>(tid, turn). turn_messages facts slug model in_flight tid turn) turns))"
  using assms by (induction turns) (auto simp: wire_ok_turn)

lemma wire_ok_request: "all_answered session \<Longrightarrow> wire_ok (build_chat_request_messages cat session prompt slug model in_flight)"
  using wire_ok_turns by (simp add: build_chat_request_messages_def simple_def with_images_def split: option.split)

section \<open>Images\<close>

text \<open>The pictures of a turn's results that have bytes, in order.\<close>

definition result_images :: "Turn \<Rightarrow> ChatImagePart list" where
  "result_images turn = List.map_filter (\<lambda>tr. case tr_image tr of
     Some img \<Rightarrow> if ir_data img \<noteq> [] then Some \<lparr>cip_data = ir_data img, cip_mime_type = ir_mime_type img\<rparr> else None
   | None \<Rightarrow> None) (t_tool_results turn)"

lemma image_message_parts:
  "crm_images (tool_result_image_message vision attach tr img) =
     (if attach \<and> vision \<and> ir_data img \<noteq> [] then [\<lparr>cip_data = ir_data img, cip_mime_type = ir_mime_type img\<rparr>] else [])"
  by (simp add: tool_result_image_message_def with_images_def Let_def)

lemma image_messages_images:
  "concat (map crm_images (tool_result_image_messages turn vision attach)) =
     (if attach \<and> vision then result_images turn else [])"
proof -
  have "concat (map crm_images (List.map_filter (\<lambda>tr. map_option (tool_result_image_message vision attach tr) (tr_image tr)) trs)) =
     (if attach \<and> vision then List.map_filter (\<lambda>tr. case tr_image tr of
        Some img \<Rightarrow> if ir_data img \<noteq> [] then Some \<lparr>cip_data = ir_data img, cip_mime_type = ir_mime_type img\<rparr> else None
      | None \<Rightarrow> None) trs else [])" for trs
  proof (induction trs)
    case (Cons a trs)
    then show ?case
      by (cases "tr_image a") (simp_all add: map_filter_simps image_message_parts del: concat_eq_Nil_conv)
  qed (simp add: map_filter_simps)
  then show ?thesis by (simp add: tool_result_image_messages_def result_images_def)
qed

lemma turn_images:
  "concat (map crm_images (turn_messages facts slug model in_flight tid turn)) =
     (if \<not> t_undone turn \<and> mf_vision facts \<and> (\<exists>first. in_flight = Some first \<and> first \<le> tid)
      then result_images turn else [])"
proof -
  have "concat (map (crm_images \<circ> tool_message) trs) = []" for trs
    by (induction trs) (simp_all add: tool_message_def)
  then show ?thesis
    by (simp add: turn_messages_def image_messages_images simple_def with_images_def assistant_message_def
        del: concat_eq_Nil_conv split: option.splits)
qed

section \<open>Properties\<close>

text \<open>
  The pixels of a tool's image go out only with the request they belong to: the
  images attached to the messages of a request are exactly the stored pictures of
  the turns of that request, from the turn it started with on, in the order of the
  transcript, and none at all for a model without vision, for turns that were
  undone, or when no request is under way.
\<close>

theorem images_sent_with_own_request:
  "concat (map crm_images (build_chat_request_messages cat session prompt slug model in_flight)) =
     (if mf_vision (cat slug model) then
        (case in_flight of
           None \<Rightarrow> []
         | Some first \<Rightarrow> concat (map (result_images \<circ> snd)
             (filter (\<lambda>(tid, turn). \<not> t_undone turn \<and> first \<le> tid) (st_turns session))))
      else [])"
proof -
  have "concat (map crm_images (concat (map (\<lambda>(tid, turn). turn_messages facts slug model in_flight tid turn) turns))) =
     (if mf_vision facts then
        (case in_flight of
           None \<Rightarrow> []
         | Some first \<Rightarrow> concat (map (result_images \<circ> snd)
             (filter (\<lambda>(tid, turn). \<not> t_undone turn \<and> first \<le> tid) turns)))
      else [])" for facts turns
  proof (induction turns)
    case (Cons x turns)
    obtain tid turn where x: "x = (tid, turn)" by fastforce
    show ?case
      by (cases in_flight) (use Cons in \<open>simp_all add: x turn_images del: concat_eq_Nil_conv\<close>)
  qed (simp split: option.split)
  then show ?thesis
    by (auto simp: build_chat_request_messages_def simple_def with_images_def split: option.split)
qed

text \<open>
  Reasoning is replayed to the model that produced it and to no other: a message
  carries a turn's reasoning only if the turn was produced by the very provider and
  model the request goes to, and never for a provider whose policy forbids it. A
  stored response is continued under the same condition, and only for providers that
  chain responses.
\<close>

theorem reasoning_stays_with_producer:
  "(include_reasoning_artifact turn slug model passback required \<longrightarrow>
      t_reasoning_producer turn = Some \<lparr>rp_provider_slug = slug, rp_model = model\<rparr> \<and>
      passback \<noteq> RPB_None \<and> passback \<noteq> RPB_ResponseId) \<and>
   (initial_prev_resp_id cat session slug model \<noteq> None \<longrightarrow>
      cfg_last_response_id_producer (st_config session) = Some \<lparr>rp_provider_slug = slug, rp_model = model\<rparr> \<and>
      mf_passback (cat slug model) = RPB_ResponseId)"
  by (auto simp: include_reasoning_artifact_def initial_prev_resp_id_def chains_via_response_id_def Let_def
      split: ReasoningPassback.splits if_splits)

end
