(* ===== verification/Text_Sanitize.thy ===== *)
theory Text_Sanitize
  imports Rust_Str
begin

text \<open>
  What text from tools goes through before the model or a user sees it
  (\<open>src/choreo-sanitize/src/lib.rs\<close> and \<open>src/choreo-daemon/src/tools/sanitize.rs\<close>):
  escaping of control and format characters, the byte cap on a result with room
  reserved for a closing remark, and the byte budget of a stream.

  A string is its UTF-8 bytes; \<open>chars\<close> are its scalar values. Whether a character
  has the general category Format is a table of the crate
  \<open>unicode_general_category\<close> and a parameter here; what is used of it is that no
  ASCII character has that category. Sizes are natural numbers, since nothing here
  adds beyond a limit that fits a machine word.
\<close>

section \<open>Characters (choreo-sanitize/src/lib.rs)\<close>

definition MAX_TOOL_OUTPUT_BYTES :: nat where
  "MAX_TOOL_OUTPUT_BYTES = 128 * 1024"

definition TRUNCATION_MARKER :: string where
  "TRUNCATION_MARKER = ''...[truncated]''"

definition TRUNCATION_SUFFIX :: string where
  "TRUNCATION_SUFFIX = CHR 0x0A # ''...[truncated]''"

definition is_non_joiner_format_char :: "(scalar \<Rightarrow> bool) \<Rightarrow> scalar \<Rightarrow> bool" where
  "is_non_joiner_format_char cf c \<longleftrightarrow> cf c \<and> c \<noteq> 0x200C \<and> c \<noteq> 0x200D"

definition is_unsafe_unicode :: "(scalar \<Rightarrow> bool) \<Rightarrow> scalar \<Rightarrow> bool" where
  "is_unsafe_unicode cf c \<longleftrightarrow> c = 0x2028 \<or> c = 0x2029 \<or> is_non_joiner_format_char cf c"

text \<open>\<open>char::escape_default\<close>.\<close>

definition hex_digit :: "nat \<Rightarrow> scalar" where
  "hex_digit d = (if d < 10 then 48 + d else 87 + d)"

fun hex_digits :: "nat \<Rightarrow> scalar list" where
  "hex_digits n = (if n < 16 then [hex_digit n] else hex_digits (n div 16) @ [hex_digit (n mod 16)])"

declare hex_digits.simps [simp del]

definition escape_default :: "scalar \<Rightarrow> scalar list" where
  "escape_default c =
     (if c = 9 then [92, 116] else if c = 13 then [92, 114] else if c = 10 then [92, 110]
      else if c = 39 \<or> c = 34 \<or> c = 92 then [92, c]
      else if 0x20 \<le> c \<and> c \<le> 0x7E then [c]
      else [92, 117, 123] @ hex_digits c @ [125])"

section \<open>Capping a result (choreo-sanitize/src/lib.rs)\<close>

text \<open>\<open>str::floor_char_boundary\<close>.\<close>

definition is_char_boundary :: "string \<Rightarrow> nat \<Rightarrow> bool" where
  "is_char_boundary s i \<longleftrightarrow> i = 0 \<or> i = length s \<or> i < length s \<and> \<not> is_cont (of_char (s ! i))"

fun boundary_at_or_below :: "string \<Rightarrow> nat \<Rightarrow> nat" where
  "boundary_at_or_below s 0 = 0"
| "boundary_at_or_below s (Suc i) = (if is_char_boundary s (Suc i) then Suc i else boundary_at_or_below s i)"

definition floor_char_boundary :: "string \<Rightarrow> nat \<Rightarrow> nat" where
  "floor_char_boundary s i = (if length s \<le> i then length s else boundary_at_or_below s i)"

definition truncate_tool_output_at :: "string \<Rightarrow> nat \<Rightarrow> string" where
  "truncate_tool_output_at content cap =
     (if length content \<le> cap then content
      else take (floor_char_boundary content cap) content @ TRUNCATION_SUFFIX)"

definition truncate_tool_output :: "string \<Rightarrow> string" where
  "truncate_tool_output content = truncate_tool_output_at content MAX_TOOL_OUTPUT_BYTES"

definition finish_tool_output :: "string \<Rightarrow> string option \<Rightarrow> string" where
  "finish_tool_output body marker = (case marker of
     None \<Rightarrow> truncate_tool_output body
   | Some marker \<Rightarrow>
       (let tail = CHR 0x0A # marker;
            body_cap = MAX_TOOL_OUTPUT_BYTES - (length tail + length TRUNCATION_SUFFIX)
        in truncate_tool_output_at body body_cap @ tail))"

record ByteBudget =
  bb_limit :: nat
  bb_used :: nat
  bb_truncated :: bool
  bb_marker_sent :: bool

definition ByteBudget_new :: "nat \<Rightarrow> ByteBudget" where
  "ByteBudget_new limit = \<lparr>bb_limit = limit, bb_used = 0, bb_truncated = False, bb_marker_sent = False\<rparr>"

definition fit :: "nat \<Rightarrow> ByteBudget \<Rightarrow> nat \<times> ByteBudget" where
  "fit len self =
     (if bb_limit self \<le> bb_used self then (0, self\<lparr>bb_truncated := True\<rparr>)
      else
        (let remaining = bb_limit self - bb_used self in
         if remaining < len
         then (remaining, self\<lparr>bb_used := bb_limit self, bb_truncated := True\<rparr>)
         else (len, self\<lparr>bb_used := bb_used self + len\<rparr>)))"

definition take_marker :: "ByteBudget \<Rightarrow> string option \<times> ByteBudget" where
  "take_marker self =
     (if bb_truncated self \<and> \<not> bb_marker_sent self
      then (Some TRUNCATION_SUFFIX, self\<lparr>bb_marker_sent := True\<rparr>) else (None, self))"

section \<open>Escaping (tools/sanitize.rs)\<close>

definition is_plain_ascii :: "string \<Rightarrow> bool \<Rightarrow> bool" where
  "is_plain_ascii text keep_tabs =
     list_all (\<lambda>b. b = 9 \<and> keep_tabs \<or> 0x20 \<le> b \<and> b \<le> 0x7E) (str_vals text)"

definition sanitize_keeps :: "(scalar \<Rightarrow> bool) \<Rightarrow> scalar \<Rightarrow> bool \<Rightarrow> bool" where
  "sanitize_keeps cf c keep_tabs =
     (if c < 0x80 then c = 9 \<and> keep_tabs \<or> 0x20 \<le> c \<and> c \<le> 0x7E
      else \<not> is_control c \<and> \<not> is_unsafe_unicode cf c)"

definition escape_unless :: "(scalar \<Rightarrow> bool) \<Rightarrow> scalar list \<Rightarrow> scalar list" where
  "escape_unless keeps cs = concat (map (\<lambda>c. if keeps c then [c] else escape_default c) cs)"

definition sanitize_text :: "(scalar \<Rightarrow> bool) \<Rightarrow> string \<Rightarrow> bool \<Rightarrow> string" where
  "sanitize_text cf text keep_tabs =
     (if is_plain_ascii text keep_tabs then text
      else str_of_chars (escape_unless (\<lambda>c. sanitize_keeps cf c keep_tabs) (chars text)))"

definition sanitize_text_len :: "(scalar \<Rightarrow> bool) \<Rightarrow> string \<Rightarrow> bool \<Rightarrow> nat" where
  "sanitize_text_len cf text keep_tabs =
     (if is_plain_ascii text keep_tabs then length text
      else sum_list (map (\<lambda>c. if sanitize_keeps cf c keep_tabs then length (encode_scalar c)
                              else length (escape_default c)) (chars text)))"

definition sanitize_name :: "(scalar \<Rightarrow> bool) \<Rightarrow> string \<Rightarrow> string" where
  "sanitize_name cf name = sanitize_text cf name False"

definition sanitize_content :: "(scalar \<Rightarrow> bool) \<Rightarrow> string \<Rightarrow> string" where
  "sanitize_content cf content = sanitize_text cf content True"

definition sanitize_transcript :: "(scalar \<Rightarrow> bool) \<Rightarrow> string \<Rightarrow> string" where
  "sanitize_transcript cf text =
     (if list_all (\<lambda>b. b < 0x80 \<and> (0x20 \<le> b \<or> b = 10 \<or> b = 9 \<or> b = 13)) (str_vals text) then text
      else str_of_chars (escape_unless (\<lambda>c. \<not> is_non_joiner_format_char cf c) (chars text)))"

definition finish_tool_output_sanitized :: "(scalar \<Rightarrow> bool) \<Rightarrow> string \<Rightarrow> string option \<Rightarrow> string" where
  "finish_tool_output_sanitized cf body marker = finish_tool_output (sanitize_transcript cf body) marker"

text \<open>\<open>text.split('\n')\<close>: one piece more than there are line feeds.\<close>

fun split_lines :: "string \<Rightarrow> string list" where
  "split_lines [] = [[]]"
| "split_lines (c # s) = (if c = CHR 0x0A then [] # split_lines s
     else (case split_lines s of l # ls \<Rightarrow> (c # l) # ls | [] \<Rightarrow> [[c]]))"

definition strip_cr :: "string \<Rightarrow> string" where
  "strip_cr line = (if line \<noteq> [] \<and> last line = CHR 0x0D then butlast line else line)"

definition sanitize_multiline :: "(scalar \<Rightarrow> bool) \<Rightarrow> string \<Rightarrow> string" where
  "sanitize_multiline cf text =
     join [CHR 0x0A] (map (\<lambda>line. sanitize_text cf (strip_cr line) True) (split_lines text))"

definition truncation_marker :: "bool \<Rightarrow> nat \<Rightarrow> string \<Rightarrow> string option" where
  "truncation_marker truncated cap noun =
     (if truncated then Some (''...[truncated at '' @ show_nat cap @ '' '' @ noun @ '']'') else None)"

section \<open>Valid text\<close>

text \<open>A Rust string is always the encoding of scalar values.\<close>

definition valid_str :: "string \<Rightarrow> bool" where
  "valid_str s \<longleftrightarrow> str_of_chars (chars s) = s"

lemma chars_scalar: "list_all is_scalar (chars s)"
  by (simp add: chars_def utf8_scalars_scalar)

lemma valid_of_chars: "list_all is_scalar cs \<Longrightarrow> valid_str (str_of_chars cs)"
  by (simp add: valid_str_def chars_of_chars)

lemma valid_iff: "valid_str s \<longleftrightarrow> (\<exists>cs. list_all is_scalar cs \<and> s = str_of_chars cs)"
  by (metis chars_scalar valid_of_chars valid_str_def)

lemma str_of_chars_append: "str_of_chars (xs @ ys) = str_of_chars xs @ str_of_chars ys"
  by (simp add: str_of_chars_def str_of_vals_def utf8_encode_def)

lemma valid_append: "valid_str a \<Longrightarrow> valid_str b \<Longrightarrow> valid_str (a @ b) \<and> chars (a @ b) = chars a @ chars b"
  by (metis chars_of_chars chars_scalar list_all_append str_of_chars_append valid_of_chars valid_str_def)

lemma length_str_of_chars: "length (str_of_chars cs) = sum_list (map (\<lambda>c. length (encode_scalar c)) cs)"
  by (simp add: str_of_chars_def str_of_vals_def utf8_encode_def length_concat comp_def)

lemma encode_ascii: "list_all (\<lambda>c. c < 0x80) cs \<Longrightarrow> utf8_encode cs = cs"
  by (induction cs) (simp_all add: encode_scalar_def)

lemma ascii_scalar: "list_all (\<lambda>c. c < 0x80) cs \<Longrightarrow> list_all is_scalar cs"
  by (induction cs) (simp_all add: is_scalar_def)

lemma str_vals_inverse: "str_of_vals (str_vals s) = s"
  by (simp add: str_of_vals_def str_vals_def comp_def)

lemma ascii_chars:
  assumes "list_all (\<lambda>b. b < 0x80) (str_vals s)"
  shows "chars s = str_vals s" and "valid_str s"
proof -
  have s: "s = str_of_chars (str_vals s)" by (simp add: str_of_chars_def encode_ascii assms str_vals_inverse)
  show "chars s = str_vals s" by (subst s) (rule chars_of_chars [OF ascii_scalar [OF assms]])
  show "valid_str s" by (subst s) (rule valid_of_chars [OF ascii_scalar [OF assms]])
qed

lemma plain_ascii_chars:
  assumes "is_plain_ascii s kt"
  shows "chars s = str_vals s" "list_all (\<lambda>c. sanitize_keeps cf c kt) (chars s)"
proof -
  have "list_all (\<lambda>b. b < 0x80) (str_vals s)" using assms by (auto simp: is_plain_ascii_def list_all_iff)
  then show chars: "chars s = str_vals s" by (rule ascii_chars)
  show "list_all (\<lambda>c. sanitize_keeps cf c kt) (chars s)"
    using assms by (auto simp: chars is_plain_ascii_def sanitize_keeps_def list_all_iff)
qed

section \<open>Escaping\<close>

lemma hex_digits_printable: "list_all (\<lambda>c. 0x20 \<le> c \<and> c \<le> 0x7E) (hex_digits n)"
proof (induction n rule: hex_digits.induct)
  case (1 n)
  have "0x20 \<le> hex_digit d \<and> hex_digit d \<le> 0x7E" if "d < 16" for d
    using that by (simp add: hex_digit_def)
  then show ?case using 1 by (subst hex_digits.simps) simp
qed

lemma escape_printable: "list_all (\<lambda>c. 0x20 \<le> c \<and> c \<le> 0x7E) (escape_default c)"
  using hex_digits_printable [of c] by (auto simp: escape_default_def)

lemma escape_unless_append: "escape_unless keeps (xs @ ys) = escape_unless keeps xs @ escape_unless keeps ys"
  by (simp add: escape_unless_def)

lemma escape_unless_none: "list_all keeps cs \<Longrightarrow> escape_unless keeps cs = cs"
  by (induction cs) (simp_all add: escape_unless_def)

lemma escape_unless_keeps:
  assumes "\<And>c. 0x20 \<le> c \<Longrightarrow> c \<le> 0x7E \<Longrightarrow> keeps c"
  shows "list_all keeps (escape_unless keeps cs)"
proof -
  have "list_all keeps (escape_default c)" for c
    using escape_printable [of c] assms by (auto simp: list_all_iff)
  then show ?thesis by (induction cs) (simp_all add: escape_unless_def)
qed

lemma escape_unless_scalar: "list_all is_scalar cs \<Longrightarrow> list_all is_scalar (escape_unless keeps cs)"
proof (induction cs)
  case (Cons c cs)
  have "list_all is_scalar (escape_default c)"
    using escape_printable [of c] by (auto simp: list_all_iff is_scalar_def)
  then show ?case using Cons by (simp add: escape_unless_def)
qed (simp add: escape_unless_def)

lemma length_escape: "sum_list (map (\<lambda>c. length (encode_scalar c)) (escape_default c)) = length (escape_default c)"
proof -
  have "map (\<lambda>c. length (encode_scalar c)) (escape_default c) = map (\<lambda>_. 1) (escape_default c)"
    using escape_printable [of c] by (intro map_cong) (auto simp: list_all_iff encode_scalar_def)
  from arg_cong [where f = sum_list, OF this] show ?thesis by (simp only: sum_list_triv) simp
qed

lemma length_escape_unless:
  "length (str_of_chars (escape_unless keeps cs)) =
     sum_list (map (\<lambda>c. if keeps c then length (encode_scalar c) else length (escape_default c)) cs)"
  unfolding length_str_of_chars by (induction cs) (simp_all add: escape_unless_def length_escape)

text \<open>On text that is kept as it is, the fast path and the loop agree.\<close>

lemma sanitize_text_slow:
  assumes "valid_str text"
  shows "sanitize_text cf text kt = str_of_chars (escape_unless (\<lambda>c. sanitize_keeps cf c kt) (chars text))"
  using assms escape_unless_none [OF plain_ascii_chars(2)] by (auto simp: sanitize_text_def valid_str_def)

lemma chars_sanitize_text:
  assumes "valid_str text"
  shows "chars (sanitize_text cf text kt) = escape_unless (\<lambda>c. sanitize_keeps cf c kt) (chars text)"
  unfolding sanitize_text_slow [OF assms] by (rule chars_of_chars [OF escape_unless_scalar [OF chars_scalar]])

lemma valid_sanitize_text: "valid_str text \<Longrightarrow> valid_str (sanitize_text cf text kt)"
  by (simp add: sanitize_text_slow valid_of_chars [OF escape_unless_scalar [OF chars_scalar]])

section \<open>Capping\<close>

lemma encode_scalar_conts:
  assumes "is_scalar c" and "0 < i" and "i < length (encode_scalar c)"
  shows "is_cont (encode_scalar c ! i)"
proof -
  have "i = 1 \<or> i = 2 \<or> i = 3"
    using assms(2,3) by (auto simp: encode_scalar_length split: if_splits)
  then show ?thesis
    using assms by (auto simp: encode_scalar_def is_cont_def is_scalar_def split: if_splits)
qed

text \<open>A cut before a byte that starts a character keeps whole characters.\<close>

lemma take_boundary:
  assumes "list_all is_scalar cs" and "i < length (utf8_encode cs)" and "\<not> is_cont (utf8_encode cs ! i)"
  shows "\<exists>k. take i (utf8_encode cs) = utf8_encode (take k cs)"
  using assms
proof (induction cs arbitrary: i)
  case (Cons c cs)
  show ?case
  proof (cases "i < length (encode_scalar c)")
    case True
    then have "i = 0" using Cons.prems encode_scalar_conts [of c i] by (auto simp: nth_append)
    then show ?thesis by (intro exI [of _ 0]) simp
  next
    case False
    let ?j = "i - length (encode_scalar c)"
    have "\<exists>k. take ?j (utf8_encode cs) = utf8_encode (take k cs)"
      using Cons.prems False by (intro Cons.IH) (auto simp: nth_append)
    then obtain k where "take ?j (utf8_encode cs) = utf8_encode (take k cs)" ..
    then have "take i (utf8_encode (c # cs)) = utf8_encode (take (Suc k) (c # cs))" using False by simp
    then show ?thesis by blast
  qed
qed simp

lemma boundary_at_or_below: "is_char_boundary s (boundary_at_or_below s i) \<and> boundary_at_or_below s i \<le> i"
  by (induction i) (auto simp: is_char_boundary_def)

lemma floor_char_boundary_le: "floor_char_boundary s i \<le> i"
  using boundary_at_or_below [of s i] by (simp add: floor_char_boundary_def)

lemma take_floor:
  assumes "valid_str s"
  shows "\<exists>k. take (floor_char_boundary s i) s = str_of_chars (take k (chars s))"
proof -
  let ?i = "floor_char_boundary s i" and ?e = "utf8_encode (chars s)"
  have s: "s = map char_of ?e" using assms by (simp add: valid_str_def str_of_chars_def str_of_vals_def)
  have b: "is_char_boundary s ?i"
    using boundary_at_or_below [of s i] by (auto simp: floor_char_boundary_def is_char_boundary_def)
  consider "?i = 0" | "?i = length s" | "?i < length s" "\<not> is_cont (of_char (s ! ?i))"
    using b by (auto simp: is_char_boundary_def)
  then show ?thesis
  proof cases
    case 1
    then show ?thesis by (intro exI [of _ 0]) (simp add: str_of_chars_def str_of_vals_def)
  next
    case 2
    then show ?thesis using assms by (intro exI [of _ "length (chars s)"]) (simp add: valid_str_def)
  next
    case 3
    have len: "?i < length ?e" using 3(1) s by (metis length_map)
    have "?e ! ?i < 256" using utf8_encode_bytes [OF chars_scalar [of s]] nth_mem [OF len] by auto
    moreover have "s ! ?i = char_of (?e ! ?i)" using len s by (metis nth_map)
    ultimately have "\<not> is_cont (?e ! ?i)" using 3(2) by (simp add: of_char_of)
    then obtain k where "take ?i ?e = utf8_encode (take k (chars s))"
      using take_boundary [OF chars_scalar len] by blast
    then have "take ?i s = map char_of (utf8_encode (take k (chars s)))" using s by (metis take_map)
    then show ?thesis by (intro exI [of _ k]) (simp add: str_of_chars_def str_of_vals_def)
  qed
qed

lemma valid_take_floor: "valid_str s \<Longrightarrow> valid_str (take (floor_char_boundary s i) s)"
proof -
  assume "valid_str s"
  from take_floor [OF this, of i] obtain k where k: "take (floor_char_boundary s i) s = str_of_chars (take k (chars s))" ..
  have "list_all is_scalar (take k (chars s))"
    using chars_scalar [of s] by (auto simp: list_all_iff dest: in_set_takeD)
  then show ?thesis unfolding k by (rule valid_of_chars)
qed

lemma suffix_valid: "valid_str TRUNCATION_SUFFIX" "length TRUNCATION_SUFFIX = 15"
  by (rule ascii_chars) (simp_all add: TRUNCATION_SUFFIX_def str_vals_def)

lemma truncate_at_bounds:
  "length content \<le> cap \<or> length (truncate_tool_output_at content cap) \<le> cap + length TRUNCATION_SUFFIX"
  "length content \<le> cap \<Longrightarrow> truncate_tool_output_at content cap = content"
  using floor_char_boundary_le [of content cap] by (auto simp: truncate_tool_output_at_def)

lemma valid_truncate_at: "valid_str content \<Longrightarrow> valid_str (truncate_tool_output_at content cap)"
  using valid_append [OF valid_take_floor suffix_valid(1)] by (simp add: truncate_tool_output_at_def)

section \<open>Transcript text\<close>

lemma ascii_no_format:
  assumes "\<And>c. c < 0x80 \<Longrightarrow> \<not> cf c" and "list_all (\<lambda>b. b < 0x80) (str_vals s)"
  shows "list_all (\<lambda>c. \<not> is_non_joiner_format_char cf c) (chars s)"
  using assms by (auto simp: ascii_chars(1) list_all_iff is_non_joiner_format_char_def)

lemma sanitize_transcript_slow:
  assumes "\<And>c. c < 0x80 \<Longrightarrow> \<not> cf c" and "valid_str text"
  shows "sanitize_transcript cf text =
    str_of_chars (escape_unless (\<lambda>c. \<not> is_non_joiner_format_char cf c) (chars text))"
proof (cases "list_all (\<lambda>b. b < 0x80) (str_vals text)")
  case True
  have "escape_unless (\<lambda>c. \<not> is_non_joiner_format_char cf c) (chars text) = chars text"
    by (rule escape_unless_none [OF ascii_no_format [OF assms(1) True]])
  then show ?thesis using assms(2) by (simp add: sanitize_transcript_def valid_str_def)
next
  case False
  then have "\<not> list_all (\<lambda>b. b < 0x80 \<and> (0x20 \<le> b \<or> b = 10 \<or> b = 9 \<or> b = 13)) (str_vals text)"
    by (auto simp: list_all_iff)
  then show ?thesis by (simp add: sanitize_transcript_def)
qed

text \<open>Nothing is left to escape.\<close>

definition clean :: "(scalar \<Rightarrow> bool) \<Rightarrow> string \<Rightarrow> bool" where
  "clean cf s \<longleftrightarrow> valid_str s \<and> list_all (\<lambda>c. \<not> is_non_joiner_format_char cf c) (chars s)"

lemma sanitize_transcript_clean:
  assumes "\<And>c. c < 0x80 \<Longrightarrow> \<not> cf c" and "valid_str text"
  shows "clean cf (sanitize_transcript cf text)"
proof -
  let ?cs = "escape_unless (\<lambda>c. \<not> is_non_joiner_format_char cf c) (chars text)"
  have "list_all is_scalar ?cs" by (rule escape_unless_scalar [OF chars_scalar])
  moreover have "list_all (\<lambda>c. \<not> is_non_joiner_format_char cf c) ?cs"
    by (rule escape_unless_keeps) (use assms(1) in \<open>auto simp: is_non_joiner_format_char_def\<close>)
  ultimately show ?thesis
    by (simp add: clean_def sanitize_transcript_slow [OF assms] chars_of_chars valid_of_chars)
qed

lemma clean_fixed: "(\<And>c. c < 0x80 \<Longrightarrow> \<not> cf c) \<Longrightarrow> clean cf s \<Longrightarrow> sanitize_transcript cf s = s"
  by (simp add: clean_def sanitize_transcript_slow escape_unless_none valid_str_def)

lemma clean_append: "clean cf a \<Longrightarrow> clean cf b \<Longrightarrow> clean cf (a @ b)"
  using valid_append [of a b] by (simp add: clean_def)

lemma clean_ascii:
  "(\<And>c. c < 0x80 \<Longrightarrow> \<not> cf c) \<Longrightarrow> list_all (\<lambda>b. b < 0x80) (str_vals s) \<Longrightarrow> clean cf s"
  by (simp add: clean_def ascii_no_format ascii_chars(2))

lemma clean_take_floor:
  assumes "clean cf s"
  shows "clean cf (take (floor_char_boundary s i) s)"
proof -
  have v: "valid_str s" using assms by (simp add: clean_def)
  obtain k where k: "take (floor_char_boundary s i) s = str_of_chars (take k (chars s))" using take_floor [OF v] ..
  have "list_all is_scalar (take k (chars s))"
    using chars_scalar [of s] by (auto simp: list_all_iff dest: in_set_takeD)
  then have "chars (str_of_chars (take k (chars s))) = take k (chars s)" by (rule chars_of_chars)
  then show ?thesis
    using assms valid_take_floor [OF v, of i] by (auto simp: clean_def k list_all_iff dest: in_set_takeD)
qed

lemma clean_truncate_at:
  assumes "\<And>c. c < 0x80 \<Longrightarrow> \<not> cf c" and "clean cf s"
  shows "clean cf (truncate_tool_output_at s cap)"
proof -
  have "clean cf TRUNCATION_SUFFIX"
    by (rule clean_ascii [OF assms(1)]) (simp_all add: TRUNCATION_SUFFIX_def str_vals_def)
  then show ?thesis
    using clean_append [OF clean_take_floor [OF assms(2)]] assms(2) by (simp add: truncate_tool_output_at_def)
qed

section \<open>Properties\<close>

text \<open>
  C35. Sanitised text is inert: every character of the result is one that may be kept
  (a printable ASCII character, a tab where tabs are kept, or a character that is
  neither a control, a line or paragraph separator, nor an invisible format
  character), so a hostile name stays on one line; sanitising again changes nothing;
  and the length function that avoids building the text returns exactly its length.
\<close>

theorem sanitize_text_inert:
  assumes "valid_str text"
  shows "valid_str (sanitize_text cf text kt) \<and>
    list_all (\<lambda>c. sanitize_keeps cf c kt) (chars (sanitize_text cf text kt)) \<and>
    sanitize_text cf (sanitize_text cf text kt) kt = sanitize_text cf text kt \<and>
    length (sanitize_text cf text kt) = sanitize_text_len cf text kt"
proof -
  let ?keeps = "\<lambda>c. sanitize_keeps cf c kt"
  have v: "valid_str (sanitize_text cf text kt)" by (rule valid_sanitize_text [OF assms])
  have keeps: "list_all ?keeps (chars (sanitize_text cf text kt))"
    unfolding chars_sanitize_text [OF assms] by (rule escape_unless_keeps) (simp add: sanitize_keeps_def)
  have "sanitize_text cf (sanitize_text cf text kt) kt = sanitize_text cf text kt"
    using v by (simp add: sanitize_text_slow [OF v] escape_unless_none [OF keeps] valid_str_def)
  moreover have "length (sanitize_text cf text kt) = sanitize_text_len cf text kt"
    by (simp add: sanitize_text_def sanitize_text_len_def length_escape_unless)
  ultimately show ?thesis using v keeps by simp
qed

theorem sanitize_text_inert_witness:
  "valid_str (str_of_chars [97, 0x202E, 10, 98]) \<and>
   list_all (\<lambda>c. sanitize_keeps (\<lambda>c. c = 0x202E) c False)
     (chars (sanitize_text (\<lambda>c. c = 0x202E) (str_of_chars [97, 0x202E, 10, 98]) False))"
proof -
  have "valid_str (str_of_chars [97, 0x202E, 10, 98])" by (rule valid_of_chars) (simp add: is_scalar_def)
  then show ?thesis using sanitize_text_inert [of "str_of_chars [97, 0x202E, 10, 98]" "\<lambda>c. c = 0x202E" False] by blast
qed

text \<open>
  The closing remark of a tool result reaches the transcript: a result finished
  with a remark that is itself free of format characters and fits the budget has at
  most the budgeted size, ends with the remark on its own line, and the escaping and
  the cap applied once more when the result is recorded leave it untouched.
\<close>

theorem finished_tail_survives:
  assumes cf: "\<forall>c < 0x80. \<not> cf c" and body: "valid_str body" and tail: "clean cf tail"
    and room: "length tail + 16 \<le> MAX_TOOL_OUTPUT_BYTES"
  shows "let out = finish_tool_output_sanitized cf body (Some tail)
    in length out \<le> MAX_TOOL_OUTPUT_BYTES \<and> (\<exists>front. out = front @ CHR 0x0A # tail) \<and>
      truncate_tool_output (sanitize_transcript cf out) = out"
proof -
  have cf: "\<And>c. c < 0x80 \<Longrightarrow> \<not> cf c" using assms(1) by blast
  let ?b = "sanitize_transcript cf body" and ?cap = "MAX_TOOL_OUTPUT_BYTES - (Suc (length tail) + 15)"
  let ?front = "truncate_tool_output_at ?b ?cap"
  let ?out = "finish_tool_output_sanitized cf body (Some tail)"
  have out: "?out = ?front @ CHR 0x0A # tail"
    by (simp add: finish_tool_output_sanitized_def finish_tool_output_def Let_def suffix_valid)
  have "length ?front \<le> ?cap + 15" using truncate_at_bounds [of ?b ?cap] suffix_valid by auto
  then have len: "length ?out \<le> MAX_TOOL_OUTPUT_BYTES" using room by (simp add: out)
  have "clean cf [CHR 0x0A]" by (rule clean_ascii [OF cf]) (simp_all add: str_vals_def)
  then have "clean cf (CHR 0x0A # tail)" using clean_append [OF _ tail, of "[CHR 0x0A]"] by simp
  moreover have "clean cf ?front" by (rule clean_truncate_at [OF cf sanitize_transcript_clean [OF cf body]])
  ultimately have "clean cf ?out" unfolding out by (rule clean_append [rotated])
  then have "truncate_tool_output (sanitize_transcript cf ?out) = ?out"
    using len by (simp add: clean_fixed [OF cf] truncate_tool_output_def truncate_at_bounds)
  then show ?thesis using len out by (auto simp: Let_def)
qed

theorem finished_tail_survives_witness:
  "truncate_tool_output (sanitize_transcript (\<lambda>c. c = 0x202E)
     (finish_tool_output_sanitized (\<lambda>c. c = 0x202E) ''ok'' (Some ''exit 0''))) =
   finish_tool_output_sanitized (\<lambda>c. c = 0x202E) ''ok'' (Some ''exit 0'')"
proof -
  have "list_all (\<lambda>b. b < 0x80) (str_vals ''exit 0'')" "list_all (\<lambda>b. b < 0x80) (str_vals ''ok'')"
    by (simp_all add: str_vals_def)
  then have "clean (\<lambda>c. c = 0x202E) ''exit 0''" "valid_str ''ok''"
    by (auto intro: clean_ascii ascii_chars(2))
  then show ?thesis
    using finished_tail_survives [of "\<lambda>c. c = 0x202E" "''ok''" "''exit 0''"]
    by (simp add: Let_def MAX_TOOL_OUTPUT_BYTES_def)
qed

text \<open>The chunks of a stream as a budget passes them on, and the markers given out after each.\<close>

fun run_budget :: "nat list \<Rightarrow> ByteBudget \<Rightarrow> nat list \<times> string list \<times> ByteBudget" where
  "run_budget [] self = ([], [], self)"
| "run_budget (len # lens) self =
     (case fit len self of (n, self) \<Rightarrow> (case take_marker self of (marker, self) \<Rightarrow>
        (case run_budget lens self of (ns, markers, self) \<Rightarrow>
          (n # ns, (case marker of Some m \<Rightarrow> [m] | None \<Rightarrow> []) @ markers, self))))"

lemma run_budget_spec:
  assumes "bb_used b \<le> bb_limit b" and "0 \<notin> set lens" and "bb_truncated b = bb_marker_sent b"
    and "bb_truncated b \<longrightarrow> bb_used b = bb_limit b"
    and "run_budget lens b = (ns, markers, b')"
  shows "sum_list ns = min (sum_list lens) (bb_limit b - bb_used b) \<and> list_all2 (\<le>) ns lens \<and>
    markers = (if \<not> bb_marker_sent b \<and> bb_limit b - bb_used b < sum_list lens then [TRUNCATION_SUFFIX] else [])"
  using assms
proof (induction lens arbitrary: b ns markers)
  case (Cons len lens)
  obtain n b1 where fit: "fit len b = (n, b1)" by fastforce
  obtain m b2 where mk: "take_marker b1 = (m, b2)" by fastforce
  obtain ns2 ms2 where rest: "run_budget lens b2 = (ns2, ms2, b')"
    using Cons.prems(5) by (auto simp: fit mk split: prod.splits)
  have res: "ns = n # ns2" "markers = (case m of Some m \<Rightarrow> [m] | None \<Rightarrow> []) @ ms2"
    using Cons.prems(5) by (auto simp: fit mk rest)
  have pos: "0 < len" "0 \<notin> set lens" using Cons.prems(2) by auto
  have inv: "bb_used b2 \<le> bb_limit b2" "bb_truncated b2 = bb_marker_sent b2" "bb_limit b2 = bb_limit b"
      "bb_truncated b2 \<longrightarrow> bb_used b2 = bb_limit b2"
    using Cons.prems fit mk by (auto simp: fit_def take_marker_def Let_def split: if_splits)
  note IH = Cons.IH [OF inv(1) pos(2) inv(2,4) rest]
  show ?case
    using IH Cons.prems(1,3,4) pos(1) fit mk unfolding res
    by (auto simp: fit_def take_marker_def Let_def split: if_splits)
qed simp

text \<open>
  A stream is cut exactly at its budget and says so once: of chunks that are not
  empty, as many bytes are passed on as arrive or as the budget allows, whichever is
  less, none of a chunk beyond its length, and the truncation marker is given out
  once if anything was dropped and never otherwise.
\<close>

theorem byte_budget_exact:
  assumes "0 \<notin> set lens" and "run_budget lens (ByteBudget_new limit) = (ns, markers, b)"
  shows "sum_list ns = min (sum_list lens) limit \<and> list_all2 (\<le>) ns lens \<and>
    markers = (if limit < sum_list lens then [TRUNCATION_SUFFIX] else [])"
  using run_budget_spec [OF _ assms(1) _ _ assms(2)] by (simp add: ByteBudget_new_def)

theorem byte_budget_exact_witness:
  "\<exists>ns markers b. run_budget [3, 4, 2] (ByteBudget_new 5) = (ns, markers, b) \<and> sum_list ns = 5 \<and>
     markers = [TRUNCATION_SUFFIX]"
proof -
  obtain ns markers b where r: "run_budget [3, 4, 2] (ByteBudget_new 5) = (ns, markers, b)" by (metis prod_cases3)
  then show ?thesis using byte_budget_exact [of "[3, 4, 2]" 5 ns markers b] by auto
qed

end
