(* ===== verification/Tool_Execution.thy ===== *)
theory Tool_Execution
  imports Request_Messages Text_Sanitize
begin

text \<open>
  What a request worker does around one tool call
  (\<open>src/choreo-daemon/src/requests/tool_execution.rs\<close> and
  \<open>requests/system_content.rs\<close>): how long a tool may run, what its result is when it
  ends, fails, is cancelled, times out or panics, what is recorded and announced of
  it, and how a batch of tools that run at the same time is collected.

  The worker owns a copy of the session; the commands it sends to the session's
  control thread are collected in \<open>ag_cmds\<close>. Tools, JSON parsing, skill and
  context discovery are parameters. A thread that waits for something reports which
  event came first; the order in which the tools of a batch report, and when a
  cancellation is seen between two reports, are parameters as well.
\<close>

section \<open>The worker\<close>

record ChatToolCall =
  ctc_id :: string
  ctc_name :: string
  ctc_arguments_json :: string
  ctc_caller :: "CallerInfo option"

record PreparedImage =
  pi_mime_type :: string
  pi_data :: bytes
  pi_width :: u32
  pi_height :: u32
  pi_alt :: "string option"

record ChatTurnRequest =
  ctr_model :: string
  ctr_messages :: "ChatRequestMessage list"
  ctr_tools :: "string list"
  ctr_thinking_effort :: string
  ctr_previous_response_id :: "string option"
  ctr_session_id :: string
  ctr_request_id :: string

text \<open>What \<open>try_recv\<close> finds; a tool's result is its output or the text of its error.\<close>

datatype 'a try_recv = TR_Got 'a | TR_Empty | TR_Disconnected

type_synonym exec_msg = "string + ToolOutput"

text \<open>
  Which event a wait for a tool ends with: a cancellation or the deadline (with what
  is in the result channel then), or the result itself, absent if the tool panicked.
\<close>

datatype tool_wait =
    TW_Result "exec_msg option"
  | TW_Stopped "exec_msg try_recv"
  | TW_Deadline "exec_msg try_recv"

record ToolEnv =
  te_format_category :: "scalar \<Rightarrow> bool"
  te_json_string :: "string \<Rightarrow> string \<Rightarrow> string option"
  te_json_u64 :: "string \<Rightarrow> string \<Rightarrow> u64 option"
  te_parse_groups :: "string \<Rightarrow> string list option"
  te_parse_working_dir :: "string \<Rightarrow> string option"
  te_resolve_working_dir :: "nat \<Rightarrow> string \<Rightarrow> string option \<Rightarrow> string option"
  te_discover_skills :: "nat \<Rightarrow> string option \<Rightarrow> SkillMeta list"
  te_load_skill_body :: "nat \<Rightarrow> SkillMeta list \<Rightarrow> string \<Rightarrow> string option"
  te_subdirectory_hints :: "nat \<Rightarrow> string \<Rightarrow> string \<Rightarrow> string option \<Rightarrow> string list \<Rightarrow> (string \<times> string list) option"
  te_describe_invocation :: "nat \<Rightarrow> ChatToolCall \<Rightarrow> string"
  te_serial_wait :: "nat \<Rightarrow> ChatToolCall \<Rightarrow> tool_wait \<times> PreparedImage option"
  te_batch_wait :: "nat \<Rightarrow> nat \<Rightarrow> tool_wait \<times> PreparedImage option"
  te_batch_order :: "nat \<Rightarrow> nat list"
  te_batch_cancel :: "nat \<Rightarrow> nat option"
  te_cancelled :: "nat \<Rightarrow> bool"
  te_session_alive :: "nat \<Rightarrow> bool"

record agent =
  ag_session :: SessionState
  ag_client :: InferenceProvider
  ag_prev_resp_id :: "string option"
  ag_known_hint_paths :: "string list"
  ag_pending_hints :: "string list"
  ag_pending_user_text :: "string option"
  ag_truncation_recoveries :: u32
  ag_turn_iter :: u32
  ag_world :: world
  ag_cmds :: "SessionCommand list"
  ag_requests :: "ChatTurnRequest list"
  ag_armed :: "ToolWindowWarm list"
  ag_warm_cancels :: nat

definition ag_tick :: "agent \<Rightarrow> nat" where
  "ag_tick a = w_tick (ag_world a)"

definition ag_advance :: "agent \<Rightarrow> agent" where
  "ag_advance a = a\<lparr>ag_world := tick (ag_world a)\<rparr>"

definition on_session :: "(SessionState \<Rightarrow> SessionState) \<Rightarrow> agent \<Rightarrow> agent" where
  "on_session f a = a\<lparr>ag_session := f (ag_session a)\<rparr>"

text \<open>A command for the control thread; it is lost if that thread is gone.\<close>

definition cmd_alive :: "ToolEnv \<Rightarrow> agent \<Rightarrow> bool" where
  "cmd_alive te a = te_session_alive te (length (ag_cmds a))"

definition send_cmd :: "ToolEnv \<Rightarrow> SessionCommand \<Rightarrow> agent \<Rightarrow> agent" where
  "send_cmd te cmd a = (if cmd_alive te a then a\<lparr>ag_cmds := ag_cmds a @ [cmd]\<rparr> else a)"

definition send_event :: "ToolEnv \<Rightarrow> RequestContext \<Rightarrow> SessionEvent \<Rightarrow> agent \<Rightarrow> agent" where
  "send_event te ctx event = send_cmd te (SC_Broadcast (DM_Session (Some (ctx_session_id ctx)) event))"

section \<open>Announcing and storing (tool_execution.rs)\<close>

definition broadcast_turn_appended :: "ToolEnv \<Rightarrow> RequestContext \<Rightarrow> u32 \<Rightarrow> agent \<Rightarrow> agent" where
  "broadcast_turn_appended te ctx turn_id a = (case map_of (st_turns (ag_session a)) turn_id of
     Some turn \<Rightarrow> send_event te ctx (SE_TurnAppended turn_id (turn_for_client turn)) a
   | None \<Rightarrow> a)"

definition store_attachment :: "RequestContext \<Rightarrow> u32 \<Rightarrow> ImageKey \<Rightarrow> bytes \<Rightarrow> agent \<Rightarrow> agent" where
  "store_attachment ctx turn_id key data a =
     (let w = ag_world a in
      case write_attachment (ctx_db_fault ctx (w_tick w) 0) (ctx_session_id ctx) turn_id key data (w_db w) of
        Inl e \<Rightarrow> ag_advance a
      | Inr db \<Rightarrow> ag_advance (a\<lparr>ag_world := w\<lparr>w_db := db\<rparr>\<rparr>))"

definition emit_image ::
  "ToolEnv \<Rightarrow> RequestContext \<Rightarrow> PreparedImage \<Rightarrow> string option \<Rightarrow> u32 \<Rightarrow> agent \<Rightarrow> agent" where
  "emit_image te ctx picture tool_call_id turn_id a =
     (let record = \<lparr>di_metadata = \<lparr>im_mime_type = pi_mime_type picture, im_width = pi_width picture,
            im_height = pi_height picture, im_byte_len = of_nat (length (pi_data picture)), im_alt = pi_alt picture\<rparr>,
          di_data = pi_data picture, di_tool_call_id = tool_call_id\<rparr>;
          index = (case map_of (st_turns (ag_session a)) turn_id of
             Some t \<Rightarrow> length (t_displayed_images t) | None \<Rightarrow> 0);
          index = (if index < 2 ^ 32 then of_nat index else (- 1 :: u32));
          a = store_attachment ctx turn_id (IK_Displayed index) (di_data record) a;
          a = on_session (add_displayed_image turn_id record) a
      in broadcast_turn_appended te ctx turn_id a)"

definition is_cancelled_once :: "ToolEnv \<Rightarrow> agent \<Rightarrow> bool \<times> agent" where
  "is_cancelled_once te a = (te_cancelled te (ag_tick a), ag_advance a)"

definition accumulate_token_usage :: "TokenUsage option \<Rightarrow> SessionState \<Rightarrow> SessionState" where
  "accumulate_token_usage token_usage session = (case token_usage of
     None \<Rightarrow> session
   | Some u \<Rightarrow> session\<lparr>st_config := (st_config session)
       \<lparr>cfg_accumulated_usage := accumulate (cfg_accumulated_usage (st_config session)) u,
        cfg_last_prompt_tokens := Some (input_tokens u)\<rparr>\<rparr>)"

definition broadcast_token_usage :: "ToolEnv \<Rightarrow> agent \<Rightarrow> agent" where
  "broadcast_token_usage te a =
     send_cmd te (SC_SyncAccumulatedUsage (cfg_accumulated_usage (st_config (ag_session a)))
       (cfg_last_prompt_tokens (st_config (ag_session a)))) a"

definition mark_persisted :: "u32 \<Rightarrow> SessionState \<Rightarrow> SessionState" where
  "mark_persisted turn_id session = session\<lparr>st_persisted_turns := hs_insert turn_id (st_persisted_turns session)\<rparr>"

text \<open>Storing a turn with its retries; the worker's clock moves on once.\<close>

definition store_turn :: "RequestContext \<Rightarrow> u32 \<Rightarrow> agent \<Rightarrow> io_error option \<times> agent" where
  "store_turn ctx turn_id a =
     (let w = ag_world a in
      case finalize_turn (ctx_db_fault ctx (w_tick w)) (ctx_session_id ctx) turn_id (ag_session a) (w_db w) of
        Inl e \<Rightarrow> (Some e, ag_advance a)
      | Inr db \<Rightarrow> (None, on_session (mark_persisted turn_id) (ag_advance (a\<lparr>ag_world := w\<lparr>w_db := db\<rparr>\<rparr>))))"

definition finalize_and_broadcast_turn ::
  "ToolEnv \<Rightarrow> RequestContext \<Rightarrow> u32 \<Rightarrow> agent \<Rightarrow> io_error option \<times> agent" where
  "finalize_and_broadcast_turn te ctx turn_id a = (case store_turn ctx turn_id a of
     (Some e, a) \<Rightarrow> (Some e, a)
   | (None, a) \<Rightarrow> (None, broadcast_turn_appended te ctx turn_id a))"

definition persist_turn_checkpoint :: "RequestContext \<Rightarrow> u32 \<Rightarrow> agent \<Rightarrow> agent" where
  "persist_turn_checkpoint ctx turn_id a = snd (store_turn ctx turn_id a)"

section \<open>How long a tool may run (tool_execution.rs)\<close>

text \<open>Milliseconds.\<close>

definition TOOL_TIMEOUT_GRACE :: nat where
  "TOOL_TIMEOUT_GRACE = 5000"

definition IMAGE_TIMEOUT :: nat where
  "IMAGE_TIMEOUT = ((2 + 3) * 180 + 60) * 1000"

definition is_shell_tool :: "string \<Rightarrow> bool" where
  "is_shell_tool name \<longleftrightarrow> name \<in> {''sh'', ''nushell'', ''fish'', ''exec''}"

definition determine_tool_timeout :: "ToolEnv \<Rightarrow> string \<Rightarrow> string \<Rightarrow> nat option" where
  "determine_tool_timeout te name arguments_json =
     (if name = ''spawn_subsession'' then None
      else
        (let base = (if is_shell_tool name then 300 * 1000
               else if name = ''generate_image'' \<or> name = ''edit_image'' then IMAGE_TIMEOUT
               else 60 * 1000);
             requested = (if is_shell_tool name then
                 (case te_json_u64 te arguments_json ''timeout'' of
                    Some ms \<Rightarrow> if 0 < ms then Some (unat ms) else None | None \<Rightarrow> None)
               else None)
         in Some (case requested of None \<Rightarrow> base | Some r \<Rightarrow> max (r + TOOL_TIMEOUT_GRACE) base)))"

section \<open>The result of a tool (tool_execution.rs)\<close>

definition failed_output :: "string \<Rightarrow> string \<Rightarrow> ToolOutput" where
  "failed_output content invocation_description =
     \<lparr>out_content = content, out_is_error = True, out_invocation_description = invocation_description,
      out_image_ref = None, out_result_json = None\<rparr>"

definition tool_result_from_channel :: "exec_msg option \<Rightarrow> string \<Rightarrow> ToolOutput" where
  "tool_result_from_channel msg invocation_description = (case msg of
     Some (Inr output) \<Rightarrow> output
   | Some (Inl e) \<Rightarrow> failed_output e invocation_description
   | None \<Rightarrow> failed_output ''tool execution thread panicked'' invocation_description)"

definition drain_queued_or_synthesize :: "exec_msg try_recv \<Rightarrow> string \<Rightarrow> string \<Rightarrow> ToolOutput" where
  "drain_queued_or_synthesize queued invocation_description stop_message = (case queued of
     TR_Got msg \<Rightarrow> tool_result_from_channel (Some msg) invocation_description
   | TR_Empty \<Rightarrow> failed_output stop_message invocation_description
   | TR_Disconnected \<Rightarrow> failed_output ''tool execution thread panicked'' invocation_description)"

definition cancelled_message :: "string \<Rightarrow> string" where
  "cancelled_message name = ''tool '' @ [CHR 0x27] @ name @ [CHR 0x27] @ '' cancelled''"

definition timed_out_message :: "string \<Rightarrow> nat \<Rightarrow> string" where
  "timed_out_message name ms =
     ''tool '' @ [CHR 0x27] @ name @ [CHR 0x27] @ '' timed out after '' @ show_nat (ms div 1000) @ ''s''"

text \<open>A tool that runs alone: the output, whether it was cancelled, and an image it produced.\<close>

definition execute_tool_with_timeout ::
  "ToolEnv \<Rightarrow> ChatToolCall \<Rightarrow> nat \<Rightarrow> string \<Rightarrow> agent \<Rightarrow> (ToolOutput \<times> bool \<times> PreparedImage option) \<times> agent" where
  "execute_tool_with_timeout te tool_call timeout_dur invocation_description a =
     (let (wait, picture) = te_serial_wait te (ag_tick a) tool_call;
          a = ag_advance a
      in (case wait of
            TW_Stopped queued \<Rightarrow>
              (drain_queued_or_synthesize queued invocation_description (cancelled_message (ctc_name tool_call)), True, picture)
          | TW_Result msg \<Rightarrow> (tool_result_from_channel msg invocation_description, False, picture)
          | TW_Deadline queued \<Rightarrow>
              (drain_queued_or_synthesize queued invocation_description
                 (timed_out_message (ctc_name tool_call) timeout_dur), False, picture), a))"

record ToolHandle =
  th_tool_call :: ChatToolCall
  th_output :: ToolOutput
  th_image :: "PreparedImage option"

record CallInfo =
  info_call_id :: string
  info_tool_name :: string
  info_arguments_json :: string
  info_invocation_description :: string

text \<open>A tool of a batch: the one message its waiting thread sends.\<close>

definition spawn_single_tool ::
  "ChatToolCall \<Rightarrow> nat option \<Rightarrow> string \<Rightarrow> tool_wait \<times> PreparedImage option \<Rightarrow> ToolHandle" where
  "spawn_single_tool tool_call timeout invocation_description wait =
     \<lparr>th_tool_call = tool_call,
      th_output = (case fst wait of
          TW_Result msg \<Rightarrow> tool_result_from_channel msg invocation_description
        | TW_Deadline queued \<Rightarrow> drain_queued_or_synthesize queued invocation_description
            (timed_out_message (ctc_name tool_call) (case timeout of Some ms \<Rightarrow> ms | None \<Rightarrow> 0))
        | TW_Stopped _ \<Rightarrow> failed_output (cancelled_message (ctc_name tool_call)) invocation_description),
      th_image = snd wait\<rparr>"

definition missing_calls :: "CallInfo list \<Rightarrow> string list \<Rightarrow> CallInfo list" where
  "missing_calls call_infos delivered = filter (\<lambda>info. info_call_id info \<notin> set delivered) call_infos"

definition panic_tool_handle :: "CallInfo \<Rightarrow> ToolHandle" where
  "panic_tool_handle info =
     \<lparr>th_tool_call = \<lparr>ctc_id = info_call_id info, ctc_name = info_tool_name info,
        ctc_arguments_json = info_arguments_json info, ctc_caller = None\<rparr>,
      th_output = failed_output ''tool thread panicked'' (info_invocation_description info),
      th_image = None\<rparr>"

section \<open>Recording a result (tool_execution.rs, system_content.rs)\<close>

definition finish_tool_call ::
  "ToolEnv \<Rightarrow> RequestContext \<Rightarrow> u64 \<Rightarrow> ChatToolCall \<Rightarrow> ToolOutput \<Rightarrow> u32 \<Rightarrow> agent \<Rightarrow> agent" where
  "finish_tool_call te ctx stream_id tool_call output turn_id a =
     (let a = on_session (update_tool_result turn_id (ctc_id tool_call) (ctc_name tool_call) output) a;
          a = broadcast_turn_appended te ctx turn_id a
      in send_event te ctx
           (if out_is_error output
            then SE_ToolCallFailed stream_id (ctc_id tool_call) (ctc_name tool_call) (out_content output)
            else SE_ToolCallFinished stream_id (ctc_id tool_call) (ctc_name tool_call)) a)"

definition persist_loaded_skill :: "ToolEnv \<Rightarrow> string \<Rightarrow> string \<Rightarrow> agent \<Rightarrow> agent" where
  "persist_loaded_skill te tool_name arguments_json a =
     (if tool_name \<noteq> ''load_skill'' then a
      else (case te_json_string te arguments_json ''name'' of
        None \<Rightarrow> a
      | Some name \<Rightarrow>
          if list_ex (\<lambda>ls. ls_name ls = name) (st_loaded_skill_bodies (ag_session a)) then a
          else
            (let skills = (case st_discovered_skills (ag_session a) of
                   Some skills \<Rightarrow> skills
                 | None \<Rightarrow> te_discover_skills te (ag_tick a) (cfg_working_dir (st_config (ag_session a))));
                 body = te_load_skill_body te (ag_tick a) skills name;
                 a = ag_advance a
             in case body of
                  Some body \<Rightarrow> on_session (\<lambda>s. s\<lparr>st_loaded_skill_bodies :=
                    st_loaded_skill_bodies s @ [\<lparr>ls_name = name, ls_body = body\<rparr>]\<rparr>) a
                | None \<Rightarrow> a)))"

definition check_subdirectory_hints :: "ToolEnv \<Rightarrow> string \<Rightarrow> string \<Rightarrow> agent \<Rightarrow> agent" where
  "check_subdirectory_hints te tool_name arguments_json a =
     (case te_subdirectory_hints te (ag_tick a) tool_name arguments_json
             (cfg_working_dir (st_config (ag_session a))) (ag_known_hint_paths a) of
        None \<Rightarrow> ag_advance a
      | Some (hint_text, new_paths) \<Rightarrow>
          (ag_advance a)\<lparr>ag_known_hint_paths := ag_known_hint_paths a @ new_paths,
             ag_pending_hints := ag_pending_hints a @ [hint_text]\<rparr>)"

definition apply_tool_result_side_effects :: "ToolEnv \<Rightarrow> ChatToolCall \<Rightarrow> agent \<Rightarrow> agent" where
  "apply_tool_result_side_effects te tool_call a =
     check_subdirectory_hints te (ctc_name tool_call) (ctc_arguments_json tool_call)
       (persist_loaded_skill te (ctc_name tool_call) (ctc_arguments_json tool_call) a)"

definition record_tool_completion ::
  "ToolEnv \<Rightarrow> RequestContext \<Rightarrow> u64 \<Rightarrow> ChatToolCall \<Rightarrow> ToolOutput \<Rightarrow> PreparedImage option \<Rightarrow> u32 \<Rightarrow> agent \<Rightarrow> agent" where
  "record_tool_completion te ctx stream_id tool_call output picture turn_id a =
     (let output = output\<lparr>out_content :=
            truncate_tool_output (sanitize_transcript (te_format_category te) (out_content output))\<rparr>;
          a = (case picture of
                 Some picture \<Rightarrow> emit_image te ctx picture (Some (ctc_id tool_call)) turn_id a | None \<Rightarrow> a);
          a = (case out_image_ref output of
                 Some reference \<Rightarrow> store_attachment ctx turn_id (IK_ToolResult (ctc_id tool_call)) (ir_data reference) a
               | None \<Rightarrow> a);
          a = finish_tool_call te ctx stream_id tool_call output turn_id a
      in apply_tool_result_side_effects te tool_call a)"

end
