(* ===== verification/Agent_Loop.thy ===== *)
theory Agent_Loop
  imports Tool_Execution
begin

text \<open>
  The agent loop of a request (\<open>src/choreo-daemon/src/requests.rs\<close>): ask the provider,
  stream its answer, run the tools it calls, and ask again until it answers with
  text, the request is cancelled or fails, or the turn limit is reached. One run of
  the loop's body is \<open>agent_turn\<close>; the loop itself may run for ever when there is no
  turn limit and is a partial function.

  The provider is a parameter: what it streams and how it ends, as a function of the
  number of steps before, the client and the request. So are the token counts of the
  tokenizer, the tool definitions, the texts of prompts and context files. Streaming
  of a running tool's output is not part of the model.
\<close>

section \<open>The provider\<close>

record ChatAssistantToolUse =
  tu_content :: "string option"
  tu_tool_calls :: "ChatToolCall list"
  tu_reasoning :: "string option"
  tu_usage :: "TokenUsage option"
  tu_response_id :: "string option"
  tu_reasoning_artifact :: "ReasoningArtifact option"

record FinalTextResult =
  ft_content :: string
  ft_truncated :: bool
  ft_reasoning :: "string option"
  ft_usage :: "TokenUsage option"
  ft_response_id :: "string option"
  ft_reasoning_artifact :: "ReasoningArtifact option"

datatype ChatTurnResult = CT_FinalText FinalTextResult | CT_ToolUse ChatAssistantToolUse

text \<open>What happens while a provider is asked: the retry and upload callbacks and the stream.\<close>

datatype provider_event =
    PV_Retry u32 u32 u64
  | PV_Uploaded
  | PV_Answer string
  | PV_Reasoning string

record AgentEnv =
  ae_tool :: ToolEnv
  ae_catalog :: catalog
  ae_encoding :: "string \<Rightarrow> (string \<Rightarrow> nat) option"
  ae_chat :: "nat \<Rightarrow> InferenceProvider \<Rightarrow> ChatTurnRequest \<Rightarrow>
    provider_event list \<times> (InferenceError + ChatTurnResult)"
  ae_tool_definitions :: "nat \<Rightarrow> SessionState \<Rightarrow> string list"
  ae_base_prompt :: "nat \<Rightarrow> SkillMeta list \<Rightarrow> LoadedSkill list \<Rightarrow> string"
  ae_discover_context :: "nat \<Rightarrow> string \<Rightarrow> ContextConfig \<Rightarrow> (u64 \<times> string) option"
  ae_cache_affinity :: "InferenceProvider \<Rightarrow> nat"
  ae_extended_retention :: "InferenceProvider \<Rightarrow> string \<Rightarrow> bool"
  ae_is_anthropic :: "string \<Rightarrow> bool"
  ae_max_turns :: u32

section \<open>Error texts (choreo-proto/src/types/common.rs)\<close>

definition sanitize_control_chars :: "string \<Rightarrow> string" where
  "sanitize_control_chars s =
     (if list_ex is_control (chars s)
      then str_of_chars (map (\<lambda>c. if is_control c then 0x20 else c) (chars s)) else s)"

definition DiscardedToolCall_text :: "DiscardedToolCall \<Rightarrow> string" where
  "DiscardedToolCall_text d =
     (let args = chars (dtc_arguments_json d) in
      if length args \<le> 200 then dtc_name d @ '': '' @ sanitize_control_chars (dtc_arguments_json d)
      else dtc_name d @ '' ('' @ show_nat (length args) @ '' chars): '' @
        sanitize_control_chars (str_of_chars (take 200 args)) @ [CHR 0xE2, CHR 0x80, CHR 0xA6])"

definition status_text :: "string \<Rightarrow> u16 \<Rightarrow> string \<Rightarrow> string" where
  "status_text what status detail = what @ '' ('' @ show_nat (unat status) @ ''): '' @ detail"

fun InferenceError_text :: "InferenceError \<Rightarrow> string" where
  "InferenceError_text (IE_Unauthorized status detail) = status_text ''unauthorized'' status detail"
| "InferenceError_text (IE_RateLimited status _ detail) = status_text ''rate limited'' status detail"
| "InferenceError_text (IE_ServerError status detail) = status_text ''server error'' status detail"
| "InferenceError_text (IE_ClientError status detail) = status_text ''client error'' status detail"
| "InferenceError_text IE_EmptyResponse = ''provider returned an empty response''"
| "InferenceError_text (IE_NotReady detail) = ''provider artifact not ready yet: '' @ detail"
| "InferenceError_text (IE_ContentFiltered detail) = ''provider content filter blocked the generation: '' @ detail"
| "InferenceError_text (IE_ContextWindowExceeded detail) =
     ''prompt exceeded the model'' @ [CHR 0x27] @ ''s context window: '' @ detail"
| "InferenceError_text (IE_Unsupported detail) = ''provider does not support this operation: '' @ detail"
| "InferenceError_text IE_Cancelled = ''request cancelled during retry backoff''"
| "InferenceError_text IE_DeadlineExceeded = ''total request deadline exceeded while reading streaming response''"
| "InferenceError_text (IE_TruncatedToolCall discarded) =
     ''tool call arguments truncated by provider: '' @ join '', '' (map DiscardedToolCall_text discarded)"
| "InferenceError_text (IE_UnidentifiedToolCalls count) =
     ''provider streamed '' @ show_nat (unat count) @ '' tool call(s) with no identifiable function; they cannot be run''"
| "InferenceError_text (IE_OAuthReloginRequired detail) = ''re-login required: '' @ detail"
| "InferenceError_text (IE_Io e) = io_text e"

fun InferenceError_into_io :: "InferenceError \<Rightarrow> io_error" where
  "InferenceError_into_io (IE_Io e) = e"
| "InferenceError_into_io e = other_error (InferenceError_text e)"

section \<open>Preparing a turn (requests.rs, system_content.rs)\<close>

definition resolve_reasoning_effort :: "RequestContext \<Rightarrow> InferenceProvider \<Rightarrow> string \<Rightarrow> string \<Rightarrow> string" where
  "resolve_reasoning_effort ctx client model configured_effort =
     (if configured_effort = ''off'' then configured_effort
      else
        (let levels = available_effort_levels (ctx_model_reasoning_capability ctx (ip_slug client) model) in
         if levels = [] then ''off''
         else if configured_effort \<notin> set levels then ''off''
         else configured_effort))"

definition IMAGE_TOKEN_ESTIMATE :: u32 where
  "IMAGE_TOKEN_ESTIMATE = 1000"

definition artifact_bytes :: "ReasoningArtifact \<Rightarrow> bytes" where
  "artifact_bytes artifact = (case artifact of
     RA_ChatReasoning _ b \<Rightarrow> b | RA_AnthropicThinking b \<Rightarrow> b | RA_GoogleSignatures b \<Rightarrow> b | RA_ResponsesItems b \<Rightarrow> b)"

definition reasoning_artifact_tokens :: "(string \<Rightarrow> nat) \<Rightarrow> ReasoningArtifact \<Rightarrow> u32" where
  "reasoning_artifact_tokens enc artifact =
     (let b = artifact_bytes artifact in
      if utf8_encode (utf8_scalars (byte_vals b)) = byte_vals b
      then of_nat (enc (str_of_vals (byte_vals b))) else of_nat (length b div 4))"

definition wire_call_tokens :: "(string \<Rightarrow> nat) \<Rightarrow> AssistantToolCall \<Rightarrow> u32" where
  "wire_call_tokens enc tc = of_nat (enc (atc_id tc) + enc (atc_kind tc)) +
     of_nat (enc (atf_name (atc_function tc)) + enc (atf_arguments (atc_function tc)))"

definition estimate_prompt_tokens ::
  "(string \<Rightarrow> nat) option \<Rightarrow> ChatRequestMessage list \<Rightarrow> string list \<Rightarrow> u32" where
  "estimate_prompt_tokens encoding messages tools = (case encoding of
     None \<Rightarrow> 0
   | Some enc \<Rightarrow>
       (let content_tokens = sum_list (map (\<lambda>text. of_nat (enc text)) (List.map_filter crm_content messages));
            image_tokens = sum_list (map (\<lambda>m. saturating_mul (of_nat (length (crm_images m))) IMAGE_TOKEN_ESTIMATE) messages);
            tool_call_tokens = sum_list (map (wire_call_tokens enc) (concat (List.map_filter crm_tool_calls messages)));
            tool_def_tokens = sum_list (map (\<lambda>def. of_nat (enc def)) tools);
            artifact_tokens = sum_list (map (reasoning_artifact_tokens enc) (List.map_filter crm_reasoning_artifact messages))
        in content_tokens + tool_call_tokens + tool_def_tokens + artifact_tokens + image_tokens))"

definition build_system_content :: "AgentEnv \<Rightarrow> agent \<Rightarrow> string \<times> agent" where
  "build_system_content ae a =
     (let s = ag_session a;
          skills = (case st_discovered_skills s of Some skills \<Rightarrow> skills | None \<Rightarrow> []);
          content = ae_base_prompt ae (ag_tick a) skills (st_loaded_skill_bodies s);
          (context_str, cache) = (case cfg_working_dir (st_config s) of
             None \<Rightarrow> ([], st_context_cache s)
           | Some working_dir \<Rightarrow>
               (case ae_discover_context ae (ag_tick a) working_dir (cfg_context_config (st_config s)) of
                  None \<Rightarrow> ([], st_context_cache s)
                | Some (fingerprint, assembled) \<Rightarrow>
                    (case st_context_cache s of
                       Some (fp, cached) \<Rightarrow>
                         if fp = fingerprint then (cached, st_context_cache s)
                         else (assembled, Some (fingerprint, assembled))
                     | None \<Rightarrow> (assembled, Some (fingerprint, assembled)))));
          content = (if context_str = [] then content else content @ [CHR 0x0A, CHR 0x0A] @ context_str);
          content = (case cfg_title (st_config s) of
             Some title \<Rightarrow> if title = [] then content
               else content @ [CHR 0x0A, CHR 0x0A] @ ''## Current Session Title'' @ [CHR 0x0A] @ title
           | None \<Rightarrow> content);
          content = (if ag_pending_hints a = [] then content
             else content @ [CHR 0x0A, CHR 0x0A] @ ''## New context from project subdirectories'' @ [CHR 0x0A] @
               concat (map (\<lambda>hint. CHR 0x0A # hint) (ag_pending_hints a)))
      in (content, on_session (\<lambda>s. s\<lparr>st_context_cache := cache\<rparr>) (ag_advance a)))"

section \<open>Streaming (requests.rs)\<close>

datatype StreamPhase = SP_Sending | SP_Reasoning | SP_Responding

fun phase_rank :: "StreamPhase \<Rightarrow> nat" where
  "phase_rank SP_Sending = 0"
| "phase_rank SP_Reasoning = 1"
| "phase_rank SP_Responding = 2"

fun StreamPhase_status :: "StreamPhase \<Rightarrow> SessionStatus" where
  "StreamPhase_status SP_Sending = SS_Sending"
| "StreamPhase_status SP_Reasoning = SS_Reasoning"
| "StreamPhase_status SP_Responding = SS_Responding"

record stream_state =
  ss_phase :: StreamPhase
  ss_output_tokens :: u32

definition advance_stream_phase ::
  "ToolEnv \<Rightarrow> StreamPhase \<Rightarrow> StreamPhase \<Rightarrow> agent \<Rightarrow> StreamPhase \<times> agent" where
  "advance_stream_phase te target phase a =
     (if phase_rank phase < phase_rank target
      then (target, send_cmd te (SC_StatusChanged (StreamPhase_status target)) a) else (phase, a))"

definition into_bytes :: "string \<Rightarrow> bytes" where
  "into_bytes s = map of_char s"

definition broadcast_stream_chunk ::
  "ToolEnv \<Rightarrow> RequestContext \<Rightarrow> u64 \<Rightarrow> OutputStream \<Rightarrow> string \<Rightarrow> u32 \<Rightarrow> agent \<Rightarrow> agent" where
  "broadcast_stream_chunk te ctx stream_id stream output_text token_count a =
     send_event te ctx (SE_LiveOutputTokenCount stream_id token_count)
       (send_event te ctx (SE_OutputChunk stream_id stream (into_bytes output_text)) a)"

definition stream_text ::
  "AgentEnv \<Rightarrow> RequestContext \<Rightarrow> string \<Rightarrow> u64 \<Rightarrow> StreamPhase \<Rightarrow> OutputStream \<Rightarrow> string \<Rightarrow>
   stream_state \<times> agent \<Rightarrow> stream_state \<times> agent" where
  "stream_text ae ctx model stream_id target stream output_text = (\<lambda>(ss, a).
     (let (phase, a) = advance_stream_phase (ae_tool ae) target (ss_phase ss) a;
          count = (case ae_encoding ae model of
             Some enc \<Rightarrow> ss_output_tokens ss + of_nat (enc output_text) | None \<Rightarrow> ss_output_tokens ss)
      in (\<lparr>ss_phase = phase, ss_output_tokens = count\<rparr>,
          broadcast_stream_chunk (ae_tool ae) ctx stream_id stream output_text count a)))"

fun on_provider_event ::
  "AgentEnv \<Rightarrow> RequestContext \<Rightarrow> string \<Rightarrow> u64 \<Rightarrow> provider_event \<Rightarrow> stream_state \<times> agent \<Rightarrow> stream_state \<times> agent" where
  "on_provider_event ae ctx model stream_id (PV_Retry attempt max_attempts delay_ms) (ss, a) =
     (ss, send_cmd (ae_tool ae) (SC_StatusChanged (SS_Retrying attempt max_attempts delay_ms)) a)"
| "on_provider_event ae ctx model stream_id PV_Uploaded (ss, a) =
     (ss, send_cmd (ae_tool ae) (SC_StatusChanged SS_Waiting) a)"
| "on_provider_event ae ctx model stream_id (PV_Answer output_text) (ss, a) =
     stream_text ae ctx model stream_id SP_Responding OS_Answer output_text (ss, a)"
| "on_provider_event ae ctx model stream_id (PV_Reasoning output_text) (ss, a) =
     stream_text ae ctx model stream_id SP_Reasoning OS_Reasoning output_text (ss, a)"

text \<open>Asking once.\<close>

definition ask_once ::
  "AgentEnv \<Rightarrow> RequestContext \<Rightarrow> string \<Rightarrow> u64 \<Rightarrow> ChatTurnRequest \<Rightarrow> stream_state \<Rightarrow> agent \<Rightarrow>
   (InferenceError + ChatTurnResult) \<times> stream_state \<times> agent" where
  "ask_once ae ctx model stream_id request ss a =
     (let (events, result) = ae_chat ae (ag_tick a) (ag_client a) request;
          a = (ag_advance a)\<lparr>ag_requests := ag_requests a @ [request]\<rparr>;
          (ss, a) = fold (on_provider_event ae ctx model stream_id) events (ss, a)
      in (result, ss, a))"

text \<open>Asking, and asking once more with a new access token if the first was refused.\<close>

definition ask_provider ::
  "AgentEnv \<Rightarrow> RequestContext \<Rightarrow> string \<Rightarrow> u64 \<Rightarrow> ChatTurnRequest \<Rightarrow> agent \<Rightarrow>
   (InferenceError + ChatTurnResult) \<times> agent" where
  "ask_provider ae ctx model stream_id request a =
     (let (result, ss, a) = ask_once ae ctx model stream_id request
            \<lparr>ss_phase = SP_Sending, ss_output_tokens = 0\<rparr> a
      in case result of
           Inl (IE_Unauthorized status detail) \<Rightarrow>
             (case refresh_oauth_token ctx True (ag_session a) (ag_world a) of
                (outcome, session, w) \<Rightarrow>
                  (let a = a\<lparr>ag_session := session, ag_world := w\<rparr> in
                   case outcome of
                     Inr RO_Refreshed \<Rightarrow>
                       (case resolve_provider ctx (ag_session a) (ag_world a) of
                          (Inr rebuilt, session, w) \<Rightarrow>
                            (let a = a\<lparr>ag_session := session, ag_world := w, ag_client := rebuilt\<rparr>;
                                 (result, ss, a) = ask_once ae ctx model stream_id request ss a
                             in (result, a))
                        | (Inl e, session, w) \<Rightarrow>
                            (Inl (IE_OAuthReloginRequired e), a\<lparr>ag_session := session, ag_world := w\<rparr>))
                   | Inr _ \<Rightarrow> (result, a)
                   | Inl RF_Terminal \<Rightarrow>
                       (Inl (IE_OAuthReloginRequired ''oauth grant rejected; sign in again''), a)
                   | Inl (RF_Transient _) \<Rightarrow> (result, a)))
         | _ \<Rightarrow> (result, a))"

section \<open>Tools that change the session's configuration (requests.rs)\<close>

datatype PendingConfigChange =
    PCC_LoadTools "string list"
  | PCC_UnloadTools "string list"
  | PCC_SetWorkingDir "string option"

definition is_session_config_tool :: "string \<Rightarrow> bool" where
  "is_session_config_tool name \<longleftrightarrow> name \<in> {''load_tools'', ''unload_tools'', ''set_working_dir''}"

definition concurrent_tool_status_label :: "ChatToolCall list \<Rightarrow> string" where
  "concurrent_tool_status_label tools = (case tools of [tc] \<Rightarrow> ctc_name tc | _ \<Rightarrow> ''(parallel)'')"

definition pending_config_change ::
  "ToolEnv \<Rightarrow> nat \<Rightarrow> ChatToolCall \<Rightarrow> ToolOutput \<Rightarrow> string option \<Rightarrow> PendingConfigChange option" where
  "pending_config_change te now tool_call output base_working_dir =
     (let name = ctc_name tool_call; args = ctc_arguments_json tool_call in
      if \<not> is_session_config_tool name then None
      else if name = ''load_tools'' then map_option PCC_LoadTools (te_parse_groups te args)
      else if name = ''unload_tools'' then map_option PCC_UnloadTools (te_parse_groups te args)
      else if name = ''set_working_dir'' then
        (case Option.bind (out_result_json output) (\<lambda>v. te_json_string te v ''path'') of
           Some path \<Rightarrow> Some (PCC_SetWorkingDir (Some path))
         | None \<Rightarrow>
             (case te_parse_working_dir te args of
                None \<Rightarrow> Some (PCC_SetWorkingDir None)
              | Some path \<Rightarrow> Some (PCC_SetWorkingDir (te_resolve_working_dir te now path base_working_dir))))
      else None)"

definition set_active_groups :: "string list \<Rightarrow> SessionState \<Rightarrow> SessionState" where
  "set_active_groups groups session =
     session\<lparr>st_config := (st_config session)\<lparr>cfg_active_tool_groups := groups\<rparr>\<rparr>"

fun apply_pending_config_change :: "RequestContext \<Rightarrow> PendingConfigChange \<Rightarrow> SessionState \<Rightarrow> SessionState" where
  "apply_pending_config_change ctx (PCC_LoadTools groups) session =
     set_active_groups (snd (apply_load_tools (ctx_humfmt_list ctx) (cfg_active_tool_groups (st_config session)) groups)) session"
| "apply_pending_config_change ctx (PCC_UnloadTools groups) session =
     set_active_groups (snd (apply_unload_tools (ctx_humfmt_list ctx) (cfg_active_tool_groups (st_config session)) groups
       (ctx_protected_groups ctx))) session"
| "apply_pending_config_change ctx (PCC_SetWorkingDir path) session =
     (case path of
        Some path \<Rightarrow> session\<lparr>st_config := (st_config session)\<lparr>cfg_working_dir := Some path\<rparr>\<rparr>
      | None \<Rightarrow> session)\<lparr>st_discovered_skills := None\<rparr>"

section \<open>One turn (requests.rs)\<close>

text \<open>
  What stays the same while the loop runs: the client the request was started with,
  whose name is the provider's in the transcript, the first turn of the request, and
  the warming policy the session had then.
  The result of a part of the loop's body is either where the next part goes on or
  what the loop returns.
\<close>

record LoopParams =
  lp_ctx :: RequestContext
  lp_client :: InferenceProvider
  lp_model :: string
  lp_stream_id :: u64
  lp_user_text :: "string option"
  lp_first_turn :: u32
  lp_warm_policy :: WarmPolicy

datatype 'a flow = FL_Go 'a | FL_Return loop_result agent

abbreviation lp_slug :: "LoopParams \<Rightarrow> string" where
  "lp_slug lp \<equiv> ip_slug (lp_client lp)"

definition lp_producer :: "LoopParams \<Rightarrow> ReasoningProducer" where
  "lp_producer lp = \<lparr>rp_provider_slug = lp_slug lp, rp_model = lp_model lp\<rparr>"

definition relay_warm_cancel :: "agent \<Rightarrow> agent" where
  "relay_warm_cancel a = a\<lparr>ag_warm_cancels := ag_warm_cancels a + 1\<rparr>"

text \<open>A command whose failure ends the request.\<close>

definition send_checked :: "ToolEnv \<Rightarrow> SessionCommand \<Rightarrow> agent \<Rightarrow> agent flow" where
  "send_checked te cmd a = (if cmd_alive te a then FL_Go (send_cmd te cmd a) else FL_Return LR_Finished a)"

definition take_user_text :: "LoopParams \<Rightarrow> agent \<Rightarrow> string option \<times> agent" where
  "take_user_text lp a =
     (if ag_turn_iter a = 0 then (lp_user_text lp, a)
      else (ag_pending_user_text a, a\<lparr>ag_pending_user_text := None\<rparr>))"

definition open_turn :: "AgentEnv \<Rightarrow> LoopParams \<Rightarrow> agent \<Rightarrow> u32 \<times> agent" where
  "open_turn ae lp a =
     (let (user_text, a) = take_user_text lp a;
          ((turn_id, _), session) = start_turn (ctx_now (lp_ctx lp) (ag_tick a)) user_text (ag_session a);
          a = ag_advance (a\<lparr>ag_session := session\<rparr>)
      in (turn_id, broadcast_turn_appended (ae_tool ae) (lp_ctx lp) turn_id a))"

text \<open>The body of the request, with its token estimate; the hints are used up.\<close>

definition prepare_request ::
  "AgentEnv \<Rightarrow> LoopParams \<Rightarrow> string list \<Rightarrow> string \<Rightarrow> u32 \<Rightarrow> agent \<Rightarrow> (ChatTurnRequest \<times> u32) \<times> agent" where
  "prepare_request ae lp tools thinking_effort turn_id a =
     (let (system_content, a) = build_system_content ae a;
          a = a\<lparr>ag_pending_hints := []\<rparr>;
          messages = build_chat_request_messages (ae_catalog ae) (ag_session a) (Some system_content)
            (lp_slug lp) (lp_model lp) (Some (lp_first_turn lp));
          estimated = estimate_prompt_tokens (ae_encoding ae (lp_model lp)) messages tools;
          a = send_event (ae_tool ae) (lp_ctx lp) (SessionEvent_started (lp_stream_id lp) turn_id estimated) a
      in ((\<lparr>ctr_model = lp_model lp, ctr_messages = messages, ctr_tools = tools,
            ctr_thinking_effort = thinking_effort, ctr_previous_response_id = ag_prev_resp_id a,
            ctr_session_id = show_nat (unat (ctx_session_id (lp_ctx lp))),
            ctr_request_id = show_nat (unat (lp_stream_id lp))\<rparr>, estimated), a))"

definition configured_effort :: "agent \<Rightarrow> string" where
  "configured_effort a =
     (case cfg_reasoning_effort (st_config (ag_session a)) of Some effort \<Rightarrow> effort | None \<Rightarrow> ''off'')"

definition begin_turn ::
  "AgentEnv \<Rightarrow> LoopParams \<Rightarrow> agent \<Rightarrow> (u32 \<times> ChatTurnRequest \<times> u32 \<times> agent) flow" where
  "begin_turn ae lp a =
     (let thinking_effort = resolve_reasoning_effort (lp_ctx lp) (ag_client a) (lp_model lp) (configured_effort a);
          tools = ae_tool_definitions ae (ag_tick a) (ag_session a);
          (stop, a) = is_cancelled_once (ae_tool ae) a
      in if stop then FL_Return LR_Cancelled (relay_warm_cancel a)
         else
           (let (turn_id, a) = open_turn ae lp a in
            case send_checked (ae_tool ae) (SC_StatusChanged SS_Sending) a of
              FL_Return r a \<Rightarrow> FL_Return r a
            | FL_Go a \<Rightarrow>
                (let ((request, estimated), a) = prepare_request ae lp tools thinking_effort turn_id a
                 in FL_Go (turn_id, request, estimated, a))))"

text \<open>The response id is kept only where the next request may continue from it.\<close>

definition chain_response ::
  "AgentEnv \<Rightarrow> LoopParams \<Rightarrow> string option \<Rightarrow> SessionState \<Rightarrow> SessionState" where
  "chain_response ae lp response_id session =
     (if chains_via_response_id (ae_catalog ae) (lp_slug lp) (lp_model lp)
      then session\<lparr>st_config := (st_config session)
        \<lparr>cfg_last_response_id := response_id, cfg_last_response_id_producer := Some (lp_producer lp)\<rparr>\<rparr>
      else session)"

definition account_usage :: "AgentEnv \<Rightarrow> TokenUsage option \<Rightarrow> agent \<Rightarrow> agent" where
  "account_usage ae usage a = broadcast_token_usage (ae_tool ae) (on_session (accumulate_token_usage usage) a)"

definition truncated_note :: string where
  "truncated_note = [CHR 0x0A, CHR 0x0A, CHR 0xE2, CHR 0x9A, CHR 0xA0] @ '' response truncated (length limit)''"

definition final_text_turn ::
  "AgentEnv \<Rightarrow> LoopParams \<Rightarrow> u32 \<Rightarrow> FinalTextResult \<Rightarrow> agent \<Rightarrow> loop_result \<times> agent" where
  "final_text_turn ae lp turn_id final_text a =
     (let a = account_usage ae (ft_usage final_text) a;
          assistant_text = ft_content final_text @ (if ft_truncated final_text then truncated_note else []);
          a = on_session (set_assistant_response turn_id
                \<lparr>resp_text = Some assistant_text, resp_reasoning = ft_reasoning final_text, resp_tool_calls = [],
                 resp_token_usage = ft_usage final_text, resp_reasoning_artifact = ft_reasoning_artifact final_text,
                 resp_reasoning_producer = Some (lp_producer lp)\<rparr>) a;
          a = on_session (chain_response ae lp (ft_response_id final_text)) a
      in case finalize_and_broadcast_turn (ae_tool ae) (lp_ctx lp) turn_id a of
           (Some e, a) \<Rightarrow> (LR_Error e, a)
         | (None, a) \<Rightarrow> (LR_Finished, a))"

section \<open>Running the tools of a turn (requests.rs)\<close>

definition call_record :: "ChatToolCall \<Rightarrow> AssistantToolCallRecord" where
  "call_record tc = \<lparr>tc_call_id = ctc_id tc, tc_name = ctc_name tc, tc_arguments_json = ctc_arguments_json tc,
     tc_caller = map_option caller_to_record (ctc_caller tc)\<rparr>"

text \<open>A hash map filled in order: of two calls with one id the later description stays.\<close>

definition describe_calls :: "ToolEnv \<Rightarrow> nat \<Rightarrow> ChatToolCall list \<Rightarrow> string \<Rightarrow> string" where
  "describe_calls te now tool_calls call_id =
     (case map_of (rev (map (\<lambda>tc. (ctc_id tc, te_describe_invocation te now tc)) tool_calls)) call_id of
        Some desc \<Rightarrow> desc | None \<Rightarrow> [])"

definition announce_call ::
  "ToolEnv \<Rightarrow> LoopParams \<Rightarrow> (string \<Rightarrow> string) \<Rightarrow> ChatToolCall \<Rightarrow> agent \<Rightarrow> agent" where
  "announce_call te lp description_by_call tc =
     send_event te (lp_ctx lp) (SE_ToolCallStarted (lp_stream_id lp) (ctc_id tc) (ctc_name tc)
       (ctc_arguments_json tc) (description_by_call (ctc_id tc)))"

text \<open>The state while tools run: the ids that have run, the changes to apply, whether it was cancelled.\<close>

record tool_run =
  tn_executed :: "string list"
  tn_changes :: "PendingConfigChange list"
  tn_cancelled :: bool

definition run_mutator ::
  "ToolEnv \<Rightarrow> LoopParams \<Rightarrow> u32 \<Rightarrow> (string \<Rightarrow> string) \<Rightarrow> string option \<Rightarrow> ChatToolCall \<Rightarrow> tool_run \<times> agent \<Rightarrow>
   (tool_run \<times> agent) flow" where
  "run_mutator te lp turn_id description_by_call base_working_dir tc = (\<lambda>(tn, a).
     (let desc = description_by_call (ctc_id tc);
          a = announce_call te lp description_by_call tc a;
          timeout = (case determine_tool_timeout te (ctc_name tc) (ctc_arguments_json tc) of
             Some ms \<Rightarrow> ms | None \<Rightarrow> 60 * 1000)
      in case send_checked te (SC_StatusChanged (SS_ToolCall (ctc_name tc))) a of
           FL_Return r a \<Rightarrow> FL_Return r a
         | FL_Go a \<Rightarrow>
             (let ((output, tool_cancelled, picture), a) = execute_tool_with_timeout te tc timeout desc a;
                  a = (if tool_cancelled then relay_warm_cancel a else a);
                  a = record_tool_completion te (lp_ctx lp) (lp_stream_id lp) tc output picture turn_id a;
                  change = (if out_is_error output then None
                    else pending_config_change te (ag_tick a) tc output base_working_dir)
              in FL_Go (\<lparr>tn_executed = hs_insert (ctc_id tc) (tn_executed tn),
                   tn_changes = tn_changes tn @ (case change of Some c \<Rightarrow> [c] | None \<Rightarrow> []),
                   tn_cancelled = tn_cancelled tn \<or> tool_cancelled\<rparr>, ag_advance a))))"

fun run_mutators ::
  "ToolEnv \<Rightarrow> LoopParams \<Rightarrow> u32 \<Rightarrow> (string \<Rightarrow> string) \<Rightarrow> string option \<Rightarrow> ChatToolCall list \<Rightarrow> tool_run \<times> agent \<Rightarrow>
   (tool_run \<times> agent) flow" where
  "run_mutators te lp turn_id description_by_call base_working_dir [] (tn, a) = FL_Go (tn, a)"
| "run_mutators te lp turn_id description_by_call base_working_dir (tc # mutators) (tn, a) =
     (let (stop, a) = is_cancelled_once te a in
      if stop then FL_Go (tn\<lparr>tn_cancelled := True\<rparr>, relay_warm_cancel a)
      else (case run_mutator te lp turn_id description_by_call base_working_dir tc (tn, a) of
        FL_Return r a \<Rightarrow> FL_Return r a
      | FL_Go (tn, a) \<Rightarrow>
          if tn_cancelled tn then FL_Go (tn, a)
          else run_mutators te lp turn_id description_by_call base_working_dir mutators (tn, a)))"

text \<open>
  Collecting a batch. \<open>reports\<close> are the handles that arrive, in the order they do,
  before every sender is gone; \<open>stop\<close> is after how many of them a cancellation is
  seen. Both loops end when every call was delivered or no sender is left; then the
  calls that never reported are filled in.
\<close>

definition synthesize_missing ::
  "(ToolHandle \<Rightarrow> 'a \<Rightarrow> 'a) \<Rightarrow> CallInfo list \<Rightarrow> string list \<Rightarrow> 'a \<Rightarrow> 'a" where
  "synthesize_missing process call_infos delivered =
     fold process (map panic_tool_handle (missing_calls call_infos delivered))"

fun drain_batch ::
  "(ToolHandle \<Rightarrow> 'a \<Rightarrow> 'a) \<Rightarrow> CallInfo list \<Rightarrow> ToolHandle list \<Rightarrow> string list \<Rightarrow> 'a \<Rightarrow> 'a" where
  "drain_batch process call_infos [] delivered acc =
     (if length delivered < length call_infos then synthesize_missing process call_infos delivered acc else acc)"
| "drain_batch process call_infos (handle # reports) delivered acc =
     drain_batch process call_infos reports (hs_insert (ctc_id (th_tool_call handle)) delivered) (process handle acc)"

fun collect_batch ::
  "(ToolHandle \<Rightarrow> 'a \<Rightarrow> 'a) \<Rightarrow> CallInfo list \<Rightarrow> ToolHandle list \<Rightarrow> nat option \<Rightarrow> string list \<Rightarrow> 'a \<Rightarrow> bool \<times> 'a" where
  "collect_batch process call_infos [] stop delivered acc =
     (if length delivered < length call_infos
      then (stop = Some 0, synthesize_missing process call_infos delivered acc) else (False, acc))"
| "collect_batch process call_infos (handle # reports) stop delivered acc =
     (if length delivered < length call_infos then
        (if stop = Some 0 then (True, drain_batch process call_infos (handle # reports) delivered acc)
         else collect_batch process call_infos reports (map_option (\<lambda>k. k - 1) stop)
           (hs_insert (ctc_id (th_tool_call handle)) delivered) (process handle acc))
      else (False, acc))"

definition process_tool_handle ::
  "ToolEnv \<Rightarrow> LoopParams \<Rightarrow> u32 \<Rightarrow> ToolHandle \<Rightarrow> string list \<times> agent \<Rightarrow> string list \<times> agent" where
  "process_tool_handle te lp turn_id handle = (\<lambda>(executed, a).
     (hs_insert (ctc_id (th_tool_call handle)) executed,
      record_tool_completion te (lp_ctx lp) (lp_stream_id lp) (th_tool_call handle) (th_output handle)
        (th_image handle) turn_id a))"

definition call_info :: "(string \<Rightarrow> string) \<Rightarrow> ChatToolCall \<Rightarrow> CallInfo" where
  "call_info description_by_call tc =
     \<lparr>info_call_id = ctc_id tc, info_tool_name = ctc_name tc, info_arguments_json = ctc_arguments_json tc,
      info_invocation_description = description_by_call (ctc_id tc)\<rparr>"

text \<open>The reports of a batch started at \<open>now\<close>: each tool reports once or, if its thread panics, never.\<close>

definition batch_reports ::
  "ToolEnv \<Rightarrow> nat \<Rightarrow> (string \<Rightarrow> string) \<Rightarrow> ChatToolCall list \<Rightarrow> ToolHandle list" where
  "batch_reports te now description_by_call concurrent =
     map (\<lambda>i. let tc = concurrent ! i in
            spawn_single_tool tc (determine_tool_timeout te (ctc_name tc) (ctc_arguments_json tc))
              (description_by_call (ctc_id tc)) (te_batch_wait te now i))
       (remdups (filter (\<lambda>i. i < length concurrent) (te_batch_order te now)))"

definition run_batch ::
  "ToolEnv \<Rightarrow> LoopParams \<Rightarrow> u32 \<Rightarrow> (string \<Rightarrow> string) \<Rightarrow> ChatToolCall list \<Rightarrow> tool_run \<times> agent \<Rightarrow>
   (tool_run \<times> agent) flow" where
  "run_batch te lp turn_id description_by_call concurrent = (\<lambda>(tn, a).
     (let a = fold (announce_call te lp description_by_call) concurrent a in
      case send_checked te (SC_StatusChanged (SS_ToolCall (concurrent_tool_status_label concurrent))) a of
        FL_Return r a \<Rightarrow> FL_Return r a
      | FL_Go a \<Rightarrow>
          (let now = ag_tick a;
               (stopped, executed, a) = collect_batch (process_tool_handle te lp turn_id)
                 (map (call_info description_by_call) concurrent) (batch_reports te now description_by_call concurrent)
                 (te_batch_cancel te now) [] (tn_executed tn, ag_advance a)
           in FL_Go (tn\<lparr>tn_executed := executed, tn_cancelled := stopped\<rparr>,
                if stopped then relay_warm_cancel a else a))))"

text \<open>The record of a turn that calls tools, and the warmer for the time they run.\<close>

definition tool_window_warm :: "AgentEnv \<Rightarrow> LoopParams \<Rightarrow> u32 \<Rightarrow> string \<Rightarrow> ToolWindowWarm" where
  "tool_window_warm ae lp estimated thinking_effort =
     \<lparr>tw_provider_slug = lp_slug lp, tw_model = lp_model lp, tw_affinity = ae_cache_affinity ae (lp_client lp),
      tw_extended_retention = ae_extended_retention ae (lp_client lp) (lp_model lp),
      tw_estimated_prompt_tokens = estimated, tw_session_id = ctx_session_id (lp_ctx lp),
      tw_stream_id = lp_stream_id lp, tw_is_anthropic = ae_is_anthropic ae (lp_slug lp),
      tw_thinking_enabled = (thinking_effort \<noteq> ''off'')\<rparr>"

definition record_tool_use ::
  "AgentEnv \<Rightarrow> LoopParams \<Rightarrow> u32 \<Rightarrow> ChatAssistantToolUse \<Rightarrow> (string \<Rightarrow> string) \<Rightarrow> agent \<Rightarrow> agent" where
  "record_tool_use ae lp turn_id tool_use description_by_call a =
     (let tool_call_records = map call_record (tu_tool_calls tool_use);
          a = on_session (set_assistant_response turn_id
                \<lparr>resp_text = tu_content tool_use, resp_reasoning = tu_reasoning tool_use,
                 resp_tool_calls = tool_call_records, resp_token_usage = tu_usage tool_use,
                 resp_reasoning_artifact = tu_reasoning_artifact tool_use,
                 resp_reasoning_producer = Some (lp_producer lp)\<rparr>) a;
          a = on_session (seed_tool_results turn_id tool_call_records
                (map (\<lambda>tc. description_by_call (tc_call_id tc)) tool_call_records)) a;
          a = broadcast_turn_appended (ae_tool ae) (lp_ctx lp) turn_id a;
          a = a\<lparr>ag_prev_resp_id := tu_response_id tool_use\<rparr>
      in on_session (chain_response ae lp (tu_response_id tool_use)) a)"

definition run_tools ::
  "ToolEnv \<Rightarrow> LoopParams \<Rightarrow> u32 \<Rightarrow> (string \<Rightarrow> string) \<Rightarrow> ChatToolCall list \<Rightarrow> agent \<Rightarrow> (tool_run \<times> agent) flow" where
  "run_tools te lp turn_id description_by_call tool_calls a =
     (let (mutators, concurrent) = partition (\<lambda>tc. is_session_config_tool (ctc_name tc)) tool_calls in
      case run_mutators te lp turn_id description_by_call (cfg_working_dir (st_config (ag_session a))) mutators
             (\<lparr>tn_executed = [], tn_changes = [], tn_cancelled = False\<rparr>, a) of
        FL_Return r a \<Rightarrow> FL_Return r a
      | FL_Go (tn, a) \<Rightarrow>
          if \<not> tn_cancelled tn \<and> concurrent \<noteq> []
          then run_batch te lp turn_id description_by_call concurrent (tn, a) else FL_Go (tn, a))"

text \<open>After the tools: the session's configuration follows, and the turn is stored as far as it got.\<close>

definition settle_tools :: "AgentEnv \<Rightarrow> LoopParams \<Rightarrow> u32 \<Rightarrow> tool_run \<Rightarrow> agent \<Rightarrow> loop_result option \<times> agent" where
  "settle_tools ae lp turn_id tn a =
     (let a = on_session (fold (apply_pending_config_change (lp_ctx lp)) (tn_changes tn)) a in
      if tn_cancelled tn then
        (let a = on_session (mark_unexecuted_tool_results turn_id (tn_executed tn)) a;
             a = broadcast_turn_appended (ae_tool ae) (lp_ctx lp) turn_id a
         in (Some LR_Cancelled, persist_turn_checkpoint (lp_ctx lp) turn_id a))
      else (None, persist_turn_checkpoint (lp_ctx lp) turn_id a))"

definition tool_use_turn ::
  "AgentEnv \<Rightarrow> LoopParams \<Rightarrow> u32 \<Rightarrow> u32 \<Rightarrow> string \<Rightarrow> ChatAssistantToolUse \<Rightarrow> agent \<Rightarrow> loop_result option \<times> agent" where
  "tool_use_turn ae lp turn_id estimated thinking_effort tool_use a =
     (let a = account_usage ae (tu_usage tool_use) a;
          description_by_call = describe_calls (ae_tool ae) (ag_tick a) (tu_tool_calls tool_use);
          a = record_tool_use ae lp turn_id tool_use description_by_call (ag_advance a);
          a = (if wp_mode (lp_warm_policy lp) = WM_Streaming
               then a\<lparr>ag_armed := ag_armed a @ [tool_window_warm ae lp estimated thinking_effort]\<rparr> else a)
      in case run_tools (ae_tool ae) lp turn_id description_by_call (tu_tool_calls tool_use) a of
           FL_Return r a \<Rightarrow> (Some r, a)
         | FL_Go (tn, a) \<Rightarrow> settle_tools ae lp turn_id tn a)"

section \<open>Truncated and failed turns (requests.rs)\<close>

definition MAX_TRUNCATION_RECOVERIES :: u32 where
  "MAX_TRUNCATION_RECOVERIES = 3"

definition TRUNCATION_RECOVERY_INSTRUCTION :: string where
  "TRUNCATION_RECOVERY_INSTRUCTION =
     ''Your previous response was truncated at the model'' @ [CHR 0x27] @ ''s output-token limit while a tool call was being '' @
     ''generated, so that call was discarded and did not run. Continue the task, '' @
     ''but produce much smaller outputs: split large writes into several smaller '' @
     ''tool calls (write a file in sections and append, or use multiple smaller '' @
     ''files), and avoid emitting very large tool arguments in a single call.''"

definition truncation_note :: "DiscardedToolCall list \<Rightarrow> string" where
  "truncation_note discarded =
     (let names = join '', '' (filter (\<lambda>name. name \<noteq> []) (map dtc_name discarded));
          subject = (if names = [] then ''A tool call'' else ''The '' @ names @ '' tool call'')
      in ''['' @ subject @ '' was cut off at the model'' @ [CHR 0x27] @
         ''s output-token limit before its arguments finished, so it did not run.]'')"

definition forget_response :: "SessionState \<Rightarrow> SessionState" where
  "forget_response session = session\<lparr>st_config := (st_config session)
     \<lparr>cfg_last_response_id := None, cfg_last_response_id_producer := None\<rparr>\<rparr>"

definition truncated_turn ::
  "AgentEnv \<Rightarrow> LoopParams \<Rightarrow> u32 \<Rightarrow> DiscardedToolCall list \<Rightarrow> agent \<Rightarrow> loop_result option \<times> agent" where
  "truncated_turn ae lp turn_id discarded a =
     (let recoveries = saturating_add (ag_truncation_recoveries a) 1;
          a = a\<lparr>ag_truncation_recoveries := recoveries\<rparr>;
          a = on_session (set_assistant_response turn_id
                \<lparr>resp_text = Some (truncation_note discarded), resp_reasoning = None, resp_tool_calls = [],
                 resp_token_usage = None, resp_reasoning_artifact = None, resp_reasoning_producer = None\<rparr>) a
      in case finalize_and_broadcast_turn (ae_tool ae) (lp_ctx lp) turn_id a of
           (Some e, a) \<Rightarrow> (Some (LR_Error e), a)
         | (None, a) \<Rightarrow>
             (let a = on_session forget_response (a\<lparr>ag_prev_resp_id := None\<rparr>) in
              if MAX_TRUNCATION_RECOVERIES \<le> recoveries then (Some LR_Finished, a)
              else (None, a\<lparr>ag_pending_user_text := Some TRUNCATION_RECOVERY_INSTRUCTION\<rparr>)))"

definition failed_turn ::
  "AgentEnv \<Rightarrow> LoopParams \<Rightarrow> u32 \<Rightarrow> InferenceError \<Rightarrow> agent \<Rightarrow> loop_result \<times> agent" where
  "failed_turn ae lp turn_id err a =
     (let a = on_session (set_turn_error turn_id (InferenceError_text err)) a
      in (LR_Error (InferenceError_into_io err), snd (finalize_and_broadcast_turn (ae_tool ae) (lp_ctx lp) turn_id a)))"

section \<open>The loop (requests.rs)\<close>

definition end_turn ::
  "AgentEnv \<Rightarrow> LoopParams \<Rightarrow> u32 \<Rightarrow> u32 \<Rightarrow> string \<Rightarrow> InferenceError + ChatTurnResult \<Rightarrow> agent \<Rightarrow>
   loop_result option \<times> agent" where
  "end_turn ae lp turn_id estimated thinking_effort turn_result a = (case turn_result of
     Inr (CT_FinalText final_text) \<Rightarrow> (let (r, a) = final_text_turn ae lp turn_id final_text a in (Some r, a))
   | Inr (CT_ToolUse tool_use) \<Rightarrow> tool_use_turn ae lp turn_id estimated thinking_effort tool_use a
   | Inl IE_Cancelled \<Rightarrow> (Some LR_Cancelled, a)
   | Inl (IE_TruncatedToolCall discarded) \<Rightarrow> truncated_turn ae lp turn_id discarded a
   | Inl err \<Rightarrow> (let (r, a) = failed_turn ae lp turn_id err a in (Some r, a)))"

definition agent_turn :: "AgentEnv \<Rightarrow> LoopParams \<Rightarrow> agent \<Rightarrow> loop_result option \<times> agent" where
  "agent_turn ae lp a = (case begin_turn ae lp a of
     FL_Return r a \<Rightarrow> (Some r, a)
   | FL_Go (turn_id, request, estimated, a) \<Rightarrow>
       (let (turn_result, a) = ask_provider ae (lp_ctx lp) (lp_model lp) (lp_stream_id lp) request a;
            (r, a) = end_turn ae lp turn_id estimated (ctr_thinking_effort request) turn_result a
        in (r, if r = None then a\<lparr>ag_turn_iter := ag_turn_iter a + 1\<rparr> else a)))"

definition turn_limit_error :: "u32 \<Rightarrow> io_error" where
  "turn_limit_error max_turns =
     IoError IO_InvalidData (''tool loop exceeded '' @ show_nat (unat max_turns) @ '' iterations'')"

definition out_of_turns :: "AgentEnv \<Rightarrow> agent \<Rightarrow> bool" where
  "out_of_turns ae a \<longleftrightarrow> 0 < ae_max_turns ae \<and> ae_max_turns ae \<le> ag_turn_iter a"

partial_function (option) agent_loop :: "AgentEnv \<Rightarrow> LoopParams \<Rightarrow> agent \<Rightarrow> (loop_result \<times> agent) option" where
  "agent_loop ae lp a =
     (if out_of_turns ae a then Some (LR_Error (turn_limit_error (ae_max_turns ae)), a)
      else (case agent_turn ae lp a of
        (Some r, a) \<Rightarrow> Some (r, a)
      | (None, a) \<Rightarrow> agent_loop ae lp a))"

definition agent_start :: "AgentEnv \<Rightarrow> InferenceProvider \<Rightarrow> string \<Rightarrow> SessionState \<Rightarrow> world \<Rightarrow> agent" where
  "agent_start ae client model session w =
     (let skills = (case st_discovered_skills session of
            Some skills \<Rightarrow> skills
          | None \<Rightarrow> te_discover_skills (ae_tool ae) (w_tick w) (cfg_working_dir (st_config session)))
      in \<lparr>ag_session = session\<lparr>st_discovered_skills := Some skills\<rparr>, ag_client = client,
          ag_prev_resp_id = initial_prev_resp_id (ae_catalog ae) session (ip_slug client) model,
          ag_known_hint_paths = [], ag_pending_hints = [], ag_pending_user_text = None,
          ag_truncation_recoveries = 0, ag_turn_iter = 0, ag_world = tick w, ag_cmds = [], ag_requests = [],
          ag_armed = [], ag_warm_cancels = 0\<rparr>)"

definition loop_params ::
  "InferenceProvider \<Rightarrow> SessionState \<Rightarrow> string \<Rightarrow> u64 \<Rightarrow> RequestContext \<Rightarrow> string option \<Rightarrow> LoopParams" where
  "loop_params client session model stream_id ctx user_text =
     \<lparr>lp_ctx = ctx, lp_client = client, lp_model = model, lp_stream_id = stream_id, lp_user_text = user_text,
      lp_first_turn = st_next_turn_id session, lp_warm_policy = st_warm_policy session\<rparr>"

definition run_agent_loop ::
  "AgentEnv \<Rightarrow> InferenceProvider \<Rightarrow> SessionState \<Rightarrow> string \<Rightarrow> u64 \<Rightarrow> RequestContext \<Rightarrow> string option \<Rightarrow> world \<Rightarrow>
   (loop_result \<times> agent) option" where
  "run_agent_loop ae client session model stream_id ctx user_text w =
     agent_loop ae (loop_params client session model stream_id ctx user_text) (agent_start ae client model session w)"

text \<open>The worker of a request, from its arguments to the commands it leaves behind.\<close>

definition worker_run ::
  "AgentEnv \<Rightarrow> RequestContext \<Rightarrow> RequestWorkerArgs \<Rightarrow> world \<Rightarrow>
   (SessionCommand list \<times> (reply_chan \<times> reply_value) list \<times> agent) option" where
  "worker_run ae ctx args w =
     (case run_agent_loop ae (wk_client args) (wk_session args) (wk_model args) (wk_stream_id args) ctx
             (wk_user_text args) w of
        None \<Rightarrow> None
      | Some (r, a) \<Rightarrow>
          (let (cmds, replies) = run_request_worker (ctx_session_id ctx) args r (ag_session a)
           in Some (ag_cmds a @ cmds, replies, a)))"

end
