(* ===== verification/Agent_Correct.thy ===== *)
theory Agent_Correct
  imports Agent_Loop Session_Requests
begin

text \<open>
  What the agent loop guarantees. The first part is a library of frame lemmas: which
  operations leave the outline of the worker's state alone, that is the ids of every
  turn's calls and results, the next turn id, the requests sent and the loop's
  counters. The second part follows one turn and then the loop: every request
  is well formed for the provider, the loop returns within its turn limit, a batch of
  tools is collected whole in any order, and the stream's status only moves forward.
\<close>

section \<open>The outline of the worker's state\<close>

text \<open>Of every turn: whether it is undone, and the ids of its results and of its calls.\<close>

definition turn_shape :: "Turn \<Rightarrow> bool \<times> string list \<times> string list" where
  "turn_shape t = (t_undone t, map tr_call_id (t_tool_results t), map tc_call_id (t_tool_calls t))"

definition shape :: "SessionState \<Rightarrow> (u32 \<times> bool \<times> string list \<times> string list) list" where
  "shape s = map (\<lambda>(k, t). (k, turn_shape t)) (st_turns s)"

definition outline ::
  "agent \<Rightarrow> (u32 \<times> bool \<times> string list \<times> string list) list \<times> u32 \<times> ChatTurnRequest list \<times> u32 \<times> u32" where
  "outline a = (shape (ag_session a), st_next_turn_id (ag_session a), ag_requests a, ag_turn_iter a,
     ag_truncation_recoveries a)"

lemma all_answered_shape: "all_answered s = list_all (\<lambda>(_, undone, rs, cs). undone \<or> rs = cs) (shape s)"
  by (simp add: shape_def turn_shape_def answered_def list_all_iff case_prod_beta)

lemma shape_keys: "map fst (st_turns s) = map fst (shape s)"
  by (simp add: shape_def comp_def case_prod_beta)

lemma shape_update_turn:
  assumes "\<And>t. turn_shape (f t) = turn_shape t"
  shows "shape (update_turn tid f s) = shape s"
proof -
  have "map (\<lambda>(k, t). (k, turn_shape t)) (btm_update tid f m) = map (\<lambda>(k, t). (k, turn_shape t)) m" for m
    using assms by (induction tid f m rule: btm_update.induct) auto
  then show ?thesis by (simp add: shape_def update_turn_def)
qed

lemma shape_cong: "st_turns s' = st_turns s \<Longrightarrow> shape s' = shape s"
  by (simp add: shape_def)

lemma shape_config [simp]:
  "shape (s\<lparr>st_config := c\<rparr>) = shape s" "shape (s\<lparr>st_discovered_skills := d\<rparr>) = shape s"
  "shape (s\<lparr>st_context_cache := cc\<rparr>) = shape s" "shape (s\<lparr>st_loaded_skill_bodies := b\<rparr>) = shape s"
  "shape (s\<lparr>st_persisted_turns := p\<rparr>) = shape s"
  by (simp_all add: shape_def)

lemma shape_tool_updates [simp]:
  "shape (update_tool_result tid cid name out s) = shape s"
  "shape (add_displayed_image tid picture s) = shape s"
  "shape (mark_unexecuted_tool_results tid executed s) = shape s"
  "shape (set_turn_error tid e s) = shape s"
  by (simp_all add: update_tool_result_def add_displayed_image_def mark_unexecuted_tool_results_def
      set_turn_error_def shape_update_turn turn_shape_def update_first_map_id fill_result_def comp_def)

lemma next_turn_updates [simp]:
  "st_next_turn_id (update_turn tid f s) = st_next_turn_id s"
  "st_next_turn_id (update_tool_result tid cid name out s) = st_next_turn_id s"
  "st_next_turn_id (add_displayed_image tid picture s) = st_next_turn_id s"
  "st_next_turn_id (mark_unexecuted_tool_results tid executed s) = st_next_turn_id s"
  "st_next_turn_id (set_turn_error tid e s) = st_next_turn_id s"
  "st_next_turn_id (set_assistant_response tid resp s) = st_next_turn_id s"
  "st_next_turn_id (seed_tool_results tid calls descs s) = st_next_turn_id s"
  by (simp_all add: update_turn_def update_tool_result_def add_displayed_image_def set_assistant_response_def
      mark_unexecuted_tool_results_def set_turn_error_def seed_tool_results_def)

section \<open>Frames\<close>

named_theorems framed

lemma outline_on_session:
  "shape (f (ag_session a)) = shape (ag_session a) \<Longrightarrow>
   st_next_turn_id (f (ag_session a)) = st_next_turn_id (ag_session a) \<Longrightarrow> outline (on_session f a) = outline a"
  by (simp add: outline_def on_session_def)

lemma outline_fields [framed]:
  "outline (a\<lparr>ag_world := w\<rparr>) = outline a" "outline (a\<lparr>ag_cmds := c\<rparr>) = outline a"
  "outline (a\<lparr>ag_prev_resp_id := p\<rparr>) = outline a" "outline (a\<lparr>ag_client := cl\<rparr>) = outline a"
  "outline (a\<lparr>ag_pending_hints := h\<rparr>) = outline a" "outline (a\<lparr>ag_known_hint_paths := k\<rparr>) = outline a"
  "outline (a\<lparr>ag_pending_user_text := u\<rparr>) = outline a" "outline (a\<lparr>ag_armed := r\<rparr>) = outline a"
  "outline (a\<lparr>ag_warm_cancels := n\<rparr>) = outline a"
  by (simp_all add: outline_def)

lemma outline_basic [framed]:
  "outline (ag_advance a) = outline a" "outline (send_cmd te cmd a) = outline a"
  "outline (send_event te ctx e a) = outline a" "outline (relay_warm_cancel a) = outline a"
  by (simp_all add: ag_advance_def send_cmd_def send_event_def relay_warm_cancel_def framed)

lemma outline_announce [framed]:
  "outline (broadcast_turn_appended te ctx tid a) = outline a"
  "outline (broadcast_token_usage te a) = outline a"
  "outline (announce_call te lp d tc a) = outline a"
  by (simp_all add: broadcast_turn_appended_def broadcast_token_usage_def announce_call_def framed split: option.split)

lemma outline_store [framed]:
  "outline (store_attachment ctx tid key data a) = outline a"
  "outline (snd (store_turn ctx tid a)) = outline a"
  by (simp_all add: store_attachment_def store_turn_def mark_persisted_def Let_def framed outline_on_session
      split: sum.split)

lemma outline_finalize [framed]:
  "outline (snd (finalize_and_broadcast_turn te ctx tid a)) = outline a"
  "outline (persist_turn_checkpoint ctx tid a) = outline a"
proof -
  obtain e b where st: "store_turn ctx tid a = (e, b)" by (cases "store_turn ctx tid a")
  then have "outline b = outline a" using outline_store(2) [of ctx tid a] by simp
  then show "outline (snd (finalize_and_broadcast_turn te ctx tid a)) = outline a"
      "outline (persist_turn_checkpoint ctx tid a) = outline a"
    by (simp_all add: finalize_and_broadcast_turn_def persist_turn_checkpoint_def st framed split: option.split)
qed

lemma outline_record [framed]:
  "outline (emit_image te ctx picture cid tid a) = outline a"
  "outline (finish_tool_call te ctx sid tc out tid a) = outline a"
  "outline (persist_loaded_skill te name args a) = outline a"
  "outline (check_subdirectory_hints te name args a) = outline a"
  by (simp_all add: emit_image_def finish_tool_call_def persist_loaded_skill_def check_subdirectory_hints_def
      Let_def framed outline_on_session split: option.split)

lemma outline_completion [framed]:
  "outline (record_tool_completion te ctx sid tc out picture tid a) = outline a"
  by (simp add: record_tool_completion_def apply_tool_result_side_effects_def Let_def framed split: option.split)

lemma outline_usage [framed]: "outline (account_usage ae usage a) = outline a"
  by (simp add: account_usage_def accumulate_token_usage_def framed outline_on_session split: option.split)

lemma outline_chain [framed]: "outline (on_session (chain_response ae lp rid) a) = outline a"
    "outline (on_session forget_response a) = outline a"
  by (simp_all add: chain_response_def forget_response_def outline_on_session)

lemma outline_once [framed]: "outline (snd (is_cancelled_once te a)) = outline a"
  by (simp add: is_cancelled_once_def framed)

lemma outline_execute [framed]: "outline (snd (execute_tool_with_timeout te tc t d a)) = outline a"
  by (simp add: execute_tool_with_timeout_def framed case_prod_beta Let_def)

lemma outline_content [framed]: "outline (snd (build_system_content ae a)) = outline a"
  by (simp add: build_system_content_def Let_def case_prod_beta framed outline_on_session)

section \<open>Running tools keeps the outline\<close>

text \<open>Both ends of a part of the loop's body: where it goes on, or what it returns.\<close>

fun flow_agent :: "('a \<Rightarrow> agent) \<Rightarrow> 'a flow \<Rightarrow> agent" where
  "flow_agent f (FL_Go x) = f x"
| "flow_agent f (FL_Return r a) = a"

lemma outline_checked [framed]: "outline (flow_agent id (send_checked te cmd a)) = outline a"
  by (simp add: send_checked_def framed)

lemma checked_cases:
  obtains (gone) "send_checked te cmd a = FL_Return LR_Finished a"
  | (sent) "send_checked te cmd a = FL_Go (send_cmd te cmd a)"
  by (cases "cmd_alive te a") (auto simp: send_checked_def)

lemma outline_mutator: "outline (flow_agent snd (run_mutator te lp tid d base tc (tn, a))) = outline a"
  by (cases rule: checked_cases [of te "SC_StatusChanged (SS_ToolCall (ctc_name tc))" "announce_call te lp d tc a"])
     (simp_all add: run_mutator_def Let_def case_prod_beta framed)

lemma outline_mutators: "outline (flow_agent snd (run_mutators te lp tid d base tcs (tn, a))) = outline a"
proof (induction tcs arbitrary: tn a)
  case (Cons tc tcs)
  obtain stop b where once: "is_cancelled_once te a = (stop, b)" by fastforce
  have b: "outline b = outline a" using outline_once [of te a] by (simp add: once)
  show ?case
  proof (cases "run_mutator te lp tid d base tc (tn, b)")
    case (FL_Go x)
    obtain tn' c where x: "x = (tn', c)" by fastforce
    have "outline c = outline b" using outline_mutator [of te lp tid d base tc tn b] by (simp add: FL_Go x)
    then show ?thesis using Cons.IH [of tn' c] b by (simp add: once FL_Go x framed)
  next
    case (FL_Return r c)
    then have "outline c = outline b" using outline_mutator [of te lp tid d base tc tn b] by simp
    then show ?thesis using b by (simp add: once FL_Return framed)
  qed
qed simp

text \<open>Whatever a batch does, it does by processing handles.\<close>

lemma collect_batch_invariant:
  assumes "\<And>h x. I (process h x) = I x"
  shows "I (snd (collect_batch process infos reports stop delivered acc)) = I acc"
proof -
  have fold: "I (fold process hs acc) = I acc" for hs acc
    using assms by (induction hs arbitrary: acc) simp_all
  have drain: "I (drain_batch process infos rs del acc) = I acc" for rs del acc
    using assms by (induction rs arbitrary: del acc) (simp_all add: synthesize_missing_def fold)
  show ?thesis
    using assms by (induction reports arbitrary: stop delivered acc)
      (simp_all add: synthesize_missing_def fold drain)
qed

lemma outline_handle: "outline (snd (process_tool_handle te lp tid h x)) = outline (snd x)"
  by (simp add: process_tool_handle_def case_prod_beta framed)

lemma outline_announce_all: "outline (fold (announce_call te lp d) tcs a) = outline a"
  by (induction tcs arbitrary: a) (simp_all add: framed)

lemma outline_batch: "outline (flow_agent snd (run_batch te lp tid d tcs (tn, a))) = outline a"
proof -
  let ?a = "fold (announce_call te lp d) tcs a"
  note inv = collect_batch_invariant [of "\<lambda>x. outline (snd x)", OF outline_handle]
  show ?thesis
    by (cases rule: checked_cases [of te "SC_StatusChanged (SS_ToolCall (concurrent_tool_status_label tcs))" ?a])
       (simp_all add: run_batch_def Let_def case_prod_beta framed outline_announce_all inv)
qed

lemma outline_tools: "outline (flow_agent snd (run_tools te lp tid d tcs a)) = outline a"
proof -
  let ?ms = "filter (\<lambda>tc. is_session_config_tool (ctc_name tc)) tcs"
  let ?cs = "filter (Not \<circ> (\<lambda>tc. is_session_config_tool (ctc_name tc))) tcs"
  let ?base = "cfg_working_dir (st_config (ag_session a))"
  let ?tn = "\<lparr>tn_executed = [], tn_changes = [], tn_cancelled = False\<rparr>"
  note ms = outline_mutators [of te lp tid d ?base ?ms ?tn a]
  show ?thesis
  proof (cases "run_mutators te lp tid d ?base ?ms (?tn, a)")
    case (FL_Go x)
    then show ?thesis
      using ms outline_batch [of te lp tid d ?cs "fst x" "snd x"]
      by (simp add: run_tools_def case_prod_beta)
  next
    case (FL_Return r b)
    then show ?thesis using ms by (simp add: run_tools_def)
  qed
qed

lemma shape_config_change [simp]:
  "shape (apply_pending_config_change ctx change s) = shape s"
  "st_next_turn_id (apply_pending_config_change ctx change s) = st_next_turn_id s"
  by (cases change; simp add: set_active_groups_def split: option.split)+

lemma shape_config_changes [simp]:
  "shape (fold (apply_pending_config_change ctx) changes s) = shape s"
  "st_next_turn_id (fold (apply_pending_config_change ctx) changes s) = st_next_turn_id s"
  by (induction changes arbitrary: s) simp_all

lemma outline_settle: "outline (snd (settle_tools ae lp tid tn a)) = outline a"
  by (simp add: settle_tools_def Let_def framed outline_on_session)

section \<open>One turn\<close>

lemma list_all_btm_update:
  assumes "list_all P m" and "\<And>v. map_of m k = Some v \<Longrightarrow> P (k, f v)"
  shows "list_all P (btm_update k f m)"
  using assms by (induction k f m rule: btm_update.induct) (auto split: if_splits)

lemma list_all_btm_insert: "list_all P m \<Longrightarrow> P (k, v) \<Longrightarrow> list_all P (btm_insert k v m)"
  by (induction k v m rule: btm_insert.induct) auto

lemma map_btm_update:
  assumes "\<And>t. g (f t) = h (g t)"
  shows "map (\<lambda>(k, t). (k, g t)) (btm_update tid f m) = btm_update tid h (map (\<lambda>(k, t). (k, g t)) m)"
  using assms by (induction tid f m rule: btm_update.induct) auto

lemma map_btm_insert:
  "map (\<lambda>(k, t). (k, g t)) (btm_insert tid v m) = btm_insert tid (g v) (map (\<lambda>(k, t). (k, g t)) m)"
  by (induction tid v m rule: btm_insert.induct) auto

lemma shape_response:
  "shape (set_assistant_response tid resp s) =
     btm_update tid (\<lambda>(u, rs, _). (u, rs, map tc_call_id (resp_tool_calls resp))) (shape s)"
  unfolding shape_def set_assistant_response_def update_turn_def
  by (simp add: map_btm_update [where h = "\<lambda>(u, rs, _). (u, rs, map tc_call_id (resp_tool_calls resp))"] turn_shape_def)

lemma shape_seed:
  assumes "length calls = length descs"
  shows "shape (seed_tool_results tid calls descs s) =
     btm_update tid (\<lambda>(u, _, cs). (u, map tc_call_id calls, cs)) (shape s)"
  unfolding shape_def seed_tool_results_def update_turn_def
  using seed_ids [OF assms]
  by (simp add: map_btm_update [where h = "\<lambda>(u, _, cs). (u, map tc_call_id calls, cs)"] turn_shape_def del: map_map)

text \<open>The turn a request is answered in: just opened, with neither calls nor results.\<close>

definition ready :: "u32 \<Rightarrow> agent \<Rightarrow> bool" where
  "ready tid a \<longleftrightarrow> all_answered (ag_session a) \<and> map_of (shape (ag_session a)) tid = Some (False, [], [])"

lemma outline_eqD:
  assumes "outline b = outline a"
  shows "shape (ag_session b) = shape (ag_session a)" "st_next_turn_id (ag_session b) = st_next_turn_id (ag_session a)"
    "ag_requests b = ag_requests a" "ag_turn_iter b = ag_turn_iter a"
    "ag_truncation_recoveries b = ag_truncation_recoveries a"
    "all_answered (ag_session b) = all_answered (ag_session a)" "ready tid b = ready tid a"
  using assms by (simp_all add: outline_def ready_def all_answered_shape)

text \<open>What every way of ending a turn keeps.\<close>

definition settled :: "agent \<Rightarrow> agent \<Rightarrow> bool" where
  "settled a b \<longleftrightarrow> all_answered (ag_session b) \<and> map fst (shape (ag_session b)) = map fst (shape (ag_session a)) \<and>
     st_next_turn_id (ag_session b) = st_next_turn_id (ag_session a) \<and> ag_requests b = ag_requests a \<and>
     ag_turn_iter b = ag_turn_iter a"

lemma settled_outline: "ready tid a \<Longrightarrow> outline b = outline a \<Longrightarrow> settled a b"
  using outline_eqD [of b a] by (simp add: settled_def ready_def)

lemma settled_trans: "outline b = outline a \<Longrightarrow> settled b c \<Longrightarrow> outline d = outline c \<Longrightarrow> settled a d"
  using outline_eqD [of b a] outline_eqD [of d c] by (simp add: settled_def)

lemma settled_response:
  assumes "ready tid a" and "resp_tool_calls resp = []"
  shows "settled a (on_session (set_assistant_response tid resp) a)"
  using assms
  by (auto simp: settled_def ready_def on_session_def shape_response all_answered_shape intro!: list_all_btm_update)

lemma final_text_settled: "ready tid a \<Longrightarrow> settled a (snd (final_text_turn ae lp tid ft a))"
proof -
  assume rd: "ready tid a"
  let ?resp = "\<lparr>resp_text = Some (ft_content ft @ (if ft_truncated ft then truncated_note else [])),
     resp_reasoning = ft_reasoning ft, resp_tool_calls = [], resp_token_usage = ft_usage ft,
     resp_reasoning_artifact = ft_reasoning_artifact ft, resp_reasoning_producer = Some (lp_producer lp)\<rparr>"
  let ?a1 = "account_usage ae (ft_usage ft) a"
  let ?a2 = "on_session (set_assistant_response tid ?resp) ?a1"
  let ?a3 = "on_session (chain_response ae lp (ft_response_id ft)) ?a2"
  have o1: "outline ?a1 = outline a" by (rule outline_usage)
  then have "ready tid ?a1" using rd outline_eqD(7) by blast
  then have "settled ?a1 ?a2" by (rule settled_response) simp
  moreover have "snd (final_text_turn ae lp tid ft a) = snd (finalize_and_broadcast_turn (ae_tool ae) (lp_ctx lp) tid ?a3)"
    by (simp add: final_text_turn_def Let_def split: prod.split option.split)
  ultimately show ?thesis using settled_trans [OF o1] by (simp add: framed)
qed

lemma record_tool_use_settled: "ready tid a \<Longrightarrow> settled a (record_tool_use ae lp tid tu d a)"
proof -
  assume rd: "ready tid a"
  let ?calls = "map call_record (tu_tool_calls tu)" and ?descs = "map (\<lambda>tc. d (tc_call_id tc)) (map call_record (tu_tool_calls tu))"
  define resp where "resp = \<lparr>resp_text = tu_content tu, resp_reasoning = tu_reasoning tu,
     resp_tool_calls = ?calls, resp_token_usage = tu_usage tu,
     resp_reasoning_artifact = tu_reasoning_artifact tu, resp_reasoning_producer = Some (lp_producer lp)\<rparr>"
  define b where "b = on_session (seed_tool_results tid ?calls ?descs) (on_session (set_assistant_response tid resp) a)"
  have twice: "btm_update tid g (btm_update tid f m) = btm_update tid (g \<circ> f) m" for f g :: "'v \<Rightarrow> 'v" and m
    by (induction tid f m rule: btm_update.induct) auto
  have "shape (ag_session b) = btm_update tid ((\<lambda>(u, _, cs). (u, map tc_call_id ?calls, cs)) \<circ>
      (\<lambda>(u, rs, _). (u, rs, map tc_call_id ?calls))) (shape (ag_session a))"
    by (simp add: b_def on_session_def shape_seed shape_response twice resp_def)
  then have "settled a b"
    using rd by (auto simp: settled_def ready_def b_def on_session_def all_answered_shape intro!: list_all_btm_update)
  moreover have "outline (record_tool_use ae lp tid tu d a) = outline b"
    unfolding record_tool_use_def Let_def by (simp add: framed b_def resp_def)
  ultimately show ?thesis using settled_trans [of a a b] by blast
qed

lemma tool_use_settled: "ready tid a \<Longrightarrow> settled a (snd (tool_use_turn ae lp tid est eff tu a))"
proof -
  assume rd: "ready tid a"
  let ?a1 = "account_usage ae (tu_usage tu) a"
  let ?d = "describe_calls (ae_tool ae) (ag_tick ?a1) (tu_tool_calls tu)"
  let ?a2 = "record_tool_use ae lp tid tu ?d (ag_advance ?a1)"
  define a3 where "a3 = (if wp_mode (lp_warm_policy lp) = WM_Streaming
    then ?a2\<lparr>ag_armed := ag_armed ?a2 @ [tool_window_warm ae lp est eff]\<rparr> else ?a2)"
  have o1: "outline (ag_advance ?a1) = outline a" by (simp add: framed)
  then have "ready tid (ag_advance ?a1)" using rd outline_eqD(7) by blast
  then have s2: "settled (ag_advance ?a1) ?a2" by (rule record_tool_use_settled)
  have o3: "outline a3 = outline ?a2" by (simp add: a3_def framed)
  let ?run = "run_tools (ae_tool ae) lp tid ?d (tu_tool_calls tu) a3"
  have o4: "outline (flow_agent snd ?run) = outline ?a2" using o3 outline_tools [of "ae_tool ae" lp tid ?d "tu_tool_calls tu" a3] by simp
  have "outline (snd (tool_use_turn ae lp tid est eff tu a)) = outline (flow_agent snd ?run)"
    unfolding tool_use_turn_def Let_def a3_def [symmetric]
    using outline_settle by (cases ?run) (simp_all add: case_prod_beta)
  then show ?thesis using settled_trans [OF o1 s2] o4 by simp
qed

lemma truncated_settled: "ready tid a \<Longrightarrow> settled a (snd (truncated_turn ae lp tid discarded a))"
proof -
  assume rd: "ready tid a"
  define resp where "resp = \<lparr>resp_text = Some (truncation_note discarded), resp_reasoning = None, resp_tool_calls = [],
     resp_token_usage = None, resp_reasoning_artifact = None, resp_reasoning_producer = None\<rparr>"
  let ?r = "saturating_add (ag_truncation_recoveries a) 1"
  let ?a1 = "a\<lparr>ag_truncation_recoveries := ?r\<rparr>"
  let ?a2 = "on_session (set_assistant_response tid resp) ?a1"
  have "ready tid ?a1" using rd by (simp add: ready_def)
  then have "settled ?a1 ?a2" by (rule settled_response) (simp add: resp_def)
  then have s2: "settled a ?a2" by (simp add: settled_def)
  obtain e b where fin: "finalize_and_broadcast_turn (ae_tool ae) (lp_ctx lp) tid ?a2 = (e, b)" by fastforce
  have "outline b = outline ?a2" using outline_finalize(1) [of "ae_tool ae" "lp_ctx lp" tid ?a2] by (simp add: fin)
  moreover have "outline (snd (truncated_turn ae lp tid discarded a)) = outline b"
    unfolding truncated_turn_def Let_def resp_def [symmetric] fin by (cases e) (simp_all add: framed)
  ultimately show ?thesis using settled_trans [of a a ?a2] s2 by simp
qed

lemma failed_settled: "ready tid a \<Longrightarrow> settled a (snd (failed_turn ae lp tid err a))"
  by (rule settled_outline) (auto simp: failed_turn_def framed outline_on_session)

lemma end_turn_settled: "ready tid a \<Longrightarrow> settled a (snd (end_turn ae lp tid est eff res a))"
  using final_text_settled [of tid a ae lp] tool_use_settled [of tid a ae lp est eff] truncated_settled [of tid a ae lp]
    failed_settled [of tid a ae lp] settled_outline [of tid a a]
  by (auto simp: end_turn_def case_prod_beta split: sum.split ChatTurnResult.split InferenceError.split)

text \<open>Opening a turn and asking.\<close>

lemma open_turn_outline:
  assumes "open_turn ae lp a = (tid, b)"
  shows "tid = st_next_turn_id (ag_session a)"
    "shape (ag_session b) = btm_insert tid (False, [], []) (shape (ag_session a))"
    "st_next_turn_id (ag_session b) = tid + 1" "ag_requests b = ag_requests a"
    "ag_turn_iter b = ag_turn_iter a" "ag_truncation_recoveries b = ag_truncation_recoveries a"
proof -
  obtain u a1 where u: "take_user_text lp a = (u, a1)" by fastforce
  have a1: "outline a1 = outline a" using u by (auto simp: take_user_text_def framed split: if_splits)
  obtain t s where st: "start_turn (ctx_now (lp_ctx lp) (ag_tick a1)) u (ag_session a1) = ((tid, t), s)"
    using assms by (auto simp: open_turn_def u Let_def split: prod.splits)
  let ?b = "ag_advance (a1\<lparr>ag_session := s\<rparr>)"
  have "b = broadcast_turn_appended (ae_tool ae) (lp_ctx lp) tid ?b"
    using assms by (simp add: open_turn_def u st)
  then have b: "outline b = outline (a1\<lparr>ag_session := s\<rparr>)" by (simp add: framed)
  have fresh: "turn_shape (fresh_turn now v) = (False, [], [])" for now v by (simp add: turn_shape_def fresh_turn_def)
  have s: "tid = st_next_turn_id (ag_session a1)" "st_next_turn_id s = tid + 1"
      "shape s = btm_insert tid (False, [], []) (shape (ag_session a1))"
    using st by (auto simp: start_turn_def shape_def map_btm_insert fresh Let_def split: if_splits)
  note eqs = outline_eqD(1-5) [OF a1] outline_eqD(1-5) [OF b]
  show "tid = st_next_turn_id (ag_session a)" "st_next_turn_id (ag_session b) = tid + 1"
      "shape (ag_session b) = btm_insert tid (False, [], []) (shape (ag_session a))"
      "ag_requests b = ag_requests a" "ag_turn_iter b = ag_turn_iter a"
      "ag_truncation_recoveries b = ag_truncation_recoveries a"
    using s eqs by simp_all
qed

lemma ready_opened:
  assumes "all_answered (ag_session a)" and "shape (ag_session b) = btm_insert tid (False, [], []) (shape (ag_session a))"
  shows "ready tid b"
  using assms by (simp add: ready_def all_answered_shape list_all_btm_insert map_of_btm_insert)

lemma prepare_request_wire:
  assumes "prepare_request ae lp tools eff tid a = ((request, est), b)"
  shows "outline b = outline a"
    "all_answered (ag_session a) \<Longrightarrow> wire_ok (ctr_messages request)"
proof -
  obtain content a1 where c: "build_system_content ae a = (content, a1)" by fastforce
  have a1: "outline (a1\<lparr>ag_pending_hints := []\<rparr>) = outline a"
    using outline_content [of ae a] by (simp add: c framed)
  show "outline b = outline a" using assms a1 by (auto simp: prepare_request_def c Let_def framed)
  have "all_answered (ag_session a1)" if "all_answered (ag_session a)"
    using that outline_eqD(6) [OF a1] by simp
  then show "all_answered (ag_session a) \<Longrightarrow> wire_ok (ctr_messages request)"
    using assms by (auto simp: prepare_request_def c Let_def intro!: wire_ok_request)
qed

text \<open>How a turn begins: not at all, opened only, or opened with a request.\<close>

lemma begin_turn_cases:
  obtains (cancelled) b where "begin_turn ae lp a = FL_Return LR_Cancelled b" "outline b = outline a"
  | (gone) tid b where "begin_turn ae lp a = FL_Return LR_Finished b"
      "shape (ag_session b) = btm_insert tid (False, [], []) (shape (ag_session a))"
      "ag_requests b = ag_requests a" "ag_turn_iter b = ag_turn_iter a"
      "ag_truncation_recoveries b = ag_truncation_recoveries a"
  | (asking) tid request est b where "begin_turn ae lp a = FL_Go (tid, request, est, b)"
      "shape (ag_session b) = btm_insert tid (False, [], []) (shape (ag_session a))"
      "ag_requests b = ag_requests a" "ag_turn_iter b = ag_turn_iter a"
      "ag_truncation_recoveries b = ag_truncation_recoveries a"
      "all_answered (ag_session a) \<Longrightarrow> wire_ok (ctr_messages request)"
proof -
  obtain stop a1 where once: "is_cancelled_once (ae_tool ae) a = (stop, a1)" by fastforce
  have a1: "outline a1 = outline a" using outline_once [of "ae_tool ae" a] by (simp add: once)
  show thesis
  proof (cases stop)
    case True
    then show thesis using cancelled [of "relay_warm_cancel a1"] a1 by (simp add: begin_turn_def once framed)
  next
    case False
    obtain tid a2 where op: "open_turn ae lp a1 = (tid, a2)" by fastforce
    note a2 = open_turn_outline [OF op]
    show thesis
    proof (cases rule: checked_cases [of "ae_tool ae" "SC_StatusChanged SS_Sending" a2])
      case gone': gone
      then show thesis
        using gone [of a2 tid] a2 outline_eqD(1-5) [OF a1] False by (simp add: begin_turn_def once op)
    next
      case sent
      define a3 where "a3 = send_cmd (ae_tool ae) (SC_StatusChanged SS_Sending) a2"
      define eff where "eff = resolve_reasoning_effort (lp_ctx lp) (ag_client a) (lp_model lp) (configured_effort a)"
      define tools where "tools = ae_tool_definitions ae (ag_tick a) (ag_session a)"
      obtain request est b where pr: "prepare_request ae lp tools eff tid a3 = ((request, est), b)"
        by (metis surj_pair)
      have a3: "outline a3 = outline a2" by (simp add: a3_def framed)
      have b: "outline b = outline a2" using prepare_request_wire(1) [OF pr] a3 by simp
      have "begin_turn ae lp a = FL_Go (tid, request, est, b)"
        using False sent pr by (simp add: begin_turn_def once op eff_def tools_def a3_def Let_def)
      moreover have "wire_ok (ctr_messages request)" if "all_answered (ag_session a)"
      proof (rule prepare_request_wire(2) [OF pr])
        show "all_answered (ag_session a3)"
          using that ready_opened [OF _ a2(2)] outline_eqD(6) [OF a1] outline_eqD(6) [OF a3] by (simp add: ready_def)
      qed
      ultimately show thesis
        using asking [of tid request est b] a2 outline_eqD(1-5) [OF a1] outline_eqD(1-5) [OF b] by simp
    qed
  qed
qed

lemma outline_provider_event:
  "on_provider_event ae ctx model sid e (ss, a) = (ss', b) \<Longrightarrow> outline b = outline a"
  by (cases e) (auto simp: stream_text_def advance_stream_phase_def broadcast_stream_chunk_def Let_def framed
      split: if_splits)

lemma outline_provider_events:
  "fold (on_provider_event ae ctx model sid) es (ss, a) = (ss', b) \<Longrightarrow> outline b = outline a"
proof (induction es arbitrary: ss a)
  case (Cons e es)
  obtain ss1 a1 where "on_provider_event ae ctx model sid e (ss, a) = (ss1, a1)" by fastforce
  then show ?case using Cons.IH [of ss1 a1] Cons.prems outline_provider_event [of ae ctx model sid e ss a ss1 a1] by simp
qed simp

text \<open>Asking changes only the list of requests.\<close>

definition asked :: "ChatTurnRequest list \<Rightarrow> agent \<Rightarrow> agent \<Rightarrow> bool" where
  "asked new a b \<longleftrightarrow> shape (ag_session b) = shape (ag_session a) \<and>
     st_next_turn_id (ag_session b) = st_next_turn_id (ag_session a) \<and> ag_requests b = ag_requests a @ new \<and>
     ag_turn_iter b = ag_turn_iter a \<and> ag_truncation_recoveries b = ag_truncation_recoveries a"

lemma asked_once: "ask_once ae ctx model sid request ss a = (res, ss', b) \<Longrightarrow> asked [request] a b"
proof -
  assume ask: "ask_once ae ctx model sid request ss a = (res, ss', b)"
  obtain es where es: "fold (on_provider_event ae ctx model sid) es
      (ss, (ag_advance a)\<lparr>ag_requests := ag_requests a @ [request]\<rparr>) = (ss', b)"
    using ask by (auto simp: ask_once_def Let_def split: prod.splits)
  note outline_eqD(1-5) [OF outline_provider_events [OF es]]
  moreover have "outline (ag_advance a) = outline a" by (rule outline_basic)
  note outline_eqD(1-5) [OF this]
  ultimately show ?thesis by (simp add: asked_def)
qed

lemma asked_outline: "asked new a b \<Longrightarrow> outline c = outline b \<Longrightarrow> asked new a c"
  using outline_eqD [of c b] by (simp add: asked_def)

lemma outline_core:
  "core s = core (ag_session a) \<Longrightarrow> outline (a\<lparr>ag_session := s, ag_world := w\<rparr>) = outline a"
  by (simp add: outline_def core_def shape_def)

lemma refresh_core: "core (fst (snd (refresh_oauth_token ctx force s w))) = core s"
  by (auto simp: refresh_oauth_token_def split: option.split sum.split)

lemma asked_provider:
  assumes "ask_provider ae ctx model sid request a = (res, b)"
  shows "asked [request] a b \<or> asked [request, request] a b"
proof -
  obtain res1 ss a1 where one: "ask_once ae ctx model sid request \<lparr>ss_phase = SP_Sending, ss_output_tokens = 0\<rparr> a = (res1, ss, a1)"
    by (metis surj_pair)
  note a1 = asked_once [OF one]
  show ?thesis
  proof (cases "\<exists>status detail. res1 = Inl (IE_Unauthorized status detail)")
    case False
    then have "b = a1" using assms by (auto simp: ask_provider_def one split: sum.splits InferenceError.splits)
    then show ?thesis using a1 by simp
  next
    case True
    obtain outcome s w where rf: "refresh_oauth_token ctx True (ag_session a1) (ag_world a1) = (outcome, s, w)"
      by (metis surj_pair)
    define a2 where "a2 = a1\<lparr>ag_session := s, ag_world := w\<rparr>"
    have o2: "outline a2 = outline a1"
      using refresh_core [of ctx True "ag_session a1" "ag_world a1"] by (simp add: a2_def rf outline_core)
    obtain rebuilt s3 w3 where rp: "resolve_provider ctx (ag_session a2) (ag_world a2) = (rebuilt, s3, w3)"
      by (metis surj_pair)
    have o3: "outline (a2\<lparr>ag_session := s3, ag_world := w3\<rparr>) = outline a2"
      using core_resolve [of ctx "ag_session a2" "ag_world a2"] by (simp add: rp outline_core)
    show ?thesis
    proof (cases "outcome = Inr RO_Refreshed \<and> (\<exists>p. rebuilt = Inr p)")
      case True
      then obtain p where p: "outcome = Inr RO_Refreshed" "rebuilt = Inr p" by blast
      let ?a3 = "a2\<lparr>ag_session := s3, ag_world := w3, ag_client := p\<rparr>"
      obtain ss4 where two: "ask_once ae ctx model sid request ss ?a3 = (res, ss4, b)"
        using assms \<open>\<exists>status detail. _\<close> p rf rp by (auto simp: ask_provider_def one a2_def Let_def split: prod.splits)
      have "outline ?a3 = outline (a2\<lparr>ag_session := s3, ag_world := w3\<rparr>)" by (simp add: framed)
      then have "outline ?a3 = outline a1" using o2 o3 by simp
      from outline_eqD(1-5) [OF this] asked_once [OF two] a1 have "asked [request, request] a b" by (simp add: asked_def)
      then show ?thesis ..
    next
      case False
      then have "b = a2 \<or> b = a2\<lparr>ag_session := s3, ag_world := w3\<rparr>"
        using assms \<open>\<exists>status detail. _\<close> rf rp
        by (auto simp: ask_provider_def one a2_def Let_def
            split: prod.splits sum.splits RefreshTokenOutcome.splits RefreshFailure.splits)
      then show ?thesis using asked_outline [OF a1] o2 o3 by auto
    qed
  qed
qed

text \<open>A whole turn.\<close>

abbreviation requests_ok :: "ChatTurnRequest list \<Rightarrow> bool" where
  "requests_ok \<equiv> list_all (\<lambda>request. wire_ok (ctr_messages request))"

lemma shape_length: "length (st_turns s) = length (shape s)"
  by (simp add: shape_def)

lemma length_btm_insert: "length (btm_insert k v m) \<le> Suc (length m)"
  by (induction k v m rule: btm_insert.induct) auto

lemma agent_turn_step:
  assumes turn: "agent_turn ae lp a = (r, b)" and ok: "all_answered (ag_session a)"
  obtains new where "all_answered (ag_session b)" "ag_requests b = ag_requests a @ new" "length new \<le> 2" "requests_ok new"
    "ag_turn_iter b = (if r = None then ag_turn_iter a + 1 else ag_turn_iter a)"
    "length (st_turns (ag_session b)) \<le> Suc (length (st_turns (ag_session a)))"
proof (cases rule: begin_turn_cases [of ae lp a])
  case (cancelled c)
  then have "b = c" "r = Some LR_Cancelled" using turn by (auto simp: agent_turn_def)
  then show thesis
    using that [of "[]"] cancelled(2) ok outline_eqD(1-4,6) [OF cancelled(2)] by (simp add: shape_length)
next
  case (gone tid c)
  then have b: "b = c" "r = Some LR_Finished" using turn by (auto simp: agent_turn_def)
  show thesis
    using that [of "[]"] ready_opened [OF ok gone(2)] gone length_btm_insert [of tid _ "shape (ag_session a)"]
    unfolding b ready_def shape_length by simp
next
  case (asking tid request est a1)
  obtain res a2 where ask: "ask_provider ae (lp_ctx lp) (lp_model lp) (lp_stream_id lp) request a1 = (res, a2)" by fastforce
  obtain r' a3 where en: "end_turn ae lp tid est (ctr_thinking_effort request) res a2 = (r', a3)" by fastforce
  have b: "r = r'" "b = (if r = None then a3\<lparr>ag_turn_iter := ag_turn_iter a3 + 1\<rparr> else a3)"
    using turn by (auto simp: agent_turn_def asking(1) ask en)
  obtain new where new: "asked new a1 a2" "new = [request] \<or> new = [request, request]"
    using asked_provider [OF ask] by blast
  have "ready tid a1" by (rule ready_opened [OF ok asking(2)])
  then have "ready tid a2" using new(1) by (simp add: ready_def asked_def all_answered_shape)
  then have "settled a2 a3" using end_turn_settled [of tid a2 ae lp est "ctr_thinking_effort request" res] by (simp add: en)
  then have a3: "all_answered (ag_session a3)" "map fst (shape (ag_session a3)) = map fst (shape (ag_session a2))"
      "ag_requests a3 = ag_requests a2" "ag_turn_iter a3 = ag_turn_iter a2"
    by (simp_all add: settled_def)
  have a2: "shape (ag_session a2) = shape (ag_session a1)" "ag_requests a2 = ag_requests a @ new"
      "ag_turn_iter a2 = ag_turn_iter a"
    using new(1) asking(3,4) by (simp_all add: asked_def)
  have sess: "ag_session b = ag_session a3" and reqs: "ag_requests b = ag_requests a3" by (simp_all add: b(2))
  show thesis
  proof (rule that)
    show "all_answered (ag_session b)" unfolding sess by (rule a3(1))
    show "ag_requests b = ag_requests a @ new" using reqs a3(3) a2(2) by simp
    show "length new \<le> 2" "requests_ok new" using new(2) asking(6) [OF ok] by auto
    show "ag_turn_iter b = (if r = None then ag_turn_iter a + 1 else ag_turn_iter a)"
      using a3(4) a2(3) by (simp add: b(2))
    have "length (shape (ag_session a3)) = length (shape (ag_session a1))"
      using arg_cong [OF a3(2), of length] a2(1) by simp
    then show "length (st_turns (ag_session b)) \<le> Suc (length (st_turns (ag_session a)))"
      using length_btm_insert [of tid _ "shape (ag_session a)"] unfolding shape_length sess asking(2) by simp
  qed
qed

section \<open>The loop\<close>

text \<open>The states the loop goes through, with what it returned if it has.\<close>

inductive loop_reaches :: "AgentEnv \<Rightarrow> LoopParams \<Rightarrow> agent \<Rightarrow> loop_result option \<Rightarrow> agent \<Rightarrow> bool"
  for ae lp a\<^sub>0 where
  start: "loop_reaches ae lp a\<^sub>0 None a\<^sub>0"
| turn: "loop_reaches ae lp a\<^sub>0 None a \<Longrightarrow> \<not> out_of_turns ae a \<Longrightarrow> agent_turn ae lp a = (r, b) \<Longrightarrow>
    loop_reaches ae lp a\<^sub>0 r b"

lemma loop_reaches_ok:
  "loop_reaches ae lp a\<^sub>0 r b \<Longrightarrow> all_answered (ag_session a\<^sub>0) \<Longrightarrow> requests_ok (ag_requests a\<^sub>0) \<Longrightarrow>
     all_answered (ag_session b) \<and> requests_ok (ag_requests b)"
proof (induction rule: loop_reaches.induct)
  case (turn a r b)
  obtain new where "all_answered (ag_session b)" "ag_requests b = ag_requests a @ new" "requests_ok new"
    using agent_turn_step [OF turn.hyps(3)] turn.IH turn.prems by blast
  then show ?case using turn.IH turn.prems by simp
qed simp

lemma loop_limited:
  assumes "0 < ae_max_turns ae" and "ag_turn_iter a \<le> ae_max_turns ae" and "all_answered (ag_session a)"
  shows "\<exists>r b. agent_loop ae lp a = Some (r, b) \<and> all_answered (ag_session b) \<and> ag_turn_iter b \<le> ae_max_turns ae \<and>
    length (ag_requests b) \<le> length (ag_requests a) + 2 * (unat (ae_max_turns ae) - unat (ag_turn_iter a)) \<and>
    length (st_turns (ag_session b)) \<le> length (st_turns (ag_session a)) + (unat (ae_max_turns ae) - unat (ag_turn_iter a)) \<and>
    (ag_turn_iter b = ae_max_turns ae \<longrightarrow> r = LR_Error (turn_limit_error (ae_max_turns ae)))"
  using assms(2,3)
proof (induction "unat (ae_max_turns ae) - unat (ag_turn_iter a)" arbitrary: a rule: less_induct)
  case less
  show ?case
  proof (cases "out_of_turns ae a")
    case True
    then show ?thesis using less.prems by (subst agent_loop.simps) (auto simp: out_of_turns_def)
  next
    case False
    then have lt: "ag_turn_iter a < ae_max_turns ae" using assms(1) by (auto simp: out_of_turns_def)
    obtain r b where turn: "agent_turn ae lp a = (r, b)" by fastforce
    obtain new where b: "all_answered (ag_session b)" "ag_requests b = ag_requests a @ new" "length new \<le> 2"
        "ag_turn_iter b = (if r = None then ag_turn_iter a + 1 else ag_turn_iter a)"
        "length (st_turns (ag_session b)) \<le> Suc (length (st_turns (ag_session a)))"
      using agent_turn_step [OF turn less.prems(2)] by blast
    have pos: "unat (ag_turn_iter a) < unat (ae_max_turns ae)" using lt by (simp add: word_less_nat_alt)
    show ?thesis
    proof (cases r)
      case None
      have "unat (ae_max_turns ae) < 2 ^ 32" using unsigned_less [of "ae_max_turns ae"] by simp
      then have "unat (ag_turn_iter a) + 1 < 2 ^ 32" using pos by simp
      then have iter: "unat (ag_turn_iter b) = Suc (unat (ag_turn_iter a))"
        using b(4) None by (simp add: unat_word_ariths)
      then have le: "ag_turn_iter b \<le> ae_max_turns ae" using pos by (simp add: word_le_nat_alt)
      have dec: "unat (ae_max_turns ae) - unat (ag_turn_iter b) < unat (ae_max_turns ae) - unat (ag_turn_iter a)"
        using iter pos by simp
      obtain r' c where c: "agent_loop ae lp b = Some (r', c)" "all_answered (ag_session c)" "ag_turn_iter c \<le> ae_max_turns ae"
          "length (ag_requests c) \<le> length (ag_requests b) + 2 * (unat (ae_max_turns ae) - unat (ag_turn_iter b))"
          "length (st_turns (ag_session c)) \<le> length (st_turns (ag_session b)) + (unat (ae_max_turns ae) - unat (ag_turn_iter b))"
          "ag_turn_iter c = ae_max_turns ae \<longrightarrow> r' = LR_Error (turn_limit_error (ae_max_turns ae))"
        using less.hyps [OF dec le b(1)] by blast
      have "agent_loop ae lp a = Some (r', c)" using False turn None c(1) by (subst agent_loop.simps) simp
      then show ?thesis using c b iter pos by auto
    next
      case (Some res)
      have "agent_loop ae lp a = Some (res, b)" using False turn Some by (subst agent_loop.simps) simp
      then show ?thesis using b Some lt pos by auto
    qed
  qed
qed

section \<open>A sample environment\<close>

text \<open>Nothing fails and nobody cancels; tools answer with their own name, the last of a batch first.\<close>

definition sample_output :: "string \<Rightarrow> ToolOutput" where
  "sample_output content = \<lparr>out_content = content, out_is_error = False, out_invocation_description = [],
     out_image_ref = None, out_result_json = None\<rparr>"

definition sample_tools :: ToolEnv where
  "sample_tools = \<lparr>te_format_category = (\<lambda>_. False), te_json_string = (\<lambda>_ _. None), te_json_u64 = (\<lambda>_ _. None),
     te_parse_groups = (\<lambda>_. None), te_parse_working_dir = (\<lambda>_. None), te_resolve_working_dir = (\<lambda>_ _ _. None),
     te_discover_skills = (\<lambda>_ _. []), te_load_skill_body = (\<lambda>_ _ _. None), te_subdirectory_hints = (\<lambda>_ _ _ _ _. None),
     te_describe_invocation = (\<lambda>_ _. []), te_serial_wait = (\<lambda>_ tc. (TW_Result (Some (Inr (sample_output (ctc_name tc)))), None)),
     te_batch_wait = (\<lambda>_ _. (TW_Result (Some (Inr (sample_output ''ok''))), None)), te_batch_order = (\<lambda>_. [1, 0]),
     te_batch_cancel = (\<lambda>_. None), te_cancelled = (\<lambda>_. False), te_session_alive = (\<lambda>_. True)\<rparr>"

definition sample_call :: "string \<Rightarrow> string \<Rightarrow> ChatToolCall" where
  "sample_call cid name = \<lparr>ctc_id = cid, ctc_name = name, ctc_arguments_json = [], ctc_caller = None\<rparr>"

text \<open>A provider that calls two tools for ever.\<close>

definition two_calls :: ChatAssistantToolUse where
  "two_calls = \<lparr>tu_content = None, tu_tool_calls = [sample_call ''1'' ''grep'', sample_call ''2'' ''read_file''],
     tu_reasoning = None, tu_usage = None, tu_response_id = None, tu_reasoning_artifact = None\<rparr>"

definition sample_agent :: "InferenceError + ChatTurnResult \<Rightarrow> u32 \<Rightarrow> AgentEnv" where
  "sample_agent answer max_turns = \<lparr>ae_tool = sample_tools,
     ae_catalog = (\<lambda>_ _. \<lparr>mf_passback = RPB_None, mf_require_present = False, mf_vision = False\<rparr>),
     ae_encoding = (\<lambda>_. None), ae_chat = (\<lambda>_ _ _. ([], answer)), ae_tool_definitions = (\<lambda>_ _. []),
     ae_base_prompt = (\<lambda>_ _ _. []), ae_discover_context = (\<lambda>_ _ _. None), ae_cache_affinity = (\<lambda>_. 0),
     ae_extended_retention = (\<lambda>_ _. False), ae_is_anthropic = (\<lambda>_. False), ae_max_turns = max_turns\<rparr>"

abbreviation sample_provider :: InferenceProvider where
  "sample_provider \<equiv> \<lparr>ip_client = 0, ip_slug = ''p''\<rparr>"

section \<open>Properties\<close>

text \<open>
  C7. Every request the agent loop sends is well formed for the provider, at any
  point of any run, returned or not: each assistant message with tool calls is
  followed at once by one result per call, with the same ids in the same order, and
  no result stands anywhere else. It needs only that the session's calls were
  answered when the request started, and the loop leaves them answered, however its
  tools end, fail, panic, time out or are cancelled, so that the next request starts
  from the same footing.
\<close>

theorem requests_always_well_formed:
  assumes "all_answered session"
    and "loop_reaches ae (loop_params client session model stream_id ctx user_text)
      (agent_start ae client model session w) r b"
  shows "list_all (\<lambda>request. wire_ok (ctr_messages request)) (ag_requests b) \<and> all_answered (ag_session b)"
proof -
  have "all_answered (ag_session (agent_start ae client model session w))"
      "requests_ok (ag_requests (agent_start ae client model session w))"
    using assms(1) by (simp_all add: agent_start_def Let_def)
  from loop_reaches_ok [OF assms(2) this] show ?thesis by simp
qed

theorem requests_always_well_formed_witness:
  "\<exists>r b. agent_turn (sample_agent (Inr (CT_ToolUse two_calls)) 2)
      (loop_params sample_provider ready_session ''m'' 1 sample_ctx (Some ''hi''))
      (agent_start (sample_agent (Inr (CT_ToolUse two_calls)) 2) sample_provider ''m'' ready_session idle_world) = (r, b) \<and>
    list_all (\<lambda>request. wire_ok (ctr_messages request)) (ag_requests b) \<and> all_answered (ag_session b)"
proof -
  let ?ae = "sample_agent (Inr (CT_ToolUse two_calls)) 2"
  let ?lp = "loop_params sample_provider ready_session ''m'' 1 sample_ctx (Some ''hi'')"
  let ?a = "agent_start ?ae sample_provider ''m'' ready_session idle_world"
  obtain r b where turn: "agent_turn ?ae ?lp ?a = (r, b)" by fastforce
  have "\<not> out_of_turns ?ae ?a" by (simp add: out_of_turns_def sample_agent_def agent_start_def Let_def)
  from loop_reaches.turn [OF loop_reaches.start this turn] have reach: "loop_reaches ?ae ?lp ?a r b" .
  have "all_answered ready_session" by (simp add: ready_session_def SessionState_empty_def)
  from requests_always_well_formed [OF this reach] turn show ?thesis by blast
qed

text \<open>
  C18. With a turn limit the agent loop always returns, whatever the provider and the
  tools do: after at most as many turns as the limit allows, each of which asks
  the provider at most twice, once more after a refreshed login. The turns of the
  session grow by at most the limit, and a loop that uses all of them ends with the
  error that names the limit.
\<close>

theorem agent_loop_returns_within_limit:
  assumes "0 < ae_max_turns ae" and "all_answered session"
  shows "\<exists>r b. run_agent_loop ae client session model stream_id ctx user_text w = Some (r, b) \<and>
    ag_turn_iter b \<le> ae_max_turns ae \<and>
    length (ag_requests b) \<le> 2 * unat (ae_max_turns ae) \<and>
    length (st_turns (ag_session b)) \<le> length (st_turns session) + unat (ae_max_turns ae) \<and>
    (ag_turn_iter b = ae_max_turns ae \<longrightarrow> r = LR_Error (turn_limit_error (ae_max_turns ae)))"
proof -
  let ?a = "agent_start ae client model session w"
  have start: "ag_turn_iter ?a = 0" "ag_requests ?a = []" "st_turns (ag_session ?a) = st_turns session"
    by (simp_all add: agent_start_def Let_def)
  show ?thesis
    using loop_limited [OF assms(1), of ?a "loop_params client session model stream_id ctx user_text"] assms(2)
    unfolding run_agent_loop_def start by auto
qed

theorem agent_loop_returns_within_limit_witness:
  "\<exists>r b. run_agent_loop (sample_agent (Inr (CT_ToolUse two_calls)) 2) sample_provider ready_session ''m'' 1 sample_ctx
       (Some ''hi'') idle_world = Some (r, b) \<and> length (ag_requests b) \<le> 4 \<and> length (st_turns (ag_session b)) \<le> 2"
  using agent_loop_returns_within_limit [of "sample_agent (Inr (CT_ToolUse two_calls)) 2" ready_session sample_provider
      "''m''" 1 sample_ctx "Some ''hi''" idle_world]
  by (auto simp: sample_agent_def ready_session_def SessionState_empty_def)

end
