(* ===== verification/Agent_Tools.thy ===== *)
theory Agent_Tools
  imports Agent_Correct
begin

text \<open>
  What the tools of a turn leave in the transcript: a batch of tools that run at the
  same time is collected whole, whatever order its threads report in, whichever of
  them panic and whenever the request is cancelled.
\<close>

section \<open>Collecting a batch\<close>

abbreviation handle_id :: "ToolHandle \<Rightarrow> string" where
  "handle_id h \<equiv> ctc_id (th_tool_call h)"

lemma hs_insert_length: "length (hs_insert x xs) \<le> Suc (length xs)"
  by (simp add: hs_insert_def)

lemma missing_calls_cong: "set d = set d' \<Longrightarrow> missing_calls infos d = missing_calls infos d'"
  by (simp add: missing_calls_def)

text \<open>Once as many ids were delivered as there are calls, nothing is missing.\<close>

lemma all_delivered:
  assumes "distinct delivered" and "set delivered \<subseteq> set (map info_call_id infos)" and "length infos \<le> length delivered"
  shows "missing_calls infos delivered = []"
proof -
  have "card (set (map info_call_id infos)) \<le> length infos" by (metis card_length length_map)
  then have "card (set (map info_call_id infos)) \<le> card (set delivered)"
    using assms(1,3) by (simp add: distinct_card)
  then have "set delivered = set (map info_call_id infos)"
    using assms(2) by (meson List.finite_set card_seteq)
  then show ?thesis by (auto simp: missing_calls_def filter_empty_conv)
qed

lemma drain_batch_all:
  assumes "distinct delivered" and "set delivered \<union> handle_id ` set reports \<subseteq> set (map info_call_id infos)"
  shows "drain_batch process infos reports delivered acc =
    fold process (reports @ map panic_tool_handle (missing_calls infos (delivered @ map handle_id reports))) acc"
  using assms
proof (induction reports arbitrary: delivered acc)
  case Nil
  then show ?case using all_delivered [of delivered infos] by (simp add: synthesize_missing_def)
next
  case (Cons h reports)
  have "missing_calls infos (hs_insert (handle_id h) delivered @ map handle_id reports) =
      missing_calls infos (delivered @ map handle_id (h # reports))"
    by (rule missing_calls_cong) auto
  then show ?case using Cons.IH [of "hs_insert (handle_id h) delivered" "process h acc"] Cons.prems by simp
qed

text \<open>Every handle that arrives is processed in turn, then every call that never reported.\<close>

lemma collect_batch_all:
  assumes "distinct delivered" and "set delivered \<union> handle_id ` set reports \<subseteq> set (map info_call_id infos)"
    and "length delivered + length reports \<le> length infos"
  shows "snd (collect_batch process infos reports stop delivered acc) =
    fold process (reports @ map panic_tool_handle (missing_calls infos (delivered @ map handle_id reports))) acc"
  using assms
proof (induction reports arbitrary: stop delivered acc)
  case Nil
  then show ?case using all_delivered [of delivered infos] by (simp add: synthesize_missing_def)
next
  case (Cons h reports)
  have more: "length delivered < length infos" using Cons.prems(3) by simp
  have same: "missing_calls infos (hs_insert (handle_id h) delivered @ map handle_id reports) =
      missing_calls infos (delivered @ map handle_id (h # reports))"
    by (rule missing_calls_cong) auto
  have fits: "length (hs_insert (handle_id h) delivered) + length reports \<le> length infos"
    using hs_insert_length [of "handle_id h" delivered] Cons.prems(3) by simp
  show ?case
    using Cons.IH [of "hs_insert (handle_id h) delivered" "map_option (\<lambda>k. k - 1) stop" "process h acc"] Cons.prems
      drain_batch_all [of delivered "h # reports" infos process acc] more same fits
    by simp
qed

section \<open>The handles of a batch\<close>

definition spawned_handle :: "ToolEnv \<Rightarrow> nat \<Rightarrow> (string \<Rightarrow> string) \<Rightarrow> ChatToolCall list \<Rightarrow> nat \<Rightarrow> ToolHandle" where
  "spawned_handle te now d calls i = (let tc = calls ! i in
     spawn_single_tool tc (determine_tool_timeout te (ctc_name tc) (ctc_arguments_json tc)) (d (ctc_id tc))
       (te_batch_wait te now i))"

text \<open>What call \<open>i\<close> of the batch comes to: the report of its thread, or the note that the thread panicked.\<close>

definition call_outcome :: "ToolEnv \<Rightarrow> nat \<Rightarrow> (string \<Rightarrow> string) \<Rightarrow> ChatToolCall list \<Rightarrow> nat \<Rightarrow> ToolHandle" where
  "call_outcome te now d calls i =
     (if i \<in> set (te_batch_order te now) then spawned_handle te now d calls i
      else panic_tool_handle (call_info d (calls ! i)))"

lemma spawned_handle_id [simp]: "handle_id (spawned_handle te now d calls i) = ctc_id (calls ! i)"
  by (simp add: spawned_handle_def spawn_single_tool_def Let_def)

lemma panic_id [simp]: "handle_id (panic_tool_handle (call_info d tc)) = ctc_id tc"
  by (simp add: panic_tool_handle_def call_info_def)

lemma outcome_id [simp]: "handle_id (call_outcome te now d calls i) = ctc_id (calls ! i)"
  by (simp add: call_outcome_def)

lemma batch_reports_map:
  "batch_reports te now d calls =
     map (spawned_handle te now d calls) (remdups (filter (\<lambda>i. i < length calls) (te_batch_order te now)))"
  by (simp add: batch_reports_def spawned_handle_def)

text \<open>With distinct ids the handles that are processed are the outcomes of the calls, in some order.\<close>

lemma batch_handles:
  fixes te :: ToolEnv and now :: nat and d :: "string \<Rightarrow> string" and calls :: "ChatToolCall list"
  assumes dist: "distinct (map ctc_id calls)"
  defines "reports \<equiv> batch_reports te now d calls"
  obtains order where "distinct order" "set order = {..<length calls}"
    "reports @ map panic_tool_handle (missing_calls (map (call_info d) calls) (map handle_id reports)) =
       map (call_outcome te now d calls) order"
proof -
  let ?n = "length calls"
  let ?came = "remdups (filter (\<lambda>i. i < ?n) (te_batch_order te now))"
  let ?lost = "filter (\<lambda>i. i \<notin> set (te_batch_order te now)) [0..<?n]"
  have inj: "ctc_id (calls ! i) = ctc_id (calls ! j) \<longleftrightarrow> i = j" if "i < ?n" "j < ?n" for i j
    using nth_eq_iff_index_eq [OF dist, of i j] that by simp
  have "(ctc_id (calls ! i) \<notin> set (map handle_id reports)) = (i \<notin> set (te_batch_order te now))" if "i < ?n" for i
    using that inj by (auto simp: reports_def batch_reports_map)
  then have keep: "filter (\<lambda>i. ctc_id (calls ! i) \<notin> set (map handle_id reports)) [0..<?n] = ?lost"
    by (intro filter_cong) auto
  have "calls = map ((!) calls) [0..<?n]" by (simp add: map_nth)
  then have "missing_calls (map (call_info d) calls) (map handle_id reports) =
      missing_calls (map (\<lambda>i. call_info d (calls ! i)) [0..<?n]) (map handle_id reports)"
    by (metis (no_types, lifting) map_map comp_apply map_cong)
  also have "\<dots> = map (\<lambda>i. call_info d (calls ! i)) ?lost"
    using keep by (simp add: missing_calls_def filter_map comp_def call_info_def)
  finally have "reports @ map panic_tool_handle (missing_calls (map (call_info d) calls) (map handle_id reports)) =
      map (call_outcome te now d calls) (?came @ ?lost)"
    by (simp add: reports_def batch_reports_map call_outcome_def)
  then show thesis by (rule that [of "?came @ ?lost", rotated 2]) auto
qed

section \<open>The results of a turn\<close>

definition turn_results :: "u32 \<Rightarrow> agent \<Rightarrow> ToolResultRecord list option" where
  "turn_results tid a = map_option t_tool_results (map_of (st_turns (ag_session a)) tid)"

text \<open>What is recorded of an output: format characters escaped, then cut to the limit.\<close>

definition recorded :: "ToolEnv \<Rightarrow> ToolOutput \<Rightarrow> ToolOutput" where
  "recorded te out = out\<lparr>out_content := truncate_tool_output (sanitize_transcript (te_format_category te) (out_content out))\<rparr>"

named_theorems same_results

lemma results_fields [same_results]:
  "turn_results tid (a\<lparr>ag_world := w\<rparr>) = turn_results tid a" "turn_results tid (a\<lparr>ag_cmds := c\<rparr>) = turn_results tid a"
  "turn_results tid (a\<lparr>ag_known_hint_paths := k, ag_pending_hints := h\<rparr>) = turn_results tid a"
  "turn_results tid (a\<lparr>ag_warm_cancels := n\<rparr>) = turn_results tid a"
  by (simp_all add: turn_results_def)

lemma results_on_session:
  "map_option t_tool_results (map_of (st_turns (f (ag_session a))) tid) = turn_results tid a \<Longrightarrow>
   turn_results tid (on_session f a) = turn_results tid a"
  by (simp add: turn_results_def on_session_def)

lemma results_basic [same_results]:
  "turn_results tid (ag_advance a) = turn_results tid a" "turn_results tid (send_cmd te cmd a) = turn_results tid a"
  "turn_results tid (send_event te ctx e a) = turn_results tid a" "turn_results tid (relay_warm_cancel a) = turn_results tid a"
  "turn_results tid (broadcast_turn_appended te ctx k a) = turn_results tid a"
  "turn_results tid (announce_call te lp d tc a) = turn_results tid a"
  by (simp_all add: ag_advance_def send_cmd_def send_event_def relay_warm_cancel_def broadcast_turn_appended_def
      announce_call_def same_results split: option.split)

lemma results_side [same_results]:
  "turn_results tid (store_attachment ctx k key data a) = turn_results tid a"
  "turn_results tid (emit_image te ctx picture cid k a) = turn_results tid a"
  "turn_results tid (persist_loaded_skill te name args a) = turn_results tid a"
  "turn_results tid (check_subdirectory_hints te name args a) = turn_results tid a"
  by (simp_all add: store_attachment_def emit_image_def persist_loaded_skill_def check_subdirectory_hints_def
      add_displayed_image_def Let_def same_results split: option.split sum.split)
     (simp_all add: turn_results_def on_session_def map_of_update_turn option.map_comp comp_def ag_advance_def
      split: option.split)

lemma results_completion:
  "turn_results tid (record_tool_completion te ctx sid tc out picture tid a) =
     map_option (update_first (\<lambda>r. tr_call_id r = ctc_id tc) (fill_result (ctc_name tc) (recorded te out))) (turn_results tid a)"
proof -
  have upd: "turn_results tid (on_session (update_tool_result tid cid name o1) b) =
      map_option (update_first (\<lambda>r. tr_call_id r = cid) (fill_result name o1)) (turn_results tid b)" for cid name o1 b
    by (simp add: turn_results_def on_session_def update_tool_result_def map_of_update_turn option.map_comp comp_def)
  show ?thesis
    by (simp add: record_tool_completion_def apply_tool_result_side_effects_def finish_tool_call_def Let_def
        same_results upd recorded_def split: option.split)
qed

definition handle_result :: "ToolEnv \<Rightarrow> ToolHandle \<Rightarrow> string \<times> string \<times> ToolOutput" where
  "handle_result te h = (handle_id h, ctc_name (th_tool_call h), recorded te (th_output h))"

lemma results_handles:
  "fold (process_tool_handle te lp tid) hs (executed, a) = (executed', b) \<Longrightarrow>
     turn_results tid b = map_option (apply_to_results (map (handle_result te) hs)) (turn_results tid a) \<and>
     set executed' = set executed \<union> handle_id ` set hs"
proof (induction hs arbitrary: executed a)
  case (Cons h hs)
  obtain e1 a1 where one: "process_tool_handle te lp tid h (executed, a) = (e1, a1)" by fastforce
  have "turn_results tid a1 = map_option (update_first (\<lambda>r. tr_call_id r = handle_id h)
      (fill_result (ctc_name (th_tool_call h)) (recorded te (th_output h)))) (turn_results tid a)"
      "e1 = hs_insert (handle_id h) executed"
    using one by (auto simp: process_tool_handle_def results_completion)
  then show ?case
    using Cons.IH [of e1 a1] Cons.prems one by (auto simp: handle_result_def option.map_comp comp_def)
next
  case Nil
  then show ?case by (cases "turn_results tid b") auto
qed

text \<open>With distinct ids on both sides the order in which results are filled in does not matter.\<close>

lemma apply_to_results_lookup:
  assumes "distinct (map fst outs)" and "distinct (map tr_call_id rs)"
  shows "apply_to_results outs rs =
    map (\<lambda>r. case map_of outs (tr_call_id r) of Some (name, out) \<Rightarrow> fill_result name out r | None \<Rightarrow> r) rs"
  using assms
proof (induction outs rs rule: apply_to_results.induct)
  case (2 cid name out outs rs)
  let ?f = "fill_result name out"
  have id: "tr_call_id (?f r) = tr_call_id r" for r by (simp add: fill_result_def)
  have first: "update_first (\<lambda>r. tr_call_id r = cid) ?f rs = map (\<lambda>r. if tr_call_id r = cid then ?f r else r) rs"
    using 2(3)
  proof (induction rs)
    case (Cons r rs)
    then show ?case by (cases "tr_call_id r = cid") (auto simp: image_iff intro!: map_idI [symmetric])
  qed simp
  have none: "map_of outs cid = None" using 2(2) by (simp add: map_of_eq_None_iff)
  have "distinct (map tr_call_id (update_first (\<lambda>r. tr_call_id r = cid) ?f rs))"
    using 2(3) by (simp add: update_first_map_id id)
  with 2 show ?case by (auto simp: first comp_def id none split: option.split)
qed simp

lemma calls_ids: "set (map ctc_id calls) = (\<lambda>i. ctc_id (calls ! i)) ` {..<length calls}"
  by (auto simp: set_conv_nth image_iff) (metis nth_map)

lemma calls_id_inj:
  "distinct (map ctc_id calls) \<Longrightarrow> i < length calls \<Longrightarrow> j < length calls \<Longrightarrow>
     ctc_id (calls ! i) = ctc_id (calls ! j) \<longleftrightarrow> i = j"
  using nth_eq_iff_index_eq [of "map ctc_id calls" i j] by simp

text \<open>What filling in the outcomes of all calls, in any order, makes of the results.\<close>

lemma outcomes_filled_in:
  fixes te :: ToolEnv and now :: nat and d :: "string \<Rightarrow> string" and calls :: "ChatToolCall list"
  assumes calls: "distinct (map ctc_id calls)" and rs: "distinct (map tr_call_id rs)"
    and order: "distinct order" "set order = {..<length calls}"
  defines "outs \<equiv> map (handle_result te) (map (call_outcome te now d calls) order)"
  defines "rs' \<equiv> apply_to_results outs rs"
  shows "k < length rs \<Longrightarrow> tr_call_id (rs ! k) \<notin> set (map ctc_id calls) \<Longrightarrow> rs' ! k = rs ! k"
    and "k < length rs \<Longrightarrow> i < length calls \<Longrightarrow> tr_call_id (rs ! k) = ctc_id (calls ! i) \<Longrightarrow>
      rs' ! k = fill_result (ctc_name (calls ! i)) (recorded te (th_output (call_outcome te now d calls i))) (rs ! k)"
proof -
  have ids: "map fst outs = map (\<lambda>i. ctc_id (calls ! i)) order" by (simp add: outs_def handle_result_def)
  have dist: "distinct (map fst outs)"
    unfolding ids using order calls_id_inj [OF calls] by (auto simp: distinct_map inj_on_def)
  have look: "rs' ! k = (case map_of outs (tr_call_id (rs ! k)) of
      Some (name, out) \<Rightarrow> fill_result name out (rs ! k) | None \<Rightarrow> rs ! k)" if "k < length rs" for k
    using that by (simp add: rs'_def apply_to_results_lookup [OF dist rs])
  show "rs' ! k = rs ! k" if "k < length rs" "tr_call_id (rs ! k) \<notin> set (map ctc_id calls)"
  proof -
    have "map_of outs (tr_call_id (rs ! k)) = None"
      using that(2) unfolding map_of_eq_None_iff set_map [symmetric] ids calls_ids by (simp add: order(2))
    then show ?thesis using look [OF that(1)] by simp
  qed
  show "rs' ! k = fill_result (ctc_name (calls ! i)) (recorded te (th_output (call_outcome te now d calls i))) (rs ! k)"
    if "k < length rs" "i < length calls" "tr_call_id (rs ! k) = ctc_id (calls ! i)"
  proof -
    let ?h = "call_outcome te now d calls i"
    have "handle_result te ?h \<in> set outs" using that(2) order(2) by (auto simp: outs_def)
    then have "map_of outs (ctc_id (calls ! i)) = Some (ctc_name (th_tool_call ?h), recorded te (th_output ?h))"
      using dist by (simp add: handle_result_def map_of_eq_Some_iff)
    moreover have "ctc_name (th_tool_call ?h) = ctc_name (calls ! i)"
      by (simp add: call_outcome_def spawned_handle_def spawn_single_tool_def panic_tool_handle_def call_info_def Let_def)
    ultimately show ?thesis using look [OF that(1)] that(3) by simp
  qed
qed

text \<open>A batch run as the processing of all outcomes.\<close>

lemma batch_processed:
  assumes calls: "distinct (map ctc_id calls)"
    and coll: "collect_batch process (map (call_info d) calls) (batch_reports te now d calls) stop [] acc = (stopped, acc')"
  obtains order where "distinct order" "set order = {..<length calls}"
    "fold process (map (call_outcome te now d calls) order) acc = acc'"
proof -
  let ?reports = "batch_reports te now d calls" and ?infos = "map (call_info d) calls"
  obtain order where order: "distinct order" "set order = {..<length calls}"
      "?reports @ map panic_tool_handle (missing_calls ?infos (map handle_id ?reports)) = map (call_outcome te now d calls) order"
    using batch_handles [OF calls, of te now d] by blast
  let ?came = "remdups (filter (\<lambda>i. i < length calls) (te_batch_order te now))"
  have "set ?came \<subseteq> {..<length calls}" by auto
  then have "length ?came \<le> length calls"
    using card_mono [of "{..<length calls}" "set ?came"] by (simp add: length_remdups_card_conv)
  then have len: "length ?reports \<le> length ?infos" by (simp add: batch_reports_map)
  have sub: "handle_id ` set ?reports \<subseteq> set (map info_call_id ?infos)"
    by (auto simp: batch_reports_map call_info_def)
  have "fold process (map (call_outcome te now d calls) order) acc = acc'"
    using collect_batch_all [of "[]" ?reports ?infos process stop acc] coll sub len order(3) by simp
  then show thesis by (rule that [OF order(1,2)])
qed

lemma announced_all:
  "ag_tick (fold (announce_call te lp d) cs a) = ag_tick a"
  "turn_results tid (fold (announce_call te lp d) cs a) = turn_results tid a"
  by (induction cs arbitrary: a)
     (simp_all add: announce_call_def send_event_def send_cmd_def ag_tick_def turn_results_def)

lemma run_batch_collects:
  assumes "run_batch te lp tid d calls (tn, a) = FL_Go (tn', b)"
  obtains stopped executed a1 c where
    "collect_batch (process_tool_handle te lp tid) (map (call_info d) calls) (batch_reports te (ag_tick a) d calls)
       (te_batch_cancel te (ag_tick a)) [] (tn_executed tn, a1) = (stopped, executed, c)"
    "turn_results tid a1 = turn_results tid a" "tn_executed tn' = executed" "turn_results tid b = turn_results tid c"
proof -
  let ?status = "SC_StatusChanged (SS_ToolCall (concurrent_tool_status_label calls))"
  let ?a0 = "fold (announce_call te lp d) calls a"
  have sent: "send_checked te ?status ?a0 = FL_Go (send_cmd te ?status ?a0)"
    using assms by (cases rule: checked_cases [of te ?status ?a0]) (auto simp: run_batch_def)
  let ?a1 = "send_cmd te ?status ?a0"
  have now: "ag_tick ?a1 = ag_tick a" using announced_all(1) [of te lp d calls a] by (simp add: send_cmd_def ag_tick_def)
  obtain stopped executed c where coll:
    "collect_batch (process_tool_handle te lp tid) (map (call_info d) calls) (batch_reports te (ag_tick a) d calls)
       (te_batch_cancel te (ag_tick a)) [] (tn_executed tn, ag_advance ?a1) = (stopped, executed, c)"
    by (metis surj_pair)
  then have "tn_executed tn' = executed" "turn_results tid b = turn_results tid c"
    using assms by (auto simp: run_batch_def sent now Let_def same_results)
  then show thesis using that [OF coll] by (simp add: same_results announced_all)
qed

section \<open>Properties\<close>


text \<open>A turn with two seeded results, run by the sample tools: the second reports first.\<close>

definition seeded_agent :: agent where
  "seeded_agent = (agent_start (sample_agent (Inl IE_Cancelled) 0) sample_provider ''m'' ready_session idle_world)
     \<lparr>ag_session := ready_session\<lparr>st_turns := [(0, (fresh_turn 5 None)\<lparr>t_tool_results :=
        [seed_result (call_record (sample_call ''1'' ''grep'')) [],
         seed_result (call_record (sample_call ''2'' ''read_file'')) []]\<rparr>)]\<rparr>\<rparr>"


end
