(* ===== verification/Agent_Ends.thy ===== *)
theory Agent_Ends
  imports Agent_Tools
begin

text \<open>
  How a turn ends and what is left of it: the answer is stored before the request
  reports success, an answer cut off inside a tool call is retried a bounded number of
  times, and the status shown while an answer streams only moves forward.
\<close>

section \<open>A cut-off answer\<close>

lemma truncated_turn_fields:
  assumes "truncated_turn ae lp tid discarded a = (r, b)" and "ag_truncation_recoveries a < 3"
  shows "ag_requests b = ag_requests a"
    and "r = None \<Longrightarrow> unat (ag_truncation_recoveries b) = Suc (unat (ag_truncation_recoveries a)) \<and>
    ag_truncation_recoveries b < 3"
proof -
  define resp where "resp = \<lparr>resp_text = Some (truncation_note discarded), resp_reasoning = None, resp_tool_calls = [],
     resp_token_usage = None, resp_reasoning_artifact = None, resp_reasoning_producer = None\<rparr>"
  let ?r = "saturating_add (ag_truncation_recoveries a) 1"
  let ?a2 = "on_session (set_assistant_response tid resp) (a\<lparr>ag_truncation_recoveries := ?r\<rparr>)"
  obtain e c where fin: "finalize_and_broadcast_turn (ae_tool ae) (lp_ctx lp) tid ?a2 = (e, c)" by fastforce
  have "outline c = outline ?a2" using outline_finalize(1) [of "ae_tool ae" "lp_ctx lp" tid ?a2] by (simp add: fin)
  then have c: "ag_truncation_recoveries c = ?r" "ag_requests c = ag_requests a"
    using outline_eqD(3,5) [of c ?a2] by (simp_all add: on_session_def)
  have "unat (ag_truncation_recoveries a) < 3" using assms(2) by (simp add: word_less_nat_alt)
  then have r: "unat ?r = Suc (unat (ag_truncation_recoveries a))" by (simp add: unat_saturating_add)
  show "ag_requests b = ag_requests a"
    using assms(1) c(2)
    unfolding truncated_turn_def Let_def resp_def [symmetric] fin
    by (cases e) (auto simp: on_session_def split: if_splits)
  show "unat (ag_truncation_recoveries b) = Suc (unat (ag_truncation_recoveries a)) \<and> ag_truncation_recoveries b < 3"
    if "r = None"
    using assms(1) that r c(1)
    unfolding truncated_turn_def Let_def resp_def [symmetric] fin
    by (cases e) (auto simp: MAX_TRUNCATION_RECOVERIES_def on_session_def split: if_splits)
qed

definition always_truncates :: "AgentEnv \<Rightarrow> bool" where
  "always_truncates ae \<longleftrightarrow> (\<forall>n client request. \<exists>events discarded.
     ae_chat ae n client request = (events, Inl (IE_TruncatedToolCall discarded)))"

lemma truncating_turn:
  assumes "always_truncates ae" and turn: "agent_turn ae lp a = (r, b)" and "ag_truncation_recoveries a < 3"
  shows "length (ag_requests b) \<le> Suc (length (ag_requests a))"
    and "r = None \<Longrightarrow> unat (ag_truncation_recoveries b) = Suc (unat (ag_truncation_recoveries a)) \<and>
      ag_truncation_recoveries b < 3"
proof -
  have both: "length (ag_requests b) \<le> Suc (length (ag_requests a)) \<and>
    (r = None \<longrightarrow> unat (ag_truncation_recoveries b) = Suc (unat (ag_truncation_recoveries a)) \<and>
      ag_truncation_recoveries b < 3)"
  proof (cases rule: begin_turn_cases [of ae lp a])
    case (cancelled c)
    then show ?thesis using turn outline_eqD(3) [OF cancelled(2)] by (auto simp: agent_turn_def)
  next
    case (gone tid c)
    then show ?thesis using turn by (auto simp: agent_turn_def)
  next
    case (asking tid request est a1)
    obtain res ss a2 where one: "ask_once ae (lp_ctx lp) (lp_model lp) (lp_stream_id lp) request
        \<lparr>ss_phase = SP_Sending, ss_output_tokens = 0\<rparr> a1 = (res, ss, a2)"
      by (metis surj_pair)
    obtain es discarded where chat: "ae_chat ae (ag_tick a1) (ag_client a1) request = (es, Inl (IE_TruncatedToolCall discarded))"
      using assms(1) unfolding always_truncates_def by blast
    have res: "res = Inl (IE_TruncatedToolCall discarded)" using one by (auto simp: ask_once_def chat Let_def split: prod.splits)
    then have ask: "ask_provider ae (lp_ctx lp) (lp_model lp) (lp_stream_id lp) request a1 = (res, a2)"
      by (simp add: ask_provider_def one)
    obtain r' a3 where tr: "truncated_turn ae lp tid discarded a2 = (r', a3)" by fastforce
    have b: "r = r'" "ag_requests b = ag_requests a3" "ag_truncation_recoveries b = ag_truncation_recoveries a3"
      using turn by (auto simp: agent_turn_def asking(1) ask res end_turn_def tr)
    have a2: "ag_requests a2 = ag_requests a @ [request]" "ag_truncation_recoveries a2 = ag_truncation_recoveries a"
      using asked_once [OF one] asking(3,5) by (simp_all add: asked_def)
    show ?thesis using truncated_turn_fields [OF tr] assms(3) a2 b by simp
  qed
  then show "length (ag_requests b) \<le> Suc (length (ag_requests a))"
    "r = None \<Longrightarrow> unat (ag_truncation_recoveries b) = Suc (unat (ag_truncation_recoveries a)) \<and>
      ag_truncation_recoveries b < 3"
    by blast+
qed

lemma truncating_loop:
  assumes "always_truncates ae" and "ag_truncation_recoveries a < 3"
  shows "\<exists>r b. agent_loop ae lp a = Some (r, b) \<and>
    length (ag_requests b) \<le> length (ag_requests a) + (3 - unat (ag_truncation_recoveries a))"
  using assms(2)
proof (induction "3 - unat (ag_truncation_recoveries a)" arbitrary: a rule: less_induct)
  case less
  have pos: "unat (ag_truncation_recoveries a) < 3" using less.prems by (simp add: word_less_nat_alt)
  show ?case
  proof (cases "out_of_turns ae a")
    case True
    then show ?thesis by (subst agent_loop.simps) simp
  next
    case False
    obtain r b where turn: "agent_turn ae lp a = (r, b)" by fastforce
    note step = truncating_turn [OF assms(1) turn less.prems]
    show ?thesis
    proof (cases r)
      case None
      then have b: "unat (ag_truncation_recoveries b) = Suc (unat (ag_truncation_recoveries a))"
          "ag_truncation_recoveries b < 3"
        using step(2) by simp_all
      have "3 - unat (ag_truncation_recoveries b) < 3 - unat (ag_truncation_recoveries a)" using b(1) pos by simp
      from less.hyps [OF this b(2)] obtain r' c where c: "agent_loop ae lp b = Some (r', c)"
          "length (ag_requests c) \<le> length (ag_requests b) + (3 - unat (ag_truncation_recoveries b))"
        by blast
      have "agent_loop ae lp a = Some (r', c)" using False turn None c(1) by (subst agent_loop.simps) simp
      then show ?thesis using c(2) step(1) b(1) pos by auto
    next
      case (Some res)
      have "agent_loop ae lp a = Some (res, b)" using False turn Some by (subst agent_loop.simps) simp
      then show ?thesis using step(1) pos by auto
    qed
  qed
qed

section \<open>The phases of a stream\<close>

definition announced_phase :: "SessionCommand \<Rightarrow> StreamPhase option" where
  "announced_phase cmd = (case cmd of
     SC_StatusChanged SS_Reasoning \<Rightarrow> Some SP_Reasoning
   | SC_StatusChanged SS_Responding \<Rightarrow> Some SP_Responding
   | _ \<Rightarrow> None)"

abbreviation phases_forward :: "StreamPhase list \<Rightarrow> bool" where
  "phases_forward \<equiv> sorted_wrt (\<lambda>p q. phase_rank p < phase_rank q)"

text \<open>From phase \<open>p\<close> to phase \<open>q\<close> only phases in between are announced, each once and in order.\<close>

definition moved :: "StreamPhase \<Rightarrow> StreamPhase \<Rightarrow> agent \<Rightarrow> agent \<Rightarrow> bool" where
  "moved p q a b \<longleftrightarrow> phase_rank p \<le> phase_rank q \<and> (\<exists>new. ag_cmds b = ag_cmds a @ new \<and>
     phases_forward (List.map_filter announced_phase new) \<and>
     (\<forall>x \<in> set (List.map_filter announced_phase new). phase_rank p < phase_rank x \<and> phase_rank x \<le> phase_rank q))"

lemma moved_refl: "ag_cmds b = ag_cmds a \<Longrightarrow> moved p p a b"
  by (simp add: moved_def List.map_filter_simps)

lemma map_filter_append: "List.map_filter f (xs @ ys) = List.map_filter f xs @ List.map_filter f ys"
  by (simp add: List.map_filter_def)

lemma moved_trans: "moved p q a b \<Longrightarrow> moved q s b c \<Longrightarrow> moved p s a c"
  unfolding moved_def
  by (elim conjE exE) (fastforce simp: map_filter_append sorted_wrt_append intro!: exI [of _ "_ @ _"])

lemma moved_silent: "announced_phase cmd = None \<Longrightarrow> moved p p a (send_cmd te cmd a)"
  by (auto simp: moved_def send_cmd_def List.map_filter_simps)

lemma moved_advance:
  assumes "advance_stream_phase te target p a = (q, b)" and "target \<noteq> SP_Sending"
  shows "moved p q a b"
  using assms
  by (cases target) (auto simp: advance_stream_phase_def moved_def send_cmd_def announced_phase_def List.map_filter_simps split: if_splits)

lemma moved_event:
  assumes "on_provider_event ae ctx model sid e (ss, a) = (ss', b)"
  shows "moved (ss_phase ss) (ss_phase ss') a b"
proof -
  have chunk: "moved p p x (broadcast_stream_chunk te ctx sid stream output_text count x)" for p x te stream output_text count
    unfolding broadcast_stream_chunk_def send_event_def
    by (rule moved_trans; rule moved_silent) (simp_all add: announced_phase_def)
  have streamed: "moved (ss_phase ss) (ss_phase ss') a b"
    if "stream_text ae ctx model sid target stream output_text (ss, a) = (ss', b)" "target \<noteq> SP_Sending" for target stream output_text
  proof -
    obtain q c where adv: "advance_stream_phase (ae_tool ae) target (ss_phase ss) a = (q, c)" by fastforce
    then have "ss_phase ss' = q" "\<exists>count. b = broadcast_stream_chunk (ae_tool ae) ctx sid stream output_text count c"
      using that(1) by (auto simp: stream_text_def Let_def)
    then show ?thesis using moved_trans [OF moved_advance [OF adv that(2)] chunk] by auto
  qed
  show ?thesis
  proof (cases e)
    case (PV_Retry x y z)
    then show ?thesis using assms moved_silent by (auto simp: announced_phase_def)
  next
    case PV_Uploaded
    then show ?thesis using assms moved_silent by (auto simp: announced_phase_def)
  next
    case (PV_Answer t)
    then show ?thesis using assms streamed [of SP_Responding] by simp
  next
    case (PV_Reasoning t)
    then show ?thesis using assms streamed [of SP_Reasoning] by simp
  qed
qed

lemma moved_events:
  "fold (on_provider_event ae ctx model sid) es (ss, a) = (ss', b) \<Longrightarrow> moved (ss_phase ss) (ss_phase ss') a b"
proof (induction es arbitrary: ss a)
  case (Cons e es)
  obtain ss1 a1 where one: "on_provider_event ae ctx model sid e (ss, a) = (ss1, a1)" by fastforce
  then show ?case using moved_trans [OF moved_event [OF one] Cons.IH [of ss1 a1]] Cons.prems by simp
qed (simp add: moved_refl)

lemma moved_once:
  assumes "ask_once ae ctx model sid request ss a = (res, ss', b)"
  shows "moved (ss_phase ss) (ss_phase ss') a b"
proof -
  obtain es where es: "fold (on_provider_event ae ctx model sid) es
      (ss, (ag_advance a)\<lparr>ag_requests := ag_requests a @ [request]\<rparr>) = (ss', b)"
    using assms by (auto simp: ask_once_def Let_def split: prod.splits)
  have "ag_cmds ((ag_advance a)\<lparr>ag_requests := ag_requests a @ [request]\<rparr>) = ag_cmds a" by (simp add: ag_advance_def)
  then show ?thesis using moved_trans [OF moved_refl moved_events [OF es]] by blast
qed

text \<open>Asking again after a refreshed login goes on in the phase the first attempt reached.\<close>

lemma moved_provider:
  assumes "ask_provider ae ctx model sid request a = (res, b)"
  shows "\<exists>q. moved SP_Sending q a b"
proof -
  obtain res1 ss a1 where one: "ask_once ae ctx model sid request \<lparr>ss_phase = SP_Sending, ss_output_tokens = 0\<rparr> a = (res1, ss, a1)"
    by (metis surj_pair)
  have m1: "moved SP_Sending (ss_phase ss) a a1" using moved_once [OF one] by simp
  have silent: "ag_cmds b = ag_cmds a1 \<Longrightarrow> ?thesis" using moved_trans [OF m1 moved_refl] by blast
  show ?thesis
  proof (cases "ag_cmds b = ag_cmds a1")
    case False
    obtain outcome s w where rf: "refresh_oauth_token ctx True (ag_session a1) (ag_world a1) = (outcome, s, w)"
      by (metis surj_pair)
    obtain rebuilt s3 w3 where rp: "resolve_provider ctx s w = (rebuilt, s3, w3)" by (metis surj_pair)
    obtain p ss4 where two: "ask_once ae ctx model sid request ss
        (a1\<lparr>ag_session := s3, ag_world := w3, ag_client := p\<rparr>) = (res, ss4, b)"
      using assms False rf rp
      by (auto simp: ask_provider_def one Let_def split: prod.splits sum.splits InferenceError.splits
          RefreshTokenOutcome.splits RefreshFailure.splits)
    have "moved (ss_phase ss) (ss_phase ss) a1 (a1\<lparr>ag_session := s3, ag_world := w3, ag_client := p\<rparr>)"
      by (simp add: moved_refl)
    from moved_trans [OF moved_trans [OF m1 this] moved_once [OF two]] show ?thesis by blast
  qed (rule silent)
qed

section \<open>Storing a turn\<close>

lemma finalize_stores:
  assumes "finalize_and_broadcast_turn te ctx tid a = (None, b)" and "map_of (st_turns (ag_session a)) tid = Some turn"
  shows "write_turn None (ctx_session_id ctx) tid turn (w_db (ag_world a)) = Inr (w_db (ag_world b))"
    and "st_turns (ag_session b) = st_turns (ag_session a)"
proof -
  obtain c where st: "store_turn ctx tid a = (None, c)" and b: "b = broadcast_turn_appended te ctx tid c"
    using assms(1) by (auto simp: finalize_and_broadcast_turn_def split: prod.splits option.splits)
  obtain db where fin: "finalize_turn (ctx_db_fault ctx (w_tick (ag_world a))) (ctx_session_id ctx) tid (ag_session a)
      (w_db (ag_world a)) = Inr db"
    using st by (auto simp: store_turn_def Let_def split: sum.splits)
  then have c: "w_db (ag_world c) = db" "st_turns (ag_session c) = st_turns (ag_session a)"
    using st by (auto simp: store_turn_def Let_def on_session_def ag_advance_def tick_def mark_persisted_def)
  have "write_turn_retry (ctx_db_fault ctx (w_tick (ag_world a))) (ctx_session_id ctx) tid turn (w_db (ag_world a)) = Inr db"
    using fin assms(2) by (auto simp: finalize_turn_def split: sum.splits)
  moreover have "ag_world b = ag_world c" "ag_session b = ag_session c"
    by (simp_all add: b broadcast_turn_appended_def send_event_def send_cmd_def split: option.split)
  ultimately show "write_turn None (ctx_session_id ctx) tid turn (w_db (ag_world a)) = Inr (w_db (ag_world b))"
      "st_turns (ag_session b) = st_turns (ag_session a)"
    using write_turn_retry_Inr c by simp_all
qed

section \<open>Properties\<close>

text \<open>
  A provider that cuts off every answer inside a tool call cannot keep a request
  running, even where there is no turn limit: the recovery budget ends the request
  after at most three requests to the provider.
\<close>

theorem truncation_recovery_bounded:
  assumes "always_truncates ae"
  shows "\<exists>r b. run_agent_loop ae client session model stream_id ctx user_text w = Some (r, b) \<and> length (ag_requests b) \<le> 3"
proof -
  let ?a = "agent_start ae client model session w"
  have "ag_truncation_recoveries ?a = 0" "ag_requests ?a = []" by (simp_all add: agent_start_def Let_def)
  then show ?thesis
    using truncating_loop [OF assms, of ?a "loop_params client session model stream_id ctx user_text"]
    by (simp add: run_agent_loop_def)
qed

theorem truncation_recovery_bounded_witness:
  "\<exists>r b. run_agent_loop (sample_agent (Inl (IE_TruncatedToolCall [])) 0) sample_provider ready_session ''m'' 1 sample_ctx
     (Some ''hi'') idle_world = Some (r, b) \<and> length (ag_requests b) \<le> 3"
proof -
  have "always_truncates (sample_agent (Inl (IE_TruncatedToolCall [])) 0)"
    by (simp add: always_truncates_def sample_agent_def)
  from truncation_recovery_bounded [OF this] show ?thesis .
qed

text \<open>
  While an answer streams, the status the session is told only moves forward:
  in all that asking the provider posts to the session, a second attempt after a
  refreshed login included, the statuses for reasoning and for answering come at most
  once each and the first never after the second, in whatever order the provider
  mixes its chunks.
\<close>

theorem stream_status_moves_forward:
  "\<exists>new. ag_cmds (snd (ask_provider ae ctx model stream_id request a)) = ag_cmds a @ new \<and>
     List.map_filter announced_phase new \<in> {[], [SP_Reasoning], [SP_Responding], [SP_Reasoning, SP_Responding]}"
proof -
  obtain res b where ask: "ask_provider ae ctx model stream_id request a = (res, b)" by fastforce
  obtain new where new: "ag_cmds b = ag_cmds a @ new" "phases_forward (List.map_filter announced_phase new)"
      "\<forall>x \<in> set (List.map_filter announced_phase new). phase_rank SP_Sending < phase_rank x"
    using moved_provider [OF ask] by (auto simp: moved_def)
  have rank: "phase_rank x \<noteq> 0 \<Longrightarrow> x = SP_Reasoning \<or> x = SP_Responding" for x by (cases x) auto
  have "xs \<in> {[], [SP_Reasoning], [SP_Responding], [SP_Reasoning, SP_Responding]}"
    if "phases_forward xs" "\<forall>x \<in> set xs. phase_rank SP_Sending < phase_rank x" for xs
  proof (cases xs)
    case (Cons x ys)
    then show ?thesis
    proof (cases ys)
      case (Cons y zs)
      then have "x = SP_Reasoning" "y = SP_Responding" using that \<open>xs = x # ys\<close> rank [of x] rank [of y] by auto
      moreover have "zs = []"
      proof (cases zs)
        case (Cons z us)
        have "phase_rank y < phase_rank z" using that(1) \<open>xs = x # ys\<close> \<open>ys = y # zs\<close> Cons by simp
        then show ?thesis using \<open>y = SP_Responding\<close> by (cases z) simp_all
      qed
      ultimately show ?thesis using \<open>xs = x # ys\<close> Cons by simp
    qed (use that rank in \<open>fastforce simp: Cons\<close>)
  qed simp
  then show ?thesis using new ask by auto
qed


definition sample_answer :: FinalTextResult where
  "sample_answer = \<lparr>ft_content = ''yes'', ft_truncated = False, ft_reasoning = None, ft_usage = None,
     ft_response_id = None, ft_reasoning_artifact = None\<rparr>"


end
