(* ===== verification/Provider_Retry.thy ===== *)
theory Provider_Retry
  imports Complex_Main Rust_Str Proto_Types
begin

text \<open>
  How a request to a provider is repeated (\<open>src/choreo-ai-protocols/src/retry\<close>): the
  backoff, which answers are worth another attempt, what a server's Retry-After
  header allows, cancellation while waiting, and the two policies around the loop, a
  retry without compression and a few more for gateways that fail at random.

  The transport is a parameter: what the \<open>n\<close>-th send brings back, with or without a
  compressed body. So are the JSON parser, the parser of HTTP dates, the random
  jitter and when a cancellation is pending. Durations are milliseconds. Products of
  floating-point numbers are taken as real numbers.
\<close>

section \<open>Data (retry/mod.rs, retry/error.rs)\<close>

definition MAX_BACKOFF_MS :: u64 where
  "MAX_BACKOFF_MS = 3600000"

record RetryConfig =
  rc_max_attempts :: u32
  rc_initial_backoff_ms :: u64
  rc_max_backoff_ms :: u64

definition RetryConfig_new :: "u32 \<Rightarrow> u64 \<Rightarrow> u64 \<Rightarrow> RetryConfig" where
  "RetryConfig_new max_attempts initial_backoff_ms max_backoff_ms =
     (let initial_backoff_ms = min initial_backoff_ms MAX_BACKOFF_MS;
          max_backoff_ms = max (min max_backoff_ms MAX_BACKOFF_MS) initial_backoff_ms
      in \<lparr>rc_max_attempts = max_attempts, rc_initial_backoff_ms = initial_backoff_ms, rc_max_backoff_ms = max_backoff_ms\<rparr>)"

definition with_no_retry :: "bool \<Rightarrow> RetryConfig \<Rightarrow> RetryConfig" where
  "with_no_retry no_retry self = (if no_retry then self\<lparr>rc_max_attempts := 1\<rparr> else self)"

datatype ProviderHttpError =
    PH_Unauthorized u16 string
  | PH_RateLimited u16 "u64 option" string
  | PH_ServerError u16 string
  | PH_ClientError u16 string
  | PH_EmptyResponse
  | PH_Cancelled
  | PH_Io io_error

fun ProviderHttpError_text :: "ProviderHttpError \<Rightarrow> string" where
  "ProviderHttpError_text (PH_Unauthorized status detail) =
     ''unauthorized ('' @ show_nat (unat status) @ ''): '' @ detail"
| "ProviderHttpError_text (PH_RateLimited status retry_after_secs detail) = (case retry_after_secs of
     Some secs \<Rightarrow> ''rate limited ('' @ show_nat (unat status) @ '', retry after '' @ show_nat (unat secs) @ ''s): '' @ detail
   | None \<Rightarrow> ''rate limited ('' @ show_nat (unat status) @ ''): '' @ detail)"
| "ProviderHttpError_text (PH_ServerError status detail) =
     ''server error ('' @ show_nat (unat status) @ ''): '' @ detail"
| "ProviderHttpError_text (PH_ClientError status detail) =
     ''client error ('' @ show_nat (unat status) @ ''): '' @ detail"
| "ProviderHttpError_text PH_EmptyResponse = ''empty response''"
| "ProviderHttpError_text PH_Cancelled = ''cancelled''"
| "ProviderHttpError_text (PH_Io e) = io_text e"

record http_response =
  hr_status :: u16
  hr_retry_after :: "string option"
  hr_body :: string

text \<open>A parsed JSON value, as far as error messages are looked up in it.\<close>

datatype json = J_Object "(string \<times> json) list" | J_String string | J_Other

record RetryEnv =
  re_send :: "nat \<Rightarrow> bool \<Rightarrow> string + http_response"
  re_json :: "string \<Rightarrow> json option"
  re_http_date :: "nat \<Rightarrow> string \<Rightarrow> int option"
  re_jitter :: "nat \<Rightarrow> real"
  re_cancelled :: "nat \<Rightarrow> bool"
  re_now :: "nat \<Rightarrow> nat"
  re_gateway_slug :: "string \<Rightarrow> bool"

text \<open>
  The state around an attempt: how many requests were sent, the callbacks made, the
  waits slept through, the deadline of the current attempt, whether the body
  is sent compressed, and the providers that refused compression.
\<close>

record attempts =
  at_sends :: nat
  at_tick :: nat
  at_notified :: "(u32 \<times> u32 \<times> nat) list"
  at_waited :: "nat list"
  at_deadline :: "nat option"
  at_compressed :: bool
  at_downgraded :: "string list"

record AttemptContext =
  ac_notify :: bool
  ac_cancellable :: bool
  act_total_timeout_secs :: "nat option"

section \<open>Backoff (retry/mod.rs)\<close>

definition backoff_base :: "u32 \<Rightarrow> RetryConfig \<Rightarrow> u64" where
  "backoff_base retry_number config =
     (let n = unat retry_number - 1;
          multiplier = (if n < 64 then 2 ^ n else - 1 :: u64);
          base = saturating_mul (rc_initial_backoff_ms config) multiplier
      in min base (rc_max_backoff_ms config))"

definition backoff_duration :: "real \<Rightarrow> u32 \<Rightarrow> RetryConfig \<Rightarrow> nat" where
  "backoff_duration jitter retry_number config =
     min (nat \<lfloor>real (unat (backoff_base retry_number config)) * jitter\<rfloor>) (2 ^ 64 - 1)"

definition is_retryable_status :: "u16 \<Rightarrow> bool" where
  "is_retryable_status status \<longleftrightarrow> status \<in> {429, 500, 502, 503, 504}"

definition retry_decision :: "real \<Rightarrow> u16 \<Rightarrow> u64 option \<Rightarrow> u32 \<Rightarrow> RetryConfig \<Rightarrow> nat option" where
  "retry_decision jitter status retry_after_secs attempt retry =
     (if status \<notin> {429, 503} then Some (backoff_duration jitter attempt retry)
      else (case retry_after_secs of
        None \<Rightarrow> Some (backoff_duration jitter attempt retry)
      | Some secs \<Rightarrow>
          (let wait = unat secs * 1000;
               ceiling = unat (min (rc_max_backoff_ms retry) MAX_BACKOFF_MS)
           in if wait \<le> ceiling then Some wait else None)))"

section \<open>Retry-After (retry/mod.rs)\<close>

text \<open>\<open>str::parse::<u64>\<close>: decimal digits after an optional plus sign, and no overflow.\<close>

definition is_digit :: "char \<Rightarrow> bool" where
  "is_digit c \<longleftrightarrow> of_char c \<in> {48..<58 :: nat}"

definition parse_u64 :: "string \<Rightarrow> u64 option" where
  "parse_u64 s =
     (let digits = (case s of c # rest \<Rightarrow> if c = CHR ''+'' then rest else s | [] \<Rightarrow> [])
      in if digits \<noteq> [] \<and> list_all is_digit digits \<and> digits_value digits < 2 ^ 64
         then Some (of_nat (digits_value digits)) else None)"

definition parse_retry_after_secs :: "(string \<Rightarrow> int option) \<Rightarrow> string option \<Rightarrow> u64 option" where
  "parse_retry_after_secs seconds_until header = (case header of
     None \<Rightarrow> None
   | Some raw \<Rightarrow>
       (let trimmed = trim raw in
        if trimmed = [] then None
        else (case parse_u64 trimmed of
          Some secs \<Rightarrow> Some secs
        | None \<Rightarrow> map_option (\<lambda>delta. of_int (max delta 0)) (seconds_until trimmed))))"

section \<open>Errors (retry/error.rs)\<close>

definition status_to_error :: "u16 \<Rightarrow> string \<Rightarrow> u64 option \<Rightarrow> ProviderHttpError" where
  "status_to_error status detail retry_after_secs =
     (if status \<in> {401, 403} then PH_Unauthorized status detail
      else if status = 429 then PH_RateLimited status retry_after_secs detail
      else if 500 \<le> status \<and> status < 600 then PH_ServerError status detail
      else if 400 \<le> status \<and> status < 500 then PH_ClientError status detail
      else PH_Io (IoError IO_Other detail))"

definition json_get :: "string \<Rightarrow> json \<Rightarrow> json option" where
  "json_get key value = (case value of J_Object members \<Rightarrow> map_of members key | _ \<Rightarrow> None)"

definition json_str :: "json \<Rightarrow> string option" where
  "json_str value = (case value of J_String s \<Rightarrow> Some s | _ \<Rightarrow> None)"

definition extract_error_message :: "(string \<Rightarrow> json option) \<Rightarrow> string \<Rightarrow> string option" where
  "extract_error_message parse body = (case parse body of
     None \<Rightarrow> None
   | Some value \<Rightarrow>
       (let message = (case json_get ''error'' value of
              Some (J_Object members) \<Rightarrow> Option.bind (map_of members ''message'') json_str
            | Some (J_String s) \<Rightarrow> Some s
            | _ \<Rightarrow> None);
            message = (case message of Some m \<Rightarrow> Some m | None \<Rightarrow> Option.bind (json_get ''message'' value) json_str)
        in case message of
             None \<Rightarrow> None
           | Some m \<Rightarrow> if trim m = [] then None else Some (trim m)))"

definition error_detail :: "(string \<Rightarrow> json option) \<Rightarrow> http_response \<Rightarrow> string" where
  "error_detail parse response =
     (let failed = ''request failed with status '' @ show_nat (unat (hr_status response));
          trimmed_body = trim (hr_body response)
      in if trimmed_body = [] then failed
         else (case extract_error_message parse trimmed_body of
           Some message \<Rightarrow> message
         | None \<Rightarrow> failed @ '': '' @ trimmed_body))"

section \<open>The loop (retry/mod.rs)\<close>

definition at_advance :: "attempts \<Rightarrow> attempts" where
  "at_advance a = a\<lparr>at_tick := at_tick a + 1\<rparr>"

definition reset_deadline :: "RetryEnv \<Rightarrow> AttemptContext \<Rightarrow> attempts \<Rightarrow> attempts" where
  "reset_deadline env ctx a = (case act_total_timeout_secs ctx of
     None \<Rightarrow> a
   | Some secs \<Rightarrow> (at_advance a)\<lparr>at_deadline := (if 0 < secs then Some (re_now env (at_tick a) + secs * 1000) else None)\<rparr>)"

definition cancellation_pending :: "RetryEnv \<Rightarrow> AttemptContext \<Rightarrow> attempts \<Rightarrow> bool" where
  "cancellation_pending env ctx a \<longleftrightarrow> ac_cancellable ctx \<and> re_cancelled env (at_tick a)"

definition check_cancelled :: "RetryEnv \<Rightarrow> AttemptContext \<Rightarrow> attempts \<Rightarrow> ProviderHttpError option \<times> attempts" where
  "check_cancelled env ctx a =
     (if cancellation_pending env ctx a then (Some PH_Cancelled, at_advance a) else (None, at_advance a))"

definition sleep_or_cancel :: "RetryEnv \<Rightarrow> AttemptContext \<Rightarrow> nat \<Rightarrow> attempts \<Rightarrow> ProviderHttpError option \<times> attempts" where
  "sleep_or_cancel env ctx delay a =
     (if cancellation_pending env ctx a then (Some PH_Cancelled, at_advance a)
      else (None, (at_advance a)\<lparr>at_waited := at_waited a @ [delay]\<rparr>))"

definition wait_before_retry ::
  "RetryEnv \<Rightarrow> AttemptContext \<Rightarrow> u32 \<Rightarrow> u32 \<Rightarrow> nat \<Rightarrow> attempts \<Rightarrow> ProviderHttpError option \<times> attempts" where
  "wait_before_retry env ctx attempt max_attempts delay a =
     (let delay = min delay (unat MAX_BACKOFF_MS);
          a = (if ac_notify ctx then a\<lparr>at_notified := at_notified a @ [(attempt, max_attempts, delay)]\<rparr> else a)
      in sleep_or_cancel env ctx delay a)"

definition send_request :: "RetryEnv \<Rightarrow> attempts \<Rightarrow> (string + http_response) \<times> attempts" where
  "send_request env a = (re_send env (at_sends a) (at_compressed a), (at_advance a)\<lparr>at_sends := at_sends a + 1\<rparr>)"

definition is_success :: "u16 \<Rightarrow> bool" where
  "is_success status \<longleftrightarrow> 200 \<le> status \<and> status < 300"

datatype Terminal = TM_ConsumeIntoError | TM_ReturnResponse

text \<open>What one attempt says: give up with a result, or wait and try again.\<close>

datatype verdict = VD_Done "ProviderHttpError + http_response" | VD_Again nat

definition judge ::
  "RetryEnv \<Rightarrow> RetryConfig \<Rightarrow> Terminal \<Rightarrow> nat \<Rightarrow> u32 \<Rightarrow> string + http_response \<Rightarrow> verdict" where
  "judge env retry terminal now attempt answer = (case answer of
     Inl err \<Rightarrow>
       if attempt < rc_max_attempts retry then VD_Again (backoff_duration (re_jitter env now) attempt retry)
       else VD_Done (Inl (PH_Io (IoError IO_Other err)))
   | Inr response \<Rightarrow>
       if is_success (hr_status response) then VD_Done (Inr response)
       else
         (let status = hr_status response;
              retry_after_secs = parse_retry_after_secs (re_http_date env now) (hr_retry_after response);
              final = (if terminal = TM_ReturnResponse then Inr response
                else Inl (status_to_error status (error_detail (re_json env) response) retry_after_secs))
          in if is_retryable_status status \<and> attempt < rc_max_attempts retry
             then (case retry_decision (re_jitter env now) status retry_after_secs attempt retry of
               Some delay \<Rightarrow> VD_Again delay
             | None \<Rightarrow> VD_Done final)
             else VD_Done final))"

text \<open>Another attempt is made only within the limit.\<close>

lemma judge_again: "judge env retry terminal now attempt answer = VD_Again delay \<Longrightarrow> attempt < rc_max_attempts retry"
  by (auto simp: judge_def Let_def split: sum.splits if_splits option.splits)

lemma unat_next_attempt:
  assumes "attempt < rc_max_attempts retry"
  shows "unat (attempt + 1) = Suc (unat attempt)" and "unat attempt < unat (rc_max_attempts retry)"
proof -
  show lt: "unat attempt < unat (rc_max_attempts retry)" using assms by (simp add: word_less_nat_alt)
  moreover have "unat (rc_max_attempts retry) < 2 ^ 32" using unsigned_less [of "rc_max_attempts retry"] by simp
  ultimately have "unat attempt + 1 < 2 ^ 32" by simp
  then show "unat (attempt + 1) = Suc (unat attempt)" by (simp add: unat_word_ariths)
qed

function attempt_loop ::
  "RetryEnv \<Rightarrow> RetryConfig \<Rightarrow> AttemptContext \<Rightarrow> Terminal \<Rightarrow> u32 \<Rightarrow> attempts \<Rightarrow>
   (ProviderHttpError + http_response) \<times> attempts" where
  "attempt_loop env retry ctx terminal attempt a =
     (let a = reset_deadline env ctx a in
      case check_cancelled env ctx a of
        (Some e, a) \<Rightarrow> (Inl e, a)
      | (None, a) \<Rightarrow>
          (case send_request env a of
             (answer, a) \<Rightarrow>
               (case judge env retry terminal (at_tick a) attempt answer of
                  VD_Done result \<Rightarrow> (result, a)
                | VD_Again delay \<Rightarrow>
                    (case wait_before_retry env ctx attempt (rc_max_attempts retry) delay a of
                       (Some e, a) \<Rightarrow> (Inl e, a)
                     | (None, a) \<Rightarrow> attempt_loop env retry ctx terminal (attempt + 1) a))))"
  by pat_completeness auto

termination
  by (relation "measure (\<lambda>(_, retry, _, _, attempt, _). unat (rc_max_attempts retry) - unat attempt)")
     (auto dest!: judge_again simp: unat_next_attempt intro!: diff_less_mono2)

declare attempt_loop.simps [simp del]

text \<open>\<open>attempt\<close> counts from one.\<close>

definition retry_loop_impl ::
  "RetryEnv \<Rightarrow> RetryConfig \<Rightarrow> AttemptContext \<Rightarrow> Terminal \<Rightarrow> attempts \<Rightarrow> (ProviderHttpError + http_response) \<times> attempts" where
  "retry_loop_impl env retry ctx terminal = attempt_loop env retry ctx terminal 1"

definition retry_loop_http ::
  "RetryEnv \<Rightarrow> RetryConfig \<Rightarrow> AttemptContext \<Rightarrow> attempts \<Rightarrow> (ProviderHttpError + http_response) \<times> attempts" where
  "retry_loop_http env retry ctx = retry_loop_impl env retry ctx TM_ConsumeIntoError"

definition retry_loop_raw ::
  "RetryEnv \<Rightarrow> RetryConfig \<Rightarrow> AttemptContext \<Rightarrow> attempts \<Rightarrow> (ProviderHttpError + http_response) \<times> attempts" where
  "retry_loop_raw env retry ctx = retry_loop_impl env retry ctx TM_ReturnResponse"

section \<open>Compression and gateways (retry/compression.rs, retry/gateway.rs)\<close>

datatype RequestCompression = RC_Identity | RC_Gzip | RC_Zstd

definition from_overlay_str :: "string \<Rightarrow> RequestCompression option" where
  "from_overlay_str value = (if value = ''identity'' then Some RC_Identity
     else if value = ''gzip'' then Some RC_Gzip else if value = ''zstd'' then Some RC_Zstd else None)"

definition content_encoding :: "RequestCompression \<Rightarrow> string option" where
  "content_encoding c = (case c of RC_Identity \<Rightarrow> None | RC_Gzip \<Rightarrow> Some ''gzip'' | RC_Zstd \<Rightarrow> Some ''zstd'')"

definition effective_request_compression :: "string list \<Rightarrow> string \<Rightarrow> RequestCompression \<Rightarrow> RequestCompression" where
  "effective_request_compression downgraded slug configured =
     (if configured = RC_Identity then RC_Identity
      else if slug \<in> set downgraded then RC_Identity else configured)"

definition note_request_compression_downgraded :: "string \<Rightarrow> attempts \<Rightarrow> attempts" where
  "note_request_compression_downgraded slug a = a\<lparr>at_downgraded := List.insert slug (at_downgraded a)\<rparr>"

definition GATEWAY_TRANSIENT_400_ATTEMPTS :: u32 where
  "GATEWAY_TRANSIENT_400_ATTEMPTS = 2"

text \<open>\<open>str::contains\<close> and \<open>str::strip_prefix\<close> on bytes.\<close>

fun str_contains :: "string \<Rightarrow> string \<Rightarrow> bool" where
  "str_contains pat [] = (pat = [])"
| "str_contains pat (c # s) = (take (length pat) (c # s) = pat \<or> str_contains pat s)"

definition str_strip_prefix :: "string \<Rightarrow> string \<Rightarrow> string option" where
  "str_strip_prefix prefix s = (if take (length prefix) s = prefix then Some (drop (length prefix) s) else None)"

definition is_transient_gateway_400 :: "RetryEnv \<Rightarrow> string \<Rightarrow> string \<Rightarrow> bool" where
  "is_transient_gateway_400 env slug detail =
     (if \<not> re_gateway_slug env slug then False
      else if str_contains ''Message content must contain text'' detail \<or>
        str_contains ''Message content supports text content only'' detail then True
      else (case str_strip_prefix ''request failed with status 400:'' detail of
        None \<Rightarrow> False
      | Some raw \<Rightarrow>
          (let body = trim raw; quote = [CHR 0x22] in
           take 1 body = ''{'' \<and> str_contains (quote @ ''model'' @ quote) body \<and>
             \<not> str_contains (quote @ ''error'' @ quote) body \<and> \<not> str_contains (quote @ ''message'' @ quote) body)))"

text \<open>The extra attempts for a gateway: \<open>attempts\<close> are the numbers still to come, \<open>extra\<close> how many in all.\<close>

fun gateway_loop ::
  "RetryEnv \<Rightarrow> string \<Rightarrow> RetryConfig \<Rightarrow> AttemptContext \<Rightarrow> u32 \<Rightarrow> u32 list \<Rightarrow>
   (ProviderHttpError + http_response) \<times> attempts \<Rightarrow> (ProviderHttpError + http_response) \<times> attempts" where
  "gateway_loop env slug retry ctx extra [] (result, a) = (result, a)"
| "gateway_loop env slug retry ctx extra (attempt # rest) (result, a) = (case result of
     Inl (PH_ClientError status detail) \<Rightarrow>
       if status = 400 \<and> is_transient_gateway_400 env slug detail then
         (let delay = backoff_duration (re_jitter env (at_tick a)) attempt retry in
          case wait_before_retry env ctx attempt (extra + 1) delay (at_advance a) of
            (Some e, a) \<Rightarrow> (Inl e, a)
          | (None, a) \<Rightarrow> gateway_loop env slug retry ctx extra rest (retry_loop_http env retry ctx a))
       else (result, a)
   | _ \<Rightarrow> (result, a))"

definition retry_uncompressed ::
  "RetryEnv \<Rightarrow> string \<Rightarrow> RetryConfig \<Rightarrow> AttemptContext \<Rightarrow> (ProviderHttpError + http_response) \<times> attempts \<Rightarrow>
   (ProviderHttpError + http_response) \<times> attempts" where
  "retry_uncompressed env slug retry ctx = (\<lambda>(result, a). case result of
     Inl (PH_ClientError status detail) \<Rightarrow>
       if status = 415 \<and> at_compressed a
       then retry_loop_http env retry ctx (note_request_compression_downgraded slug (a\<lparr>at_compressed := False\<rparr>))
       else (result, a)
   | _ \<Rightarrow> (result, a))"

definition retry_loop_with_provider_policies ::
  "RetryEnv \<Rightarrow> string \<Rightarrow> RetryConfig \<Rightarrow> AttemptContext \<Rightarrow> attempts \<Rightarrow> (ProviderHttpError + http_response) \<times> attempts" where
  "retry_loop_with_provider_policies env slug retry ctx a =
     (let (result, a) = retry_uncompressed env slug retry ctx (retry_loop_http env retry ctx a) in
      if 1 < rc_max_attempts retry
      then (let extra = min GATEWAY_TRANSIENT_400_ATTEMPTS (rc_max_attempts retry - 1) in
            gateway_loop env slug retry ctx extra (map (\<lambda>k. of_nat (Suc k)) [0..<unat extra]) (result, a))
      else (result, a))"

section \<open>One attempt\<close>

named_theorems attempt_frames

text \<open>What no step but a send or a wait changes.\<close>

lemma advance_frame [attempt_frames]:
  "at_sends (at_advance a) = at_sends a" "at_waited (at_advance a) = at_waited a"
  "at_compressed (at_advance a) = at_compressed a" "at_sends (reset_deadline env ctx a) = at_sends a"
  "at_waited (reset_deadline env ctx a) = at_waited a" "at_compressed (reset_deadline env ctx a) = at_compressed a"
  by (simp_all add: at_advance_def reset_deadline_def split: option.split)

text \<open>The four ways an attempt goes.\<close>

lemma attempt_cases:
  obtains (cancelled) b where "attempt_loop env retry ctx terminal attempt a = (Inl PH_Cancelled, b)" "ac_cancellable ctx"
      "at_sends b = at_sends a" "at_waited b = at_waited a" "at_compressed b = at_compressed a"
  | (finished) b now result where "attempt_loop env retry ctx terminal attempt a = (result, b)"
      "judge env retry terminal now attempt (re_send env (at_sends a) (at_compressed a)) = VD_Done result"
      "at_sends b = Suc (at_sends a)" "at_waited b = at_waited a" "at_compressed b = at_compressed a"
  | (interrupted) b where "attempt_loop env retry ctx terminal attempt a = (Inl PH_Cancelled, b)" "ac_cancellable ctx"
      "at_sends b = Suc (at_sends a)" "at_waited b = at_waited a" "at_compressed b = at_compressed a"
  | (again) b now delay where
      "attempt_loop env retry ctx terminal attempt a = attempt_loop env retry ctx terminal (attempt + 1) b"
      "judge env retry terminal now attempt (re_send env (at_sends a) (at_compressed a)) = VD_Again delay"
      "at_sends b = Suc (at_sends a)" "at_waited b = at_waited a @ [min delay (unat MAX_BACKOFF_MS)]"
      "at_compressed b = at_compressed a"
proof -
  let ?a0 = "reset_deadline env ctx a"
  obtain e a1 where chk: "check_cancelled env ctx ?a0 = (e, a1)" by fastforce
  have a1: "at_sends a1 = at_sends a" "at_waited a1 = at_waited a" "at_compressed a1 = at_compressed a"
    using chk by (auto simp: check_cancelled_def attempt_frames split: if_splits)
  define answer where "answer = re_send env (at_sends a) (at_compressed a)"
  define a2 where "a2 = (at_advance a1)\<lparr>at_sends := at_sends a1 + 1\<rparr>"
  have sent: "send_request env a1 = (answer, a2)" by (simp add: send_request_def answer_def a2_def a1)
  have a2: "at_sends a2 = Suc (at_sends a)" "at_waited a2 = at_waited a" "at_compressed a2 = at_compressed a"
    by (simp_all add: a2_def a1 attempt_frames)
  show thesis
  proof (cases e)
    case (Some err)
    then have "err = PH_Cancelled" "ac_cancellable ctx"
      using chk by (auto simp: check_cancelled_def cancellation_pending_def split: if_splits)
    then show thesis using Some a1 by (intro cancelled [of a1]) (subst attempt_loop.simps, simp_all add: chk)
  next
    case None
    show thesis
    proof (cases "judge env retry terminal (at_tick a2) attempt answer")
      case (VD_Done result)
      then show thesis
        using None a2 by (intro finished [of result a2 "at_tick a2"])
          (subst attempt_loop.simps, simp_all add: chk sent answer_def)
    next
      case (VD_Again delay)
      obtain e3 a3 where wt: "wait_before_retry env ctx attempt (rc_max_attempts retry) delay a2 = (e3, a3)" by fastforce
      show thesis
      proof (cases e3)
        case (Some err)
        then have "err = PH_Cancelled" "ac_cancellable ctx" "at_sends a3 = at_sends a2" "at_waited a3 = at_waited a2"
            "at_compressed a3 = at_compressed a2"
          using wt by (auto simp: wait_before_retry_def sleep_or_cancel_def cancellation_pending_def Let_def attempt_frames
              split: if_splits)
        then show thesis
          using Some None a2 by (intro interrupted [of a3]) (subst attempt_loop.simps, simp_all add: chk sent VD_Again wt)
      next
        case none3: None
        then have "at_sends a3 = at_sends a2" "at_waited a3 = at_waited a2 @ [min delay (unat MAX_BACKOFF_MS)]"
            "at_compressed a3 = at_compressed a2"
          using wt by (auto simp: wait_before_retry_def sleep_or_cancel_def Let_def attempt_frames split: if_splits)
        moreover have "attempt_loop env retry ctx terminal attempt a = attempt_loop env retry ctx terminal (attempt + 1) a3"
          by (subst attempt_loop.simps) (simp add: chk sent VD_Again wt None none3)
        ultimately show thesis
          using a2 VD_Again by (intro again [of a3 "at_tick a2" delay]) (simp_all add: answer_def)
      qed
    qed
  qed
qed

section \<open>What the loop comes to\<close>

text \<open>
  An answer worth another attempt: a transport error, or one of the five statuses,
  unless a server that is overloaded asks for a longer wait than the budget.
\<close>

definition wait_allowed :: "RetryEnv \<Rightarrow> RetryConfig \<Rightarrow> nat \<Rightarrow> http_response \<Rightarrow> bool" where
  "wait_allowed env retry now response = (case parse_retry_after_secs (re_http_date env now) (hr_retry_after response) of
     None \<Rightarrow> True
   | Some secs \<Rightarrow> hr_status response \<notin> {429, 503} \<or>
       unat secs * 1000 \<le> unat (min (rc_max_backoff_ms retry) MAX_BACKOFF_MS))"

definition transient :: "RetryEnv \<Rightarrow> RetryConfig \<Rightarrow> nat \<Rightarrow> string + http_response \<Rightarrow> bool" where
  "transient env retry now answer = (case answer of
     Inl _ \<Rightarrow> True
   | Inr response \<Rightarrow> is_retryable_status (hr_status response) \<and> wait_allowed env retry now response)"

text \<open>What an answer means when there is no other attempt.\<close>

definition final_outcome :: "RetryEnv \<Rightarrow> nat \<Rightarrow> string + http_response \<Rightarrow> ProviderHttpError + http_response" where
  "final_outcome env now answer = (case answer of
     Inl err \<Rightarrow> Inl (PH_Io (IoError IO_Other err))
   | Inr response \<Rightarrow>
       if is_success (hr_status response) then Inr response
       else Inl (status_to_error (hr_status response) (error_detail (re_json env) response)
         (parse_retry_after_secs (re_http_date env now) (hr_retry_after response))))"

lemma retryable_not_success: "is_retryable_status status \<Longrightarrow> \<not> is_success status"
  by (auto simp: is_retryable_status_def is_success_def)

lemma judge_transient:
  "judge env retry TM_ConsumeIntoError now attempt answer = VD_Again delay \<Longrightarrow> transient env retry now answer"
  by (auto simp: judge_def transient_def wait_allowed_def retry_decision_def Let_def
      split: sum.splits if_splits option.splits)

lemma judge_final:
  assumes "judge env retry TM_ConsumeIntoError now attempt answer = VD_Done result"
  shows "result = final_outcome env now answer" and "attempt < rc_max_attempts retry \<Longrightarrow> \<not> transient env retry now answer"
  using assms
  by (auto simp: judge_def final_outcome_def transient_def wait_allowed_def retry_decision_def Let_def retryable_not_success
      split: sum.splits if_splits option.splits)

text \<open>From one attempt on: \<open>k\<close> transient answers, then the one that counts.\<close>

definition definite_answer ::
  "RetryEnv \<Rightarrow> RetryConfig \<Rightarrow> u32 \<Rightarrow> attempts \<Rightarrow> nat \<Rightarrow> ProviderHttpError + http_response \<Rightarrow> bool" where
  "definite_answer env retry attempt a k result \<longleftrightarrow>
     (\<forall>j < k. \<exists>now. transient env retry now (re_send env (at_sends a + j) (at_compressed a))) \<and>
     (\<exists>now. let answer = re_send env (at_sends a + k) (at_compressed a) in
        result = final_outcome env now answer \<and>
        (unat attempt + k < unat (rc_max_attempts retry) \<longrightarrow> \<not> transient env retry now answer))"

lemma definite_answer_shift:
  assumes "definite_answer env retry (attempt + 1) b k result" and "transient env retry now (re_send env (at_sends a) (at_compressed a))"
    and "at_sends b = Suc (at_sends a)" "at_compressed b = at_compressed a" and "unat (attempt + 1) = Suc (unat attempt)"
  shows "definite_answer env retry attempt a (Suc k) result"
proof -
  have "\<exists>now. transient env retry now (re_send env (at_sends a + j) (at_compressed a))" if "j < Suc k" for j
  proof (cases j)
    case 0
    then show ?thesis using assms(2) by auto
  next
    case (Suc i)
    then have "\<exists>now. transient env retry now (re_send env (at_sends b + i) (at_compressed b))"
      using assms(1) that by (simp add: definite_answer_def)
    then show ?thesis using Suc assms(3,4) by simp
  qed
  then show ?thesis using assms(1,3-5) by (simp add: definite_answer_def Let_def)
qed

lemma attempt_loop_result:
  assumes "attempt_loop env retry ctx TM_ConsumeIntoError attempt a = (result, b)"
  shows "\<exists>k. at_sends b \<le> at_sends a + Suc k \<and> k \<le> unat (rc_max_attempts retry) - unat attempt \<and>
    at_compressed b = at_compressed a \<and>
    (\<exists>waits. at_waited b = at_waited a @ waits \<and> length waits \<le> k \<and> (\<forall>d \<in> set waits. d \<le> unat MAX_BACKOFF_MS)) \<and>
    (result = Inl PH_Cancelled \<and> ac_cancellable ctx \<or>
     at_sends b = at_sends a + Suc k \<and> definite_answer env retry attempt a k result)"
  using assms
proof (induction "unat (rc_max_attempts retry) - unat attempt" arbitrary: attempt a rule: less_induct)
  case less
  show ?case
  proof (cases rule: attempt_cases [of env retry ctx TM_ConsumeIntoError attempt a])
    case (cancelled c)
    then show ?thesis using less.prems by (intro exI [of _ 0]) auto
  next
    case (finished c now res)
    have "definite_answer env retry attempt a 0 result"
      using judge_final [OF finished(2)] finished(1) less.prems
      by (auto simp: definite_answer_def Let_def word_less_nat_alt)
    then show ?thesis using finished less.prems by (intro exI [of _ 0]) auto
  next
    case (interrupted c)
    then show ?thesis using less.prems by (intro exI [of _ 0]) auto
  next
    case (again c now delay)
    note step = unat_next_attempt [OF judge_again [OF again(2)]]
    have dec: "unat (rc_max_attempts retry) - unat (attempt + 1) < unat (rc_max_attempts retry) - unat attempt"
      using step by simp
    have rest: "attempt_loop env retry ctx TM_ConsumeIntoError (attempt + 1) c = (result, b)" using less.prems again(1) by simp
    from less.hyps [OF dec rest] obtain k waits where
      k: "at_sends b \<le> at_sends c + Suc k" "k \<le> unat (rc_max_attempts retry) - unat (attempt + 1)"
        "at_compressed b = at_compressed c"
        "at_waited b = at_waited c @ waits" "length waits \<le> k" "\<forall>d \<in> set waits. d \<le> unat MAX_BACKOFF_MS"
        "result = Inl PH_Cancelled \<and> ac_cancellable ctx \<or>
          at_sends b = at_sends c + Suc k \<and> definite_answer env retry (attempt + 1) c k result"
      by blast
    have "result = Inl PH_Cancelled \<and> ac_cancellable ctx \<or>
        at_sends b = at_sends a + Suc (Suc k) \<and> definite_answer env retry attempt a (Suc k) result"
      using k(7) definite_answer_shift [OF _ judge_transient [OF again(2)] again(3,5) step(1)] again(3) by auto
    moreover have "at_waited b = at_waited a @ (min delay (unat MAX_BACKOFF_MS) # waits)" using k(4) again(4) by simp
    ultimately show ?thesis
      using k again step by (intro exI [of _ "Suc k"] conjI exI [of _ "min delay (unat MAX_BACKOFF_MS) # waits"]) auto
  qed
qed

lemma retry_loop_sends: "at_sends (snd (retry_loop_http env retry ctx a)) \<le> at_sends a + max 1 (unat (rc_max_attempts retry))"
proof -
  obtain result b where run: "attempt_loop env retry ctx TM_ConsumeIntoError 1 a = (result, b)" by fastforce
  then show ?thesis using attempt_loop_result [OF run] by (auto simp: retry_loop_http_def retry_loop_impl_def)
qed

lemma uncompressed_sends:
  "at_sends (snd (retry_uncompressed env slug retry ctx (result, a))) \<le> at_sends a + max 1 (unat (rc_max_attempts retry))"
  using retry_loop_sends [of env retry ctx "note_request_compression_downgraded slug (a\<lparr>at_compressed := False\<rparr>)"]
  by (auto simp: retry_uncompressed_def note_request_compression_downgraded_def split: sum.split ProviderHttpError.split)

lemma wait_sends: "wait_before_retry env ctx n m d a = (e, b) \<Longrightarrow> at_sends b = at_sends a"
  by (auto simp: wait_before_retry_def sleep_or_cancel_def Let_def attempt_frames split: if_splits)

lemma gateway_sends:
  "at_sends (snd (gateway_loop env slug retry ctx extra ns (result, a))) \<le>
     at_sends a + length ns * max 1 (unat (rc_max_attempts retry))"
proof (induction ns arbitrary: result a)
  case (Cons n ns)
  obtain e b where wt: "wait_before_retry env ctx n (extra + 1) (backoff_duration (re_jitter env (at_tick a)) n retry)
      (at_advance a) = (e, b)" by fastforce
  have b: "at_sends b = at_sends a" using wait_sends [OF wt] by (simp add: attempt_frames)
  obtain res c where run: "retry_loop_http env retry ctx b = (res, c)" by fastforce
  have "at_sends (snd (gateway_loop env slug retry ctx extra ns (res, c))) \<le> at_sends a +
      (max 1 (unat (rc_max_attempts retry)) + length ns * max 1 (unat (rc_max_attempts retry)))"
    using Cons.IH [of res c] retry_loop_sends [of env retry ctx b] b run by simp
  then show ?case
    using wt b run by (auto simp: Let_def split: sum.split ProviderHttpError.split option.split)
qed simp

section \<open>Properties\<close>

text \<open>
  C32. The retry loop returns the first answer that is not worth another attempt, or
  the last one the limit allows: every answer before it was a transport error or
  one of the five transient statuses whose asked-for wait fits the budget; the result
  is that answer's body if its status is a success and otherwise the error its
  status stands for; and if attempts were left, that answer was not transient. Each
  wait in between is at most an hour, there is one fewer than attempts, and a
  cancellation is the only other way to return.
\<close>

theorem first_definite_answer_returned:
  assumes "retry_loop_http env retry ctx a = (result, b)"
  shows "\<exists>k waits. k < max 1 (unat (rc_max_attempts retry)) \<and> at_waited b = at_waited a @ waits \<and> length waits \<le> k \<and>
    (\<forall>d \<in> set waits. d \<le> 3600000) \<and>
    (result = Inl PH_Cancelled \<and> ac_cancellable ctx \<and> at_sends b \<le> at_sends a + Suc k \<or>
     at_sends b = at_sends a + Suc k \<and>
     (\<forall>j < k. \<exists>now. transient env retry now (re_send env (at_sends a + j) (at_compressed a))) \<and>
     (\<exists>now. result = final_outcome env now (re_send env (at_sends a + k) (at_compressed a)) \<and>
        (Suc k < unat (rc_max_attempts retry) \<longrightarrow>
           \<not> transient env retry now (re_send env (at_sends a + k) (at_compressed a)))))"
proof -
  have run: "attempt_loop env retry ctx TM_ConsumeIntoError 1 a = (result, b)"
    using assms by (simp add: retry_loop_http_def retry_loop_impl_def)
  obtain k waits where k: "at_sends b \<le> at_sends a + Suc k" "k \<le> unat (rc_max_attempts retry) - 1"
      "at_waited b = at_waited a @ waits" "length waits \<le> k" "\<forall>d \<in> set waits. d \<le> 3600000"
      "result = Inl PH_Cancelled \<and> ac_cancellable ctx \<or>
       at_sends b = at_sends a + Suc k \<and> definite_answer env retry 1 a k result"
    using attempt_loop_result [OF run] by (auto simp: MAX_BACKOFF_MS_def)
  then show ?thesis
    by (intro exI [of _ k] exI [of _ waits]) (auto simp: definite_answer_def Let_def max_def)
qed

text \<open>
  Asking a provider sends a bounded number of requests, all policies included: at
  most the limit, once more for a server that refuses compressed bodies, and for
  each of at most two extra attempts against a gateway; with retries turned off, at
  most two, the second without compression.
\<close>

theorem provider_sends_bounded:
  "at_sends (snd (retry_loop_with_provider_policies env slug retry ctx a)) \<le>
     at_sends a + (2 + min 2 (unat (rc_max_attempts retry) - 1)) * max 1 (unat (rc_max_attempts retry))"
proof -
  let ?m = "max 1 (unat (rc_max_attempts retry))"
  obtain r1 a1 where one: "retry_loop_http env retry ctx a = (r1, a1)" by fastforce
  obtain r2 a2 where two: "retry_uncompressed env slug retry ctx (r1, a1) = (r2, a2)" by fastforce
  have a2: "at_sends a2 \<le> at_sends a + 2 * ?m"
    using retry_loop_sends [of env retry ctx a] uncompressed_sends [of env slug retry ctx r1 a1] one two by simp
  show ?thesis
  proof (cases "1 < rc_max_attempts retry")
    case False
    then show ?thesis
      using a2 by (simp add: retry_loop_with_provider_policies_def one two)
  next
    case True
    let ?extra = "min GATEWAY_TRANSIENT_400_ATTEMPTS (rc_max_attempts retry - 1)"
    have extra: "unat ?extra = min 2 (unat (rc_max_attempts retry) - 1)"
      using True by (simp add: min_def GATEWAY_TRANSIENT_400_ATTEMPTS_def word_le_nat_alt unat_sub word_less_nat_alt)
    show ?thesis
      using gateway_sends [of env slug retry ctx ?extra "map (\<lambda>k. of_nat (Suc k)) [0..<unat ?extra]" r2 a2] a2 True
      by (simp add: retry_loop_with_provider_policies_def one two extra Let_def add_mult_distrib)
  qed
qed

text \<open>A server that is overloaded once, then answers.\<close>

definition sample_net :: RetryEnv where
  "sample_net = \<lparr>re_send = (\<lambda>n _. Inr \<lparr>hr_status = (if n = 0 then 503 else 200), hr_retry_after = None, hr_body = []\<rparr>),
     re_json = (\<lambda>_. None), re_http_date = (\<lambda>_ _. None), re_jitter = (\<lambda>_. 1), re_cancelled = (\<lambda>_. False), re_now = id,
     re_gateway_slug = (\<lambda>_. False)\<rparr>"

definition fresh_attempts :: attempts where
  "fresh_attempts = \<lparr>at_sends = 0, at_tick = 0, at_notified = [], at_waited = [], at_deadline = None,
     at_compressed = False, at_downgraded = []\<rparr>"

theorem first_definite_answer_returned_witness:
  "\<exists>result b k. retry_loop_http sample_net (RetryConfig_new 3 500 8000)
       \<lparr>ac_notify = True, ac_cancellable = False, act_total_timeout_secs = None\<rparr> fresh_attempts = (result, b) \<and>
     at_sends b = Suc k \<and> k < 3 \<and> (\<exists>now. result = final_outcome sample_net now (re_send sample_net k False))"
proof -
  let ?retry = "RetryConfig_new 3 500 8000"
  let ?ctx = "\<lparr>ac_notify = True, ac_cancellable = False, act_total_timeout_secs = None\<rparr>"
  obtain result b where run: "retry_loop_http sample_net ?retry ?ctx fresh_attempts = (result, b)" by fastforce
  have "unat (rc_max_attempts ?retry) = 3" by (simp add: RetryConfig_new_def Let_def)
  then obtain k where "k < 3" "at_sends b = Suc k"
      "\<exists>now. result = final_outcome sample_net now (re_send sample_net k False)"
    using first_definite_answer_returned [OF run] by (auto simp: fresh_attempts_def)
  then show ?thesis using run by blast
qed

end
