(* ===== verification/Client_Connection.thy ===== *)
theory Client_Connection
  imports Session_Protocol Daemon_Models Db_Store Proto_Frame
begin

text \<open>
  The thread that reads a client's messages
  (\<open>src/choreo-daemon/src/server/connection.rs\<close>) and its dispatch to the daemon and
  to the attached session (\<open>server/connection/handlers.rs\<close>).

  The thread sends commands to the daemon's queue and to the mailbox of a session,
  and often waits for the answer. What it sends is kept in two logs in the order of
  the sends. Whether the receiver still exists at a send, and what it answers, is a
  function of the environment record, of the number of sends before and of the
  command; an answer \<open>None\<close> means that the receiver dropped the reply channel. A
  command that cannot be sent is dropped on the spot, and with it the reply target
  it may carry. What the daemon and the session do with the commands is the
  subject of their own theories.
\<close>

section \<open>Commands and answers\<close>

type_synonym session_tx = nat

text \<open>The commands of the daemon's queue that a connection posts.\<close>

datatype (plugins del: "quickcheck") ConnCommand =
    CC_CreateSession "string option" "u64 option" "string option" "string option" "string option"
      "ContextConfig option" "string option" "string list"
  | CC_AttachSession u64
  | CC_ListSessions
  | CC_GetSessionState u64
  | CC_Unlock bytes "ReplyTarget option"
  | CC_BindKeystore bytes "ReplyTarget option"
  | CC_Lock
  | CC_SaveCredential string ServiceCredential "ReplyTarget option"
  | CC_RemoveCredentialCmd string
  | CC_AclAddCmd string
  | CC_ListModels "u64 option"
  | CC_RefreshModels bool
  | CC_GetCredential string
  | CC_RegisterSummarySubscriber ClientId SubscriberSink
  | CC_UnregisterSummarySubscriber ClientId
  | CC_RegisterActivitySubscriber ClientId SubscriberSink
  | CC_UnregisterActivitySubscriber ClientId
  | CC_ClientDisconnected ClientId
  | CC_RegisterClientWriter ClientId SubscriberSink
  | CC_DeleteSession u64
  | CC_AddAccountCmd string string "string option" "bool option" "u32 option" "u64 option"
      "u64 option" "u64 option"
  | CC_RemoveAccountCmd string
  | CC_ListAccountsCmd
  | CC_AccountExists string
  | CC_CancelRequest u64 u64
  | CC_McpStatus "u64 option"
  | CC_McpReconnect string
  | CC_McpReload "u64 option"
  | CC_McpTrustSet u64 bool
  | CC_McpTrustList
  | CC_SetSessionFlags u64 "bool option" "bool option"

record RefreshReport =
  rr_providers :: usize
  rr_models :: usize
  rr_status :: RefreshStatus

record McpReloadOutcome =
  mro_summary :: string
  mro_servers :: "McpServerStatus list"
  mro_affected_sessions :: "u64 list"

record McpStatusReport =
  msr_servers :: "McpServerStatus list"
  msr_project_root :: "string option"
  msr_project_trusted :: bool
  msr_ignored_project_servers :: "string list"

record McpTrustOutcome =
  mto_root :: "string option"
  mto_trusted :: bool
  mto_message :: string

type_synonym 'r ask = "nat \<Rightarrow> ConnCommand \<Rightarrow> 'r option"

record ConnEnv =
  ce_daemon_up :: "nat \<Rightarrow> bool"
  ce_session_up :: "nat \<Rightarrow> session_tx \<Rightarrow> bool"
  ce_created :: "(io_error + u64 \<times> session_tx) ask"
  ce_attached :: "(io_error + session_tx) ask"
  ce_sessions :: "SessionSummary list ask"
  ce_session_state :: "(io_error + DaemonMessageType) ask"
  ce_acked :: "unit ask"
  ce_result :: "(string + unit) ask"
  ce_io_result :: "(io_error + unit) ask"
  ce_acl_count :: "(string + usize) ask"
  ce_models :: "(string + ListModelsResult) ask"
  ce_refreshed :: "(string + RefreshReport) ask"
  ce_credential :: "string option ask"
  ce_accounts :: "(string + AccountInfo list) ask"
  ce_account_exists :: "bool ask"
  ce_mcp_status :: "McpStatusReport ask"
  ce_mcp_reloaded :: "(string + McpReloadOutcome) ask"
  ce_mcp_trust :: "McpTrustOutcome ask"
  ce_mcp_roots :: "string list ask"
  ce_effort :: "nat \<Rightarrow> session_tx \<Rightarrow> string option"
  ce_db :: "nat \<Rightarrow> Database"
  ce_db_fault :: "nat \<Rightarrow> io_error option"
  ce_oauth_providers :: "OAuthProviderDescriptor list"

record conn_world =
  cw_hub :: hub
  cw_daemon :: "ConnCommand list"
  cw_sent :: "(session_tx \<times> SessionCommand) list"
  cw_tick :: nat

definition drop_target :: "ReplyTarget option \<Rightarrow> conn_world \<Rightarrow> conn_world" where
  "drop_target reply w = (case reply of None \<Rightarrow> w | Some t \<Rightarrow> w\<lparr>cw_hub := ReplyTarget_drop t (cw_hub w)\<rparr>)"

fun conn_reply :: "ConnCommand \<Rightarrow> ReplyTarget option" where
  "conn_reply (CC_Unlock _ reply) = reply"
| "conn_reply (CC_BindKeystore _ reply) = reply"
| "conn_reply (CC_SaveCredential _ _ reply) = reply"
| "conn_reply _ = None"

text \<open>\<open>Sender::send\<close> towards the daemon and towards a session; a refused command is dropped.\<close>

definition daemon_send :: "ConnEnv \<Rightarrow> ConnCommand \<Rightarrow> conn_world \<Rightarrow> conn_world" where
  "daemon_send env cmd w =
     (let up = ce_daemon_up env (cw_tick w); w = w\<lparr>cw_tick := Suc (cw_tick w)\<rparr>
      in if up then w\<lparr>cw_daemon := cw_daemon w @ [cmd]\<rparr> else drop_target (conn_reply cmd) w)"

definition session_send :: "ConnEnv \<Rightarrow> session_tx \<Rightarrow> SessionCommand \<Rightarrow> conn_world \<Rightarrow> conn_world" where
  "session_send env tx cmd w =
     (let up = ce_session_up env (cw_tick w) tx; w = w\<lparr>cw_tick := Suc (cw_tick w)\<rparr>
      in if up then w\<lparr>cw_sent := cw_sent w @ [(tx, cmd)]\<rparr> else drop_target (command_reply cmd) w)"

text \<open>A command with a reply channel: send it and wait.\<close>

definition request_daemon :: "ConnEnv \<Rightarrow> 'r ask \<Rightarrow> ConnCommand \<Rightarrow> conn_world \<Rightarrow> 'r option \<times> conn_world" where
  "request_daemon env ask cmd w =
     (if ce_daemon_up env (cw_tick w) then ask (cw_tick w) cmd else None, daemon_send env cmd w)"

section \<open>The connection (server/connection.rs)\<close>

record ReplyHandle =
  rh_sink :: ReplySink

definition ReplyHandle_send :: "ReplyHandle \<Rightarrow> DaemonMessageType \<Rightarrow> conn_world \<Rightarrow> conn_world" where
  "ReplyHandle_send self inner w = w\<lparr>cw_hub := ReplySink_send (rh_sink self) inner (cw_hub w)\<rparr>"

text \<open>Giving up the obligation to answer sends nothing.\<close>

definition ReplyHandle_abandon :: "ReplyHandle \<Rightarrow> conn_world \<Rightarrow> conn_world" where
  "ReplyHandle_abandon self w = w"

record ClientCtx =
  cx_writer :: SubscriberSink
  cx_attached_session_id :: "u64 option"
  cx_attached_session_tx :: "session_tx option"
  cx_client_id :: ClientId
  cx_request_id :: u64
  cx_is_unix :: bool

definition reply_handle :: "ClientCtx \<Rightarrow> ReplyHandle" where
  "reply_handle ctx = \<lparr>rh_sink = \<lparr>rs_id = cx_request_id ctx, rs_sink = cx_writer ctx\<rparr>\<rparr>"

definition reply_target :: "ClientCtx \<Rightarrow> MessageKind \<Rightarrow> ReplyTarget" where
  "reply_target ctx kind = ReplyTarget_new (cx_request_id ctx) kind (cx_writer ctx)"

definition ack :: "ClientCtx \<Rightarrow> MessageKind \<Rightarrow> conn_world \<Rightarrow> conn_world" where
  "ack ctx kind w = ReplyHandle_send (reply_handle ctx) (DM_Accepted kind) w"

definition switch_attached_session ::
  "ConnEnv \<Rightarrow> u64 \<Rightarrow> session_tx \<Rightarrow> ClientCtx \<Rightarrow> conn_world \<Rightarrow> ClientCtx \<times> conn_world" where
  "switch_attached_session env new_session_id tx ctx w =
     (let w = (if Some new_session_id \<noteq> cx_attached_session_id ctx
               then (case cx_attached_session_tx ctx of
                 Some old_tx \<Rightarrow> session_send env old_tx (SC_Detach (cx_client_id ctx)) w
               | None \<Rightarrow> w)
               else w);
          w = session_send env tx (SC_Attach (cx_client_id ctx) (cx_writer ctx)) w
      in (ctx\<lparr>cx_attached_session_tx := Some tx, cx_attached_session_id := Some new_session_id\<rparr>, w))"

section \<open>Handlers (server/connection/handlers.rs)\<close>

definition session_failed :: "u64 option \<Rightarrow> string \<Rightarrow> string \<Rightarrow> DaemonMessageType" where
  "session_failed sid operation error = DM_Session sid (SE_SessionFailed operation error)"

definition handle_client_create_session ::
  "ConnEnv \<Rightarrow> string option \<Rightarrow> u64 option \<Rightarrow> string option \<Rightarrow> ContextConfig option \<Rightarrow> string option \<Rightarrow>
   string option \<Rightarrow> string option \<Rightarrow> ClientCtx \<Rightarrow> ReplyHandle \<Rightarrow> conn_world \<Rightarrow> bool \<times> conn_world" where
  "handle_client_create_session env title parent_session_id working_dir context_config account_name
     selected_model reasoning_effort ctx handle w =
     (let cmd = CC_CreateSession title parent_session_id working_dir reasoning_effort selected_model
            context_config account_name []
      in case request_daemon env (ce_created env) cmd w of
           (Some (Inr (sid, _)), w) \<Rightarrow>
             (True, ReplyHandle_send handle (DM_Session (Some sid) (SE_SessionCreatedForRequester title
                parent_session_id working_dir account_name selected_model reasoning_effort)) w)
         | (Some (Inl e), w) \<Rightarrow>
             (True, ReplyHandle_send handle (session_failed None ''create_session'' (io_text e)) w)
         | (None, w) \<Rightarrow> (False, ReplyHandle_abandon handle w))"

definition handle_client_attach_session ::
  "ConnEnv \<Rightarrow> u64 \<Rightarrow> ClientCtx \<Rightarrow> ReplyHandle \<Rightarrow> conn_world \<Rightarrow> bool \<times> ClientCtx \<times> conn_world" where
  "handle_client_attach_session env session_id ctx handle w =
     (case request_daemon env (ce_attached env) (CC_AttachSession session_id) w of
        (Some (Inr tx), w) \<Rightarrow>
          (let w = ReplyHandle_send handle (DM_Session (Some session_id) SE_SessionAttached) w;
               (ctx, w) = switch_attached_session env session_id tx ctx w
           in (True, ctx, w))
      | (Some (Inl e), w) \<Rightarrow>
          (True, ctx, ReplyHandle_send handle (session_failed None ''attach_session'' (io_text e)) w)
      | (None, w) \<Rightarrow> (False, ctx, ReplyHandle_abandon handle w))"

definition handle_client_set_session_account ::
  "ConnEnv \<Rightarrow> string \<Rightarrow> MessageKind \<Rightarrow> ClientCtx \<Rightarrow> conn_world \<Rightarrow> conn_world" where
  "handle_client_set_session_account env name kind ctx w = (case cx_attached_session_tx ctx of
     None \<Rightarrow> ReplyHandle_send (reply_handle ctx) (session_failed None ''set_account'' ''no session attached'') w
   | Some tx \<Rightarrow> (case request_daemon env (ce_account_exists env) (CC_AccountExists name) w of
       (Some True, w) \<Rightarrow> session_send env tx (SC_SetAccount name (Some (reply_target ctx kind))) w
     | (_, w) \<Rightarrow> ReplyHandle_send (reply_handle ctx)
         (session_failed (cx_attached_session_id ctx) ''set_account''
            (''account '' @ [CHR 0x27] @ name @ [CHR 0x27] @ '' not found'')) w))"

definition reply_from_daemon ::
  "ConnEnv \<Rightarrow> ClientCtx \<Rightarrow> ('e + 't) ask \<Rightarrow> ConnCommand \<Rightarrow> ('t \<Rightarrow> DaemonMessageType) \<Rightarrow>
   ('e \<Rightarrow> DaemonMessageType) \<Rightarrow> conn_world \<Rightarrow> conn_world" where
  "reply_from_daemon env ctx ask cmd on_ok on_err w =
     (let handle = reply_handle ctx
      in case request_daemon env ask cmd w of
           (Some (Inr value), w) \<Rightarrow> ReplyHandle_send handle (on_ok value) w
         | (Some (Inl error), w) \<Rightarrow> ReplyHandle_send handle (on_err error) w
         | (None, w) \<Rightarrow> ReplyHandle_abandon handle w)"

text \<open>The commands that carry the reply target with them; whether they were acknowledged is only logged.\<close>

definition handle_unlock_sync :: "ConnEnv \<Rightarrow> ClientCtx \<Rightarrow> MessageKind \<Rightarrow> bytes \<Rightarrow> conn_world \<Rightarrow> conn_world" where
  "handle_unlock_sync env ctx kind private_key w =
     snd (request_daemon env (ce_acked env) (CC_Unlock private_key (Some (reply_target ctx kind))) w)"

definition handle_bind_keystore_sync :: "ConnEnv \<Rightarrow> ClientCtx \<Rightarrow> MessageKind \<Rightarrow> bytes \<Rightarrow> conn_world \<Rightarrow> conn_world" where
  "handle_bind_keystore_sync env ctx kind key w =
     snd (request_daemon env (ce_acked env) (CC_BindKeystore key (Some (reply_target ctx kind))) w)"

definition handle_add_credential_sync ::
  "ConnEnv \<Rightarrow> ClientCtx \<Rightarrow> MessageKind \<Rightarrow> string \<Rightarrow> ServiceCredential \<Rightarrow> conn_world \<Rightarrow> conn_world" where
  "handle_add_credential_sync env ctx kind service credential w =
     snd (request_daemon env (ce_acked env)
       (CC_SaveCredential service credential (Some (reply_target ctx kind))) w)"

definition handle_lock_sync :: "ConnEnv \<Rightarrow> ClientCtx \<Rightarrow> ReplyHandle \<Rightarrow> conn_world \<Rightarrow> conn_world" where
  "handle_lock_sync env ctx handle w = (case request_daemon env (ce_result env) CC_Lock w of
     (Some (Inr _), w) \<Rightarrow> ReplyHandle_send handle DM_Locked w
   | (Some (Inl e), w) \<Rightarrow> ReplyHandle_send handle (DM_LockedError e) w
   | (None, w) \<Rightarrow> ReplyHandle_abandon handle w)"

definition handle_list_models_sync ::
  "ConnEnv \<Rightarrow> ClientCtx \<Rightarrow> ReplyHandle \<Rightarrow> u64 option \<Rightarrow> conn_world \<Rightarrow> conn_world" where
  "handle_list_models_sync env ctx handle attached_session_id w =
     (case request_daemon env (ce_models env) (CC_ListModels attached_session_id) w of
        (Some (Inr list), w) \<Rightarrow> ReplyHandle_send handle
          (DM_Models (lm_models list) (lm_selected_model list) (lm_provisional list)) w
      | (Some (Inl e), w) \<Rightarrow> ReplyHandle_send handle (DM_ModelsFailed e) w
      | (None, w) \<Rightarrow> ReplyHandle_abandon handle w)"

text \<open>The image bytes come from the store, and only for the session this connection is attached to.\<close>

definition handle_client_get_image ::
  "ConnEnv \<Rightarrow> u64 \<Rightarrow> u32 \<Rightarrow> ImageKey \<Rightarrow> ClientCtx \<Rightarrow> ReplyHandle \<Rightarrow> conn_world \<Rightarrow> conn_world" where
  "handle_client_get_image env session_id turn_id key ctx handle w =
     (let data = (if cx_attached_session_id ctx = Some session_id
            then (case read_attachment (ce_db_fault env (cw_tick w)) session_id turn_id key (ce_db env (cw_tick w)) of
              Inr data \<Rightarrow> data | Inl e \<Rightarrow> None)
            else None)
      in ReplyHandle_send handle (DM_Image session_id turn_id key data) (w\<lparr>cw_tick := Suc (cw_tick w)\<rparr>))"

definition handle_refresh_models_sync :: "ConnEnv \<Rightarrow> ClientCtx \<Rightarrow> ReplyHandle \<Rightarrow> bool \<Rightarrow> conn_world \<Rightarrow> conn_world" where
  "handle_refresh_models_sync env ctx handle force w =
     (case request_daemon env (ce_refreshed env) (CC_RefreshModels force) w of
        (Some (Inr report), w) \<Rightarrow> ReplyHandle_send handle
          (DM_ModelsRefreshed (rr_providers report) (rr_models report) (rr_status report)) w
      | (Some (Inl e), w) \<Rightarrow> ReplyHandle_send handle (DM_ModelsRefreshFailed e) w
      | (None, w) \<Rightarrow> ReplyHandle_abandon handle w)"

definition wire_mcp_status :: "McpServerStatus \<Rightarrow> McpServerStatus" where
  "wire_mcp_status status =
     \<lparr>ms_slug = ms_slug status, ms_tier = ms_tier status, ms_transport = ms_transport status,
      ms_target = ms_target status, ms_connected = ms_connected status, ms_tool_count = ms_tool_count status,
      ms_server_name = ms_server_name status, ms_server_version = ms_server_version status,
      ms_last_error = ms_last_error status, ms_credential_key = ms_credential_key status,
      ms_auth = ms_auth status, ms_oauth = ms_oauth status\<rparr>"

definition send_mcp_status :: "ReplyHandle \<Rightarrow> McpStatusReport \<Rightarrow> conn_world \<Rightarrow> conn_world" where
  "send_mcp_status handle report w = ReplyHandle_send handle
     (DM_McpStatus (map wire_mcp_status (msr_servers report)) (msr_project_root report)
        (msr_project_trusted report) (msr_ignored_project_servers report)) w"

definition handle_mcp_status_sync :: "ConnEnv \<Rightarrow> ClientCtx \<Rightarrow> ReplyHandle \<Rightarrow> conn_world \<Rightarrow> conn_world" where
  "handle_mcp_status_sync env ctx handle w =
     (case request_daemon env (ce_mcp_status env) (CC_McpStatus (cx_attached_session_id ctx)) w of
        (Some report, w) \<Rightarrow> send_mcp_status handle report w
      | (None, w) \<Rightarrow> ReplyHandle_abandon handle w)"

definition handle_mcp_reconnect_sync :: "ConnEnv \<Rightarrow> ClientCtx \<Rightarrow> ReplyHandle \<Rightarrow> string \<Rightarrow> conn_world \<Rightarrow> conn_world" where
  "handle_mcp_reconnect_sync env ctx handle slug w =
     (case request_daemon env (ce_result env) (CC_McpReconnect slug) w of
        (Some (Inr _), w) \<Rightarrow> (case request_daemon env (ce_mcp_status env) (CC_McpStatus (cx_attached_session_id ctx)) w of
            (Some report, w) \<Rightarrow> send_mcp_status handle report w
          | (None, w) \<Rightarrow> ReplyHandle_abandon handle w)
      | (Some (Inl e), w) \<Rightarrow> ReplyHandle_send handle (DM_McpReconnectFailed slug e) w
      | (None, w) \<Rightarrow> ReplyHandle_abandon handle w)"

definition handle_mcp_reload_sync :: "ConnEnv \<Rightarrow> ClientCtx \<Rightarrow> ReplyHandle \<Rightarrow> conn_world \<Rightarrow> conn_world" where
  "handle_mcp_reload_sync env ctx handle w =
     (case request_daemon env (ce_mcp_reloaded env) (CC_McpReload (cx_attached_session_id ctx)) w of
        (Some (Inr outcome), w) \<Rightarrow> ReplyHandle_send handle
          (DM_McpReloaded (mro_summary outcome) (map wire_mcp_status (mro_servers outcome))) w
      | (Some (Inl e), w) \<Rightarrow> ReplyHandle_send handle (DM_McpReloadFailed e) w
      | (None, w) \<Rightarrow> ReplyHandle_abandon handle w)"

definition handle_mcp_trust_sync :: "ConnEnv \<Rightarrow> ClientCtx \<Rightarrow> ReplyHandle \<Rightarrow> bool \<Rightarrow> conn_world \<Rightarrow> conn_world" where
  "handle_mcp_trust_sync env ctx handle trusted w = (case cx_attached_session_id ctx of
     None \<Rightarrow> ReplyHandle_send handle (DM_McpTrustUpdated None False ''no session attached'') w
   | Some session_id \<Rightarrow> (case request_daemon env (ce_mcp_trust env) (CC_McpTrustSet session_id trusted) w of
       (Some outcome, w) \<Rightarrow> ReplyHandle_send handle
         (DM_McpTrustUpdated (mto_root outcome) (mto_trusted outcome) (mto_message outcome)) w
     | (None, w) \<Rightarrow> ReplyHandle_abandon handle w))"

definition handle_mcp_trust_list_sync :: "ConnEnv \<Rightarrow> ClientCtx \<Rightarrow> ReplyHandle \<Rightarrow> conn_world \<Rightarrow> conn_world" where
  "handle_mcp_trust_list_sync env ctx handle w = (case request_daemon env (ce_mcp_roots env) CC_McpTrustList w of
     (Some roots, w) \<Rightarrow> ReplyHandle_send handle (DM_McpTrustList roots) w
   | (None, w) \<Rightarrow> ReplyHandle_abandon handle w)"

definition handle_get_credential_sync :: "ConnEnv \<Rightarrow> ClientCtx \<Rightarrow> ReplyHandle \<Rightarrow> string \<Rightarrow> conn_world \<Rightarrow> conn_world" where
  "handle_get_credential_sync env ctx handle service w =
     (case request_daemon env (ce_credential env) (CC_GetCredential service) w of
        (Some (Some key), w) \<Rightarrow> ReplyHandle_send handle (DM_Credential service (Some key)) w
      | (Some None, w) \<Rightarrow> ReplyHandle_send handle (DM_Credential service None) w
      | (None, w) \<Rightarrow> ReplyHandle_abandon handle w)"

definition handle_get_session_state_sync :: "ConnEnv \<Rightarrow> ClientCtx \<Rightarrow> u64 \<Rightarrow> conn_world \<Rightarrow> conn_world" where
  "handle_get_session_state_sync env ctx session_id w =
     reply_from_daemon env ctx (ce_session_state env) (CC_GetSessionState session_id)
       (\<lambda>message. message) (\<lambda>e. DM_Failed MK_GetSessionState (io_text e)) w"

definition handle_delete_session_sync :: "ConnEnv \<Rightarrow> ClientCtx \<Rightarrow> ReplyHandle \<Rightarrow> u64 \<Rightarrow> conn_world \<Rightarrow> conn_world" where
  "handle_delete_session_sync env ctx handle session_id w =
     (case request_daemon env (ce_io_result env) (CC_DeleteSession session_id) w of
        (Some (Inr _), w) \<Rightarrow> ReplyHandle_send handle (DM_Accepted MK_DeleteSession) w
      | (Some (Inl e), w) \<Rightarrow> ReplyHandle_send handle
          (DM_Session (Some session_id) (SE_SessionDeleteFailed (io_text e))) w
      | (None, w) \<Rightarrow> ReplyHandle_abandon handle w)"

definition operation_for_kind :: "MessageKind \<Rightarrow> string" where
  "operation_for_kind kind = (case kind of
     MK_SetSessionPinned \<Rightarrow> ''set_session_pinned''
   | MK_SetSessionArchived \<Rightarrow> ''set_session_archived''
   | _ \<Rightarrow> ''session mutation'')"

definition handle_set_session_flags_sync ::
  "ConnEnv \<Rightarrow> ClientCtx \<Rightarrow> ReplyHandle \<Rightarrow> u64 \<Rightarrow> bool option \<Rightarrow> bool option \<Rightarrow> MessageKind \<Rightarrow> conn_world \<Rightarrow> conn_world" where
  "handle_set_session_flags_sync env ctx handle session_id pinned archived kind w =
     (case request_daemon env (ce_io_result env) (CC_SetSessionFlags session_id pinned archived) w of
        (Some (Inr _), w) \<Rightarrow> ReplyHandle_send handle (DM_Accepted kind) w
      | (Some (Inl e), w) \<Rightarrow> ReplyHandle_send handle
          (session_failed (Some session_id) (operation_for_kind kind) (io_text e)) w
      | (None, w) \<Rightarrow> ReplyHandle_abandon handle w)"

text \<open>Only local connections may change the access list.\<close>

definition handle_acl_add_sync :: "ConnEnv \<Rightarrow> ClientCtx \<Rightarrow> ReplyHandle \<Rightarrow> string \<Rightarrow> conn_world \<Rightarrow> conn_world" where
  "handle_acl_add_sync env ctx handle pubkey w =
     (if \<not> cx_is_unix ctx
      then ReplyHandle_send handle
        (DM_AclAddResult False ''ACL changes are only permitted from local connections'') w
      else (case request_daemon env (ce_acl_count env) (CC_AclAddCmd pubkey) w of
        (Some (Inr count), w) \<Rightarrow> ReplyHandle_send handle
          (DM_AclAddResult True (''client key authorized ('' @ show_nat (unat count) @ '' client(s) now trusted)'')) w
      | (Some (Inl e), w) \<Rightarrow> ReplyHandle_send handle (DM_AclAddResult False e) w
      | (None, w) \<Rightarrow> ReplyHandle_abandon handle w))"

definition handle_remove_credential_sync :: "ConnEnv \<Rightarrow> ClientCtx \<Rightarrow> ReplyHandle \<Rightarrow> string \<Rightarrow> conn_world \<Rightarrow> conn_world" where
  "handle_remove_credential_sync env ctx handle service w =
     (case request_daemon env (ce_result env) (CC_RemoveCredentialCmd service) w of
        (Some (Inr _), w) \<Rightarrow> ReplyHandle_send handle (DM_CredentialRemoved service) w
      | (Some (Inl e), w) \<Rightarrow> ReplyHandle_send handle (DM_CredentialRemoveFailed service e) w
      | (None, w) \<Rightarrow> ReplyHandle_abandon handle w)"


text \<open>Hand a request to the attached session, which answers it; without one it fails here.\<close>

definition to_attached_session :: "ConnEnv \<Rightarrow> ClientCtx \<Rightarrow> MessageKind \<Rightarrow> (ReplyTarget option \<Rightarrow> SessionCommand) \<Rightarrow> conn_world \<Rightarrow> conn_world" where
  "to_attached_session env ctx kind cmd w =
     (let target = reply_target ctx kind
      in case cx_attached_session_tx ctx of
           Some tx \<Rightarrow> session_send env tx (cmd (Some target)) w
         | None \<Rightarrow> w\<lparr>cw_hub := ReplyTarget_fail target ''no session attached'' (cw_hub w)\<rparr>)"

text \<open>The reply channel of the query is created by the connection and read by nobody else.\<close>

definition query_reasoning_effort :: "ConnEnv \<Rightarrow> ClientCtx \<Rightarrow> conn_world \<Rightarrow> conn_world" where
  "query_reasoning_effort env ctx w = (case cx_attached_session_tx ctx of
     Some tx \<Rightarrow>
       (let answer = (if ce_session_up env (cw_tick w) tx then ce_effort env (cw_tick w) tx else None);
            w = session_send env tx (SC_GetReasoningEffort (cw_tick w)) w;
            handle = reply_handle ctx
        in case answer of
             Some effort \<Rightarrow> ReplyHandle_send handle
               (DM_Session (cx_attached_session_id ctx) (SE_ReasoningEffortSet effort)) w
           | None \<Rightarrow> ReplyHandle_abandon handle w)
   | None \<Rightarrow> ReplyHandle_send (reply_handle ctx) (DM_Session None (SE_ReasoningEffortSet ''off'')) w)"

definition query_sessions :: "ConnEnv \<Rightarrow> ReplyHandle \<Rightarrow> conn_world \<Rightarrow> conn_world" where
  "query_sessions env handle w = (case request_daemon env (ce_sessions env) CC_ListSessions w of
     (Some sessions, w) \<Rightarrow> ReplyHandle_send handle (DM_Sessions sessions) w
   | (None, w) \<Rightarrow> ReplyHandle_abandon handle w)"

definition daemon_disconnected :: io_error where
  "daemon_disconnected = IoError IO_ConnectionAborted ''daemon disconnected''"

definition ok_if :: "bool \<Rightarrow> io_error + unit" where
  "ok_if b = (if b then Inr () else Inl daemon_disconnected)"

definition dispatch_client_message ::
  "ConnEnv \<Rightarrow> ClientMessage \<Rightarrow> ClientCtx \<Rightarrow> conn_world \<Rightarrow> (io_error + unit) \<times> ClientCtx \<times> conn_world" where
  "dispatch_client_message env msg ctx w =
     (let ctx = ctx\<lparr>cx_request_id := cmsg_id msg\<rparr>;
          kind = ClientMessageType_kind (cmsg_inner msg);
          handle = reply_handle ctx
      in case cmsg_inner msg of
        CM_CreateSession title parent_session_id working_dir context_config account_name selected_model
            reasoning_effort \<Rightarrow>
          (let (ok, w) = handle_client_create_session env title parent_session_id working_dir context_config
                 account_name selected_model reasoning_effort ctx handle w
           in (ok_if ok, ctx, w))
      | CM_AttachSession session_id \<Rightarrow>
          (let (ok, ctx, w) = handle_client_attach_session env session_id ctx handle w in (ok_if ok, ctx, w))
      | CM_ListSessions \<Rightarrow>
          (Inr (), ctx, query_sessions env handle w)
      | CM_SubscribeSessionsSummary \<Rightarrow>
          (Inr (), ctx, ack ctx kind (daemon_send env
             (CC_RegisterSummarySubscriber (cx_client_id ctx) (cx_writer ctx)) w))
      | CM_UnsubscribeSessionsSummary \<Rightarrow>
          (Inr (), ctx, ack ctx kind (daemon_send env (CC_UnregisterSummarySubscriber (cx_client_id ctx)) w))
      | CM_RunInput input \<Rightarrow> (Inr (), ctx, to_attached_session env ctx kind (SC_RunInput input) w)
      | CM_Cancel stream_id \<Rightarrow>
          (Inr (), ctx, ack ctx kind (case cx_attached_session_id ctx of
             Some session_id \<Rightarrow> daemon_send env (CC_CancelRequest session_id stream_id) w
           | None \<Rightarrow> w))
      | CM_Undo \<Rightarrow> (Inr (), ctx, to_attached_session env ctx kind SC_Undo w)
      | CM_Redo \<Rightarrow> (Inr (), ctx, to_attached_session env ctx kind SC_Redo w)
      | CM_ContinueGeneration \<Rightarrow>
          (Inr (), ctx, to_attached_session env ctx kind (SC_RunInput (map of_char ''Continue.'')) w)
      | CM_Ping \<Rightarrow> (Inr (), ctx, ReplyHandle_send handle DM_Pong w)
      | CM_SetModel model \<Rightarrow> (Inr (), ctx, to_attached_session env ctx kind (SC_SetModel model) w)
      | CM_SetReasoningEffort effort \<Rightarrow>
          (Inr (), ctx, to_attached_session env ctx kind (SC_SetReasoningEffort effort) w)
      | CM_GetReasoningEffort \<Rightarrow> (Inr (), ctx, query_reasoning_effort env ctx w)
      | CM_Unlock private_key \<Rightarrow> (Inr (), ctx, handle_unlock_sync env ctx kind private_key w)
      | CM_BindKeystore key \<Rightarrow> (Inr (), ctx, handle_bind_keystore_sync env ctx kind key w)
      | CM_Lock \<Rightarrow> (Inr (), ctx, handle_lock_sync env ctx handle w)
      | CM_AddCredential service credential \<Rightarrow>
          (Inr (), ctx, handle_add_credential_sync env ctx kind service credential w)
      | CM_RemoveCredential service \<Rightarrow> (Inr (), ctx, handle_remove_credential_sync env ctx handle service w)
      | CM_AclAdd pubkey \<Rightarrow> (Inr (), ctx, handle_acl_add_sync env ctx handle pubkey w)
      | CM_ListModels \<Rightarrow> (Inr (), ctx, handle_list_models_sync env ctx handle (cx_attached_session_id ctx) w)
      | CM_GetImage session_id turn_id key \<Rightarrow>
          (Inr (), ctx, handle_client_get_image env session_id turn_id key ctx handle w)
      | CM_RefreshModels force \<Rightarrow> (Inr (), ctx, handle_refresh_models_sync env ctx handle force w)
      | CM_McpStatusRequest \<Rightarrow> (Inr (), ctx, handle_mcp_status_sync env ctx handle w)
      | CM_McpReconnect slug \<Rightarrow> (Inr (), ctx, handle_mcp_reconnect_sync env ctx handle slug w)
      | CM_McpReload \<Rightarrow> (Inr (), ctx, handle_mcp_reload_sync env ctx handle w)
      | CM_McpTrust \<Rightarrow> (Inr (), ctx, handle_mcp_trust_sync env ctx handle True w)
      | CM_McpUntrust \<Rightarrow> (Inr (), ctx, handle_mcp_trust_sync env ctx handle False w)
      | CM_McpTrustList \<Rightarrow> (Inr (), ctx, handle_mcp_trust_list_sync env ctx handle w)
      | CM_DeleteSession session_id \<Rightarrow> (Inr (), ctx, handle_delete_session_sync env ctx handle session_id w)
      | CM_SetSessionPinned session_id pinned \<Rightarrow>
          (Inr (), ctx, handle_set_session_flags_sync env ctx handle session_id (Some pinned) None kind w)
      | CM_SetSessionArchived session_id archived \<Rightarrow>
          (Inr (), ctx, handle_set_session_flags_sync env ctx handle session_id None (Some archived) kind w)
      | CM_GetCredential service \<Rightarrow> (Inr (), ctx, handle_get_credential_sync env ctx handle service w)
      | CM_GetSessionState session_id \<Rightarrow> (Inr (), ctx, handle_get_session_state_sync env ctx session_id w)
      | CM_AddAccount name provider base_url streaming retry_max_attempts connect_timeout_secs
            request_timeout_secs total_timeout_secs \<Rightarrow>
          (Inr (), ctx, reply_from_daemon env ctx (ce_result env)
             (CC_AddAccountCmd name provider base_url streaming retry_max_attempts connect_timeout_secs
                request_timeout_secs total_timeout_secs)
             (\<lambda>_. DM_AccountAdded name) (DM_AccountAddFailed name) w)
      | CM_RemoveAccount name \<Rightarrow>
          (Inr (), ctx, reply_from_daemon env ctx (ce_result env) (CC_RemoveAccountCmd name)
             (\<lambda>_. DM_AccountRemoved name) (DM_AccountRemoveFailed name) w)
      | CM_ListAccounts \<Rightarrow>
          (Inr (), ctx, reply_from_daemon env ctx (ce_accounts env) CC_ListAccountsCmd
             DM_Accounts DM_AccountListFailed w)
      | CM_ListOAuthProviders \<Rightarrow>
          (Inr (), ctx, ReplyHandle_send handle (DM_OAuthProviders (ce_oauth_providers env)) w)
      | CM_SetSessionAccount name \<Rightarrow> (Inr (), ctx, handle_client_set_session_account env name kind ctx w)
      | CM_SubscribeAllActivity \<Rightarrow>
          (Inr (), ctx, ack ctx kind (daemon_send env
             (CC_RegisterActivitySubscriber (cx_client_id ctx) (cx_writer ctx)) w))
      | CM_UnsubscribeAllActivity \<Rightarrow>
          (Inr (), ctx, ack ctx kind (daemon_send env (CC_UnregisterActivitySubscriber (cx_client_id ctx)) w)))"

section \<open>The life of a connection (server/connection.rs)\<close>

definition register_client_writer ::
  "ConnEnv \<Rightarrow> u32 \<Rightarrow> conn_world \<Rightarrow> ClientId \<times> SubscriberSink \<times> u32 \<times> conn_world" where
  "register_client_writer env counter w =
     (let (sink, h) = SubscriberSink_new (cw_hub w);
          (client_id, counter) = ClientId_next counter;
          w = daemon_send env (CC_RegisterClientWriter client_id sink) (w\<lparr>cw_hub := h\<rparr>)
      in (client_id, sink, counter, w))"

record ClientConn =
  cn_writer :: SubscriberSink
  cn_client_id :: ClientId
  cn_is_unix :: bool
  cn_attached_session_id :: "u64 option"
  cn_attached_session_tx :: "session_tx option"

definition ClientConn_new :: "SubscriberSink \<Rightarrow> ClientId \<Rightarrow> bool \<Rightarrow> ClientConn" where
  "ClientConn_new writer client_id is_unix =
     \<lparr>cn_writer = writer, cn_client_id = client_id, cn_is_unix = is_unix,
      cn_attached_session_id = None, cn_attached_session_tx = None\<rparr>"

definition conn_dispatch ::
  "ConnEnv \<Rightarrow> ClientMessage \<Rightarrow> ClientConn \<Rightarrow> conn_world \<Rightarrow> (io_error + unit) \<times> ClientConn \<times> conn_world" where
  "conn_dispatch env msg self w =
     (let ctx = \<lparr>cx_writer = cn_writer self, cx_attached_session_id = cn_attached_session_id self,
            cx_attached_session_tx = cn_attached_session_tx self, cx_client_id = cn_client_id self,
            cx_request_id = 0, cx_is_unix = cn_is_unix self\<rparr>;
          (result, ctx, w) = dispatch_client_message env msg ctx w
      in (result, self\<lparr>cn_attached_session_id := cx_attached_session_id ctx,
            cn_attached_session_tx := cx_attached_session_tx ctx\<rparr>, w))"

text \<open>What the reader leaves behind; the writer thread ends with its last sender.\<close>

definition cleanup_client :: "ConnEnv \<Rightarrow> session_tx option \<Rightarrow> ClientId \<Rightarrow> conn_world \<Rightarrow> conn_world" where
  "cleanup_client env attached_session_tx client_id w =
     (let w = (case attached_session_tx of Some tx \<Rightarrow> session_send env tx (SC_Detach client_id) w | None \<Rightarrow> w)
      in daemon_send env (CC_ClientDisconnected client_id) w)"

definition conn_finish :: "ConnEnv \<Rightarrow> ClientConn \<Rightarrow> conn_world \<Rightarrow> conn_world" where
  "conn_finish env self w = cleanup_client env (cn_attached_session_tx self) (cn_client_id self) w"

text \<open>
  The three readers differ in where the messages come from. Each dispatches what it
  reads one by one until the source ends or fails, or the daemon is gone, and then
  cleans up. A source is the list of what its reads return.
\<close>

fun reader_loop ::
  "ConnEnv \<Rightarrow> ('e + ClientMessage) list \<Rightarrow> ClientConn \<Rightarrow> conn_world \<Rightarrow> ClientConn \<times> conn_world" where
  "reader_loop env [] conn w = (conn, w)"
| "reader_loop env (Inl e # rest) conn w = (conn, w)"
| "reader_loop env (Inr msg # rest) conn w =
     (case conn_dispatch env msg conn w of
        (Inr _, conn, w) \<Rightarrow> reader_loop env rest conn w
      | (Inl _, conn, w) \<Rightarrow> (conn, w))"

definition run_connection :: "ConnEnv \<Rightarrow> ('e + ClientMessage) list \<Rightarrow> ClientConn \<Rightarrow> conn_world \<Rightarrow> conn_world" where
  "run_connection env source conn w = (case reader_loop env source conn w of (conn, w) \<Rightarrow> conn_finish env conn w)"

text \<open>A local connection is served only if the kernel names our own user as its peer.\<close>

definition client_thread ::
  "ConnEnv \<Rightarrow> io_error + nat \<Rightarrow> nat \<Rightarrow> io_error + unit \<Rightarrow> (ProtoError + ClientMessage) list \<Rightarrow>
   SubscriberSink \<Rightarrow> ClientId \<Rightarrow> bool \<Rightarrow> conn_world \<Rightarrow> (io_error + unit) \<times> conn_world" where
  "client_thread env peercred euid setup source writer client_id is_unix w = (case peercred of
     Inr uid \<Rightarrow>
       if uid = euid then (case setup of
           Inl e \<Rightarrow> (Inl e, w)
         | Inr _ \<Rightarrow> (Inr (), run_connection env source (ClientConn_new writer client_id is_unix) w))
       else (Inr (), daemon_send env (CC_ClientDisconnected client_id) w)
   | Inl e \<Rightarrow> (Inr (), daemon_send env (CC_ClientDisconnected client_id) w))"

definition embedded_client_thread ::
  "ConnEnv \<Rightarrow> ClientMessage list \<Rightarrow> SubscriberSink \<Rightarrow> ClientId \<Rightarrow> bool \<Rightarrow> conn_world \<Rightarrow> conn_world" where
  "embedded_client_thread env client_rx writer client_id is_unix w =
     run_connection env (map Inr client_rx :: (unit + ClientMessage) list) (ClientConn_new writer client_id is_unix) w"

end
