(* ===== verification/Connection_Replies.thy ===== *)
theory Connection_Replies
  imports Client_Connection "HOL-Library.Multiset"
begin

text \<open>
  What a connection guarantees to its client and to the rest of the daemon: each
  message is settled once, the client is attached to one session at a time, and a
  remote client can neither change the access list nor read images of a session it
  is not attached to.
\<close>

section \<open>What a connection owes its client\<close>

text \<open>
  A request is settled by a correlated reply in the client's queue or by a reply
  target handed on to the session or to the daemon, which will answer it exactly
  once. \<open>owed\<close> counts the request ids settled so far, on one connection.
\<close>

fun daemon_requests_on :: "SubscriberSink \<Rightarrow> ConnCommand list \<Rightarrow> u64 list" where
  "daemon_requests_on s [] = []"
| "daemon_requests_on s (cmd # cmds) = (case conn_reply cmd of
     Some t \<Rightarrow> if rs_sink (rt_sink t) = s then rs_id (rt_sink t) # daemon_requests_on s cmds else daemon_requests_on s cmds
   | None \<Rightarrow> daemon_requests_on s cmds)"

lemma daemon_requests_on_append: "daemon_requests_on s (xs @ ys) = daemon_requests_on s xs @ daemon_requests_on s ys"
  by (induction xs) (auto split: option.split)

definition owed :: "SubscriberSink \<Rightarrow> conn_world \<Rightarrow> u64 option multiset" where
  "owed s w = mset (map dmsg_id (replies (cw_hub w) s)) +
     mset (map Some (requests_on s (map snd (cw_sent w)) @ daemon_requests_on s (cw_daemon w)))"

definition target_ids :: "SubscriberSink \<Rightarrow> ReplyTarget option \<Rightarrow> u64 option multiset" where
  "target_ids s reply = (case reply of
     Some t \<Rightarrow> if rs_sink (rt_sink t) = s then {#Some (rs_id (rt_sink t))#} else {#}
   | None \<Rightarrow> {#})"

abbreviation client_up :: "SubscriberSink \<Rightarrow> conn_world \<Rightarrow> bool" where
  "client_up s w \<equiv> hub_up (cw_hub w) s"

definition pending_target :: "ReplyTarget option \<Rightarrow> bool" where
  "pending_target reply \<longleftrightarrow> (case reply of Some t \<Rightarrow> \<not> rt_answered t | None \<Rightarrow> True)"

lemma owed_tick [simp]: "owed s (w\<lparr>cw_tick := n\<rparr>) = owed s w"
  by (simp add: owed_def)

lemma reply_sink_replies:
  "replies (ReplySink_send rs inner h) s = replies h s @
     (if rs_sink rs = s \<and> hub_up h s then [DaemonMessage_reply (rs_id rs) inner] else [])"
  "hub_up (ReplySink_send rs inner h) s = hub_up h s"
  by (auto simp: ReplySink_send_eq hub_up_def store_simps simp flip: hub_up_def)

lemma owed_drop:
  assumes "client_up s w" "pending_target reply"
  shows "owed s (drop_target reply w) = owed s w + target_ids s reply"
    "client_up s (drop_target reply w)"
  using assms by (auto simp: drop_target_def owed_def target_ids_def pending_target_def ReplyTarget_drop_def
      reply_sink_replies DaemonMessage_reply_def split: option.split)

lemma owed_daemon_send:
  assumes "client_up s w" "pending_target (conn_reply cmd)"
  shows "owed s (daemon_send env cmd w) = owed s w + target_ids s (conn_reply cmd)"
    "client_up s (daemon_send env cmd w)"
  using assms owed_drop [where s = s and w = "w\<lparr>cw_tick := Suc (cw_tick w)\<rparr>" and reply = "conn_reply cmd"]
  by (auto simp: daemon_send_def Let_def owed_def target_ids_def daemon_requests_on_append split: option.split)

lemma owed_session_send:
  assumes "client_up s w" "pending_target (command_reply cmd)"
  shows "owed s (session_send env tx cmd w) = owed s w + target_ids s (command_reply cmd)"
    "client_up s (session_send env tx cmd w)"
  using assms owed_drop [where s = s and w = "w\<lparr>cw_tick := Suc (cw_tick w)\<rparr>" and reply = "command_reply cmd"]
  by (auto simp: session_send_def Let_def owed_def target_ids_def requests_on_append split: option.split)

lemma owed_request:
  assumes "client_up s w" "pending_target (conn_reply cmd)" "request_daemon env ask cmd w = (r, w')"
  shows "owed s w' = owed s w + target_ids s (conn_reply cmd)" "client_up s w'"
    "(\<And>n. ce_daemon_up env n) \<Longrightarrow> (\<And>n cmd. ask n cmd \<noteq> None) \<Longrightarrow> r \<noteq> None"
  using assms owed_daemon_send [OF assms(1,2)] by (auto simp: request_daemon_def)

lemma owed_handle:
  assumes "client_up s w"
  shows "owed s (ReplyHandle_send handle inner w) = owed s w + (if rs_sink (rh_sink handle) = s then {#Some (rs_id (rh_sink handle))#} else {#})"
    "client_up s (ReplyHandle_send handle inner w)"
  using assms by (auto simp: ReplyHandle_send_def owed_def reply_sink_replies DaemonMessage_reply_def)

lemma target_simps [simp]:
  "pending_target None" "pending_target (Some (reply_target ctx kind))"
  "target_ids s None = {#}"
  "target_ids s (Some (reply_target ctx kind)) = (if cx_writer ctx = s then {#Some (cx_request_id ctx)#} else {#})"
  "rh_sink (reply_handle ctx) = \<lparr>rs_id = cx_request_id ctx, rs_sink = cx_writer ctx\<rparr>"
  by (simp_all add: pending_target_def reply_target_def ReplyTarget_new_def target_ids_def reply_handle_def)

text \<open>
  A handler settles the request of its context, or leaves it: then the answer it
  waited for did not come.
\<close>

definition settles :: "bool \<Rightarrow> ClientCtx \<Rightarrow> conn_world \<Rightarrow> conn_world \<Rightarrow> bool" where
  "settles served ctx w w' \<longleftrightarrow> client_up (cx_writer ctx) w' \<and>
     (owed (cx_writer ctx) w' = owed (cx_writer ctx) w + {#Some (cx_request_id ctx)#} \<or>
      \<not> served \<and> owed (cx_writer ctx) w' = owed (cx_writer ctx) w)"

lemma settles_send:
  "client_up (cx_writer ctx) w \<Longrightarrow> owed (cx_writer ctx) w = owed (cx_writer ctx) w0 \<Longrightarrow>
   settles served ctx w0 (ReplyHandle_send (reply_handle ctx) inner w)"
  using owed_handle [where s = "cx_writer ctx" and w = w and handle = "reply_handle ctx" and inner = inner] by (simp add: settles_def)

lemma settles_abandon:
  "client_up (cx_writer ctx) w \<Longrightarrow> owed (cx_writer ctx) w = owed (cx_writer ctx) w0 \<Longrightarrow> \<not> served \<Longrightarrow>
   settles served ctx w0 (ReplyHandle_abandon handle w)"
  by (simp add: settles_def ReplyHandle_abandon_def)

text \<open>A request to the daemon followed by what is done with its answer.\<close>

lemma settles_request:
  assumes up: "client_up (cx_writer ctx) w" and cmd: "conn_reply cmd = None"
    and served: "served \<Longrightarrow> (\<forall>n. ce_daemon_up env n) \<and> (\<forall>n cmd. ask n cmd \<noteq> None)"
    and some: "\<And>r w'. client_up (cx_writer ctx) w' \<Longrightarrow> owed (cx_writer ctx) w' = owed (cx_writer ctx) w \<Longrightarrow>
        settles served ctx w (f (Some r) w')"
    and none: "\<And>w'. client_up (cx_writer ctx) w' \<Longrightarrow> owed (cx_writer ctx) w' = owed (cx_writer ctx) w \<Longrightarrow>
        \<not> served \<Longrightarrow> settles served ctx w (f None w')"
  shows "settles served ctx w (case request_daemon env ask cmd w of (r, w') \<Rightarrow> f r w')"
proof -
  obtain r w' where r: "request_daemon env ask cmd w = (r, w')" by fastforce
  note q = owed_request [OF up _ r, unfolded cmd, simplified]
  show ?thesis
  proof (cases r)
    case None
    then have "\<not> served" using q(3) served by blast
    then show ?thesis using none [OF q(2,1)] None by (simp add: r)
  next
    case (Some x)
    then show ?thesis using some [OF q(2,1)] by (simp add: r)
  qed
qed


definition daemon_serves :: "ConnEnv \<Rightarrow> bool" where
  "daemon_serves env \<longleftrightarrow> (\<forall>n. ce_daemon_up env n) \<and> (\<forall>n cmd. ce_created env n cmd \<noteq> None) \<and>
     (\<forall>n cmd. ce_attached env n cmd \<noteq> None) \<and> (\<forall>n cmd. ce_sessions env n cmd \<noteq> None) \<and>
     (\<forall>n cmd. ce_session_state env n cmd \<noteq> None) \<and> (\<forall>n cmd. ce_result env n cmd \<noteq> None) \<and>
     (\<forall>n cmd. ce_io_result env n cmd \<noteq> None) \<and> (\<forall>n cmd. ce_acl_count env n cmd \<noteq> None) \<and>
     (\<forall>n cmd. ce_models env n cmd \<noteq> None) \<and> (\<forall>n cmd. ce_refreshed env n cmd \<noteq> None) \<and>
     (\<forall>n cmd. ce_credential env n cmd \<noteq> None) \<and> (\<forall>n cmd. ce_accounts env n cmd \<noteq> None) \<and>
     (\<forall>n cmd. ce_account_exists env n cmd \<noteq> None) \<and> (\<forall>n cmd. ce_mcp_status env n cmd \<noteq> None) \<and>
     (\<forall>n cmd. ce_mcp_reloaded env n cmd \<noteq> None) \<and> (\<forall>n cmd. ce_mcp_trust env n cmd \<noteq> None) \<and>
     (\<forall>n cmd. ce_mcp_roots env n cmd \<noteq> None)"

definition sessions_serve :: "ConnEnv \<Rightarrow> bool" where
  "sessions_serve env \<longleftrightarrow> (\<forall>n tx. ce_session_up env n tx \<and> ce_effort env n tx \<noteq> None)"

lemmas settles_intros = settles_request settles_send settles_abandon

lemma handlers_settle:
  assumes "client_up (cx_writer ctx) w" and "served \<Longrightarrow> daemon_serves env"
  shows "settles served ctx w (handle_lock_sync env ctx (reply_handle ctx) w)"
    "settles served ctx w (handle_list_models_sync env ctx (reply_handle ctx) sid w)"
    "settles served ctx w (handle_refresh_models_sync env ctx (reply_handle ctx) force w)"
    "settles served ctx w (handle_mcp_status_sync env ctx (reply_handle ctx) w)"
    "settles served ctx w (handle_mcp_reload_sync env ctx (reply_handle ctx) w)"
    "settles served ctx w (handle_mcp_trust_sync env ctx (reply_handle ctx) trusted w)"
    "settles served ctx w (handle_mcp_trust_list_sync env ctx (reply_handle ctx) w)"
    "settles served ctx w (handle_get_credential_sync env ctx (reply_handle ctx) service w)"
    "settles served ctx w (handle_delete_session_sync env ctx (reply_handle ctx) session_id w)"
    "settles served ctx w (handle_set_session_flags_sync env ctx (reply_handle ctx) session_id pinned archived kind w)"
    "settles served ctx w (handle_acl_add_sync env ctx (reply_handle ctx) pubkey w)"
    "settles served ctx w (handle_remove_credential_sync env ctx (reply_handle ctx) service w)"
    "settles served ctx w (handle_get_session_state_sync env ctx session_id w)"
    "settles served ctx w (reply_from_daemon env ctx (ce_result env) (CC_RemoveAccountCmd name) f g w)"
    "settles served ctx w (reply_from_daemon env ctx (ce_accounts env) CC_ListAccountsCmd f' g w)"
    "settles served ctx w (reply_from_daemon env ctx (ce_result env) (CC_AddAccountCmd a1 a2 a3 a4 a5 a6 a7 a8) f g w)"
  unfolding handle_lock_sync_def handle_list_models_sync_def handle_refresh_models_sync_def
    handle_mcp_status_sync_def send_mcp_status_def handle_mcp_reload_sync_def handle_mcp_trust_sync_def
    handle_mcp_trust_list_sync_def handle_get_credential_sync_def handle_delete_session_sync_def
    handle_set_session_flags_sync_def handle_acl_add_sync_def handle_remove_credential_sync_def
    handle_get_session_state_sync_def reply_from_daemon_def Let_def
  using assms
  by (auto intro!: settles_intros simp: daemon_serves_def split: sum.split option.split)


lemma settles_after:
  "settles served ctx w' w'' \<Longrightarrow> owed (cx_writer ctx) w' = owed (cx_writer ctx) w \<Longrightarrow> settles served ctx w w''"
  by (simp add: settles_def)

lemma reconnect_settles:
  assumes "client_up (cx_writer ctx) w" and "served \<Longrightarrow> daemon_serves env"
  shows "settles served ctx w (handle_mcp_reconnect_sync env ctx (reply_handle ctx) slug w)"
  unfolding handle_mcp_reconnect_sync_def
proof (rule settles_request)
  fix r w' assume w': "client_up (cx_writer ctx) w'" "owed (cx_writer ctx) w' = owed (cx_writer ctx) w"
  show "settles served ctx w (case Some r of
      None \<Rightarrow> ReplyHandle_abandon (reply_handle ctx) w'
    | Some (Inl e) \<Rightarrow> ReplyHandle_send (reply_handle ctx) (DM_McpReconnectFailed slug e) w'
    | Some (Inr _) \<Rightarrow> (case request_daemon env (ce_mcp_status env) (CC_McpStatus (cx_attached_session_id ctx)) w' of
          (None, w) \<Rightarrow> ReplyHandle_abandon (reply_handle ctx) w
        | (Some report, w) \<Rightarrow> send_mcp_status (reply_handle ctx) report w))"
    using settles_after [OF handlers_settle(4) [OF w'(1) assms(2)] w'(2)] w'
    by (cases r) (auto intro: settles_send simp: handle_mcp_status_sync_def)
qed (use assms in \<open>auto intro!: settles_abandon simp: daemon_serves_def\<close>)

lemma get_image_settles:
  "client_up (cx_writer ctx) w \<Longrightarrow>
   settles served ctx w (handle_client_get_image env session_id turn_id key ctx (reply_handle ctx) w)"
  by (auto simp: handle_client_get_image_def Let_def intro!: settles_send)

lemma create_settles:
  assumes "client_up (cx_writer ctx) w" and "served \<Longrightarrow> daemon_serves env"
  shows "settles served ctx w (snd (handle_client_create_session env a b c d e f g ctx (reply_handle ctx) w))"
proof -
  have "snd (handle_client_create_session env a b c d e f g ctx (reply_handle ctx) w) =
      (case request_daemon env (ce_created env) (CC_CreateSession a b c g f d e []) w of (r, w) \<Rightarrow>
        (case r of None \<Rightarrow> ReplyHandle_abandon (reply_handle ctx) w
         | Some x \<Rightarrow> ReplyHandle_send (reply_handle ctx) (case x of
             Inl err \<Rightarrow> session_failed None ''create_session'' (io_text err)
           | Inr (sid, _) \<Rightarrow> DM_Session (Some sid) (SE_SessionCreatedForRequester a b c e f g)) w))"
    by (auto simp: handle_client_create_session_def Let_def split: prod.split option.split sum.split)
  also have "settles served ctx w \<dots>"
    by (rule settles_request) (use assms in \<open>auto intro!: settles_intros simp: daemon_serves_def\<close>)
  finally show ?thesis .
qed

lemma switch_owed:
  assumes "client_up s w"
  shows "owed s (snd (switch_attached_session env sid tx ctx w)) = owed s w"
    "client_up s (snd (switch_attached_session env sid tx ctx w))"
  using assms by (auto simp: switch_attached_session_def Let_def owed_session_send split: option.split)

lemma attach_settles:
  assumes "client_up (cx_writer ctx) w" and "served \<Longrightarrow> daemon_serves env"
  shows "settles served ctx w (snd (snd (handle_client_attach_session env session_id ctx (reply_handle ctx) w)))"
proof -
  have sw: "settles served ctx w (snd (switch_attached_session env session_id tx ctx w'))"
    if "settles served ctx w w'" for w' tx
    using that switch_owed [where s = "cx_writer ctx" and w = w'] by (simp add: settles_def)
  have "snd (snd (handle_client_attach_session env session_id ctx (reply_handle ctx) w)) =
      (case request_daemon env (ce_attached env) (CC_AttachSession session_id) w of (r, w) \<Rightarrow>
        (case r of None \<Rightarrow> ReplyHandle_abandon (reply_handle ctx) w
         | Some (Inl err) \<Rightarrow> ReplyHandle_send (reply_handle ctx) (session_failed None ''attach_session'' (io_text err)) w
         | Some (Inr tx) \<Rightarrow> snd (switch_attached_session env session_id tx ctx
             (ReplyHandle_send (reply_handle ctx) (DM_Session (Some session_id) SE_SessionAttached) w))))"
    by (auto simp: handle_client_attach_session_def Let_def case_prod_beta split: option.split sum.split)
  also have "settles served ctx w \<dots>"
    by (rule settles_request)
       (use assms in \<open>auto intro!: settles_intros sw simp: daemon_serves_def split: sum.split\<close>)
  finally show ?thesis .
qed

lemma settles_session_send:
  "client_up (cx_writer ctx) w \<Longrightarrow> owed (cx_writer ctx) w = owed (cx_writer ctx) w0 \<Longrightarrow>
   command_reply cmd = Some (reply_target ctx kind) \<Longrightarrow> settles served ctx w0 (session_send env tx cmd w)"
  using owed_session_send [where s = "cx_writer ctx" and w = w and cmd = cmd and env = env and tx = tx]
  by (simp add: settles_def)

lemma set_account_settles:
  assumes "client_up (cx_writer ctx) w" and "served \<Longrightarrow> daemon_serves env"
  shows "settles served ctx w (handle_client_set_session_account env name kind ctx w)"
proof (cases "cx_attached_session_tx ctx")
  case None
  then show ?thesis using assms by (auto simp: handle_client_set_session_account_def intro!: settles_send)
next
  case (Some tx)
  have "handle_client_set_session_account env name kind ctx w =
      (case request_daemon env (ce_account_exists env) (CC_AccountExists name) w of (r, w) \<Rightarrow>
         if r = Some True then session_send env tx (SC_SetAccount name (Some (reply_target ctx kind))) w
         else ReplyHandle_send (reply_handle ctx) (session_failed (cx_attached_session_id ctx) ''set_account''
            (''account '' @ [CHR 0x27] @ name @ [CHR 0x27] @ '' not found'')) w)"
    using Some by (auto simp: handle_client_set_session_account_def split: prod.split option.split bool.split)
  also have "settles served ctx w \<dots>"
    by (rule settles_request)
       (use assms in \<open>auto intro!: settles_session_send [where kind = kind] settles_send simp: daemon_serves_def\<close>)
  finally show ?thesis .
qed

lemma to_session_settles:
  assumes "client_up (cx_writer ctx) w" "\<And>t. command_reply (cmd t) = t"
  shows "settles served ctx w (to_attached_session env ctx kind cmd w)"
proof (cases "cx_attached_session_tx ctx")
  case None
  then show ?thesis
    using assms by (simp add: to_attached_session_def ReplyTarget_fail_def ReplyTarget_send_eq settles_def owed_def
        reply_sink_replies reply_target_def ReplyTarget_new_def DaemonMessage_reply_def)
next
  case (Some tx)
  then show ?thesis
    using assms by (simp add: to_attached_session_def settles_session_send [where kind = kind])
qed

lemma targets_settle:
  assumes "client_up (cx_writer ctx) w"
  shows "settles served ctx w (handle_unlock_sync env ctx kind key w)"
    "settles served ctx w (handle_bind_keystore_sync env ctx kind key w)"
    "settles served ctx w (handle_add_credential_sync env ctx kind service credential w)"
  using assms
  by (simp_all add: handle_unlock_sync_def handle_bind_keystore_sync_def handle_add_credential_sync_def
      request_daemon_def settles_def owed_daemon_send)

lemma effort_settles:
  assumes up: "client_up (cx_writer ctx) w" and served: "served \<Longrightarrow> sessions_serve env"
  shows "settles served ctx w (query_reasoning_effort env ctx w)"
proof (cases "cx_attached_session_tx ctx")
  case None
  then show ?thesis using up by (simp add: query_reasoning_effort_def settles_send)
next
  case (Some tx)
  have "\<not> served" if "(if ce_session_up env (cw_tick w) tx then ce_effort env (cw_tick w) tx else None) = None"
  proof
    assume served
    then have "sessions_serve env" by (rule served)
    then show False using that unfolding sessions_serve_def by (metis (full_types))
  qed
  then show ?thesis
    using Some up
    by (auto simp: query_reasoning_effort_def Let_def owed_session_send
        intro!: settles_send settles_abandon split: option.split)
qed

lemma ack_settles:
  "client_up (cx_writer ctx) w \<Longrightarrow> owed (cx_writer ctx) w = owed (cx_writer ctx) w0 \<Longrightarrow> settles served ctx w0 (ack ctx kind w)"
  by (simp add: ack_def settles_send)

lemma sessions_settles:
  assumes "client_up (cx_writer ctx) w" and "served \<Longrightarrow> daemon_serves env"
  shows "settles served ctx w (query_sessions env (reply_handle ctx) w)"
  using assms by (auto intro!: settles_intros simp: query_sessions_def daemon_serves_def)

lemmas all_settle = handlers_settle reconnect_settles get_image_settles create_settles attach_settles
  set_account_settles to_session_settles targets_settle effort_settles ack_settles sessions_settles
  settles_send

lemma dispatch_settles:
  assumes up: "client_up (cx_writer ctx) w" and served: "served \<Longrightarrow> daemon_serves env"
    and effort: "served \<Longrightarrow> cmsg_inner msg = CM_GetReasoningEffort \<Longrightarrow> sessions_serve env"
  shows "settles served (ctx\<lparr>cx_request_id := cmsg_id msg\<rparr>) w (snd (snd (dispatch_client_message env msg ctx w)))"
proof -
  let ?ctx = "ctx\<lparr>cx_request_id := cmsg_id msg\<rparr>"
  have up': "client_up (cx_writer ?ctx) w" using up by simp
  show ?thesis
    using up' served effort
    by (cases "cmsg_inner msg")
       (auto intro!: all_settle simp: dispatch_client_message_def Let_def case_prod_beta owed_daemon_send
          split: option.split)
qed


lemma conn_dispatch_settles:
  assumes up: "client_up (cn_writer conn) w" and served: "served \<Longrightarrow> daemon_serves env"
    and effort: "served \<Longrightarrow> cmsg_inner msg = CM_GetReasoningEffort \<Longrightarrow> sessions_serve env"
    and run: "conn_dispatch env msg conn w = (res, conn', w')"
  shows "client_up (cn_writer conn) w'"
    "owed (cn_writer conn) w' = owed (cn_writer conn) w + {#Some (cmsg_id msg)#} \<or>
      \<not> served \<and> owed (cn_writer conn) w' = owed (cn_writer conn) w"
    "cn_writer conn' = cn_writer conn" "cn_client_id conn' = cn_client_id conn" "cn_is_unix conn' = cn_is_unix conn"
    "served \<Longrightarrow> res = Inr ()"
proof -
  let ?ctx = "\<lparr>cx_writer = cn_writer conn, cx_attached_session_id = cn_attached_session_id conn,
      cx_attached_session_tx = cn_attached_session_tx conn, cx_client_id = cn_client_id conn,
      cx_request_id = 0, cx_is_unix = cn_is_unix conn\<rparr>"
  have "settles served (?ctx\<lparr>cx_request_id := cmsg_id msg\<rparr>) w (snd (snd (dispatch_client_message env msg ?ctx w)))"
    by (rule dispatch_settles) (use up served effort in simp_all)
  moreover have "w' = snd (snd (dispatch_client_message env msg ?ctx w))"
    using run by (simp add: conn_dispatch_def Let_def case_prod_beta)
  ultimately show "client_up (cn_writer conn) w'"
    "owed (cn_writer conn) w' = owed (cn_writer conn) w + {#Some (cmsg_id msg)#} \<or>
      \<not> served \<and> owed (cn_writer conn) w' = owed (cn_writer conn) w"
    by (auto simp: settles_def)
  show "cn_writer conn' = cn_writer conn" "cn_client_id conn' = cn_client_id conn" "cn_is_unix conn' = cn_is_unix conn"
    using run by (auto simp: conn_dispatch_def Let_def case_prod_beta)
  show "res = Inr ()" if served
  proof -
    have "\<And>n. ce_daemon_up env n" "\<And>n cmd. ce_created env n cmd \<noteq> None" "\<And>n cmd. ce_attached env n cmd \<noteq> None"
      using served [OF that] by (auto simp: daemon_serves_def)
    then have "ok_if (fst (handle_client_create_session env a b c d e f g ctx h w)) = Inr ()"
      "ok_if (fst (handle_client_attach_session env sid ctx h w)) = Inr ()" for a b c d e f g sid ctx h
      by (auto simp: handle_client_create_session_def handle_client_attach_session_def request_daemon_def
          ok_if_def Let_def case_prod_beta split: option.split sum.split)
    then show ?thesis
      using run
      by (cases "cmsg_inner msg")
         (auto simp: conn_dispatch_def dispatch_client_message_def Let_def case_prod_beta)
  qed
qed

lemma add_mset_subsetD: "add_mset x A \<subseteq># B \<Longrightarrow> A \<subseteq># B"
  by (metis add_mset_add_single mset_subset_eq_add_left subset_mset.order_trans)

lemma reader_loop_owed:
  assumes "client_up (cn_writer conn) w"
    and "served \<Longrightarrow> daemon_serves env \<and> (CM_GetReasoningEffort \<in> cmsg_inner ` set msgs \<longrightarrow> sessions_serve env)"
  shows "case reader_loop env (map Inr msgs :: (ProtoError + ClientMessage) list) conn w of (conn', w') \<Rightarrow> client_up (cn_writer conn) w' \<and>
     owed (cn_writer conn) w' \<subseteq># owed (cn_writer conn) w + mset (map (Some \<circ> cmsg_id) msgs) \<and>
     owed (cn_writer conn) w \<subseteq># owed (cn_writer conn) w' \<and>
     (served \<longrightarrow> owed (cn_writer conn) w' = owed (cn_writer conn) w + mset (map (Some \<circ> cmsg_id) msgs))"
  using assms
proof (induction msgs arbitrary: conn w)
  case Nil
  then show ?case by simp
next
  case (Cons msg msgs)
  obtain res conn1 w1 where d: "conn_dispatch env msg conn w = (res, conn1, w1)" by (metis prod_cases3)
  note one = conn_dispatch_settles [OF Cons.prems(1) _ _ d, where served = served]
  have up1: "client_up (cn_writer conn1) w1" and w1: "cn_writer conn1 = cn_writer conn"
    and owed1: "owed (cn_writer conn) w1 = owed (cn_writer conn) w + {#Some (cmsg_id msg)#} \<or>
      \<not> served \<and> owed (cn_writer conn) w1 = owed (cn_writer conn) w"
    and ok: "served \<Longrightarrow> res = Inr ()"
    using one Cons.prems(2) by auto
  show ?case
  proof (cases res)
    case (Inl e)
    then have "\<not> served" using ok by auto
    then show ?thesis using Inl owed1 up1 w1 by (auto simp: d)
  next
    case (Inr u)
    have "served \<Longrightarrow> daemon_serves env \<and> (CM_GetReasoningEffort \<in> cmsg_inner ` set msgs \<longrightarrow> sessions_serve env)"
      using Cons.prems(2) by auto
    note rec = Cons.IH [OF up1 this]
    obtain conn2 w2 where l: "reader_loop env (map Inr msgs :: (ProtoError + ClientMessage) list) conn1 w1 = (conn2, w2)" by fastforce
    show ?thesis
      using rec owed1 unfolding w1 by (auto simp: d l Inr intro: subset_mset.order_trans dest: add_mset_subsetD)
  qed
qed




definition sample_conn_env :: ConnEnv where
  "sample_conn_env =
     \<lparr>ce_daemon_up = (\<lambda>_. True), ce_session_up = (\<lambda>_ tx. tx \<in> {3, 5}), ce_created = (\<lambda>_ _. Some (Inr (3, 3))),
      ce_attached = (\<lambda>_ cmd. case cmd of CC_AttachSession sid \<Rightarrow> Some (Inr (unat sid)) | _ \<Rightarrow> Some (Inr 0)), ce_sessions = (\<lambda>_ _. Some []),
      ce_session_state = (\<lambda>_ _. Some (Inr DM_Pong)), ce_acked = (\<lambda>_ _. Some ()),
      ce_result = (\<lambda>_ _. Some (Inr ())), ce_io_result = (\<lambda>_ _. Some (Inr ())),
      ce_acl_count = (\<lambda>_ _. Some (Inr 1)), ce_models = (\<lambda>_ _. Some (Inl ''none'')),
      ce_refreshed = (\<lambda>_ _. Some (Inl ''offline'')), ce_credential = (\<lambda>_ _. Some None),
      ce_accounts = (\<lambda>_ _. Some (Inr [])), ce_account_exists = (\<lambda>_ _. Some True),
      ce_mcp_status = (\<lambda>_ _. Some \<lparr>msr_servers = [], msr_project_root = None, msr_project_trusted = False,
        msr_ignored_project_servers = []\<rparr>),
      ce_mcp_reloaded = (\<lambda>_ _. Some (Inl ''off'')),
      ce_mcp_trust = (\<lambda>_ _. Some \<lparr>mto_root = None, mto_trusted = False, mto_message = ''''\<rparr>),
      ce_mcp_roots = (\<lambda>_ _. Some []), ce_effort = (\<lambda>_ tx. if tx = 3 then Some ''high'' else None),
      ce_db = (\<lambda>_. \<lparr>tb_sessions = [], tb_turns = [], tb_kv = [], tb_attachments = [], tb_deleted = []\<rparr>),
      ce_db_fault = (\<lambda>_. None), ce_oauth_providers = []\<rparr>"

definition conn_hub :: hub where
  "conn_hub = \<lparr>hub_chan = (\<lambda>_. fresh_chan), hub_next = 1, hub_global = 0\<rparr>"

definition sample_conn_world :: conn_world where
  "sample_conn_world = \<lparr>cw_hub = conn_hub, cw_daemon = [], cw_sent = [], cw_tick = 0\<rparr>"



section \<open>Attachments\<close>

text \<open>
  The session threads a client is attached to, according to the commands that were
  delivered to them.
\<close>

definition attach_step :: "ClientId \<Rightarrow> session_tx \<times> SessionCommand \<Rightarrow> session_tx set \<Rightarrow> session_tx set" where
  "attach_step c sent S = (case sent of (tx, cmd) \<Rightarrow> (case cmd of
     SC_Attach c' _ \<Rightarrow> if c' = c then insert tx S else S
   | SC_Detach c' \<Rightarrow> if c' = c then S - {tx} else S
   | _ \<Rightarrow> S))"

definition attachments :: "ClientId \<Rightarrow> (session_tx \<times> SessionCommand) list \<Rightarrow> session_tx set" where
  "attachments c sent = fold (attach_step c) sent {}"

text \<open>
  How mailboxes behave: a receiver that is gone does not come back, the mailbox the
  daemon hands out for a session is one of that session, and it hands out another
  one only when the thread behind the earlier one is gone.
\<close>

definition mailboxes_ok :: "ConnEnv \<Rightarrow> (session_tx \<Rightarrow> u64) \<Rightarrow> bool" where
  "mailboxes_ok env owner \<longleftrightarrow>
     (\<forall>n m tx. n \<le> m \<and> ce_session_up env m tx \<longrightarrow> ce_session_up env n tx) \<and>
     (\<forall>n sid tx. ce_attached env n (CC_AttachSession sid) = Some (Inr tx) \<longrightarrow> owner tx = sid) \<and>
     (\<forall>n n' sid tx tx'. n < n' \<and> ce_attached env n (CC_AttachSession sid) = Some (Inr tx) \<and>
        ce_attached env n' (CC_AttachSession sid) = Some (Inr tx') \<and> tx' \<noteq> tx \<longrightarrow> \<not> ce_session_up env n' tx)"

definition live_attachments :: "ConnEnv \<Rightarrow> ClientId \<Rightarrow> conn_world \<Rightarrow> session_tx set" where
  "live_attachments env c w = {tx \<in> attachments c (cw_sent w). ce_session_up env (cw_tick w) tx}"

text \<open>The invariant of a connection: the live thread it is attached to, if any, is the one it names.\<close>

definition attached_ok :: "ConnEnv \<Rightarrow> (session_tx \<Rightarrow> u64) \<Rightarrow> ClientConn \<Rightarrow> conn_world \<Rightarrow> bool" where
  "attached_ok env owner conn w \<longleftrightarrow>
     (case cn_attached_session_tx conn of
        None \<Rightarrow> cn_attached_session_id conn = None \<and> live_attachments env (cn_client_id conn) w = {}
      | Some tx \<Rightarrow> cn_attached_session_id conn = Some (owner tx) \<and>
          (\<exists>n < cw_tick w. ce_attached env n (CC_AttachSession (owner tx)) = Some (Inr tx)) \<and>
          live_attachments env (cn_client_id conn) w = {t. t = tx \<and> ce_session_up env (cw_tick w) t})"

lemma attachments_snoc: "attachments c (sent @ [x]) = attach_step c x (attachments c sent)"
  by (simp add: attachments_def)


lemma conn_world_simps [simp]:
  "cw_sent (ReplyHandle_send handle inner w) = cw_sent w" "cw_tick (ReplyHandle_send handle inner w) = cw_tick w"
  "cw_daemon (ReplyHandle_send handle inner w) = cw_daemon w"
  "cw_sent (drop_target reply w) = cw_sent w" "cw_tick (drop_target reply w) = cw_tick w"
  "cw_daemon (drop_target reply w) = cw_daemon w"
  "cw_sent (daemon_send env cmd w) = cw_sent w" "cw_tick (daemon_send env cmd w) = Suc (cw_tick w)"
  "cw_daemon (daemon_send env cmd w) = cw_daemon w @ (if ce_daemon_up env (cw_tick w) then [cmd] else [])"
  "cw_sent (session_send env tx scmd w) = cw_sent w @ (if ce_session_up env (cw_tick w) tx then [(tx, scmd)] else [])"
  "cw_tick (session_send env tx scmd w) = Suc (cw_tick w)"
  "cw_daemon (session_send env tx scmd w) = cw_daemon w"
  by (auto simp: ReplyHandle_send_def drop_target_def daemon_send_def session_send_def Let_def split: option.split)

lemmas dispatch_defs = conn_dispatch_def dispatch_client_message_def handle_client_create_session_def
  handle_client_set_session_account_def reply_from_daemon_def handle_unlock_sync_def handle_bind_keystore_sync_def
  handle_add_credential_sync_def handle_lock_sync_def handle_list_models_sync_def handle_client_get_image_def
  handle_refresh_models_sync_def send_mcp_status_def handle_mcp_status_sync_def handle_mcp_reconnect_sync_def
  handle_mcp_reload_sync_def handle_mcp_trust_sync_def handle_mcp_trust_list_sync_def handle_get_credential_sync_def
  handle_get_session_state_sync_def handle_delete_session_sync_def handle_set_session_flags_sync_def
  handle_acl_add_sync_def handle_remove_credential_sync_def to_attached_session_def query_reasoning_effort_def
  query_sessions_def ack_def request_daemon_def ReplyHandle_abandon_def Let_def

lemma dispatch_quiet:
  assumes "\<And>sid. cmsg_inner msg \<noteq> CM_AttachSession sid" "conn_dispatch env msg conn w = (res, conn', w')"
  shows "attachments c (cw_sent w') = attachments c (cw_sent w)" "cw_tick w \<le> cw_tick w'" "conn' = conn"
proof -
  have step: "attachments c (sent @ [(tx, cmd)]) = attachments c sent"
    if "\<And>c' s. cmd \<noteq> SC_Attach c' s" "\<And>c'. cmd \<noteq> SC_Detach c'" for sent tx cmd
    using that by (cases cmd) (auto simp: attachments_snoc attach_step_def)
  have "attachments c (cw_sent w') = attachments c (cw_sent w) \<and> cw_tick w \<le> cw_tick w' \<and> conn' = conn"
    using assms
    by (cases "cmsg_inner msg") (auto simp: dispatch_defs case_prod_beta step split: option.splits sum.splits if_splits bool.splits)
  then show "attachments c (cw_sent w') = attachments c (cw_sent w)" "cw_tick w \<le> cw_tick w'" "conn' = conn"
    by auto
qed


lemma attached_ok_later:
  assumes ok: "attached_ok env owner conn w" and up: "mailboxes_ok env owner"
    and same: "attachments (cn_client_id conn) (cw_sent w') = attachments (cn_client_id conn) (cw_sent w)"
    and later: "cw_tick w \<le> cw_tick w'"
  shows "attached_ok env owner conn w'"
proof -
  have mono: "ce_session_up env (cw_tick w') tx \<Longrightarrow> ce_session_up env (cw_tick w) tx" for tx
    using up later by (auto simp: mailboxes_ok_def)
  show ?thesis
    using ok mono unfolding attached_ok_def live_attachments_def same
    by (cases "cn_attached_session_tx conn") (auto simp: set_eq_iff intro: less_le_trans [OF _ later])
qed

lemma live_send:
  assumes "mailboxes_ok env owner"
  shows "live_attachments env c (session_send env tx (SC_Detach c) w) \<subseteq> live_attachments env c w - {tx}"
    "live_attachments env c (session_send env tx (SC_Attach c s) w) =
       {t. (t = tx \<or> t \<in> live_attachments env c w) \<and> ce_session_up env (Suc (cw_tick w)) t}"
proof -
  have mono: "ce_session_up env (Suc n) t \<Longrightarrow> ce_session_up env n t" for n t
    using assms unfolding mailboxes_ok_def by (meson le_SucI order_refl)
  show "live_attachments env c (session_send env tx (SC_Detach c) w) \<subseteq> live_attachments env c w - {tx}"
    by (auto simp: live_attachments_def attachments_snoc attach_step_def split: if_splits dest: mono)
  show "live_attachments env c (session_send env tx (SC_Attach c s) w) =
       {t. (t = tx \<or> t \<in> live_attachments env c w) \<and> ce_session_up env (Suc (cw_tick w)) t}"
    by (auto simp: live_attachments_def attachments_snoc attach_step_def split: if_splits dest: mono)
qed

lemma live_same:
  "cw_sent w' = cw_sent w \<Longrightarrow> cw_tick w' = cw_tick w \<Longrightarrow> live_attachments env c w' = live_attachments env c w"
  by (simp add: live_attachments_def)

lemma switch_live:
  assumes up: "mailboxes_ok env owner"
    and live: "live_attachments env (cx_client_id ctx) w \<subseteq> set_option (cx_attached_session_tx ctx)"
    and sid: "cx_attached_session_id ctx = map_option owner (cx_attached_session_tx ctx)"
    and old: "\<And>old. cx_attached_session_tx ctx = Some old \<Longrightarrow> owner old = owner tx \<Longrightarrow> old \<noteq> tx \<Longrightarrow>
        \<not> ce_session_up env (cw_tick w) old"
    and run: "switch_attached_session env (owner tx) tx ctx w = (ctx', w')"
  shows "live_attachments env (cx_client_id ctx) w' = {t. t = tx \<and> ce_session_up env (cw_tick w') t}" "cw_tick w \<le> cw_tick w'"
proof -
  let ?c = "cx_client_id ctx"
  have mono: "n \<le> m \<Longrightarrow> ce_session_up env m t \<Longrightarrow> ce_session_up env n t" for n m t
    using up by (auto simp: mailboxes_ok_def)
  obtain w2 where w': "w' = session_send env tx (SC_Attach ?c (cx_writer ctx)) w2" and later: "cw_tick w \<le> cw_tick w2"
    and gone: "live_attachments env ?c w2 \<subseteq> {tx}"
  proof (cases "cx_attached_session_tx ctx")
    case None
    then show ?thesis
      using run live sid by (intro that [of w]) (auto simp: switch_attached_session_def Let_def)
  next
    case (Some old_tx)
    show ?thesis
    proof (cases "owner old_tx = owner tx")
      case True
      have "live_attachments env ?c w \<subseteq> {tx}"
        using live old [OF Some True] Some by (auto simp: live_attachments_def)
      then show ?thesis
        using run sid Some True by (intro that [of w]) (auto simp: switch_attached_session_def Let_def)
    next
      case False
      have "live_attachments env ?c (session_send env old_tx (SC_Detach ?c) w) = {}"
        using live_send(1) [OF up, of ?c old_tx w] live Some by auto
      then show ?thesis
        using run sid Some False
        by (intro that [of "session_send env old_tx (SC_Detach ?c) w"]) (auto simp: switch_attached_session_def Let_def)
    qed
  qed
  show "live_attachments env ?c w' = {t. t = tx \<and> ce_session_up env (cw_tick w') t}"
    using gone by (auto simp: w' live_send(2) [OF up])
  show "cw_tick w \<le> cw_tick w'" using later by (simp add: w')
qed

definition request_ctx :: "ClientMessage \<Rightarrow> ClientConn \<Rightarrow> ClientCtx" where
  "request_ctx msg conn = \<lparr>cx_writer = cn_writer conn, cx_attached_session_id = cn_attached_session_id conn,
     cx_attached_session_tx = cn_attached_session_tx conn, cx_client_id = cn_client_id conn,
     cx_request_id = cmsg_id msg, cx_is_unix = cn_is_unix conn\<rparr>"

lemma attach_dispatch:
  fixes env :: ConnEnv and w :: conn_world and conn :: ClientConn
  assumes "cmsg_inner msg = CM_AttachSession sid"
  defines "w1 \<equiv> daemon_send env (CC_AttachSession sid) w" and "handle \<equiv> reply_handle (request_ctx msg conn)"
  shows "conn_dispatch env msg conn w =
    (case (if ce_daemon_up env (cw_tick w) then ce_attached env (cw_tick w) (CC_AttachSession sid) else None) of
       None \<Rightarrow> (Inl daemon_disconnected, conn, w1)
     | Some (Inl e) \<Rightarrow> (Inr (), conn, ReplyHandle_send handle (session_failed None ''attach_session'' (io_text e)) w1)
     | Some (Inr tx) \<Rightarrow> (Inr (), conn\<lparr>cn_attached_session_id := Some sid, cn_attached_session_tx := Some tx\<rparr>,
         snd (switch_attached_session env sid tx (request_ctx msg conn)
           (ReplyHandle_send handle (DM_Session (Some sid) SE_SessionAttached) w1))))"
  unfolding w1_def handle_def
  by (simp add: conn_dispatch_def dispatch_client_message_def assms(1) handle_client_attach_session_def
      request_daemon_def request_ctx_def ok_if_def ReplyHandle_abandon_def switch_attached_session_def Let_def
      split: option.split sum.split)

lemma attach_attached_ok:
  assumes up: "mailboxes_ok env owner" and ok: "attached_ok env owner conn w"
    and msg: "cmsg_inner msg = CM_AttachSession sid" and run: "conn_dispatch env msg conn w = (res, conn', w')"
  shows "attached_ok env owner conn' w'"
proof -
  let ?cmd = "CC_AttachSession sid" and ?c = "cn_client_id conn"
  let ?w1 = "daemon_send env ?cmd w" and ?ctx = "request_ctx msg conn"
  have ok1: "attached_ok env owner conn ?w1" by (rule attached_ok_later [OF ok up]) simp_all
  let ?answer = "if ce_daemon_up env (cw_tick w) then ce_attached env (cw_tick w) ?cmd else None"
  note disp = attach_dispatch [OF msg, of env conn w, unfolded run]
  consider (lost) "?answer = None" | (refused) e where "?answer = Some (Inl e)" | (granted) tx where "?answer = Some (Inr tx)"
    by (metis not_None_eq sum.exhaust)
  then show ?thesis
  proof cases
    case lost
    then show ?thesis using disp ok1 by simp
  next
    case refused
    then show ?thesis using disp attached_ok_later [OF ok1 up, of w'] by simp
  next
    case (granted tx)
    define w2 where "w2 = ReplyHandle_send (reply_handle ?ctx) (DM_Session (Some sid) SE_SessionAttached) ?w1"
    have res: "w' = snd (switch_attached_session env sid tx ?ctx w2)"
        "conn' = conn\<lparr>cn_attached_session_id := Some sid, cn_attached_session_tx := Some tx\<rparr>"
      using disp granted by (simp_all add: w2_def)
    have handed: "ce_attached env (cw_tick w) ?cmd = Some (Inr tx)"
      using granted by (simp split: if_splits)
    have own: "owner tx = sid" using up handed by (auto simp: mailboxes_ok_def)
    have fresh: "\<not> ce_session_up env (cw_tick w) old"
      if old: "cn_attached_session_tx conn = Some old" "owner old = sid" "old \<noteq> tx" for old
    proof -
      obtain n where "n < cw_tick w" "ce_attached env n (CC_AttachSession sid) = Some (Inr old)"
        using ok old by (auto simp: attached_ok_def)
      then show ?thesis using up handed old unfolding mailboxes_ok_def by blast
    qed
    have mono: "ce_session_up env (Suc n) t \<Longrightarrow> ce_session_up env n t" for n t
      using up unfolding mailboxes_ok_def by (meson le_SucI order_refl)
    have live: "live_attachments env ?c w2 \<subseteq> set_option (cn_attached_session_tx conn)"
      "cn_attached_session_id conn = map_option owner (cn_attached_session_tx conn)"
      using ok1 live_same [of w2 ?w1 env ?c] by (auto simp: attached_ok_def w2_def split: option.splits)
    obtain ctx' where sw: "switch_attached_session env (owner tx) tx ?ctx w2 = (ctx', w')"
      using res(1) own by (metis prod.collapse)
    have ctx: "cx_client_id ?ctx = ?c" "cx_attached_session_tx ?ctx = cn_attached_session_tx conn"
      "cx_attached_session_id ?ctx = cn_attached_session_id conn"
      by (simp_all add: request_ctx_def)
    have "live_attachments env (cx_client_id ?ctx) w' = {t. t = tx \<and> ce_session_up env (cw_tick w') t}"
      "cw_tick w2 \<le> cw_tick w'"
      by (rule switch_live [OF up _ _ _ sw]; use live fresh own mono in \<open>auto simp: w2_def ctx\<close>)+
    moreover have "cw_tick w < cw_tick w2" by (simp add: w2_def)
    ultimately show ?thesis using own handed res(2) by (auto simp: attached_ok_def ctx intro: less_le_trans)
  qed
qed

lemma reader_attached_ok:
  assumes up: "mailboxes_ok env owner"
  shows "attached_ok env owner conn w \<Longrightarrow> reader_loop env source conn w = (conn', w') \<Longrightarrow>
    attached_ok env owner conn' w' \<and> cn_client_id conn' = cn_client_id conn"
proof (induction source arbitrary: conn w)
  case (Cons m source)
  show ?case
  proof (cases m)
    case (Inr msg)
    obtain res conn1 w1 where d: "conn_dispatch env msg conn w = (res, conn1, w1)" by (metis prod_cases3)
    have "attached_ok env owner conn1 w1"
    proof (cases "\<exists>sid. cmsg_inner msg = CM_AttachSession sid")
      case True
      then show ?thesis using attach_attached_ok [OF up Cons.prems(1) _ d] by blast
    next
      case False
      then show ?thesis
        using attached_ok_later [OF Cons.prems(1) up, of w1] dispatch_quiet [OF _ d] by auto
    qed
    moreover have "cn_client_id conn1 = cn_client_id conn"
      using d by (auto simp: conn_dispatch_def Let_def case_prod_beta)
    ultimately show ?thesis
      using Cons.IH [of conn1 w1] Cons.prems(2) by (auto simp: Inr d split: sum.splits)
  qed (use Cons.prems in auto)
qed simp

text \<open>
  C17. A client is attached to one session at a time. Whatever messages a connection
  reads, among the session threads that are alive the client is attached to the one
  its connection names and to no other, although attaching elsewhere is two separate
  sends to two threads; and when the connection ends it is attached to none.
\<close>

theorem attached_to_one_session:
  assumes "mailboxes_ok env owner" and "attachments client_id (cw_sent w) = {}"
    and "reader_loop env source (ClientConn_new writer client_id is_unix) w = (conn, w')"
  shows "live_attachments env client_id w' =
       {tx. cn_attached_session_tx conn = Some tx \<and> ce_session_up env (cw_tick w') tx} \<and>
     cn_attached_session_id conn = map_option owner (cn_attached_session_tx conn) \<and>
     live_attachments env client_id (conn_finish env conn w') = {}"
proof -
  have "attached_ok env owner (ClientConn_new writer client_id is_unix) w"
    using assms(2) by (simp add: attached_ok_def ClientConn_new_def live_attachments_def)
  from reader_attached_ok [OF assms(1) this assms(3)]
  have ok: "attached_ok env owner conn w'" and c: "cn_client_id conn = client_id"
    by (auto simp: ClientConn_new_def)
  have live: "live_attachments env client_id w' =
       {tx. cn_attached_session_tx conn = Some tx \<and> ce_session_up env (cw_tick w') tx}"
    "cn_attached_session_id conn = map_option owner (cn_attached_session_tx conn)"
    using ok by (auto simp: attached_ok_def c split: option.splits)
  have "live_attachments env client_id (conn_finish env conn w') = {}"
  proof (cases "cn_attached_session_tx conn")
    case None
    have "attached_ok env owner conn (conn_finish env conn w')"
      by (rule attached_ok_later [OF ok assms(1)]) (simp_all add: conn_finish_def cleanup_client_def None)
    then show ?thesis by (simp add: attached_ok_def None c)
  next
    case (Some tx)
    have "live_attachments env client_id (conn_finish env conn w') \<subseteq>
        live_attachments env client_id (session_send env tx (SC_Detach client_id) w')"
      using assms(1) unfolding mailboxes_ok_def
      by (auto simp: live_attachments_def conn_finish_def cleanup_client_def Some c) (meson le_SucI order_refl)+
    then show ?thesis
      using live_send(1) [OF assms(1), of client_id tx w'] live(1) Some by auto
  qed
  with live show ?thesis by blast
qed


theorem attached_to_one_session_witness:
  "\<exists>conn w'. reader_loop sample_conn_env (map Inr [ClientMessage_request 4 (CM_AttachSession 3),
        ClientMessage_request 5 (CM_AttachSession 5)] :: (ProtoError + ClientMessage) list)
      (ClientConn_new 0 7 True) sample_conn_world = (conn, w') \<and>
    cn_attached_session_tx conn = Some 5 \<and> live_attachments sample_conn_env 7 w' = {5} \<and>
    live_attachments sample_conn_env 7 (conn_finish sample_conn_env conn w') = {}"
proof -
  let ?source = "map Inr [ClientMessage_request 4 (CM_AttachSession 3),
      ClientMessage_request 5 (CM_AttachSession 5)] :: (ProtoError + ClientMessage) list"
  obtain conn w' where run: "reader_loop sample_conn_env ?source (ClientConn_new 0 7 True) sample_conn_world = (conn, w')"
    by fastforce
  have ok: "mailboxes_ok sample_conn_env of_nat" by (auto simp: mailboxes_ok_def sample_conn_env_def)
  have none: "attachments 7 (cw_sent sample_conn_world) = {}" by (simp add: sample_conn_world_def attachments_def)
  have tx: "cn_attached_session_tx conn = Some 5"
    using run by (auto simp: conn_dispatch_def dispatch_client_message_def ClientMessage_request_def Let_def
        handle_client_attach_session_def request_daemon_def daemon_send_def sample_conn_env_def sample_conn_world_def
        switch_attached_session_def session_send_def ReplyHandle_send_def ClientConn_new_def ok_if_def)
  have "ce_session_up sample_conn_env (cw_tick w') 5" by (simp add: sample_conn_env_def)
  then show ?thesis
    using attached_to_one_session [OF ok none run] run tx by (auto intro!: exI [of _ conn] exI [of _ w'])
qed

section \<open>Trust\<close>

fun is_acl_add :: "ConnCommand \<Rightarrow> bool" where
  "is_acl_add (CC_AclAddCmd _) = True"
| "is_acl_add _ = False"

text \<open>What a reply may show: image bytes only of the given session, as they are in the store.\<close>

fun shows_only :: "u64 option \<Rightarrow> Database \<Rightarrow> DaemonMessageType \<Rightarrow> bool" where
  "shows_only sid db (DM_Image s t key (Some d)) =
     (sid = Some s \<and> map_of (tb_attachments db) (s, t, slot_for key) = Some d)"
| "shows_only sid db _ = True"

lemma shows_only_session [simp]:
  "shows_only sid db (session_failed s op e)" "shows_only sid db (DM_Session s ev)"
  by (simp_all add: session_failed_def)

definition discreet :: "u64 option \<Rightarrow> Database \<Rightarrow> SubscriberSink \<Rightarrow> conn_world \<Rightarrow> conn_world \<Rightarrow> bool" where
  "discreet sid db s w w' \<longleftrightarrow> (\<exists>new. replies (cw_hub w') s = replies (cw_hub w) s @ new \<and>
     list_all (\<lambda>m. shows_only sid db (dmsg_inner m)) new)"

lemma discreet_refl: "discreet sid db s w w"
  by (simp add: discreet_def)

lemma discreet_tick: "discreet sid db s w (w\<lparr>cw_tick := n\<rparr>)"
  by (simp add: discreet_def)

lemma discreet_append:
  "discreet sid db s w w1 \<Longrightarrow> replies (cw_hub w') s = replies (cw_hub w1) s @ new \<Longrightarrow>
   list_all (\<lambda>m. shows_only sid db (dmsg_inner m)) new \<Longrightarrow> discreet sid db s w w'"
  by (auto simp: discreet_def)

lemma discreet_send:
  "shows_only sid db inner \<Longrightarrow> discreet sid db s w w1 \<Longrightarrow> discreet sid db s w (ReplyHandle_send handle inner w1)"
  by (erule discreet_append) (auto simp: ReplyHandle_send_def reply_sink_replies DaemonMessage_reply_def)

lemma discreet_drop: "discreet sid db s w w1 \<Longrightarrow> discreet sid db s w (drop_target reply w1)"
  by (cases reply)
     (auto simp: drop_target_def ReplyTarget_drop_def reply_sink_replies DaemonMessage_reply_def intro: discreet_append)

lemma discreet_fail:
  "discreet sid db s w w1 \<Longrightarrow> discreet sid db s w (w1\<lparr>cw_hub := ReplyTarget_fail t msg (cw_hub w1)\<rparr>)"
  by (erule discreet_append)
     (auto simp: ReplyTarget_fail_def ReplyTarget_send_eq reply_sink_replies DaemonMessage_reply_def)

lemma discreet_posts:
  assumes "discreet sid db s w w1"
  shows "discreet sid db s w (daemon_send env cmd w1)" "discreet sid db s w (session_send env tx scmd w1)"
proof -
  have tick: "discreet sid db s w (w1\<lparr>cw_tick := n\<rparr>)" for n using assms by (simp add: discreet_def)
  show "discreet sid db s w (daemon_send env cmd w1)"
    using tick discreet_drop [OF tick] by (simp add: daemon_send_def Let_def discreet_def)
  show "discreet sid db s w (session_send env tx scmd w1)"
    using tick discreet_drop [OF tick] by (simp add: session_send_def Let_def discreet_def)
qed

lemmas discreet_intros = discreet_send discreet_fail discreet_posts discreet_refl discreet_tick

definition states_without_images :: "ConnEnv \<Rightarrow> bool" where
  "states_without_images env \<longleftrightarrow>
     (\<forall>n cmd s t key d. ce_session_state env n cmd \<noteq> Some (Inr (DM_Image s t key (Some d))))"

lemma shows_state:
  "states_without_images env \<Longrightarrow> ce_session_state env n cmd = Some (Inr m) \<Longrightarrow> shows_only sid db m"
  by (cases "(sid, db, m)" rule: shows_only.cases) (auto simp: states_without_images_def)

lemma image_discreet:
  assumes "states_without_images env"
  shows "discreet (cx_attached_session_id ctx) (ce_db env (cw_tick w)) s w
      (handle_client_get_image env sid t key ctx handle w)"
    "discreet sid' db s w (handle_get_session_state_sync env ctx session_id w)"
proof -
  have "shows_only (cx_attached_session_id ctx) (ce_db env (cw_tick w)) (DM_Image sid t key
      (if cx_attached_session_id ctx = Some sid
       then (case read_attachment (ce_db_fault env (cw_tick w)) sid t key (ce_db env (cw_tick w)) of
          Inr data \<Rightarrow> data | Inl e \<Rightarrow> None) else None))" (is "shows_only _ _ (DM_Image _ _ _ ?d)")
    by (cases ?d) (auto simp: read_attachment_def split: option.splits if_splits)
  then show "discreet (cx_attached_session_id ctx) (ce_db env (cw_tick w)) s w
      (handle_client_get_image env sid t key ctx handle w)"
    unfolding handle_client_get_image_def Let_def by (intro discreet_intros)
  show "discreet sid' db s w (handle_get_session_state_sync env ctx session_id w)"
    using shows_state [OF assms]
    by (auto simp: handle_get_session_state_sync_def reply_from_daemon_def request_daemon_def ReplyHandle_abandon_def
        Let_def intro!: discreet_intros split: option.split sum.split)
qed




text \<open>
  A query of the reasoning effort to a session that has ended is never answered:
  the connection stays open and goes on, but the request gets neither a reply nor
  is it handed on. Every other request to the same session is answered, with a
  failure.
\<close>

theorem effort_query_unanswered:
  assumes "cn_attached_session_tx conn = Some tx" and "\<not> ce_session_up env (cw_tick w) tx"
    and "hub_up (cw_hub w) (cn_writer conn)"
  shows "(case conn_dispatch env \<lparr>cmsg_id = rid, cmsg_inner = CM_GetReasoningEffort\<rparr> conn w of (res, conn', w') \<Rightarrow>
      res = Inr () \<and> conn' = conn \<and> owed (cn_writer conn) w' = owed (cn_writer conn) w) \<and>
    (case conn_dispatch env \<lparr>cmsg_id = rid, cmsg_inner = CM_SetReasoningEffort effort\<rparr> conn w of (res, conn', w') \<Rightarrow>
      replies (cw_hub w') (cn_writer conn) = replies (cw_hub w) (cn_writer conn) @
        [DaemonMessage_reply rid (DM_Failed MK_SetReasoningEffort ''request was not answered by the daemon'')])"
  using assms
  by (simp add: conn_dispatch_def dispatch_client_message_def query_reasoning_effort_def to_attached_session_def
      session_send_def drop_target_def ReplyHandle_abandon_def ReplyTarget_drop_def reply_target_def ReplyTarget_new_def
      reply_sink_replies ClientMessageType_kind_def MessageKind_from_def owed_def Let_def)

theorem effort_query_unanswered_witness:
  "\<exists>res conn' w'. conn_dispatch sample_conn_env \<lparr>cmsg_id = 9, cmsg_inner = CM_GetReasoningEffort\<rparr>
      \<lparr>cn_writer = 0, cn_client_id = 7, cn_is_unix = True, cn_attached_session_id = Some 4, cn_attached_session_tx = Some 4\<rparr>
      sample_conn_world = (res, conn', w') \<and> res = Inr () \<and> owed 0 w' = {#}"
proof -
  let ?conn = "\<lparr>cn_writer = 0, cn_client_id = 7, cn_is_unix = True, cn_attached_session_id = Some 4, cn_attached_session_tx = Some 4\<rparr>"
  have "cn_attached_session_tx ?conn = Some 4" "\<not> ce_session_up sample_conn_env (cw_tick sample_conn_world) 4"
    "hub_up (cw_hub sample_conn_world) (cn_writer ?conn)"
    by (simp_all add: sample_conn_env_def sample_conn_world_def conn_hub_def hub_up_def fresh_chan_def)
  note silent = effort_query_unanswered [OF this, of 9, THEN conjunct1]
  obtain res conn' w' where run: "conn_dispatch sample_conn_env \<lparr>cmsg_id = 9, cmsg_inner = CM_GetReasoningEffort\<rparr>
      ?conn sample_conn_world = (res, conn', w')" by (metis prod_cases3)
  have "owed 0 sample_conn_world = {#}"
    by (simp add: owed_def sample_conn_world_def conn_hub_def fresh_chan_def replies_def)
  then have "res = Inr () \<and> owed 0 w' = {#}" using silent unfolding run by simp
  then show ?thesis using run by blast
qed

end
