(* ===== verification/Transport.thy ===== *)
theory Transport
  imports Proto_Frame
begin

text \<open>
  The encrypted transport of remote connections: messages cut into fragments and
  put together again (\<open>src/choreo-transport/src/noise.rs\<close>), and the handshakes
  before them with their deadline and the check of the client's key
  (\<open>handshake.rs\<close>).

  The Noise state machine of the snow crate is a parameter: sealing and opening a
  message are functions of the number of messages sealed or opened before (the
  nonce). Sockets are the abstract readers and writers of the framing theory, or,
  for the handshake, reads and writes that take time.
\<close>

datatype TransportError =
    TE_Io io_error
  | TE_Noise string
  | TE_Protocol ProtoError
  | TE_InvalidFragment string
  | TE_HandshakeTimeout
  | TE_AuthFailed
  | TE_ConnectionClosed
  | TE_ConfigDirNotFound

section \<open>Fragments (noise.rs)\<close>

definition GCM_TAG_LEN :: nat where
  "GCM_TAG_LEN = 16"

definition FRAGMENT_HEADER_LEN :: nat where
  "FRAGMENT_HEADER_LEN = 1"

definition MAX_PLAINTEXT_CHUNK :: nat where
  "MAX_PLAINTEXT_CHUNK = 65535 - GCM_TAG_LEN - FRAGMENT_HEADER_LEN"

definition FRAGMENT_CONTINUATION :: u8 where
  "FRAGMENT_CONTINUATION = 0x01"

definition classify_stream_error :: "io_error \<Rightarrow> TransportError" where
  "classify_stream_error e =
     (if io_kind e \<in> {IO_UnexpectedEof, IO_ConnectionReset, IO_ConnectionAborted, IO_BrokenPipe}
      then TE_ConnectionClosed else TE_Io e)"

text \<open>Sealing and opening, by nonce.\<close>

type_synonym cipher = "nat \<Rightarrow> bytes \<Rightarrow> string + bytes"

record NoiseStream =
  ns_send_nonce :: nat
  ns_recv_nonce :: nat
  ns_sender_active :: bool

definition NoiseStream_new :: NoiseStream where
  "NoiseStream_new = \<lparr>ns_send_nonce = 0, ns_recv_nonce = 0, ns_sender_active = False\<rparr>"

text \<open>\<open>slice::chunks\<close>: pieces of the given size, the last one possibly shorter.\<close>

fun chunks :: "nat \<Rightarrow> 'a list \<Rightarrow> 'a list list" where
  "chunks n xs = (if xs = [] \<or> n = 0 then [] else take n xs # chunks n (drop n xs))"

declare chunks.simps [simp del]

definition seal_and_write ::
  "cipher \<Rightarrow> 'w write_all \<Rightarrow> bytes \<Rightarrow> 'w \<times> NoiseStream \<Rightarrow> (TransportError + 'w) \<times> NoiseStream" where
  "seal_and_write seal write_all fragment s = (case s of (tcp, self) \<Rightarrow>
     (case seal (ns_send_nonce self) fragment of
        Inl e \<Rightarrow> (Inl (TE_Noise e), self)
      | Inr ct \<Rightarrow>
          (let self = self\<lparr>ns_send_nonce := Suc (ns_send_nonce self)\<rparr>
           in case write_all tcp (to_be_bytes (of_nat (length ct)) @ ct) of
                Inl e \<Rightarrow> (Inl (TE_Io e), self)
              | Inr tcp \<Rightarrow> (Inr tcp, self))))"

fun send_chunks ::
  "cipher \<Rightarrow> 'w write_all \<Rightarrow> nat \<Rightarrow> bytes list \<Rightarrow> 'w \<times> NoiseStream \<Rightarrow> (TransportError + 'w) \<times> NoiseStream" where
  "send_chunks seal write_all remaining [] (tcp, self) = (Inr tcp, self)"
| "send_chunks seal write_all remaining (chunk # rest) (tcp, self) =
     (let continues = remaining > length chunk;
          remaining = remaining - length chunk
      in case seal_and_write seal write_all ((if continues then FRAGMENT_CONTINUATION else 0) # chunk) (tcp, self) of
           (Inl e, self) \<Rightarrow> (Inl e, self)
         | (Inr tcp, self) \<Rightarrow> send_chunks seal write_all remaining rest (tcp, self))"

definition send_message_inner ::
  "cipher \<Rightarrow> 'w write_all \<Rightarrow> bytes \<Rightarrow> 'w \<times> NoiseStream \<Rightarrow> (TransportError + 'w) \<times> NoiseStream" where
  "send_message_inner seal write_all plaintext s =
     (if length plaintext > MAX_FRAME_SIZE
      then (Inl (TE_InvalidFragment
         (''outgoing message exceeds the '' @ show_nat MAX_FRAME_SIZE @ ''-byte limit'')), snd s)
      else if plaintext = [] then seal_and_write seal write_all [0] s
      else send_chunks seal write_all (length plaintext) (chunks MAX_PLAINTEXT_CHUNK plaintext) s)"

text \<open>The flag refuses a second sender while one is active; it is cleared when the send ends.\<close>

definition send_message ::
  "cipher \<Rightarrow> 'w write_all \<Rightarrow> bytes \<Rightarrow> 'w \<times> NoiseStream \<Rightarrow> (TransportError + 'w) \<times> NoiseStream" where
  "send_message seal write_all plaintext s = (case s of (tcp, self) \<Rightarrow>
     if ns_sender_active self
     then (Inl (TE_InvalidFragment ''concurrent send_message on one NoiseStream''), self)
     else (case send_message_inner seal write_all plaintext (tcp, self\<lparr>ns_sender_active := True\<rparr>) of
       (result, self) \<Rightarrow> (result, self\<lparr>ns_sender_active := False\<rparr>)))"

text \<open>One fragment: its payload and whether more follow.\<close>

definition FRAGMENT_CAP :: nat where
  "FRAGMENT_CAP = MAX_PLAINTEXT_CHUNK + FRAGMENT_HEADER_LEN + GCM_TAG_LEN"

definition recv_fragment ::
  "cipher \<Rightarrow> 'r read_exact \<Rightarrow> bytes \<Rightarrow> 'r \<times> NoiseStream \<Rightarrow> TransportError + (bool \<times> bytes \<times> 'r \<times> NoiseStream)" where
  "recv_fragment open_msg read_exact plaintext s = (case s of (tcp, self) \<Rightarrow>
     (case read_exact tcp 4 of
        Inl e \<Rightarrow> Inl (classify_stream_error e)
      | Inr (len_buf, tcp) \<Rightarrow>
          (let ct_len = unat (from_be_bytes len_buf) in
           if ct_len > FRAGMENT_CAP
           then Inl (TE_InvalidFragment (''fragment ciphertext length '' @ show_nat ct_len @ '' exceeds the '' @
             show_nat FRAGMENT_CAP @ ''-byte Noise cap''))
           else if length plaintext + (ct_len - (GCM_TAG_LEN + FRAGMENT_HEADER_LEN)) > MAX_FRAME_SIZE
           then Inl (TE_InvalidFragment (''reassembled message exceeds the '' @ show_nat MAX_FRAME_SIZE @ ''-byte limit''))
           else (case read_exact tcp ct_len of
             Inl e \<Rightarrow> Inl (classify_stream_error e)
           | Inr (ct, tcp) \<Rightarrow> (case open_msg (ns_recv_nonce self) ct of
               Inl e \<Rightarrow> Inl (TE_Noise e)
             | Inr pt \<Rightarrow>
                 (let self = self\<lparr>ns_recv_nonce := Suc (ns_recv_nonce self)\<rparr> in
                  if pt = []
                  then Inl (TE_InvalidFragment ''fragment carries no authenticated continuation header'')
                  else Inr (and (hd pt) FRAGMENT_CONTINUATION \<noteq> 0, plaintext @ tl pt, tcp, self)))))))"

text \<open>Reassembly goes on as long as the peer sends fragments that announce another one.\<close>

partial_function (option) recv_loop ::
  "cipher \<Rightarrow> 'r read_exact \<Rightarrow> bytes \<Rightarrow> 'r \<times> NoiseStream \<Rightarrow> (TransportError + (bytes \<times> 'r \<times> NoiseStream)) option" where
  "recv_loop open_msg read_exact plaintext s =
     (case recv_fragment open_msg read_exact plaintext s of
        Inl e \<Rightarrow> Some (Inl e)
      | Inr (continues, plaintext, tcp, self) \<Rightarrow>
          if continues then recv_loop open_msg read_exact plaintext (tcp, self)
          else Some (Inr (plaintext, tcp, self)))"

definition recv_message ::
  "cipher \<Rightarrow> 'r read_exact \<Rightarrow> 'r \<times> NoiseStream \<Rightarrow> (TransportError + (bytes \<times> 'r \<times> NoiseStream)) option" where
  "recv_message open_msg read_exact s = recv_loop open_msg read_exact [] s"

text \<open>The typed messages of the protocol over the stream.\<close>

definition send_typed_message ::
  "'m encoder \<Rightarrow> cipher \<Rightarrow> 'w write_all \<Rightarrow> 'm \<Rightarrow> 'w \<times> NoiseStream \<Rightarrow> (TransportError + 'w) \<times> NoiseStream" where
  "send_typed_message enc seal write_all msg s = (case encode_payload enc msg of
     Inl e \<Rightarrow> (Inl (TE_Protocol e), snd s)
   | Inr payload \<Rightarrow> send_message seal write_all payload s)"

definition recv_typed_message ::
  "'m decoder \<Rightarrow> cipher \<Rightarrow> 'r read_exact \<Rightarrow> 'r \<times> NoiseStream \<Rightarrow> (TransportError + ('m \<times> 'r \<times> NoiseStream)) option" where
  "recv_typed_message dec open_msg read_exact s = (case recv_message open_msg read_exact s of
     None \<Rightarrow> None
   | Some (Inl e) \<Rightarrow> Some (Inl e)
   | Some (Inr (payload, tcp, self)) \<Rightarrow> (case decode_frame dec payload of
       Inl e \<Rightarrow> Some (Inl (TE_Protocol e))
     | Inr msg \<Rightarrow> Some (Inr (msg, tcp, self))))"


section \<open>The handshake (handshake.rs)\<close>

text \<open>
  Reads and writes of a handshake take time and are bounded by the socket timeout
  armed before each. A socket answers its \<open>n\<close>-th operation, given the timeout and
  what is asked, with a result and the time it took. Times are in nanoseconds.
\<close>

definition HANDSHAKE_TIMEOUT :: nat where
  "HANDSHAKE_TIMEOUT = 10 * 10 ^ 9"

definition PREAMBLE_IK :: u8 where
  "PREAMBLE_IK = 0x01"

definition PREAMBLE_XX :: u8 where
  "PREAMBLE_XX = 0x02"

record Socket =
  sk_read :: "nat \<Rightarrow> nat \<Rightarrow> nat \<Rightarrow> (io_error + bytes) \<times> nat"
  sk_write :: "nat \<Rightarrow> nat \<Rightarrow> bytes \<Rightarrow> (io_error + nat) \<times> nat"
  sk_arm :: "nat \<Rightarrow> io_error option"

record peer =
  pe_now :: nat
  pe_ops :: nat

definition pe_used :: "nat \<Rightarrow> peer \<Rightarrow> peer" where
  "pe_used elapsed p = \<lparr>pe_now = pe_now p + elapsed, pe_ops = Suc (pe_ops p)\<rparr>"

definition timed_out :: "io_error \<Rightarrow> TransportError" where
  "timed_out e = (if io_kind e \<in> {IO_WouldBlock, IO_TimedOut} then TE_HandshakeTimeout else TE_Io e)"

text \<open>
  A read returns at most as many bytes as asked for; the answer of the socket is cut
  to that length, as the buffer passed to it is.
\<close>

function (sequential) read_handshake_exact ::
  "Socket \<Rightarrow> nat \<Rightarrow> nat \<Rightarrow> bytes \<Rightarrow> peer \<Rightarrow> (TransportError + bytes) \<times> peer" where
  "read_handshake_exact sk deadline len buf p =
     (if length buf < len then
        (let remaining = deadline - pe_now p in
         if remaining = 0 then (Inl TE_HandshakeTimeout, p)
         else (case sk_arm sk (pe_ops p) of
           Some e \<Rightarrow> (Inl (TE_Io e), p)
         | None \<Rightarrow>
             (let want = min (len - length buf) 1024 in
              case sk_read sk (pe_ops p) remaining want of
                (Inl e, elapsed) \<Rightarrow> (Inl (timed_out e), pe_used elapsed p)
              | (Inr got, elapsed) \<Rightarrow>
                  (let got = take want got in
                   if got = [] then (Inl (TE_Io (IoError IO_UnexpectedEof ''unexpected end of file'')), pe_used elapsed p)
                   else read_handshake_exact sk deadline len (buf @ got) (pe_used elapsed p)))))
      else (Inr buf, p))"
  by pat_completeness auto
termination
proof (relation "measure (\<lambda>(_, _, len, buf, _). len - length buf)", goal_cases)
  case (2 sk deadline len buf p)
  then show ?case by (auto simp: min_def simp flip: length_greater_0_conv)
qed simp

function (sequential) write_handshake_all ::
  "Socket \<Rightarrow> nat \<Rightarrow> bytes \<Rightarrow> peer \<Rightarrow> (TransportError + unit) \<times> peer" where
  "write_handshake_all sk deadline data p =
     (if data = [] then (Inr (), p)
      else
        (let remaining = deadline - pe_now p in
         if remaining = 0 then (Inl TE_HandshakeTimeout, p)
         else (case sk_arm sk (pe_ops p) of
           Some e \<Rightarrow> (Inl (TE_Io e), p)
         | None \<Rightarrow> (case sk_write sk (pe_ops p) remaining data of
             (Inl e, elapsed) \<Rightarrow> (Inl (timed_out e), pe_used elapsed p)
           | (Inr n, elapsed) \<Rightarrow>
               if n = 0 then (Inl (TE_Io (IoError IO_WriteZero ''write zero'')), pe_used elapsed p)
               else write_handshake_all sk deadline (drop n data) (pe_used elapsed p)))))"
  by pat_completeness auto
termination
  by (relation "measure (\<lambda>(_, _, data, _). length data)") auto

declare read_handshake_exact.simps [simp del] write_handshake_all.simps [simp del]

text \<open>
  The Noise state machine of a handshake: what it does with the \<open>k\<close>-th message it
  reads, what it writes as its \<open>k\<close>-th message, the static key the peer has shown,
  and the change to transport mode.
\<close>

record Noise =
  nz_build :: "string option"
  nz_read :: "nat \<Rightarrow> bytes \<Rightarrow> string option"
  nz_write :: "nat \<Rightarrow> string + bytes"
  nz_remote_static :: "bytes list \<Rightarrow> bytes option"
  nz_transport :: "string option"

definition then_do :: "(TransportError + 'a) \<times> peer \<Rightarrow> ('a \<Rightarrow> peer \<Rightarrow> (TransportError + 'b) \<times> peer) \<Rightarrow> (TransportError + 'b) \<times> peer" where
  "then_do r f = (case r of (Inl e, p) \<Rightarrow> (Inl e, p) | (Inr x, p) \<Rightarrow> f x p)"

definition noise_step :: "string option \<Rightarrow> peer \<Rightarrow> (TransportError + unit) \<times> peer" where
  "noise_step failed p = ((case failed of Some e \<Rightarrow> Inl (TE_Noise e) | None \<Rightarrow> Inr ()), p)"

definition be_len16 :: "bytes \<Rightarrow> TransportError + u16" where
  "be_len16 len_buf = (case len_buf of
     a # b # _ \<Rightarrow> Inr (push_bit 8 (ucast a) OR ucast b)
   | _ \<Rightarrow> Inl (TE_InvalidFragment ''internal buffer size invariant violated (length prefix)''))"

definition len16 :: "nat \<Rightarrow> bytes" where
  "len16 n = (let w = of_nat n :: u16 in [ucast (drop_bit 8 w), ucast w])"

text \<open>A handshake message with its two-byte length: read it and give it to the state machine, or write it.\<close>

definition read_handshake_message ::
  "Socket \<Rightarrow> Noise \<Rightarrow> nat \<Rightarrow> nat \<Rightarrow> peer \<Rightarrow> (TransportError + bytes) \<times> peer" where
  "read_handshake_message sk nz deadline k p =
     then_do (read_handshake_exact sk deadline 2 [] p) (\<lambda>len_buf p.
       then_do (be_len16 len_buf, p) (\<lambda>len p.
         then_do (read_handshake_exact sk deadline (unat len) [] p) (\<lambda>rbuf p.
           then_do (noise_step (nz_read nz k rbuf) p) (\<lambda>_ p. (Inr rbuf, p)))))"

definition write_handshake_message ::
  "Socket \<Rightarrow> Noise \<Rightarrow> nat \<Rightarrow> nat \<Rightarrow> peer \<Rightarrow> (TransportError + unit) \<times> peer" where
  "write_handshake_message sk nz deadline k p = (case nz_write nz k of
     Inl e \<Rightarrow> (Inl (TE_Noise e), p)
   | Inr body \<Rightarrow> write_handshake_all sk deadline (len16 (length body) @ body) p)"

definition check_remote_static ::
  "Noise \<Rightarrow> (bytes \<Rightarrow> bool) \<Rightarrow> bytes list \<Rightarrow> peer \<Rightarrow> (TransportError + unit) \<times> peer" where
  "check_remote_static nz check_client received p = (case nz_remote_static nz received of
     Some client_pk \<Rightarrow> ((if \<not> check_client client_pk then Inl TE_AuthFailed else Inr ()), p)
   | None \<Rightarrow> (Inl TE_AuthFailed, p))"

definition clear_timeouts :: "Socket \<Rightarrow> peer \<Rightarrow> (TransportError + unit) \<times> peer" where
  "clear_timeouts sk p = ((case sk_arm sk (pe_ops p) of Some e \<Rightarrow> Inl (TE_Io e) | None \<Rightarrow> Inr ()), p)"

definition handshake_responder ::
  "Socket \<Rightarrow> Noise \<Rightarrow> (bytes \<Rightarrow> bool) \<Rightarrow> nat \<Rightarrow> peer \<Rightarrow> (TransportError + bytes list) \<times> peer" where
  "handshake_responder sk nz check_client timeout p =
     (let deadline = pe_now p + timeout in
      then_do (noise_step (nz_build nz) p) (\<lambda>_ p.
      then_do (read_handshake_message sk nz deadline 0 p) (\<lambda>rbuf p.
      then_do (check_remote_static nz check_client [rbuf] p) (\<lambda>_ p.
      then_do (write_handshake_message sk nz deadline 0 p) (\<lambda>_ p.
      then_do (clear_timeouts sk p) (\<lambda>_ p.
      then_do (noise_step (nz_transport nz) p) (\<lambda>_ p. (Inr [rbuf], p))))))))"

definition handshake_responder_xx ::
  "Socket \<Rightarrow> Noise \<Rightarrow> (bytes \<Rightarrow> bool) \<Rightarrow> nat \<Rightarrow> peer \<Rightarrow> (TransportError + bytes list) \<times> peer" where
  "handshake_responder_xx sk nz check_client timeout p =
     (let deadline = pe_now p + timeout in
      then_do (noise_step (nz_build nz) p) (\<lambda>_ p.
      then_do (read_handshake_message sk nz deadline 0 p) (\<lambda>rbuf p.
      then_do (write_handshake_message sk nz deadline 0 p) (\<lambda>_ p.
      then_do (read_handshake_message sk nz deadline 1 p) (\<lambda>rbuf' p.
      then_do (check_remote_static nz check_client [rbuf, rbuf'] p) (\<lambda>_ p.
      then_do (clear_timeouts sk p) (\<lambda>_ p.
      then_do (noise_step (nz_transport nz) p) (\<lambda>_ p. (Inr [rbuf, rbuf'], p)))))))))"

definition read_handshake_preamble :: "Socket \<Rightarrow> nat \<Rightarrow> peer \<Rightarrow> (TransportError + u8) \<times> peer" where
  "read_handshake_preamble sk timeout p =
     (let deadline = pe_now p + timeout in
      then_do (read_handshake_exact sk deadline 1 [] p) (\<lambda>byte p.
        ((case byte of b # _ \<Rightarrow> Inr b | [] \<Rightarrow> Inl (TE_InvalidFragment ''internal buffer size invariant violated (preamble byte)'')), p)))"

text \<open>The client's side: it knows the server's key in advance, or learns it.\<close>

definition handshake_initiator :: "Socket \<Rightarrow> Noise \<Rightarrow> nat \<Rightarrow> peer \<Rightarrow> (TransportError + unit) \<times> peer" where
  "handshake_initiator sk nz timeout p =
     (let deadline = pe_now p + timeout in
      then_do (noise_step (nz_build nz) p) (\<lambda>_ p.
      then_do (write_handshake_message sk nz deadline 0 p) (\<lambda>_ p.
      then_do (read_handshake_message sk nz deadline 0 p) (\<lambda>_ p.
      then_do (clear_timeouts sk p) (\<lambda>_ p.
      noise_step (nz_transport nz) p)))))"

definition handshake_initiator_xx :: "Socket \<Rightarrow> Noise \<Rightarrow> nat \<Rightarrow> peer \<Rightarrow> (TransportError + bytes) \<times> peer" where
  "handshake_initiator_xx sk nz timeout p =
     (let deadline = pe_now p + timeout in
      then_do (noise_step (nz_build nz) p) (\<lambda>_ p.
      then_do (write_handshake_message sk nz deadline 0 p) (\<lambda>_ p.
      then_do (read_handshake_message sk nz deadline 0 p) (\<lambda>rbuf p.
      then_do (write_handshake_message sk nz deadline 1 p) (\<lambda>_ p.
      then_do (clear_timeouts sk p) (\<lambda>_ p.
      then_do ((case nz_remote_static nz [rbuf] of
           Some pk \<Rightarrow> Inr pk
         | None \<Rightarrow> Inl (TE_InvalidFragment ''XX handshake: server did not transmit its static key'')), p) (\<lambda>server_pk p.
      then_do (noise_step (nz_transport nz) p) (\<lambda>_ p. (Inr server_pk, p)))))))))"

section \<open>Fragments, put together again\<close>

text \<open>What the cipher promises: opening undoes sealing under the same nonce, and a seal costs a tag.\<close>

definition cipher_ok :: "cipher \<Rightarrow> cipher \<Rightarrow> bool" where
  "cipher_ok seal open_msg \<longleftrightarrow> (\<forall>n pt. length pt \<le> MAX_PLAINTEXT_CHUNK + FRAGMENT_HEADER_LEN \<longrightarrow>
     (\<exists>ct. seal n pt = Inr ct \<and> length ct = length pt + GCM_TAG_LEN \<and> open_msg n ct = Inr pt))"

definition tag_checked :: "cipher \<Rightarrow> bool" where
  "tag_checked open_msg \<longleftrightarrow> (\<forall>n ct pt. open_msg n ct = Inr pt \<longrightarrow> length pt + GCM_TAG_LEN = length ct)"

lemmas fragment_sizes = MAX_PLAINTEXT_CHUNK_def FRAGMENT_HEADER_LEN_def GCM_TAG_LEN_def FRAGMENT_CAP_def

lemma fragment_roundtrip:
  assumes ok: "cipher_ok seal open_msg" and size: "length chunk \<le> MAX_PLAINTEXT_CHUNK"
    and room: "length acc + length chunk \<le> MAX_FRAME_SIZE" and flag: "flag \<in> {0, FRAGMENT_CONTINUATION}"
    and nonces: "ns_recv_nonce rs = ns_send_nonce self"
  shows "\<exists>wire. seal_and_write seal vec_write_all (flag # chunk) (tcp, self) =
        (Inr (tcp @ wire), self\<lparr>ns_send_nonce := Suc (ns_send_nonce self)\<rparr>) \<and>
      (\<forall>rest. recv_fragment open_msg slice_read_exact acc (wire @ rest, rs) =
        Inr (flag = FRAGMENT_CONTINUATION, acc @ chunk, rest, rs\<lparr>ns_recv_nonce := Suc (ns_recv_nonce rs)\<rparr>))"
proof -
  have "length (flag # chunk) \<le> MAX_PLAINTEXT_CHUNK + FRAGMENT_HEADER_LEN"
    using size by (simp add: fragment_sizes)
  then obtain ct where ct: "seal (ns_send_nonce self) (flag # chunk) = Inr ct"
      "length ct = length chunk + 17" "open_msg (ns_send_nonce self) ct = Inr (flag # chunk)"
    using ok unfolding cipher_ok_def by (fastforce simp: GCM_TAG_LEN_def)
  have len: "length ct \<le> 65535" using ct(2) size by (simp add: fragment_sizes)
  then have n: "unat (of_nat (length ct) :: u32) = length ct" by (simp add: unat_of_nat)
  have "(and flag FRAGMENT_CONTINUATION \<noteq> 0) = (flag = FRAGMENT_CONTINUATION)"
    using flag by (auto simp: FRAGMENT_CONTINUATION_def)
  then show ?thesis
    using ct n len room nonces
    by (intro exI [of _ "to_be_bytes (of_nat (length ct)) @ ct"])
       (simp add: seal_and_write_def vec_write_all_def recv_fragment_def slice_read_exact_def
          fragment_sizes ct(2))
qed


lemma chunks_step: "xs \<noteq> [] \<Longrightarrow> 0 < n \<Longrightarrow> chunks n xs = take n xs # chunks n (drop n xs)"
  by (simp add: chunks.simps [of n xs])

lemma chunks_Nil [simp]: "chunks n [] = []"
  by (simp add: chunks.simps)

lemma recv_loop_step:
  "recv_fragment open_msg rd acc s = Inr (True, acc', tcp, self) \<Longrightarrow>
     recv_loop open_msg rd acc s = recv_loop open_msg rd acc' (tcp, self)"
  "recv_fragment open_msg rd acc s = Inr (False, acc', tcp, self) \<Longrightarrow>
     recv_loop open_msg rd acc s = Some (Inr (acc', tcp, self))"
  "recv_fragment open_msg rd acc s = Inl e \<Longrightarrow> recv_loop open_msg rd acc s = Some (Inl e)"
  by (simp_all add: recv_loop.simps)

text \<open>The fragments of a message from any point on: what they put on the wire is read back.\<close>

lemma chunks_roundtrip:
  assumes ok: "cipher_ok seal open_msg"
  shows "rest_pt \<noteq> [] \<Longrightarrow> length acc + length rest_pt \<le> MAX_FRAME_SIZE \<Longrightarrow> ns_recv_nonce rs = ns_send_nonce self \<Longrightarrow>
    \<exists>wire k. send_chunks seal vec_write_all (length rest_pt) (chunks MAX_PLAINTEXT_CHUNK rest_pt) (tcp, self) =
        (Inr (tcp @ wire), self\<lparr>ns_send_nonce := ns_send_nonce self + k\<rparr>) \<and>
      (\<forall>rest. recv_loop open_msg slice_read_exact acc (wire @ rest, rs) =
        Some (Inr (acc @ rest_pt, rest, rs\<lparr>ns_recv_nonce := ns_send_nonce self + k\<rparr>)))"
proof (induction "length rest_pt" arbitrary: rest_pt acc rs self tcp rule: less_induct)
  case less
  let ?n = MAX_PLAINTEXT_CHUNK
  let ?chunk = "take ?n rest_pt" and ?left = "drop ?n rest_pt"
  let ?flag = "if length rest_pt > length ?chunk then FRAGMENT_CONTINUATION else 0"
  have n: "0 < ?n" by (simp add: fragment_sizes)
  have len: "length ?chunk \<le> ?n" "length acc + length ?chunk \<le> MAX_FRAME_SIZE"
    using less.prems by auto
  have flag: "?flag \<in> {0, FRAGMENT_CONTINUATION}" by simp
  have nz: "(?flag = FRAGMENT_CONTINUATION) = (?left \<noteq> [])"
    using n by (auto simp: FRAGMENT_CONTINUATION_def)
  obtain wire where w: "seal_and_write seal vec_write_all (?flag # ?chunk) (tcp, self) =
        (Inr (tcp @ wire), self\<lparr>ns_send_nonce := Suc (ns_send_nonce self)\<rparr>)"
    and r: "\<And>rest. recv_fragment open_msg slice_read_exact acc (wire @ rest, rs) =
        Inr (?left \<noteq> [], acc @ ?chunk, rest, rs\<lparr>ns_recv_nonce := Suc (ns_recv_nonce rs)\<rparr>)"
    using fragment_roundtrip [OF ok len flag less.prems(3), of tcp] unfolding nz by blast
  show ?case
  proof (cases "?left = []")
    case True
    have "send_chunks seal vec_write_all (length rest_pt) (chunks ?n rest_pt) (tcp, self) =
        (Inr (tcp @ wire), self\<lparr>ns_send_nonce := ns_send_nonce self + 1\<rparr>)"
      using w True by (simp add: chunks_step [OF less.prems(1) n] Let_def)
    moreover have "recv_loop open_msg slice_read_exact acc (wire @ rest, rs) =
        Some (Inr (acc @ rest_pt, rest, rs\<lparr>ns_recv_nonce := ns_send_nonce self + 1\<rparr>))" for rest
      using r [of rest] True less.prems(3) by (simp add: recv_loop_step(2))
    ultimately show ?thesis by blast
  next
    case False
    let ?self = "self\<lparr>ns_send_nonce := Suc (ns_send_nonce self)\<rparr>"
    let ?rs = "rs\<lparr>ns_recv_nonce := Suc (ns_recv_nonce rs)\<rparr>"
    obtain wire' k where w': "send_chunks seal vec_write_all (length ?left) (chunks ?n ?left) (tcp @ wire, ?self) =
        (Inr ((tcp @ wire) @ wire'), ?self\<lparr>ns_send_nonce := ns_send_nonce ?self + k\<rparr>)"
      and r': "\<And>rest. recv_loop open_msg slice_read_exact (acc @ ?chunk) (wire' @ rest, ?rs) =
        Some (Inr ((acc @ ?chunk) @ ?left, rest, ?rs\<lparr>ns_recv_nonce := ns_send_nonce ?self + k\<rparr>))"
      using less.hyps [of ?left "acc @ ?chunk" ?rs ?self "tcp @ wire"] False n less.prems by auto
    have "send_chunks seal vec_write_all (length rest_pt) (chunks ?n rest_pt) (tcp, self) =
        (Inr (tcp @ (wire @ wire')), self\<lparr>ns_send_nonce := ns_send_nonce self + Suc k\<rparr>)"
      using w w' False by (simp add: chunks_step [OF less.prems(1) n] Let_def min_def)
    moreover have "recv_loop open_msg slice_read_exact acc ((wire @ wire') @ rest, rs) =
        Some (Inr (acc @ rest_pt, rest, rs\<lparr>ns_recv_nonce := ns_send_nonce self + Suc k\<rparr>))" for rest
      using r [of "wire' @ rest"] r' [of rest] False by (simp add: recv_loop_step(1))
    ultimately show ?thesis by blast
  qed
qed


lemma message_roundtrip:
  assumes ok: "cipher_ok seal open_msg" and size: "length p \<le> MAX_FRAME_SIZE"
    and idle: "\<not> ns_sender_active self" and nonces: "ns_recv_nonce rs = ns_send_nonce self"
  shows "\<exists>wire k. send_message seal vec_write_all p (tcp, self) =
        (Inr (tcp @ wire), self\<lparr>ns_send_nonce := ns_send_nonce self + k\<rparr>) \<and>
      (\<forall>rest. recv_message open_msg slice_read_exact (wire @ rest, rs) =
        Some (Inr (p, rest, rs\<lparr>ns_recv_nonce := ns_send_nonce self + k\<rparr>)))"
proof -
  let ?self = "self\<lparr>ns_sender_active := True\<rparr>"
  have restored: "self\<lparr>ns_sender_active := True, ns_send_nonce := n, ns_sender_active := False\<rparr> = self\<lparr>ns_send_nonce := n\<rparr>" for n
    using idle by simp
  have "\<exists>wire k. send_message_inner seal vec_write_all p (tcp, ?self) =
        (Inr (tcp @ wire), ?self\<lparr>ns_send_nonce := ns_send_nonce self + k\<rparr>) \<and>
      (\<forall>rest. recv_loop open_msg slice_read_exact [] (wire @ rest, rs) =
        Some (Inr (p, rest, rs\<lparr>ns_recv_nonce := ns_send_nonce self + k\<rparr>)))"
  proof (cases "p = []")
    case True
    obtain wire where w: "seal_and_write seal vec_write_all [0] (tcp, ?self) =
          (Inr (tcp @ wire), ?self\<lparr>ns_send_nonce := Suc (ns_send_nonce self)\<rparr>)"
      and r: "\<And>rest. recv_fragment open_msg slice_read_exact [] (wire @ rest, rs) =
          Inr (False, [], rest, rs\<lparr>ns_recv_nonce := Suc (ns_recv_nonce rs)\<rparr>)"
      using fragment_roundtrip [OF ok, of "[]" "[]" 0 rs ?self tcp] nonces by (auto simp: FRAGMENT_CONTINUATION_def)
    show ?thesis
      using w recv_loop_step(2) [OF r] nonces True by (intro exI [of _ wire] exI [of _ 1]) (simp add: send_message_inner_def)
  next
    case False
    then show ?thesis
      using chunks_roundtrip [OF ok False, of "[]" rs ?self tcp] size nonces by (simp add: send_message_inner_def)
  qed
  then obtain wire k where "send_message_inner seal vec_write_all p (tcp, ?self) =
        (Inr (tcp @ wire), ?self\<lparr>ns_send_nonce := ns_send_nonce self + k\<rparr>)"
      and "\<forall>rest. recv_loop open_msg slice_read_exact [] (wire @ rest, rs) =
        Some (Inr (p, rest, rs\<lparr>ns_recv_nonce := ns_send_nonce self + k\<rparr>))"
    by blast
  then show ?thesis
    using idle by (intro exI [of _ wire] exI [of _ k]) (simp add: send_message_def recv_message_def restored)
qed

section \<open>Bounded and total reception\<close>

definition exact_reader :: "'r read_exact \<Rightarrow> bool" where
  "exact_reader rd \<longleftrightarrow> (\<forall>r n bs r'. rd r n = Inr (bs, r') \<longrightarrow> length bs = n)"

lemma fragment_bounded:
  assumes "tag_checked open_msg" "exact_reader rd" "recv_fragment open_msg rd acc s = Inr (c, acc', s')"
  shows "length acc' \<le> MAX_FRAME_SIZE"
proof -
  have exact: "rd r n = Inr (bs, r') \<Longrightarrow> length bs = n" for r n bs r'
    using assms(2) unfolding exact_reader_def by blast
  have tag: "open_msg n ct = Inr pt \<Longrightarrow> length ct = length pt + 16" for n ct pt
    using assms(1) unfolding tag_checked_def GCM_TAG_LEN_def by metis
  show ?thesis
    using assms(3)
    by (auto simp: recv_fragment_def fragment_sizes Let_def dest!: exact tag split: prod.splits sum.splits if_splits)
qed

lemma fragment_same_reads:
  assumes "\<And>r n. n \<le> 65535 \<Longrightarrow> rd' r n = rd r n"
  shows "recv_fragment open_msg rd' acc s = recv_fragment open_msg rd acc s"
  by (auto simp: recv_fragment_def assms fragment_sizes Let_def split: prod.split sum.split)

lemma recv_loop_result:
  assumes "tag_checked open_msg" "exact_reader rd" "\<And>r n. n \<le> 65535 \<Longrightarrow> rd' r n = rd r n"
    and "recv_loop open_msg rd acc s = Some y"
  shows "recv_loop open_msg rd' acc s = Some y \<and> (\<forall>p s'. y = Inr (p, s') \<longrightarrow> length p \<le> MAX_FRAME_SIZE)"
proof -
  let ?Q = "\<lambda>acc s y. recv_loop open_msg rd' acc s = Some y \<and> (\<forall>p s'. y = Inr (p, s') \<longrightarrow> length p \<le> MAX_FRAME_SIZE)"
  have "open_msg = open_msg \<longrightarrow> rd = rd \<longrightarrow> ?Q acc s y"
  proof (rule recv_loop.raw_induct [OF _ assms(4), where P = "\<lambda>om r acc s y. om = open_msg \<longrightarrow> r = rd \<longrightarrow> ?Q acc s y"], goal_cases)
  case (1 f om r acc s y)
  show ?case
  proof (intro impI)
    assume eq: "om = open_msg" "r = rd"
    show "recv_loop open_msg rd' acc s = Some y \<and> (\<forall>p s'. y = Inr (p, s') \<longrightarrow> length p \<le> MAX_FRAME_SIZE)"
    proof (cases "recv_fragment open_msg rd acc s")
      case (Inl e)
      then have "y = Inl e" using 1(2) by (simp add: eq)
      then show ?thesis
        using recv_loop_step(3) [of open_msg rd' acc s e] Inl fragment_same_reads [OF assms(3)] by simp
    next
      case (Inr x)
      obtain c acc' tcp self where x: "x = (c, acc', tcp, self)" by (cases x)
      have same: "recv_fragment open_msg rd' acc s = Inr (c, acc', tcp, self)"
        using fragment_same_reads [OF assms(3)] Inr x by simp
      show ?thesis
      proof (cases c)
        case True
        then have "f om r acc' (tcp, self) = Some y" using 1(2) Inr by (simp add: eq x)
        then show ?thesis using 1(1) recv_loop_step(1) [of open_msg rd' acc s acc' tcp self] same True eq by simp
      next
        case False
        then have "y = Inr (acc', tcp, self)" using 1(2) Inr by (simp add: eq x)
        then show ?thesis
          using recv_loop_step(2) [of open_msg rd' acc s acc' tcp self] same False
            fragment_bounded [OF assms(1,2), of acc s c acc' "(tcp, self)"] Inr x by simp
      qed
    qed
  qed
  qed
  then show ?thesis by simp
qed

lemma fragment_consumes:
  "recv_fragment open_msg slice_read_exact acc (bs, rs) = Inr (c, acc', bs', rs') \<Longrightarrow> length bs' < length bs"
  by (auto simp: recv_fragment_def slice_read_exact_def Let_def split: sum.splits if_splits; linarith)

lemma recv_loop_returns: "\<exists>y. recv_loop open_msg slice_read_exact acc (bs, rs) = Some y"
proof (induction "length bs" arbitrary: acc bs rs rule: less_induct)
  case less
  show ?case
  proof (cases "recv_fragment open_msg slice_read_exact acc (bs, rs)")
    case (Inl e)
    then show ?thesis by (simp add: recv_loop_step(3))
  next
    case (Inr x)
    obtain c acc' bs' rs' where x: "x = (c, acc', bs', rs')" by (cases x)
    show ?thesis
      using less [OF fragment_consumes [OF Inr [unfolded x]], of acc' rs'] Inr x
      by (cases c) (auto simp: recv_loop_step(1,2))
  qed
qed


section \<open>The handshake, timed and guarded\<close>

text \<open>What the operating system promises of a blocking socket: an operation ends within the armed timeout.\<close>

definition timeouts_kept :: "Socket \<Rightarrow> bool" where
  "timeouts_kept sk \<longleftrightarrow> (\<forall>n timeout k. snd (sk_read sk n timeout k) \<le> timeout) \<and>
     (\<forall>n timeout data. snd (sk_write sk n timeout data) \<le> timeout)"

definition in_time :: "nat \<Rightarrow> ('a \<times> peer) \<Rightarrow> bool" where
  "in_time limit r \<longleftrightarrow> pe_now (snd r) \<le> limit"

lemma used_in_time:
  assumes "timeouts_kept sk" "pe_now p \<le> limit" "deadline \<le> limit"
  shows "pe_now (pe_used (snd (sk_read sk n (deadline - pe_now p) k)) p) \<le> limit"
    "pe_now (pe_used (snd (sk_write sk n (deadline - pe_now p) data)) p) \<le> limit"
proof -
  have "snd (sk_read sk n (deadline - pe_now p) k) \<le> deadline - pe_now p"
    "snd (sk_write sk n (deadline - pe_now p) data) \<le> deadline - pe_now p"
    using assms(1) unfolding timeouts_kept_def by blast+
  then show "pe_now (pe_used (snd (sk_read sk n (deadline - pe_now p) k)) p) \<le> limit"
    "pe_now (pe_used (snd (sk_write sk n (deadline - pe_now p) data)) p) \<le> limit"
    using assms(2,3) by (simp_all add: pe_used_def)
qed

lemma read_in_time:
  "timeouts_kept sk \<Longrightarrow> pe_now p \<le> limit \<Longrightarrow> deadline \<le> limit \<Longrightarrow>
   in_time limit (read_handshake_exact sk deadline len buf p)"
proof (induction sk deadline len buf p rule: read_handshake_exact.induct)
  case (1 sk deadline len buf p)
  let ?want = "min (len - length buf) 1024"
  obtain r t where r: "sk_read sk (pe_ops p) (deadline - pe_now p) ?want = (r, t)" by fastforce
  have now: "pe_now (pe_used t p) \<le> limit"
    using used_in_time(1) [OF "1.prems", of "pe_ops p" ?want] by (simp add: r)
  show ?case
  proof (cases r)
    case (Inl e)
    then show ?thesis using "1.prems" now by (subst read_handshake_exact.simps) (auto simp: in_time_def Let_def r split: option.split)
  next
    case (Inr got)
    show ?thesis
      using "1.prems" now "1.IH" [OF _ refl _ _ refl r [symmetric] Inr refl]
      by (subst read_handshake_exact.simps) (auto simp: in_time_def Let_def r Inr split: option.split)
  qed
qed

lemma write_in_time:
  "timeouts_kept sk \<Longrightarrow> pe_now p \<le> limit \<Longrightarrow> deadline \<le> limit \<Longrightarrow>
   in_time limit (write_handshake_all sk deadline data p)"
proof (induction sk deadline data p rule: write_handshake_all.induct)
  case (1 sk deadline data p)
  obtain r t where r: "sk_write sk (pe_ops p) (deadline - pe_now p) data = (r, t)" by fastforce
  have now: "pe_now (pe_used t p) \<le> limit"
    using used_in_time(2) [OF "1.prems", of "pe_ops p" data] by (simp add: r)
  show ?case
  proof (cases r)
    case (Inl e)
    then show ?thesis using "1.prems" now by (subst write_handshake_all.simps) (auto simp: in_time_def Let_def r split: option.split)
  next
    case (Inr n)
    show ?thesis
      using "1.prems" now "1.IH" [OF _ refl _ _ r [symmetric] Inr]
      by (subst write_handshake_all.simps) (auto simp: in_time_def Let_def r Inr split: option.split)
  qed
qed

lemma then_in_time:
  "in_time limit r \<Longrightarrow> (\<And>x p. r = (Inr x, p) \<Longrightarrow> pe_now p \<le> limit \<Longrightarrow> in_time limit (f x p)) \<Longrightarrow> in_time limit (then_do r f)"
  by (auto simp: then_do_def in_time_def split: prod.split sum.split)

lemma steps_in_time:
  assumes "timeouts_kept sk" "pe_now p \<le> limit" "deadline \<le> limit"
  shows "in_time limit (read_handshake_message sk nz deadline k p)"
    "in_time limit (write_handshake_message sk nz deadline k p)"
  using assms
  by (auto simp: read_handshake_message_def write_handshake_message_def
      noise_step_def in_time_def [of _ "(_, _)"] intro!: then_in_time read_in_time write_in_time split: option.split sum.split)

lemma instant_steps:
  assumes "pe_now p \<le> limit"
  shows "in_time limit (check_remote_static nz check received p)"
    "in_time limit (clear_timeouts sk p)" "in_time limit (noise_step f p)" "in_time limit (r, p)"
  using assms by (auto simp: check_remote_static_def clear_timeouts_def noise_step_def in_time_def split: option.split)

section \<open>Properties\<close>

text \<open>
  C27. A message sent over the encrypted transport is received as it was sent, however
  many fragments it takes, and what follows it on the wire is left for the next
  message, with both sides' nonces again in step. Holds for every codec and every
  cipher that keep their promises.
\<close>

theorem sealed_message_roundtrip:
  assumes "codec enc dec" and "cipher_ok seal open_msg" and "encode_payload enc m = Inr payload"
    and "\<not> ns_sender_active self" and "ns_recv_nonce rs = ns_send_nonce self"
  shows "\<exists>wire k. send_typed_message enc seal vec_write_all m (tcp, self) =
        (Inr (tcp @ wire), self\<lparr>ns_send_nonce := ns_send_nonce self + k\<rparr>) \<and>
      (\<forall>rest. recv_typed_message dec open_msg slice_read_exact (wire @ rest, rs) =
        Some (Inr (m, rest, rs\<lparr>ns_recv_nonce := ns_send_nonce self + k\<rparr>)))"
proof -
  have p: "encode_inner enc m = Inr payload" using assms(3) by (simp add: encode_payload_def)
  have "length payload \<le> MAX_FRAME_SIZE" using codec.encode_innerD [OF assms(1) p] by simp
  from message_roundtrip [OF assms(2) this assms(4,5), of tcp] show ?thesis
    using codec.decode_encode [OF assms(1) p] assms(3)
    by (auto simp: send_typed_message_def recv_typed_message_def)
qed

definition plain_seal :: cipher where
  "plain_seal n pt = Inr (pt @ replicate 16 0)"

definition plain_open :: cipher where
  "plain_open n ct = (if 16 \<le> length ct then Inr (take (length ct - 16) ct) else Inl ''truncated'')"

lemma plain_cipher_ok: "cipher_ok plain_seal plain_open" "tag_checked plain_open"
  by (auto simp: cipher_ok_def tag_checked_def plain_seal_def plain_open_def GCM_TAG_LEN_def)

theorem sealed_message_roundtrip_witness:
  "\<exists>wire k. send_typed_message bin8_enc plain_seal vec_write_all [1, 2] ([], NoiseStream_new) =
        (Inr wire, NoiseStream_new\<lparr>ns_send_nonce := k\<rparr>) \<and>
      recv_typed_message bin8_dec plain_open slice_read_exact (wire @ [7], NoiseStream_new) =
        Some (Inr ([1, 2], [7], NoiseStream_new\<lparr>ns_recv_nonce := k\<rparr>))"
proof -
  have "\<exists>payload. encode_payload bin8_enc [1, 2] = Inr payload"
    by (simp add: encode_payload_def encode_inner_def bin8_enc_def PROTOCOL_VERSION_def MAX_FRAME_SIZE_def)
  then obtain payload where "encode_payload bin8_enc [1, 2] = Inr payload" ..
  from sealed_message_roundtrip [OF bin8.codec_axioms plain_cipher_ok(1) this, of NoiseStream_new NoiseStream_new "[]"]
  show ?thesis by (fastforce simp: NoiseStream_new_def)
qed



text \<open>
  C29. A peer cannot hold a handshake open. However it paces its bytes, each handshake,
  on either side, and the reading of the preamble before it are over when their
  budget is, provided the operating system keeps the timeouts armed before each
  operation: an unauthenticated connection lasts at most twice ten seconds.
\<close>

theorem handshake_cut_off:
  assumes "timeouts_kept sk"
  shows "pe_now (snd (handshake_responder sk nz check timeout p)) \<le> pe_now p + timeout \<and>
     pe_now (snd (handshake_responder_xx sk nz check timeout p)) \<le> pe_now p + timeout \<and>
     pe_now (snd (handshake_initiator sk nz timeout p)) \<le> pe_now p + timeout \<and>
     pe_now (snd (handshake_initiator_xx sk nz timeout p)) \<le> pe_now p + timeout \<and>
     pe_now (snd (read_handshake_preamble sk timeout p)) \<le> pe_now p + timeout"
proof -
  let ?limit = "pe_now p + timeout"
  note steps = then_in_time steps_in_time [OF assms] instant_steps
  have "in_time ?limit (handshake_responder sk nz check timeout p)"
    unfolding handshake_responder_def Let_def by (intro steps) simp_all
  moreover have "in_time ?limit (handshake_responder_xx sk nz check timeout p)"
    unfolding handshake_responder_xx_def Let_def by (intro steps) simp_all
  moreover have "in_time ?limit (handshake_initiator sk nz timeout p)"
    unfolding handshake_initiator_def Let_def by (intro steps) simp_all
  moreover have "in_time ?limit (handshake_initiator_xx sk nz timeout p)"
    unfolding handshake_initiator_xx_def Let_def by (intro steps) simp_all
  moreover have "in_time ?limit (read_handshake_preamble sk timeout p)"
    unfolding read_handshake_preamble_def Let_def
    by (intro then_in_time read_in_time [OF assms] instant_steps) simp_all
  ultimately show ?thesis by (simp add: in_time_def)
qed

definition slow_peer :: Socket where
  "slow_peer = \<lparr>sk_read = (\<lambda>_ timeout _. (Inr [1], min timeout 3)), sk_write = (\<lambda>_ timeout _. (Inr 1, min timeout 3)),
     sk_arm = (\<lambda>_. None)\<rparr>"

theorem handshake_cut_off_witness:
  "pe_now (snd (handshake_responder slow_peer \<lparr>nz_build = None, nz_read = (\<lambda>_ _. None), nz_write = (\<lambda>_. Inr [1]),
      nz_remote_static = (\<lambda>_. Some [1]), nz_transport = None\<rparr> (\<lambda>_. True) 10 \<lparr>pe_now = 5, pe_ops = 0\<rparr>)) \<le> 15"
proof -
  have "timeouts_kept slow_peer" by (simp add: timeouts_kept_def slow_peer_def)
  from handshake_cut_off [OF this, of "\<lparr>nz_build = None, nz_read = (\<lambda>_ _. None), nz_write = (\<lambda>_. Inr [1]),
      nz_remote_static = (\<lambda>_. Some [1]), nz_transport = None\<rparr>" "\<lambda>_. True" 10 "\<lparr>pe_now = 5, pe_ops = 0\<rparr>"]
  show ?thesis by simp
qed

end
