(* ===== verification/Access_List.thy ===== *)
theory Access_List
  imports Client_Connection Transport Rust_Str
begin

text \<open>
  Who may connect from outside: the list of client keys
  (\<open>src/choreo-daemon/src/server/acl.rs\<close>), its file and its changes by the daemon
  (\<open>daemon.rs\<close>), and the thread that serves a remote client after its handshake
  (\<open>server/connection.rs\<close>).

  The parser of TOML documents and the base64 codec are parameters: a parser maps
  the text of the file to the public keys it lists, as text. A file is its text,
  \<open>None\<close> if there is none; reading it may fail.
\<close>

section \<open>The list (server/acl.rs)\<close>

type_synonym toml = "string \<Rightarrow> string + string list"
type_synonym base64_decode = "string \<Rightarrow> string + bytes"
type_synonym base64_encode = "bytes \<Rightarrow> string"

record Acl =
  acl_keys :: "bytes list"

definition acl_parse :: "toml \<Rightarrow> base64_decode \<Rightarrow> string \<Rightarrow> string + Acl" where
  "acl_parse toml decode toml_str = (case toml toml_str of
     Inl e \<Rightarrow> Inl e
   | Inr entries \<Rightarrow> Inr \<lparr>acl_keys = List.map_filter (\<lambda>pubkey. case decode pubkey of
       Inr b \<Rightarrow> if length b = 32 then Some b else None
     | Inl _ \<Rightarrow> None) entries\<rparr>)"

definition acl_load :: "toml \<Rightarrow> base64_decode \<Rightarrow> io_error + string \<Rightarrow> Acl" where
  "acl_load toml decode file = (case file of
     Inr toml_str \<Rightarrow> (case acl_parse toml decode toml_str of Inr acl \<Rightarrow> acl | Inl e \<Rightarrow> \<lparr>acl_keys = []\<rparr>)
   | Inl e \<Rightarrow> \<lparr>acl_keys = []\<rparr>)"

definition acl_contains :: "Acl \<Rightarrow> bytes \<Rightarrow> bool" where
  "acl_contains self pubkey \<longleftrightarrow> pubkey \<in> set (acl_keys self)"

definition acl_reload :: "toml \<Rightarrow> base64_decode \<Rightarrow> io_error + string \<Rightarrow> Acl \<Rightarrow> Acl" where
  "acl_reload toml decode file previous = (case file of
     Inr text \<Rightarrow> (case acl_parse toml decode text of
       Inr fresh \<Rightarrow> if previous = fresh then previous else fresh
     | Inl e \<Rightarrow> previous)
   | Inl e \<Rightarrow> previous)"

text \<open>
  Appending an entry: any step may fail, with a message; a failed write may have
  written a part of the entry.
\<close>

datatype append_step = AS_CreateDir | AS_Open | AS_Lock | AS_Write nat | AS_Flush | AS_Unlock

definition acl_entry :: "base64_encode \<Rightarrow> bytes \<Rightarrow> string" where
  "acl_entry encode key = ''[[client]]'' @ [CHR 0x0A] @ ''pubkey = '' @ [CHR 0x22] @ encode key @ [CHR 0x22, CHR 0x0A]"

definition append_key_locked ::
  "(append_step \<times> string) option \<Rightarrow> base64_encode \<Rightarrow> bytes \<Rightarrow> string option \<Rightarrow> (string + unit) \<times> string option" where
  "append_key_locked fault encode key file =
     (let text = (case file of Some t \<Rightarrow> t | None \<Rightarrow> []) in
      case fault of
        Some (AS_CreateDir, e) \<Rightarrow> (Inl (''cannot create the ACL directory: '' @ e), file)
      | Some (AS_Open, e) \<Rightarrow> (Inl (''cannot open the ACL file: '' @ e), file)
      | Some (AS_Lock, e) \<Rightarrow> (Inl (''cannot lock the ACL file: '' @ e), Some text)
      | Some (AS_Write n, e) \<Rightarrow> (Inl (''cannot write the ACL entry: '' @ e), Some (text @ take n (acl_entry encode key)))
      | Some (AS_Flush, e) \<Rightarrow> (Inl (''cannot flush the ACL file: '' @ e), Some (text @ acl_entry encode key))
      | Some (AS_Unlock, e) \<Rightarrow> (Inl (''cannot unlock the ACL file: '' @ e), Some (text @ acl_entry encode key))
      | None \<Rightarrow> (Inr (), Some (text @ acl_entry encode key)))"

section \<open>Changes by the daemon (daemon.rs)\<close>

record AclEnv =
  al_toml :: toml
  al_decode :: base64_decode
  al_encode :: base64_encode
  al_fault :: "(append_step \<times> string) option"
  al_read_fault :: "io_error option"

definition read_acl_file :: "io_error option \<Rightarrow> string option \<Rightarrow> io_error + string" where
  "read_acl_file fault file = (case fault of
     Some e \<Rightarrow> Inl e
   | None \<Rightarrow> (case file of Some text \<Rightarrow> Inr text | None \<Rightarrow> Inl (IoError IO_NotFound ''No such file or directory'')))"

definition enrol_key :: "AclEnv \<Rightarrow> string \<Rightarrow> Acl option \<Rightarrow> string option \<Rightarrow> (string + usize) \<times> Acl option \<times> string option" where
  "enrol_key env pubkey acl_opt file = (case acl_opt of
     None \<Rightarrow> (Inl ''no ACL is loaded (unit-test state)'', acl_opt, file)
   | Some acl \<Rightarrow> (case al_decode env (trim pubkey) of
       Inl e \<Rightarrow> (Inl (''invalid pubkey: not valid base64: '' @ e), acl_opt, file)
     | Inr key \<Rightarrow>
         if length key \<noteq> 32 then (Inl ''invalid pubkey: must decode to exactly 32 bytes'', acl_opt, file)
         else if acl_contains acl key then (Inr (of_nat (length (acl_keys acl))), acl_opt, file)
         else (case append_key_locked (al_fault env) (al_encode env) key file of
           (Inl e, file) \<Rightarrow> (Inl e, acl_opt, file)
         | (Inr _, file) \<Rightarrow>
             (let acl = acl_reload (al_toml env) (al_decode env) (read_acl_file (al_read_fault env) file) acl
              in (Inr (of_nat (length (acl_keys acl))), Some acl, file)))))"

definition handle_acl_add ::
  "AclEnv \<Rightarrow> string \<Rightarrow> Acl option \<Rightarrow> string option \<Rightarrow> Daemon \<Rightarrow> (string + usize) \<times> Acl option \<times> string option \<times> Daemon" where
  "handle_acl_add env pubkey acl file d =
     (case enrol_key env pubkey acl file of (result, acl, file) \<Rightarrow>
        (result, acl, file, case result of
           Inr clients \<Rightarrow> d\<lparr>dm_state := handle_broadcast_activity None
             (DaemonMessage_broadcast (DM_AclUpdated (ucast clients))) (dm_state d)\<rparr>
         | Inl _ \<Rightarrow> d))"

definition handle_acl_reload :: "AclEnv \<Rightarrow> Acl option \<Rightarrow> string option \<Rightarrow> Acl option" where
  "handle_acl_reload env acl file = (case acl of
     Some acl \<Rightarrow> Some (acl_reload (al_toml env) (al_decode env) (read_acl_file (al_read_fault env) file) acl)
   | None \<Rightarrow> None)"

section \<open>Remote connections (server/connection.rs)\<close>

definition tcp_client_thread ::
  "ConnEnv \<Rightarrow> io_error + unit \<Rightarrow> (TransportError + ClientMessage) list \<Rightarrow> SubscriberSink \<Rightarrow> ClientId \<Rightarrow> bool \<Rightarrow>
   conn_world \<Rightarrow> (io_error + unit) \<times> conn_world" where
  "tcp_client_thread env setup source writer client_id is_unix w = (case setup of
     Inl e \<Rightarrow> (Inl e, w)
   | Inr _ \<Rightarrow> (Inr (), run_connection env source (ClientConn_new writer client_id is_unix) w))"

definition tcp_handshake_and_client_thread ::
  "ConnEnv \<Rightarrow> Socket \<Rightarrow> Noise \<Rightarrow> Noise \<Rightarrow> Acl \<Rightarrow> peer \<Rightarrow> io_error + unit \<Rightarrow> (TransportError + ClientMessage) list \<Rightarrow>
   SubscriberSink \<Rightarrow> ClientId \<Rightarrow> bool \<Rightarrow> conn_world \<Rightarrow> (io_error + unit) \<times> conn_world" where
  "tcp_handshake_and_client_thread env sk ik xx acl p setup source writer client_id is_unix w =
     (let reject = (Inr (), daemon_send env (CC_ClientDisconnected client_id) w);
          serve = (\<lambda>handshake. case fst handshake of
              Inl e \<Rightarrow> reject
            | Inr _ \<Rightarrow> tcp_client_thread env setup source writer client_id is_unix w)
      in case read_handshake_preamble sk HANDSHAKE_TIMEOUT p of
           (Inl e, p) \<Rightarrow> reject
         | (Inr preamble, p) \<Rightarrow>
             if preamble = PREAMBLE_IK then serve (handshake_responder sk ik (acl_contains acl) HANDSHAKE_TIMEOUT p)
             else if preamble = PREAMBLE_XX then serve (handshake_responder_xx sk xx (acl_contains acl) HANDSHAKE_TIMEOUT p)
             else reject)"


section \<open>Properties\<close>

lemma then_do_Inr: "fst (then_do r f) = Inr y \<Longrightarrow> \<exists>x p. r = (Inr x, p) \<and> fst (f x p) = Inr y"
  by (auto simp: then_do_def split: prod.splits sum.splits)

lemma checked_static:
  "check_remote_static nz check received p = (Inr x, p') \<Longrightarrow> \<exists>pk. nz_remote_static nz received = Some pk \<and> check pk"
  by (auto simp: check_remote_static_def split: option.splits if_splits)

lemma responders_check:
  "fst (handshake_responder sk nz check timeout p) = Inr msgs \<Longrightarrow> \<exists>pk. nz_remote_static nz msgs = Some pk \<and> check pk"
  "fst (handshake_responder_xx sk nz check timeout p) = Inr msgs \<Longrightarrow> \<exists>pk. nz_remote_static nz msgs = Some pk \<and> check pk"
  by (auto simp: handshake_responder_def handshake_responder_xx_def Let_def dest!: then_do_Inr checked_static)

text \<open>
  C14. Only enrolled clients are served from outside. A remote connection that gets
  further than being deregistered has proved in its handshake, of whichever kind, a
  key that is on the list at that time; all others leave no trace in the daemon but
  the removal of their registration.
\<close>

theorem only_enrolled_clients_served:
  "case tcp_handshake_and_client_thread env sk ik xx acl p setup source writer client_id is_unix w of (res, w') \<Rightarrow>
     (res = Inr () \<and> w' = daemon_send env (CC_ClientDisconnected client_id) w) \<or>
     (\<exists>b p' msgs pk. read_handshake_preamble sk HANDSHAKE_TIMEOUT p = (Inr b, p') \<and>
        (b = PREAMBLE_IK \<and> fst (handshake_responder sk ik (acl_contains acl) HANDSHAKE_TIMEOUT p') = Inr msgs \<and>
           nz_remote_static ik msgs = Some pk \<or>
         b = PREAMBLE_XX \<and> fst (handshake_responder_xx sk xx (acl_contains acl) HANDSHAKE_TIMEOUT p') = Inr msgs \<and>
           nz_remote_static xx msgs = Some pk) \<and>
        pk \<in> set (acl_keys acl))"
proof -
  have ik: "\<exists>pk. nz_remote_static ik msgs = Some pk \<and> pk \<in> set (acl_keys acl)"
    if "fst (handshake_responder sk ik (acl_contains acl) HANDSHAKE_TIMEOUT p') = Inr msgs" for p' msgs
    using responders_check(1) [OF that] by (auto simp: acl_contains_def)
  have xx: "\<exists>pk. nz_remote_static xx msgs = Some pk \<and> pk \<in> set (acl_keys acl)"
    if "fst (handshake_responder_xx sk xx (acl_contains acl) HANDSHAKE_TIMEOUT p') = Inr msgs" for p' msgs
    using responders_check(2) [OF that] by (auto simp: acl_contains_def)
  obtain r p' where pre: "read_handshake_preamble sk HANDSHAKE_TIMEOUT p = (r, p')" by fastforce
  consider e where "r = Inl e" | "r = Inr PREAMBLE_IK" | "r = Inr PREAMBLE_XX"
    | b where "r = Inr b" "b \<noteq> PREAMBLE_IK" "b \<noteq> PREAMBLE_XX" by (cases r) auto
  then show ?thesis
  proof cases
    case 2
    then show ?thesis using pre ik [of p']
      by (cases "fst (handshake_responder sk ik (acl_contains acl) HANDSHAKE_TIMEOUT p')")
        (auto simp: tcp_handshake_and_client_thread_def Let_def split: prod.split)
  next
    case 3
    then show ?thesis using pre xx [of p']
      by (cases "fst (handshake_responder_xx sk xx (acl_contains acl) HANDSHAKE_TIMEOUT p')")
        (auto simp: tcp_handshake_and_client_thread_def PREAMBLE_IK_def PREAMBLE_XX_def Let_def split: prod.split)
  qed (use pre in \<open>simp_all add: tcp_handshake_and_client_thread_def Let_def\<close>)
qed

text \<open>A document that can be continued by an entry, as TOML documents can that end with a complete line.\<close>

definition continuable :: "toml \<Rightarrow> base64_encode \<Rightarrow> string \<Rightarrow> bool" where
  "continuable toml encode text \<longleftrightarrow> (\<forall>entries key. toml text = Inr entries \<longrightarrow>
     toml (text @ acl_entry encode key) = Inr (entries @ [encode key]))"

lemma parse_appended:
  assumes "continuable toml encode text" "\<And>b. decode (encode b) = Inr b" "length key = 32"
    and "acl_parse toml decode text = Inr acl"
  shows "acl_parse toml decode (text @ acl_entry encode key) = Inr \<lparr>acl_keys = acl_keys acl @ [key]\<rparr>"
proof -
  obtain entries where e: "toml text = Inr entries" using assms(4) by (auto simp: acl_parse_def split: sum.splits)
  then have "toml (text @ acl_entry encode key) = Inr (entries @ [encode key])"
    using assms(1) unfolding continuable_def by blast
  then show ?thesis using assms(2-4) e by (auto simp: acl_parse_def List.map_filter_def)
qed

text \<open>
  A key that is enrolled is trusted at once and for good. With the list in step
  with its file, and the file such that it can be continued, a successful enrolment
  adds exactly the decoded key to the list, reports the number of clients now
  trusted, leaves the file such that a restart loads the same list, and doing it
  again changes nothing.
\<close>

theorem enrolled_key_is_trusted:
  assumes laws: "continuable (al_toml env) (al_encode env) text" "\<And>b. al_decode env (al_encode env b) = Inr b"
    and sync: "acl_parse (al_toml env) (al_decode env) text = Inr acl"
    and readable: "al_read_fault env = None"
    and ok: "enrol_key env pubkey (Some acl) (Some text) = (Inr n, acl', file')"
  shows "\<exists>key acl2. al_decode env (trim pubkey) = Inr key \<and> acl' = Some acl2 \<and> acl_contains acl2 key \<and>
     set (acl_keys acl2) = insert key (set (acl_keys acl)) \<and> n = of_nat (length (acl_keys acl2)) \<and>
     acl_load (al_toml env) (al_decode env) (read_acl_file None file') = acl2 \<and>
     enrol_key env pubkey (Some acl2) file' = (Inr n, Some acl2, file')"
proof -
  obtain key where key: "al_decode env (trim pubkey) = Inr key" "length key = 32"
    using ok by (auto simp: enrol_key_def split: sum.splits if_splits)
  show ?thesis
  proof (cases "acl_contains acl key")
    case True
    then show ?thesis
      using ok key sync by (auto simp: enrol_key_def acl_load_def read_acl_file_def acl_contains_def)
  next
    case False
    have p: "acl_parse (al_toml env) (al_decode env) (text @ acl_entry (al_encode env) key) =
        Inr \<lparr>acl_keys = acl_keys acl @ [key]\<rparr>"
      using parse_appended [OF laws key(2) sync] .
    have "al_fault env = None"
      using ok key False by (auto simp: enrol_key_def append_key_locked_def Let_def split: option.splits append_step.splits)
    moreover have "acl \<noteq> \<lparr>acl_keys = acl_keys acl @ [key]\<rparr>"
      by (metis Acl.select_convs(1) append_self_conv not_Cons_self2)
    ultimately show ?thesis
      using ok key False p readable
      by (auto simp: enrol_key_def append_key_locked_def acl_reload_def read_acl_file_def acl_load_def acl_contains_def Let_def)
  qed
qed

definition str_bytes :: "string \<Rightarrow> bytes" where
  "str_bytes s = map (\<lambda>c. of_nat (of_char c)) s"

lemma str_bytes_encoded: "str_bytes (map (\<lambda>b. char_of (unat b)) bs) = bs"
proof -
  have "(of_nat (of_char (char_of (unat b) :: char)) :: u8) = b" for b :: u8
  proof -
    have "unat b < 256" using unsigned_less [of b, where ?'a = nat] by simp
    then show ?thesis by (simp add: take_bit_nat_eq_self)
  qed
  then show ?thesis by (simp add: str_bytes_def comp_def map_idI)
qed

definition sample_acl_env :: AclEnv where
  "sample_acl_env = \<lparr>al_toml = (\<lambda>t. if t = [] then Inr []
       else if take 21 t = ''[[client]]'' @ [CHR 0x0A] @ ''pubkey = '' @ [CHR 0x22] then Inr [take (length t - 23) (drop 21 t)]
       else Inl ''expected newline''),
     al_decode = (\<lambda>s. Inr (str_bytes s)), al_encode = map (\<lambda>b. char_of (unat b)), al_fault = None, al_read_fault = None\<rparr>"

definition sample_key :: string where
  "sample_key = ''0123456789abcdef0123456789abcdef''"

lemma sample_key_decoded: "al_decode sample_acl_env (trim sample_key) = Inr (str_bytes sample_key)"
proof -
  have "trim sample_key = sample_key" unfolding sample_key_def by code_simp
  then show ?thesis by (simp add: sample_acl_env_def)
qed

theorem enrolled_key_is_trusted_witness:
  "\<exists>n acl2 file'. enrol_key sample_acl_env sample_key (Some \<lparr>acl_keys = []\<rparr>) (Some []) = (Inr n, Some acl2, file') \<and>
     acl_contains acl2 (str_bytes sample_key) \<and>
     acl_load (al_toml sample_acl_env) (al_decode sample_acl_env) (read_acl_file None file') = acl2"
proof -
  let ?env = sample_acl_env
  have laws: "continuable (al_toml ?env) (al_encode ?env) []" "\<And>b. al_decode ?env (al_encode ?env b) = Inr b"
    by (simp_all add: continuable_def sample_acl_env_def acl_entry_def str_bytes_encoded)
  have sync: "acl_parse (al_toml ?env) (al_decode ?env) [] = Inr \<lparr>acl_keys = []\<rparr>"
    by (simp add: acl_parse_def sample_acl_env_def List.map_filter_def)
  have readable: "al_read_fault ?env = None" by (simp add: sample_acl_env_def)
  obtain n acl' file' where run: "enrol_key ?env sample_key (Some \<lparr>acl_keys = []\<rparr>) (Some []) = (Inr n, acl', file')"
  proof -
    have len: "length (str_bytes sample_key) = 32" by (simp add: sample_key_def str_bytes_def)
    have fault: "al_fault ?env = None" by (simp add: sample_acl_env_def)
    show ?thesis using sample_key_decoded len fault
      by (intro that) (simp add: enrol_key_def acl_contains_def append_key_locked_def Let_def)
  qed
  from enrolled_key_is_trusted [OF laws sync readable run] show ?thesis
    using run sample_key_decoded by auto
qed




end
