(* ===== verification/Client_Pending.thy ===== *)
theory Client_Pending
  imports Proto_Messages "HOL-Library.Multiset"
begin

text \<open>
  The client's table of requests in flight
  (\<open>src/choreo-client-core/src/pending.rs\<close>): it numbers the requests, keeps for each
  when it was sent and until when an answer is awaited, and gives a request up by
  its reply, by its deadline or when the connection is lost. Instants and
  durations are nanoseconds.
\<close>

section \<open>The table\<close>

definition deadline_for :: "MessageKind \<Rightarrow> nat" where
  "deadline_for kind =
     (if kind \<in> {MK_RefreshModels, MK_CreateSession} then 30 * 10 ^ 9 else 10 * 10 ^ 9)"

datatype PendingContext =
    PC_None
  | PC_UnlockKey bytes
  | PC_Image u64 u32 ImageKey

definition unlock_key :: "PendingContext \<Rightarrow> bytes option" where
  "unlock_key self = (case self of PC_UnlockKey key \<Rightarrow> Some key | _ \<Rightarrow> None)"

record Pending =
  pn_kind :: MessageKind
  pn_sent_at :: nat
  pn_deadline :: nat
  pn_context :: PendingContext

record Timeout =
  to_id :: u64
  to_kind :: MessageKind
  to_elapsed :: nat

record PendingReplies =
  pr_next_id :: u64
  pr_inflight :: "(u64 \<times> Pending) list"

definition PendingReplies_new :: PendingReplies where
  "PendingReplies_new = \<lparr>pr_next_id = 0, pr_inflight = []\<rparr>"

definition frame_at :: "ClientMessageType \<Rightarrow> nat \<Rightarrow> PendingReplies \<Rightarrow> (u64 \<times> ClientMessage) \<times> PendingReplies" where
  "frame_at inner now self =
     (let rid = pr_next_id self;
          kind = ClientMessageType_kind inner
      in ((rid, ClientMessage_request rid inner),
          self\<lparr>pr_next_id := pr_next_id self + 1,
            pr_inflight := hm_insert rid \<lparr>pn_kind = kind, pn_sent_at = now, pn_deadline = now + deadline_for kind,
              pn_context = PC_None\<rparr> (pr_inflight self)\<rparr>))"

text \<open>A message that the channel to the daemon refuses is only logged; the request stays and times out.\<close>

definition send_at ::
  "bool \<Rightarrow> ClientMessageType \<Rightarrow> nat \<Rightarrow> PendingReplies \<Rightarrow> ClientMessage list \<Rightarrow> u64 \<times> PendingReplies \<times> ClientMessage list" where
  "send_at tx_alive inner now self sent =
     (case frame_at inner now self of ((rid, framed), self) \<Rightarrow>
        (rid, self, if tx_alive then sent @ [framed] else sent))"

definition kind_of :: "u64 \<Rightarrow> PendingReplies \<Rightarrow> MessageKind option" where
  "kind_of rid self = map_option pn_kind (map_of (pr_inflight self) rid)"

definition set_context :: "u64 \<Rightarrow> PendingContext \<Rightarrow> PendingReplies \<Rightarrow> PendingReplies" where
  "set_context rid context self = (case map_of (pr_inflight self) rid of
     Some pending \<Rightarrow> self\<lparr>pr_inflight := hm_insert rid (pending\<lparr>pn_context := context\<rparr>) (pr_inflight self)\<rparr>
   | None \<Rightarrow> self)"

definition resolve :: "u64 \<Rightarrow> PendingReplies \<Rightarrow> Pending option \<times> PendingReplies" where
  "resolve rid self = (case map_of (pr_inflight self) rid of
     Some pending \<Rightarrow> (Some pending, self\<lparr>pr_inflight := hm_remove rid (pr_inflight self)\<rparr>)
   | None \<Rightarrow> (None, self))"

text \<open>\<open>HashMap::retain\<close> in the map's order, with the expired entries pushed as they are met.\<close>

definition expire :: "nat \<Rightarrow> PendingReplies \<Rightarrow> Timeout list \<times> PendingReplies" where
  "expire now self =
     (map (\<lambda>(rid, pending). \<lparr>to_id = rid, to_kind = pn_kind pending, to_elapsed = now - pn_sent_at pending\<rparr>)
        (filter (\<lambda>(_, pending). pn_deadline pending \<le> now) (pr_inflight self)),
      self\<lparr>pr_inflight := filter (\<lambda>(_, pending). \<not> pn_deadline pending \<le> now) (pr_inflight self)\<rparr>)"

definition clear :: "PendingReplies \<Rightarrow> PendingReplies" where
  "clear self = self\<lparr>pr_inflight := []\<rparr>"

section \<open>The life of a request\<close>

text \<open>
  A run of the client: the operations it performs, in any order, with the daemon's
  replies among them (a reply may be late, duplicated or carry an id nobody asked
  for).
\<close>

datatype pending_op =
    PO_Send bool ClientMessageType nat
  | PO_SetContext u64 PendingContext
  | PO_Reply u64
  | PO_Expire nat
  | PO_Clear

text \<open>How a request ended.\<close>

datatype ending = EN_Replied Pending | EN_TimedOut Timeout | EN_Cleared

record pending_run =
  rn_table :: PendingReplies
  rn_sent :: "(u64 \<times> ClientMessageType) list"
  rn_ended :: "(u64 \<times> ending) list"
  rn_wire :: "ClientMessage list"

definition pending_start :: pending_run where
  "pending_start = \<lparr>rn_table = PendingReplies_new, rn_sent = [], rn_ended = [], rn_wire = []\<rparr>"

definition pending_step :: "pending_op \<Rightarrow> pending_run \<Rightarrow> pending_run" where
  "pending_step op r = (case op of
     PO_Send alive inner now \<Rightarrow> (case send_at alive inner now (rn_table r) (rn_wire r) of (rid, t, wire) \<Rightarrow>
       r\<lparr>rn_table := t, rn_sent := rn_sent r @ [(rid, inner)], rn_wire := wire\<rparr>)
   | PO_SetContext rid context \<Rightarrow> r\<lparr>rn_table := set_context rid context (rn_table r)\<rparr>
   | PO_Reply rid \<Rightarrow> (case resolve rid (rn_table r) of
       (Some pending, t) \<Rightarrow> r\<lparr>rn_table := t, rn_ended := rn_ended r @ [(rid, EN_Replied pending)]\<rparr>
     | (None, t) \<Rightarrow> r\<lparr>rn_table := t\<rparr>)
   | PO_Expire now \<Rightarrow> (case expire now (rn_table r) of (expired, t) \<Rightarrow>
       r\<lparr>rn_table := t, rn_ended := rn_ended r @ map (\<lambda>t. (to_id t, EN_TimedOut t)) expired\<rparr>)
   | PO_Clear \<Rightarrow> r\<lparr>rn_table := clear (rn_table r),
       rn_ended := rn_ended r @ map (\<lambda>(rid, _). (rid, EN_Cleared)) (pr_inflight (rn_table r))\<rparr>)"

definition run_pending :: "pending_op list \<Rightarrow> pending_run" where
  "run_pending ops = fold pending_step ops pending_start"

text \<open>What the table says of a request in flight, and what its end says.\<close>

definition entry_ok :: "ClientMessageType \<Rightarrow> Pending \<Rightarrow> bool" where
  "entry_ok inner pending \<longleftrightarrow> pn_kind pending = ClientMessageType_kind inner \<and>
     pn_deadline pending = pn_sent_at pending + deadline_for (pn_kind pending)"

fun ending_ok :: "ClientMessageType \<Rightarrow> ending \<Rightarrow> bool" where
  "ending_ok inner (EN_Replied pending) = entry_ok inner pending"
| "ending_ok inner (EN_TimedOut t) =
     (to_kind t = ClientMessageType_kind inner \<and> deadline_for (to_kind t) \<le> to_elapsed t)"
| "ending_ok inner EN_Cleared = True"

definition entries_ok :: "(u64 \<times> ClientMessageType) list \<Rightarrow> (u64 \<times> Pending) list \<Rightarrow> bool" where
  "entries_ok sent m \<longleftrightarrow> (\<forall>(rid, pending) \<in> set m. \<exists>inner. (rid, inner) \<in> set sent \<and> entry_ok inner pending)"

definition endings_ok :: "(u64 \<times> ClientMessageType) list \<Rightarrow> (u64 \<times> ending) list \<Rightarrow> bool" where
  "endings_ok sent ended \<longleftrightarrow> (\<forall>(rid, e) \<in> set ended. \<exists>inner. (rid, inner) \<in> set sent \<and> ending_ok inner e)"

definition run_ok :: "pending_run \<Rightarrow> bool" where
  "run_ok r \<longleftrightarrow>
     map fst (rn_sent r) = map of_nat [0..<length (rn_sent r)] \<and>
     pr_next_id (rn_table r) = of_nat (length (rn_sent r)) \<and>
     hm_ok (pr_inflight (rn_table r)) \<and>
     mset (map fst (rn_sent r)) = mset (map fst (rn_ended r)) + mset (map fst (pr_inflight (rn_table r))) \<and>
     entries_ok (rn_sent r) (pr_inflight (rn_table r)) \<and> endings_ok (rn_sent r) (rn_ended r)"

lemma run_okD:
  assumes "run_ok r"
  shows "map fst (rn_sent r) = map of_nat [0..<length (rn_sent r)]"
    and "pr_next_id (rn_table r) = of_nat (length (rn_sent r))"
    and "hm_ok (pr_inflight (rn_table r))"
    and "mset (map fst (rn_sent r)) = mset (map fst (rn_ended r)) + mset (map fst (pr_inflight (rn_table r)))"
    and "entries_ok (rn_sent r) (pr_inflight (rn_table r))" and "endings_ok (rn_sent r) (rn_ended r)"
  using assms unfolding run_ok_def by blast+

lemma entries_ok_subset: "entries_ok sent m \<Longrightarrow> set m' \<subseteq> set m \<Longrightarrow> entries_ok sent m'"
  unfolding entries_ok_def by blast

lemma entries_okD: "entries_ok sent m \<Longrightarrow> (rid, p) \<in> set m \<Longrightarrow> \<exists>inner. (rid, inner) \<in> set sent \<and> entry_ok inner p"
  unfolding entries_ok_def by blast

lemma entries_ok_sent: "entries_ok sent m \<Longrightarrow> entries_ok (sent @ new) m"
  unfolding entries_ok_def by (auto 0 4)

lemma endings_ok_sent: "endings_ok sent ended \<Longrightarrow> endings_ok (sent @ new) ended"
  unfolding endings_ok_def by (auto 0 4)

lemma entries_ok_append: "entries_ok sent (m @ m') \<longleftrightarrow> entries_ok sent m \<and> entries_ok sent m'"
  unfolding entries_ok_def set_append ball_Un ..

lemma endings_ok_append: "endings_ok sent (m @ m') \<longleftrightarrow> endings_ok sent m \<and> endings_ok sent m'"
  unfolding endings_ok_def set_append ball_Un ..

lemma mset_hm_insert_new:
  "k \<notin> fst ` set m \<Longrightarrow> hm_insert k v m = m @ [(k, v)]"
  by (induction k v m rule: hm_insert.induct) auto

lemma hm_insert_same_keys: "k \<in> fst ` set m \<Longrightarrow> map fst (hm_insert k v m) = map fst m"
  by (induction k v m rule: hm_insert.induct) auto

lemma mset_hm_remove:
  "hm_ok m \<Longrightarrow> map_of m k = Some v \<Longrightarrow> mset (map fst m) = add_mset k (mset (map fst (hm_remove k m)))"
proof (induction m)
  case (Cons a m)
  obtain k' v' where a: "a = (k', v')" by (cases a)
  show ?case
  proof (cases "k' = k")
    case True
    then have "filter (\<lambda>(k', _). k' \<noteq> k) m = m"
      using Cons.prems by (force simp: a hm_ok_def filter_id_conv)
    then show ?thesis using True by (simp add: a hm_remove_def)
  next
    case False
    then show ?thesis using Cons by (simp add: a hm_ok_def hm_remove_def)
  qed
qed simp

lemma of_nat_fresh:
  "n < 2 ^ 64 \<Longrightarrow> (of_nat n :: u64) \<notin> set (map of_nat [0..<n])"
  by (auto dest: arg_cong [of _ _ unat] simp: unat_of_nat)

lemma hm_insert_subset: "set (hm_insert k v m) \<subseteq> insert (k, v) (set m)"
  by (induction k v m rule: hm_insert.induct) auto

text \<open>Each operation keeps the account.\<close>

lemma send_keeps_account:
  assumes ok: "run_ok r" and few: "length (rn_sent r) < 2 ^ 64"
  shows "run_ok (pending_step (PO_Send alive inner now) r)"
proof -
  let ?n = "length (rn_sent r)" and ?m = "pr_inflight (rn_table r)"
  let ?p = "\<lparr>pn_kind = ClientMessageType_kind inner, pn_sent_at = now,
     pn_deadline = now + deadline_for (ClientMessageType_kind inner), pn_context = PC_None\<rparr>"
  note r = run_okD [OF ok]
  have "set (map fst ?m) \<subseteq> set (map fst (rn_sent r))"
    using arg_cong [OF r(4), of set_mset] by (simp only: set_mset_mset set_mset_union) blast
  then have "(of_nat ?n :: u64) \<notin> set (map fst ?m)" using of_nat_fresh [OF few] unfolding r(1) by blast
  then have fresh: "of_nat ?n \<notin> fst ` set ?m" by simp
  have "hm_ok (?m @ [(of_nat ?n, ?p)])" using r(3) fresh by (simp add: hm_ok_def)
  moreover have "entries_ok (rn_sent r @ [(of_nat ?n, inner)]) (?m @ [(of_nat ?n, ?p)])"
    unfolding entries_ok_append by (rule conjI [OF entries_ok_sent [OF r(5)]]) (auto simp: entries_ok_def entry_ok_def)
  moreover have "mset (map fst (rn_sent r @ [(of_nat ?n, inner)])) =
      mset (map fst (rn_ended r)) + mset (map fst (?m @ [(of_nat ?n, ?p)]))"
    using r(4) by simp
  moreover have "map fst (rn_sent r @ [(of_nat ?n, inner)]) = map of_nat [0..<length (rn_sent r @ [(of_nat ?n :: u64, inner)])]"
    using r(1) by simp
  ultimately show ?thesis
    unfolding run_ok_def pending_step_def send_at_def frame_at_def Let_def r(2)
    using endings_ok_sent [OF r(6)] mset_hm_insert_new [OF fresh] by (simp del: mset_map)
qed

lemma set_context_keeps_account:
  assumes ok: "run_ok r"
  shows "run_ok (pending_step (PO_SetContext rid context) r)"
proof (cases "map_of (pr_inflight (rn_table r)) rid")
  case None
  then show ?thesis using ok by (simp add: pending_step_def set_context_def)
next
  case (Some p)
  let ?m = "pr_inflight (rn_table r)" and ?p = "p\<lparr>pn_context := context\<rparr>"
  note r = run_okD [OF ok]
  have mem: "(rid, p) \<in> set ?m" using Some by (rule map_of_SomeD)
  then have keys: "map fst (hm_insert rid ?p ?m) = map fst ?m" by (intro hm_insert_same_keys) force
  obtain inner where "(rid, inner) \<in> set (rn_sent r)" and "entry_ok inner p" using entries_okD [OF r(5) mem] by blast
  then have "entries_ok (rn_sent r) ((rid, ?p) # ?m)" using r(5) by (auto simp: entries_ok_def entry_ok_def)
  then have "entries_ok (rn_sent r) (hm_insert rid ?p ?m)"
    by (rule entries_ok_subset) (simp add: hm_insert_subset)
  then show ?thesis using r keys Some
    unfolding run_ok_def by (simp add: pending_step_def set_context_def hm_ok_def flip: mset_map)
qed

lemma reply_keeps_account:
  assumes ok: "run_ok r"
  shows "run_ok (pending_step (PO_Reply rid) r)"
proof (cases "map_of (pr_inflight (rn_table r)) rid")
  case None
  then show ?thesis using ok by (simp add: pending_step_def resolve_def)
next
  case (Some p)
  let ?m = "pr_inflight (rn_table r)"
  note r = run_okD [OF ok]
  have mem: "(rid, p) \<in> set ?m" using Some by (rule map_of_SomeD)
  have "endings_ok (rn_sent r) [(rid, EN_Replied p)]" using entries_okD [OF r(5) mem] by (simp add: endings_ok_def)
  then have "endings_ok (rn_sent r) (rn_ended r @ [(rid, EN_Replied p)])" using r(6) by (simp add: endings_ok_append)
  moreover have "entries_ok (rn_sent r) (hm_remove rid ?m)"
    by (rule entries_ok_subset [OF r(5)]) (auto simp: hm_remove_def)
  moreover have "mset (map fst (rn_sent r)) = mset (map fst (rn_ended r @ [(rid, EN_Replied p)])) + mset (map fst (hm_remove rid ?m))"
    using r(4) unfolding mset_hm_remove [OF r(3) Some] by simp
  ultimately show ?thesis using hm_ok_remove [OF r(3)] r(1,2) Some
    unfolding run_ok_def pending_step_def resolve_def by simp
qed

lemma mset_keys_split:
  "mset (map fst m) = mset (map fst (filter P m)) + mset (map fst (filter (\<lambda>x. \<not> P x) m))"
  by (induction m) auto

lemma expire_keeps_account:
  assumes ok: "run_ok r"
  shows "run_ok (pending_step (PO_Expire now) r)"
proof -
  let ?m = "pr_inflight (rn_table r)"
  let ?late = "\<lambda>(_ :: u64, p). pn_deadline p \<le> now"
  let ?young = "filter (\<lambda>(_, p). \<not> pn_deadline p \<le> now) ?m"
  let ?out = "map (\<lambda>t. (to_id t, EN_TimedOut t)) (map (\<lambda>(rid, p). \<lparr>to_id = rid, to_kind = pn_kind p, to_elapsed = now - pn_sent_at p\<rparr>)
     (filter ?late ?m))"
  note r = run_okD [OF ok]
  have young: "?young = filter (\<lambda>x. \<not> ?late x) ?m" by (rule filter_cong) auto
  have out: "map fst ?out = map fst (filter ?late ?m)" by (simp add: comp_def case_prod_beta)
  have "mset (map fst (rn_sent r)) = mset (map fst (rn_ended r @ ?out)) + mset (map fst ?young)"
    using r(4) unfolding mset_keys_split [of ?m ?late] map_append mset_append out young by (simp only: add.assoc)
  moreover have "\<exists>inner. (rid, inner) \<in> set (rn_sent r) \<and>
      ending_ok inner (EN_TimedOut \<lparr>to_id = rid, to_kind = pn_kind p, to_elapsed = now - pn_sent_at p\<rparr>)"
    if "(rid, p) \<in> set ?m" "pn_deadline p \<le> now" for rid p
    using entries_okD [OF r(5) that(1)] that(2) by (auto simp: entry_ok_def)
  then have "endings_ok (rn_sent r) ?out" by (fastforce simp: endings_ok_def)
  then have "endings_ok (rn_sent r) (rn_ended r @ ?out)" using r(6) by (simp add: endings_ok_append)
  moreover have "entries_ok (rn_sent r) ?young" by (rule entries_ok_subset [OF r(5)]) auto
  ultimately show ?thesis using hm_ok_filter [OF r(3)] r(1,2)
    unfolding run_ok_def pending_step_def expire_def by simp
qed

lemma clear_keeps_account:
  assumes ok: "run_ok r"
  shows "run_ok (pending_step PO_Clear r)"
proof -
  let ?out = "map (\<lambda>(rid, _). (rid, EN_Cleared)) (pr_inflight (rn_table r))"
  note r = run_okD [OF ok]
  have "map fst ?out = map fst (pr_inflight (rn_table r))" by (simp add: comp_def case_prod_beta)
  then have "mset (map fst (rn_sent r)) = mset (map fst (rn_ended r @ ?out))" using r(4) by (simp only: map_append mset_append)
  moreover have "endings_ok (rn_sent r) ?out" using r(5) by (fastforce simp: endings_ok_def entries_ok_def)
  then have "endings_ok (rn_sent r) (rn_ended r @ ?out)" using r(6) by (simp add: endings_ok_append)
  ultimately show ?thesis using r(1,2)
    unfolding run_ok_def pending_step_def clear_def by (simp add: entries_ok_def)
qed

lemma step_sends:
  "length (rn_sent (pending_step op r)) \<le> Suc (length (rn_sent r))"
  by (cases op) (auto simp: pending_step_def split: prod.splits option.splits)

lemma run_accounts:
  "length ops \<le> 2 ^ 64 \<Longrightarrow> run_ok (run_pending ops) \<and> length (rn_sent (run_pending ops)) \<le> length ops"
proof (induction ops rule: rev_induct)
  case Nil
  show ?case by (simp add: run_pending_def pending_start_def PendingReplies_new_def run_ok_def hm_ok_def entries_ok_def endings_ok_def)
next
  case (snoc op ops)
  let ?r = "run_pending ops"
  have last: "run_pending (ops @ [op]) = pending_step op ?r" by (simp add: run_pending_def)
  have prev: "run_ok ?r" "length (rn_sent ?r) \<le> length ops" using snoc by simp_all
  then have ok: "run_ok ?r" and len: "length (rn_sent ?r) < 2 ^ 64" and le: "length (rn_sent ?r) \<le> length ops" using snoc.prems by simp_all
  have "run_ok (pending_step op ?r)"
    using send_keeps_account [OF ok len] set_context_keeps_account [OF ok] reply_keeps_account [OF ok]
      expire_keeps_account [OF ok] clear_keeps_account [OF ok] by (cases op) auto
  then show ?case using le step_sends [of op ?r] by (simp add: last)
qed

section \<open>Every request ends once\<close>

text \<open>
  C28. Whatever the client does and whatever the daemon answers, late, twice or with
  an id nobody asked for, no two requests of a connection (fewer than \<open>2 ^ 64\<close> of
  them) share an id, each one is in flight or has ended exactly once, by a reply, a timeout or
  the loss of the connection, and its end tells of that request: the reply is
  matched with the kind of the request sent under that id, and a timeout is
  reported for the kind sent, not before the kind's deadline has passed.
\<close>

theorem each_request_ends_once:
  assumes "length ops \<le> 2 ^ 64" and "run_pending ops = r"
  shows "distinct (map fst (rn_sent r)) \<and>
    mset (map fst (rn_sent r)) = mset (map fst (rn_ended r)) + mset (map fst (pr_inflight (rn_table r))) \<and>
    (\<forall>(rid, pending) \<in> set (pr_inflight (rn_table r)). \<exists>inner. map_of (rn_sent r) rid = Some inner \<and> entry_ok inner pending) \<and>
    (\<forall>(rid, e) \<in> set (rn_ended r). \<exists>inner. map_of (rn_sent r) rid = Some inner \<and> ending_ok inner e)"
proof -
  have "run_ok r \<and> length (rn_sent r) \<le> length ops" using run_accounts [OF assms(1)] unfolding assms(2) .
  then have ok: "run_ok r" and len: "length (rn_sent r) \<le> 2 ^ 64" using assms(1) by (blast, linarith)
  have "distinct (map (of_nat :: nat \<Rightarrow> u64) [0..<length (rn_sent r)])"
    using len by (simp only: distinct_map distinct_upt set_upt) (auto intro!: inj_onI dest!: arg_cong [of _ _ unat] simp: unat_of_nat)
  then have dist: "distinct (map fst (rn_sent r))" unfolding run_okD(1) [OF ok] .
  then have "(rid, inner) \<in> set (rn_sent r) \<longleftrightarrow> map_of (rn_sent r) rid = Some inner" for rid inner
    by (auto dest: map_of_SomeD map_of_is_SomeI)
  then show ?thesis using run_okD(4-6) [OF ok] dist unfolding entries_ok_def endings_ok_def by simp
qed

definition sample_ops :: "pending_op list" where
  "sample_ops = [PO_Send True CM_ListModels 0, PO_Send True (CM_RefreshModels False) 5, PO_Reply 0, PO_Reply 0, PO_Reply 7,
     PO_Expire (20 * 10 ^ 9), PO_Send False CM_ListModels (21 * 10 ^ 9), PO_Expire (40 * 10 ^ 9), PO_Clear]"

theorem each_request_ends_once_witness:
  "map fst (rn_ended (run_pending sample_ops)) = [0, 1, 2] \<and> distinct (map fst (rn_sent (run_pending sample_ops)))"
proof -
  have "length sample_ops \<le> 2 ^ 64" by (simp add: sample_ops_def)
  from each_request_ends_once [OF this refl] have "distinct (map fst (rn_sent (run_pending sample_ops)))" by simp
  moreover have "map fst (rn_ended (run_pending sample_ops)) = [0, 1, 2]"
    by (simp add: run_pending_def sample_ops_def pending_start_def PendingReplies_new_def pending_step_def send_at_def
        frame_at_def Let_def resolve_def expire_def clear_def deadline_for_def ClientMessageType_kind_def hm_remove_def)
  ultimately show ?thesis by simp
qed

end
