(* ===== verification/File_Locks.thy ===== *)
theory File_Locks
  imports Prelude "HOL-Library.List_Lexorder" "HOL-Library.Char_ord"
begin

text \<open>
  The registry of per-file locks under which the file tools write
  (\<open>src/choreo-daemon/src/tools/file_locks.rs\<close>). The tools of a turn run on threads of
  their own, so two of them may change the same file at the same time; a change is
  made while holding the lock of the file's canonical path.

  A path is its list of components, as \<open>Path\<close> compares it. Canonical paths and the
  working directory come from the file system and are parameters. A mutex is an
  allocation, named by a number that is never used twice; the registry maps paths
  to mutexes, and each call in progress keeps the handles it has cloned. The
  calls run on any number of threads, and every locked region of the source is one
  step of a call.
\<close>

section \<open>Paths\<close>

datatype component = RootDir | CurDir | ParentDir | Normal string

type_synonym path = "component list"

text \<open>Components are ordered as in the source, by kind and then by name.\<close>

definition component_key :: "component \<Rightarrow> nat \<times> string" where
  "component_key c = (case c of RootDir \<Rightarrow> (0, []) | CurDir \<Rightarrow> (1, []) | ParentDir \<Rightarrow> (2, []) | Normal n \<Rightarrow> (3, n))"

lemma component_key_inject: "component_key a = component_key b \<Longrightarrow> a = b"
  by (auto simp: component_key_def split: component.splits)

instantiation component :: linorder
begin

definition less_eq_component :: "component \<Rightarrow> component \<Rightarrow> bool" where
  "less_eq_component a b \<longleftrightarrow> fst (component_key a) < fst (component_key b) \<or>
     fst (component_key a) = fst (component_key b) \<and> snd (component_key a) \<le> snd (component_key b)"

definition less_component :: "component \<Rightarrow> component \<Rightarrow> bool" where
  "less_component a b \<longleftrightarrow> a \<le> b \<and> \<not> b \<le> a"

instance
  by intro_classes
    (auto simp: less_eq_component_def less_component_def intro!: component_key_inject intro: prod_eqI)

end

definition is_absolute :: "path \<Rightarrow> bool" where
  "is_absolute p = (case p of RootDir # _ \<Rightarrow> True | _ \<Rightarrow> False)"

definition file_name :: "path \<Rightarrow> string option" where
  "file_name p = (if p = [] then None else (case last p of Normal n \<Rightarrow> Some n | _ \<Rightarrow> None))"

definition parent :: "path \<Rightarrow> path option" where
  "parent p = (if p = [] \<or> last p = RootDir then None else Some (butlast p))"

definition join_path :: "path \<Rightarrow> path \<Rightarrow> path" where
  "join_path dir p = (if is_absolute p \<or> dir = [] then p else dir @ dropWhile (\<lambda>c. c = CurDir) p)"

record Fs =
  fs_canonicalize :: "path \<Rightarrow> path option"
  fs_current_dir :: "path option"

definition absolute :: "Fs \<Rightarrow> path \<Rightarrow> path" where
  "absolute fs p = (if is_absolute p then p
     else (case fs_current_dir fs of None \<Rightarrow> p | Some dir \<Rightarrow> join_path dir p))"

definition mutation_key :: "Fs \<Rightarrow> path \<Rightarrow> path" where
  "mutation_key fs resolved = (case fs_canonicalize fs resolved of
     Some canonical \<Rightarrow> canonical
   | None \<Rightarrow> (case (parent resolved, file_name resolved) of
       (Some par, Some name) \<Rightarrow>
         if par \<noteq> [] then (case fs_canonicalize fs par of
             None \<Rightarrow> absolute fs resolved
           | Some canonical_parent \<Rightarrow> join_path canonical_parent [Normal name])
         else absolute fs resolved
     | _ \<Rightarrow> absolute fs resolved))"

text \<open>The keys a call locks: sorted and without duplicates.\<close>

definition lock_keys :: "Fs \<Rightarrow> path list \<Rightarrow> path list" where
  "lock_keys fs paths = remdups_adj (sort (map (mutation_key fs) paths))"

section \<open>The registry\<close>

type_synonym registry = "(path \<times> nat) list"

fun reserve :: "path list \<Rightarrow> registry \<Rightarrow> nat \<Rightarrow> nat list \<times> registry \<times> nat" where
  "reserve [] m n = ([], m, n)"
| "reserve (k # ks) m n = (case map_of m k of
     Some h \<Rightarrow> (case reserve ks m n of (hs, m', n') \<Rightarrow> (h # hs, m', n'))
   | None \<Rightarrow> (case reserve ks (hm_insert k n m) (Suc n) of (hs, m', n') \<Rightarrow> (n # hs, m', n')))"

text \<open>
  A call in progress: the handles it has cloned, how far it is, and what it does to
  the files it locks. The change reads them first and writes them later.
\<close>

datatype 'c phase = PH_Reserve | PH_Locking nat | PH_Read "path \<Rightarrow> 'c option" | PH_Unlocking nat | PH_Dropping

record 'c call =
  ca_keys :: "path list"
  ca_body :: "(path \<Rightarrow> 'c option) \<Rightarrow> path \<Rightarrow> 'c"
  ca_handles :: "nat list"
  ca_phase :: "'c phase"

record 'c locks =
  lk_map :: registry
  lk_fresh :: nat
  lk_locked :: "nat \<Rightarrow> bool"
  lk_calls :: "(nat \<times> 'c call) list"
  lk_files :: "path \<Rightarrow> 'c"
  lk_done :: "(path list \<times> ((path \<Rightarrow> 'c option) \<Rightarrow> path \<Rightarrow> 'c)) list"

definition locks_start :: "(path \<Rightarrow> 'c) \<Rightarrow> 'c locks" where
  "locks_start files = \<lparr>lk_map = [], lk_fresh = 0, lk_locked = (\<lambda>_. False), lk_calls = [], lk_files = files, lk_done = []\<rparr>"

text \<open>\<open>Arc::strong_count\<close>: the entries of the registry and the handles of the calls.\<close>

definition handle_count :: "(nat \<times> 'c call) list \<Rightarrow> nat \<Rightarrow> nat" where
  "handle_count calls h = (\<Sum>(_, c)\<leftarrow>calls. count_list (ca_handles c) h)"

definition strong_count :: "registry \<Rightarrow> (nat \<times> 'c call) list \<Rightarrow> nat \<Rightarrow> nat" where
  "strong_count m calls h = count_list (map snd m) h + handle_count calls h"

text \<open>What dropping the \<open>Cleanup\<close> removes.\<close>

fun prune :: "(nat \<times> 'c call) list \<Rightarrow> path list \<Rightarrow> registry \<Rightarrow> registry" where
  "prune calls [] m = m"
| "prune calls (k # ks) m = prune calls ks (case map_of m k of
     Some h \<Rightarrow> if strong_count m calls h = 2 then hm_remove k m else m
   | None \<Rightarrow> m)"

definition begin_call ::
  "nat \<Rightarrow> path list \<Rightarrow> ((path \<Rightarrow> 'c option) \<Rightarrow> path \<Rightarrow> 'c) \<Rightarrow> 'c locks \<Rightarrow> 'c locks" where
  "begin_call t keys body s = s\<lparr>lk_calls := hm_insert t
     \<lparr>ca_keys = keys, ca_body = body, ca_handles = [], ca_phase = PH_Reserve\<rparr> (lk_calls s)\<rparr>"

definition put_call :: "nat \<Rightarrow> 'c call \<Rightarrow> 'c locks \<Rightarrow> 'c locks" where
  "put_call t c s = s\<lparr>lk_calls := hm_insert t c (lk_calls s)\<rparr>"

definition seen :: "path list \<Rightarrow> (path \<Rightarrow> 'c) \<Rightarrow> path \<Rightarrow> 'c option" where
  "seen keys files = (\<lambda>k. if k \<in> set keys then Some (files k) else None)"

definition written :: "path list \<Rightarrow> (path \<Rightarrow> 'c) \<Rightarrow> (path \<Rightarrow> 'c) \<Rightarrow> path \<Rightarrow> 'c" where
  "written keys new files = (\<lambda>k. if k \<in> set keys then new k else files k)"

text \<open>The next step of a call, if it is not blocked (\<open>with_many\<close> and the drop of its \<open>Cleanup\<close>).\<close>

definition advance :: "nat \<Rightarrow> 'c locks \<Rightarrow> 'c locks option" where
  "advance t s = (case map_of (lk_calls s) t of
     None \<Rightarrow> None
   | Some c \<Rightarrow> (case ca_phase c of
       PH_Reserve \<Rightarrow> (case reserve (ca_keys c) (lk_map s) (lk_fresh s) of (hs, m, n) \<Rightarrow>
         Some (put_call t (c\<lparr>ca_handles := hs, ca_phase := PH_Locking 0\<rparr>) (s\<lparr>lk_map := m, lk_fresh := n\<rparr>)))
     | PH_Locking i \<Rightarrow>
         if i < length (ca_handles c)
         then (if lk_locked s (ca_handles c ! i) then None
               else Some (put_call t (c\<lparr>ca_phase := PH_Locking (Suc i)\<rparr>)
                 (s\<lparr>lk_locked := (lk_locked s)(ca_handles c ! i := True)\<rparr>)))
         else Some (put_call t (c\<lparr>ca_phase := PH_Read (seen (ca_keys c) (lk_files s))\<rparr>) s)
     | PH_Read before \<Rightarrow>
         Some (put_call t (c\<lparr>ca_phase := PH_Unlocking 0\<rparr>)
           (s\<lparr>lk_files := written (ca_keys c) (ca_body c before) (lk_files s),
              lk_done := lk_done s @ [(ca_keys c, ca_body c)]\<rparr>))
     | PH_Unlocking i \<Rightarrow>
         if i < length (ca_handles c)
         then Some (put_call t (c\<lparr>ca_phase := PH_Unlocking (Suc i)\<rparr>)
           (s\<lparr>lk_locked := (lk_locked s)(ca_handles c ! i := False)\<rparr>))
         else Some (put_call t (c\<lparr>ca_phase := PH_Dropping\<rparr>)
           (s\<lparr>lk_map := prune (lk_calls s) (ca_keys c) (lk_map s)\<rparr>))
     | PH_Dropping \<Rightarrow> Some (s\<lparr>lk_calls := hm_remove t (lk_calls s)\<rparr>)))"

text \<open>The change may also panic, before or after it has read, and writes nothing.\<close>

definition panic :: "nat \<Rightarrow> 'c locks \<Rightarrow> 'c locks option" where
  "panic t s = (case map_of (lk_calls s) t of
     None \<Rightarrow> None
   | Some c \<Rightarrow> (case ca_phase c of
       PH_Locking i \<Rightarrow> if i = length (ca_handles c) then Some (put_call t (c\<lparr>ca_phase := PH_Unlocking 0\<rparr>) s) else None
     | PH_Read _ \<Rightarrow> Some (put_call t (c\<lparr>ca_phase := PH_Unlocking 0\<rparr>) s)
     | _ \<Rightarrow> None))"

datatype 'c lock_op = LO_Call nat "path list" "(path \<Rightarrow> 'c option) \<Rightarrow> path \<Rightarrow> 'c" | LO_Step nat

text \<open>A run given by its schedule.\<close>

fun run_locks :: "Fs \<Rightarrow> 'c lock_op list \<Rightarrow> 'c locks \<Rightarrow> 'c locks option" where
  "run_locks fs [] s = Some s"
| "run_locks fs (LO_Call t paths body # ops) s =
     (if t \<in> fst ` set (lk_calls s) then None else run_locks fs ops (begin_call t (lock_keys fs paths) body s))"
| "run_locks fs (LO_Step t # ops) s = (case advance t s of None \<Rightarrow> None | Some s \<Rightarrow> run_locks fs ops s)"

text \<open>Every interleaving: \<open>with_file_lock\<close> and \<open>with_file_locks\<close> are called by any thread at any time.\<close>

inductive locks_reach :: "(path \<Rightarrow> 'c) \<Rightarrow> 'c locks \<Rightarrow> bool" for files where
  start: "locks_reach files (locks_start files)"
| called: "locks_reach files s \<Longrightarrow> t \<notin> fst ` set (lk_calls s) \<Longrightarrow>
     locks_reach files (begin_call t (lock_keys fs paths) body s)"
| step: "locks_reach files s \<Longrightarrow> advance t s = Some s' \<Longrightarrow> locks_reach files s'"
| panics: "locks_reach files s \<Longrightarrow> panic t s = Some s' \<Longrightarrow> locks_reach files s'"

section \<open>The invariant\<close>

text \<open>The mutexes a call has locked.\<close>

definition holds :: "'c call \<Rightarrow> nat \<Rightarrow> bool" where
  "holds c h = (case ca_phase c of
     PH_Locking i \<Rightarrow> h \<in> set (take i (ca_handles c))
   | PH_Read _ \<Rightarrow> h \<in> set (ca_handles c)
   | PH_Unlocking i \<Rightarrow> h \<in> set (drop i (ca_handles c))
   | _ \<Rightarrow> False)"

definition registry_ok :: "('k \<times> nat) list \<Rightarrow> nat \<Rightarrow> bool" where
  "registry_ok m n \<longleftrightarrow> hm_ok m \<and> distinct (map snd m) \<and> (\<forall>h \<in> snd ` set m. h < n)"

text \<open>While a call is between reserving and cleaning up, the registry has its handles.\<close>

definition reserved :: "registry \<Rightarrow> 'c call \<Rightarrow> bool" where
  "reserved m c \<longleftrightarrow> map (map_of m) (ca_keys c) = map Some (ca_handles c)"

definition call_ok :: "registry \<Rightarrow> nat \<Rightarrow> (path \<Rightarrow> 'c) \<Rightarrow> 'c call \<Rightarrow> bool" where
  "call_ok m n files c \<longleftrightarrow> sorted_wrt (<) (ca_keys c) \<and> distinct (ca_handles c) \<and> (\<forall>h \<in> set (ca_handles c). h < n) \<and>
     (case ca_phase c of
        PH_Reserve \<Rightarrow> ca_handles c = []
      | PH_Locking i \<Rightarrow> i \<le> length (ca_handles c) \<and> reserved m c
      | PH_Read before \<Rightarrow> before = seen (ca_keys c) files \<and> reserved m c
      | PH_Unlocking i \<Rightarrow> i \<le> length (ca_handles c) \<and> reserved m c
      | PH_Dropping \<Rightarrow> True)"

text \<open>A change as one atomic step.\<close>

definition atomic :: "path list \<times> ((path \<Rightarrow> 'c option) \<Rightarrow> path \<Rightarrow> 'c) \<Rightarrow> (path \<Rightarrow> 'c) \<Rightarrow> path \<Rightarrow> 'c" where
  "atomic change files = (case change of (keys, body) \<Rightarrow> written keys (body (seen keys files)) files)"

definition locks_ok :: "(path \<Rightarrow> 'c) \<Rightarrow> 'c locks \<Rightarrow> bool" where
  "locks_ok files s \<longleftrightarrow> registry_ok (lk_map s) (lk_fresh s) \<and> hm_ok (lk_calls s) \<and>
     (\<forall>t c. map_of (lk_calls s) t = Some c \<longrightarrow> call_ok (lk_map s) (lk_fresh s) (lk_files s) c) \<and>
     (\<forall>h. lk_locked s h \<longleftrightarrow> (\<exists>t c. map_of (lk_calls s) t = Some c \<and> holds c h)) \<and>
     (\<forall>t c t' c' h. map_of (lk_calls s) t = Some c \<longrightarrow> map_of (lk_calls s) t' = Some c' \<longrightarrow>
        holds c h \<longrightarrow> holds c' h \<longrightarrow> t = t') \<and>
     lk_files s = fold atomic (lk_done s) files"

lemma locks_okD:
  assumes "locks_ok files s"
  shows "registry_ok (lk_map s) (lk_fresh s)" and "hm_ok (lk_calls s)"
    and "map_of (lk_calls s) t = Some c \<Longrightarrow> call_ok (lk_map s) (lk_fresh s) (lk_files s) c"
    and "lk_locked s h \<longleftrightarrow> (\<exists>t c. map_of (lk_calls s) t = Some c \<and> holds c h)"
    and "map_of (lk_calls s) t = Some c \<Longrightarrow> map_of (lk_calls s) t' = Some c' \<Longrightarrow> holds c h \<Longrightarrow> holds c' h \<Longrightarrow> t = t'"
    and "lk_files s = fold atomic (lk_done s) files"
  using assms unfolding locks_ok_def by blast+

lemma registry_inject:
  assumes "registry_ok m n" and "map_of m k = Some h" and "map_of m k' = Some h"
  shows "k = k'"
proof -
  have "(k, h) \<in> set m" "(k', h) \<in> set m" using assms(2,3) by (auto dest: map_of_SomeD)
  moreover have "inj_on snd (set m)" using assms(1) by (simp add: registry_ok_def distinct_map)
  ultimately show ?thesis using inj_onD [of snd "set m" "(k, h)" "(k', h)"] by simp
qed

lemma registry_bound: "registry_ok m n \<Longrightarrow> map_of m k = Some h \<Longrightarrow> h < n"
  unfolding registry_ok_def by (force dest: map_of_SomeD)

lemma reserved_nth:
  assumes "reserved m c"
  shows "length (ca_handles c) = length (ca_keys c)"
    and "i < length (ca_keys c) \<Longrightarrow> map_of m (ca_keys c ! i) = Some (ca_handles c ! i)"
proof -
  show len: "length (ca_handles c) = length (ca_keys c)"
    using map_eq_imp_length_eq [OF assms [unfolded reserved_def]] by simp
  show "i < length (ca_keys c) \<Longrightarrow> map_of m (ca_keys c ! i) = Some (ca_handles c ! i)"
    using arg_cong [OF assms [unfolded reserved_def], of "\<lambda>xs. xs ! i"] len by simp
qed

lemma reservedI:
  assumes "length (ca_handles c) = length (ca_keys c)"
    and "\<And>i. i < length (ca_keys c) \<Longrightarrow> map_of m (ca_keys c ! i) = Some (ca_handles c ! i)"
  shows "reserved m c"
  unfolding reserved_def using assms by (auto intro: nth_equalityI)

lemma reserved_keys:
  "reserved m c \<Longrightarrow> k \<in> set (ca_keys c) \<Longrightarrow> \<exists>h \<in> set (ca_handles c). map_of m k = Some h"
  by (metis in_set_conv_nth reserved_nth)

lemma reserved_handles:
  "reserved m c \<Longrightarrow> h \<in> set (ca_handles c) \<Longrightarrow> \<exists>k \<in> set (ca_keys c). map_of m k = Some h"
  by (metis in_set_conv_nth reserved_nth)

lemma reserved_transfer:
  "reserved m c \<Longrightarrow> (\<And>k h. k \<in> set (ca_keys c) \<Longrightarrow> h \<in> set (ca_handles c) \<Longrightarrow> map_of m k = Some h \<Longrightarrow> map_of m' k = Some h) \<Longrightarrow>
     reserved m' c"
  by (rule reservedI) (simp_all add: reserved_nth)

lemma call_ok_transfer:
  assumes "call_ok m n files c" and "n \<le> n'"
    and "\<And>k h. reserved m c \<Longrightarrow> k \<in> set (ca_keys c) \<Longrightarrow> h \<in> set (ca_handles c) \<Longrightarrow> map_of m k = Some h \<Longrightarrow>
      ca_phase c \<noteq> PH_Dropping \<Longrightarrow> map_of m' k = Some h"
  shows "call_ok m' n' files c"
proof -
  have "reserved m c \<Longrightarrow> ca_phase c \<noteq> PH_Dropping \<Longrightarrow> reserved m' c"
    using assms(3) by (auto intro: reserved_transfer)
  then show ?thesis using assms(1,2) unfolding call_ok_def by (auto split: phase.splits)
qed

lemma lock_keys_sorted: "sorted_wrt (<) (lock_keys fs paths)"
proof -
  have "sorted_wrt (<) (remdups_adj xs)" if "sorted xs" for xs :: "path list"
    using that by (induction xs rule: remdups_adj.induct) (auto simp: less_le)
  then show ?thesis by (simp add: lock_keys_def)
qed

section \<open>Each step keeps it\<close>

lemma registry_insert:
  "registry_ok m n \<Longrightarrow> map_of m k = None \<Longrightarrow> registry_ok (hm_insert k n m) (Suc n)"
proof -
  assume ok: "registry_ok m n" and new: "map_of m k = None"
  then have "hm_insert k n m = m @ [(k, n)]"
    by (induction k n m rule: hm_insert.induct) (auto simp: registry_ok_def hm_ok_def split: if_splits)
  then show ?thesis using ok new
    by (auto simp: registry_ok_def hm_ok_def map_of_eq_None_iff)
qed

lemma reserve_ok:
  "reserve ks m n = (hs, m', n') \<Longrightarrow> registry_ok m n \<Longrightarrow>
     registry_ok m' n' \<and> n \<le> n' \<and> map (map_of m') ks = map Some hs \<and> (\<forall>k h. map_of m k = Some h \<longrightarrow> map_of m' k = Some h)"
proof (induction ks m n arbitrary: hs m' n' rule: reserve.induct)
  case (2 k ks m n)
  show ?case
  proof (cases "map_of m k")
    case None
    obtain hs' where r: "reserve ks (hm_insert k n m) (Suc n) = (hs', m', n')" and hs: "hs = n # hs'"
      using 2(3) None by (auto split: prod.splits)
    note ih = 2(1) [OF None r registry_insert [OF 2(4) None]]
    then have kept: "map_of m' j = Some h" if "map_of (hm_insert k n m) j = Some h" for j h using that by blast
    have "map_of m' j = Some h" if "map_of m j = Some h" for j h
      using that None by (intro kept) (auto simp: map_of_hm_insert)
    moreover have "map_of m' k = Some n" by (rule kept) (simp add: map_of_hm_insert)
    ultimately show ?thesis using ih by (simp add: hs)
  next
    case (Some h)
    obtain hs' where r: "reserve ks m n = (hs', m', n')" and hs: "hs = h # hs'"
      using 2(3) Some by (auto split: prod.splits)
    from 2(2) [OF Some r 2(4)] show ?thesis using Some by (auto simp: hs)
  qed
qed auto

lemma put_call_ok:
  assumes ok: "locks_ok files s" and calls: "lk_calls s1 = lk_calls s"
    and reg: "registry_ok (lk_map s1) (lk_fresh s1)"
    and mine: "call_ok (lk_map s1) (lk_fresh s1) (lk_files s1) c'"
    and others: "\<And>t' d. t' \<noteq> t \<Longrightarrow> map_of (lk_calls s) t' = Some d \<Longrightarrow> call_ok (lk_map s1) (lk_fresh s1) (lk_files s1) d"
    and locked: "\<And>h. lk_locked s1 h \<longleftrightarrow> holds c' h \<or> (\<exists>t' d. t' \<noteq> t \<and> map_of (lk_calls s) t' = Some d \<and> holds d h)"
    and excl: "\<And>t' d h. t' \<noteq> t \<Longrightarrow> map_of (lk_calls s) t' = Some d \<Longrightarrow> holds c' h \<Longrightarrow> \<not> holds d h"
    and files: "lk_files s1 = fold atomic (lk_done s1) files"
  shows "locks_ok files (put_call t c' s1)"
  unfolding locks_ok_def
proof (intro conjI allI impI)
  show "registry_ok (lk_map (put_call t c' s1)) (lk_fresh (put_call t c' s1))" using reg by (simp add: put_call_def)
  show "hm_ok (lk_calls (put_call t c' s1))" using locks_okD(2) [OF ok] by (auto simp: put_call_def calls)
  show "lk_files (put_call t c' s1) = fold atomic (lk_done (put_call t c' s1)) files" using files by (simp add: put_call_def)
next
  fix t' d assume "map_of (lk_calls (put_call t c' s1)) t' = Some d"
  then show "call_ok (lk_map (put_call t c' s1)) (lk_fresh (put_call t c' s1)) (lk_files (put_call t c' s1)) d"
    using mine others by (auto simp: put_call_def calls map_of_hm_insert split: if_splits)
next
  fix h
  show "lk_locked (put_call t c' s1) h \<longleftrightarrow> (\<exists>t' d. map_of (lk_calls (put_call t c' s1)) t' = Some d \<and> holds d h)"
    using locked [of h] by (auto simp: put_call_def calls map_of_hm_insert split: if_splits)
next
  fix t1 c1 t2 c2 h
  assume "map_of (lk_calls (put_call t c' s1)) t1 = Some c1" "map_of (lk_calls (put_call t c' s1)) t2 = Some c2"
    "holds c1 h" "holds c2 h"
  then show "t1 = t2" using excl locks_okD(5) [OF ok, of t1 c1 t2 c2 h]
    by (auto simp: put_call_def calls map_of_hm_insert split: if_splits)
qed

text \<open>A step that locks and unlocks nothing.\<close>

lemma put_call_same_locks:
  assumes ok: "locks_ok files s" and c: "map_of (lk_calls s) t = Some c" and calls: "lk_calls s1 = lk_calls s"
    and same: "lk_locked s1 = lk_locked s" "\<And>h. holds c' h = holds c h"
    and rest: "registry_ok (lk_map s1) (lk_fresh s1)" "call_ok (lk_map s1) (lk_fresh s1) (lk_files s1) c'"
      "\<And>t' d. t' \<noteq> t \<Longrightarrow> map_of (lk_calls s) t' = Some d \<Longrightarrow> call_ok (lk_map s1) (lk_fresh s1) (lk_files s1) d"
      "lk_files s1 = fold atomic (lk_done s1) files"
  shows "locks_ok files (put_call t c' s1)"
proof (rule put_call_ok [OF ok calls rest(1,2)])
  fix h
  show "lk_locked s1 h \<longleftrightarrow> holds c' h \<or> (\<exists>t' d. t' \<noteq> t \<and> map_of (lk_calls s) t' = Some d \<and> holds d h)"
    unfolding same locks_okD(4) [OF ok] using c by (metis option.inject)
next
  fix t' d h assume "t' \<noteq> t" "map_of (lk_calls s) t' = Some d" "holds c' h"
  then show "\<not> holds d h" using locks_okD(5) [OF ok c, of t' d h] same(2) by auto
qed (auto intro: rest(3,4))

lemma count_list_pos: "h \<in> set xs \<Longrightarrow> 0 < count_list xs h"
  by (induction xs) auto

lemma count_list_once: "distinct xs \<Longrightarrow> h \<in> set xs \<Longrightarrow> count_list xs h = 1"
  by (induction xs) auto

lemma handle_count_Cons: "handle_count ((u, e) # calls) h = count_list (ca_handles e) h + handle_count calls h"
  by (simp add: handle_count_def)

lemma handle_count_ge:
  "map_of calls t = Some c \<Longrightarrow> h \<in> set (ca_handles c) \<Longrightarrow> 1 \<le> handle_count calls h"
  by (induction calls) (auto simp: handle_count_Cons Suc_le_eq count_list_pos split: if_splits)

lemma handle_count_two:
  assumes "map_of calls t = Some c" and "map_of calls t' = Some d" and "t \<noteq> t'"
    and "h \<in> set (ca_handles c)" and "h \<in> set (ca_handles d)"
  shows "2 \<le> handle_count calls h"
  using assms(1,2)
proof (induction calls)
  case (Cons a calls)
  obtain u e where a: "a = (u, e)" by (cases a)
  show ?case
  proof (cases "u = t \<or> u = t'")
    case True
    then show ?thesis
      using Cons.prems assms(3-5) count_list_pos [of h "ca_handles e"] handle_count_ge [of calls t c h] handle_count_ge [of calls t' d h]
      by (auto simp: a handle_count_Cons split: if_splits)
  next
    case False
    then show ?thesis using Cons by (auto simp: a handle_count_Cons)
  qed
qed simp

lemma registry_remove: "registry_ok m n \<Longrightarrow> registry_ok (hm_remove k m) n"
  unfolding registry_ok_def hm_remove_def by (auto simp: hm_ok_filter distinct_map_filter)

lemma registry_count: "registry_ok m n \<Longrightarrow> map_of m k = Some h \<Longrightarrow> count_list (map snd m) h = 1"
  by (rule count_list_once) (force simp: registry_ok_def dest: map_of_SomeD)+

lemma prune_ok:
  "registry_ok m n \<Longrightarrow> registry_ok (prune calls ks m) n \<and>
     (\<forall>k h. map_of m k = Some h \<longrightarrow> k \<notin> set ks \<or> 2 \<le> handle_count calls h \<longrightarrow> map_of (prune calls ks m) k = Some h)"
proof (induction ks arbitrary: m)
  case (Cons k ks)
  let ?m = "case map_of m k of Some h \<Rightarrow> if strong_count m calls h = 2 then hm_remove k m else m | None \<Rightarrow> m"
  have "registry_ok ?m n" using Cons.prems by (auto simp: registry_remove split: option.split)
  note ih = Cons.IH [OF this]
  have "map_of ?m j = Some h"
    if "map_of m j = Some h" "j \<notin> set (k # ks) \<or> 2 \<le> handle_count calls h" for j h
    using that registry_count [OF Cons.prems that(1)]
    by (auto simp: map_of_hm_remove strong_count_def split: option.split)
  then show ?case using ih by auto
qed simp

text \<open>A call that holds all its locks, and runs its change.\<close>

definition inside :: "'c call \<Rightarrow> bool" where
  "inside c \<longleftrightarrow> ca_phase c = PH_Locking (length (ca_handles c)) \<or> (\<exists>before. ca_phase c = PH_Read before)"

lemma inside_holds: "inside c \<Longrightarrow> holds c h \<longleftrightarrow> h \<in> set (ca_handles c)"
  by (auto simp: inside_def holds_def)

lemma inside_reserved: "call_ok m n files c \<Longrightarrow> inside c \<Longrightarrow> reserved m c"
  by (auto simp: inside_def call_ok_def)

lemma inside_disjoint:
  assumes ok: "locks_ok files s" and "map_of (lk_calls s) t = Some c" and "map_of (lk_calls s) t' = Some d"
    and "t \<noteq> t'" and "inside c" and "inside d"
  shows "set (ca_keys c) \<inter> set (ca_keys d) = {}"
proof (rule ccontr)
  assume "set (ca_keys c) \<inter> set (ca_keys d) \<noteq> {}"
  then obtain k where k: "k \<in> set (ca_keys c)" "k \<in> set (ca_keys d)" by blast
  have "reserved (lk_map s) c" "reserved (lk_map s) d"
    using locks_okD(3) [OF ok] assms by (auto intro: inside_reserved)
  then obtain h where "h \<in> set (ca_handles c)" "h \<in> set (ca_handles d)"
    using reserved_keys k by (metis option.inject)
  then show False using locks_okD(5) [OF ok assms(2,3)] assms(4-6) by (simp add: inside_holds)
qed

lemma distinct_handles:
  assumes "registry_ok m n" and "reserved m c" and "sorted_wrt (<) (ca_keys c)"
  shows "distinct (ca_handles c)" and "\<forall>h \<in> set (ca_handles c). h < n"
proof -
  have "distinct (ca_keys c)" using assms(3) strict_sorted_iff by blast
  then show "distinct (ca_handles c)"
    unfolding distinct_conv_nth reserved_nth(1) [OF assms(2)]
    using registry_inject [OF assms(1)] reserved_nth(2) [OF assms(2)] by metis
  show "\<forall>h \<in> set (ca_handles c). h < n"
    using reserved_handles [OF assms(2)] registry_bound [OF assms(1)] by blast
qed

lemma reserve_step_ok:
  assumes ok: "locks_ok files s" and c: "map_of (lk_calls s) t = Some c" and ph: "ca_phase c = PH_Reserve"
    and r: "reserve (ca_keys c) (lk_map s) (lk_fresh s) = (hs, m, n)"
  shows "locks_ok files (put_call t (c\<lparr>ca_handles := hs, ca_phase := PH_Locking 0\<rparr>) (s\<lparr>lk_map := m, lk_fresh := n\<rparr>))"
proof (rule put_call_same_locks [OF ok c])
  let ?c = "c\<lparr>ca_handles := hs, ca_phase := PH_Locking 0\<rparr>"
  note mine = locks_okD(3) [OF ok c]
  note res = reserve_ok [OF r locks_okD(1) [OF ok]]
  have keys: "sorted_wrt (<) (ca_keys ?c)" using mine by (simp add: call_ok_def)
  have reg: "registry_ok m n" and reserved: "reserved m ?c" using res by (simp_all add: reserved_def)
  show "call_ok (lk_map (s\<lparr>lk_map := m, lk_fresh := n\<rparr>)) (lk_fresh (s\<lparr>lk_map := m, lk_fresh := n\<rparr>))
      (lk_files (s\<lparr>lk_map := m, lk_fresh := n\<rparr>)) ?c"
    using distinct_handles [OF reg reserved keys] keys reserved by (simp add: call_ok_def)
  fix t' d assume "map_of (lk_calls s) t' = Some d"
  from call_ok_transfer [OF locks_okD(3) [OF ok this], of n m]
  show "call_ok (lk_map (s\<lparr>lk_map := m, lk_fresh := n\<rparr>)) (lk_fresh (s\<lparr>lk_map := m, lk_fresh := n\<rparr>))
      (lk_files (s\<lparr>lk_map := m, lk_fresh := n\<rparr>)) d"
    using res by simp
qed (use ph reserve_ok [OF r locks_okD(1) [OF ok]] locks_okD(6) [OF ok] in \<open>simp_all add: holds_def\<close>)

lemma lock_step_ok:
  assumes ok: "locks_ok files s" and c: "map_of (lk_calls s) t = Some c" and ph: "ca_phase c = PH_Locking i"
    and i: "i < length (ca_handles c)" and free: "\<not> lk_locked s (ca_handles c ! i)"
  shows "locks_ok files (put_call t (c\<lparr>ca_phase := PH_Locking (Suc i)\<rparr>) (s\<lparr>lk_locked := (lk_locked s)(ca_handles c ! i := True)\<rparr>))"
proof (rule put_call_ok [OF ok])
  let ?c = "c\<lparr>ca_phase := PH_Locking (Suc i)\<rparr>"
  have held: "holds ?c h \<longleftrightarrow> holds c h \<or> h = ca_handles c ! i" for h
    using i by (auto simp: holds_def ph take_Suc_conv_app_nth)
  fix h
  show "lk_locked (s\<lparr>lk_locked := (lk_locked s)(ca_handles c ! i := True)\<rparr>) h \<longleftrightarrow>
      holds ?c h \<or> (\<exists>t' d. t' \<noteq> t \<and> map_of (lk_calls s) t' = Some d \<and> holds d h)"
    using locks_okD(4) [OF ok, of h] c unfolding held by (auto simp: fun_upd_apply) (metis option.inject)+
  fix t' d assume other: "t' \<noteq> t" "map_of (lk_calls s) t' = Some d" and mine: "holds ?c h"
  have "h = ca_handles c ! i \<Longrightarrow> \<not> holds d h" using free other locks_okD(4) [OF ok] by blast
  then show "\<not> holds d h" using locks_okD(5) [OF ok c other(2)] other(1) mine unfolding held by blast
qed (use locks_okD(1,3,6) [OF ok] locks_okD(3) [OF ok c] i ph in \<open>auto simp: call_ok_def reserved_def\<close>)

lemma unlock_step_ok:
  assumes ok: "locks_ok files s" and c: "map_of (lk_calls s) t = Some c" and ph: "ca_phase c = PH_Unlocking i"
    and i: "i < length (ca_handles c)"
  shows "locks_ok files (put_call t (c\<lparr>ca_phase := PH_Unlocking (Suc i)\<rparr>) (s\<lparr>lk_locked := (lk_locked s)(ca_handles c ! i := False)\<rparr>))"
proof (rule put_call_ok [OF ok])
  let ?c = "c\<lparr>ca_phase := PH_Unlocking (Suc i)\<rparr>" and ?h = "ca_handles c ! i"
  have "distinct (ca_handles c)" using locks_okD(3) [OF ok c] by (simp add: call_ok_def)
  then have "distinct (drop i (ca_handles c))" by simp
  then have held: "holds ?c h \<longleftrightarrow> holds c h \<and> h \<noteq> ?h" for h
    using i by (auto simp: holds_def ph Cons_nth_drop_Suc [symmetric, OF i])
  have mine: "holds c ?h" using i by (simp add: holds_def ph Cons_nth_drop_Suc [symmetric, OF i])
  have free: "\<not> holds d ?h" if "t' \<noteq> t" "map_of (lk_calls s) t' = Some d" for t' d
    using locks_okD(5) [OF ok c that(2) mine] that(1) by blast
  fix h
  show "lk_locked (s\<lparr>lk_locked := (lk_locked s)(?h := False)\<rparr>) h \<longleftrightarrow>
      holds ?c h \<or> (\<exists>t' d. t' \<noteq> t \<and> map_of (lk_calls s) t' = Some d \<and> holds d h)"
    using locks_okD(4) [OF ok, of h] c free unfolding held by (auto simp: fun_upd_apply) (metis option.inject)
  fix t' d assume other: "t' \<noteq> t" "map_of (lk_calls s) t' = Some d" and "holds ?c h"
  then show "\<not> holds d h" using locks_okD(5) [OF ok c other(2)] unfolding held by blast
qed (use locks_okD(1,3,6) [OF ok] locks_okD(3) [OF ok c] i ph in \<open>auto simp: call_ok_def reserved_def\<close>)

lemma read_step_ok:
  assumes ok: "locks_ok files s" and c: "map_of (lk_calls s) t = Some c"
    and ph: "ca_phase c = PH_Locking (length (ca_handles c))"
  shows "locks_ok files (put_call t (c\<lparr>ca_phase := PH_Read (seen (ca_keys c) (lk_files s))\<rparr>) s)"
  by (rule put_call_same_locks [OF ok c])
    (use locks_okD(1,3,6) [OF ok] locks_okD(3) [OF ok c] ph in \<open>auto simp: holds_def call_ok_def reserved_def\<close>)

lemma write_step_ok:
  assumes ok: "locks_ok files s" and c: "map_of (lk_calls s) t = Some c" and ph: "ca_phase c = PH_Read before"
  shows "locks_ok files (put_call t (c\<lparr>ca_phase := PH_Unlocking 0\<rparr>)
     (s\<lparr>lk_files := written (ca_keys c) (ca_body c before) (lk_files s), lk_done := lk_done s @ [(ca_keys c, ca_body c)]\<rparr>))"
    (is "locks_ok files (put_call t ?c ?s)")
proof (rule put_call_same_locks [OF ok c])
  have before: "before = seen (ca_keys c) (lk_files s)" using locks_okD(3) [OF ok c] by (simp add: call_ok_def ph)
  show "lk_files ?s = fold atomic (lk_done ?s) files"
    using locks_okD(6) [OF ok] by (simp add: before atomic_def)
  fix t' d assume other: "t' \<noteq> t" "map_of (lk_calls s) t' = Some d"
  have "seen (ca_keys d) (lk_files ?s) = seen (ca_keys d) (lk_files s)" if "ca_phase d = PH_Read b" for b
    using inside_disjoint [OF ok c other(2)] other(1) that ph
    by (auto simp: inside_def seen_def written_def fun_eq_iff)
  then show "call_ok (lk_map ?s) (lk_fresh ?s) (lk_files ?s) d"
    using locks_okD(3) [OF ok other(2)] by (simp add: call_ok_def split: phase.splits)
qed (use locks_okD(1) [OF ok] locks_okD(3) [OF ok c] ph in \<open>auto simp: holds_def call_ok_def reserved_def\<close>)

lemma cleanup_step_ok:
  assumes ok: "locks_ok files s" and c: "map_of (lk_calls s) t = Some c"
    and ph: "ca_phase c = PH_Unlocking (length (ca_handles c))"
  shows "locks_ok files (put_call t (c\<lparr>ca_phase := PH_Dropping\<rparr>)
     (s\<lparr>lk_map := prune (lk_calls s) (ca_keys c) (lk_map s)\<rparr>))"
proof (rule put_call_same_locks [OF ok c])
  let ?m = "prune (lk_calls s) (ca_keys c) (lk_map s)"
  note pr = prune_ok [OF locks_okD(1) [OF ok], of "lk_calls s" "ca_keys c"]
  have mine: "reserved (lk_map s) c" using locks_okD(3) [OF ok c] by (simp add: call_ok_def ph)
  fix t' d assume other: "t' \<noteq> t" "map_of (lk_calls s) t' = Some d"
  have "map_of ?m k = Some h"
    if "h \<in> set (ca_handles d)" "map_of (lk_map s) k = Some h" for k h
  proof -
    have "2 \<le> handle_count (lk_calls s) h" if "k \<in> set (ca_keys c)"
      using reserved_keys [OF mine that] \<open>map_of (lk_map s) k = Some h\<close> \<open>h \<in> set (ca_handles d)\<close>
        handle_count_two [OF c other(2)] other(1) by auto
    then show ?thesis using pr that(2) by blast
  qed
  then show "call_ok (lk_map (s\<lparr>lk_map := ?m\<rparr>)) (lk_fresh (s\<lparr>lk_map := ?m\<rparr>)) (lk_files (s\<lparr>lk_map := ?m\<rparr>)) d"
    using call_ok_transfer [OF locks_okD(3) [OF ok other(2)], of "lk_fresh s" ?m] by simp
qed (use locks_okD(1,6) [OF ok] locks_okD(3) [OF ok c] ph prune_ok [OF locks_okD(1) [OF ok]]
    in \<open>auto simp: holds_def call_ok_def\<close>)

lemma drop_step_ok:
  assumes ok: "locks_ok files s" and c: "map_of (lk_calls s) t = Some c" and ph: "ca_phase c = PH_Dropping"
  shows "locks_ok files (s\<lparr>lk_calls := hm_remove t (lk_calls s)\<rparr>)"
proof -
  have "\<not> holds c h" for h by (simp add: holds_def ph)
  then have "(\<exists>t' d. map_of (lk_calls s) t' = Some d \<and> holds d h) \<longleftrightarrow>
      (\<exists>t' d. map_of (hm_remove t (lk_calls s)) t' = Some d \<and> holds d h)" for h
    using c by (auto simp: map_of_hm_remove) (metis option.inject)
  moreover have sub: "map_of (lk_calls s) t' = Some d" if "map_of (hm_remove t (lk_calls s)) t' = Some d" for t' d
    using that by (simp add: map_of_hm_remove split: if_splits)
  ultimately show ?thesis
    unfolding locks_ok_def using locks_okD [OF ok] by (auto simp: hm_ok_remove dest!: sub)
qed

lemma advance_ok: "locks_ok files s \<Longrightarrow> advance t s = Some s' \<Longrightarrow> locks_ok files s'"
proof -
  assume ok: "locks_ok files s" and run: "advance t s = Some s'"
  obtain c where c: "map_of (lk_calls s) t = Some c" using run by (auto simp: advance_def split: option.splits)
  note mine = locks_okD(3) [OF ok c, unfolded call_ok_def]
  show ?thesis
  proof (cases "ca_phase c")
    case PH_Reserve
    then show ?thesis using run c reserve_step_ok [OF ok c] by (auto simp: advance_def split: prod.splits)
  next
    case (PH_Locking i)
    then have "i \<le> length (ca_handles c)" using mine by simp
    then show ?thesis using run c PH_Locking lock_step_ok [OF ok c] read_step_ok [OF ok c]
      by (auto simp: advance_def split: if_splits)
  next
    case (PH_Read b)
    then show ?thesis using run c write_step_ok [OF ok c] by (auto simp: advance_def)
  next
    case (PH_Unlocking i)
    then have "i \<le> length (ca_handles c)" using mine by simp
    then show ?thesis using run c PH_Unlocking unlock_step_ok [OF ok c] cleanup_step_ok [OF ok c]
      by (auto simp: advance_def split: if_splits)
  next
    case PH_Dropping
    then show ?thesis using run c drop_step_ok [OF ok c] by (auto simp: advance_def)
  qed
qed

lemma panic_ok: "locks_ok files s \<Longrightarrow> panic t s = Some s' \<Longrightarrow> locks_ok files s'"
proof -
  assume ok: "locks_ok files s" and run: "panic t s = Some s'"
  obtain c where c: "map_of (lk_calls s) t = Some c" and s': "s' = put_call t (c\<lparr>ca_phase := PH_Unlocking 0\<rparr>) s" and ins: "inside c"
    using run by (auto simp: panic_def inside_def split: option.splits phase.splits if_splits)
  show ?thesis unfolding s'
    by (rule put_call_same_locks [OF ok c])
      (use locks_okD(1,3,6) [OF ok] locks_okD(3) [OF ok c] ins inside_reserved [OF _ ins]
        in \<open>auto simp: inside_holds holds_def [of "c\<lparr>ca_phase := PH_Unlocking 0\<rparr>"] call_ok_def reserved_def\<close>)
qed

lemma reach_ok: "locks_reach files s \<Longrightarrow> locks_ok files s"
proof (induction rule: locks_reach.induct)
  case start
  show ?case by (simp add: locks_ok_def locks_start_def registry_ok_def)
next
  case (called s t fs paths body)
  let ?c = "\<lparr>ca_keys = lock_keys fs paths, ca_body = body, ca_handles = [], ca_phase = PH_Reserve\<rparr>"
  have none: "map_of (lk_calls s) t = None" using called(2) by (simp add: map_of_eq_None_iff)
  have "\<not> holds ?c h" for h by (simp add: holds_def)
  moreover have "call_ok (lk_map s) (lk_fresh s) (lk_files s) ?c" by (simp add: call_ok_def lock_keys_sorted)
  ultimately have "locks_ok files (put_call t ?c s)"
    using called.IH none locks_okD [OF called.IH]
    by (intro put_call_ok) (auto, metis option.distinct(1))
  then show ?case by (simp add: begin_call_def put_call_def)
qed (auto intro: advance_ok panic_ok)

section \<open>Progress\<close>

lemma blocked_call:
  assumes "map_of (lk_calls s) t = Some c" and "advance t s = None"
  shows "\<exists>i. ca_phase c = PH_Locking i \<and> i < length (ca_handles c) \<and> lk_locked s (ca_handles c ! i)"
  using assms by (auto simp: advance_def split: phase.splits if_splits prod.splits)

text \<open>A locked mutex belongs to another call, which has locked the same file.\<close>

lemma waits_for:
  assumes ok: "locks_ok files s" and c: "map_of (lk_calls s) t = Some c" and ph: "ca_phase c = PH_Locking i"
    and i: "i < length (ca_handles c)" and locked: "lk_locked s (ca_handles c ! i)"
  shows "\<exists>u e. u \<noteq> t \<and> map_of (lk_calls s) u = Some e \<and> holds e (ca_handles c ! i) \<and> ca_keys c ! i \<in> set (ca_keys e) \<and>
     set (ca_keys c) \<inter> set (ca_keys e) \<noteq> {}"
proof -
  obtain u e where e: "map_of (lk_calls s) u = Some e" "holds e (ca_handles c ! i)"
    using locked locks_okD(4) [OF ok] by blast
  have c_ok: "distinct (ca_handles c)" "reserved (lk_map s) c" using locks_okD(3) [OF ok c] by (simp_all add: call_ok_def ph)
  have "\<not> holds c (ca_handles c ! i)"
    using c_ok(1) i by (auto simp: holds_def ph in_set_conv_nth nth_eq_iff_index_eq)
  then have other: "u \<noteq> t" using c e by auto
  have "reserved (lk_map s) e" using locks_okD(3) [OF ok e(1)] e(2) by (auto simp: call_ok_def holds_def split: phase.splits)
  moreover have "ca_handles c ! i \<in> set (ca_handles e)" using e(2)
    by (auto simp: holds_def dest: in_set_takeD in_set_dropD split: phase.splits)
  ultimately obtain k where k: "k \<in> set (ca_keys e)" "map_of (lk_map s) k = Some (ca_handles c ! i)"
    using reserved_handles by blast
  have "map_of (lk_map s) (ca_keys c ! i) = Some (ca_handles c ! i)"
    using reserved_nth [OF c_ok(2)] i by simp
  then have "k = ca_keys c ! i" using registry_inject [OF locks_okD(1) [OF ok]] k(2) by blast
  moreover have "ca_keys c ! i \<in> set (ca_keys c)" using i reserved_nth(1) [OF c_ok(2)] by simp
  ultimately show ?thesis using other e k(1) by blast
qed

text \<open>Where a blocked call waits; keys are locked in ascending order.\<close>

definition waited :: "'c call \<Rightarrow> path" where
  "waited c = (case ca_phase c of PH_Locking i \<Rightarrow> ca_keys c ! i | _ \<Rightarrow> [])"

lemma waits_further:
  assumes ok: "locks_ok files s" and e: "map_of (lk_calls s) u = Some e" and "advance u s = None"
    and held: "holds e h" and k: "map_of (lk_map s) k = Some h"
  shows "k < waited e"
proof -
  obtain j where ph: "ca_phase e = PH_Locking j" and j: "j < length (ca_handles e)"
    using blocked_call [OF e assms(3)] by blast
  have e_ok: "sorted_wrt (<) (ca_keys e)" "reserved (lk_map s) e" using locks_okD(3) [OF ok e] by (simp_all add: call_ok_def ph)
  obtain l where l: "l < j" "ca_handles e ! l = h" using held j by (auto simp: holds_def ph in_set_conv_nth)
  have "map_of (lk_map s) (ca_keys e ! l) = Some h" using reserved_nth [OF e_ok(2)] l j by simp
  then have "ca_keys e ! l = k" using registry_inject [OF locks_okD(1) [OF ok]] k by blast
  moreover have "ca_keys e ! l < ca_keys e ! j"
    using e_ok(1) l(1) j reserved_nth(1) [OF e_ok(2)] by (simp add: sorted_wrt_iff_nth_less)
  ultimately show ?thesis by (simp add: waited_def ph)
qed

lemma some_call_advances:
  assumes ok: "locks_ok files s" and busy: "lk_calls s \<noteq> []"
  shows "\<exists>t s'. advance t s = Some s'"
proof (rule ccontr)
  assume "\<not> ?thesis"
  then have stuck: "advance t s = None" for t by (cases "advance t s") auto
  let ?W = "waited ` {c. \<exists>t. map_of (lk_calls s) t = Some c}"
  have "{c. \<exists>t. map_of (lk_calls s) t = Some c} = ran (map_of (lk_calls s))" by (auto simp: ran_def)
  then have fin: "finite ?W" by (simp add: finite_ran finite_dom_map_of)
  obtain t0 c0 where "(t0, c0) \<in> set (lk_calls s)" using busy by (cases "lk_calls s") auto
  then have "?W \<noteq> {}" using locks_okD(2) [OF ok] by (auto simp: hm_ok_def dest: map_of_is_SomeI)
  then have "Max ?W \<in> ?W" by (rule Max_in [OF fin])
  then obtain t c where c: "map_of (lk_calls s) t = Some c" and "Max ?W = waited c" by blast
  then have top: "\<And>w. w \<in> ?W \<Longrightarrow> w \<le> waited c" using Max_ge [OF fin] by metis
  obtain i where ph: "ca_phase c = PH_Locking i" and i: "i < length (ca_handles c)"
    and locked: "lk_locked s (ca_handles c ! i)" using blocked_call [OF c stuck] by blast
  obtain u e where e: "map_of (lk_calls s) u = Some e" "holds e (ca_handles c ! i)"
    using waits_for [OF ok c ph i locked] by blast
  have "reserved (lk_map s) c" using locks_okD(3) [OF ok c] by (simp add: call_ok_def ph)
  then have "map_of (lk_map s) (ca_keys c ! i) = Some (ca_handles c ! i)" using reserved_nth i by fastforce
  from waits_further [OF ok e(1) stuck e(2) this] have "waited c < waited e" by (simp add: waited_def ph)
  moreover have "waited e \<le> waited c" using e(1) by (intro top) blast
  ultimately show False by simp
qed

text \<open>How many steps a call has before it.\<close>

definition work :: "'c call \<Rightarrow> nat" where
  "work c = (let n = length (ca_keys c) in case ca_phase c of
     PH_Reserve \<Rightarrow> 2 * n + 5 | PH_Locking i \<Rightarrow> (n - i) + n + 4 | PH_Read _ \<Rightarrow> n + 3
   | PH_Unlocking i \<Rightarrow> (n - i) + 2 | PH_Dropping \<Rightarrow> 1)"

definition total_work :: "'c locks \<Rightarrow> nat" where
  "total_work s = (\<Sum>(_, c)\<leftarrow>lk_calls s. work c)"

lemma work_insert:
  "hm_ok m \<Longrightarrow> map_of m t = Some c \<Longrightarrow>
     (\<Sum>(_, c)\<leftarrow>hm_insert t c' m. work c) + work c = (\<Sum>(_, c)\<leftarrow>m. work c) + work c'"
  by (induction t c' m rule: hm_insert.induct) (auto simp: hm_ok_def)

lemma work_remove:
  "hm_ok m \<Longrightarrow> map_of m t = Some c \<Longrightarrow> (\<Sum>(_, c)\<leftarrow>hm_remove t m. work c) + work c = (\<Sum>(_, c)\<leftarrow>m. work c)"
proof (induction m)
  case (Cons a m)
  obtain u d where a: "a = (u, d)" by (cases a)
  show ?case
  proof (cases "u = t")
    case True
    then have "hm_remove t m = m" using Cons.prems by (force simp: a hm_ok_def hm_remove_def filter_id_conv)
    then show ?thesis using True Cons.prems by (simp add: a hm_remove_def)
  next
    case False
    then show ?thesis using Cons by (simp add: a hm_ok_def hm_remove_def)
  qed
qed simp

lemma advance_works:
  assumes ok: "locks_ok files s" and run: "advance t s = Some s'"
  shows "total_work s' < total_work s"
proof -
  obtain c where c: "map_of (lk_calls s) t = Some c" using run by (auto simp: advance_def split: option.splits)
  have mine: "call_ok (lk_map s) (lk_fresh s) (lk_files s) c" by (rule locks_okD(3) [OF ok c])
  have less: "total_work (put_call t c' s1) < total_work s" if "work c' < work c" "lk_calls s1 = lk_calls s" for c' s1
    using work_insert [OF locks_okD(2) [OF ok] c, of c'] that by (simp add: total_work_def put_call_def)
  show ?thesis
  proof (cases "ca_phase c")
    case PH_Dropping
    then show ?thesis using run c work_remove [OF locks_okD(2) [OF ok] c]
      by (auto simp: advance_def total_work_def work_def)
  qed (use run c mine reserved_nth(1) [of "lk_map s" c] in \<open>auto simp: advance_def work_def call_ok_def Let_def
      intro!: less split: prod.splits if_splits\<close>)
qed

section \<open>What the locks guarantee\<close>

lemma run_locks_reach: "run_locks fs ops s = Some s' \<Longrightarrow> locks_reach files s \<Longrightarrow> locks_reach files s'"
  by (induction fs ops s rule: run_locks.induct)
    (auto intro: locks_reach.called locks_reach.step split: if_splits option.splits)

text \<open>Two threads that append to the same file, which one of them names through a link.\<close>

definition sample_fs :: Fs where
  "sample_fs = \<lparr>fs_canonicalize = (\<lambda>p. if p = [RootDir, Normal ''link''] then Some [RootDir, Normal ''a''] else Some p),
     fs_current_dir = None\<rparr>"

definition append_text :: "string \<Rightarrow> (path \<Rightarrow> string option) \<Rightarrow> path \<Rightarrow> string" where
  "append_text new before k = (case before k of Some old \<Rightarrow> old @ new | None \<Rightarrow> new)"

definition sample_schedule :: "string lock_op list" where
  "sample_schedule = [LO_Call 1 [[RootDir, Normal ''a'']] (append_text ''x''),
     LO_Call 2 [[RootDir, Normal ''link''], [RootDir, Normal ''b'']] (append_text ''y''),
     LO_Step 1, LO_Step 2, LO_Step 1, LO_Step 1]"

text \<open>
  C10. Two changes never run at the same time on a common file, whatever other calls
  start, wait, finish or panic, and although entries of the registry come and go; and
  a call waits only for another one that locks one of the same files.
\<close>

theorem changes_exclude_each_other:
  assumes "locks_reach files s" and "map_of (lk_calls s) t = Some c" and "map_of (lk_calls s) t' = Some d" and "t \<noteq> t'"
  shows "(inside c \<and> inside d \<longrightarrow> set (ca_keys c) \<inter> set (ca_keys d) = {}) \<and>
    (advance t s = None \<longrightarrow> (\<exists>u e. u \<noteq> t \<and> map_of (lk_calls s) u = Some e \<and> set (ca_keys c) \<inter> set (ca_keys e) \<noteq> {}))"
proof (intro conjI impI)
  note ok = reach_ok [OF assms(1)]
  show "set (ca_keys c) \<inter> set (ca_keys d) = {}" if "inside c \<and> inside d"
    using inside_disjoint [OF ok assms(2-4)] that by blast
  assume "advance t s = None"
  then obtain i where ph: "ca_phase c = PH_Locking i" and i: "i < length (ca_handles c)"
    and "lk_locked s (ca_handles c ! i)" using blocked_call [OF assms(2)] by blast
  from waits_for [OF ok assms(2) this] show "\<exists>u e. u \<noteq> t \<and> map_of (lk_calls s) u = Some e \<and> set (ca_keys c) \<inter> set (ca_keys e) \<noteq> {}"
    by blast
qed

theorem changes_exclude_each_other_witness:
  "\<exists>s c d. run_locks sample_fs sample_schedule (locks_start (\<lambda>_. [])) = Some s \<and> map_of (lk_calls s) 2 = Some c \<and>
     map_of (lk_calls s) 1 = Some d \<and> inside d \<and> \<not> inside c \<and>
     (\<exists>u e. u \<noteq> 2 \<and> map_of (lk_calls s) u = Some e \<and> set (ca_keys c) \<inter> set (ca_keys e) \<noteq> {})"
proof -
  have "case run_locks sample_fs sample_schedule (locks_start (\<lambda>_. [])) of None \<Rightarrow> False | Some s \<Rightarrow>
      Option.is_none (advance 2 s) \<and> (case map_of (lk_calls s) 2 of None \<Rightarrow> False | Some c \<Rightarrow>
        (case ca_phase c of PH_Locking i \<Rightarrow> i < length (ca_handles c) | _ \<Rightarrow> False)) \<and>
      (case map_of (lk_calls s) 1 of None \<Rightarrow> False | Some d \<Rightarrow> (case ca_phase d of PH_Read _ \<Rightarrow> True | _ \<Rightarrow> False))"
    by code_simp
  then obtain s c d i b where run: "run_locks sample_fs sample_schedule (locks_start (\<lambda>_. [])) = Some s"
    and c: "map_of (lk_calls s) 2 = Some c" "ca_phase c = PH_Locking i" "i < length (ca_handles c)"
    and d: "map_of (lk_calls s) 1 = Some d" "ca_phase d = PH_Read b" and stuck: "advance 2 s = None"
    by (auto simp: Option.is_none_def split: option.splits phase.splits)
  have reach: "locks_reach (\<lambda>_. []) s" by (rule run_locks_reach [OF run locks_reach.start])
  have "inside d" "\<not> inside c" using c d by (simp_all add: inside_def)
  then show ?thesis
    using changes_exclude_each_other [OF reach c(1) d(1)] run c d stuck by auto
qed

text \<open>
  C11. Calls that lock several files cannot block each other for ever: while any call
  is in progress, one of them can go on, and every step brings the calls in progress
  nearer to their end.
\<close>

theorem calls_never_deadlock:
  assumes "locks_reach files s"
  shows "(lk_calls s \<noteq> [] \<longrightarrow> (\<exists>t s'. advance t s = Some s')) \<and>
    (\<forall>t s'. advance t s = Some s' \<longrightarrow> total_work s' < total_work s)"
  using some_call_advances [OF reach_ok [OF assms]] advance_works [OF reach_ok [OF assms]] by blast

theorem calls_never_deadlock_witness:
  "\<exists>s. run_locks sample_fs sample_schedule (locks_start (\<lambda>_. [])) = Some s \<and> (\<exists>t s'. advance t s = Some s' \<and> total_work s' < total_work s)"
proof -
  have "case run_locks sample_fs sample_schedule (locks_start (\<lambda>_. [])) of None \<Rightarrow> False | Some s \<Rightarrow> \<not> List.null (lk_calls s)"
    by code_simp
  then obtain s where run: "run_locks sample_fs sample_schedule (locks_start (\<lambda>_. [])) = Some s" and "lk_calls s \<noteq> []"
    by (auto split: option.splits)
  have reach: "locks_reach (\<lambda>_. []) s" by (rule run_locks_reach [OF run locks_reach.start])
  from calls_never_deadlock [OF reach] \<open>lk_calls s \<noteq> []\<close> run show ?thesis by blast
qed



text \<open>
  C<n>. An entry of the registry can outlive every call that used it: a call counts its
  own handles, which it gives up only after it has looked at the registry, so two
  calls that end together each see the other's handle and neither removes the
  entry.
\<close>

theorem entry_outlives_calls:
  "\<exists>s. locks_reach files s \<and> lk_calls s = [] \<and> lk_map s = [(mutation_key fs p, 0)]"
proof -
  have "\<exists>s. run_locks fs ([LO_Call 1 [p] (\<lambda>_ _. c), LO_Call 2 [p] (\<lambda>_ _. c)] @
     map LO_Step [1, 2, 1, 1, 1, 1, 2, 2, 2, 2, 1, 2, 1, 2]) (locks_start files) = Some s \<and>
     lk_calls s = [] \<and> lk_map s = [(mutation_key fs p, 0)]" for c
    by (simp add: lock_keys_def locks_start_def begin_call_def advance_def put_call_def strong_count_def handle_count_def
        hm_remove_def)
  then show ?thesis using run_locks_reach locks_reach.start by blast
qed

end
