(* ===== verification/Str_Search.thy ===== *)
theory Str_Search
  imports Text_Sanitize
begin

text \<open>
  Searching and cutting strings as Rust's library does: \<open>str::split\<close>, \<open>match_indices\<close>
  and \<open>replace\<close> with a non-empty pattern find the matches from left to right without
  overlap; \<open>lines\<close>; slices at byte offsets, which must be character boundaries. A
  match of valid text in valid text never cuts a character.
\<close>

section \<open>Definitions\<close>

function str_split :: "string \<Rightarrow> string \<Rightarrow> string list" where
  "str_split pat [] = [[]]"
| "str_split pat (c # s) =
     (if pat \<noteq> [] \<and> take (length pat) (c # s) = pat then [] # str_split pat (drop (length pat) (c # s))
      else (case str_split pat s of p # ps \<Rightarrow> (c # p) # ps | [] \<Rightarrow> []))"
  by pat_completeness auto

termination
  by (relation "measure (length \<circ> snd)") auto

declare str_split.simps(2) [simp del]

fun offsets_of :: "nat \<Rightarrow> nat \<Rightarrow> string list \<Rightarrow> nat list" where
  "offsets_of len n (p # q # ps) = (n + length p) # offsets_of len (n + length p + len) (q # ps)"
| "offsets_of len n ps = []"

definition match_indices :: "string \<Rightarrow> string \<Rightarrow> nat list" where
  "match_indices pat s = offsets_of (length pat) 0 (str_split pat s)"

definition str_replace :: "string \<Rightarrow> string \<Rightarrow> string \<Rightarrow> string" where
  "str_replace pat new s = join new (str_split pat s)"

definition str_has :: "string \<Rightarrow> string \<Rightarrow> bool" where
  "str_has pat s \<longleftrightarrow> pat = [] \<or> length (str_split pat s) > 1"

definition str_lines :: "string \<Rightarrow> string list" where
  "str_lines s = (let ps = split_lines s in map strip_cr (butlast ps) @ (if last ps = [] then [] else [last ps]))"

text \<open>\<open>get(..i)\<close> and \<open>get(i..)\<close> with the empty string for a cut inside a character.\<close>

definition slice_to :: "string \<Rightarrow> nat \<Rightarrow> string" where
  "slice_to s i = (if is_char_boundary s i then take i s else [])"

definition slice_from :: "string \<Rightarrow> nat \<Rightarrow> string" where
  "slice_from s i = (if is_char_boundary s i then drop i s else [])"

text \<open>\<open>str::to_ascii_lowercase\<close> and \<open>str::split_once\<close> at a byte.\<close>

definition to_ascii_lowercase :: "string \<Rightarrow> string" where
  "to_ascii_lowercase s = map (\<lambda>c. if 65 \<le> (of_char c :: nat) \<and> (of_char c :: nat) \<le> 90 then char_of (of_char c + 32 :: nat) else c) s"

definition split_once :: "char \<Rightarrow> string \<Rightarrow> (string \<times> string) option" where
  "split_once c s = (if c \<in> set s then Some (takeWhile (\<lambda>d. d \<noteq> c) s, tl (dropWhile (\<lambda>d. d \<noteq> c) s)) else None)"

section \<open>Splitting\<close>

lemma str_split_nonempty [simp]: "str_split pat s \<noteq> []"
  by (induction pat s rule: str_split.induct) (auto simp: str_split.simps(2) split: list.split)

lemma join_Cons: "ps \<noteq> [] \<Longrightarrow> join sep (p # ps) = p @ sep @ join sep ps"
  by (cases ps) auto

lemma join_head: "join sep ((c # p) # ps) = c # join sep (p # ps)"
  by (cases ps) auto

lemma join_str_split: "join pat (str_split pat s) = s"
proof (induction pat s rule: str_split.induct)
  case (2 pat c s)
  show ?case
  proof (cases "pat \<noteq> [] \<and> take (length pat) (c # s) = pat")
    case True
    then have "join pat (str_split pat (c # s)) = pat @ drop (length pat) (c # s)"
      using 2(1) [OF True] by (simp add: str_split.simps(2) join_Cons)
    then show ?thesis using True append_take_drop_id [of "length pat" "c # s"] by metis
  next
    case False
    obtain p ps where ps: "str_split pat s = p # ps" using str_split_nonempty [of pat s] by (cases "str_split pat s") auto
    have "str_split pat (c # s) = (c # p) # ps" using False ps unfolding str_split.simps(2) by (simp only: if_False list.case)
    then show ?thesis using 2(2) [OF False] ps by (simp add: join_head)
  qed
qed simp

lemma str_replace_Nil [simp]: "str_replace pat new [] = []"
  by (simp add: str_replace_def)

lemma str_replace_Cons:
  "str_replace pat new (c # s) =
     (if pat \<noteq> [] \<and> take (length pat) (c # s) = pat then new @ str_replace pat new (drop (length pat) (c # s))
      else c # str_replace pat new s)"
proof (cases "pat \<noteq> [] \<and> take (length pat) (c # s) = pat")
  case False
  obtain p ps where ps: "str_split pat s = p # ps" using str_split_nonempty [of pat s] by (cases "str_split pat s") auto
  have "str_split pat (c # s) = (c # p) # ps" using False ps unfolding str_split.simps(2) by (simp only: if_False list.case)
  then show ?thesis using False unfolding str_replace_def by (simp only: ps join_head if_False)
qed (simp add: str_replace_def str_split.simps(2) join_Cons)

lemma str_replace_none: "\<not> str_has pat s \<Longrightarrow> str_replace pat new s = s"
proof -
  assume none: "\<not> str_has pat s"
  then obtain p where "str_split pat s = [p]"
    using str_split_nonempty [of pat s] by (cases "str_split pat s" rule: remdups_adj.cases) (auto simp: str_has_def)
  then show ?thesis using join_str_split [of pat s] by (simp add: str_replace_def)
qed

lemma offsets_length: "length (offsets_of len n ps) = length ps - 1"
  by (induction len n ps rule: offsets_of.induct) auto

lemma match_indices_length: "length (match_indices pat s) = length (str_split pat s) - 1"
  by (simp add: match_indices_def offsets_length)

text \<open>Where a match is, the text has the pattern.\<close>

lemma offsets_cut:
  "i \<in> set (offsets_of (length pat) n ps) \<Longrightarrow> \<exists>pre post. join pat ps = pre @ pat @ post \<and> i = n + length pre"
proof (induction "length pat" n ps rule: offsets_of.induct)
  case (1 n p q ps)
  show ?case
  proof (cases "i = n + length p")
    case True
    then show ?thesis by (intro exI [of _ p] exI [of _ "join pat (q # ps)"]) simp
  next
    case False
    then obtain pre post where "join pat (q # ps) = pre @ pat @ post" and "i = n + length p + length pat + length pre"
      using 1 by auto
    then show ?thesis by (intro exI [of _ "p @ pat @ pre"] exI [of _ post]) simp
  qed
qed auto

lemma match_cut:
  "i \<in> set (match_indices pat s) \<Longrightarrow> \<exists>pre post. s = pre @ pat @ post \<and> i = length pre"
  using offsets_cut [of i pat 0 "str_split pat s"] by (simp add: match_indices_def join_str_split)

lemma single_match:
  assumes "length (match_indices pat s) = 1"
  shows "\<exists>pre post. str_split pat s = [pre, post] \<and> s = pre @ pat @ post \<and> match_indices pat s = [length pre]"
proof -
  have "length (str_split pat s) = 2" using assms by (simp add: match_indices_length)
  then obtain pre post where ps: "str_split pat s = [pre, post]"
    by (auto simp: numeral_2_eq_2 length_Suc_conv)
  then show ?thesis using join_str_split [of pat s] by (simp add: match_indices_def)
qed

text \<open>No match is missed: text without a match does not contain the pattern.\<close>

lemma str_split_single:
  assumes "pat \<noteq> []"
  shows "length (str_split pat (pre @ pat @ post)) > 1"
  using assms
proof (induction "length pre" arbitrary: pre rule: less_induct)
  case less
  let ?s = "pre @ pat @ post"
  obtain c s where s: "?s = c # s" using less.prems by (cases ?s) auto
  show ?case
  proof (cases "take (length pat) ?s = pat")
    case True
    then show ?thesis using less.prems str_split_nonempty [of pat "drop (length pat) ?s"]
      unfolding s by (simp add: str_split.simps(2) Suc_lessI)
  next
    case False
    then have ne: "pre \<noteq> []" by auto
    then have s': "s = tl pre @ pat @ post" using s by (cases pre) auto
    have "length (str_split pat s) > 1" using less.hyps [of "tl pre"] ne less.prems unfolding s' by simp
    then show ?thesis using False unfolding s by (auto simp: str_split.simps(2) split: list.split)
  qed
qed

lemma str_has_iff: "str_has pat s \<longleftrightarrow> (\<exists>pre post. s = pre @ pat @ post)"
proof
  assume con: "str_has pat s"
  show "\<exists>pre post. s = pre @ pat @ post"
  proof (cases "pat = []")
    case False
    then have "match_indices pat s \<noteq> []" using con match_indices_length [of pat s] by (auto simp: str_has_def)
    then obtain i where "i \<in> set (match_indices pat s)" by (cases "match_indices pat s") auto
    from match_cut [OF this] show ?thesis by blast
  qed (intro exI [of _ "[]"] exI [of _ s], simp)
next
  assume "\<exists>pre post. s = pre @ pat @ post"
  then obtain pre post where "s = pre @ pat @ post" by blast
  then show "str_has pat s" using str_split_single [of pat pre post] by (auto simp: str_has_def)
qed

lemma no_match_iff: "pat \<noteq> [] \<Longrightarrow> match_indices pat s = [] \<longleftrightarrow> \<not> str_has pat s"
  using match_indices_length [of pat s] str_split_nonempty [of pat s]
  by (cases "str_split pat s"; cases "match_indices pat s") (auto simp: str_has_def)

text \<open>The pieces between the matches do not contain the pattern.\<close>

lemma str_has_Cons: "str_has pat (c # p) \<longleftrightarrow> take (length pat) (c # p) = pat \<or> str_has pat p"
proof
  assume "str_has pat (c # p)"
  then obtain pre post where s: "c # p = pre @ pat @ post" by (auto simp: str_has_iff)
  then show "take (length pat) (c # p) = pat \<or> str_has pat p"
    by (cases pre) (auto simp: str_has_iff)
next
  assume "take (length pat) (c # p) = pat \<or> str_has pat p"
  then show "str_has pat (c # p)"
  proof
    assume "take (length pat) (c # p) = pat"
    then have "c # p = [] @ pat @ drop (length pat) (c # p)" by (metis append_Nil append_take_drop_id)
    then show ?thesis unfolding str_has_iff by blast
  next
    assume "str_has pat p"
    then obtain pre post where "p = pre @ pat @ post" by (auto simp: str_has_iff)
    then have "c # p = (c # pre) @ pat @ post" by simp
    then show ?thesis unfolding str_has_iff by blast
  qed
qed

lemma str_split_pieces: "pat \<noteq> [] \<Longrightarrow> p \<in> set (str_split pat s) \<Longrightarrow> \<not> str_has pat p"
proof (induction pat s arbitrary: p rule: str_split.induct)
  case (1 pat)
  then show ?case by (auto simp: str_has_iff)
next
  case (2 pat c s)
  show ?case
  proof (cases "take (length pat) (c # s) = pat")
    case True
    then show ?thesis using 2(1,3,4) by (auto simp: str_split.simps(2) str_has_iff)
  next
    case False
    obtain q ps where ps: "str_split pat s = q # ps" using str_split_nonempty [of pat s] by (cases "str_split pat s") auto
    have "\<exists>t. s = q @ t" using join_str_split [of pat s] unfolding ps by (cases ps) auto
    then obtain t where "s = q @ t" ..
    then have "take (length pat) (c # q) \<noteq> pat"
    proof (intro notI)
      assume "s = q @ t" and eq: "take (length pat) (c # q) = pat"
      have "length pat \<le> length (c # q)" by (metis eq length_take min.cobounded1)
      then have "take (length pat) ((c # q) @ t) = take (length pat) (c # q)" unfolding take_append by simp
      then have "take (length pat) (c # s) = pat" using eq \<open>s = q @ t\<close> by simp
      then show False using False by simp
    qed
    then show ?thesis using False 2(2,3,4) ps
      by (auto simp: str_split.simps(2) str_has_Cons)
  qed
qed

section \<open>Valid text\<close>

lemma str_of_chars_inject:
  "list_all is_scalar xs \<Longrightarrow> list_all is_scalar ys \<Longrightarrow> str_of_chars xs = str_of_chars ys \<Longrightarrow> xs = ys"
  by (metis chars_of_chars)

lemma encode_head_not_cont: "is_scalar c \<Longrightarrow> \<not> is_cont (hd (encode_scalar c))"
  by (auto simp: encode_scalar_def is_cont_def is_scalar_def)

lemma valid_head:
  assumes "valid_str (c # s)"
  shows "\<not> is_cont (of_char c)"
proof -
  obtain x xs where cs: "chars (c # s) = x # xs"
    using assms by (cases "chars (c # s)") (auto simp: valid_str_def str_of_chars_def str_of_vals_def)
  then have x: "is_scalar x" using chars_scalar [of "c # s"] by simp
  obtain b bs where e: "encode_scalar x = b # bs" using encode_scalar_nonempty [of x] by (cases "encode_scalar x") auto
  have "c = char_of b" using assms by (simp add: valid_str_def cs str_of_chars_def str_of_vals_def e)
  moreover have "b < 256" using encode_scalar_bytes [OF x] by (simp add: e)
  ultimately show ?thesis using encode_head_not_cont [OF x] by (simp add: e of_char_of)
qed

text \<open>A cut at a boundary gives two valid texts.\<close>

lemma valid_cut:
  assumes "valid_str s" and "is_char_boundary s i"
  shows "valid_str (take i s) \<and> valid_str (drop i s)"
proof -
  let ?e = "utf8_encode (chars s)"
  have s: "s = map char_of ?e" using assms(1) by (simp add: valid_str_def str_of_chars_def str_of_vals_def)
  have "\<exists>k. take i s = str_of_chars (take k (chars s))"
  proof (cases "i = 0 \<or> i = length s")
    case True
    then show ?thesis
    proof
      assume "i = 0" then show ?thesis by (intro exI [of _ 0]) (simp add: str_of_chars_def str_of_vals_def)
    next
      assume "i = length s" then show ?thesis
        using assms(1) by (intro exI [of _ "length (chars s)"]) (simp add: valid_str_def)
    qed
  next
    case False
    then have i: "i < length s" "\<not> is_cont (of_char (s ! i))" using assms(2) by (auto simp: is_char_boundary_def)
    have len: "i < length ?e" using i(1) s by (metis length_map)
    have "?e ! i < 256" using utf8_encode_bytes [OF chars_scalar [of s]] nth_mem [OF len] by auto
    moreover have "s ! i = char_of (?e ! i)" using len s by (metis nth_map)
    ultimately have "\<not> is_cont (?e ! i)" using i(2) by (simp add: of_char_of)
    then obtain k where "take i ?e = utf8_encode (take k (chars s))" using take_boundary [OF chars_scalar len] by blast
    then have "take i s = map char_of (utf8_encode (take k (chars s)))" using s by (metis take_map)
    then show ?thesis by (intro exI [of _ k]) (simp add: str_of_chars_def str_of_vals_def)
  qed
  then obtain k where k: "take i s = str_of_chars (take k (chars s))" ..
  have "s = str_of_chars (take k (chars s)) @ str_of_chars (drop k (chars s))"
    using assms(1) by (simp add: valid_str_def flip: str_of_chars_append)
  then have "drop i s = str_of_chars (drop k (chars s))" using k append_take_drop_id [of i s] by (metis same_append_eq)
  moreover have "list_all is_scalar (take k (chars s))" "list_all is_scalar (drop k (chars s))"
    using chars_scalar [of s] by (auto simp: list_all_iff dest: in_set_takeD in_set_dropD)
  ultimately show ?thesis using k valid_of_chars by metis
qed

lemma valid_cancel_front:
  assumes "valid_str a" and "valid_str (a @ b)"
  shows "valid_str b"
proof -
  have step: "valid_str (str_of_chars cs @ t) \<Longrightarrow> list_all is_scalar cs \<Longrightarrow> valid_str t" for cs t
  proof (induction cs)
    case (Cons c cs)
    let ?u = "str_of_chars cs @ t"
    have full: "str_of_chars (c # cs) @ t = str_of_vals (encode_scalar c) @ ?u"
      by (simp add: str_of_chars_def str_of_vals_def)
    have c: "is_scalar c" using Cons.prems(2) by simp
    have "chars (str_of_chars (c # cs) @ t) = c # chars ?u"
      using c encode_scalar_bytes [OF c]
      by (simp add: full chars_def str_vals_def [of "_ @ _"] utf8_scalars_encode_Cons
          flip: str_vals_def) (simp add: str_vals_of_vals utf8_scalars_encode_Cons)
    then have "str_of_chars (c # cs) @ t = str_of_vals (encode_scalar c) @ str_of_chars (chars ?u)"
      using Cons.prems(1) by (simp add: valid_str_def str_of_chars_def str_of_vals_def)
    then have "valid_str ?u" unfolding full by (simp add: valid_str_def)
    then show ?case using Cons by simp
  qed (simp add: str_of_chars_def str_of_vals_def)
  show ?thesis using step [of "chars a" b] assms chars_scalar [of a] by (simp add: valid_str_def)
qed

lemma valid_match:
  assumes "valid_str (pre @ pat @ post)" and "valid_str pat" and "pat \<noteq> []"
  shows "valid_str pre" and "valid_str post"
    and "is_char_boundary (pre @ pat @ post) (length pre)"
    and "is_char_boundary (pre @ pat @ post) (length pre + length pat)"
proof -
  obtain c p where pat: "pat = c # p" using assms(3) by (cases pat) auto
  have "\<not> is_cont (of_char c)" using valid_head assms(2) by (simp add: pat)
  then show b: "is_char_boundary (pre @ pat @ post) (length pre)" by (simp add: is_char_boundary_def pat nth_append)
  from valid_cut [OF assms(1) b] have pre: "valid_str pre" and rest: "valid_str (pat @ post)" by simp_all
  show "valid_str pre" by (rule pre)
  show post: "valid_str post" by (rule valid_cancel_front [OF assms(2) rest])
  show "is_char_boundary (pre @ pat @ post) (length pre + length pat)"
  proof (cases post)
    case (Cons d q)
    then have "\<not> is_cont (of_char d)" using valid_head post by blast
    then show ?thesis by (simp add: is_char_boundary_def Cons nth_append)
  qed (simp add: is_char_boundary_def)
qed

lemma valid_pieces:
  "valid_str (join pat ps) \<Longrightarrow> valid_str pat \<Longrightarrow> pat \<noteq> [] \<Longrightarrow> list_all valid_str ps"
proof (induction pat ps rule: join.induct)
  case (3 sep s t ts)
  from 3(2) have "valid_str (s @ sep @ join sep (t # ts))" by simp
  from valid_match [OF this 3(3,4)] show ?case using 3(1,3,4) by simp
qed auto

lemma valid_Nil [simp]: "valid_str []"
  by (simp add: valid_str_def chars_def str_vals_def str_of_chars_def str_of_vals_def)

lemma valid_join: "list_all valid_str ps \<Longrightarrow> valid_str sep \<Longrightarrow> valid_str (join sep ps)"
  by (induction sep ps rule: join.induct) (auto simp: valid_append)

lemma valid_replace:
  assumes "valid_str s" and "valid_str pat" and "valid_str new" and "pat \<noteq> []"
  shows "valid_str (str_replace pat new s)"
proof -
  have "valid_str (join pat (str_split pat s))" using assms(1) by (simp add: join_str_split)
  from valid_pieces [OF this assms(2,4)] show ?thesis unfolding str_replace_def using assms(3) by (rule valid_join)
qed

lemma match_boundaries:
  assumes "valid_str s" and "valid_str pat" and "pat \<noteq> []" and "i \<in> set (match_indices pat s)"
  shows "is_char_boundary s i \<and> is_char_boundary s (i + length pat)"
proof -
  obtain pre post where "s = pre @ pat @ post" "i = length pre" using match_cut [OF assms(4)] by blast
  then show ?thesis using valid_match [of pre pat post] assms(1-3) by simp
qed

end
