(* ===== verification/File_Tools.thy ===== *)
theory File_Tools
  imports File_Locks Str_Search Proto_Types
begin

text \<open>
  The tools that write and edit text files
  (\<open>src/choreo-daemon/src/tools/fs/mod.rs\<close>, \<open>edit_file.rs\<close>, \<open>write_file.rs\<close>, and the path
  helpers of \<open>tools/mod.rs\<close>). Paths and the locks are those of the previous theory;
  the content of a regular file is kept under its canonical path. The SHA-256 digest
  and the diff printer come from other crates and are parameters, as are the faults
  of the file system: reading may fail, and a write may fail at one of its steps.
\<close>

section \<open>Paths (tools/mod.rs)\<close>

text \<open>\<open>Path::new\<close> and \<open>Path::display\<close>.\<close>

definition component_of :: "string \<Rightarrow> component" where
  "component_of p = (if p = ''.'' then CurDir else if p = ''..'' then ParentDir else Normal p)"

definition parse_path :: "string \<Rightarrow> path" where
  "parse_path s =
     (let comps = map component_of (filter (\<lambda>p. p \<noteq> []) (str_split ''/'' s))
      in if s \<noteq> [] \<and> hd s = CHR ''/'' then RootDir # filter (\<lambda>c. c \<noteq> CurDir) comps
         else (case comps of CurDir # rest \<Rightarrow> CurDir # filter (\<lambda>c. c \<noteq> CurDir) rest
               | _ \<Rightarrow> filter (\<lambda>c. c \<noteq> CurDir) comps))"

definition component_text :: "component \<Rightarrow> string" where
  "component_text c = (case c of RootDir \<Rightarrow> [] | CurDir \<Rightarrow> ''.'' | ParentDir \<Rightarrow> ''..'' | Normal n \<Rightarrow> n)"

definition path_text :: "path \<Rightarrow> string" where
  "path_text p = (if p = [RootDir] then ''/'' else join ''/'' (map component_text p))"

definition expand_tilde :: "string option \<Rightarrow> string \<Rightarrow> string" where
  "expand_tilde home_dir path =
     (if path = ''~'' \<or> take 2 path = ''~/'' then
        (case home_dir of
           Some home \<Rightarrow> if path = ''~'' then home else home @ drop 1 path
         | None \<Rightarrow> path)
      else path)"

definition resolve_path :: "string option \<Rightarrow> string \<Rightarrow> path option \<Rightarrow> path" where
  "resolve_path home_dir path working_dir =
     (let p = parse_path (expand_tilde home_dir path) in
      if is_absolute p then p
      else (case working_dir of
        Some wd \<Rightarrow> if path = ''.'' \<or> path = ''./'' then wd else join_path wd p
      | None \<Rightarrow> p))"

definition display_path_label :: "path \<Rightarrow> path option \<Rightarrow> string" where
  "display_path_label p root = (case root of
     Some r \<Rightarrow> if take (length r) p = r \<and> drop (length r) p \<noteq> [] then path_text (drop (length r) p) else path_text p
   | None \<Rightarrow> path_text p)"

section \<open>Writing (tools/fs/mod.rs)\<close>

datatype ToolExecError = ToolExecError string

type_synonym files = "path \<Rightarrow> string option"

record FileEnv =
  fe_fs :: Fs
  fe_home :: "string option"
  fe_sha256 :: "string \<Rightarrow> string"
  fe_diff :: "string \<Rightarrow> string \<Rightarrow> string \<Rightarrow> string \<Rightarrow> string"
  fe_format_char :: "scalar \<Rightarrow> bool"
  fe_read_fault :: "io_error option"
  fe_parents_fault :: "io_error option"
  fe_write_fault :: "(nat \<times> io_error) option"

definition validate_nonempty_path :: "string \<Rightarrow> ToolExecError + string" where
  "validate_nonempty_path path =
     (let trimmed = trim path in
      if trimmed = [] then Inl (ToolExecError ''missing required string argument: path'') else Inr trimmed)"

text \<open>The file a path leads to.\<close>

definition target_of :: "FileEnv \<Rightarrow> path \<Rightarrow> path" where
  "target_of env p = (case fs_canonicalize (fe_fs env) p of Some resolved \<Rightarrow> resolved | None \<Rightarrow> p)"

text \<open>A temporary file beside the target is renamed over it; whichever step fails, the target keeps its content.\<close>

definition atomic_write_text_file :: "FileEnv \<Rightarrow> path \<Rightarrow> string \<Rightarrow> files \<Rightarrow> (io_error + unit) \<times> files" where
  "atomic_write_text_file env p content files = (case fe_write_fault env of
     Some (_, e) \<Rightarrow> (Inl e, files)
   | None \<Rightarrow> (Inr (), files(target_of env p := Some content)))"

text \<open>Without overwriting, a new file is written in place; a failing write leaves what it wrote.\<close>

definition write_text_file :: "FileEnv \<Rightarrow> path \<Rightarrow> string \<Rightarrow> bool \<Rightarrow> files \<Rightarrow> (io_error + unit) \<times> files" where
  "write_text_file env p content overwrite files =
     (if \<not> overwrite then
        (if files (target_of env p) \<noteq> None then (Inl (IoError IO_AlreadyExists ''File exists (os error 17)''), files)
         else (case fe_write_fault env of
           Some (0, e) \<Rightarrow> (Inl e, files)
         | Some (Suc n, e) \<Rightarrow> (Inl e, files(target_of env p := Some (take n content)))
         | None \<Rightarrow> (Inr (), files(target_of env p := Some content))))
      else atomic_write_text_file env p content files)"

text \<open>The longest run of backticks, and a fence that is longer.\<close>

definition backtick_run :: "string \<Rightarrow> nat" where
  "backtick_run s = fst (fold (\<lambda>c (max_run, current).
     if c = CHR 0x60 then (max max_run (current + 1), current + 1) else (max_run, 0)) s (0, 0))"

definition trim_end_newlines :: "string \<Rightarrow> string" where
  "trim_end_newlines s = rev (dropWhile (\<lambda>c. c = CHR 0x0A) (rev s))"

definition fence_content :: "string \<Rightarrow> string \<Rightarrow> string" where
  "fence_content content lang =
     (let trimmed = trim_end_newlines content;
          fence = replicate (max (backtick_run trimmed + 1) 3) (CHR 0x60)
      in fence @ lang @ [CHR 0x0A] @ trimmed @ [CHR 0x0A] @ fence)"

section \<open>Editing (tools/fs/edit\_file.rs)\<close>

record TextEditArgs =
  te_old_text :: string
  te_new_text :: string
  te_replace_all :: "bool option"
  te_near_line :: "usize option"

record EditFileArgs =
  ef_path :: string
  ef_edits :: "TextEditArgs list"
  ef_expected_sha256 :: "string option"
  ef_dry_run :: "bool option"

record AppliedEditSummary =
  es_content :: string
  es_original :: "string option"
  es_replacement_count :: nat
  es_char_delta :: int

abbreviation CRLF :: string where
  "CRLF \<equiv> [CHR 0x0D, CHR 0x0A]"

abbreviation LF :: string where
  "LF \<equiv> [CHR 0x0A]"

definition detect_line_ending :: "string \<Rightarrow> string" where
  "detect_line_ending txt = (if str_has CRLF txt then CRLF else LF)"

definition to_lf :: "string \<Rightarrow> string" where
  "to_lf txt = (if CHR 0x0D \<in> set txt then str_replace CRLF LF txt else txt)"

definition restore_line_endings :: "string \<Rightarrow> string \<Rightarrow> string" where
  "restore_line_endings txt ending = (if ending = LF then txt else str_replace LF ending txt)"

definition line_of_offset :: "string \<Rightarrow> nat \<Rightarrow> nat" where
  "line_of_offset content offset = length (filter (\<lambda>b. b = CHR 0x0A) (slice_to content offset)) + 1"

definition abs_diff :: "nat \<Rightarrow> nat \<Rightarrow> nat" where
  "abs_diff a b = (if a \<le> b then b - a else a - b)"

definition nearest_match :: "string \<Rightarrow> nat list \<Rightarrow> nat \<Rightarrow> nat" where
  "nearest_match content matches near_line =
     fst (fold (\<lambda>offset (best, best_dist).
            let dist = abs_diff (line_of_offset content offset) near_line
            in if dist < best_dist then (offset, dist) else (best, best_dist))
          matches (case matches of [] \<Rightarrow> 0 | m # _ \<Rightarrow> m, 2 ^ 64 - 1))"

definition closest_line_hint :: "string \<Rightarrow> string \<Rightarrow> string option" where
  "closest_line_hint content old_text = (case str_lines old_text of
     [] \<Rightarrow> None
   | first # _ \<Rightarrow>
       (let needle = trim first in
        if needle = [] then None
        else (let hits = take 5 (map (\<lambda>(i, _). i + 1)
                (filter (\<lambda>(_, line). str_has needle line) (enumerate 0 (str_lines content))))
              in if hits = [] then None else Some (join '', '' (map show_nat hits)))))"

definition edit_failed :: "nat \<Rightarrow> string \<Rightarrow> string + (string \<times> nat)" where
  "edit_failed index msg = Inl (''edit '' @ show_nat (index + 1) @ '': '' @ msg)"

definition not_found_message :: "string \<Rightarrow> string \<Rightarrow> string" where
  "not_found_message content old_text = (case closest_line_hint content old_text of
     Some lines \<Rightarrow> ''old_text not found (closest match at line '' @ lines @ '')''
   | None \<Rightarrow> ''old_text not found'')"

definition ambiguous_message :: "string \<Rightarrow> nat list \<Rightarrow> string" where
  "ambiguous_message content matches =
     ''old_text matched '' @ show_nat (length matches) @ '' locations (lines '' @
       join '', '' (map (\<lambda>offset. show_nat (line_of_offset content offset)) matches) @
       ''); pass near_line to disambiguate or replace_all to replace all''"

definition replace_range :: "string \<Rightarrow> nat \<Rightarrow> nat \<Rightarrow> string \<Rightarrow> string" where
  "replace_range content i len new_text = take i content @ new_text @ drop (i + len) content"

text \<open>One edit: the changed content and the number of replacements.\<close>

definition apply_text_edit :: "nat \<Rightarrow> TextEditArgs \<Rightarrow> string \<Rightarrow> string + (string \<times> nat)" where
  "apply_text_edit index edit content =
     (let old_text = to_lf (te_old_text edit);
          new_text = to_lf (te_new_text edit)
      in if old_text = [] then edit_failed index ''old_text must not be empty''
         else if old_text = new_text then edit_failed index ''old_text and new_text are identical (no change)''
         else (let matches = match_indices old_text content in
           if matches = [] then edit_failed index (not_found_message content old_text)
           else if te_replace_all edit = Some True
             then Inr (str_replace old_text new_text content, length matches)
           else if length matches = 1
             then Inr (replace_range content (hd matches) (length old_text) new_text, 1)
           else (case te_near_line edit of
             Some near_line \<Rightarrow>
               Inr (replace_range content (nearest_match content matches (unat near_line)) (length old_text) new_text, 1)
           | None \<Rightarrow> edit_failed index (ambiguous_message content matches))))"

fun apply_edits_from ::
  "nat \<Rightarrow> TextEditArgs list \<Rightarrow> string \<times> nat \<times> int \<Rightarrow> string + (string \<times> nat \<times> int)" where
  "apply_edits_from index [] acc = Inr acc"
| "apply_edits_from index (edit # edits) (content, replacement_count, char_delta) =
     (case apply_text_edit index edit content of
        Inl e \<Rightarrow> Inl e
      | Inr (content, n) \<Rightarrow> apply_edits_from (Suc index) edits (content, replacement_count + n,
          char_delta + (int (length (chars (to_lf (te_new_text edit)))) - int (length (chars (to_lf (te_old_text edit))))) * int n))"

definition apply_text_edits :: "string \<Rightarrow> TextEditArgs list \<Rightarrow> string + AppliedEditSummary" where
  "apply_text_edits original_content edits =
     (case apply_edits_from 0 edits (original_content, 0, 0) of
        Inl e \<Rightarrow> Inl e
      | Inr (content, n, delta) \<Rightarrow> Inr \<lparr>es_content = content, es_original = Some original_content,
          es_replacement_count = n, es_char_delta = delta\<rparr>)"

definition signed_text :: "int \<Rightarrow> string" where
  "signed_text n = (if n < 0 then ''-'' @ show_nat (nat (- n)) else ''+'' @ show_nat (nat n))"

definition format_edit_result :: "FileEnv \<Rightarrow> string \<Rightarrow> string \<Rightarrow> AppliedEditSummary \<Rightarrow> string" where
  "format_edit_result env action path summary =
     (let out = action @ '' file: '' @ path @ '' ('' @ show_nat (es_replacement_count summary) @ '' replacement'' @
          (if es_replacement_count summary = 1 then [] else ''s'') @ '', '' @ signed_text (es_char_delta summary) @ '' chars)''
      in case es_original summary of
           Some original \<Rightarrow>
             (let diff = fe_diff env original (es_content summary) path path
              in if diff \<noteq> [] then out @ LF @ LF @ fence_content diff ''diff'' else out)
         | None \<Rightarrow> out)"

definition read_to_string :: "FileEnv \<Rightarrow> path \<Rightarrow> files \<Rightarrow> io_error + string" where
  "read_to_string env p files = (case fe_read_fault env of
     Some e \<Rightarrow> Inl e
   | None \<Rightarrow> (case files (target_of env p) of
       Some content \<Rightarrow> Inr content
     | None \<Rightarrow> Inl (IoError IO_NotFound ''No such file or directory (os error 2)'')))"

definition apply_edit_file_locked ::
  "FileEnv \<Rightarrow> EditFileArgs \<Rightarrow> path \<Rightarrow> path option \<Rightarrow> files \<Rightarrow> (ToolExecError + string) \<times> files" where
  "apply_edit_file_locked env args resolved working_dir files = (case read_to_string env resolved files of
     Inl e \<Rightarrow> (Inl (ToolExecError (io_text e)), files)
   | Inr original_content \<Rightarrow>
       if (case ef_expected_sha256 args of
             Some expected \<Rightarrow> fe_sha256 env original_content \<noteq> to_ascii_lowercase (trim expected) | None \<Rightarrow> False)
       then (Inl (ToolExecError (''expected_sha256 mismatch for '' @ path_text resolved @ '': expected '' @
              trim (the (ef_expected_sha256 args)) @ '', got '' @ fe_sha256 env original_content)), files)
       else
         (let line_ending = detect_line_ending original_content;
              normalized = to_lf original_content
          in case apply_text_edits normalized (ef_edits args) of
               Inl e \<Rightarrow> (Inl (ToolExecError e), files)
             | Inr summary \<Rightarrow>
                 (let final_content = restore_line_endings (es_content summary) line_ending;
                      display = sanitize_name (fe_format_char env) (display_path_label resolved working_dir)
                  in if ef_dry_run args = Some True
                     then (Inr (format_edit_result env ''would edit'' display summary), files)
                     else (case write_text_file env resolved final_content True files of
                         (Inr _, files) \<Rightarrow> (Inr (format_edit_result env ''edited'' display summary), files)
                       | (Inl error, files) \<Rightarrow> (Inl (ToolExecError (io_text error)), files)))))"

definition execute_edit_file_tool ::
  "FileEnv \<Rightarrow> EditFileArgs \<Rightarrow> path option \<Rightarrow> files \<Rightarrow> (ToolExecError + string) \<times> files" where
  "execute_edit_file_tool env args working_dir files = (case validate_nonempty_path (ef_path args) of
     Inl e \<Rightarrow> (Inl e, files)
   | Inr path \<Rightarrow>
       if ef_edits args = [] then (Inl (ToolExecError ''missing required array argument: edits''), files)
       else apply_edit_file_locked env args (resolve_path (fe_home env) path working_dir) working_dir files)"

section \<open>Writing a whole file (tools/fs/write\_file.rs)\<close>

record WriteFileArgs =
  wf_path :: string
  wf_content :: string
  wf_overwrite :: "bool option"
  wf_create_parents :: "bool option"

definition extension :: "path \<Rightarrow> string option" where
  "extension p = (case file_name p of
     None \<Rightarrow> None
   | Some n \<Rightarrow>
       (let ps = str_split ''.'' n in
        if length ps = 1 \<or> (length ps = 2 \<and> hd ps = []) then None else Some (last ps)))"

definition ext_to_lang :: "(string \<Rightarrow> string) \<Rightarrow> path \<Rightarrow> string" where
  "ext_to_lang to_lowercase p =
     (if (case file_name p of Some fname \<Rightarrow> to_ascii_lowercase fname = ''dockerfile'' | None \<Rightarrow> False) then ''dockerfile''
      else
        (let ext = to_lowercase (case extension p of Some e \<Rightarrow> e | None \<Rightarrow> []) in
         if ext = ''rs'' then ''rust'' else if ext = ''py'' then ''python'' else if ext = ''js'' then ''javascript''
         else if ext \<in> {''ts'', ''tsx'', ''mts'', ''cts''} then ''javascript'' else if ext = ''json'' then ''json''
         else if ext = ''toml'' then ''toml'' else if ext \<in> {''yaml'', ''yml''} then ''yaml''
         else if ext \<in> {''md'', ''mdown'', ''markdown''} then ''markdown'' else if ext \<in> {''html'', ''htm''} then ''html''
         else if ext = ''css'' then ''css'' else if ext \<in> {''scss'', ''sass''} then ''scss''
         else if ext \<in> {''sh'', ''bash'', ''zsh''} then ''bash'' else if ext = ''c'' then ''c'' else if ext = ''h'' then ''c''
         else if ext \<in> {''cpp'', ''cc'', ''cxx'', ''hpp''} then ''cpp'' else if ext = ''go'' then ''go''
         else if ext = ''rb'' then ''ruby'' else if ext = ''java'' then ''java'' else if ext = ''sql'' then ''sql''
         else if ext = ''xml'' then ''xml'' else if ext = ''dockerfile'' then ''dockerfile''
         else if ext \<in> {''makefile'', ''mk''} then ''makefile'' else if ext = ''lua'' then ''lua''
         else if ext = ''zig'' then ''zig'' else if ext = ''swift'' then ''swift'' else if ext \<in> {''kt'', ''kts''} then ''kotlin''
         else if ext \<in> {''pl'', ''pm''} then ''perl'' else if ext = ''tex'' then ''latex'' else if ext = ''proto'' then ''protobuf''
         else []))"

definition ensure_parent_directories :: "FileEnv \<Rightarrow> path \<Rightarrow> bool \<Rightarrow> ToolExecError + unit" where
  "ensure_parent_directories env p create_parents =
     (if \<not> create_parents then Inr ()
      else (case parent p of
        Some par \<Rightarrow> if par \<noteq> [] then (case fe_parents_fault env of Some e \<Rightarrow> Inl (ToolExecError (io_text e)) | None \<Rightarrow> Inr ())
                    else Inr ()
      | None \<Rightarrow> Inr ()))"

definition execute_write_file_tool ::
  "FileEnv \<Rightarrow> (string \<Rightarrow> string) \<Rightarrow> WriteFileArgs \<Rightarrow> path option \<Rightarrow> files \<Rightarrow> (ToolExecError + string) \<times> files" where
  "execute_write_file_tool env to_lowercase args working_dir files = (case validate_nonempty_path (wf_path args) of
     Inl e \<Rightarrow> (Inl e, files)
   | Inr path \<Rightarrow>
       (let resolved = resolve_path (fe_home env) path working_dir;
            overwrite = wf_overwrite args \<noteq> Some False
        in case ensure_parent_directories env resolved (wf_create_parents args \<noteq> Some False) of
             Inl e \<Rightarrow> (Inl e, files)
           | Inr _ \<Rightarrow> (case write_text_file env resolved (wf_content args) overwrite files of
               (Inr _, files) \<Rightarrow>
                 (Inr (''wrote file: '' @ path_text resolved @ LF @ LF @
                    fence_content (wf_content args) (ext_to_lang to_lowercase resolved)), files)
             | (Inl error, files) \<Rightarrow>
                 (Inl (ToolExecError
                    (if \<not> overwrite \<and> io_kind error = IO_AlreadyExists
                     then ''refusing to overwrite existing file: '' @ path_text resolved else io_text error)), files))))"

definition yes_no :: "bool \<Rightarrow> string" where
  "yes_no b = (if b then ''true'' else ''false'')"

definition describe_write_file_invocation :: "WriteFileArgs \<Rightarrow> string" where
  "describe_write_file_invocation args =
     ''Writing '' @ show_nat (length (wf_content args)) @ '' bytes to file `'' @ wf_path args @
     ''` (overwrite: '' @ yes_no (wf_overwrite args = Some True) @
     '', create_parents: '' @ yes_no (wf_create_parents args = Some True) @ '').''"

section \<open>What an edit does\<close>

text \<open>
  The effect of one edit: every match is replaced, or the only one, or the one
  nearest to the given line. Matches are found from left to right without overlap.
\<close>

definition edit_effect :: "TextEditArgs \<Rightarrow> string \<Rightarrow> string \<Rightarrow> nat \<Rightarrow> bool" where
  "edit_effect edit content content' n \<longleftrightarrow>
     (let old_text = to_lf (te_old_text edit); new_text = to_lf (te_new_text edit);
          dist = (\<lambda>i l. abs_diff (line_of_offset content i) (unat l))
      in if te_replace_all edit = Some True
         then \<exists>ps. content = join old_text ps \<and> content' = join new_text ps \<and> n = length ps - 1 \<and>
           list_all (\<lambda>p. \<not> str_has old_text p) ps
         else n = 1 \<and> (\<exists>pre post. content = pre @ old_text @ post \<and> content' = pre @ new_text @ post \<and>
           (\<not> str_has old_text pre \<and> \<not> str_has old_text post \<or>
            (\<exists>l. te_near_line edit = Some l \<and> (length content < 2 ^ 63 \<longrightarrow>
               list_all (\<lambda>i. dist (length pre) l \<le> dist i l) (match_indices old_text content))))))"

lemma nearest_fold:
  fixes f :: "nat \<Rightarrow> nat"
  assumes "fold (\<lambda>offset (best, best_dist). let d = f offset in if d < best_dist then (offset, d) else (best, best_dist)) xs (b, db) = (r, dr)"
  shows "dr \<le> db \<and> (r = b \<and> dr = db \<or> r \<in> set xs \<and> dr = f r) \<and> (\<forall>x \<in> set xs. dr \<le> f x)"
  using assms
proof (induction xs arbitrary: b db)
  case (Cons x xs)
  show ?case
  proof (cases "f x < db")
    case True
    then have "fold (\<lambda>offset (best, best_dist). let d = f offset in if d < best_dist then (offset, d) else (best, best_dist)) xs (x, f x) = (r, dr)"
      using Cons.prems by (simp add: Let_def)
    from Cons.IH [OF this] True show ?thesis by auto
  next
    case False
    then have "fold (\<lambda>offset (best, best_dist). let d = f offset in if d < best_dist then (offset, d) else (best, best_dist)) xs (b, db) = (r, dr)"
      using Cons.prems by (simp add: Let_def)
    from Cons.IH [OF this] False show ?thesis by auto
  qed
qed simp

lemma line_of_offset_bounds: "0 < line_of_offset content i" "line_of_offset content i \<le> length content + 1"
proof -
  have "length (filter P (slice_to content i)) \<le> length content" for P
    using length_filter_le [of P "take i content"] by (auto simp: slice_to_def)
  then show "line_of_offset content i \<le> length content + 1" by (simp add: line_of_offset_def)
qed (simp add: line_of_offset_def)

lemma nearest_match_spec:
  assumes "matches \<noteq> []" and "near < 2 ^ 64"
  shows "nearest_match content matches near \<in> set matches \<and> (length content < 2 ^ 63 \<longrightarrow>
    (\<forall>i \<in> set matches. abs_diff (line_of_offset content (nearest_match content matches near)) near
        \<le> abs_diff (line_of_offset content i) near))"
proof -
  let ?f = "\<lambda>i. abs_diff (line_of_offset content i) near"
  have small: "?f i < 2 ^ 64 - 1" if "length content < 2 ^ 63" for i
    using line_of_offset_bounds [of content i] assms(2) that by (auto simp: abs_diff_def)
  define out where "out = fold (\<lambda>offset (best, best_dist). let d = ?f offset in if d < best_dist then (offset, d) else (best, best_dist))
      matches (hd matches, 2 ^ 64 - 1)"
  obtain r dr where "out = (r, dr)" by (cases out)
  note run = this [unfolded out_def]
  have "(case matches of [] \<Rightarrow> 0 | m # _ \<Rightarrow> m) = hd matches" using assms(1) by (cases matches) simp_all
  then have "nearest_match content matches near = r" unfolding nearest_match_def by (simp only: run fst_conv)
  moreover from nearest_fold [OF run] have r: "r = hd matches \<and> dr = 2 ^ 64 - 1 \<or> r \<in> set matches \<and> dr = ?f r"
    and least: "\<forall>i \<in> set matches. dr \<le> ?f i" by auto
  have "dr \<noteq> 2 ^ 64 - 1" if "length content < 2 ^ 63"
    using least small [OF that, of "hd matches"] hd_in_set [OF assms(1)] by fastforce
  ultimately show ?thesis using r least hd_in_set [OF assms(1)] by auto
qed

lemma edit_failed_not_Inr [simp]: "edit_failed index msg \<noteq> Inr x"
  by (simp add: edit_failed_def)

lemma apply_text_edit_Inr:
  assumes "apply_text_edit index edit content = Inr (content', n)"
  defines "old \<equiv> to_lf (te_old_text edit)" and "new \<equiv> to_lf (te_new_text edit)"
  shows "old \<noteq> [] \<and> match_indices old content \<noteq> [] \<and>
     (if te_replace_all edit = Some True
      then content' = str_replace old new content \<and> n = length (match_indices old content)
      else n = 1 \<and> (\<exists>i. content' = replace_range content i (length old) new \<and>
        (match_indices old content = [i] \<or>
         (\<exists>l. te_near_line edit = Some l \<and> i = nearest_match content (match_indices old content) (unat l)))))"
  using assms(1) unfolding apply_text_edit_def Let_def old_def [symmetric] new_def [symmetric]
  by (cases "match_indices old content"; cases "te_near_line edit") (auto split: if_split_asm)

lemma replace_range_cut: "replace_range (pre @ old @ post) (length pre) (length old) new = pre @ new @ post"
  by (simp add: replace_range_def)

lemma edit_effect_allI:
  "te_replace_all edit = Some True \<Longrightarrow> content = join (to_lf (te_old_text edit)) ps \<Longrightarrow> content' = join (to_lf (te_new_text edit)) ps \<Longrightarrow>
     n = length ps - 1 \<Longrightarrow> list_all (\<lambda>p. \<not> str_has (to_lf (te_old_text edit)) p) ps \<Longrightarrow> edit_effect edit content content' n"
  unfolding edit_effect_def Let_def by auto

lemma edit_effect_oneI:
  assumes "te_replace_all edit \<noteq> Some True" and "content = pre @ to_lf (te_old_text edit) @ post"
    and "content' = pre @ to_lf (te_new_text edit) @ post"
    and "\<not> str_has (to_lf (te_old_text edit)) pre \<and> \<not> str_has (to_lf (te_old_text edit)) post \<or>
      (\<exists>l. te_near_line edit = Some l \<and> (length content < 2 ^ 63 \<longrightarrow>
         list_all (\<lambda>i. abs_diff (line_of_offset content (length pre)) (unat l) \<le>
           abs_diff (line_of_offset content i) (unat l)) (match_indices (to_lf (te_old_text edit)) content)))"
  shows "edit_effect edit content content' 1"
  unfolding edit_effect_def Let_def using assms by (simp only: if_False) blast

lemma apply_text_edit_effect:
  assumes "apply_text_edit index edit content = Inr (content', n)"
  shows "edit_effect edit content content' n"
proof -
  let ?old = "to_lf (te_old_text edit)" and ?new = "to_lf (te_new_text edit)"
  let ?ms = "match_indices ?old content"
  note run = apply_text_edit_Inr [OF assms]
  show ?thesis
  proof (cases "te_replace_all edit = Some True")
    case True
    then show ?thesis using run str_split_pieces [of ?old _ content]
      by (intro edit_effect_allI [where ps = "str_split ?old content"])
        (simp_all add: join_str_split str_replace_def match_indices_length list_all_iff)
  next
    case False
    then obtain i where n: "n = 1" and res: "content' = replace_range content i (length ?old) ?new"
      and i: "?ms = [i] \<or> (\<exists>l. te_near_line edit = Some l \<and> i = nearest_match content ?ms (unat l))"
      using run by auto
    from i show ?thesis
    proof
      assume one: "?ms = [i]"
      then obtain pre post where p: "str_split ?old content = [pre, post]" "content = pre @ ?old @ post" "i = length pre"
        using single_match [of ?old content] by auto
      then have "\<not> str_has ?old pre \<and> \<not> str_has ?old post"
        using str_split_pieces [of ?old _ content] run by simp
      then show ?thesis unfolding n using False p(2) res
        by (intro edit_effect_oneI [where pre = pre and post = post]) (simp_all add: p(3) replace_range_cut)
    next
      assume "\<exists>l. te_near_line edit = Some l \<and> i = nearest_match content ?ms (unat l)"
      then obtain l where l: "te_near_line edit = Some l" "i = nearest_match content ?ms (unat l)" by blast
      have "unat l < 2 ^ 64" using unsigned_less [of l] by simp
      note near = nearest_match_spec [OF _ this, of ?ms content]
      have "i \<in> set ?ms" using near run l(2) by simp
      then obtain pre post where p: "content = pre @ ?old @ post" "i = length pre" using match_cut by blast
      have "content' = pre @ ?new @ post" using res p(2) by (subst (asm) p(1)) (simp add: replace_range_cut)
      moreover have "length content < 2 ^ 63 \<longrightarrow>
          list_all (\<lambda>j. abs_diff (line_of_offset content (length pre)) (unat l) \<le> abs_diff (line_of_offset content j) (unat l)) ?ms"
        using near run l(2) p(2) by (simp add: list_all_iff)
      ultimately show ?thesis unfolding n using False p(1) l(1)
        by (intro edit_effect_oneI [where pre = pre and post = post]) blast+
    qed
  qed
qed

fun edits_chain :: "TextEditArgs list \<Rightarrow> string \<Rightarrow> string \<Rightarrow> nat \<Rightarrow> bool" where
  "edits_chain [] content content' n \<longleftrightarrow> content' = content \<and> n = 0"
| "edits_chain (edit # edits) content content' n \<longleftrightarrow>
     (\<exists>next_content k m. edit_effect edit content next_content k \<and> edits_chain edits next_content content' m \<and> n = k + m)"

lemma apply_edits_chain:
  "apply_edits_from index edits (content, n, d) = Inr (content', n', d') \<Longrightarrow>
     n \<le> n' \<and> edits_chain edits content content' (n' - n)"
proof (induction edits arbitrary: index content n d)
  case (Cons edit edits)
  obtain c1 k where one: "apply_text_edit index edit content = Inr (c1, k)"
    using Cons.prems by (auto split: sum.splits)
  obtain d1 where rest: "apply_edits_from (Suc index) edits (c1, n + k, d1) = Inr (content', n', d')"
    using Cons.prems one by auto
  from Cons.IH [OF this] have "n + k \<le> n'" and "edits_chain edits c1 content' (n' - (n + k))" by auto
  moreover have "n' - n = k + (n' - (n + k))" using \<open>n + k \<le> n'\<close> by simp
  ultimately show ?case using apply_text_edit_effect [OF one] unfolding edits_chain.simps by (blast intro: le_trans [OF le_add1])
qed auto

text \<open>Valid text stays valid, and the reported change of length is exact.\<close>

lemma valid_ascii: "list_all (\<lambda>c. (of_char c :: nat) < 128) s \<Longrightarrow> valid_str s"
  by (rule ascii_chars(2)) (auto simp: str_vals_def list_all_iff)

lemma valid_endings: "valid_str CRLF" "valid_str LF"
  by (simp_all add: valid_ascii)

lemma valid_to_lf: "valid_str s \<Longrightarrow> valid_str (to_lf s)"
  unfolding to_lf_def by (simp add: valid_replace valid_endings)

lemma valid_restore: "valid_str s \<Longrightarrow> valid_str (restore_line_endings s (detect_line_ending t))"
  unfolding restore_line_endings_def detect_line_ending_def by (simp add: valid_replace valid_endings)

lemma chars_join:
  "list_all valid_str ps \<Longrightarrow> valid_str sep \<Longrightarrow> ps \<noteq> [] \<Longrightarrow>
     length (chars (join sep ps)) = sum_list (map (length \<circ> chars) ps) + (length ps - 1) * length (chars sep)"
  by (induction sep ps rule: join.induct) (auto simp: valid_append valid_join)

lemma apply_text_edit_valid:
  assumes run: "apply_text_edit index edit content = Inr (content', n)"
    and valid: "valid_str content" "valid_str (te_old_text edit)" "valid_str (te_new_text edit)"
  shows "valid_str content' \<and> int (length (chars content')) = int (length (chars content)) +
     (int (length (chars (to_lf (te_new_text edit)))) - int (length (chars (to_lf (te_old_text edit))))) * int n"
proof -
  let ?old = "to_lf (te_old_text edit)" and ?new = "to_lf (te_new_text edit)"
  have old: "?old \<noteq> []" using apply_text_edit_Inr [OF run] by blast
  have vt: "valid_str ?old" "valid_str ?new" using valid by (simp_all add: valid_to_lf)
  have eff: "edit_effect edit content content' n" by (rule apply_text_edit_effect [OF run])
  show ?thesis
  proof (cases "te_replace_all edit = Some True")
    case True
    then obtain ps where ps: "content = join ?old ps" "content' = join ?new ps" "n = length ps - 1"
      using eff unfolding edit_effect_def Let_def by auto
    show ?thesis
    proof (cases "ps = []")
      case False
      have all: "list_all valid_str ps" using valid_pieces [of ?old ps] valid(1) vt(1) old by (simp add: ps(1))
      have count: "int (length (chars (join sep ps))) =
          int (sum_list (map (length \<circ> chars) ps)) + int (length ps - 1) * int (length (chars sep))" if "valid_str sep" for sep
        using chars_join [OF all that False] by simp
      show ?thesis using vt all unfolding ps count [OF vt(1)] count [OF vt(2)] by (simp add: valid_join algebra_simps)
    qed (use valid ps in simp)
  next
    case False
    then obtain pre post where p: "content = pre @ ?old @ post" "content' = pre @ ?new @ post" "n = 1"
      using eff unfolding edit_effect_def Let_def by auto
    have "valid_str pre" "valid_str post" using valid_match [of pre ?old post] valid(1) vt(1) old by (simp_all add: p(1))
    then show ?thesis using vt by (simp add: p valid_append)
  qed
qed

lemma apply_edits_valid:
  "apply_edits_from index edits (content, n, d) = Inr (content', n', d') \<Longrightarrow> valid_str content \<Longrightarrow>
     list_all (\<lambda>e. valid_str (te_old_text e) \<and> valid_str (te_new_text e)) edits \<Longrightarrow>
     valid_str content' \<and> d' = d + int (length (chars content')) - int (length (chars content))"
proof (induction edits arbitrary: index content n d)
  case (Cons edit edits)
  obtain c1 k where one: "apply_text_edit index edit content = Inr (c1, k)"
    using Cons.prems(1) by (auto split: sum.splits)
  have v: "valid_str c1" "int (length (chars c1)) = int (length (chars content)) +
     (int (length (chars (to_lf (te_new_text edit)))) - int (length (chars (to_lf (te_old_text edit))))) * int k"
    using apply_text_edit_valid [OF one Cons.prems(2)] Cons.prems(3) by auto
  have "apply_edits_from (Suc index) edits (c1, n + k,
      d + (int (length (chars (to_lf (te_new_text edit)))) - int (length (chars (to_lf (te_old_text edit))))) * int k) = Inr (content', n', d')"
    using Cons.prems(1) one by auto
  from Cons.IH [OF this v(1)] show ?case using Cons.prems(3) v(2) by auto
qed auto

section \<open>Line endings\<close>

text \<open>A line feed that no carriage return precedes.\<close>

fun bare_lf :: "string \<Rightarrow> bool" where
  "bare_lf [] = False"
| "bare_lf [c] = (c = CHR 0x0A)"
| "bare_lf (c # d # s) = (if c = CHR 0x0D \<and> d = CHR 0x0A then bare_lf s else c = CHR 0x0A \<or> bare_lf (d # s))"

lemma restore_after_lf:
  "str_replace LF CRLF (str_replace CRLF LF s) = s \<longleftrightarrow> \<not> bare_lf s"
  by (induction s rule: bare_lf.induct) (auto simp: str_replace_Cons)

lemma to_lf_no_crlf: "\<not> str_has CRLF s \<Longrightarrow> to_lf s = s"
  by (simp add: to_lf_def str_replace_none)

lemma to_lf_crlf: "str_has CRLF s \<Longrightarrow> to_lf s = str_replace CRLF LF s"
  by (auto simp: to_lf_def str_has_iff)

section \<open>Fences\<close>

lemma backtick_fold:
  "fold (\<lambda>c (max_run, current). if c = CHR 0x60 then (max max_run (current + 1), current + 1) else (max_run, 0)) s (m, k) = (m', k') \<Longrightarrow>
     k \<le> m \<Longrightarrow> m \<le> m' \<and> k' \<le> m' \<and> (\<forall>n pre post. replicate k (CHR 0x60) @ s = pre @ replicate n (CHR 0x60) @ post \<longrightarrow> n \<le> m')"
proof (induction s arbitrary: m k)
  case Nil
  have "n \<le> m'" if "replicate k (CHR 0x60) = pre @ replicate n (CHR 0x60) @ post" for n pre post
    using arg_cong [OF that, of length] Nil by simp
  then show ?case using Nil by simp
next
  case (Cons c s)
  show ?case
  proof (cases "c = CHR 0x60")
    case True
    let ?m = "max m (k + 1)"
    have run: "fold (\<lambda>c (max_run, current). if c = CHR 0x60 then (max max_run (current + 1), current + 1) else (max_run, 0)) s (?m, k + 1) = (m', k')"
      using Cons.prems(1) True by simp
    have eq: "replicate k (CHR 0x60) @ c # s = replicate (k + 1) (CHR 0x60) @ s" using True by (simp add: replicate_app_Cons_same)
    show ?thesis unfolding eq using Cons.IH [OF run] by auto
  next
    case False
    have run: "fold (\<lambda>c (max_run, current). if c = CHR 0x60 then (max max_run (current + 1), current + 1) else (max_run, 0)) s (m, 0) = (m', k')"
      using Cons.prems(1) False by simp
    note ih = Cons.IH [OF run]
    have "n \<le> m'" if eq: "replicate k (CHR 0x60) @ c # s = pre @ replicate n (CHR 0x60) @ post" for n pre post
    proof (cases "length pre \<le> k")
      case True
      then have "n \<le> k"
      proof (rule_tac ccontr)
        assume "\<not> n \<le> k"
        then have "k - length pre < n" using True by linarith
        then have "(pre @ replicate n (CHR 0x60) @ post) ! k = CHR 0x60" using True by (simp add: nth_append)
        then show False using False by (simp add: nth_append flip: eq)
      qed
      then show ?thesis using Cons.prems(2) ih by simp
    next
      case long: False
      then obtain j where j: "length pre = k + Suc j" by (metis add_Suc_right less_imp_Suc_add not_le)
      have "pre = take (length pre) (replicate k (CHR 0x60) @ c # s)" by (simp add: eq)
      then have q: "pre = replicate k (CHR 0x60) @ c # take j s" by (simp add: j)
      then have "s = take j s @ replicate n (CHR 0x60) @ post" using eq by simp
      then show ?thesis using ih by (metis append_Nil replicate_0 le0)
    qed
    then show ?thesis using ih Cons.prems(2) by simp
  qed
qed

lemma backtick_run_bound: "\<not> str_has (replicate (backtick_run s + 1) (CHR 0x60)) s"
proof
  assume "str_has (replicate (backtick_run s + 1) (CHR 0x60)) s"
  then obtain pre post where "s = pre @ replicate (backtick_run s + 1) (CHR 0x60) @ post" by (auto simp: str_has_iff)
  moreover obtain m' k' :: nat where "fold (\<lambda>c (max_run, current). if c = CHR 0x60 then (max max_run (current + 1), current + 1) else (max_run, 0)) s (0, 0) = (m', k')"
    by fastforce
  ultimately have "backtick_run s + 1 \<le> backtick_run s"
    using backtick_fold [of s 0 0 m' k'] unfolding backtick_run_def by (metis fst_conv le_refl replicate_0 self_append_conv2)
  then show False by simp
qed

section \<open>Properties\<close>


definition sample_edits :: "TextEditArgs list" where
  "sample_edits = [\<lparr>te_old_text = ''b'', te_new_text = ''xy'', te_replace_all = Some True, te_near_line = None\<rparr>,
     \<lparr>te_old_text = ''c'' @ CRLF, te_new_text = ''d'' @ LF, te_replace_all = None, te_near_line = None\<rparr>]"

lemma sample_edits_run:
  "\<exists>summary. apply_text_edits (''abc'' @ LF @ ''b'') sample_edits = Inr summary \<and>
     es_content summary = ''axyd'' @ LF @ ''xy'' \<and> es_replacement_count summary = 3 \<and> es_char_delta summary = 2"
proof -
  have "case apply_text_edits (''abc'' @ LF @ ''b'') sample_edits of Inr summary \<Rightarrow>
      es_content summary = ''axyd'' @ LF @ ''xy'' \<and> es_replacement_count summary = 3 \<and> es_char_delta summary = 2 | Inl _ \<Rightarrow> False"
    by code_simp
  then show ?thesis by (auto split: sum.splits)
qed


text \<open>
  C24. Edits of valid text by valid text give valid text: no cut of an edit falls
  inside a character, where the source would panic. The reported difference in
  characters is the difference.
\<close>

theorem edited_text_valid:
  assumes "valid_str content" and "list_all (\<lambda>e. valid_str (te_old_text e) \<and> valid_str (te_new_text e)) edits"
    and "apply_text_edits content edits = Inr summary"
  shows "valid_str (es_content summary) \<and>
    es_char_delta summary = int (length (chars (es_content summary))) - int (length (chars content)) \<and>
    list_all (\<lambda>e. list_all (\<lambda>i. is_char_boundary content i \<and> is_char_boundary content (i + length (to_lf (te_old_text e))))
      (match_indices (to_lf (te_old_text e)) content)) edits"
proof -
  obtain n d where "apply_edits_from 0 edits (content, 0, 0) = Inr (es_content summary, n, d)" "es_char_delta summary = d"
    using assms(3) by (auto simp: apply_text_edits_def split: sum.splits prod.splits)
  from apply_edits_valid [OF this(1) assms(1,2)] this(2)
  have "valid_str (es_content summary) \<and>
      es_char_delta summary = int (length (chars (es_content summary))) - int (length (chars content))" by simp
  moreover have "is_char_boundary content i \<and> is_char_boundary content (i + length (to_lf (te_old_text e)))"
    if "e \<in> set edits" "i \<in> set (match_indices (to_lf (te_old_text e)) content)" for e i
  proof (cases "to_lf (te_old_text e) = []")
    case True
    have "length (str_split [] s) = 1" for s
      by (induction "[] :: string" s rule: str_split.induct) (auto simp: str_split.simps(2) split: list.split)
    then show ?thesis using that(2) match_indices_length [of "[]" content] unfolding True by simp
  next
    case False
    then show ?thesis using match_boundaries [OF assms(1) valid_to_lf False] that assms(2) by (auto simp: list_all_iff)
  qed
  ultimately show ?thesis by (simp add: list_all_iff)
qed

theorem edited_text_valid_witness:
  "\<exists>summary. apply_text_edits (''abc'' @ LF @ ''b'') sample_edits = Inr summary \<and> valid_str (es_content summary) \<and>
     int (length (chars (es_content summary))) - int (length (chars (''abc'' @ LF @ ''b''))) = 2"
proof -
  obtain summary where run: "apply_text_edits (''abc'' @ LF @ ''b'') sample_edits = Inr summary" and delta: "es_char_delta summary = 2"
    using sample_edits_run by blast
  have "valid_str (''abc'' @ LF @ ''b'')" by (rule valid_ascii) simp
  moreover have "list_all (\<lambda>e. valid_str (te_old_text e) \<and> valid_str (te_new_text e)) sample_edits"
    by (simp add: sample_edits_def valid_ascii)
  ultimately have "valid_str (es_content summary) \<and> es_char_delta summary =
      int (length (chars (es_content summary))) - int (length (chars (''abc'' @ LF @ ''b'')))"
    using edited_text_valid [OF _ _ run] by blast
  then show ?thesis using run delta by (intro exI [of _ summary]) simp
qed

text \<open>
  C<n>. Normalising and restoring the line endings of a file gives the file back,
  unless it mixes lines with and without a carriage return: then, and only then, an
  edit also changes lines it does not touch.
\<close>

theorem line_endings_restored:
  "restore_line_endings (to_lf txt) (detect_line_ending txt) = txt \<longleftrightarrow> \<not> (str_has CRLF txt \<and> bare_lf txt)"
  by (cases "str_has CRLF txt")
    (simp_all add: detect_line_ending_def restore_line_endings_def to_lf_crlf to_lf_no_crlf restore_after_lf)

lemma read_Inr: "read_to_string env p files = Inr content \<Longrightarrow> files (target_of env p) = Some content"
  by (auto simp: read_to_string_def split: option.splits)


section \<open>Edits under the locks\<close>

text \<open>The edit tool as a change under the lock of its file.\<close>

definition edit_change ::
  "FileEnv \<Rightarrow> EditFileArgs \<times> path \<times> path option \<Rightarrow> path list \<times> ((path \<Rightarrow> string option option) \<Rightarrow> path \<Rightarrow> string option)" where
  "edit_change env call = (case call of (args, resolved, working_dir) \<Rightarrow>
     (lock_keys (fe_fs env) [resolved],
      \<lambda>before k. case before k of
          Some content \<Rightarrow> snd (apply_edit_file_locked env args resolved working_dir ((\<lambda>_. None)(k := content))) k
        | None \<Rightarrow> None))"

lemma edit_locked_local:
  assumes "target_of env resolved = k"
  shows "snd (apply_edit_file_locked env args resolved working_dir files) p =
    (if p = k then snd (apply_edit_file_locked env args resolved working_dir ((\<lambda>_. None)(k := files k))) k else files p)"
proof -
  have same: "read_to_string env resolved ((\<lambda>_. None)(k := files k)) = read_to_string env resolved files"
    unfolding read_to_string_def assms fun_upd_same ..
  show ?thesis
  proof (cases "read_to_string env resolved files")
    case (Inl e)
    then show ?thesis using same by (simp add: apply_edit_file_locked_def)
  next
    case (Inr content)
    then show ?thesis using same assms
      by (cases "apply_text_edits (to_lf content) (ef_edits args)"; cases "fe_write_fault env")
        (simp_all add: apply_edit_file_locked_def Let_def write_text_file_def atomic_write_text_file_def split: prod.split)
  qed
qed

lemma edit_change_atomic:
  assumes "fs_canonicalize (fe_fs env) resolved = Some k"
  shows "atomic (edit_change env (args, resolved, working_dir)) files = snd (apply_edit_file_locked env args resolved working_dir files)"
proof
  fix p
  have "target_of env resolved = k" using assms by (simp add: target_of_def)
  from edit_locked_local [OF this, of args working_dir files p]
  show "atomic (edit_change env (args, resolved, working_dir)) files p = snd (apply_edit_file_locked env args resolved working_dir files) p"
    using assms by (simp add: edit_change_def atomic_def written_def seen_def lock_keys_def mutation_key_def)
qed

text \<open>
  C26. Edits that run at the same time, of the same file or of different ones, under
  whatever names, all take effect: the files are as if the edits had been made one
  after the other, each on what the one before left.
\<close>

theorem concurrent_edits_take_turns:
  assumes "locks_reach files s" and "lk_done s = map (edit_change env) calls"
    and "list_all (\<lambda>(args, resolved, working_dir). fs_canonicalize (fe_fs env) resolved \<noteq> None) calls"
  shows "lk_files s =
    fold (\<lambda>(args, resolved, working_dir) files. snd (apply_edit_file_locked env args resolved working_dir files)) calls files"
proof -
  have step: "fold atomic (map (edit_change env) cs) f =
      fold (\<lambda>(args, resolved, working_dir) files. snd (apply_edit_file_locked env args resolved working_dir files)) cs f"
    if "list_all (\<lambda>(args, resolved, working_dir). fs_canonicalize (fe_fs env) resolved \<noteq> None) cs" for cs f
    using that by (induction cs arbitrary: f) (auto simp: edit_change_atomic)
  have "lk_files s = fold atomic (map (edit_change env) calls) files"
    using locks_okD(6) [OF reach_ok [OF assms(1)]] unfolding assms(2) .
  then show ?thesis using step [OF assms(3)] by simp
qed

definition sample_file_env :: FileEnv where
  "sample_file_env = \<lparr>fe_fs = \<lparr>fs_canonicalize = (\<lambda>p. Some [RootDir, Normal ''f'']), fs_current_dir = None\<rparr>, fe_home = None,
     fe_sha256 = (\<lambda>_. []), fe_diff = (\<lambda>_ _ _ _. []), fe_format_char = (\<lambda>_. False), fe_read_fault = None,
     fe_parents_fault = None, fe_write_fault = None\<rparr>"

definition sample_edit :: "string \<Rightarrow> string \<Rightarrow> EditFileArgs" where
  "sample_edit old_text new_text = \<lparr>ef_path = ''/f'', ef_edits = [\<lparr>te_old_text = old_text, te_new_text = new_text,
     te_replace_all = None, te_near_line = None\<rparr>], ef_expected_sha256 = None, ef_dry_run = None\<rparr>"

theorem concurrent_edits_take_turns_witness:
  "\<exists>s. run_locks (fe_fs sample_file_env)
      [LO_Call 1 [[RootDir, Normal ''f'']] (snd (edit_change sample_file_env (sample_edit ''a'' ''x'', [RootDir, Normal ''f''], None))),
       LO_Call 2 [[RootDir, Normal ''g'']] (snd (edit_change sample_file_env (sample_edit ''b'' ''y'', [RootDir, Normal ''g''], None))),
       LO_Step 1, LO_Step 2, LO_Step 2, LO_Step 2, LO_Step 2, LO_Step 2, LO_Step 1, LO_Step 1, LO_Step 1]
      (locks_start (\<lambda>_. Some ''ab'')) = Some s \<and> lk_files s [RootDir, Normal ''f''] = Some ''xy''"
proof -
  let ?c1 = "(sample_edit ''a'' ''x'', [RootDir, Normal ''f''], None)" and ?c2 = "(sample_edit ''b'' ''y'', [RootDir, Normal ''g''], None)"
  have "\<exists>s. run_locks (fe_fs sample_file_env)
      [LO_Call 1 [[RootDir, Normal ''f'']] (snd (edit_change sample_file_env ?c1)), LO_Call 2 [[RootDir, Normal ''g'']] (snd (edit_change sample_file_env ?c2)),
       LO_Step 1, LO_Step 2, LO_Step 2, LO_Step 2, LO_Step 2, LO_Step 2, LO_Step 1, LO_Step 1, LO_Step 1]
      (locks_start (\<lambda>_. Some ''ab'')) = Some s \<and> lk_done s = map (edit_change sample_file_env) [?c2, ?c1]"
    by (simp add: lock_keys_def mutation_key_def sample_file_env_def edit_change_def locks_start_def begin_call_def advance_def put_call_def)
  then obtain s where run: "run_locks (fe_fs sample_file_env)
      [LO_Call 1 [[RootDir, Normal ''f'']] (snd (edit_change sample_file_env ?c1)), LO_Call 2 [[RootDir, Normal ''g'']] (snd (edit_change sample_file_env ?c2)),
       LO_Step 1, LO_Step 2, LO_Step 2, LO_Step 2, LO_Step 2, LO_Step 2, LO_Step 1, LO_Step 1, LO_Step 1]
      (locks_start (\<lambda>_. Some ''ab'')) = Some s" and fin: "lk_done s = map (edit_change sample_file_env) [?c2, ?c1]" by blast
  have "list_all (\<lambda>(args, resolved, working_dir). fs_canonicalize (fe_fs sample_file_env) resolved \<noteq> None) [?c2, ?c1]"
    by (simp add: sample_file_env_def)
  from concurrent_edits_take_turns [OF run_locks_reach [OF run locks_reach.start] fin this]
  have "lk_files s [RootDir, Normal ''f''] = fold (\<lambda>(args, resolved, working_dir) files.
      snd (apply_edit_file_locked sample_file_env args resolved working_dir files)) [?c2, ?c1] (\<lambda>_. Some ''ab'') [RootDir, Normal ''f'']" by simp
  also have "\<dots> = Some ''xy''" by code_simp
  finally show ?thesis using run by blast
qed

section \<open>Other properties\<close>

text \<open>
  C<n>. Text shown between fences cannot close its own fence: the fence does not occur
  in it.
\<close>

theorem fence_stays_closed:
  "\<exists>fence. fence_content content lang = fence @ lang @ LF @ trim_end_newlines content @ LF @ fence \<and>
     3 \<le> length fence \<and> set fence = {CHR 0x60} \<and> \<not> str_has fence (trim_end_newlines content)"
proof -
  let ?t = "trim_end_newlines content"
  let ?n = "max (backtick_run ?t + 1) 3"
  have "str_has (replicate (backtick_run ?t + 1) (CHR 0x60)) ?t" if con: "str_has (replicate ?n (CHR 0x60)) ?t"
  proof -
    obtain pre post where "?t = pre @ replicate ?n (CHR 0x60) @ post" using con by (auto simp: str_has_iff)
    moreover have "replicate ?n (CHR 0x60) = replicate (backtick_run ?t + 1) (CHR 0x60) @ replicate (?n - (backtick_run ?t + 1)) (CHR 0x60)"
      by (simp only: replicate_add [symmetric]) simp
    ultimately have "?t = pre @ replicate (backtick_run ?t + 1) (CHR 0x60) @ (replicate (?n - (backtick_run ?t + 1)) (CHR 0x60) @ post)"
      by (metis append.assoc)
    then show ?thesis unfolding str_has_iff by blast
  qed
  then have "\<not> str_has (replicate ?n (CHR 0x60)) ?t" using backtick_run_bound by blast
  then show ?thesis by (intro exI [of _ "replicate ?n (CHR 0x60)"]) (simp add: fence_content_def Let_def set_replicate_conv_if)
qed

text \<open>
  C<n>. An edit is taken for unambiguous although its text occurs twice, when the
  occurrences overlap; the tool promises to refuse an edit that does not match exactly
  once.
\<close>

theorem overlapping_match_accepted:
  "str_has ''aa'' (take 2 ''aaa'') \<and> str_has ''aa'' (drop 1 ''aaa'') \<and>
   (\<exists>summary. apply_text_edits ''aaa'' [\<lparr>te_old_text = ''aa'', te_new_text = ''b'', te_replace_all = None, te_near_line = None\<rparr>] = Inr summary \<and>
      es_content summary = ''ba'')"
proof -
  have "case apply_text_edits ''aaa'' [\<lparr>te_old_text = ''aa'', te_new_text = ''b'', te_replace_all = None, te_near_line = None\<rparr>] of
      Inr summary \<Rightarrow> es_content summary = ''ba'' | Inl _ \<Rightarrow> False" by code_simp
  then have "\<exists>summary. apply_text_edits ''aaa'' [\<lparr>te_old_text = ''aa'', te_new_text = ''b'', te_replace_all = None, te_near_line = None\<rparr>] = Inr summary \<and>
      es_content summary = ''ba''" by (auto split: sum.splits)
  moreover have "str_has ''aa'' (take 2 ''aaa'') \<and> str_has ''aa'' (drop 1 ''aaa'')" by code_simp
  ultimately show ?thesis by blast
qed

text \<open>
  C<n>. A write that does not say whether to overwrite replaces an existing file, while
  its description tells the user that it will not.
\<close>

theorem write_described_without_overwriting:
  assumes "wf_overwrite args = None" and "validate_nonempty_path (wf_path args) = Inr path"
    and "fe_parents_fault env = None" and "fe_write_fault env = None"
  shows "snd (execute_write_file_tool env to_lowercase args working_dir files) (target_of env (resolve_path (fe_home env) path working_dir)) =
      Some (wf_content args) \<and>
    str_has ''overwrite: false'' (describe_write_file_invocation args)"
proof
  show "snd (execute_write_file_tool env to_lowercase args working_dir files) (target_of env (resolve_path (fe_home env) path working_dir)) =
      Some (wf_content args)"
    using assms by (simp add: execute_write_file_tool_def ensure_parent_directories_def write_text_file_def atomic_write_text_file_def
        Let_def split: option.split)
  have "describe_write_file_invocation args = (''Writing '' @ show_nat (length (wf_content args)) @ '' bytes to file `'' @ wf_path args @ ''` ('') @
      ''overwrite: false'' @ ('', create_parents: '' @ yes_no (wf_create_parents args = Some True) @ '').'')"
    using assms(1) by (simp add: describe_write_file_invocation_def yes_no_def)
  then show "str_has ''overwrite: false'' (describe_write_file_invocation args)"
    unfolding str_has_iff by blast
qed

theorem write_described_without_overwriting_witness:
  "snd (execute_write_file_tool sample_file_env (\<lambda>s. s) \<lparr>wf_path = ''/f'', wf_content = ''new'', wf_overwrite = None, wf_create_parents = None\<rparr> None
      (\<lambda>_. Some ''old'')) [RootDir, Normal ''f''] = Some ''new''"
proof -
  let ?args = "\<lparr>wf_path = ''/f'', wf_content = ''new'', wf_overwrite = None, wf_create_parents = None\<rparr>"
  have "chars ''/f'' = [47, 102]" using ascii_chars(1) [of "''/f''"] by (simp add: str_vals_def)
  moreover have "char_of (47::nat) = CHR ''/''" "char_of (102::nat) = CHR ''f''" by code_simp+
  ultimately have "trim ''/f'' = ''/f''"
    by (simp add: trim_def trim_scalars_def is_whitespace_def str_of_chars_def str_of_vals_def encode_scalar_def)
  then have "validate_nonempty_path (wf_path ?args) = Inr ''/f''" by (simp add: validate_nonempty_path_def)
  moreover have "target_of sample_file_env p = [RootDir, Normal ''f'']" for p by (simp add: target_of_def sample_file_env_def)
  ultimately show ?thesis
    using write_described_without_overwriting [of ?args "''/f''" sample_file_env "\<lambda>s. s" None "\<lambda>_. Some ''old''"]
    by (simp add: sample_file_env_def)
qed

end
