(* ===== verification/Keystore.thy ===== *)
theory Keystore
  imports Daemon_Open Provider_Retry
begin

text \<open>
  The daemon's credential keystore: the sealed box credentials are stored in
  (\<open>src/choreo-keystore/src/crypto.rs\<close>), the tables of the database that hold the boxes
  and the binding (\<open>src/choreo-daemon/src/db/mod.rs\<close>), the handlers that bind, unlock and
  lock the keystore and store a credential (\<open>src/choreo-daemon/src/daemon/keystore.rs\<close>),
  the handlers of rotated and rejected OAuth grants (\<open>daemon/oauth_store/\<close>), the read
  view the MCP connect path uses (\<open>mcp/oauth.rs\<close>), and what the daemon hands out of a
  credential (\<open>daemon/provider_auth.rs\<close>).

  The primitives of the box (X25519, HKDF, AES-GCM), the credential encoding and the
  file of the accounts are arguments, in the record \<open>KeyEnv\<close>; so are the random values
  of a box and the faults of the database, which are given for the tick of the command
  that is running. The daemon is the one of \<open>Daemon_Models\<close>, with its client registry.
\<close>

section \<open>The sealed box (choreo-keystore/src/crypto.rs)\<close>

datatype KeystoreError =
    KE_Io string
  | KE_EncryptionFailed
  | KE_DecryptionFailed
  | KE_InvalidKeyLength
  | KE_ConfigDirNotFound
  | KE_TooShort
  | KE_UnsupportedKeystoreFormat
  | KE_InvalidKeystoreData

fun KeystoreError_text :: "KeystoreError \<Rightarrow> string" where
  "KeystoreError_text (KE_Io e) = e"
| "KeystoreError_text KE_EncryptionFailed = ''encryption failed''"
| "KeystoreError_text KE_DecryptionFailed = ''incorrect passphrase, corrupted data, or wrong key''"
| "KeystoreError_text KE_InvalidKeyLength = ''invalid key length''"
| "KeystoreError_text KE_ConfigDirNotFound = ''could not determine config directory''"
| "KeystoreError_text KE_TooShort = ''encrypted data too short''"
| "KeystoreError_text KE_UnsupportedKeystoreFormat = ''unsupported Polkadot-JS keystore encoding''"
| "KeystoreError_text KE_InvalidKeystoreData = ''malformed or corrupt keystore data''"

text \<open>What a fault of the database hits, within one command.\<close>

datatype db_call = ReadBinding | WriteBinding | ReadBlobs | WriteBlob | RemoveBlob

text \<open>The accounts file as \<open>toml::from_str\<close> leaves it, when it exists and can be read.\<close>

datatype accounts_file = AF_Absent | AF_Unreadable string | AF_Malformed string | AF_Parsed "AccountConfig list"

record KeyEnv =
  ke_public :: "bytes \<Rightarrow> bytes"
  ke_diffie_hellman :: "bytes \<Rightarrow> bytes \<Rightarrow> bytes"
  ke_hkdf_expand :: "bytes \<Rightarrow> bytes \<Rightarrow> string \<Rightarrow> bytes option"
  ke_aead_encrypt :: "bytes \<Rightarrow> bytes \<Rightarrow> bytes \<Rightarrow> bytes option"
  ke_aead_decrypt :: "bytes \<Rightarrow> bytes \<Rightarrow> bytes \<Rightarrow> bytes option"
  ke_random :: "nat \<Rightarrow> bytes \<times> bytes \<times> bytes"
  ke_to_allocvec :: "ServiceCredential \<Rightarrow> string + bytes"
  ke_from_bytes :: "bytes \<Rightarrow> ServiceCredential option"
  ke_fault :: "nat \<Rightarrow> db_call \<Rightarrow> string option"
  ke_accounts_file :: "nat \<Rightarrow> accounts_file"
  ke_save_accounts :: "nat \<Rightarrow> string option"
  ke_is_configured :: "nat \<Rightarrow> string \<Rightarrow> bool"

definition aes_encrypt :: "KeyEnv \<Rightarrow> bytes \<Rightarrow> bytes \<Rightarrow> bytes \<Rightarrow> KeystoreError + bytes" where
  "aes_encrypt env key nonce plaintext = (case ke_aead_encrypt env key nonce plaintext of
     None \<Rightarrow> Inl KE_EncryptionFailed | Some ciphertext \<Rightarrow> Inr ciphertext)"

definition aes_decrypt :: "KeyEnv \<Rightarrow> bytes \<Rightarrow> bytes \<Rightarrow> bytes \<Rightarrow> KeystoreError + bytes" where
  "aes_decrypt env key nonce ciphertext = (case ke_aead_decrypt env key nonce ciphertext of
     None \<Rightarrow> Inl KE_DecryptionFailed | Some plaintext \<Rightarrow> Inr plaintext)"

definition encrypt_with_public_key :: "KeyEnv \<Rightarrow> nat \<Rightarrow> bytes \<Rightarrow> bytes \<Rightarrow> KeystoreError + bytes" where
  "encrypt_with_public_key env instant pub_key plaintext =
     (let (eph_secret, salt, nonce_bytes) = ke_random env instant;
          eph_public = ke_public env eph_secret;
          shared_bytes = ke_diffie_hellman env eph_secret pub_key
      in case ke_hkdf_expand env salt shared_bytes ''choreographr-credential-v2'' of
           None \<Rightarrow> Inl KE_EncryptionFailed
         | Some aes_key \<Rightarrow> (case aes_encrypt env aes_key nonce_bytes plaintext of
             Inl e \<Rightarrow> Inl e
           | Inr ciphertext \<Rightarrow> Inr (eph_public @ salt @ nonce_bytes @ ciphertext)))"

definition decrypt_with_private_key :: "KeyEnv \<Rightarrow> bytes \<Rightarrow> bytes \<Rightarrow> KeystoreError + bytes" where
  "decrypt_with_private_key env priv_key data =
     (if length data < 32 + 32 + 12 then Inl KE_TooShort
      else (let eph_pub_bytes = take 32 data;
                salt = take 32 (drop 32 data);
                nonce_bytes = take 12 (drop 64 data);
                ciphertext = drop 76 data;
                shared_bytes = ke_diffie_hellman env priv_key eph_pub_bytes
            in case ke_hkdf_expand env salt shared_bytes ''choreographr-credential-v2'' of
                 None \<Rightarrow> Inl KE_DecryptionFailed
               | Some aes_key \<Rightarrow> aes_decrypt env aes_key nonce_bytes ciphertext))"

section \<open>State\<close>

record AccessTokenCache =
  atc_access_token :: string
  atc_expires_at :: "i64 option"
  atc_received_at :: i64

record CachedAccessToken =
  cat_access_token :: string
  cat_expires_at :: "i64 option"
  cat_received_at :: i64

record RefreshMaterial =
  rm_token_endpoint :: string
  rm_encoding :: OAuthGrantEncoding
  rm_client_id :: "string option"
  rm_client_secret :: "string option"
  rm_refresh_token :: string
  rm_granted_scopes :: "string list"

record TokenLoad =
  tl_cached :: "CachedAccessToken option"
  tl_material :: "RefreshMaterial option"
  tl_dead :: bool

text \<open>What a command answers its caller with, besides the client's own reply.\<close>

datatype vault_answer =
    VA_Ack
  | VA_Result "string + unit"
  | VA_Credential "string option"
  | VA_Token TokenLoad

text \<open>
  The fields of \<open>DaemonState\<close> the keystore uses, the rows of its tables, the snapshot
  of the MCP runtime, the servers it asked to bring up and the answers it sent.
\<close>

record Vault =
  va_daemon :: Daemon
  va_access_tokens :: "(string \<times> AccessTokenCache) list"
  va_dead_oauth :: "string list"
  va_x_credentials :: "ServiceCredential option"
  va_binding :: "bytes option"
  va_blobs :: "(string \<times> bytes) list"
  va_snapshot :: "(string \<times> ServiceCredential) list"
  va_brought_up :: "string list"
  va_answers :: "(reply_chan \<times> vault_answer) list"

abbreviation va_credentials :: "Vault \<Rightarrow> (string \<times> ServiceCredential) list" where
  "va_credentials v \<equiv> dm_credentials (va_daemon v)"

abbreviation va_locked :: "Vault \<Rightarrow> bool" where
  "va_locked v \<equiv> ds_locked (dm_state (va_daemon v))"

abbreviation va_keystore_bound :: "Vault \<Rightarrow> bool" where
  "va_keystore_bound v \<equiv> ds_keystore_bound (dm_state (va_daemon v))"

abbreviation va_tick :: "Vault \<Rightarrow> nat" where
  "va_tick v \<equiv> dm_tick (va_daemon v)"

definition on_state :: "(DaemonState \<Rightarrow> DaemonState) \<Rightarrow> Vault \<Rightarrow> Vault" where
  "on_state f v = v\<lparr>va_daemon := (va_daemon v)\<lparr>dm_state := f (dm_state (va_daemon v))\<rparr>\<rparr>"

definition set_credentials :: "(string \<times> ServiceCredential) list \<Rightarrow> Vault \<Rightarrow> Vault" where
  "set_credentials m v = v\<lparr>va_daemon := (va_daemon v)\<lparr>dm_credentials := m\<rparr>\<rparr>"

definition set_accounts :: "(string \<times> AccountConfig) list \<Rightarrow> Vault \<Rightarrow> Vault" where
  "set_accounts m v = v\<lparr>va_daemon := (va_daemon v)\<lparr>dm_accounts := m\<rparr>\<rparr>"

definition set_locked :: "bool \<Rightarrow> Vault \<Rightarrow> Vault" where
  "set_locked b = on_state (\<lambda>s. s\<lparr>ds_locked := b\<rparr>)"

definition va_answer :: "reply_chan \<Rightarrow> vault_answer \<Rightarrow> Vault \<Rightarrow> Vault" where
  "va_answer ch a v = v\<lparr>va_answers := va_answers v @ [(ch, a)]\<rparr>"

definition drop_token :: "string \<Rightarrow> Vault \<Rightarrow> Vault" where
  "drop_token account v = v\<lparr>va_access_tokens := hm_remove account (va_access_tokens v)\<rparr>"

definition unquarantine :: "string \<Rightarrow> Vault \<Rightarrow> Vault" where
  "unquarantine account v = v\<lparr>va_dead_oauth := removeAll account (va_dead_oauth v)\<rparr>"

section \<open>The tables (db/mod.rs)\<close>

text \<open>A stored binding of another length than a key's counts as none.\<close>

definition get_keystore_binding :: "KeyEnv \<Rightarrow> Vault \<Rightarrow> string + bytes option" where
  "get_keystore_binding env v = (case ke_fault env (va_tick v) ReadBinding of
     Some e \<Rightarrow> Inl e
   | None \<Rightarrow> (case va_binding v of
       None \<Rightarrow> Inr None
     | Some stored \<Rightarrow> Inr (if length stored = 32 then Some stored else None)))"

definition set_keystore_binding :: "KeyEnv \<Rightarrow> bytes \<Rightarrow> Vault \<Rightarrow> string + Vault" where
  "set_keystore_binding env public_key v = (case ke_fault env (va_tick v) WriteBinding of
     Some e \<Rightarrow> Inl e
   | None \<Rightarrow> Inr (v\<lparr>va_binding := Some public_key\<rparr>))"

definition set_credential_blob :: "KeyEnv \<Rightarrow> string \<Rightarrow> bytes \<Rightarrow> Vault \<Rightarrow> string + Vault" where
  "set_credential_blob env service blob v = (case ke_fault env (va_tick v) WriteBlob of
     Some e \<Rightarrow> Inl e
   | None \<Rightarrow> Inr (v\<lparr>va_blobs := hm_insert service blob (va_blobs v)\<rparr>))"

definition get_all_credential_blobs :: "KeyEnv \<Rightarrow> Vault \<Rightarrow> string + (string \<times> bytes) list" where
  "get_all_credential_blobs env v = (case ke_fault env (va_tick v) ReadBlobs of
     Some e \<Rightarrow> Inl e | None \<Rightarrow> Inr (va_blobs v))"

definition remove_credential_blob :: "KeyEnv \<Rightarrow> string \<Rightarrow> Vault \<Rightarrow> string + Vault" where
  "remove_credential_blob env service v = (case ke_fault env (va_tick v) RemoveBlob of
     Some e \<Rightarrow> Inl e
   | None \<Rightarrow> Inr (v\<lparr>va_blobs := hm_remove service (va_blobs v)\<rparr>))"

section \<open>Accounts (accounts/mod.rs)\<close>

definition AccountConfig_simple :: "string \<Rightarrow> string \<Rightarrow> AccountConfig" where
  "AccountConfig_simple name provider =
     \<lparr>ac_name = name, ac_provider = provider, ac_base_url = None, ac_streaming = None,
      ac_stream_options = None, ac_retry_max_attempts = None, ac_connect_timeout_secs = None,
      ac_request_timeout_secs = None, ac_total_timeout_secs = None, ac_model_list_path = None,
      ac_responses_path = None, ac_chat_completions_path = None, ac_default_request_format = None,
      ac_chat_completions_max_tokens = None, ac_model_max_tokens = None,
      ac_chat_completions_max_tokens_field = None, ac_responses_max_output_tokens = None,
      ac_model_responses_max_output_tokens = None, ac_programmatic_tool_calling = None,
      ac_model_max_tokens_fields = None, ac_context_window = None, ac_model_context_windows = None,
      ac_prompt_cache = None, ac_prompt_cache_affinity = None, ac_meter = None,
      ac_cache_warming = None, ac_retry_initial_backoff_ms = None, ac_retry_max_backoff_ms = None\<rparr>"

definition exceeds_backoff :: "string \<Rightarrow> string \<Rightarrow> u64 \<Rightarrow> string" where
  "exceeds_backoff name field ms =
     ''account '' @ quoted name @ '': '' @ field @ '' ('' @ show_nat (unat ms) @
     '' ms) exceeds the maximum supported retry delay ('' @ show_nat (unat MAX_BACKOFF_MS) @
     '' ms); lower it or leave it unset to use the default''"

definition AccountConfig_validate :: "AccountConfig \<Rightarrow> string + unit" where
  "AccountConfig_validate self =
     (case ac_retry_initial_backoff_ms self of
        Some initial \<Rightarrow>
          if initial > MAX_BACKOFF_MS
          then Inl (exceeds_backoff (ac_name self) ''retry_initial_backoff_ms'' initial)
          else (case ac_retry_max_backoff_ms self of
              Some most \<Rightarrow>
                if most > MAX_BACKOFF_MS
                then Inl (exceeds_backoff (ac_name self) ''retry_max_backoff_ms'' most)
                else if initial > most
                then Inl (''account '' @ quoted (ac_name self) @ '': retry_initial_backoff_ms ('' @
                  show_nat (unat initial) @ '' ms) must not exceed retry_max_backoff_ms ('' @
                  show_nat (unat most) @ '' ms)'')
                else Inr ()
            | None \<Rightarrow> Inr ())
      | None \<Rightarrow> (case ac_retry_max_backoff_ms self of
            Some most \<Rightarrow>
              if most > MAX_BACKOFF_MS
              then Inl (exceeds_backoff (ac_name self) ''retry_max_backoff_ms'' most) else Inr ()
          | None \<Rightarrow> Inr ()))"

fun validate_all :: "AccountConfig list \<Rightarrow> string + unit" where
  "validate_all [] = Inr ()"
| "validate_all (cfg # cfgs) = (case AccountConfig_validate cfg of Inl e \<Rightarrow> Inl e | Inr _ \<Rightarrow> validate_all cfgs)"

definition AccountManager_load :: "KeyEnv \<Rightarrow> nat \<Rightarrow> string + (string \<times> AccountConfig) list" where
  "AccountManager_load env instant = (case ke_accounts_file env instant of
     AF_Absent \<Rightarrow> Inr []
   | AF_Unreadable e \<Rightarrow> Inl e
   | AF_Malformed e \<Rightarrow> Inl e
   | AF_Parsed account \<Rightarrow> (case validate_all account of
       Inl e \<Rightarrow> Inl e
     | Inr _ \<Rightarrow> Inr (fold (\<lambda>cfg. hm_insert (ac_name cfg) cfg) account [])))"

text \<open>The account is in the manager before it is saved, also when saving fails.\<close>

definition AccountManager_add ::
  "KeyEnv \<Rightarrow> nat \<Rightarrow> AccountConfig \<Rightarrow> (string \<times> AccountConfig) list \<Rightarrow>
   (string + unit) \<times> (string \<times> AccountConfig) list" where
  "AccountManager_add env instant config self = (case AccountConfig_validate config of
     Inl e \<Rightarrow> (Inl e, self)
   | Inr _ \<Rightarrow>
       if map_of self (ac_name config) \<noteq> None
       then (Inl (''account '' @ quoted (ac_name config) @ '' already exists''), self)
       else (let self = hm_insert (ac_name config) config self
             in case ke_save_accounts env instant of
                  Some e \<Rightarrow> (Inl (''failed to save accounts: '' @ e), self)
                | None \<Rightarrow> (Inr (), self)))"

section \<open>Sessions of an account (daemon.rs)\<close>

definition sessions_bound_to :: "string option \<Rightarrow> DaemonState \<Rightarrow> u64 list" where
  "sessions_bound_to account s =
     map fst (filter (\<lambda>(_, meta). account = None \<or> meta_account_name meta = account) (ds_session_metadata s))"

definition drop_session_clients :: "string option \<Rightarrow> Vault \<Rightarrow> Vault" where
  "drop_session_clients account = on_state (\<lambda>s. s\<lparr>ds_active_sessions :=
     fold (\<lambda>session_id. btm_update session_id (cmd_send SC_DropProvider))
       (sessions_bound_to account s) (ds_active_sessions s)\<rparr>)"

section \<open>The read view of the MCP connect path (oauth_store/mod.rs, mcp/oauth.rs)\<close>

definition is_mcp_credential_key :: "string \<Rightarrow> bool" where
  "is_mcp_credential_key key \<longleftrightarrow> take 4 key = ''mcp:''"

definition slug_from_credential_key :: "string \<Rightarrow> string option" where
  "slug_from_credential_key key =
     (if is_mcp_credential_key key \<and> CHR ''|'' \<in> set (drop 4 key)
      then Some (rev (tl (dropWhile (\<lambda>c. c \<noteq> CHR ''|'') (rev (drop 4 key))))) else None)"

definition publish_credential :: "string \<Rightarrow> ServiceCredential \<Rightarrow> Vault \<Rightarrow> Vault" where
  "publish_credential key credential v = v\<lparr>va_snapshot := hm_insert key credential (va_snapshot v)\<rparr>"

definition remove_credential :: "string \<Rightarrow> Vault \<Rightarrow> Vault" where
  "remove_credential key v = v\<lparr>va_snapshot := hm_remove key (va_snapshot v)\<rparr>"

definition mcp_oauth_snapshot :: "Vault \<Rightarrow> (string \<times> ServiceCredential) list" where
  "mcp_oauth_snapshot v =
     filter (\<lambda>(k, _). is_mcp_credential_key k \<and> k \<notin> set (va_dead_oauth v)) (va_credentials v)"

definition publish_mcp_oauth_snapshot :: "Vault \<Rightarrow> Vault" where
  "publish_mcp_oauth_snapshot v = v\<lparr>va_snapshot := mcp_oauth_snapshot v\<rparr>"

definition publish_mcp_oauth_key :: "string \<Rightarrow> Vault \<Rightarrow> Vault" where
  "publish_mcp_oauth_key key v =
     (if \<not> is_mcp_credential_key key then v
      else (case map_of (va_credentials v) key of
          Some credential \<Rightarrow>
            if key \<notin> set (va_dead_oauth v) then publish_credential key credential v
            else remove_credential key v
        | None \<Rightarrow> remove_credential key v))"

definition refresh_token_unchanged :: "ServiceCredential \<Rightarrow> string option \<Rightarrow> bool" where
  "refresh_token_unchanged stored expected = (case expected of
     None \<Rightarrow> True
   | Some expected \<Rightarrow> Option.bind (as_oauth stored) ocv_refresh_token = Some expected)"

text \<open>
  Bringing a server up (\<open>mcp_commands/reconnect.rs\<close>) runs on background workers; the
  slugs it is asked for are recorded.
\<close>

definition bring_up_mcp_slug :: "string \<Rightarrow> Vault \<Rightarrow> Vault" where
  "bring_up_mcp_slug slug v = v\<lparr>va_brought_up := va_brought_up v @ [slug]\<rparr>"

definition mcp_resync_candidates :: "KeyEnv \<Rightarrow> Vault \<Rightarrow> string list" where
  "mcp_resync_candidates env v =
     remdups_adj (sort (filter (ke_is_configured env (va_tick v))
       (List.map_filter slug_from_credential_key
         (filter is_mcp_credential_key (map fst (va_credentials v))))))"

definition schedule_mcp_resync_for_credentials :: "KeyEnv \<Rightarrow> Vault \<Rightarrow> Vault" where
  "schedule_mcp_resync_for_credentials env v = fold bring_up_mcp_slug (mcp_resync_candidates env v) v"

definition reconnect_mcp_for_credential :: "string \<Rightarrow> Vault \<Rightarrow> Vault" where
  "reconnect_mcp_for_credential credential_key v = (case slug_from_credential_key credential_key of
     None \<Rightarrow> v | Some slug \<Rightarrow> bring_up_mcp_slug slug v)"

section \<open>Binding, unlocking and locking (daemon/keystore.rs)\<close>

datatype KeystoreOpError = KO_Unbound | KO_Other string

fun KeystoreOpError_text :: "KeystoreOpError \<Rightarrow> string" where
  "KeystoreOpError_text KO_Unbound = ''keystore not initialized '' @ em_dash @
     '' no key is bound to this daemon yet; it will be bound automatically on next client connect''"
| "KeystoreOpError_text (KO_Other e) = e"

fun unlock_error_reply :: "KeystoreOpError \<Rightarrow> DaemonMessageType" where
  "unlock_error_reply KO_Unbound = DM_KeystoreUnbound (KeystoreOpError_text KO_Unbound)"
| "unlock_error_reply (KO_Other e) = DM_LockedError e"

definition send_to_target :: "ReplyTarget option \<Rightarrow> DaemonMessageType \<Rightarrow> Vault \<Rightarrow> Vault" where
  "send_to_target reply inner = (case reply of
     Some target \<Rightarrow> on_state (\<lambda>s. s\<lparr>ds_hub := ReplyTarget_send target inner (ds_hub s)\<rparr>)
   | None \<Rightarrow> (\<lambda>v. v))"

definition send_targeted_ack ::
  "ReplyTarget option \<Rightarrow> DaemonMessageType \<Rightarrow> reply_chan \<Rightarrow> Vault \<Rightarrow> Vault" where
  "send_targeted_ack reply inner ack v = va_answer ack VA_Ack (send_to_target reply inner v)"

definition send_credential_add_failed ::
  "string \<Rightarrow> string \<Rightarrow> ReplyTarget option \<Rightarrow> reply_chan \<Rightarrow> Vault \<Rightarrow> Vault" where
  "send_credential_add_failed service error reply ack =
     send_targeted_ack reply (DM_CredentialAddFailed service error) ack"

definition key_of :: "bytes \<Rightarrow> KeystoreOpError + bytes" where
  "key_of key = (if length key = 32 then Inr key
     else Inl (KO_Other ''invalid key: expected exactly 32 bytes''))"

definition bind_keystore :: "KeyEnv \<Rightarrow> bytes \<Rightarrow> Vault \<Rightarrow> (KeystoreOpError + unit) \<times> Vault" where
  "bind_keystore env key v = (case get_keystore_binding env v of
     Inl e \<Rightarrow> (Inl (KO_Other (''failed to read keystore binding: '' @ e)), v)
   | Inr binding \<Rightarrow>
       (let derived = ke_public env key
        in case binding of
             None \<Rightarrow> (case set_keystore_binding env derived v of
               Inl e \<Rightarrow> (Inl (KO_Other (''failed to persist keystore binding: '' @ e)), v)
             | Inr v \<Rightarrow> (Inr (), on_state (\<lambda>s. s\<lparr>ds_keystore_bound := True\<rparr>) v))
           | Some stored \<Rightarrow>
               if stored = derived then (Inr (), v)
               else (Inl (KO_Other (''keystore is already bound and the presented key does not match; '' @
                 ''refusing to overwrite the binding'')), v)))"

definition verify_keystore_binding :: "KeyEnv \<Rightarrow> bytes \<Rightarrow> Vault \<Rightarrow> KeystoreOpError + unit" where
  "verify_keystore_binding env key v = (case get_keystore_binding env v of
     Inl e \<Rightarrow> Inl (KO_Other (''failed to read keystore binding: '' @ e))
   | Inr None \<Rightarrow> Inl KO_Unbound
   | Inr (Some stored) \<Rightarrow>
       if stored = ke_public env key then Inr ()
       else Inl (KO_Other (''unlock key does not match the daemon'' @ [CHR 0x27] @ ''s keystore binding'')))"

definition open_blob :: "KeyEnv \<Rightarrow> bytes \<Rightarrow> bytes \<Rightarrow> ServiceCredential option" where
  "open_blob env key blob = (case decrypt_with_private_key env key blob of
     Inl _ \<Rightarrow> None | Inr plaintext \<Rightarrow> ke_from_bytes env plaintext)"

definition decrypt_credential_blobs ::
  "KeyEnv \<Rightarrow> bytes \<Rightarrow> Vault \<Rightarrow> string + (string \<times> ServiceCredential) list" where
  "decrypt_credential_blobs env key v = (case get_all_credential_blobs env v of
     Inl e \<Rightarrow> Inl (''failed to read credentials from database: '' @ e)
   | Inr blobs \<Rightarrow>
       Inr (fold (\<lambda>(service, blob) credentials. case open_blob env key blob of
              Some cred \<Rightarrow> hm_insert service cred credentials
            | None \<Rightarrow> credentials) blobs []))"

fun is_x :: "ServiceCredential \<Rightarrow> bool" where
  "is_x (SC_X _ _ _ _ _) = True"
| "is_x _ = False"

fun is_api_key :: "ServiceCredential \<Rightarrow> bool" where
  "is_api_key (SC_ApiKey _) = True"
| "is_api_key _ = False"

definition finish_unlock ::
  "KeyEnv \<Rightarrow> (string \<times> ServiceCredential) list \<Rightarrow> Vault \<Rightarrow> (string + unit) \<times> Vault" where
  "finish_unlock env credentials v = (case AccountManager_load env (va_tick v) of
     Inl e \<Rightarrow> (Inl (''failed to load accounts: '' @ e), v)
   | Inr accounts \<Rightarrow>
       (let accounts =
              (if accounts = [] \<and> map_of credentials ''openai'' \<noteq> None
               then snd (AccountManager_add env (va_tick v) (AccountConfig_simple ''default'' ''openai'') accounts)
               else accounts);
            v = v\<lparr>va_x_credentials :=
              Option.bind (map_of credentials ''twitter'') (\<lambda>c. if is_x c then Some c else None)\<rparr>;
            v = set_credentials credentials v;
            v = set_accounts accounts v;
            v = set_locked False v
        in (Inr (), publish_mcp_oauth_snapshot v)))"

definition unlock_tail :: "KeyEnv \<Rightarrow> bytes \<Rightarrow> Vault \<Rightarrow> (string + unit) \<times> Vault" where
  "unlock_tail env key v = (case decrypt_credential_blobs env key v of
     Inl e \<Rightarrow> (Inl e, v)
   | Inr credentials \<Rightarrow> finish_unlock env credentials v)"

definition map_other :: "(string + unit) \<times> Vault \<Rightarrow> (KeystoreOpError + unit) \<times> Vault" where
  "map_other r = (case fst r of Inl e \<Rightarrow> Inl (KO_Other e) | Inr _ \<Rightarrow> Inr (), snd r)"

definition handle_unlock_inner :: "KeyEnv \<Rightarrow> bytes \<Rightarrow> Vault \<Rightarrow> (KeystoreOpError + unit) \<times> Vault" where
  "handle_unlock_inner env private_key v = (case key_of private_key of
     Inl e \<Rightarrow> (Inl e, v)
   | Inr key \<Rightarrow> (case verify_keystore_binding env key v of
       Inl e \<Rightarrow> (Inl e, v)
     | Inr _ \<Rightarrow> map_other (unlock_tail env key v)))"

definition handle_bind_keystore_inner :: "KeyEnv \<Rightarrow> bytes \<Rightarrow> Vault \<Rightarrow> (KeystoreOpError + unit) \<times> Vault" where
  "handle_bind_keystore_inner env key v = (case key_of key of
     Inl e \<Rightarrow> (Inl e, v)
   | Inr key \<Rightarrow> (case bind_keystore env key v of
       (Inl e, v) \<Rightarrow> (Inl e, v)
     | (Inr _, v) \<Rightarrow> map_other (unlock_tail env key v)))"

text \<open>What both handlers do with the outcome: the reply, then what follows a transition.\<close>

definition announce_unlock ::
  "KeyEnv \<Rightarrow> DaemonMessageType \<Rightarrow> bool \<Rightarrow> ReplyTarget option \<Rightarrow> reply_chan \<Rightarrow>
   (KeystoreOpError + unit) \<times> Vault \<Rightarrow> Vault" where
  "announce_unlock env confirmation was_locked reply ack r =
     (let (result, v) = r;
          reply_msg = (case result of Inr _ \<Rightarrow> confirmation | Inl e \<Rightarrow> unlock_error_reply e);
          v = send_targeted_ack reply reply_msg ack v
      in if \<not> isl result \<and> was_locked
         then schedule_mcp_resync_for_credentials env (on_state broadcast_keystore_state v) else v)"

definition handle_unlock :: "KeyEnv \<Rightarrow> bytes \<Rightarrow> ReplyTarget option \<Rightarrow> reply_chan \<Rightarrow> Vault \<Rightarrow> Vault" where
  "handle_unlock env private_key reply ack v =
     announce_unlock env DM_Unlocked (va_locked v) reply ack (handle_unlock_inner env private_key v)"

definition handle_bind_keystore ::
  "KeyEnv \<Rightarrow> bytes \<Rightarrow> ReplyTarget option \<Rightarrow> reply_chan \<Rightarrow> Vault \<Rightarrow> Vault" where
  "handle_bind_keystore env key reply ack v =
     announce_unlock env DM_Bound (va_locked v) reply ack (handle_bind_keystore_inner env key v)"

definition handle_lock :: "reply_chan \<Rightarrow> Vault \<Rightarrow> Vault" where
  "handle_lock reply v =
     (let was_locked = va_locked v;
          v = set_credentials [] v;
          v = v\<lparr>va_access_tokens := [], va_dead_oauth := []\<rparr>;
          v = drop_session_clients None v;
          v = v\<lparr>va_x_credentials := None\<rparr>;
          v = set_locked True v;
          v = publish_mcp_oauth_snapshot v;
          v = (if \<not> was_locked \<and> va_keystore_bound v then on_state broadcast_keystore_state v else v)
      in va_answer reply (VA_Result (Inr ())) v)"

definition encrypt_and_persist_credential ::
  "KeyEnv \<Rightarrow> string \<Rightarrow> ServiceCredential \<Rightarrow> Vault \<Rightarrow> string + Vault" where
  "encrypt_and_persist_credential env service credential v =
     (if va_locked v then Inl ''unlock the keystore first''
      else (case get_keystore_binding env v of
          Inl e \<Rightarrow> Inl (''failed to read keystore binding: '' @ e)
        | Inr None \<Rightarrow> Inl ''keystore is not bound; bind it before adding credentials''
        | Inr (Some binding) \<Rightarrow> (case ke_to_allocvec env credential of
            Inl e \<Rightarrow> Inl (''failed to serialize credential: '' @ e)
          | Inr plaintext \<Rightarrow> (case encrypt_with_public_key env (va_tick v) binding plaintext of
              Inl e \<Rightarrow> Inl (''failed to encrypt credential: '' @ KeystoreError_text e)
            | Inr blob \<Rightarrow> (case set_credential_blob env service blob v of
                Inl e \<Rightarrow> Inl (''failed to save credential: '' @ e)
              | Inr v \<Rightarrow> Inr v)))))"

definition insert_credential :: "string \<Rightarrow> ServiceCredential \<Rightarrow> Vault \<Rightarrow> Vault" where
  "insert_credential service credential v =
     set_credentials (hm_insert service credential (va_credentials v)) v"

definition delete_credential :: "string \<Rightarrow> Vault \<Rightarrow> Vault" where
  "delete_credential service v = set_credentials (hm_remove service (va_credentials v)) v"

definition handle_save_credential ::
  "KeyEnv \<Rightarrow> string \<Rightarrow> ServiceCredential \<Rightarrow> ReplyTarget option \<Rightarrow> reply_chan \<Rightarrow> Vault \<Rightarrow> bool \<times> Vault" where
  "handle_save_credential env service credential reply ack v =
     (if va_locked v
      then (False, send_credential_add_failed service ''unlock the keystore first'' reply ack v)
      else (case encrypt_and_persist_credential env service credential v of
          Inl e \<Rightarrow> (False, send_credential_add_failed service e reply ack v)
        | Inr v \<Rightarrow>
            (let v = (if is_x credential \<and> service = ''twitter''
                      then v\<lparr>va_x_credentials := Some credential\<rparr> else v);
                 v = (if is_api_key credential then drop_session_clients (Some service) v else v);
                 v = drop_token service v;
                 v = unquarantine service v;
                 v = insert_credential service credential v;
                 v = publish_mcp_oauth_key service v;
                 v = send_to_target reply (DM_CredentialAdded service) v
             in (True, va_answer ack VA_Ack v))))"

text \<open>The arm of \<open>SaveCredential\<close>: a stored MCP grant brings its server up.\<close>

definition save_credential_command ::
  "KeyEnv \<Rightarrow> string \<Rightarrow> ServiceCredential \<Rightarrow> ReplyTarget option \<Rightarrow> reply_chan \<Rightarrow> Vault \<Rightarrow> Vault" where
  "save_credential_command env service credential reply ack v =
     (let (saved, v) = handle_save_credential env service credential reply ack v
      in if saved \<and> is_mcp_credential_key service then reconnect_mcp_for_credential service v else v)"

definition handle_remove_credential :: "KeyEnv \<Rightarrow> string \<Rightarrow> reply_chan \<Rightarrow> Vault \<Rightarrow> Vault" where
  "handle_remove_credential env service reply v = (case remove_credential_blob env service v of
     Inl e \<Rightarrow> va_answer reply (VA_Result (Inl (''failed to remove credential: '' @ e))) v
   | Inr v \<Rightarrow>
       (let v = delete_credential service v;
            v = drop_token service v;
            v = unquarantine service v;
            v = drop_session_clients (Some service) v;
            v = (if service = ''twitter'' then v\<lparr>va_x_credentials := None\<rparr> else v);
            v = publish_mcp_oauth_key service v
        in va_answer reply (VA_Result (Inr ())) v))"

section \<open>Rotated and rejected grants (daemon/oauth_store)\<close>

record SaveToken =
  sv_account :: string
  sv_access_token :: string
  sv_expires_at :: "i64 option"
  sv_received_at :: i64
  sv_rotated_refresh_token :: "string option"
  sv_new_account_id :: "string option"
  sv_expected_refresh_token :: "string option"

fun is_provider_grant :: "ServiceCredential \<Rightarrow> bool" where
  "is_provider_grant (SC_OAuth kind _ _ _ _ _ _ _ _ _ _ _ _) \<longleftrightarrow> kind = OK_Provider"
| "is_provider_grant _ \<longleftrightarrow> False"

text \<open>A value the exchange carried replaces the stored one.\<close>

fun rotate_grant :: "string option \<Rightarrow> string option \<Rightarrow> ServiceCredential \<Rightarrow> ServiceCredential" where
  "rotate_grant rotated new_id (SC_OAuth kind issuer resource server endpoint encoding refresh_token
       account_id client_id client_secret scopes token_type access_token) =
     SC_OAuth kind issuer resource server endpoint encoding
       (case rotated of Some t \<Rightarrow> Some t | None \<Rightarrow> refresh_token)
       (case new_id of Some i \<Rightarrow> Some i | None \<Rightarrow> account_id)
       client_id client_secret scopes token_type access_token"
| "rotate_grant rotated new_id other = other"

definition durable_change :: "SaveToken \<Rightarrow> ServiceCredential \<Rightarrow> bool" where
  "durable_change save current \<longleftrightarrow>
     (case sv_rotated_refresh_token save of
        Some rotated \<Rightarrow> Option.bind (as_oauth current) ocv_refresh_token \<noteq> Some rotated | None \<Rightarrow> False) \<or>
     (case sv_new_account_id save of
        Some i \<Rightarrow> Option.bind (as_oauth current) ocv_account_id \<noteq> Some i | None \<Rightarrow> False)"

definition cache_token :: "SaveToken \<Rightarrow> Vault \<Rightarrow> Vault" where
  "cache_token save v =
     unquarantine (sv_account save) (v\<lparr>va_access_tokens := hm_insert (sv_account save)
       \<lparr>atc_access_token = sv_access_token save, atc_expires_at = sv_expires_at save,
        atc_received_at = sv_received_at save\<rparr> (va_access_tokens v)\<rparr>)"

definition handle_save_oauth_token :: "KeyEnv \<Rightarrow> SaveToken \<Rightarrow> reply_chan \<Rightarrow> Vault \<Rightarrow> Vault" where
  "handle_save_oauth_token env save reply v =
     (if va_locked v then va_answer reply (VA_Result (Inl ''unlock the keystore first'')) v
      else (case map_of (va_credentials v) (sv_account save) of
          None \<Rightarrow> va_answer reply
            (VA_Result (Inl (''no credential stored for account '' @ quoted (sv_account save)))) v
        | Some current \<Rightarrow>
            if \<not> is_provider_grant current
            then va_answer reply (VA_Result (Inl (''account '' @ quoted (sv_account save) @
                   '' is not a provider OAuth credential''))) v
            else if \<not> refresh_token_unchanged current (sv_expected_refresh_token save)
            then va_answer reply (VA_Result (Inr ())) v
            else if durable_change save current
            then (let updated = rotate_grant (sv_rotated_refresh_token save) (sv_new_account_id save) current
                  in case encrypt_and_persist_credential env (sv_account save) updated v of
                       Inl e \<Rightarrow> va_answer reply (VA_Result (Inl e)) v
                     | Inr v \<Rightarrow> va_answer reply (VA_Result (Inr ()))
                         (cache_token save (insert_credential (sv_account save) updated v)))
            else va_answer reply (VA_Result (Inr ())) (cache_token save v)))"

definition quarantine :: "string \<Rightarrow> Vault \<Rightarrow> Vault" where
  "quarantine account v = v\<lparr>va_dead_oauth := account # va_dead_oauth v\<rparr>"

definition handle_mark_oauth_dead :: "string \<Rightarrow> Vault \<Rightarrow> Vault" where
  "handle_mark_oauth_dead account v =
     (if account \<in> set (va_dead_oauth v) then v
      else (let v = quarantine account v;
                v = drop_token account v
            in on_state (broadcast_oauth_relogin_required account) v))"

definition handle_oauth_save :: "KeyEnv \<Rightarrow> string \<Rightarrow> ServiceCredential \<Rightarrow> string option \<Rightarrow> Vault \<Rightarrow> Vault" where
  "handle_oauth_save env key credential expected_refresh_token v =
     (if va_locked v then publish_mcp_oauth_key key v
      else (case map_of (va_credentials v) key of
          None \<Rightarrow> publish_mcp_oauth_key key v
        | Some current \<Rightarrow>
            if \<not> refresh_token_unchanged current expected_refresh_token then publish_mcp_oauth_key key v
            else (case encrypt_and_persist_credential env key credential v of
                Inl e \<Rightarrow> v
              | Inr v \<Rightarrow>
                  (let v = insert_credential key credential v;
                       v = drop_token key v;
                       v = unquarantine key v
                   in publish_mcp_oauth_key key v))))"

definition handle_oauth_clear :: "KeyEnv \<Rightarrow> string \<Rightarrow> Vault \<Rightarrow> Vault" where
  "handle_oauth_clear env key v = (case remove_credential_blob env key v of
     Inl e \<Rightarrow> v
   | Inr v \<Rightarrow>
       (let v = delete_credential key v;
            v = drop_token key v;
            v = unquarantine key v
        in publish_mcp_oauth_key key v))"

definition handle_mcp_auth_rejected :: "string \<Rightarrow> Vault \<Rightarrow> Vault" where
  "handle_mcp_auth_rejected key v =
     (if key \<in> set (va_dead_oauth v) then v else publish_mcp_oauth_key key (quarantine key v))"

section \<open>What is handed out (provider_auth.rs, daemon.rs)\<close>

definition api_key_for :: "string \<Rightarrow> Vault \<Rightarrow> string option" where
  "api_key_for name v = Option.bind (map_of (va_credentials v) name)
     (\<lambda>c. case c of SC_ApiKey key \<Rightarrow> Some key | _ \<Rightarrow> None)"

definition auth_for :: "string \<Rightarrow> Vault \<Rightarrow> ProviderAuth option" where
  "auth_for name v = (case map_of (va_credentials v) name of
     None \<Rightarrow> None
   | Some (SC_ApiKey key) \<Rightarrow> Some (PA_ApiKey key)
   | Some other \<Rightarrow>
       Some (PA_OAuth other (map_option atc_access_token (map_of (va_access_tokens v) name))))"

definition oauth_refresh_material :: "string \<Rightarrow> Vault \<Rightarrow> RefreshMaterial option" where
  "oauth_refresh_material account v = (case map_of (va_credentials v) account of
     None \<Rightarrow> None
   | Some credential \<Rightarrow> (case as_oauth credential of
       None \<Rightarrow> None
     | Some oauth \<Rightarrow>
         if ocv_kind oauth \<noteq> OK_Provider then None
         else (case (ocv_refresh_token oauth, ocv_token_endpoint oauth, ocv_refresh_encoding oauth) of
             (Some refresh_token, Some token_endpoint, Some encoding) \<Rightarrow>
               Some \<lparr>rm_token_endpoint = token_endpoint, rm_encoding = encoding,
                 rm_client_id = ocv_client_id oauth, rm_client_secret = ocv_client_secret oauth,
                 rm_refresh_token = refresh_token, rm_granted_scopes = ocv_granted_scopes oauth\<rparr>
           | _ \<Rightarrow> None)))"

definition oauth_token_load :: "string \<Rightarrow> Vault \<Rightarrow> TokenLoad" where
  "oauth_token_load account v =
     \<lparr>tl_cached = map_option (\<lambda>c. \<lparr>cat_access_token = atc_access_token c, cat_expires_at = atc_expires_at c,
        cat_received_at = atc_received_at c\<rparr>) (map_of (va_access_tokens v) account),
      tl_material = oauth_refresh_material account v, tl_dead = (account \<in> set (va_dead_oauth v))\<rparr>"

section \<open>The command loop and the connect path\<close>

datatype VaultCommand =
    VC_Unlock bytes "ReplyTarget option" reply_chan
  | VC_BindKeystore bytes "ReplyTarget option" reply_chan
  | VC_Lock reply_chan
  | VC_SaveCredential string ServiceCredential "ReplyTarget option" reply_chan
  | VC_RemoveCredential string reply_chan
  | VC_OAuthSave string ServiceCredential "string option"
  | VC_OAuthClear string
  | VC_McpAuthRejected string
  | VC_SaveOAuthToken SaveToken reply_chan
  | VC_MarkOAuthDead string
  | VC_LoadOAuthToken string reply_chan
  | VC_GetCredential string reply_chan

fun vault_handle :: "KeyEnv \<Rightarrow> VaultCommand \<Rightarrow> Vault \<Rightarrow> Vault" where
  "vault_handle env (VC_Unlock private_key reply ack) v = handle_unlock env private_key reply ack v"
| "vault_handle env (VC_BindKeystore key reply ack) v = handle_bind_keystore env key reply ack v"
| "vault_handle env (VC_Lock reply) v = handle_lock reply v"
| "vault_handle env (VC_SaveCredential service credential reply ack) v =
     save_credential_command env service credential reply ack v"
| "vault_handle env (VC_RemoveCredential service reply) v = handle_remove_credential env service reply v"
| "vault_handle env (VC_OAuthSave key credential expected) v = handle_oauth_save env key credential expected v"
| "vault_handle env (VC_OAuthClear key) v = handle_oauth_clear env key v"
| "vault_handle env (VC_McpAuthRejected key) v = handle_mcp_auth_rejected key v"
| "vault_handle env (VC_SaveOAuthToken save reply) v = handle_save_oauth_token env save reply v"
| "vault_handle env (VC_MarkOAuthDead account) v = handle_mark_oauth_dead account v"
| "vault_handle env (VC_LoadOAuthToken account reply) v =
     va_answer reply (VA_Token (oauth_token_load account v)) v"
| "vault_handle env (VC_GetCredential service reply) v =
     va_answer reply (VA_Credential (api_key_for service v)) v"

definition vault_command :: "KeyEnv \<Rightarrow> VaultCommand \<Rightarrow> Vault \<Rightarrow> Vault" where
  "vault_command env cmd v =
     (let v = vault_handle env cmd v in v\<lparr>va_daemon := dm_advance (va_daemon v)\<rparr>)"

definition vault_run :: "KeyEnv \<Rightarrow> VaultCommand list \<Rightarrow> Vault \<Rightarrow> Vault" where
  "vault_run env cmds v = fold (vault_command env) cmds v"

text \<open>The state the daemon starts with: locked, and bound when a binding can be read.\<close>

definition Vault_open :: "KeyEnv \<Rightarrow> Daemon \<Rightarrow> bytes option \<Rightarrow> (string \<times> bytes) list \<Rightarrow> Vault" where
  "Vault_open env d binding blobs =
     (let v = \<lparr>va_daemon = d, va_access_tokens = [], va_dead_oauth = [], va_x_credentials = None,
            va_binding = binding, va_blobs = blobs, va_snapshot = [], va_brought_up = [], va_answers = []\<rparr>;
          keystore_bound = (case get_keystore_binding env v of Inr binding \<Rightarrow> binding \<noteq> None | Inl e \<Rightarrow> False)
      in on_state (\<lambda>s. s\<lparr>ds_locked := True, ds_keystore_bound := keystore_bound\<rparr>)
           (set_credentials [] v))"

section \<open>How the helpers read back\<close>

lemma evict_flags:
  "ds_locked (remove_client c s) = ds_locked s" "ds_keystore_bound (remove_client c s) = ds_keystore_bound s"
  "ds_locked (handle_evict_client c s) = ds_locked s"
  "ds_keystore_bound (handle_evict_client c s) = ds_keystore_bound s"
  by (simp_all add: remove_client_def handle_evict_client_def split: option.split prod.split)

lemma fold_evict_flags:
  "ds_locked (fold handle_evict_client cs s) = ds_locked s"
  "ds_keystore_bound (fold handle_evict_client cs s) = ds_keystore_bound s"
  by (induction cs arbitrary: s) (simp_all add: evict_flags)

lemma finish_evictions_flags:
  "ds_locked (finish_evictions cs b s) = ds_locked s"
  "ds_keystore_bound (finish_evictions cs b s) = ds_keystore_bound s"
  by (auto simp: finish_evictions_def handle_evict_largest_lagging_def Let_def evict_flags fold_evict_flags
      split: option.split prod.split)

lemma broadcast_flags:
  "ds_locked (handle_broadcast_activity sid msg s) = ds_locked s"
  "ds_keystore_bound (handle_broadcast_activity sid msg s) = ds_keystore_bound s"
  by (simp_all add: handle_broadcast_activity_def fan_out_clients_def finish_evictions_flags split: prod.split)

lemma broadcast_state_flags [simp]:
  "ds_locked (broadcast_keystore_state s) = ds_locked s"
  "ds_keystore_bound (broadcast_keystore_state s) = ds_keystore_bound s"
  "ds_locked (broadcast_oauth_relogin_required account s) = ds_locked s"
  "ds_keystore_bound (broadcast_oauth_relogin_required account s) = ds_keystore_bound s"
  by (simp_all add: broadcast_keystore_state_def broadcast_oauth_relogin_required_def broadcast_flags)

text \<open>
  What a locked daemon must not hold, what its tables hold and its flags: the part of
  the state the properties below speak of.
\<close>

definition secrets ::
  "Vault \<Rightarrow> bool \<times> bool \<times> nat \<times> (string \<times> ServiceCredential) list \<times> (string \<times> AccessTokenCache) list \<times>
    string list \<times> ServiceCredential option \<times> bytes option \<times> (string \<times> bytes) list \<times>
    (string \<times> ServiceCredential) list" where
  "secrets v = (va_locked v, va_keystore_bound v, va_tick v, va_credentials v, va_access_tokens v, va_dead_oauth v,
     va_x_credentials v, va_binding v, va_blobs v, va_snapshot v)"

lemma secrets_on_state:
  "(\<And>s. ds_locked (f s) = ds_locked s) \<Longrightarrow> (\<And>s. ds_keystore_bound (f s) = ds_keystore_bound s) \<Longrightarrow>
   secrets (on_state f v) = secrets v"
  by (simp add: secrets_def on_state_def)

lemma secrets_outputs [simp]:
  "secrets (va_answer ch a v) = secrets v"
  "secrets (send_to_target reply inner v) = secrets v"
  "secrets (send_targeted_ack reply inner ack v) = secrets v"
  "secrets (send_credential_add_failed service e reply ack v) = secrets v"
  "secrets (drop_session_clients account v) = secrets v"
  "secrets (on_state broadcast_keystore_state v) = secrets v"
  "secrets (on_state (broadcast_oauth_relogin_required name) v) = secrets v"
  "secrets (bring_up_mcp_slug slug v) = secrets v"
  "secrets (set_accounts m v) = secrets v"
proof -
  show ans: "secrets (va_answer ch a v) = secrets v" for ch a v by (simp add: secrets_def va_answer_def)
  show targ: "secrets (send_to_target reply inner v) = secrets v" for v inner
    by (cases reply) (simp_all add: send_to_target_def secrets_on_state)
  show ack: "secrets (send_targeted_ack reply inner ack v) = secrets v" for v inner
    by (simp add: send_targeted_ack_def ans targ)
  show "secrets (send_credential_add_failed service e reply ack v) = secrets v"
    by (simp add: send_credential_add_failed_def ack)
  show "secrets (drop_session_clients account v) = secrets v"
    by (simp add: drop_session_clients_def secrets_on_state)
  show "secrets (on_state broadcast_keystore_state v) = secrets v"
    by (rule secrets_on_state) simp_all
  show "secrets (on_state (broadcast_oauth_relogin_required name) v) = secrets v"
    by (rule secrets_on_state) simp_all
  show "secrets (bring_up_mcp_slug slug v) = secrets v" by (simp add: secrets_def bring_up_mcp_slug_def)
  show "secrets (set_accounts m v) = secrets v" by (simp add: secrets_def set_accounts_def)
qed

lemma secrets_bring_ups [simp]: "secrets (fold bring_up_mcp_slug slugs v) = secrets v"
  by (induction slugs arbitrary: v) simp_all

lemma secrets_resync [simp]:
  "secrets (schedule_mcp_resync_for_credentials env v) = secrets v"
  "secrets (reconnect_mcp_for_credential key v) = secrets v"
  by (simp_all add: schedule_mcp_resync_for_credentials_def reconnect_mcp_for_credential_def split: option.split)

lemma secrets_announce [simp]: "secrets (announce_unlock env m was reply ack r) = secrets (snd r)"
  by (cases r) (simp add: announce_unlock_def Let_def)

text \<open>A field of the state is a function of them, so equal ones agree on it.\<close>

lemma secretsD:
  assumes "secrets v = secrets v'"
  shows "va_locked v = va_locked v'" "va_keystore_bound v = va_keystore_bound v'" "va_tick v = va_tick v'"
    "va_credentials v = va_credentials v'" "va_access_tokens v = va_access_tokens v'"
    "va_dead_oauth v = va_dead_oauth v'" "va_x_credentials v = va_x_credentials v'"
    "va_binding v = va_binding v'" "va_blobs v = va_blobs v'" "va_snapshot v = va_snapshot v'"
  using assms by (simp_all add: secrets_def)

lemmas output_fields [simp] =
  secrets_outputs [THEN secretsD(1)] secrets_outputs [THEN secretsD(2)] secrets_outputs [THEN secretsD(3)]
  secrets_outputs [THEN secretsD(4)] secrets_outputs [THEN secretsD(5)] secrets_outputs [THEN secretsD(6)]
  secrets_outputs [THEN secretsD(7)] secrets_outputs [THEN secretsD(8)] secrets_outputs [THEN secretsD(9)]
  secrets_outputs [THEN secretsD(10)]

lemmas resync_fields [simp] =
  secrets_resync [THEN secretsD(1)] secrets_resync [THEN secretsD(2)] secrets_resync [THEN secretsD(3)]
  secrets_resync [THEN secretsD(4)] secrets_resync [THEN secretsD(5)] secrets_resync [THEN secretsD(6)]
  secrets_resync [THEN secretsD(7)] secrets_resync [THEN secretsD(8)] secrets_resync [THEN secretsD(9)]
  secrets_resync [THEN secretsD(10)]

lemmas announce_fields [simp] =
  secrets_announce [THEN secretsD(1)] secrets_announce [THEN secretsD(2)] secrets_announce [THEN secretsD(3)]
  secrets_announce [THEN secretsD(4)] secrets_announce [THEN secretsD(5)] secrets_announce [THEN secretsD(6)]
  secrets_announce [THEN secretsD(7)] secrets_announce [THEN secretsD(8)] secrets_announce [THEN secretsD(9)]
  secrets_announce [THEN secretsD(10)]

lemma on_state_fields [simp]:
  "dm_state (va_daemon (on_state f v)) = f (dm_state (va_daemon v))"
  "dm_tick (va_daemon (on_state f v)) = va_tick v" "dm_credentials (va_daemon (on_state f v)) = va_credentials v"
  "va_access_tokens (on_state f v) = va_access_tokens v" "va_dead_oauth (on_state f v) = va_dead_oauth v"
  "va_x_credentials (on_state f v) = va_x_credentials v" "va_binding (on_state f v) = va_binding v"
  "va_blobs (on_state f v) = va_blobs v" "va_snapshot (on_state f v) = va_snapshot v"
  by (simp_all add: on_state_def)

lemma setter_fields [simp]:
  "va_daemon (set_credentials m v) = (va_daemon v)\<lparr>dm_credentials := m\<rparr>"
  "va_access_tokens (set_credentials m v) = va_access_tokens v" "va_dead_oauth (set_credentials m v) = va_dead_oauth v"
  "va_x_credentials (set_credentials m v) = va_x_credentials v" "va_binding (set_credentials m v) = va_binding v"
  "va_blobs (set_credentials m v) = va_blobs v" "va_snapshot (set_credentials m v) = va_snapshot v"
  "va_daemon (drop_token a v) = va_daemon v"
  "va_access_tokens (drop_token a v) = hm_remove a (va_access_tokens v)" "va_dead_oauth (drop_token a v) = va_dead_oauth v"
  "va_x_credentials (drop_token a v) = va_x_credentials v" "va_binding (drop_token a v) = va_binding v"
  "va_blobs (drop_token a v) = va_blobs v" "va_snapshot (drop_token a v) = va_snapshot v"
  "va_daemon (unquarantine a v) = va_daemon v"
  "va_access_tokens (unquarantine a v) = va_access_tokens v"
  "va_dead_oauth (unquarantine a v) = removeAll a (va_dead_oauth v)"
  "va_x_credentials (unquarantine a v) = va_x_credentials v" "va_binding (unquarantine a v) = va_binding v"
  "va_blobs (unquarantine a v) = va_blobs v" "va_snapshot (unquarantine a v) = va_snapshot v"
  "va_daemon (quarantine a v) = va_daemon v"
  "va_access_tokens (quarantine a v) = va_access_tokens v"
  "va_dead_oauth (quarantine a v) = a # va_dead_oauth v"
  "va_x_credentials (quarantine a v) = va_x_credentials v" "va_binding (quarantine a v) = va_binding v"
  "va_blobs (quarantine a v) = va_blobs v" "va_snapshot (quarantine a v) = va_snapshot v"
  by (simp_all add: set_credentials_def drop_token_def unquarantine_def quarantine_def)

lemma publish_key_fields [simp]:
  "va_daemon (publish_mcp_oauth_key k v) = va_daemon v"
  "va_access_tokens (publish_mcp_oauth_key k v) = va_access_tokens v"
  "va_dead_oauth (publish_mcp_oauth_key k v) = va_dead_oauth v"
  "va_x_credentials (publish_mcp_oauth_key k v) = va_x_credentials v"
  "va_binding (publish_mcp_oauth_key k v) = va_binding v" "va_blobs (publish_mcp_oauth_key k v) = va_blobs v"
  by (simp_all add: publish_mcp_oauth_key_def publish_credential_def remove_credential_def split: option.split)

lemma snapshot_publish_key:
  "map_of (va_snapshot (publish_mcp_oauth_key k v)) k' =
     (if is_mcp_credential_key k \<and> k' = k
      then (if k \<in> set (va_dead_oauth v) then None else map_of (va_credentials v) k)
      else map_of (va_snapshot v) k')"
  by (auto simp: publish_mcp_oauth_key_def publish_credential_def remove_credential_def
      map_of_hm_insert map_of_hm_remove split: option.split)

end
