(* ===== verification/Keystore_Safe.thy ===== *)
theory Keystore_Safe
  imports Keystore
begin

text \<open>
  What the keystore of \<open>Keystore\<close> guarantees: the box opens to what was sealed, a locked
  daemon holds no secret and an unlocked one exactly what its database holds, over every
  interleaving of commands, saves of the connect path and restarts; only a private key of
  the binding unlocks; a saved credential survives a restart.
\<close>

section \<open>The sealed box opens\<close>

text \<open>
  What the primitives promise: keys and random values have their sizes, both sides of
  an exchange share a secret, authenticated decryption inverts encryption, and a
  credential that can be encoded decodes to itself.
\<close>

definition box_laws :: "KeyEnv \<Rightarrow> bool" where
  "box_laws env \<longleftrightarrow>
     (\<forall>k. length k = 32 \<longrightarrow> length (ke_public env k) = 32) \<and>
     (\<forall>a b. length a = 32 \<longrightarrow> length b = 32 \<longrightarrow>
        ke_diffie_hellman env a (ke_public env b) = ke_diffie_hellman env b (ke_public env a)) \<and>
     (\<forall>n. case ke_random env n of (secret, salt, nonce) \<Rightarrow>
        length secret = 32 \<and> length salt = 32 \<and> length nonce = 12) \<and>
     (\<forall>k n p c. ke_aead_encrypt env k n p = Some c \<longrightarrow> ke_aead_decrypt env k n c = Some p) \<and>
     (\<forall>c p. ke_to_allocvec env c = Inr p \<longrightarrow> ke_from_bytes env p = Some c)"

lemma box_lawsD:
  assumes "box_laws env"
  shows "length k = 32 \<Longrightarrow> length (ke_public env k) = 32"
    and "length a = 32 \<Longrightarrow> length b = 32 \<Longrightarrow>
      ke_diffie_hellman env a (ke_public env b) = ke_diffie_hellman env b (ke_public env a)"
    and "ke_random env n = (secret, salt, nonce) \<Longrightarrow> length secret = 32 \<and> length salt = 32 \<and> length nonce = 12"
    and "ke_aead_encrypt env key x p = Some ct \<Longrightarrow> ke_aead_decrypt env key x ct = Some p"
    and "ke_to_allocvec env c = Inr q \<Longrightarrow> ke_from_bytes env q = Some c"
proof -
  note laws = assms [unfolded box_laws_def]
  show "length k = 32 \<Longrightarrow> length (ke_public env k) = 32" using laws [THEN conjunct1] by simp
  show "length a = 32 \<Longrightarrow> length b = 32 \<Longrightarrow>
      ke_diffie_hellman env a (ke_public env b) = ke_diffie_hellman env b (ke_public env a)"
    using laws [THEN conjunct2, THEN conjunct1] by simp
  show "ke_random env n = (secret, salt, nonce) \<Longrightarrow> length secret = 32 \<and> length salt = 32 \<and> length nonce = 12"
    using laws [THEN conjunct2, THEN conjunct2, THEN conjunct1, THEN spec [of _ n]] by simp
  show "ke_aead_encrypt env key x p = Some ct \<Longrightarrow> ke_aead_decrypt env key x ct = Some p"
    using laws [THEN conjunct2, THEN conjunct2, THEN conjunct2, THEN conjunct1] by simp
  show "ke_to_allocvec env c = Inr q \<Longrightarrow> ke_from_bytes env q = Some c"
    using laws [THEN conjunct2, THEN conjunct2, THEN conjunct2, THEN conjunct2] by simp
qed

lemma sealed_box_opens:
  assumes laws: "box_laws env" and k: "length k = 32"
    and sealed: "encrypt_with_public_key env n (ke_public env k) p = Inr blob"
  shows "decrypt_with_private_key env k blob = Inr p"
proof -
  obtain e salt nonce where r: "ke_random env n = (e, salt, nonce)" by (cases "ke_random env n")
  note len = box_lawsD(3) [OF laws r]
  have pub: "length (ke_public env e) = 32" using box_lawsD(1) [OF laws] len by simp
  have dh: "ke_diffie_hellman env e (ke_public env k) = ke_diffie_hellman env k (ke_public env e)"
    using box_lawsD(2) [OF laws] k len by simp
  obtain key ct where key: "ke_hkdf_expand env salt (ke_diffie_hellman env k (ke_public env e))
        ''choreographr-credential-v2'' = Some key"
      and ct: "ke_aead_encrypt env key nonce p = Some ct" and blob: "blob = ke_public env e @ salt @ nonce @ ct"
    using sealed by (auto simp: encrypt_with_public_key_def aes_encrypt_def r Let_def dh split: option.splits sum.splits)
  show ?thesis
    using box_lawsD(4) [OF laws ct] by (simp add: decrypt_with_private_key_def aes_decrypt_def blob len pub Let_def key)
qed

text \<open>A blob that every private key of the public key \<open>pk\<close> opens to the credential.\<close>

definition boxes :: "KeyEnv \<Rightarrow> bytes \<Rightarrow> bytes \<Rightarrow> ServiceCredential \<Rightarrow> bool" where
  "boxes env pk blob c \<longleftrightarrow> (\<forall>k. length k = 32 \<longrightarrow> ke_public env k = pk \<longrightarrow> open_blob env k blob = Some c)"

lemma boxes_sealed:
  assumes "box_laws env" "ke_to_allocvec env c = Inr p" "encrypt_with_public_key env n pk p = Inr blob"
  shows "boxes env pk blob c"
proof -
  show ?thesis
    using sealed_box_opens [OF assms(1)] assms(3) box_lawsD(5) [OF assms(1,2)] by (auto simp: boxes_def open_blob_def)
qed

section \<open>What every reachable keystore satisfies\<close>

text \<open>Once bound, every stored blob is a box for the binding.\<close>

definition disk_ok :: "KeyEnv \<Rightarrow> Vault \<Rightarrow> bool" where
  "disk_ok env v \<longleftrightarrow> hm_ok (va_blobs v) \<and> (case va_binding v of
     None \<Rightarrow> va_blobs v = []
   | Some pk \<Rightarrow> length pk = 32 \<and> (\<forall>s blob. map_of (va_blobs v) s = Some blob \<longrightarrow> (\<exists>c. boxes env pk blob c)))"

text \<open>A locked daemon holds no secret; an unlocked one holds exactly what the boxes hold.\<close>

definition memory_ok :: "KeyEnv \<Rightarrow> Vault \<Rightarrow> bool" where
  "memory_ok env v \<longleftrightarrow>
     (if va_locked v then va_credentials v = [] \<and> va_access_tokens v = [] \<and> va_x_credentials v = None
      else (\<exists>k. length k = 32 \<and> va_binding v = Some (ke_public env k) \<and>
        (\<forall>s. map_of (va_credentials v) s = Option.bind (map_of (va_blobs v) s) (open_blob env k))))"

definition vault_ok :: "KeyEnv \<Rightarrow> Vault \<Rightarrow> bool" where
  "vault_ok env v \<longleftrightarrow> disk_ok env v \<and> memory_ok env v"

lemma vault_okI: "disk_ok env v \<Longrightarrow> memory_ok env v \<Longrightarrow> vault_ok env v"
  by (simp add: vault_ok_def)

lemma vault_ok_secrets: "secrets v = secrets v' \<Longrightarrow> vault_ok env v = vault_ok env v'"
  using secretsD [of v v'] by (simp add: vault_ok_def disk_ok_def memory_ok_def cong: option.case_cong)

lemma disk_ok_cong:
  "va_binding v = va_binding v' \<Longrightarrow> va_blobs v = va_blobs v' \<Longrightarrow> disk_ok env v = disk_ok env v'"
  by (simp add: disk_ok_def cong: option.case_cong)

lemma fold_open_blobs:
  "hm_ok blobs \<Longrightarrow>
   map_of (fold (\<lambda>(service, blob) m. case open_blob env k blob of
       Some cred \<Rightarrow> hm_insert service cred m | None \<Rightarrow> m) blobs m) s =
     (case Option.bind (map_of blobs s) (open_blob env k) of Some c \<Rightarrow> Some c | None \<Rightarrow> map_of m s)"
proof (induction blobs arbitrary: m)
  case (Cons sb blobs)
  obtain t b where sb: "sb = (t, b)" by (cases sb)
  have fresh: "map_of blobs t = None" and ok: "hm_ok blobs"
    using Cons.prems by (auto simp: sb hm_ok_def map_of_eq_None_iff)
  show ?case
    using fresh by (auto simp: sb Cons.IH [OF ok] map_of_hm_insert split: option.split)
qed simp

lemma decrypt_lookup:
  assumes "disk_ok env v" "decrypt_credential_blobs env k v = Inr m"
  shows "map_of m s = Option.bind (map_of (va_blobs v) s) (open_blob env k)"
  using assms fold_open_blobs [of "va_blobs v" env k "[]" s]
  by (auto simp: decrypt_credential_blobs_def get_all_credential_blobs_def disk_ok_def
      split: option.splits sum.splits)

lemma persist_cases:
  assumes "encrypt_and_persist_credential env s c v = Inr v'" "box_laws env"
  obtains pk blob where "\<not> va_locked v" "va_binding v = Some pk" "length pk = 32" "boxes env pk blob c"
    "v' = v\<lparr>va_blobs := hm_insert s blob (va_blobs v)\<rparr>"
proof -
  obtain pk p blob where unlocked: "\<not> va_locked v" and bound: "get_keystore_binding env v = Inr (Some pk)"
    and p: "ke_to_allocvec env c = Inr p" and blob: "encrypt_with_public_key env (va_tick v) pk p = Inr blob"
    and v': "set_credential_blob env s blob v = Inr v'"
    using assms(1) by (auto simp: encrypt_and_persist_credential_def split: if_splits sum.splits option.splits)
  show ?thesis
  proof (rule that [OF unlocked])
    show "va_binding v = Some pk" "length pk = 32"
      using bound by (auto simp: get_keystore_binding_def split: option.splits if_splits)
    show "boxes env pk blob c" by (rule boxes_sealed [OF assms(2) p blob])
    show "v' = v\<lparr>va_blobs := hm_insert s blob (va_blobs v)\<rparr>"
      using v' by (auto simp: set_credential_blob_def split: option.splits)
  qed
qed

text \<open>Storing and removing a credential, on disk and in memory together.\<close>

lemma vault_ok_store:
  assumes "vault_ok env v" "\<not> va_locked v" "va_binding v = Some pk" "boxes env pk blob c"
    and v': "va_binding v' = Some pk" "va_blobs v' = hm_insert s blob (va_blobs v)" "\<not> va_locked v'"
      "va_credentials v' = hm_insert s c (va_credentials v)"
  shows "vault_ok env v'"
proof (rule vault_okI)
  show "disk_ok env v'"
    using assms(1,3,4) by (auto simp: vault_ok_def disk_ok_def v' map_of_hm_insert)
  obtain k where k: "length k = 32" "pk = ke_public env k"
    "\<And>s. map_of (va_credentials v) s = Option.bind (map_of (va_blobs v) s) (open_blob env k)"
    using assms(1-3) by (auto simp: vault_ok_def memory_ok_def)
  have "open_blob env k blob = Some c" using assms(4) k by (simp add: boxes_def)
  then show "memory_ok env v'"
    using k by (auto simp: memory_ok_def v' map_of_hm_insert)
qed

lemma vault_ok_delete:
  assumes "vault_ok env v"
    and v': "va_binding v' = va_binding v" "va_blobs v' = hm_remove s (va_blobs v)" "va_locked v' = va_locked v"
      "va_credentials v' = hm_remove s (va_credentials v)"
      "va_locked v \<Longrightarrow> va_access_tokens v' = [] \<and> va_x_credentials v' = None"
  shows "vault_ok env v'"
proof (rule vault_okI)
  show "disk_ok env v'"
    using assms(1) by (cases "va_binding v")
      (auto simp: vault_ok_def disk_ok_def v' map_of_hm_remove hm_ok_remove, simp add: hm_remove_def)
  show "memory_ok env v'"
  proof (cases "va_locked v")
    case True
    then show ?thesis using assms(1) v'(5) by (simp add: vault_ok_def memory_ok_def v' hm_remove_def)
  next
    case False
    then obtain k where "length k = 32" "va_binding v = Some (ke_public env k)"
      "\<And>s. map_of (va_credentials v) s = Option.bind (map_of (va_blobs v) s) (open_blob env k)"
      using assms(1) by (auto simp: vault_ok_def memory_ok_def)
    then show ?thesis using False by (auto simp: memory_ok_def v' map_of_hm_remove intro!: exI [of _ k])
  qed
qed

text \<open>A tail that fails has changed nothing; one that succeeds has replaced the memory.\<close>

lemma unlock_tail_cases:
  obtains e where "unlock_tail env k v = (Inl e, v)"
  | v' where "unlock_tail env k v = (Inr (), v')" "\<not> va_locked v'"
      "decrypt_credential_blobs env k v = Inr (va_credentials v')"
      "va_binding v' = va_binding v" "va_blobs v' = va_blobs v" "va_keystore_bound v' = va_keystore_bound v"
      "va_tick v' = va_tick v" "va_dead_oauth v' = va_dead_oauth v" "va_access_tokens v' = va_access_tokens v"
      "va_snapshot v' = mcp_oauth_snapshot v'"
      "va_x_credentials v' =
         Option.bind (map_of (va_credentials v') ''twitter'') (\<lambda>c. if is_x c then Some c else None)"
proof (cases "decrypt_credential_blobs env k v")
  case (Inl e)
  then show ?thesis by (intro that(1)) (simp add: unlock_tail_def)
next
  case (Inr m)
  show ?thesis
  proof (cases "AccountManager_load env (va_tick v)")
    case (Inl e)
    then show ?thesis by (intro that(1)) (simp add: unlock_tail_def Inr finish_unlock_def)
  next
    case acc: (Inr accounts)
    show ?thesis
      by (rule that(2) [where v' = "snd (unlock_tail env k v)"])
         (simp_all add: unlock_tail_def finish_unlock_def Inr acc Let_def publish_mcp_oauth_snapshot_def
           set_locked_def set_accounts_def mcp_oauth_snapshot_def)
  qed
qed

lemma bind_keystore_cases:
  obtains e where "bind_keystore env k v = (Inl e, v)"
  | "bind_keystore env k v = (Inr (), v)" "va_binding v = Some (ke_public env k)"
  | "bind_keystore env k v = (Inr (), on_state (\<lambda>s. s\<lparr>ds_keystore_bound := True\<rparr>)
        (v\<lparr>va_binding := Some (ke_public env k)\<rparr>))"
    "va_binding v = None \<or> (\<exists>stored. va_binding v = Some stored \<and> length stored \<noteq> 32)"
proof (cases "get_keystore_binding env v")
  case (Inl e)
  then show ?thesis by (intro that(1)) (simp add: bind_keystore_def)
next
  case (Inr binding)
  show ?thesis
  proof (cases binding)
    case None
    then have free: "va_binding v = None \<or> (\<exists>stored. va_binding v = Some stored \<and> length stored \<noteq> 32)"
      using Inr by (auto simp: get_keystore_binding_def split: option.splits if_splits)
    show ?thesis
    proof (cases "ke_fault env (va_tick v) WriteBinding")
      case (Some e)
      then show ?thesis by (intro that(1)) (simp add: bind_keystore_def Inr None set_keystore_binding_def)
    next
      case ok: None
      then show ?thesis using free
        by (intro that(3)) (simp_all add: bind_keystore_def Inr None set_keystore_binding_def)
    qed
  next
    case (Some stored)
    then have b: "va_binding v = Some stored"
      using Inr by (auto simp: get_keystore_binding_def split: option.splits if_splits)
    show ?thesis
    proof (cases "stored = ke_public env k")
      case True
      then show ?thesis using b by (intro that(2)) (simp_all add: bind_keystore_def Inr Some)
    next
      case False
      then show ?thesis by (intro that(1)) (simp add: bind_keystore_def Inr Some)
    qed
  qed
qed

lemma verify_cases:
  assumes "verify_keystore_binding env k v = Inr ()"
  shows "va_binding v = Some (ke_public env k)"
  using assms by (auto simp: verify_keystore_binding_def get_keystore_binding_def split: sum.splits option.splits if_splits)

lemma tail_ok:
  assumes "disk_ok env v" "length k = 32" "va_binding v = Some (ke_public env k)" "vault_ok env v \<or> va_locked v"
    and "memory_ok env v"
  shows "vault_ok env (snd (unlock_tail env k v))"
proof (cases rule: unlock_tail_cases [of env k v])
  case (1 e)
  then show ?thesis using assms by (simp add: vault_ok_def)
next
  case (2 v')
  have "disk_ok env v'" using assms(1) 2 disk_ok_cong [of v v'] by simp
  moreover have "memory_ok env v'"
    using 2 decrypt_lookup [OF assms(1) 2(3)] assms(2,3) by (auto simp: memory_ok_def)
  ultimately show ?thesis using 2 by (simp add: vault_ok_def)
qed

lemma map_other_snd [simp]: "snd (map_other r) = snd r"
  by (simp add: map_other_def)

lemma unlock_inner_ok: "vault_ok env v \<Longrightarrow> vault_ok env (snd (handle_unlock_inner env k v))"
  using tail_ok [of env v k] verify_cases [of env k v]
  by (auto simp: handle_unlock_inner_def key_of_def vault_ok_def split: sum.split)

lemma bind_inner_ok:
  assumes "box_laws env" "vault_ok env v"
  shows "vault_ok env (snd (handle_bind_keystore_inner env k v))"
proof (cases "length k = 32")
  case True
  have inner: "handle_bind_keystore_inner env k v =
      (case bind_keystore env k v of (Inl e, v) \<Rightarrow> (Inl e, v) | (Inr _, v) \<Rightarrow> map_other (unlock_tail env k v))"
    using True by (simp add: handle_bind_keystore_inner_def key_of_def)
  show ?thesis
  proof (cases rule: bind_keystore_cases [of env k v])
    case (1 e)
    then show ?thesis using assms(2) by (simp add: inner)
  next
    case 2
    then show ?thesis using assms(2) tail_ok [of env v k] True by (simp add: inner vault_ok_def)
  next
    case 3
    let ?v = "on_state (\<lambda>s. s\<lparr>ds_keystore_bound := True\<rparr>) (v\<lparr>va_binding := Some (ke_public env k)\<rparr>)"
    have "va_binding v = None" using 3(2) assms(2) by (auto simp: vault_ok_def disk_ok_def)
    then have "va_blobs v = []" "va_locked v"
      using assms(2) by (auto simp: vault_ok_def disk_ok_def memory_ok_def split: if_splits)
    then have "disk_ok env ?v" "memory_ok env ?v"
      using assms(2) box_lawsD(1) [OF assms(1) True]
      by (auto simp: disk_ok_def memory_ok_def vault_ok_def)
    then show ?thesis using tail_ok [of env ?v k] True 3(1) by (simp add: inner vault_ok_def)
  qed
qed (simp add: handle_bind_keystore_inner_def key_of_def assms)

lemma lock_ok: "vault_ok env v \<Longrightarrow> vault_ok env (handle_lock ch v)"
  by (auto simp: vault_ok_def disk_ok_def memory_ok_def handle_lock_def Let_def set_locked_def
      publish_mcp_oauth_snapshot_def cong: option.case_cong)

lemma save_ok:
  assumes "box_laws env" "vault_ok env v"
  shows "vault_ok env (snd (handle_save_credential env s c reply ack v))"
proof (cases "va_locked v \<or> isl (encrypt_and_persist_credential env s c v)")
  case True
  then have "secrets (snd (handle_save_credential env s c reply ack v)) = secrets v"
    by (auto simp: handle_save_credential_def split: sum.splits)
  then show ?thesis using assms(2) vault_ok_secrets by blast
next
  case False
  then obtain v1 where p: "encrypt_and_persist_credential env s c v = Inr v1" and unlocked: "\<not> va_locked v"
    by (cases "encrypt_and_persist_credential env s c v") auto
  obtain pk blob where b: "va_binding v = Some pk" "length pk = 32" "boxes env pk blob c"
    "v1 = v\<lparr>va_blobs := hm_insert s blob (va_blobs v)\<rparr>"
    using persist_cases [OF p assms(1)] by metis
  show ?thesis
    by (rule vault_ok_store [OF assms(2) unlocked b(1,3), where s = s])
       (simp_all add: handle_save_credential_def p unlocked Let_def b insert_credential_def)
qed

lemma save_command_secrets:
  "secrets (save_credential_command env s c reply ack v) = secrets (snd (handle_save_credential env s c reply ack v))"
  by (simp add: save_credential_command_def split: prod.split)

lemma locked_empty:
  "vault_ok env v \<Longrightarrow> va_locked v \<Longrightarrow>
   va_credentials v = [] \<and> va_access_tokens v = [] \<and> va_x_credentials v = None"
  by (simp add: vault_ok_def memory_ok_def)

lemma remove_ok: "vault_ok env v \<Longrightarrow> vault_ok env (handle_remove_credential env s ch v)"
proof (cases "ke_fault env (va_tick v) RemoveBlob")
  case None
  assume ok: "vault_ok env v"
  show ?thesis
    by (rule vault_ok_delete [OF ok, where s = s])
       (use locked_empty [OF ok] in \<open>auto simp: handle_remove_credential_def remove_credential_blob_def None Let_def
         delete_credential_def hm_remove_def\<close>)
next
  case (Some e)
  assume "vault_ok env v"
  moreover have "secrets (handle_remove_credential env s ch v) = secrets v"
    by (simp add: handle_remove_credential_def remove_credential_blob_def Some)
  ultimately show ?thesis using vault_ok_secrets by blast
qed

lemma clear_ok: "vault_ok env v \<Longrightarrow> vault_ok env (handle_oauth_clear env s v)"
proof (cases "ke_fault env (va_tick v) RemoveBlob")
  case None
  assume ok: "vault_ok env v"
  show ?thesis
    by (rule vault_ok_delete [OF ok, where s = s])
       (use locked_empty [OF ok] in \<open>auto simp: handle_oauth_clear_def remove_credential_blob_def None Let_def
         delete_credential_def hm_remove_def\<close>)
qed (simp add: handle_oauth_clear_def remove_credential_blob_def)

lemma vault_ok_publish_key: "vault_ok env (publish_mcp_oauth_key k v) = vault_ok env v"
  by (simp add: vault_ok_def disk_ok_def memory_ok_def cong: option.case_cong)

lemma oauth_save_ok:
  assumes "box_laws env" "vault_ok env v"
  shows "vault_ok env (handle_oauth_save env key c expected v)"
proof (cases "va_locked v \<or> map_of (va_credentials v) key = None \<or>
    isl (encrypt_and_persist_credential env key c v)")
  case True
  then show ?thesis
    using assms(2) by (auto simp: handle_oauth_save_def vault_ok_publish_key split: sum.splits option.splits)
next
  case False
  then obtain v1 current where p: "encrypt_and_persist_credential env key c v = Inr v1" and unlocked: "\<not> va_locked v"
    and cur: "map_of (va_credentials v) key = Some current"
    by (cases "encrypt_and_persist_credential env key c v") auto
  obtain pk blob where b: "va_binding v = Some pk" "length pk = 32" "boxes env pk blob c"
    "v1 = v\<lparr>va_blobs := hm_insert key blob (va_blobs v)\<rparr>"
    using persist_cases [OF p assms(1)] by metis
  show ?thesis
  proof (cases "refresh_token_unchanged current expected")
    case True
    show ?thesis
      by (rule vault_ok_store [OF assms(2) unlocked b(1,3), where s = key])
         (simp_all add: handle_oauth_save_def p unlocked cur True Let_def b insert_credential_def)
  next
    case False
    then show ?thesis using assms(2) by (simp add: handle_oauth_save_def unlocked cur vault_ok_publish_key)
  qed
qed

lemma cache_token_ok: "\<not> va_locked v \<Longrightarrow> vault_ok env v \<Longrightarrow> vault_ok env (cache_token save v)"
  by (simp add: vault_ok_def disk_ok_def memory_ok_def cache_token_def cong: option.case_cong)

lemma save_token_ok:
  assumes "box_laws env" "vault_ok env v"
  shows "vault_ok env (handle_save_oauth_token env save ch v)"
proof (cases "va_locked v \<or> map_of (va_credentials v) (sv_account save) = None")
  case True
  then have "secrets (handle_save_oauth_token env save ch v) = secrets v"
    by (auto simp: handle_save_oauth_token_def)
  then show ?thesis using assms(2) vault_ok_secrets by blast
next
  case False
  then obtain current where cur: "map_of (va_credentials v) (sv_account save) = Some current" and unlocked: "\<not> va_locked v"
    by auto
  let ?new = "rotate_grant (sv_rotated_refresh_token save) (sv_new_account_id save) current"
  have stored: "vault_ok env (cache_token save (insert_credential (sv_account save) ?new v1))"
    if p: "encrypt_and_persist_credential env (sv_account save) ?new v = Inr v1" for v1
  proof -
    obtain pk blob where b: "va_binding v = Some pk" "length pk = 32" "boxes env pk blob ?new"
      "v1 = v\<lparr>va_blobs := hm_insert (sv_account save) blob (va_blobs v)\<rparr>"
      using persist_cases [OF p assms(1)] by metis
    show ?thesis
      by (rule vault_ok_store [OF assms(2) unlocked b(1,3), where s = "sv_account save"])
         (simp_all add: b unlocked insert_credential_def cache_token_def)
  qed
  have ans: "vault_ok env (va_answer ch a v') = vault_ok env v'" for a v'
    by (rule vault_ok_secrets) simp
  show ?thesis
    using assms(2) stored cache_token_ok [OF unlocked assms(2)]
    by (auto simp: handle_save_oauth_token_def unlocked cur ans Let_def split: sum.split)
qed

lemma vault_ok_advance: "vault_ok env (v\<lparr>va_daemon := dm_advance (va_daemon v)\<rparr>) = vault_ok env v"
  by (simp add: vault_ok_def disk_ok_def memory_ok_def dm_advance_def cong: option.case_cong)

lemma mark_dead_ok: "vault_ok env v \<Longrightarrow> vault_ok env (handle_mark_oauth_dead a v)"
  by (auto simp: handle_mark_oauth_dead_def vault_ok_def disk_ok_def memory_ok_def hm_remove_def
      cong: option.case_cong)

lemma vault_handle_ok:
  assumes "box_laws env" "vault_ok env v"
  shows "vault_ok env (vault_handle env cmd v)"
proof -
  have same: "secrets v' = secrets v \<Longrightarrow> vault_ok env v'" for v' using assms(2) vault_ok_secrets by blast
  have announced: "vault_ok env (snd r) \<Longrightarrow> vault_ok env (announce_unlock env m b reply ack r)" for r m b reply ack
    using vault_ok_secrets [of "announce_unlock env m b reply ack r" "snd r"] by simp
  show ?thesis
  proof (cases cmd)
    case (VC_SaveCredential s c reply ack)
    then show ?thesis using save_ok [OF assms] vault_ok_secrets [OF save_command_secrets] by simp
  next
    case (VC_McpAuthRejected key)
    then show ?thesis
      using assms(2) by (simp add: handle_mcp_auth_rejected_def vault_ok_publish_key)
        (simp add: vault_ok_def disk_ok_def memory_ok_def cong: option.case_cong)
  qed (use assms in \<open>simp_all add: handle_unlock_def handle_bind_keystore_def announced unlock_inner_ok bind_inner_ok
      lock_ok remove_ok oauth_save_ok clear_ok save_token_ok mark_dead_ok same\<close>)
qed

lemma vault_command_ok: "box_laws env \<Longrightarrow> vault_ok env v \<Longrightarrow> vault_ok env (vault_command env cmd v)"
  by (simp add: vault_command_def Let_def vault_ok_advance vault_handle_ok)

lemma vault_run_ok: "box_laws env \<Longrightarrow> vault_ok env v \<Longrightarrow> vault_ok env (vault_run env cmds v)"
  by (induction cmds arbitrary: v) (simp_all add: vault_run_def vault_command_ok)

lemma vault_open_ok: "disk_ok env v \<Longrightarrow> vault_ok env (Vault_open env d (va_binding v) (va_blobs v))"
  by (simp add: vault_ok_def disk_ok_def memory_ok_def Vault_open_def Let_def cong: option.case_cong)

section \<open>The read view and the command queue\<close>

text \<open>
  The connect path runs on worker threads: saving a rotated grant first publishes it in
  the read view and then sends the command that makes it durable, and the two are
  separate moments. The world is the vault, the commands waiting for the loop and the
  saves between their two moments.
\<close>

record vault_world =
  vw_vault :: Vault
  vw_queue :: "VaultCommand list"
  vw_publishing :: "(string \<times> ServiceCredential \<times> string option) list"

fun is_oauth_save :: "VaultCommand \<Rightarrow> bool" where
  "is_oauth_save (VC_OAuthSave _ _ _) \<longleftrightarrow> True"
| "is_oauth_save _ \<longleftrightarrow> False"

text \<open>
  The steps: a save of the connect path in its two moments (\<open>McpOAuthBackend::save\<close>), its
  withdrawal from the view (\<open>clear\<close> and \<open>mark_reauthentication\<close>, whose commands come as
  requests), a command of anyone else, the loop serving the oldest command, the other
  handlers of the daemon (which leave these fields alone) and a restart on the same
  database.
\<close>

inductive vault_reach :: "KeyEnv \<Rightarrow> vault_world \<Rightarrow> bool" for env where
  start: "vault_reach env \<lparr>vw_vault = Vault_open env d None [], vw_queue = [], vw_publishing = []\<rparr>"
| publish: "vault_reach env w \<Longrightarrow> is_mcp_credential_key key \<Longrightarrow>
    vault_reach env (w\<lparr>vw_vault := publish_credential key credential (vw_vault w),
      vw_publishing := vw_publishing w @ [(key, credential, expected)]\<rparr>)"
| enqueue_save: "vault_reach env w \<Longrightarrow> vw_publishing w = before @ (key, credential, expected) # after \<Longrightarrow>
    vault_reach env (w\<lparr>vw_queue := vw_queue w @ [VC_OAuthSave key credential expected],
      vw_publishing := before @ after\<rparr>)"
| withdraw: "vault_reach env w \<Longrightarrow> vault_reach env (w\<lparr>vw_vault := remove_credential key (vw_vault w)\<rparr>)"
| request: "vault_reach env w \<Longrightarrow> \<not> is_oauth_save cmd \<Longrightarrow>
    vault_reach env (w\<lparr>vw_queue := vw_queue w @ [cmd]\<rparr>)"
| serve: "vault_reach env w \<Longrightarrow> vw_queue w = cmd # rest \<Longrightarrow>
    vault_reach env (w\<lparr>vw_vault := vault_command env cmd (vw_vault w), vw_queue := rest\<rparr>)"
| others: "vault_reach env w \<Longrightarrow> secrets v = secrets ((vw_vault w)\<lparr>va_daemon := (va_daemon (vw_vault w))\<lparr>dm_tick := n\<rparr>\<rparr>) \<Longrightarrow>
    vault_reach env (w\<lparr>vw_vault := v\<rparr>)"
| restart: "vault_reach env w \<Longrightarrow>
    vault_reach env \<lparr>vw_vault = Vault_open env d (va_binding (vw_vault w)) (va_blobs (vw_vault w)),
      vw_queue = [], vw_publishing = []\<rparr>"

lemma vault_ok_view: "vault_ok env (v\<lparr>va_snapshot := m\<rparr>) = vault_ok env v"
  by (simp add: vault_ok_def disk_ok_def memory_ok_def cong: option.case_cong)

lemma vault_ok_tick: "vault_ok env (v\<lparr>va_daemon := (va_daemon v)\<lparr>dm_tick := n\<rparr>\<rparr>) = vault_ok env v"
  by (simp add: vault_ok_def disk_ok_def memory_ok_def cong: option.case_cong)

lemma vault_reach_ok:
  assumes "vault_reach env w" and laws: "box_laws env"
  shows "vault_ok env (vw_vault w)"
  using assms(1)
proof (induction rule: vault_reach.induct)
  case (start d)
  show ?case using vault_open_ok [of env "Vault_open env d None []" d]
    by (simp add: Vault_open_def disk_ok_def Let_def)
next
  case (others w v n)
  then show ?case using vault_ok_secrets [OF others(2)] vault_ok_tick by simp
next
  case (restart w d)
  then have "disk_ok env (vw_vault w)" by (simp add: vault_ok_def)
  then show ?case using vault_open_ok by simp
qed (simp_all add: publish_credential_def remove_credential_def vault_ok_view vault_command_ok [OF laws])

text \<open>While the keystore stays or becomes locked, a command adds nothing to the read view.\<close>

lemma unlock_view:
  assumes "va_locked (snd (handle_unlock_inner env k v))"
  shows "va_locked v \<and> va_snapshot (snd (handle_unlock_inner env k v)) = va_snapshot v"
  using assms
  by (cases rule: unlock_tail_cases [of env k v])
     (auto simp: handle_unlock_inner_def key_of_def split: sum.splits if_splits)

lemma bind_view:
  assumes "va_locked (snd (handle_bind_keystore_inner env k v))"
  shows "va_locked v \<and> va_snapshot (snd (handle_bind_keystore_inner env k v)) = va_snapshot v"
proof (cases "length k = 32")
  case True
  have tail: "va_locked (snd (unlock_tail env k v')) \<Longrightarrow>
      va_locked v' \<and> va_snapshot (snd (unlock_tail env k v')) = va_snapshot v'" for v'
    by (cases rule: unlock_tail_cases [of env k v']) simp_all
  have inner: "handle_bind_keystore_inner env k v =
      (case bind_keystore env k v of (Inl e, v) \<Rightarrow> (Inl e, v) | (Inr _, v) \<Rightarrow> map_other (unlock_tail env k v))"
    using True by (simp add: handle_bind_keystore_inner_def key_of_def)
  show ?thesis
    using assms by (cases rule: bind_keystore_cases [of env k v]) (auto simp: inner dest: tail)
qed (use assms in \<open>simp add: handle_bind_keystore_inner_def key_of_def\<close>)

lemma persist_unlocked: "encrypt_and_persist_credential env s c v = Inr v' \<Longrightarrow> \<not> va_locked v' \<and> \<not> va_locked v"
  by (auto simp: encrypt_and_persist_credential_def set_credential_blob_def
      split: if_splits sum.splits option.splits)

definition view_shrinks :: "Vault \<Rightarrow> Vault \<Rightarrow> bool" where
  "view_shrinks v v' \<longleftrightarrow> (va_locked v' \<longrightarrow>
     (\<forall>k. map_of (va_snapshot v') k \<noteq> None \<longrightarrow> va_locked v \<and> map_of (va_snapshot v) k \<noteq> None))"

lemma view_shrinks_secrets: "secrets v' = secrets v'' \<Longrightarrow> view_shrinks v v' = view_shrinks v v''"
  using secretsD [of v' v''] by (simp add: view_shrinks_def)

lemma view_shrinks_refl: "view_shrinks v v"
  by (simp add: view_shrinks_def)

lemma view_publish_key:
  assumes "va_locked v' = va_locked v" "va_locked v \<Longrightarrow> va_credentials v' = []" "va_snapshot v' = va_snapshot v"
  shows "view_shrinks v (publish_mcp_oauth_key k v')"
  using assms by (auto simp: view_shrinks_def snapshot_publish_key split: if_splits)

lemma vault_handle_view:
  assumes ok: "vault_ok env v" and cmd: "\<not> is_oauth_save cmd"
  shows "view_shrinks v (vault_handle env cmd v)"
proof -
  note empty = locked_empty [OF ok]
  have same: "secrets v' = secrets v \<Longrightarrow> view_shrinks v v'" for v'
    using view_shrinks_secrets view_shrinks_refl by blast
  show ?thesis
  proof (cases cmd)
    case (VC_Unlock k reply ack)
    then show ?thesis using unlock_view [of env k v] by (auto simp: handle_unlock_def view_shrinks_def)
  next
    case (VC_BindKeystore k reply ack)
    then show ?thesis using bind_view [of env k v] by (auto simp: handle_bind_keystore_def view_shrinks_def)
  next
    case (VC_Lock ch)
    then show ?thesis
      by (simp add: handle_lock_def Let_def view_shrinks_def publish_mcp_oauth_snapshot_def mcp_oauth_snapshot_def set_locked_def)
  next
    case (VC_SaveCredential s c reply ack)
    have "view_shrinks v (snd (handle_save_credential env s c reply ack v))"
    proof (cases "va_locked v \<or> isl (encrypt_and_persist_credential env s c v)")
      case True
      then show ?thesis by (intro same) (auto simp: handle_save_credential_def split: sum.splits)
    next
      case False
      then show ?thesis using persist_unlocked [of env s c v]
        by (auto simp: handle_save_credential_def view_shrinks_def Let_def insert_credential_def split: sum.splits)
    qed
    then show ?thesis using VC_SaveCredential view_shrinks_secrets [OF save_command_secrets] by simp
  next
    case (VC_RemoveCredential s ch)
    then show ?thesis
      using empty
      by (auto simp: handle_remove_credential_def remove_credential_blob_def Let_def delete_credential_def
          hm_remove_def same view_shrinks_secrets [OF secrets_outputs(1)] intro!: view_publish_key split: option.split)
  next
    case (VC_OAuthClear s)
    then show ?thesis
      using empty
      by (auto simp: handle_oauth_clear_def remove_credential_blob_def Let_def delete_credential_def
          hm_remove_def view_shrinks_refl intro!: view_publish_key split: option.split)
  next
    case (VC_McpAuthRejected s)
    then show ?thesis
      using empty by (auto simp: handle_mcp_auth_rejected_def view_shrinks_refl intro!: view_publish_key)
  next
    case (VC_SaveOAuthToken save ch)
    then show ?thesis
      using persist_unlocked [of env "sv_account save" _ v]
      by (auto simp: handle_save_oauth_token_def same view_shrinks_secrets [OF secrets_outputs(1)] Let_def
          view_shrinks_refl view_shrinks_def cache_token_def insert_credential_def split: sum.splits option.splits)
  next
    case (VC_MarkOAuthDead a)
    then show ?thesis by (simp add: handle_mark_oauth_dead_def view_shrinks_def)
  qed (use cmd in \<open>simp_all add: same\<close>)
qed

lemma oauth_save_view:
  assumes ok: "vault_ok env v" and key: "is_mcp_credential_key key"
    and locked: "va_locked (handle_oauth_save env key c e v)"
  shows "va_locked v" "map_of (va_snapshot (handle_oauth_save env key c e v)) k \<noteq> None \<Longrightarrow>
    k \<noteq> key \<and> map_of (va_snapshot v) k \<noteq> None"
proof -
  show l: "va_locked v"
    using locked persist_unlocked [of env key c v]
    by (auto simp: handle_oauth_save_def Let_def insert_credential_def split: if_splits option.splits sum.splits)
  show "map_of (va_snapshot (handle_oauth_save env key c e v)) k \<noteq> None \<Longrightarrow> k \<noteq> key \<and> map_of (va_snapshot v) k \<noteq> None"
    using locked_empty [OF ok l] key by (auto simp: handle_oauth_save_def l snapshot_publish_key split: if_splits)
qed

text \<open>The keys with a save that has been published and not yet been served.\<close>

definition pending_saves :: "vault_world \<Rightarrow> string set" where
  "pending_saves w = {key. \<exists>c e. VC_OAuthSave key c e \<in> set (vw_queue w)} \<union> fst ` set (vw_publishing w)"

definition view_ok :: "vault_world \<Rightarrow> bool" where
  "view_ok w \<longleftrightarrow> (\<forall>key \<in> pending_saves w. is_mcp_credential_key key) \<and>
     (va_locked (vw_vault w) \<longrightarrow> (\<forall>key. map_of (va_snapshot (vw_vault w)) key \<noteq> None \<longrightarrow> key \<in> pending_saves w))"

lemma vault_reach_view:
  assumes "vault_reach env w" and laws: "box_laws env"
  shows "view_ok w"
  using assms(1)
proof (induction rule: vault_reach.induct)
  case (start d)
  show ?case by (simp add: view_ok_def pending_saves_def Vault_open_def Let_def)
next
  case (publish w key c e)
  then show ?case by (auto simp: view_ok_def pending_saves_def publish_credential_def map_of_hm_insert)
next
  case (enqueue_save w before key c e after)
  then have "pending_saves (w\<lparr>vw_queue := vw_queue w @ [VC_OAuthSave key c e], vw_publishing := before @ after\<rparr>) =
      pending_saves w"
    by (auto simp: pending_saves_def)
  then show ?case using enqueue_save.IH by (simp add: view_ok_def)
next
  case (withdraw w key)
  then show ?case by (auto simp: view_ok_def pending_saves_def remove_credential_def map_of_hm_remove)
next
  case (request w cmd)
  then have "pending_saves (w\<lparr>vw_queue := vw_queue w @ [cmd]\<rparr>) = pending_saves w"
    by (cases cmd) (auto simp: pending_saves_def)
  then show ?case using request.IH by (simp add: view_ok_def)
next
  case (serve w cmd rest)
  let ?w = "w\<lparr>vw_vault := vault_command env cmd (vw_vault w), vw_queue := rest\<rparr>"
  have ok: "vault_ok env (vw_vault w)" by (rule vault_reach_ok [OF serve.hyps(1) laws])
  have fields: "va_locked (vault_command env cmd v) = va_locked (vault_handle env cmd v)"
    "va_snapshot (vault_command env cmd v) = va_snapshot (vault_handle env cmd v)" for cmd v
    by (simp_all add: vault_command_def Let_def dm_advance_def)
  show ?case
  proof (cases "is_oauth_save cmd")
    case False
    then have "pending_saves ?w = pending_saves w" using serve.hyps(2) by (cases cmd) (auto simp: pending_saves_def)
    then show ?thesis
      using serve.IH vault_handle_view [OF ok False] by (simp add: view_ok_def view_shrinks_def fields)
  next
    case True
    then obtain key c e where cmd: "cmd = VC_OAuthSave key c e" by (cases cmd) simp_all
    have sub: "pending_saves ?w \<subseteq> pending_saves w" "pending_saves w \<subseteq> insert key (pending_saves ?w)"
      using serve.hyps(2) by (auto simp: pending_saves_def cmd)
    have "key \<in> pending_saves w" using serve.hyps(2) by (auto simp: pending_saves_def cmd)
    then have mcp: "is_mcp_credential_key key" using serve.IH by (simp add: view_ok_def)
    have "k \<in> pending_saves ?w"
      if locked: "va_locked (vw_vault ?w)" and k: "map_of (va_snapshot (vw_vault ?w)) k \<noteq> None" for k
    proof -
      have l: "va_locked (handle_oauth_save env key c e (vw_vault w))" using locked by (simp add: fields cmd)
      have "k \<noteq> key" "map_of (va_snapshot (vw_vault w)) k \<noteq> None"
        using oauth_save_view(2) [OF ok mcp l, of k] k by (simp_all add: fields cmd)
      moreover have "va_locked (vw_vault w)" by (rule oauth_save_view(1) [OF ok mcp l])
      ultimately show ?thesis using serve.IH sub(2) unfolding view_ok_def by blast
    qed
    then show ?thesis using serve.IH sub by (auto simp: view_ok_def)
  qed
next
  case (others w v n)
  then show ?case using secretsD [OF others(2)] by (simp add: view_ok_def pending_saves_def)
next
  case (restart w d)
  show ?case by (simp add: view_ok_def pending_saves_def Vault_open_def Let_def)
qed

section \<open>Unlocking takes the bound key\<close>

lemma locked_command:
  assumes "va_locked v" "\<not> va_locked (vault_command env cmd v)"
  obtains k reply ack where "cmd = VC_Unlock k reply ack \<or> cmd = VC_BindKeystore k reply ack" "length k = 32"
    "va_binding (vault_command env cmd v) = Some (ke_public env k)"
proof -
  have fields: "va_locked (vault_command env c v) = va_locked (vault_handle env c v)"
    "va_binding (vault_command env c v) = va_binding (vault_handle env c v)" for c
    by (simp_all add: vault_command_def Let_def dm_advance_def)
  show ?thesis
  proof (cases cmd)
    case (VC_Unlock k reply ack)
    then have open_: "\<not> va_locked (snd (handle_unlock_inner env k v))"
      using assms(2) by (simp add: fields handle_unlock_def)
    then have k: "length k = 32" and b: "va_binding v = Some (ke_public env k)"
      and tail: "\<not> va_locked (snd (unlock_tail env k v))"
      using assms(1) verify_cases [of env k v]
      by (auto simp: handle_unlock_inner_def key_of_def split: sum.splits if_splits)
    have "va_binding (snd (handle_unlock_inner env k v)) = Some (ke_public env k)"
      using b by (cases rule: unlock_tail_cases [of env k v])
        (auto simp: handle_unlock_inner_def key_of_def split: sum.splits)
    then show ?thesis using VC_Unlock k by (intro that) (simp_all add: fields handle_unlock_def)
  next
    case (VC_BindKeystore k reply ack)
    then have open_: "\<not> va_locked (snd (handle_bind_keystore_inner env k v))"
      using assms(2) by (simp add: fields handle_bind_keystore_def)
    then have k: "length k = 32" using assms(1) by (auto simp: handle_bind_keystore_inner_def key_of_def split: if_splits)
    have tail: "va_binding (snd (unlock_tail env k v')) = va_binding v'" for v'
      by (cases rule: unlock_tail_cases [of env k v']) simp_all
    have "va_binding (snd (handle_bind_keystore_inner env k v)) = Some (ke_public env k)"
      using open_ assms(1) by (cases rule: bind_keystore_cases [of env k v])
        (auto simp: handle_bind_keystore_inner_def key_of_def k tail)
    then show ?thesis using VC_BindKeystore k by (intro that) (simp_all add: fields handle_bind_keystore_def)
  qed (use assms in \<open>auto simp: fields handle_lock_def Let_def set_locked_def save_credential_command_def
      handle_save_credential_def handle_remove_credential_def remove_credential_blob_def delete_credential_def
      handle_oauth_save_def handle_oauth_clear_def handle_mcp_auth_rejected_def handle_save_oauth_token_def
      handle_mark_oauth_dead_def publish_mcp_oauth_snapshot_def split: option.splits prod.splits if_splits\<close>)
qed

lemma binding_kept:
  assumes "va_binding v = Some pk" "length pk = 32"
  shows "va_binding (vault_command env cmd v) = Some pk"
proof -
  have fields: "va_binding (vault_command env c v) = va_binding (vault_handle env c v)" for c
    by (simp add: vault_command_def Let_def)
  have tail: "va_binding (snd (unlock_tail env k v')) = va_binding v'" for k v'
    by (cases rule: unlock_tail_cases [of env k v']) simp_all
  have unlock: "va_binding (snd (handle_unlock_inner env k v)) = Some pk" for k
    using assms by (auto simp: handle_unlock_inner_def tail split: sum.split)
  have bind: "va_binding (snd (handle_bind_keystore_inner env k v)) = Some pk" for k
    using assms by (cases rule: bind_keystore_cases [of env k v])
      (auto simp: handle_bind_keystore_inner_def key_of_def tail)
  have persist: "encrypt_and_persist_credential env s c v = Inr v' \<Longrightarrow> va_binding v' = Some pk" for s c v'
    using assms by (auto simp: encrypt_and_persist_credential_def set_credential_blob_def
        split: if_splits sum.splits option.splits)
  show ?thesis
    using assms persist
    by (cases cmd) (auto simp: fields handle_unlock_def handle_bind_keystore_def unlock bind handle_lock_def Let_def
      set_locked_def publish_mcp_oauth_snapshot_def save_credential_command_def handle_save_credential_def
      handle_remove_credential_def remove_credential_blob_def delete_credential_def insert_credential_def
      handle_oauth_save_def handle_oauth_clear_def handle_mcp_auth_rejected_def handle_save_oauth_token_def
      cache_token_def handle_mark_oauth_dead_def split: option.splits prod.splits sum.splits if_splits)
qed

text \<open>Whether a command presents a key for the public key \<open>pk\<close>.\<close>

fun presents :: "KeyEnv \<Rightarrow> bytes \<Rightarrow> VaultCommand \<Rightarrow> bool" where
  "presents env pk (VC_Unlock k _ _) \<longleftrightarrow> length k = 32 \<and> ke_public env k = pk"
| "presents env pk (VC_BindKeystore k _ _) \<longleftrightarrow> length k = 32 \<and> ke_public env k = pk"
| "presents env pk _ \<longleftrightarrow> False"

section \<open>Unlocking with the bound key\<close>

definition unlockable :: "KeyEnv \<Rightarrow> nat \<Rightarrow> bool" where
  "unlockable env n \<longleftrightarrow> ke_fault env n ReadBinding = None \<and> ke_fault env n ReadBlobs = None \<and>
     \<not> isl (AccountManager_load env n)"

lemma unlock_with_bound_key:
  assumes "disk_ok env v" "length k = 32" "va_binding v = Some (ke_public env k)" "unlockable env (va_tick v)"
  obtains v' where "handle_unlock_inner env k v = (Inr (), v')" "\<not> va_locked v'"
    "va_binding v' = va_binding v" "va_blobs v' = va_blobs v" "va_keystore_bound v' = va_keystore_bound v"
    "\<And>s. map_of (va_credentials v') s = Option.bind (map_of (va_blobs v) s) (open_blob env k)"
proof -
  have len: "length (ke_public env k) = 32" using assms(1,3) by (simp add: disk_ok_def)
  have verified: "verify_keystore_binding env k v = Inr ()"
    using assms(3,4) len by (simp add: verify_keystore_binding_def get_keystore_binding_def unlockable_def)
  obtain accounts where acc: "AccountManager_load env (va_tick v) = Inr accounts"
    using assms(4) by (cases "AccountManager_load env (va_tick v)") (auto simp: unlockable_def)
  show ?thesis
  proof (cases rule: unlock_tail_cases [of env k v])
    case (1 e)
    then show ?thesis
      using assms(4) acc by (auto simp: unlock_tail_def decrypt_credential_blobs_def get_all_credential_blobs_def
          finish_unlock_def unlockable_def Let_def)
  next
    case (2 v')
    have "handle_unlock_inner env k v = (Inr (), v')"
      using 2(1) assms(2) verified by (simp add: handle_unlock_inner_def key_of_def map_other_def)
    then show ?thesis using 2 decrypt_lookup [OF assms(1) 2(3)] by (intro that [of v']) simp_all
  qed
qed

lemma handle_unlock_credentials:
  assumes "disk_ok env v" "length k = 32" "va_binding v = Some (ke_public env k)" "unlockable env (va_tick v)"
  shows "\<not> va_locked (handle_unlock env k reply ack v) \<and>
    map_of (va_credentials (handle_unlock env k reply ack v)) s =
      Option.bind (map_of (va_blobs v) s) (open_blob env k)"
  using unlock_with_bound_key [OF assms] by (metis announce_fields(1,4) handle_unlock_def snd_conv)

lemma opened_alike:
  assumes "disk_ok env v" "va_binding v = Some (ke_public env k)" "length k = 32"
    "va_binding v = Some (ke_public env k')" "length k' = 32"
  shows "Option.bind (map_of (va_blobs v) s) (open_blob env k) = Option.bind (map_of (va_blobs v) s) (open_blob env k')"
proof (cases "map_of (va_blobs v) s")
  case (Some blob)
  then obtain c where "boxes env (ke_public env k) blob c" using assms(1,2) by (auto simp: disk_ok_def)
  then show ?thesis using Some assms by (simp add: boxes_def)
qed simp

section \<open>Properties\<close>

text \<open>
  A keystore environment: a key is its own public key, the box is the plaintext and an
  API key is its bytes.
\<close>

definition sample_key_env :: KeyEnv where
  "sample_key_env = \<lparr>ke_public = (\<lambda>k. k), ke_diffie_hellman = (\<lambda>_ _. []), ke_hkdf_expand = (\<lambda>_ _ _. Some []),
     ke_aead_encrypt = (\<lambda>_ _ p. Some p), ke_aead_decrypt = (\<lambda>_ _ c. Some c),
     ke_random = (\<lambda>_. (replicate 32 0, replicate 32 0, replicate 12 0)),
     ke_to_allocvec = (\<lambda>c. case c of SC_ApiKey key \<Rightarrow> Inr (map (\<lambda>ch. word_of_nat (of_char ch)) key) | _ \<Rightarrow> Inl ''unsupported''),
     ke_from_bytes = (\<lambda>p. Some (SC_ApiKey (map (\<lambda>b. char_of (unat b)) p))),
     ke_fault = (\<lambda>_ _. None), ke_accounts_file = (\<lambda>_. AF_Absent), ke_save_accounts = (\<lambda>_. None),
     ke_is_configured = (\<lambda>_ _. False)\<rparr>"

lemma sample_key_laws: "box_laws sample_key_env"
proof -
  have char: "char_of (unat (word_of_nat (of_char ch) :: u8)) = ch" for ch
    by (simp add: unat_of_nat char_of_def [symmetric] take_bit_eq_mod [symmetric])
  show ?thesis
    by (auto simp: box_laws_def sample_key_env_def char o_def split: ServiceCredential.splits)
qed

abbreviation sample_secret :: bytes where
  "sample_secret \<equiv> replicate 32 7"

text \<open>
  C3. A locked keystore holds nothing, whatever was done to the daemon before: no
  credential, access token or X credential is in memory, no account resolves to a key, a
  grant or a token, and the read view of the MCP connect path holds a grant only while
  the save that published it is still to be served, so that it is empty once the queue is
  drained. The runs start on an empty database and interleave, in any order, the saves of
  the connect path, the commands of the clients, the command loop, and restarts.
\<close>

theorem locked_keystore_holds_nothing:
  assumes "box_laws env" "vault_reach env w" "va_locked (vw_vault w)"
  shows "va_credentials (vw_vault w) = [] \<and> va_access_tokens (vw_vault w) = [] \<and>
    va_x_credentials (vw_vault w) = None \<and>
    auth_for account (vw_vault w) = None \<and> api_key_for account (vw_vault w) = None \<and>
    tl_material (oauth_token_load account (vw_vault w)) = None \<and>
    tl_cached (oauth_token_load account (vw_vault w)) = None \<and>
    fst ` set (va_snapshot (vw_vault w)) \<subseteq> pending_saves w \<and>
    (vw_queue w = [] \<longrightarrow> vw_publishing w = [] \<longrightarrow> va_snapshot (vw_vault w) = [])"
proof -
  note empty = locked_empty [OF vault_reach_ok [OF assms(2,1)] assms(3)]
  have view: "fst ` set (va_snapshot (vw_vault w)) \<subseteq> pending_saves w"
    using vault_reach_view [OF assms(2,1)] assms(3)
    by (auto simp: view_ok_def map_of_eq_None_iff image_iff)
  moreover have "va_snapshot (vw_vault w) = []" if "vw_queue w = []" "vw_publishing w = []"
    using view that by (simp add: pending_saves_def)
  ultimately show ?thesis
    using empty by (simp add: auth_for_def api_key_for_def oauth_token_load_def oauth_refresh_material_def)
qed

theorem locked_keystore_holds_nothing_witness:
  "''mcp:a|1'' \<in> pending_saves \<lparr>vw_vault = publish_credential ''mcp:a|1'' (SC_ApiKey ''k'')
      (Vault_open sample_key_env sample_loop None []), vw_queue = [],
      vw_publishing = [(''mcp:a|1'', SC_ApiKey ''k'', None)]\<rparr>"
proof -
  let ?w = "\<lparr>vw_vault = Vault_open sample_key_env sample_loop None [], vw_queue = [], vw_publishing = []\<rparr>"
  let ?w' = "?w\<lparr>vw_vault := publish_credential ''mcp:a|1'' (SC_ApiKey ''k'') (vw_vault ?w),
    vw_publishing := vw_publishing ?w @ [(''mcp:a|1'', SC_ApiKey ''k'', None)]\<rparr>"
  have "vault_reach sample_key_env ?w'"
    by (rule vault_reach.publish [OF vault_reach.start]) (simp add: is_mcp_credential_key_def)
  moreover have "va_locked (vw_vault ?w')" by (simp add: publish_credential_def Vault_open_def Let_def)
  ultimately show ?thesis
    using locked_keystore_holds_nothing [OF sample_key_laws, where w = ?w']
    by (simp add: publish_credential_def Vault_open_def Let_def)
qed


text \<open>
  C21. A credential that was accepted survives: after a save the daemon answers with
  success, a restart on the same database and an unlock with a private key of the
  binding give that credential back, and with it every other one the daemon held.
\<close>

theorem saved_credential_survives_restart:
  assumes "box_laws env" "vault_reach env w" "length k = 32"
    and saved: "handle_save_credential env service credential reply ack (vw_vault w) = (True, v)"
    and bound: "va_binding v = Some (ke_public env k)" and good: "unlockable env (dm_tick d)"
  shows "let v' = handle_unlock env k reply' ack' (Vault_open env d (va_binding v) (va_blobs v))
    in \<not> va_locked v' \<and> map_of (va_credentials v') service = Some credential \<and>
       (\<forall>s. map_of (va_credentials v') s = map_of (va_credentials v) s)"
proof -
  let ?v = "Vault_open env d (va_binding v) (va_blobs v)"
  have ok: "vault_ok env v" using save_ok [OF assms(1) vault_reach_ok [OF assms(2,1)]] saved by (metis snd_conv)
  have unlocked: "\<not> va_locked v" and kept: "map_of (va_credentials v) service = Some credential"
    using saved persist_unlocked [of env service credential "vw_vault w"]
    by (auto simp: handle_save_credential_def Let_def insert_credential_def map_of_hm_insert split: if_splits sum.splits)
  obtain k0 where k0: "length k0 = 32" "va_binding v = Some (ke_public env k0)"
    "\<And>s. map_of (va_credentials v) s = Option.bind (map_of (va_blobs v) s) (open_blob env k0)"
    using ok unlocked by (auto simp: vault_ok_def memory_ok_def)
  have fresh: "va_binding ?v = va_binding v" "va_blobs ?v = va_blobs v" "va_tick ?v = dm_tick d"
    by (simp_all add: Vault_open_def Let_def)
  have disk: "disk_ok env v" using ok by (simp add: vault_ok_def)
  then have "disk_ok env ?v" using disk_ok_cong [of ?v v] fresh by simp
  then have "\<not> va_locked (handle_unlock env k reply' ack' ?v) \<and>
      map_of (va_credentials (handle_unlock env k reply' ack' ?v)) s = map_of (va_credentials v) s" for s
    using handle_unlock_credentials [of env ?v k reply' ack' s] assms(3) bound good fresh
      opened_alike [OF disk bound assms(3) k0(2,1)] k0(3) by simp
  then show ?thesis using kept by (simp add: Let_def)
qed

text \<open>
  An unlock is all or nothing: when it fails the daemon has done nothing but answer
  the client, with the reply of the error; when it succeeds the key belonged to the
  binding, the keystore is unlocked and the memory holds what the boxes of the database
  open to.
\<close>

theorem unlock_is_all_or_nothing:
  "(case handle_unlock_inner env k v of
      (Inl e, _) \<Rightarrow> handle_unlock env k reply ack v = send_targeted_ack reply (unlock_error_reply e) ack v
    | (Inr _, _) \<Rightarrow> va_binding v = Some (ke_public env k) \<and> length k = 32 \<and>
        \<not> va_locked (handle_unlock env k reply ack v) \<and> va_blobs (handle_unlock env k reply ack v) = va_blobs v \<and>
        decrypt_credential_blobs env k v = Inr (va_credentials (handle_unlock env k reply ack v)))"
proof (cases "length k = 32 \<and> verify_keystore_binding env k v = Inr ()")
  case True
  then have b: "va_binding v = Some (ke_public env k)" by (intro verify_cases) simp
  have inner: "handle_unlock_inner env k v = map_other (unlock_tail env k v)"
    using True by (simp add: handle_unlock_inner_def key_of_def)
  show ?thesis
  proof (cases rule: unlock_tail_cases [of env k v])
    case (1 e)
    then show ?thesis by (simp add: inner map_other_def handle_unlock_def announce_unlock_def)
  next
    case (2 v')
    then show ?thesis using True b by (simp add: inner map_other_def handle_unlock_def)
  qed
next
  case False
  then obtain e where "handle_unlock_inner env k v = (Inl e, v)"
    by (cases "length k = 32"; cases "verify_keystore_binding env k v") (auto simp: handle_unlock_inner_def key_of_def)
  then show ?thesis by (simp add: handle_unlock_def announce_unlock_def)
qed

lemma sample_public [simp]: "ke_public sample_key_env k = k"
  by (simp add: sample_key_env_def)

text \<open>A daemon on a fresh database, after a client bound its keystore.\<close>

definition sample_bound :: Vault where
  "sample_bound = vault_command sample_key_env (VC_BindKeystore sample_secret None 0)
     (Vault_open sample_key_env sample_loop None [])"

lemma sample_bound_reach:
  "vault_reach sample_key_env \<lparr>vw_vault = sample_bound, vw_queue = [], vw_publishing = []\<rparr>"
proof -
  let ?w = "\<lparr>vw_vault = Vault_open sample_key_env sample_loop None [], vw_queue = [], vw_publishing = []\<rparr>"
  let ?c = "VC_BindKeystore sample_secret None 0"
  have "vault_reach sample_key_env (?w\<lparr>vw_queue := vw_queue ?w @ [?c]\<rparr>)"
    by (rule vault_reach.request [OF vault_reach.start]) simp
  then show ?thesis
    using vault_reach.serve [of sample_key_env "?w\<lparr>vw_queue := vw_queue ?w @ [?c]\<rparr>" ?c "[]"]
    by (simp add: sample_bound_def)
qed

lemma sample_bound_fields:
  "va_binding sample_bound = Some sample_secret" "\<not> va_locked sample_bound" "va_blobs sample_bound = []"
  "va_tick sample_bound = 1" "va_keystore_bound sample_bound" "va_credentials sample_bound = []"
  by (simp_all add: sample_bound_def vault_command_def handle_bind_keystore_def handle_bind_keystore_inner_def
      key_of_def bind_keystore_def get_keystore_binding_def set_keystore_binding_def Vault_open_def Let_def
      unlock_tail_def decrypt_credential_blobs_def get_all_credential_blobs_def finish_unlock_def map_other_def
      AccountManager_load_def sample_key_env_def publish_mcp_oauth_snapshot_def set_locked_def set_accounts_def
      dm_advance_def sample_loop_def)


lemma sample_sealed:
  "\<exists>blob. encrypt_and_persist_credential sample_key_env ''openai'' (SC_ApiKey ''sk'') sample_bound =
     Inr (sample_bound\<lparr>va_blobs := hm_insert ''openai'' blob (va_blobs sample_bound)\<rparr>)"
proof -
  have "get_keystore_binding sample_key_env sample_bound = Inr (Some sample_secret)"
    by (simp add: get_keystore_binding_def sample_bound_fields sample_key_env_def)
  moreover obtain p where "ke_to_allocvec sample_key_env (SC_ApiKey ''sk'') = Inr p"
    by (simp add: sample_key_env_def)
  moreover have "\<exists>blob. encrypt_with_public_key sample_key_env n pk q = Inr blob" for n pk q
    by (simp add: encrypt_with_public_key_def aes_encrypt_def sample_key_env_def)
  then obtain blob where "encrypt_with_public_key sample_key_env (va_tick sample_bound) sample_secret p = Inr blob"
    by blast
  moreover have "ke_fault sample_key_env n call = None" for n call by (simp add: sample_key_env_def)
  ultimately show ?thesis
    using sample_bound_fields(2) by (auto simp: encrypt_and_persist_credential_def set_credential_blob_def)
qed

lemma sample_saved:
  "\<exists>v. handle_save_credential sample_key_env ''openai'' (SC_ApiKey ''sk'') None 1 sample_bound = (True, v) \<and>
     va_binding v = Some sample_secret"
  using sample_sealed sample_bound_fields(1,2)
  by (auto simp: handle_save_credential_def insert_credential_def Let_def)

theorem saved_credential_survives_restart_witness:
  "\<exists>v. handle_save_credential sample_key_env ''openai'' (SC_ApiKey ''sk'') None 1 sample_bound = (True, v) \<and>
     map_of (va_credentials (handle_unlock sample_key_env sample_secret None 2
       (Vault_open sample_key_env sample_loop (va_binding v) (va_blobs v)))) ''openai'' = Some (SC_ApiKey ''sk'')"
proof -
  obtain v where v: "handle_save_credential sample_key_env ''openai'' (SC_ApiKey ''sk'') None 1 sample_bound = (True, v)"
    "va_binding v = Some sample_secret"
    using sample_saved by blast
  have "unlockable sample_key_env (dm_tick sample_loop)"
    by (simp add: unlockable_def sample_key_env_def AccountManager_load_def)
  from saved_credential_survives_restart [OF sample_key_laws sample_bound_reach _ _ _ this, of sample_secret
      "''openai''" "SC_ApiKey ''sk''" None 1 v None 2]
  show ?thesis using v unfolding Let_def by auto
qed

text \<open>
  A rejected refresh quarantines whatever grant is stored by then: the report of a
  terminal rejection names the account only, so one that is served after the user signed
  in again, for a refresh of the grant that was replaced, marks the new grant dead.
\<close>

theorem stale_rejection_quarantines_new_grant:
  assumes "handle_save_credential env account credential reply ack v = (True, v1)"
  shows "\<not> tl_dead (oauth_token_load account v1) \<and>
    map_of (va_credentials (handle_mark_oauth_dead account v1)) account = Some credential \<and>
    tl_dead (oauth_token_load account (handle_mark_oauth_dead account v1))"
  using assms
  by (auto simp: handle_save_credential_def Let_def insert_credential_def map_of_hm_insert handle_mark_oauth_dead_def
      oauth_token_load_def split: if_splits sum.splits)

theorem stale_rejection_quarantines_new_grant_witness:
  "\<exists>v. handle_save_credential sample_key_env ''openai'' (SC_ApiKey ''sk'') None 1 sample_bound = (True, v) \<and>
     tl_dead (oauth_token_load ''openai'' (handle_mark_oauth_dead ''openai'' v))"
  using sample_saved stale_rejection_quarantines_new_grant [of sample_key_env "''openai''" "SC_ApiKey ''sk''" None 1 sample_bound]
  by blast



end
