(* ===== verification/Unlock_Keys.thy ===== *)
theory Unlock_Keys
  imports Keystore_Safe Text_Sanitize Proto_Frame
begin

text \<open>
  The client's half of the keystore: the store of pinned servers and unlock keys
  (\<open>src/choreo-client-core/src/known_servers.rs\<close>) and the key a client presents to a
  daemon or binds it to (\<open>src/choreo-client-core/src/credentials.rs\<close>), and what comes of
  it together with the daemon's half.

  The TOML and base64 codecs, the random key and what a read or a write of the store
  meets are arguments, in the record \<open>UnlockEnv\<close>. A write that fails after the file was
  truncated leaves a prefix of the text.
\<close>

section \<open>The store (known_servers.rs)\<close>

datatype ClientError =
    CE_Proto ProtoError
  | CE_Io string
  | CE_Utf8 string
  | CE_NoUnlockKey string
  | CE_PrivateKeyRead string
  | CE_PrivateKeyInvalid
  | CE_PublicKeyRead string
  | CE_PublicKeyInvalid
  | CE_CredentialParse string
  | CE_DaemonStart string

record KnownServerEntry =
  kse_addr :: string
  kse_pubkey :: "string option"
  kse_unlock_key :: "string option"

type_synonym KnownServers = "KnownServerEntry list"

datatype write_outcome = WO_Done | WO_Refused string | WO_Torn string nat

record UnlockEnv =
  ue_b64_encode :: "bytes \<Rightarrow> string"
  ue_b64_decode :: "string \<Rightarrow> string + bytes"
  ue_from_toml :: "string \<Rightarrow> KnownServerEntry list option"
  ue_to_toml :: "KnownServerEntry list \<Rightarrow> string + string"
  ue_path_fault :: "string option"
  ue_read_fault :: "nat \<Rightarrow> nat \<Rightarrow> string option"
  ue_write :: "nat \<Rightarrow> write_outcome"
  ue_random_key :: "nat \<Rightarrow> bytes"

text \<open>The files of the client, and how many operations it has done.\<close>

record ClientFs =
  cf_store :: "string option"
  cf_legacy :: "string + bytes"
  cf_tick :: nat

definition decode_key :: "UnlockEnv \<Rightarrow> string \<Rightarrow> string \<Rightarrow> ClientError + bytes" where
  "decode_key env b64 what = (case ue_b64_decode env (trim b64) of
     Inl e \<Rightarrow> Inl (CE_CredentialParse (''invalid '' @ what @ '' base64: '' @ e))
   | Inr bytes \<Rightarrow>
       if length bytes = 32 then Inr bytes
       else Inl (CE_CredentialParse (what @ '' must decode to exactly 32 bytes'')))"

definition encode_key :: "UnlockEnv \<Rightarrow> bytes \<Rightarrow> string" where
  "encode_key env pk = ue_b64_encode env pk"

text \<open>An entry with a bad pin is dropped; a bad unlock key is dropped from its entry.\<close>

definition parse_entry :: "UnlockEnv \<Rightarrow> KnownServerEntry \<Rightarrow> KnownServerEntry option" where
  "parse_entry env entry =
     (let unlock_key = Option.bind (kse_unlock_key entry)
            (\<lambda>b64. case decode_key env b64 ''unlock_key'' of Inr key \<Rightarrow> Some (encode_key env key) | Inl _ \<Rightarrow> None)
      in case kse_pubkey entry of
           None \<Rightarrow> Some (entry\<lparr>kse_pubkey := None, kse_unlock_key := unlock_key\<rparr>)
         | Some b64 \<Rightarrow> (case decode_key env b64 ''pubkey'' of
             Inl _ \<Rightarrow> None
           | Inr pk \<Rightarrow> Some (entry\<lparr>kse_pubkey := Some (encode_key env pk), kse_unlock_key := unlock_key\<rparr>)))"

definition parse_store :: "UnlockEnv \<Rightarrow> string \<Rightarrow> KnownServerEntry list" where
  "parse_store env content = (case ue_from_toml env content of
     None \<Rightarrow> [] | Some entries \<Rightarrow> List.map_filter (parse_entry env) entries)"

definition KnownServers_load :: "UnlockEnv \<Rightarrow> nat \<Rightarrow> ClientFs \<Rightarrow> ClientError + KnownServers" where
  "KnownServers_load env call fs = (case ue_path_fault env of
     Some e \<Rightarrow> Inl (CE_Io e)
   | None \<Rightarrow> Inr (case ue_read_fault env (cf_tick fs) call of
       Some e \<Rightarrow> []
     | None \<Rightarrow> (case cf_store fs of None \<Rightarrow> [] | Some content \<Rightarrow> parse_store env content)))"

fun find_entry :: "string \<Rightarrow> KnownServers \<Rightarrow> KnownServerEntry option" where
  "find_entry addr [] = None"
| "find_entry addr (e # es) = (if kse_addr e = addr then Some e else find_entry addr es)"

text \<open>\<open>iter_mut().find\<close> and an assignment: the first entry of the address.\<close>

fun update_entry :: "string \<Rightarrow> (KnownServerEntry \<Rightarrow> KnownServerEntry) \<Rightarrow> KnownServers \<Rightarrow> KnownServers" where
  "update_entry addr f [] = []"
| "update_entry addr f (e # es) = (if kse_addr e = addr then f e # es else e # update_entry addr f es)"

definition lookup_pin :: "UnlockEnv \<Rightarrow> string \<Rightarrow> KnownServers \<Rightarrow> ClientError + bytes option" where
  "lookup_pin env addr self = (case find_entry addr self of
     None \<Rightarrow> Inr None
   | Some entry \<Rightarrow> (case kse_pubkey entry of
       None \<Rightarrow> Inr None
     | Some b64 \<Rightarrow> (case decode_key env b64 ''pubkey'' of Inl e \<Rightarrow> Inl e | Inr pk \<Rightarrow> Inr (Some pk))))"

definition stored_key :: "UnlockEnv \<Rightarrow> string \<Rightarrow> KnownServers \<Rightarrow> ClientError + bytes option" where
  "stored_key env addr self = (case Option.bind (find_entry addr self) kse_unlock_key of
     None \<Rightarrow> Inr None
   | Some b64 \<Rightarrow> (case decode_key env b64 ''unlock_key'' of Inl e \<Rightarrow> Inl e | Inr key \<Rightarrow> Inr (Some key)))"

definition persist :: "UnlockEnv \<Rightarrow> KnownServers \<Rightarrow> ClientFs \<Rightarrow> (ClientError + unit) \<times> ClientFs" where
  "persist env self fs = (case ue_write env (cf_tick fs) of
     WO_Refused e \<Rightarrow> (Inl (CE_Io e), fs)
   | outcome \<Rightarrow> (case ue_to_toml env self of
       Inl e \<Rightarrow> (Inl (CE_Io e), fs\<lparr>cf_store := Some (case cf_store fs of Some t \<Rightarrow> t | None \<Rightarrow> '''')\<rparr>)
     | Inr content \<Rightarrow> (case outcome of
         WO_Torn e n \<Rightarrow> (Inl (CE_Io e), fs\<lparr>cf_store := Some (take n content)\<rparr>)
       | _ \<Rightarrow> (Inr (), fs\<lparr>cf_store := Some content\<rparr>))))"

definition with_unlock_key :: "UnlockEnv \<Rightarrow> string \<Rightarrow> bytes \<Rightarrow> KnownServers \<Rightarrow> KnownServers" where
  "with_unlock_key env addr key self =
     (if find_entry addr self \<noteq> None
      then update_entry addr (\<lambda>e. e\<lparr>kse_unlock_key := Some (encode_key env key)\<rparr>) self
      else self @ [\<lparr>kse_addr = addr, kse_pubkey = None, kse_unlock_key = Some (encode_key env key)\<rparr>])"

definition set_unlock_key ::
  "UnlockEnv \<Rightarrow> string \<Rightarrow> bytes \<Rightarrow> KnownServers \<Rightarrow> ClientFs \<Rightarrow> (ClientError + unit) \<times> KnownServers \<times> ClientFs" where
  "set_unlock_key env addr key self fs =
     (let self = with_unlock_key env addr key self;
          (r, fs) = persist env self fs
      in (r, self, fs))"

definition with_pin :: "UnlockEnv \<Rightarrow> string \<Rightarrow> bytes \<Rightarrow> KnownServers \<Rightarrow> KnownServers" where
  "with_pin env addr pk self =
     (if find_entry addr self \<noteq> None
      then update_entry addr (\<lambda>e. e\<lparr>kse_pubkey := Some (encode_key env pk)\<rparr>) self
      else self @ [\<lparr>kse_addr = addr, kse_pubkey = Some (encode_key env pk), kse_unlock_key = None\<rparr>])"

definition pin ::
  "UnlockEnv \<Rightarrow> string \<Rightarrow> bytes \<Rightarrow> KnownServers \<Rightarrow> ClientFs \<Rightarrow> (ClientError + unit) \<times> KnownServers \<times> ClientFs" where
  "pin env addr pk self fs =
     (let self = with_pin env addr pk self;
          (r, fs) = persist env self fs
      in (r, self, fs))"

definition remove_server ::
  "UnlockEnv \<Rightarrow> string \<Rightarrow> KnownServers \<Rightarrow> ClientFs \<Rightarrow> (ClientError + bool) \<times> KnownServers \<times> ClientFs" where
  "remove_server env addr self fs =
     (let kept = filter (\<lambda>e. kse_addr e \<noteq> addr) self
      in if length kept = length self then (Inr False, kept, fs)
         else (let (r, fs) = persist env kept fs
               in (case r of Inl e \<Rightarrow> Inl e | Inr _ \<Rightarrow> Inr True, kept, fs)))"

section \<open>Resolving and recording a key (credentials.rs)\<close>

definition stored_unlock_key :: "UnlockEnv \<Rightarrow> string \<Rightarrow> ClientFs \<Rightarrow> bytes option" where
  "stored_unlock_key env addr fs = (case KnownServers_load env 0 fs of
     Inl e \<Rightarrow> None
   | Inr store \<Rightarrow> (case stored_key env addr store of Inl e \<Rightarrow> None | Inr key \<Rightarrow> key))"

definition read_raw_private_key :: "ClientFs \<Rightarrow> ClientError + bytes" where
  "read_raw_private_key fs = (case cf_legacy fs of
     Inl e \<Rightarrow> Inl (CE_PrivateKeyRead e)
   | Inr data \<Rightarrow> if length data = 32 then Inr data else Inl CE_PrivateKeyInvalid)"

definition stored_or_adopted_unlock_key :: "UnlockEnv \<Rightarrow> string \<Rightarrow> ClientFs \<Rightarrow> bytes option \<times> ClientFs" where
  "stored_or_adopted_unlock_key env addr fs = (case stored_unlock_key env addr fs of
     Some key \<Rightarrow> (Some key, fs)
   | None \<Rightarrow> (case read_raw_private_key fs of
       Inl e \<Rightarrow> (None, fs)
     | Inr key \<Rightarrow> (Some key, case KnownServers_load env 1 fs of
         Inl e \<Rightarrow> fs
       | Inr store \<Rightarrow> snd (snd (set_unlock_key env addr key store fs)))))"

definition try_auto_unlock_key :: "UnlockEnv \<Rightarrow> string \<Rightarrow> ClientFs \<Rightarrow> bytes option \<times> ClientFs" where
  "try_auto_unlock_key env addr fs = stored_or_adopted_unlock_key env addr fs"

definition record_unlock_key :: "UnlockEnv \<Rightarrow> string \<Rightarrow> bytes \<Rightarrow> ClientFs \<Rightarrow> (ClientError + unit) \<times> ClientFs" where
  "record_unlock_key env addr key fs =
     (if length key \<noteq> 32 then (Inl CE_PrivateKeyInvalid, fs)
      else (case KnownServers_load env 0 fs of
          Inl e \<Rightarrow> (Inl e, fs)
        | Inr store \<Rightarrow> (let (r, _, fs) = set_unlock_key env addr key store fs in (r, fs))))"

definition bind_fresh_daemon ::
  "UnlockEnv \<Rightarrow> string \<Rightarrow> ClientFs \<Rightarrow> (ClientError + bytes \<times> ClientMessageType) \<times> ClientFs" where
  "bind_fresh_daemon env addr fs =
     (let fresh = ue_random_key env (cf_tick fs)
      in case KnownServers_load env 0 fs of
           Inl e \<Rightarrow> (Inl e, fs)
         | Inr store \<Rightarrow> (case set_unlock_key env addr fresh store fs of
             (Inl e, _, fs) \<Rightarrow> (Inl e, fs)
           | (Inr _, _, fs) \<Rightarrow> (Inr (fresh, CM_BindKeystore fresh), fs)))"

record KeystoreAutoBind =
  kab_attempted :: bool

definition on_unbound ::
  "UnlockEnv \<Rightarrow> string \<Rightarrow> KeystoreAutoBind \<Rightarrow> ClientFs \<Rightarrow>
   (ClientError + (bytes \<times> ClientMessageType) option) \<times> KeystoreAutoBind \<times> ClientFs" where
  "on_unbound env addr self fs =
     (if kab_attempted self then (Inr None, self, fs)
      else (let self = self\<lparr>kab_attempted := True\<rparr>;
                (r, fs) = bind_fresh_daemon env addr fs
            in (case r of Inl e \<Rightarrow> Inl e | Inr b \<Rightarrow> Inr (Some b), self, fs)))"

datatype AutoBindAttempt =
    AB_Bind bytes ClientMessageType
  | AB_Suppressed
  | AB_Failed ClientError

definition attempt_keystore_auto_bind ::
  "UnlockEnv \<Rightarrow> string \<Rightarrow> KeystoreAutoBind \<Rightarrow> ClientFs \<Rightarrow> AutoBindAttempt \<times> KeystoreAutoBind \<times> ClientFs" where
  "attempt_keystore_auto_bind env addr bind fs = (case on_unbound env addr bind fs of
     (Inr (Some (key, msg)), bind, fs) \<Rightarrow> (AB_Bind key msg, bind, fs)
   | (Inr None, bind, fs) \<Rightarrow> (AB_Suppressed, bind, fs)
   | (Inl e, bind, fs) \<Rightarrow> (AB_Failed e, bind, fs))"

section \<open>The store keeps its entries apart\<close>

text \<open>
  What the codecs promise: a key survives base64 (the text has nothing to trim), a store
  that can be rendered is read back as it was, and the random key has its size.
\<close>

definition store_laws :: "UnlockEnv \<Rightarrow> bool" where
  "store_laws env \<longleftrightarrow>
     (\<forall>k. length k = 32 \<longrightarrow> ue_b64_decode env (trim (ue_b64_encode env k)) = Inr k) \<and>
     (\<forall>es content. ue_to_toml env es = Inr content \<longrightarrow> ue_from_toml env content = Some es) \<and>
     (\<forall>n. length (ue_random_key env n) = 32)"

lemma decode_key_encode:
  "store_laws env \<Longrightarrow> length k = 32 \<Longrightarrow> decode_key env (encode_key env k) what = Inr k"
  by (simp add: store_laws_def decode_key_def encode_key_def)

definition canonical_key :: "UnlockEnv \<Rightarrow> string option \<Rightarrow> bool" where
  "canonical_key env b64 \<longleftrightarrow> (case b64 of None \<Rightarrow> True | Some s \<Rightarrow> (\<exists>k. length k = 32 \<and> s = encode_key env k))"

definition canonical :: "UnlockEnv \<Rightarrow> KnownServers \<Rightarrow> bool" where
  "canonical env es \<longleftrightarrow> (\<forall>e \<in> set es. canonical_key env (kse_pubkey e) \<and> canonical_key env (kse_unlock_key e))"

lemma decode_length: "decode_key env b64 what = Inr k \<Longrightarrow> length k = 32"
  by (auto simp: decode_key_def split: sum.splits if_splits)

lemma canonical_decoded:
  "canonical_key env (Option.bind b (\<lambda>b64. case decode_key env b64 what of
     Inr key \<Rightarrow> Some (encode_key env key) | Inl _ \<Rightarrow> None))"
proof (cases b)
  case (Some b64)
  then show ?thesis
    by (cases "decode_key env b64 what") (auto simp: canonical_key_def dest: decode_length)
qed (simp add: canonical_key_def)

lemma parse_entry_canonical:
  assumes "parse_entry env e = Some e'"
  shows "canonical_key env (kse_pubkey e') \<and> canonical_key env (kse_unlock_key e')"
proof -
  have "canonical_key env (kse_pubkey e')"
    using assms by (auto simp: parse_entry_def canonical_key_def Let_def split: option.splits sum.splits dest: decode_length)
  moreover have "canonical_key env (kse_unlock_key e')"
    using assms canonical_decoded [of env "kse_unlock_key e" "''unlock_key''"]
    by (auto simp: parse_entry_def Let_def split: option.splits sum.splits)
  ultimately show ?thesis ..
qed

lemma parse_entry_id:
  assumes "store_laws env" "canonical_key env (kse_pubkey e)" "canonical_key env (kse_unlock_key e)"
  shows "parse_entry env e = Some e"
  using assms decode_key_encode [OF assms(1)]
  by (cases e) (auto simp: parse_entry_def canonical_key_def Let_def split: option.splits)

lemma parse_store_canonical: "canonical env (parse_store env content)"
  by (auto simp: parse_store_def canonical_def List.map_filter_def dest: parse_entry_canonical split: option.splits)

lemma reparse:
  assumes "store_laws env" "canonical env es" "ue_to_toml env es = Inr content"
  shows "parse_store env content = es"
proof -
  have "List.map_filter (parse_entry env) es = es"
    using assms(2) by (induction es) (simp_all add: canonical_def parse_entry_id [OF assms(1)] List.map_filter_simps)
  moreover have "ue_from_toml env content = Some es" using assms(1,3) unfolding store_laws_def by blast
  ultimately show ?thesis by (simp add: parse_store_def)
qed

lemma load_canonical: "KnownServers_load env n fs = Inr es \<Longrightarrow> canonical env es"
  using parse_store_canonical [of env]
  by (auto simp: KnownServers_load_def canonical_def split: option.splits)

lemma find_update:
  "(\<And>e. kse_addr (f e) = kse_addr e) \<Longrightarrow>
   find_entry a (update_entry addr f es) = (if a = addr then map_option f (find_entry a es) else find_entry a es)"
  by (induction es) auto

lemma find_append: "find_entry a (es @ [e]) =
    (case find_entry a es of Some x \<Rightarrow> Some x | None \<Rightarrow> if kse_addr e = a then Some e else None)"
  by (induction es) auto

lemma update_entry_set: "e \<in> set (update_entry addr f es) \<Longrightarrow> e \<in> set es \<or> (\<exists>e' \<in> set es. e = f e')"
  by (induction es) (auto split: if_splits)

lemma with_unlock_key_spec:
  assumes "store_laws env" "length key = 32"
  shows "stored_key env a (with_unlock_key env addr key es) = (if a = addr then Inr (Some key) else stored_key env a es)"
    and "lookup_pin env a (with_unlock_key env addr key es) = lookup_pin env a es"
    and "canonical env es \<Longrightarrow> canonical env (with_unlock_key env addr key es)"
proof -
  show "stored_key env a (with_unlock_key env addr key es) = (if a = addr then Inr (Some key) else stored_key env a es)"
    using decode_key_encode [OF assms]
    by (auto simp: with_unlock_key_def stored_key_def find_update find_append split: option.split)
  show "lookup_pin env a (with_unlock_key env addr key es) = lookup_pin env a es"
    by (auto simp: with_unlock_key_def lookup_pin_def find_update find_append split: option.split)
  show "canonical env es \<Longrightarrow> canonical env (with_unlock_key env addr key es)"
    using assms(2) by (auto simp: with_unlock_key_def canonical_def canonical_key_def dest!: update_entry_set)
qed

lemma with_pin_spec:
  assumes "store_laws env" "length pk = 32"
  shows "lookup_pin env a (with_pin env addr pk es) = (if a = addr then Inr (Some pk) else lookup_pin env a es)"
    and "stored_key env a (with_pin env addr pk es) = stored_key env a es"
    and "canonical env es \<Longrightarrow> canonical env (with_pin env addr pk es)"
proof -
  show "lookup_pin env a (with_pin env addr pk es) = (if a = addr then Inr (Some pk) else lookup_pin env a es)"
    using decode_key_encode [OF assms]
    by (auto simp: with_pin_def lookup_pin_def find_update find_append split: option.split)
  show "stored_key env a (with_pin env addr pk es) = stored_key env a es"
    by (auto simp: with_pin_def stored_key_def find_update find_append split: option.split)
  show "canonical env es \<Longrightarrow> canonical env (with_pin env addr pk es)"
    using assms(2) by (auto simp: with_pin_def canonical_def canonical_key_def dest!: update_entry_set)
qed

lemma persist_done:
  "persist env es fs = (Inr (), fs') \<Longrightarrow> \<exists>content. ue_to_toml env es = Inr content \<and> fs' = fs\<lparr>cf_store := Some content\<rparr>"
  by (auto simp: persist_def split: write_outcome.splits sum.splits)

lemma persist_reload:
  assumes "store_laws env" "canonical env es" "persist env es fs = (Inr (), fs')"
    and "ue_path_fault env = None" "ue_read_fault env n call = None"
  shows "KnownServers_load env call (fs'\<lparr>cf_tick := n\<rparr>) = Inr es"
  using persist_done [OF assms(3)] reparse [OF assms(1,2)] assms(4,5) by (auto simp: KnownServers_load_def)

section \<open>Both halves together\<close>

lemma set_unlock_key_done:
  assumes "set_unlock_key env addr key es fs = (Inr (), es', fs')"
  shows "es' = with_unlock_key env addr key es \<and> persist env es' fs = (Inr (), fs')"
  using assms by (auto simp: set_unlock_key_def Let_def split: prod.splits)

lemma recorded_key_read_back:
  assumes laws: "store_laws env" and key: "length key = 32" and load: "KnownServers_load env c fs = Inr es"
    and set: "set_unlock_key env addr key es fs = (Inr (), es', fs')"
    and read: "ue_path_fault env = None" "ue_read_fault env n 0 = None"
  shows "stored_unlock_key env addr (fs'\<lparr>cf_tick := n\<rparr>) = Some key"
proof -
  note done' = set_unlock_key_done [OF set]
  have "canonical env es'"
    using with_unlock_key_spec(3) [OF laws key load_canonical [OF load]] done' by simp
  then have "KnownServers_load env 0 (fs'\<lparr>cf_tick := n\<rparr>) = Inr es'"
    using persist_reload [OF laws] done' read by blast
  then show ?thesis
    using with_unlock_key_spec(1) [OF laws key] done' by (simp add: stored_unlock_key_def)
qed

lemma auto_bind_cases:
  assumes "attempt_keystore_auto_bind env addr bind fs = (AB_Bind key msg, bind', fs')"
  obtains es es' where "KnownServers_load env 0 fs = Inr es"
    "set_unlock_key env addr key es fs = (Inr (), es', fs')" "key = ue_random_key env (cf_tick fs)"
    "msg = CM_BindKeystore key" "\<not> kab_attempted bind" "kab_attempted bind'"
proof (cases "KnownServers_load env 0 fs")
  case (Inl e)
  then show ?thesis
    using assms by (simp add: attempt_keystore_auto_bind_def on_unbound_def bind_fresh_daemon_def split: if_splits)
next
  case (Inr es)
  obtain r es' fs1 where set: "set_unlock_key env addr (ue_random_key env (cf_tick fs)) es fs = (r, es', fs1)"
    by (cases "set_unlock_key env addr (ue_random_key env (cf_tick fs)) es fs")
  show ?thesis
  proof (cases "kab_attempted bind \<or> isl r")
    case True
    then show ?thesis
      using assms by (cases r)
        (auto simp: attempt_keystore_auto_bind_def on_unbound_def bind_fresh_daemon_def Inr set split: if_splits)
  next
    case False
    then have "r = Inr ()" "\<not> kab_attempted bind" by (cases r; simp)+
    then show ?thesis
      using assms by (intro that [of es es'])
        (auto simp: attempt_keystore_auto_bind_def on_unbound_def bind_fresh_daemon_def Inr set Let_def)
  qed
qed

text \<open>
  Pins and unlock keys do not disturb each other: after recording an unlock key for
  an address, what is read back from the store has that key there, the pin of every
  address as it was, and the unlock key of every other address as it was; pinning a
  server key does the same with the two exchanged.
\<close>

theorem store_keeps_entries_apart:
  assumes laws: "store_laws env" and key: "length key = 32" and load: "KnownServers_load env c fs = Inr es"
    and read: "ue_path_fault env = None" "ue_read_fault env n c' = None"
  shows "(\<forall>es' fs'. set_unlock_key env addr key es fs = (Inr (), es', fs') \<longrightarrow>
      (\<exists>store. KnownServers_load env c' (fs'\<lparr>cf_tick := n\<rparr>) = Inr store \<and>
        (\<forall>a. lookup_pin env a store = lookup_pin env a es \<and>
          stored_key env a store = (if a = addr then Inr (Some key) else stored_key env a es)))) \<and>
    (\<forall>es' fs'. pin env addr key es fs = (Inr (), es', fs') \<longrightarrow>
      (\<exists>store. KnownServers_load env c' (fs'\<lparr>cf_tick := n\<rparr>) = Inr store \<and>
        (\<forall>a. stored_key env a store = stored_key env a es \<and>
          lookup_pin env a store = (if a = addr then Inr (Some key) else lookup_pin env a es))))"
proof (intro conjI allI impI)
  fix es' fs'
  assume "set_unlock_key env addr key es fs = (Inr (), es', fs')"
  note done' = set_unlock_key_done [OF this]
  have "canonical env es'" using with_unlock_key_spec(3) [OF laws key load_canonical [OF load]] done' by simp
  then have "KnownServers_load env c' (fs'\<lparr>cf_tick := n\<rparr>) = Inr es'"
    using persist_reload [OF laws] done' read by blast
  then show "\<exists>store. KnownServers_load env c' (fs'\<lparr>cf_tick := n\<rparr>) = Inr store \<and>
      (\<forall>a. lookup_pin env a store = lookup_pin env a es \<and>
        stored_key env a store = (if a = addr then Inr (Some key) else stored_key env a es))"
    using with_unlock_key_spec(1,2) [OF laws key] done' by auto
next
  fix es' fs'
  assume "pin env addr key es fs = (Inr (), es', fs')"
  then have done': "es' = with_pin env addr key es" "persist env es' fs = (Inr (), fs')"
    by (auto simp: pin_def Let_def split: prod.splits)
  have "canonical env es'" using with_pin_spec(3) [OF laws key load_canonical [OF load]] done' by simp
  then have "KnownServers_load env c' (fs'\<lparr>cf_tick := n\<rparr>) = Inr es'"
    using persist_reload [OF laws] done' read by blast
  then show "\<exists>store. KnownServers_load env c' (fs'\<lparr>cf_tick := n\<rparr>) = Inr store \<and>
      (\<forall>a. stored_key env a store = stored_key env a es \<and>
        lookup_pin env a store = (if a = addr then Inr (Some key) else lookup_pin env a es))"
    using with_pin_spec(1,2) [OF laws key] done' by auto
qed


text \<open>
  C40. A wrong report of an unbound keystore costs the client its key: when a daemon that
  is bound tells its client that it has no binding, the client stores a fresh key in the
  place of the one that is bound before it sends it; the daemon keeps its binding and
  refuses, and the key the client finds from then on does not unlock it.
\<close>

theorem unbound_report_loses_the_key:
  assumes laws: "store_laws uenv" and bound: "va_binding v = Some (ke_public env k)" "length (ke_public env k) = 32"
    and reported: "current_keystore_message (dm_state (va_daemon v)) = DaemonMessage_broadcast (DM_Keystore KS_Unbound)"
    and stored: "stored_unlock_key uenv addr fs = Some k"
    and attempt: "attempt_keystore_auto_bind uenv addr bind fs = (AB_Bind fresh msg, bind', fs')"
    and other: "ke_public env fresh \<noteq> ke_public env k"
    and read: "ue_path_fault uenv = None" "ue_read_fault uenv n 0 = None"
  shows "fst (try_auto_unlock_key uenv addr (fs'\<lparr>cf_tick := n\<rparr>)) = Some fresh \<and>
    va_binding (vault_run env cmds v) = Some (ke_public env k) \<and>
    isl (fst (handle_unlock_inner env fresh (vault_run env cmds v))) \<and>
    isl (fst (handle_bind_keystore_inner env fresh (vault_run env cmds v)))"
proof -
  obtain es es' where b: "KnownServers_load uenv 0 fs = Inr es"
    "set_unlock_key uenv addr fresh es fs = (Inr (), es', fs')" "fresh = ue_random_key uenv (cf_tick fs)"
    by (rule auto_bind_cases [OF attempt])
  have fresh: "length fresh = 32" using laws b(3) by (simp add: store_laws_def)
  have again: "stored_unlock_key uenv addr (fs'\<lparr>cf_tick := n\<rparr>) = Some fresh"
    by (rule recorded_key_read_back [OF laws fresh b(1,2) read])
  have kept: "va_binding (vault_run env cmds v) = Some (ke_public env k)"
    using bound(1) by (induction cmds arbitrary: v) (simp_all add: vault_run_def binding_kept [OF _ bound(2)])
  then have "isl (fst (handle_unlock_inner env fresh (vault_run env cmds v)))"
    using verify_cases [of env fresh "vault_run env cmds v"] other
    by (auto simp: handle_unlock_inner_def key_of_def split: sum.splits)
  moreover have "isl (fst (handle_bind_keystore_inner env fresh (vault_run env cmds v)))"
    using kept other bound(2)
    by (cases rule: bind_keystore_cases [of env fresh "vault_run env cmds v"])
       (auto simp: handle_bind_keystore_inner_def key_of_def)
  ultimately show ?thesis
    using again kept by (simp add: try_auto_unlock_key_def stored_or_adopted_unlock_key_def)
qed

section \<open>A client with one daemon\<close>

text \<open>A key is written as two letters a byte, and a store holds the key of one daemon.\<close>

definition letters :: "bytes \<Rightarrow> string" where
  "letters k = concat (map (\<lambda>b. [char_of (97 + unat b div 16), char_of (97 + unat b mod 16)]) k)"

fun of_letters :: "string \<Rightarrow> bytes" where
  "of_letters (a # b # r) = word_of_nat ((of_char a - 97) * 16 + (of_char b - 97)) # of_letters r"
| "of_letters _ = []"

definition sample_unlock_env :: UnlockEnv where
  "sample_unlock_env = \<lparr>ue_b64_encode = letters, ue_b64_decode = (\<lambda>s. Inr (of_letters s)),
     ue_from_toml = (\<lambda>t. Some [\<lparr>kse_addr = ''d'', kse_pubkey = None, kse_unlock_key = Some t\<rparr>]),
     ue_to_toml = (\<lambda>es. case es of
         [e] \<Rightarrow> (case kse_unlock_key e of
             Some t \<Rightarrow> if kse_addr e = ''d'' \<and> kse_pubkey e = None then Inr t else Inl ''unsupported''
           | None \<Rightarrow> Inl ''unsupported'')
       | _ \<Rightarrow> Inl ''unsupported''),
     ue_path_fault = None, ue_read_fault = (\<lambda>_ _. None), ue_write = (\<lambda>_. WO_Done),
     ue_random_key = (\<lambda>_. replicate 32 9)\<rparr>"

lemma letter_small:
  fixes b :: u8
  shows "unat b div 16 < 16" "unat b mod 16 < 16"
  using unsigned_less [of b, where 'a = nat] by simp_all

lemma of_letters_letters: "of_letters (letters k) = k"
proof (induction k)
  case (Cons b k)
  have "of_char (char_of (97 + n) :: char) = (97 + n :: nat)" if "n < 16" for n
    using that by (simp add: of_char_of)
  then show ?case
    using Cons letter_small [of b] by (simp add: letters_def div_mult_mod_eq)
qed (simp add: letters_def)

lemma letter_vals: "list_all (\<lambda>c. 97 \<le> c \<and> c < 113) (str_vals (letters k))"
proof (induction k)
  case (Cons b k)
  then show ?case using letter_small [of b] by (simp add: letters_def str_vals_def of_char_of)
qed (simp add: letters_def str_vals_def)

lemma trim_letters: "trim (letters k) = letters k"
proof -
  have vals: "c \<in> set (str_vals (letters k)) \<Longrightarrow> 97 \<le> c \<and> c < 113" for c
    using letter_vals [of k] by (simp add: list_all_iff)
  then have ascii: "list_all (\<lambda>b. b < 0x80) (str_vals (letters k))" by (force simp: list_all_iff)
  have "\<not> is_whitespace c" if "c \<in> set (str_vals (letters k))" for c
    using vals [OF that] by (simp add: is_whitespace_def)
  then have keep: "dropWhile is_whitespace xs = xs" if "set xs \<subseteq> set (str_vals (letters k))" for xs
    using that by (cases xs) auto
  show ?thesis
    by (simp add: trim_def trim_scalars_def ascii_chars(1) [OF ascii] keep str_of_chars_def encode_ascii [OF ascii]
        str_vals_inverse)
qed

lemma sample_store_laws: "store_laws sample_unlock_env"
  by (auto simp: store_laws_def sample_unlock_env_def trim_letters of_letters_letters
      split: list.splits option.splits if_splits)

text \<open>The client has the key \<open>k\<close> for its daemon.\<close>

definition sample_store :: "bytes \<Rightarrow> ClientFs" where
  "sample_store k = \<lparr>cf_store = Some (letters k), cf_legacy = Inl ''absent'', cf_tick = 0\<rparr>"

lemma sample_store_load:
  "length k = 32 \<Longrightarrow> KnownServers_load sample_unlock_env n (sample_store k) =
     Inr [\<lparr>kse_addr = ''d'', kse_pubkey = None, kse_unlock_key = Some (letters k)\<rparr>]"
  by (simp add: KnownServers_load_def sample_store_def sample_unlock_env_def parse_store_def List.map_filter_simps
      parse_entry_def decode_key_def encode_key_def trim_letters of_letters_letters)

lemma sample_record:
  "length k = 32 \<Longrightarrow> set_unlock_key sample_unlock_env ''d'' k' [\<lparr>kse_addr = ''d'', kse_pubkey = None,
     kse_unlock_key = Some t\<rparr>] (sample_store k) =
   (Inr (), [\<lparr>kse_addr = ''d'', kse_pubkey = None, kse_unlock_key = Some (letters k')\<rparr>], sample_store k')"
  by (simp add: set_unlock_key_def with_unlock_key_def encode_key_def persist_def sample_unlock_env_def sample_store_def)

lemma sample_attempt:
  "attempt_keystore_auto_bind sample_unlock_env ''d'' \<lparr>kab_attempted = False\<rparr> (sample_store sample_secret) =
     (AB_Bind (replicate 32 9) (CM_BindKeystore (replicate 32 9)), \<lparr>kab_attempted = True\<rparr>, sample_store (replicate 32 9))"
proof -
  have random: "ue_random_key sample_unlock_env n = replicate 32 9" for n by (simp add: sample_unlock_env_def)
  show ?thesis
    by (simp add: attempt_keystore_auto_bind_def on_unbound_def bind_fresh_daemon_def Let_def random
        sample_store_load sample_record)
qed

theorem store_keeps_entries_apart_witness:
  "\<exists>store. KnownServers_load sample_unlock_env 0 ((sample_store (replicate 32 5))\<lparr>cf_tick := 1\<rparr>) = Inr store \<and>
     stored_key sample_unlock_env ''d'' store = Inr (Some (replicate 32 5))"
proof -
  have path: "ue_path_fault sample_unlock_env = None" "ue_read_fault sample_unlock_env 1 0 = None"
    by (simp_all add: sample_unlock_env_def)
  have "length (replicate 32 5 :: bytes) = 32" "length sample_secret = 32" by simp_all
  from store_keeps_entries_apart [OF sample_store_laws this(1) sample_store_load [OF this(2)] path,
      of "''d''"] sample_record [OF this(2), of "replicate 32 5"]
  show ?thesis by (metis (full_types))
qed


theorem unbound_report_loses_the_key_witness:
  "fst (try_auto_unlock_key sample_unlock_env ''d'' ((sample_store (replicate 32 9))\<lparr>cf_tick := 1\<rparr>)) = Some (replicate 32 9)"
proof -
  let ?v = "on_state (\<lambda>s. s\<lparr>ds_keystore_bound := False\<rparr>) (Vault_open sample_key_env sample_loop (Some sample_secret) [])"
  have "va_binding ?v = Some (ke_public sample_key_env sample_secret)" by (simp add: Vault_open_def Let_def)
  moreover have "current_keystore_message (dm_state (va_daemon ?v)) = DaemonMessage_broadcast (DM_Keystore KS_Unbound)"
    by (simp add: current_keystore_message_def)
  moreover have "stored_unlock_key sample_unlock_env ''d'' (sample_store sample_secret) = Some sample_secret"
    by (simp add: stored_unlock_key_def sample_store_load stored_key_def)
       (simp add: decode_key_def sample_unlock_env_def trim_letters of_letters_letters)
  moreover have "ue_path_fault sample_unlock_env = None" "ue_read_fault sample_unlock_env 1 0 = None"
    by (simp_all add: sample_unlock_env_def)
  ultimately show ?thesis
    using unbound_report_loses_the_key [OF sample_store_laws _ _ _ _ sample_attempt, where v = ?v and env = sample_key_env and n = 1 and k = sample_secret]
    by simp
qed

end
