(* ===== verification/Url_Form.thy ===== *)
theory Url_Form
  imports Str_Search Provider_Retry
begin

text \<open>
  The helpers every OAuth request shares: the form encoding of a request body and its
  decoder (\<open>src/choreo-shared/src/form.rs\<close>), the policy that says which endpoints may be
  sent a secret (\<open>oauth_endpoint.rs\<close>) and joining a URL with a path (\<open>url.rs\<close>). Strings
  are their UTF-8 bytes, which is what the encoder walks.
\<close>

unbundle bit_operations_syntax

section \<open>Form encoding (form.rs)\<close>

definition byte_of :: "char \<Rightarrow> u8" where
  "byte_of c = of_nat (of_char c)"

definition char_of_byte :: "u8 \<Rightarrow> char" where
  "char_of_byte b = char_of (unat b)"

definition hex_char :: "u8 \<Rightarrow> char" where
  "hex_char nibble = (let n = unat (nibble AND 0x0F) in char_of (if n < 10 then 48 + n else 55 + n :: nat))"

definition hex_value :: "u8 \<Rightarrow> u8 option" where
  "hex_value byte =
     (if 48 \<le> byte \<and> byte \<le> 57 then Some (byte - 48)
      else if 97 \<le> byte \<and> byte \<le> 102 then Some (byte - 97 + 10)
      else if 65 \<le> byte \<and> byte \<le> 70 then Some (byte - 65 + 10)
      else None)"

definition is_unreserved :: "u8 \<Rightarrow> bool" where
  "is_unreserved b \<longleftrightarrow> 65 \<le> b \<and> b \<le> 90 \<or> 97 \<le> b \<and> b \<le> 122 \<or> 48 \<le> b \<and> b \<le> 57 \<or> b \<in> {45, 95, 46, 126}"

fun encode_into :: "bool \<Rightarrow> string \<Rightarrow> string" where
  "encode_into space_as_plus [] = []"
| "encode_into space_as_plus (c # value) =
     (let byte = byte_of c in
      if is_unreserved byte then [c]
      else if byte = 32 then (if space_as_plus then ''+'' else ''%20'')
      else [CHR ''%'', hex_char (drop_bit 4 byte), hex_char (byte AND 0x0F)]) @ encode_into space_as_plus value"

definition percent_encode :: "string \<Rightarrow> string" where
  "percent_encode value = encode_into True value"

definition encode_pair :: "string \<times> string \<Rightarrow> string" where
  "encode_pair pair = encode_into False (fst pair) @ ''='' @ encode_into False (snd pair)"

definition form_encode :: "(string \<times> string) list \<Rightarrow> string" where
  "form_encode params = join ''&'' (map encode_pair params)"

fun decode_bytes :: "bytes \<Rightarrow> bytes" where
  "decode_bytes [] = []"
| "decode_bytes (byte # rest) =
     (if byte = 43 then 32 # decode_bytes rest
      else if byte = 37 then (case rest of
          hi # lo # tail \<Rightarrow> (case (hex_value hi, hex_value lo) of
            (Some h, Some l) \<Rightarrow> (push_bit 4 h OR l) # decode_bytes tail
          | _ \<Rightarrow> 37 # decode_bytes rest)
        | _ \<Rightarrow> 37 # decode_bytes rest)
      else byte # decode_bytes rest)"

definition percent_decode :: "string \<Rightarrow> string" where
  "percent_decode input = from_utf8_lossy (decode_bytes (map byte_of input))"

definition parse_pair :: "string \<Rightarrow> (string \<times> string) option" where
  "parse_pair pair = map_option (\<lambda>(key, value). (percent_decode key, percent_decode value)) (split_once (CHR ''='') pair)"

definition parse_query :: "string \<Rightarrow> (string \<times> string) list" where
  "parse_query query = List.map_filter parse_pair (filter (\<lambda>pair. pair \<noteq> []) (str_split ''&'' query))"

section \<open>Endpoints (oauth_endpoint.rs, url.rs)\<close>

definition loopback_http_host :: "string \<Rightarrow> string option" where
  "loopback_http_host url_lower = (case str_strip_prefix ''http://'' url_lower of
     None \<Rightarrow> None
   | Some rest \<Rightarrow>
       (let authority = hd (str_split ''/'' rest) in
        if CHR ''@'' \<in> set authority then None
        else (case (case str_strip_prefix ''['' authority of
                Some after_bracket \<Rightarrow> map_option fst (split_once (CHR '']'') after_bracket)
              | None \<Rightarrow> Some (hd (str_split '':'' authority))) of
            None \<Rightarrow> None
          | Some host \<Rightarrow> if host \<in> {''127.0.0.1'', ''localhost'', ''::1''} then Some host else None)))"

definition is_secure_endpoint_with :: "string \<Rightarrow> bool \<Rightarrow> bool" where
  "is_secure_endpoint_with url allow_loopback_http =
     (let lower = to_ascii_lowercase url in
      if str_strip_prefix ''https://'' lower \<noteq> None then True
      else allow_loopback_http \<and> loopback_http_host lower \<noteq> None)"

definition is_secure_endpoint :: "string \<Rightarrow> bool" where
  "is_secure_endpoint url = is_secure_endpoint_with url True"

definition is_loopback_endpoint :: "string \<Rightarrow> bool" where
  "is_loopback_endpoint url \<longleftrightarrow> loopback_http_host (to_ascii_lowercase url) \<noteq> None"

definition strip_one_trailing_slash :: "string \<Rightarrow> string" where
  "strip_one_trailing_slash url = (if url \<noteq> [] \<and> last url = CHR ''/'' then butlast url else url)"

definition issuers_match :: "string \<Rightarrow> string \<Rightarrow> bool" where
  "issuers_match expected actual \<longleftrightarrow> strip_one_trailing_slash expected = strip_one_trailing_slash actual"

definition url_join_path :: "string \<Rightarrow> string \<Rightarrow> string" where
  "url_join_path base path =
     (let base = rev (dropWhile (\<lambda>c. c = CHR ''/'') (rev base)) in
      if str_strip_prefix ''/'' path \<noteq> None then base @ path else base @ ''/'' @ path)"

section \<open>Round trip of a form\<close>

lemma byte_of_inject: "byte_of c = byte_of d \<longleftrightarrow> c = d"
proof -
  have "unat (byte_of c) = of_char c" for c
    by (simp add: byte_of_def unat_of_nat take_bit_nat_def of_char_mod_256 [where 'a = nat])
  then show ?thesis by (metis char_of_char)
qed

lemma hex_value_hex_char: "hex_value (byte_of (hex_char n)) = Some (n AND 0x0F)"
proof -
  have "list_all (\<lambda>i. hex_value (byte_of (hex_char (word_of_nat i))) = Some (word_of_nat i AND 0x0F)) [0..<16]"
    by (simp add: hex_char_def byte_of_def hex_value_def Let_def upt_rec)
  then have all: "hex_value (byte_of (hex_char (word_of_nat i))) = Some (word_of_nat i AND 0x0F)" if "i < 16" for i
    using that by (simp add: list_all_iff)
  have "n AND 0x0F = (word_of_nat (unat (n AND 0x0F)) :: u8)" by simp
  moreover have "hex_char (n AND 0x0F) = hex_char n" by (simp add: hex_char_def and.assoc)
  moreover have "unat (n AND 0x0F) < 16"
    using word_and_le1 [of n "0x0F"] by (simp add: word_le_nat_alt)
  ultimately show ?thesis using all [of "unat (n AND 0x0F)"] by (simp add: and.assoc)
qed

lemma nibbles: "push_bit 4 (drop_bit 4 b AND 0x0F) OR (b AND 0x0F AND 0x0F) = (b :: u8)"
proof (rule bit_eqI)
  fix n :: nat
  have m: "(0x0F :: u8) = mask 4" by (simp add: mask_eq_exp_minus_1)
  assume "possible_bit TYPE(u8) n"
  then show "bit (push_bit 4 (drop_bit 4 b AND 0x0F) OR (b AND 0x0F AND 0x0F)) n = bit b n"
    unfolding m by (auto simp: bit_or_iff bit_and_iff bit_push_bit_iff bit_drop_bit_eq bit_mask_iff possible_bit_def)
qed

lemma decode_encode_bytes:
  "decode_bytes (map byte_of (encode_into b s @ r)) = map byte_of s @ decode_bytes (map byte_of r)"
proof (induction s)
  case (Cons c s)
  have plain: "\<not> is_unreserved 43" "\<not> is_unreserved 37" by (simp_all add: is_unreserved_def)
  have sp: "byte_of (CHR ''+'') = 43" "byte_of (CHR ''%'') = 37" "byte_of (CHR ''2'') = 50" "byte_of (CHR ''0'') = 48"
    by (simp_all add: byte_of_def)
  consider "is_unreserved (byte_of c)" | "\<not> is_unreserved (byte_of c)" "byte_of c = 32"
    | "\<not> is_unreserved (byte_of c)" "byte_of c \<noteq> 32" by blast
  then show ?case
  proof cases
    case 1
    then have "byte_of c \<noteq> 43" "byte_of c \<noteq> 37" using plain by auto
    then show ?thesis using 1 Cons by simp
  next
    case 2
    then show ?thesis using Cons by (cases b) (simp_all add: sp hex_value_def)
  next
    case 3
    then show ?thesis using Cons nibbles [of "byte_of c"] by (simp add: sp hex_value_hex_char Let_def)
  qed
qed simp

lemma percent_decode_encode:
  assumes "valid_str s"
  shows "percent_decode (encode_into b s) = s"
proof -
  have "unat (byte_of c) = of_char c" for c
    by (simp add: byte_of_def unat_of_nat take_bit_nat_def of_char_mod_256 [where 'a = nat])
  then have "byte_vals (map byte_of s) = str_vals s" by (simp add: byte_vals_def str_vals_def)
  then show ?thesis
    using assms decode_encode_bytes [of b s "[]"]
    by (simp add: percent_decode_def from_utf8_lossy_def valid_str_def chars_def)
qed

text \<open>What the encoder writes contains none of the separators of a form.\<close>

lemma hex_char_plain: "hex_char n \<noteq> CHR ''&'' \<and> hex_char n \<noteq> CHR ''=''"
proof -
  have "byte_of (hex_char n) \<noteq> byte_of (CHR ''&'')" "byte_of (hex_char n) \<noteq> byte_of (CHR ''='')"
    using hex_value_hex_char [of n] by (auto simp: hex_value_def byte_of_def)
  then show ?thesis by auto
qed

lemma encoded_plain: "c \<in> set (encode_into b s) \<Longrightarrow> c \<noteq> CHR ''&'' \<and> c \<noteq> CHR ''=''"
proof (induction s)
  case (Cons d s)
  have "\<not> is_unreserved (byte_of (CHR ''&''))" "\<not> is_unreserved (byte_of (CHR ''=''))"
    by (simp_all add: is_unreserved_def byte_of_def)
  then have "is_unreserved (byte_of d) \<Longrightarrow> d \<noteq> CHR ''&'' \<and> d \<noteq> CHR ''=''" by auto
  then show ?case using Cons hex_char_plain by (auto simp: Let_def split: if_splits)
qed simp

lemma str_split_plain: "c \<notin> set s \<Longrightarrow> str_split [c] s = [s]"
  by (induction s) (auto simp: str_split.simps(2))

lemma str_split_cut: "c \<notin> set p \<Longrightarrow> str_split [c] (p @ c # s) = p # str_split [c] s"
  by (induction p) (auto simp: str_split.simps(2))

lemma str_split_join:
  "ps \<noteq> [] \<Longrightarrow> \<forall>p \<in> set ps. c \<notin> set p \<Longrightarrow> str_split [c] (join [c] ps) = ps"
proof (induction ps)
  case (Cons p ps)
  show ?case
  proof (cases "ps = []")
    case True
    then show ?thesis using Cons.prems by (simp add: str_split_plain)
  next
    case False
    then show ?thesis using Cons by (simp add: join_Cons str_split_cut)
  qed
qed simp

lemma split_once_cut: "c \<notin> set p \<Longrightarrow> split_once c (p @ c # s) = Some (p, s)"
  by (induction p) (auto simp: split_once_def)

lemma parse_encoded_pair:
  assumes "valid_str (fst pair)" and "valid_str (snd pair)"
  shows "parse_pair (encode_pair pair) = Some pair"
proof -
  have "CHR ''='' \<notin> set (encode_into False (fst pair))" using encoded_plain by blast
  then show ?thesis by (simp add: parse_pair_def encode_pair_def split_once_cut percent_decode_encode assms)
qed

lemma encode_pair_plain: "CHR ''&'' \<notin> set (encode_pair pair)" "encode_pair pair \<noteq> []"
  using encoded_plain by (auto simp: encode_pair_def)

text \<open>
  Decoding a form gives back the pairs it was encoded from, whatever bytes their texts
  have, the separators of the format among them.
\<close>

theorem form_roundtrip:
  assumes "list_all (\<lambda>(key, value). valid_str key \<and> valid_str value) params"
  shows "parse_query (form_encode params) = params"
proof (cases "params = []")
  case False
  have "str_split ''&'' (form_encode params) = map encode_pair params"
    unfolding form_encode_def by (rule str_split_join) (use False encode_pair_plain in auto)
  moreover have "filter (\<lambda>pair. pair \<noteq> []) (map encode_pair params) = map encode_pair params"
    by (rule filter_True) (auto simp: encode_pair_plain)
  ultimately have "parse_query (form_encode params) = List.map_filter parse_pair (map encode_pair params)"
    by (simp add: parse_query_def)
  also have "\<dots> = params"
    using assms by (induction params) (auto simp: List.map_filter_simps parse_encoded_pair)
  finally show ?thesis .
qed (simp add: parse_query_def form_encode_def List.map_filter_simps)

text \<open>A component encoded for HTTP Basic authentication decodes to itself too.\<close>

theorem basic_component_roundtrip: "valid_str value \<Longrightarrow> percent_decode (percent_encode value) = value"
  by (simp add: percent_encode_def percent_decode_encode)

section \<open>Secrets leave over secure connections only\<close>

lemma strip_prefix_Some: "str_strip_prefix p s = Some r \<longleftrightarrow> s = p @ r"
  by (auto simp: str_strip_prefix_def) (metis append_take_drop_id)

lemma hd_str_split: "\<exists>r. s = hd (str_split [c] s) @ r \<and> (r = [] \<or> hd r = c)"
proof (cases "c \<in> set s")
  case True
  then obtain p q where "s = p @ c # q" "c \<notin> set p" by (meson split_list_first)
  then show ?thesis by (auto simp: str_split_cut)
qed (simp add: str_split_plain)

lemma split_once_SomeD: "split_once c s = Some (p, q) \<Longrightarrow> s = p @ c # q"
proof -
  assume cut: "split_once c s = Some (p, q)"
  then have "c \<in> set s" by (auto simp: split_once_def split: if_splits)
  then obtain p' q' where "s = p' @ c # q'" "c \<notin> set p'" by (meson split_list_first)
  then show ?thesis using cut split_once_cut by auto
qed

definition loopback_hosts :: "string set" where
  "loopback_hosts = {''127.0.0.1'', ''localhost'', ''::1''}"

lemma loopback_host_url:
  assumes "loopback_http_host l = Some host"
  obtains authority r where "l = ''http://'' @ authority @ r" "r = [] \<or> hd r = CHR ''/''"
    "CHR ''@'' \<notin> set authority" "host \<in> loopback_hosts"
    "(\<exists>p. authority = ''['' @ host @ '']'' @ p) \<or> (\<exists>p. authority = host @ p \<and> (p = [] \<or> hd p = CHR '':''))"
proof -
  obtain rest where l: "l = ''http://'' @ rest" and "loopback_http_host (''http://'' @ rest) = Some host"
    using assms by (auto simp: loopback_http_host_def strip_prefix_Some split: option.splits)
  moreover define authority where "authority = hd (str_split ''/'' rest)"
  moreover have "str_strip_prefix ''http://'' (''http://'' @ rest) = Some rest" by (simp add: strip_prefix_Some)
  ultimately have at: "CHR ''@'' \<notin> set authority" and host: "host \<in> loopback_hosts"
    and cut: "(case str_strip_prefix ''['' authority of
        Some after \<Rightarrow> map_option fst (split_once (CHR '']'') after)
      | None \<Rightarrow> Some (hd (str_split '':'' authority))) = Some host"
    by (auto simp: loopback_http_host_def loopback_hosts_def Let_def split: if_splits option.splits)
  obtain r where rest: "rest = authority @ r" "r = [] \<or> hd r = CHR ''/''"
    unfolding authority_def using hd_str_split [of rest "CHR ''/''"] by blast
  show ?thesis
  proof (rule that [OF _ rest(2) at host])
    show "l = ''http://'' @ authority @ r" by (simp add: l rest(1))
    show "(\<exists>p. authority = ''['' @ host @ '']'' @ p) \<or> (\<exists>p. authority = host @ p \<and> (p = [] \<or> hd p = CHR '':''))"
    proof (cases "str_strip_prefix ''['' authority")
      case None
      then have "host = hd (str_split '':'' authority)" using cut by simp
      then show ?thesis using hd_str_split [of authority "CHR '':''"] by blast
    next
      case (Some after)
      then obtain q where "split_once (CHR '']'') after = Some (host, q)" using cut by auto
      then show ?thesis using Some split_once_SomeD [of _ after host q] by (auto simp: strip_prefix_Some)
    qed
  qed
qed

text \<open>
  An endpoint that passes the policy is an \<open>https\<close> URL, or an \<open>http\<close> URL whose host is
  exactly a loopback name, with no user part in front of it that would make another
  host the real one; without the loopback allowance only the first.
\<close>

theorem secure_endpoint_sound:
  assumes "is_secure_endpoint_with url loopback"
  shows "(\<exists>r. to_ascii_lowercase url = ''https://'' @ r) \<or>
    (loopback \<and> (\<exists>authority r host. to_ascii_lowercase url = ''http://'' @ authority @ r \<and> (r = [] \<or> hd r = CHR ''/'') \<and>
       CHR ''@'' \<notin> set authority \<and> host \<in> loopback_hosts \<and>
       ((\<exists>p. authority = ''['' @ host @ '']'' @ p) \<or> (\<exists>p. authority = host @ p \<and> (p = [] \<or> hd p = CHR '':'')))))"
proof (cases "str_strip_prefix ''https://'' (to_ascii_lowercase url)")
  case None
  then obtain host where "loopback" "loopback_http_host (to_ascii_lowercase url) = Some host"
    using assms by (auto simp: is_secure_endpoint_with_def Let_def)
  then show ?thesis by (elim loopback_host_url) blast
next
  case (Some r)
  then show ?thesis by (auto simp: strip_prefix_Some)
qed

end
