(* ===== verification/OAuth_Refresh.thy ===== *)
theory OAuth_Refresh
  imports Keystore_Safe Url_Form File_Locks
begin

text \<open>
  Refreshing the access token of a provider account: the exchange with the token
  endpoint (\<open>src/choreo-ai-protocols/src/oauth\<close>, \<open>src/choreo-shared/src/oauth_token.rs\<close>), the
  sequence that loads the grant, exchanges it and stores what comes back
  (\<open>src/choreo-daemon/src/oauth_refresh\<close>), and the registry of locks that lets one refresh
  of a credential run at a time (\<open>oauth_refresh_locks.rs\<close>). The daemon's side of it is the
  keystore of the theory \<open>Keystore\<close>.

  The HTTP client, the JSON parser and printer and the decoder of identity claims are
  parameters, in the record \<open>TokenNet\<close>. Any number of sessions refresh at the same time,
  interleaved with every other command to the keystore and with the MCP connections that
  use the same locks; every locked region and every command is one step. Commands reach
  the daemon in the order they are sent, so a command takes effect in the step that
  sends it.
\<close>

section \<open>The token endpoint's reply (oauth_token.rs)\<close>

text \<open>A JSON value as far as \<open>expires_in\<close> tells them apart.\<close>

datatype expires_value = EX_Number "u64 option" | EX_String string | EX_Other

definition deserialize_expires_in :: "expires_value option \<Rightarrow> u64 option" where
  "deserialize_expires_in v = (case v of
     Some (EX_Number n) \<Rightarrow> n
   | Some (EX_String s) \<Rightarrow> parse_u64 (trim s)
   | _ \<Rightarrow> None)"

record TokenResponse =
  tr_access_token :: "string option"
  tr_refresh_token :: "string option"
  tr_id_token :: "string option"
  tr_token_type :: "string option"
  tr_scope :: "string option"
  tr_expires_in :: "expires_value option"
  tr_error :: "string option"
  tr_error_description :: "string option"

record TokenSet =
  ts_access_token :: string
  ts_refresh_token :: "string option"
  ts_id_token :: "string option"
  ts_token_type :: "string option"
  ts_scope :: "string option"
  ts_expires_in :: "u64 option"

definition TokenSet_from_response :: "TokenResponse \<Rightarrow> TokenSet option" where
  "TokenSet_from_response parsed = (case tr_access_token parsed of
     None \<Rightarrow> None
   | Some access_token \<Rightarrow> Some \<lparr>ts_access_token = access_token, ts_refresh_token = tr_refresh_token parsed,
       ts_id_token = tr_id_token parsed, ts_token_type = tr_token_type parsed, ts_scope = tr_scope parsed,
       ts_expires_in = deserialize_expires_in (tr_expires_in parsed)\<rparr>)"

section \<open>The exchange (choreo-ai-protocols/src/oauth)\<close>

record OAuthRefreshRequest =
  rq_token_endpoint :: string
  rq_encoding :: OAuthGrantEncoding
  rq_client_id :: "string option"
  rq_client_secret :: "string option"
  rq_refresh_token :: string
  rq_scopes :: "string list"

record RefreshBody =
  rb_grant_type :: string
  rb_refresh_token :: string
  rb_client_id :: "string option"
  rb_client_secret :: "string option"
  rb_scope :: "string option"

datatype OAuthRefreshError = OE_Terminal string | OE_Transient string | OE_InsecureEndpoint string

text \<open>
  A post gives a transport error, or a status with the body or the error of reading it.
  Posts are numbered, so that each may be answered differently.
\<close>

record TokenNet =
  net_post :: "nat \<Rightarrow> string \<Rightarrow> string \<Rightarrow> string \<Rightarrow> string + u16 \<times> (string + string)"
  net_from_json :: "string \<Rightarrow> TokenResponse option"
  net_to_json :: "RefreshBody \<Rightarrow> string"
  net_account_id :: "string \<Rightarrow> string option"

definition scope_param :: "string list \<Rightarrow> string option" where
  "scope_param scopes = (let scope = join '' '' scopes in if scope = [] then None else Some scope)"

definition optional_param :: "string \<Rightarrow> string option \<Rightarrow> (string \<times> string) list" where
  "optional_param key value = (case value of None \<Rightarrow> [] | Some v \<Rightarrow> [(key, v)])"

definition refresh_params :: "OAuthRefreshRequest \<Rightarrow> (string \<times> string) list" where
  "refresh_params request =
     [(''grant_type'', ''refresh_token''), (''refresh_token'', rq_refresh_token request)] @
     optional_param ''client_id'' (rq_client_id request) @
     optional_param ''client_secret'' (rq_client_secret request) @
     optional_param ''scope'' (scope_param (rq_scopes request))"

definition encode_refresh_body :: "TokenNet \<Rightarrow> OAuthRefreshRequest \<Rightarrow> string" where
  "encode_refresh_body net request = (case rq_encoding request of
     GE_Form \<Rightarrow> form_encode (refresh_params request)
   | GE_Json \<Rightarrow> net_to_json net \<lparr>rb_grant_type = ''refresh_token'', rb_refresh_token = rq_refresh_token request,
       rb_client_id = rq_client_id request, rb_client_secret = rq_client_secret request,
       rb_scope = scope_param (rq_scopes request)\<rparr>)"

definition TERMINAL_ERROR_CODES :: "string list" where
  "TERMINAL_ERROR_CODES = [''invalid_grant'', ''invalid_token'', ''refresh_token_reused'']"

definition classify_error_detail :: "string option \<Rightarrow> string option \<Rightarrow> string" where
  "classify_error_detail error description =
     (let code = (case error of Some e \<Rightarrow> e | None \<Rightarrow> ''unknown_error'');
          tag = (if code \<in> set TERMINAL_ERROR_CODES then ''terminal'' else ''rejected'')
      in case description of
           Some desc \<Rightarrow> tag @ '' '' @ code @ '': '' @ desc
         | None \<Rightarrow> tag @ '' '' @ code)"

definition empty_response :: TokenResponse where
  "empty_response = \<lparr>tr_access_token = None, tr_refresh_token = None, tr_id_token = None, tr_token_type = None,
     tr_scope = None, tr_expires_in = None, tr_error = None, tr_error_description = None\<rparr>"

definition parse_token_response :: "TokenNet \<Rightarrow> u16 \<Rightarrow> string \<Rightarrow> OAuthRefreshError + TokenSet" where
  "parse_token_response net status body =
     (let parsed = (case net_from_json net body of Some parsed \<Rightarrow> parsed | None \<Rightarrow> empty_response) in
      if 200 \<le> status \<and> status < 300
      then (case TokenSet_from_response parsed of
          Some tokens \<Rightarrow> Inr tokens
        | None \<Rightarrow> Inl (OE_Transient (''token endpoint returned '' @ show_nat (unat status) @
            '' without an access_token'')))
      else (let detail = ''status '' @ show_nat (unat status) @ '': '' @
                  classify_error_detail (tr_error parsed) (tr_error_description parsed)
            in if 300 \<le> status \<and> status < 400 \<or> status = 429 \<or> 500 \<le> status \<and> status < 600
               then Inl (OE_Transient detail) else Inl (OE_Terminal detail)))"

definition content_type :: "OAuthGrantEncoding \<Rightarrow> string" where
  "content_type encoding = (case encoding of
     GE_Form \<Rightarrow> ''application/x-www-form-urlencoded'' | GE_Json \<Rightarrow> ''application/json'')"

definition refresh_token_exchange :: "TokenNet \<Rightarrow> nat \<Rightarrow> OAuthRefreshRequest \<Rightarrow> OAuthRefreshError + TokenSet" where
  "refresh_token_exchange net n request =
     (if \<not> is_secure_endpoint (rq_token_endpoint request)
      then Inl (OE_InsecureEndpoint (rq_token_endpoint request))
      else (case net_post net n (rq_token_endpoint request) (content_type (rq_encoding request))
                  (encode_refresh_body net request) of
          Inl e \<Rightarrow> Inl (OE_Transient e)
        | Inr (status, Inl e) \<Rightarrow> Inl (OE_Transient (''failed to read the token response: '' @ e))
        | Inr (status, Inr body) \<Rightarrow> parse_token_response net status body))"

section \<open>The token source (oauth_refresh/daemon_source.rs)\<close>

record RefreshedTokens =
  rt_access_token :: string
  rt_expires_at :: "i64 option"
  rt_received_at :: i64
  rt_refresh_token :: "string option"
  rt_account_id :: "string option"

text \<open>
  How a command fares: the loop handles it, its channel is closed, or the loop goes away
  with the command in its queue.
\<close>

datatype link = L_Up | L_Closed | L_Dropped

definition empty_load :: TokenLoad where
  "empty_load = \<lparr>tl_cached = None, tl_material = None, tl_dead = False\<rparr>"

text \<open>A command with a reply channel of its own, and what arrives on it.\<close>

definition ask_daemon :: "KeyEnv \<Rightarrow> (reply_chan \<Rightarrow> VaultCommand) \<Rightarrow> Vault \<Rightarrow> vault_answer option \<times> Vault" where
  "ask_daemon env cmd v =
     (let reply = length (va_answers v); v' = vault_command env (cmd reply) v
      in (map_of (drop (length (va_answers v)) (va_answers v')) reply, v'))"

definition source_load :: "KeyEnv \<Rightarrow> link \<Rightarrow> string \<Rightarrow> Vault \<Rightarrow> TokenLoad \<times> Vault" where
  "source_load env link account v = (case link of
     L_Up \<Rightarrow> (case ask_daemon env (VC_LoadOAuthToken account) v of
         (Some (VA_Token load), v) \<Rightarrow> (load, v)
       | (_, v) \<Rightarrow> (empty_load, v))
   | _ \<Rightarrow> (empty_load, v))"

definition source_save ::
  "KeyEnv \<Rightarrow> link \<Rightarrow> string \<Rightarrow> string option \<Rightarrow> RefreshedTokens \<Rightarrow> Vault \<Rightarrow> (string + unit) \<times> Vault" where
  "source_save env link account expected_refresh_token tokens v = (case link of
     L_Up \<Rightarrow> (case ask_daemon env (VC_SaveOAuthToken \<lparr>sv_account = account, sv_access_token = rt_access_token tokens,
            sv_expires_at = rt_expires_at tokens, sv_received_at = rt_received_at tokens,
            sv_rotated_refresh_token = rt_refresh_token tokens, sv_new_account_id = rt_account_id tokens,
            sv_expected_refresh_token = expected_refresh_token\<rparr>) v of
         (Some (VA_Result r), v) \<Rightarrow> (r, v)
       | (_, v) \<Rightarrow> (Inl ''daemon did not reply to SaveOAuthToken'', v))
   | L_Closed \<Rightarrow> (Inl ''daemon command channel closed'', v)
   | L_Dropped \<Rightarrow> (Inl ''daemon did not reply to SaveOAuthToken'', v))"

definition source_report_terminal :: "KeyEnv \<Rightarrow> link \<Rightarrow> string \<Rightarrow> Vault \<Rightarrow> Vault" where
  "source_report_terminal env link account v = (case link of
     L_Up \<Rightarrow> vault_command env (VC_MarkOAuthDead account) v | _ \<Rightarrow> v)"

section \<open>One refresh (oauth_refresh/mod.rs)\<close>

type_synonym refresh_result = "RefreshFailure + RefreshTokenOutcome"

definition i64_saturating_add :: "i64 \<Rightarrow> i64 \<Rightarrow> i64" where
  "i64_saturating_add a b = max (- (2 ^ 63)) (min (2 ^ 63 - 1) (a + b))"

definition i64_try_from :: "u64 \<Rightarrow> i64" where
  "i64_try_from n = (if uint n < 2 ^ 63 then uint n else 2 ^ 63 - 1)"

definition REFRESH_BUFFER_SECS :: i64 where
  "REFRESH_BUFFER_SECS = 60"

definition token_is_usable :: "CachedAccessToken \<Rightarrow> i64 \<Rightarrow> bool" where
  "token_is_usable cached now = (case cat_expires_at cached of
     Some expires_at \<Rightarrow> i64_saturating_add now REFRESH_BUFFER_SECS < expires_at
   | None \<Rightarrow> True)"

text \<open>What the load decides: a result at once, or the material to exchange.\<close>

definition refresh_needed :: "bool \<Rightarrow> i64 \<Rightarrow> TokenLoad \<Rightarrow> refresh_result + RefreshMaterial" where
  "refresh_needed force now load =
     (if tl_dead load then Inl (Inl RF_Terminal)
      else (case tl_material load of
          None \<Rightarrow> Inl (Inr RO_NotApplicable)
        | Some material \<Rightarrow>
            if \<not> force \<and> (case tl_cached load of Some cached \<Rightarrow> token_is_usable cached now | None \<Rightarrow> False)
            then Inl (Inr RO_NotNeeded) else Inr material))"

definition refresh_request :: "RefreshMaterial \<Rightarrow> OAuthRefreshRequest" where
  "refresh_request material = \<lparr>rq_token_endpoint = rm_token_endpoint material, rq_encoding = rm_encoding material,
     rq_client_id = rm_client_id material, rq_client_secret = rm_client_secret material,
     rq_refresh_token = rm_refresh_token material, rq_scopes = rm_granted_scopes material\<rparr>"

definition refreshed_tokens :: "TokenNet \<Rightarrow> i64 \<Rightarrow> TokenSet \<Rightarrow> RefreshedTokens" where
  "refreshed_tokens net now tokens =
     \<lparr>rt_access_token = ts_access_token tokens,
      rt_expires_at = map_option (\<lambda>secs. i64_saturating_add now (i64_try_from secs)) (ts_expires_in tokens),
      rt_received_at = now, rt_refresh_token = ts_refresh_token tokens,
      rt_account_id = Option.bind (ts_id_token tokens) (net_account_id net)\<rparr>"

definition finish_exchange ::
  "KeyEnv \<Rightarrow> TokenNet \<Rightarrow> link \<Rightarrow> string \<Rightarrow> i64 \<Rightarrow> RefreshMaterial \<Rightarrow> OAuthRefreshError + TokenSet \<Rightarrow> Vault \<Rightarrow>
   refresh_result \<times> Vault" where
  "finish_exchange env net link account now material exchanged v = (case exchanged of
     Inr tokens \<Rightarrow>
       (case source_save env link account (Some (rm_refresh_token material)) (refreshed_tokens net now tokens) v of
          (Inr _, v) \<Rightarrow> (Inr RO_Refreshed, v)
        | (Inl detail, v) \<Rightarrow> (Inl (RF_Transient (''failed to persist refreshed token: '' @ detail)), v))
   | Inl (OE_Terminal _) \<Rightarrow> (Inl RF_Terminal, source_report_terminal env link account v)
   | Inl (OE_InsecureEndpoint _) \<Rightarrow> (Inl RF_Terminal, source_report_terminal env link account v)
   | Inl (OE_Transient detail) \<Rightarrow> (Inl (RF_Transient detail), v))"

text \<open>The whole sequence, as one call with nothing in between.\<close>

definition refresh_under_lock ::
  "KeyEnv \<Rightarrow> TokenNet \<Rightarrow> link \<Rightarrow> nat \<Rightarrow> string \<Rightarrow> bool \<Rightarrow> i64 \<Rightarrow> Vault \<Rightarrow> refresh_result \<times> Vault" where
  "refresh_under_lock env net link n account force now v =
     (let (load, v) = source_load env link account v
      in case refresh_needed force now load of
           Inl result \<Rightarrow> (result, v)
         | Inr material \<Rightarrow>
             finish_exchange env net link account now material
               (refresh_token_exchange net n (refresh_request material)) v)"

section \<open>The registry of locks (oauth_refresh_locks.rs)\<close>

text \<open>
  A lock is an allocation, named by a number that is never used twice, with a semaphore
  that holds one token while it is free. A refresh keeps the lock's handle while it
  waits and a second one in its guard; an MCP connection keeps the guard alone and drops it in one step. The
  phases of a refresh follow \<open>refresh_single_flight\<close>; the guard's handle goes with the
  token, the other one after it, and then the registry is pruned.
\<close>

datatype flight_phase =
    FP_Acquire
  | FP_Waiting nat
  | FP_Locked nat
  | FP_Loaded nat RefreshMaterial
  | FP_Exchanged nat RefreshMaterial "OAuthRefreshError + TokenSet"
  | FP_Finished nat refresh_result
  | FP_Dropping nat refresh_result
  | FP_Pruning refresh_result
  | FP_Guarded nat

record flight =
  fg_key :: string
  fg_mcp :: bool
  fg_force :: bool
  fg_now :: i64
  fg_phase :: flight_phase

text \<open>What happens to refresh tokens: one is presented, and one may come back; or one is stored.\<close>

datatype refresh_event =
    RE_Exchange string string string "string option"
  | RE_Arrived string string

record refresh_world =
  rw_map :: "(string \<times> nat) list"
  rw_fresh :: nat
  rw_free :: "nat \<Rightarrow> bool"
  rw_flights :: "(nat \<times> flight) list"
  rw_vault :: Vault
  rw_log :: "refresh_event list"
  rw_lost :: "string list"
  rw_results :: "(nat \<times> refresh_result) list"

definition refresh_start :: "Vault \<Rightarrow> refresh_world" where
  "refresh_start v = \<lparr>rw_map = [], rw_fresh = 0, rw_free = (\<lambda>_. False), rw_flights = [], rw_vault = v, rw_log = [],
     rw_lost = [], rw_results = []\<rparr>"

definition refresh_acquire :: "string \<Rightarrow> refresh_world \<Rightarrow> nat \<times> refresh_world" where
  "refresh_acquire key w = (case map_of (rw_map w) key of
     Some h \<Rightarrow> (h, w)
   | None \<Rightarrow> (rw_fresh w, w\<lparr>rw_map := hm_insert key (rw_fresh w) (rw_map w), rw_fresh := Suc (rw_fresh w),
       rw_free := (rw_free w)(rw_fresh w := True)\<rparr>))"

fun phase_handle :: "flight_phase \<Rightarrow> nat option" where
  "phase_handle FP_Acquire = None"
| "phase_handle (FP_Waiting h) = Some h"
| "phase_handle (FP_Locked h) = Some h"
| "phase_handle (FP_Loaded h _) = Some h"
| "phase_handle (FP_Exchanged h _ _) = Some h"
| "phase_handle (FP_Finished h _) = Some h"
| "phase_handle (FP_Dropping h _) = Some h"
| "phase_handle (FP_Pruning _) = None"
| "phase_handle (FP_Guarded h) = Some h"

text \<open>The handle whose token a refresh has.\<close>

fun phase_guard :: "flight_phase \<Rightarrow> nat option" where
  "phase_guard (FP_Locked h) = Some h"
| "phase_guard (FP_Loaded h _) = Some h"
| "phase_guard (FP_Exchanged h _ _) = Some h"
| "phase_guard (FP_Finished h _) = Some h"
| "phase_guard (FP_Guarded h) = Some h"
| "phase_guard _ = None"

definition flight_arcs :: "flight \<Rightarrow> nat \<Rightarrow> nat" where
  "flight_arcs f h = (if phase_handle (fg_phase f) = Some h
     then (if phase_guard (fg_phase f) = Some h \<and> \<not> fg_mcp f then 2 else 1) else 0)"

definition refresh_strong_count :: "refresh_world \<Rightarrow> nat \<Rightarrow> nat" where
  "refresh_strong_count w h = count_list (map snd (rw_map w)) h + (\<Sum>(_, f)\<leftarrow>rw_flights w. flight_arcs f h)"

definition refresh_prune :: "refresh_world \<Rightarrow> refresh_world" where
  "refresh_prune w = w\<lparr>rw_map := filter (\<lambda>(_, h). refresh_strong_count w h > 1) (rw_map w)\<rparr>"

definition put_flight :: "nat \<Rightarrow> flight \<Rightarrow> flight_phase \<Rightarrow> refresh_world \<Rightarrow> refresh_world" where
  "put_flight t f p w = w\<lparr>rw_flights := hm_insert t (f\<lparr>fg_phase := p\<rparr>) (rw_flights w)\<rparr>"

definition end_flight :: "nat \<Rightarrow> refresh_world \<Rightarrow> refresh_world" where
  "end_flight t w = w\<lparr>rw_flights := hm_remove t (rw_flights w)\<rparr>"

definition begin_refresh :: "nat \<Rightarrow> string \<Rightarrow> bool \<Rightarrow> bool \<Rightarrow> i64 \<Rightarrow> refresh_world \<Rightarrow> refresh_world" where
  "begin_refresh t key mcp force now w = w\<lparr>rw_flights := hm_insert t
     \<lparr>fg_key = key, fg_mcp = mcp, fg_force = force, fg_now = now, fg_phase = FP_Acquire\<rparr> (rw_flights w)\<rparr>"

definition issued :: "OAuthRefreshError + TokenSet \<Rightarrow> string option" where
  "issued exchanged = (case exchanged of Inr tokens \<Rightarrow> ts_refresh_token tokens | Inl _ \<Rightarrow> None)"

text \<open>The exchange replaced the presented token by another one.\<close>

definition rotated :: "RefreshMaterial \<Rightarrow> OAuthRefreshError + TokenSet \<Rightarrow> bool" where
  "rotated material exchanged \<longleftrightarrow> issued exchanged \<notin> {None, Some (rm_refresh_token material)}"

text \<open>
  One step of a refresh; none when it waits for the token. A rotated token that could
  not be stored is noted as lost.
\<close>

definition flight_step :: "KeyEnv \<Rightarrow> TokenNet \<Rightarrow> link \<Rightarrow> nat \<Rightarrow> refresh_world \<Rightarrow> refresh_world option" where
  "flight_step env net link t w = (case map_of (rw_flights w) t of
     None \<Rightarrow> None
   | Some f \<Rightarrow> (case fg_phase f of
       FP_Acquire \<Rightarrow> (case refresh_acquire (fg_key f) w of (h, w) \<Rightarrow> Some (put_flight t f (FP_Waiting h) w))
     | FP_Waiting h \<Rightarrow>
         if rw_free w h
         then Some (put_flight t f (if fg_mcp f then FP_Guarded h else FP_Locked h)
                (w\<lparr>rw_free := (rw_free w)(h := False)\<rparr>))
         else None
     | FP_Locked h \<Rightarrow> (case source_load env link (fg_key f) (rw_vault w) of (load, v) \<Rightarrow>
         Some (put_flight t f (case refresh_needed (fg_force f) (fg_now f) load of
             Inl result \<Rightarrow> FP_Finished h result | Inr material \<Rightarrow> FP_Loaded h material) (w\<lparr>rw_vault := v\<rparr>)))
     | FP_Loaded h material \<Rightarrow>
         (let exchanged = refresh_token_exchange net (length (rw_log w)) (refresh_request material)
          in Some (put_flight t f (FP_Exchanged h material exchanged)
               (if is_secure_endpoint (rm_token_endpoint material)
                then w\<lparr>rw_log := rw_log w @ [RE_Exchange (fg_key f) (rm_token_endpoint material)
                   (rm_refresh_token material) (issued exchanged)]\<rparr> else w)))
     | FP_Exchanged h material exchanged \<Rightarrow>
         (case finish_exchange env net link (fg_key f) (fg_now f) material exchanged (rw_vault w) of (result, v) \<Rightarrow>
            Some (put_flight t f (FP_Finished h result) (w\<lparr>rw_vault := v, rw_lost :=
              (if rotated material exchanged \<and> isl result then fg_key f # rw_lost w else rw_lost w)\<rparr>)))
     | FP_Finished h result \<Rightarrow>
         Some (put_flight t f (FP_Dropping h result) (w\<lparr>rw_free := (rw_free w)(h := True)\<rparr>))
     | FP_Dropping h result \<Rightarrow> Some (put_flight t f (FP_Pruning result) w)
     | FP_Pruning result \<Rightarrow>
         Some (end_flight t (refresh_prune w)\<lparr>rw_results := rw_results w @ [(t, result)]\<rparr>)
     | FP_Guarded h \<Rightarrow> Some (end_flight t (w\<lparr>rw_free := (rw_free w)(h := True)\<rparr>))))"

text \<open>The refresh token a command of somebody else stores.\<close>

definition refresh_token_of :: "ServiceCredential \<Rightarrow> string option" where
  "refresh_token_of c = Option.bind (as_oauth c) ocv_refresh_token"

definition arrival :: "string \<Rightarrow> ServiceCredential \<Rightarrow> refresh_event list" where
  "arrival key c = (case refresh_token_of c of Some t \<Rightarrow> [RE_Arrived key t] | None \<Rightarrow> [])"

fun arrivals :: "VaultCommand \<Rightarrow> refresh_event list" where
  "arrivals (VC_SaveCredential service c _ _) = arrival service c"
| "arrivals (VC_OAuthSave key c _) = arrival key c"
| "arrivals _ = []"

fun saves_refreshed :: "VaultCommand \<Rightarrow> bool" where
  "saves_refreshed (VC_SaveOAuthToken _ _) = True"
| "saves_refreshed _ = False"

text \<open>
  Every interleaving: refreshes of sessions and MCP connections start at any time and
  proceed step by step, other commands reach the keystore, and the daemon prunes the
  registry. Only refreshes save refreshed tokens.
\<close>

inductive refresh_reach :: "KeyEnv \<Rightarrow> TokenNet \<Rightarrow> Vault \<Rightarrow> refresh_world \<Rightarrow> bool" for env net v0 where
  start: "refresh_reach env net v0 (refresh_start v0)"
| begun: "refresh_reach env net v0 w \<Longrightarrow> t \<notin> fst ` set (rw_flights w) \<Longrightarrow>
     refresh_reach env net v0 (begin_refresh t key mcp force now w)"
| step: "refresh_reach env net v0 w \<Longrightarrow> flight_step env net link t w = Some w' \<Longrightarrow> refresh_reach env net v0 w'"
| command: "refresh_reach env net v0 w \<Longrightarrow> \<not> saves_refreshed cmd \<Longrightarrow>
     refresh_reach env net v0 (w\<lparr>rw_vault := vault_command env cmd (rw_vault w), rw_log := rw_log w @ arrivals cmd\<rparr>)"
| pruned: "refresh_reach env net v0 w \<Longrightarrow> refresh_reach env net v0 (refresh_prune w)"

end
