(* ===== verification/OAuth_Safe.thy ===== *)
theory OAuth_Safe
  imports OAuth_Refresh
begin

text \<open>
  What the refreshes of \<open>OAuth_Refresh\<close> guarantee: one refresh of a credential runs at a
  time, none waits for ever, and a refresh token that was traded in is never presented
  again as long as its successor could be stored; what happens when it could not.
\<close>

section \<open>One refresh at a time\<close>

abbreviation flight_guard :: "flight \<Rightarrow> nat option" where
  "flight_guard f \<equiv> phase_guard (fg_phase f)"

abbreviation flight_handle :: "flight \<Rightarrow> nat option" where
  "flight_handle f \<equiv> phase_handle (fg_phase f)"

lemma guard_is_handle: "phase_guard p = Some h \<Longrightarrow> phase_handle p = Some h"
  by (cases p) auto

text \<open>
  Every refresh that has a handle has the registered one, a token is with one refresh at
  most, and the token of a registered lock is free or with somebody.
\<close>

definition flights_ok :: "refresh_world \<Rightarrow> bool" where
  "flights_ok w \<longleftrightarrow> registry_ok (rw_map w) (rw_fresh w) \<and> hm_ok (rw_flights w) \<and>
     (\<forall>t f h. map_of (rw_flights w) t = Some f \<longrightarrow> flight_handle f = Some h \<longrightarrow> map_of (rw_map w) (fg_key f) = Some h) \<and>
     (\<forall>t f h. map_of (rw_flights w) t = Some f \<longrightarrow> flight_guard f = Some h \<longrightarrow> \<not> rw_free w h) \<and>
     (\<forall>t f t' f' h. map_of (rw_flights w) t = Some f \<longrightarrow> map_of (rw_flights w) t' = Some f' \<longrightarrow>
        flight_guard f = Some h \<longrightarrow> flight_guard f' = Some h \<longrightarrow> t = t') \<and>
     (\<forall>k h. map_of (rw_map w) k = Some h \<longrightarrow>
        rw_free w h \<or> (\<exists>t f. map_of (rw_flights w) t = Some f \<and> flight_guard f = Some h))"

lemma flights_okD:
  assumes "flights_ok w"
  shows "registry_ok (rw_map w) (rw_fresh w)" and "hm_ok (rw_flights w)"
    and "map_of (rw_flights w) t = Some f \<Longrightarrow> flight_handle f = Some h \<Longrightarrow> map_of (rw_map w) (fg_key f) = Some h"
    and "map_of (rw_flights w) t = Some f \<Longrightarrow> flight_guard f = Some h \<Longrightarrow> \<not> rw_free w h"
    and "map_of (rw_flights w) t = Some f \<Longrightarrow> map_of (rw_flights w) t' = Some f' \<Longrightarrow>
        flight_guard f = Some h \<Longrightarrow> flight_guard f' = Some h \<Longrightarrow> t = t'"
    and "map_of (rw_map w) k = Some h \<Longrightarrow>
        rw_free w h \<or> (\<exists>t f. map_of (rw_flights w) t = Some f \<and> flight_guard f = Some h)"
  using assms unfolding flights_ok_def by blast+

text \<open>A step that changes one refresh, and what has to hold for it and for the others.\<close>

lemma flights_ok_change:
  assumes ok: "flights_ok w" and reg: "registry_ok (rw_map w1) (rw_fresh w1)" and hm: "hm_ok (rw_flights w1)"
    and fl: "\<And>t'. t' \<noteq> t \<Longrightarrow> map_of (rw_flights w1) t' = map_of (rw_flights w) t'"
    and mine: "\<And>f h. map_of (rw_flights w1) t = Some f \<Longrightarrow> flight_handle f = Some h \<Longrightarrow> map_of (rw_map w1) (fg_key f) = Some h"
    and others: "\<And>t' f h. t' \<noteq> t \<Longrightarrow> map_of (rw_flights w) t' = Some f \<Longrightarrow> flight_handle f = Some h \<Longrightarrow>
      map_of (rw_map w1) (fg_key f) = Some h"
    and guard: "\<And>f h. map_of (rw_flights w1) t = Some f \<Longrightarrow> flight_guard f = Some h \<Longrightarrow> \<not> rw_free w1 h"
    and alone: "\<And>f h t' f'. map_of (rw_flights w1) t = Some f \<Longrightarrow> flight_guard f = Some h \<Longrightarrow> t' \<noteq> t \<Longrightarrow>
      map_of (rw_flights w) t' = Some f' \<Longrightarrow> flight_guard f' \<noteq> Some h"
    and others_guard: "\<And>t' f h. t' \<noteq> t \<Longrightarrow> map_of (rw_flights w) t' = Some f \<Longrightarrow> flight_guard f = Some h \<Longrightarrow> \<not> rw_free w1 h"
    and cover: "\<And>k h. map_of (rw_map w1) k = Some h \<Longrightarrow> rw_free w1 h \<or>
      (\<exists>f. map_of (rw_flights w1) t = Some f \<and> flight_guard f = Some h) \<or>
      (\<exists>t' f. t' \<noteq> t \<and> map_of (rw_flights w) t' = Some f \<and> flight_guard f = Some h)"
  shows "flights_ok w1"
  unfolding flights_ok_def
proof (intro conjI allI impI)
  fix t' f h assume f: "map_of (rw_flights w1) t' = Some f" "flight_handle f = Some h"
  show "map_of (rw_map w1) (fg_key f) = Some h"
    by (cases "t' = t") (use f mine others fl in auto)
next
  fix t' f h assume f: "map_of (rw_flights w1) t' = Some f" "flight_guard f = Some h"
  show "\<not> rw_free w1 h" by (cases "t' = t") (use f guard others_guard fl in auto)
next
  fix t1 f1 t2 f2 h
  assume f: "map_of (rw_flights w1) t1 = Some f1" "map_of (rw_flights w1) t2 = Some f2"
    "flight_guard f1 = Some h" "flight_guard f2 = Some h"
  show "t1 = t2"
  proof (rule ccontr)
    assume ne: "t1 \<noteq> t2"
    consider "t1 = t" | "t2 = t" | "t1 \<noteq> t" "t2 \<noteq> t" by blast
    then show False
    proof cases
      case 1
      then show ?thesis using f ne fl [of t2] alone [of f1 h t2 f2] by auto
    next
      case 2
      then show ?thesis using f ne fl [of t1] alone [of f2 h t1 f1] by auto
    next
      case 3
      then show ?thesis using f ne fl [of t1] fl [of t2] flights_okD(5) [OF ok, of t1 f1 t2 f2 h] by auto
    qed
  qed
next
  fix k h assume "map_of (rw_map w1) k = Some h"
  from cover [OF this]
  show "rw_free w1 h \<or> (\<exists>t f. map_of (rw_flights w1) t = Some f \<and> flight_guard f = Some h)" using fl by metis
qed (rule reg hm)+

lemma flights_cover:
  "flights_ok w \<Longrightarrow> map_of (rw_map w) k = Some h \<Longrightarrow> rw_free w h \<or>
     (\<exists>f. map_of (rw_flights w) t = Some f \<and> flight_guard f = Some h) \<or>
     (\<exists>t' f. t' \<noteq> t \<and> map_of (rw_flights w) t' = Some f \<and> flight_guard f = Some h)"
  using flights_okD(6) by metis

text \<open>A phase with the same handle and the same token.\<close>

lemma flights_ok_same:
  assumes ok: "flights_ok w" and f: "map_of (rw_flights w) t = Some f"
    and same: "rw_map w1 = rw_map w" "rw_fresh w1 = rw_fresh w" "rw_free w1 = rw_free w" "rw_flights w1 = rw_flights w"
    and p: "phase_handle p = flight_handle f" "phase_guard p = flight_guard f"
  shows "flights_ok (put_flight t f p w1)"
proof (rule flights_ok_change [OF ok, where t = t])
  show "hm_ok (rw_flights (put_flight t f p w1))" using flights_okD(2) [OF ok] by (auto simp: put_flight_def same)
  fix k h assume "map_of (rw_map (put_flight t f p w1)) k = Some h"
  then have "map_of (rw_map w) k = Some h" by (simp add: put_flight_def same)
  from flights_cover [OF ok this, of t] show "rw_free (put_flight t f p w1) h \<or>
      (\<exists>f'. map_of (rw_flights (put_flight t f p w1)) t = Some f' \<and> flight_guard f' = Some h) \<or>
      (\<exists>t' f'. t' \<noteq> t \<and> map_of (rw_flights w) t' = Some f' \<and> flight_guard f' = Some h)"
    using f p by (auto simp: put_flight_def same map_of_hm_insert)
qed (use flights_okD(1,3,4) [OF ok] flights_okD(5) [OF ok f] f p in
     \<open>auto simp: put_flight_def same map_of_hm_insert split: if_splits\<close>)

lemma acquire_ok:
  assumes ok: "flights_ok w" and f: "map_of (rw_flights w) t = Some f" and a: "refresh_acquire (fg_key f) w = (h, w1)"
    and p: "phase_guard (fg_phase f) = None"
  shows "flights_ok (put_flight t f (FP_Waiting h) w1)"
proof -
  note reg = flights_okD(1) [OF ok]
  have w1: "rw_flights w1 = rw_flights w" "registry_ok (rw_map w1) (rw_fresh w1)" "map_of (rw_map w1) (fg_key f) = Some h"
    using a reg registry_insert [OF reg, of "fg_key f"]
    by (auto simp: refresh_acquire_def map_of_hm_insert split: option.splits)
  have kept: "map_of (rw_map w1) k = Some h'" if "map_of (rw_map w) k = Some h'" for k h'
    using a that by (auto simp: refresh_acquire_def map_of_hm_insert split: option.splits)
  have free: "rw_free w1 h' \<longleftrightarrow> rw_free w h' \<or> map_of (rw_map w) (fg_key f) = None \<and> h' = h" for h'
    using a by (auto simp: refresh_acquire_def split: option.splits)
  have new: "map_of (rw_map w) k = Some h' \<or> rw_free w1 h'" if "map_of (rw_map w1) k = Some h'" for k h'
    using a that by (auto simp: refresh_acquire_def map_of_hm_insert split: option.splits if_splits)
  have old: "\<not> rw_free w1 h'" if "map_of (rw_flights w) t' = Some f'" "flight_guard f' = Some h'" for t' f' h'
  proof -
    have "map_of (rw_map w) (fg_key f') = Some h'"
      using flights_okD(3) [OF ok that(1)] guard_is_handle [OF that(2)] by blast
    moreover have "h = rw_fresh w" if "map_of (rw_map w) (fg_key f) = None"
      using a that by (simp add: refresh_acquire_def)
    ultimately have "map_of (rw_map w) (fg_key f) = None \<Longrightarrow> h' \<noteq> h" using registry_bound [OF reg] by force
    then show ?thesis using free [of h'] flights_okD(4) [OF ok that] by auto
  qed
  show ?thesis
  proof (rule flights_ok_change [OF ok, where t = t])
    show "registry_ok (rw_map (put_flight t f (FP_Waiting h) w1)) (rw_fresh (put_flight t f (FP_Waiting h) w1))"
      using w1 by (simp add: put_flight_def)
    show "hm_ok (rw_flights (put_flight t f (FP_Waiting h) w1))"
      using flights_okD(2) [OF ok] by (auto simp: put_flight_def w1)
    fix k h' assume "map_of (rw_map (put_flight t f (FP_Waiting h) w1)) k = Some h'"
    then have "rw_free w1 h' \<or> (\<exists>f. map_of (rw_flights w) t = Some f \<and> flight_guard f = Some h') \<or>
        (\<exists>t' f. t' \<noteq> t \<and> map_of (rw_flights w) t' = Some f \<and> flight_guard f = Some h')"
      using new [of k h'] flights_cover [OF ok, of k h' t] free by (auto simp: put_flight_def)
    then show "rw_free (put_flight t f (FP_Waiting h) w1) h' \<or>
        (\<exists>f'. map_of (rw_flights (put_flight t f (FP_Waiting h) w1)) t = Some f' \<and> flight_guard f' = Some h') \<or>
        (\<exists>t' f'. t' \<noteq> t \<and> map_of (rw_flights w) t' = Some f' \<and> flight_guard f' = Some h')"
      using f p by (auto simp: put_flight_def)
  qed (use w1 old flights_okD(3) [OF ok] kept in \<open>auto simp: put_flight_def map_of_hm_insert split: if_splits\<close>)
qed

lemma locked_ok:
  assumes ok: "flights_ok w" and f: "map_of (rw_flights w) t = Some f" and h: "fg_phase f = FP_Waiting h" "rw_free w h"
    and p: "phase_handle p = Some h" "phase_guard p = Some h"
  shows "flights_ok (put_flight t f p (w\<lparr>rw_free := (rw_free w)(h := False)\<rparr>))"
proof (rule flights_ok_change [OF ok, where t = t])
  let ?w1 = "put_flight t f p (w\<lparr>rw_free := (rw_free w)(h := False)\<rparr>)"
  show "hm_ok (rw_flights ?w1)" using flights_okD(2) [OF ok] by (auto simp: put_flight_def)
  fix k h' assume "map_of (rw_map ?w1) k = Some h'"
  then have "map_of (rw_map w) k = Some h'" by (simp add: put_flight_def)
  from flights_cover [OF ok this, of t] show "rw_free ?w1 h' \<or> (\<exists>f'. map_of (rw_flights ?w1) t = Some f' \<and> flight_guard f' = Some h') \<or>
      (\<exists>t' f'. t' \<noteq> t \<and> map_of (rw_flights w) t' = Some f' \<and> flight_guard f' = Some h')"
    using f h p by (auto simp: put_flight_def map_of_hm_insert)
qed (use flights_okD(1,3,4) [OF ok] f h p in \<open>auto simp: put_flight_def map_of_hm_insert split: if_splits\<close>)

text \<open>Giving the token back, with what is left of the refresh or nothing.\<close>

lemma released_ok:
  assumes ok: "flights_ok w" and f: "map_of (rw_flights w) t = Some f" and h: "flight_guard f = Some h"
    and w1: "rw_map w1 = rw_map w" "rw_fresh w1 = rw_fresh w" "rw_free w1 = (rw_free w)(h := True)" "hm_ok (rw_flights w1)"
      "\<And>t'. t' \<noteq> t \<Longrightarrow> map_of (rw_flights w1) t' = map_of (rw_flights w) t'"
      "\<And>f'. map_of (rw_flights w1) t = Some f' \<Longrightarrow> fg_key f' = fg_key f \<and> flight_handle f' = Some h \<and> flight_guard f' = None"
  shows "flights_ok w1"
proof (rule flights_ok_change [OF ok, where t = t])
  fix k h' assume "map_of (rw_map w1) k = Some h'"
  then have "map_of (rw_map w) k = Some h'" by (simp add: w1(1))
  from flights_cover [OF ok this, of t] show "rw_free w1 h' \<or> (\<exists>f'. map_of (rw_flights w1) t = Some f' \<and> flight_guard f' = Some h') \<or>
      (\<exists>t' f'. t' \<noteq> t \<and> map_of (rw_flights w) t' = Some f' \<and> flight_guard f' = Some h')"
    using f h by (auto simp: w1(3))
next
  fix t' f' h' assume "t' \<noteq> t" "map_of (rw_flights w) t' = Some f'" "flight_guard f' = Some h'"
  then show "\<not> rw_free w1 h'"
    using flights_okD(4) [OF ok, of t' f' h'] flights_okD(5) [OF ok f, of t' f' h] h by (auto simp: w1(3))
next
  fix f' h' assume f': "map_of (rw_flights w1) t = Some f'" "flight_handle f' = Some h'"
  then show "map_of (rw_map w1) (fg_key f') = Some h'"
    using flights_okD(3) [OF ok f guard_is_handle [OF h]] w1(6) [OF f'(1)] by (simp add: w1(1))
next
  fix t' f' h' assume "map_of (rw_flights w) t' = Some f'" "flight_handle f' = Some h'"
  then show "map_of (rw_map w1) (fg_key f') = Some h'" using flights_okD(3) [OF ok, of t' f' h'] by (simp add: w1(1))
next
  show "registry_ok (rw_map w1) (rw_fresh w1)" using flights_okD(1) [OF ok] by (simp add: w1(1,2))
qed (use w1(4,5,6) in auto)

lemma unhandled_ok:
  assumes ok: "flights_ok w" and f: "map_of (rw_flights w) t = Some f" and h: "flight_guard f = None"
    and w1: "rw_map w1 = rw_map w" "rw_fresh w1 = rw_fresh w" "rw_free w1 = rw_free w" "hm_ok (rw_flights w1)"
      "\<And>t'. t' \<noteq> t \<Longrightarrow> map_of (rw_flights w1) t' = map_of (rw_flights w) t'"
      "\<And>f'. map_of (rw_flights w1) t = Some f' \<Longrightarrow> flight_handle f' = None \<and> flight_guard f' = None"
  shows "flights_ok w1"
proof (rule flights_ok_change [OF ok, where t = t])
  fix k h' assume "map_of (rw_map w1) k = Some h'"
  then have "map_of (rw_map w) k = Some h'" by (simp add: w1(1))
  from flights_cover [OF ok this, of t] show "rw_free w1 h' \<or> (\<exists>f'. map_of (rw_flights w1) t = Some f' \<and> flight_guard f' = Some h') \<or>
      (\<exists>t' f'. t' \<noteq> t \<and> map_of (rw_flights w) t' = Some f' \<and> flight_guard f' = Some h')"
    using f h by (auto simp: w1(3))
next
  fix t' f' h' assume f': "map_of (rw_flights w) t' = Some f'"
  show "flight_handle f' = Some h' \<Longrightarrow> map_of (rw_map w1) (fg_key f') = Some h'"
    using flights_okD(3) [OF ok f', of h'] by (simp add: w1(1))
  show "flight_guard f' = Some h' \<Longrightarrow> \<not> rw_free w1 h'" using flights_okD(4) [OF ok f', of h'] by (simp add: w1(3))
next
  show "registry_ok (rw_map w1) (rw_fresh w1)" using flights_okD(1) [OF ok] by (simp add: w1(1,2))
qed (use w1(4,5,6) in auto)

lemma flight_arcs_counted:
  "map_of flights t = Some f \<Longrightarrow> flight_handle f = Some h \<Longrightarrow> 1 \<le> (\<Sum>(_, f)\<leftarrow>flights. flight_arcs f h)"
  by (induction flights) (auto simp: flight_arcs_def split: if_splits)

lemma map_of_filter_Some:
  "hm_ok m \<Longrightarrow> map_of (filter P m) k = Some x \<longleftrightarrow> map_of m k = Some x \<and> P (k, x)"
  by (induction m) (force simp: hm_ok_def map_of_eq_None_iff split: if_splits dest: map_of_SomeD)+

lemma prune_flights_ok:
  assumes ok: "flights_ok w"
  shows "flights_ok (refresh_prune w)"
proof -
  note reg = flights_okD(1) [OF ok]
  have hm: "hm_ok (rw_map w)" using reg by (simp add: registry_ok_def)
  have reg': "registry_ok (rw_map (refresh_prune w)) (rw_fresh w)"
    using reg by (auto simp: registry_ok_def refresh_prune_def hm_ok_filter distinct_map_filter)
  have kept: "map_of (rw_map (refresh_prune w)) (fg_key f) = Some h"
    if "map_of (rw_flights w) t = Some f" "flight_handle f = Some h" for t f h
    using flights_okD(3) [OF ok that] flight_arcs_counted [OF that] registry_count [OF reg, of "fg_key f" h] hm
    by (simp add: refresh_prune_def map_of_filter_Some refresh_strong_count_def)
  have sub: "map_of (rw_map (refresh_prune w)) k = Some h \<Longrightarrow> map_of (rw_map w) k = Some h" for k h
    using hm by (simp add: refresh_prune_def map_of_filter_Some)
  show ?thesis
    unfolding flights_ok_def
    using reg' kept sub flights_okD [OF ok] by (simp add: refresh_prune_def) blast
qed

lemma pruned_end_ok:
  assumes ok: "flights_ok w" and f: "map_of (rw_flights w) t = Some f" and p: "fg_phase f = FP_Pruning result"
  shows "flights_ok ((end_flight t (refresh_prune w))\<lparr>rw_results := rs\<rparr>)"
proof (rule unhandled_ok [OF prune_flights_ok [OF ok], where t = t and f = f])
  show "hm_ok (rw_flights ((end_flight t (refresh_prune w))\<lparr>rw_results := rs\<rparr>))"
    using flights_okD(2) [OF ok] by (simp add: end_flight_def refresh_prune_def hm_ok_remove)
qed (use f p in \<open>auto simp: end_flight_def refresh_prune_def map_of_hm_remove\<close>)

lemma flight_step_ok:
  assumes ok: "flights_ok w" and step: "flight_step env net link t w = Some w'"
  shows "flights_ok w'"
proof -
  obtain f where f: "map_of (rw_flights w) t = Some f" using step by (auto simp: flight_step_def split: option.splits)
  note ok2 = flights_okD(2) [OF ok]
  show ?thesis
  proof (cases "fg_phase f")
    case FP_Acquire
    obtain h w1 where a: "refresh_acquire (fg_key f) w = (h, w1)" by (cases "refresh_acquire (fg_key f) w")
    then have "w' = put_flight t f (FP_Waiting h) w1" using step f FP_Acquire by (simp add: flight_step_def)
    then show ?thesis using acquire_ok [OF ok f a] FP_Acquire by simp
  next
    case (FP_Waiting h)
    then show ?thesis using step f locked_ok [OF ok f FP_Waiting] by (auto simp: flight_step_def split: if_splits)
  next
    case (FP_Locked h)
    then obtain load v where "source_load env link (fg_key f) (rw_vault w) = (load, v)" by fastforce
    then show ?thesis using step f FP_Locked
      by (auto simp: flight_step_def split: sum.splits intro!: flights_ok_same [OF ok f])
  next
    case (FP_Loaded h m)
    then show ?thesis using step f
      by (auto simp: flight_step_def Let_def split: if_splits intro!: flights_ok_same [OF ok f])
  next
    case (FP_Exchanged h m x)
    then obtain r v where "finish_exchange env net link (fg_key f) (fg_now f) m x (rw_vault w) = (r, v)" by fastforce
    then show ?thesis using step f FP_Exchanged
      by (auto simp: flight_step_def intro!: flights_ok_same [OF ok f])
  next
    case (FP_Finished h r)
    then have "w' = put_flight t f (FP_Dropping h r) (w\<lparr>rw_free := (rw_free w)(h := True)\<rparr>)"
      using step f by (simp add: flight_step_def)
    then show ?thesis
      by (intro released_ok [OF ok f, of h]) (use FP_Finished ok2 in \<open>auto simp: put_flight_def map_of_hm_insert\<close>)
  next
    case (FP_Dropping h r)
    then have "w' = put_flight t f (FP_Pruning r) w" using step f by (simp add: flight_step_def)
    then show ?thesis
      by (intro unhandled_ok [OF ok f]) (use FP_Dropping ok2 in \<open>auto simp: put_flight_def map_of_hm_insert\<close>)
  next
    case (FP_Pruning r)
    then show ?thesis using step f pruned_end_ok [OF ok f FP_Pruning] by (auto simp: flight_step_def)
  next
    case (FP_Guarded h)
    then have "w' = end_flight t (w\<lparr>rw_free := (rw_free w)(h := True)\<rparr>)" using step f by (simp add: flight_step_def)
    then show ?thesis
      by (intro released_ok [OF ok f, of h])
         (use FP_Guarded ok2 in \<open>auto simp: end_flight_def map_of_hm_remove hm_ok_remove\<close>)
  qed
qed

lemma begin_ok:
  assumes ok: "flights_ok w" and "t \<notin> fst ` set (rw_flights w)"
  shows "flights_ok (begin_refresh t key mcp force now w)"
proof (rule flights_ok_change [OF ok, where t = t])
  have none: "map_of (rw_flights w) t = None" using assms(2) by (simp add: map_of_eq_None_iff)
  show "hm_ok (rw_flights (begin_refresh t key mcp force now w))"
    using flights_okD(2) [OF ok] by (auto simp: begin_refresh_def)
  fix k h assume "map_of (rw_map (begin_refresh t key mcp force now w)) k = Some h"
  then have "map_of (rw_map w) k = Some h" by (simp add: begin_refresh_def)
  from flights_cover [OF ok this, of t]
  show "rw_free (begin_refresh t key mcp force now w) h \<or>
      (\<exists>f. map_of (rw_flights (begin_refresh t key mcp force now w)) t = Some f \<and> flight_guard f = Some h) \<or>
      (\<exists>t' f. t' \<noteq> t \<and> map_of (rw_flights w) t' = Some f \<and> flight_guard f = Some h)"
    using none by (auto simp: begin_refresh_def)
qed (use flights_okD(1,3,4) [OF ok] in \<open>auto simp: begin_refresh_def map_of_hm_insert split: if_splits\<close>)

lemma flights_ok_cong:
  "rw_map w' = rw_map w \<Longrightarrow> rw_fresh w' = rw_fresh w \<Longrightarrow> rw_free w' = rw_free w \<Longrightarrow> rw_flights w' = rw_flights w \<Longrightarrow>
     flights_ok w' = flights_ok w"
  by (simp add: flights_ok_def)

lemma refresh_reach_ok: "refresh_reach env net v0 w \<Longrightarrow> flights_ok w"
proof (induction rule: refresh_reach.induct)
  case start
  show ?case by (simp add: flights_ok_def refresh_start_def registry_ok_def hm_ok_def)
next
  case (command w cmd)
  then show ?case by (subst flights_ok_cong [where w = w]) simp_all
qed (auto intro: begin_ok flight_step_ok prune_flights_ok)

text \<open>A refresh that has the lock.\<close>

definition refreshing :: "refresh_world \<Rightarrow> nat \<Rightarrow> flight \<Rightarrow> bool" where
  "refreshing w t f \<longleftrightarrow> map_of (rw_flights w) t = Some f \<and> flight_guard f \<noteq> None"

lemma refreshing_unique:
  assumes "flights_ok w" and "refreshing w t f" and "refreshing w t' f'" and "fg_key f = fg_key f'"
  shows "t = t' \<and> f = f'"
proof -
  obtain h h' where h: "flight_guard f = Some h" "flight_guard f' = Some h'"
    and m: "map_of (rw_flights w) t = Some f" "map_of (rw_flights w) t' = Some f'"
    using assms(2,3) by (auto simp: refreshing_def)
  have "h = h'"
    using flights_okD(3) [OF assms(1) m(1) guard_is_handle [OF h(1)]]
      flights_okD(3) [OF assms(1) m(2) guard_is_handle [OF h(2)]] assms(4) by simp
  then have "t = t'" using flights_okD(5) [OF assms(1) m] h by blast
  then show ?thesis using m by simp
qed

section \<open>What the keystore holds for an account\<close>

text \<open>The credential a private key of the binding finds in the account's box.\<close>

definition stored_in :: "KeyEnv \<Rightarrow> Vault \<Rightarrow> string \<Rightarrow> ServiceCredential \<Rightarrow> bool" where
  "stored_in env v a c \<longleftrightarrow> (\<exists>k blob. length k = 32 \<and> va_binding v = Some (ke_public env k) \<and>
     map_of (va_blobs v) a = Some blob \<and> open_blob env k blob = Some c)"

lemma stored_in_cong:
  "va_binding v' = va_binding v \<Longrightarrow> map_of (va_blobs v') a = map_of (va_blobs v) a \<Longrightarrow>
     stored_in env v' a c = stored_in env v a c"
  by (simp add: stored_in_def)

lemma loaded_is_stored:
  assumes ok: "vault_ok env v" and "map_of (va_credentials v) a = Some c"
  shows "\<not> va_locked v \<and> stored_in env v a c"
proof -
  have unlocked: "\<not> va_locked v" using locked_empty [OF ok] assms(2) by auto
  then obtain k where "length k = 32" "va_binding v = Some (ke_public env k)"
    "\<And>s. map_of (va_credentials v) s = Option.bind (map_of (va_blobs v) s) (open_blob env k)"
    using ok by (auto simp: vault_ok_def memory_ok_def)
  then show ?thesis using assms(2) unlocked by (auto simp: stored_in_def bind_eq_Some_conv)
qed

lemma stored_unique:
  assumes ok: "vault_ok env v" and "stored_in env v a c" and "stored_in env v a c'"
  shows "c = c'"
proof -
  obtain k blob k' where *: "length k = 32" "va_binding v = Some (ke_public env k)" "map_of (va_blobs v) a = Some blob"
      "open_blob env k blob = Some c" "length k' = 32" "ke_public env k' = ke_public env k" "open_blob env k' blob = Some c'"
    using assms(2,3) by (auto simp: stored_in_def)
  then obtain d where "boxes env (ke_public env k) blob d" using ok by (auto simp: vault_ok_def disk_ok_def)
  then show ?thesis using * by (simp add: boxes_def)
qed

text \<open>A new box, written under the binding, holds what it was made from.\<close>

lemma stored_new_box:
  assumes "va_binding v' = Some pk" and "map_of (va_blobs v') a = Some blob" and "boxes env pk blob c"
  shows "stored_in env v' a d \<Longrightarrow> d = c"
  using assms by (auto simp: stored_in_def boxes_def)

text \<open>What a command leaves in an account's row: what was there, nothing, or a new box.\<close>

definition row_change :: "KeyEnv \<Rightarrow> string \<Rightarrow> (ServiceCredential \<Rightarrow> bool) \<Rightarrow> Vault \<Rightarrow> Vault \<Rightarrow> bool" where
  "row_change env a writes v v' \<longleftrightarrow> map_of (va_blobs v') a \<in> {map_of (va_blobs v) a, None} \<or>
     (\<exists>pk blob c. va_binding v = Some pk \<and> boxes env pk blob c \<and> map_of (va_blobs v') a = Some blob \<and> writes c)"

lemma row_change_same: "va_blobs v' = va_blobs v \<Longrightarrow> row_change env a writes v v'"
  by (simp add: row_change_def)

lemma row_change_remove: "va_blobs v' = hm_remove s (va_blobs v) \<Longrightarrow> row_change env a writes v v'"
  by (simp add: row_change_def map_of_hm_remove)

lemma row_change_persist:
  assumes "box_laws env" and "encrypt_and_persist_credential env s c v = Inr v1" and "va_blobs v' = va_blobs v1"
    and "s = a \<Longrightarrow> writes c"
  shows "row_change env a writes v v'"
proof (rule persist_cases [OF assms(2,1)])
  fix pk blob assume "va_binding v = Some pk" "boxes env pk blob c" "v1 = v\<lparr>va_blobs := hm_insert s blob (va_blobs v)\<rparr>"
  then show ?thesis using assms(3,4) by (cases "s = a") (auto simp: row_change_def map_of_hm_insert)
qed

lemma blobs_kept:
  "va_blobs (snd (unlock_tail env k v)) = va_blobs v"
  "va_blobs (snd (handle_unlock_inner env k v)) = va_blobs v"
  "va_blobs (snd (handle_bind_keystore_inner env k v)) = va_blobs v"
proof -
  show tail: "va_blobs (snd (unlock_tail env k v)) = va_blobs v" for k v
    by (cases rule: unlock_tail_cases [of env k v]) simp_all
  then show "va_blobs (snd (handle_unlock_inner env k v)) = va_blobs v"
    by (auto simp: handle_unlock_inner_def split: sum.split)
  show "va_blobs (snd (handle_bind_keystore_inner env k v)) = va_blobs v"
    by (cases rule: bind_keystore_cases [of env k v]) (auto simp: handle_bind_keystore_inner_def key_of_def tail)
qed

lemma command_row:
  assumes laws: "box_laws env" and cmd: "\<not> saves_refreshed cmd"
  shows "row_change env a (\<lambda>c. set (arrival a c) \<subseteq> set (arrivals cmd)) v (vault_command env cmd v)"
proof -
  have adv: "va_blobs (vault_command env c v) = va_blobs (vault_handle env c v)" for c
    by (simp add: vault_command_def Let_def)
  show ?thesis
  proof (cases cmd)
    case (VC_SaveCredential s c reply ack)
    show ?thesis
    proof (cases "va_locked v \<or> isl (encrypt_and_persist_credential env s c v)")
      case True
      then show ?thesis by (intro row_change_same)
        (auto simp: adv VC_SaveCredential save_credential_command_def handle_save_credential_def split: sum.splits)
    next
      case False
      then obtain v1 where p: "encrypt_and_persist_credential env s c v = Inr v1" and "\<not> va_locked v"
        by (cases "encrypt_and_persist_credential env s c v") auto
      then show ?thesis by (intro row_change_persist [OF laws p])
        (auto simp: adv VC_SaveCredential save_credential_command_def handle_save_credential_def Let_def insert_credential_def
          split: prod.split)
    qed
  next
    case (VC_OAuthSave key c expected)
    show ?thesis
    proof (cases "encrypt_and_persist_credential env key c v")
      case (Inl e)
      then show ?thesis
        by (intro row_change_same) (simp add: adv VC_OAuthSave handle_oauth_save_def split: option.split)
    next
      case (Inr v1)
      show ?thesis
      proof (cases "va_locked v \<or> (case map_of (va_credentials v) key of None \<Rightarrow> True
            | Some current \<Rightarrow> \<not> refresh_token_unchanged current expected)")
        case True
        then show ?thesis
          by (intro row_change_same) (auto simp: adv VC_OAuthSave handle_oauth_save_def split: option.splits)
      next
        case False
        then show ?thesis
          by (intro row_change_persist [OF laws Inr])
             (auto simp: adv VC_OAuthSave handle_oauth_save_def Inr Let_def insert_credential_def split: option.splits)
      qed
    qed
  next
    case (VC_RemoveCredential s ch)
    show ?thesis
    proof (cases "ke_fault env (va_tick v) RemoveBlob")
      case None
      then show ?thesis by (intro row_change_remove [where s = s])
        (simp add: adv VC_RemoveCredential handle_remove_credential_def remove_credential_blob_def delete_credential_def Let_def)
    next
      case (Some e)
      then show ?thesis by (intro row_change_same)
        (simp add: adv VC_RemoveCredential handle_remove_credential_def remove_credential_blob_def)
    qed
  next
    case (VC_OAuthClear s)
    show ?thesis
    proof (cases "ke_fault env (va_tick v) RemoveBlob")
      case None
      then show ?thesis by (intro row_change_remove)
        (simp add: adv VC_OAuthClear handle_oauth_clear_def remove_credential_blob_def delete_credential_def Let_def)
    next
      case (Some e)
      then show ?thesis by (intro row_change_same) (simp add: adv VC_OAuthClear handle_oauth_clear_def remove_credential_blob_def)
    qed
  qed (use cmd in \<open>simp_all add: row_change_same adv handle_unlock_def handle_bind_keystore_def blobs_kept handle_lock_def
      Let_def set_locked_def publish_mcp_oauth_snapshot_def handle_mcp_auth_rejected_def handle_mark_oauth_dead_def\<close>)
qed

lemma command_stored:
  assumes laws: "box_laws env" and ok: "vault_ok env v" and cmd: "\<not> saves_refreshed cmd"
    and stored: "stored_in env (vault_command env cmd v) a c"
  shows "stored_in env v a c \<or> set (arrival a c) \<subseteq> set (arrivals cmd)"
proof (cases "va_binding v")
  case None
  then have "va_blobs v = []" using ok by (auto simp: vault_ok_def disk_ok_def)
  then have "map_of (va_blobs (vault_command env cmd v)) a = None"
    using command_row [OF laws cmd, of a v] None by (simp add: row_change_def)
  then show ?thesis using stored by (simp add: stored_in_def)
next
  case (Some pk)
  then have b: "va_binding (vault_command env cmd v) = Some pk"
    using ok by (intro binding_kept) (auto simp: vault_ok_def disk_ok_def)
  consider "map_of (va_blobs (vault_command env cmd v)) a = map_of (va_blobs v) a"
    | "map_of (va_blobs (vault_command env cmd v)) a = None"
    | blob d where "boxes env pk blob d" "map_of (va_blobs (vault_command env cmd v)) a = Some blob"
        "set (arrival a d) \<subseteq> set (arrivals cmd)"
    using command_row [OF laws cmd, of a v] Some by (auto simp: row_change_def)
  then show ?thesis
  proof cases
    case 1
    then show ?thesis using stored stored_in_cong [OF _ 1] b Some by simp
  next
    case 2
    then show ?thesis using stored by (simp add: stored_in_def)
  next
    case 3
    then show ?thesis using stored_new_box [OF b 3(2,1) stored] by simp
  qed
qed

section \<open>What saving a refreshed token does\<close>

lemma va_answers_save [simp]:
  "va_answers (va_answer ch x v) = va_answers v @ [(ch, x)]" "va_answers (cache_token save v) = va_answers v"
  "va_answers (insert_credential s c v) = va_answers v" "va_answers (unquarantine a v) = va_answers v"
  "va_answers (set_credentials m v) = va_answers v"
  by (simp_all add: va_answer_def cache_token_def unquarantine_def insert_credential_def set_credentials_def)

text \<open>
  The answer of the daemon to a save, and what it does: refused or dropped, nothing is
  written; accepted, the grant is the one that was presented, and it is rewritten when
  the exchange brought something new.
\<close>

lemma save_token_cases:
  assumes laws: "box_laws env"
  obtains
    (refused) e v' where "ask_daemon env (VC_SaveOAuthToken save) v = (Some (VA_Result (Inl e)), v')"
      "va_blobs v' = va_blobs v" "va_binding v' = va_binding v"
  | (stale) current v' where "ask_daemon env (VC_SaveOAuthToken save) v = (Some (VA_Result (Inr ())), v')"
      "va_blobs v' = va_blobs v" "va_binding v' = va_binding v"
      "map_of (va_credentials v) (sv_account save) = Some current"
      "\<not> refresh_token_unchanged current (sv_expected_refresh_token save)"
  | (same) current v' where "ask_daemon env (VC_SaveOAuthToken save) v = (Some (VA_Result (Inr ())), v')"
      "va_blobs v' = va_blobs v" "va_binding v' = va_binding v"
      "map_of (va_credentials v) (sv_account save) = Some current"
      "refresh_token_unchanged current (sv_expected_refresh_token save)" "\<not> durable_change save current"
  | (stored) current pk blob v' where "ask_daemon env (VC_SaveOAuthToken save) v = (Some (VA_Result (Inr ())), v')"
      "va_binding v = Some pk" "va_binding v' = Some pk" "va_blobs v' = hm_insert (sv_account save) blob (va_blobs v)"
      "map_of (va_credentials v) (sv_account save) = Some current" "is_provider_grant current"
      "refresh_token_unchanged current (sv_expected_refresh_token save)"
      "boxes env pk blob (rotate_grant (sv_rotated_refresh_token save) (sv_new_account_id save) current)"
proof -
  let ?r = "length (va_answers v)" and ?a = "sv_account save"
  let ?v = "vault_command env (VC_SaveOAuthToken save ?r) v"
  have answer: "ask_daemon env (VC_SaveOAuthToken save) v = (Some x, ?v)"
    if "va_answers (handle_save_oauth_token env save ?r v) = va_answers v @ [(?r, x)]" for x
    using that by (simp add: ask_daemon_def vault_command_def Let_def)
  have fields: "va_blobs ?v = va_blobs (handle_save_oauth_token env save ?r v)"
    "va_binding ?v = va_binding (handle_save_oauth_token env save ?r v)"
    by (simp_all add: vault_command_def Let_def)
  show ?thesis
  proof (cases "va_locked v")
    case True
    show ?thesis by (rule refused [OF answer]) (simp_all add: fields handle_save_oauth_token_def True)
  next
    case unlocked: False
    show ?thesis
    proof (cases "map_of (va_credentials v) ?a")
      case None
      show ?thesis by (rule refused [OF answer]) (simp_all add: fields handle_save_oauth_token_def unlocked None)
    next
      case cur: (Some current)
      show ?thesis
      proof (cases "is_provider_grant current")
        case False
        show ?thesis by (rule refused [OF answer]) (simp_all add: fields handle_save_oauth_token_def unlocked cur False)
      next
        case grant: True
        note sofar = fields handle_save_oauth_token_def unlocked cur grant
        show ?thesis
        proof (cases "refresh_token_unchanged current (sv_expected_refresh_token save)")
          case False
          show ?thesis by (rule stale [OF answer _ _ cur False]) (simp_all add: sofar False)
        next
          case unchanged: True
          show ?thesis
          proof (cases "durable_change save current")
            case False
            show ?thesis by (rule same [OF answer _ _ cur unchanged False])
              (simp_all add: sofar unchanged False cache_token_def)
          next
            case change: True
            let ?new = "rotate_grant (sv_rotated_refresh_token save) (sv_new_account_id save) current"
            show ?thesis
            proof (cases "encrypt_and_persist_credential env ?a ?new v")
              case (Inl e)
              show ?thesis by (rule refused [OF answer]) (simp_all add: sofar unchanged change Inl Let_def)
            next
              case (Inr v1)
              show ?thesis
              proof (rule persist_cases [OF Inr laws])
                fix pk blob
                assume b: "va_binding v = Some pk" "boxes env pk blob ?new" "v1 = v\<lparr>va_blobs := hm_insert ?a blob (va_blobs v)\<rparr>"
                show ?thesis
                  by (rule stored [OF answer b(1) _ _ cur grant unchanged b(2)])
                     (simp_all add: sofar unchanged change Inr Let_def cache_token_def insert_credential_def b(1,3))
              qed
            qed
          qed
        qed
      qed
    qed
  qed
qed

lemma rotate_grant_token:
  "is_provider_grant c \<Longrightarrow> refresh_token_of (rotate_grant r i c) = (case r of Some t \<Rightarrow> Some t | None \<Rightarrow> refresh_token_of c)"
  by (cases c) (auto simp: refresh_token_of_def split: option.split)

section \<open>The history of an account's refresh tokens\<close>

text \<open>The token an event trades in for another one, the one it presents, the one it brings.\<close>

fun trades :: "string \<Rightarrow> refresh_event \<Rightarrow> string list" where
  "trades a (RE_Exchange b _ t (Some t')) = (if b = a \<and> t' \<noteq> t then [t] else [])"
| "trades a _ = []"

fun presented :: "string \<Rightarrow> refresh_event \<Rightarrow> string list" where
  "presented a (RE_Exchange b _ t _) = (if b = a then [t] else [])"
| "presented a _ = []"

fun brought :: "string \<Rightarrow> refresh_event \<Rightarrow> string list" where
  "brought a (RE_Exchange b _ t (Some t')) = (if b = a \<and> t' \<noteq> t then [t'] else [])"
| "brought a (RE_Exchange b _ t None) = []"
| "brought a (RE_Arrived b t) = (if b = a then [t] else [])"

definition traded :: "string \<Rightarrow> refresh_event list \<Rightarrow> string list" where
  "traded a hist = concat (map (trades a) hist)"

text \<open>No event of the history has to do, in the given way, with a token that was traded in before it.\<close>

fun avoids :: "string \<Rightarrow> (refresh_event \<Rightarrow> string list) \<Rightarrow> string list \<Rightarrow> refresh_event list \<Rightarrow> bool" where
  "avoids a use gone [] = True"
| "avoids a use gone (e # hist) = (list_all (\<lambda>t. t \<notin> set gone) (use e) \<and> avoids a use (gone @ trades a e) hist)"

text \<open>No token is presented again once it has been traded in.\<close>

definition used_once :: "string \<Rightarrow> refresh_event list \<Rightarrow> bool" where
  "used_once a hist = avoids a (presented a) [] hist"

text \<open>Token endpoints and logins never bring a token that has been traded in before.\<close>

definition brings_fresh :: "string \<Rightarrow> refresh_event list \<Rightarrow> bool" where
  "brings_fresh a hist = avoids a (brought a) [] hist"

lemma avoids_append:
  "avoids a use gone (xs @ ys) \<longleftrightarrow> avoids a use gone xs \<and> avoids a use (gone @ traded a xs) ys"
  by (induction xs arbitrary: gone) (auto simp: traded_def)

lemma traded_append [simp]: "traded a (xs @ ys) = traded a xs @ traded a ys" "traded a [] = []"
  by (simp_all add: traded_def)

lemma used_once_snoc:
  "used_once a (hist @ [e]) \<longleftrightarrow> used_once a hist \<and> (\<forall>t \<in> set (presented a e). t \<notin> set (traded a hist))"
  by (simp add: used_once_def avoids_append list_all_iff)

lemma brings_fresh_snoc:
  "brings_fresh a (hist @ [e]) \<longleftrightarrow> brings_fresh a hist \<and> (\<forall>t \<in> set (brought a e). t \<notin> set (traded a hist))"
  by (simp add: brings_fresh_def avoids_append list_all_iff)

lemma arrivals_cases: "arrivals cmd = [] \<or> (\<exists>b t. arrivals cmd = [RE_Arrived b t])"
  by (cases cmd) (auto simp: arrival_def split: option.split)

section \<open>No refresh token is used twice\<close>

text \<open>A refresh that has got a new token for the one it presented, and has not saved it.\<close>

definition unsaved :: "refresh_world \<Rightarrow> string \<Rightarrow> string \<Rightarrow> bool" where
  "unsaved w a tok \<longleftrightarrow> (\<exists>t f h m x. map_of (rw_flights w) t = Some f \<and> fg_key f = a \<and>
     fg_phase f = FP_Exchanged h m x \<and> rotated m x \<and> rm_refresh_token m = tok)"

text \<open>
  The stored token is good unless its refresh has not saved the new one yet; a loaded
  one is good, and so is the one an exchange brought.
\<close>

definition tokens_ok :: "KeyEnv \<Rightarrow> string \<Rightarrow> refresh_world \<Rightarrow> bool" where
  "tokens_ok env a w \<longleftrightarrow>
     (\<forall>c tok. stored_in env (rw_vault w) a c \<longrightarrow> refresh_token_of c = Some tok \<longrightarrow> tok \<in> set (traded a (rw_log w)) \<longrightarrow>
        unsaved w a tok) \<and>
     (\<forall>t f h m. map_of (rw_flights w) t = Some f \<longrightarrow> fg_key f = a \<longrightarrow> fg_phase f = FP_Loaded h m \<longrightarrow>
        rm_refresh_token m \<notin> set (traded a (rw_log w))) \<and>
     (\<forall>t f h m x tok. map_of (rw_flights w) t = Some f \<longrightarrow> fg_key f = a \<longrightarrow> fg_phase f = FP_Exchanged h m x \<longrightarrow>
        rotated m x \<longrightarrow> issued x = Some tok \<longrightarrow> tok \<notin> set (traded a (rw_log w))) \<and>
     used_once a (rw_log w)"

lemma tokens_okD:
  assumes "tokens_ok env a w"
  shows "stored_in env (rw_vault w) a c \<Longrightarrow> refresh_token_of c = Some tok \<Longrightarrow> tok \<in> set (traded a (rw_log w)) \<Longrightarrow> unsaved w a tok"
    and "map_of (rw_flights w) t = Some f \<Longrightarrow> fg_key f = a \<Longrightarrow> fg_phase f = FP_Loaded h m \<Longrightarrow>
      rm_refresh_token m \<notin> set (traded a (rw_log w))"
    and "map_of (rw_flights w) t = Some f \<Longrightarrow> fg_key f = a \<Longrightarrow> fg_phase f = FP_Exchanged h m x \<Longrightarrow> rotated m x \<Longrightarrow>
      issued x = Some tok \<Longrightarrow> tok \<notin> set (traded a (rw_log w))"
    and "used_once a (rw_log w)"
  using assms unfolding tokens_ok_def by blast+

lemma tokens_okI:
  assumes "\<And>c tok. stored_in env (rw_vault w) a c \<Longrightarrow> refresh_token_of c = Some tok \<Longrightarrow>
      tok \<in> set (traded a (rw_log w)) \<Longrightarrow> unsaved w a tok"
    and "\<And>t f h m. map_of (rw_flights w) t = Some f \<Longrightarrow> fg_key f = a \<Longrightarrow> fg_phase f = FP_Loaded h m \<Longrightarrow>
      rm_refresh_token m \<notin> set (traded a (rw_log w))"
    and "\<And>t f h m x tok. map_of (rw_flights w) t = Some f \<Longrightarrow> fg_key f = a \<Longrightarrow> fg_phase f = FP_Exchanged h m x \<Longrightarrow>
      rotated m x \<Longrightarrow> issued x = Some tok \<Longrightarrow> tok \<notin> set (traded a (rw_log w))"
    and "used_once a (rw_log w)"
  shows "tokens_ok env a w"
  unfolding tokens_ok_def using assms by blast

text \<open>Steps that leave the keystore and the history alone.\<close>

definition exchanging :: "flight_phase \<Rightarrow> bool" where
  "exchanging p \<longleftrightarrow> (\<exists>h m. p = FP_Loaded h m) \<or> (\<exists>h m x. p = FP_Exchanged h m x)"

lemma tokens_ok_idle:
  assumes ok: "tokens_ok env a w" and hist: "rw_log w1 = rw_log w"
    and disk: "va_binding (rw_vault w1) = va_binding (rw_vault w)" "va_blobs (rw_vault w1) = va_blobs (rw_vault w)"
    and same: "\<And>t f. exchanging (fg_phase f) \<Longrightarrow> map_of (rw_flights w1) t = Some f \<longleftrightarrow> map_of (rw_flights w) t = Some f"
  shows "tokens_ok env a w1"
proof -
  have f1: "map_of (rw_flights w1) t = Some f \<longleftrightarrow> map_of (rw_flights w) t = Some f" if "fg_phase f = FP_Loaded h m" for t f h m
    by (rule same) (use that in \<open>simp add: exchanging_def\<close>)
  have f2: "map_of (rw_flights w1) t = Some f \<longleftrightarrow> map_of (rw_flights w) t = Some f" if "fg_phase f = FP_Exchanged h m x" for t f h m x
    by (rule same) (use that in \<open>simp add: exchanging_def\<close>)
  have un: "unsaved w1 a tok = unsaved w a tok" for tok unfolding unsaved_def using f2 by blast
  have st: "stored_in env (rw_vault w1) a c = stored_in env (rw_vault w) a c" for c
    by (rule stored_in_cong) (simp_all add: disk)
  show ?thesis
  proof (rule tokens_okI)
    fix c tok assume "stored_in env (rw_vault w1) a c" "refresh_token_of c = Some tok" "tok \<in> set (traded a (rw_log w1))"
    then show "unsaved w1 a tok" using tokens_okD(1) [OF ok, of c tok] by (simp add: un st hist)
  next
    fix t f h m assume "map_of (rw_flights w1) t = Some f" "fg_key f = a" "fg_phase f = FP_Loaded h m"
    then show "rm_refresh_token m \<notin> set (traded a (rw_log w1))"
      using tokens_okD(2) [OF ok, of t f h m] f1 by (simp add: hist)
  next
    fix t f h m x tok
    assume "map_of (rw_flights w1) t = Some f" "fg_key f = a" "fg_phase f = FP_Exchanged h m x" "rotated m x" "issued x = Some tok"
    then show "tok \<notin> set (traded a (rw_log w1))" using tokens_okD(3) [OF ok, of t f h m x tok] f2 by (simp add: hist)
  next
    show "used_once a (rw_log w1)" using tokens_okD(4) [OF ok] by (simp add: hist)
  qed
qed

lemma material_token:
  assumes "oauth_refresh_material a v = Some m"
  shows "\<exists>c. map_of (va_credentials v) a = Some c \<and> refresh_token_of c = Some (rm_refresh_token m)"
  using assms by (auto simp: oauth_refresh_material_def refresh_token_of_def Let_def split: option.splits if_splits)

lemma source_load_facts:
  assumes "source_load env link a v = (load, v')"
  shows "va_blobs v' = va_blobs v" and "va_binding v' = va_binding v"
    and "tl_material load = Some m \<Longrightarrow>
      \<exists>c. map_of (va_credentials v) a = Some c \<and> refresh_token_of c = Some (rm_refresh_token m)"
proof -
  have answer: "ask_daemon env (VC_LoadOAuthToken a) v = (Some (VA_Token (oauth_token_load a v)),
      vault_command env (VC_LoadOAuthToken a (length (va_answers v))) v)"
    by (simp add: ask_daemon_def Let_def vault_command_def)
  show "va_blobs v' = va_blobs v" "va_binding v' = va_binding v"
    using assms by (auto simp: source_load_def answer vault_command_def Let_def split: link.splits)
  show "\<exists>c. map_of (va_credentials v) a = Some c \<and> refresh_token_of c = Some (rm_refresh_token m)"
    if "tl_material load = Some m"
    using assms that by (intro material_token)
      (auto simp: source_load_def answer oauth_token_load_def empty_load_def split: link.splits)
qed

lemma source_ok:
  assumes "box_laws env" and "vault_ok env v"
  shows "source_load env link a v = (load, v') \<Longrightarrow> vault_ok env v'"
    and "finish_exchange env net link a now m x v = (r, v') \<Longrightarrow> vault_ok env v'"
  using assms
  by (auto simp: source_load_def finish_exchange_def source_save_def source_report_terminal_def ask_daemon_def Let_def vault_command_ok
      split: link.splits prod.splits option.splits vault_answer.splits sum.splits OAuthRefreshError.splits)

text \<open>A refresh that has the lock and has not exchanged anything yet sees a good token.\<close>

lemma stored_good:
  assumes fl: "flights_ok w" and ok: "tokens_ok env a w" and f: "map_of (rw_flights w) t = Some f" "fg_key f = a"
    and p: "fg_phase f = FP_Locked h"
    and c: "stored_in env (rw_vault w) a c" "refresh_token_of c = Some tok"
  shows "tok \<notin> set (traded a (rw_log w))"
proof
  assume "tok \<in> set (traded a (rw_log w))"
  then obtain t' f' h' m x where f': "map_of (rw_flights w) t' = Some f'" "fg_key f' = a" "fg_phase f' = FP_Exchanged h' m x"
    using tokens_okD(1) [OF ok c] by (auto simp: unsaved_def)
  then have "t = t' \<and> f = f'" using f p by (intro refreshing_unique [OF fl]) (simp_all add: refreshing_def)
  then show False using p f'(3) by simp
qed

text \<open>While a refresh of the account has the lock, no other one is between load and save.\<close>

lemma exchanging_unique:
  assumes fl: "flights_ok w" and f: "map_of (rw_flights w) t = Some f" "phase_guard (fg_phase f) \<noteq> None"
    and f': "map_of (rw_flights w) t' = Some f'" "fg_key f' = fg_key f" "exchanging (fg_phase f')"
  shows "t' = t"
proof -
  have "phase_guard (fg_phase f') \<noteq> None" using f'(3) by (auto simp: exchanging_def)
  then show ?thesis using refreshing_unique [OF fl, of t' f' t f] f f' by (simp add: refreshing_def)
qed

lemma exchangingI [simp]: "exchanging (FP_Loaded h m)" "exchanging (FP_Exchanged h m x)"
  by (simp_all add: exchanging_def)

lemma put_flight_fields [simp]:
  "rw_vault (put_flight t f p w) = rw_vault w" "rw_log (put_flight t f p w) = rw_log w"
  "rw_lost (put_flight t f p w) = rw_lost w"
  "map_of (rw_flights (put_flight t f p w)) t' = (if t' = t then Some (f\<lparr>fg_phase := p\<rparr>) else map_of (rw_flights w) t')"
  by (simp_all add: put_flight_def map_of_hm_insert)

lemma load_tokens_ok:
  assumes fl: "flights_ok w" and v: "vault_ok env (rw_vault w)" and ok: "tokens_ok env a w"
    and f: "map_of (rw_flights w) t = Some f" "fg_phase f = FP_Locked h"
    and load: "source_load env link (fg_key f) (rw_vault w) = (load, v')"
    and p: "p = (case refresh_needed (fg_force f) (fg_now f) load of
      Inl result \<Rightarrow> FP_Finished h result | Inr material \<Rightarrow> FP_Loaded h material)"
  shows "tokens_ok env a (put_flight t f p (w\<lparr>rw_vault := v'\<rparr>))"
proof (rule tokens_okI)
  let ?w = "put_flight t f p (w\<lparr>rw_vault := v'\<rparr>)"
  have not_ex: "p \<noteq> FP_Exchanged h' m x" for h' m x using p by (simp split: sum.splits)
  have st: "stored_in env v' a c = stored_in env (rw_vault w) a c" for c
    by (rule stored_in_cong) (simp_all add: source_load_facts [OF load])
  {
    fix c tok assume "stored_in env (rw_vault ?w) a c" "refresh_token_of c = Some tok" "tok \<in> set (traded a (rw_log ?w))"
    then have "unsaved w a tok" using tokens_okD(1) [OF ok, of c tok] by (simp add: st)
    then obtain t0 f0 h0 m0 x0 where u: "map_of (rw_flights w) t0 = Some f0" "fg_key f0 = a" "fg_phase f0 = FP_Exchanged h0 m0 x0"
      "rotated m0 x0" "rm_refresh_token m0 = tok" by (auto simp: unsaved_def)
    then have "t0 \<noteq> t" using f by auto
    then show "unsaved ?w a tok" using u by (auto simp: unsaved_def)
  next
    fix t' f' h' m assume f': "map_of (rw_flights ?w) t' = Some f'" "fg_key f' = a" "fg_phase f' = FP_Loaded h' m"
    show "rm_refresh_token m \<notin> set (traded a (rw_log ?w))"
    proof (cases "t' = t")
      case False
      then show ?thesis using tokens_okD(2) [OF ok, of t' f' h' m] f' by simp
    next
      case True
      then have key: "fg_key f = a" and "p = FP_Loaded h' m" using f' by auto
      then have "tl_material load = Some m" using p by (auto simp: refresh_needed_def split: sum.splits if_splits option.splits)
      then obtain c where c: "map_of (va_credentials (rw_vault w)) a = Some c" "refresh_token_of c = Some (rm_refresh_token m)"
        using source_load_facts(3) [OF load] key by blast
      then show ?thesis using stored_good [OF fl ok f(1) key f(2) _ c(2)] loaded_is_stored [OF v c(1)] by simp
    qed
  next
    fix t' f' h' m x tok
    assume "map_of (rw_flights ?w) t' = Some f'" "fg_key f' = a" "fg_phase f' = FP_Exchanged h' m x" "rotated m x" "issued x = Some tok"
    then show "tok \<notin> set (traded a (rw_log ?w))"
      using tokens_okD(3) [OF ok, of t' f' h' m x tok] not_ex by (auto split: if_splits)
  next
    show "used_once a (rw_log ?w)" using tokens_okD(4) [OF ok] by simp
  }
qed

lemma trades_exchange:
  "trades a (RE_Exchange b e (rm_refresh_token m) (issued x)) = (if b = a \<and> rotated m x then [rm_refresh_token m] else [])"
  by (cases "issued x") (auto simp: rotated_def)

lemma brought_exchange:
  "brought a (RE_Exchange b e (rm_refresh_token m) (issued x)) = (if b = a \<and> rotated m x then [the (issued x)] else [])"
  by (cases "issued x") (auto simp: rotated_def)

lemma exchange_tokens_ok:
  assumes fl: "flights_ok w" and ok: "tokens_ok env a w"
    and f: "map_of (rw_flights w) t = Some f" "fg_phase f = FP_Loaded h m"
    and e: "e = RE_Exchange (fg_key f) ep (rm_refresh_token m) (issued x)" and fresh: "brings_fresh a (rw_log w @ [e])"
  shows "tokens_ok env a (put_flight t f (FP_Exchanged h m x) (w\<lparr>rw_log := rw_log w @ [e]\<rparr>))"
proof (rule tokens_okI)
  let ?w = "put_flight t f (FP_Exchanged h m x) (w\<lparr>rw_log := rw_log w @ [e]\<rparr>)"
  have trd: "set (traded a (rw_log ?w)) = set (traded a (rw_log w)) \<union> set (trades a e)" by (simp add: traded_def)
  have only: "t' = t" if "map_of (rw_flights w) t' = Some f'" "fg_key f' = fg_key f" "exchanging (fg_phase f')" for t' f'
    using exchanging_unique [OF fl f(1) _ that] f(2) by simp
  {
    fix c tok assume s: "stored_in env (rw_vault ?w) a c" "refresh_token_of c = Some tok" "tok \<in> set (traded a (rw_log ?w))"
    show "unsaved ?w a tok"
    proof (cases "tok \<in> set (traded a (rw_log w))")
      case True
      then obtain t0 f0 h0 m0 x0 where u: "map_of (rw_flights w) t0 = Some f0" "fg_key f0 = a"
        "fg_phase f0 = FP_Exchanged h0 m0 x0" "rotated m0 x0" "rm_refresh_token m0 = tok"
        using tokens_okD(1) [OF ok, of c tok] s by (auto simp: unsaved_def)
      then have "t0 \<noteq> t" using f by auto
      then show ?thesis using u by (auto simp: unsaved_def)
    next
      case False
      then have "fg_key f = a" "rotated m x" "tok = rm_refresh_token m"
        using s(3) unfolding trd unfolding e trades_exchange by (auto split: if_splits)
      then show ?thesis by (auto simp: unsaved_def intro!: exI [of _ t])
    qed
  next
    fix t' f' h' m' assume f': "map_of (rw_flights ?w) t' = Some f'" "fg_key f' = a" "fg_phase f' = FP_Loaded h' m'"
    then have ne: "t' \<noteq> t" by auto
    then have "fg_key f \<noteq> a" using only [of t' f'] f' by auto
    then show "rm_refresh_token m' \<notin> set (traded a (rw_log ?w))"
      using tokens_okD(2) [OF ok, of t' f' h' m'] f' ne unfolding trd unfolding e trades_exchange by simp
  next
    fix t' f' h' m' x' tok
    assume f': "map_of (rw_flights ?w) t' = Some f'" "fg_key f' = a" "fg_phase f' = FP_Exchanged h' m' x'" "rotated m' x'"
      "issued x' = Some tok"
    show "tok \<notin> set (traded a (rw_log ?w))"
    proof (cases "t' = t")
      case True
      then have "fg_key f = a" "m' = m" "x' = x" using f' by auto
      then show ?thesis
        using f'(4,5) fresh unfolding trd unfolding e trades_exchange brings_fresh_snoc brought_exchange
        by (auto simp: rotated_def)
    next
      case False
      then have "fg_key f \<noteq> a" using only [of t' f'] f' by auto
      then show ?thesis
        using tokens_okD(3) [OF ok, of t' f' h' m' x' tok] f' False unfolding trd unfolding e trades_exchange by simp
    qed
  next
    show "used_once a (rw_log ?w)"
      using tokens_okD(2) [OF ok f(1) _ f(2)] tokens_okD(4) [OF ok] by (auto simp: used_once_snoc e split: if_splits)
  }
qed

text \<open>How a save ends a refresh, seen from the account's row.\<close>

definition save_request :: "TokenNet \<Rightarrow> string \<Rightarrow> i64 \<Rightarrow> RefreshMaterial \<Rightarrow> TokenSet \<Rightarrow> SaveToken" where
  "save_request net a now m tokens =
     \<lparr>sv_account = a, sv_access_token = rt_access_token (refreshed_tokens net now tokens),
      sv_expires_at = rt_expires_at (refreshed_tokens net now tokens),
      sv_received_at = rt_received_at (refreshed_tokens net now tokens),
      sv_rotated_refresh_token = rt_refresh_token (refreshed_tokens net now tokens),
      sv_new_account_id = rt_account_id (refreshed_tokens net now tokens),
      sv_expected_refresh_token = Some (rm_refresh_token m)\<rparr>"

lemma save_request_fields:
  "sv_account (save_request net a now m tokens) = a"
  "sv_rotated_refresh_token (save_request net a now m tokens) = issued (Inr tokens)"
  "sv_expected_refresh_token (save_request net a now m tokens) = Some (rm_refresh_token m)"
  by (simp_all add: save_request_def issued_def refreshed_tokens_def)

lemma finish_saved:
  assumes "ask_daemon env (VC_SaveOAuthToken (save_request net a now m tokens)) v = (Some (VA_Result q), u)"
    and "finish_exchange env net L_Up a now m (Inr tokens) v = (r, v')"
  shows "v' = u \<and> isl r = isl q"
proof -
  have "source_save env L_Up a (Some (rm_refresh_token m)) (refreshed_tokens net now tokens) v = (q, u)"
    using assms(1) by (simp add: source_save_def save_request_def)
  then show ?thesis using assms(2) by (cases q) (auto simp: finish_exchange_def)
qed

lemma finish_other:
  assumes laws: "box_laws env" and run: "finish_exchange env net link b now m x v = (r, v')" and "a \<noteq> b"
  shows "stored_in env v' a c = stored_in env v a c"
proof -
  have "va_binding v' = va_binding v \<and> map_of (va_blobs v') a = map_of (va_blobs v) a"
  proof (cases x)
    case (Inl e)
    have "va_binding (vault_command env (VC_MarkOAuthDead b) v) = va_binding v"
      "va_blobs (vault_command env (VC_MarkOAuthDead b) v) = va_blobs v"
      by (simp_all add: vault_command_def handle_mark_oauth_dead_def Let_def)
    then show ?thesis using run
      by (auto simp: finish_exchange_def Inl source_report_terminal_def split: OAuthRefreshError.splits link.splits)
  next
    case (Inr tokens)
    show ?thesis
    proof (cases link)
      case L_Up
      let ?save = "save_request net b now m tokens"
      note saved = finish_saved [OF _ run [unfolded Inr L_Up]] and sv = save_request_fields [of net b now m tokens]
      show ?thesis
        using laws
      proof (cases rule: save_token_cases [where save = ?save and v = v])
        case (refused e u)
        then show ?thesis using saved [OF refused(1)] by simp
      next
        case (stale current u)
        then show ?thesis using saved [OF stale(1)] by simp
      next
        case (same current u)
        then show ?thesis using saved [OF same(1)] by simp
      next
        case (stored current pk blob u)
        then show ?thesis using saved [OF stored(1)] assms(3) by (simp add: sv map_of_hm_insert)
      qed
    qed (use run in \<open>auto simp: finish_exchange_def Inr source_save_def\<close>)
  qed
  then show ?thesis by (intro stored_in_cong) simp_all
qed

text \<open>
  The account's own row: it is as before when nothing was saved, and the save answers
  for a rotation only if the new token replaced the presented one or the row had
  already got another one.
\<close>

lemma finish_own:
  assumes laws: "box_laws env" and v: "vault_ok env v" and run: "finish_exchange env net link a now m x v = (r, v')"
    and acc: "rotated m x \<Longrightarrow> \<not> isl r" and c: "stored_in env v' a c" "refresh_token_of c = Some tok"
  shows "(stored_in env v a c \<and> (rotated m x \<longrightarrow> tok \<noteq> rm_refresh_token m)) \<or> (rotated m x \<and> issued x = Some tok) \<or>
    (\<not> rotated m x \<and> (\<exists>d. stored_in env v a d \<and> refresh_token_of d = Some tok))"
proof (cases x)
  case (Inl e)
  have "va_binding (vault_command env (VC_MarkOAuthDead a) v) = va_binding v"
    "va_blobs (vault_command env (VC_MarkOAuthDead a) v) = va_blobs v"
    by (simp_all add: vault_command_def handle_mark_oauth_dead_def Let_def)
  then have "va_binding v' = va_binding v" "va_blobs v' = va_blobs v" using run
    by (auto simp: finish_exchange_def Inl source_report_terminal_def split: OAuthRefreshError.splits link.splits)
  then have "stored_in env v a c" using c stored_in_cong [of v' v a env c] by simp
  then show ?thesis by (simp add: Inl rotated_def issued_def)
next
  case (Inr tokens)
  show ?thesis
  proof (cases "link = L_Up")
    case False
    then have "v' = v" "isl r" using run
      by (cases link; auto simp: finish_exchange_def Inr source_save_def)+
    then show ?thesis using acc c by auto
  next
    case True
    let ?save = "save_request net a now m tokens"
    note sv = save_request_fields [of net a now m tokens, folded Inr]
    note ans = finish_saved [OF _ run [unfolded Inr True]]
    have unchanged: "refresh_token_unchanged current (Some (rm_refresh_token m)) \<longleftrightarrow>
        refresh_token_of current = Some (rm_refresh_token m)" for current
      by (simp add: refresh_token_unchanged_def refresh_token_of_def)
    show ?thesis
      using laws
    proof (cases rule: save_token_cases [where save = ?save and v = v])
      case (refused e u)
      then have "\<not> rotated m x" "stored_in env v a c" using ans [OF refused(1)] acc c stored_in_cong [of u v a env c] by auto
      then show ?thesis by simp
    next
      case (stale current u)
      then have st: "stored_in env v a c" using ans [OF stale(1)] c stored_in_cong [of u v a env c] by simp
      then have "c = current" using loaded_is_stored [OF v, of a current] stale(4) by (intro stored_unique [OF v st]) (simp add: sv)
      then show ?thesis using st stale(5) c(2) by (simp add: sv unchanged)
    next
      case (same current u)
      then have st: "stored_in env v a c" using ans [OF same(1)] c stored_in_cong [of u v a env c] by simp
      have "\<not> rotated m x"
        using same(5,6) by (auto simp: sv unchanged durable_change_def rotated_def refresh_token_of_def split: option.splits)
      then show ?thesis using st by simp
    next
      case (stored current pk blob u)
      then have new: "c = rotate_grant (issued x) (sv_new_account_id ?save) current"
        using ans [OF stored(1)] c(1) stored_new_box [OF stored(3) _ stored(8), of a c] by (simp add: sv map_of_hm_insert)
      have old: "refresh_token_of current = Some (rm_refresh_token m)" "stored_in env v a current"
        using stored(5,7) loaded_is_stored [OF v, of a current] by (auto simp: sv unchanged)
      show ?thesis
      proof (cases "rotated m x")
        case True
        then show ?thesis using c(2) by (auto simp: new rotate_grant_token [OF stored(6)] rotated_def split: option.splits)
      next
        case False
        then have "tok = rm_refresh_token m"
          using c(2) old(1) by (auto simp: new rotate_grant_token [OF stored(6)] rotated_def split: option.splits)
        then show ?thesis using False old by blast
      qed
    qed
  qed
qed

lemma finish_tokens_ok:
  assumes laws: "box_laws env" and fl: "flights_ok w" and v: "vault_ok env (rw_vault w)" and ok: "tokens_ok env a w"
    and f: "map_of (rw_flights w) t = Some f" "fg_phase f = FP_Exchanged h m x"
    and run: "finish_exchange env net link (fg_key f) (fg_now f) m x (rw_vault w) = (r, v')"
    and acc: "fg_key f = a \<Longrightarrow> rotated m x \<Longrightarrow> \<not> isl r"
  shows "tokens_ok env a (put_flight t f (FP_Finished h r) (w\<lparr>rw_vault := v', rw_lost := lost\<rparr>))"
proof (rule tokens_okI)
  let ?w = "put_flight t f (FP_Finished h r) (w\<lparr>rw_vault := v', rw_lost := lost\<rparr>)"
  {
    fix c tok assume s: "stored_in env (rw_vault ?w) a c" "refresh_token_of c = Some tok" "tok \<in> set (traded a (rw_log ?w))"
    show "unsaved ?w a tok"
    proof (cases "fg_key f = a")
      case False
      then have "stored_in env (rw_vault w) a c" using finish_other [OF laws run, of a c] s(1) by simp
      then have "unsaved w a tok" using tokens_okD(1) [OF ok, of c tok] s by simp
      then obtain t0 f0 h0 m0 x0 where u: "map_of (rw_flights w) t0 = Some f0" "fg_key f0 = a"
        "fg_phase f0 = FP_Exchanged h0 m0 x0" "rotated m0 x0" "rm_refresh_token m0 = tok" by (auto simp: unsaved_def)
      then have "t0 \<noteq> t" using f(1) False by auto
      then show ?thesis using u by (auto simp: unsaved_def)
    next
      case key: True
      have mine: "rotated m x \<and> rm_refresh_token m = tok"
        if st: "stored_in env (rw_vault w) a d" "refresh_token_of d = Some tok" for d
      proof -
        obtain t0 f0 h0 m0 x0 where u: "map_of (rw_flights w) t0 = Some f0" "fg_key f0 = a"
          "fg_phase f0 = FP_Exchanged h0 m0 x0" "rotated m0 x0" "rm_refresh_token m0 = tok"
          using tokens_okD(1) [OF ok st] s(3) by (auto simp: unsaved_def)
        then have "t0 = t" using exchanging_unique [OF fl f(1) _ u(1)] f(2) key by simp
        then show ?thesis using u f by simp
      qed
      have "stored_in env v' a c" using s(1) by simp
      from finish_own [OF laws v run [unfolded key] acc [OF key] this s(2)] mine
      have "rotated m x \<and> issued x = Some tok" using s(2) by blast
      then show ?thesis using tokens_okD(3) [OF ok f(1) key f(2)] s(3) by simp
    qed
  next
    fix t' f' h' m' assume "map_of (rw_flights ?w) t' = Some f'" "fg_key f' = a" "fg_phase f' = FP_Loaded h' m'"
    then show "rm_refresh_token m' \<notin> set (traded a (rw_log ?w))"
      using tokens_okD(2) [OF ok, of t' f' h' m'] by (auto split: if_splits)
  next
    fix t' f' h' m' x' tok
    assume "map_of (rw_flights ?w) t' = Some f'" "fg_key f' = a" "fg_phase f' = FP_Exchanged h' m' x'" "rotated m' x'"
      "issued x' = Some tok"
    then show "tok \<notin> set (traded a (rw_log ?w))"
      using tokens_okD(3) [OF ok, of t' f' h' m' x' tok] by (auto split: if_splits)
  next
    show "used_once a (rw_log ?w)" using tokens_okD(4) [OF ok] by simp
  }
qed

lemma arrivals_trade_nothing [simp]: "traded a (arrivals cmd) = []"
  using arrivals_cases [of cmd] by (auto simp: traded_def)

lemma arrivals_history:
  "used_once a (h @ arrivals cmd) = used_once a h"
  "brings_fresh a (h @ arrivals cmd) \<Longrightarrow> brings_fresh a h"
  "brings_fresh a (h @ arrivals cmd) \<Longrightarrow> RE_Arrived a tok \<in> set (arrivals cmd) \<Longrightarrow> tok \<notin> set (traded a h)"
  using arrivals_cases [of cmd] by (auto simp: used_once_snoc brings_fresh_snoc)

lemma command_tokens_ok:
  assumes laws: "box_laws env" and v: "vault_ok env (rw_vault w)" and ok: "tokens_ok env a w"
    and cmd: "\<not> saves_refreshed cmd" and fresh: "brings_fresh a (rw_log w @ arrivals cmd)"
  shows "tokens_ok env a (w\<lparr>rw_vault := vault_command env cmd (rw_vault w), rw_log := rw_log w @ arrivals cmd\<rparr>)"
proof (rule tokens_okI)
  let ?w = "w\<lparr>rw_vault := vault_command env cmd (rw_vault w), rw_log := rw_log w @ arrivals cmd\<rparr>"
  {
    fix c tok assume s: "stored_in env (rw_vault ?w) a c" "refresh_token_of c = Some tok" "tok \<in> set (traded a (rw_log ?w))"
    have "tok \<in> set (traded a (rw_log w))" using s(3) by simp
    moreover have "set (arrival a c) = {RE_Arrived a tok}" using s(2) by (simp add: arrival_def)
    ultimately have "stored_in env (rw_vault w) a c"
      using command_stored [OF laws v cmd, of a c] s(1) arrivals_history(3) [OF fresh, of tok] by auto
    then have "unsaved w a tok" using tokens_okD(1) [OF ok _ s(2)] s(3) by simp
    then show "unsaved ?w a tok" by (simp add: unsaved_def)
  }
qed (use tokens_okD(2,3,4) [OF ok] in \<open>auto simp: arrivals_history(1)\<close>)

lemma flight_step_vault_ok:
  assumes laws: "box_laws env" and v: "vault_ok env (rw_vault w)" and step: "flight_step env net link t w = Some w'"
  shows "vault_ok env (rw_vault w')"
proof -
  obtain f where f: "map_of (rw_flights w) t = Some f" using step by (auto simp: flight_step_def split: option.splits)
  show ?thesis
  proof (cases "fg_phase f")
    case (FP_Locked h)
    then show ?thesis using step f source_ok(1) [OF laws v] by (auto simp: flight_step_def split: prod.splits)
  next
    case (FP_Exchanged h m x)
    then show ?thesis using step f source_ok(2) [OF laws v] by (auto simp: flight_step_def split: prod.splits)
  next
    case FP_Acquire
    then show ?thesis using step f v by (auto simp: flight_step_def refresh_acquire_def split: option.splits)
  qed (use step f v in \<open>auto simp: flight_step_def Let_def end_flight_def refresh_prune_def split: if_splits\<close>)
qed

lemma unrotated_tokens_ok:
  assumes ok: "tokens_ok env a w" and f: "map_of (rw_flights w) t = Some f" "fg_phase f = FP_Loaded h m" and x: "\<not> rotated m x"
  shows "tokens_ok env a (put_flight t f (FP_Exchanged h m x) w)"
proof (rule tokens_okI)
  let ?w = "put_flight t f (FP_Exchanged h m x) w"
  {
    fix c tok assume "stored_in env (rw_vault ?w) a c" "refresh_token_of c = Some tok" "tok \<in> set (traded a (rw_log ?w))"
    then have "unsaved w a tok" using tokens_okD(1) [OF ok] by simp
    then obtain t0 f0 h0 m0 x0 where u: "map_of (rw_flights w) t0 = Some f0" "fg_key f0 = a"
      "fg_phase f0 = FP_Exchanged h0 m0 x0" "rotated m0 x0" "rm_refresh_token m0 = tok" by (auto simp: unsaved_def)
    then have "t0 \<noteq> t" using f by auto
    then show "unsaved ?w a tok" using u by (auto simp: unsaved_def)
  next
    fix t' f' h' m' assume "map_of (rw_flights ?w) t' = Some f'" "fg_key f' = a" "fg_phase f' = FP_Loaded h' m'"
    then show "rm_refresh_token m' \<notin> set (traded a (rw_log ?w))"
      using tokens_okD(2) [OF ok, of t' f' h' m'] by (auto split: if_splits)
  next
    fix t' f' h' m' x' tok
    assume "map_of (rw_flights ?w) t' = Some f'" "fg_key f' = a" "fg_phase f' = FP_Exchanged h' m' x'" "rotated m' x'"
      "issued x' = Some tok"
    then show "tok \<notin> set (traded a (rw_log ?w))"
      using tokens_okD(3) [OF ok, of t' f' h' m' x' tok] x by (auto split: if_splits)
  next
    show "used_once a (rw_log ?w)" using tokens_okD(4) [OF ok] by simp
  }
qed

lemma flight_step_tokens_ok:
  assumes laws: "box_laws env" and fl: "flights_ok w" and v: "vault_ok env (rw_vault w)" and ok: "tokens_ok env a w"
    and step: "flight_step env net link t w = Some w'" and fresh: "brings_fresh a (rw_log w')" and lost: "a \<notin> set (rw_lost w')"
  shows "tokens_ok env a w'"
proof -
  obtain f where f: "map_of (rw_flights w) t = Some f" using step by (auto simp: flight_step_def split: option.splits)
  note simps = flight_step_def f exchanging_def
  show ?thesis
  proof (cases "fg_phase f")
    case FP_Acquire
    then show ?thesis using step
      by (intro tokens_ok_idle [OF ok]) (auto simp: simps refresh_acquire_def split: option.splits if_splits)
  next
    case (FP_Waiting h)
    then show ?thesis using step by (intro tokens_ok_idle [OF ok]) (auto simp: simps split: if_splits)
  next
    case (FP_Locked h)
    then show ?thesis using step load_tokens_ok [OF fl v ok f FP_Locked _ refl]
      by (auto simp: flight_step_def f split: prod.splits)
  next
    case (FP_Loaded h m)
    let ?x = "refresh_token_exchange net (length (rw_log w)) (refresh_request m)"
    show ?thesis
    proof (cases "is_secure_endpoint (rm_token_endpoint m)")
      case True
      then have "w' = put_flight t f (FP_Exchanged h m ?x) (w\<lparr>rw_log := rw_log w @
          [RE_Exchange (fg_key f) (rm_token_endpoint m) (rm_refresh_token m) (issued ?x)]\<rparr>)"
        using step by (simp add: flight_step_def f FP_Loaded Let_def)
      then show ?thesis using exchange_tokens_ok [OF fl ok f FP_Loaded refl] fresh by simp
    next
      case False
      then have w': "w' = put_flight t f (FP_Exchanged h m ?x) w" and x: "\<not> rotated m ?x"
        using step by (simp_all add: flight_step_def f FP_Loaded Let_def rotated_def issued_def refresh_token_exchange_def refresh_request_def)
      show ?thesis unfolding w' by (rule unrotated_tokens_ok [OF ok f FP_Loaded x])
    qed
  next
    case (FP_Exchanged h m x)
    obtain r v' where run: "finish_exchange env net link (fg_key f) (fg_now f) m x (rw_vault w) = (r, v')" by fastforce
    then have w': "w' = put_flight t f (FP_Finished h r) (w\<lparr>rw_vault := v',
        rw_lost := (if rotated m x \<and> isl r then fg_key f # rw_lost w else rw_lost w)\<rparr>)"
      using step by (simp add: flight_step_def f FP_Exchanged)
    show ?thesis
      unfolding w' by (rule finish_tokens_ok [OF laws fl v ok f FP_Exchanged run]) (use lost w' in \<open>auto split: if_splits\<close>)
  qed (use step in \<open>auto simp: simps end_flight_def refresh_prune_def map_of_hm_remove intro!: tokens_ok_idle [OF ok] split: if_splits\<close>)
qed

text \<open>Fresh histories and lost rotations only grow.\<close>

lemma flight_step_history:
  assumes "flight_step env net link t w = Some w'"
  shows "\<exists>es. rw_log w' = rw_log w @ es" and "set (rw_lost w) \<subseteq> set (rw_lost w')"
  using assms
  by (auto simp: flight_step_def refresh_acquire_def end_flight_def refresh_prune_def Let_def
      split: option.splits flight_phase.splits prod.splits if_splits sum.splits)

lemma brings_fresh_prefix: "brings_fresh a (xs @ ys) \<Longrightarrow> brings_fresh a xs"
  by (simp add: brings_fresh_def avoids_append)

lemma refresh_reach_tokens:
  assumes "refresh_reach env net v0 w" and laws: "box_laws env" and v0: "vault_ok env v0"
  shows "vault_ok env (rw_vault w) \<and> (brings_fresh a (rw_log w) \<longrightarrow> a \<notin> set (rw_lost w) \<longrightarrow> tokens_ok env a w)"
  using assms(1)
proof (induction rule: refresh_reach.induct)
  case start
  show ?case using v0 by (simp add: refresh_start_def tokens_ok_def used_once_def)
next
  case (begun w t key mcp force now)
  have none: "map_of (rw_flights w) t = None" using begun(2) by (simp add: map_of_eq_None_iff)
  then have "tokens_ok env a w \<Longrightarrow> tokens_ok env a (begin_refresh t key mcp force now w)"
    by (rule_tac tokens_ok_idle) (auto simp: begin_refresh_def map_of_hm_insert exchanging_def)
  then show ?case using begun(3) by (auto simp: begin_refresh_def)
next
  case (step w link t w')
  note fl = refresh_reach_ok [OF step(1)]
  obtain es where es: "rw_log w' = rw_log w @ es" using flight_step_history(1) [OF step(2)] by blast
  have v: "vault_ok env (rw_vault w)" using step(3) by blast
  have "tokens_ok env a w'" if "brings_fresh a (rw_log w')" "a \<notin> set (rw_lost w')"
  proof -
    have "tokens_ok env a w"
      using step(3) that es flight_step_history(2) [OF step(2)] brings_fresh_prefix [of a "rw_log w" es] by auto
    then show ?thesis using flight_step_tokens_ok [OF laws fl v _ step(2) that] by blast
  qed
  then show ?case using flight_step_vault_ok [OF laws v step(2)] by blast
next
  case (command w cmd)
  then show ?case
    using command_tokens_ok [OF laws, of w a cmd] vault_command_ok [OF laws] brings_fresh_prefix [of a "rw_log w" "arrivals cmd"]
    by auto
next
  case (pruned w)
  have "tokens_ok env a w \<Longrightarrow> tokens_ok env a (refresh_prune w)"
    by (rule tokens_ok_idle) (simp_all add: refresh_prune_def)
  then show ?case using pruned(2) by (simp add: refresh_prune_def)
qed

section \<open>A sample\<close>

text \<open>A schedule: which refresh goes on, or what the keystore is told in between.\<close>

datatype refresh_op = RR_Begin nat string bool i64 | RR_Step nat | RR_Command VaultCommand

fun run_refresh :: "KeyEnv \<Rightarrow> TokenNet \<Rightarrow> refresh_op list \<Rightarrow> refresh_world \<Rightarrow> refresh_world option" where
  "run_refresh env net [] w = Some w"
| "run_refresh env net (RR_Begin t key force now # ops) w =
     (if t \<in> fst ` set (rw_flights w) then None else run_refresh env net ops (begin_refresh t key False force now w))"
| "run_refresh env net (RR_Step t # ops) w =
     (case flight_step env net L_Up t w of None \<Rightarrow> None | Some w \<Rightarrow> run_refresh env net ops w)"
| "run_refresh env net (RR_Command cmd # ops) w =
     (if saves_refreshed cmd then None
      else run_refresh env net ops (w\<lparr>rw_vault := vault_command env cmd (rw_vault w), rw_log := rw_log w @ arrivals cmd\<rparr>))"

lemma run_refresh_reach:
  "run_refresh env net ops w = Some w' \<Longrightarrow> refresh_reach env net v0 w \<Longrightarrow> refresh_reach env net v0 w'"
  by (induction env net ops w rule: run_refresh.induct)
     (auto intro: refresh_reach.intros split: if_splits option.splits)

definition sample_grant :: "string \<Rightarrow> ServiceCredential" where
  "sample_grant t = SC_OAuth OK_Provider None None None (Some ''https://as.example/token'') (Some GE_Form) (Some t)
     None None None [] None None"

definition sample_grant_env :: KeyEnv where
  "sample_grant_env = sample_key_env\<lparr>
     ke_to_allocvec := (\<lambda>c. case refresh_token_of c of
         Some t \<Rightarrow> if c = sample_grant t then Inr (map byte_of t) else Inl ''unsupported''
       | None \<Rightarrow> Inl ''unsupported''),
     ke_from_bytes := (\<lambda>p. Some (sample_grant (map char_of_byte p)))\<rparr>"

text \<open>An endpoint that answers each post with new tokens, and one that rejects the second.\<close>

definition sample_tokens :: "string \<Rightarrow> TokenResponse" where
  "sample_tokens body = empty_response\<lparr>tr_access_token := Some (''access'' @ body), tr_refresh_token := Some (''refresh'' @ body)\<rparr>"

definition rotating_net :: TokenNet where
  "rotating_net = \<lparr>net_post = (\<lambda>n _ _ _. Inr (200, Inr (show_nat n))), net_from_json = Some \<circ> sample_tokens,
     net_to_json = (\<lambda>_. []), net_account_id = (\<lambda>_. None)\<rparr>"

definition rejecting_net :: TokenNet where
  "rejecting_net = rotating_net\<lparr>net_post := (\<lambda>n _ _ _. Inr (if n = 0 then (200, Inr ''0'') else (400, Inr [])))\<rparr>"

definition sample_grant_vault :: Vault where
  "sample_grant_vault = vault_run sample_grant_env
     [VC_BindKeystore sample_secret None 0, VC_SaveCredential ''acct'' (sample_grant ''refresh'') None 1]
     (Vault_open sample_grant_env sample_loop None [])"

definition two_refreshes :: "refresh_op list" where
  "two_refreshes = [RR_Begin 1 ''acct'' False 0, RR_Begin 2 ''acct'' True 0] @ replicate 8 (RR_Step 1) @ replicate 4 (RR_Step 2)"

lemma two_refreshes_run:
  "map_option (\<lambda>w. (rw_log w, rw_lost w))
     (run_refresh sample_grant_env rotating_net two_refreshes (refresh_start sample_grant_vault)) =
     Some ([RE_Exchange ''acct'' ''https://as.example/token'' ''refresh'' (Some ''refresh0''),
            RE_Exchange ''acct'' ''https://as.example/token'' ''refresh0'' (Some ''refresh1'')], [])"
  by code_simp

lemma sample_grant_laws: "box_laws sample_grant_env"
proof -
  have char: "char_of_byte (byte_of c) = c" for c
    by (simp add: char_of_byte_def byte_of_def unat_of_nat char_of_def [symmetric] take_bit_eq_mod [symmetric])
  have "\<forall>c p. ke_to_allocvec sample_grant_env c = Inr p \<longrightarrow> ke_from_bytes sample_grant_env p = Some c"
    by (auto simp: sample_grant_env_def char o_def split: option.splits if_splits)
  then show ?thesis using sample_key_laws by (simp add: box_laws_def sample_grant_env_def)
qed

lemma sample_grant_ok: "vault_ok sample_grant_env sample_grant_vault"
proof -
  have "disk_ok sample_grant_env (Vault_open sample_grant_env sample_loop None [])"
    by (simp add: disk_ok_def Vault_open_def Let_def hm_ok_def)
  then have "vault_ok sample_grant_env (Vault_open sample_grant_env sample_loop None [])"
    using vault_open_ok [of sample_grant_env "Vault_open sample_grant_env sample_loop None []" sample_loop]
    by (simp add: Vault_open_def Let_def)
  then show ?thesis by (simp add: sample_grant_vault_def vault_run_ok [OF sample_grant_laws])
qed

section \<open>Properties\<close>

lemma flight_unblocked:
  assumes "map_of (rw_flights w) t = Some f" and "\<And>h. fg_phase f = FP_Waiting h \<Longrightarrow> rw_free w h"
  shows "\<exists>w'. flight_step env net link t w = Some w'"
  using assms by (cases "fg_phase f") (auto simp: flight_step_def Let_def split: prod.split)

text \<open>
  C9. At most one refresh of a credential runs at a time, whichever sessions and MCP
  connections ask for one and whenever the registry of locks is pruned: two refreshes of
  the same credential never hold its lock together. And no refresh waits for ever on the
  lock alone: as long as one is under way, some refresh can take its next step.
\<close>

theorem one_refresh_at_a_time:
  assumes "refresh_reach env net v0 w"
  shows "(\<forall>t f t' f'. refreshing w t f \<and> refreshing w t' f' \<and> fg_key f = fg_key f' \<longrightarrow> t = t') \<and>
    (rw_flights w = [] \<or> (\<exists>t w'. flight_step env net link t w = Some w'))"
proof (intro conjI allI impI)
  note ok = refresh_reach_ok [OF assms]
  show "t = t'" if "refreshing w t f \<and> refreshing w t' f' \<and> fg_key f = fg_key f'" for t f t' f'
    using refreshing_unique [OF ok] that by blast
  show "rw_flights w = [] \<or> (\<exists>t w'. flight_step env net link t w = Some w')"
  proof (cases "rw_flights w")
    case (Cons tf rest)
    obtain t f where tf: "tf = (t, f)" by (cases tf)
    then have f: "map_of (rw_flights w) t = Some f" by (simp add: Cons)
    show ?thesis
    proof (cases "\<exists>h. fg_phase f = FP_Waiting h \<and> \<not> rw_free w h")
      case False
      then show ?thesis using flight_unblocked [OF f] by blast
    next
      case True
      then obtain h where h: "fg_phase f = FP_Waiting h" "\<not> rw_free w h" by blast
      then have "map_of (rw_map w) (fg_key f) = Some h" using flights_okD(3) [OF ok f] by simp
      then obtain t' f' where f': "map_of (rw_flights w) t' = Some f'" "flight_guard f' = Some h"
        using flights_okD(6) [OF ok] h(2) by blast
      then have "\<exists>w'. flight_step env net link t' w = Some w'" by (intro flight_unblocked) auto
      then show ?thesis by blast
    qed
  qed simp
qed

text \<open>
  C8. A refresh token is spent once. However the refreshes of an account interleave with
  each other and with logins, logouts, locking and unlocking, no token is presented to
  the token endpoint again after an exchange has replaced it, provided the endpoint and
  the logins bring tokens that have not been replaced before, and no rotation was lost
  because it could not be stored.
\<close>

theorem refresh_tokens_used_once:
  assumes "box_laws env" and "vault_ok env v0" and "refresh_reach env net v0 w"
    and "brings_fresh a (rw_log w)" and "a \<notin> set (rw_lost w)"
  shows "used_once a (rw_log w)"
  using refresh_reach_tokens [OF assms(3,1,2), of a] assms(4,5) tokens_okD(4) by blast

theorem one_refresh_at_a_time_witness:
  "\<exists>t w'. flight_step sample_grant_env rotating_net L_Closed t
     (begin_refresh 1 ''acct'' False True 0 (refresh_start sample_grant_vault)) = Some w'"
proof -
  let ?w = "begin_refresh 1 ''acct'' False True 0 (refresh_start sample_grant_vault)"
  have "refresh_reach sample_grant_env rotating_net sample_grant_vault ?w"
    by (intro refresh_reach.begun refresh_reach.start) (simp add: refresh_start_def)
  from one_refresh_at_a_time [OF this, of L_Closed] show ?thesis
    by (simp add: begin_refresh_def refresh_start_def)
qed

theorem refresh_tokens_used_once_witness:
  "\<exists>w. refresh_reach sample_grant_env rotating_net sample_grant_vault w \<and> length (rw_log w) = 2 \<and>
     used_once ''acct'' (rw_log w)"
proof -
  obtain w where w: "run_refresh sample_grant_env rotating_net two_refreshes (refresh_start sample_grant_vault) = Some w"
    "rw_log w = [RE_Exchange ''acct'' ''https://as.example/token'' ''refresh'' (Some ''refresh0''),
       RE_Exchange ''acct'' ''https://as.example/token'' ''refresh0'' (Some ''refresh1'')]" "rw_lost w = []"
    using two_refreshes_run by auto
  have reach: "refresh_reach sample_grant_env rotating_net sample_grant_vault w"
    by (rule run_refresh_reach [OF w(1) refresh_reach.start])
  have "brings_fresh ''acct'' (rw_log w)" by (simp add: w(2) brings_fresh_def)
  from refresh_tokens_used_once [OF sample_grant_laws sample_grant_ok reach this] w reach
  show ?thesis by auto
qed

lemma unlock_dead: "va_dead_oauth (handle_unlock env k reply ack v) = va_dead_oauth v"
  by (cases rule: unlock_tail_cases [of env k v])
     (auto simp: handle_unlock_def handle_unlock_inner_def key_of_def split: sum.split)

lemma command_fields:
  "va_locked (vault_command env cmd v) = va_locked (vault_handle env cmd v)"
  "va_binding (vault_command env cmd v) = va_binding (vault_handle env cmd v)"
  "va_blobs (vault_command env cmd v) = va_blobs (vault_handle env cmd v)"
  "va_credentials (vault_command env cmd v) = va_credentials (vault_handle env cmd v)"
  "va_dead_oauth (vault_command env cmd v) = va_dead_oauth (vault_handle env cmd v)"
  by (simp_all add: vault_command_def Let_def dm_advance_def)

lemma material_cong:
  "map_of (va_credentials v') a = map_of (va_credentials v) a \<Longrightarrow> oauth_refresh_material a v' = oauth_refresh_material a v"
  by (simp add: oauth_refresh_material_def)

lemma locked_save:
  assumes "va_locked v"
  obtains v' where "finish_exchange env net L_Up a now m (Inr tokens) v =
      (Inl (RF_Transient ''failed to persist refreshed token: unlock the keystore first''), v')"
    "va_blobs v' = va_blobs v" "va_binding v' = va_binding v" "va_dead_oauth v' = va_dead_oauth v"
proof -
  have "ask_daemon env (VC_SaveOAuthToken save) v = (Some (VA_Result (Inl ''unlock the keystore first'')),
      vault_command env (VC_SaveOAuthToken save (length (va_answers v))) v)" for save
    using assms by (simp add: ask_daemon_def Let_def vault_command_def handle_save_oauth_token_def)
  then show ?thesis
    using assms
    by (intro that [of "vault_command env (VC_SaveOAuthToken (save_request net a now m tokens) (length (va_answers v))) v"])
       (simp_all add: finish_exchange_def source_save_def save_request_def command_fields handle_save_oauth_token_def)
qed

lemma rejected_refresh:
  assumes "oauth_refresh_material a v = Some m" and "a \<notin> set (va_dead_oauth v)"
    and "refresh_token_exchange net n (refresh_request m) = Inl (OE_Terminal d)"
  obtains v' where "refresh_under_lock env net L_Up n a True now v = (Inl RF_Terminal, v')" "a \<in> set (va_dead_oauth v')"
proof -
  let ?u = "vault_command env (VC_LoadOAuthToken a (length (va_answers v))) v"
  have "source_load env L_Up a v = (oauth_token_load a v, ?u)"
    by (simp add: source_load_def ask_daemon_def Let_def vault_command_def)
  then have run: "refresh_under_lock env net L_Up n a True now v =
      (Inl RF_Terminal, vault_command env (VC_MarkOAuthDead a) ?u)"
    using assms by (simp add: refresh_under_lock_def refresh_needed_def oauth_token_load_def finish_exchange_def
        source_report_terminal_def)
  show ?thesis by (rule that [OF run]) (simp add: command_fields handle_mark_oauth_dead_def Let_def)
qed

text \<open>
  C38. A rotation is lost when the keystore is locked while the exchange is under way: the
  save is refused as a transient failure, although the token endpoint has replaced the
  token. After an unlock the daemon still has the replaced token and presents it again,
  and when the endpoint rejects it the account is quarantined and the user has to sign in
  again, with a grant that was never revoked.
\<close>

theorem lock_during_refresh_loses_grant:
  assumes ok: "vault_ok env v" and m: "oauth_refresh_material a v = Some m"
    and k: "length k = 32" "va_binding v = Some (ke_public env k)" and good: "\<And>n. unlockable env n"
    and rejects: "refresh_token_exchange net n (refresh_request m) = Inl (OE_Terminal d)"
  shows "\<exists>v2 v3. finish_exchange env net L_Up a now m (Inr tokens) (vault_command env (VC_Lock 0) v) =
      (Inl (RF_Transient ''failed to persist refreshed token: unlock the keystore first''), v2) \<and>
    refresh_under_lock env net L_Up n a True later (vault_command env (VC_Unlock k None 1) v2) = (Inl RF_Terminal, v3) \<and>
    a \<in> set (va_dead_oauth v3)"
proof -
  let ?v1 = "vault_command env (VC_Lock 0) v"
  have v1: "va_locked ?v1" "va_blobs ?v1 = va_blobs v" "va_binding ?v1 = va_binding v" "va_dead_oauth ?v1 = []"
    by (simp_all add: command_fields handle_lock_def Let_def set_locked_def publish_mcp_oauth_snapshot_def)
  obtain v2 where v2: "finish_exchange env net L_Up a now m (Inr tokens) ?v1 =
      (Inl (RF_Transient ''failed to persist refreshed token: unlock the keystore first''), v2)"
    "va_blobs v2 = va_blobs v" "va_binding v2 = va_binding v" "va_dead_oauth v2 = []"
    using locked_save [OF v1(1)] v1 by metis
  obtain c where c: "map_of (va_credentials v) a = Some c" using material_token [OF m] by blast
  then obtain k0 where k0: "length k0 = 32" "va_binding v = Some (ke_public env k0)"
    "map_of (va_credentials v) a = Option.bind (map_of (va_blobs v) a) (open_blob env k0)"
    using ok loaded_is_stored [OF ok c] by (auto simp: vault_ok_def memory_ok_def)
  have disk: "disk_ok env v" "disk_ok env v2" using ok disk_ok_cong [of v2 v] v2 by (simp_all add: vault_ok_def)
  have "map_of (va_credentials (handle_unlock env k None 1 v2)) a = Option.bind (map_of (va_blobs v2) a) (open_blob env k)"
    using handle_unlock_credentials [OF disk(2) k(1) _ good] k(2) v2(3) by simp
  then have "oauth_refresh_material a (vault_command env (VC_Unlock k None 1) v2) = Some m"
    using opened_alike [OF disk(1) k(2,1) k0(2,1), of a] k0(3) v2(2) m
    by (subst material_cong [of _ a v]) (simp_all add: command_fields)
  moreover have "a \<notin> set (va_dead_oauth (vault_command env (VC_Unlock k None 1) v2))"
    using v2(4) by (simp add: command_fields unlock_dead)
  ultimately obtain v3 where "refresh_under_lock env net L_Up n a True later (vault_command env (VC_Unlock k None 1) v2) =
      (Inl RF_Terminal, v3)" "a \<in> set (va_dead_oauth v3)"
    using rejected_refresh [OF _ _ rejects] by metis
  then show ?thesis using v2(1) by blast
qed

theorem lock_during_refresh_loses_grant_witness:
  "\<exists>m v2 v3. oauth_refresh_material ''acct'' sample_grant_vault = Some m \<and>
    finish_exchange sample_grant_env rejecting_net L_Up ''acct'' 0 m
      (refresh_token_exchange rejecting_net 0 (refresh_request m)) (vault_command sample_grant_env (VC_Lock 0) sample_grant_vault) =
      (Inl (RF_Transient ''failed to persist refreshed token: unlock the keystore first''), v2) \<and>
    refresh_under_lock sample_grant_env rejecting_net L_Up 1 ''acct'' True 5
      (vault_command sample_grant_env (VC_Unlock sample_secret None 1) v2) = (Inl RF_Terminal, v3) \<and>
    ''acct'' \<in> set (va_dead_oauth v3)"
proof -
  have "\<not> va_locked sample_grant_vault \<and> va_binding sample_grant_vault = Some sample_secret \<and>
      map_of (va_credentials sample_grant_vault) ''acct'' = Some (sample_grant ''refresh'')"
    by code_simp
  then obtain m where m: "oauth_refresh_material ''acct'' sample_grant_vault = Some m"
      "rm_token_endpoint m = ''https://as.example/token''" "rm_encoding m = GE_Form"
      and b: "va_binding sample_grant_vault = Some (ke_public sample_grant_env sample_secret)"
    by (auto simp: oauth_refresh_material_def sample_grant_def sample_grant_env_def)
  have secure: "is_secure_endpoint (rq_token_endpoint (refresh_request m))"
    unfolding refresh_request_def OAuthRefreshRequest.simps m(2) by code_simp
  obtain tokens d where "refresh_token_exchange rejecting_net 0 (refresh_request m) = Inr tokens"
    and rejects: "refresh_token_exchange rejecting_net 1 (refresh_request m) = Inl (OE_Terminal d)"
    using secure by (simp add: refresh_token_exchange_def rejecting_net_def rotating_net_def parse_token_response_def
        TokenSet_from_response_def sample_tokens_def empty_response_def Let_def)
  moreover have "unlockable sample_grant_env n" for n
    by (simp add: unlockable_def sample_grant_env_def sample_key_env_def AccountManager_load_def)
  ultimately show ?thesis
    using lock_during_refresh_loses_grant [OF sample_grant_ok m(1) _ b _ rejects, of 0 tokens 5] m(1) by simp
qed

section \<open>A refresh without interference\<close>

text \<open>
  A refresh that has the lock and is not interfered with ends, in at most three steps,
  with the result and the keystore of \<open>refresh_under_lock\<close>.
\<close>

fun flight_steps :: "KeyEnv \<Rightarrow> TokenNet \<Rightarrow> link \<Rightarrow> nat \<Rightarrow> nat \<Rightarrow> refresh_world \<Rightarrow> refresh_world option" where
  "flight_steps env net link t 0 w = Some w"
| "flight_steps env net link t (Suc n) w = Option.bind (flight_step env net link t w) (flight_steps env net link t n)"

theorem undisturbed_refresh:
  assumes f: "map_of (rw_flights w) t = Some f" "fg_phase f = FP_Locked h"
    and run: "refresh_under_lock env net link (length (rw_log w)) (fg_key f) (fg_force f) (fg_now f) (rw_vault w) = (r, v)"
  shows "\<exists>n \<le> 3. \<exists>w'. flight_steps env net link t n w = Some w' \<and> rw_vault w' = v \<and>
    map_of (rw_flights w') t = Some (f\<lparr>fg_phase := FP_Finished h r\<rparr>)"
proof -
  obtain load v1 where load: "source_load env link (fg_key f) (rw_vault w) = (load, v1)" by fastforce
  show ?thesis
  proof (cases "refresh_needed (fg_force f) (fg_now f) load")
    case (Inl result)
    then show ?thesis
      using run load by (intro exI [of _ 1]) (auto simp: flight_step_def f refresh_under_lock_def)
  next
    case (Inr m)
    then have fin: "finish_exchange env net link (fg_key f) (fg_now f) m
        (refresh_token_exchange net (length (rw_log w)) (refresh_request m)) v1 = (r, v)"
      using run load by (simp add: refresh_under_lock_def)
    show ?thesis
      by (intro exI [of _ 3]) (auto simp: numeral_3_eq_3 flight_step_def f load Inr Let_def fin)
  qed
qed

text \<open>A grant that was current keeps its fields through a rotation.\<close>

lemma rotated_material:
  assumes "oauth_refresh_material a v = Some m" and "map_of (va_credentials v) a = Some c"
    and "map_of (va_credentials v') a = Some (rotate_grant r i c)"
  shows "\<exists>m'. oauth_refresh_material a v' = Some m'"
  using assms by (cases c) (auto simp: oauth_refresh_material_def split: option.splits if_splits)

lemma rotate_nothing: "rotate_grant None None c = c"
  by (cases c) auto

text \<open>
  The loser of a race reuses what the winner stored: once a refresh of the current
  grant was saved, another refresh that is not forced finds the new access token and
  returns at once, whatever the token endpoint would have answered, as long as the token
  does not expire within the next minute.
\<close>

theorem saved_token_is_reused:
  assumes m: "oauth_refresh_material a v = Some m"
    and saved: "finish_exchange env net L_Up a now m (Inr tokens) v = (Inr RO_Refreshed, v')"
    and lives: "case rt_expires_at (refreshed_tokens net now tokens) of None \<Rightarrow> True
      | Some e \<Rightarrow> i64_saturating_add later REFRESH_BUFFER_SECS < e"
  shows "fst (refresh_under_lock env net' L_Up n a False later v') = Inr RO_NotNeeded"
proof -
  let ?save = "save_request net a now m tokens" and ?r = "length (va_answers v)"
  let ?v = "handle_save_oauth_token env ?save ?r v"
  obtain c where c: "map_of (va_credentials v) a = Some c" "refresh_token_of c = Some (rm_refresh_token m)"
    using material_token [OF m] by blast
  have grant: "is_provider_grant c" using m c(1) by (cases c) (auto simp: oauth_refresh_material_def split: option.splits if_splits)
  have fields: "sv_account ?save = a" "sv_expected_refresh_token ?save = Some (rm_refresh_token m)"
    "sv_expires_at ?save = rt_expires_at (refreshed_tokens net now tokens)" by (simp_all add: save_request_def)
  have unchanged: "refresh_token_unchanged c (Some (rm_refresh_token m))"
    using c(2) by (simp add: refresh_token_unchanged_def refresh_token_of_def)
  have ask: "ask_daemon env (VC_SaveOAuthToken ?save) v = (Some (VA_Result q), vault_command env (VC_SaveOAuthToken ?save ?r) v)"
    if "va_answers ?v = va_answers v @ [(?r, VA_Result q)]" for q
    using that by (simp add: ask_daemon_def vault_command_def Let_def)
  note handle = handle_save_oauth_token_def fields c(1) grant unchanged
  have unlocked: "\<not> va_locked v"
    using saved finish_saved [OF ask saved, of "Inl ''unlock the keystore first''"]
    by (auto simp: handle_save_oauth_token_def)
  obtain u r i where u: "?v = va_answer ?r (VA_Result (Inr ())) (cache_token ?save u)"
    and cred: "map_of (va_credentials u) a = Some (rotate_grant r i c)" and ans: "va_answers u = va_answers v"
  proof (cases "durable_change ?save c")
    case False
    then show ?thesis using that [of v None None] c(1) by (simp add: handle unlocked rotate_nothing)
  next
    case True
    let ?new = "rotate_grant (sv_rotated_refresh_token ?save) (sv_new_account_id ?save) c"
    show ?thesis
    proof (cases "encrypt_and_persist_credential env a ?new v")
      case (Inl e)
      then show ?thesis using finish_saved [OF ask saved, of "Inl e"] by (simp add: handle unlocked True Let_def)
    next
      case (Inr v1)
      then have "va_credentials v1 = va_credentials v" "va_answers v1 = va_answers v"
        by (auto simp: encrypt_and_persist_credential_def set_credential_blob_def split: if_splits sum.splits option.splits)
      then show ?thesis using that [of "insert_credential a ?new v1"]
        by (simp add: handle unlocked True Inr Let_def insert_credential_def map_of_hm_insert)
    qed
  qed
  have v': "v' = vault_command env (VC_SaveOAuthToken ?save ?r) v"
    using finish_saved [OF ask saved, of "Inr ()"] by (simp add: u ans)
  have creds: "map_of (va_credentials v') a = Some (rotate_grant r i c)"
    using cred by (simp add: v' command_fields u cache_token_def)
  have dead: "a \<notin> set (va_dead_oauth v')" by (simp add: v' command_fields u cache_token_def fields)
  have cached: "map_of (va_access_tokens v') a = Some \<lparr>atc_access_token = sv_access_token ?save,
      atc_expires_at = rt_expires_at (refreshed_tokens net now tokens), atc_received_at = sv_received_at ?save\<rparr>"
    by (simp add: v' vault_command_def Let_def u cache_token_def fields map_of_hm_insert)
  obtain m' where "oauth_refresh_material a v' = Some m'" using rotated_material [OF m c(1) creds] by blast
  then show ?thesis
    using lives dead cached
    by (simp add: refresh_under_lock_def source_load_def ask_daemon_def Let_def vault_command_def refresh_needed_def
        oauth_token_load_def token_is_usable_def split: option.splits)
qed

theorem saved_token_is_reused_witness:
  "\<exists>m tokens v'. finish_exchange sample_grant_env rotating_net L_Up ''acct'' 0 m (Inr tokens) sample_grant_vault =
       (Inr RO_Refreshed, v') \<and>
     fst (refresh_under_lock sample_grant_env rejecting_net L_Up 1 ''acct'' False 5 v') = Inr RO_NotNeeded"
proof -
  let ?m = "the (oauth_refresh_material ''acct'' sample_grant_vault)"
  let ?tokens = "the (TokenSet_from_response (sample_tokens ''0''))"
  have "oauth_refresh_material ''acct'' sample_grant_vault \<noteq> None" by code_simp
  then have m: "oauth_refresh_material ''acct'' sample_grant_vault = Some ?m" by auto
  have "fst (finish_exchange sample_grant_env rotating_net L_Up ''acct'' 0 ?m (Inr ?tokens) sample_grant_vault) = Inr RO_Refreshed"
    by code_simp
  then obtain v' where saved: "finish_exchange sample_grant_env rotating_net L_Up ''acct'' 0 ?m (Inr ?tokens) sample_grant_vault =
      (Inr RO_Refreshed, v')"
    by (metis prod.collapse)
  have "rt_expires_at (refreshed_tokens rotating_net 0 ?tokens) = None" by code_simp
  then show ?thesis
    using saved_token_is_reused [OF m saved, of 5 rejecting_net 1] saved by auto
qed

end
