(* ===== verification/Spec2Isabelle.thy ===== *)
theory Spec2Isabelle
  imports Lag_Accounting Proto_Frame Proto_Messages Proto_Size Cache_Warm Subscribers Session_Requests
    Session_Deletion Agent_Ends Provider_Retry Connection_Replies Access_List Client_Pending
    File_Tools Unlock_Keys OAuth_Safe
begin

text \<open>
  A verification library for choreographr, a daemon that runs conversations with
  language models for several connected clients. The library models the part of the
  program that carries its own logic: the wire protocol and its framing, the delivery
  of messages to clients under memory limits, the encrypted transport and the
  admission of remote clients, the connection thread that serves a client's
  messages and the client's own table of requests, the state and the control thread of a
  session, the loop that asks the model and runs its tools, the retry policy towards
  the provider, the daemon's command loop with the life of its sessions, the session
  store, the keystore that seals the credentials under a client's key and the client's
  own store of such keys, the refresh of provider access tokens, the tools that change files with the locks they take, and the
  policy that keeps prompt caches warm. Paths below are relative to \<open>src/\<close>.

  \<^bold>\<open>How the program works.\<close> Clients connect over a socket and exchange length-prefixed
  frames (\<open>choreo-proto\<close>). One thread per connection reads requests, another writes
  what is queued for the client. One thread, the command loop, owns the daemon's
  state (\<open>choreo-daemon/src/daemon.rs\<close>) and handles commands one after the other.
  Every open session has a control thread of its own
  (\<open>choreo-daemon/src/sessions.rs\<close>) with a mailbox; a request runs on a worker thread
  that works on a snapshot of the session and reports back to the control thread.
  Events go from a session to the clients attached to it and, through the command
  loop, to the clients that follow all activity. Sessions, turns and images live in
  an embedded database (\<open>choreo-daemon/src/db\<close>). The same database holds the provider
  accounts and their credentials, sealed so that only a client that has the key can
  unlock them; a client keeps that key per daemon. The tools of a turn run on threads
  of their own, and those that change a file hold a lock per file.

  \<^bold>\<open>Theories, from the bottom up.\<close>
  \<^item> \<open>Prelude\<close>: machine integers, strings as UTF-8 bytes, the ordered map and the hash
    map of the source as association lists, with the interface \<open>kv_map\<close> both satisfy.
  \<^item> \<open>Proto_Types\<close>, \<open>Proto_Session\<close>, \<open>Proto_Messages\<close>: the records and enums of
    \<open>choreo-proto/src/types\<close> and \<open>choreo-shared/src/credential.rs\<close> with their functions:
    token usage (the interface \<open>usage_policy\<close>, with its two instances), the order of
    the session list (the interface \<open>comparator\<close>), labels and message kinds.
  \<^item> \<open>Proto_Size\<close>: the size estimate charged to a client's backlog (\<open>size.rs\<close>).
  \<^item> \<open>Proto_Frame\<close>: encoding, decoding and reading frames (\<open>frame.rs\<close>, \<open>io.rs\<close>,
    \<open>error.rs\<close>). The MessagePack codec is a parameter with the laws of the locale
    \<open>codec\<close>, interpreted on a small concrete codec.
  \<^item> \<open>Broadcast\<close>: sinks with their byte counters, the two lag limits, the evicting
    fan-out, the reply target that answers even when dropped (\<open>broadcast.rs\<close>), and the
    writer thread (\<open>server/connection.rs\<close>). \<open>Lag_Accounting\<close> runs the same operations
    as interleaved atomic steps of any number of senders and writers.
  \<^item> \<open>Rust_Str\<close>, \<open>Cache_Warm\<close>: the warming policy, its economics and its timer
    (\<open>cache_warm/\<close>).
  \<^item> \<open>Session_State\<close>: turns, undo and redo, tool results, snapshots, records
    (\<open>sessions/state.rs\<close>, \<open>types.rs\<close>, \<open>tokens.rs\<close>, \<open>db/sessions.rs\<close> for the record).
    \<open>Session_Command\<close>: the commands between the threads. \<open>Session_Handlers\<close>: every
    command handler of the control thread, its start, loop and exit, and the request
    worker. \<open>Session_Protocol\<close> and \<open>Session_Requests\<close>: what the control thread
    guarantees.
  \<^item> \<open>Db_Store\<close>: the tables for sessions, turns, key-value pairs, images and deletion
    marks, with a fault or none per transaction (\<open>db/sessions.rs\<close>, \<open>attachments.rs\<close>).
  \<^item> \<open>Text_Sanitize\<close>: what a tool's output goes through before the model and the
    clients see it: escaping, truncation, the byte budget (\<open>choreo-sanitize\<close>,
    \<open>tools/sanitize.rs\<close>). \<open>Request_Messages\<close>: the messages of a request, built from
    the turns of the session (\<open>reasoning.rs\<close>). \<open>Tool_Execution\<close>: starting a tool with
    its time limit, waiting for it, recording what it returns, storing a turn
    (\<open>requests/tool_execution.rs\<close>, \<open>requests/system_content.rs\<close>). \<open>Agent_Loop\<close>: the
    loop of a request (\<open>requests.rs\<close>) and the worker around it. \<open>Agent_Correct\<close>,
    \<open>Agent_Tools\<close>, \<open>Agent_Ends\<close>: what the loop guarantees.
  \<^item> \<open>Provider_Retry\<close>: the attempts of one provider request, their waits and errors,
    the compression fallback and the gateway policy
    (\<open>choreo-ai-protocols/src/retry\<close>).
  \<^item> \<open>Subscribers\<close>: the client registry and the buses
    (\<open>daemon/subscriber_handlers.rs\<close>). \<open>Daemon_Models\<close>: the rest of the loop's state and
    the model lists (\<open>daemon/models.rs\<close>). \<open>Session_Lifecycle\<close>: creating, attaching,
    listing, cancelling, ending and deleting sessions (\<open>daemon.rs\<close>). \<open>Daemon_Open\<close>:
    start-up (\<open>daemon/open.rs\<close>). \<open>Session_Deletion\<close>: the loop, the session threads and
    the background deletes as one step relation.
  \<^item> \<open>Client_Connection\<close>: the reader thread of a connection with the dispatch of every
    client message (\<open>server/connection.rs\<close>, \<open>server/connection/handlers.rs\<close>), over an
    environment that says what the daemon and the sessions answer.
    \<open>Connection_Replies\<close>: what a client can rely on. \<open>Transport\<close>: fragments, sealing
    and both handshakes (\<open>choreo-transport/src/noise.rs\<close>, \<open>handshake.rs\<close>), with the
    ciphers and the Noise state machine as parameters. \<open>Access_List\<close>: the enrolled
    keys (\<open>server/acl.rs\<close>), the commands that change them and the admission of remote
    connections. \<open>Client_Pending\<close>: a client's requests in flight
    (\<open>choreo-client-core/src/pending.rs\<close>).
  \<^item> \<open>Keystore\<close>: the sealed box, the accounts with their validation, the unlock, lock,
    bind and save handlers, the stored OAuth grants and their quarantine
    (\<open>choreo-keystore/src/crypto.rs\<close>, \<open>daemon/keystore.rs\<close>, \<open>daemon/oauth_store\<close>,
    \<open>daemon/provider_auth.rs\<close>). \<open>Keystore_Safe\<close>: the commands as a step relation and what the
    keystore guarantees. \<open>Unlock_Keys\<close>: the client's store of unlock keys
    (\<open>choreo-client-core/src/known_servers.rs\<close>, \<open>credentials.rs\<close>), and both sides together.
  \<^item> \<open>Url_Form\<close>: the form codec and the endpoint policy of OAuth requests
    (\<open>choreo-shared/src/form.rs\<close>, \<open>oauth_endpoint.rs\<close>, \<open>url.rs\<close>). \<open>OAuth_Refresh\<close>: the exchange
    with a token endpoint (\<open>choreo-ai-protocols/src/oauth\<close>), one refresh from load to save, and
    the registry of locks with any number of refreshes interleaved (\<open>oauth_refresh\<close>,
    \<open>oauth_refresh_locks.rs\<close>). \<open>OAuth_Safe\<close>: what they guarantee together with the keystore.
    The control thread of a session takes the result of a refresh as a parameter.
  \<^item> \<open>File_Locks\<close>: the registry of per-file locks, with any number of calls interleaved
    (\<open>tools/file_locks.rs\<close>). \<open>Str_Search\<close>: finding, splitting and replacing in strings,
    as the standard library does. \<open>File_Tools\<close>: the tools that write and edit files
    (\<open>tools/fs\<close>), run under those locks.
  \<^item> This theory: properties that span the session threads and the registry.

  \<^bold>\<open>Modelling.\<close> A struct is a record, an enum a datatype, a handler a function from
  state to state; what a handler sends (replies, commands to other threads, messages
  to clients) is appended to queues in the state. Handlers run to completion on one
  thread, so functions are enough inside a thread; where threads interleave
  (\<open>Lag_Accounting\<close>, \<open>Session_Deletion\<close>, \<open>File_Locks\<close>, \<open>OAuth_Refresh\<close>, the warming timer), and where a
  property is about every sequence of commands (\<open>Keystore_Safe\<close>), there is an inductive
  step relation. Clocks, database faults, catalogs, providers and tools are arguments:
  functions of an environment or context record, indexed by the number of uses so
  that they may answer differently each time. Integers that wrap or saturate in the
  source do so in the model. Loops are structural recursion on the list they walk,
  except the shutdown join, the retried turn write, the provider attempts, the
  handshake reads and writes and the splitting of strings, which have a termination measure, and two loops that
  need not end: the agent loop without a turn limit, and the reassembly of a message
  from a peer that never sends a last fragment. They are partial functions whose
  result \<open>None\<close> means that they run forever, and the properties show that they return
  (the agent loop with a turn limit, or when the provider only cuts off its answers;
  the reassembly for what the other side sends). No definition uses fuel.

  \<^bold>\<open>What is shown.\<close> A deleted session stays deleted under every interleaving and across
  a crash; every request is answered once and in order; one request runs at a time
  and under the announced turn; broadcasts reach each client once; the shared byte
  counters balance and return to zero; eviction is complete and picks a largest
  backlog; undo and redo are inverse; the store gives back what was written and its
  purge is all or nothing; frames round-trip and are bounded; model fetches are
  guarded exactly; cache pings are timely and never lose money. Every request the
  agent loop sends is well formed, a batch of tools is collected whole, the loop
  returns within its limits, and a success means that the answer is in the store;
  sanitised output is inert and within its bounds; a provider request returns its
  first definite answer after a bounded number of attempts. Every message of a client
  is settled once by its connection, which is attached to one session at a time and
  stays within the client's trust; only enrolled clients are served from outside;
  sealed messages round-trip, their reception and the handshakes are bounded; each
  request of a client ends once. Calls that change the same file exclude each other,
  never deadlock, and take effect as if they ran one after the other; an edit replaces
  exactly what it names, keeps the file UTF-8, and a batch of edits is made whole or
  not at all. A locked keystore holds no secret in memory, only the bound key unlocks
  it, an unlock succeeds whole or changes nothing, a saved credential survives a
  restart, and a client that bound a keystore can unlock it again. One refresh of a
  credential runs at a time, a refresh token is never presented again once it has been
  replaced, and the loser of a race reuses the token the winner stored. Some theorems record
  defects of the source: a redo that survives new input, a listed session that cannot
  be opened after a failed delete, session ids handed out twice after a failed index
  load, an enrolment that reports success and locks every client out, a query that is
  never answered, turn maps charged by the value of their ids, a rejection of an old
  grant that quarantines the new one, a lock that lands during an exchange and costs the
  grant, a bound keystore reported as unbound, upon which
  the client gives up the key that opens it.

  \<^bold>\<open>Not modelled.\<close> What a provider answers, what a tool does, the tokenizer and the
  prompt texts are parameters of the agent loop, and the forwarding of a running
  tool's live output is left out. Providers' wire formats, the other tools, MCP connections,
  image and markdown processing, and the terminal, graphical and messaging clients
  are input and output around libraries. The cryptography of the keystore and the
  transport comes from third-party crates and is a parameter with its documented laws.
  Database migrations, configuration files and the catalog refresh are not modelled;
  nor are the commands that list and remove accounts, the sign-in flows of the clients,
  the listening sockets and the start and stop of the server around
  them. The connection thread waits for answers of the loop; the two are
  modelled apart, with the answers a parameter of the connection.
\<close>

section \<open>Sessions and the daemon together\<close>

text \<open>
  The daemon and a session agree on who is attached: a registered client is
  listed as attached to the session exactly if the session delivers to that
  client's own sink, and no other subscriber of the session uses that sink.
\<close>

definition attachment_agrees :: "u64 \<Rightarrow> DaemonState \<Rightarrow> SessionState \<Rightarrow> bool" where
  "attachment_agrees sid s st \<longleftrightarrow> distinct (map snd (st_subscribers st)) \<and>
     (\<forall>(c, e) \<in> set (ds_clients s).
        (sid \<in> set (cl_sessions e)) = (cl_writer e \<in> set (map snd (st_subscribers st))))"

lemma session_broadcast_queue:
  assumes "distinct (map snd (st_subscribers st))"
  shows "ch_queue (hub_chan (w_hub (snd (session_broadcast ctx m st w))) k) = ch_queue (hub_chan (w_hub w) k) @
    (if k \<in> set (map snd (st_subscribers st)) \<and> hub_up (w_hub w) k then [DaemonMessage_broadcast m] else [])"
proof -
  let ?alive = "alive_subs (w_hub w) (st_subscribers st)"
  have "distinct (map (\<lambda>(_, k). k) ?alive)"
    using assms by (simp add: alive_subs_def distinct_map_filter case_prod_beta [abs_def])
  from sink_filter_count [OF this, of k]
  have "length (filter (\<lambda>(_, e). e = k) ?alive) = (if \<exists>c. (c, k) \<in> set ?alive then 1 else 0)" by simp
  moreover have "(\<exists>c. (c, k) \<in> set ?alive) \<longleftrightarrow> k \<in> set (map snd (st_subscribers st)) \<and> hub_up (w_hub w) k"
    by (force simp: alive_subs_def hub_up_def)
  ultimately show ?thesis by (simp add: session_broadcast_hub store_simps replicate_Suc)
qed

lemma session_broadcast_posts:
  "\<exists>evictions. w_daemon_tx (snd (session_broadcast ctx m st w)) = w_daemon_tx w @
     DC_BroadcastActivity (Some (ctx_session_id ctx)) (DaemonMessage_broadcast m) # evictions"
  by (simp add: session_broadcast_def Let_def case_prod_beta)



end
